(* ===== verification/Nr_Prelude.thy ===== *)
theory Nr_Prelude
  imports Main "HOL-Library.Word"
begin

text \<open>
  Shared ground of the development: the machine types of the C sources, the faults that stand
  for \<open>exit(1)\<close>, failed assertions and bad memory accesses, the C remainder operator, and the
  generic lemmas on lists, sums and words that the component theories use.

  Conventions. A C \<open>int\<close> that holds a sequence number, a size or an identifier is an
  \<open>int\<close>: all such values stay far below \<open>2^31\<close> (sequence numbers have at most 18 bits,
  buffer sizes are bounded by the configured maxima). \<open>uint8_t\<close>, \<open>uint32_t\<close> and
  \<open>uint64_t\<close> are words of that width, so that the wrap-around of the C operators is the
  wrap-around of the model. A C flag (an \<open>int\<close> that is 0 or 1) is a \<open>bool\<close>. A buffer with
  its size is the list of its bytes.
\<close>

unbundle bit_operations_syntax

type_synonym byte = "8 word"
type_synonym u32 = "32 word"
type_synonym u64 = "64 word"

section \<open>Faults\<close>

text \<open>
  The ways in which the modelled code stops the process or leaves the defined behaviour of C.
  Every operation that can do so returns \<open>fault + 'a\<close>.
\<close>

datatype fault =
    Exit_bit_count        \<comment> \<open>bit count above 31 handed to the PDU encoder/decoder\<close>
  | Exit_buffer_full      \<comment> \<open>PDU encoder: buffer full\<close>
  | Exit_sdu_too_big      \<comment> \<open>SDU larger than \<open>NR_SDU_MAX\<close>\<close>
  | Exit_bad_sn_length    \<comment> \<open>sequence number field length not allowed\<close>
  | Exit_bad_algorithm    \<comment> \<open>unknown ciphering or integrity algorithm\<close>
  | Exit_bad_size         \<comment> \<open>ring size that is not a power of two\<close>
  | Exit_fatal            \<comment> \<open>\<open>exit(1)\<close> after an error message that calls it fatal\<close>
  | Assert_failed         \<comment> \<open>\<open>DevAssert\<close> or \<open>AssertFatal\<close>\<close>
  | Null_dereference      \<comment> \<open>access through a null pointer\<close>
  | Dangling_pointer      \<comment> \<open>access to an SDU that has been freed\<close>
  | Out_of_bounds         \<comment> \<open>access outside a buffer\<close>
  | Endless_loop          \<comment> \<open>a loop that runs for as many steps as its variable has values\<close>

type_synonym 'a res = "fault + 'a"

definition bindr :: "'a res \<Rightarrow> ('a \<Rightarrow> 'b res) \<Rightarrow> 'b res" where
  "bindr m k = (case m of Inl f \<Rightarrow> Inl f | Inr x \<Rightarrow> k x)"

lemma bindr_simps [simp]:
  "bindr (Inl f) k = Inl f"
  "bindr (Inr x) k = k x"
  by (simp_all add: bindr_def)

lemma bindr_assoc: "bindr (bindr m f) g = bindr m (\<lambda>x. bindr (f x) g)"
  by (cases m) simp_all

lemma bindr_Inr_iff: "bindr m k = Inr y \<longleftrightarrow> (\<exists>x. m = Inr x \<and> k x = Inr y)"
  by (simp add: bindr_def split: sum.splits)

lemma bindr_InrE [elim!]:
  assumes "bindr m k = Inr y"
  obtains x where "m = Inr x" and "k x = Inr y"
  using assms by (auto simp: bindr_Inr_iff)

lemma bindr_cong [fundef_cong]:
  "m = m' \<Longrightarrow> (\<And>x. m' = Inr x \<Longrightarrow> k x = k' x) \<Longrightarrow> bindr m k = bindr m' k'"
  by (cases m') auto

section \<open>C arithmetic\<close>

text \<open>
  The C operator \<open>%\<close> on signed operands with a positive divisor: the remainder has the sign of
  the dividend.
\<close>

definition crem :: "int \<Rightarrow> int \<Rightarrow> int" where
  "crem a b = (if a < 0 then - ((- a) mod b) else a mod b)"

lemma crem_nonneg [simp]: "0 \<le> a \<Longrightarrow> crem a b = a mod b"
  by (simp add: crem_def)

lemma crem_range: "0 \<le> a \<Longrightarrow> 0 < b \<Longrightarrow> 0 \<le> crem a b \<and> crem a b < b"
  by simp

lemma mod_plus_wrap:
  assumes "0 \<le> a" "a < m" "(0::int) \<le> k" "k \<le> m"
  shows "(a + k) mod m = (if a + k < m then a + k else a + k - m)"
proof (cases "a + k < m")
  case False
  have "(a + k) mod m = (a + k - m + m) mod m" by simp
  also have "\<dots> = (a + k - m) mod m" by (rule mod_add_self2)
  also have "\<dots> = a + k - m"
    using False assms by (intro mod_pos_pos_trivial) auto
  finally show ?thesis using False by simp
qed (use assms in \<open>simp add: mod_pos_pos_trivial\<close>)

lemma nat_mod_plus_wrap:
  "(t::nat) < m \<Longrightarrow> i \<le> m \<Longrightarrow> (t + i) mod m = (if t + i < m then t + i else t + i - m)"
  by (auto simp: le_mod_geq)

lemma nat_mod_plus_inj:
  "(t::nat) < m \<Longrightarrow> i < m \<Longrightarrow> j < m \<Longrightarrow> (t + i) mod m = (t + j) mod m \<longleftrightarrow> i = j"
  by (auto simp: nat_mod_plus_wrap split: if_splits)

section \<open>Lists\<close>

lemma take_drop_split: "take n xs @ take m (drop n xs) = take (n + m) xs"
  by (simp add: take_add)

lemma take_append_drop_Suc:
  "i < length xs \<Longrightarrow> take (Suc i) xs = take i xs @ [xs ! i]"
  by (rule take_Suc_conv_app_nth)

lemma list_update_take_drop:
  "i < length xs \<Longrightarrow> xs[i := v] = take i xs @ v # drop (Suc i) xs"
  by (simp add: upd_conv_take_nth_drop)

lemma last_append_if: "last (xs @ ys) = (if ys = [] then last xs else last ys)"
  by (simp add: last_append)

text \<open>
  Insertion before the first element that satisfies a test: the loop with a \<open>head\<close>,
  \<open>prev\<close> and \<open>cur\<close> pointer that the sources use for every ordered list.
\<close>

fun insert_before :: "('a \<Rightarrow> bool) \<Rightarrow> 'a \<Rightarrow> 'a list \<Rightarrow> 'a list" where
  "insert_before P x [] = [x]"
| "insert_before P x (y # l) = (if P y then x # y # l else y # insert_before P x l)"

lemma set_insert_before [simp]: "set (insert_before P x l) = insert x (set l)"
  by (induction l) auto

lemma length_insert_before [simp]: "length (insert_before P x l) = Suc (length l)"
  by (induction l) auto

lemma insert_before_not_Nil [simp]: "insert_before P x l \<noteq> []"
  by (cases l) auto

lemma sum_insert_before [simp]:
  "sum_list (map f (insert_before P x l)) = (f x :: int) + sum_list (map f l)"
  by (induction l) auto

lemma distinct_map_insert_before [simp]:
  "distinct (map f (insert_before P x l)) \<longleftrightarrow> f x \<notin> f ` set l \<and> distinct (map f l)"
  by (induction l) auto

lemma sorted_wrt_insert_before:
  assumes "sorted_wrt R l" and "transp_on (insert x (set l)) R"
    and "\<And>y. y \<in> set l \<Longrightarrow> P y \<Longrightarrow> R x y"
    and "\<And>y. y \<in> set l \<Longrightarrow> \<not> P y \<Longrightarrow> R y x"
  shows "sorted_wrt R (insert_before P x l)"
  using assms
proof (induction l)
  case (Cons y l)
  have trans: "transp_on (insert x (set l)) R"
    using Cons.prems(2) by (rule transp_on_subset) auto
  show ?case
  proof (cases "P y")
    case True
    then have xy: "R x y" using Cons.prems(3) by simp
    have "R x z" if "z \<in> set l" for z
    proof (rule transp_onD [OF Cons.prems(2) _ _ _ xy])
      show "R y z" using Cons.prems(1) that by simp
    qed (use that in auto)
    with xy True Cons.prems(1) show ?thesis by simp
  next
    case False
    then have "R y x" using Cons.prems(4) by simp
    with False Cons.prems Cons.IH [OF _ trans] show ?thesis by simp
  qed
qed simp

section \<open>Memory\<close>

text \<open>
  \<open>memcpy(dst + dpos, src + spos, n)\<close> between two buffers: outside of either buffer it is a
  fault.
\<close>

definition mem_copy :: "byte list \<Rightarrow> int \<Rightarrow> byte list \<Rightarrow> int \<Rightarrow> int \<Rightarrow> byte list res" where
  "mem_copy dst dpos src spos n =
     (if n < 0 \<or> dpos < 0 \<or> spos < 0 \<or>
         dpos + n > int (length dst) \<or> spos + n > int (length src)
      then Inl Out_of_bounds
      else Inr (take (nat dpos) dst @ take (nat n) (drop (nat spos) src) @
                drop (nat dpos + nat n) dst))"

lemma mem_copy_ok:
  assumes "0 \<le> n" "0 \<le> dpos" "0 \<le> spos" "dpos + n \<le> int (length dst)"
    "spos + n \<le> int (length src)"
  shows "\<exists>b. mem_copy dst dpos src spos n = Inr b \<and> length b = length dst \<and>
             take (nat dpos) b = take (nat dpos) dst \<and>
             take (nat (dpos + n)) b = take (nat dpos) dst @ take (nat n) (drop (nat spos) src)"
proof -
  have "nat (dpos + n) = nat dpos + nat n" using assms by (simp add: nat_add_distrib)
  with assms show ?thesis by (auto simp: mem_copy_def)
qed

end
