(* ===== verification/Nr_Rlc_Sdu.thy ===== *)
theory Nr_Rlc_Sdu
  imports Nr_Prelude "HOL-Library.Multiset"
begin

text \<open>
  Model of \<open>openair2/LAYER2/nr_rlc/nr_rlc_sdu.c\<close> and \<open>nr_rlc_sdu.h\<close>: SDUs on the transmit
  side and the segments that refer to them.

  Several segments share one SDU through a pointer, and the sequence number, the retransmission
  count and the two reference counters are written through any of them. The model keeps that
  aliasing: SDUs live in a store that maps addresses to SDUs, a segment holds the address of its
  SDU, and \<open>free\<close> removes the SDU from the store. A segment has an address of its own, which is
  what the list-end pointers of the entities (\<open>tx_end\<close>, \<open>wait_end\<close>) hold.

  The invariant \<open>heap_ok\<close> states that \<open>ref_count - free_count\<close> of an SDU is the number of its
  segments that are alive. It makes every access valid, and an SDU is freed with its last segment
  and not before. The lemmas hold for the more general \<open>heap_leak lk\<close>, where \<open>lk a\<close> counts
  references to the SDU at \<open>a\<close> that no segment holds any more: accesses stay valid, but an SDU
  with such a reference is never freed.
\<close>

section \<open>Data\<close>

record nr_rlc_sdu =
  sdu_sn :: int
  sdu_upper_layer_id :: int
  sdu_data :: "byte list"
  sdu_size :: int
  sdu_retx_count :: int
  sdu_ref_count :: int
  sdu_free_count :: int
  sdu_time_of_arrival :: u64

record nr_rlc_sdu_segment =
  seg_addr :: nat
  seg_sdu :: nat
  seg_size :: int
  seg_so :: int
  seg_is_first :: bool
  seg_is_last :: bool

type_synonym segs = "nr_rlc_sdu_segment list"

text \<open>The store of SDUs; \<open>h_next\<close> is the next address the allocator hands out.\<close>

record rlc_heap =
  h_sdus :: "nat \<Rightarrow> nr_rlc_sdu option"
  h_next :: nat

definition empty_heap :: rlc_heap where
  "empty_heap = \<lparr>h_sdus = Map.empty, h_next = 0\<rparr>"

text \<open>Reading and writing an SDU through the pointer of a segment.\<close>

definition deref :: "rlc_heap \<Rightarrow> nr_rlc_sdu_segment \<Rightarrow> nr_rlc_sdu res" where
  "deref h seg = (case h_sdus h (seg_sdu seg) of None \<Rightarrow> Inl Dangling_pointer | Some s \<Rightarrow> Inr s)"

definition store :: "rlc_heap \<Rightarrow> nr_rlc_sdu_segment \<Rightarrow> nr_rlc_sdu \<Rightarrow> rlc_heap" where
  "store h seg s = h\<lparr>h_sdus := (h_sdus h)(seg_sdu seg \<mapsto> s)\<rparr>"

section \<open>Operations\<close>

definition nr_rlc_new_sdu ::
  "rlc_heap \<Rightarrow> byte list \<Rightarrow> int \<Rightarrow> nr_rlc_sdu_segment \<times> rlc_heap" where
  "nr_rlc_new_sdu h buffer upper_layer_id =
     (let sdu = \<lparr>sdu_sn = - 1, sdu_upper_layer_id = upper_layer_id, sdu_data = buffer,
                 sdu_size = int (length buffer), sdu_retx_count = - 1, sdu_ref_count = 1,
                 sdu_free_count = 0, sdu_time_of_arrival = 0\<rparr>;
          ret = \<lparr>seg_addr = h_next h + 1, seg_sdu = h_next h, seg_size = int (length buffer),
                 seg_so = 0, seg_is_first = True, seg_is_last = True\<rparr>
      in (ret, h\<lparr>h_sdus := (h_sdus h)(h_next h \<mapsto> sdu), h_next := h_next h + 2\<rparr>))"

text \<open>Returns whether the SDU has been freed too.\<close>

definition nr_rlc_free_sdu_segment :: "rlc_heap \<Rightarrow> nr_rlc_sdu_segment \<Rightarrow> (bool \<times> rlc_heap) res" where
  "nr_rlc_free_sdu_segment h seg =
     bindr (deref h seg) (\<lambda>s.
       let s = s\<lparr>sdu_free_count := sdu_free_count s + 1\<rparr>
       in if sdu_free_count s = sdu_ref_count s
          then Inr (True, h\<lparr>h_sdus := (h_sdus h)(seg_sdu seg := None)\<rparr>)
          else Inr (False, store h seg s))"

text \<open>
  \<open>(*end)->next = sdu\<close> for the list that holds the segment with address \<open>e\<close>: what follows that
  segment is cut off and replaced by the new one. A segment outside of the list leaves the list
  unchanged.
\<close>

fun link_after :: "nat \<Rightarrow> segs \<Rightarrow> nr_rlc_sdu_segment \<Rightarrow> segs" where
  "link_after e [] s = []"
| "link_after e (x # l) s = (if seg_addr x = e then [x, s] else x # link_after e l s)"

definition nr_rlc_sdu_segment_list_append ::
  "segs \<times> nat option \<Rightarrow> nr_rlc_sdu_segment \<Rightarrow> (segs \<times> nat option) res" where
  "nr_rlc_sdu_segment_list_append le sdu =
     (case le of (list, end) \<Rightarrow>
        if list = [] then Inr ([sdu], Some (seg_addr sdu))
        else case end of
               None \<Rightarrow> Inl Null_dereference
             | Some e \<Rightarrow> Inr (link_after e list sdu, Some (seg_addr sdu)))"

fun nr_rlc_free_sdu_segment_list :: "rlc_heap \<Rightarrow> segs \<Rightarrow> rlc_heap res" where
  "nr_rlc_free_sdu_segment_list h [] = Inr h"
| "nr_rlc_free_sdu_segment_list h (cur # l) =
     bindr (nr_rlc_free_sdu_segment h cur) (\<lambda>(_, h'). nr_rlc_free_sdu_segment_list h' l)"

text \<open>
  The search of the \<open>discard_sdu\<close> of both entities: the segments before the first one of the SDU, and the rest.
\<close>

fun find_upper_layer_id :: "rlc_heap \<Rightarrow> int \<Rightarrow> segs \<Rightarrow> (segs \<times> segs) res" where
  "find_upper_layer_id h sdu_id [] = Inr ([], [])"
| "find_upper_layer_id h sdu_id (cur # l) =
     bindr (deref h cur) (\<lambda>s.
       if sdu_upper_layer_id s \<noteq> sdu_id
       then bindr (find_upper_layer_id h sdu_id l) (\<lambda>(before, rest). Inr (cur # before, rest))
       else Inr ([], cur # l))"

section \<open>List-end pointers\<close>

definition end_ok :: "segs \<Rightarrow> nat option \<Rightarrow> bool" where
  "end_ok l e \<longleftrightarrow> e = (if l = [] then None else Some (seg_addr (last l)))"

lemma end_ok_simps [simp]:
  "end_ok [] e \<longleftrightarrow> e = None"
  "end_ok (l @ [s]) e \<longleftrightarrow> e = Some (seg_addr s)"
  by (auto simp: end_ok_def)

text \<open>The end of a list from which \<open>cur\<close> has been taken out.\<close>

lemma end_ok_remove:
  assumes "end_ok (before @ cur # after) en" and "distinct (map seg_addr (before @ cur # after))"
  shows "end_ok (before @ after)
     (if en = Some (seg_addr cur) then if before \<noteq> [] then Some (seg_addr (last before)) else None else en)"
proof (cases "after = []")
  case True
  with assms show ?thesis by (auto simp: end_ok_def)
next
  case ne: False
  have "seg_addr cur \<notin> seg_addr ` set after" using assms(2) by simp
  then have "seg_addr (last after) \<noteq> seg_addr cur" using last_in_set [OF ne] by (metis imageI)
  with assms(1) ne show ?thesis by (auto simp: end_ok_def)
qed

lemma link_after_last:
  "distinct (map seg_addr l) \<Longrightarrow> l \<noteq> [] \<Longrightarrow> link_after (seg_addr (last l)) l s = l @ [s]"
proof (induction l)
  case (Cons x l)
  show ?case
  proof (cases "l = []")
    case False
    then have "seg_addr x \<noteq> seg_addr (last l)"
      using Cons.prems(1) last_in_set by fastforce
    with False Cons show ?thesis by auto
  qed simp
qed simp

text \<open>With a correct end pointer the append operation appends.\<close>

lemma list_append_ok:
  assumes "end_ok l e" and "distinct (map seg_addr l)"
  shows "nr_rlc_sdu_segment_list_append (l, e) s = Inr (l @ [s], Some (seg_addr s))"
  using assms link_after_last [of l s]
  by (auto simp: nr_rlc_sdu_segment_list_append_def end_ok_def)

section \<open>The store and its segments\<close>

definition refs :: "segs \<Rightarrow> nat \<Rightarrow> nat" where
  "refs segs a = length (filter (\<lambda>s. seg_sdu s = a) segs)"

definition sdu_ok :: "nr_rlc_sdu \<Rightarrow> bool" where
  "sdu_ok s \<longleftrightarrow> sdu_size s = int (length (sdu_data s))"

definition seg_ok :: "rlc_heap \<Rightarrow> nr_rlc_sdu_segment \<Rightarrow> bool" where
  "seg_ok h seg \<longleftrightarrow> (\<exists>s. h_sdus h (seg_sdu seg) = Some s \<and> sdu_ok s \<and>
     0 \<le> seg_so seg \<and> 0 \<le> seg_size seg \<and> seg_so seg + seg_size seg \<le> sdu_size s \<and>
     (seg_is_first seg \<longleftrightarrow> seg_so seg = 0) \<and>
     (seg_is_last seg \<longleftrightarrow> seg_so seg + seg_size seg = sdu_size s))"

definition heap_leak :: "(nat \<Rightarrow> nat) \<Rightarrow> rlc_heap \<Rightarrow> segs \<Rightarrow> bool" where
  "heap_leak lk h segs \<longleftrightarrow>
     distinct (map seg_addr segs) \<and>
     (\<forall>seg \<in> set segs. seg_addr seg < h_next h \<and> seg_ok h seg) \<and>
     (\<forall>a \<ge> h_next h. h_sdus h a = None \<and> lk a = 0) \<and>
     (\<forall>a s. h_sdus h a = Some s \<longrightarrow> 0 < refs segs a + lk a \<and>
        sdu_ref_count s - sdu_free_count s = int (refs segs a + lk a))"

abbreviation heap_ok :: "rlc_heap \<Rightarrow> segs \<Rightarrow> bool" where
  "heap_ok \<equiv> heap_leak (\<lambda>_. 0)"

lemma refs_simps [simp]:
  "refs [] a = 0"
  "refs (x # l) a = (if seg_sdu x = a then Suc (refs l a) else refs l a)"
  "refs (l @ k) a = refs l a + refs k a"
  by (simp_all add: refs_def)

lemma refs_perm: "mset l = mset k \<Longrightarrow> refs l a = refs k a"
  unfolding refs_def by (metis mset_filter size_mset)

lemma refs_pos: "x \<in> set l \<Longrightarrow> 0 < refs l (seg_sdu x)"
  by (auto simp: refs_def length_greater_0_conv filter_empty_conv)

lemma heap_ok_perm:
  assumes "heap_leak lk h l" and "mset l = mset k"
  shows "heap_leak lk h k"
proof -
  have "set l = set k" using assms(2) by (rule mset_eq_setD)
  moreover have "distinct (map seg_addr l) = distinct (map seg_addr k)"
    using assms(2) by (metis mset_eq_imp_distinct_iff mset_map)
  moreover have "refs l a = refs k a" for a using assms(2) by (rule refs_perm)
  ultimately show ?thesis using assms(1) by (simp add: heap_leak_def)
qed

lemma seg_ok_h_next [simp]: "seg_ok (h\<lparr>h_next := n\<rparr>) x = seg_ok h x"
  by (simp add: seg_ok_def)

lemma seg_ok_other [simp]:
  "seg_sdu x \<noteq> a \<Longrightarrow> seg_ok (h\<lparr>h_sdus := (h_sdus h)(a := v)\<rparr>) x = seg_ok h x"
  by (simp add: seg_ok_def)

lemma seg_ok_store:
  assumes "h_sdus h (seg_sdu seg) = Some s" "sdu_data s' = sdu_data s" "sdu_size s' = sdu_size s"
  shows "seg_ok (store h seg s') x = seg_ok h x"
  using assms by (auto simp: seg_ok_def store_def sdu_ok_def)

lemma store_simps [simp]:
  "h_next (store h seg s) = h_next h"
  "h_sdus (store h seg s) = (h_sdus h)(seg_sdu seg \<mapsto> s)"
  by (simp_all add: store_def)

lemma heap_ok_empty [simp]: "heap_ok empty_heap []"
  by (simp add: heap_leak_def empty_heap_def)

lemma heap_ok_deref:
  assumes "heap_leak lk h l" and "seg \<in> set l"
  obtains s where "deref h seg = Inr s" "h_sdus h (seg_sdu seg) = Some s" "sdu_ok s"
    "sdu_ref_count s - sdu_free_count s = int (refs l (seg_sdu seg) + lk (seg_sdu seg))"
  using assms by (auto simp: heap_leak_def seg_ok_def deref_def)

lemma heap_ok_new_sdu:
  assumes "heap_leak lk h l" and "nr_rlc_new_sdu h buf i = (seg, h')"
  shows "heap_leak lk h' (seg # l)" and "seg_size seg = int (length buf)" and "seg_so seg = 0"
    and "seg_is_first seg" and "seg_is_last seg"
    and "h_sdus h' (seg_sdu seg) = Some \<lparr>sdu_sn = - 1, sdu_upper_layer_id = i, sdu_data = buf,
       sdu_size = int (length buf), sdu_retx_count = - 1, sdu_ref_count = 1,
       sdu_free_count = 0, sdu_time_of_arrival = 0\<rparr>"
    and "\<And>a. a \<noteq> seg_sdu seg \<Longrightarrow> h_sdus h' a = h_sdus h a"
    and "\<And>x. x \<in> set l \<Longrightarrow> seg_sdu x \<noteq> seg_sdu seg"
proof -
  have fresh: "h_sdus h (h_next h) = None" using assms(1) by (simp add: heap_leak_def)
  have old: "seg_sdu x \<noteq> h_next h \<and> seg_addr x \<noteq> Suc (h_next h) \<and>
      Suc (h_next h) \<noteq> seg_addr x \<and> seg_addr x < Suc (Suc (h_next h))" if "x \<in> set l" for x
    using assms(1) that fresh by (auto simp: heap_leak_def seg_ok_def)
  have r0: "refs l (h_next h) = 0"
    using old by (auto simp: refs_def filter_empty_conv)
  show "heap_leak lk h' (seg # l)"
    using assms old r0
    by (auto simp: heap_leak_def nr_rlc_new_sdu_def Let_def seg_ok_def sdu_ok_def
        split: if_splits) (metis less_nat_zero_code)
  show "seg_size seg = int (length buf)" "seg_so seg = 0" "seg_is_first seg" "seg_is_last seg"
    "h_sdus h' (seg_sdu seg) = Some \<lparr>sdu_sn = - 1, sdu_upper_layer_id = i, sdu_data = buf,
       sdu_size = int (length buf), sdu_retx_count = - 1, sdu_ref_count = 1,
       sdu_free_count = 0, sdu_time_of_arrival = 0\<rparr>"
    "\<And>a. a \<noteq> seg_sdu seg \<Longrightarrow> h_sdus h' a = h_sdus h a"
    "\<And>x. x \<in> set l \<Longrightarrow> seg_sdu x \<noteq> seg_sdu seg"
    using assms(2) old by (auto simp: nr_rlc_new_sdu_def Let_def)
qed

text \<open>
  Freeing one of the live segments: the access is valid, and the SDU goes exactly when the segment
  was its last one.
\<close>

lemma heap_ok_free:
  assumes "heap_leak lk h (seg # l)"
  shows "\<exists>freed h'. nr_rlc_free_sdu_segment h seg = Inr (freed, h') \<and> heap_leak lk h' l \<and>
           (freed \<longleftrightarrow> refs l (seg_sdu seg) + lk (seg_sdu seg) = 0) \<and> h_next h' = h_next h \<and>
           (\<forall>a. a \<noteq> seg_sdu seg \<longrightarrow> h_sdus h' a = h_sdus h a)"
proof -
  obtain s where s: "h_sdus h (seg_sdu seg) = Some s" "sdu_ok s"
    and cnt: "sdu_ref_count s - sdu_free_count s = int (Suc (refs l (seg_sdu seg) + lk (seg_sdu seg)))"
    and d: "deref h seg = Inr s"
    using heap_ok_deref [OF assms, of seg] by auto
  show ?thesis
  proof (cases "refs l (seg_sdu seg) + lk (seg_sdu seg) = 0")
    case True
    then have other: "seg_sdu x \<noteq> seg_sdu seg" if "x \<in> set l" for x
      using refs_pos [OF that] by auto
    let ?h = "h\<lparr>h_sdus := (h_sdus h)(seg_sdu seg := None)\<rparr>"
    have "heap_leak lk ?h l"
      using assms other by (auto simp: heap_leak_def split: if_splits)
    with True cnt d show ?thesis
      by (auto simp: nr_rlc_free_sdu_segment_def)
  next
    case False
    let ?s = "s\<lparr>sdu_free_count := sdu_free_count s + 1\<rparr>"
    have ok: "seg_ok (store h seg ?s) x = seg_ok h x" for x
      using s by (intro seg_ok_store) auto
    have "sdu_ref_count s - (sdu_free_count s + 1) = int (refs l (seg_sdu seg) + lk (seg_sdu seg))"
      using cnt by simp
    then have "heap_leak lk (store h seg ?s) l"
      using assms False s by (auto simp: heap_leak_def ok split: if_splits)
    with False cnt d show ?thesis
      by (auto simp: nr_rlc_free_sdu_segment_def)
  qed
qed

lemma heap_ok_free_list:
  "heap_leak lk h (k @ l) \<Longrightarrow> \<exists>h'. nr_rlc_free_sdu_segment_list h k = Inr h' \<and> heap_leak lk h' l"
proof (induction k arbitrary: h)
  case (Cons seg k)
  then obtain freed h' where "nr_rlc_free_sdu_segment h seg = Inr (freed, h')" "heap_leak lk h' (k @ l)"
    using heap_ok_free [of lk h seg "k @ l"] by auto
  with Cons.IH [of h'] show ?case by auto
qed simp

lemma heap_ok_Nil: "heap_ok h [] \<Longrightarrow> h_sdus h a = None"
  by (cases "h_sdus h a") (auto simp: heap_leak_def)

text \<open>Writing an SDU through a segment without touching its counters, data or size.\<close>

lemma heap_ok_store:
  assumes "heap_leak lk h l" and "h_sdus h (seg_sdu seg) = Some s"
    and "sdu_ref_count s' = sdu_ref_count s" and "sdu_free_count s' = sdu_free_count s"
    and "sdu_data s' = sdu_data s" and "sdu_size s' = sdu_size s"
  shows "heap_leak lk (store h seg s') l"
proof -
  have "seg_ok (store h seg s') x = seg_ok h x" for x
    using assms by (intro seg_ok_store) auto
  with assms show ?thesis by (auto simp: heap_leak_def split: if_splits)
qed

text \<open>
  Cutting a live segment in two: the SDU gets one more reference, the segment keeps its front part
  and a new segment takes the rest.
\<close>

lemma heap_ok_split:
  assumes "heap_leak lk h (seg # l)" and "h_sdus h (seg_sdu seg) = Some s"
    and "0 < n" and "n < seg_size seg" and "a = h_next h"
    and h': "h' = (store h seg (s\<lparr>sdu_ref_count := sdu_ref_count s + 1\<rparr>))\<lparr>h_next := h_next h + 1\<rparr>"
  shows "heap_leak lk h' (seg\<lparr>seg_size := n, seg_is_last := False\<rparr> #
     seg\<lparr>seg_addr := a, seg_size := seg_size seg - n, seg_so := seg_so seg + n,
         seg_is_first := False\<rparr> # l)"
proof -
  have lt: "seg_addr x < h_next h" "seg_addr x \<noteq> h_next h" "h_next h \<noteq> seg_addr x"
      "seg_addr x < Suc (h_next h)" if "x \<in> set (seg # l)" for x
    using assms(1) that by (auto simp: heap_leak_def)
  let ?s = "s\<lparr>sdu_ref_count := sdu_ref_count s + 1\<rparr>"
  have ok': "seg_ok h' x = seg_ok h x" for x
    using assms(2) unfolding h' seg_ok_h_next by (intro seg_ok_store) auto
  have segok: "seg_ok h seg" using assms(1) by (simp add: heap_leak_def)
  have cnt: "sdu_ref_count s + 1 - sdu_free_count s = int (Suc (Suc (refs l (seg_sdu seg) + lk (seg_sdu seg))))"
    using assms(1,2) by (simp add: heap_leak_def)
  have first: "seg_ok h (seg\<lparr>seg_size := n, seg_is_last := False\<rparr>)"
    and rest: "seg_ok h (seg\<lparr>seg_addr := a, seg_size := seg_size seg - n,
       seg_so := seg_so seg + n, seg_is_first := False\<rparr>)"
    using segok assms(3,4) by (auto simp: seg_ok_def)
  have sdus: "h_sdus h' = (h_sdus h)(seg_sdu seg \<mapsto> ?s)" "h_next h' = Suc (h_next h)"
    by (simp_all add: h')
  show ?thesis
    unfolding heap_leak_def ok' sdus
    using assms(1) lt cnt first rest assms(2,5)
    by (auto simp: heap_leak_def split: if_splits)
qed

lemma find_upper_layer_id_ok:
  assumes "\<forall>seg \<in> set l. \<exists>s. deref h seg = Inr s"
  shows "\<exists>before rest. find_upper_layer_id h i l = Inr (before, rest) \<and> l = before @ rest \<and>
     (rest \<noteq> [] \<longrightarrow> (\<exists>s. deref h (hd rest) = Inr s \<and> sdu_upper_layer_id s = i))"
  using assms
proof (induction l)
  case (Cons seg l)
  then obtain s before rest where "deref h seg = Inr s"
    "find_upper_layer_id h i l = Inr (before, rest)" "l = before @ rest"
    "rest \<noteq> [] \<longrightarrow> (\<exists>s. deref h (hd rest) = Inr s \<and> sdu_upper_layer_id s = i)"
    by auto
  then show ?case by auto
qed simp

end
