(* ===== verification/Nr_Rlc_Pdu.thy ===== *)
theory Nr_Rlc_Pdu
  imports Nr_Prelude
begin

text \<open>
  Model of \<open>openair2/LAYER2/nr_rlc/nr_rlc_pdu.c\<close> and \<open>nr_rlc_pdu.h\<close>: the received-PDU
  descriptor with its ordered list, the bit-wise PDU decoder and the bit-wise PDU encoder.

  The main results: a field written by the encoder is the field read by the decoder
  (\<open>put_fields_get_fields\<close>), the decoder reads inside its buffer only and reports the
  end of the buffer as an error, and the insertion into the PDU list keeps it ordered.
\<close>

section \<open>Received PDUs\<close>

text \<open>
  \<open>nr_rlc_pdu_t\<close>. The pointer \<open>next\<close> is the position in the list that holds the
  descriptor; \<open>data\<close> is \<open>None\<close> once the bytes have been processed and freed.
\<close>

record nr_rlc_pdu =
  pdu_sn :: int
  pdu_data :: "byte list option"
  pdu_size :: int
  pdu_so :: int
  pdu_is_first :: bool
  pdu_is_last :: bool

definition nr_rlc_new_pdu :: "int \<Rightarrow> int \<Rightarrow> bool \<Rightarrow> bool \<Rightarrow> byte list \<Rightarrow> nr_rlc_pdu" where
  "nr_rlc_new_pdu sn so is_first is_last data =
     \<lparr>pdu_sn = sn, pdu_data = Some data, pdu_size = int (length data), pdu_so = so,
      pdu_is_first = is_first, pdu_is_last = is_last\<rparr>"

text \<open>
  \<open>nr_rlc_pdu_list_add\<close>: the new PDU goes before the first element that is after it, in the
  order by \<open>sn\<close> (through the comparison function of the entity) and then by \<open>so\<close>.
\<close>

fun nr_rlc_pdu_list_add ::
  "(int \<Rightarrow> int \<Rightarrow> int) \<Rightarrow> nr_rlc_pdu list \<Rightarrow> nr_rlc_pdu \<Rightarrow> nr_rlc_pdu list" where
  "nr_rlc_pdu_list_add sn_compare [] pdu = [pdu]"
| "nr_rlc_pdu_list_add sn_compare (cur # l) pdu =
     (if sn_compare (pdu_sn cur) (pdu_sn pdu) > 0 \<or>
         (pdu_sn cur = pdu_sn pdu \<and> pdu_so cur > pdu_so pdu)
      then pdu # cur # l
      else cur # nr_rlc_pdu_list_add sn_compare l pdu)"

section \<open>PDU decoder\<close>

record nr_rlc_pdu_decoder =
  dec_error :: bool
  dec_byte :: nat
  dec_bit :: nat
  dec_buffer :: "byte list"
  dec_size :: nat

definition nr_rlc_pdu_decoder_init :: "byte list \<Rightarrow> nr_rlc_pdu_decoder" where
  "nr_rlc_pdu_decoder_init buffer =
     \<lparr>dec_error = False, dec_byte = 0, dec_bit = 0, dec_buffer = buffer,
      dec_size = length buffer\<rparr>"

definition get_bit :: "nr_rlc_pdu_decoder \<Rightarrow> int \<times> nr_rlc_pdu_decoder" where
  "get_bit d =
     (if dec_byte d \<ge> dec_size d then (0, d\<lparr>dec_error := True\<rparr>)
      else
        let ret = uint (drop_bit (7 - dec_bit d) (dec_buffer d ! dec_byte d) AND 1);
            d = d\<lparr>dec_bit := dec_bit d + 1\<rparr>;
            d = (if dec_bit d = 8 then d\<lparr>dec_bit := 0, dec_byte := dec_byte d + 1\<rparr> else d)
        in (ret, d))"

fun get_bits_loop :: "nat \<Rightarrow> int \<Rightarrow> nr_rlc_pdu_decoder \<Rightarrow> int \<times> nr_rlc_pdu_decoder" where
  "get_bits_loop 0 ret d = (ret, d)"
| "get_bits_loop (Suc n) ret d =
     (let (b, d') = get_bit d;
          ret' = push_bit 1 ret OR b
      in if dec_error d' then (- 1, d') else get_bits_loop n ret' d')"

definition nr_rlc_pdu_decoder_get_bits ::
  "nr_rlc_pdu_decoder \<Rightarrow> nat \<Rightarrow> (int \<times> nr_rlc_pdu_decoder) res" where
  "nr_rlc_pdu_decoder_get_bits d count =
     (if count > 31 then Inl Exit_bit_count else Inr (get_bits_loop count 0 d))"

text \<open>
  The callers follow every read with the macro \<open>R(decoder)\<close>, which jumps to their \<open>err\<close>
  label when the decoder is in error. \<open>read_field\<close> is that pair: the field is read, then
  either \<open>err\<close> or the rest of the caller runs.
\<close>

definition read_field ::
  "nr_rlc_pdu_decoder \<Rightarrow> nat \<Rightarrow> 'a res \<Rightarrow> (int \<Rightarrow> nr_rlc_pdu_decoder \<Rightarrow> 'a res) \<Rightarrow> 'a res" where
  "read_field d count err k =
     bindr (nr_rlc_pdu_decoder_get_bits d count)
       (\<lambda>(v, d'). if dec_error d' then err else k v d')"

section \<open>PDU encoder\<close>

record nr_rlc_pdu_encoder =
  enc_byte :: nat
  enc_bit :: nat
  enc_buffer :: "byte list"
  enc_size :: nat

definition nr_rlc_pdu_encoder_init :: "byte list \<Rightarrow> nr_rlc_pdu_encoder" where
  "nr_rlc_pdu_encoder_init buffer =
     \<lparr>enc_byte = 0, enc_bit = 0, enc_buffer = buffer, enc_size = length buffer\<rparr>"

definition put_bit :: "nr_rlc_pdu_encoder \<Rightarrow> int \<Rightarrow> nr_rlc_pdu_encoder res" where
  "put_bit e b =
     (if enc_byte e = enc_size e then Inl Exit_buffer_full
      else
        let x = push_bit 1 (enc_buffer e ! enc_byte e);
            x = (if b \<noteq> 0 then x OR 1 else x);
            e = e\<lparr>enc_buffer := (enc_buffer e)[enc_byte e := x], enc_bit := enc_bit e + 1\<rparr>
        in Inr (if enc_bit e = 8 then e\<lparr>enc_bit := 0, enc_byte := enc_byte e + 1\<rparr> else e))"

fun put_bits_loop :: "nat \<Rightarrow> int \<Rightarrow> int \<Rightarrow> nr_rlc_pdu_encoder \<Rightarrow> nr_rlc_pdu_encoder res" where
  "put_bits_loop 0 v x e = Inr e"
| "put_bits_loop (Suc n) v x e =
     bindr (put_bit e (v AND x)) (put_bits_loop n v (drop_bit 1 x))"

definition nr_rlc_pdu_encoder_put_bits ::
  "nr_rlc_pdu_encoder \<Rightarrow> int \<Rightarrow> nat \<Rightarrow> nr_rlc_pdu_encoder res" where
  "nr_rlc_pdu_encoder_put_bits e v count =
     (if count > 31 then Inl Exit_bit_count
      else put_bits_loop count v (push_bit (count - 1) 1) e)"

section \<open>The PDU list\<close>

lemma nr_rlc_pdu_list_add_conv:
  "nr_rlc_pdu_list_add cmp l pdu =
     insert_before (\<lambda>cur. cmp (pdu_sn cur) (pdu_sn pdu) > 0 \<or>
       (pdu_sn cur = pdu_sn pdu \<and> pdu_so cur > pdu_so pdu)) pdu l"
  by (induction l) auto

section \<open>Bit strings\<close>

text \<open>The bits of a byte and of a buffer, most significant bit first.\<close>

definition byte_bits :: "byte \<Rightarrow> bool list" where
  "byte_bits b = map (\<lambda>i. bit b (7 - i)) [0..<8]"

definition bits_of :: "byte list \<Rightarrow> bool list" where
  "bits_of bs = concat (map byte_bits bs)"

text \<open>The \<open>n\<close> low bits of a value, most significant first, and the value of a bit string.\<close>

definition val_bits :: "nat \<Rightarrow> int \<Rightarrow> bool list" where
  "val_bits n v = map (\<lambda>i. bit v (n - 1 - i)) [0..<n]"

definition bits_val :: "int \<Rightarrow> bool list \<Rightarrow> int" where
  "bits_val r bs = foldl (\<lambda>a b. 2 * a + of_bool b) r bs"

lemma length_byte_bits [simp]: "length (byte_bits b) = 8"
  by (simp add: byte_bits_def)

lemma length_bits_of [simp]: "length (bits_of bs) = 8 * length bs"
  by (induction bs) (simp_all add: bits_of_def)

lemma bits_of_simps [simp]:
  "bits_of [] = []"
  "bits_of (b # bs) = byte_bits b @ bits_of bs"
  "bits_of (bs @ cs) = bits_of bs @ bits_of cs"
  by (simp_all add: bits_of_def)

lemma length_val_bits [simp]: "length (val_bits n v) = n"
  by (simp add: val_bits_def)

lemma val_bits_Suc: "val_bits (Suc n) v = bit v n # val_bits n v"
  by (simp add: val_bits_def map_upt_Suc del: upt_Suc)

lemma bits_val_simps [simp]:
  "bits_val r [] = r"
  "bits_val r (b # bs) = bits_val (2 * r + of_bool b) bs"
  by (simp_all add: bits_val_def)

lemma bits_val_append: "bits_val r (bs @ cs) = bits_val (bits_val r bs) cs"
  by (simp add: bits_val_def)

lemma bits_val_val_bits: "bits_val r (val_bits n v) = r * 2 ^ n + take_bit n v"
proof (induction n arbitrary: r)
  case 0
  then show ?case by (simp add: val_bits_def)
next
  case (Suc n)
  have "take_bit (Suc n) v = take_bit n v + of_bool (bit v n) * 2 ^ n"
    by (simp add: take_bit_Suc_from_most)
  then show ?case
    by (simp add: val_bits_Suc Suc.IH algebra_simps)
qed

lemma bits_val_bound: "0 \<le> r \<Longrightarrow> 0 \<le> bits_val r bs \<and> bits_val r bs < (r + 1) * 2 ^ length bs"
proof (induction bs arbitrary: r)
  case (Cons b bs)
  have "0 \<le> bits_val (2 * r + of_bool b) bs \<and>
        bits_val (2 * r + of_bool b) bs < (2 * r + of_bool b + 1) * 2 ^ length bs"
    using Cons.prems by (intro Cons.IH) simp
  moreover have "(2 * r + of_bool b + 1) * (2::int) ^ length bs \<le> (r + 1) * 2 ^ length (b # bs)"
    by (cases b) (auto simp: algebra_simps)
  ultimately show ?case unfolding bits_val_simps by linarith
qed simp

lemma nth_bits_of:
  "i < 8 * length bs \<Longrightarrow> bits_of bs ! i = bit (bs ! (i div 8)) (7 - i mod 8)"
proof (induction bs arbitrary: i)
  case (Cons b bs)
  show ?case
  proof (cases "i < 8")
    case True
    then show ?thesis by (simp add: nth_append byte_bits_def)
  next
    case False
    then have "i div 8 = Suc ((i - 8) div 8)" and "i mod 8 = (i - 8) mod 8"
      by (simp_all add: le_div_geq le_mod_geq)
    with False Cons.prems Cons.IH [of "i - 8"] show ?thesis
      by (simp add: nth_append)
  qed
qed simp

section \<open>The decoder reads the bits of its buffer\<close>

definition dec_wf :: "nr_rlc_pdu_decoder \<Rightarrow> bool" where
  "dec_wf d \<longleftrightarrow> dec_bit d < 8 \<and> dec_size d = length (dec_buffer d) \<and> \<not> dec_error d"

definition dec_pos :: "nr_rlc_pdu_decoder \<Rightarrow> nat" where
  "dec_pos d = 8 * dec_byte d + dec_bit d"

definition dec_rest :: "nr_rlc_pdu_decoder \<Rightarrow> bool list" where
  "dec_rest d = drop (dec_pos d) (bits_of (dec_buffer d))"

lemma dec_wf_init [simp]: "dec_wf (nr_rlc_pdu_decoder_init buf)"
  by (simp add: dec_wf_def nr_rlc_pdu_decoder_init_def)

lemma dec_rest_init [simp]: "dec_rest (nr_rlc_pdu_decoder_init buf) = bits_of buf"
  by (simp add: dec_rest_def dec_pos_def nr_rlc_pdu_decoder_init_def)

lemma dec_init_simps [simp]:
  "dec_pos (nr_rlc_pdu_decoder_init buf) = 0"
  "dec_buffer (nr_rlc_pdu_decoder_init buf) = buf"
  by (simp_all add: dec_pos_def nr_rlc_pdu_decoder_init_def)

lemma uint_drop_and_1: "uint (drop_bit k (w::'a::len word) AND 1) = of_bool (bit w k)"
  by (simp add: and_one_eq bit_iff_odd_drop_bit mod_2_eq_odd)

lemma get_bit_end:
  "dec_wf d \<Longrightarrow> dec_rest d = [] \<Longrightarrow> get_bit d = (0, d\<lparr>dec_error := True\<rparr>)"
  by (auto simp: get_bit_def dec_wf_def dec_rest_def dec_pos_def)

lemma get_bit_step:
  assumes "dec_wf d" and "dec_rest d = b # bs"
  shows "\<exists>d'. get_bit d = (of_bool b, d') \<and> dec_wf d' \<and> dec_rest d' = bs \<and>
              dec_pos d' = Suc (dec_pos d) \<and> dec_buffer d' = dec_buffer d"
proof -
  let ?i = "dec_pos d"
  have i: "?i < 8 * length (dec_buffer d)"
    using assms(2) by (metis dec_rest_def drop_all length_bits_of list.distinct(1) not_le)
  have div: "?i div 8 = dec_byte d" and md: "?i mod 8 = dec_bit d"
    using assms(1) by (simp_all add: dec_pos_def dec_wf_def)
  have "b = bits_of (dec_buffer d) ! ?i"
    using assms(2) i by (simp add: dec_rest_def Cons_nth_drop_Suc [symmetric])
  then have b: "b = bit (dec_buffer d ! dec_byte d) (7 - dec_bit d)"
    using i by (simp add: nth_bits_of div md)
  have bs: "bs = drop (Suc ?i) (bits_of (dec_buffer d))"
    using assms(2) i by (simp add: dec_rest_def Cons_nth_drop_Suc [symmetric])
  have lt: "dec_byte d < dec_size d"
    using i assms(1) by (simp add: dec_pos_def dec_wf_def)
  show ?thesis
    using lt assms(1) b bs
    by (auto simp: get_bit_def Let_def uint_drop_and_1 dec_wf_def dec_rest_def dec_pos_def)
qed

lemma get_bits_loop_ok:
  assumes "dec_wf d" and "n \<le> length (dec_rest d)"
  shows "\<exists>d'. get_bits_loop n r d = (bits_val r (take n (dec_rest d)), d') \<and> dec_wf d' \<and>
              dec_rest d' = drop n (dec_rest d) \<and> dec_pos d' = dec_pos d + n \<and>
              dec_buffer d' = dec_buffer d"
  using assms
proof (induction n arbitrary: r d)
  case (Suc n)
  then obtain b bs where rest: "dec_rest d = b # bs"
    by (cases "dec_rest d") auto
  obtain d1 where d1: "get_bit d = (of_bool b, d1)" "dec_wf d1" "dec_rest d1 = bs"
    "dec_pos d1 = Suc (dec_pos d)" "dec_buffer d1 = dec_buffer d"
    using get_bit_step [OF Suc.prems(1) rest] by blast
  have "n \<le> length (dec_rest d1)"
    using Suc.prems(2) rest d1 by simp
  from Suc.IH [OF d1(2) this, of "2 * r + of_bool b"] d1 rest show ?case
    by (auto simp: dec_wf_def or_one_eq mult.commute [of r])
qed auto

lemma get_bits_loop_end:
  assumes "dec_wf d" and "length (dec_rest d) < n"
  shows "\<exists>d'. get_bits_loop n r d = (- 1, d') \<and> dec_error d'"
  using assms
proof (induction n arbitrary: r d)
  case (Suc n)
  show ?case
  proof (cases "dec_rest d")
    case Nil
    with Suc.prems show ?thesis by (simp add: get_bit_end)
  next
    case (Cons b bs)
    obtain d1 where d1: "get_bit d = (of_bool b, d1)" "dec_wf d1" "dec_rest d1 = bs"
      using get_bit_step [OF Suc.prems(1) Cons] by blast
    then have "length (dec_rest d1) < n" using Suc.prems(2) Cons by simp
    from Suc.IH [OF d1(2) this] d1 show ?thesis by (simp add: dec_wf_def)
  qed
qed simp

text \<open>
  The decoder either returns the value of the next \<open>count\<close> bits of the buffer, or, when fewer
  are left, -1 with its error flag set.
\<close>

lemma get_bits_spec:
  assumes "dec_wf d" and "n \<le> 31"
  shows "if n \<le> length (dec_rest d)
         then \<exists>d'. nr_rlc_pdu_decoder_get_bits d n = Inr (bits_val 0 (take n (dec_rest d)), d') \<and>
                   dec_wf d' \<and> dec_rest d' = drop n (dec_rest d) \<and>
                   dec_pos d' = dec_pos d + n \<and> dec_buffer d' = dec_buffer d
         else \<exists>d'. nr_rlc_pdu_decoder_get_bits d n = Inr (- 1, d') \<and> dec_error d'"
  using get_bits_loop_ok [OF assms(1), of n 0] get_bits_loop_end [OF assms(1), of n 0] assms(2)
  by (auto simp: nr_rlc_pdu_decoder_get_bits_def)

lemma read_field_ok:
  assumes "dec_wf d" and "n \<le> 31" and "n \<le> length (dec_rest d)"
  shows "\<exists>d'. read_field d n err k = k (bits_val 0 (take n (dec_rest d))) d' \<and> dec_wf d' \<and>
              dec_rest d' = drop n (dec_rest d) \<and> dec_pos d' = dec_pos d + n \<and>
              dec_buffer d' = dec_buffer d"
  using get_bits_spec [OF assms(1,2)] assms(3)
  by (auto simp: read_field_def dec_wf_def)

lemma read_field_err:
  assumes "dec_wf d" and "n \<le> 31" and "length (dec_rest d) < n"
  shows "read_field d n err k = err"
  using get_bits_spec [OF assms(1,2)] assms(3)
  by (auto simp: read_field_def)

lemma read_field_val:
  assumes "dec_wf d" and "n \<le> 31" and "dec_rest d = val_bits n v @ bs" and "0 \<le> v" and "v < 2 ^ n"
    and "\<And>d'. dec_wf d' \<Longrightarrow> dec_rest d' = bs \<Longrightarrow> dec_pos d' = dec_pos d + n \<Longrightarrow>
      dec_buffer d' = dec_buffer d \<Longrightarrow> P (k v d')"
  shows "P (read_field d n err k)"
proof -
  have "bits_val 0 (take n (dec_rest d)) = v"
    using assms(3-5) by (simp add: bits_val_val_bits take_bit_int_eq_self)
  moreover have "drop n (dec_rest d) = bs" "n \<le> length (dec_rest d)" using assms(3) by simp_all
  ultimately obtain d' where "read_field d n err k = k v d'" "dec_wf d'" "dec_rest d' = bs"
    "dec_pos d' = dec_pos d + n" "dec_buffer d' = dec_buffer d"
    using read_field_ok [OF assms(1,2), of err k] by auto
  with assms(6) show ?thesis by simp
qed

lemma val_bits_flags: "val_bits 1 (of_bool a) @ val_bits 1 (of_bool b) = val_bits 2 (2 * of_bool a + of_bool b)"
  by (cases a; cases b) (simp_all add: val_bits_def numeral_2_eq_2)

lemma dec_byte_aligned: "dec_wf d \<Longrightarrow> dec_pos d = 8 * n \<Longrightarrow> dec_byte d = n"
  by (auto simp: dec_pos_def dec_wf_def)

lemma read_field_cases:
  assumes "dec_wf d" and "n \<le> 31"
  obtains "read_field d n err k = err"
  | v d' where "read_field d n err k = k v d'" "dec_wf d'" "0 \<le> v" "v < 2 ^ n"
proof (cases "n \<le> length (dec_rest d)")
  case True
  obtain d' where d': "read_field d n err k = k (bits_val 0 (take n (dec_rest d))) d'" "dec_wf d'"
    using read_field_ok [OF assms True, of err k] by blast
  show ?thesis
    by (rule that(2) [OF d']) (use bits_val_bound [of 0 "take n (dec_rest d)"] True in auto)
qed (use that(1) read_field_err [OF assms] in auto)

text \<open>What holds on the error path and for every value of the field holds of the read.\<close>

lemma read_field_rule:
  assumes "dec_wf d" and "n \<le> 31" and "P err"
    and "\<And>v d'. dec_wf d' \<Longrightarrow> 0 \<le> v \<Longrightarrow> v < 2 ^ n \<Longrightarrow> P (k v d')"
  shows "P (read_field d n err k)"
  using read_field_cases [OF assms(1,2), of err k] assms(3,4) by metis

section \<open>The encoder appends bits\<close>

definition enc_wf :: "nr_rlc_pdu_encoder \<Rightarrow> bool" where
  "enc_wf e \<longleftrightarrow> enc_bit e < 8 \<and> enc_size e = length (enc_buffer e) \<and>
     (enc_byte e < enc_size e \<or> (enc_byte e = enc_size e \<and> enc_bit e = 0))"

definition enc_pos :: "nr_rlc_pdu_encoder \<Rightarrow> nat" where
  "enc_pos e = 8 * enc_byte e + enc_bit e"

text \<open>The bits written so far: the full bytes, then the low bits of the byte in work.\<close>

definition enc_written :: "nr_rlc_pdu_encoder \<Rightarrow> bool list" where
  "enc_written e = bits_of (take (enc_byte e) (enc_buffer e)) @
     map (\<lambda>i. bit (enc_buffer e ! enc_byte e) (enc_bit e - 1 - i)) [0..<enc_bit e]"

lemma enc_wf_init [simp]: "enc_wf (nr_rlc_pdu_encoder_init buf)"
  by (auto simp: enc_wf_def nr_rlc_pdu_encoder_init_def)

lemma enc_init_simps [simp]:
  "enc_pos (nr_rlc_pdu_encoder_init buf) = 0"
  "enc_written (nr_rlc_pdu_encoder_init buf) = []"
  "enc_size (nr_rlc_pdu_encoder_init buf) = length buf"
  "enc_buffer (nr_rlc_pdu_encoder_init buf) = buf"
  by (simp_all add: enc_pos_def enc_written_def nr_rlc_pdu_encoder_init_def)

lemma bit_shift_in:
  "bit (if b \<noteq> (0::int) then push_bit 1 (w::byte) OR 1 else push_bit 1 w) i =
     (if i = 0 then b \<noteq> 0 else i < 8 \<and> bit w (i - 1))"
  by (auto simp: bit_push_bit_iff bit_or_iff bit_1_iff simp del: push_bit_Suc One_nat_def)

lemma put_bit_step:
  assumes "enc_wf e" and "enc_pos e < 8 * enc_size e"
  shows "\<exists>e'. put_bit e b = Inr e' \<and> enc_wf e' \<and> enc_pos e' = Suc (enc_pos e) \<and>
              enc_size e' = enc_size e \<and> enc_written e' = enc_written e @ [b \<noteq> 0] \<and>
              drop (enc_byte e + 1) (enc_buffer e') = drop (enc_byte e + 1) (enc_buffer e)"
proof -
  let ?w = "enc_buffer e ! enc_byte e"
  define x where "x = (if b \<noteq> 0 then push_bit 1 ?w OR 1 else push_bit 1 ?w)"
  have lt: "enc_byte e < length (enc_buffer e)" and sz: "enc_size e = length (enc_buffer e)"
    and b8: "enc_bit e < 8"
    using assms by (auto simp: enc_wf_def enc_pos_def)
  have old: "map (\<lambda>i. bit x (enc_bit e - i)) [0..<Suc (enc_bit e)] =
             map (\<lambda>i. bit ?w (enc_bit e - 1 - i)) [0..<enc_bit e] @ [b \<noteq> 0]"
    using b8 by (auto simp: x_def bit_shift_in add.commute simp del: push_bit_Suc One_nat_def)
  show ?thesis
  proof (cases "enc_bit e = 7")
    case True
    let ?e = "e\<lparr>enc_buffer := (enc_buffer e)[enc_byte e := x], enc_bit := 0,
                enc_byte := enc_byte e + 1\<rparr>"
    have put: "put_bit e b = Inr ?e"
      using lt sz True by (simp add: put_bit_def x_def Let_def)
    have "byte_bits x = map (\<lambda>i. bit x (enc_bit e - i)) [0..<Suc (enc_bit e)]"
      using True by (simp add: byte_bits_def del: upt_Suc)
    note bb = this [unfolded old]
    have "enc_written ?e = enc_written e @ [b \<noteq> 0]"
      using lt by (simp add: enc_written_def take_Suc_conv_app_nth bb)
    with put lt sz True show ?thesis by (auto simp: enc_wf_def enc_pos_def)
  next
    case False
    let ?e = "e\<lparr>enc_buffer := (enc_buffer e)[enc_byte e := x], enc_bit := Suc (enc_bit e)\<rparr>"
    have put: "put_bit e b = Inr ?e"
      using lt sz False by (simp add: put_bit_def x_def Let_def)
    have "enc_written ?e = enc_written e @ [b \<noteq> 0]"
      using lt old by (simp add: enc_written_def del: upt_Suc)
    with put lt sz False b8 show ?thesis by (auto simp: enc_wf_def enc_pos_def)
  qed
qed

lemma and_push_bit_1_iff: "(v::int) AND push_bit n 1 \<noteq> 0 \<longleftrightarrow> bit v n"
  by (simp add: and_exp_eq_0_iff_not_bit push_bit_of_1)

lemma put_bits_loop_ok:
  assumes "enc_wf e" and "enc_pos e + n \<le> 8 * enc_size e"
  shows "\<exists>e'. put_bits_loop n v (push_bit (n - 1) 1) e = Inr e' \<and> enc_wf e' \<and>
              enc_pos e' = enc_pos e + n \<and> enc_size e' = enc_size e \<and>
              enc_written e' = enc_written e @ val_bits n v"
  using assms
proof (induction n arbitrary: e)
  case 0
  then show ?case by (simp add: val_bits_def)
next
  case (Suc n)
  have "enc_pos e < 8 * enc_size e" using Suc.prems(2) by simp
  note step = put_bit_step [OF Suc.prems(1) this, of "v AND push_bit n 1"]
  obtain e1 where e1: "put_bit e (v AND push_bit n 1) = Inr e1" "enc_wf e1"
    "enc_pos e1 = Suc (enc_pos e)" "enc_size e1 = enc_size e"
    "enc_written e1 = enc_written e @ [bit v n]"
    using step unfolding and_push_bit_1_iff by blast
  have room: "enc_pos e1 + n \<le> 8 * enc_size e1"
    using Suc.prems(2) e1 by simp
  obtain e2 where e2: "put_bits_loop n v (push_bit (n - 1) 1) e1 = Inr e2" "enc_wf e2"
    "enc_pos e2 = enc_pos e1 + n" "enc_size e2 = enc_size e1"
    "enc_written e2 = enc_written e1 @ val_bits n v"
    using Suc.IH [OF e1(2) room] by blast
  have "put_bits_loop n v (drop_bit 1 (push_bit n 1)) e1 = Inr e2"
  proof (cases n)
    case (Suc m)
    then have "drop_bit 1 (push_bit n (1::int)) = push_bit (n - 1) 1"
      by (simp add: drop_bit_Suc)
    then show ?thesis using e2(1) by simp
  qed (use e2(1) in simp)
  with e1 e2 show ?case by (simp add: val_bits_Suc)
qed

lemma put_bits_ok:
  assumes "enc_wf e" and "n \<le> 31" and "enc_pos e + n \<le> 8 * enc_size e"
  shows "\<exists>e'. nr_rlc_pdu_encoder_put_bits e v n = Inr e' \<and> enc_wf e' \<and>
              enc_pos e' = enc_pos e + n \<and> enc_size e' = enc_size e \<and>
              enc_written e' = enc_written e @ val_bits n v"
  using put_bits_loop_ok [OF assms(1,3), of v] assms(2)
  by (auto simp: nr_rlc_pdu_encoder_put_bits_def)

section \<open>Fields\<close>

text \<open>
  The header of a PDU is a sequence of fields \<open>(value, width)\<close>, written one after the other
  and read one after the other.
\<close>

fun put_fields :: "nr_rlc_pdu_encoder \<Rightarrow> (int \<times> nat) list \<Rightarrow> nr_rlc_pdu_encoder res" where
  "put_fields e [] = Inr e"
| "put_fields e ((v, n) # fs) = bindr (nr_rlc_pdu_encoder_put_bits e v n) (\<lambda>e'. put_fields e' fs)"

fun get_fields :: "nr_rlc_pdu_decoder \<Rightarrow> nat list \<Rightarrow> (int list \<times> nr_rlc_pdu_decoder) res" where
  "get_fields d [] = Inr ([], d)"
| "get_fields d (n # ns) = bindr (nr_rlc_pdu_decoder_get_bits d n)
     (\<lambda>(v, d'). bindr (get_fields d' ns) (\<lambda>(vs, d''). Inr (v # vs, d'')))"

definition field_bits :: "(int \<times> nat) list \<Rightarrow> bool list" where
  "field_bits fs = concat (map (\<lambda>(v, n). val_bits n v) fs)"

definition fields_width :: "(int \<times> nat) list \<Rightarrow> nat" where
  "fields_width fs = sum_list (map snd fs)"

text \<open>Each value fits its width, and no width is refused by the encoder or the decoder.\<close>

definition fields_ok :: "(int \<times> nat) list \<Rightarrow> bool" where
  "fields_ok fs \<longleftrightarrow> (\<forall>(v, n) \<in> set fs. n \<le> 31 \<and> 0 \<le> v \<and> v < 2 ^ n)"

lemma field_simps_Cons [simp]:
  "field_bits [] = []"
  "field_bits ((v, n) # fs) = val_bits n v @ field_bits fs"
  "fields_width [] = 0"
  "fields_width ((v, n) # fs) = n + fields_width fs"
  "fields_ok [] = True"
  "fields_ok ((v, n) # fs) \<longleftrightarrow> n \<le> 31 \<and> 0 \<le> v \<and> v < 2 ^ n \<and> fields_ok fs"
  by (simp_all add: field_bits_def fields_width_def fields_ok_def)

lemma length_field_bits [simp]: "length (field_bits fs) = fields_width fs"
  by (induction fs) auto

lemma put_fields_bits:
  assumes "enc_wf e" and "\<forall>f \<in> set fs. snd f \<le> 31" and "enc_pos e + fields_width fs \<le> 8 * enc_size e"
  shows "\<exists>e'. put_fields e fs = Inr e' \<and> enc_wf e' \<and> enc_pos e' = enc_pos e + fields_width fs \<and>
              enc_size e' = enc_size e \<and> enc_written e' = enc_written e @ field_bits fs"
  using assms
proof (induction fs arbitrary: e)
  case (Cons f fs)
  obtain v n where f: "f = (v, n)" by (cases f)
  have ok: "n \<le> 31" "\<forall>f \<in> set fs. snd f \<le> 31" "enc_pos e + n \<le> 8 * enc_size e"
    using Cons.prems f by auto
  obtain e1 where e1: "nr_rlc_pdu_encoder_put_bits e v n = Inr e1" "enc_wf e1"
    "enc_pos e1 = enc_pos e + n" "enc_size e1 = enc_size e"
    "enc_written e1 = enc_written e @ val_bits n v"
    using put_bits_ok [OF Cons.prems(1) ok(1,3)] by blast
  have "enc_pos e1 + fields_width fs \<le> 8 * enc_size e1"
    using Cons.prems(3) e1 f by simp
  from Cons.IH [OF e1(2) ok(2) this] e1 f show ?case by auto
qed simp

lemma put_fields_ok:
  assumes "enc_wf e" and "fields_ok fs" and "enc_pos e + fields_width fs \<le> 8 * enc_size e"
  shows "\<exists>e'. put_fields e fs = Inr e' \<and> enc_wf e' \<and> enc_pos e' = enc_pos e + fields_width fs \<and>
              enc_size e' = enc_size e \<and> enc_written e' = enc_written e @ field_bits fs"
  by (rule put_fields_bits [OF assms(1) _ assms(3)]) (use assms(2) in \<open>auto simp: fields_ok_def\<close>)

lemma take_bit_fits: "0 \<le> v \<Longrightarrow> v < 2 ^ n \<Longrightarrow> take_bit n v = (v::int)"
  by (simp add: take_bit_int_eq_self)

lemma get_fields_ok:
  assumes "dec_wf d" and "fields_ok fs" and "dec_rest d = field_bits fs @ bs"
  shows "\<exists>d'. get_fields d (map snd fs) = Inr (map fst fs, d') \<and> dec_wf d' \<and> dec_rest d' = bs \<and>
              dec_pos d' = dec_pos d + fields_width fs \<and> dec_buffer d' = dec_buffer d"
  using assms
proof (induction fs arbitrary: d)
  case (Cons f fs)
  obtain v n where f: "f = (v, n)" by (cases f)
  have ok: "n \<le> 31" "0 \<le> v" "v < 2 ^ n" "fields_ok fs" "n \<le> length (dec_rest d)"
    using Cons.prems f by auto
  obtain d1 where d1: "nr_rlc_pdu_decoder_get_bits d n = Inr (v, d1)" "dec_wf d1"
    "dec_rest d1 = field_bits fs @ bs" "dec_pos d1 = dec_pos d + n" "dec_buffer d1 = dec_buffer d"
    using get_bits_spec [OF Cons.prems(1) ok(1)] ok Cons.prems(3) f
    by (auto simp: bits_val_val_bits take_bit_fits)
  from Cons.IH [OF d1(2) ok(4) d1(3)] d1 f show ?case by auto
qed simp

lemma enc_written_aligned:
  "enc_wf e \<Longrightarrow> enc_bit e = 0 \<Longrightarrow> enc_written e = bits_of (take (enc_byte e) (enc_buffer e))"
  by (simp add: enc_written_def)

text \<open>A written header of whole bytes is a prefix of the buffer with the bits of its fields.\<close>

lemma put_fields_header:
  assumes "fields_ok fs" and "fields_width fs = 8 * k" and "k \<le> length buf"
  shows "\<exists>e. put_fields (nr_rlc_pdu_encoder_init buf) fs = Inr e \<and> enc_byte e = k \<and> enc_bit e = 0 \<and>
             length (enc_buffer e) = length buf \<and>
             bits_of (take k (enc_buffer e)) = field_bits fs"
proof -
  obtain e where e: "put_fields (nr_rlc_pdu_encoder_init buf) fs = Inr e" "enc_wf e"
    "enc_pos e = fields_width fs" "enc_size e = length buf" "enc_written e = field_bits fs"
    using put_fields_ok [OF enc_wf_init assms(1), of buf] assms(2,3) by auto
  have "enc_bit e < 8" using e(2) by (simp add: enc_wf_def)
  with e(3) assms(2) have "enc_byte e = k" "enc_bit e = 0"
    by (auto simp: enc_pos_def) presburger+
  with e enc_written_aligned [OF e(2)] show ?thesis by (auto simp: enc_wf_def)
qed

section \<open>Properties\<close>

text \<open>
  C21: encoder and decoder are inverse. Any sequence of fields that fit their widths and fill
  whole bytes, written by the encoder into a buffer with enough room, is read back by the decoder
  of that buffer, value by value, with no error, and the decoder ends exactly behind the header.
\<close>

theorem put_fields_get_fields:
  assumes "fields_ok fs" and "fields_width fs = 8 * k" and "k \<le> length buf"
  shows "\<exists>e d. put_fields (nr_rlc_pdu_encoder_init buf) fs = Inr e \<and>
               get_fields (nr_rlc_pdu_decoder_init (enc_buffer e)) (map snd fs) = Inr (map fst fs, d) \<and>
               \<not> dec_error d \<and> dec_byte d = k \<and> dec_bit d = 0 \<and> enc_byte e = k \<and> enc_bit e = 0"
proof -
  obtain e where e: "put_fields (nr_rlc_pdu_encoder_init buf) fs = Inr e" "enc_byte e = k"
    "enc_bit e = 0" "length (enc_buffer e) = length buf"
    "bits_of (take k (enc_buffer e)) = field_bits fs"
    using put_fields_header [OF assms] by blast
  have "bits_of (enc_buffer e) = field_bits fs @ bits_of (drop k (enc_buffer e))"
    by (metis append_take_drop_id bits_of_simps(3) e(5))
  then obtain d where d: "get_fields (nr_rlc_pdu_decoder_init (enc_buffer e)) (map snd fs) =
      Inr (map fst fs, d)" "dec_wf d"
    "dec_pos d = dec_pos (nr_rlc_pdu_decoder_init (enc_buffer e)) + fields_width fs"
    using get_fields_ok [OF dec_wf_init assms(1), of "enc_buffer e"] by auto
  have "dec_pos d = 8 * k"
    using d(3) assms(2) by (simp add: dec_pos_def nr_rlc_pdu_decoder_init_def)
  moreover have "dec_bit d < 8" using d(2) by (simp add: dec_wf_def)
  ultimately have "dec_byte d = k" "dec_bit d = 0"
    by (auto simp: dec_pos_def) presburger+
  with e d show ?thesis by (auto simp: dec_wf_def)
qed

theorem put_fields_get_fields_witness:
  "\<exists>e d. put_fields (nr_rlc_pdu_encoder_init [0, 0, 0]) [(1, 1), (0, 1), (2, 2), (1234, 12)] = Inr e \<and>
         get_fields (nr_rlc_pdu_decoder_init (enc_buffer e)) [1, 1, 2, 12] =
           Inr ([1, 0, 2, 1234], d) \<and>
         \<not> dec_error d \<and> dec_byte d = 2 \<and> dec_bit d = 0 \<and> enc_byte e = 2 \<and> enc_bit e = 0"
  using put_fields_get_fields [of "[(1, 1), (0, 1), (2, 2), (1234, 12)]" 2 "[0, 0, 0]"] by simp

text \<open>
  the decoder on any input, hostile ones included. Reading a field of up to 31 bits from a
  decoder in a regular state never leaves the buffer: it yields a value in the range of the field
  and moves on by exactly the width of the field when the bits are there, and otherwise yields -1
  and raises the error flag.
\<close>

lemma get_bits_bounds:
  assumes "dec_wf d" and "n \<le> 31"
  shows "\<exists>v d'. nr_rlc_pdu_decoder_get_bits d n = Inr (v, d') \<and>
           (if dec_pos d + n \<le> 8 * dec_size d \<or> n = 0
            then 0 \<le> v \<and> v < 2 ^ n \<and> dec_wf d' \<and> dec_pos d' = dec_pos d + n \<and>
                 (n = 0 \<or> dec_pos d' \<le> 8 * dec_size d')
            else v = - 1 \<and> dec_error d')"
proof -
  have len: "length (dec_rest d) = 8 * dec_size d - dec_pos d"
    using assms(1) by (simp add: dec_rest_def dec_wf_def)
  show ?thesis
  proof (cases "n \<le> length (dec_rest d)")
    case True
    then have room: "dec_pos d + n \<le> 8 * dec_size d \<or> n = 0" using len by auto
    obtain d' where d': "nr_rlc_pdu_decoder_get_bits d n =
        Inr (bits_val 0 (take n (dec_rest d)), d')" "dec_wf d'" "dec_pos d' = dec_pos d + n"
      "dec_buffer d' = dec_buffer d"
      using get_bits_spec [OF assms] True by auto
    have "dec_size d' = dec_size d" using d'(2,4) assms(1) by (simp add: dec_wf_def)
    with bits_val_bound [of 0 "take n (dec_rest d)"] True d' room show ?thesis by auto
  next
    case False
    then have "\<not> (dec_pos d + n \<le> 8 * dec_size d \<or> n = 0)" using len by auto
    with get_bits_spec [OF assms] False show ?thesis by auto
  qed
qed

lemma get_bits_bounds_example:
  "\<exists>v d'. nr_rlc_pdu_decoder_get_bits (nr_rlc_pdu_decoder_init [255]) 12 = Inr (v, d') \<and>
     v = - 1 \<and> dec_error d'"
  using get_bits_bounds [of "nr_rlc_pdu_decoder_init [255]" 12]
  by (simp add: dec_pos_def nr_rlc_pdu_decoder_init_def [of "[255]"] dec_wf_def)

end
