(* ===== verification/Nr_Time_Stat.thy ===== *)
theory Nr_Time_Stat
  imports Nr_Prelude
begin

text \<open>
  Model of \<open>common/utils/time_stat.c\<close>: the sliding-window average that the RLC entities use for
  the time an SDU waits before it is handed to MAC. The window is a ring buffer that doubles when
  it is full. The refinement \<open>time_average_add_refines\<close> states that the ring behaves as the plain
  queue of the samples of the last \<open>duration\<close> microseconds and that the accumulated value is the
  sum of that queue.
\<close>

section \<open>State and operations\<close>

record time_value =
  tv_time :: u64
  tv_value :: u64

record time_ring =
  ring_head :: nat
  ring_tail :: nat
  ring_buffer :: "time_value list"
  ring_maxsize :: nat
  ring_size :: nat

record time_average =
  ta_duration :: int
  ta_r :: time_ring
  ta_accumulated_value :: u64

definition zero_time_value :: time_value where
  "zero_time_value = \<lparr>tv_time = 0, tv_value = 0\<rparr>"

text \<open>
  The caller passes a positive initial size (the only call passes 1024), so the head index
  \<open>initial_size - 1\<close> is a natural number.
\<close>

definition time_average_new :: "int \<Rightarrow> nat \<Rightarrow> time_average res" where
  "time_average_new duration initial_size =
     (if int initial_size AND (int initial_size - 1) \<noteq> 0 then Inl Exit_bad_size
      else Inr \<lparr>ta_duration = duration,
                ta_r = \<lparr>ring_head = initial_size - 1, ring_tail = 0,
                        ring_buffer = replicate initial_size zero_time_value,
                        ring_maxsize = initial_size, ring_size = 0\<rparr>,
                ta_accumulated_value = 0\<rparr>)"

definition time_average_reset :: "time_average \<Rightarrow> time_average" where
  "time_average_reset t =
     t\<lparr>ta_r := (ta_r t)\<lparr>ring_head := ring_maxsize (ta_r t) - 1, ring_tail := 0, ring_size := 0\<rparr>,
       ta_accumulated_value := 0\<rparr>"

text \<open>One turn of the loop in \<open>remove_old\<close>, and the loop.\<close>

definition remove_one :: "time_average \<Rightarrow> time_average" where
  "remove_one t =
     (let r = ta_r t
      in t\<lparr>ta_accumulated_value :=
             ta_accumulated_value t - tv_value (ring_buffer r ! ring_tail r),
           ta_r := r\<lparr>ring_size := ring_size r - 1,
                     ring_tail := (ring_tail r + 1) mod ring_maxsize r\<rparr>\<rparr>)"

function (sequential) remove_old :: "time_average \<Rightarrow> u64 \<Rightarrow> time_average" where
  "remove_old t time =
     (if ring_size (ta_r t) \<noteq> 0 \<and>
         tv_time (ring_buffer (ta_r t) ! ring_tail (ta_r t)) < time - word_of_int (ta_duration t)
      then remove_old (remove_one t) time
      else t)"
  by pat_completeness auto
termination
  by (relation "measure (\<lambda>(t, time). ring_size (ta_r t))") (auto simp: remove_one_def Let_def)

declare remove_old.simps [simp del]

text \<open>
  The growth of the ring in \<open>time_average_add\<close>. The memory that \<open>realloc\<close> adds has no
  defined content; it is written before it is read, so any content does.
\<close>

definition ring_grow :: "time_ring \<Rightarrow> time_ring" where
  "ring_grow r =
     (let r1 = r\<lparr>ring_maxsize := 2 * ring_maxsize r,
                 ring_buffer := ring_buffer r @ replicate (ring_maxsize r) zero_time_value\<rparr>
      in if ring_head r1 < ring_tail r1
         then r1\<lparr>ring_buffer :=
                   take (ring_size r1) (ring_buffer r1) @
                   take (ring_head r1 + 1) (ring_buffer r1) @
                   drop (ring_size r1 + (ring_head r1 + 1)) (ring_buffer r1),
                 ring_head := ring_head r1 + ring_size r1\<rparr>
         else r1)"

definition ring_push :: "time_ring \<Rightarrow> time_value \<Rightarrow> time_ring" where
  "ring_push r v =
     (let h = (ring_head r + 1) mod ring_maxsize r
      in r\<lparr>ring_head := h, ring_buffer := (ring_buffer r)[h := v], ring_size := ring_size r + 1\<rparr>)"

definition time_average_add :: "time_average \<Rightarrow> u64 \<Rightarrow> u64 \<Rightarrow> time_average" where
  "time_average_add t time v =
     (let t = remove_old t time;
          r = (if ring_size (ta_r t) = ring_maxsize (ta_r t) then ring_grow (ta_r t) else ta_r t)
      in t\<lparr>ta_r := ring_push r \<lparr>tv_time = time, tv_value = v\<rparr>,
           ta_accumulated_value := ta_accumulated_value t + v\<rparr>)"

text \<open>
  The average is a \<open>double\<close> in the source, the quotient of two integers; the model returns the
  numerator and the denominator (or \<open>None\<close> for the value 0 of an empty window).
\<close>

definition time_average_get_average ::
  "time_average \<Rightarrow> u64 \<Rightarrow> (u64 \<times> nat) option \<times> time_average" where
  "time_average_get_average t time =
     (let t = remove_old t time
      in (if ring_size (ta_r t) = 0 then None
          else Some (ta_accumulated_value t, ring_size (ta_r t)), t))"

section \<open>The ring is a queue\<close>

definition ring_wf :: "time_ring \<Rightarrow> bool" where
  "ring_wf r \<longleftrightarrow> 0 < ring_maxsize r \<and> length (ring_buffer r) = ring_maxsize r \<and>
     ring_tail r < ring_maxsize r \<and> ring_size r \<le> ring_maxsize r \<and>
     ring_head r < ring_maxsize r \<and>
     (ring_head r + 1) mod ring_maxsize r = (ring_tail r + ring_size r) mod ring_maxsize r"

definition ring_list :: "time_ring \<Rightarrow> time_value list" where
  "ring_list r = map (\<lambda>i. ring_buffer r ! ((ring_tail r + i) mod ring_maxsize r)) [0..<ring_size r]"

definition ta_wf :: "time_average \<Rightarrow> bool" where
  "ta_wf t \<longleftrightarrow> ring_wf (ta_r t) \<and>
     ta_accumulated_value t = sum_list (map tv_value (ring_list (ta_r t)))"

lemma length_ring_list [simp]: "length (ring_list r) = ring_size r"
  by (simp add: ring_list_def)

lemma ring_list_Cons:
  assumes "ring_wf r" and "ring_size r = Suc n"
  shows "ring_list r = ring_buffer r ! ring_tail r #
     ring_list (r\<lparr>ring_size := n, ring_tail := (ring_tail r + 1) mod ring_maxsize r\<rparr>)"
  using assms
  by (auto simp: ring_list_def ring_wf_def map_upt_Suc mod_simps simp del: upt_Suc)

lemma remove_one_ok:
  assumes "ta_wf t" and "ring_size (ta_r t) \<noteq> 0"
  shows "ta_wf (remove_one t)" and "ring_list (ta_r (remove_one t)) = tl (ring_list (ta_r t))"
    and "ta_duration (remove_one t) = ta_duration t"
proof -
  obtain n where n: "ring_size (ta_r t) = Suc n" using assms(2) by (cases "ring_size (ta_r t)") auto
  have wf: "ring_wf (ta_r t)" using assms(1) by (simp add: ta_wf_def)
  have "ring_wf ((ta_r t)\<lparr>ring_size := n,
      ring_tail := (ring_tail (ta_r t) + 1) mod ring_maxsize (ta_r t)\<rparr>)"
    using wf n by (auto simp: ring_wf_def mod_simps)
  with ring_list_Cons [OF wf n] assms n
  show "ta_wf (remove_one t)" "ring_list (ta_r (remove_one t)) = tl (ring_list (ta_r t))"
    by (auto simp: ta_wf_def remove_one_def Let_def)
  show "ta_duration (remove_one t) = ta_duration t"
    by (simp add: remove_one_def Let_def)
qed

lemma remove_old_refines:
  "ta_wf t \<Longrightarrow> ta_wf (remove_old t time) \<and> ta_duration (remove_old t time) = ta_duration t \<and>
     ring_list (ta_r (remove_old t time)) =
       dropWhile (\<lambda>v. tv_time v < time - word_of_int (ta_duration t)) (ring_list (ta_r t))"
proof (induction t time rule: remove_old.induct)
  case (1 t time)
  let ?r = "ta_r t"
  let ?old = "\<lambda>v. tv_time v < time - word_of_int (ta_duration t)"
  show ?case
  proof (cases "ring_size ?r \<noteq> 0 \<and> ?old (ring_buffer ?r ! ring_tail ?r)")
    case True
    then obtain n where n: "ring_size ?r = Suc n" by (cases "ring_size ?r") auto
    have wf: "ring_wf ?r" using "1.prems" by (simp add: ta_wf_def)
    note one = remove_one_ok [OF "1.prems"]
    have "ring_list ?r = ring_buffer ?r ! ring_tail ?r # tl (ring_list ?r)"
      using ring_list_Cons [OF wf n] by (metis list.sel(3))
    then have "dropWhile ?old (ring_list ?r) = dropWhile ?old (tl (ring_list ?r))"
      using True by (metis dropWhile.simps(2))
    with "1.IH" [OF True] one True show ?thesis
      by (simp add: remove_old.simps [of t time])
  next
    case False
    have "dropWhile ?old (ring_list ?r) = ring_list ?r"
    proof (cases "ring_size ?r")
      case 0
      then show ?thesis by (simp add: ring_list_def)
    next
      case (Suc n)
      with False "1.prems" show ?thesis
        by (simp add: ring_list_Cons ta_wf_def)
    qed
    with False "1.prems" show ?thesis by (auto simp: remove_old.simps [of t time])
  qed
qed

lemma ring_grow_ok:
  assumes "ring_wf r" and "ring_size r = ring_maxsize r"
  shows "ring_wf (ring_grow r)" and "ring_list (ring_grow r) = ring_list r"
    and "ring_size (ring_grow r) < ring_maxsize (ring_grow r)"
proof -
  let ?m = "ring_maxsize r" and ?t = "ring_tail r" and ?h = "ring_head r" and ?b = "ring_buffer r"
  have bounds: "0 < ?m" "length ?b = ?m" "?t < ?m" "?h < ?m" and ht: "(?h + 1) mod ?m = ?t"
    using assms by (auto simp: ring_wf_def)
  have tail: "if ?h < ?t then ?h + 1 = ?t else ?h + 1 = ?m \<and> ?t = 0"
    using ht bounds nat_mod_plus_wrap [of ?h ?m 1] by (auto split: if_splits)
  have "ring_wf (ring_grow r) \<and> ring_list (ring_grow r) = ring_list r \<and>
        ring_size (ring_grow r) < ring_maxsize (ring_grow r)"
  proof (cases "?h < ?t")
    case True
    with tail bounds assms(2) show ?thesis
      by (auto simp: ring_grow_def Let_def ring_wf_def ring_list_def nth_append
          nat_mod_plus_wrap)
  next
    case False
    with tail bounds assms(2) show ?thesis
      by (auto simp: ring_grow_def Let_def ring_wf_def ring_list_def nth_append)
  qed
  then show "ring_wf (ring_grow r)" "ring_list (ring_grow r) = ring_list r"
    "ring_size (ring_grow r) < ring_maxsize (ring_grow r)" by auto
qed

lemma ring_push_ok:
  assumes "ring_wf r" and "ring_size r < ring_maxsize r"
  shows "ring_wf (ring_push r v)" and "ring_list (ring_push r v) = ring_list r @ [v]"
proof -
  let ?m = "ring_maxsize r" and ?t = "ring_tail r"
  have bounds: "0 < ?m" "length (ring_buffer r) = ?m" "?t < ?m"
    and h: "(ring_head r + 1) mod ?m = (?t + ring_size r) mod ?m"
    using assms by (auto simp: ring_wf_def)
  show "ring_wf (ring_push r v)"
    using assms bounds h
    by (simp add: ring_push_def ring_wf_def Let_def) (metis Suc_eq_plus1 add_Suc_right mod_Suc_eq)
  show "ring_list (ring_push r v) = ring_list r @ [v]"
    using assms bounds h
    by (auto simp: ring_push_def ring_list_def Let_def nth_list_update nat_mod_plus_inj)
qed

section \<open>Property\<close>

text \<open>
  \<open>time_average_add\<close> refines the queue of recent samples. On a well-formed average it drops
  from the front the samples older than the window, appends the new sample (growing the ring when
  it is full, without losing or reordering a sample), and the accumulated value stays the sum of
  the samples held, so that \<open>time_average_get_average\<close> divides the right numbers.
\<close>

lemma time_average_add_refines:
  assumes "ta_wf t"
  shows "ta_wf (time_average_add t time v) \<and>
    ring_list (ta_r (time_average_add t time v)) =
      dropWhile (\<lambda>x. tv_time x < time - word_of_int (ta_duration t)) (ring_list (ta_r t)) @
      [\<lparr>tv_time = time, tv_value = v\<rparr>]"
proof -
  let ?t = "remove_old t time"
  let ?r = "if ring_size (ta_r ?t) = ring_maxsize (ta_r ?t) then ring_grow (ta_r ?t) else ta_r ?t"
  note old = remove_old_refines [OF assms, of time]
  then have wf: "ring_wf (ta_r ?t)" by (simp add: ta_wf_def)
  have r: "ring_wf ?r" "ring_list ?r = ring_list (ta_r ?t)" "ring_size ?r < ring_maxsize ?r"
    using wf ring_grow_ok [OF wf] by (auto simp: ring_wf_def)
  from old ring_push_ok [OF r(1,3)] r(2) show ?thesis
    by (simp add: time_average_add_def Let_def ta_wf_def)
qed

lemma time_average_add_refines_example:
  "\<exists>t. time_average_new 100000 2 = Inr t \<and>
     ring_list (ta_r (time_average_add (time_average_add (time_average_add t 7000000 5) 7000001 6)
       7200000 9)) = [\<lparr>tv_time = 7200000, tv_value = 9\<rparr>]"
proof -
  define t where "t = \<lparr>ta_duration = 100000,
     ta_r = \<lparr>ring_head = 1, ring_tail = 0, ring_buffer = replicate 2 zero_time_value,
             ring_maxsize = 2, ring_size = 0\<rparr>, ta_accumulated_value = 0\<rparr>"
  have new: "time_average_new 100000 2 = Inr t"
    by (simp add: time_average_new_def t_def)
  have w0: "ta_wf t" by (simp add: t_def ta_wf_def ring_wf_def ring_list_def)
  have e0: "ring_list (ta_r t) = []" by (simp add: t_def ring_list_def)
  have d: "ta_duration (time_average_add u a b) = ta_duration u" if "ta_wf u" for u a b
    using remove_old_refines [OF that] by (simp add: time_average_add_def Let_def)
  note s1 = time_average_add_refines [OF w0, of 7000000 5]
  note s2 = time_average_add_refines [OF conjunct1 [OF s1], of 7000001 6]
  note s3 = time_average_add_refines [OF conjunct1 [OF s2], of 7200000 9]
  have "ta_duration t = 100000" by (simp add: t_def)
  with new s1 s2 s3 e0 d [OF w0] d [OF conjunct1 [OF s1]] show ?thesis
    by (auto simp: word_less_def)
qed

end
