(* ===== verification/Nr_Rlc_Common.thy ===== *)
theory Nr_Rlc_Common
  imports Nr_Rlc_Sdu Nr_Rlc_Pdu Nr_Time_Stat
begin

text \<open>
  Model of \<open>openair2/LAYER2/nr_rlc/nr_rlc_entity.h\<close>: what the three kinds of RLC entity share.

  The calls to the upper layer (\<open>deliver_sdu\<close>, \<open>sdu_successful_delivery\<close>,
  \<open>max_retx_reached\<close>) are function pointers set by the owner of the entity. The model records
  each call, with its arguments, at the end of the list \<open>c_upcalls\<close>; the order of the list is
  the order of the calls.

  The clock behind \<open>time_average_now\<close> is outside of the program: the operations that read it
  take the value read as an argument (\<open>clk\<close>).
\<close>

definition NR_SDU_MAX :: int where
  "NR_SDU_MAX = 16000"

datatype nr_rlc_mode = NR_RLC_AM | NR_RLC_UM | NR_RLC_TM

datatype upcall =
    Deliver_sdu "byte list"
  | Sdu_successful_delivery int
  | Max_retx_reached

record nr_rlc_statistics =
  st_mode :: nr_rlc_mode
  st_txpdu_pkts :: u32
  st_txpdu_bytes :: u32
  st_txpdu_wt_ms :: u32
  st_txpdu_dd_pkts :: u32
  st_txpdu_dd_bytes :: u32
  st_txpdu_retx_pkts :: u32
  st_txpdu_retx_bytes :: u32
  st_txpdu_segmented :: u32
  st_txpdu_status_pkts :: u32
  st_txpdu_status_bytes :: u32
  st_txbuf_occ_bytes :: u32
  st_txbuf_occ_pkts :: u32
  st_rxpdu_pkts :: u32
  st_rxpdu_bytes :: u32
  st_rxpdu_dup_pkts :: u32
  st_rxpdu_dup_bytes :: u32
  st_rxpdu_dd_pkts :: u32
  st_rxpdu_dd_bytes :: u32
  st_rxpdu_ow_pkts :: u32
  st_rxpdu_ow_bytes :: u32
  st_rxpdu_status_pkts :: u32
  st_rxpdu_status_bytes :: u32
  st_rxbuf_occ_bytes :: u32
  st_rxbuf_occ_pkts :: u32
  st_txsdu_pkts :: u32
  st_txsdu_bytes :: u64
  st_txsdu_wt_us :: u32
  st_rxsdu_pkts :: u32
  st_rxsdu_bytes :: u64
  st_rxsdu_dd_pkts :: u32
  st_rxsdu_dd_bytes :: u32

record nr_rlc_entity_buffer_status =
  bs_status_size :: int
  bs_tx_size :: int
  bs_retx_size :: int

record nr_rlc_entity =
  c_bstatus :: nr_rlc_entity_buffer_status
  c_stats :: nr_rlc_statistics
  c_txsdu_avg_time_to_tx :: time_average
  c_avg_time_is_on :: bool
  c_upcalls :: "upcall list"

definition zero_stats :: "nr_rlc_mode \<Rightarrow> nr_rlc_statistics" where
  "zero_stats m =
     \<lparr>st_mode = m, st_txpdu_pkts = 0, st_txpdu_bytes = 0, st_txpdu_wt_ms = 0,
      st_txpdu_dd_pkts = 0, st_txpdu_dd_bytes = 0, st_txpdu_retx_pkts = 0,
      st_txpdu_retx_bytes = 0, st_txpdu_segmented = 0, st_txpdu_status_pkts = 0,
      st_txpdu_status_bytes = 0, st_txbuf_occ_bytes = 0, st_txbuf_occ_pkts = 0,
      st_rxpdu_pkts = 0, st_rxpdu_bytes = 0, st_rxpdu_dup_pkts = 0, st_rxpdu_dup_bytes = 0,
      st_rxpdu_dd_pkts = 0, st_rxpdu_dd_bytes = 0, st_rxpdu_ow_pkts = 0, st_rxpdu_ow_bytes = 0,
      st_rxpdu_status_pkts = 0, st_rxpdu_status_bytes = 0, st_rxbuf_occ_bytes = 0,
      st_rxbuf_occ_pkts = 0, st_txsdu_pkts = 0, st_txsdu_bytes = 0, st_txsdu_wt_us = 0,
      st_rxsdu_pkts = 0, st_rxsdu_bytes = 0, st_rxsdu_dd_pkts = 0, st_rxsdu_dd_bytes = 0\<rparr>"

text \<open>The part of an entity that \<open>calloc\<close> and the constructors set up the same way.\<close>

definition new_common :: "nr_rlc_mode \<Rightarrow> nr_rlc_entity res" where
  "new_common m =
     bindr (time_average_new (100 * 1000) 1024) (\<lambda>ta.
       Inr \<lparr>c_bstatus = \<lparr>bs_status_size = 0, bs_tx_size = 0, bs_retx_size = 0\<rparr>,
            c_stats = zero_stats m, c_txsdu_avg_time_to_tx = ta, c_avg_time_is_on = False,
            c_upcalls = []\<rparr>)"

lemma new_common_Inr: "\<exists>c. new_common m = Inr c"
proof -
  have "(1024::int) AND 1023 = 0" by code_simp
  then show ?thesis by (simp add: new_common_def time_average_new_def)
qed

section \<open>Counters\<close>

text \<open>The increments of the statistics, one definition for each group of fields that the code
  updates together.\<close>

definition stat_rxpdu :: "int \<Rightarrow> nr_rlc_statistics \<Rightarrow> nr_rlc_statistics" where
  "stat_rxpdu n s = s\<lparr>st_rxpdu_pkts := st_rxpdu_pkts s + 1,
     st_rxpdu_bytes := st_rxpdu_bytes s + word_of_int n\<rparr>"

definition stat_rxpdu_dd :: "int \<Rightarrow> nr_rlc_statistics \<Rightarrow> nr_rlc_statistics" where
  "stat_rxpdu_dd n s = s\<lparr>st_rxpdu_dd_pkts := st_rxpdu_dd_pkts s + 1,
     st_rxpdu_dd_bytes := st_rxpdu_dd_bytes s + word_of_int n\<rparr>"

definition stat_rxpdu_ow :: "int \<Rightarrow> nr_rlc_statistics \<Rightarrow> nr_rlc_statistics" where
  "stat_rxpdu_ow n s = s\<lparr>st_rxpdu_ow_pkts := st_rxpdu_ow_pkts s + 1,
     st_rxpdu_ow_bytes := st_rxpdu_ow_bytes s + word_of_int n\<rparr>"

definition stat_rxpdu_dup :: "int \<Rightarrow> nr_rlc_statistics \<Rightarrow> nr_rlc_statistics" where
  "stat_rxpdu_dup n s = s\<lparr>st_rxpdu_dup_pkts := st_rxpdu_dup_pkts s + 1,
     st_rxpdu_dup_bytes := st_rxpdu_dup_bytes s + word_of_int n\<rparr>"

definition stat_txpdu :: "int \<Rightarrow> nr_rlc_statistics \<Rightarrow> nr_rlc_statistics" where
  "stat_txpdu n s = s\<lparr>st_txpdu_pkts := st_txpdu_pkts s + 1,
     st_txpdu_bytes := st_txpdu_bytes s + word_of_int n\<rparr>"

definition stat_txpdu_retx :: "int \<Rightarrow> nr_rlc_statistics \<Rightarrow> nr_rlc_statistics" where
  "stat_txpdu_retx n s = s\<lparr>st_txpdu_retx_pkts := st_txpdu_retx_pkts s + 1,
     st_txpdu_retx_bytes := st_txpdu_retx_bytes s + word_of_int n\<rparr>"

definition stat_txpdu_status :: "int \<Rightarrow> nr_rlc_statistics \<Rightarrow> nr_rlc_statistics" where
  "stat_txpdu_status n s = s\<lparr>st_txpdu_status_pkts := st_txpdu_status_pkts s + 1,
     st_txpdu_status_bytes := st_txpdu_status_bytes s + word_of_int n\<rparr>"

definition stat_txpdu_dd :: "int \<Rightarrow> nr_rlc_statistics \<Rightarrow> nr_rlc_statistics" where
  "stat_txpdu_dd n s = s\<lparr>st_txpdu_dd_pkts := st_txpdu_dd_pkts s + 1,
     st_txpdu_dd_bytes := st_txpdu_dd_bytes s + word_of_int n\<rparr>"

definition stat_segmented :: "nr_rlc_statistics \<Rightarrow> nr_rlc_statistics" where
  "stat_segmented s = s\<lparr>st_txpdu_segmented := st_txpdu_segmented s + 1\<rparr>"

definition stat_txsdu :: "int \<Rightarrow> nr_rlc_statistics \<Rightarrow> nr_rlc_statistics" where
  "stat_txsdu n s = s\<lparr>st_txsdu_pkts := st_txsdu_pkts s + 1,
     st_txsdu_bytes := st_txsdu_bytes s + word_of_int n\<rparr>"

definition stat_txsdu_pkt :: "nr_rlc_statistics \<Rightarrow> nr_rlc_statistics" where
  "stat_txsdu_pkt s = s\<lparr>st_txsdu_pkts := st_txsdu_pkts s + 1\<rparr>"

definition stat_txsdu_bytes :: "int \<Rightarrow> nr_rlc_statistics \<Rightarrow> nr_rlc_statistics" where
  "stat_txsdu_bytes n s = s\<lparr>st_txsdu_bytes := st_txsdu_bytes s + word_of_int n\<rparr>"

definition stat_rxsdu :: "int \<Rightarrow> nr_rlc_statistics \<Rightarrow> nr_rlc_statistics" where
  "stat_rxsdu n s = s\<lparr>st_rxsdu_pkts := st_rxsdu_pkts s + 1,
     st_rxsdu_bytes := st_rxsdu_bytes s + word_of_int n\<rparr>"

definition stat_rxsdu_pkt :: "nr_rlc_statistics \<Rightarrow> nr_rlc_statistics" where
  "stat_rxsdu_pkt s = s\<lparr>st_rxsdu_pkts := st_rxsdu_pkts s + 1\<rparr>"

definition stat_rxsdu_bytes :: "int \<Rightarrow> nr_rlc_statistics \<Rightarrow> nr_rlc_statistics" where
  "stat_rxsdu_bytes n s = s\<lparr>st_rxsdu_bytes := st_rxsdu_bytes s + word_of_int n\<rparr>"

definition stat_rxsdu_dd :: "int \<Rightarrow> nr_rlc_statistics \<Rightarrow> nr_rlc_statistics" where
  "stat_rxsdu_dd n s = s\<lparr>st_rxsdu_dd_pkts := st_rxsdu_dd_pkts s + 1,
     st_rxsdu_dd_bytes := st_rxsdu_dd_bytes s + word_of_int n\<rparr>"

definition upd_stats ::
  "(nr_rlc_statistics \<Rightarrow> nr_rlc_statistics) \<Rightarrow> nr_rlc_entity \<Rightarrow> nr_rlc_entity" where
  "upd_stats f c = c\<lparr>c_stats := f (c_stats c)\<rparr>"

definition upcall :: "upcall \<Rightarrow> nr_rlc_entity \<Rightarrow> nr_rlc_entity" where
  "upcall u c = c\<lparr>c_upcalls := c_upcalls c @ [u]\<rparr>"

definition add_tx_size :: "int \<Rightarrow> nr_rlc_entity \<Rightarrow> nr_rlc_entity" where
  "add_tx_size n c = c\<lparr>c_bstatus := (c_bstatus c)\<lparr>bs_tx_size := bs_tx_size (c_bstatus c) + n\<rparr>\<rparr>"

definition add_retx_size :: "int \<Rightarrow> nr_rlc_entity \<Rightarrow> nr_rlc_entity" where
  "add_retx_size n c = c\<lparr>c_bstatus := (c_bstatus c)\<lparr>bs_retx_size := bs_retx_size (c_bstatus c) + n\<rparr>\<rparr>"

text \<open>
  The sojourn time statistics of the three \<open>generate_tx_pdu\<close> functions, which run when
  \<open>avg_time_is_on\<close> is set.
\<close>

definition add_avg_time :: "u64 \<Rightarrow> u64 \<Rightarrow> nr_rlc_entity \<Rightarrow> nr_rlc_entity" where
  "add_avg_time time_now time_of_arrival c =
     (if c_avg_time_is_on c
      then c\<lparr>c_txsdu_avg_time_to_tx :=
               time_average_add (c_txsdu_avg_time_to_tx c) time_now (time_now - time_of_arrival)\<rparr>
      else c)"

text \<open>The time stamp of a new SDU, in the three \<open>recv_sdu\<close> functions.\<close>

definition stamp_arrival :: "nr_rlc_entity \<Rightarrow> u64 \<Rightarrow> nr_rlc_sdu_segment \<Rightarrow> rlc_heap \<Rightarrow> rlc_heap" where
  "stamp_arrival c clk seg h =
     (if c_avg_time_is_on c
      then h\<lparr>h_sdus := (h_sdus h)(seg_sdu seg :=
               map_option (\<lambda>s. s\<lparr>sdu_time_of_arrival := clk\<rparr>) (h_sdus h (seg_sdu seg)))\<rparr>
      else h)"

named_theorems common_simps "what the counters leave alone"

lemma common_frame [common_simps, simp]:
  "c_upcalls (upd_stats f c) = c_upcalls c"
  "c_bstatus (upd_stats f c) = c_bstatus c"
  "c_avg_time_is_on (upd_stats f c) = c_avg_time_is_on c"
  "c_upcalls (upcall u c) = c_upcalls c @ [u]"
  "c_bstatus (upcall u c) = c_bstatus c"
  "c_stats (upcall u c) = c_stats c"
  "c_upcalls (add_tx_size n c) = c_upcalls c"
  "c_stats (add_tx_size n c) = c_stats c"
  "c_upcalls (add_retx_size n c) = c_upcalls c"
  "c_upcalls (add_avg_time t a c) = c_upcalls c"
  "c_bstatus (add_avg_time t a c) = c_bstatus c"
  "bs_tx_size (c_bstatus (add_tx_size n c)) = bs_tx_size (c_bstatus c) + n"
  "bs_retx_size (c_bstatus (add_tx_size n c)) = bs_retx_size (c_bstatus c)"
  "bs_tx_size (c_bstatus (add_retx_size n c)) = bs_tx_size (c_bstatus c)"
  "bs_retx_size (c_bstatus (add_retx_size n c)) = bs_retx_size (c_bstatus c) + n"
  "c_stats (upd_stats f c) = f (c_stats c)"
  by (simp_all add: upd_stats_def upcall_def add_tx_size_def add_retx_size_def add_avg_time_def)

lemma stamp_arrival_store:
  assumes "h_sdus h (seg_sdu seg) = Some s"
  shows "\<exists>t. stamp_arrival c clk seg h = store h seg (s\<lparr>sdu_time_of_arrival := t\<rparr>)"
proof (cases "c_avg_time_is_on c")
  case False
  have "h = store h seg (s\<lparr>sdu_time_of_arrival := sdu_time_of_arrival s\<rparr>)"
    using assms by (simp add: store_def map_upd_triv)
  with False show ?thesis
    by (intro exI [of _ "sdu_time_of_arrival s"]) (simp add: stamp_arrival_def)
qed (use assms in \<open>auto simp: stamp_arrival_def store_def\<close>)

lemma heap_ok_stamp_arrival:
  assumes "heap_leak lk h l" and "seg \<in> set l"
  shows "heap_leak lk (stamp_arrival c clk seg h) l"
proof -
  obtain s where s: "h_sdus h (seg_sdu seg) = Some s"
    using assms by (auto elim: heap_ok_deref)
  then obtain t where "stamp_arrival c clk seg h = store h seg (s\<lparr>sdu_time_of_arrival := t\<rparr>)"
    using stamp_arrival_store by blast
  with heap_ok_store [OF assms(1) s] show ?thesis by simp
qed

end
