(* ===== verification/Nr_Rlc_Tm.thy ===== *)
theory Nr_Rlc_Tm
  imports Nr_Rlc_Common
begin

text \<open>
  Model of \<open>openair2/LAYER2/nr_rlc/nr_rlc_entity_tm.c\<close>: the transparent mode entity, which
  hands SDUs down and PDUs up unchanged and queues SDUs until MAC has room for a whole one.
\<close>

section \<open>State and operations\<close>

record nr_rlc_entity_tm =
  tm_common :: nr_rlc_entity
  tm_t_current :: u64
  tm_t_log_buffer_full :: u64
  tm_sdu_rejected :: int
  tm_tx_list :: segs
  tm_tx_end :: "nat option"
  tm_tx_size :: int
  tm_tx_maxsize :: int
  tm_heap :: rlc_heap

definition new_nr_rlc_entity_tm :: "int \<Rightarrow> nr_rlc_entity_tm res" where
  "new_nr_rlc_entity_tm tx_maxsize =
     bindr (new_common NR_RLC_TM) (\<lambda>c.
       Inr \<lparr>tm_common = c, tm_t_current = 0, tm_t_log_buffer_full = 0, tm_sdu_rejected = 0,
            tm_tx_list = [], tm_tx_end = None, tm_tx_size = 0, tm_tx_maxsize = tx_maxsize,
            tm_heap = empty_heap\<rparr>)"

definition nr_rlc_entity_tm_recv_pdu :: "nr_rlc_entity_tm \<Rightarrow> byte list \<Rightarrow> nr_rlc_entity_tm" where
  "nr_rlc_entity_tm_recv_pdu e buffer =
     (let size = int (length buffer);
          c = upd_stats (stat_rxpdu size) (tm_common e);
          c = upcall (Deliver_sdu buffer) c;
          c = upd_stats (stat_txsdu size) c
      in e\<lparr>tm_common := c\<rparr>)"

definition tm_generate_tx_pdu ::
  "u64 \<Rightarrow> nr_rlc_entity_tm \<Rightarrow> byte list \<Rightarrow> (int \<times> byte list \<times> nr_rlc_entity_tm) res" where
  "tm_generate_tx_pdu clk e buffer =
     (let size = int (length buffer)
      in case tm_tx_list e of
           [] \<Rightarrow> Inr (0, buffer, e)
         | sdu # rest \<Rightarrow>
             if seg_size sdu > size then Inr (0, buffer, e)
             else
               bindr (deref (tm_heap e) sdu) (\<lambda>s.
               bindr (mem_copy buffer 0 (sdu_data s) 0 (seg_size sdu)) (\<lambda>buffer.
               bindr (nr_rlc_free_sdu_segment (tm_heap e) sdu) (\<lambda>(_, h).
                 let c = upd_stats (stat_txpdu size) (tm_common e);
                     c = add_avg_time clk (sdu_time_of_arrival s) c;
                     c = add_tx_size (- seg_size sdu) c
                 in Inr (seg_size sdu, buffer,
                      e\<lparr>tm_tx_list := rest,
                        tm_tx_end := (if rest = [] then None else tm_tx_end e),
                        tm_tx_size := tm_tx_size e - seg_size sdu,
                        tm_common := c, tm_heap := h\<rparr>)))))"

definition nr_rlc_entity_tm_buffer_status ::
  "nr_rlc_entity_tm \<Rightarrow> int \<Rightarrow> nr_rlc_entity_buffer_status" where
  "nr_rlc_entity_tm_buffer_status e maxsize =
     \<lparr>bs_status_size = 0, bs_tx_size = bs_tx_size (c_bstatus (tm_common e)), bs_retx_size = 0\<rparr>"

definition nr_rlc_entity_tm_generate_pdu ::
  "u64 \<Rightarrow> nr_rlc_entity_tm \<Rightarrow> byte list \<Rightarrow> (int \<times> byte list \<times> nr_rlc_entity_tm) res" where
  "nr_rlc_entity_tm_generate_pdu clk e buffer = tm_generate_tx_pdu clk e buffer"

text \<open>The first block of \<open>recv_sdu\<close>: the log of rejected SDUs, at most once a second.\<close>

definition tm_log_rejected :: "nr_rlc_entity_tm \<Rightarrow> nr_rlc_entity_tm" where
  "tm_log_rejected e =
     (if tm_sdu_rejected e \<noteq> 0 \<and> tm_t_current e > tm_t_log_buffer_full e + 1000
      then e\<lparr>tm_sdu_rejected := 0, tm_t_log_buffer_full := tm_t_current e\<rparr> else e)"

definition nr_rlc_entity_tm_recv_sdu ::
  "u64 \<Rightarrow> nr_rlc_entity_tm \<Rightarrow> byte list \<Rightarrow> int \<Rightarrow> nr_rlc_entity_tm res" where
  "nr_rlc_entity_tm_recv_sdu clk e buffer sdu_id =
     (let size = int (length buffer);
          e = e\<lparr>tm_common := upd_stats (stat_rxsdu size) (tm_common e)\<rparr>
      in if size > NR_SDU_MAX then Inl Exit_sdu_too_big
         else
           let e = tm_log_rejected e
           in if tm_tx_size e + size > tm_tx_maxsize e
              then Inr (e\<lparr>tm_sdu_rejected := tm_sdu_rejected e + 1,
                          tm_common := upd_stats (stat_rxsdu_dd size) (tm_common e)\<rparr>)
              else
                let (sdu, h) = nr_rlc_new_sdu (tm_heap e) buffer sdu_id
                in bindr (nr_rlc_sdu_segment_list_append (tm_tx_list e, tm_tx_end e) sdu)
                     (\<lambda>(l, en). Inr (e\<lparr>tm_tx_size := tm_tx_size e + size,
                        tm_tx_list := l, tm_tx_end := en,
                        tm_common := add_tx_size (seg_size sdu) (tm_common e),
                        tm_heap := stamp_arrival (tm_common e) clk sdu h\<rparr>)))"

definition nr_rlc_entity_tm_set_time :: "nr_rlc_entity_tm \<Rightarrow> u64 \<Rightarrow> nr_rlc_entity_tm" where
  "nr_rlc_entity_tm_set_time e now = e\<lparr>tm_t_current := now\<rparr>"

definition nr_rlc_entity_tm_discard_sdu :: "nr_rlc_entity_tm \<Rightarrow> int \<Rightarrow> nr_rlc_entity_tm" where
  "nr_rlc_entity_tm_discard_sdu e sdu_id = e"

definition tm_clear_entity :: "nr_rlc_entity_tm \<Rightarrow> nr_rlc_entity_tm res" where
  "tm_clear_entity e =
     bindr (nr_rlc_free_sdu_segment_list (tm_heap e) (tm_tx_list e)) (\<lambda>h.
       Inr (e\<lparr>tm_t_current := 0, tm_t_log_buffer_full := 0, tm_sdu_rejected := 0,
              tm_tx_list := [], tm_tx_end := None, tm_tx_size := 0,
              tm_common := (tm_common e)\<lparr>c_bstatus := (c_bstatus (tm_common e))\<lparr>bs_tx_size := 0\<rparr>\<rparr>,
              tm_heap := h\<rparr>))"

definition nr_rlc_entity_tm_reestablishment :: "nr_rlc_entity_tm \<Rightarrow> nr_rlc_entity_tm res" where
  "nr_rlc_entity_tm_reestablishment e = tm_clear_entity e"

text \<open>\<open>nr_rlc_entity_tm_delete\<close>: what is left in the store after the entity is gone.\<close>

definition nr_rlc_entity_tm_delete :: "nr_rlc_entity_tm \<Rightarrow> rlc_heap res" where
  "nr_rlc_entity_tm_delete e = bindr (tm_clear_entity e) (\<lambda>e. Inr (tm_heap e))"

definition nr_rlc_entity_tm_available_tx_space :: "nr_rlc_entity_tm \<Rightarrow> int" where
  "nr_rlc_entity_tm_available_tx_space e = tm_tx_maxsize e - tm_tx_size e"

definition nr_rlc_entity_tm_tx_list_occupancy :: "nr_rlc_entity_tm \<Rightarrow> int" where
  "nr_rlc_entity_tm_tx_list_occupancy e = tm_tx_size e"

section \<open>Invariant\<close>

definition tm_inv :: "nr_rlc_entity_tm \<Rightarrow> bool" where
  "tm_inv e \<longleftrightarrow>
     heap_ok (tm_heap e) (tm_tx_list e) \<and> end_ok (tm_tx_list e) (tm_tx_end e) \<and>
     (\<forall>s \<in> set (tm_tx_list e). seg_is_first s \<and> seg_is_last s) \<and>
     distinct (map seg_sdu (tm_tx_list e)) \<and>
     tm_tx_size e = sum_list (map seg_size (tm_tx_list e)) \<and>
     bs_tx_size (c_bstatus (tm_common e)) = tm_tx_size e \<and>
     tm_tx_size e \<le> max 0 (tm_tx_maxsize e)"

lemma tm_inv_new:
  "new_nr_rlc_entity_tm n = Inr e \<Longrightarrow> tm_inv e"
  by (auto simp: new_nr_rlc_entity_tm_def new_common_def tm_inv_def)

text \<open>The bytes of the SDU behind a segment that covers it whole.\<close>

definition whole_sdu :: "rlc_heap \<Rightarrow> nr_rlc_sdu_segment \<Rightarrow> byte list" where
  "whole_sdu h seg = (case h_sdus h (seg_sdu seg) of None \<Rightarrow> [] | Some s \<Rightarrow> sdu_data s)"

lemma whole_seg:
  assumes "heap_ok h l" and "seg \<in> set l" and "seg_is_first seg" and "seg_is_last seg"
  shows "seg_so seg = 0" and "seg_size seg = int (length (whole_sdu h seg))"
  using assms by (auto simp: heap_leak_def seg_ok_def sdu_ok_def whole_sdu_def)

text \<open>The abstract state: the queue of the SDUs that wait for transmission.\<close>

definition tm_queue :: "nr_rlc_entity_tm \<Rightarrow> byte list list" where
  "tm_queue e = map (whole_sdu (tm_heap e)) (tm_tx_list e)"

lemma whole_sdu_cong:
  "h_sdus h' (seg_sdu x) = h_sdus h (seg_sdu x) \<Longrightarrow> whole_sdu h' x = whole_sdu h x"
  by (simp add: whole_sdu_def)

lemma tm_inv_frame:
  "tm_inv (e\<lparr>tm_sdu_rejected := a, tm_t_log_buffer_full := t\<rparr>) = tm_inv e"
  "tm_inv (e\<lparr>tm_sdu_rejected := a\<rparr>) = tm_inv e"
  "c_bstatus c = c_bstatus (tm_common e) \<Longrightarrow> tm_inv (e\<lparr>tm_common := c\<rparr>) = tm_inv e"
  by (simp_all add: tm_inv_def)

lemma tm_recv_sdu_accept:
  fixes clk :: u64
  assumes inv: "tm_inv e" and fits: "tm_tx_size e + int (length buf) \<le> tm_tx_maxsize e"
    and new: "nr_rlc_new_sdu (tm_heap e) buf i = (sdu, h)"
  defines "e' \<equiv> e\<lparr>tm_tx_size := tm_tx_size e + int (length buf), tm_tx_list := tm_tx_list e @ [sdu],
      tm_tx_end := Some (seg_addr sdu),
      tm_common := add_tx_size (seg_size sdu) (tm_common e),
      tm_heap := stamp_arrival (tm_common e) clk sdu h\<rparr>"
  shows "tm_inv e'" and "tm_queue e' = tm_queue e @ [buf]"
proof -
  have heap: "heap_ok (tm_heap e) (tm_tx_list e)" using inv by (simp add: tm_inv_def)
  note n = heap_ok_new_sdu [OF heap new]
  obtain t where t: "stamp_arrival (tm_common e) clk sdu h = store h sdu
      (\<lparr>sdu_sn = - 1, sdu_upper_layer_id = i, sdu_data = buf, sdu_size = int (length buf),
        sdu_retx_count = - 1, sdu_ref_count = 1, sdu_free_count = 0,
        sdu_time_of_arrival = t\<rparr>)"
    using stamp_arrival_store [OF n(6), of "tm_common e" clk] by auto
  have ok: "heap_ok (stamp_arrival (tm_common e) clk sdu h) (tm_tx_list e @ [sdu])"
    by (rule heap_ok_perm [OF heap_ok_stamp_arrival [OF n(1)]]) auto
  have fresh: "seg_sdu sdu \<notin> seg_sdu ` set (tm_tx_list e)" using n(8) by (metis imageE)
  from ok fresh show "tm_inv e'"
    using inv n(2-5) fits by (simp add: tm_inv_def e'_def)
  have "whole_sdu (stamp_arrival (tm_common e) clk sdu h) x = whole_sdu (tm_heap e) x"
    if "x \<in> set (tm_tx_list e)" for x
    using n(7,8) that by (intro whole_sdu_cong) (auto simp: t)
  then show "tm_queue e' = tm_queue e @ [buf]"
    by (simp add: tm_queue_def e'_def whole_sdu_def t)
qed

lemma tm_generate_spec:
  assumes "tm_inv e"
  shows "\<exists>ret b e'. nr_rlc_entity_tm_generate_pdu clk e buf = Inr (ret, b, e') \<and> tm_inv e' \<and>
           length b = length buf \<and>
           (case tm_queue e of
              [] \<Rightarrow> ret = 0 \<and> e' = e
            | sdu # q \<Rightarrow>
                if length sdu > length buf then ret = 0 \<and> e' = e
                else ret = int (length sdu) \<and> take (nat ret) b = sdu \<and> tm_queue e' = q)"
proof (cases "tm_tx_list e")
  case Nil
  with assms show ?thesis
    by (auto simp: nr_rlc_entity_tm_generate_pdu_def tm_generate_tx_pdu_def tm_queue_def)
next
  case (Cons sdu rest)
  have heap: "heap_ok (tm_heap e) (sdu # rest)" and fl: "seg_is_first sdu" "seg_is_last sdu"
    and "seg_sdu sdu \<notin> seg_sdu ` set rest"
    using assms Cons by (auto simp: tm_inv_def)
  then have ds: "\<And>x. x \<in> set rest \<Longrightarrow> seg_sdu x \<noteq> seg_sdu sdu" by (metis imageI)
  note w = whole_seg [OF heap _ fl, simplified]
  obtain s where s: "deref (tm_heap e) sdu = Inr s" "h_sdus (tm_heap e) (seg_sdu sdu) = Some s"
    using heap_ok_deref [OF heap, of sdu] by auto
  have data: "whole_sdu (tm_heap e) sdu = sdu_data s" by (simp add: whole_sdu_def s)
  have hd: "tm_queue e = sdu_data s # map (whole_sdu (tm_heap e)) rest"
    by (simp add: tm_queue_def Cons data)
  show ?thesis
  proof (cases "length (sdu_data s) > length buf")
    case True
    with assms w data hd Cons show ?thesis
      by (auto simp: nr_rlc_entity_tm_generate_pdu_def tm_generate_tx_pdu_def)
  next
    case False
    obtain b where b: "mem_copy buf 0 (sdu_data s) 0 (seg_size sdu) = Inr b" "length b = length buf"
      "take (nat (seg_size sdu)) b = sdu_data s"
      using mem_copy_ok [of "seg_size sdu" 0 0 buf "sdu_data s"] w data False by auto
    obtain fr h where h: "nr_rlc_free_sdu_segment (tm_heap e) sdu = Inr (fr, h)" "heap_ok h rest"
      "\<forall>a. a \<noteq> seg_sdu sdu \<longrightarrow> h_sdus h a = h_sdus (tm_heap e) a"
      using heap_ok_free [OF heap] by blast
    have q: "map (whole_sdu h) rest = map (whole_sdu (tm_heap e)) rest"
      using h(3) ds by (auto intro!: whole_sdu_cong)
    have en: "end_ok rest (if rest = [] then None else tm_tx_end e)"
      using assms Cons by (auto simp: tm_inv_def end_ok_def)
    have pos: "0 \<le> seg_size sdu" using w by simp
    from False s b h en w data hd Cons assms q show ?thesis
      by (auto simp: nr_rlc_entity_tm_generate_pdu_def tm_generate_tx_pdu_def Let_def tm_inv_def
          tm_queue_def)
  qed
qed

lemma tm_generate_bounds:
  assumes "tm_inv e"
  shows "\<exists>ret b e'. nr_rlc_entity_tm_generate_pdu clk e buf = Inr (ret, b, e') \<and> tm_inv e' \<and>
     0 \<le> ret \<and> ret \<le> int (length buf) \<and> length b = length buf"
proof -
  obtain ret b e' where run: "nr_rlc_entity_tm_generate_pdu clk e buf = Inr (ret, b, e')"
    "tm_inv e'" "length b = length buf"
    and ret: "case tm_queue e of [] \<Rightarrow> ret = 0 \<and> e' = e
       | sdu # q \<Rightarrow> if length sdu > length buf then ret = 0 \<and> e' = e
           else ret = int (length sdu) \<and> take (nat ret) b = sdu \<and> tm_queue e' = q"
    using tm_generate_spec [OF assms, of clk buf] by blast
  from ret have "0 \<le> ret \<and> ret \<le> int (length buf)"
    by (cases "tm_queue e") (auto split: if_splits)
  with run show ?thesis by blast
qed

lemma tm_recv_sdu_spec:
  assumes "tm_inv e"
  shows "if int (length buf) > NR_SDU_MAX
         then nr_rlc_entity_tm_recv_sdu clk e buf i = Inl Exit_sdu_too_big
         else \<exists>e'. nr_rlc_entity_tm_recv_sdu clk e buf i = Inr e' \<and> tm_inv e' \<and>
                tm_queue e' = (if tm_tx_size e + int (length buf) > tm_tx_maxsize e
                               then tm_queue e else tm_queue e @ [buf])"
proof (cases "int (length buf) > NR_SDU_MAX")
  case True
  then show ?thesis by (simp add: nr_rlc_entity_tm_recv_sdu_def Let_def)
next
  case False
  let ?b = "int (length buf)"
  let ?e0 = "e\<lparr>tm_common := upd_stats (stat_rxsdu ?b) (tm_common e)\<rparr>"
  define e1 where "e1 = tm_log_rejected ?e0"
  have e1: "tm_inv e1" "tm_queue e1 = tm_queue e" "tm_tx_size e1 = tm_tx_size e"
    "tm_tx_maxsize e1 = tm_tx_maxsize e"
    using assms by (auto simp: e1_def tm_log_rejected_def tm_inv_def tm_queue_def)
  obtain sdu h where new: "nr_rlc_new_sdu (tm_heap e1) buf i = (sdu, h)" by fastforce
  have app: "nr_rlc_sdu_segment_list_append (tm_tx_list e1, tm_tx_end e1) sdu =
      Inr (tm_tx_list e1 @ [sdu], Some (seg_addr sdu))"
    using e1(1) by (intro list_append_ok) (auto simp: tm_inv_def heap_leak_def)
  have run: "nr_rlc_entity_tm_recv_sdu clk e buf i =
     (if tm_tx_size e1 + ?b > tm_tx_maxsize e1
      then Inr (e1\<lparr>tm_sdu_rejected := tm_sdu_rejected e1 + 1,
                   tm_common := upd_stats (stat_rxsdu_dd ?b) (tm_common e1)\<rparr>)
      else Inr (e1\<lparr>tm_tx_size := tm_tx_size e1 + ?b, tm_tx_list := tm_tx_list e1 @ [sdu],
                   tm_tx_end := Some (seg_addr sdu),
                   tm_common := add_tx_size (seg_size sdu) (tm_common e1),
                   tm_heap := stamp_arrival (tm_common e1) clk sdu h\<rparr>))"
    using False by (simp add: nr_rlc_entity_tm_recv_sdu_def Let_def e1_def [symmetric] new app)
  show ?thesis
  proof (cases "tm_tx_size e1 + ?b > tm_tx_maxsize e1")
    case True
    with False run e1 show ?thesis by (auto simp: tm_inv_def tm_queue_def)
  next
    case fits: False
    with tm_recv_sdu_accept [OF e1(1) _ new, of clk] False run e1 show ?thesis by auto
  qed
qed

section \<open>Properties\<close>

text \<open>
  the transparent mode entity refines a bounded queue. \<open>recv_sdu\<close> appends an SDU of legal size when
  it fits the configured maximum, and otherwise drops and counts it, with the queue unchanged; a longer
  SDU stops the process. With room for the SDU at the head, \<open>generate_pdu\<close> fills the start of the MAC
  buffer with exactly that SDU, returns its length and removes it; without room, or with nothing queued,
  it returns 0 and changes nothing. The entity invariant (reference counts, list end, byte counts, buffer
  status) holds again in all cases, and no access is invalid.
\<close>

lemma tm_refines_queue:
  assumes "tm_inv e"
  shows "(if int (length sdu) > NR_SDU_MAX
          then nr_rlc_entity_tm_recv_sdu clk e sdu i = Inl Exit_sdu_too_big
          else \<exists>e'. nr_rlc_entity_tm_recv_sdu clk e sdu i = Inr e' \<and> tm_inv e' \<and>
                 tm_queue e' = (if tm_tx_size e + int (length sdu) > tm_tx_maxsize e
                                then tm_queue e else tm_queue e @ [sdu])) \<and>
     (\<exists>ret b e'. nr_rlc_entity_tm_generate_pdu clk e buf = Inr (ret, b, e') \<and> tm_inv e' \<and>
        length b = length buf \<and>
        (case tm_queue e of
           [] \<Rightarrow> ret = 0 \<and> e' = e
         | sdu # q \<Rightarrow>
             if length sdu > length buf then ret = 0 \<and> e' = e
             else ret = int (length sdu) \<and> take (nat ret) b = sdu \<and> tm_queue e' = q))"
  by (rule conjI [OF tm_recv_sdu_spec [OF assms] tm_generate_spec [OF assms]])

text \<open>
  A run of the entity used by the witness: an entity for 100 bytes with the SDU
  \<open>[1, 2, 3]\<close> queued.
\<close>

lemma tm_example:
  "\<exists>e. tm_inv e \<and> tm_queue e = [[1, 2, 3]] \<and> tm_tx_size e = 3 \<and> tm_tx_maxsize e = 100"
proof -
  obtain c where "new_common NR_RLC_TM = Inr c" using new_common_Inr by blast
  then obtain e0 where e0: "new_nr_rlc_entity_tm 100 = Inr e0"
    by (auto simp: new_nr_rlc_entity_tm_def)
  have i0: "tm_inv e0" by (rule tm_inv_new [OF e0])
  have f0: "tm_tx_list e0 = []" "tm_tx_size e0 = 0" "tm_tx_maxsize e0 = 100"
    using e0 by (auto simp: new_nr_rlc_entity_tm_def)
  obtain sdu h where new: "nr_rlc_new_sdu (tm_heap e0) [1, 2, 3] 7 = (sdu, h)" by fastforce
  have fits: "tm_tx_size e0 + int (length [1::byte, 2, 3]) \<le> tm_tx_maxsize e0" using f0 by simp
  note a = tm_recv_sdu_accept [OF i0 fits new, of 0]
  have "tm_queue e0 = []" using f0 by (simp add: tm_queue_def)
  with a f0 show ?thesis
    by (intro exI conjI) (assumption, simp_all)
qed

lemma tm_refines_queue_example:
  "\<exists>e e1 b e2. tm_inv e \<and> nr_rlc_entity_tm_recv_sdu 0 e [9] 8 = Inr e1 \<and> tm_queue e1 = [[1, 2, 3], [9]] \<and>
     nr_rlc_entity_tm_generate_pdu 0 e [0, 0, 0, 0] = Inr (3, b, e2) \<and> take 3 b = [1, 2, 3] \<and> tm_queue e2 = []"
proof -
  obtain e where e: "tm_inv e" "tm_queue e = [[1, 2, 3]]" "tm_tx_size e = 3" "tm_tx_maxsize e = 100"
    using tm_example by blast
  from tm_refines_queue [OF e(1), of "[9]" 0 8 "[0, 0, 0, 0]"] e
  have "(\<exists>e1. nr_rlc_entity_tm_recv_sdu 0 e [9] 8 = Inr e1 \<and> tm_queue e1 = [[1, 2, 3], [9]]) \<and>
      (\<exists>b e2. nr_rlc_entity_tm_generate_pdu 0 e [0, 0, 0, 0] = Inr (3, b, e2) \<and> take 3 b = [1, 2, 3] \<and> tm_queue e2 = [])"
    by (auto simp: NR_SDU_MAX_def numeral_3_eq_3)
  with e(1) show ?thesis by blast
qed

end
