(* ===== verification/Nr_Rlc_Reassembly.thy ===== *)
theory Nr_Rlc_Reassembly
  imports Nr_Rlc_Common
begin

text \<open>
  The loops over the received segments of one SDU, which the acknowledged and the unacknowledged
  mode entity have in the same form (\<open>sdu_full\<close>, \<open>sdu_has_missing_bytes\<close>,
  \<open>reassemble_and_deliver\<close> in \<open>nr_rlc_entity_um.c\<close> and \<open>nr_rlc_entity_am.c\<close>), and the loop
  that moves a sequence number over delivered SDUs.

  Segments may overlap in any way. \<open>reassembly_correct\<close> states that the entity considers an SDU
  complete exactly when every byte of it has arrived, and that it then rebuilds exactly that SDU.
\<close>

type_synonym pdus = "nr_rlc_pdu list"

section \<open>Operations\<close>

text \<open>The second loop of \<open>sdu_full\<close>, from the value of \<open>last_byte\<close>.\<close>

fun sdu_full_loop :: "pdus \<Rightarrow> int \<Rightarrow> bool" where
  "sdu_full_loop [] last_byte = False"
| "sdu_full_loop (p # l) last_byte =
     (if pdu_so p > last_byte + 1 then False
      else if pdu_is_last p then True
      else
        let new_last_byte = pdu_so p + pdu_size p - 1
        in sdu_full_loop l (if new_last_byte > last_byte then new_last_byte else last_byte))"

text \<open>The second loop of \<open>sdu_has_missing_bytes\<close>.\<close>

fun missing_bytes_loop :: "pdus \<Rightarrow> int \<Rightarrow> bool" where
  "missing_bytes_loop [] last_byte = False"
| "missing_bytes_loop (p # l) last_byte =
     (if pdu_so p > last_byte + 1 then True
      else
        let new_last_byte = pdu_so p + pdu_size p - 1
        in missing_bytes_loop l (if new_last_byte > last_byte then new_last_byte else last_byte))"

text \<open>
  The reassembly loop. Its state is the buffer \<open>sdu\<close>, the number \<open>so\<close> of bytes in it and the
  flag \<open>bad_sdu\<close>. What the loop does to the segments themselves differs between the two entities
  and is part of their models.
\<close>

definition reassemble_step ::
  "nr_rlc_pdu \<Rightarrow> byte list \<times> int \<times> bool \<Rightarrow> (byte list \<times> int \<times> bool) res" where
  "reassemble_step pdu s =
     (case s of (sdu, so, bad_sdu) \<Rightarrow>
       let bad_sdu = (bad_sdu \<or> pdu_so pdu > so);
           len = pdu_size pdu - (so - pdu_so pdu);
           bad_sdu = (bad_sdu \<or> so + len > NR_SDU_MAX)
       in if \<not> bad_sdu \<and> len > 0
          then case pdu_data pdu of
                 None \<Rightarrow> Inl Null_dereference
               | Some data \<Rightarrow>
                   bindr (mem_copy sdu so data (so - pdu_so pdu) len)
                     (\<lambda>sdu. Inr (sdu, so + len, bad_sdu))
          else Inr (sdu, so, bad_sdu))"

fun reassemble_loop ::
  "pdus \<Rightarrow> byte list \<times> int \<times> bool \<Rightarrow> (byte list \<times> int \<times> bool) res" where
  "reassemble_loop [] s = Inr s"
| "reassemble_loop (p # l) s = bindr (reassemble_step p s) (reassemble_loop l)"

text \<open>The local buffer \<open>char sdu[NR_SDU_MAX]\<close>; it is written before it is read.\<close>

definition sdu_buffer :: "byte list" where
  "sdu_buffer = replicate (nat NR_SDU_MAX) 0"

definition reassemble :: "pdus \<Rightarrow> (byte list \<times> bool) res" where
  "reassemble l =
     bindr (reassemble_loop l (sdu_buffer, 0, False))
       (\<lambda>(sdu, so, bad_sdu). Inr (take (nat so) sdu, bad_sdu))"

text \<open>
  \<open>while (sdu_delivered(entity, x)) x = (x + 1) % sn_modulus\<close>: after \<open>sn_modulus\<close> steps \<open>x\<close>
  has its first value again, so a loop that has not ended by then never does.
\<close>

fun skip_delivered_loop :: "nat \<Rightarrow> (int \<Rightarrow> bool) \<Rightarrow> int \<Rightarrow> int \<Rightarrow> int res" where
  "skip_delivered_loop 0 delivered sn_modulus x = Inl Endless_loop"
| "skip_delivered_loop (Suc n) delivered sn_modulus x =
     (if delivered x then skip_delivered_loop n delivered sn_modulus (crem (x + 1) sn_modulus)
      else Inr x)"

definition skip_delivered :: "(int \<Rightarrow> bool) \<Rightarrow> int \<Rightarrow> int \<Rightarrow> int res" where
  "skip_delivered delivered sn_modulus x =
     skip_delivered_loop (nat sn_modulus) delivered sn_modulus x"

section \<open>The skipping loop\<close>

lemma skip_delivered_loop_ok:
  assumes "0 \<le> x" "x < m" and "\<not> delivered ((x + int k) mod m)" and "k < n"
  shows "\<exists>j \<le> k. skip_delivered_loop n delivered m x = Inr ((x + int j) mod m) \<and>
           \<not> delivered ((x + int j) mod m) \<and> (\<forall>i < j. delivered ((x + int i) mod m))"
  using assms
proof (induction n arbitrary: x k)
  case (Suc n)
  show ?case
  proof (cases "delivered x")
    case False
    with Suc.prems show ?thesis by (intro exI [of _ 0]) (simp add: mod_pos_pos_trivial)
  next
    case True
    then have "k \<noteq> 0" using Suc.prems by (intro notI) (simp add: mod_pos_pos_trivial)
    then obtain k' where k': "k = Suc k'" by (cases k) auto
    let ?x = "(x + 1) mod m"
    have sh: "(?x + int i) mod m = (x + int (Suc i)) mod m" for i
      by (metis add.assoc add.commute mod_add_left_eq of_nat_Suc)
    have "\<exists>j \<le> k'. skip_delivered_loop n delivered m ?x = Inr ((?x + int j) mod m) \<and>
           \<not> delivered ((?x + int j) mod m) \<and> (\<forall>i < j. delivered ((?x + int i) mod m))"
    proof (rule Suc.IH)
      show "0 \<le> ?x" "?x < m" using Suc.prems by auto
      show "\<not> delivered ((?x + int k') mod m)" using Suc.prems(3) unfolding sh k' .
      show "k' < n" using Suc.prems(4) k' by simp
    qed
    then obtain j where j: "j \<le> k'" "skip_delivered_loop n delivered m ?x = Inr ((?x + int j) mod m)"
      "\<not> delivered ((?x + int j) mod m)" "\<And>i. i < j \<Longrightarrow> delivered ((?x + int i) mod m)"
      by blast
    have "delivered ((x + int i) mod m)" if "i < Suc j" for i
    proof (cases i)
      case 0
      with True Suc.prems show ?thesis by (simp add: mod_pos_pos_trivial)
    next
      case (Suc i')
      with j(4) [of i'] that show ?thesis unfolding sh by simp
    qed
    with True Suc.prems(1) j k' show ?thesis
      unfolding sh by (intro exI [of _ "Suc j"]) simp
  qed
qed simp

text \<open>
  The loop ends when some sequence number is not delivered, at the first such one from \<open>x\<close> on.
\<close>

lemma skip_delivered_ok:
  assumes "0 \<le> x" "x < m" and "0 \<le> y" "y < m" "\<not> delivered y"
  shows "\<exists>j. skip_delivered delivered m x = Inr ((x + int j) mod m) \<and> int j \<le> (y - x) mod m \<and>
           \<not> delivered ((x + int j) mod m) \<and> (\<forall>i < j. delivered ((x + int i) mod m))"
proof -
  have d: "0 \<le> (y - x) mod m" "(y - x) mod m < m" using assms by auto
  have "(x + (y - x) mod m) mod m = y mod m" by (simp add: mod_add_right_eq)
  then have "(x + int (nat ((y - x) mod m))) mod m = y"
    using assms d by (simp add: mod_pos_pos_trivial)
  moreover have "nat ((y - x) mod m) < nat m" using d by (simp add: nat_less_iff)
  ultimately obtain j where j: "j \<le> nat ((y - x) mod m)"
    "skip_delivered_loop (nat m) delivered m x = Inr ((x + int j) mod m)"
    "\<not> delivered ((x + int j) mod m)" "\<forall>i < j. delivered ((x + int i) mod m)"
    using skip_delivered_loop_ok [OF assms(1,2), of delivered "nat ((y - x) mod m)" "nat m"]
      assms(5) by auto
  moreover have "int j \<le> (y - x) mod m" using j(1) d by linarith
  ultimately show ?thesis by (auto simp: skip_delivered_def)
qed

lemma skip_delivered_stop: "\<not> delivered x \<Longrightarrow> 0 < m \<Longrightarrow> skip_delivered delivered m x = Inr x"
  by (cases "nat m") (auto simp: skip_delivered_def)

text \<open>When everything is delivered the loop never ends.\<close>

lemma skip_delivered_endless:
  assumes "\<And>y. 0 \<le> y \<Longrightarrow> y < m \<Longrightarrow> delivered y" and "0 \<le> x" and "x < m"
  shows "skip_delivered delivered m x = Inl Endless_loop"
proof -
  have "skip_delivered_loop n delivered m x = Inl Endless_loop" if "0 \<le> x" "x < m" for n x
    using that
  proof (induction n arbitrary: x)
    case (Suc n)
    then show ?case using assms(1) [of x] by simp
  qed simp
  with assms show ?thesis by (simp add: skip_delivered_def)
qed

section \<open>Memory safety of the reassembly\<close>

definition pdu_wf :: "nr_rlc_pdu \<Rightarrow> bool" where
  "pdu_wf p \<longleftrightarrow> 0 \<le> pdu_so p \<and>
     (case pdu_data p of None \<Rightarrow> pdu_size p = 0 | Some d \<Rightarrow> pdu_size p = int (length d))"

lemma reassemble_step_ok:
  assumes "pdu_wf p" and "0 \<le> so" "so \<le> NR_SDU_MAX" "length sdu = nat NR_SDU_MAX"
  shows "\<exists>sdu' so' bad'. reassemble_step p (sdu, so, bad) = Inr (sdu', so', bad') \<and>
     so \<le> so' \<and> so' \<le> NR_SDU_MAX \<and> length sdu' = nat NR_SDU_MAX \<and> (bad \<longrightarrow> bad')"
proof (cases "\<not> bad \<and> pdu_so p \<le> so \<and> pdu_so p + pdu_size p \<le> NR_SDU_MAX \<and>
    0 < pdu_size p - (so - pdu_so p)")
  case True
  then obtain d where d: "pdu_data p = Some d" "pdu_size p = int (length d)" "0 \<le> pdu_so p"
    using assms by (auto simp: pdu_wf_def split: option.splits)
  obtain b where "mem_copy sdu so d (so - pdu_so p) (pdu_size p - (so - pdu_so p)) = Inr b"
    "length b = length sdu"
    using mem_copy_ok [of "pdu_size p - (so - pdu_so p)" so "so - pdu_so p" sdu d] assms True d
    by (auto simp: NR_SDU_MAX_def)
  with True d assms show ?thesis by (auto simp: reassemble_step_def Let_def)
next
  case False
  with assms show ?thesis by (auto simp: reassemble_step_def Let_def)
qed

lemma reassemble_loop_ok:
  assumes "\<forall>p \<in> set l. pdu_wf p" and "0 \<le> so" "so \<le> NR_SDU_MAX" "length sdu = nat NR_SDU_MAX"
  shows "\<exists>sdu' so' bad'. reassemble_loop l (sdu, so, bad) = Inr (sdu', so', bad') \<and>
     0 \<le> so' \<and> so' \<le> NR_SDU_MAX \<and> length sdu' = nat NR_SDU_MAX"
  using assms
proof (induction l arbitrary: sdu so bad)
  case (Cons p l)
  obtain sdu1 so1 bad1 where s: "reassemble_step p (sdu, so, bad) = Inr (sdu1, so1, bad1)"
    "so \<le> so1" "so1 \<le> NR_SDU_MAX" "length sdu1 = nat NR_SDU_MAX"
    using reassemble_step_ok [of p so sdu bad] Cons.prems by auto
  from Cons.IH [OF _ _ s(3,4)] s Cons.prems show ?case by auto
qed auto

lemma reassemble_ok:
  assumes "\<forall>p \<in> set l. pdu_wf p"
  shows "\<exists>sdu bad. reassemble l = Inr (sdu, bad) \<and> int (length sdu) \<le> NR_SDU_MAX"
proof -
  have "length sdu_buffer = nat NR_SDU_MAX" by (simp add: sdu_buffer_def)
  then show ?thesis
    using reassemble_loop_ok [OF assms, of 0 sdu_buffer False]
    by (auto simp: reassemble_def NR_SDU_MAX_def)
qed

section \<open>Correctness of the reassembly\<close>

text \<open>The segment \<open>p\<close> carries a part of the SDU \<open>D\<close>.\<close>

definition part_of :: "byte list \<Rightarrow> nr_rlc_pdu \<Rightarrow> bool" where
  "part_of D p \<longleftrightarrow> 0 \<le> pdu_so p \<and> 0 < pdu_size p \<and> pdu_so p + pdu_size p \<le> int (length D) \<and>
     pdu_data p = Some (take (nat (pdu_size p)) (drop (nat (pdu_so p)) D)) \<and>
     (pdu_is_last p \<longleftrightarrow> pdu_so p + pdu_size p = int (length D))"

definition covers :: "nr_rlc_pdu \<Rightarrow> int \<Rightarrow> bool" where
  "covers p i \<longleftrightarrow> pdu_so p \<le> i \<and> i < pdu_so p + pdu_size p"

lemma part_of_wf: "part_of D p \<Longrightarrow> pdu_wf p"
  by (auto simp: part_of_def pdu_wf_def)

lemma if_max: "(if b < a then a else b) = max b (a::int)"
  by simp

lemma sdu_full_loop_Cons:
  "sdu_full_loop (p # l) lb \<longleftrightarrow> pdu_so p \<le> lb + 1 \<and>
     (pdu_is_last p \<or> sdu_full_loop l (max lb (pdu_so p + pdu_size p - 1)))"
  by (simp add: if_max Let_def)

text \<open>One turn of the loop on a segment without a gap before it extends the rebuilt prefix.\<close>

lemma reassemble_step_part:
  assumes "part_of D p" and "int (length D) \<le> NR_SDU_MAX" and "length sdu = nat NR_SDU_MAX"
    and "take (nat so) sdu = take (nat so) D" and "0 \<le> so" "so \<le> int (length D)"
    and "pdu_so p \<le> so"
  shows "\<exists>sdu'. reassemble_step p (sdu, so, False) = Inr (sdu', max so (pdu_so p + pdu_size p), False) \<and>
     length sdu' = nat NR_SDU_MAX \<and>
     take (nat (max so (pdu_so p + pdu_size p))) sdu' = take (nat (max so (pdu_so p + pdu_size p))) D"
proof (cases "so < pdu_so p + pdu_size p")
  case True
  define d len where "d = take (nat (pdu_size p)) (drop (nat (pdu_so p)) D)"
    and "len = pdu_size p - (so - pdu_so p)"
  have p: "pdu_data p = Some d" "length d = nat (pdu_size p)" "0 \<le> pdu_so p"
    "pdu_so p + pdu_size p \<le> int (length D)"
    using assms(1) by (auto simp: part_of_def d_def)
  obtain b where b: "mem_copy sdu so d (so - pdu_so p) len = Inr b" "length b = length sdu"
    "take (nat (so + len)) b = take (nat so) sdu @ take (nat len) (drop (nat (so - pdu_so p)) d)"
    using mem_copy_ok [of len so "so - pdu_so p" sdu d] p assms True by (auto simp: len_def)
  have "take (nat len) (drop (nat (so - pdu_so p)) d) = take (nat len) (drop (nat so) D)"
  proof -
    have "nat (so - pdu_so p) + nat (pdu_so p) = nat so" using p(3) assms(7) by simp
    moreover have "nat len = nat (pdu_size p) - nat (so - pdu_so p)"
      using assms(7) True by (simp add: len_def nat_diff_distrib)
    ultimately show ?thesis by (simp add: d_def drop_take)
  qed
  with b(3) assms(4) have "take (nat (so + len)) b = take (nat so + nat len) D"
    by (simp add: take_add)
  moreover have "nat (so + len) = nat so + nat len" "so + len = pdu_so p + pdu_size p"
    using assms(5) True by (auto simp: len_def nat_add_distrib)
  ultimately have "take (nat (pdu_so p + pdu_size p)) b = take (nat (pdu_so p + pdu_size p)) D"
    by simp
  moreover have "reassemble_step p (sdu, so, False) = Inr (b, pdu_so p + pdu_size p, False)"
    using b(1) p True assms(2,7) by (auto simp: reassemble_step_def Let_def len_def)
  ultimately show ?thesis using b(2) assms(3) True by (auto simp: max_def)
next
  case False
  then have "reassemble_step p (sdu, so, False) = Inr (sdu, so, False)"
    using assms by (auto simp: reassemble_step_def Let_def part_of_def)
  with False assms show ?thesis by (auto simp: max_def)
qed

text \<open>Once the whole SDU is there, further parts of it change nothing.\<close>

lemma reassemble_loop_done:
  assumes "\<forall>p \<in> set l. part_of D p" and "int (length D) \<le> NR_SDU_MAX"
  shows "reassemble_loop l (sdu, int (length D), False) = Inr (sdu, int (length D), False)"
  using assms
proof (induction l)
  case (Cons p l)
  then have "reassemble_step p (sdu, int (length D), False) = Inr (sdu, int (length D), False)"
    by (auto simp: reassemble_step_def Let_def part_of_def)
  with Cons show ?case by simp
qed simp

lemma reassemble_loop_full:
  assumes "\<forall>p \<in> set l. part_of D p" and "int (length D) \<le> NR_SDU_MAX"
    and "length sdu = nat NR_SDU_MAX" and "take (nat so) sdu = take (nat so) D"
    and "0 \<le> so" "so \<le> int (length D)" and "sdu_full_loop l (so - 1)"
  shows "\<exists>sdu'. reassemble_loop l (sdu, so, False) = Inr (sdu', int (length D), False) \<and>
           take (length D) sdu' = D"
  using assms
proof (induction l arbitrary: sdu so)
  case (Cons p l)
  have p: "part_of D p" "pdu_so p \<le> so" using Cons.prems by (auto split: if_splits)
  let ?so = "max so (pdu_so p + pdu_size p)"
  obtain sdu1 where s: "reassemble_step p (sdu, so, False) = Inr (sdu1, ?so, False)"
    "length sdu1 = nat NR_SDU_MAX" "take (nat ?so) sdu1 = take (nat ?so) D"
    using reassemble_step_part [OF p(1) Cons.prems(2-6) p(2)] by blast
  have le: "?so \<le> int (length D)" using p Cons.prems(6) by (simp add: part_of_def)
  show ?case
  proof (cases "pdu_is_last p")
    case True
    then have "?so = int (length D)" using p Cons.prems(6) by (simp add: part_of_def)
    with s Cons.prems reassemble_loop_done [of l D sdu1] show ?thesis by auto
  next
    case False
    then have "sdu_full_loop l (?so - 1)"
      using Cons.prems(7) by (auto simp: Let_def max_def split: if_splits)
    from Cons.IH [OF _ Cons.prems(2) s(2,3) _ le this] s Cons.prems show ?thesis by auto
  qed
qed simp

text \<open>The loop of \<open>sdu_full\<close> on segments in the order of their offsets.\<close>

lemma sdu_full_loop_covered:
  assumes "\<forall>p \<in> set l. part_of D p" and "sorted (map pdu_so l)"
    and "lb + 1 < int (length D)" and "\<forall>i. lb < i \<and> i < int (length D) \<longrightarrow> (\<exists>p \<in> set l. covers p i)"
  shows "sdu_full_loop l lb"
  using assms
proof (induction l arbitrary: lb)
  case Nil
  then show ?case by force
next
  case (Cons p l)
  obtain q where q: "q \<in> set (p # l)" "covers q (lb + 1)"
    using Cons.prems(3,4) by (metis less_add_one)
  have so: "pdu_so p \<le> lb + 1" using q Cons.prems(2) by (auto simp: covers_def)
  show ?case
  proof (cases "pdu_is_last p")
    case False
    define nl where "nl = max lb (pdu_so p + pdu_size p - 1)"
    have "pdu_so p + pdu_size p < int (length D)"
      using False Cons.prems(1) by (auto simp: part_of_def)
    then have nl: "nl + 1 < int (length D)" using Cons.prems(3) by (simp add: nl_def)
    have "\<exists>q \<in> set l. covers q i" if "nl < i" "i < int (length D)" for i
    proof -
      have "lb < i" using that by (simp add: nl_def)
      then obtain q where "q \<in> set (p # l)" "covers q i" using Cons.prems(4) \<open>i < _\<close> by blast
      moreover have "\<not> covers p i" using that by (simp add: covers_def nl_def)
      ultimately show ?thesis by auto
    qed
    then have "sdu_full_loop l nl" using Cons nl by auto
    with so show ?thesis unfolding sdu_full_loop_Cons nl_def by simp
  qed (use so in simp)
qed

lemma sdu_full_loop_covers:
  assumes "\<forall>p \<in> set l. part_of D p" and "sdu_full_loop l lb"
    and "lb < i" and "i < int (length D)"
  shows "\<exists>p \<in> set l. covers p i"
  using assms
proof (induction l arbitrary: lb)
  case (Cons p l)
  have so: "pdu_so p \<le> lb + 1" using Cons.prems(2) by (auto split: if_splits)
  show ?case
  proof (cases "covers p i")
    case False
    then have out: "pdu_so p + pdu_size p \<le> i" using so Cons.prems(3) by (auto simp: covers_def)
    then have "\<not> pdu_is_last p" using Cons.prems(1,4) by (auto simp: part_of_def)
    then have "sdu_full_loop l (max lb (pdu_so p + pdu_size p - 1))"
      using Cons.prems(2) unfolding sdu_full_loop_Cons by simp
    from Cons.IH [OF _ this] Cons.prems out show ?thesis by auto
  qed auto
qed simp

lemma reassemble_full:
  assumes "\<forall>p \<in> set l. part_of D p" and "int (length D) \<le> NR_SDU_MAX" and "sdu_full_loop l (- 1)"
  shows "reassemble l = Inr (D, False)"
proof -
  have "length sdu_buffer = nat NR_SDU_MAX" by (simp add: sdu_buffer_def)
  then show ?thesis
    using reassemble_loop_full [OF assms(1,2), of sdu_buffer 0] assms(3)
    by (auto simp: reassemble_def)
qed

section \<open>Properties\<close>

text \<open>
  C12: reassembly. For received parts of an SDU in the order of their offsets, with any overlaps,
  repetitions and gaps, the completeness test holds exactly when every byte of the SDU is covered
  by a part, and the reassembly then delivers exactly the SDU.
\<close>

theorem reassembly_correct:
  assumes "\<forall>p \<in> set l. part_of D p" and "sorted (map pdu_so l)"
    and "D \<noteq> []" and "int (length D) \<le> NR_SDU_MAX"
  shows "(sdu_full_loop l (- 1) \<longleftrightarrow> (\<forall>i. 0 \<le> i \<and> i < int (length D) \<longrightarrow> (\<exists>p \<in> set l. covers p i))) \<and>
    (sdu_full_loop l (- 1) \<longrightarrow> reassemble l = Inr (D, False))"
proof (intro conjI impI)
  show "sdu_full_loop l (- 1) \<longleftrightarrow>
      (\<forall>i. 0 \<le> i \<and> i < int (length D) \<longrightarrow> (\<exists>p \<in> set l. covers p i))" (is "_ \<longleftrightarrow> ?all")
  proof
    assume "sdu_full_loop l (- 1)"
    then show ?all using sdu_full_loop_covers [OF assms(1)] by force
  next
    assume ?all
    then show "sdu_full_loop l (- 1)"
      using assms by (intro sdu_full_loop_covered [OF assms(1,2)]) auto
  qed
  show "reassemble l = Inr (D, False)" if "sdu_full_loop l (- 1)"
    by (rule reassemble_full [OF assms(1,4) that])
qed

definition example_parts :: pdus where
  "example_parts =
     [nr_rlc_new_pdu 5 0 True False [10, 11, 12], nr_rlc_new_pdu 5 2 False False [12],
      nr_rlc_new_pdu 5 2 False True [12, 13]]"

theorem reassembly_correct_witness:
  "sdu_full_loop example_parts (- 1) \<and> reassemble example_parts = Inr ([10, 11, 12, 13], False)"
proof -
  let ?D = "[10, 11, 12, 13] :: byte list"
  have p: "\<forall>p \<in> set example_parts. part_of ?D p" "sorted (map pdu_so example_parts)"
    by (simp_all add: example_parts_def part_of_def nr_rlc_new_pdu_def numeral_2_eq_2)
  have full: "sdu_full_loop example_parts (- 1)"
    by (simp add: example_parts_def nr_rlc_new_pdu_def)
  with reassembly_correct [OF p] show ?thesis by (simp add: NR_SDU_MAX_def)
qed

text \<open>
  memory safety of the reassembly, whatever the peer sent. For any list of well-formed
  segments, consistent or not, the reassembly reads inside of the segments and writes inside of
  its buffer of \<open>NR_SDU_MAX\<close> bytes.
\<close>

lemma reassemble_safe:
  assumes "\<forall>p \<in> set l. pdu_wf p"
  shows "\<exists>sdu bad. reassemble l = Inr (sdu, bad) \<and> int (length sdu) \<le> NR_SDU_MAX"
  by (rule reassemble_ok [OF assms])

lemma reassemble_safe_example:
  "\<exists>sdu bad. reassemble [nr_rlc_new_pdu 0 7 False True [1, 2]] = Inr (sdu, bad) \<and>
     int (length sdu) \<le> NR_SDU_MAX"
  using reassemble_safe [of "[nr_rlc_new_pdu 0 7 False True [1, 2]]"]
  by (simp add: pdu_wf_def nr_rlc_new_pdu_def)

end
