(* ===== verification/Nr_Rlc_Um.thy ===== *)
theory Nr_Rlc_Um
  imports Nr_Rlc_Reassembly
begin

text \<open>
  Model of \<open>openair2/LAYER2/nr_rlc/nr_rlc_entity_um.c\<close>, the unacknowledged mode entity: the
  state, the operations and their building blocks, in the order of the source. The receiver is
  verified in \<open>Nr_Rlc_Um_Rx\<close>, the transmitter in \<open>Nr_Rlc_Um_Tx\<close> and the two together over a
  lossless link in \<open>Nr_Rlc_Um_Link\<close>.
\<close>

section \<open>State\<close>

record nr_rlc_entity_um =
  um_common :: nr_rlc_entity
  um_t_reassembly :: int
  um_sn_field_length :: int
  um_sn_modulus :: int
  um_window_size :: int
  um_rx_next_highest :: int
  um_rx_next_reassembly :: int
  um_rx_timer_trigger :: int
  um_tx_next :: int
  um_t_current :: u64
  um_t_log_buffer_full :: u64
  um_sdu_rejected :: int
  um_t_reassembly_start :: u64
  um_rx_list :: pdus
  um_rx_size :: int
  um_rx_maxsize :: int
  um_tx_list :: segs
  um_tx_end :: "nat option"
  um_tx_size :: int
  um_tx_maxsize :: int
  um_heap :: rlc_heap

definition new_nr_rlc_entity_um :: "int \<Rightarrow> int \<Rightarrow> int \<Rightarrow> int \<Rightarrow> nr_rlc_entity_um res" where
  "new_nr_rlc_entity_um rx_maxsize tx_maxsize t_reassembly sn_field_length =
     (if \<not> (sn_field_length = 6 \<or> sn_field_length = 12) then Inl Assert_failed
      else bindr (new_common NR_RLC_UM) (\<lambda>c.
        Inr \<lparr>um_common = c, um_t_reassembly = t_reassembly,
             um_sn_field_length = sn_field_length,
             um_sn_modulus = push_bit (nat sn_field_length) 1,
             um_window_size = push_bit (nat sn_field_length) 1 div 2,
             um_rx_next_highest = 0, um_rx_next_reassembly = 0, um_rx_timer_trigger = 0,
             um_tx_next = 0, um_t_current = 0, um_t_log_buffer_full = 0, um_sdu_rejected = 0,
             um_t_reassembly_start = 0, um_rx_list = [], um_rx_size = 0,
             um_rx_maxsize = rx_maxsize, um_tx_list = [], um_tx_end = None, um_tx_size = 0,
             um_tx_maxsize = tx_maxsize, um_heap = empty_heap\<rparr>))"

definition nr_rlc_entity_um_reconfigure ::
  "nr_rlc_entity_um \<Rightarrow> int \<Rightarrow> int option \<Rightarrow> nr_rlc_entity_um" where
  "nr_rlc_entity_um_reconfigure e t_reassembly sn_field_length =
     (let e = e\<lparr>um_t_reassembly := t_reassembly\<rparr>
      in case sn_field_length of None \<Rightarrow> e | Some n \<Rightarrow> e\<lparr>um_sn_field_length := n\<rparr>)"

definition um_compute_pdu_header_size :: "nr_rlc_entity_um \<Rightarrow> nr_rlc_sdu_segment \<Rightarrow> int" where
  "um_compute_pdu_header_size e sdu =
     1 + (if \<not> (seg_is_first sdu \<and> seg_is_last sdu) \<and> um_sn_field_length e = 12 then 1 else 0) +
     (if \<not> seg_is_first sdu then 2 else 0)"

section \<open>Reception of PDUs\<close>

definition um_modulus_rx :: "nr_rlc_entity_um \<Rightarrow> int \<Rightarrow> int" where
  "um_modulus_rx e a =
     (let r = a - (um_rx_next_highest e - um_window_size e);
          r = (if r < 0 then r + um_sn_modulus e else r)
      in crem r (um_sn_modulus e))"

definition um_sn_compare_rx :: "nr_rlc_entity_um \<Rightarrow> int \<Rightarrow> int \<Rightarrow> int" where
  "um_sn_compare_rx e a b = um_modulus_rx e a - um_modulus_rx e b"

text \<open>
  The PDUs of one SDU: the first loop of the functions below moves to the first PDU with the
  sequence number, the second one runs while the sequence number is the same.
\<close>

definition sn_pdus :: "pdus \<Rightarrow> int \<Rightarrow> pdus" where
  "sn_pdus l sn = takeWhile (\<lambda>p. pdu_sn p = sn) (dropWhile (\<lambda>p. pdu_sn p \<noteq> sn) l)"

definition um_sdu_full :: "nr_rlc_entity_um \<Rightarrow> int \<Rightarrow> bool" where
  "um_sdu_full e sn =
     (case sn_pdus (um_rx_list e) sn of
        [] \<Rightarrow> False
      | p # l \<Rightarrow> if pdu_data p = None then False else sdu_full_loop (p # l) (- 1))"

definition um_sdu_delivered :: "nr_rlc_entity_um \<Rightarrow> int \<Rightarrow> bool" where
  "um_sdu_delivered e sn =
     (case sn_pdus (um_rx_list e) sn of [] \<Rightarrow> False | p # l \<Rightarrow> pdu_data p = None)"

definition um_sdu_has_missing_bytes :: "nr_rlc_entity_um \<Rightarrow> int \<Rightarrow> bool" where
  "um_sdu_has_missing_bytes e sn =
     (case sn_pdus (um_rx_list e) sn of
        [] \<Rightarrow> False
      | p # l \<Rightarrow> if pdu_data p = None then False else missing_bytes_loop (p # l) (- 1))"

text \<open>What \<open>reassemble_and_deliver\<close> does to the list: the PDUs of the SDU lose their data.\<close>

definition um_free_data :: "pdus \<Rightarrow> int \<Rightarrow> pdus" where
  "um_free_data l sn =
     takeWhile (\<lambda>p. pdu_sn p \<noteq> sn) l @
     map (\<lambda>p. p\<lparr>pdu_data := None, pdu_size := 0\<rparr>) (sn_pdus l sn) @
     dropWhile (\<lambda>p. pdu_sn p = sn) (dropWhile (\<lambda>p. pdu_sn p \<noteq> sn) l)"

definition um_reassemble_and_deliver :: "nr_rlc_entity_um \<Rightarrow> int \<Rightarrow> nr_rlc_entity_um res" where
  "um_reassemble_and_deliver e sn =
     (let pdus = sn_pdus (um_rx_list e) sn
      in if pdus = [] then Inl Null_dereference
         else bindr (reassemble pdus) (\<lambda>(sdu, bad_sdu).
           let e = e\<lparr>um_rx_list := um_free_data (um_rx_list e) sn,
                     um_rx_size := um_rx_size e - sum_list (map pdu_size pdus)\<rparr>
           in if bad_sdu then Inr e
              else Inr (e\<lparr>um_common := upd_stats (stat_txsdu (int (length sdu)))
                            (upcall (Deliver_sdu sdu) (um_common e))\<rparr>)))"

text \<open>The loop of \<open>reception_actions\<close> that discards PDUs outside of the reassembly window.\<close>

fun um_discard_out_of_window ::
  "(int \<Rightarrow> bool) \<Rightarrow> pdus \<Rightarrow> int \<times> nr_rlc_entity \<Rightarrow> pdus \<times> int \<times> nr_rlc_entity" where
  "um_discard_out_of_window out [] (rx_size, c) = ([], rx_size, c)"
| "um_discard_out_of_window out (p # l) (rx_size, c) =
     (if out (pdu_sn p)
      then um_discard_out_of_window out l
             (rx_size - pdu_size p,
              upd_stats (stat_rxpdu_ow (pdu_size p)) (upd_stats (stat_rxpdu_dd (pdu_size p)) c))
      else (p # l, rx_size, c))"

text \<open>The first half of \<open>reception_actions\<close>, when the SDU is complete.\<close>

definition um_reception_full :: "nr_rlc_entity_um \<Rightarrow> int \<Rightarrow> nr_rlc_entity_um res" where
  "um_reception_full e x =
     bindr (um_reassemble_and_deliver e x) (\<lambda>e.
       if x = um_rx_next_reassembly e
       then bindr (skip_delivered (um_sdu_delivered e) (um_sn_modulus e) (um_rx_next_reassembly e))
              (\<lambda>r. Inr (e\<lparr>um_rx_next_reassembly := r\<rparr>))
       else Inr e)"

text \<open>
  The window is moved up to the new sequence number \<open>x\<close>: the entity after the discard loop.
\<close>

definition um_move_window :: "nr_rlc_entity_um \<Rightarrow> int \<Rightarrow> nr_rlc_entity_um" where
  "um_move_window e x =
     (let e = e\<lparr>um_rx_next_highest := crem (x + 1) (um_sn_modulus e)\<rparr>;
          (l, sz, c) = um_discard_out_of_window
             (\<lambda>sn. um_sn_compare_rx e sn (um_rx_next_highest e) \<ge> 0)
             (um_rx_list e) (um_rx_size e, um_common e)
      in e\<lparr>um_rx_list := l, um_rx_size := sz, um_common := c\<rparr>)"

text \<open>The first half of \<open>reception_actions\<close>, when the SDU is not complete.\<close>

definition um_reception_not_full :: "nr_rlc_entity_um \<Rightarrow> int \<Rightarrow> nr_rlc_entity_um res" where
  "um_reception_not_full e x =
     (if um_sn_compare_rx e x (um_rx_next_highest e) \<ge> 0
      then
        let e = um_move_window e x
        in if um_sn_compare_rx e (um_rx_next_reassembly e) (um_rx_next_highest e) \<ge> 0
           then bindr (skip_delivered (um_sdu_delivered e) (um_sn_modulus e)
                  (crem (um_rx_next_highest e - um_window_size e + um_sn_modulus e)
                        (um_sn_modulus e)))
                  (\<lambda>r. Inr (e\<lparr>um_rx_next_reassembly := r\<rparr>))
           else Inr e
      else Inr e)"

text \<open>The second half of \<open>reception_actions\<close>: the reassembly timer is stopped, then started.\<close>

definition um_stop_t_reassembly :: "nr_rlc_entity_um \<Rightarrow> nr_rlc_entity_um" where
  "um_stop_t_reassembly e =
     (if um_t_reassembly_start e \<noteq> 0 \<and>
         (um_sn_compare_rx e (um_rx_timer_trigger e) (um_rx_next_reassembly e) \<le> 0 \<or>
          um_sn_compare_rx e (um_rx_timer_trigger e) (um_rx_next_highest e) > 0 \<or>
          (um_rx_next_highest e = crem (um_rx_next_reassembly e + 1) (um_sn_modulus e) \<and>
           \<not> um_sdu_has_missing_bytes e (um_rx_next_reassembly e)))
      then e\<lparr>um_t_reassembly_start := 0\<rparr> else e)"

definition um_start_t_reassembly :: "nr_rlc_entity_um \<Rightarrow> nr_rlc_entity_um" where
  "um_start_t_reassembly e =
     (if um_t_reassembly_start e = 0 \<and>
         (um_sn_compare_rx e (um_rx_next_highest e)
            (crem (um_rx_next_reassembly e + 1) (um_sn_modulus e)) > 0 \<or>
          (um_rx_next_highest e = crem (um_rx_next_reassembly e + 1) (um_sn_modulus e) \<and>
           um_sdu_has_missing_bytes e (um_rx_next_reassembly e)))
      then e\<lparr>um_rx_timer_trigger := um_rx_next_highest e, um_t_reassembly_start := um_t_current e\<rparr>
      else e)"

definition um_reception_actions :: "nr_rlc_entity_um \<Rightarrow> int \<Rightarrow> nr_rlc_entity_um res" where
  "um_reception_actions e x =
     bindr (if um_sdu_full e x then um_reception_full e x else um_reception_not_full e x)
       (\<lambda>e. Inr (um_start_t_reassembly (um_stop_t_reassembly e)))"

text \<open>The label \<open>discard\<close> of \<open>recv_pdu\<close>.\<close>

definition um_discard_pdu :: "nr_rlc_entity_um \<Rightarrow> int \<Rightarrow> nr_rlc_entity_um" where
  "um_discard_pdu e n = e\<lparr>um_common := upd_stats (stat_rxpdu_dd n) (um_common e)\<rparr>"

text \<open>\<open>recv_pdu\<close> from the end of the header on.\<close>

definition um_recv_segment ::
  "nr_rlc_entity_um \<Rightarrow> byte list \<Rightarrow> bool \<Rightarrow> bool \<Rightarrow> int \<Rightarrow> int \<Rightarrow> nr_rlc_pdu_decoder \<Rightarrow>
   nr_rlc_entity_um res" where
  "um_recv_segment e buffer is_first is_last sn so decoder =
     (let size = int (length buffer);
          data_size = size - int (dec_byte decoder)
      in if data_size \<le> 0 then Inr (um_discard_pdu e size)
         else if um_rx_size e + data_size > um_rx_maxsize e then Inr (um_discard_pdu e size)
         else if um_sn_compare_rx e sn (um_rx_next_reassembly e) < 0
         then Inr (um_discard_pdu e size)
         else
           let pdu = nr_rlc_new_pdu sn so is_first is_last (drop (nat (size - data_size)) buffer);
               e = e\<lparr>um_rx_size := um_rx_size e + data_size,
                     um_rx_list := nr_rlc_pdu_list_add (um_sn_compare_rx e) (um_rx_list e) pdu\<rparr>
           in um_reception_actions e (pdu_sn pdu))"

definition nr_rlc_entity_um_recv_pdu ::
  "nr_rlc_entity_um \<Rightarrow> byte list \<Rightarrow> nr_rlc_entity_um res" where
  "nr_rlc_entity_um_recv_pdu e buffer =
     (let size = int (length buffer);
          e = e\<lparr>um_common := upd_stats (stat_rxpdu size) (um_common e)\<rparr>;
          discard = Inr (um_discard_pdu e size)
      in read_field (nr_rlc_pdu_decoder_init buffer) 2 discard (\<lambda>si d.
           let is_first = (si AND 2 = 0); is_last = (si AND 1 = 0)
           in if is_first \<and> is_last
              then if size < 2 then discard
                   else Inr (e\<lparr>um_common := upd_stats (stat_txsdu (size - 1))
                                  (upcall (Deliver_sdu (drop 1 buffer)) (um_common e))\<rparr>)
              else
                let with_sn = (\<lambda>d. read_field d (nat (um_sn_field_length e)) discard (\<lambda>sn d.
                      if \<not> is_first
                      then read_field d 16 discard (\<lambda>so d.
                             if so = 0 then discard
                             else um_recv_segment e buffer is_first is_last sn so d)
                      else um_recv_segment e buffer is_first is_last sn 0 d))
                in if um_sn_field_length e = 12 then read_field d 2 discard (\<lambda>_ d. with_sn d)
                   else with_sn d))"

section \<open>Transmission\<close>

definition um_header_fields ::
  "nr_rlc_entity_um \<Rightarrow> nr_rlc_sdu_segment \<Rightarrow> int \<Rightarrow> (int \<times> nat) list" where
  "um_header_fields e sdu sn =
     [(1 - of_bool (seg_is_first sdu), 1), (1 - of_bool (seg_is_last sdu), 1)] @
     (if seg_is_first sdu \<and> seg_is_last sdu then [(0, 6)]
      else (if um_sn_field_length e = 12 then [(0, 2)] else []) @
           [(sn, nat (um_sn_field_length e))]) @
     (if \<not> seg_is_first sdu then [(seg_so sdu, 16)] else [])"

text \<open>\<open>serialize_sdu\<close>: the returned pair is the size of the PDU and the written buffer.\<close>

definition um_serialize_sdu ::
  "nr_rlc_entity_um \<Rightarrow> nr_rlc_sdu_segment \<Rightarrow> byte list \<Rightarrow> (int \<times> byte list) res" where
  "um_serialize_sdu e sdu buffer =
     bindr (deref (um_heap e) sdu) (\<lambda>s.
     bindr (put_fields (nr_rlc_pdu_encoder_init buffer) (um_header_fields e sdu (sdu_sn s)))
       (\<lambda>encoder.
     bindr (mem_copy (enc_buffer encoder) (int (enc_byte encoder)) (sdu_data s) (seg_so sdu)
              (seg_size sdu)) (\<lambda>buffer.
       Inr (int (enc_byte encoder) + seg_size sdu, buffer))))"

text \<open>
  \<open>resegment\<close>: the segment as changed, the new segment if there is one, and the entity.
\<close>

definition um_resegment ::
  "nr_rlc_entity_um \<Rightarrow> nr_rlc_sdu_segment \<Rightarrow> int \<Rightarrow>
   (nr_rlc_sdu_segment \<times> nr_rlc_sdu_segment option \<times> nr_rlc_entity_um) res" where
  "um_resegment e sdu max_size =
     bindr (deref (um_heap e) sdu) (\<lambda>s.
       let e = e\<lparr>um_heap := store (um_heap e) sdu (s\<lparr>sdu_ref_count := sdu_ref_count s + 1\<rparr>)\<rparr>;
           pdu_header_size = um_compute_pdu_header_size e (sdu\<lparr>seg_is_last := False\<rparr>)
       in if pdu_header_size + 1 > max_size then Inr (sdu, None, e)
          else
            let over_size = pdu_header_size + seg_size sdu - max_size;
                sdu' = sdu\<lparr>seg_size := seg_size sdu - over_size, seg_is_last := False\<rparr>;
                next_sdu = sdu\<lparr>seg_addr := h_next (um_heap e), seg_size := over_size,
                               seg_so := seg_so sdu' + seg_size sdu', seg_is_first := False\<rparr>
            in Inr (sdu', Some next_sdu,
                    e\<lparr>um_heap := (um_heap e)\<lparr>h_next := h_next (um_heap e) + 1\<rparr>,
                      um_common := upd_stats stat_segmented (um_common e)\<rparr>))"

text \<open>\<open>generate_tx_pdu\<close> from the update of \<open>tx_next\<close> on.\<close>

definition um_finish_tx ::
  "u64 \<Rightarrow> nr_rlc_entity_um \<Rightarrow> nr_rlc_sdu_segment \<Rightarrow> byte list \<Rightarrow>
   (int \<times> byte list \<times> nr_rlc_entity_um) res" where
  "um_finish_tx clk e sdu buffer =
     (let e = (if \<not> seg_is_first sdu \<and> seg_is_last sdu
               then e\<lparr>um_tx_next := crem (um_tx_next e + 1) (um_sn_modulus e)\<rparr> else e)
      in bindr (um_serialize_sdu e sdu buffer) (\<lambda>(ret, buffer).
         bindr (deref (um_heap e) sdu) (\<lambda>s.
         bindr (nr_rlc_free_sdu_segment (um_heap e) sdu) (\<lambda>(_, h).
           let c = upd_stats (stat_txpdu (int (length buffer))) (um_common e);
               c = add_avg_time clk (sdu_time_of_arrival s) c
           in Inr (ret, buffer,
                e\<lparr>um_tx_size := um_tx_size e - seg_size sdu, um_common := c, um_heap := h\<rparr>)))))"

definition um_generate_tx_pdu ::
  "u64 \<Rightarrow> nr_rlc_entity_um \<Rightarrow> byte list \<Rightarrow> (int \<times> byte list \<times> nr_rlc_entity_um) res" where
  "um_generate_tx_pdu clk e buffer =
     (let size = int (length buffer)
      in case um_tx_list e of
           [] \<Rightarrow> Inr (0, buffer, e)
         | sdu # rest \<Rightarrow>
             let pdu_header_size = um_compute_pdu_header_size e sdu
             in if pdu_header_size + 1 > size then Inr (0, buffer, e)
                else
                  bindr (deref (um_heap e) sdu) (\<lambda>s.
                    let pdu_size = pdu_header_size + seg_size sdu;
                        e = e\<lparr>um_tx_list := rest,
                              um_tx_end := (if rest = [] then None else um_tx_end e),
                              um_heap := store (um_heap e) sdu (s\<lparr>sdu_sn := um_tx_next e\<rparr>),
                              um_common := add_tx_size (- pdu_size) (um_common e)\<rparr>
                    in if pdu_size > size
                       then bindr (um_resegment e sdu size) (\<lambda>(sdu, next_sdu, e).
                         case next_sdu of
                           None \<Rightarrow> Inr (0, buffer, e)
                         | Some next_sdu \<Rightarrow>
                             um_finish_tx clk
                               (e\<lparr>um_tx_list := next_sdu # um_tx_list e,
                                  um_tx_end := (if um_tx_end e = None
                                                then Some (seg_addr next_sdu) else um_tx_end e),
                                  um_common := add_tx_size
                                    (um_compute_pdu_header_size e next_sdu + seg_size next_sdu)
                                    (upd_stats stat_segmented (um_common e))\<rparr>)
                               sdu buffer)
                       else um_finish_tx clk e sdu buffer))"

definition nr_rlc_entity_um_buffer_status ::
  "nr_rlc_entity_um \<Rightarrow> int \<Rightarrow> nr_rlc_entity_buffer_status" where
  "nr_rlc_entity_um_buffer_status e maxsize =
     \<lparr>bs_status_size = 0, bs_tx_size = bs_tx_size (c_bstatus (um_common e)), bs_retx_size = 0\<rparr>"

definition nr_rlc_entity_um_generate_pdu ::
  "u64 \<Rightarrow> nr_rlc_entity_um \<Rightarrow> byte list \<Rightarrow> (int \<times> byte list \<times> nr_rlc_entity_um) res" where
  "nr_rlc_entity_um_generate_pdu clk e buffer = um_generate_tx_pdu clk e buffer"

section \<open>Reception of SDUs\<close>

definition um_log_rejected :: "nr_rlc_entity_um \<Rightarrow> nr_rlc_entity_um" where
  "um_log_rejected e =
     (if um_sdu_rejected e \<noteq> 0 \<and> um_t_current e > um_t_log_buffer_full e + 1000
      then e\<lparr>um_sdu_rejected := 0, um_t_log_buffer_full := um_t_current e\<rparr> else e)"

definition nr_rlc_entity_um_recv_sdu ::
  "u64 \<Rightarrow> nr_rlc_entity_um \<Rightarrow> byte list \<Rightarrow> int \<Rightarrow> nr_rlc_entity_um res" where
  "nr_rlc_entity_um_recv_sdu clk e buffer sdu_id =
     (let size = int (length buffer);
          e = e\<lparr>um_common := upd_stats (stat_rxsdu size) (um_common e)\<rparr>
      in if size > NR_SDU_MAX then Inl Exit_sdu_too_big
         else
           let e = um_log_rejected e
           in if um_tx_size e + size > um_tx_maxsize e
              then Inr (e\<lparr>um_sdu_rejected := um_sdu_rejected e + 1,
                          um_common := upd_stats (stat_rxsdu_dd size) (um_common e)\<rparr>)
              else
                let (sdu, h) = nr_rlc_new_sdu (um_heap e) buffer sdu_id
                in bindr (nr_rlc_sdu_segment_list_append (um_tx_list e, um_tx_end e) sdu)
                     (\<lambda>(l, en). Inr (e\<lparr>um_tx_size := um_tx_size e + size,
                        um_tx_list := l, um_tx_end := en,
                        um_common := add_tx_size (um_compute_pdu_header_size e sdu + seg_size sdu)
                                       (um_common e),
                        um_heap := stamp_arrival (um_common e) clk sdu h\<rparr>)))"

section \<open>Time\<close>

text \<open>The loop of \<open>check_t_reassembly\<close> that discards the segments before the window.\<close>

fun um_discard_before :: "(int \<Rightarrow> bool) \<Rightarrow> pdus \<Rightarrow> nr_rlc_entity \<Rightarrow> pdus \<times> nr_rlc_entity" where
  "um_discard_before before [] c = ([], c)"
| "um_discard_before before (p # l) c =
     (if before (pdu_sn p)
      then um_discard_before before l (upd_stats (stat_rxpdu_dd (pdu_size p)) c)
      else (p # l, c))"

definition um_check_t_reassembly :: "nr_rlc_entity_um \<Rightarrow> nr_rlc_entity_um res" where
  "um_check_t_reassembly e =
     (if um_t_reassembly_start e = 0 \<or>
         um_t_current e \<le> um_t_reassembly_start e + word_of_int (um_t_reassembly e)
      then Inr e
      else
        bindr (skip_delivered (um_sdu_delivered e) (um_sn_modulus e) (um_rx_timer_trigger e))
          (\<lambda>r.
            let e = e\<lparr>um_t_reassembly_start := 0, um_rx_next_reassembly := r\<rparr>;
                (l, c) = um_discard_before (\<lambda>sn. um_sn_compare_rx e sn r < 0)
                   (um_rx_list e) (um_common e);
                e = e\<lparr>um_rx_list := l, um_common := c\<rparr>
            in if um_sn_compare_rx e (um_rx_next_highest e) (crem (r + 1) (um_sn_modulus e)) > 0 \<or>
                  (um_rx_next_highest e = r + 1 \<and> um_sdu_has_missing_bytes e r)
               then Inr (e\<lparr>um_t_reassembly_start := um_t_current e,
                           um_rx_timer_trigger := um_rx_next_highest e\<rparr>)
               else Inr e))"

definition nr_rlc_entity_um_set_time :: "nr_rlc_entity_um \<Rightarrow> u64 \<Rightarrow> nr_rlc_entity_um res" where
  "nr_rlc_entity_um_set_time e now = um_check_t_reassembly (e\<lparr>um_t_current := now\<rparr>)"

section \<open>Discard, re-establishment, deletion\<close>

definition nr_rlc_entity_um_discard_sdu ::
  "nr_rlc_entity_um \<Rightarrow> int \<Rightarrow> nr_rlc_entity_um res" where
  "nr_rlc_entity_um_discard_sdu e sdu_id =
     bindr (find_upper_layer_id (um_heap e) sdu_id (um_tx_list e)) (\<lambda>(before, rest).
       case rest of
         [] \<Rightarrow> Inr e
       | cur # after \<Rightarrow>
           if \<not> seg_is_first cur \<or> \<not> seg_is_last cur then Inr e
           else
             bindr (nr_rlc_free_sdu_segment (um_heap e) cur) (\<lambda>(_, h).
               Inr (e\<lparr>um_tx_list := before @ after,
                      um_tx_end := (if um_tx_end e = Some (seg_addr cur)
                                    then if before \<noteq> [] then Some (seg_addr (last before)) else None
                                    else um_tx_end e),
                      um_common := add_tx_size (- (um_compute_pdu_header_size e cur + seg_size cur))
                                     (um_common e),
                      um_heap := h\<rparr>)))"

definition um_clear_entity :: "nr_rlc_entity_um \<Rightarrow> nr_rlc_entity_um res" where
  "um_clear_entity e =
     bindr (nr_rlc_free_sdu_segment_list (um_heap e) (um_tx_list e)) (\<lambda>h.
       Inr (e\<lparr>um_rx_next_highest := 0, um_rx_next_reassembly := 0, um_rx_timer_trigger := 0,
              um_tx_next := 0, um_t_current := 0, um_t_log_buffer_full := 0, um_sdu_rejected := 0,
              um_t_reassembly_start := 0, um_rx_list := [], um_rx_size := 0,
              um_tx_list := [], um_tx_end := None, um_tx_size := 0,
              um_common := (um_common e)\<lparr>c_bstatus := (c_bstatus (um_common e))\<lparr>bs_tx_size := 0\<rparr>\<rparr>,
              um_heap := h\<rparr>))"

definition nr_rlc_entity_um_reestablishment :: "nr_rlc_entity_um \<Rightarrow> nr_rlc_entity_um res" where
  "nr_rlc_entity_um_reestablishment e = um_clear_entity e"

definition nr_rlc_entity_um_delete :: "nr_rlc_entity_um \<Rightarrow> rlc_heap res" where
  "nr_rlc_entity_um_delete e = bindr (um_clear_entity e) (\<lambda>e. Inr (um_heap e))"

definition nr_rlc_entity_um_available_tx_space :: "nr_rlc_entity_um \<Rightarrow> int" where
  "nr_rlc_entity_um_available_tx_space e = um_tx_maxsize e - um_tx_size e"

definition nr_rlc_entity_um_tx_list_occupancy :: "nr_rlc_entity_um \<Rightarrow> int" where
  "nr_rlc_entity_um_tx_list_occupancy e = um_tx_size e"

end
