(* ===== verification/Nr_Rlc_Order.thy ===== *)
theory Nr_Rlc_Order
  imports Nr_Rlc_Pdu
begin

text \<open>
  The order of sequence numbers modulo a window base, which the RLC entities pass to their ordered
  lists as a comparison function. The locale \<open>sn_order\<close> is the contract of such a function: it is
  the difference of two keys, and the keys of different sequence numbers differ. Under that
  contract insertion keeps a list ordered, and the elements with one sequence number are
  contiguous. The entities interpret it with their own \<open>sn_compare\<close> functions.
\<close>

definition sn_le :: "(int \<Rightarrow> int) \<Rightarrow> ('x \<Rightarrow> int) \<Rightarrow> ('x \<Rightarrow> int) \<Rightarrow> 'x \<Rightarrow> 'x \<Rightarrow> bool" where
  "sn_le key sn so x y \<longleftrightarrow> key (sn x) < key (sn y) \<or> (sn x = sn y \<and> so x \<le> so y)"

definition sn_valid :: "int \<Rightarrow> int \<Rightarrow> bool" where
  "sn_valid m a \<longleftrightarrow> 0 \<le> a \<and> a < m"

lemma transp_sn_le: "transp_on A (sn_le key sn so)"
  by (rule transp_onI) (auto simp: sn_le_def)

locale sn_order =
  fixes ok :: "'e \<Rightarrow> bool"
    and cmp :: "'e \<Rightarrow> int \<Rightarrow> int \<Rightarrow> int"
    and key :: "'e \<Rightarrow> int \<Rightarrow> int"
    and modulus :: "'e \<Rightarrow> int"
  assumes cmp_key: "ok e \<Longrightarrow> cmp e a b = key e a - key e b"
    and key_range: "ok e \<Longrightarrow> sn_valid (modulus e) a \<Longrightarrow> sn_valid (modulus e) (key e a)"
    and key_inj: "ok e \<Longrightarrow> sn_valid (modulus e) a \<Longrightarrow> sn_valid (modulus e) b \<Longrightarrow>
      key e a = key e b \<Longrightarrow> a = b"
begin

lemma insert_sorted:
  assumes "ok e" and "sorted_wrt (sn_le (key e) sn so) l"
    and "\<forall>y \<in> set l. sn_valid (modulus e) (sn y)" and "sn_valid (modulus e) (sn x)"
  shows "sorted_wrt (sn_le (key e) sn so)
     (insert_before (\<lambda>y. cmp e (sn y) (sn x) > 0 \<or> (sn y = sn x \<and> so y > so x)) x l)"
proof (rule sorted_wrt_insert_before [OF assms(2) transp_sn_le])
  fix y assume y: "y \<in> set l"
  { assume "cmp e (sn y) (sn x) > 0 \<or> (sn y = sn x \<and> so y > so x)"
    then show "sn_le (key e) sn so x y"
      using cmp_key [OF assms(1)] by (auto simp: sn_le_def)
  next
    assume "\<not> (cmp e (sn y) (sn x) > 0 \<or> (sn y = sn x \<and> so y > so x))"
    then show "sn_le (key e) sn so y x"
      using key_inj [OF assms(1), of "sn y" "sn x"] y assms(3,4)
      by (auto simp: sn_le_def cmp_key [OF assms(1)])
  }
qed

lemma pdu_list_add_sorted:
  assumes "ok e" and "sorted_wrt (sn_le (key e) pdu_sn pdu_so) l"
    and "\<forall>y \<in> set l. sn_valid (modulus e) (pdu_sn y)" and "sn_valid (modulus e) (pdu_sn x)"
  shows "sorted_wrt (sn_le (key e) pdu_sn pdu_so) (nr_rlc_pdu_list_add (cmp e) l x)"
  using insert_sorted [OF assms] by (simp add: nr_rlc_pdu_list_add_conv)

lemma cmp_neg_key: "ok e \<Longrightarrow> cmp e a b < 0 \<longleftrightarrow> key e a < key e b"
  and cmp_ge_key: "ok e \<Longrightarrow> cmp e a b \<ge> 0 \<longleftrightarrow> key e a \<ge> key e b"
  by (simp_all add: cmp_key)

end

text \<open>In an ordered list the elements with one sequence number are contiguous.\<close>

lemma sorted_run_from:
  assumes "sorted_wrt (sn_le key sn so) (p # l)" and "sn p = a"
  shows "takeWhile (\<lambda>p. sn p = a) l = filter (\<lambda>p. sn p = a) l"
  using assms
proof (induction l arbitrary: p)
  case (Cons q l)
  show ?case
  proof (cases "sn q = a")
    case False
    then have "key a < key (sn q)" using Cons.prems by (auto simp: sn_le_def)
    moreover have "sn_le key sn so q r" if "r \<in> set l" for r using Cons.prems(1) that by simp
    ultimately have "sn r \<noteq> a" if "r \<in> set l" for r
      using that by (force simp: sn_le_def)
    with False show ?thesis by (auto simp: filter_empty_conv)
  next
    case True
    have "sorted_wrt (sn_le key sn so) (q # l)" using Cons.prems(1) by simp
    from Cons.IH [OF this True] True show ?thesis by simp
  qed
qed simp

lemma sorted_run:
  assumes "sorted_wrt (sn_le key sn so) l"
  shows "takeWhile (\<lambda>p. sn p = a) (dropWhile (\<lambda>p. sn p \<noteq> a) l) = filter (\<lambda>p. sn p = a) l"
  using assms
proof (induction l)
  case (Cons p l)
  show ?case
  proof (cases "sn p = a")
    case True
    with sorted_run_from [OF Cons.prems True] show ?thesis by simp
  next
    case False
    have "sorted_wrt (sn_le key sn so) l" using Cons.prems by simp
    from Cons.IH [OF this] False show ?thesis by simp
  qed
qed simp

lemma sorted_run_so:
  assumes "sorted_wrt (sn_le key sn so) l"
  shows "sorted (map so (filter (\<lambda>p. sn p = a) l))"
  using assms
proof (induction l)
  case (Cons p l)
  then show ?case by (auto simp: sn_le_def)
qed simp

lemma sorted_wrt_dropWhile: "sorted_wrt R l \<Longrightarrow> sorted_wrt R (dropWhile P l)"
  by (induction l) auto

end
