(* ===== verification/Nr_Rlc_Rx_Manager.thy ===== *)
theory Nr_Rlc_Rx_Manager
  imports Nr_Rlc_Reassembly Nr_Rlc_Order
begin

text \<open>
  Model of \<open>openair2/LAYER2/nr_rlc/nr_rlc_rx_manager.c\<close>: the store of received PDUs of the
  acknowledged mode entity, a circular buffer with one slot for each sequence number of the
  reception window. The locale \<open>rx_store\<close> is the contract that the entity relies on: inside of
  the window the store behaves as a map from sequence numbers to ordered lists of PDUs.

  The position \<open>get_pos\<close> is inside of the array for every sequence number the entity can pass
  (\<open>get_pos_range\<close>), so that no access leaves the array.
\<close>

section \<open>State and operations\<close>

record nr_rlc_rx_manager =
  rm_rx_list :: "pdus list"
  rm_size :: int
  rm_start :: int
  rm_sn_start :: int

definition nr_rlc_new_rx_manager :: "int \<Rightarrow> nr_rlc_rx_manager" where
  "nr_rlc_new_rx_manager n =
     \<lparr>rm_rx_list = replicate (nat n) [], rm_size = n, rm_start = 0, rm_sn_start = 0\<rparr>"

definition nr_rlc_clear_rx_manager :: "nr_rlc_rx_manager \<Rightarrow> nr_rlc_rx_manager" where
  "nr_rlc_clear_rx_manager m =
     m\<lparr>rm_rx_list := replicate (nat (rm_size m)) [], rm_start := 0, rm_sn_start := 0\<rparr>"

definition get_pos :: "nr_rlc_rx_manager \<Rightarrow> int \<Rightarrow> int" where
  "get_pos m sn = crem (rm_start m + (sn - rm_sn_start m + rm_size m * 2)) (rm_size m)"

definition nr_rlc_rx_manager_get_pdu_from_sn :: "nr_rlc_rx_manager \<Rightarrow> int \<Rightarrow> pdus" where
  "nr_rlc_rx_manager_get_pdu_from_sn m sn = rm_rx_list m ! nat (get_pos m sn)"

text \<open>Writing a slot: the assignments to \<open>rx_list[pos]\<close> and to the PDUs that it links.\<close>

definition rx_manager_set :: "nr_rlc_rx_manager \<Rightarrow> int \<Rightarrow> pdus \<Rightarrow> nr_rlc_rx_manager" where
  "rx_manager_set m sn l = m\<lparr>rm_rx_list := (rm_rx_list m)[nat (get_pos m sn) := l]\<rparr>"

definition nr_rlc_rx_manager_clear_pdu :: "nr_rlc_rx_manager \<Rightarrow> int \<Rightarrow> nr_rlc_rx_manager" where
  "nr_rlc_rx_manager_clear_pdu m sn = rx_manager_set m sn []"

definition nr_rlc_rx_manager_advance :: "nr_rlc_rx_manager \<Rightarrow> int \<Rightarrow> nr_rlc_rx_manager" where
  "nr_rlc_rx_manager_advance m n = m\<lparr>rm_start := crem (rm_start m + n) (rm_size m)\<rparr>"

definition nr_rlc_rx_manager_set_start :: "nr_rlc_rx_manager \<Rightarrow> int \<Rightarrow> nr_rlc_rx_manager" where
  "nr_rlc_rx_manager_set_start m sn_start = m\<lparr>rm_sn_start := sn_start\<rparr>"

definition nr_rlc_rx_manager_add_pdu :: "nr_rlc_rx_manager \<Rightarrow> nr_rlc_pdu \<Rightarrow> nr_rlc_rx_manager" where
  "nr_rlc_rx_manager_add_pdu m pdu =
     rx_manager_set m (pdu_sn pdu)
       (insert_before (\<lambda>cur. pdu_so cur > pdu_so pdu) pdu
          (nr_rlc_rx_manager_get_pdu_from_sn m (pdu_sn pdu)))"

section \<open>The contract\<close>

text \<open>
  Sequence numbers are taken modulo twice the window, and a sequence number shares its slot with
  the one a window away. Moving the window leaves every slot where it is.
\<close>

locale rx_store =
  fixes ok :: "'m \<Rightarrow> bool"
    and window :: "'m \<Rightarrow> int"
    and start :: "'m \<Rightarrow> int"
    and get :: "'m \<Rightarrow> int \<Rightarrow> 'p list"
    and put :: "'m \<Rightarrow> int \<Rightarrow> 'p list \<Rightarrow> 'm"
    and slide :: "'m \<Rightarrow> int \<Rightarrow> int \<Rightarrow> 'm"
  assumes window_pos: "ok m \<Longrightarrow> 0 < window m"
    and start_valid: "ok m \<Longrightarrow> sn_valid (2 * window m) (start m)"
    and put_ok: "ok m \<Longrightarrow> ok (put m a l) \<and> window (put m a l) = window m \<and> start (put m a l) = start m"
    and get_put: "ok m \<Longrightarrow> sn_valid (2 * window m) a \<Longrightarrow> sn_valid (2 * window m) b \<Longrightarrow>
      get (put m a l) b = (if a mod window m = b mod window m then l else get m b)"
    and get_alias: "ok m \<Longrightarrow> sn_valid (2 * window m) a \<Longrightarrow> sn_valid (2 * window m) b \<Longrightarrow>
      a mod window m = b mod window m \<Longrightarrow> get m a = get m b"
    and slide_ok: "ok m \<Longrightarrow> 0 \<le> n \<Longrightarrow> b = (start m + n) mod (2 * window m) \<Longrightarrow>
      ok (slide m n b) \<and> window (slide m n b) = window m \<and> start (slide m n b) = b"
    and get_slide: "ok m \<Longrightarrow> 0 \<le> n \<Longrightarrow> b = (start m + n) mod (2 * window m) \<Longrightarrow>
      sn_valid (2 * window m) a \<Longrightarrow> get (slide m n b) a = get m a"
begin

lemma mod_window: "(a mod (2 * window m)) mod window m = a mod window m"
  by (metis dvd_triv_right mod_mod_cancel)

lemma at_valid: "ok m \<Longrightarrow> sn_valid (2 * window m) (a mod (2 * window m))"
  using window_pos [of m] by (simp add: sn_valid_def)

text \<open>Inside of a window of sequence numbers from \<open>s\<close> on the store is a map.\<close>

lemma get_put_window:
  assumes "ok m" and "0 \<le> i" "i < window m" and "0 \<le> j" "j < window m"
  shows "get (put m ((s + i) mod (2 * window m)) l) ((s + j) mod (2 * window m)) =
     (if i = j then l else get m ((s + j) mod (2 * window m)))"
proof -
  have "(s + i) mod window m = (s + j) mod window m \<longleftrightarrow> i = j"
  proof
    assume "(s + i) mod window m = (s + j) mod window m"
    then have "i mod window m = j mod window m" by (metis add_diff_cancel_left' mod_diff_left_eq)
    with assms show "i = j" by simp
  qed simp
  then show ?thesis
    using get_put [OF assms(1) at_valid at_valid] assms(1) by (simp add: mod_window)
qed

text \<open>The number that enters the window takes the slot of the one that leaves it.\<close>

lemma get_next_window:
  "ok m \<Longrightarrow> get m ((s + i + window m) mod (2 * window m)) = get m ((s + i) mod (2 * window m))"
  by (rule get_alias) (simp_all add: at_valid mod_window)

end

section \<open>The circular buffer\<close>

definition rx_manager_ok :: "nr_rlc_rx_manager \<Rightarrow> bool" where
  "rx_manager_ok m \<longleftrightarrow> 0 < rm_size m \<and> length (rm_rx_list m) = nat (rm_size m) \<and>
     0 \<le> rm_start m \<and> rm_start m < rm_size m \<and> sn_valid (2 * rm_size m) (rm_sn_start m)"

lemma rx_manager_ok_pos:
  "rx_manager_ok m \<Longrightarrow> 0 < rm_size m \<and> sn_valid (2 * rm_size m) (rm_sn_start m)"
  by (simp add: rx_manager_ok_def)

definition rx_manager_slide :: "nr_rlc_rx_manager \<Rightarrow> int \<Rightarrow> int \<Rightarrow> nr_rlc_rx_manager" where
  "rx_manager_slide m n sn = nr_rlc_rx_manager_set_start (nr_rlc_rx_manager_advance m n) sn"

lemma get_pos_eq:
  assumes "rx_manager_ok m" and "sn_valid (2 * rm_size m) sn"
  shows "get_pos m sn = (rm_start m + sn - rm_sn_start m) mod rm_size m"
proof -
  have "0 \<le> rm_start m + (sn - rm_sn_start m + rm_size m * 2)"
    using assms by (simp add: rx_manager_ok_def sn_valid_def)
  then have "get_pos m sn = (rm_start m + sn - rm_sn_start m + 2 * rm_size m) mod rm_size m"
    by (simp add: get_pos_def algebra_simps)
  then show ?thesis by simp
qed

lemma get_pos_range:
  assumes "rx_manager_ok m" and "sn_valid (2 * rm_size m) sn"
  shows "0 \<le> get_pos m sn" and "nat (get_pos m sn) < length (rm_rx_list m)"
  using assms by (simp_all add: get_pos_eq rx_manager_ok_def)

lemma get_pos_inj:
  assumes "rx_manager_ok m" and "sn_valid (2 * rm_size m) a" and "sn_valid (2 * rm_size m) b"
  shows "nat (get_pos m a) = nat (get_pos m b) \<longleftrightarrow> a mod rm_size m = b mod rm_size m"
proof -
  have "(rm_start m + a - rm_sn_start m) mod rm_size m = (rm_start m + b - rm_sn_start m) mod rm_size m
      \<longleftrightarrow> a mod rm_size m = b mod rm_size m"
    by (simp add: mod_eq_dvd_iff)
  with assms get_pos_range(1) [OF assms(1,2)] get_pos_range(1) [OF assms(1,3)] show ?thesis
    by (simp add: get_pos_eq eq_nat_nat_iff)
qed

lemma rx_manager_set_simps [simp]:
  "rm_size (rx_manager_set m a l) = rm_size m"
  "rm_start (rx_manager_set m a l) = rm_start m"
  "rm_sn_start (rx_manager_set m a l) = rm_sn_start m"
  "rx_manager_ok (rx_manager_set m a l) = rx_manager_ok m"
  by (simp_all add: rx_manager_set_def rx_manager_ok_def)

lemma rx_manager_get_set:
  assumes "rx_manager_ok m" and "sn_valid (2 * rm_size m) a" and "sn_valid (2 * rm_size m) b"
  shows "nr_rlc_rx_manager_get_pdu_from_sn (rx_manager_set m a l) b =
     (if a mod rm_size m = b mod rm_size m then l else nr_rlc_rx_manager_get_pdu_from_sn m b)"
proof -
  have "get_pos (rx_manager_set m a l) b = get_pos m b" by (simp add: get_pos_def)
  with get_pos_inj [OF assms] get_pos_range [OF assms(1,3)] show ?thesis
    by (auto simp: nr_rlc_rx_manager_get_pdu_from_sn_def rx_manager_set_def nth_list_update)
qed

lemma rx_manager_slide_pos:
  assumes "rx_manager_ok m" and "0 \<le> n" and "b = (rm_sn_start m + n) mod (2 * rm_size m)"
  shows "rx_manager_ok (rx_manager_slide m n b)" and "rm_size (rx_manager_slide m n b) = rm_size m"
    and "rm_sn_start (rx_manager_slide m n b) = b"
    and "rm_rx_list (rx_manager_slide m n b) = rm_rx_list m"
    and "sn_valid (2 * rm_size m) a \<Longrightarrow> get_pos (rx_manager_slide m n b) a = get_pos m a"
proof -
  show ok: "rx_manager_ok (rx_manager_slide m n b)"
    using assms by (simp add: rx_manager_ok_def rx_manager_slide_def nr_rlc_rx_manager_advance_def
        nr_rlc_rx_manager_set_start_def sn_valid_def)
  show f: "rm_size (rx_manager_slide m n b) = rm_size m" "rm_sn_start (rx_manager_slide m n b) = b"
    "rm_rx_list (rx_manager_slide m n b) = rm_rx_list m"
    by (simp_all add: rx_manager_slide_def nr_rlc_rx_manager_advance_def nr_rlc_rx_manager_set_start_def)
  show "get_pos (rx_manager_slide m n b) a = get_pos m a" if a: "sn_valid (2 * rm_size m) a"
  proof -
    have st: "rm_start (rx_manager_slide m n b) = (rm_start m + n) mod rm_size m"
      using assms by (simp add: rx_manager_slide_def nr_rlc_rx_manager_advance_def
          nr_rlc_rx_manager_set_start_def rx_manager_ok_def)
    let ?w = "rm_size m"
    have b: "b mod ?w = (rm_sn_start m + n) mod ?w"
      unfolding assms(3) by (metis dvd_triv_right mod_mod_cancel)
    have "get_pos (rx_manager_slide m n b) a = ((rm_start m + n) mod ?w + a - b) mod ?w"
      using get_pos_eq [OF ok, of a] a f st by simp
    also have "\<dots> = (rm_start m + n + a - (rm_sn_start m + n)) mod ?w"
      by (metis b mod_add_left_eq mod_diff_cong)
    also have "\<dots> = get_pos m a" by (simp add: get_pos_eq [OF assms(1) a] algebra_simps)
    finally show ?thesis .
  qed
qed

interpretation rm: rx_store rx_manager_ok rm_size rm_sn_start nr_rlc_rx_manager_get_pdu_from_sn
  rx_manager_set rx_manager_slide
proof
  fix m a b l
  assume m: "rx_manager_ok m" and a: "sn_valid (2 * rm_size m) a" and b: "sn_valid (2 * rm_size m) b"
  show "nr_rlc_rx_manager_get_pdu_from_sn (rx_manager_set m a l) b =
     (if a mod rm_size m = b mod rm_size m then l else nr_rlc_rx_manager_get_pdu_from_sn m b)"
    by (rule rx_manager_get_set [OF m a b])
next
  fix m a b
  assume m: "rx_manager_ok m" and a: "sn_valid (2 * rm_size m) a" and b: "sn_valid (2 * rm_size m) b"
    and "a mod rm_size m = b mod rm_size m"
  then show "nr_rlc_rx_manager_get_pdu_from_sn m a = nr_rlc_rx_manager_get_pdu_from_sn m b"
    using get_pos_inj [OF m a b] by (simp add: nr_rlc_rx_manager_get_pdu_from_sn_def)
next
  fix m n b a
  assume "rx_manager_ok m" "0 \<le> n" "b = (rm_sn_start m + n) mod (2 * rm_size m)"
  note s = rx_manager_slide_pos [OF this]
  show "rx_manager_ok (rx_manager_slide m n b) \<and> rm_size (rx_manager_slide m n b) = rm_size m \<and>
      rm_sn_start (rx_manager_slide m n b) = b"
    using s by blast
  show "nr_rlc_rx_manager_get_pdu_from_sn (rx_manager_slide m n b) a =
      nr_rlc_rx_manager_get_pdu_from_sn m a" if "sn_valid (2 * rm_size m) a"
    using s that by (simp add: nr_rlc_rx_manager_get_pdu_from_sn_def)
qed (auto simp: rx_manager_ok_pos)

lemma new_rx_manager_ok:
  assumes "0 < n"
  shows "rx_manager_ok (nr_rlc_new_rx_manager n)" and "rm_size (nr_rlc_new_rx_manager n) = n"
    and "rm_sn_start (nr_rlc_new_rx_manager n) = 0"
    and "sn_valid (2 * n) a \<Longrightarrow> nr_rlc_rx_manager_get_pdu_from_sn (nr_rlc_new_rx_manager n) a = []"
  using assms get_pos_range [of "nr_rlc_new_rx_manager n" a]
  by (auto simp: nr_rlc_new_rx_manager_def rx_manager_ok_def sn_valid_def
      nr_rlc_rx_manager_get_pdu_from_sn_def)

lemma clear_rx_manager_eq:
  "nr_rlc_clear_rx_manager m = nr_rlc_new_rx_manager (rm_size m)"
  by (simp add: nr_rlc_clear_rx_manager_def nr_rlc_new_rx_manager_def)

section \<open>Property\<close>

text \<open>
  C26: the reception store is a map over the reception window. For a store of \<open>W\<close> slots whose
  window starts at \<open>s\<close> and two offsets \<open>i\<close>, \<open>j\<close> inside of the window: adding a PDU at offset \<open>i\<close>
  changes the list at offset \<open>i\<close> only, where the PDU is inserted in the order of \<open>so\<close>; and after
  the delivered head of the window has been cleared and the window moved by \<open>n\<close> numbers, the
  numbers that stay in the window keep their lists, while a number that entered the window has the
  cleared slot of the one \<open>W\<close> before it. Every access is inside of the array.
\<close>

theorem rx_manager_window_map:
  assumes "rx_manager_ok m" and "s = rm_sn_start m" and "w = rm_size m"
    and "0 \<le> i" "i < w" and "0 \<le> j" "j < w" and "pdu_sn p = (s + i) mod (2 * w)" and "0 \<le> n"
  shows "nr_rlc_rx_manager_get_pdu_from_sn (nr_rlc_rx_manager_add_pdu m p) ((s + j) mod (2 * w)) =
      (let l = nr_rlc_rx_manager_get_pdu_from_sn m ((s + j) mod (2 * w))
       in if j = i then insert_before (\<lambda>q. pdu_so q > pdu_so p) p l else l) \<and>
    nr_rlc_rx_manager_get_pdu_from_sn
      (nr_rlc_rx_manager_set_start (nr_rlc_rx_manager_advance (nr_rlc_rx_manager_clear_pdu m s) n)
         ((s + n) mod (2 * w))) ((s + j) mod (2 * w)) =
      (if j = 0 then [] else nr_rlc_rx_manager_get_pdu_from_sn m ((s + j) mod (2 * w))) \<and>
    nr_rlc_rx_manager_get_pdu_from_sn m ((s + j + w) mod (2 * w)) =
      nr_rlc_rx_manager_get_pdu_from_sn m ((s + j) mod (2 * w)) \<and>
    0 \<le> get_pos m ((s + j) mod (2 * w)) \<and> get_pos m ((s + j) mod (2 * w)) < int (length (rm_rx_list m))"
proof -
  have s: "sn_valid (2 * w) s" "s mod (2 * w) = s"
    using rm.start_valid [OF assms(1)] assms(2,3) by (auto simp: sn_valid_def)
  have w: "0 < w" using rm.window_pos [OF assms(1)] assms(3) by simp
  have "nr_rlc_rx_manager_get_pdu_from_sn (rx_manager_slide (rx_manager_set m s []) n
      ((s + n) mod (2 * w))) ((s + j) mod (2 * w)) =
      nr_rlc_rx_manager_get_pdu_from_sn (rx_manager_set m s []) ((s + j) mod (2 * w))"
    using assms rm.at_valid [OF assms(1)] by (intro rm.get_slide) auto
  also have "\<dots> = (if j = 0 then [] else nr_rlc_rx_manager_get_pdu_from_sn m ((s + j) mod (2 * w)))"
    using rm.get_put_window [OF assms(1), of 0 j s "[]"] assms s w by auto
  finally have slide: "nr_rlc_rx_manager_get_pdu_from_sn (rx_manager_slide (rx_manager_set m s []) n
      ((s + n) mod (2 * w))) ((s + j) mod (2 * w)) =
      (if j = 0 then [] else nr_rlc_rx_manager_get_pdu_from_sn m ((s + j) mod (2 * w)))" .
  show ?thesis
    using slide rm.get_put_window [OF assms(1), of i j s] rm.get_next_window [OF assms(1), of s j]
      get_pos_range [OF assms(1), of "(s + j) mod (2 * w)"] rm.at_valid [OF assms(1)] assms
    by (auto simp: nr_rlc_rx_manager_add_pdu_def nr_rlc_rx_manager_clear_pdu_def rx_manager_slide_def
        Let_def)
qed

theorem rx_manager_window_map_witness:
  "nr_rlc_rx_manager_get_pdu_from_sn (nr_rlc_rx_manager_add_pdu (nr_rlc_new_rx_manager 4)
     (nr_rlc_new_pdu 1 0 True True [7])) 1 = [nr_rlc_new_pdu 1 0 True True [7]]"
  using rx_manager_window_map [of "nr_rlc_new_rx_manager 4" 0 4 1 1 "nr_rlc_new_pdu 1 0 True True [7]" 1]
    new_rx_manager_ok(1-3) [of 4] new_rx_manager_ok(4) [of 4 1]
  by (simp add: nr_rlc_new_pdu_def sn_valid_def)

end
