(* ===== verification/Nr_Rlc_Am.thy ===== *)
theory Nr_Rlc_Am
  imports Nr_Rlc_Rx_Manager
begin

text \<open>
  Model of \<open>openair2/LAYER2/nr_rlc/nr_rlc_entity_am.c\<close>, the acknowledged mode entity: the state
  and the receiver of data PDUs. The status reports are in \<open>Nr_Rlc_Am_Status\<close>, the transmitter
  in \<open>Nr_Rlc_Am_Tx\<close> and the processing of received status reports in \<open>Nr_Rlc_Am_Control\<close>.
\<close>

section \<open>State\<close>

record nr_rlc_entity_am =
  am_common :: nr_rlc_entity
  am_t_poll_retransmit :: int
  am_t_reassembly :: int
  am_t_status_prohibit :: int
  am_poll_pdu :: int
  am_poll_byte :: int
  am_max_retx_threshold :: int
  am_sn_field_length :: int
  am_sn_modulus :: int
  am_window_size :: int
  am_rx_next :: int
  am_rx_next_status_trigger :: int
  am_rx_highest_status :: int
  am_rx_next_highest :: int
  am_status_triggered :: bool
  am_tx_next :: int
  am_tx_next_ack :: int
  am_poll_sn :: int
  am_pdu_without_poll :: int
  am_byte_without_poll :: int
  am_force_poll :: bool
  am_t_current :: u64
  am_t_log_buffer_full :: u64
  am_sdu_rejected :: int
  am_t_poll_retransmit_start :: u64
  am_t_reassembly_start :: u64
  am_t_status_prohibit_start :: u64
  am_rx :: nr_rlc_rx_manager
  am_rx_size :: int
  am_rx_maxsize :: int
  am_tx_list :: segs
  am_tx_end :: "nat option"
  am_tx_size :: int
  am_tx_maxsize :: int
  am_wait_list :: segs
  am_wait_end :: "nat option"
  am_retransmit_list :: segs
  am_heap :: rlc_heap

definition new_nr_rlc_entity_am ::
  "int \<Rightarrow> int \<Rightarrow> int \<Rightarrow> int \<Rightarrow> int \<Rightarrow> int \<Rightarrow> int \<Rightarrow> int \<Rightarrow> int \<Rightarrow> nr_rlc_entity_am res" where
  "new_nr_rlc_entity_am rx_maxsize tx_maxsize t_poll_retransmit t_reassembly t_status_prohibit
       poll_pdu poll_byte max_retx_threshold sn_field_length =
     (if \<not> (sn_field_length = 12 \<or> sn_field_length = 18) then Inl Assert_failed
      else bindr (new_common NR_RLC_AM) (\<lambda>c.
        Inr \<lparr>am_common = c, am_t_poll_retransmit = t_poll_retransmit,
             am_t_reassembly = t_reassembly, am_t_status_prohibit = t_status_prohibit,
             am_poll_pdu = poll_pdu, am_poll_byte = poll_byte,
             am_max_retx_threshold = max_retx_threshold, am_sn_field_length = sn_field_length,
             am_sn_modulus = push_bit (nat sn_field_length) 1,
             am_window_size = push_bit (nat sn_field_length) 1 div 2,
             am_rx_next = 0, am_rx_next_status_trigger = 0, am_rx_highest_status = 0,
             am_rx_next_highest = 0, am_status_triggered = False, am_tx_next = 0,
             am_tx_next_ack = 0, am_poll_sn = 0, am_pdu_without_poll = 0,
             am_byte_without_poll = 0, am_force_poll = False, am_t_current = 0,
             am_t_log_buffer_full = 0, am_sdu_rejected = 0, am_t_poll_retransmit_start = 0,
             am_t_reassembly_start = 0, am_t_status_prohibit_start = 0,
             am_rx = nr_rlc_new_rx_manager (push_bit (nat (sn_field_length - 1)) 1),
             am_rx_size = 0, am_rx_maxsize = rx_maxsize * 5, am_tx_list = [], am_tx_end = None,
             am_tx_size = 0, am_tx_maxsize = tx_maxsize * 5, am_wait_list = [],
             am_wait_end = None, am_retransmit_list = [], am_heap = empty_heap\<rparr>))"

definition nr_rlc_entity_am_reconfigure ::
  "nr_rlc_entity_am \<Rightarrow> int \<Rightarrow> int \<Rightarrow> int \<Rightarrow> int \<Rightarrow> int \<Rightarrow> int \<Rightarrow> int option \<Rightarrow> nr_rlc_entity_am" where
  "nr_rlc_entity_am_reconfigure e t_poll_retransmit t_reassembly t_status_prohibit poll_pdu
       poll_byte max_retx_threshold sn_field_length =
     (let e = e\<lparr>am_t_poll_retransmit := t_poll_retransmit, am_t_reassembly := t_reassembly,
                am_t_status_prohibit := t_status_prohibit, am_poll_pdu := poll_pdu,
                am_poll_byte := poll_byte, am_max_retx_threshold := max_retx_threshold\<rparr>
      in case sn_field_length of None \<Rightarrow> e | Some n \<Rightarrow> e\<lparr>am_sn_field_length := n\<rparr>)"

definition am_compute_pdu_header_size :: "nr_rlc_entity_am \<Rightarrow> nr_rlc_sdu_segment \<Rightarrow> int" where
  "am_compute_pdu_header_size e sdu =
     2 + (if am_sn_field_length e = 18 then 1 else 0) + (if \<not> seg_is_first sdu then 2 else 0)"

section \<open>Sequence numbers\<close>

definition am_modulus_rx :: "nr_rlc_entity_am \<Rightarrow> int \<Rightarrow> int" where
  "am_modulus_rx e a =
     (let r = a - am_rx_next e in if r < 0 then r + am_sn_modulus e else r)"

definition am_modulus_tx :: "nr_rlc_entity_am \<Rightarrow> int \<Rightarrow> int" where
  "am_modulus_tx e a =
     (let r = a - am_tx_next_ack e in if r < 0 then r + am_sn_modulus e else r)"

definition am_sn_in_recv_window :: "nr_rlc_entity_am \<Rightarrow> int \<Rightarrow> bool" where
  "am_sn_in_recv_window e sn \<longleftrightarrow> am_modulus_rx e sn < am_window_size e"

definition am_sn_compare_rx :: "nr_rlc_entity_am \<Rightarrow> int \<Rightarrow> int \<Rightarrow> int" where
  "am_sn_compare_rx e a b = am_modulus_rx e a - am_modulus_rx e b"

definition am_sn_compare_tx :: "nr_rlc_entity_am \<Rightarrow> int \<Rightarrow> int \<Rightarrow> int" where
  "am_sn_compare_tx e a b = am_modulus_tx e a - am_modulus_tx e b"

section \<open>Reception of data PDUs\<close>

abbreviation am_get :: "nr_rlc_entity_am \<Rightarrow> int \<Rightarrow> pdus" where
  "am_get e sn \<equiv> nr_rlc_rx_manager_get_pdu_from_sn (am_rx e) sn"

fun segment_received_loop :: "pdus \<Rightarrow> int \<Rightarrow> int \<Rightarrow> bool" where
  "segment_received_loop [] so sz \<longleftrightarrow> sz \<le> 0"
| "segment_received_loop (l # ls) so sz \<longleftrightarrow>
     (if sz > 0
      then
        if pdu_so l \<le> so \<and> so < pdu_so l + pdu_size l
        then let covered = pdu_size l - (so - pdu_so l)
             in segment_received_loop ls (so + covered) (sz - covered)
        else if pdu_so l \<le> so + sz - 1 \<and> so + sz - 1 < pdu_so l + pdu_size l
        then let covered = sz - (pdu_so l - so)
             in segment_received_loop ls so (sz - covered)
        else segment_received_loop ls so sz
      else True)"

definition am_segment_already_received :: "nr_rlc_entity_am \<Rightarrow> int \<Rightarrow> int \<Rightarrow> int \<Rightarrow> bool" where
  "am_segment_already_received e sn so sz = segment_received_loop (am_get e sn) so sz"

definition am_sdu_full :: "nr_rlc_entity_am \<Rightarrow> int \<Rightarrow> bool" where
  "am_sdu_full e sn =
     (case am_get e sn of
        [] \<Rightarrow> False
      | p # l \<Rightarrow> if pdu_data p = None then False else sdu_full_loop (p # l) (- 1))"

definition am_sdu_delivered :: "nr_rlc_entity_am \<Rightarrow> int \<Rightarrow> bool" where
  "am_sdu_delivered e sn = (case am_get e sn of [] \<Rightarrow> False | p # l \<Rightarrow> pdu_data p = None)"

definition am_sdu_has_missing_bytes :: "nr_rlc_entity_am \<Rightarrow> int \<Rightarrow> bool" where
  "am_sdu_has_missing_bytes e sn =
     (case am_get e sn of
        [] \<Rightarrow> False
      | p # l \<Rightarrow> if pdu_data p = None then False else missing_bytes_loop (p # l) (- 1))"

definition am_reassemble_and_deliver :: "nr_rlc_entity_am \<Rightarrow> int \<Rightarrow> nr_rlc_entity_am res" where
  "am_reassemble_and_deliver e sn =
     (let pdus = am_get e sn
      in bindr (reassemble pdus) (\<lambda>(sdu, bad_sdu).
           let e = e\<lparr>am_rx := rx_manager_set (am_rx e) sn (map (\<lambda>p. p\<lparr>pdu_data := None\<rparr>) pdus),
                     am_rx_size := am_rx_size e - sum_list (map pdu_size pdus)\<rparr>
           in if bad_sdu then Inr e
              else Inr (e\<lparr>am_common := upd_stats stat_txsdu_pkt
                            (upcall (Deliver_sdu sdu) (am_common e))\<rparr>)))"

text \<open>
  The loop of \<open>reception_actions\<close> that frees the delivered SDUs at the head of the window. Each
  turn empties a slot, so it ends after at most as many turns as there are slots.
\<close>

fun am_free_delivered ::
  "nat \<Rightarrow> int \<Rightarrow> nr_rlc_rx_manager \<Rightarrow> int \<Rightarrow> int \<Rightarrow> (nr_rlc_rx_manager \<times> int \<times> int) res" where
  "am_free_delivered 0 sn_modulus rx rx_next n = Inl Endless_loop"
| "am_free_delivered (Suc fuel) sn_modulus rx rx_next n =
     (case nr_rlc_rx_manager_get_pdu_from_sn rx rx_next of
        [] \<Rightarrow> Inr (rx, rx_next, n)
      | p # l \<Rightarrow>
          if pdu_data p = None
          then am_free_delivered fuel sn_modulus (nr_rlc_rx_manager_clear_pdu rx rx_next)
                 (crem (rx_next + 1) sn_modulus) (n + 1)
          else Inr (rx, rx_next, n))"

definition am_advance_rx_next :: "nr_rlc_entity_am \<Rightarrow> nr_rlc_entity_am res" where
  "am_advance_rx_next e =
     bindr (am_free_delivered (Suc (nat (rm_size (am_rx e)))) (am_sn_modulus e) (am_rx e)
              (am_rx_next e) 0)
       (\<lambda>(rx, rx_next, n).
         Inr (e\<lparr>am_rx_next := rx_next,
                am_rx := nr_rlc_rx_manager_set_start (nr_rlc_rx_manager_advance rx n) rx_next\<rparr>))"

text \<open>The first half of \<open>reception_actions\<close>.\<close>

definition am_reception_full :: "nr_rlc_entity_am \<Rightarrow> int \<Rightarrow> nr_rlc_entity_am res" where
  "am_reception_full e x =
     bindr (am_reassemble_and_deliver e x) (\<lambda>e.
     bindr (if x = am_rx_highest_status e
            then bindr (skip_delivered (am_sdu_delivered e) (am_sn_modulus e)
                          (am_rx_highest_status e))
                   (\<lambda>r. Inr (e\<lparr>am_rx_highest_status := r\<rparr>))
            else Inr e) (\<lambda>e.
       if x = am_rx_next e then am_advance_rx_next e else Inr e))"

text \<open>The second half of \<open>reception_actions\<close>: the reassembly timer is stopped, then started.\<close>

definition am_stop_t_reassembly :: "nr_rlc_entity_am \<Rightarrow> nr_rlc_entity_am" where
  "am_stop_t_reassembly e =
     (if am_t_reassembly_start e \<noteq> 0 \<and>
         (am_rx_next_status_trigger e = am_rx_next e \<or>
          (am_rx_next_status_trigger e = crem (am_rx_next e + 1) (am_sn_modulus e) \<and>
           \<not> am_sdu_has_missing_bytes e (am_rx_next e)) \<or>
          (\<not> am_sn_in_recv_window e (am_rx_next_status_trigger e) \<and>
           am_rx_next_status_trigger e \<noteq>
             crem (am_rx_next e + am_window_size e) (am_sn_modulus e)))
      then e\<lparr>am_t_reassembly_start := 0\<rparr> else e)"

definition am_start_t_reassembly :: "nr_rlc_entity_am \<Rightarrow> nr_rlc_entity_am" where
  "am_start_t_reassembly e =
     (if am_t_reassembly_start e = 0 \<and>
         (am_sn_compare_rx e (am_rx_next_highest e)
            (crem (am_rx_next e + 1) (am_sn_modulus e)) > 0 \<or>
          (am_rx_next_highest e = crem (am_rx_next e + 1) (am_sn_modulus e) \<and>
           am_sdu_has_missing_bytes e (am_rx_next e)))
      then e\<lparr>am_rx_next_status_trigger := am_rx_next_highest e,
             am_t_reassembly_start := am_t_current e\<rparr>
      else e)"

definition am_reception_actions :: "nr_rlc_entity_am \<Rightarrow> int \<Rightarrow> nr_rlc_entity_am res" where
  "am_reception_actions e x =
     (let e = (if am_sn_compare_rx e x (am_rx_next_highest e) \<ge> 0
               then e\<lparr>am_rx_next_highest := crem (x + 1) (am_sn_modulus e)\<rparr> else e)
      in bindr (if am_sdu_full e x then am_reception_full e x else Inr e)
           (\<lambda>e. Inr (am_start_t_reassembly (am_stop_t_reassembly e))))"

text \<open>The label \<open>discard\<close> of \<open>recv_pdu\<close>.\<close>

definition am_discard_pdu :: "nr_rlc_entity_am \<Rightarrow> bool \<Rightarrow> int \<Rightarrow> nr_rlc_entity_am" where
  "am_discard_pdu e p n =
     e\<lparr>am_status_triggered := (am_status_triggered e \<or> p),
       am_common := upd_stats (stat_rxpdu_dd n) (am_common e)\<rparr>"

text \<open>\<open>recv_pdu\<close> from the end of the header of a data PDU on.\<close>

definition am_recv_segment ::
  "nr_rlc_entity_am \<Rightarrow> byte list \<Rightarrow> bool \<Rightarrow> bool \<Rightarrow> bool \<Rightarrow> int \<Rightarrow> int \<Rightarrow> nr_rlc_pdu_decoder \<Rightarrow>
   nr_rlc_entity_am res" where
  "am_recv_segment e buffer p is_first is_last sn so decoder =
     (let size = int (length buffer);
          data_size = size - int (dec_byte decoder)
      in if data_size \<le> 0 then Inr (am_discard_pdu e p size)
         else if am_rx_size e + data_size > am_rx_maxsize e then Inr (am_discard_pdu e p size)
         else if \<not> am_sn_in_recv_window e sn
         then Inr (am_discard_pdu
                (e\<lparr>am_common := upd_stats (stat_rxpdu_ow size) (am_common e)\<rparr>) p size)
         else if am_segment_already_received e sn so data_size
         then Inr (am_discard_pdu
                (e\<lparr>am_common := upd_stats (stat_rxpdu_dup size) (am_common e)\<rparr>) p size)
         else
           let pdu = nr_rlc_new_pdu sn so is_first is_last (drop (nat (size - data_size)) buffer);
               e = e\<lparr>am_rx_size := am_rx_size e + data_size,
                     am_rx := nr_rlc_rx_manager_add_pdu (am_rx e) pdu\<rparr>
           in bindr (am_reception_actions e (pdu_sn pdu))
                (\<lambda>e. Inr (if p then e\<lparr>am_status_triggered := True\<rparr> else e)))"

text \<open>
  \<open>recv_pdu\<close> for a data PDU, behind the \<open>D/C\<close> bit. Before the polling bit is read the variable
  \<open>p\<close> is 0.
\<close>

definition am_recv_data_pdu ::
  "nr_rlc_entity_am \<Rightarrow> byte list \<Rightarrow> nr_rlc_pdu_decoder \<Rightarrow> nr_rlc_entity_am res" where
  "am_recv_data_pdu e buffer d =
     (let size = int (length buffer)
      in read_field d 1 (Inr (am_discard_pdu e False size)) (\<lambda>p d.
           let p = (p \<noteq> 0); discard = Inr (am_discard_pdu e p size)
           in read_field d 2 discard (\<lambda>si d.
                let is_first = (si AND 2 = 0); is_last = (si AND 1 = 0);
                    with_sn = (\<lambda>d. read_field d (nat (am_sn_field_length e)) discard (\<lambda>sn d.
                      if \<not> is_first
                      then read_field d 16 discard (\<lambda>so d.
                             if so = 0 then discard
                             else am_recv_segment e buffer p is_first is_last sn so d)
                      else am_recv_segment e buffer p is_first is_last sn 0 d))
                in if am_sn_field_length e = 18 then read_field d 2 discard (\<lambda>_ d. with_sn d)
                   else with_sn d)))"

end
