(* ===== verification/Nr_Rlc_Am_Status.thy ===== *)
theory Nr_Rlc_Am_Status
  imports Nr_Rlc_Am
begin

text \<open>
  Model of the status reports of \<open>openair2/LAYER2/nr_rlc/nr_rlc_entity_am.c\<close>: the search for
  missing bytes (\<open>next_missing\<close>), the generation of the STATUS PDU (\<open>generate_status\<close>) and the
  computation of its size for the scheduler (\<open>status_size\<close>).

  A pointer to a received PDU is the rest of its slot's list from that PDU on; \<open>NULL\<close> is the empty
  list and \<open>cur->next\<close> is the tail. The searches over sequence numbers have \<open>sn_modulus\<close> as fuel:
  a search that has not ended when the sequence number has its first value again never ends.
\<close>

section \<open>Missing data\<close>

record missing_data =
  md_sn_start :: int
  md_so_start :: int
  md_sn_end :: int
  md_so_end :: int
  md_next :: pdus

text \<open>What \<open>next_missing\<close> returns when there is nothing to report; only \<open>sn_start\<close> is set.\<close>

definition no_missing :: missing_data where
  "no_missing = \<lparr>md_sn_start = - 1, md_so_start = 0, md_sn_end = 0, md_so_end = 0, md_next = []\<rparr>"

fun find_rx_pdu :: "nat \<Rightarrow> nr_rlc_entity_am \<Rightarrow> int \<Rightarrow> int \<Rightarrow> pdus res" where
  "find_rx_pdu 0 e last_sn sn = Inl Endless_loop"
| "find_rx_pdu (Suc fuel) e last_sn sn =
     (if sn \<noteq> last_sn \<and> am_get e sn = []
      then find_rx_pdu fuel e last_sn (crem (sn + 1) (am_sn_modulus e))
      else Inr (am_get e sn))"

definition get_first_rx_pdu :: "nr_rlc_entity_am \<Rightarrow> pdus res" where
  "get_first_rx_pdu e =
     find_rx_pdu (nat (am_sn_modulus e)) e (am_rx_highest_status e) (am_rx_next e)"

definition get_next_rx_pdu :: "nr_rlc_entity_am \<Rightarrow> pdus \<Rightarrow> pdus res" where
  "get_next_rx_pdu e cur =
     (case cur of
        [] \<Rightarrow> Inl Null_dereference
      | p # l \<Rightarrow>
          if l \<noteq> [] then Inr l
          else if pdu_sn p = am_rx_highest_status e then Inr []
          else find_rx_pdu (nat (am_sn_modulus e)) e (am_rx_highest_status e)
                 (crem (pdu_sn p + 1) (am_sn_modulus e)))"

text \<open>\<open>sn_compare_rx(entity, entity->rx_highest_status, sn) <= 0\<close>: outside of the report.\<close>

definition not_reported :: "nr_rlc_entity_am \<Rightarrow> int \<Rightarrow> bool" where
  "not_reported e sn \<longleftrightarrow> am_sn_compare_rx e (am_rx_highest_status e) sn \<le> 0"

definition before_highest_status :: "nr_rlc_entity_am \<Rightarrow> int" where
  "before_highest_status e =
     crem (am_rx_highest_status e - 1 + am_sn_modulus e) (am_sn_modulus e)"

text \<open>The label \<open>set_end_different_sdu\<close>; \<open>cur\<close> points at the PDU \<open>p\<close>.\<close>

definition set_end_different_sdu ::
  "nr_rlc_entity_am \<Rightarrow> int \<Rightarrow> int \<Rightarrow> nr_rlc_pdu \<Rightarrow> pdus \<Rightarrow> missing_data" where
  "set_end_different_sdu e sn_start so_start p cur =
     (let sn_end = (if pdu_is_first p
                    then crem (pdu_sn p - 1 + am_sn_modulus e) (am_sn_modulus e) else pdu_sn p);
          so_end = (if pdu_is_first p then 0xffff else pdu_so p - 1)
      in if not_reported e sn_end
         then \<lparr>md_sn_start = sn_start, md_so_start = so_start,
               md_sn_end = before_highest_status e, md_so_end = 0xffff, md_next = []\<rparr>
         else \<lparr>md_sn_start = sn_start, md_so_start = so_start, md_sn_end = sn_end,
               md_so_end = so_end, md_next = cur\<rparr>)"

text \<open>The branch of \<open>next_missing\<close> for the last PDU of the report.\<close>

definition missing_after_last ::
  "nr_rlc_entity_am \<Rightarrow> int \<Rightarrow> bool \<Rightarrow> nr_rlc_pdu \<Rightarrow> missing_data" where
  "missing_after_last e max_so last_reached p =
     (let next_sdu = (pdu_data p = None \<or> last_reached);
          sn_start = (if next_sdu then crem (pdu_sn p + 1) (am_sn_modulus e) else pdu_sn p);
          so_start = (if next_sdu then 0 else max_so + 1)
      in if not_reported e sn_start then no_missing
         else \<lparr>md_sn_start = sn_start, md_so_start = so_start,
               md_sn_end = before_highest_status e, md_so_end = 0xffff, md_next = []\<rparr>)"

text \<open>
  The rest of \<open>next_missing\<close> once the next PDU \<open>q\<close> is known: either the data continue, and the new
  values of \<open>max_so\<close> and \<open>last_reached\<close> are returned, or there is a discontinuity to report.
\<close>

definition data_continue ::
  "nr_rlc_entity_am \<Rightarrow> int \<Rightarrow> int \<Rightarrow> bool \<Rightarrow> nr_rlc_pdu \<Rightarrow> (int \<times> bool) option" where
  "data_continue e sn max_so last_reached q =
     (if pdu_sn q = sn \<and> max_so \<ge> pdu_so q - 1 then Some (max_so, last_reached)
      else if pdu_sn q = crem (sn + 1) (am_sn_modulus e) \<and> last_reached \<and> pdu_is_first q
      then Some (0, False)
      else None)"

definition missing_before ::
  "nr_rlc_entity_am \<Rightarrow> int \<Rightarrow> int \<Rightarrow> bool \<Rightarrow> nr_rlc_pdu \<Rightarrow> pdus \<Rightarrow> missing_data" where
  "missing_before e sn max_so last_reached q cur =
     (if pdu_sn q = sn
      then if not_reported e sn then no_missing
           else \<lparr>md_sn_start = sn, md_so_start = max_so + 1, md_sn_end = sn,
                 md_so_end = pdu_so q - 1, md_next = cur\<rparr>
      else
        let sn_start = (if last_reached then crem (sn + 1) (am_sn_modulus e) else sn);
            so_start = (if last_reached then 0 else max_so + 1)
        in if not_reported e sn_start then no_missing
           else set_end_different_sdu e sn_start so_start q cur)"

text \<open>
  The loop of the label \<open>next_pdu\<close>. A step to the next PDU of the same slot shortens the list; a
  step to another slot consumes fuel.
\<close>

fun next_pdu_loop ::
  "nat \<Rightarrow> nr_rlc_entity_am \<Rightarrow> int \<Rightarrow> bool \<Rightarrow> pdus \<Rightarrow> missing_data res" where
  "next_pdu_loop fuel e max_so last_reached [] = Inl Null_dereference"
| "next_pdu_loop fuel e max_so last_reached (p # q # l) =
     (let sn = pdu_sn p;
          cur_max_so = pdu_so p + pdu_size p - 1;
          max_so = (if cur_max_so > max_so then cur_max_so else max_so);
          last_reached = (last_reached \<or> pdu_is_last p)
      in case data_continue e sn max_so last_reached q of
           Some (max_so, last_reached) \<Rightarrow> next_pdu_loop fuel e max_so last_reached (q # l)
         | None \<Rightarrow> Inr (missing_before e sn max_so last_reached q (q # l)))"
| "next_pdu_loop 0 e max_so last_reached [p] = Inl Endless_loop"
| "next_pdu_loop (Suc fuel) e max_so last_reached [p] =
     (let sn = pdu_sn p;
          cur_max_so = pdu_so p + pdu_size p - 1;
          max_so = (if cur_max_so > max_so then cur_max_so else max_so);
          last_reached = (last_reached \<or> pdu_is_last p)
      in bindr (get_next_rx_pdu e [p]) (\<lambda>cur_next.
           case cur_next of
             [] \<Rightarrow> Inr (missing_after_last e max_so last_reached p)
           | q # l \<Rightarrow>
               case data_continue e sn max_so last_reached q of
                 Some (max_so, last_reached) \<Rightarrow> next_pdu_loop fuel e max_so last_reached (q # l)
               | None \<Rightarrow> Inr (missing_before e sn max_so last_reached q (q # l))))"

definition next_missing :: "nr_rlc_entity_am \<Rightarrow> pdus \<Rightarrow> bool \<Rightarrow> missing_data res" where
  "next_missing e cur check_head =
     (case cur of
        [] \<Rightarrow> Inl Null_dereference
      | p # l \<Rightarrow>
          if check_head \<and> (pdu_sn p \<noteq> am_rx_next e \<or> \<not> pdu_is_first p)
          then Inr (if not_reported e (am_rx_next e) then no_missing
                    else set_end_different_sdu e (am_rx_next e) 0 p cur)
          else next_pdu_loop (nat (am_sn_modulus e)) e 0 False cur)"

section \<open>Generation of the STATUS PDU\<close>

definition nack_size :: "nr_rlc_entity_am \<Rightarrow> missing_data \<Rightarrow> int" where
  "nack_size e m =
     (let nack_length = 2 + (if am_sn_field_length e = 18 then 1 else 0);
          whole = (md_so_start m = 0 \<and> md_so_end m = 0xffff)
      in if md_sn_start m = md_sn_end m
         then if whole then nack_length else nack_length + 4
         else if whole then nack_length + 1 else nack_length + 5)"

text \<open>The number of sequence numbers of a missing part; always at least 1.\<close>

definition missing_sn_count :: "nr_rlc_entity_am \<Rightarrow> missing_data \<Rightarrow> int" where
  "missing_sn_count e m =
     crem (md_sn_end m - md_sn_start m + am_sn_modulus e) (am_sn_modulus e) + 1"

text \<open>
  \<open>m_nack\<close> of \<open>generate_missing\<close> and \<open>missing_size\<close>: the next range of at most 255 sequence
  numbers, cut from the front of a missing part of which \<open>sn_count\<close> numbers from \<open>sn_start\<close> on
  are left.
\<close>

definition cut_range ::
  "nr_rlc_entity_am \<Rightarrow> missing_data \<Rightarrow> int \<Rightarrow> int \<Rightarrow> missing_data" where
  "cut_range e m sn_start sn_count =
     \<lparr>md_sn_start = sn_start,
      md_so_start = (if sn_start = md_sn_start m then md_so_start m else 0),
      md_sn_end = (if sn_count \<le> 255 then md_sn_end m
                   else crem (sn_start + 254) (am_sn_modulus e)),
      md_so_end = (if sn_count \<le> 255 then md_so_end m else 0xffff),
      md_next = []\<rparr>"

record status_state =
  ss_encoder :: nr_rlc_pdu_encoder
  ss_e1_byte :: nat
  ss_e1_bit :: nat
  ss_so_end_address :: "nat option"

definition get_e1_position :: "nr_rlc_entity_am \<Rightarrow> nr_rlc_pdu_encoder \<Rightarrow> nat \<times> nat" where
  "get_e1_position e encoder =
     (if am_sn_field_length e = 18 then (enc_byte encoder + 2, 5) else (enc_byte encoder + 1, 3))"

text \<open>\<open>buffer[pos] |= v\<close> and \<open>buffer[pos] = v\<close>.\<close>

definition or_byte :: "byte list \<Rightarrow> nat \<Rightarrow> byte \<Rightarrow> byte list res" where
  "or_byte b pos v =
     (if pos < length b then Inr (b[pos := b ! pos OR v]) else Inl Out_of_bounds)"

definition set_byte :: "byte list \<Rightarrow> nat \<Rightarrow> byte \<Rightarrow> byte list res" where
  "set_byte b pos v = (if pos < length b then Inr (b[pos := v]) else Inl Out_of_bounds)"

text \<open>The body of the loop of \<open>generate_missing\<close> behind the test for room.\<close>

definition put_nack ::
  "nr_rlc_entity_am \<Rightarrow> status_state \<Rightarrow> missing_data \<Rightarrow> int \<Rightarrow> status_state res" where
  "put_nack e s n cur_sn_count =
     (let encoder = ss_encoder s;
          r_bits = (if am_sn_field_length e = 18 then 3 else 1);
          whole = (md_so_start n = 0 \<and> md_so_end n = 0xffff);
          e2 = (\<not> whole);
          e3 = (md_sn_start n \<noteq> md_sn_end n)
      in bindr (or_byte (enc_buffer encoder) (ss_e1_byte s) (push_bit (ss_e1_bit s) 1)) (\<lambda>buffer.
           let encoder = encoder\<lparr>enc_buffer := buffer\<rparr>;
               (e1_byte, e1_bit) = get_e1_position e encoder
           in bindr (put_fields encoder
                       ([(md_sn_start n, nat (am_sn_field_length e)), (0, 1), (of_bool e2, 1),
                         (of_bool e3, 1), (0, r_bits)] @
                        (if e2 then [(md_so_start n, 16)] else []))) (\<lambda>encoder.
              let so_end_address = (if e2 then Some (enc_byte encoder) else None)
              in bindr (put_fields encoder
                         ((if e2 then [(md_so_end n, 16)] else []) @
                          (if e3 then [(cur_sn_count, 8)] else []))) (\<lambda>encoder.
                 Inr \<lparr>ss_encoder = encoder, ss_e1_byte = e1_byte, ss_e1_bit = e1_bit,
                      ss_so_end_address = so_end_address\<rparr>))))"

text \<open>
  The loop of \<open>generate_missing\<close>; \<open>sn_count\<close> sequence numbers are left. The result has the last
  negative acknowledgement and whether the generation was cut short.
\<close>

function generate_missing_loop ::
  "nr_rlc_entity_am \<Rightarrow> missing_data \<Rightarrow> status_state \<Rightarrow> int \<Rightarrow> nat \<Rightarrow> int \<Rightarrow>
   (status_state \<times> int \<times> bool) res" where
  "generate_missing_loop e m s sn_start sn_count last_nack_generated =
     (if sn_count = 0 then Inr (s, last_nack_generated, False)
      else
        let cur_sn_count = (if sn_count > 255 then 255 else sn_count);
            n = cut_range e m sn_start (int sn_count)
        in if int (enc_byte (ss_encoder s)) + nack_size e n > int (enc_size (ss_encoder s))
           then Inr (s, last_nack_generated, True)
           else bindr (put_nack e s n (int cur_sn_count)) (\<lambda>s.
             generate_missing_loop e m s
               (crem (sn_start + int cur_sn_count) (am_sn_modulus e))
               (sn_count - cur_sn_count)
               (if sn_start \<noteq> md_sn_end n then sn_start + int cur_sn_count - 1 else sn_start)))"
  by pat_completeness auto
termination
  by (relation "measure (\<lambda>(e, m, s, sn_start, sn_count, _). sn_count)") auto

declare generate_missing_loop.simps [simp del]

definition generate_missing ::
  "nr_rlc_entity_am \<Rightarrow> missing_data \<Rightarrow> status_state \<Rightarrow> (status_state \<times> int \<times> bool \<times> pdus) res" where
  "generate_missing e m s =
     bindr (generate_missing_loop e m s (md_sn_start m) (nat (missing_sn_count e m)) (- 1))
       (\<lambda>(s, ln, truncated). Inr (s, ln, truncated, if truncated then [] else md_next m))"

text \<open>\<open>so_end_address[0] = so_end_address[1] = 0xff\<close> after a cut generation.\<close>

definition force_so_end :: "status_state \<Rightarrow> status_state res" where
  "force_so_end s =
     (case ss_so_end_address s of
        None \<Rightarrow> Inr s
      | Some a \<Rightarrow>
          bindr (set_byte (enc_buffer (ss_encoder s)) a 0xff) (\<lambda>b.
          bindr (set_byte b (a + 1) 0xff) (\<lambda>b.
            Inr (s\<lparr>ss_encoder := (ss_encoder s)\<lparr>enc_buffer := b\<rparr>\<rparr>))))"

text \<open>
  The loop of \<open>generate_status\<close>. Each turn that is followed by another one writes at least two
  bytes, so the size of the buffer bounds the number of turns.
\<close>

fun generate_status_loop ::
  "nat \<Rightarrow> nr_rlc_entity_am \<Rightarrow> bool \<Rightarrow> pdus \<Rightarrow> status_state \<Rightarrow> int \<Rightarrow> (status_state \<times> int) res" where
  "generate_status_loop fuel e check_head [] s last_nack = Inr (s, last_nack)"
| "generate_status_loop 0 e check_head (p # l) s last_nack = Inl Endless_loop"
| "generate_status_loop (Suc fuel) e check_head (p # l) s last_nack =
     bindr (next_missing e (p # l) check_head) (\<lambda>m.
       if md_sn_start m = - 1 then Inr (s, last_nack)
       else
         bindr (generate_missing e m s) (\<lambda>(s, ln, truncated, cur).
         bindr (if truncated then force_so_end s else Inr s) (\<lambda>s.
           generate_status_loop fuel e False cur s (if ln \<noteq> - 1 then ln else last_nack))))"

definition put_ack_sn :: "nr_rlc_entity_am \<Rightarrow> int \<Rightarrow> byte list \<Rightarrow> byte list res" where
  "put_ack_sn e ack_sn buffer =
     (if am_sn_field_length e = 12
      then bindr (set_byte buffer 0 (word_of_int (drop_bit 8 ack_sn))) (\<lambda>b.
           set_byte b 1 (word_of_int (ack_sn AND 255)))
      else bindr (set_byte buffer 0 (word_of_int (drop_bit 14 ack_sn))) (\<lambda>b.
           bindr (set_byte b 1 (word_of_int (drop_bit 6 ack_sn AND 255))) (\<lambda>b.
           or_byte b 2 (word_of_int (push_bit 2 (ack_sn AND 0x3f))))))"

definition generate_status ::
  "nr_rlc_entity_am \<Rightarrow> byte list \<Rightarrow> (int \<times> byte list \<times> nr_rlc_entity_am) res" where
  "generate_status e buffer =
     (if length buffer < 3 then Inr (0, buffer, e)
      else
        let last_nack = crem (am_rx_next e - 1 + am_sn_modulus e) (am_sn_modulus e)
        in bindr (nr_rlc_pdu_encoder_put_bits (nr_rlc_pdu_encoder_init buffer) 0 (8 * 3)) (\<lambda>encoder.
           bindr (get_first_rx_pdu e) (\<lambda>cur.
           bindr (generate_status_loop (Suc (length buffer)) e True cur
                    \<lparr>ss_encoder = encoder, ss_e1_byte = 2,
                     ss_e1_bit = (if am_sn_field_length e = 18 then 1 else 7),
                     ss_so_end_address = None\<rparr> last_nack) (\<lambda>(s, last_nack).
           let n = int (enc_byte (ss_encoder s))
           in bindr (put_ack_sn e (crem (last_nack + 1) (am_sn_modulus e))
                       (enc_buffer (ss_encoder s))) (\<lambda>buffer.
                Inr (n, buffer,
                     e\<lparr>am_status_triggered := False,
                       am_t_status_prohibit_start := am_t_current e,
                       am_common := upd_stats (stat_txpdu_status n)
                                      (upd_stats (stat_txpdu n) (am_common e))\<rparr>))))))"

definition status_to_report :: "nr_rlc_entity_am \<Rightarrow> bool" where
  "status_to_report e \<longleftrightarrow>
     am_status_triggered e \<and>
     (am_t_status_prohibit_start e = 0 \<or>
      am_t_current e - am_t_status_prohibit_start e > word_of_int (am_t_status_prohibit e))"

section \<open>Size of the STATUS PDU\<close>

text \<open>
  The loop of \<open>missing_size\<close>: the new size, the number of ranges and whether it was cut short.
\<close>

function missing_size_loop ::
  "nr_rlc_entity_am \<Rightarrow> missing_data \<Rightarrow> int \<Rightarrow> int \<Rightarrow> int \<Rightarrow> nat \<Rightarrow> int \<Rightarrow> int \<times> int \<times> bool" where
  "missing_size_loop e m maxsize sz sn_start sn_count range_count =
     (if sn_count = 0 then (sz, range_count, False)
      else
        let cur_sn_count = (if sn_count > 255 then 255 else sn_count);
            n = cut_range e m sn_start (int sn_count);
            r_bits = (if am_sn_field_length e = 18 then 3 else 1);
            head_bits = am_sn_field_length e + 3 + r_bits;
            whole = (md_so_start n = 0 \<and> md_so_end n = 0xffff)
        in if sz + nack_size e n > maxsize then (sz, range_count, True)
           else
             missing_size_loop e m maxsize
               (sz + (if sn_start = md_sn_end n
                      then if whole then head_bits div 8 else (head_bits + 16 * 2) div 8
                      else if whole then (head_bits + 8) div 8
                      else (head_bits + 16 * 2 + 8) div 8))
               (crem (sn_start + int cur_sn_count) (am_sn_modulus e))
               (sn_count - cur_sn_count) (range_count + 1))"
  by pat_completeness auto
termination
  by (relation "measure (\<lambda>(e, m, maxsize, sz, sn_start, sn_count, _). sn_count)") auto

declare missing_size_loop.simps [simp del]

definition missing_size ::
  "nr_rlc_entity_am \<Rightarrow> missing_data \<Rightarrow> int \<Rightarrow> int \<Rightarrow> int \<times> int \<times> pdus" where
  "missing_size e m sz maxsize =
     (let (sz, range_count, truncated) =
            missing_size_loop e m maxsize sz (md_sn_start m) (nat (missing_sn_count e m)) 0
      in (sz, range_count, if truncated then [] else md_next m))"

fun status_size_loop ::
  "nat \<Rightarrow> nr_rlc_entity_am \<Rightarrow> int \<Rightarrow> pdus \<Rightarrow> int \<Rightarrow> int \<Rightarrow> int res" where
  "status_size_loop fuel e maxsize [] sz nack_count = Inr sz"
| "status_size_loop 0 e maxsize (p # l) sz nack_count = Inl Endless_loop"
| "status_size_loop (Suc fuel) e maxsize (p # l) sz nack_count =
     bindr (next_missing e (p # l) (nack_count = 0)) (\<lambda>m.
       if md_sn_start m = - 1 then Inr sz
       else
         let (sz, range_count, cur) = missing_size e m sz maxsize
         in status_size_loop fuel e maxsize cur sz (nack_count + range_count))"

definition status_size :: "nr_rlc_entity_am \<Rightarrow> int \<Rightarrow> int res" where
  "status_size e maxsize =
     (if maxsize < 3 then Inr 0
      else
        bindr (get_first_rx_pdu e) (\<lambda>cur.
          status_size_loop (Suc (nat maxsize)) e maxsize cur 3 0))"

end
