(* ===== verification/Nr_Rlc_Am_Tx.thy ===== *)
theory Nr_Rlc_Am_Tx
  imports Nr_Rlc_Am_Status
begin

text \<open>
  Model of the transmitter of \<open>openair2/LAYER2/nr_rlc/nr_rlc_entity_am.c\<close>: generation of data
  PDUs and retransmissions, polling, reception of SDUs, the timers, discard, re-establishment and
  deletion.

  The three lists \<open>tx_list\<close>, \<open>wait_list\<close> and \<open>retransmit_list\<close> share the SDUs of one store. A
  \<open>wait_end\<close> that does not point into the wait list is a fault of its users (\<open>wait_end_segment\<close>).
\<close>

section \<open>Lists\<close>

fun nr_rlc_tx_sdu_segment_list_add ::
  "nr_rlc_entity_am \<Rightarrow> segs \<Rightarrow> nr_rlc_sdu_segment \<Rightarrow> segs res" where
  "nr_rlc_tx_sdu_segment_list_add e [] sdu_segment = Inr [sdu_segment]"
| "nr_rlc_tx_sdu_segment_list_add e (cur # l) sdu_segment =
     bindr (deref (am_heap e) cur) (\<lambda>c.
     bindr (deref (am_heap e) sdu_segment) (\<lambda>s.
       if am_sn_compare_tx e (sdu_sn c) (sdu_sn s) > 0 \<or>
          (sdu_sn c = sdu_sn s \<and> seg_so cur > seg_so sdu_segment)
       then Inr (sdu_segment # cur # l)
       else bindr (nr_rlc_tx_sdu_segment_list_add e l sdu_segment) (\<lambda>l'. Inr (cur # l'))))"

definition wait_end_segment :: "nr_rlc_entity_am \<Rightarrow> nat \<Rightarrow> nr_rlc_sdu_segment res" where
  "wait_end_segment e a =
     (case filter (\<lambda>x. seg_addr x = a) (am_wait_list e) of
        [] \<Rightarrow> Inl Dangling_pointer | x # _ \<Rightarrow> Inr x)"

text \<open>
  The test of \<open>generate_retx_pdu\<close> and \<open>generate_tx_pdu\<close> for a segment that comes after the end of
  the wait list.
\<close>

definition after_wait_end :: "nr_rlc_entity_am \<Rightarrow> nr_rlc_sdu_segment \<Rightarrow> bool res" where
  "after_wait_end e sdu =
     (case am_wait_end e of
        None \<Rightarrow> Inr True
      | Some a \<Rightarrow>
          bindr (deref (am_heap e) sdu) (\<lambda>s.
          bindr (wait_end_segment e a) (\<lambda>w.
          bindr (deref (am_heap e) w) (\<lambda>ws.
            Inr (am_sn_compare_tx e (sdu_sn s) (sdu_sn ws) > 0 \<or>
                 (am_sn_compare_tx e (sdu_sn s) (sdu_sn ws) = 0 \<and> seg_so sdu > seg_so w))))))"

definition put_in_wait_list :: "nr_rlc_entity_am \<Rightarrow> nr_rlc_sdu_segment \<Rightarrow> nr_rlc_entity_am res" where
  "put_in_wait_list e sdu =
     bindr (after_wait_end e sdu) (\<lambda>at_end.
       if at_end
       then bindr (nr_rlc_sdu_segment_list_append (am_wait_list e, am_wait_end e) sdu)
              (\<lambda>(l, en). Inr (e\<lparr>am_wait_list := l, am_wait_end := en\<rparr>))
       else bindr (nr_rlc_tx_sdu_segment_list_add e (am_wait_list e) sdu) (\<lambda>l.
              Inr (e\<lparr>am_wait_list := l,
                     am_wait_end := (case l of [x] \<Rightarrow> Some (seg_addr x) | _ \<Rightarrow> am_wait_end e)\<rparr>)))"

section \<open>Polling\<close>

definition is_window_stalling :: "nr_rlc_entity_am \<Rightarrow> bool" where
  "is_window_stalling e \<longleftrightarrow>
     \<not> (am_sn_compare_tx e (am_tx_next_ack e) (am_tx_next e) \<le> 0 \<and>
        am_sn_compare_tx e (am_tx_next e)
          (crem (am_tx_next_ack e + am_window_size e) (am_sn_modulus e)) < 0)"

definition include_poll ::
  "nr_rlc_entity_am \<Rightarrow> byte list \<Rightarrow> (byte list \<times> nr_rlc_entity_am) res" where
  "include_poll e buffer =
     bindr (or_byte buffer 0 0x40) (\<lambda>buffer.
       Inr (buffer,
            e\<lparr>am_pdu_without_poll := 0, am_byte_without_poll := 0,
              am_poll_sn := crem (am_tx_next e - 1 + am_sn_modulus e) (am_sn_modulus e),
              am_t_poll_retransmit_start := am_t_current e\<rparr>))"

definition check_poll_after_pdu_assembly :: "nr_rlc_entity_am \<Rightarrow> bool" where
  "check_poll_after_pdu_assembly e \<longleftrightarrow>
     (am_tx_list e = [] \<and> am_retransmit_list e = []) \<or> is_window_stalling e"

section \<open>Generation of data PDUs\<close>

definition am_header_fields ::
  "nr_rlc_entity_am \<Rightarrow> nr_rlc_sdu_segment \<Rightarrow> int \<Rightarrow> (int \<times> nat) list" where
  "am_header_fields e sdu sn =
     [(1, 1), (0, 1), (1 - of_bool (seg_is_first sdu), 1), (1 - of_bool (seg_is_last sdu), 1)] @
     (if am_sn_field_length e = 18 then [(0, 2)] else []) @
     [(sn, nat (am_sn_field_length e))] @
     (if \<not> seg_is_first sdu then [(seg_so sdu, 16)] else [])"

text \<open>\<open>serialize_sdu\<close>: the size of the PDU, the written buffer and the entity.\<close>

definition am_serialize_sdu ::
  "nr_rlc_entity_am \<Rightarrow> nr_rlc_sdu_segment \<Rightarrow> byte list \<Rightarrow> bool \<Rightarrow>
   (int \<times> byte list \<times> nr_rlc_entity_am) res" where
  "am_serialize_sdu e sdu buffer p =
     bindr (deref (am_heap e) sdu) (\<lambda>s.
     bindr (put_fields (nr_rlc_pdu_encoder_init buffer) (am_header_fields e sdu (sdu_sn s)))
       (\<lambda>encoder.
     bindr (mem_copy (enc_buffer encoder) (int (enc_byte encoder)) (sdu_data s) (seg_so sdu)
              (seg_size sdu)) (\<lambda>buffer.
     bindr (if p then include_poll e buffer else Inr (buffer, e)) (\<lambda>(buffer, e).
       Inr (int (enc_byte encoder) + seg_size sdu, buffer, e)))))"

definition am_resegment ::
  "nr_rlc_entity_am \<Rightarrow> nr_rlc_sdu_segment \<Rightarrow> int \<Rightarrow>
   (nr_rlc_sdu_segment \<times> nr_rlc_sdu_segment \<times> nr_rlc_entity_am) res" where
  "am_resegment e sdu max_size =
     bindr (deref (am_heap e) sdu) (\<lambda>s.
       let h = store (am_heap e) sdu (s\<lparr>sdu_ref_count := sdu_ref_count s + 1\<rparr>);
           pdu_header_size = am_compute_pdu_header_size e sdu;
           over_size = pdu_header_size + seg_size sdu - max_size;
           sdu' = sdu\<lparr>seg_size := seg_size sdu - over_size, seg_is_last := False\<rparr>;
           next_sdu = sdu\<lparr>seg_addr := h_next h, seg_size := over_size,
                          seg_so := seg_so sdu' + seg_size sdu', seg_is_first := False\<rparr>
       in Inr (sdu', next_sdu, e\<lparr>am_heap := h\<lparr>h_next := h_next h + 1\<rparr>\<rparr>))"

text \<open>The test of \<open>force_poll\<close> in both generators.\<close>

definition take_force_poll :: "nr_rlc_entity_am \<Rightarrow> bool \<Rightarrow> bool \<times> nr_rlc_entity_am" where
  "take_force_poll e p = (if am_force_poll e then (True, e\<lparr>am_force_poll := False\<rparr>) else (p, e))"

text \<open>\<open>generate_retx_pdu\<close> from the insertion into the wait list on.\<close>

definition am_finish_retx ::
  "nr_rlc_entity_am \<Rightarrow> nr_rlc_sdu_segment \<Rightarrow> byte list \<Rightarrow>
   (int \<times> byte list \<times> nr_rlc_entity_am) res" where
  "am_finish_retx e sdu buffer =
     bindr (put_in_wait_list e sdu) (\<lambda>e.
       let (p, e) = take_force_poll e (check_poll_after_pdu_assembly e)
       in bindr (am_serialize_sdu e sdu buffer p) (\<lambda>(ret_size, buffer, e).
            Inr (ret_size, buffer,
                 e\<lparr>am_common := upd_stats (stat_txpdu_retx ret_size)
                                  (upd_stats (stat_txpdu ret_size) (am_common e))\<rparr>)))"

definition am_generate_retx_pdu ::
  "nr_rlc_entity_am \<Rightarrow> byte list \<Rightarrow> (int \<times> byte list \<times> nr_rlc_entity_am) res" where
  "am_generate_retx_pdu e buffer =
     (let size = int (length buffer)
      in case am_retransmit_list e of
           [] \<Rightarrow> Inl Null_dereference
         | sdu # rest \<Rightarrow>
             let pdu_header_size = am_compute_pdu_header_size e sdu
             in if pdu_header_size + 1 > size then Inr (0, buffer, e)
                else
                  let pdu_size = pdu_header_size + seg_size sdu;
                      e = e\<lparr>am_retransmit_list := rest,
                            am_common := add_retx_size (- pdu_size) (am_common e)\<rparr>
                  in if pdu_size > size
                     then bindr (am_resegment e sdu size) (\<lambda>(sdu, next_sdu, e).
                       am_finish_retx
                         (e\<lparr>am_retransmit_list := next_sdu # am_retransmit_list e,
                            am_common := upd_stats stat_segmented (add_retx_size
                              (am_compute_pdu_header_size e next_sdu + seg_size next_sdu)
                              (am_common e))\<rparr>)
                         sdu buffer)
                     else am_finish_retx e sdu buffer)"

text \<open>\<open>generate_tx_pdu\<close> from the insertion into the wait list on.\<close>

definition am_finish_tx ::
  "u64 \<Rightarrow> nr_rlc_entity_am \<Rightarrow> nr_rlc_sdu_segment \<Rightarrow> byte list \<Rightarrow>
   (int \<times> byte list \<times> nr_rlc_entity_am) res" where
  "am_finish_tx clk e sdu buffer =
     bindr (put_in_wait_list e sdu) (\<lambda>e.
       let e = e\<lparr>am_pdu_without_poll := am_pdu_without_poll e + 1,
                 am_byte_without_poll := am_byte_without_poll e + seg_size sdu\<rparr>;
           p = ((am_poll_pdu e \<noteq> - 1 \<and> am_pdu_without_poll e \<ge> am_poll_pdu e) \<or>
                (am_poll_byte e \<noteq> - 1 \<and> am_byte_without_poll e \<ge> am_poll_byte e) \<or>
                check_poll_after_pdu_assembly e);
           (p, e) = take_force_poll e p
       in bindr (am_serialize_sdu e sdu buffer p) (\<lambda>(ret_size, buffer, e).
          bindr (deref (am_heap e) sdu) (\<lambda>s.
            Inr (ret_size, buffer,
                 e\<lparr>am_common := add_avg_time clk (sdu_time_of_arrival s)
                                  (upd_stats (stat_txpdu ret_size) (am_common e))\<rparr>))))"

text \<open>The assignment of a sequence number to an SDU that has none yet.\<close>

definition assign_sn :: "nr_rlc_entity_am \<Rightarrow> nr_rlc_sdu_segment \<Rightarrow> nr_rlc_entity_am res" where
  "assign_sn e sdu =
     bindr (deref (am_heap e) sdu) (\<lambda>s.
       Inr (if sdu_sn s = - 1
            then e\<lparr>am_heap := store (am_heap e) sdu (s\<lparr>sdu_sn := am_tx_next e\<rparr>),
                   am_tx_next := crem (am_tx_next e + 1) (am_sn_modulus e)\<rparr>
            else e))"

definition am_generate_tx_pdu ::
  "u64 \<Rightarrow> nr_rlc_entity_am \<Rightarrow> byte list \<Rightarrow> (int \<times> byte list \<times> nr_rlc_entity_am) res" where
  "am_generate_tx_pdu clk e buffer =
     (let size = int (length buffer)
      in if is_window_stalling e then Inr (0, buffer, e)
         else case am_tx_list e of
           [] \<Rightarrow> Inr (0, buffer, e)
         | sdu # rest \<Rightarrow>
             let pdu_header_size = am_compute_pdu_header_size e sdu
             in if pdu_header_size + 1 > size then Inr (0, buffer, e)
                else
                  let pdu_size = pdu_header_size + seg_size sdu
                  in bindr (assign_sn
                       (e\<lparr>am_tx_list := rest,
                          am_tx_end := (if rest = [] then None else am_tx_end e),
                          am_common := add_tx_size (- pdu_size) (am_common e)\<rparr>) sdu) (\<lambda>e.
                     if pdu_size > size
                     then bindr (am_resegment e sdu size) (\<lambda>(sdu, next_sdu, e).
                       am_finish_tx clk
                         (e\<lparr>am_tx_list := next_sdu # am_tx_list e,
                            am_tx_end := (if am_tx_end e = None
                                          then Some (seg_addr next_sdu) else am_tx_end e),
                            am_common := add_tx_size
                              (am_compute_pdu_header_size e next_sdu + seg_size next_sdu)
                              (upd_stats stat_segmented (am_common e))\<rparr>)
                         sdu buffer)
                     else am_finish_tx clk e sdu buffer))"

definition nr_rlc_entity_am_buffer_status ::
  "nr_rlc_entity_am \<Rightarrow> int \<Rightarrow> nr_rlc_entity_buffer_status res" where
  "nr_rlc_entity_am_buffer_status e maxsize =
     bindr (if status_to_report e then status_size e maxsize else Inr 0) (\<lambda>n.
       Inr \<lparr>bs_status_size = n, bs_tx_size = bs_tx_size (c_bstatus (am_common e)),
            bs_retx_size = bs_retx_size (c_bstatus (am_common e))\<rparr>)"

text \<open>\<open>if (test) { ret = gen(...); if (ret != 0) return ret; }\<close> of \<open>generate_pdu\<close>.\<close>

definition gen_if ::
  "bool \<Rightarrow> (nr_rlc_entity_am \<Rightarrow> byte list \<Rightarrow> (int \<times> byte list \<times> nr_rlc_entity_am) res) \<Rightarrow>
   (nr_rlc_entity_am \<Rightarrow> byte list \<Rightarrow> (int \<times> byte list \<times> nr_rlc_entity_am) res) \<Rightarrow>
   nr_rlc_entity_am \<Rightarrow> byte list \<Rightarrow> (int \<times> byte list \<times> nr_rlc_entity_am) res" where
  "gen_if test gen rest e buffer =
     (if test
      then bindr (gen e buffer) (\<lambda>(ret, buffer, e).
             if ret \<noteq> 0 then Inr (ret, buffer, e) else rest e buffer)
      else rest e buffer)"

definition nr_rlc_entity_am_generate_pdu ::
  "u64 \<Rightarrow> nr_rlc_entity_am \<Rightarrow> byte list \<Rightarrow> (int \<times> byte list \<times> nr_rlc_entity_am) res" where
  "nr_rlc_entity_am_generate_pdu clk e buffer =
     gen_if (status_to_report e) generate_status
       (\<lambda>e buffer. gen_if (am_retransmit_list e \<noteq> []) am_generate_retx_pdu
          (am_generate_tx_pdu clk) e buffer) e buffer"

section \<open>Reception of SDUs\<close>

definition am_log_rejected :: "nr_rlc_entity_am \<Rightarrow> nr_rlc_entity_am" where
  "am_log_rejected e =
     (if am_sdu_rejected e \<noteq> 0 \<and> am_t_current e > am_t_log_buffer_full e + 1000
      then e\<lparr>am_sdu_rejected := 0, am_t_log_buffer_full := am_t_current e\<rparr> else e)"

definition nr_rlc_entity_am_recv_sdu ::
  "u64 \<Rightarrow> nr_rlc_entity_am \<Rightarrow> byte list \<Rightarrow> int \<Rightarrow> nr_rlc_entity_am res" where
  "nr_rlc_entity_am_recv_sdu clk e buffer sdu_id =
     (let size = int (length buffer);
          e = e\<lparr>am_common := upd_stats stat_rxsdu_pkt (am_common e)\<rparr>
      in if size > NR_SDU_MAX then Inl Assert_failed
         else
           let e = am_log_rejected e
           in if am_tx_size e + size > am_tx_maxsize e
              then Inr (e\<lparr>am_sdu_rejected := am_sdu_rejected e + 1,
                          am_common := upd_stats (stat_txpdu_dd size) (am_common e)\<rparr>)
              else
                let e = e\<lparr>am_tx_size := am_tx_size e + size,
                          am_common := upd_stats (stat_rxsdu_bytes size) (am_common e)\<rparr>;
                    (sdu, h) = nr_rlc_new_sdu (am_heap e) buffer sdu_id
                in bindr (nr_rlc_sdu_segment_list_append (am_tx_list e, am_tx_end e) sdu)
                     (\<lambda>(l, en). Inr (e\<lparr>am_tx_list := l, am_tx_end := en,
                        am_common := add_tx_size (am_compute_pdu_header_size e sdu + seg_size sdu)
                                       (am_common e),
                        am_heap := stamp_arrival (am_common e) clk sdu h\<rparr>)))"

section \<open>Time\<close>

text \<open>The loop of \<open>check_t_poll_retransmit\<close>; \<open>rest\<close> is what follows \<open>cur\<close> in the wait list.\<close>

fun retransmit_loop ::
  "nr_rlc_entity_am \<Rightarrow> int \<Rightarrow> nr_rlc_sdu_segment \<Rightarrow> segs \<Rightarrow> nr_rlc_entity_am res" where
  "retransmit_loop e retransmit_sn cur rest =
     (let e = e\<lparr>am_wait_list := rest, am_wait_end := (if rest = [] then None else am_wait_end e),
                am_common := add_retx_size (am_compute_pdu_header_size e cur + seg_size cur)
                               (am_common e)\<rparr>
      in bindr (nr_rlc_tx_sdu_segment_list_add e (am_retransmit_list e) cur) (\<lambda>r.
           let e = e\<lparr>am_retransmit_list := r\<rparr>
           in case rest of
                [] \<Rightarrow> Inr e
              | c # l \<Rightarrow>
                  bindr (deref (am_heap e) c) (\<lambda>s.
                    if sdu_sn s = retransmit_sn then retransmit_loop e retransmit_sn c l
                    else Inr e)))"

declare retransmit_loop.simps [simp del]

definition check_t_poll_retransmit :: "nr_rlc_entity_am \<Rightarrow> nr_rlc_entity_am res" where
  "check_t_poll_retransmit e =
     (if am_t_poll_retransmit_start e = 0 \<or>
         am_t_current e \<le> am_t_poll_retransmit_start e + word_of_int (am_t_poll_retransmit e)
      then Inr e
      else
        let e = e\<lparr>am_t_poll_retransmit_start := 0, am_force_poll := True\<rparr>
        in if \<not> check_poll_after_pdu_assembly e then Inr e
           else case am_wait_list e of
             [] \<Rightarrow> Inl Null_dereference
           | cur # rest \<Rightarrow>
               bindr (deref (am_heap e) cur) (\<lambda>s.
                 let s = s\<lparr>sdu_retx_count := sdu_retx_count s + 1\<rparr>;
                     e = e\<lparr>am_heap := store (am_heap e) cur s\<rparr>
                 in bindr (retransmit_loop e (sdu_sn s) cur rest) (\<lambda>e.
                      Inr (if sdu_retx_count s \<ge> am_max_retx_threshold e
                           then e\<lparr>am_common := upcall Max_retx_reached (am_common e)\<rparr> else e))))"

definition am_check_t_reassembly :: "nr_rlc_entity_am \<Rightarrow> nr_rlc_entity_am res" where
  "am_check_t_reassembly e =
     (if am_t_reassembly_start e = 0 \<or>
         am_t_current e \<le> am_t_reassembly_start e + word_of_int (am_t_reassembly e)
      then Inr e
      else
        bindr (skip_delivered (am_sdu_delivered e) (am_sn_modulus e)
                 (am_rx_next_status_trigger e)) (\<lambda>sn.
          let e = e\<lparr>am_t_reassembly_start := 0, am_rx_highest_status := sn,
                    am_status_triggered := True\<rparr>;
              after = crem (am_rx_highest_status e + 1) (am_sn_modulus e)
          in Inr (if am_sn_compare_rx e (am_rx_next_highest e) after > 0 \<or>
                     (am_rx_next_highest e = after \<and>
                      am_sdu_has_missing_bytes e (am_rx_highest_status e))
                  then e\<lparr>am_t_reassembly_start := am_t_current e,
                         am_rx_next_status_trigger := am_rx_next_highest e\<rparr>
                  else e)))"

definition nr_rlc_entity_am_set_time :: "nr_rlc_entity_am \<Rightarrow> u64 \<Rightarrow> nr_rlc_entity_am res" where
  "nr_rlc_entity_am_set_time e now =
     bindr (check_t_poll_retransmit (e\<lparr>am_t_current := now\<rparr>)) am_check_t_reassembly"

section \<open>Discard, re-establishment, deletion\<close>

definition nr_rlc_entity_am_discard_sdu ::
  "nr_rlc_entity_am \<Rightarrow> int \<Rightarrow> nr_rlc_entity_am res" where
  "nr_rlc_entity_am_discard_sdu e sdu_id =
     bindr (find_upper_layer_id (am_heap e) sdu_id (am_tx_list e)) (\<lambda>(before, rest).
       case rest of
         [] \<Rightarrow> Inr e
       | cur # after \<Rightarrow>
           if \<not> seg_is_first cur \<or> \<not> seg_is_last cur then Inr e
           else
             bindr (deref (am_heap e) cur) (\<lambda>s.
             bindr (nr_rlc_free_sdu_segment (am_heap e) cur) (\<lambda>(_, h).
               Inr (e\<lparr>am_tx_list := before @ after,
                      am_tx_end := (if am_tx_end e = Some (seg_addr cur)
                                    then if before \<noteq> [] then Some (seg_addr (last before)) else None
                                    else am_tx_end e),
                      am_common := add_tx_size (- (am_compute_pdu_header_size e cur + seg_size cur))
                                     (am_common e),
                      am_tx_size := am_tx_size e - sdu_size s,
                      am_heap := h\<rparr>))))"

definition am_clear_entity :: "nr_rlc_entity_am \<Rightarrow> nr_rlc_entity_am res" where
  "am_clear_entity e =
     bindr (nr_rlc_free_sdu_segment_list (am_heap e) (am_tx_list e)) (\<lambda>h.
     bindr (nr_rlc_free_sdu_segment_list h (am_wait_list e)) (\<lambda>h.
     bindr (nr_rlc_free_sdu_segment_list h (am_retransmit_list e)) (\<lambda>h.
       Inr (e\<lparr>am_rx_next := 0, am_rx_next_status_trigger := 0, am_rx_highest_status := 0,
              am_rx_next_highest := 0, am_status_triggered := False, am_tx_next := 0,
              am_tx_next_ack := 0, am_poll_sn := 0, am_pdu_without_poll := 0,
              am_byte_without_poll := 0, am_force_poll := False, am_t_current := 0,
              am_t_log_buffer_full := 0, am_sdu_rejected := 0,
              am_t_poll_retransmit_start := 0, am_t_reassembly_start := 0,
              am_t_status_prohibit_start := 0, am_rx := nr_rlc_clear_rx_manager (am_rx e),
              am_rx_size := 0, am_tx_list := [], am_tx_end := None, am_tx_size := 0,
              am_wait_list := [], am_wait_end := None, am_retransmit_list := [],
              am_common := (am_common e)\<lparr>c_bstatus :=
                 (c_bstatus (am_common e))\<lparr>bs_tx_size := 0, bs_retx_size := 0\<rparr>\<rparr>,
              am_heap := h\<rparr>))))"

definition nr_rlc_entity_am_reestablishment :: "nr_rlc_entity_am \<Rightarrow> nr_rlc_entity_am res" where
  "nr_rlc_entity_am_reestablishment e = am_clear_entity e"

definition nr_rlc_entity_am_delete :: "nr_rlc_entity_am \<Rightarrow> rlc_heap res" where
  "nr_rlc_entity_am_delete e = bindr (am_clear_entity e) (\<lambda>e. Inr (am_heap e))"

definition nr_rlc_entity_am_available_tx_space :: "nr_rlc_entity_am \<Rightarrow> int" where
  "nr_rlc_entity_am_available_tx_space e = am_tx_maxsize e - am_tx_size e"

definition nr_rlc_entity_am_tx_list_occupancy :: "nr_rlc_entity_am \<Rightarrow> int" where
  "nr_rlc_entity_am_tx_list_occupancy e = am_tx_size e"

end
