(* ===== verification/Nr_Rlc_Am_Control.thy ===== *)
theory Nr_Rlc_Am_Control
  imports Nr_Rlc_Am_Tx
begin

text \<open>
  Model of \<open>process_control_pdu\<close> of \<open>openair2/LAYER2/nr_rlc/nr_rlc_entity_am.c\<close>, the processing of
  a received STATUS PDU, and of \<open>recv_pdu\<close>.

  The code reads the PDU twice, first to validate it and then to process it. Both passes read the
  same fields from the same buffer, so the model keeps the acknowledgement and the negative
  acknowledgements of the first pass and processes these.
\<close>

section \<open>Validation\<close>

text \<open>
  A block of negative acknowledgements: \<open>range\<close> sequence numbers from \<open>nack_sn\<close> on. \<open>so_end\<close> is
  \<open>-1\<close> for the special value \<open>0xffff\<close>.
\<close>

record nack =
  nk_sn :: int
  nk_so_start :: int
  nk_so_end :: int
  nk_range :: int

definition read_nack ::
  "nr_rlc_entity_am \<Rightarrow> nr_rlc_pdu_decoder \<Rightarrow> 'a res \<Rightarrow>
   (nack \<Rightarrow> bool \<Rightarrow> nr_rlc_pdu_decoder \<Rightarrow> 'a res) \<Rightarrow> 'a res" where
  "read_nack e d err k =
     read_field d (nat (am_sn_field_length e)) err (\<lambda>nack_sn d.
     read_field d 1 err (\<lambda>e1 d.
     read_field d 1 err (\<lambda>e2 d.
     read_field d 1 err (\<lambda>e3 d.
     read_field d (if am_sn_field_length e = 18 then 3 else 1) err (\<lambda>_ d.
       let with_so = (\<lambda>so_start so_end d.
             let so_end = (if so_end = 0xffff then - 1 else so_end);
                 with_range = (\<lambda>range d.
                   k \<lparr>nk_sn = nack_sn, nk_so_start = so_start, nk_so_end = so_end,
                      nk_range = range\<rparr> (e1 \<noteq> 0) d)
             in if e3 \<noteq> 0 then read_field d 8 err with_range else with_range 1 d)
       in if e2 \<noteq> 0
          then read_field d 16 err (\<lambda>so_start d.
               read_field d 16 err (\<lambda>so_end d. with_so so_start so_end d))
          else with_so 0 0xffff d)))))"

text \<open>The loop \<open>for (i = 0; i < range; i++)\<close>: \<open>cur_nack_sn\<close>, \<open>cur_so_start\<close>, \<open>cur_so_end\<close>.\<close>

type_synonym cur_nack = "int \<times> int \<times> int"

definition expand_nack :: "nr_rlc_entity_am \<Rightarrow> nack \<Rightarrow> cur_nack list" where
  "expand_nack e n =
     map (\<lambda>i. (crem (nk_sn n + i) (am_sn_modulus e),
               if i = 0 then nk_so_start n else 0,
               if i = nk_range n - 1 then nk_so_end n else - 1)) [0 .. nk_range n - 1]"

text \<open>
  The checks of one sequence number in the validation loop, with the values of \<open>prev_nack_sn\<close> and
  \<open>prev_so_end\<close>.
\<close>

definition bad_nack :: "nr_rlc_entity_am \<Rightarrow> int \<Rightarrow> int \<Rightarrow> int \<Rightarrow> cur_nack \<Rightarrow> bool" where
  "bad_nack e ack_sn prev_nack_sn prev_so_end n =
     (case n of (cur_nack_sn, cur_so_start, cur_so_end) \<Rightarrow>
        let cmp = am_sn_compare_tx e cur_nack_sn prev_nack_sn
        in (prev_nack_sn \<noteq> - 1 \<and>
            (cmp < 0 \<or> (cmp = 0 \<and> (prev_so_end = - 1 \<or> cur_so_start \<le> prev_so_end)))) \<or>
           am_sn_compare_tx e cur_nack_sn ack_sn > 0)"

text \<open>
  The loop \<open>while (e1)\<close> of the validation: the blocks, or \<open>None\<close> when the PDU is discarded. The
  loop sets neither \<open>prev_nack_sn\<close> nor \<open>prev_so_end\<close>, which keep their first values. Each turn reads
  at least 16 bits, so the size of the PDU bounds the number of turns.
\<close>

fun validate_nacks ::
  "nat \<Rightarrow> nr_rlc_entity_am \<Rightarrow> int \<Rightarrow> int \<Rightarrow> int \<Rightarrow> bool \<Rightarrow> nr_rlc_pdu_decoder \<Rightarrow>
   nack list option res" where
  "validate_nacks 0 e ack_sn prev_nack_sn prev_so_end e1 d = Inl Endless_loop"
| "validate_nacks (Suc fuel) e ack_sn prev_nack_sn prev_so_end e1 d =
     (if e1
      then read_nack e d (Inr None) (\<lambda>n e1 d.
             if list_ex (bad_nack e ack_sn prev_nack_sn prev_so_end) (expand_nack e n)
             then Inr None
             else bindr (validate_nacks fuel e ack_sn prev_nack_sn prev_so_end e1 d)
                    (\<lambda>ns. Inr (map_option ((#) n) ns)))
      else Inr (Some []))"

definition validate_control_pdu ::
  "nr_rlc_entity_am \<Rightarrow> byte list \<Rightarrow> (int \<times> nack list) option res" where
  "validate_control_pdu e buffer =
     (let err = Inr None
      in read_field (nr_rlc_pdu_decoder_init buffer) 1 err (\<lambda>dc d.
         read_field d 3 err (\<lambda>cpt d.
         if cpt \<noteq> 0 then err
         else
         read_field d (nat (am_sn_field_length e)) err (\<lambda>ack_sn d.
         read_field d 1 err (\<lambda>e1 d.
         read_field d (if am_sn_field_length e = 18 then 1 else 7) err (\<lambda>_ d.
           if am_sn_compare_tx e ack_sn (am_tx_next e) > 0 then err
           else bindr (validate_nacks (Suc (length buffer)) e ack_sn (- 1) 0 (e1 \<noteq> 0) d)
                  (\<lambda>ns. Inr (map_option (Pair ack_sn) ns))))))))"

section \<open>Processing\<close>

definition so_overlap :: "int \<Rightarrow> int \<Rightarrow> int \<Rightarrow> int \<Rightarrow> bool" where
  "so_overlap s1 e1 s2 e2 =
     (if s1 < s2 then e1 = - 1 \<or> e1 \<ge> s2 else e2 = - 1 \<or> s1 \<le> e2)"

text \<open>
  The local state of the second pass.

    \<^item> \<open>ct_wdone\<close> is the wait list from \<open>head_wait_list.next\<close> to \<open>prev_wait_list\<close> (which is
      \<open>&head_wait_list\<close> when it is empty), \<open>ct_wcur\<close> the wait list from \<open>cur_wait_list\<close> on, and
      \<open>ct_wtail\<close> what follows \<open>prev_wait_list\<close> once \<open>cur_wait_list\<close> has been set to \<open>NULL\<close>.
    \<^item> \<open>ct_end\<close> is \<open>end_wait_list\<close>: \<open>None\<close> for \<open>NULL\<close>, \<open>Some None\<close> for \<open>&head_wait_list\<close>.
    \<^item> \<open>ct_rnew\<close> is the list from \<open>head_retransmit_list.next\<close> to \<open>new_retransmit_list\<close>, \<open>ct_rcur\<close>
      the list from \<open>cur_retransmit_list\<close> on.
\<close>

record control_state =
  ct_entity :: nr_rlc_entity_am
  ct_wdone :: segs
  ct_wcur :: segs
  ct_wtail :: segs
  ct_end :: "nat option option"
  ct_rnew :: segs
  ct_rcur :: segs

datatype control_next = Process_next_pdu | Done_nack | Lists_over

definition ct_prev :: "control_state \<Rightarrow> nat option" where
  "ct_prev c = (if ct_wdone c = [] then None else Some (seg_addr (last (ct_wdone c))))"

text \<open>The removal of the head of the wait list.\<close>

definition ct_unlink_wait :: "control_state \<Rightarrow> control_state" where
  "ct_unlink_wait c =
     c\<lparr>ct_wcur := tl (ct_wcur c),
       ct_end := (if am_wait_end (ct_entity c) = Some (seg_addr (hd (ct_wcur c)))
                  then Some (ct_prev c) else ct_end c)\<rparr>"

text \<open>A segment that is positively acknowledged; its SDU may now be delivered as a whole.\<close>

definition free_acked :: "nr_rlc_entity_am \<Rightarrow> nr_rlc_sdu_segment \<Rightarrow> nr_rlc_entity_am res" where
  "free_acked e cur =
     bindr (deref (am_heap e) cur) (\<lambda>s.
     bindr (nr_rlc_free_sdu_segment (am_heap e) cur) (\<lambda>(freed, h).
       let e = e\<lparr>am_heap := h\<rparr>
       in Inr (if freed
               then e\<lparr>am_tx_size := am_tx_size e - sdu_size s,
                      am_common := upcall (Sdu_successful_delivery (sdu_upper_layer_id s))
                        (upd_stats (stat_txsdu_bytes (sdu_size s)) (am_common e))\<rparr>
               else e)))"

definition ack_wait_head :: "control_state \<Rightarrow> nr_rlc_sdu_segment \<Rightarrow> control_state res" where
  "ack_wait_head c cur =
     bindr (free_acked (ct_entity c) cur) (\<lambda>e. Inr ((ct_unlink_wait c)\<lparr>ct_entity := e\<rparr>))"

definition ack_retransmit_head ::
  "control_state \<Rightarrow> nr_rlc_sdu_segment \<Rightarrow> segs \<Rightarrow> control_state res" where
  "ack_retransmit_head c cur rest =
     (let e = ct_entity c;
          e = e\<lparr>am_common := add_retx_size (- (am_compute_pdu_header_size e cur + seg_size cur))
                               (am_common e)\<rparr>
      in bindr (free_acked e cur) (\<lambda>e. Inr (c\<lparr>ct_entity := e, ct_rcur := rest\<rparr>)))"

text \<open>The move of the head of the wait list to the new retransmit list.\<close>

definition nack_wait_head ::
  "control_state \<Rightarrow> nr_rlc_sdu_segment \<Rightarrow> nr_rlc_sdu \<Rightarrow> control_state" where
  "nack_wait_head c cur s =
     (let c = (ct_unlink_wait c)\<lparr>ct_rnew := ct_rnew c @ [cur]\<rparr>;
          e = ct_entity c;
          s = s\<lparr>sdu_retx_count := sdu_retx_count s + 1\<rparr>;
          e = e\<lparr>am_heap := store (am_heap e) cur s\<rparr>;
          e = (if sdu_retx_count s \<ge> am_max_retx_threshold e * sdu_ref_count s
               then e\<lparr>am_common := upcall Max_retx_reached (am_common e)\<rparr> else e)
      in c\<lparr>ct_entity := e\<lparr>am_common :=
             add_retx_size (am_compute_pdu_header_size e cur + seg_size cur) (am_common e)\<rparr>\<rparr>)"

text \<open>The label \<open>process_wait_list_head\<close>.\<close>

definition process_wait_list_head ::
  "int \<Rightarrow> cur_nack \<Rightarrow> control_state \<Rightarrow> nr_rlc_sdu_segment \<Rightarrow> segs \<Rightarrow>
   (control_state \<times> control_next) res" where
  "process_wait_list_head ack_sn n c cur rest =
     (case n of (cur_nack_sn, cur_so_start, cur_so_end) \<Rightarrow>
      let e = ct_entity c
      in bindr (deref (am_heap e) cur) (\<lambda>s.
           let cmp = am_sn_compare_tx e (sdu_sn s) cur_nack_sn
           in if sdu_sn s = cur_nack_sn \<and>
                 so_overlap cur_so_start cur_so_end (seg_so cur) (seg_so cur + seg_size cur - 1)
              then Inr (nack_wait_head c cur s, Process_next_pdu)
              else if cmp > 0 \<or> (cmp = 0 \<and> seg_so cur > cur_so_start) then Inr (c, Done_nack)
              else if am_sn_compare_tx e (sdu_sn s) ack_sn < 0
              then bindr (ack_wait_head c cur) (\<lambda>c. Inr (c, Process_next_pdu))
              else if am_sn_compare_tx e (sdu_sn s) ack_sn > 0
              then Inr (c\<lparr>ct_wcur := [], ct_wtail := ct_wcur c\<rparr>, Process_next_pdu)
              else Inr (c\<lparr>ct_wdone := ct_wdone c @ [cur], ct_wcur := rest\<rparr>, Process_next_pdu)))"

text \<open>
  The label \<open>process_retransmit_list_head\<close>. In the branch for an empty wait list the rest of the
  list is linked behind \<open>new_retransmit_list\<close>, which does not move; the assignment
  \<open>new_retransmit_list->next = cur_retransmit_list\<close> at the end of the function, with the \<open>NULL\<close> set
  here, unlinks it again.
\<close>

definition process_retransmit_list_head ::
  "int \<Rightarrow> cur_nack \<Rightarrow> control_state \<Rightarrow> nr_rlc_sdu_segment \<Rightarrow> segs \<Rightarrow>
   (control_state \<times> control_next) res" where
  "process_retransmit_list_head ack_sn n c cur rest =
     (case n of (cur_nack_sn, cur_so_start, cur_so_end) \<Rightarrow>
      let e = ct_entity c;
          keep = c\<lparr>ct_rnew := ct_rnew c @ [cur], ct_rcur := rest\<rparr>
      in bindr (deref (am_heap e) cur) (\<lambda>s.
           let cmp = am_sn_compare_tx e (sdu_sn s) cur_nack_sn
           in if sdu_sn s = cur_nack_sn \<and>
                 so_overlap cur_so_start cur_so_end (seg_so cur) (seg_so cur + seg_size cur - 1)
              then Inr (keep, Process_next_pdu)
              else if cmp > 0 \<or> (cmp = 0 \<and> seg_so cur > cur_so_start) then Inr (c, Done_nack)
              else if am_sn_compare_tx e (sdu_sn s) ack_sn < 0
              then bindr (ack_retransmit_head c cur rest) (\<lambda>c. Inr (c, Process_next_pdu))
              else if ct_wcur c = [] then Inr (c\<lparr>ct_rcur := []\<rparr>, Lists_over)
              else Inr (keep, Process_next_pdu)))"

text \<open>The label \<open>process_next_pdu\<close>: one turn.\<close>

definition process_next_pdu ::
  "int \<Rightarrow> cur_nack \<Rightarrow> control_state \<Rightarrow> (control_state \<times> control_next) res" where
  "process_next_pdu ack_sn n c =
     (case (ct_wcur c, ct_rcur c) of
        ([], []) \<Rightarrow> Inr (c, Lists_over)
      | ([], r # rs) \<Rightarrow> process_retransmit_list_head ack_sn n c r rs
      | (w # ws, []) \<Rightarrow> process_wait_list_head ack_sn n c w ws
      | (w # ws, r # rs) \<Rightarrow>
          bindr (deref (am_heap (ct_entity c)) w) (\<lambda>sw.
          bindr (deref (am_heap (ct_entity c)) r) (\<lambda>sr.
            let cmp = am_sn_compare_tx (ct_entity c) (sdu_sn sw) (sdu_sn sr)
            in if cmp < 0 \<or> (cmp = 0 \<and> seg_so w < seg_so r)
               then process_wait_list_head ack_sn n c w ws
               else process_retransmit_list_head ack_sn n c r rs)))"

definition ct_measure :: "control_state \<Rightarrow> nat" where
  "ct_measure c = length (ct_wcur c) + length (ct_rcur c)"

lemma process_wait_list_head_measure:
  "process_wait_list_head ack_sn n c w ws = Inr (c', Process_next_pdu) \<Longrightarrow>
   ct_wcur c = w # ws \<Longrightarrow> ct_measure c' < ct_measure c"
  by (auto simp: process_wait_list_head_def Let_def nack_wait_head_def ct_unlink_wait_def
      ack_wait_head_def ct_measure_def split: prod.splits if_splits)

lemma process_retransmit_list_head_measure:
  "process_retransmit_list_head ack_sn n c r rs = Inr (c', Process_next_pdu) \<Longrightarrow>
   ct_rcur c = r # rs \<Longrightarrow> ct_measure c' < ct_measure c"
  by (auto simp: process_retransmit_list_head_def Let_def ack_retransmit_head_def ct_measure_def
      split: prod.splits if_splits)

lemma process_next_pdu_measure:
  "process_next_pdu ack_sn n c = Inr (c', Process_next_pdu) \<Longrightarrow> ct_measure c' < ct_measure c"
  by (auto simp: process_next_pdu_def Let_def split: list.splits if_splits
      elim: process_wait_list_head_measure process_retransmit_list_head_measure)

text \<open>All turns for one sequence number. The result tells whether both lists are over.\<close>

function process_nack :: "int \<Rightarrow> cur_nack \<Rightarrow> control_state \<Rightarrow> (control_state \<times> bool) res" where
  "process_nack ack_sn n c =
     bindr (process_next_pdu ack_sn n c) (\<lambda>(c', nxt).
       case nxt of
         Process_next_pdu \<Rightarrow> process_nack ack_sn n c'
       | Done_nack \<Rightarrow> Inr (c', False)
       | Lists_over \<Rightarrow> Inr (c', True))"
  by pat_completeness auto
termination
  by (relation "measure (\<lambda>(_, _, c). ct_measure c)") (auto intro: process_next_pdu_measure)

declare process_nack.simps [simp del]

fun process_cur_nacks :: "int \<Rightarrow> cur_nack list \<Rightarrow> control_state \<Rightarrow> control_state res" where
  "process_cur_nacks ack_sn [] c = Inr c"
| "process_cur_nacks ack_sn (n # ns) c =
     bindr (process_nack ack_sn n c) (\<lambda>(c, lists_over).
       if lists_over then Inr c else process_cur_nacks ack_sn ns c)"

text \<open>The label \<open>lists_over\<close>.\<close>

definition stop_poll_timer :: "nack \<Rightarrow> control_state \<Rightarrow> control_state" where
  "stop_poll_timer n c =
     (let e = ct_entity c
      in if am_sn_compare_tx e (nk_sn n) (am_poll_sn e) \<le> 0 \<and>
            am_sn_compare_tx e (am_poll_sn e) (crem (nk_sn n + nk_range n) (am_sn_modulus e)) < 0
         then c\<lparr>ct_entity := e\<lparr>am_t_poll_retransmit_start := 0\<rparr>\<rparr> else c)"

fun process_nacks :: "int \<Rightarrow> nack list \<Rightarrow> control_state \<Rightarrow> control_state res" where
  "process_nacks ack_sn [] c = Inr c"
| "process_nacks ack_sn (n # ns) c =
     bindr (process_cur_nacks ack_sn (expand_nack (ct_entity c) n) c) (\<lambda>c.
       process_nacks ack_sn ns (stop_poll_timer n c))"

text \<open>The two loops that finish with the acknowledgement.\<close>

function ack_wait_list :: "int \<Rightarrow> control_state \<Rightarrow> control_state res" where
  "ack_wait_list ack_sn c =
     (case ct_wcur c of
        [] \<Rightarrow> Inr c
      | cur # rest \<Rightarrow>
          bindr (deref (am_heap (ct_entity c)) cur) (\<lambda>s.
            if am_sn_compare_tx (ct_entity c) (sdu_sn s) ack_sn < 0
            then bindr (ack_wait_head c cur) (ack_wait_list ack_sn) else Inr c))"
  by pat_completeness auto
termination
  by (relation "measure (\<lambda>(_, c). length (ct_wcur c))")
    (auto simp: ack_wait_head_def ct_unlink_wait_def)

function ack_retransmit_list :: "int \<Rightarrow> control_state \<Rightarrow> control_state res" where
  "ack_retransmit_list ack_sn c =
     (case ct_rcur c of
        [] \<Rightarrow> Inr c
      | cur # rest \<Rightarrow>
          bindr (deref (am_heap (ct_entity c)) cur) (\<lambda>s.
            if am_sn_compare_tx (ct_entity c) (sdu_sn s) ack_sn < 0
            then bindr (ack_retransmit_head c cur rest) (ack_retransmit_list ack_sn) else Inr c))"
  by pat_completeness auto
termination
  by (relation "measure (\<lambda>(_, c). length (ct_rcur c))") (auto simp: ack_retransmit_head_def Let_def)

declare ack_wait_list.simps [simp del] ack_retransmit_list.simps [simp del]

text \<open>The test \<open>sn_compare_tx(list->sdu->sn, tx_next_ack) < 0\<close> for the head of a list.\<close>

definition lower_to_head :: "nr_rlc_entity_am \<Rightarrow> segs \<Rightarrow> int \<Rightarrow> int res" where
  "lower_to_head e l tx_next_ack =
     (case l of
        [] \<Rightarrow> Inr tx_next_ack
      | x # _ \<Rightarrow> bindr (deref (am_heap e) x) (\<lambda>s.
          Inr (if am_sn_compare_tx e (sdu_sn s) tx_next_ack < 0 then sdu_sn s else tx_next_ack)))"

definition update_tx_next_ack :: "nr_rlc_entity_am \<Rightarrow> int \<Rightarrow> nr_rlc_entity_am res" where
  "update_tx_next_ack e ack_sn =
     bindr (lower_to_head e (am_wait_list e) (am_tx_next e)) (\<lambda>t.
     bindr (lower_to_head e (am_retransmit_list e) t) (\<lambda>t.
       Inr (e\<lparr>am_tx_next_ack := (if am_sn_compare_tx e ack_sn t < 0 then ack_sn else t)\<rparr>)))"

definition control_start :: "nr_rlc_entity_am \<Rightarrow> int \<Rightarrow> control_state" where
  "control_start e ack_sn =
     \<lparr>ct_entity = (if am_sn_compare_tx e (am_poll_sn e) ack_sn < 0
                   then e\<lparr>am_t_poll_retransmit_start := 0\<rparr> else e),
      ct_wdone = [], ct_wcur = am_wait_list e, ct_wtail = [], ct_end = None,
      ct_rnew = [], ct_rcur = am_retransmit_list e\<rparr>"

definition control_finish :: "control_state \<Rightarrow> nr_rlc_entity_am" where
  "control_finish c =
     (let e = ct_entity c
      in e\<lparr>am_wait_list := ct_wdone c @ ct_wcur c @ ct_wtail c,
           am_retransmit_list := ct_rnew c @ ct_rcur c,
           am_wait_end := (case ct_end c of None \<Rightarrow> am_wait_end e | Some p \<Rightarrow> p)\<rparr>)"

definition process_control_pdu :: "nr_rlc_entity_am \<Rightarrow> byte list \<Rightarrow> nr_rlc_entity_am res" where
  "process_control_pdu e buffer =
     bindr (validate_control_pdu e buffer) (\<lambda>r.
       case r of
         None \<Rightarrow> Inr e
       | Some (ack_sn, nacks) \<Rightarrow>
           bindr (process_nacks ack_sn nacks (control_start e ack_sn)) (\<lambda>c.
           bindr (ack_wait_list ack_sn c) (\<lambda>c.
           bindr (ack_retransmit_list ack_sn c) (\<lambda>c.
             update_tx_next_ack (control_finish c) ack_sn))))"

definition nr_rlc_entity_am_recv_pdu ::
  "nr_rlc_entity_am \<Rightarrow> byte list \<Rightarrow> nr_rlc_entity_am res" where
  "nr_rlc_entity_am_recv_pdu e buffer =
     (let size = int (length buffer);
          e = e\<lparr>am_common := upd_stats (stat_rxpdu size) (am_common e)\<rparr>
      in read_field (nr_rlc_pdu_decoder_init buffer) 1 (Inr (am_discard_pdu e False size))
           (\<lambda>dc d. if dc = 0 then process_control_pdu e buffer else am_recv_data_pdu e buffer d))"

end
