(* ===== verification/Nr_Asn1.thy ===== *)
theory Nr_Asn1
  imports Nr_Prelude
begin

text \<open>
  Configuration values: the RRC messages carry an index into a table of values
  (\<open>asn1_utils.c\<close> of PDCP and of RLC, which expand the same macro).
\<close>

definition decode_value :: "int list \<Rightarrow> int \<Rightarrow> int res" where
  "decode_value tab v = (if v \<ge> 0 \<and> v < int (length tab) then Inr (tab ! nat v) else Inl Assert_failed)"

fun encode_from :: "int \<Rightarrow> int list \<Rightarrow> int \<Rightarrow> int res" where
  "encode_from i [] v = Inl Assert_failed"
| "encode_from i (x # tab) v = (if x = v then Inr i else encode_from (i + 1) tab v)"

definition encode_value :: "int list \<Rightarrow> int \<Rightarrow> int res" where
  "encode_value tab v = encode_from 0 tab v"

section \<open>Encoding and decoding are inverse\<close>

lemma encode_from_nth: "distinct tab \<Longrightarrow> i < length tab \<Longrightarrow> encode_from k tab (tab ! i) = Inr (k + int i)"
  by (induction tab arbitrary: i k) (auto simp: nth_Cons split: nat.splits)

lemma encode_from_value: "encode_from k tab v = Inr j \<Longrightarrow> k \<le> j \<and> nat (j - k) < length tab \<and> tab ! nat (j - k) = v"
proof (induction tab arbitrary: k)
  case (Cons x tab)
  show ?case
  proof (cases "x = v")
    case False
    then have "k + 1 \<le> j" "nat (j - (k + 1)) < length tab" "tab ! nat (j - (k + 1)) = v" using Cons by auto
    moreover from this have "nat (j - k) = Suc (nat (j - (k + 1)))" by simp
    ultimately show ?thesis by simp
  qed (use Cons.prems in simp)
qed simp

lemma encode_decode: "distinct tab \<Longrightarrow> decode_value tab v = Inr x \<Longrightarrow> encode_value tab x = Inr v"
  using encode_from_nth [of tab "nat v" 0] by (auto simp: decode_value_def encode_value_def split: if_splits)

lemma decode_encode: "encode_value tab x = Inr v \<Longrightarrow> decode_value tab v = Inr x"
  using encode_from_value [of 0 tab x v] by (auto simp: decode_value_def encode_value_def)

end
