(* ===== verification/Nr_Rlc_Ue.thy ===== *)
theory Nr_Rlc_Ue
  imports Nr_Rlc_Tm Nr_Rlc_Um Nr_Rlc_Am_Control Nr_Asn1
begin

text \<open>
  The RLC layer above the single entity: the table of UEs (\<open>nr_rlc_ue_manager.c\<close>), the mapping of logical
  channels to bearers and the interface to MAC, PDCP and RRC (\<open>nr_rlc_oai_api.c\<close>, \<open>nr_rlc_configuration.h\<close>).

  An entity is one of the three kinds, and the function pointers of \<open>nr_rlc_entity_t\<close> are the functions
  \<open>ent_*\<close>. The code runs each interface function under one lock, so that each is one step on the table.
  The calls that an operation makes upwards are in the entity (\<open>c_upcalls\<close>); the callbacks of this file
  are applied to the new ones, in their order, after the operation, which makes no difference because they
  do not touch the entity. What they send to other layers is in the result. The counter
  \<open>nr_rlc_current_time\<close>, the clock of the time average and the F1 identifiers of the UEs (\<open>f1ap_ids.c\<close>) are
  arguments.
\<close>

section \<open>Entities\<close>

datatype nr_rlc_entity_t =
    Tm_entity nr_rlc_entity_tm
  | Um_entity nr_rlc_entity_um
  | Am_entity nr_rlc_entity_am

fun ent_common :: "nr_rlc_entity_t \<Rightarrow> nr_rlc_entity" where
  "ent_common (Tm_entity e) = tm_common e"
| "ent_common (Um_entity e) = um_common e"
| "ent_common (Am_entity e) = am_common e"

fun ent_set_time :: "nr_rlc_entity_t \<Rightarrow> u64 \<Rightarrow> nr_rlc_entity_t res" where
  "ent_set_time (Tm_entity e) now = Inr (Tm_entity (nr_rlc_entity_tm_set_time e now))"
| "ent_set_time (Um_entity e) now = bindr (nr_rlc_entity_um_set_time e now) (\<lambda>e. Inr (Um_entity e))"
| "ent_set_time (Am_entity e) now = bindr (nr_rlc_entity_am_set_time e now) (\<lambda>e. Inr (Am_entity e))"

fun ent_recv_pdu :: "nr_rlc_entity_t \<Rightarrow> byte list \<Rightarrow> nr_rlc_entity_t res" where
  "ent_recv_pdu (Tm_entity e) buf = Inr (Tm_entity (nr_rlc_entity_tm_recv_pdu e buf))"
| "ent_recv_pdu (Um_entity e) buf = bindr (nr_rlc_entity_um_recv_pdu e buf) (\<lambda>e. Inr (Um_entity e))"
| "ent_recv_pdu (Am_entity e) buf = bindr (nr_rlc_entity_am_recv_pdu e buf) (\<lambda>e. Inr (Am_entity e))"

fun ent_recv_sdu :: "u64 \<Rightarrow> nr_rlc_entity_t \<Rightarrow> byte list \<Rightarrow> int \<Rightarrow> nr_rlc_entity_t res" where
  "ent_recv_sdu clk (Tm_entity e) buf i = bindr (nr_rlc_entity_tm_recv_sdu clk e buf i) (\<lambda>e. Inr (Tm_entity e))"
| "ent_recv_sdu clk (Um_entity e) buf i = bindr (nr_rlc_entity_um_recv_sdu clk e buf i) (\<lambda>e. Inr (Um_entity e))"
| "ent_recv_sdu clk (Am_entity e) buf i = bindr (nr_rlc_entity_am_recv_sdu clk e buf i) (\<lambda>e. Inr (Am_entity e))"

fun ent_generate_pdu :: "u64 \<Rightarrow> nr_rlc_entity_t \<Rightarrow> byte list \<Rightarrow> (int \<times> byte list \<times> nr_rlc_entity_t) res" where
  "ent_generate_pdu clk (Tm_entity e) buf = bindr (nr_rlc_entity_tm_generate_pdu clk e buf) (\<lambda>(r, b, e). Inr (r, b, Tm_entity e))"
| "ent_generate_pdu clk (Um_entity e) buf = bindr (nr_rlc_entity_um_generate_pdu clk e buf) (\<lambda>(r, b, e). Inr (r, b, Um_entity e))"
| "ent_generate_pdu clk (Am_entity e) buf = bindr (nr_rlc_entity_am_generate_pdu clk e buf) (\<lambda>(r, b, e). Inr (r, b, Am_entity e))"

fun ent_buffer_status :: "nr_rlc_entity_t \<Rightarrow> int \<Rightarrow> nr_rlc_entity_buffer_status res" where
  "ent_buffer_status (Tm_entity e) maxsize = Inr (nr_rlc_entity_tm_buffer_status e maxsize)"
| "ent_buffer_status (Um_entity e) maxsize = Inr (nr_rlc_entity_um_buffer_status e maxsize)"
| "ent_buffer_status (Am_entity e) maxsize = nr_rlc_entity_am_buffer_status e maxsize"

fun ent_reestablishment :: "nr_rlc_entity_t \<Rightarrow> nr_rlc_entity_t res" where
  "ent_reestablishment (Tm_entity e) = bindr (nr_rlc_entity_tm_reestablishment e) (\<lambda>e. Inr (Tm_entity e))"
| "ent_reestablishment (Um_entity e) = bindr (nr_rlc_entity_um_reestablishment e) (\<lambda>e. Inr (Um_entity e))"
| "ent_reestablishment (Am_entity e) = bindr (nr_rlc_entity_am_reestablishment e) (\<lambda>e. Inr (Am_entity e))"

text \<open>Deletion; what is left in the store of the entity.\<close>

fun ent_delete :: "nr_rlc_entity_t \<Rightarrow> rlc_heap res" where
  "ent_delete (Tm_entity e) = nr_rlc_entity_tm_delete e"
| "ent_delete (Um_entity e) = nr_rlc_entity_um_delete e"
| "ent_delete (Am_entity e) = nr_rlc_entity_am_delete e"

fun ent_available_tx_space :: "nr_rlc_entity_t \<Rightarrow> int" where
  "ent_available_tx_space (Tm_entity e) = nr_rlc_entity_tm_available_tx_space e"
| "ent_available_tx_space (Um_entity e) = nr_rlc_entity_um_available_tx_space e"
| "ent_available_tx_space (Am_entity e) = nr_rlc_entity_am_available_tx_space e"

fun ent_tx_list_occupancy :: "nr_rlc_entity_t \<Rightarrow> int" where
  "ent_tx_list_occupancy (Tm_entity e) = nr_rlc_entity_tm_tx_list_occupancy e"
| "ent_tx_list_occupancy (Um_entity e) = nr_rlc_entity_um_tx_list_occupancy e"
| "ent_tx_list_occupancy (Am_entity e) = nr_rlc_entity_am_tx_list_occupancy e"

fun ent_with_common :: "nr_rlc_entity_t \<Rightarrow> nr_rlc_entity \<Rightarrow> nr_rlc_entity_t" where
  "ent_with_common (Tm_entity e) c = Tm_entity (e\<lparr>tm_common := c\<rparr>)"
| "ent_with_common (Um_entity e) c = Um_entity (e\<lparr>um_common := c\<rparr>)"
| "ent_with_common (Am_entity e) c = Am_entity (e\<lparr>am_common := c\<rparr>)"

text \<open>The SDU at the head of the line, and the snapshot of the statistics.\<close>

fun ent_head_of_line :: "nr_rlc_entity_t \<Rightarrow> rlc_heap \<times> segs" where
  "ent_head_of_line (Tm_entity e) = (tm_heap e, tm_tx_list e)"
| "ent_head_of_line (Um_entity e) = (um_heap e, um_tx_list e)"
| "ent_head_of_line (Am_entity e) = (am_heap e, if am_retransmit_list e \<noteq> [] then am_retransmit_list e else am_tx_list e)"

definition nr_rlc_entity_get_stats ::
  "u64 \<Rightarrow> nr_rlc_entity_t \<Rightarrow> (nr_rlc_statistics \<times> (u64 \<times> nat) option \<times> nr_rlc_entity_t) res" where
  "nr_rlc_entity_get_stats time_now e =
     bindr (case ent_head_of_line e of
              (h, []) \<Rightarrow> Inr 0
            | (h, sdu # _) \<Rightarrow> bindr (deref h sdu) (\<lambda>s. Inr (ucast (time_now - sdu_time_of_arrival s)))) (\<lambda>wt.
       let c = ent_common e; out = (c_stats c)\<lparr>st_txsdu_wt_us := wt\<rparr>
       in if c_avg_time_is_on c
          then case time_average_get_average (c_txsdu_avg_time_to_tx c) time_now of
                 (avg, t) \<Rightarrow> Inr (out, avg, ent_with_common e (c\<lparr>c_txsdu_avg_time_to_tx := t\<rparr>))
          else Inr (out, None, e))"

section \<open>Table of UEs\<close>

datatype nr_lcid_rb_t = NR_LCID_NONE | NR_LCID_SRB int | NR_LCID_DRB int

datatype nr_rlc_op_mode_t = NR_RLC_OP_MODE_SPLIT_GNB | NR_RLC_OP_MODE_MONO_GNB | NR_RLC_OP_MODE_UE

record nr_rlc_ue_t =
  ru_ue_id :: int
  ru_srb0 :: "nr_rlc_entity_t option"
  ru_srb0_ue_id :: int                         \<comment> \<open>\<open>ue_id\<close> in the \<open>struct srb0_data\<close> of SRB 0\<close>
  ru_srb :: "nr_rlc_entity_t option list"      \<comment> \<open>\<open>srb[3]\<close>\<close>
  ru_drb :: "nr_rlc_entity_t option list"      \<comment> \<open>\<open>drb[MAX_DRBS_PER_UE]\<close>\<close>
  ru_lcid2rb :: "nr_lcid_rb_t list"            \<comment> \<open>\<open>lcid2rb[32]\<close>\<close>
  ru_rlf_handler :: bool

record nr_rlc_ue_manager_t =
  rum_list :: "nr_rlc_ue_t list"
  rum_mode :: nr_rlc_op_mode_t

definition new_nr_rlc_ue_manager :: "nr_rlc_op_mode_t \<Rightarrow> nr_rlc_ue_manager_t" where
  "new_nr_rlc_ue_manager mode = \<lparr>rum_list = [], rum_mode = mode\<rparr>"

definition nr_rlc_manager_rlc_is_split :: "nr_rlc_op_mode_t \<Rightarrow> bool" where
  "nr_rlc_manager_rlc_is_split mode \<longleftrightarrow> mode = NR_RLC_OP_MODE_SPLIT_GNB"

definition nr_rlc_manager_get_gnb_flag :: "nr_rlc_op_mode_t \<Rightarrow> bool" where
  "nr_rlc_manager_get_gnb_flag mode \<longleftrightarrow> mode \<noteq> NR_RLC_OP_MODE_UE"

definition new_rlc_ue :: "int \<Rightarrow> nr_rlc_ue_t" where
  "new_rlc_ue ue_id =
     \<lparr>ru_ue_id = ue_id, ru_srb0 = None, ru_srb0_ue_id = 0, ru_srb = replicate 3 None, ru_drb = replicate 32 None,
      ru_lcid2rb = replicate 32 NR_LCID_NONE, ru_rlf_handler = False\<rparr>"

fun rlc_ue_index :: "nr_rlc_ue_t list \<Rightarrow> int \<Rightarrow> nat option" where
  "rlc_ue_index [] ue_id = None"
| "rlc_ue_index (u # l) ue_id = (if ru_ue_id u = ue_id then Some 0 else map_option Suc (rlc_ue_index l ue_id))"

text \<open>The position of the UE, which is created when it is not there yet.\<close>

definition nr_rlc_manager_get_ue :: "nr_rlc_ue_manager_t \<Rightarrow> int \<Rightarrow> nat \<times> nr_rlc_ue_manager_t" where
  "nr_rlc_manager_get_ue m ue_id =
     (case rlc_ue_index (rum_list m) ue_id of
        Some i \<Rightarrow> (i, m)
      | None \<Rightarrow> (length (rum_list m), m\<lparr>rum_list := rum_list m @ [new_rlc_ue ue_id]\<rparr>))"

fun delete_rbs :: "nr_rlc_entity_t option list \<Rightarrow> rlc_heap list res" where
  "delete_rbs [] = Inr []"
| "delete_rbs (None # l) = delete_rbs l"
| "delete_rbs (Some e # l) = bindr (ent_delete e) (\<lambda>h. bindr (delete_rbs l) (\<lambda>hs. Inr (h # hs)))"

text \<open>Removal of a UE, with the stores of the deleted entities.\<close>

definition nr_rlc_manager_remove_ue :: "nr_rlc_ue_manager_t \<Rightarrow> int \<Rightarrow> (rlc_heap list \<times> nr_rlc_ue_manager_t) res" where
  "nr_rlc_manager_remove_ue m ue_id =
     (case rlc_ue_index (rum_list m) ue_id of
        None \<Rightarrow> Inr ([], m)
      | Some i \<Rightarrow>
          let ue = rum_list m ! i
          in bindr (delete_rbs (ru_srb0 ue # ru_srb ue @ ru_drb ue)) (\<lambda>hs.
               Inr (hs, m\<lparr>rum_list := take i (rum_list m) @ drop (Suc i) (rum_list m)\<rparr>)))"

definition nr_rlc_ue_add_srb_rlc_entity :: "nr_rlc_ue_t \<Rightarrow> int \<Rightarrow> nr_rlc_entity_t \<Rightarrow> nr_rlc_ue_t res" where
  "nr_rlc_ue_add_srb_rlc_entity ue srb_id e =
     (if srb_id < 0 \<or> srb_id > 3 then Inl Exit_fatal
      else if srb_id = 0
      then if ru_srb0 ue \<noteq> None then Inl Exit_fatal else Inr (ue\<lparr>ru_srb0 := Some e\<rparr>)
      else if ru_srb ue ! nat (srb_id - 1) \<noteq> None then Inl Exit_fatal
      else Inr (ue\<lparr>ru_srb := (ru_srb ue)[nat (srb_id - 1) := Some e]\<rparr>))"

definition nr_rlc_ue_add_drb_rlc_entity :: "nr_rlc_ue_t \<Rightarrow> int \<Rightarrow> nr_rlc_entity_t \<Rightarrow> nr_rlc_ue_t res" where
  "nr_rlc_ue_add_drb_rlc_entity ue drb_id e =
     (if drb_id < 1 \<or> drb_id > 32 then Inl Exit_fatal
      else if ru_drb ue ! nat (drb_id - 1) \<noteq> None then Inl Exit_fatal
      else Inr (ue\<lparr>ru_drb := (ru_drb ue)[nat (drb_id - 1) := Some e]\<rparr>))"

section \<open>Bearers and logical channels\<close>

text \<open>Where the pointer to an entity is.\<close>

datatype rlc_slot = Srb0 | Srb nat | Drb nat

fun slot_get :: "nr_rlc_ue_t \<Rightarrow> rlc_slot \<Rightarrow> nr_rlc_entity_t option" where
  "slot_get ue Srb0 = ru_srb0 ue"
| "slot_get ue (Srb i) = (if i < length (ru_srb ue) then ru_srb ue ! i else None)"
| "slot_get ue (Drb i) = (if i < length (ru_drb ue) then ru_drb ue ! i else None)"

fun slot_put :: "nr_rlc_ue_t \<Rightarrow> rlc_slot \<Rightarrow> nr_rlc_entity_t option \<Rightarrow> nr_rlc_ue_t" where
  "slot_put ue Srb0 e = ue\<lparr>ru_srb0 := e\<rparr>"
| "slot_put ue (Srb i) e = ue\<lparr>ru_srb := (ru_srb ue)[i := e]\<rparr>"
| "slot_put ue (Drb i) e = ue\<lparr>ru_drb := (ru_drb ue)[i := e]\<rparr>"

text \<open>The bearer of a logical channel; an index outside of an array is a fault.\<close>

definition lcid_slot :: "nr_rlc_ue_t \<Rightarrow> nat \<Rightarrow> rlc_slot option res" where
  "lcid_slot ue channel_id =
     (if channel_id - 1 \<ge> 32 then Inl Out_of_bounds
      else case ru_lcid2rb ue ! (channel_id - 1) of
        NR_LCID_NONE \<Rightarrow> Inr None
      | NR_LCID_SRB srb_id \<Rightarrow>
          if \<not> srb_id > 0 then Inl Assert_failed
          else if srb_id > 3 then Inl Out_of_bounds else Inr (Some (Srb (nat (srb_id - 1))))
      | NR_LCID_DRB drb_id \<Rightarrow>
          if drb_id < 1 \<or> drb_id > 32 then Inl Out_of_bounds else Inr (Some (Drb (nat (drb_id - 1)))))"

definition get_rlc_entity_from_lcid :: "nr_rlc_ue_t \<Rightarrow> nat \<Rightarrow> rlc_slot option res" where
  "get_rlc_entity_from_lcid ue channel_id =
     (if channel_id = 0 then Inr (Some Srb0) else lcid_slot ue channel_id)"

fun find_lcid :: "nr_lcid_rb_t \<Rightarrow> nat \<Rightarrow> nr_lcid_rb_t list \<Rightarrow> nat" where
  "find_lcid rb n [] = 0"
| "find_lcid rb n (x # l) = (if x = rb then n else find_lcid rb (n + 1) l)"

definition release_rlc_entity_from_lcid :: "nr_rlc_ue_t \<Rightarrow> nat \<Rightarrow> nr_rlc_ue_t res" where
  "release_rlc_entity_from_lcid ue channel_id =
     (if channel_id = 0 then Inl Assert_failed
      else bindr (lcid_slot ue channel_id) (\<lambda>r.
        case r of None \<Rightarrow> Inr ue
        | Some slot \<Rightarrow>
            case slot_get ue slot of None \<Rightarrow> Inr ue
            | Some e \<Rightarrow> bindr (ent_delete e) (\<lambda>_. Inr (slot_put ue slot None))))"

end
