(* ===== verification/Nr_Rlc_Api.thy ===== *)
theory Nr_Rlc_Api
  imports Nr_Rlc_Ue
begin

text \<open>
  The interface functions of RLC (\<open>nr_rlc_oai_api.c\<close>) on the table of UEs: callbacks, data transfer with MAC
  and PDCP, bearer configuration.
\<close>

section \<open>Callbacks\<close>

datatype rlc_out =
    Pdcp_data_ind bool u64 bool int "byte list"   \<comment> \<open>gNB flag, UE, signalling bearer, bearer, data\<close>
  | F1ap_ul_rrc_message u64 int int "byte list"   \<comment> \<open>UE of CU and DU, bearer, data\<close>
  | Gtpv1u_send int int "byte list"               \<comment> \<open>UE, bearer, data\<close>
  | Initial_ul_rrc_message int "byte list"        \<comment> \<open>UE, data\<close>
  | Rlf int                                       \<comment> \<open>radio link failure of the UE\<close>

type_synonym f1_ids = "int \<Rightarrow> u32"                \<comment> \<open>\<open>secondary_ue\<close> of \<open>du_get_f1_ue_data\<close>\<close>

definition deliver_sdu :: "f1_ids \<Rightarrow> nr_rlc_op_mode_t \<Rightarrow> nr_rlc_ue_t \<Rightarrow> rlc_slot \<Rightarrow> byte list \<Rightarrow> rlc_out list res" where
  "deliver_sdu f1 mode ue slot buf =
     bindr (case slot of Srb i \<Rightarrow> Inr (True, int i + 1) | Drb i \<Rightarrow> Inr (False, int i + 1) | Srb0 \<Rightarrow> Inl Exit_fatal) (\<lambda>(is_srb, rb_id).
       let is_gnb = nr_rlc_manager_get_gnb_flag mode;
           rntiMaybeUEid = (if is_gnb then ucast (f1 (ru_ue_id ue)) else word_of_int (ru_ue_id ue))
       in if is_gnb \<and> nr_rlc_manager_rlc_is_split mode
          then if is_srb then Inr [F1ap_ul_rrc_message rntiMaybeUEid (ru_ue_id ue) rb_id buf]
               else Inr [Gtpv1u_send (ru_ue_id ue) rb_id buf]
          else Inr [Pdcp_data_ind is_gnb rntiMaybeUEid is_srb rb_id buf])"

text \<open>The other two callbacks look for the entity among the first two signalling bearers only.\<close>

definition callback_rb :: "rlc_slot \<Rightarrow> (bool \<times> int) res" where
  "callback_rb slot =
     (case slot of Srb i \<Rightarrow> if i < 2 then Inr (True, int i + 1) else Inl Exit_fatal
      | Drb i \<Rightarrow> Inr (False, int i + 1) | Srb0 \<Rightarrow> Inl Exit_fatal)"

definition successful_delivery :: "rlc_slot \<Rightarrow> int \<Rightarrow> rlc_out list res" where
  "successful_delivery slot sdu_id = bindr (callback_rb slot) (\<lambda>_. Inr [])"

definition max_retx_reached :: "nr_rlc_ue_t \<Rightarrow> rlc_slot \<Rightarrow> rlc_out list res" where
  "max_retx_reached ue slot =
     bindr (callback_rb slot) (\<lambda>_. Inr (if ru_rlf_handler ue then [Rlf (ru_ue_id ue)] else []))"

definition deliver_sdu_srb0 :: "nr_rlc_ue_t \<Rightarrow> byte list \<Rightarrow> rlc_out list" where
  "deliver_sdu_srb0 ue buf = [Initial_ul_rrc_message (ru_srb0_ue_id ue) buf]"

fun handle_upcall :: "f1_ids \<Rightarrow> nr_rlc_op_mode_t \<Rightarrow> nr_rlc_ue_t \<Rightarrow> rlc_slot \<Rightarrow> upcall \<Rightarrow> rlc_out list res" where
  "handle_upcall f1 mode ue slot (Deliver_sdu buf) =
     (if slot = Srb0 then Inr (deliver_sdu_srb0 ue buf) else deliver_sdu f1 mode ue slot buf)"
| "handle_upcall f1 mode ue slot (Sdu_successful_delivery i) =
     (if slot = Srb0 then Inl Null_dereference else successful_delivery slot i)"
| "handle_upcall f1 mode ue slot Max_retx_reached =
     (if slot = Srb0 then Inl Null_dereference else max_retx_reached ue slot)"

fun handle_upcalls :: "f1_ids \<Rightarrow> nr_rlc_op_mode_t \<Rightarrow> nr_rlc_ue_t \<Rightarrow> rlc_slot \<Rightarrow> upcall list \<Rightarrow> rlc_out list res" where
  "handle_upcalls f1 mode ue slot [] = Inr []"
| "handle_upcalls f1 mode ue slot (u # us) =
     bindr (handle_upcall f1 mode ue slot u) (\<lambda>out.
     bindr (handle_upcalls f1 mode ue slot us) (\<lambda>outs. Inr (out @ outs)))"

definition new_upcalls :: "nr_rlc_entity_t \<Rightarrow> nr_rlc_entity_t \<Rightarrow> upcall list" where
  "new_upcalls e e' = drop (length (c_upcalls (ent_common e))) (c_upcalls (ent_common e'))"

section \<open>Access to an entity\<close>

text \<open>An operation on the entity in a slot, with the callbacks it makes; a default when the pointer is null.\<close>

definition on_slot ::
  "f1_ids \<Rightarrow> nr_rlc_op_mode_t \<Rightarrow> 'r \<Rightarrow> (nr_rlc_entity_t \<Rightarrow> ('r \<times> nr_rlc_entity_t) res) \<Rightarrow> rlc_slot option \<Rightarrow> nr_rlc_ue_t \<Rightarrow>
   ('r \<times> rlc_out list \<times> nr_rlc_ue_t) res" where
  "on_slot f1 mode dflt f slot ue =
     (case Option.bind slot (\<lambda>s. map_option (Pair s) (slot_get ue s)) of
        None \<Rightarrow> Inr (dflt, [], ue)
      | Some (s, e) \<Rightarrow>
          bindr (f e) (\<lambda>(r, e').
          bindr (handle_upcalls f1 mode ue s (new_upcalls e e')) (\<lambda>out. Inr (r, out, slot_put ue s (Some e')))))"

definition on_ue ::
  "nr_rlc_ue_manager_t \<Rightarrow> int \<Rightarrow> (nr_rlc_ue_t \<Rightarrow> ('r \<times> 'o \<times> nr_rlc_ue_t) res) \<Rightarrow> ('r \<times> 'o \<times> nr_rlc_ue_manager_t) res" where
  "on_ue m ue_id f =
     (case nr_rlc_manager_get_ue m ue_id of (i, m) \<Rightarrow>
        bindr (f (rum_list m ! i)) (\<lambda>(r, out, ue). Inr (r, out, m\<lparr>rum_list := (rum_list m)[i := ue]\<rparr>)))"

definition on_lcid ::
  "f1_ids \<Rightarrow> nr_rlc_ue_manager_t \<Rightarrow> int \<Rightarrow> nat \<Rightarrow> 'r \<Rightarrow> (nr_rlc_entity_t \<Rightarrow> ('r \<times> nr_rlc_entity_t) res) \<Rightarrow>
   ('r \<times> rlc_out list \<times> nr_rlc_ue_manager_t) res" where
  "on_lcid f1 m ue_id ch dflt f =
     on_ue m ue_id (\<lambda>ue. bindr (get_rlc_entity_from_lcid ue ch) (\<lambda>slot. on_slot f1 (rum_mode m) dflt f slot ue))"

text \<open>Operations that first tell the entity the time.\<close>

definition timed :: "u64 \<Rightarrow> (nr_rlc_entity_t \<Rightarrow> ('r \<times> nr_rlc_entity_t) res) \<Rightarrow> nr_rlc_entity_t \<Rightarrow> ('r \<times> nr_rlc_entity_t) res" where
  "timed now f e = bindr (ent_set_time e now) f"

section \<open>Interface to MAC\<close>

fun data_ind_loop ::
  "f1_ids \<Rightarrow> nr_rlc_op_mode_t \<Rightarrow> u64 \<Rightarrow> (nat \<times> byte list) list \<Rightarrow> nr_rlc_ue_t \<Rightarrow> (unit \<times> rlc_out list \<times> nr_rlc_ue_t) res" where
  "data_ind_loop f1 mode now [] ue = Inr ((), [], ue)"
| "data_ind_loop f1 mode now ((ch, buf) # data) ue =
     bindr (get_rlc_entity_from_lcid ue ch) (\<lambda>slot.
     bindr (on_slot f1 mode () (timed now (\<lambda>e. bindr (ent_recv_pdu e buf) (\<lambda>e. Inr ((), e)))) slot ue) (\<lambda>(_, out, ue).
     bindr (data_ind_loop f1 mode now data ue) (\<lambda>(_, outs, ue). Inr ((), out @ outs, ue))))"

definition nr_mac_rlc_data_ind ::
  "f1_ids \<Rightarrow> u64 \<Rightarrow> nr_rlc_ue_manager_t \<Rightarrow> int \<Rightarrow> (nat \<times> byte list) list \<Rightarrow> (unit \<times> rlc_out list \<times> nr_rlc_ue_manager_t) res" where
  "nr_mac_rlc_data_ind f1 now m ue_id data = on_ue m ue_id (data_ind_loop f1 (rum_mode m) now data)"

text \<open>
  The loop of \<open>nr_mac_rlc_multi_data_req\<close> over the rest of the transport block: three bytes for the header of
  MAC before each PDU, at most \<open>pdu_siz_len\<close> PDUs. The clock is read once per PDU. The result has the
  sizes of the PDUs and the buffer.
\<close>

fun multi_pdu ::
  "(u64 \<Rightarrow> 'e \<Rightarrow> byte list \<Rightarrow> (int \<times> byte list \<times> 'e) res) \<Rightarrow> (nat \<Rightarrow> u64) \<Rightarrow> nat \<Rightarrow> byte list \<Rightarrow> 'e \<Rightarrow>
   ((int list \<times> byte list) \<times> 'e) res" where
  "multi_pdu gen clk 0 buf e = Inr (([], buf), e)"
| "multi_pdu gen clk (Suc pdu_siz_len) buf e =
     (if int (length buf) - 3 > 0
      then bindr (gen (clk pdu_siz_len) e (drop 3 buf)) (\<lambda>(pdu_siz, b, e).
             if pdu_siz = 0 then Inr (([], take 3 buf @ b), e)
             else bindr (multi_pdu gen clk pdu_siz_len (drop (nat pdu_siz) b) e) (\<lambda>((sizes, rest), e).
                    Inr ((pdu_siz # sizes, take 3 buf @ take (nat pdu_siz) b @ rest), e)))
      else Inr (([], buf), e))"

definition nr_mac_rlc_multi_data_req ::
  "f1_ids \<Rightarrow> (nat \<Rightarrow> u64) \<Rightarrow> u64 \<Rightarrow> nr_rlc_ue_manager_t \<Rightarrow> int \<Rightarrow> nat \<Rightarrow> byte list \<Rightarrow> nat \<Rightarrow>
   ((int list \<times> byte list) \<times> rlc_out list \<times> nr_rlc_ue_manager_t) res" where
  "nr_mac_rlc_multi_data_req f1 clk now m ue_id ch buf pdu_siz_len =
     on_lcid f1 m ue_id ch ([], buf) (timed now (multi_pdu ent_generate_pdu clk pdu_siz_len buf))"

definition nr_mac_rlc_data_req ::
  "f1_ids \<Rightarrow> u64 \<Rightarrow> u64 \<Rightarrow> nr_rlc_ue_manager_t \<Rightarrow> int \<Rightarrow> nat \<Rightarrow> byte list \<Rightarrow>
   ((int \<times> byte list) \<times> rlc_out list \<times> nr_rlc_ue_manager_t) res" where
  "nr_mac_rlc_data_req f1 clk now m ue_id ch buf =
     on_lcid f1 m ue_id ch (0, buf) (timed now (\<lambda>e. bindr (ent_generate_pdu clk e buf) (\<lambda>(r, b, e). Inr ((r, b), e))))"

text \<open>The number of bytes in the buffer, which is the only field of the answer that is computed.\<close>

definition bytes_in_buffer :: "nr_rlc_entity_t \<Rightarrow> (int \<times> nr_rlc_entity_t) res" where
  "bytes_in_buffer e =
     bindr (ent_buffer_status e (1000 * 1000)) (\<lambda>s. Inr (bs_status_size s + bs_retx_size s + bs_tx_size s, e))"

definition nr_rlc_status_ind ::
  "f1_ids \<Rightarrow> nr_rlc_op_mode_t \<Rightarrow> u64 \<Rightarrow> nat \<Rightarrow> nr_rlc_ue_t \<Rightarrow> (int \<times> rlc_out list \<times> nr_rlc_ue_t) res" where
  "nr_rlc_status_ind f1 mode now ch ue =
     bindr (get_rlc_entity_from_lcid ue ch) (\<lambda>slot. on_slot f1 mode 0 (timed now bytes_in_buffer) slot ue)"

fun status_ind_loop ::
  "f1_ids \<Rightarrow> nr_rlc_op_mode_t \<Rightarrow> u64 \<Rightarrow> nat list \<Rightarrow> nr_rlc_ue_t \<Rightarrow> (int list \<times> rlc_out list \<times> nr_rlc_ue_t) res" where
  "status_ind_loop f1 mode now [] ue = Inr ([], [], ue)"
| "status_ind_loop f1 mode now (ch # chs) ue =
     bindr (nr_rlc_status_ind f1 mode now ch ue) (\<lambda>(r, out, ue).
     bindr (status_ind_loop f1 mode now chs ue) (\<lambda>(rs, outs, ue). Inr (r # rs, out @ outs, ue)))"

definition nr_mac_rlc_status_ind ::
  "f1_ids \<Rightarrow> u64 \<Rightarrow> nr_rlc_ue_manager_t \<Rightarrow> int \<Rightarrow> nat list \<Rightarrow> (int list \<times> rlc_out list \<times> nr_rlc_ue_manager_t) res" where
  "nr_mac_rlc_status_ind f1 now m ue_id chs = on_ue m ue_id (status_ind_loop f1 (rum_mode m) now chs)"

section \<open>Interface to PDCP and RRC: data\<close>

definition rb_slot :: "bool \<Rightarrow> int \<Rightarrow> int \<Rightarrow> rlc_slot option" where
  "rb_slot srb_flag rb_id max_drb =
     (if srb_flag then if rb_id \<ge> 1 \<and> rb_id \<le> 2 then Some (Srb (nat (rb_id - 1))) else None
      else if rb_id \<ge> 1 \<and> rb_id \<le> max_drb then Some (Drb (nat (rb_id - 1))) else None)"

definition nr_rlc_data_req ::
  "f1_ids \<Rightarrow> u64 \<Rightarrow> u64 \<Rightarrow> nr_rlc_ue_manager_t \<Rightarrow> u64 \<Rightarrow> bool \<Rightarrow> int \<Rightarrow> u32 \<Rightarrow> byte list \<Rightarrow>
   (unit \<times> rlc_out list \<times> nr_rlc_ue_manager_t) res" where
  "nr_rlc_data_req f1 clk now m rntiMaybeUEid srb_flag rb_id mui sdu =
     on_ue m (sint (ucast rntiMaybeUEid :: u32))
       (on_slot f1 (rum_mode m) () (timed now (\<lambda>e. bindr (ent_recv_sdu clk e sdu (sint mui)) (\<lambda>e. Inr ((), e)))) (rb_slot srb_flag rb_id 32))"

definition nr_rlc_srb_recv_sdu ::
  "f1_ids \<Rightarrow> u64 \<Rightarrow> u64 \<Rightarrow> nr_rlc_ue_manager_t \<Rightarrow> int \<Rightarrow> nat \<Rightarrow> byte list \<Rightarrow> (unit \<times> rlc_out list \<times> nr_rlc_ue_manager_t) res" where
  "nr_rlc_srb_recv_sdu f1 clk now m ue_id channel_id sdu =
     on_ue m ue_id (\<lambda>ue.
       let slot = (if channel_id = 0 then Srb0 else Srb (channel_id - 1))
       in if channel_id > 3 then Inl Out_of_bounds
          else if slot_get ue slot = None then Inl Assert_failed
          else on_slot f1 (rum_mode m) () (timed now (\<lambda>e. bindr (ent_recv_sdu clk e sdu (- 1)) (\<lambda>e. Inr ((), e)))) (Some slot) ue)"

definition nr_rlc_get_available_tx_space ::
  "f1_ids \<Rightarrow> nr_rlc_ue_manager_t \<Rightarrow> int \<Rightarrow> nat \<Rightarrow> (int \<times> rlc_out list \<times> nr_rlc_ue_manager_t) res" where
  "nr_rlc_get_available_tx_space f1 m ue_id ch = on_lcid f1 m ue_id ch (- 1) (\<lambda>e. Inr (ent_available_tx_space e, e))"

definition nr_rlc_tx_list_occupancy ::
  "f1_ids \<Rightarrow> nr_rlc_ue_manager_t \<Rightarrow> int \<Rightarrow> nat \<Rightarrow> (int \<times> rlc_out list \<times> nr_rlc_ue_manager_t) res" where
  "nr_rlc_tx_list_occupancy f1 m ue_id ch = on_lcid f1 m ue_id ch 0 (\<lambda>e. Inr (ent_tx_list_occupancy e, e))"

definition nr_rlc_get_statistics ::
  "f1_ids \<Rightarrow> u64 \<Rightarrow> nr_rlc_ue_manager_t \<Rightarrow> int \<Rightarrow> bool \<Rightarrow> int \<Rightarrow>
   ((nr_rlc_statistics \<times> (u64 \<times> nat) option) option \<times> rlc_out list \<times> nr_rlc_ue_manager_t) res" where
  "nr_rlc_get_statistics f1 clk m ue_id srb_flag rb_id =
     on_ue m ue_id (on_slot f1 (rum_mode m) None (\<lambda>e.
       bindr (nr_rlc_entity_get_stats clk e) (\<lambda>(st, avg, e).
       bindr (ent_buffer_status e (256 * 1000)) (\<lambda>s.
         Inr (Some (st\<lparr>st_rxbuf_occ_bytes := word_of_int (bs_status_size s),
                       st_txbuf_occ_bytes := word_of_int (bs_tx_size s + bs_retx_size s)\<rparr>, avg), e))))
       (rb_slot srb_flag rb_id 5))"

section \<open>Configuration (\<open>nr_rlc_configuration.h\<close>)\<close>

definition rlc_t_poll_retransmits :: "int list" where
  "rlc_t_poll_retransmits =
     [5, 10, 15, 20, 25, 30, 35, 40, 45, 50, 55, 60, 65, 70,
      75, 80, 85, 90, 95, 100, 105, 110, 115, 120, 125, 130, 135, 140,
      145, 150, 155, 160, 165, 170, 175, 180, 185, 190, 195, 200, 205, 210,
      215, 220, 225, 230, 235, 240, 245, 250, 300, 350, 400, 450, 500, 800,
      1000, 2000, 4000, 1, 2, 4]"

definition rlc_t_reassemblies :: "int list" where
  "rlc_t_reassemblies =
     [0, 5, 10, 15, 20, 25, 30, 35, 40, 45, 50, 55, 60, 65, 70, 75,
      80, 85, 90, 95, 100, 110, 120, 130, 140, 150, 160, 170, 180, 190, 200]"

definition rlc_t_status_prohibits :: "int list" where
  "rlc_t_status_prohibits =
     [0, 5, 10, 15, 20, 25, 30, 35, 40, 45, 50, 55,
      60, 65, 70, 75, 80, 85, 90, 95, 100, 105, 110, 115,
      120, 125, 130, 135, 140, 145, 150, 155, 160, 165, 170, 175,
      180, 185, 190, 195, 200, 205, 210, 215, 220, 225, 230, 235,
      240, 245, 250, 300, 350, 400, 450, 500, 800, 1000, 1200, 1600,
      2000, 2400]"

definition rlc_poll_pdus :: "int list" where
  "rlc_poll_pdus =
     [4, 8, 16, 32, 64, 128, 256, 512, 1024,
      2048, 4096, 6144, 8192, 12288, 16384, 20480, 24576, 28672,
      32768, 40960, 49152, 57344, 65536, - 1]"

definition rlc_poll_bytes :: "int list" where
  "rlc_poll_bytes =
     map (\<lambda>n. 1024 * n) [1, 2, 5, 8, 10, 15, 25, 50, 75, 100, 125, 250, 375, 500, 750, 1000, 1250,
       1500, 2000, 3000, 4000, 4500, 5000, 5500, 6000, 6500, 7000, 7500] @
     map (\<lambda>n. 1024 * 1024 * n) [8, 9, 10, 11, 12, 13, 14, 15, 16, 17, 18, 20, 25, 30, 40] @ [- 1]"

definition rlc_max_retx_thresholds :: "int list" where
  "rlc_max_retx_thresholds = [1, 2, 3, 4, 6, 8, 16, 32]"

definition rlc_sn_field_lengths_am :: "int list" where
  "rlc_sn_field_lengths_am = [12, 18]"

definition rlc_sn_field_lengths_um :: "int list" where
  "rlc_sn_field_lengths_um = [6, 12]"

text \<open>The fields of the RRC structures that are read; a null pointer is \<open>None\<close>.\<close>

record rlc_am_config =
  ac_t_PollRetransmit :: int
  ac_t_Reassembly :: int
  ac_t_StatusProhibit :: int
  ac_pollPDU :: int
  ac_pollByte :: int
  ac_maxRetxThreshold :: int
  ac_dl_sn_FieldLength :: "int option"
  ac_ul_sn_FieldLength :: "int option"

record rlc_um_config =
  uc_t_Reassembly :: int
  uc_dl_sn_FieldLength :: "int option"
  uc_ul_sn_FieldLength :: "int option"

datatype NR_RLC_Config_t =
    NR_RLC_Config_am rlc_am_config
  | NR_RLC_Config_um_Bi_Directional rlc_um_config
  | NR_RLC_Config_um_Uni_Directional

record NR_RLC_BearerConfig_t =
  bc_logicalChannelIdentity :: int
  bc_servedRadioBearer :: "nr_lcid_rb_t"          \<comment> \<open>\<open>NR_LCID_NONE\<close> when it is absent\<close>
  bc_rlc_Config :: "NR_RLC_Config_t option"

abbreviation (input) RLC_MAXSIZE :: int where "RLC_MAXSIZE \<equiv> 10000000"

text \<open>Timers and thresholds of the acknowledged mode, in the order of the constructor.\<close>

record am_parameters =
  ap_t_poll_retransmit :: int
  ap_t_reassembly :: int
  ap_t_status_prohibit :: int
  ap_poll_pdu :: int
  ap_poll_byte :: int
  ap_max_retx_threshold :: int

definition decode_am :: "rlc_am_config \<Rightarrow> am_parameters res" where
  "decode_am am =
     bindr (decode_value rlc_t_reassemblies (ac_t_Reassembly am)) (\<lambda>t_reassembly.
     bindr (decode_value rlc_t_status_prohibits (ac_t_StatusProhibit am)) (\<lambda>t_status_prohibit.
     bindr (decode_value rlc_t_poll_retransmits (ac_t_PollRetransmit am)) (\<lambda>t_poll_retransmit.
     bindr (decode_value rlc_poll_pdus (ac_pollPDU am)) (\<lambda>poll_pdu.
     bindr (decode_value rlc_poll_bytes (ac_pollByte am)) (\<lambda>poll_byte.
     bindr (decode_value rlc_max_retx_thresholds (ac_maxRetxThreshold am)) (\<lambda>max_retx_threshold.
       Inr \<lparr>ap_t_poll_retransmit = t_poll_retransmit, ap_t_reassembly = t_reassembly, ap_t_status_prohibit = t_status_prohibit,
            ap_poll_pdu = poll_pdu, ap_poll_byte = poll_byte, ap_max_retx_threshold = max_retx_threshold\<rparr>))))))"

definition default_am :: am_parameters where
  "default_am = \<lparr>ap_t_poll_retransmit = 45, ap_t_reassembly = 35, ap_t_status_prohibit = 0, ap_poll_pdu = - 1,
     ap_poll_byte = - 1, ap_max_retx_threshold = 8\<rparr>"

text \<open>Sequence number lengths of a new bearer: both pointers are dereferenced and must agree.\<close>

definition new_sn_length :: "int list \<Rightarrow> int option \<Rightarrow> int option \<Rightarrow> int res" where
  "new_sn_length tab dl ul =
     (case (dl, ul) of (Some d, Some u) \<Rightarrow> if d \<noteq> u then Inl Exit_fatal else decode_value tab d
      | _ \<Rightarrow> Inl Null_dereference)"

definition new_am :: "am_parameters \<Rightarrow> int \<Rightarrow> nr_rlc_entity_t res" where
  "new_am p sn_field_length =
     bindr (new_nr_rlc_entity_am RLC_MAXSIZE RLC_MAXSIZE (ap_t_poll_retransmit p) (ap_t_reassembly p) (ap_t_status_prohibit p)
       (ap_poll_pdu p) (ap_poll_byte p) (ap_max_retx_threshold p) sn_field_length) (\<lambda>e. Inr (Am_entity e))"

definition set_lcid :: "nr_rlc_ue_t \<Rightarrow> int \<Rightarrow> nr_lcid_rb_t \<Rightarrow> nr_rlc_ue_t res" where
  "set_lcid ue lcid rb =
     (if lcid < 1 \<or> lcid > 32 then Inl Out_of_bounds else Inr (ue\<lparr>ru_lcid2rb := (ru_lcid2rb ue)[nat (lcid - 1) := rb]\<rparr>))"

definition nr_rlc_add_srb :: "nr_rlc_ue_manager_t \<Rightarrow> int \<Rightarrow> int \<Rightarrow> NR_RLC_BearerConfig_t \<Rightarrow> nr_rlc_ue_manager_t res" where
  "nr_rlc_add_srb m ue_id srb_id bc =
     (if \<not> (srb_id > 0 \<and> srb_id < 4) then Inl Assert_failed
      else bindr (case bc_rlc_Config bc of
                    Some (NR_RLC_Config_am am) \<Rightarrow>
                      bindr (decode_am am) (\<lambda>p.
                      bindr (new_sn_length rlc_sn_field_lengths_am (ac_dl_sn_FieldLength am) (ac_ul_sn_FieldLength am)) (\<lambda>n. Inr (p, n)))
                  | _ \<Rightarrow> Inr (default_am, 12)) (\<lambda>(p, n).
      bindr (on_ue m ue_id (\<lambda>ue.
        case bc_servedRadioBearer bc of
          NR_LCID_SRB srb \<Rightarrow>
            bindr (set_lcid ue (bc_logicalChannelIdentity bc) (NR_LCID_SRB srb)) (\<lambda>ue.
              if ru_srb ue ! nat (srb_id - 1) \<noteq> None then Inr ((), (), ue)
              else bindr (new_am p n) (\<lambda>e. bindr (nr_rlc_ue_add_srb_rlc_entity ue srb_id e) (\<lambda>ue. Inr ((), (), ue))))
        | _ \<Rightarrow> Inl Assert_failed)) (\<lambda>(_, _, m). Inr m)))"

text \<open>The common part of \<open>add_drb_am\<close> and \<open>add_drb_um\<close>: the entry of the channel, and the entity unless there is one.\<close>

definition add_drb_entity ::
  "nr_rlc_ue_manager_t \<Rightarrow> int \<Rightarrow> int \<Rightarrow> NR_RLC_BearerConfig_t \<Rightarrow> nr_rlc_entity_t res \<Rightarrow> nr_rlc_ue_manager_t res" where
  "add_drb_entity m ue_id drb_id bc new =
     bindr (on_ue m ue_id (\<lambda>ue.
       case bc_servedRadioBearer bc of
         NR_LCID_DRB drb \<Rightarrow>
           bindr (set_lcid ue (bc_logicalChannelIdentity bc) (NR_LCID_DRB drb)) (\<lambda>ue.
             if ru_drb ue ! nat (drb_id - 1) \<noteq> None then Inr ((), (), ue)
             else bindr new (\<lambda>e. bindr (nr_rlc_ue_add_drb_rlc_entity ue drb_id e) (\<lambda>ue. Inr ((), (), ue))))
       | _ \<Rightarrow> Inl Assert_failed)) (\<lambda>(_, _, m). Inr m)"

definition add_drb_am :: "nr_rlc_ue_manager_t \<Rightarrow> int \<Rightarrow> int \<Rightarrow> NR_RLC_BearerConfig_t \<Rightarrow> rlc_am_config \<Rightarrow> nr_rlc_ue_manager_t res" where
  "add_drb_am m ue_id drb_id bc am =
     (if \<not> (drb_id > 0 \<and> drb_id \<le> 32) then Inl Assert_failed
      else bindr (decode_am am) (\<lambda>p.
           bindr (new_sn_length rlc_sn_field_lengths_am (ac_dl_sn_FieldLength am) (ac_ul_sn_FieldLength am)) (\<lambda>n.
             add_drb_entity m ue_id drb_id bc (new_am p n))))"

definition add_drb_um :: "nr_rlc_ue_manager_t \<Rightarrow> int \<Rightarrow> int \<Rightarrow> NR_RLC_BearerConfig_t \<Rightarrow> rlc_um_config \<Rightarrow> nr_rlc_ue_manager_t res" where
  "add_drb_um m ue_id drb_id bc um =
     (if \<not> (drb_id > 0 \<and> drb_id \<le> 32) then Inl Assert_failed
      else bindr (decode_value rlc_t_reassemblies (uc_t_Reassembly um)) (\<lambda>t_reassembly.
           bindr (new_sn_length rlc_sn_field_lengths_um (uc_dl_sn_FieldLength um) (uc_ul_sn_FieldLength um)) (\<lambda>n.
             add_drb_entity m ue_id drb_id bc
               (bindr (new_nr_rlc_entity_um RLC_MAXSIZE RLC_MAXSIZE t_reassembly n) (\<lambda>e. Inr (Um_entity e))))))"

definition nr_rlc_add_drb :: "nr_rlc_ue_manager_t \<Rightarrow> int \<Rightarrow> int \<Rightarrow> NR_RLC_BearerConfig_t \<Rightarrow> nr_rlc_ue_manager_t res" where
  "nr_rlc_add_drb m ue_id drb_id bc =
     (case bc_rlc_Config bc of
        None \<Rightarrow> Inl Null_dereference
      | Some (NR_RLC_Config_am am) \<Rightarrow> add_drb_am m ue_id drb_id bc am
      | Some (NR_RLC_Config_um_Bi_Directional um) \<Rightarrow> add_drb_um m ue_id drb_id bc um
      | Some NR_RLC_Config_um_Uni_Directional \<Rightarrow> Inl Exit_fatal)"

definition nr_rlc_activate_srb0 :: "nr_rlc_ue_manager_t \<Rightarrow> int \<Rightarrow> (bool \<times> unit \<times> nr_rlc_ue_manager_t) res" where
  "nr_rlc_activate_srb0 m ue_id =
     on_ue m ue_id (\<lambda>ue.
       if ru_srb0 ue \<noteq> None then Inr (False, (), ue)
       else bindr (new_nr_rlc_entity_tm 10000) (\<lambda>e.
            bindr (nr_rlc_ue_add_srb_rlc_entity (ue\<lparr>ru_srb0_ue_id := ue_id\<rparr>) 0 (Tm_entity e)) (\<lambda>ue. Inr (True, (), ue))))"

text \<open>Sequence number length at a reconfiguration: both pointers are null, or both are set and agree.\<close>

definition reconfigured_sn_length :: "int list \<Rightarrow> int option \<Rightarrow> int option \<Rightarrow> int option res" where
  "reconfigured_sn_length tab dl ul =
     (case (dl, ul) of
        (Some d, Some u) \<Rightarrow> if d \<noteq> u then Inl Assert_failed else bindr (decode_value tab d) (\<lambda>n. Inr (Some n))
      | (None, None) \<Rightarrow> Inr None
      | _ \<Rightarrow> Inl Assert_failed)"

definition reconfigure_am :: "nr_rlc_entity_am \<Rightarrow> am_parameters \<Rightarrow> int option \<Rightarrow> nr_rlc_entity_t" where
  "reconfigure_am e p n =
     Am_entity (nr_rlc_entity_am_reconfigure e (ap_t_poll_retransmit p) (ap_t_reassembly p) (ap_t_status_prohibit p)
       (ap_poll_pdu p) (ap_poll_byte p) (ap_max_retx_threshold p) n)"

fun reconfigure_entity :: "NR_RLC_Config_t option \<Rightarrow> nr_rlc_entity_t \<Rightarrow> nr_rlc_entity_t res" where
  "reconfigure_entity c (Tm_entity e) = Inl Assert_failed"
| "reconfigure_entity (Some (NR_RLC_Config_am am)) (Am_entity e) =
     bindr (decode_am am) (\<lambda>p.
     bindr (reconfigured_sn_length rlc_sn_field_lengths_am (ac_dl_sn_FieldLength am) (ac_ul_sn_FieldLength am)) (\<lambda>n.
       Inr (reconfigure_am e p n)))"
| "reconfigure_entity (Some (NR_RLC_Config_um_Bi_Directional um)) (Um_entity e) =
     bindr (decode_value rlc_t_reassemblies (uc_t_Reassembly um)) (\<lambda>t.
     bindr (reconfigured_sn_length rlc_sn_field_lengths_um (uc_dl_sn_FieldLength um) (uc_ul_sn_FieldLength um)) (\<lambda>n.
       Inr (Um_entity (nr_rlc_entity_um_reconfigure e t n))))"
| "reconfigure_entity None (Am_entity e) = Inr (reconfigure_am e default_am (Some 12))"
| "reconfigure_entity _ _ = Inl Assert_failed"

definition nr_rlc_reconfigure_entity ::
  "f1_ids \<Rightarrow> nr_rlc_ue_manager_t \<Rightarrow> int \<Rightarrow> nat \<Rightarrow> NR_RLC_Config_t option \<Rightarrow> (unit \<times> rlc_out list \<times> nr_rlc_ue_manager_t) res" where
  "nr_rlc_reconfigure_entity f1 m ue_id lc_id c =
     on_ue m ue_id (\<lambda>ue. bindr (get_rlc_entity_from_lcid ue lc_id) (\<lambda>slot.
       case Option.bind slot (slot_get ue) of
         None \<Rightarrow> Inl Null_dereference
       | Some _ \<Rightarrow> on_slot f1 (rum_mode m) () (\<lambda>e. bindr (reconfigure_entity c e) (\<lambda>e. Inr ((), e))) slot ue))"

section \<open>Life of bearers and UEs\<close>

definition nr_rlc_get_lcid_from_rb :: "nr_rlc_ue_manager_t \<Rightarrow> int \<Rightarrow> bool \<Rightarrow> int \<Rightarrow> (nat \<times> unit \<times> nr_rlc_ue_manager_t) res" where
  "nr_rlc_get_lcid_from_rb m ue_id is_srb rb_id =
     on_ue m ue_id (\<lambda>ue. Inr (find_lcid (if is_srb then NR_LCID_SRB rb_id else NR_LCID_DRB rb_id) 1 (ru_lcid2rb ue), (), ue))"

definition nr_rlc_release_entity :: "nr_rlc_ue_manager_t \<Rightarrow> int \<Rightarrow> nat \<Rightarrow> (unit \<times> unit \<times> nr_rlc_ue_manager_t) res" where
  "nr_rlc_release_entity m ue_id channel_id =
     on_ue m ue_id (\<lambda>ue.
       if channel_id = 0
       then case ru_srb0 ue of None \<Rightarrow> Inr ((), (), ue)
            | Some e \<Rightarrow> bindr (ent_delete e) (\<lambda>_. Inr ((), (), ue\<lparr>ru_srb0 := None\<rparr>))
       else bindr (release_rlc_entity_from_lcid ue channel_id) (\<lambda>ue. Inr ((), (), ue)))"

definition nr_rlc_set_rlf_handler :: "nr_rlc_ue_manager_t \<Rightarrow> int \<Rightarrow> bool \<Rightarrow> (unit \<times> unit \<times> nr_rlc_ue_manager_t) res" where
  "nr_rlc_set_rlf_handler m ue_id rlf_h = on_ue m ue_id (\<lambda>ue. Inr ((), (), ue\<lparr>ru_rlf_handler := rlf_h\<rparr>))"

abbreviation (input) reestablish :: "nr_rlc_entity_t \<Rightarrow> (unit \<times> nr_rlc_entity_t) res" where
  "reestablish e \<equiv> bindr (ent_reestablishment e) (\<lambda>e. Inr ((), e))"

definition nr_rlc_reestablish_entity ::
  "f1_ids \<Rightarrow> nr_rlc_ue_manager_t \<Rightarrow> int \<Rightarrow> nat \<Rightarrow> (unit \<times> rlc_out list \<times> nr_rlc_ue_manager_t) res" where
  "nr_rlc_reestablish_entity f1 m ue_id lc_id = on_lcid f1 m ue_id lc_id () reestablish"

definition nr_rlc_remove_ue :: "nr_rlc_ue_manager_t \<Rightarrow> int \<Rightarrow> (rlc_heap list \<times> nr_rlc_ue_manager_t) res" where
  "nr_rlc_remove_ue m ue_id = nr_rlc_manager_remove_ue m ue_id"

definition nr_rlc_update_id ::
  "f1_ids \<Rightarrow> nr_rlc_ue_manager_t \<Rightarrow> int \<Rightarrow> int \<Rightarrow> (unit \<times> rlc_out list \<times> nr_rlc_ue_manager_t) res" where
  "nr_rlc_update_id f1 m from_id to_id =
     on_ue m from_id (\<lambda>ue. on_slot f1 (rum_mode m) () reestablish (Some (Srb 0)) (ue\<lparr>ru_ue_id := to_id\<rparr>))"

definition nr_rlc_test_trigger_reestablishment ::
  "f1_ids \<Rightarrow> nr_rlc_ue_manager_t \<Rightarrow> int \<Rightarrow> (unit \<times> rlc_out list \<times> nr_rlc_ue_manager_t) res" where
  "nr_rlc_test_trigger_reestablishment f1 m ue_id =
     on_ue m ue_id (\<lambda>ue.
       if slot_get ue (Srb 0) = None then Inl Null_dereference
       else bindr (on_slot f1 (rum_mode m) () reestablish (Some (Srb 0)) ue) (\<lambda>(_, out, ue).
            bindr (on_slot f1 (rum_mode m) () reestablish (Some (Drb 0)) ue) (\<lambda>(_, outs, ue). Inr ((), out @ outs, ue))))"

definition nr_rlc_ms_tick :: "u64 \<Rightarrow> u64" where
  "nr_rlc_ms_tick nr_rlc_current_time = nr_rlc_current_time + 1"

definition nr_rlc_activate_avg_time_to_tx ::
  "f1_ids \<Rightarrow> nr_rlc_ue_manager_t \<Rightarrow> int \<Rightarrow> nat \<Rightarrow> bool \<Rightarrow> (unit \<times> rlc_out list \<times> nr_rlc_ue_manager_t) res" where
  "nr_rlc_activate_avg_time_to_tx f1 m ue_id channel_id is_on =
     on_ue m ue_id (on_slot f1 (rum_mode m) ()
       (\<lambda>e. let c = ent_common e in
            Inr ((), ent_with_common e (c\<lparr>c_avg_time_is_on := is_on, c_txsdu_avg_time_to_tx := time_average_reset (c_txsdu_avg_time_to_tx c)\<rparr>)))
       (if 1 \<le> channel_id \<and> channel_id \<le> 3 then Some (Srb (channel_id - 1))
        else if 4 \<le> channel_id \<and> channel_id \<le> 8 then Some (Drb (channel_id - 4)) else None))"

text \<open>Start of the layer, with the two static flags of the function.\<close>

definition nr_rlc_module_init :: "bool \<times> bool \<Rightarrow> nr_rlc_op_mode_t \<Rightarrow> ((bool \<times> bool) \<times> nr_rlc_ue_manager_t) res" where
  "nr_rlc_module_init flags mode =
     (case flags of (inited, inited_ue) \<Rightarrow>
        let gnb_flag = (mode \<noteq> NR_RLC_OP_MODE_UE)
        in if gnb_flag \<and> inited \<or> \<not> gnb_flag \<and> inited_ue then Inl Exit_fatal
           else Inr ((inited \<or> gnb_flag, inited_ue \<or> \<not> gnb_flag), new_nr_rlc_ue_manager mode))"

end
