(* ===== verification/Nr_Table.thy ===== *)
theory Nr_Table
  imports Nr_Prelude
begin

text \<open>
  The contract of a table of entities: the layers keep their entities in lists and arrays that are
  searched by key, and change one entity at a time. The clients see the table as a map from keys to
  entities. RLC and PDCP (bearers of UEs) and SDAP (PDU sessions of UEs) interpret the contract.
\<close>

locale entity_table =
  fixes lookup :: "'m \<Rightarrow> 'k \<Rightarrow> 'e option"
    and store :: "'m \<Rightarrow> 'k \<Rightarrow> 'e \<Rightarrow> 'm"
    and inv :: "'m \<Rightarrow> bool"
    and fits :: "'k \<Rightarrow> 'e \<Rightarrow> bool"
  assumes lookup_store: "inv m \<Longrightarrow> lookup m k = Some e \<Longrightarrow> fits k e' \<Longrightarrow> lookup (store m k e') = (lookup m)(k \<mapsto> e')"
    and store_inv: "inv m \<Longrightarrow> lookup m k = Some e \<Longrightarrow> fits k e' \<Longrightarrow> inv (store m k e')"
begin

text \<open>An operation on the entity with a given key; \<open>None\<close> when there is none.\<close>

definition access :: "'m \<Rightarrow> 'k \<Rightarrow> ('e \<Rightarrow> ('r \<times> 'e) res) \<Rightarrow> ('r option \<times> 'm) res" where
  "access m k f =
     (case lookup m k of None \<Rightarrow> Inr (None, m)
      | Some e \<Rightarrow> bindr (f e) (\<lambda>(r, e'). Inr (Some r, store m k e')))"

lemma access_absent: "lookup m k = None \<Longrightarrow> access m k f = Inr (None, m)"
  by (simp add: access_def)

lemma access_present: "lookup m k = Some e \<Longrightarrow> f e = Inr (r, e') \<Longrightarrow> access m k f = Inr (Some r, store m k e')"
  by (simp add: access_def)

lemma access_fault: "lookup m k = Some e \<Longrightarrow> f e = Inl x \<Longrightarrow> access m k f = Inl x"
  by (simp add: access_def)

text \<open>An operation succeeds exactly when there is no entity or the operation succeeds on it; only this entity changes.\<close>

lemma access_ok:
  assumes "inv m" "access m k f = Inr (r, m')" "\<And>e r e'. lookup m k = Some e \<Longrightarrow> f e = Inr (r, e') \<Longrightarrow> fits k e'"
  obtains (absent) "lookup m k = None" "r = None" "m' = m"
    | (present) e x e' where "lookup m k = Some e" "f e = Inr (x, e')" "r = Some x" "lookup m' = (lookup m)(k \<mapsto> e')" "inv m'"
proof (cases "lookup m k")
  case None
  then have "r = None \<and> m = m'" using assms(2) by (simp add: access_def)
  with None show thesis by (intro absent) simp_all
next
  case (Some e)
  with assms(2) obtain x e' where f: "f e = Inr (x, e')" "r = Some x" "m' = store m k e'" by (auto simp: access_def)
  have fit: "fits k e'" by (rule assms(3) [OF Some f(1)])
  show thesis
    by (rule present [OF Some f(1,2)]) (simp_all only: f(3) lookup_store [OF assms(1) Some fit] store_inv [OF assms(1) Some fit])
qed

lemma access_other:
  assumes "inv m" "access m k f = Inr (r, m')" "\<And>e r e'. lookup m k = Some e \<Longrightarrow> f e = Inr (r, e') \<Longrightarrow> fits k e'" "j \<noteq> k"
  shows "lookup m' j = lookup m j"
  by (rule access_ok [OF assms(1-3)]) (use assms(4) in simp_all)

text \<open>A reader changes nothing.\<close>

lemma access_read:
  assumes "inv m" "lookup m k = Some e" "fits k e"
  shows "\<exists>m'. access m k (\<lambda>e. Inr (g e, e)) = Inr (Some (g e), m') \<and> lookup m' = lookup m \<and> inv m'"
  using assms lookup_store [OF assms] store_inv [OF assms] by (auto simp: access_def)

end

end
