(* ===== verification/Nr_Rlc_Um_Rx.thy ===== *)
theory Nr_Rlc_Um_Rx
  imports Nr_Rlc_Um Nr_Rlc_Order
begin

text \<open>
  The receiver of the unacknowledged mode entity. The invariant \<open>um_rx_inv\<close> states that the
  reception list is ordered, holds well-formed PDUs of the reassembly window only, and that the
  byte count covers it. Every input keeps it: no byte string received from the peer makes the
  entity leave its buffers, loop for ever or lose the order of its list
  (\<open>um_recv_pdu_safe\<close>), and neither does the expiry of the reassembly timer
  (\<open>um_set_time_safe\<close>).
\<close>

section \<open>The window\<close>

definition um_cfg :: "nr_rlc_entity_um \<Rightarrow> bool" where
  "um_cfg e \<longleftrightarrow>
     (um_sn_field_length e = 6 \<or> um_sn_field_length e = 12) \<and>
     um_sn_modulus e = 2 ^ nat (um_sn_field_length e) \<and>
     um_sn_modulus e = 2 * um_window_size e \<and>
     sn_valid (um_sn_modulus e) (um_rx_next_highest e)"

lemma um_cfg_pos: "um_cfg e \<Longrightarrow> 0 < um_window_size e \<and> um_window_size e < um_sn_modulus e"
  by (auto simp: um_cfg_def)

lemma um_cfg_highest: "um_cfg e \<Longrightarrow> sn_valid (um_sn_modulus e) (um_rx_next_highest e)"
  unfolding um_cfg_def by blast

lemma um_modulus_rx_eq:
  assumes "um_cfg e" and "sn_valid (um_sn_modulus e) a"
  shows "um_modulus_rx e a = (a - um_rx_next_highest e + um_window_size e) mod um_sn_modulus e"
proof -
  let ?r = "a - (um_rx_next_highest e - um_window_size e)"
  have "?r + um_sn_modulus e \<ge> 0"
    using assms um_cfg_pos [OF assms(1)] by (simp add: um_cfg_def sn_valid_def)
  then have "um_modulus_rx e a = ?r mod um_sn_modulus e"
    by (auto simp: um_modulus_rx_def Let_def)
  then show ?thesis by (simp add: algebra_simps)
qed

lemma mod_shift_inj:
  assumes "(a + c) mod m = (b + c) mod (m::int)" and "sn_valid m a" and "sn_valid m b"
  shows "a = b"
proof -
  have "a mod m = b mod m"
    using assms(1) by (metis add_diff_cancel_right' mod_diff_left_eq)
  with assms(2,3) show ?thesis by (simp add: sn_valid_def)
qed

interpretation um_order: sn_order um_cfg um_sn_compare_rx um_modulus_rx um_sn_modulus
proof
  fix e a b
  show "um_sn_compare_rx e a b = um_modulus_rx e a - um_modulus_rx e b"
    by (simp add: um_sn_compare_rx_def)
next
  fix e a
  assume "um_cfg e" and "sn_valid (um_sn_modulus e) a"
  then show "sn_valid (um_sn_modulus e) (um_modulus_rx e a)"
    using um_cfg_pos [of e] by (simp add: um_modulus_rx_eq) (simp add: sn_valid_def)
next
  fix e a b
  assume "um_cfg e" "sn_valid (um_sn_modulus e) a" "sn_valid (um_sn_modulus e) b"
    and "um_modulus_rx e a = um_modulus_rx e b"
  then have "(a + (um_window_size e - um_rx_next_highest e)) mod um_sn_modulus e =
      (b + (um_window_size e - um_rx_next_highest e)) mod um_sn_modulus e"
    by (simp add: um_modulus_rx_eq algebra_simps)
  with \<open>sn_valid _ a\<close> \<open>sn_valid _ b\<close> show "a = b" using mod_shift_inj by blast
qed

lemma um_key_highest: "um_cfg e \<Longrightarrow> um_modulus_rx e (um_rx_next_highest e) = um_window_size e"
  using um_cfg_pos [of e] by (subst um_modulus_rx_eq) (auto simp: um_cfg_def)

lemma um_ge_highest:
  "um_cfg e \<Longrightarrow> um_sn_compare_rx e a (um_rx_next_highest e) \<ge> 0 \<longleftrightarrow>
     \<not> um_modulus_rx e a < um_window_size e"
  by (simp add: um_order.cmp_ge_key um_key_highest not_less)

lemma crem_valid: "0 \<le> a \<Longrightarrow> 0 < m \<Longrightarrow> sn_valid m (crem a m)"
  by (simp add: sn_valid_def)

text \<open>Moving the window up to the sequence number \<open>x\<close> shifts the keys by a constant.\<close>

lemma um_key_shift:
  assumes "um_cfg e" and "sn_valid (um_sn_modulus e) x" and "sn_valid (um_sn_modulus e) a"
    and "\<not> um_modulus_rx e x < um_window_size e"
    and e': "e' = e\<lparr>um_rx_next_highest := crem (x + 1) (um_sn_modulus e)\<rparr>"
  defines "d \<equiv> um_modulus_rx e x - um_window_size e + 1"
  shows "um_cfg e'" and "0 < d" and "d \<le> um_sn_modulus e - um_window_size e"
    and "um_modulus_rx e' a = (if d \<le> um_modulus_rx e a then um_modulus_rx e a - d
           else um_modulus_rx e a - d + um_sn_modulus e)"
proof -
  let ?m = "um_sn_modulus e" and ?w = "um_window_size e" and ?h = "um_rx_next_highest e"
  have wm: "0 < ?w" "?w < ?m" using um_cfg_pos [OF assms(1)] by auto
  show cfg: "um_cfg e'"
    using assms(1,2) wm by (simp add: um_cfg_def e' sn_valid_def)
  have kx: "0 \<le> um_modulus_rx e x" "um_modulus_rx e x < ?m"
    and ka: "0 \<le> um_modulus_rx e a" "um_modulus_rx e a < ?m"
    using um_order.key_range [OF assms(1,2)] um_order.key_range [OF assms(1,3)]
    by (auto simp: sn_valid_def)
  show d: "0 < d" "d \<le> ?m - ?w" using assms(4) kx by (auto simp: d_def)
  have "um_modulus_rx e' a = (a - (x + 1) mod ?m + ?w) mod ?m"
    using um_modulus_rx_eq [OF cfg, of a] assms(2,3) by (simp add: e' sn_valid_def)
  also have "\<dots> = (a - (x + 1) + ?w) mod ?m"
    by (metis mod_add_left_eq mod_diff_right_eq)
  also have "a - (x + 1) + ?w = (a - ?h + ?w) - (x - ?h + ?w) + ?w - 1" by simp
  also have "\<dots> mod ?m = ((a - ?h + ?w) mod ?m - (x - ?h + ?w) mod ?m + ?w - 1) mod ?m"
    by (metis (no_types, opaque_lifting) add_diff_eq mod_add_left_eq mod_diff_eq)
  also have "\<dots> = (um_modulus_rx e a - d) mod ?m"
    using assms(1-3) by (simp add: um_modulus_rx_eq d_def algebra_simps)
  also have "\<dots> = (if d \<le> um_modulus_rx e a then um_modulus_rx e a - d
       else um_modulus_rx e a - d + ?m)"
  proof (cases "d \<le> um_modulus_rx e a")
    case True
    with d ka show ?thesis by (simp add: mod_pos_pos_trivial)
  next
    case False
    have "(um_modulus_rx e a - d) mod ?m = (um_modulus_rx e a - d + ?m) mod ?m" by simp
    also have "\<dots> = um_modulus_rx e a - d + ?m"
      using False d ka wm by (intro mod_pos_pos_trivial) linarith+
    finally show ?thesis using False by simp
  qed
  finally show "um_modulus_rx e' a = (if d \<le> um_modulus_rx e a then um_modulus_rx e a - d
       else um_modulus_rx e a - d + ?m)" .
qed

section \<open>Invariant\<close>

definition um_rx_ok :: "nr_rlc_entity_um \<Rightarrow> (nr_rlc_pdu \<Rightarrow> bool) \<Rightarrow> bool" where
  "um_rx_ok e A \<longleftrightarrow>
     um_cfg e \<and> sn_valid (um_sn_modulus e) (um_rx_next_reassembly e) \<and>
     sn_valid (um_sn_modulus e) (um_rx_timer_trigger e) \<and>
     sorted_wrt (sn_le (um_modulus_rx e) pdu_sn pdu_so) (um_rx_list e) \<and>
     (\<forall>p \<in> set (um_rx_list e). sn_valid (um_sn_modulus e) (pdu_sn p) \<and> pdu_wf p \<and>
        (um_modulus_rx e (pdu_sn p) < um_window_size e \<or> A p)) \<and>
     sum_list (map pdu_size (um_rx_list e)) \<le> um_rx_size e"

definition um_rx_inv :: "nr_rlc_entity_um \<Rightarrow> bool" where
  "um_rx_inv e \<longleftrightarrow> um_rx_ok e (\<lambda>_. False)"

lemma um_rx_inv_new: "new_nr_rlc_entity_um rxs txs t n = Inr e \<Longrightarrow> um_rx_inv e"
  by (auto simp: new_nr_rlc_entity_um_def um_rx_inv_def um_rx_ok_def um_cfg_def sn_valid_def
      push_bit_eq_mult split: if_splits)

lemma um_key_cong [simp]:
  "um_modulus_rx (e\<lparr>um_common := c\<rparr>) = um_modulus_rx e"
  "um_modulus_rx (e\<lparr>um_rx_next_reassembly := r\<rparr>) = um_modulus_rx e"
  "um_modulus_rx (e\<lparr>um_rx_timer_trigger := r\<rparr>) = um_modulus_rx e"
  "um_modulus_rx (e\<lparr>um_t_reassembly_start := t\<rparr>) = um_modulus_rx e"
  "um_modulus_rx (e\<lparr>um_t_current := t\<rparr>) = um_modulus_rx e"
  "um_modulus_rx (e\<lparr>um_rx_list := l\<rparr>) = um_modulus_rx e"
  "um_modulus_rx (e\<lparr>um_rx_size := n\<rparr>) = um_modulus_rx e"
  by (simp_all add: um_modulus_rx_def fun_eq_iff Let_def)

lemma um_cfg_cong [simp]:
  "um_cfg (e\<lparr>um_common := c\<rparr>) = um_cfg e"
  "um_cfg (e\<lparr>um_rx_next_reassembly := r\<rparr>) = um_cfg e"
  "um_cfg (e\<lparr>um_rx_timer_trigger := r\<rparr>) = um_cfg e"
  "um_cfg (e\<lparr>um_t_reassembly_start := t\<rparr>) = um_cfg e"
  "um_cfg (e\<lparr>um_t_current := t\<rparr>) = um_cfg e"
  "um_cfg (e\<lparr>um_rx_list := l\<rparr>) = um_cfg e"
  "um_cfg (e\<lparr>um_rx_size := n\<rparr>) = um_cfg e"
  by (simp_all add: um_cfg_def)

lemma um_rx_ok_frame [simp]:
  "um_rx_ok (e\<lparr>um_common := c\<rparr>) A = um_rx_ok e A"
  "um_rx_ok (e\<lparr>um_t_reassembly_start := t\<rparr>) A = um_rx_ok e A"
  "um_rx_ok (e\<lparr>um_t_current := t\<rparr>) A = um_rx_ok e A"
  by (simp_all add: um_rx_ok_def)

lemma um_rx_inv_frame [simp]:
  "um_rx_inv (e\<lparr>um_common := c\<rparr>) = um_rx_inv e"
  "um_rx_inv (e\<lparr>um_t_reassembly_start := t\<rparr>) = um_rx_inv e"
  "um_rx_inv (e\<lparr>um_t_current := t\<rparr>) = um_rx_inv e"
  by (simp_all add: um_rx_inv_def)

lemma um_sn_pdus:
  "um_rx_ok e A \<Longrightarrow> sn_pdus (um_rx_list e) sn = filter (\<lambda>p. pdu_sn p = sn) (um_rx_list e)"
  unfolding sn_pdus_def um_rx_ok_def by (rule sorted_run) blast

text \<open>The sequence number above the window has no PDU, so the skipping loops end.\<close>

lemma um_highest_not_delivered:
  assumes "um_rx_inv e"
  shows "\<not> um_sdu_delivered e (um_rx_next_highest e)"
proof -
  have "filter (\<lambda>p. pdu_sn p = um_rx_next_highest e) (um_rx_list e) = []"
    using assms um_key_highest [of e]
    by (fastforce simp: um_rx_inv_def um_rx_ok_def filter_empty_conv)
  then show ?thesis
    using assms by (simp add: um_sdu_delivered_def um_rx_inv_def um_sn_pdus)
qed

lemma um_skip_ok:
  assumes "um_rx_inv e" and "sn_valid (um_sn_modulus e) x"
  shows "\<exists>r. skip_delivered (um_sdu_delivered e) (um_sn_modulus e) x = Inr r \<and>
     sn_valid (um_sn_modulus e) r \<and> \<not> um_sdu_delivered e r"
proof -
  have h: "sn_valid (um_sn_modulus e) (um_rx_next_highest e)" and m: "0 < um_sn_modulus e"
    using assms(1) um_cfg_pos [of e] by (auto simp: um_rx_inv_def um_rx_ok_def um_cfg_def)
  obtain j where "skip_delivered (um_sdu_delivered e) (um_sn_modulus e) x =
      Inr ((x + int j) mod um_sn_modulus e)" "\<not> um_sdu_delivered e ((x + int j) mod um_sn_modulus e)"
    using skip_delivered_ok [of x "um_sn_modulus e" "um_rx_next_highest e" "um_sdu_delivered e"]
      um_highest_not_delivered [OF assms(1)] h assms(2) by (auto simp: sn_valid_def)
  with m show ?thesis by (simp add: sn_valid_def)
qed

section \<open>Reassembly\<close>

definition free_data :: "int \<Rightarrow> nr_rlc_pdu \<Rightarrow> nr_rlc_pdu" where
  "free_data sn p = (if pdu_sn p = sn then p\<lparr>pdu_data := None, pdu_size := 0\<rparr> else p)"

lemma free_data_simps [simp]:
  "pdu_sn (free_data sn p) = pdu_sn p"
  "pdu_so (free_data sn p) = pdu_so p"
  "pdu_wf p \<Longrightarrow> pdu_wf (free_data sn p)"
  by (auto simp: free_data_def pdu_wf_def)

lemma takeWhile_filter_rest:
  "takeWhile Q l = filter Q l \<Longrightarrow> x \<in> set (dropWhile Q l) \<Longrightarrow> \<not> Q x"
  by (induction l) (auto simp: filter_empty_conv split: if_splits dest: sym)

lemma free_data_run:
  assumes "takeWhile (\<lambda>p. pdu_sn p = sn) l = filter (\<lambda>p. pdu_sn p = sn) l"
  shows "map (free_data sn) l =
     map (\<lambda>p. p\<lparr>pdu_data := None, pdu_size := 0\<rparr>) (takeWhile (\<lambda>p. pdu_sn p = sn) l) @
     dropWhile (\<lambda>p. pdu_sn p = sn) l"
proof -
  let ?Q = "\<lambda>p. pdu_sn p = sn"
  have "map (free_data sn) l = map (free_data sn) (takeWhile ?Q l) @ map (free_data sn) (dropWhile ?Q l)"
    by (metis map_append takeWhile_dropWhile_id)
  moreover have "map (free_data sn) (takeWhile ?Q l) =
      map (\<lambda>p. p\<lparr>pdu_data := None, pdu_size := 0\<rparr>) (takeWhile ?Q l)"
    by (rule map_cong) (auto simp: free_data_def dest: set_takeWhileD)
  moreover have "map (free_data sn) (dropWhile ?Q l) = dropWhile ?Q l"
  proof (rule map_idI)
    fix x assume "x \<in> set (dropWhile ?Q l)"
    then have "pdu_sn x \<noteq> sn" by (rule takeWhile_filter_rest [OF assms])
    then show "free_data sn x = x" by (simp add: free_data_def)
  qed
  ultimately show ?thesis by simp
qed

lemma um_free_data_sorted:
  "sorted_wrt (sn_le key pdu_sn pdu_so) l \<Longrightarrow> um_free_data l sn = map (free_data sn) l"
proof (induction l)
  case (Cons p l)
  show ?case
  proof (cases "pdu_sn p = sn")
    case True
    with free_data_run [OF sorted_run_from [OF Cons.prems True]] show ?thesis
      by (simp add: um_free_data_def sn_pdus_def free_data_def [of _ p])
  next
    case False
    with Cons show ?thesis by (simp add: um_free_data_def sn_pdus_def free_data_def [of _ p])
  qed
qed (simp add: um_free_data_def sn_pdus_def)

lemma um_free_data_eq:
  "um_rx_ok e A \<Longrightarrow> um_free_data (um_rx_list e) sn = map (free_data sn) (um_rx_list e)"
  unfolding um_rx_ok_def by (blast intro: um_free_data_sorted)

lemma sum_free_data:
  "sum_list (map pdu_size (map (free_data sn) l)) = sum_list (map pdu_size l) -
     sum_list (map pdu_size (filter (\<lambda>p. pdu_sn p = sn) l))"
  by (induction l) (auto simp: free_data_def)

lemma um_rx_ok_free_data:
  assumes "um_rx_ok e A" and "\<And>p. A p \<Longrightarrow> A (free_data sn p)"
  shows "um_rx_ok (e\<lparr>um_rx_list := um_free_data (um_rx_list e) sn,
     um_rx_size := um_rx_size e - sum_list (map pdu_size (sn_pdus (um_rx_list e) sn))\<rparr>) A"
proof -
  have l: "um_free_data (um_rx_list e) sn = map (free_data sn) (um_rx_list e)"
    by (rule um_free_data_eq [OF assms(1)])
  have sort: "sorted_wrt (sn_le (um_modulus_rx e) pdu_sn pdu_so) (map (free_data sn) (um_rx_list e))"
    using assms(1) by (simp add: um_rx_ok_def sorted_wrt_map sn_le_def [abs_def])
  have sum: "sum_list (map pdu_size (map (free_data sn) (um_rx_list e))) \<le>
      um_rx_size e - sum_list (map pdu_size (sn_pdus (um_rx_list e) sn))"
    using assms(1) unfolding sum_free_data um_sn_pdus [OF assms(1)] by (simp add: um_rx_ok_def)
  show ?thesis
    using assms sort sum unfolding l by (simp add: um_rx_ok_def) blast
qed

lemma um_reassemble_ok:
  assumes "um_rx_ok e A" and "\<And>p. A p \<Longrightarrow> A (free_data x p)"
    and "um_sdu_full e x"
  shows "\<exists>e' c. um_reassemble_and_deliver e x = Inr e' \<and> um_rx_ok e' A \<and>
     e' = e\<lparr>um_rx_list := um_free_data (um_rx_list e) x,
     um_rx_size := um_rx_size e - sum_list (map pdu_size (sn_pdus (um_rx_list e) x)),
     um_common := c\<rparr>"
proof -
  have ne: "sn_pdus (um_rx_list e) x \<noteq> []"
    using assms(3) by (auto simp: um_sdu_full_def)
  have wf: "\<forall>p \<in> set (sn_pdus (um_rx_list e) x). pdu_wf p"
    using assms(1) by (auto simp: um_sn_pdus [OF assms(1)] um_rx_ok_def)
  let ?e = "e\<lparr>um_rx_list := um_free_data (um_rx_list e) x,
     um_rx_size := um_rx_size e - sum_list (map pdu_size (sn_pdus (um_rx_list e) x))\<rparr>"
  obtain sdu bad where r: "reassemble (sn_pdus (um_rx_list e) x) = Inr (sdu, bad)"
    using reassemble_ok [OF wf] by blast
  define c where "c = (if bad then um_common e else upd_stats (stat_txsdu (int (length sdu)))
      (upcall (Deliver_sdu sdu) (um_common e)))"
  have "um_reassemble_and_deliver e x = Inr (?e\<lparr>um_common := c\<rparr>)"
    using ne r by (simp add: um_reassemble_and_deliver_def Let_def c_def)
  with um_rx_ok_free_data [OF assms(1,2)] show ?thesis by auto
qed

section \<open>Reception actions\<close>

lemma um_reception_full_ok:
  assumes "um_rx_inv e" and "um_sdu_full e x"
  shows "\<exists>e'. um_reception_full e x = Inr e' \<and> um_rx_inv e'"
proof -
  obtain e1 c where e1: "um_reassemble_and_deliver e x = Inr e1" "um_rx_inv e1"
    using um_reassemble_ok [of e "\<lambda>_. False" x] assms by (auto simp: um_rx_inv_def)
  then have v: "sn_valid (um_sn_modulus e1) (um_rx_next_reassembly e1)"
    by (simp add: um_rx_inv_def um_rx_ok_def)
  obtain r where "skip_delivered (um_sdu_delivered e1) (um_sn_modulus e1)
      (um_rx_next_reassembly e1) = Inr r" "sn_valid (um_sn_modulus e1) r"
    using um_skip_ok [OF e1(2) v] by blast
  with e1 show ?thesis
    by (auto simp: um_reception_full_def um_rx_inv_def um_rx_ok_def)
qed

lemma um_discard_out_of_window_eq:
  "\<exists>c'. um_discard_out_of_window out l (n, c) = (dropWhile (\<lambda>p. out (pdu_sn p)) l,
      n - sum_list (map pdu_size (takeWhile (\<lambda>p. out (pdu_sn p)) l)), c') \<and>
      c_upcalls c' = c_upcalls c \<and> c_bstatus c' = c_bstatus c"
proof (induction l arbitrary: n c)
  case (Cons p l)
  show ?case
  proof (cases "out (pdu_sn p)")
    case True
    obtain c' where "um_discard_out_of_window out l
       (n - pdu_size p, upd_stats (stat_rxpdu_ow (pdu_size p)) (upd_stats (stat_rxpdu_dd (pdu_size p)) c)) =
       (dropWhile (\<lambda>p. out (pdu_sn p)) l,
        n - pdu_size p - sum_list (map pdu_size (takeWhile (\<lambda>p. out (pdu_sn p)) l)), c') \<and>
        c_upcalls c' = c_upcalls c \<and> c_bstatus c' = c_bstatus c"
      using Cons.IH [of "n - pdu_size p" "upd_stats (stat_rxpdu_ow (pdu_size p))
         (upd_stats (stat_rxpdu_dd (pdu_size p)) c)"] by auto
    with True show ?thesis by (intro exI [of _ c']) simp
  qed simp
qed simp

text \<open>Cutting the elements that a window shift moves out of an ordered list.\<close>

lemma window_shift_list:
  fixes key key' :: "int \<Rightarrow> int"
  assumes sorted: "sorted_wrt (sn_le key pdu_sn pdu_so) l"
    and dw: "0 < d" "d \<le> m - w" "w < m"
    and shift: "\<And>p. p \<in> set l \<Longrightarrow> key' (pdu_sn p) =
        (if d \<le> key (pdu_sn p) then key (pdu_sn p) - d else key (pdu_sn p) - d + m)"
    and win: "\<And>p. p \<in> set l \<Longrightarrow> 0 \<le> key (pdu_sn p) \<and> key (pdu_sn p) < w + d"
  defines "l' \<equiv> dropWhile (\<lambda>p. \<not> key' (pdu_sn p) < w) l"
  shows "sorted_wrt (sn_le key' pdu_sn pdu_so) l'" and "\<And>p. p \<in> set l' \<Longrightarrow> key' (pdu_sn p) < w"
proof -
  have out: "key' (pdu_sn p) < w \<longleftrightarrow> d \<le> key (pdu_sn p)" if "p \<in> set l" for p
    using shift [OF that] win [OF that] dw by auto
  have sub: "set l' \<subseteq> set l" by (auto simp: l'_def dest: set_dropWhileD)
  have srt: "sorted_wrt (sn_le key pdu_sn pdu_so) l'"
    unfolding l'_def by (rule sorted_wrt_dropWhile [OF sorted])
  have inside: "d \<le> key (pdu_sn p)" if "p \<in> set l'" for p
  proof (cases l')
    case (Cons q k)
    have "dropWhile (\<lambda>p. \<not> key' (pdu_sn p) < w) l = q # k" using Cons l'_def by simp
    then have "key' (pdu_sn q) < w" by (metis dropWhile_eq_Cons_conv)
    then have "d \<le> key (pdu_sn q)" using out [of q] sub Cons by auto
    moreover have "key (pdu_sn q) \<le> key (pdu_sn p)"
      using srt that Cons by (auto simp: sn_le_def)
    ultimately show ?thesis by simp
  qed (use that in simp)
  show "key' (pdu_sn p) < w" if "p \<in> set l'" for p
    using inside [OF that] out sub that by auto
  have "sn_le key' pdu_sn pdu_so p q" if "p \<in> set l'" "q \<in> set l'" "sn_le key pdu_sn pdu_so p q" for p q
  proof -
    have "p \<in> set l" "q \<in> set l" using that sub by auto
    with that inside [OF that(1)] inside [OF that(2)] shift [of p] shift [of q] show ?thesis
      by (auto simp: sn_le_def)
  qed
  then show "sorted_wrt (sn_le key' pdu_sn pdu_so) l'"
    using srt by (rule_tac sorted_wrt_mono_rel [where P = "sn_le key pdu_sn pdu_so"]) auto
qed

lemma sum_takeWhile_dropWhile:
  "sum_list (map f (dropWhile P l)) = sum_list (map f l) - (sum_list (map f (takeWhile P l)) :: int)"
  by (induction l) auto

lemma um_move_window_frame:
  assumes "um_cfg e" and "sn_valid (um_sn_modulus e) x"
  shows "\<exists>c. um_move_window e x = e\<lparr>um_rx_next_highest := (x + 1) mod um_sn_modulus e,
     um_rx_list := dropWhile (\<lambda>p. \<not> um_modulus_rx (um_move_window e x) (pdu_sn p) < um_window_size e)
       (um_rx_list e),
     um_rx_size := um_rx_size e - sum_list (map pdu_size (takeWhile
       (\<lambda>p. \<not> um_modulus_rx (um_move_window e x) (pdu_sn p) < um_window_size e) (um_rx_list e))),
     um_common := c\<rparr> \<and> c_upcalls c = c_upcalls (um_common e)"
proof -
  let ?e = "e\<lparr>um_rx_next_highest := (x + 1) mod um_sn_modulus e\<rparr>"
  have cfg: "um_cfg ?e"
    using assms um_cfg_pos [OF assms(1)] by (simp add: um_cfg_def sn_valid_def)
  have cr: "crem (x + 1) (um_sn_modulus e) = (x + 1) mod um_sn_modulus e"
    using assms(2) by (simp add: sn_valid_def)
  have out: "(\<lambda>sn. um_sn_compare_rx ?e sn (um_rx_next_highest ?e) \<ge> 0) =
      (\<lambda>sn. \<not> um_modulus_rx ?e sn < um_window_size e)"
    using um_ge_highest [OF cfg] by (auto simp: fun_eq_iff)
  obtain c where c: "um_discard_out_of_window (\<lambda>sn. \<not> um_modulus_rx ?e sn < um_window_size e)
       (um_rx_list e) (um_rx_size e, um_common e) =
      (dropWhile (\<lambda>p. \<not> um_modulus_rx ?e (pdu_sn p) < um_window_size e) (um_rx_list e),
       um_rx_size e - sum_list (map pdu_size (takeWhile
          (\<lambda>p. \<not> um_modulus_rx ?e (pdu_sn p) < um_window_size e) (um_rx_list e))), c)"
    "c_upcalls c = c_upcalls (um_common e)"
    using um_discard_out_of_window_eq [of "\<lambda>sn. \<not> um_modulus_rx ?e sn < um_window_size e"
        "um_rx_list e" "um_rx_size e" "um_common e"] by auto
  have mw: "um_move_window e x = ?e\<lparr>
     um_rx_list := dropWhile (\<lambda>p. \<not> um_modulus_rx ?e (pdu_sn p) < um_window_size e) (um_rx_list e),
     um_rx_size := um_rx_size e - sum_list (map pdu_size (takeWhile
       (\<lambda>p. \<not> um_modulus_rx ?e (pdu_sn p) < um_window_size e) (um_rx_list e))), um_common := c\<rparr>"
    using out by (simp add: um_move_window_def Let_def cr c)
  then have "um_modulus_rx (um_move_window e x) = um_modulus_rx ?e" by simp
  with mw c(2) show ?thesis by (intro exI [of _ c]) simp
qed

lemma um_move_window_inv:
  assumes ok: "um_rx_ok e (\<lambda>p. pdu_sn p = x)" and x: "sn_valid (um_sn_modulus e) x"
    and high: "\<not> um_modulus_rx e x < um_window_size e"
  shows "um_rx_inv (um_move_window e x)"
proof -
  have cfg: "um_cfg e" using ok by (simp add: um_rx_ok_def)
  define e' where "e' = um_move_window e x"
  define e1 where "e1 = e\<lparr>um_rx_next_highest := crem (x + 1) (um_sn_modulus e)\<rparr>"
  let ?d = "um_modulus_rx e x - um_window_size e + 1"
  obtain c where e': "e' = e\<lparr>um_rx_next_highest := (x + 1) mod um_sn_modulus e,
     um_rx_list := dropWhile (\<lambda>p. \<not> um_modulus_rx e' (pdu_sn p) < um_window_size e)
       (um_rx_list e),
     um_rx_size := um_rx_size e - sum_list (map pdu_size (takeWhile
       (\<lambda>p. \<not> um_modulus_rx e' (pdu_sn p) < um_window_size e) (um_rx_list e))),
     um_common := c\<rparr>"
    using um_move_window_frame [OF cfg x] unfolding e'_def by blast
  have f: "um_rx_list e' = dropWhile (\<lambda>p. \<not> um_modulus_rx e' (pdu_sn p) < um_window_size e)
       (um_rx_list e)"
    "um_rx_size e' = um_rx_size e - sum_list (map pdu_size (takeWhile
       (\<lambda>p. \<not> um_modulus_rx e' (pdu_sn p) < um_window_size e) (um_rx_list e)))"
    "um_sn_modulus e' = um_sn_modulus e" "um_window_size e' = um_window_size e"
    "um_rx_next_reassembly e' = um_rx_next_reassembly e"
    "um_rx_timer_trigger e' = um_rx_timer_trigger e"
    "um_rx_next_highest e' = um_rx_next_highest e1" "um_sn_field_length e' = um_sn_field_length e"
    by (subst e', use x in \<open>simp add: e1_def sn_valid_def\<close>)+
  have key: "um_modulus_rx e' = um_modulus_rx e1"
    by (simp add: um_modulus_rx_def fun_eq_iff Let_def f e1_def)
  have val: "sn_valid (um_sn_modulus e) (pdu_sn p)" if "p \<in> set (um_rx_list e)" for p
    using ok that by (simp add: um_rx_ok_def)
  note sh = um_key_shift [OF cfg x _ high e1_def]
  have k: "um_modulus_rx e' (pdu_sn p) = (if ?d \<le> um_modulus_rx e (pdu_sn p)
      then um_modulus_rx e (pdu_sn p) - ?d
      else um_modulus_rx e (pdu_sn p) - ?d + um_sn_modulus e)" if "p \<in> set (um_rx_list e)" for p
    using sh(4) [OF val [OF that]] by (simp only: key)
  have w: "0 \<le> um_modulus_rx e (pdu_sn p) \<and> um_modulus_rx e (pdu_sn p) < um_window_size e + ?d"
    if "p \<in> set (um_rx_list e)" for p
    using um_order.key_range [OF cfg val [OF that]] ok that high
    by (auto simp: um_rx_ok_def sn_valid_def)
  have srt: "sorted_wrt (sn_le (um_modulus_rx e) pdu_sn pdu_so) (um_rx_list e)"
    using ok by (simp add: um_rx_ok_def)
  note ws = window_shift_list [OF srt sh(2) [OF x] sh(3) [OF x] _ k w, folded f(1)]
  have cfg': "um_cfg e'" using sh(1) [OF x] by (auto simp: um_cfg_def f e1_def)
  have sub: "p \<in> set (um_rx_list e)" if "p \<in> set (um_rx_list e')" for p
    using that unfolding f(1) by (rule set_dropWhileD)
  have sum: "sum_list (map pdu_size (um_rx_list e')) \<le> um_rx_size e'"
    using ok unfolding f(1,2) sum_takeWhile_dropWhile by (simp add: um_rx_ok_def)
  have wm: "um_window_size e < um_sn_modulus e" using um_cfg_pos [OF cfg] by simp
  have all: "\<forall>p \<in> set (um_rx_list e'). sn_valid (um_sn_modulus e') (pdu_sn p) \<and> pdu_wf p \<and>
      (um_modulus_rx e' (pdu_sn p) < um_window_size e' \<or> False)"
  proof
    fix p assume p: "p \<in> set (um_rx_list e')"
    have "pdu_wf p" using ok sub [OF p] by (simp add: um_rx_ok_def)
    with val [OF sub [OF p]] ws(2) [OF wm _ _ p]
    show "sn_valid (um_sn_modulus e') (pdu_sn p) \<and> pdu_wf p \<and>
      (um_modulus_rx e' (pdu_sn p) < um_window_size e' \<or> False)"
      by (simp add: f(3,4))
  qed
  have v: "sn_valid (um_sn_modulus e') (um_rx_next_reassembly e')"
    "sn_valid (um_sn_modulus e') (um_rx_timer_trigger e')"
    using ok by (simp_all add: um_rx_ok_def f(3,5,6))
  show ?thesis
    unfolding e'_def [symmetric] um_rx_inv_def um_rx_ok_def
    using cfg' v ws(1) [OF wm] all sum by simp
qed

lemma um_reception_not_full_ok:
  assumes ok: "um_rx_ok e (\<lambda>p. pdu_sn p = x)" and x: "sn_valid (um_sn_modulus e) x"
  shows "\<exists>e'. um_reception_not_full e x = Inr e' \<and> um_rx_inv e'"
proof -
  have cfg: "um_cfg e" using ok by (simp add: um_rx_ok_def)
  show ?thesis
  proof (cases "um_modulus_rx e x < um_window_size e")
    case True
    then have "um_rx_inv e" using ok by (auto simp: um_rx_inv_def um_rx_ok_def)
    with True show ?thesis by (auto simp: um_reception_not_full_def um_ge_highest [OF cfg])
  next
    case False
    define e' where "e' = um_move_window e x"
    have inv: "um_rx_inv e'" unfolding e'_def by (rule um_move_window_inv [OF ok x False])
    let ?s = "crem (um_rx_next_highest e' - um_window_size e' + um_sn_modulus e') (um_sn_modulus e')"
    have cfg': "um_cfg e'" using inv by (simp add: um_rx_inv_def um_rx_ok_def)
    then have "sn_valid (um_sn_modulus e') ?s"
      using um_cfg_pos [OF cfg'] by (auto simp: um_cfg_def sn_valid_def)
    then obtain r where r: "skip_delivered (um_sdu_delivered e') (um_sn_modulus e') ?s = Inr r"
      "sn_valid (um_sn_modulus e') r"
      using um_skip_ok [OF inv] by blast
    have "um_rx_inv (e'\<lparr>um_rx_next_reassembly := r\<rparr>)"
      using inv r(2) by (simp add: um_rx_inv_def um_rx_ok_def)
    with inv r(1) False show ?thesis
      by (auto simp: um_reception_not_full_def um_ge_highest [OF cfg] Let_def e'_def [symmetric])
  qed
qed

lemma um_rx_inv_trigger:
  "um_rx_inv e \<Longrightarrow> um_rx_inv (e\<lparr>um_rx_timer_trigger := um_rx_next_highest e\<rparr>)"
  using um_cfg_highest [of e] unfolding um_rx_inv_def um_rx_ok_def by simp

lemma um_reception_timer_inv: "um_rx_inv e \<Longrightarrow> um_rx_inv (um_start_t_reassembly (um_stop_t_reassembly e))"
proof -
  assume "um_rx_inv e"
  then have "um_rx_inv (um_stop_t_reassembly e)" by (simp add: um_stop_t_reassembly_def)
  then show ?thesis
    using um_rx_inv_trigger [of "um_stop_t_reassembly e"]
    by (simp add: um_start_t_reassembly_def)
qed

text \<open>The PDU that reaches \<open>reception_actions\<close>: a proper segment, already in the list.\<close>

lemma um_add_pdu_ok:
  fixes f la :: bool and data :: "byte list"
  assumes inv: "um_rx_inv e" and v: "sn_valid (um_sn_modulus e) sn" and so: "0 \<le> so"
  defines "p \<equiv> nr_rlc_new_pdu sn so f la data"
  defines "e1 \<equiv> e\<lparr>um_rx_size := um_rx_size e + int (length data),
     um_rx_list := nr_rlc_pdu_list_add (um_sn_compare_rx e) (um_rx_list e) p\<rparr>"
  shows "um_rx_ok e1 (\<lambda>q. pdu_sn q = sn)"
proof -
  have p: "pdu_sn p = sn" "pdu_wf p" "pdu_size p = int (length data)"
    using so by (auto simp: p_def nr_rlc_new_pdu_def pdu_wf_def)
  have "sorted_wrt (sn_le (um_modulus_rx e) pdu_sn pdu_so)
      (nr_rlc_pdu_list_add (um_sn_compare_rx e) (um_rx_list e) p)"
    by (rule um_order.pdu_list_add_sorted)
      (use inv v p in \<open>auto simp: um_rx_inv_def um_rx_ok_def\<close>)
  with inv v p show ?thesis
    by (auto simp: um_rx_inv_def um_rx_ok_def e1_def nr_rlc_pdu_list_add_conv)
qed

lemma um_recv_segment_ok:
  assumes inv: "um_rx_inv e" and v: "sn_valid (um_sn_modulus e) sn" and so: "0 \<le> so"
    and fl: "f \<longleftrightarrow> so = 0" "\<not> (f \<and> la)"
  shows "\<exists>e'. um_recv_segment e buf f la sn so d = Inr e' \<and> um_rx_inv e'"
proof (cases "int (length buf) - int (dec_byte d) \<le> 0 \<or>
    um_rx_size e + (int (length buf) - int (dec_byte d)) > um_rx_maxsize e \<or>
    um_sn_compare_rx e sn (um_rx_next_reassembly e) < 0")
  case True
  with inv show ?thesis by (auto simp: um_recv_segment_def Let_def um_discard_pdu_def)
next
  case False
  define data where "data = drop (dec_byte d) buf"
  define p where "p = nr_rlc_new_pdu sn so f la data"
  define e1 where "e1 = e\<lparr>um_rx_size := um_rx_size e + int (length data),
     um_rx_list := nr_rlc_pdu_list_add (um_sn_compare_rx e) (um_rx_list e) p\<rparr>"
  have ok: "um_rx_ok e1 (\<lambda>q. pdu_sn q = sn)"
    using um_add_pdu_ok [OF inv v so] by (simp add: e1_def p_def)
  have run: "um_recv_segment e buf f la sn so d = um_reception_actions e1 sn"
    using False by (simp add: um_recv_segment_def Let_def e1_def p_def data_def
        nr_rlc_new_pdu_def of_nat_diff)
  have inv1: "um_rx_inv e1" if "um_sdu_full e1 sn"
  proof -
    have "um_modulus_rx e sn < um_window_size e"
    proof (rule ccontr)
      assume "\<not> um_modulus_rx e sn < um_window_size e"
      then have "filter (\<lambda>q. pdu_sn q = sn) (um_rx_list e) = []"
        using inv by (auto simp: um_rx_inv_def um_rx_ok_def filter_empty_conv)
      moreover have "filter Q (insert_before P y l) = [y]" if "Q y" "filter Q l = []" for P Q y and l :: pdus
        using that by (induction l) (auto split: if_splits)
      ultimately have "sn_pdus (um_rx_list e1) sn = [p]"
        unfolding um_sn_pdus [OF ok] by (simp add: e1_def nr_rlc_pdu_list_add_conv p_def nr_rlc_new_pdu_def)
      with that fl so show False
        by (auto simp: um_sdu_full_def p_def nr_rlc_new_pdu_def split: if_splits)
    qed
    with ok show ?thesis by (auto simp: um_rx_inv_def um_rx_ok_def e1_def)
  qed
  have v1: "sn_valid (um_sn_modulus e1) sn" using v by (simp add: e1_def)
  obtain e2 where "(if um_sdu_full e1 sn then um_reception_full e1 sn
      else um_reception_not_full e1 sn) = Inr e2" "um_rx_inv e2"
  proof (cases "um_sdu_full e1 sn")
    case True
    with um_reception_full_ok [OF inv1 [OF True] True] that show ?thesis by auto
  next
    case False
    with um_reception_not_full_ok [OF ok v1] that show ?thesis by auto
  qed
  with run um_reception_timer_inv show ?thesis by (auto simp: um_reception_actions_def)
qed

lemma um_recv_pdu_ok:
  assumes inv: "um_rx_inv e"
  shows "\<exists>e'. nr_rlc_entity_um_recv_pdu e buf = Inr e' \<and> um_rx_inv e'" (is "\<exists>e'. ?run = Inr e' \<and> _")
proof -
  define e1 where "e1 = e\<lparr>um_common := upd_stats (stat_rxpdu (int (length buf))) (um_common e)\<rparr>"
  define err where "err = (Inr (um_discard_pdu e1 (int (length buf))) :: nr_rlc_entity_um res)"
  define good where "good r \<longleftrightarrow> (\<exists>e'. r = Inr e' \<and> um_rx_inv e')" for r :: "nr_rlc_entity_um res"
  have inv1: "um_rx_inv e1" using inv by (simp add: e1_def)
  have gerr: "good err" using inv1 by (simp add: good_def err_def um_discard_pdu_def)
  have len: "nat (um_sn_field_length e1) \<le> 31"
    and m: "um_sn_modulus e1 = 2 ^ nat (um_sn_field_length e1)"
    using inv1 by (auto simp: um_rx_inv_def um_rx_ok_def um_cfg_def)
  have field: "good (read_field d n err k)"
    if "dec_wf d" "n \<le> 31" "\<And>v d'. dec_wf d' \<Longrightarrow> 0 \<le> v \<Longrightarrow> v < 2 ^ n \<Longrightarrow> good (k v d')" for d n k
    using that gerr by (cases rule: read_field_cases [OF that(1,2), of err k]) auto
  have seg: "good (um_recv_segment e1 buf f la sn so d)"
    if "0 \<le> sn" "sn < 2 ^ nat (um_sn_field_length e1)" "0 \<le> so" "f \<longleftrightarrow> so = 0" "\<not> (f \<and> la)"
    for f la sn so d
    using um_recv_segment_ok [OF inv1 _ that(3-5)] that(1,2) m by (simp add: good_def sn_valid_def)
  have with_sn: "good (read_field d (nat (um_sn_field_length e1)) err (\<lambda>sn d.
      if \<not> f then read_field d 16 err (\<lambda>so d. if so = 0 then err
        else um_recv_segment e1 buf f la sn so d)
      else um_recv_segment e1 buf f la sn 0 d))" if "dec_wf d" "\<not> (f \<and> la)" for d f la
  proof (rule field [OF that(1) len])
    fix sn d' assume d': "dec_wf d'" "(0::int) \<le> sn" "sn < 2 ^ nat (um_sn_field_length e1)"
    have "good (read_field d' 16 err (\<lambda>so d. if so = 0 then err
        else um_recv_segment e1 buf f la sn so d))" if "\<not> f"
    proof (rule field [OF d'(1)])
      fix so d assume "(0::int) \<le> so"
      with seg [OF d'(2,3) this, of f la d] that gerr
      show "good (if so = 0 then err else um_recv_segment e1 buf f la sn so d)" by simp
    qed simp
    with seg [OF d'(2,3), of 0] that(2) show "good (if \<not> f then read_field d' 16 err
        (\<lambda>so d. if so = 0 then err else um_recv_segment e1 buf f la sn so d)
      else um_recv_segment e1 buf f la sn 0 d')"
      by auto
  qed
  have "good ?run"
    unfolding nr_rlc_entity_um_recv_pdu_def Let_def e1_def [symmetric] err_def [symmetric]
  proof (rule field [OF dec_wf_init])
    fix si d assume d: "dec_wf d" "(0::int) \<le> si" "si < 2 ^ 2"
    define f la where "f = (si AND 2 = 0)" and "la = (si AND 1 = 0)"
    define k where "k = (\<lambda>d. read_field d (nat (um_sn_field_length e1)) err (\<lambda>sn d.
      if \<not> f then read_field d 16 err (\<lambda>so d. if so = 0 then err
        else um_recv_segment e1 buf f la sn so d)
      else um_recv_segment e1 buf f la sn 0 d))"
    have "good (if um_sn_field_length e1 = 12 then read_field d 2 err (\<lambda>_. k) else k d)"
      if "\<not> (f \<and> la)"
    proof -
      have gk: "good (k d')" if "dec_wf d'" for d'
        unfolding k_def by (rule with_sn [OF that \<open>\<not> (f \<and> la)\<close>])
      have "good (read_field d 2 err (\<lambda>_. k))"
        by (rule field [OF d(1)]) (simp_all add: gk)
      with gk [OF d(1)] show ?thesis by simp
    qed
    then show "good (if f \<and> la then if int (length buf) < 2 then err
       else Inr (e1\<lparr>um_common := upd_stats (stat_txsdu (int (length buf) - 1))
              (upcall (Deliver_sdu (drop 1 buf)) (um_common e1))\<rparr>)
       else if um_sn_field_length e1 = 12 then read_field d 2 err (\<lambda>_. k) else k d)"
      using gerr inv1 by (auto simp: good_def)
  qed simp
  then show ?thesis by (simp add: good_def)
qed

lemma um_discard_before_eq:
  "\<exists>c'. um_discard_before before l c = (dropWhile (\<lambda>p. before (pdu_sn p)) l, c')"
  by (induction l arbitrary: c) auto

lemma um_check_t_reassembly_ok:
  assumes "um_rx_inv e"
  shows "\<exists>e'. um_check_t_reassembly e = Inr e' \<and> um_rx_inv e'"
proof (cases "um_t_reassembly_start e = 0 \<or>
    um_t_current e \<le> um_t_reassembly_start e + word_of_int (um_t_reassembly e)")
  case False
  obtain r where r: "skip_delivered (um_sdu_delivered e) (um_sn_modulus e) (um_rx_timer_trigger e) =
      Inr r" "sn_valid (um_sn_modulus e) r"
    using um_skip_ok [OF assms, of "um_rx_timer_trigger e"] assms
    by (auto simp: um_rx_inv_def um_rx_ok_def)
  define e1 where "e1 = e\<lparr>um_t_reassembly_start := 0, um_rx_next_reassembly := r\<rparr>"
  obtain l c where l: "um_discard_before (\<lambda>sn. um_sn_compare_rx e1 sn r < 0) (um_rx_list e1)
      (um_common e1) = (l, c)" by fastforce
  then have l': "l = dropWhile (\<lambda>p. um_sn_compare_rx e1 (pdu_sn p) r < 0) (um_rx_list e)"
    using um_discard_before_eq [of "\<lambda>sn. um_sn_compare_rx e1 sn r < 0" "um_rx_list e1" "um_common e1"]
    by (auto simp: e1_def)
  define e2 where "e2 = e1\<lparr>um_rx_list := l, um_common := c\<rparr>"
  have sz: "0 \<le> sum_list (map pdu_size (takeWhile P (um_rx_list e)))" for P
    using assms by (intro sum_list_nonneg)
      (auto simp: um_rx_inv_def um_rx_ok_def pdu_wf_def dest!: set_takeWhileD split: option.splits)
  have "sum_list (map pdu_size l) \<le> um_rx_size e"
    using sz [of "\<lambda>p. um_sn_compare_rx e1 (pdu_sn p) r < 0"] assms
    unfolding l' sum_takeWhile_dropWhile by (simp add: um_rx_inv_def um_rx_ok_def)
  moreover have "sorted_wrt (sn_le (um_modulus_rx e) pdu_sn pdu_so) l"
    unfolding l' using assms by (intro sorted_wrt_dropWhile) (simp add: um_rx_inv_def um_rx_ok_def)
  moreover have "set l \<subseteq> set (um_rx_list e)" unfolding l' by (auto dest: set_dropWhileD)
  ultimately have inv2: "um_rx_inv e2"
    using assms r(2) by (auto simp: um_rx_inv_def um_rx_ok_def e2_def e1_def)
  then have v: "sn_valid (um_sn_modulus e2) (um_rx_next_highest e2)"
    unfolding um_rx_inv_def um_rx_ok_def um_cfg_def by blast
  define fire where "fire \<longleftrightarrow> um_sn_compare_rx e2 (um_rx_next_highest e2) (crem (r + 1) (um_sn_modulus e2)) > 0 \<or>
      (um_rx_next_highest e2 = r + 1 \<and> um_sdu_has_missing_bytes e2 r)"
  define e3 where "e3 = (if fire then e2\<lparr>um_t_reassembly_start := um_t_current e2,
      um_rx_timer_trigger := um_rx_next_highest e2\<rparr> else e2)"
  have "um_check_t_reassembly e = Inr e3"
    using False
    unfolding um_check_t_reassembly_def r(1) bindr_simps Let_def e1_def [symmetric] l prod.case
      e2_def [symmetric] e3_def fire_def by simp
  moreover have "um_rx_inv e3"
    using inv2 v by (auto simp: e3_def um_rx_inv_def um_rx_ok_def)
  ultimately show ?thesis by blast
qed (use assms in \<open>auto simp: um_check_t_reassembly_def\<close>)

section \<open>Properties\<close>

text \<open>
  C22: the receiver of the unacknowledged mode entity takes any byte string. \<open>recv_pdu\<close> never
  faults (no access outside of a buffer or through a null pointer, no endless loop), and keeps the
  invariant: the reception list is ordered by sequence number and offset, holds well-formed PDUs
  of the reassembly window only, and the byte count covers them.
\<close>

theorem um_recv_pdu_safe:
  assumes "um_rx_inv e"
  shows "\<exists>e'. nr_rlc_entity_um_recv_pdu e buf = Inr e' \<and> um_rx_inv e'"
  by (rule um_recv_pdu_ok [OF assms])

lemma new_um_Inr: "\<exists>e. new_nr_rlc_entity_um rxs txs t 12 = Inr e"
proof -
  obtain c where "new_common NR_RLC_UM = Inr c" using new_common_Inr by blast
  then show ?thesis by (simp add: new_nr_rlc_entity_um_def)
qed

theorem um_recv_pdu_safe_witness:
  "\<exists>e e'. new_nr_rlc_entity_um 10000 10000 35 12 = Inr e \<and>
     nr_rlc_entity_um_recv_pdu e [255, 255, 255, 255, 255] = Inr e' \<and> um_rx_inv e'"
proof -
  obtain e where e: "new_nr_rlc_entity_um 10000 10000 35 12 = Inr e" using new_um_Inr by blast
  with um_recv_pdu_safe [OF um_rx_inv_new [OF e], of "[255, 255, 255, 255, 255]"]
  show ?thesis by blast
qed

text \<open>
  C23: the expiry of the reassembly timer. \<open>set_time\<close> always returns, for any clock value, and
  keeps the invariant of the receiver.
\<close>

theorem um_set_time_safe:
  assumes "um_rx_inv e"
  shows "\<exists>e'. nr_rlc_entity_um_set_time e now = Inr e' \<and> um_rx_inv e'"
  using um_check_t_reassembly_ok [of "e\<lparr>um_t_current := now\<rparr>"] assms
  by (simp add: nr_rlc_entity_um_set_time_def)

theorem um_set_time_safe_witness:
  "\<exists>e e'. new_nr_rlc_entity_um 10000 10000 35 12 = Inr e \<and>
     nr_rlc_entity_um_set_time e 1000 = Inr e' \<and> um_rx_inv e'"
proof -
  obtain e where e: "new_nr_rlc_entity_um 10000 10000 35 12 = Inr e" using new_um_Inr by blast
  with um_set_time_safe [OF um_rx_inv_new [OF e], of 1000] show ?thesis by blast
qed

end
