(* ===== verification/Nr_Rlc_Um_Tx.thy ===== *)
theory Nr_Rlc_Um_Tx
  imports Nr_Rlc_Um_Rx
begin

text \<open>
  The transmitter of the unacknowledged mode entity. The invariant \<open>um_tx_inv\<close> covers the
  reference counts of the SDUs, the list end, the buffer status and the byte count;
  \<open>um_generate_spec\<close> describes every case of \<open>generate_pdu\<close>: what is written into the MAC buffer
  and what remains queued.
\<close>

section \<open>Headers\<close>

definition um_hdr :: "int \<Rightarrow> bool \<Rightarrow> bool \<Rightarrow> int \<Rightarrow> int \<Rightarrow> (int \<times> nat) list" where
  "um_hdr n f la sn so =
     [(1 - of_bool f, 1), (1 - of_bool la, 1)] @
     (if f \<and> la then [(0, 6)] else (if n = 12 then [(0, 2)] else []) @ [(sn, nat n)]) @
     (if \<not> f then [(so, 16)] else [])"

lemma um_header_fields_hdr:
  "um_header_fields e seg sn =
     um_hdr (um_sn_field_length e) (seg_is_first seg) (seg_is_last seg) sn (seg_so seg)"
  by (simp add: um_header_fields_def um_hdr_def)

text \<open>A PDU on the air: its header has the bits of the fields, and the data follows.\<close>

definition is_um_pdu :: "int \<Rightarrow> bool \<Rightarrow> bool \<Rightarrow> int \<Rightarrow> int \<Rightarrow> byte list \<Rightarrow> byte list \<Rightarrow> bool" where
  "is_um_pdu n f la sn so data pdu \<longleftrightarrow>
     (\<exists>hdr. pdu = hdr @ data \<and> bits_of hdr = field_bits (um_hdr n f la sn so))"

definition um_sn_len :: "nr_rlc_entity_um \<Rightarrow> bool" where
  "um_sn_len e \<longleftrightarrow> (um_sn_field_length e = 6 \<or> um_sn_field_length e = 12) \<and>
     um_sn_modulus e = 2 ^ nat (um_sn_field_length e)"

lemma um_hdr_width:
  assumes "um_sn_len e"
  shows "int (fields_width (um_header_fields e seg sn)) = 8 * um_compute_pdu_header_size e seg"
  using assms by (auto simp: um_header_fields_hdr um_hdr_def um_compute_pdu_header_size_def um_sn_len_def)

lemma um_hdr_ok:
  assumes "um_sn_len e" and "sn_valid (um_sn_modulus e) sn" and "0 \<le> seg_so seg" "seg_so seg < 65536"
  shows "fields_ok (um_header_fields e seg sn)"
  using assms by (auto simp: um_header_fields_hdr um_hdr_def um_sn_len_def sn_valid_def)

lemma um_header_size_bounds:
  "1 \<le> um_compute_pdu_header_size e seg" "um_compute_pdu_header_size e seg \<le> 4"
  by (auto simp: um_compute_pdu_header_size_def)

lemma um_serialize_ok:
  assumes len: "um_sn_len e" and d: "deref (um_heap e) seg = Inr s" and ok: "seg_ok (um_heap e) seg"
    and sn: "sn_valid (um_sn_modulus e) (sdu_sn s)" and so: "seg_so seg < 65536"
    and fits: "um_compute_pdu_header_size e seg + seg_size seg \<le> int (length buf)"
  shows "\<exists>b. um_serialize_sdu e seg buf =
       Inr (um_compute_pdu_header_size e seg + seg_size seg, b) \<and> length b = length buf \<and>
     is_um_pdu (um_sn_field_length e) (seg_is_first seg) (seg_is_last seg) (sdu_sn s) (seg_so seg)
       (take (nat (seg_size seg)) (drop (nat (seg_so seg)) (sdu_data s)))
       (take (nat (um_compute_pdu_header_size e seg + seg_size seg)) b)"
proof -
  let ?H = "um_compute_pdu_header_size e seg" and ?f = "um_header_fields e seg (sdu_sn s)"
  have H: "1 \<le> ?H" by (rule um_header_size_bounds)
  have s: "h_sdus (um_heap e) (seg_sdu seg) = Some s"
    using d by (auto simp: deref_def split: option.splits)
  then have sg: "0 \<le> seg_so seg" "0 \<le> seg_size seg"
    "seg_so seg + seg_size seg \<le> int (length (sdu_data s))"
    using ok by (auto simp: seg_ok_def sdu_ok_def)
  have w: "fields_width ?f = 8 * nat ?H" using um_hdr_width [OF len, of seg "sdu_sn s"] H by simp
  have fo: "fields_ok ?f" by (rule um_hdr_ok [OF len sn sg(1) so])
  have "nat ?H \<le> length buf" using fits sg(2) by simp
  then obtain enc where enc: "put_fields (nr_rlc_pdu_encoder_init buf) ?f = Inr enc"
    "enc_byte enc = nat ?H" "length (enc_buffer enc) = length buf"
    "bits_of (take (nat ?H) (enc_buffer enc)) = field_bits ?f"
    using put_fields_header [OF fo w] by blast
  obtain b where b: "mem_copy (enc_buffer enc) ?H (sdu_data s) (seg_so seg) (seg_size seg) = Inr b"
    "length b = length (enc_buffer enc)"
    "take (nat (?H + seg_size seg)) b = take (nat ?H) (enc_buffer enc) @
       take (nat (seg_size seg)) (drop (nat (seg_so seg)) (sdu_data s))"
    using mem_copy_ok [of "seg_size seg" ?H "seg_so seg" "enc_buffer enc" "sdu_data s"]
      sg H fits enc(3) by auto
  have "um_serialize_sdu e seg buf = Inr (?H + seg_size seg, b)"
    using H by (simp add: um_serialize_sdu_def d enc b)
  moreover have "is_um_pdu (um_sn_field_length e) (seg_is_first seg) (seg_is_last seg) (sdu_sn s)
       (seg_so seg) (take (nat (seg_size seg)) (drop (nat (seg_so seg)) (sdu_data s)))
       (take (nat (?H + seg_size seg)) b)"
    unfolding is_um_pdu_def using b(3) enc(4) um_header_fields_hdr [of e seg] by auto
  ultimately show ?thesis using b(2) enc(3) by auto
qed

section \<open>Invariant\<close>

definition um_seg_cost :: "nr_rlc_entity_um \<Rightarrow> nr_rlc_sdu_segment \<Rightarrow> int" where
  "um_seg_cost e seg = um_compute_pdu_header_size e seg + seg_size seg"

text \<open>
  \<open>lk\<close> counts references that were lost; it is zero as long as no SDU was lost by
  \<open>generate_pdu\<close> (see \<open>um_generate_loses_sdu\<close>).
\<close>

definition um_tx_inv :: "(nat \<Rightarrow> nat) \<Rightarrow> nr_rlc_entity_um \<Rightarrow> bool" where
  "um_tx_inv lk e \<longleftrightarrow>
     um_sn_len e \<and> sn_valid (um_sn_modulus e) (um_tx_next e) \<and>
     heap_leak lk (um_heap e) (um_tx_list e) \<and> end_ok (um_tx_list e) (um_tx_end e) \<and>
     distinct (map seg_sdu (um_tx_list e)) \<and>
     (\<forall>seg \<in> set (um_tx_list e). seg_is_last seg \<and> seg_so seg + seg_size seg \<le> NR_SDU_MAX) \<and>
     (\<forall>seg \<in> set (tl (um_tx_list e)). seg_is_first seg) \<and>
     bs_tx_size (c_bstatus (um_common e)) = sum_list (map (um_seg_cost e) (um_tx_list e)) \<and>
     sum_list (map seg_size (um_tx_list e)) \<le> um_tx_size e"

lemma um_tx_inv_new:
  "new_nr_rlc_entity_um rxs txs t n = Inr e \<Longrightarrow> um_tx_inv (\<lambda>_. 0) e"
  by (auto simp: new_nr_rlc_entity_um_def new_common_def um_tx_inv_def um_sn_len_def sn_valid_def
      push_bit_eq_mult split: if_splits)

text \<open>The queue: each waiting SDU with the number of its bytes that were already sent.\<close>

definition queue_elem :: "rlc_heap \<Rightarrow> nr_rlc_sdu_segment \<Rightarrow> byte list \<times> nat" where
  "queue_elem h seg =
     (case h_sdus h (seg_sdu seg) of None \<Rightarrow> [] | Some s \<Rightarrow> sdu_data s, nat (seg_so seg))"

definition um_queue :: "nr_rlc_entity_um \<Rightarrow> (byte list \<times> nat) list" where
  "um_queue e = map (queue_elem (um_heap e)) (um_tx_list e)"

lemma queue_elem_cong:
  assumes "map_option sdu_data (h_sdus h' (seg_sdu x)) = map_option sdu_data (h_sdus h (seg_sdu x))"
  shows "queue_elem h' x = queue_elem h x"
  using assms by (auto simp: queue_elem_def split: option.splits)

lemma queue_elem_store:
  assumes "h_sdus h (seg_sdu seg) = Some s" "sdu_data s' = sdu_data s"
  shows "queue_elem (store h seg s') x = queue_elem h x"
  using assms by (intro queue_elem_cong) auto

lemma um_header_cong:
  "um_sn_field_length e' = um_sn_field_length e \<Longrightarrow>
     um_compute_pdu_header_size e' = um_compute_pdu_header_size e"
  by (simp add: um_compute_pdu_header_size_def fun_eq_iff)

lemma um_seg_cost_cong:
  "um_sn_field_length e' = um_sn_field_length e \<Longrightarrow> um_seg_cost e' = um_seg_cost e"
  by (simp add: um_seg_cost_def um_compute_pdu_header_size_def fun_eq_iff)

lemma um_tx_inv_cong:
  assumes "um_sn_field_length e' = um_sn_field_length e" "um_sn_modulus e' = um_sn_modulus e"
    "um_tx_next e' = um_tx_next e" "um_heap e' = um_heap e" "um_tx_list e' = um_tx_list e"
    "um_tx_end e' = um_tx_end e" "um_tx_size e' = um_tx_size e"
    "c_bstatus (um_common e') = c_bstatus (um_common e)"
  shows "um_tx_inv lk e' = um_tx_inv lk e"
  unfolding um_tx_inv_def um_sn_len_def um_seg_cost_cong [OF assms(1)] assms ..

section \<open>Sending the head of the queue\<close>

text \<open>
  The last part of \<open>generate_tx_pdu\<close>, for a segment \<open>seg\<close> that has been taken from the list and
  fits the buffer.
\<close>

lemma um_finish_ok:
  assumes len: "um_sn_len e" and tn: "sn_valid (um_sn_modulus e) (um_tx_next e)"
    and heap: "heap_leak lk (um_heap e) (seg # um_tx_list e)"
    and s: "h_sdus (um_heap e) (seg_sdu seg) = Some s" and sn: "sdu_sn s = um_tx_next e"
    and max: "seg_so seg + seg_size seg \<le> NR_SDU_MAX"
    and fits: "um_compute_pdu_header_size e seg + seg_size seg \<le> int (length buf)"
  shows "\<exists>b e' c h. um_finish_tx clk e seg buf =
       Inr (um_compute_pdu_header_size e seg + seg_size seg, b, e') \<and> length b = length buf \<and>
     is_um_pdu (um_sn_field_length e) (seg_is_first seg) (seg_is_last seg) (um_tx_next e) (seg_so seg)
       (take (nat (seg_size seg)) (drop (nat (seg_so seg)) (sdu_data s)))
       (take (nat (um_compute_pdu_header_size e seg + seg_size seg)) b) \<and>
     e' = e\<lparr>um_tx_next := (if \<not> seg_is_first seg \<and> seg_is_last seg
         then (um_tx_next e + 1) mod um_sn_modulus e else um_tx_next e),
         um_tx_size := um_tx_size e - seg_size seg, um_common := c, um_heap := h\<rparr> \<and>
     heap_leak lk h (um_tx_list e) \<and> c_bstatus c = c_bstatus (um_common e) \<and>
     c_upcalls c = c_upcalls (um_common e) \<and>
     (\<forall>x \<in> set (um_tx_list e). queue_elem h x = queue_elem (um_heap e) x)"
proof -
  let ?n = "if \<not> seg_is_first seg \<and> seg_is_last seg
         then (um_tx_next e + 1) mod um_sn_modulus e else um_tx_next e"
  define e1 where "e1 = e\<lparr>um_tx_next := ?n\<rparr>"
  have pos: "0 < um_sn_modulus e" using len by (auto simp: um_sn_len_def)
  have e1: "(if \<not> seg_is_first seg \<and> seg_is_last seg
      then e\<lparr>um_tx_next := crem (um_tx_next e + 1) (um_sn_modulus e)\<rparr> else e) = e1"
    using tn by (simp add: e1_def sn_valid_def)
  have f1: "um_heap e1 = um_heap e" "um_sn_field_length e1 = um_sn_field_length e"
    "um_sn_modulus e1 = um_sn_modulus e" "um_common e1 = um_common e" "um_tx_size e1 = um_tx_size e"
    "um_compute_pdu_header_size e1 = um_compute_pdu_header_size e" "um_sn_len e1 = um_sn_len e"
    by (auto simp: e1_def um_sn_len_def um_compute_pdu_header_size_def)
  have d: "deref (um_heap e) seg = Inr s" by (simp add: deref_def s)
  have sok: "seg_ok (um_heap e) seg" using heap by (simp add: heap_leak_def)
  then have "0 \<le> seg_size seg" by (auto simp: seg_ok_def)
  then have "seg_so seg < 65536" using max by (simp add: NR_SDU_MAX_def)
  then obtain b where b: "um_serialize_sdu e1 seg buf =
       Inr (um_compute_pdu_header_size e seg + seg_size seg, b)" "length b = length buf"
     "is_um_pdu (um_sn_field_length e) (seg_is_first seg) (seg_is_last seg) (um_tx_next e) (seg_so seg)
       (take (nat (seg_size seg)) (drop (nat (seg_so seg)) (sdu_data s)))
       (take (nat (um_compute_pdu_header_size e seg + seg_size seg)) b)"
    using um_serialize_ok [of e1 seg s buf] len d sok sn tn fits by (auto simp: f1)
  obtain fr h where h: "nr_rlc_free_sdu_segment (um_heap e) seg = Inr (fr, h)"
    "heap_leak lk h (um_tx_list e)" "fr \<longleftrightarrow> refs (um_tx_list e) (seg_sdu seg) + lk (seg_sdu seg) = 0"
    "\<forall>a. a \<noteq> seg_sdu seg \<longrightarrow> h_sdus h a = h_sdus (um_heap e) a"
    using heap_ok_free [OF heap] by blast
  have q: "queue_elem h x = queue_elem (um_heap e) x" if x: "x \<in> set (um_tx_list e)" for x
  proof (cases "seg_sdu x = seg_sdu seg")
    case True
    then have "\<not> fr" using h(3) refs_pos [OF x] by simp
    then have "h = store (um_heap e) seg (s\<lparr>sdu_free_count := sdu_free_count s + 1\<rparr>)"
      using h(1) d by (auto simp: nr_rlc_free_sdu_segment_def split: if_splits)
    then show ?thesis using s by (auto intro: queue_elem_store)
  next
    case False
    then show ?thesis using h(4) by (auto intro: queue_elem_cong)
  qed
  define c where "c = add_avg_time clk (sdu_time_of_arrival s)
      (upd_stats (stat_txpdu (int (length buf))) (um_common e))"
  have "um_finish_tx clk e seg buf = Inr (um_compute_pdu_header_size e seg + seg_size seg, b,
      e1\<lparr>um_tx_size := um_tx_size e - seg_size seg, um_common := c, um_heap := h\<rparr>)"
    unfolding um_finish_tx_def Let_def e1
    by (simp add: b f1 d h(1) c_def)
  with b(2,3) h(2) q show ?thesis
    by (intro exI [of _ b] exI [of _ "e1\<lparr>um_tx_size := um_tx_size e - seg_size seg,
         um_common := c, um_heap := h\<rparr>"] exI [of _ c] exI [of _ h])
      (simp add: e1_def c_def)
qed

text \<open>
  The first part of \<open>generate_tx_pdu\<close>: the head segment leaves the list and its SDU gets the
  sequence number.
\<close>

definition um_take_head :: "nr_rlc_entity_um \<Rightarrow> nr_rlc_sdu_segment \<Rightarrow> segs \<Rightarrow> nr_rlc_sdu \<Rightarrow> nr_rlc_entity_um" where
  "um_take_head e seg rest s =
     e\<lparr>um_tx_list := rest, um_tx_end := (if rest = [] then None else um_tx_end e),
       um_heap := store (um_heap e) seg (s\<lparr>sdu_sn := um_tx_next e\<rparr>),
       um_common := add_tx_size (- um_seg_cost e seg) (um_common e)\<rparr>"

lemma um_take_head_simps [simp]:
  "um_tx_list (um_take_head e seg rest s) = rest"
  "um_tx_end (um_take_head e seg rest s) = (if rest = [] then None else um_tx_end e)"
  "um_heap (um_take_head e seg rest s) = store (um_heap e) seg (s\<lparr>sdu_sn := um_tx_next e\<rparr>)"
  "um_common (um_take_head e seg rest s) = add_tx_size (- um_seg_cost e seg) (um_common e)"
  "um_tx_next (um_take_head e seg rest s) = um_tx_next e"
  "um_tx_size (um_take_head e seg rest s) = um_tx_size e"
  "um_sn_modulus (um_take_head e seg rest s) = um_sn_modulus e"
  "um_sn_field_length (um_take_head e seg rest s) = um_sn_field_length e"
  "um_compute_pdu_header_size (um_take_head e seg rest s) = um_compute_pdu_header_size e"
  "um_sn_len (um_take_head e seg rest s) = um_sn_len e"
  by (simp_all add: um_take_head_def um_compute_pdu_header_size_def um_sn_len_def fun_eq_iff)

text \<open>What the invariant says about a non-empty list.\<close>

lemma um_tx_head:
  assumes inv: "um_tx_inv lk e" and l: "um_tx_list e = seg # rest"
  obtains s where "h_sdus (um_heap e) (seg_sdu seg) = Some s" "deref (um_heap e) seg = Inr s"
    "sdu_ok s" "0 \<le> seg_so seg" "0 \<le> seg_size seg" "seg_so seg + seg_size seg = int (length (sdu_data s))"
    "seg_is_first seg \<longleftrightarrow> seg_so seg = 0"
    "heap_leak lk (store (um_heap e) seg (s\<lparr>sdu_sn := um_tx_next e\<rparr>)) (seg # rest)"
    "um_queue e = (sdu_data s, nat (seg_so seg)) # map (queue_elem (um_heap e)) rest"
    "seg_sdu seg \<notin> seg_sdu ` set rest"
proof -
  have heap: "heap_leak lk (um_heap e) (seg # rest)" using inv l by (simp add: um_tx_inv_def)
  then have "seg_ok (um_heap e) seg" by (simp add: heap_leak_def)
  then obtain s where s: "h_sdus (um_heap e) (seg_sdu seg) = Some s" "sdu_ok s"
    "0 \<le> seg_so seg" "0 \<le> seg_size seg" "seg_is_first seg \<longleftrightarrow> seg_so seg = 0"
    "seg_is_last seg \<longleftrightarrow> seg_so seg + seg_size seg = sdu_size s"
    by (auto simp: seg_ok_def)
  have "seg_is_last seg" using inv l by (simp add: um_tx_inv_def)
  then have sz: "seg_so seg + seg_size seg = int (length (sdu_data s))"
    using s by (simp add: sdu_ok_def)
  have st: "heap_leak lk (store (um_heap e) seg (s\<lparr>sdu_sn := um_tx_next e\<rparr>)) (seg # rest)"
    by (rule heap_ok_store [OF heap s(1)]) simp_all
  have q: "um_queue e = (sdu_data s, nat (seg_so seg)) # map (queue_elem (um_heap e)) rest"
    by (simp add: um_queue_def l queue_elem_def [of _ seg] s(1))
  have ni: "seg_sdu seg \<notin> seg_sdu ` set rest" using inv l by (simp add: um_tx_inv_def)
  show thesis
    by (rule that [OF s(1) _ s(2-4) sz s(5) st q ni]) (simp add: deref_def s(1))
qed

lemma um_tx_inv_tail:
  assumes "um_tx_inv lk e" and "um_tx_list e = seg # rest"
  shows "end_ok rest (if rest = [] then None else um_tx_end e)"
    and "distinct (map seg_sdu rest)" and "\<forall>x \<in> set rest. seg_is_last x \<and> seg_so x + seg_size x \<le> NR_SDU_MAX"
    and "\<forall>x \<in> set rest. seg_is_first x" and "\<forall>x \<in> set (tl rest). seg_is_first x"
    and "bs_tx_size (c_bstatus (um_common e)) - um_seg_cost e seg = sum_list (map (um_seg_cost e) rest)"
    and "seg_size seg + sum_list (map seg_size rest) \<le> um_tx_size e"
    and "seg_is_last seg" and "seg_so seg + seg_size seg \<le> NR_SDU_MAX"
  using assms by (auto simp: um_tx_inv_def end_ok_def dest: list.set_sel(2) split: if_splits)

text \<open>Nothing to send, or no room for one byte of data.\<close>

lemma um_generate_nothing:
  assumes "case um_tx_list e of [] \<Rightarrow> True
    | seg # _ \<Rightarrow> um_compute_pdu_header_size e seg + 1 > int (length buf)"
  shows "nr_rlc_entity_um_generate_pdu clk e buf = Inr (0, buf, e)"
  using assms by (auto simp: nr_rlc_entity_um_generate_pdu_def um_generate_tx_pdu_def Let_def
      split: list.splits)

lemma um_queue_taken:
  assumes "h_sdus (um_heap e) (seg_sdu seg) = Some s"
  shows "queue_elem (um_heap (um_take_head e seg rest s)) x = queue_elem (um_heap e) x"
  using assms by (auto intro: queue_elem_store)

lemma um_generate_eq:
  assumes "um_tx_list e = seg # rest" and "deref (um_heap e) seg = Inr s"
    and "um_compute_pdu_header_size e seg + 1 \<le> int (length buf)"
  shows "nr_rlc_entity_um_generate_pdu clk e buf =
     (if um_seg_cost e seg > int (length buf)
      then bindr (um_resegment (um_take_head e seg rest s) seg (int (length buf)))
             (\<lambda>(sdu, next_sdu, e).
               case next_sdu of
                 None \<Rightarrow> Inr (0, buf, e)
               | Some next_sdu \<Rightarrow>
                   um_finish_tx clk
                     (e\<lparr>um_tx_list := next_sdu # um_tx_list e,
                        um_tx_end := (if um_tx_end e = None
                                      then Some (seg_addr next_sdu) else um_tx_end e),
                        um_common := add_tx_size
                          (um_compute_pdu_header_size e next_sdu + seg_size next_sdu)
                          (upd_stats stat_segmented (um_common e))\<rparr>)
                     sdu buf)
      else um_finish_tx clk (um_take_head e seg rest s) seg buf)"
  using assms unfolding nr_rlc_entity_um_generate_pdu_def um_generate_tx_pdu_def Let_def
    um_seg_cost_def um_take_head_def by simp

text \<open>The rest of the SDU fits.\<close>

lemma um_generate_whole:
  assumes inv: "um_tx_inv lk e" and l: "um_tx_list e = seg # rest"
    and room: "um_compute_pdu_header_size e seg + 1 \<le> int (length buf)"
    and fits: "um_seg_cost e seg \<le> int (length buf)" and D: "um_queue e = (D, k) # q"
  shows "\<exists>b e'. nr_rlc_entity_um_generate_pdu clk e buf = Inr (um_seg_cost e seg, b, e') \<and>
     length b = length buf \<and> um_tx_inv lk e' \<and> um_queue e' = q \<and>
     is_um_pdu (um_sn_field_length e) (k = 0) True (um_tx_next e) (int k) (drop k D)
       (take (nat (um_seg_cost e seg)) b) \<and>
     um_tx_next e' = (if k = 0 then um_tx_next e else (um_tx_next e + 1) mod um_sn_modulus e) \<and>
     um_sn_field_length e' = um_sn_field_length e \<and> um_sn_modulus e' = um_sn_modulus e \<and>
     c_upcalls (um_common e') = c_upcalls (um_common e)"
proof -
  obtain s where s: "h_sdus (um_heap e) (seg_sdu seg) = Some s" "deref (um_heap e) seg = Inr s"
    "0 \<le> seg_so seg" "0 \<le> seg_size seg" "seg_so seg + seg_size seg = int (length (sdu_data s))"
    "seg_is_first seg \<longleftrightarrow> seg_so seg = 0"
    "heap_leak lk (store (um_heap e) seg (s\<lparr>sdu_sn := um_tx_next e\<rparr>)) (seg # rest)"
    "um_queue e = (sdu_data s, nat (seg_so seg)) # map (queue_elem (um_heap e)) rest"
    by (rule um_tx_head [OF inv l])
  note t = um_tx_inv_tail [OF inv l]
  have k: "D = sdu_data s" "k = nat (seg_so seg)" "q = map (queue_elem (um_heap e)) rest"
    using s(8) D by auto
  let ?e0 = "um_take_head e seg rest s" and ?s = "s\<lparr>sdu_sn := um_tx_next e\<rparr>"
  have len: "um_sn_len ?e0" "sn_valid (um_sn_modulus ?e0) (um_tx_next ?e0)"
    using inv by (simp_all add: um_tx_inv_def)
  have run: "nr_rlc_entity_um_generate_pdu clk e buf = um_finish_tx clk ?e0 seg buf"
    using fits by (simp add: um_generate_eq [OF l s(2) room])
  have pre: "heap_leak lk (um_heap ?e0) (seg # um_tx_list ?e0)" "h_sdus (um_heap ?e0) (seg_sdu seg) = Some ?s"
    "sdu_sn ?s = um_tx_next ?e0"
    "um_compute_pdu_header_size ?e0 seg + seg_size seg \<le> int (length buf)"
    using s(7) fits by (simp_all add: um_seg_cost_def)
  obtain b e' c h where "um_finish_tx clk ?e0 seg buf =
      Inr (um_compute_pdu_header_size ?e0 seg + seg_size seg, b, e')"
    and r: "length b = length buf"
    and "is_um_pdu (um_sn_field_length ?e0) (seg_is_first seg) (seg_is_last seg) (um_tx_next ?e0) (seg_so seg)
       (take (nat (seg_size seg)) (drop (nat (seg_so seg)) (sdu_data ?s)))
       (take (nat (um_compute_pdu_header_size ?e0 seg + seg_size seg)) b)"
    and e': "e' = ?e0\<lparr>um_tx_next := (if \<not> seg_is_first seg \<and> seg_is_last seg
         then (um_tx_next ?e0 + 1) mod um_sn_modulus ?e0 else um_tx_next ?e0),
         um_tx_size := um_tx_size ?e0 - seg_size seg, um_common := c, um_heap := h\<rparr>"
    and "heap_leak lk h (um_tx_list ?e0)" "c_bstatus c = c_bstatus (um_common ?e0)"
      "c_upcalls c = c_upcalls (um_common ?e0)"
      "\<forall>x \<in> set (um_tx_list ?e0). queue_elem h x = queue_elem (um_heap ?e0) x"
    using um_finish_ok [OF len pre(1-3) t(9) pre(4), of clk] by blast
  then have fin: "um_finish_tx clk ?e0 seg buf = Inr (um_seg_cost e seg, b, e')"
    and pdu: "is_um_pdu (um_sn_field_length e) (seg_is_first seg) (seg_is_last seg) (um_tx_next e)
       (seg_so seg) (take (nat (seg_size seg)) (drop (nat (seg_so seg)) (sdu_data ?s)))
       (take (nat (um_seg_cost e seg)) b)"
    and h: "heap_leak lk h rest" "c_bstatus c = c_bstatus (add_tx_size (- um_seg_cost e seg) (um_common e))"
      "c_upcalls c = c_upcalls (um_common e)"
      "\<forall>x \<in> set rest. queue_elem h x = queue_elem (um_heap ?e0) x"
    by (simp_all add: um_seg_cost_def)
  have "map (queue_elem h) rest = q"
    using h(4) um_queue_taken [OF s(1)] unfolding k(3) by auto
  then have q': "um_queue e' = q" by (simp add: um_queue_def e')
  have data: "take (nat (seg_size seg)) (drop (nat (seg_so seg)) (sdu_data ?s)) = drop k D"
    using s(3-5) k by simp
  have pos: "0 < um_sn_modulus e" using inv by (auto simp: um_tx_inv_def um_sn_len_def)
  have cost: "um_seg_cost e' = um_seg_cost e" by (rule um_seg_cost_cong) (simp add: e')
  have inv': "um_tx_inv lk e'"
    unfolding um_tx_inv_def cost
    using inv h t pos by (simp add: e' um_tx_inv_def um_sn_len_def sn_valid_def)
  have "seg_is_first seg \<longleftrightarrow> k = 0" "int k = seg_so seg" using s(3,6) k(2) by auto
  with run fin r pdu [unfolded data] inv' q' t(8) h(3) show ?thesis
    by (intro exI [of _ b] exI [of _ e']) (simp add: e')
qed

text \<open>
  Only a part of the SDU fits; at least one byte of it does. The segment is split into a head of
  \<open>n\<close> bytes, which is sent, and a tail, which goes back to the front of the list.
\<close>

definition split_head :: "nat \<Rightarrow> nr_rlc_sdu_segment \<Rightarrow> nr_rlc_sdu_segment" where
  "split_head n seg = seg\<lparr>seg_size := int n, seg_is_last := False\<rparr>"

definition split_tail :: "rlc_heap \<Rightarrow> nat \<Rightarrow> nr_rlc_sdu_segment \<Rightarrow> nr_rlc_sdu_segment" where
  "split_tail h n seg = seg\<lparr>seg_addr := h_next h, seg_size := seg_size seg - int n,
     seg_so := seg_so seg + int n, seg_is_first := False\<rparr>"

definition split_heap :: "rlc_heap \<Rightarrow> nr_rlc_sdu_segment \<Rightarrow> nr_rlc_sdu \<Rightarrow> rlc_heap" where
  "split_heap h seg s =
     (store h seg (s\<lparr>sdu_ref_count := sdu_ref_count s + 1\<rparr>))\<lparr>h_next := h_next h + 1\<rparr>"

definition um_split_state ::
  "nr_rlc_entity_um \<Rightarrow> nr_rlc_sdu_segment \<Rightarrow> segs \<Rightarrow> nr_rlc_sdu \<Rightarrow> nat \<Rightarrow> nr_rlc_entity_um" where
  "um_split_state e seg rest s n =
     (let e0 = um_take_head e seg rest s; nxt = split_tail (um_heap e) n seg in
      e0\<lparr>um_heap := split_heap (um_heap e0) seg (s\<lparr>sdu_sn := um_tx_next e\<rparr>), um_tx_list := nxt # rest,
         um_tx_end := (if rest = [] then Some (seg_addr nxt) else um_tx_end e),
         um_common := add_tx_size (um_seg_cost e nxt)
           (upd_stats stat_segmented (upd_stats stat_segmented (um_common e0)))\<rparr>)"

lemma split_head_simps [simp]:
  "seg_size (split_head n seg) = int n" "seg_so (split_head n seg) = seg_so seg"
  "seg_is_first (split_head n seg) = seg_is_first seg" "\<not> seg_is_last (split_head n seg)"
  "seg_sdu (split_head n seg) = seg_sdu seg"
  by (simp_all add: split_head_def)

lemma split_tail_simps [simp]:
  "seg_size (split_tail h n seg) = seg_size seg - int n" "seg_so (split_tail h n seg) = seg_so seg + int n"
  "\<not> seg_is_first (split_tail h n seg)" "seg_is_last (split_tail h n seg) = seg_is_last seg"
  "seg_sdu (split_tail h n seg) = seg_sdu seg"
  by (simp_all add: split_tail_def)

lemma um_split_state_simps [simp]:
  "um_tx_list (um_split_state e seg rest s n) = split_tail (um_heap e) n seg # rest"
  "um_heap (um_split_state e seg rest s n) =
     split_heap (um_heap (um_take_head e seg rest s)) seg (s\<lparr>sdu_sn := um_tx_next e\<rparr>)"
  "um_compute_pdu_header_size (um_split_state e seg rest s n) = um_compute_pdu_header_size e"
  "um_tx_next (um_split_state e seg rest s n) = um_tx_next e"
  "um_sn_field_length (um_split_state e seg rest s n) = um_sn_field_length e"
  "um_sn_modulus (um_split_state e seg rest s n) = um_sn_modulus e"
  "um_tx_size (um_split_state e seg rest s n) = um_tx_size e"
  "um_sn_len (um_split_state e seg rest s n) = um_sn_len e"
  "c_upcalls (um_common (um_split_state e seg rest s n)) = c_upcalls (um_common e)"
  by (simp_all add: um_split_state_def Let_def um_compute_pdu_header_size_def fun_eq_iff um_sn_len_def)

lemma um_split_run:
  assumes l: "um_tx_list e = seg # rest" and s: "deref (um_heap e) seg = Inr s"
    and en: "rest \<noteq> [] \<Longrightarrow> um_tx_end e \<noteq> None" and over: "int (length buf) < um_seg_cost e seg"
    and H: "um_compute_pdu_header_size e (seg\<lparr>seg_is_last := False\<rparr>) + 1 \<le> int (length buf)"
    and n: "int n = int (length buf) - um_compute_pdu_header_size e (seg\<lparr>seg_is_last := False\<rparr>)"
  shows "nr_rlc_entity_um_generate_pdu clk e buf =
    um_finish_tx clk (um_split_state e seg rest s n) (split_head n seg) buf"
proof -
  let ?e0 = "um_take_head e seg rest s" and ?nxt = "split_tail (um_heap e) n seg"
  let ?h = "split_heap (um_heap ?e0) seg (s\<lparr>sdu_sn := um_tx_next e\<rparr>)"
  have d0: "deref (um_heap ?e0) seg = Inr (s\<lparr>sdu_sn := um_tx_next e\<rparr>)" by (simp add: deref_def)
  have hd: "um_compute_pdu_header_size (?e0\<lparr>um_heap := x\<rparr>) = um_compute_pdu_header_size e" for x
    by (simp add: um_compute_pdu_header_size_def fun_eq_iff um_take_head_def)
  have "um_compute_pdu_header_size e (seg\<lparr>seg_is_last := False\<rparr>) + seg_size seg - int (length buf) = seg_size seg - int n"
    "seg_size seg - (um_compute_pdu_header_size e (seg\<lparr>seg_is_last := False\<rparr>) + seg_size seg - int (length buf)) = int n"
    using n by auto
  then have rs: "um_resegment ?e0 seg (int (length buf)) = Inr (split_head n seg, Some ?nxt,
      ?e0\<lparr>um_heap := ?h, um_common := upd_stats stat_segmented (um_common ?e0)\<rparr>)"
    unfolding um_resegment_def d0 using H hd
    by (simp add: Let_def split_head_def split_tail_def split_heap_def del: um_take_head_simps(3))
      (simp add: split_head_def split_tail_def split_heap_def)
  have room: "um_compute_pdu_header_size e seg + 1 \<le> int (length buf)"
    using H by (auto simp: um_compute_pdu_header_size_def split: if_splits)
  have cost: "um_compute_pdu_header_size (?e0\<lparr>um_heap := ?h, um_common := c\<rparr>) ?nxt + seg_size ?nxt =
      um_seg_cost e ?nxt" for c
    by (simp add: um_compute_pdu_header_size_def um_seg_cost_def um_take_head_def)
  show ?thesis
    unfolding um_generate_eq [OF l s room] rs bindr_simps prod.case option.case cost
    using over en by (auto simp: um_split_state_def Let_def)
qed

text \<open>The head of the split segment is sent; what is left of it in list and heap is the tail.\<close>

lemma um_split_finish:
  assumes inv: "um_tx_inv lk e" and l: "um_tx_list e = seg # rest"
    and s: "heap_leak lk (store (um_heap e) seg (s\<lparr>sdu_sn := um_tx_next e\<rparr>)) (seg # rest)"
    and n: "int n = int (length buf) - um_compute_pdu_header_size e (seg\<lparr>seg_is_last := False\<rparr>)" "0 < n"
      "int n < seg_size seg"
  obtains b c h' where "um_finish_tx clk (um_split_state e seg rest s n) (split_head n seg) buf =
      Inr (int (length buf), b, (um_split_state e seg rest s n)\<lparr>um_tx_next := um_tx_next e, um_tx_size := um_tx_size e - int n,
        um_common := c, um_heap := h'\<rparr>)"
    "length b = length buf"
    "is_um_pdu (um_sn_field_length e) (seg_is_first seg) False (um_tx_next e) (seg_so seg)
       (take n (drop (nat (seg_so seg)) (sdu_data s))) b"
    "heap_leak lk h' (split_tail (um_heap e) n seg # rest)"
    "c_bstatus c = c_bstatus (um_common (um_split_state e seg rest s n))" "c_upcalls c = c_upcalls (um_common e)"
    "\<forall>x \<in> set (split_tail (um_heap e) n seg # rest).
       queue_elem h' x = queue_elem (um_heap (um_split_state e seg rest s n)) x"
proof -
  let ?e = "um_split_state e seg rest s n" and ?s = "s\<lparr>sdu_sn := um_tx_next e\<rparr>"
  let ?s2 = "?s\<lparr>sdu_ref_count := sdu_ref_count s + 1\<rparr>"
  have hs0: "h_sdus (um_heap (um_take_head e seg rest s)) (seg_sdu seg) = Some ?s" by simp
  have heap: "heap_leak lk (um_heap ?e) (split_head n seg # um_tx_list ?e)"
    using heap_ok_split [OF _ hs0, of lk rest "int n"] s n
    by (simp add: split_head_def split_tail_def split_heap_def)
  have len: "um_sn_len ?e" "sn_valid (um_sn_modulus ?e) (um_tx_next ?e)" using inv by (simp_all add: um_tx_inv_def)
  have "um_compute_pdu_header_size e (split_head n seg) = um_compute_pdu_header_size e (seg\<lparr>seg_is_last := False\<rparr>)"
    by (simp add: um_compute_pdu_header_size_def split_head_def)
  then have cost: "um_compute_pdu_header_size ?e (split_head n seg) + seg_size (split_head n seg) = int (length buf)"
    using n(1) by simp
  have pre: "h_sdus (um_heap ?e) (seg_sdu (split_head n seg)) = Some ?s2" "sdu_sn ?s2 = um_tx_next ?e"
    "seg_so (split_head n seg) + seg_size (split_head n seg) \<le> NR_SDU_MAX"
    using um_tx_inv_tail(9) [OF inv l] n(3) by (simp_all add: split_heap_def)
  obtain b c h' where "um_finish_tx clk ?e (split_head n seg) buf =
      Inr (int (length buf), b, ?e\<lparr>um_tx_next := um_tx_next e, um_tx_size := um_tx_size e - int n, um_common := c, um_heap := h'\<rparr>)"
    and len: "length b = length buf"
    and pdu: "is_um_pdu (um_sn_field_length e) (seg_is_first seg) False (um_tx_next e) (seg_so seg)
       (take n (drop (nat (seg_so seg)) (sdu_data s))) (take (length buf) b)"
    and "heap_leak lk h' (um_tx_list ?e)" "c_bstatus c = c_bstatus (um_common ?e)"
      "c_upcalls c = c_upcalls (um_common e)"
      "\<forall>x \<in> set (um_tx_list ?e). queue_elem h' x = queue_elem (um_heap ?e) x"
    using um_finish_ok [OF len heap pre, of buf clk] unfolding cost by auto
  with that show ?thesis by simp
qed

lemma um_generate_split:
  assumes inv: "um_tx_inv lk e" and l: "um_tx_list e = seg # rest"
    and room: "um_compute_pdu_header_size e (seg\<lparr>seg_is_last := False\<rparr>) + 1 \<le> int (length buf)"
    and over: "int (length buf) < um_seg_cost e seg" and D: "um_queue e = (D, k) # q"
  defines "n \<equiv> length buf - nat (um_compute_pdu_header_size e (seg\<lparr>seg_is_last := False\<rparr>))"
  shows "\<exists>b e'. nr_rlc_entity_um_generate_pdu clk e buf = Inr (int (length buf), b, e') \<and>
     length b = length buf \<and> um_tx_inv lk e' \<and> um_queue e' = (D, k + n) # q \<and>
     0 < n \<and> k + n < length D \<and>
     is_um_pdu (um_sn_field_length e) (k = 0) False (um_tx_next e) (int k) (take n (drop k D)) b \<and>
     um_tx_next e' = um_tx_next e \<and> um_sn_field_length e' = um_sn_field_length e \<and>
     um_sn_modulus e' = um_sn_modulus e \<and> c_upcalls (um_common e') = c_upcalls (um_common e)"
proof -
  let ?H = "um_compute_pdu_header_size e (seg\<lparr>seg_is_last := False\<rparr>)" and ?nxt = "split_tail (um_heap e) n seg"
  obtain s where s: "h_sdus (um_heap e) (seg_sdu seg) = Some s" "deref (um_heap e) seg = Inr s"
    "0 \<le> seg_so seg" "seg_so seg + seg_size seg = int (length (sdu_data s))" "seg_is_first seg \<longleftrightarrow> seg_so seg = 0"
    "heap_leak lk (store (um_heap e) seg (s\<lparr>sdu_sn := um_tx_next e\<rparr>)) (seg # rest)"
    "um_queue e = (sdu_data s, nat (seg_so seg)) # map (queue_elem (um_heap e)) rest"
    "seg_sdu seg \<notin> seg_sdu ` set rest"
    by (rule um_tx_head [OF inv l])
  note t = um_tx_inv_tail [OF inv l]
  have k: "D = sdu_data s" "k = nat (seg_so seg)" "q = map (queue_elem (um_heap e)) rest" using s(7) D by auto
  have n: "int n = int (length buf) - ?H" "0 < n" "int n < seg_size seg"
    using um_header_size_bounds [of e "seg\<lparr>seg_is_last := False\<rparr>"] room over
    by (auto simp: n_def um_seg_cost_def of_nat_diff um_compute_pdu_header_size_def split: if_splits)
  have en: "um_tx_end e \<noteq> None" if "rest \<noteq> []" using inv l by (simp add: um_tx_inv_def end_ok_def)
  let ?e = "um_split_state e seg rest s n"
  obtain b c h' where fin: "um_finish_tx clk ?e (split_head n seg) buf =
      Inr (int (length buf), b, ?e\<lparr>um_tx_next := um_tx_next e, um_tx_size := um_tx_size e - int n, um_common := c, um_heap := h'\<rparr>)"
    and r: "length b = length buf" and pdu: "is_um_pdu (um_sn_field_length e) (seg_is_first seg) False (um_tx_next e)
       (seg_so seg) (take n (drop (nat (seg_so seg)) (sdu_data s))) b"
    and h': "heap_leak lk h' (?nxt # rest)" "c_bstatus c = c_bstatus (um_common ?e)" "c_upcalls c = c_upcalls (um_common e)"
      "\<forall>x \<in> set (?nxt # rest). queue_elem h' x = queue_elem (um_heap ?e) x"
    by (rule um_split_finish [OF inv l s(6) n])
  let ?e' = "?e\<lparr>um_tx_next := um_tx_next e, um_tx_size := um_tx_size e - int n, um_common := c, um_heap := h'\<rparr>"
  have q: "queue_elem (um_heap ?e) x = queue_elem (um_heap e) x" for x
    using s(1) by (intro queue_elem_cong) (simp add: split_heap_def)
  have "queue_elem (um_heap e) ?nxt = (D, k + n)" using s(1,3) k by (simp add: queue_elem_def nat_add_distrib)
  then have qq: "um_queue ?e' = (D, k + n) # q" using h'(4) [unfolded q] k(3) by (simp add: um_queue_def)
  have cost: "um_seg_cost ?e' = um_seg_cost e" by (rule um_seg_cost_cong) simp
  have bs: "bs_tx_size (c_bstatus c) = sum_list (map (um_seg_cost e) (?nxt # rest))"
    using h'(2) t(6) by (simp add: um_split_state_def Let_def)
  have "end_ok (?nxt # rest) (um_tx_end ?e)" using t(1) by (auto simp: end_ok_def um_split_state_def Let_def)
  then have inv': "um_tx_inv lk ?e'"
    unfolding um_tx_inv_def cost using inv h'(1) t(2-4,7-9) s(8) bs by (auto simp: um_tx_inv_def um_sn_len_def)
  have "k + n < length D" using n(3) s(3,4) unfolding k(1,2) by linarith
  moreover have f: "seg_is_first seg = (k = 0)" "seg_so seg = int k" using s(3,5) k(2) by auto
  have "is_um_pdu (um_sn_field_length e) (k = 0) False (um_tx_next e) (int k) (take n (drop k D)) b"
    using pdu unfolding f k(1) by simp
  ultimately show ?thesis
    using um_split_run [OF l s(2) en over room n(1), of clk] fin r inv' qq n(2) h'(3)
    by (intro exI [of _ b] exI [of _ ?e']) simp
qed

text \<open>
  A whole SDU for which a buffer of two bytes leaves room for the header of a whole SDU but not
  for that of a segment: the SDU is taken from the list and neither sent nor put back.
\<close>

lemma um_generate_lost:
  assumes inv: "um_tx_inv lk e" and l: "um_tx_list e = seg # rest"
    and room: "um_compute_pdu_header_size e seg + 1 \<le> int (length buf)"
    and noroom: "int (length buf) < um_compute_pdu_header_size e (seg\<lparr>seg_is_last := False\<rparr>) + 1"
    and over: "int (length buf) < um_seg_cost e seg"
  shows "\<exists>e'. nr_rlc_entity_um_generate_pdu clk e buf = Inr (0, buf, e') \<and>
     um_tx_inv (lk(seg_sdu seg := lk (seg_sdu seg) + 2)) e' \<and> um_queue e' = tl (um_queue e) \<and>
     um_tx_size e' = um_tx_size e"
proof -
  obtain s where s: "h_sdus (um_heap e) (seg_sdu seg) = Some s" "deref (um_heap e) seg = Inr s"
    "heap_leak lk (store (um_heap e) seg (s\<lparr>sdu_sn := um_tx_next e\<rparr>)) (seg # rest)"
    "um_queue e = (sdu_data s, nat (seg_so seg)) # map (queue_elem (um_heap e)) rest"
    "seg_sdu seg \<notin> seg_sdu ` set rest"
    by (rule um_tx_head [OF inv l])
  note t = um_tx_inv_tail [OF inv l]
  let ?e0 = "um_take_head e seg rest s" and ?s = "s\<lparr>sdu_sn := um_tx_next e\<rparr>"
  let ?s2 = "?s\<lparr>sdu_ref_count := sdu_ref_count s + 1\<rparr>"
  define h where "h = store (um_heap ?e0) seg ?s2"
  define e1 where "e1 = ?e0\<lparr>um_heap := h\<rparr>"
  have hd: "um_compute_pdu_header_size e1 = um_compute_pdu_header_size e"
    by (simp add: um_compute_pdu_header_size_def fun_eq_iff um_take_head_def e1_def)
  have d0: "deref (um_heap ?e0) seg = Inr ?s" by (simp add: deref_def)
  have "um_resegment ?e0 seg (int (length buf)) = Inr (seg, None, e1)"
    unfolding um_resegment_def d0 using noroom hd
    by (simp add: Let_def h_def [symmetric] e1_def [symmetric] del: um_take_head_simps(3))
  then have run: "nr_rlc_entity_um_generate_pdu clk e buf = Inr (0, buf, e1)"
    using over by (simp add: um_generate_eq [OF l s(2) room])
  let ?lk = "lk(seg_sdu seg := lk (seg_sdu seg) + 2)"
  have other: "seg_sdu x \<noteq> seg_sdu seg" if "x \<in> set rest" for x
    using s(5) that by (metis imageI)
  have ok: "seg_ok h x = seg_ok (um_heap ?e0) x" for x
    unfolding h_def by (rule seg_ok_store [where s = ?s]) simp_all
  have "refs rest (seg_sdu seg) = 0"
    using other by (auto simp: refs_def filter_empty_conv)
  then have heap: "heap_leak ?lk h rest"
    using s(3) other unfolding heap_leak_def ok
    by (auto simp: h_def split: if_splits) (metis less_nat_zero_code)
  have "queue_elem h x = queue_elem (um_heap e) x" for x
    using s(1) by (intro queue_elem_cong) (simp add: h_def)
  then have q: "um_queue e1 = tl (um_queue e)" by (simp add: um_queue_def e1_def l)
  have cost: "um_seg_cost e1 = um_seg_cost e" by (rule um_seg_cost_cong) (simp add: e1_def)
  have seg0: "0 \<le> seg_size seg"
    using inv l by (auto simp: um_tx_inv_def heap_leak_def seg_ok_def)
  have "um_sn_len e1 = um_sn_len e" by (simp add: e1_def um_sn_len_def)
  then have "um_sn_len e1" "sn_valid (um_sn_modulus e1) (um_tx_next e1)"
    using inv by (simp_all add: e1_def um_tx_inv_def)
  then have "um_tx_inv ?lk e1"
    unfolding um_tx_inv_def cost using heap t seg0 by (simp add: e1_def)
  with run q show ?thesis by (auto simp: e1_def)
qed

section \<open>All cases of \<open>generate_pdu\<close>\<close>

text \<open>
  With room for a header of a segment (any buffer size but two bytes, or the short sequence
  number), either nothing happens for lack of room, or \<open>n\<close> more bytes of the SDU at the head of
  the queue are sent.
\<close>

definition um_sent ::
  "nr_rlc_entity_um \<Rightarrow> byte list \<Rightarrow> nat \<Rightarrow> (byte list \<times> nat) list \<Rightarrow> int \<Rightarrow> byte list \<Rightarrow>
   nr_rlc_entity_um \<Rightarrow> nat \<Rightarrow> bool" where
  "um_sent e D k q ret b e' n \<longleftrightarrow>
     0 < ret \<and> ret \<le> int (length b) \<and> (0 < n \<or> D = []) \<and> k + n \<le> length D \<and>
     is_um_pdu (um_sn_field_length e) (k = 0) (k + n = length D) (um_tx_next e) (int k)
       (take n (drop k D)) (take (nat ret) b) \<and>
     um_queue e' = (if k + n = length D then q else (D, k + n) # q) \<and>
     um_tx_next e' = (if k \<noteq> 0 \<and> k + n = length D then (um_tx_next e + 1) mod um_sn_modulus e
                      else um_tx_next e) \<and>
     um_sn_field_length e' = um_sn_field_length e \<and> um_sn_modulus e' = um_sn_modulus e \<and>
     c_upcalls (um_common e') = c_upcalls (um_common e)"

text \<open>A segment that waits at the head is never empty: the rest of a split SDU has bytes.\<close>

definition um_rest_pos :: "nr_rlc_entity_um \<Rightarrow> bool" where
  "um_rest_pos e \<longleftrightarrow> (\<forall>(D, k) \<in> set (um_queue e). D = [] \<or> k < length D)"

lemma um_generate_no_loss:
  assumes inv: "um_tx_inv lk e" and D: "um_queue e = (D, k) # q" and pos: "um_rest_pos e"
    and size: "length buf \<noteq> 2 \<or> um_sn_field_length e = 6"
  shows "\<exists>ret b e'. nr_rlc_entity_um_generate_pdu clk e buf = Inr (ret, b, e') \<and>
     length b = length buf \<and> um_tx_inv lk e' \<and> um_rest_pos e' \<and>
     ((ret = 0 \<and> e' = e \<and> length buf < 5) \<or> (\<exists>n. um_sent e D k q ret b e' n))"
proof -
  obtain seg rest where l: "um_tx_list e = seg # rest" using D by (auto simp: um_queue_def)
  let ?H = "um_compute_pdu_header_size e seg" and ?Hs = "um_compute_pdu_header_size e (seg\<lparr>seg_is_last := False\<rparr>)"
  obtain s where s: "h_sdus (um_heap e) (seg_sdu seg) = Some s" "0 \<le> seg_so seg" "0 \<le> seg_size seg"
    "seg_so seg + seg_size seg = int (length (sdu_data s))" "seg_is_first seg \<longleftrightarrow> seg_so seg = 0"
    "um_queue e = (sdu_data s, nat (seg_so seg)) # map (queue_elem (um_heap e)) rest"
    by (rule um_tx_head [OF inv l])
  have k: "D = sdu_data s" "k = nat (seg_so seg)" using s(6) D by auto
  have kD: "D = [] \<or> k < length D" using pos D by (auto simp: um_rest_pos_def)
  have posq: "um_rest_pos e'" if "um_queue e' = q" for e'
    using pos that by (simp add: um_rest_pos_def D)
  show ?thesis
  proof (cases "?H + 1 > int (length buf)")
    case True
    then have "nr_rlc_entity_um_generate_pdu clk e buf = Inr (0, buf, e)"
      using l by (intro um_generate_nothing) simp
    moreover have "length buf < 5" using True um_header_size_bounds(2) [of e seg] by simp
    ultimately show ?thesis using inv pos by auto
  next
    case False
    then have room: "?H + 1 \<le> int (length buf)" by simp
    show ?thesis
    proof (cases "um_seg_cost e seg \<le> int (length buf)")
      case True
      define n where "n = length D - k"
      have kn: "k + n = length D" using s(2-4) k by (simp add: n_def)
      have "0 < n \<or> D = []" using kD kn by auto
      moreover have "take n (drop k D) = drop k D" by (simp add: n_def)
      moreover have "0 < um_seg_cost e seg"
        using um_header_size_bounds(1) [of e seg] s(3) by (simp add: um_seg_cost_def)
      ultimately show ?thesis
        using um_generate_whole [OF inv l room True D, of clk] True kn posq
        by (force simp: um_sent_def)
    next
      case cut: False
      have H0: "?Hs \<le> ?H + 1" "?Hs = ?H \<or> um_sn_field_length e = 12 \<and> ?Hs = 2"
        by (auto simp: um_compute_pdu_header_size_def)
      then have room0: "?Hs + 1 \<le> int (length buf)" using room size by auto
      define n where "n = length buf - nat ?Hs"
      obtain b e' where r: "nr_rlc_entity_um_generate_pdu clk e buf = Inr (int (length buf), b, e')"
        "length b = length buf" "um_tx_inv lk e'" "um_queue e' = (D, k + n) # q" "0 < n"
        "k + n < length D"
        "is_um_pdu (um_sn_field_length e) (k = 0) False (um_tx_next e) (int k) (take n (drop k D)) b"
        "um_tx_next e' = um_tx_next e" "um_sn_field_length e' = um_sn_field_length e"
        "um_sn_modulus e' = um_sn_modulus e" "c_upcalls (um_common e') = c_upcalls (um_common e)"
        using um_generate_split [OF inv l room0 _ D, of clk] cut unfolding n_def by auto
      have "um_sent e D k q (int (length buf)) b e' n"
        using r room um_header_size_bounds(1) [of e seg] by (auto simp: um_sent_def)
      moreover have "um_rest_pos e'" using r(4,6) pos D by (simp add: um_rest_pos_def)
      ultimately show ?thesis using r(1-3) by blast
    qed
  qed
qed

lemma um_generate_bounds:
  assumes inv: "um_tx_inv lk e"
  shows "\<exists>ret b e' lk'. nr_rlc_entity_um_generate_pdu clk e buf = Inr (ret, b, e') \<and> um_tx_inv lk' e' \<and>
     0 \<le> ret \<and> ret \<le> int (length buf) \<and> length b = length buf"
proof (cases "um_tx_list e")
  case Nil
  with um_generate_nothing [where e = e and buf = buf and clk = clk] inv show ?thesis by auto
next
  case (Cons seg rest)
  let ?H = "um_compute_pdu_header_size e seg" and ?Hs = "um_compute_pdu_header_size e (seg\<lparr>seg_is_last := False\<rparr>)"
  obtain D k q where D: "um_queue e = (D, k) # q" using Cons by (auto simp: um_queue_def queue_elem_def)
  have pos: "0 \<le> um_seg_cost e seg"
    using um_header_size_bounds(1) [of e seg] inv Cons
    by (auto simp: um_seg_cost_def um_tx_inv_def heap_leak_def seg_ok_def)
  consider "int (length buf) < ?H + 1" | "?H + 1 \<le> int (length buf)" "um_seg_cost e seg \<le> int (length buf)"
    | "?H + 1 \<le> int (length buf)" "int (length buf) < um_seg_cost e seg" "?Hs + 1 \<le> int (length buf)"
    | "?H + 1 \<le> int (length buf)" "int (length buf) < um_seg_cost e seg" "int (length buf) < ?Hs + 1"
    by linarith
  then show ?thesis
  proof cases
    case 1
    with um_generate_nothing [where e = e and buf = buf and clk = clk] inv Cons show ?thesis by auto
  next
    case 2
    with um_generate_whole [OF inv Cons 2 D, of clk] pos show ?thesis by blast
  next
    case 3
    with um_generate_split [OF inv Cons 3(3,2) D, of clk] show ?thesis
      by (metis order_refl of_nat_0_le_iff)
  next
    case 4
    with um_generate_lost [OF inv Cons 4(1,3,2), of clk] show ?thesis
      by (metis order_refl of_nat_0_le_iff)
  qed
qed

section \<open>Reception of SDUs\<close>

lemma um_recv_sdu_accept:
  fixes clk :: u64
  assumes inv: "um_tx_inv lk e" and fits: "int (length buf) \<le> NR_SDU_MAX"
    and new: "nr_rlc_new_sdu (um_heap e) buf i = (sdu, h)"
  defines "e' \<equiv> e\<lparr>um_tx_size := um_tx_size e + int (length buf), um_tx_list := um_tx_list e @ [sdu],
      um_tx_end := Some (seg_addr sdu),
      um_common := add_tx_size (um_compute_pdu_header_size e sdu + seg_size sdu) (um_common e),
      um_heap := stamp_arrival (um_common e) clk sdu h\<rparr>"
  shows "um_tx_inv lk e'" and "um_queue e' = um_queue e @ [(buf, 0)]"
proof -
  have heap: "heap_leak lk (um_heap e) (um_tx_list e)" using inv by (simp add: um_tx_inv_def)
  note n = heap_ok_new_sdu [OF heap new]
  obtain t where t: "stamp_arrival (um_common e) clk sdu h = store h sdu
      (\<lparr>sdu_sn = - 1, sdu_upper_layer_id = i, sdu_data = buf, sdu_size = int (length buf),
        sdu_retx_count = - 1, sdu_ref_count = 1, sdu_free_count = 0, sdu_time_of_arrival = t\<rparr>)"
    using stamp_arrival_store [OF n(6), of "um_common e" clk] by auto
  have ok: "heap_leak lk (stamp_arrival (um_common e) clk sdu h) (um_tx_list e @ [sdu])"
    by (rule heap_ok_perm [OF heap_ok_stamp_arrival [OF n(1)]]) auto
  have fresh: "seg_sdu sdu \<notin> seg_sdu ` set (um_tx_list e)" using n(8) by (metis imageE)
  have cost: "um_seg_cost e' = um_seg_cost e" by (rule um_seg_cost_cong) (simp add: e'_def)
  have len: "um_sn_len e'" using inv by (simp add: um_tx_inv_def um_sn_len_def e'_def)
  have tl: "\<forall>x \<in> set (tl (um_tx_list e @ [sdu])). seg_is_first x"
    using inv n(4) by (cases "um_tx_list e") (auto simp: um_tx_inv_def)
  have bs: "bs_tx_size (c_bstatus (um_common e')) = sum_list (map (um_seg_cost e) (um_tx_list e @ [sdu]))"
    using inv by (simp add: um_tx_inv_def e'_def um_seg_cost_def)
  show "um_tx_inv lk e'"
    unfolding um_tx_inv_def cost using inv ok fresh len tl bs n(2-5) fits
    by (simp add: um_tx_inv_def e'_def)
  have "queue_elem (stamp_arrival (um_common e) clk sdu h) x = queue_elem (um_heap e) x"
    if "x \<in> set (um_tx_list e)" for x
    using n(7,8) that by (intro queue_elem_cong) (auto simp: t)
  then show "um_queue e' = um_queue e @ [(buf, 0)]"
    by (simp add: um_queue_def e'_def queue_elem_def [of _ sdu] t n(3))
qed

lemma um_recv_sdu_ok:
  assumes inv: "um_tx_inv lk e" and small: "int (length buf) \<le> NR_SDU_MAX"
  shows "\<exists>e'. nr_rlc_entity_um_recv_sdu clk e buf i = Inr e' \<and> um_tx_inv lk e' \<and>
     um_queue e' = (if um_tx_size e + int (length buf) > um_tx_maxsize e
                    then um_queue e else um_queue e @ [(buf, 0)]) \<and>
     um_tx_next e' = um_tx_next e \<and> um_sn_field_length e' = um_sn_field_length e \<and>
     um_sn_modulus e' = um_sn_modulus e \<and> c_upcalls (um_common e') = c_upcalls (um_common e)"
proof -
  let ?b = "int (length buf)"
  let ?e0 = "e\<lparr>um_common := upd_stats (stat_rxsdu ?b) (um_common e)\<rparr>"
  define e1 where "e1 = um_log_rejected ?e0"
  have f: "um_queue e1 = um_queue e" "um_tx_size e1 = um_tx_size e" "um_tx_maxsize e1 = um_tx_maxsize e"
    "um_tx_next e1 = um_tx_next e" "um_sn_field_length e1 = um_sn_field_length e"
    "um_sn_modulus e1 = um_sn_modulus e" "c_upcalls (um_common e1) = c_upcalls (um_common e)"
    "um_heap e1 = um_heap e" "um_tx_list e1 = um_tx_list e" "um_tx_end e1 = um_tx_end e"
    "c_bstatus (um_common e1) = c_bstatus (um_common e)"
    by (auto simp: e1_def um_log_rejected_def um_queue_def)
  have "um_tx_inv lk e1 = um_tx_inv lk e" by (rule um_tx_inv_cong) (simp_all add: f)
  with inv have e1: "um_tx_inv lk e1" by simp
  obtain sdu h where new: "nr_rlc_new_sdu (um_heap e1) buf i = (sdu, h)" by fastforce
  have app: "nr_rlc_sdu_segment_list_append (um_tx_list e1, um_tx_end e1) sdu =
      Inr (um_tx_list e1 @ [sdu], Some (seg_addr sdu))"
    using e1 by (intro list_append_ok) (auto simp: um_tx_inv_def heap_leak_def)
  have run: "nr_rlc_entity_um_recv_sdu clk e buf i =
     (if um_tx_size e1 + ?b > um_tx_maxsize e1
      then Inr (e1\<lparr>um_sdu_rejected := um_sdu_rejected e1 + 1,
                   um_common := upd_stats (stat_rxsdu_dd ?b) (um_common e1)\<rparr>)
      else Inr (e1\<lparr>um_tx_size := um_tx_size e1 + ?b, um_tx_list := um_tx_list e1 @ [sdu],
                   um_tx_end := Some (seg_addr sdu),
                   um_common := add_tx_size (um_compute_pdu_header_size e1 sdu + seg_size sdu) (um_common e1),
                   um_heap := stamp_arrival (um_common e1) clk sdu h\<rparr>))"
    using small by (simp add: nr_rlc_entity_um_recv_sdu_def Let_def e1_def [symmetric] new app)
  show ?thesis
  proof (cases "um_tx_size e1 + ?b > um_tx_maxsize e1")
    case True
    let ?e2 = "e1\<lparr>um_sdu_rejected := um_sdu_rejected e1 + 1,
                   um_common := upd_stats (stat_rxsdu_dd ?b) (um_common e1)\<rparr>"
    have "um_tx_inv lk ?e2 = um_tx_inv lk e1" by (rule um_tx_inv_cong) simp_all
    with e1 have "um_tx_inv lk ?e2" by simp
    with True run f show ?thesis by (auto simp: um_queue_def)
  next
    case False
    with um_recv_sdu_accept [OF e1 small new, of clk] run f show ?thesis by auto
  qed
qed

section \<open>Discard and deletion\<close>

lemma um_discard_ok:
  assumes inv: "um_tx_inv lk e"
  shows "\<exists>e'. nr_rlc_entity_um_discard_sdu e i = Inr e' \<and> um_tx_inv lk e' \<and>
     um_tx_size e' = um_tx_size e \<and>
     (e' = e \<or> (\<exists>before cur after. um_tx_list e = before @ cur # after \<and> um_tx_list e' = before @ after))"
proof -
  have heap: "heap_leak lk (um_heap e) (um_tx_list e)" using inv by (simp add: um_tx_inv_def)
  then have "\<forall>seg \<in> set (um_tx_list e). \<exists>s. deref (um_heap e) seg = Inr s"
    by (metis heap_ok_deref)
  then obtain before rest where fnd: "find_upper_layer_id (um_heap e) i (um_tx_list e) = Inr (before, rest)"
    and l: "um_tx_list e = before @ rest"
    using find_upper_layer_id_ok by blast
  show ?thesis
  proof (cases "case rest of [] \<Rightarrow> True | cur # _ \<Rightarrow> \<not> seg_is_first cur \<or> \<not> seg_is_last cur")
    case True
    then have "nr_rlc_entity_um_discard_sdu e i = Inr e"
      using fnd by (auto simp: nr_rlc_entity_um_discard_sdu_def split: list.splits)
    with inv show ?thesis by blast
  next
    case False
    then obtain cur after where r: "rest = cur # after" "seg_is_first cur" "seg_is_last cur"
      by (auto split: list.splits)
    have "heap_leak lk (um_heap e) (cur # before @ after)"
      by (rule heap_ok_perm [OF heap]) (simp add: l r)
    then obtain fr h where h: "nr_rlc_free_sdu_segment (um_heap e) cur = Inr (fr, h)"
      "heap_leak lk h (before @ after)"
      using heap_ok_free by blast
    define e' where "e' = e\<lparr>um_tx_list := before @ after,
        um_tx_end := (if um_tx_end e = Some (seg_addr cur)
                      then if before \<noteq> [] then Some (seg_addr (last before)) else None
                      else um_tx_end e),
        um_common := add_tx_size (- (um_compute_pdu_header_size e cur + seg_size cur)) (um_common e),
        um_heap := h\<rparr>"
    have run: "nr_rlc_entity_um_discard_sdu e i = Inr e'"
      using fnd r h(1) by (simp add: nr_rlc_entity_um_discard_sdu_def e'_def)
    have da: "distinct (map seg_addr (before @ cur # after))"
      using heap by (simp add: heap_leak_def l r)
    have en: "end_ok (before @ after) (um_tx_end e')"
      using end_ok_remove [OF _ da] inv by (simp add: um_tx_inv_def e'_def l r)
    have cost: "um_seg_cost e' = um_seg_cost e" by (rule um_seg_cost_cong) (simp add: e'_def)
    have len: "um_sn_len e'" using inv by (simp add: um_tx_inv_def um_sn_len_def e'_def)
    have tl: "\<forall>x \<in> set (tl (before @ after)). seg_is_first x"
    proof -
      have "\<forall>x \<in> set (tl (before @ cur # after)). seg_is_first x"
        using inv by (simp add: um_tx_inv_def l r)
      then show ?thesis by (cases before; cases after) auto
    qed
    have bs: "bs_tx_size (c_bstatus (um_common e')) = sum_list (map (um_seg_cost e) (before @ after))"
      using inv by (simp add: um_tx_inv_def e'_def l r um_seg_cost_def)
    have "0 \<le> seg_size cur" using heap by (auto simp: heap_leak_def l r seg_ok_def)
    then have sz: "sum_list (map seg_size (before @ after)) \<le> um_tx_size e"
      using inv by (simp add: um_tx_inv_def l r)
    have "um_tx_list e' = before @ after" "um_tx_size e' = um_tx_size e" "um_heap e' = h"
      "um_tx_next e' = um_tx_next e" "um_sn_modulus e' = um_sn_modulus e"
      by (simp_all add: e'_def)
    moreover from this have "um_tx_inv lk e'"
      unfolding um_tx_inv_def cost using inv h(2) len tl bs en sz by (simp add: um_tx_inv_def l r)
    ultimately show ?thesis using run l r(1) by blast
  qed
qed

lemma um_clear_ok:
  assumes "um_tx_inv lk e"
  shows "\<exists>e'. um_clear_entity e = Inr e' \<and> um_tx_inv lk e' \<and> heap_leak lk (um_heap e') [] \<and> um_queue e' = []"
proof -
  obtain h where h: "nr_rlc_free_sdu_segment_list (um_heap e) (um_tx_list e) = Inr h" "heap_leak lk h []"
    using heap_ok_free_list [of lk "um_heap e" "um_tx_list e" "[]"] assms by (auto simp: um_tx_inv_def)
  have "um_sn_len e" "0 < um_sn_modulus e" using assms by (auto simp: um_tx_inv_def um_sn_len_def)
  with h show ?thesis
    by (simp add: um_clear_entity_def um_tx_inv_def um_queue_def um_sn_len_def sn_valid_def)
qed

section \<open>Properties\<close>

text \<open>
  \<open>recv_sdu\<close> of the unacknowledged mode entity. An SDU of legal size is appended to the
  queue when it fits the configured maximum and dropped otherwise; a longer one stops the process.
  The invariant holds again: reference counts, list end, and a buffer status that is the exact
  number of bytes, headers included, that the queued segments need.
\<close>

lemma um_recv_sdu_refines:
  assumes "um_tx_inv lk e"
  shows "if int (length buf) > NR_SDU_MAX
         then nr_rlc_entity_um_recv_sdu clk e buf i = Inl Exit_sdu_too_big
         else \<exists>e'. nr_rlc_entity_um_recv_sdu clk e buf i = Inr e' \<and> um_tx_inv lk e' \<and>
                um_queue e' = (if um_tx_size e + int (length buf) > um_tx_maxsize e
                               then um_queue e else um_queue e @ [(buf, 0)])"
proof (cases "int (length buf) > NR_SDU_MAX")
  case True
  then show ?thesis by (simp add: nr_rlc_entity_um_recv_sdu_def Let_def)
next
  case False
  with um_recv_sdu_ok [OF assms, of buf clk i] show ?thesis by auto
qed

text \<open>
  C24: \<open>generate_pdu\<close> of the unacknowledged mode entity. For the SDU \<open>D\<close> at the head of the
  queue, of which \<open>k\<close> bytes were sent before, and a MAC buffer of any size (but for two bytes with
  sequence numbers of 12 bits, where the code drops the SDU), the call either finds no room and changes nothing,
  or sends the next \<open>n\<close> bytes: the MAC buffer starts with a PDU whose header holds the segment
  flags, the sequence number and the offset \<open>k\<close>, followed by exactly these bytes; the queue keeps
  the rest of the SDU, if any, and \<open>tx_next\<close> moves on exactly after the last segment of a
  segmented SDU. The invariant holds again.
\<close>

theorem um_generate_pdu_refines:
  assumes "um_tx_inv lk e" and "um_queue e = (D, k) # q" and "um_rest_pos e"
    and "length buf \<noteq> 2 \<or> um_sn_field_length e = 6"
  shows "\<exists>ret b e'. nr_rlc_entity_um_generate_pdu clk e buf = Inr (ret, b, e') \<and>
     length b = length buf \<and> um_tx_inv lk e' \<and> um_rest_pos e' \<and>
     ((ret = 0 \<and> e' = e \<and> length buf < 5) \<or> (\<exists>n. um_sent e D k q ret b e' n))"
  by (rule um_generate_no_loss [OF assms])

text \<open>
  with the long sequence number a MAC buffer of two bytes loses an SDU. A whole SDU of two
  bytes or more at the head of the queue is removed, nothing is sent, and its bytes stay counted
  in \<open>tx_size\<close> for ever: \<open>resegment\<close> fails after the SDU has left the list.
\<close>

lemma um_generate_loses_sdu:
  assumes "um_tx_inv lk e" and "um_queue e = (D, 0) # q" and "um_sn_field_length e = 12"
    and "length buf = 2" and "2 \<le> length D"
  shows "\<exists>e'. nr_rlc_entity_um_generate_pdu clk e buf = Inr (0, buf, e') \<and> um_queue e' = q \<and>
     um_tx_size e' = um_tx_size e"
proof -
  obtain seg rest where l: "um_tx_list e = seg # rest" using assms(2) by (auto simp: um_queue_def)
  obtain s where s: "h_sdus (um_heap e) (seg_sdu seg) = Some s" "0 \<le> seg_so seg"
    "seg_so seg + seg_size seg = int (length (sdu_data s))" "seg_is_first seg \<longleftrightarrow> seg_so seg = 0"
    "um_queue e = (sdu_data s, nat (seg_so seg)) # map (queue_elem (um_heap e)) rest"
    by (rule um_tx_head [OF assms(1) l])
  have "seg_is_last seg" by (rule um_tx_inv_tail(8) [OF assms(1) l])
  moreover have "seg_so seg = 0" "seg_is_first seg" "seg_size seg = int (length D)"
    using s assms(2) by auto
  ultimately show ?thesis
    using um_generate_lost [OF assms(1) l, of buf clk] assms(2-5)
    by (auto simp: um_compute_pdu_header_size_def um_seg_cost_def)
qed

text \<open>
  \<open>discard_sdu\<close> of the unacknowledged mode entity never faults and keeps the invariant,
  but leaves \<open>tx_size\<close> as it was, also when it removes an SDU: the space of a discarded SDU is
  never available again.
\<close>

lemma um_discard_keeps_tx_size:
  assumes "um_tx_inv lk e"
  shows "\<exists>e'. nr_rlc_entity_um_discard_sdu e i = Inr e' \<and> um_tx_inv lk e' \<and>
     um_tx_size e' = um_tx_size e \<and>
     (e' = e \<or> (\<exists>before cur after. um_tx_list e = before @ cur # after \<and> um_tx_list e' = before @ after))"
  by (rule um_discard_ok [OF assms])

text \<open>Deletion frees every SDU: nothing is left in the store, and no SDU is freed twice.\<close>

lemma um_delete_ok:
  assumes "um_tx_inv (\<lambda>_. 0) e"
  shows "\<exists>h. nr_rlc_entity_um_delete e = Inr h \<and> h_sdus h = (\<lambda>_. None)"
  using um_clear_ok [OF assms] heap_ok_Nil by (fastforce simp: nr_rlc_entity_um_delete_def)

subsection \<open>Witnesses\<close>

lemma um_example:
  "\<exists>e. um_tx_inv (\<lambda>_. 0) e \<and> um_queue e = [([1, 2, 3, 4, 5, 6], 0)] \<and> um_rest_pos e \<and>
     um_sn_field_length e = 12 \<and> um_tx_size e = 6 \<and> um_tx_maxsize e = 100 \<and> um_t_reassembly_start e = 0"
proof -
  obtain e0 where e0: "new_nr_rlc_entity_um 100 100 35 12 = Inr e0" using new_um_Inr by blast
  have i0: "um_tx_inv (\<lambda>_. 0) e0" by (rule um_tx_inv_new [OF e0])
  have f0: "um_tx_list e0 = []" "um_tx_size e0 = 0" "um_tx_maxsize e0 = 100" "um_sn_field_length e0 = 12"
    "um_t_reassembly_start e0 = 0"
    using e0 by (auto simp: new_nr_rlc_entity_um_def)
  have q0: "um_queue e0 = []" using f0 by (simp add: um_queue_def)
  obtain sdu h where new: "nr_rlc_new_sdu (um_heap e0) [1, 2, 3, 4, 5, 6] 7 = (sdu, h)" by fastforce
  have small: "int (length [1::byte, 2, 3, 4, 5, 6]) \<le> NR_SDU_MAX" by (simp add: NR_SDU_MAX_def)
  note a = um_recv_sdu_accept [OF i0 small new, of 0]
  from a f0 q0 show ?thesis
    by (intro exI conjI) (assumption, simp_all add: um_rest_pos_def)
qed

lemma um_recv_sdu_refines_example:
  "\<exists>e e'. um_tx_inv (\<lambda>_. 0) e \<and> nr_rlc_entity_um_recv_sdu 0 e [9] 8 = Inr e' \<and>
     um_queue e' = [([1, 2, 3, 4, 5, 6], 0), ([9], 0)]"
proof -
  obtain e where e: "um_tx_inv (\<lambda>_. 0) e" "um_queue e = [([1, 2, 3, 4, 5, 6], 0)]" "um_tx_size e = 6"
    "um_tx_maxsize e = 100" using um_example by blast
  from um_recv_sdu_refines [OF e(1), of "[9]" 0 8] e show ?thesis by (auto simp: NR_SDU_MAX_def)
qed

theorem um_generate_pdu_refines_witness:
  "\<exists>e ret b e' n. um_tx_inv (\<lambda>_. 0) e \<and>
     nr_rlc_entity_um_generate_pdu 0 e [0, 0, 0, 0, 0] = Inr (ret, b, e') \<and>
     um_sent e [1, 2, 3, 4, 5, 6] 0 [] ret b e' n"
proof -
  obtain e where e: "um_tx_inv (\<lambda>_. 0) e" "um_queue e = [([1, 2, 3, 4, 5, 6], 0)]" "um_rest_pos e"
    using um_example by blast
  have "\<exists>ret b e' n. nr_rlc_entity_um_generate_pdu 0 e [0, 0, 0, 0, 0] = Inr (ret, b, e') \<and>
      um_sent e [1, 2, 3, 4, 5, 6] 0 [] ret b e' n"
    using um_generate_pdu_refines [OF e, of "[0, 0, 0, 0, 0]" 0] by auto
  with e(1) show ?thesis by blast
qed

lemma um_generate_loses_sdu_example:
  "\<exists>e e'. um_tx_inv (\<lambda>_. 0) e \<and> um_queue e = [([1, 2, 3, 4, 5, 6], 0)] \<and>
     nr_rlc_entity_um_generate_pdu 0 e [0, 0] = Inr (0, [0, 0], e') \<and> um_queue e' = [] \<and>
     um_tx_size e' = 6"
proof -
  obtain e where e: "um_tx_inv (\<lambda>_. 0) e" "um_queue e = [([1, 2, 3, 4, 5, 6], 0)]"
    "um_sn_field_length e = 12" "um_tx_size e = 6" using um_example by blast
  from um_generate_loses_sdu [OF e(1-3), of "[0, 0]" 0] e show ?thesis by auto
qed

lemma um_discard_keeps_tx_size_example:
  "\<exists>e e'. um_tx_inv (\<lambda>_. 0) e \<and> nr_rlc_entity_um_discard_sdu e 7 = Inr e' \<and> um_tx_size e' = 6"
proof -
  obtain e where e: "um_tx_inv (\<lambda>_. 0) e" "um_tx_size e = 6" using um_example by blast
  from um_discard_keeps_tx_size [OF e(1), of 7] e show ?thesis by auto
qed

end
