(* ===== verification/Nr_Rlc_Am_Rx.thy ===== *)
theory Nr_Rlc_Am_Rx
  imports Nr_Rlc_Am_Control
begin

text \<open>
  The receiver of the acknowledged mode entity. The invariant \<open>am_rx_inv\<close> states that the slots of
  the reception window hold ordered PDUs of their own sequence number, and how the state variables
  lie in the window.
\<close>

section \<open>The windows\<close>

definition am_cfg :: "nr_rlc_entity_am \<Rightarrow> bool" where
  "am_cfg e \<longleftrightarrow>
     (am_sn_field_length e = 12 \<or> am_sn_field_length e = 18) \<and>
     am_sn_modulus e = 2 ^ nat (am_sn_field_length e) \<and>
     am_sn_modulus e = 2 * am_window_size e"

definition am_rx_cfg :: "nr_rlc_entity_am \<Rightarrow> bool" where
  "am_rx_cfg e \<longleftrightarrow> am_cfg e \<and> sn_valid (am_sn_modulus e) (am_rx_next e)"

definition am_tx_cfg :: "nr_rlc_entity_am \<Rightarrow> bool" where
  "am_tx_cfg e \<longleftrightarrow> am_cfg e \<and> sn_valid (am_sn_modulus e) (am_tx_next_ack e)"

lemma am_cfg_pos:
  "am_cfg e \<Longrightarrow> 1 < am_window_size e \<and> am_window_size e < am_sn_modulus e \<and>
     am_sn_modulus e = 2 * am_window_size e"
  by (auto simp: am_cfg_def)

lemma am_rx_cfg_pos:
  "am_rx_cfg e \<Longrightarrow> 1 < am_window_size e \<and> am_window_size e < am_sn_modulus e \<and>
     am_sn_modulus e = 2 * am_window_size e \<and> 0 < am_sn_modulus e \<and>
     sn_valid (am_sn_modulus e) (am_rx_next e)"
  using am_cfg_pos [of e] by (auto simp: am_rx_cfg_def)

lemma minus_wrap:
  "sn_valid m a \<Longrightarrow> sn_valid m b \<Longrightarrow> (if a - b < 0 then a - b + m else a - b) = (a - b) mod m"
  using mod_add_self2 [of "a - b" m]
  by (cases "a - b < 0") (simp_all add: sn_valid_def mod_pos_pos_trivial del: mod_add_self2)

lemma am_modulus_rx_eq:
  "am_rx_cfg e \<Longrightarrow> sn_valid (am_sn_modulus e) a \<Longrightarrow>
     am_modulus_rx e a = (a - am_rx_next e) mod am_sn_modulus e"
  unfolding am_modulus_rx_def Let_def by (intro minus_wrap) (auto simp: am_rx_cfg_def)

lemma am_modulus_tx_eq:
  "am_tx_cfg e \<Longrightarrow> sn_valid (am_sn_modulus e) a \<Longrightarrow>
     am_modulus_tx e a = (a - am_tx_next_ack e) mod am_sn_modulus e"
  unfolding am_modulus_tx_def Let_def by (intro minus_wrap) (auto simp: am_tx_cfg_def)

lemma diff_mod_inj:
  assumes "(a - c) mod m = (b - c) mod (m::int)" and "sn_valid m a" and "sn_valid m b"
  shows "a = b"
proof -
  have "a mod m = b mod m" using assms(1) by (simp add: mod_eq_dvd_iff)
  with assms(2,3) show ?thesis by (simp add: sn_valid_def)
qed

interpretation am_rx_order: sn_order am_rx_cfg am_sn_compare_rx am_modulus_rx am_sn_modulus
proof
  fix e a b
  show "am_sn_compare_rx e a b = am_modulus_rx e a - am_modulus_rx e b"
    by (simp add: am_sn_compare_rx_def)
next
  fix e a
  assume "am_rx_cfg e" and "sn_valid (am_sn_modulus e) a"
  with am_rx_cfg_pos [of e] show "sn_valid (am_sn_modulus e) (am_modulus_rx e a)"
    by (simp add: am_modulus_rx_eq) (simp add: sn_valid_def)
next
  fix e a b
  assume "am_rx_cfg e" "sn_valid (am_sn_modulus e) a" "sn_valid (am_sn_modulus e) b"
    and "am_modulus_rx e a = am_modulus_rx e b"
  then have "(a - am_rx_next e) mod am_sn_modulus e = (b - am_rx_next e) mod am_sn_modulus e"
    by (simp add: am_modulus_rx_eq)
  then show "a = b" by (rule diff_mod_inj) fact+
qed

interpretation am_tx_order: sn_order am_tx_cfg am_sn_compare_tx am_modulus_tx am_sn_modulus
proof
  fix e a b
  show "am_sn_compare_tx e a b = am_modulus_tx e a - am_modulus_tx e b"
    by (simp add: am_sn_compare_tx_def)
next
  fix e a
  assume "am_tx_cfg e" and "sn_valid (am_sn_modulus e) a"
  with am_cfg_pos [of e] show "sn_valid (am_sn_modulus e) (am_modulus_tx e a)"
    by (simp add: am_modulus_tx_eq) (simp add: sn_valid_def am_tx_cfg_def)
next
  fix e a b
  assume "am_tx_cfg e" "sn_valid (am_sn_modulus e) a" "sn_valid (am_sn_modulus e) b"
    and "am_modulus_tx e a = am_modulus_tx e b"
  then have "(a - am_tx_next_ack e) mod am_sn_modulus e = (b - am_tx_next_ack e) mod am_sn_modulus e"
    by (simp add: am_modulus_tx_eq)
  then show "a = b" by (rule diff_mod_inj) fact+
qed

text \<open>The sequence number at an offset from the start of the window, and back.\<close>

definition am_at :: "nr_rlc_entity_am \<Rightarrow> int \<Rightarrow> int" where
  "am_at e i = (am_rx_next e + i) mod am_sn_modulus e"

lemma am_at_valid [simp]: "am_rx_cfg e \<Longrightarrow> sn_valid (am_sn_modulus e) (am_at e i)"
  using am_rx_cfg_pos [of e] by (simp add: am_at_def sn_valid_def)

lemma am_key_at: "am_rx_cfg e \<Longrightarrow> 0 \<le> i \<Longrightarrow> i < am_sn_modulus e \<Longrightarrow> am_modulus_rx e (am_at e i) = i"
  using am_modulus_rx_eq [of e "am_at e i"] am_at_valid [of e i]
  by (simp add: am_at_def mod_diff_left_eq)

lemma am_at_key: "am_rx_cfg e \<Longrightarrow> sn_valid (am_sn_modulus e) a \<Longrightarrow> am_at e (am_modulus_rx e a) = a"
  by (simp add: am_at_def am_modulus_rx_eq mod_add_right_eq) (simp add: sn_valid_def)

lemma am_at_0: "am_rx_cfg e \<Longrightarrow> am_at e 0 = am_rx_next e"
  using am_rx_cfg_pos [of e] by (auto simp: am_at_def sn_valid_def)

lemma am_key_next: "am_rx_cfg e \<Longrightarrow> am_modulus_rx e (am_rx_next e) = 0"
  by (simp add: am_modulus_rx_def)

lemma am_at_Suc:
  "am_rx_cfg e \<Longrightarrow> sn_valid (am_sn_modulus e) a \<Longrightarrow> crem (a + 1) (am_sn_modulus e) = am_at e (am_modulus_rx e a + 1)"
  using am_at_key [of e a] am_rx_cfg_pos [of e]
  by (simp add: am_at_def sn_valid_def) (metis add.assoc mod_add_left_eq)

lemma am_key_nonneg: "am_rx_cfg e \<Longrightarrow> sn_valid (am_sn_modulus e) a \<Longrightarrow> 0 \<le> am_modulus_rx e a"
  and am_key_less: "am_rx_cfg e \<Longrightarrow> sn_valid (am_sn_modulus e) a \<Longrightarrow> am_modulus_rx e a < am_sn_modulus e"
  using am_rx_order.key_range [of e a] by (auto simp: sn_valid_def)

section \<open>Invariant\<close>

text \<open>
  The PDUs of a slot: a delivered SDU has its first segment, without data, at the head of the list.
  A segment that arrives after the delivery is behind it.
\<close>

definition slot_ok :: "int \<Rightarrow> pdus \<Rightarrow> bool" where
  "slot_ok sn l \<longleftrightarrow> sorted (map pdu_so l) \<and>
     (\<forall>p \<in> set l. pdu_sn p = sn \<and> 0 \<le> pdu_so p \<and>
        (\<forall>d. pdu_data p = Some d \<longrightarrow> pdu_size p = int (length d))) \<and>
     (l \<noteq> [] \<longrightarrow> (if pdu_data (hd l) = None then pdu_so (hd l) = 0
                 else \<forall>p \<in> set l. pdu_data p \<noteq> None))"

definition am_rx_core :: "nr_rlc_entity_am \<Rightarrow> bool" where
  "am_rx_core e \<longleftrightarrow>
     am_rx_cfg e \<and> rx_manager_ok (am_rx e) \<and> rm_size (am_rx e) = am_window_size e \<and>
     rm_sn_start (am_rx e) = am_rx_next e \<and>
     sn_valid (am_sn_modulus e) (am_rx_next_highest e) \<and>
     am_modulus_rx e (am_rx_next_highest e) \<le> am_window_size e \<and>
     sn_valid (am_sn_modulus e) (am_rx_highest_status e) \<and>
     am_modulus_rx e (am_rx_highest_status e) \<le> am_window_size e \<and>
     sn_valid (am_sn_modulus e) (am_rx_next_status_trigger e) \<and>
     (\<forall>i. 0 \<le> i \<and> i < am_window_size e \<longrightarrow> slot_ok (am_at e i) (am_get e (am_at e i)) \<and>
        (am_get e (am_at e i) \<noteq> [] \<longrightarrow> i < am_modulus_rx e (am_rx_next_highest e)))"

text \<open>Between two calls the start of the window and \<open>rx_highest_status\<close> are not delivered.\<close>

definition am_rx_inv :: "nr_rlc_entity_am \<Rightarrow> bool" where
  "am_rx_inv e \<longleftrightarrow>
     am_rx_core e \<and> \<not> am_sdu_delivered e (am_rx_next e) \<and>
     \<not> am_sdu_delivered e (am_rx_highest_status e) \<and>
     (am_t_reassembly_start e \<noteq> 0 \<longrightarrow>
        am_modulus_rx e (am_rx_next_status_trigger e) \<le> am_window_size e)"

text \<open>What the transmitter of the entity works on.\<close>

definition am_tx_view ::
  "nr_rlc_entity_am \<Rightarrow> (int \<times> int \<times> int \<times> int) \<times> (int \<times> int \<times> int \<times> int) \<times>
     (segs \<times> nat option \<times> segs \<times> nat option \<times> segs \<times> rlc_heap)" where
  "am_tx_view e =
     ((am_sn_field_length e, am_sn_modulus e, am_window_size e, am_poll_sn e),
      (am_tx_next e, am_tx_next_ack e, am_tx_size e, am_tx_maxsize e),
      (am_tx_list e, am_tx_end e, am_wait_list e, am_wait_end e, am_retransmit_list e, am_heap e))"

lemma am_rx_core_cfg: "am_rx_core e \<Longrightarrow> am_rx_cfg e"
  by (simp add: am_rx_core_def)

lemma am_modulus_window: "am_rx_core e \<Longrightarrow> am_sn_modulus e = 2 * rm_size (am_rx e)"
  using am_rx_cfg_pos [of e] by (simp add: am_rx_core_def)

lemma am_key_cong:
  "am_rx_next e' = am_rx_next e \<Longrightarrow> am_sn_modulus e' = am_sn_modulus e \<Longrightarrow>
     am_modulus_rx e' = am_modulus_rx e \<and> am_at e' = am_at e"
  by (simp add: am_modulus_rx_def am_at_def fun_eq_iff Let_def)

lemma am_rx_inv_cong:
  assumes "am_sn_field_length e' = am_sn_field_length e" "am_sn_modulus e' = am_sn_modulus e"
    "am_window_size e' = am_window_size e" "am_rx_next e' = am_rx_next e"
    "am_rx_next_highest e' = am_rx_next_highest e" "am_rx_highest_status e' = am_rx_highest_status e"
    "am_rx_next_status_trigger e' = am_rx_next_status_trigger e" "am_rx e' = am_rx e"
  shows "am_rx_core e' = am_rx_core e"
    and "am_t_reassembly_start e' = am_t_reassembly_start e \<Longrightarrow> am_rx_inv e' = am_rx_inv e"
proof -
  show c: "am_rx_core e' = am_rx_core e"
    using assms am_key_cong [of e' e] by (simp add: am_rx_core_def am_rx_cfg_def am_cfg_def)
  show "am_t_reassembly_start e' = am_t_reassembly_start e \<Longrightarrow> am_rx_inv e' = am_rx_inv e"
    using assms c am_key_cong [of e' e] by (simp add: am_rx_inv_def am_sdu_delivered_def)
qed

lemma am_rx_slot:
  "am_rx_core e \<Longrightarrow> 0 \<le> i \<Longrightarrow> i < am_window_size e \<Longrightarrow> slot_ok (am_at e i) (am_get e (am_at e i))"
  "am_rx_core e \<Longrightarrow> 0 \<le> i \<Longrightarrow> i < am_window_size e \<Longrightarrow> am_get e (am_at e i) \<noteq> [] \<Longrightarrow>
     i < am_modulus_rx e (am_rx_next_highest e)"
  unfolding am_rx_core_def by blast+

lemma am_rx_core_highest:
  assumes "am_rx_core e" and "0 \<le> h" "h \<le> am_window_size e"
  shows "am_rx_core (e\<lparr>am_rx_highest_status := am_at e h\<rparr>)"
proof -
  let ?e = "e\<lparr>am_rx_highest_status := am_at e h\<rparr>"
  have cfg: "am_rx_cfg e" using assms(1) by (rule am_rx_core_cfg)
  have c: "am_modulus_rx ?e = am_modulus_rx e" "am_at ?e = am_at e" "am_rx_cfg ?e = am_rx_cfg e"
    using am_key_cong [of ?e e] by (simp_all add: am_rx_cfg_def am_cfg_def)
  have "am_modulus_rx e (am_at e h) = h"
    using am_key_at [OF cfg assms(2)] am_rx_cfg_pos [OF cfg] assms(3) by auto
  with assms am_at_valid [OF cfg, of h] show ?thesis unfolding am_rx_core_def c by simp
qed

lemma am_get_window:
  assumes "am_rx_core e" and "0 \<le> i" "i < am_window_size e" "0 \<le> j" "j < am_window_size e"
  shows "nr_rlc_rx_manager_get_pdu_from_sn (rx_manager_set (am_rx e) (am_at e i) l) (am_at e j) =
     (if i = j then l else am_get e (am_at e j))"
  using rm.get_put_window [of "am_rx e" i j "am_rx_next e" l] assms am_modulus_window [OF assms(1)]
  by (simp add: am_rx_core_def am_at_def)

lemma am_get_alias:
  assumes "am_rx_core e"
  shows "am_get e (am_at e (i + am_window_size e)) = am_get e (am_at e i)"
  using rm.get_next_window [of "am_rx e" "am_rx_next e" i] assms am_modulus_window [OF assms]
  by (simp add: am_rx_core_def am_at_def add.assoc)

lemma am_rx_core_set:
  assumes "am_rx_core e" and "0 \<le> i" "i < am_window_size e" and "slot_ok (am_at e i) l"
    and "l \<noteq> [] \<longrightarrow> i < am_modulus_rx e (am_rx_next_highest e)"
  shows "am_rx_core (e\<lparr>am_rx := rx_manager_set (am_rx e) (am_at e i) l\<rparr>)"
proof -
  let ?e = "e\<lparr>am_rx := rx_manager_set (am_rx e) (am_at e i) l\<rparr>"
  have key: "am_modulus_rx ?e = am_modulus_rx e" "am_at ?e = am_at e" "am_rx_cfg ?e = am_rx_cfg e"
    using am_key_cong [of ?e e] by (simp_all add: am_rx_cfg_def am_cfg_def)
  have get: "am_get ?e (am_at e j) = (if i = j then l else am_get e (am_at e j))"
    if "0 \<le> j" "j < am_window_size e" for j
    using am_get_window [OF assms(1-3) that] by simp
  show ?thesis
    using assms get unfolding am_rx_core_def key by simp
qed

lemma am_delivered_set:
  assumes "am_rx_core e" and "0 \<le> i" "i < am_window_size e" and "0 \<le> j" "j < am_window_size e"
    and "am_rx e' = rx_manager_set (am_rx e) (am_at e i) l"
  shows "am_sdu_delivered e' (am_at e j) \<longleftrightarrow>
     (if i = j then l \<noteq> [] \<and> pdu_data (hd l) = None else am_sdu_delivered e (am_at e j))"
  using am_get_window [OF assms(1-5)] assms(6)
  by (auto simp: am_sdu_delivered_def split: list.splits)

lemma am_skip_ok:
  assumes "am_rx_core e" and "0 \<le> i" "i \<le> j" "j \<le> am_window_size e"
    and "\<not> am_sdu_delivered e (am_at e j)"
  shows "\<exists>k. i \<le> k \<and> k \<le> j \<and> \<not> am_sdu_delivered e (am_at e k) \<and>
     skip_delivered (am_sdu_delivered e) (am_sn_modulus e) (am_at e i) = Inr (am_at e k)"
proof -
  have pos: "am_window_size e < am_sn_modulus e" and c: "am_rx_cfg e"
    using am_rx_cfg_pos [of e] am_rx_core_cfg [OF assms(1)] by auto
  have v: "0 \<le> am_at e x" "am_at e x < am_sn_modulus e" for x
    using am_at_valid [OF c, of x] by (auto simp: sn_valid_def)
  obtain n where n: "skip_delivered (am_sdu_delivered e) (am_sn_modulus e) (am_at e i) =
      Inr ((am_at e i + int n) mod am_sn_modulus e)"
    "int n \<le> (am_at e j - am_at e i) mod am_sn_modulus e"
    "\<not> am_sdu_delivered e ((am_at e i + int n) mod am_sn_modulus e)"
    using skip_delivered_ok [of "am_at e i" "am_sn_modulus e" "am_at e j" "am_sdu_delivered e"]
      v assms(5) by blast
  have "(am_at e j - am_at e i) mod am_sn_modulus e = (j - i) mod am_sn_modulus e"
    by (simp add: am_at_def mod_diff_eq)
  then have "int n \<le> j - i" using n(2) assms pos by simp
  moreover have "(am_at e i + int n) mod am_sn_modulus e = am_at e (i + int n)"
    by (simp add: am_at_def mod_add_left_eq add.assoc)
  ultimately show ?thesis using n assms by (intro exI [of _ "i + int n"]) auto
qed

section \<open>Reassembly\<close>

lemma slot_ok_free: "slot_ok sn l \<Longrightarrow> l \<noteq> [] \<Longrightarrow> pdu_so (hd l) = 0 \<Longrightarrow>
    slot_ok sn (map (\<lambda>p. p\<lparr>pdu_data := None\<rparr>) l)"
  by (cases l) (auto simp: slot_ok_def comp_def)

lemma am_reassemble_ok:
  assumes "am_rx_core e" and "0 \<le> i" "i < am_window_size e" and "am_sdu_full e (am_at e i)"
  shows "\<exists>c n l. am_reassemble_and_deliver e (am_at e i) =
       Inr (e\<lparr>am_rx := rx_manager_set (am_rx e) (am_at e i) l, am_rx_size := n, am_common := c\<rparr>) \<and>
     l \<noteq> [] \<and> pdu_data (hd l) = None \<and> slot_ok (am_at e i) l \<and>
     i < am_modulus_rx e (am_rx_next_highest e)"
proof -
  obtain p l where l: "am_get e (am_at e i) = p # l" "pdu_data p \<noteq> None" "sdu_full_loop (p # l) (- 1)"
    using assms(4) by (auto simp: am_sdu_full_def split: list.splits if_splits)
  have ok: "slot_ok (am_at e i) (p # l)" and nh: "i < am_modulus_rx e (am_rx_next_highest e)"
    using assms(1-3) l(1) by (auto simp: am_rx_core_def)
  have "\<forall>q \<in> set (p # l). pdu_wf q"
    using ok l(2) by (fastforce simp: slot_ok_def pdu_wf_def split: option.splits)
  then obtain sdu bad where "reassemble (p # l) = Inr (sdu, bad)" using reassemble_ok by blast
  moreover have so: "pdu_so p = 0"
    using l(3) ok by (auto simp: slot_ok_def split: if_splits)
  moreover define c where "c = (if bad then am_common e else
      upd_stats stat_txsdu_pkt (upcall (Deliver_sdu sdu) (am_common e)))"
  define l' n where "l' = map (\<lambda>p. p\<lparr>pdu_data := None\<rparr>) (p # l)"
    and "n = am_rx_size e - sum_list (map pdu_size (p # l))"
  ultimately have "am_reassemble_and_deliver e (am_at e i) =
      Inr (e\<lparr>am_rx := rx_manager_set (am_rx e) (am_at e i) l', am_rx_size := n, am_common := c\<rparr>)"
    using l(1) unfolding am_reassemble_and_deliver_def Let_def l'_def n_def c_def
    by (cases e) simp
  moreover have "l' \<noteq> []" "pdu_data (hd l') = None" "slot_ok (am_at e i) l'"
    using slot_ok_free [OF ok] so by (simp_all add: l'_def)
  ultimately show ?thesis using nh by blast
qed

section \<open>Advancing the window\<close>

definition delivered_slot :: "pdus \<Rightarrow> bool" where
  "delivered_slot l \<longleftrightarrow> l \<noteq> [] \<and> pdu_data (hd l) = None"

lemma am_sdu_delivered_slot: "am_sdu_delivered e sn \<longleftrightarrow> delivered_slot (am_get e sn)"
  by (auto simp: am_sdu_delivered_def delivered_slot_def split: list.splits)

lemma count_clear_slot:
  assumes "i < length xs" and "P (xs ! i)" and "\<not> P v"
  shows "Suc (length (filter P (xs[i := v]))) = length (filter P xs)"
proof -
  have "filter P xs = filter P (take i xs @ xs ! i # drop (Suc i) xs)"
    using assms(1) by (simp add: id_take_nth_drop [symmetric])
  with assms show ?thesis by (simp add: list_update_take_drop)
qed

lemma am_free_delivered_ok:
  assumes "rx_manager_ok m" and "w = rm_size m" and "sn_valid (2 * w) r"
    and "length (filter delivered_slot (rm_rx_list m)) < fuel"
  shows "\<exists>k m'. am_free_delivered fuel (2 * w) m r n = Inr (m', (r + k) mod (2 * w), n + k) \<and>
     0 \<le> k \<and> k \<le> w \<and> rx_manager_ok m' \<and> rm_size m' = w \<and> rm_sn_start m' = rm_sn_start m \<and>
     (\<forall>i. 0 \<le> i \<and> i < k \<longrightarrow> delivered_slot (nr_rlc_rx_manager_get_pdu_from_sn m ((r + i) mod (2 * w)))) \<and>
     (\<forall>i. 0 \<le> i \<and> i < w \<longrightarrow> nr_rlc_rx_manager_get_pdu_from_sn m' ((r + i) mod (2 * w)) =
        (if i < k then [] else nr_rlc_rx_manager_get_pdu_from_sn m ((r + i) mod (2 * w)))) \<and>
     \<not> delivered_slot (nr_rlc_rx_manager_get_pdu_from_sn m' ((r + k) mod (2 * w)))"
  using assms
proof (induction fuel arbitrary: m r n)
  case (Suc fuel)
  let ?get = "nr_rlc_rx_manager_get_pdu_from_sn"
  have w: "0 < w" using rm.window_pos Suc.prems by blast
  have r: "r mod (2 * w) = r" using Suc.prems(3) by (simp add: sn_valid_def)
  show ?case
  proof (cases "delivered_slot (?get m r)")
    case False
    then have "am_free_delivered (Suc fuel) (2 * w) m r n = Inr (m, r, n)"
      by (auto simp: delivered_slot_def split: list.splits)
    with False Suc.prems w r show ?thesis by (intro exI [of _ 0] exI [of _ m]) auto
  next
    case True
    define m1 r1 where "m1 = nr_rlc_rx_manager_clear_pdu m r" and "r1 = (r + 1) mod (2 * w)"
    have step: "am_free_delivered (Suc fuel) (2 * w) m r n = am_free_delivered fuel (2 * w) m1 r1 (n + 1)"
      using True Suc.prems(3) w
      by (auto simp: delivered_slot_def m1_def r1_def sn_valid_def split: list.splits)
    have m1: "rx_manager_ok m1" "w = rm_size m1" "rm_sn_start m1 = rm_sn_start m"
      using Suc.prems by (simp_all add: m1_def nr_rlc_rx_manager_clear_pdu_def)
    have r1: "sn_valid (2 * w) r1" "(r1 + i) mod (2 * w) = (r + (1 + i)) mod (2 * w)" for i
      using w by (simp_all add: r1_def sn_valid_def mod_add_left_eq add.assoc)
    have "Suc (length (filter delivered_slot (rm_rx_list m1))) =
        length (filter delivered_slot (rm_rx_list m))"
      using count_clear_slot [of "nat (get_pos m r)" "rm_rx_list m" delivered_slot "[]"] True
        get_pos_range [OF Suc.prems(1), of r] Suc.prems(2,3)
      by (simp add: m1_def nr_rlc_rx_manager_clear_pdu_def rx_manager_set_def delivered_slot_def
          nr_rlc_rx_manager_get_pdu_from_sn_def)
    then have f: "length (filter delivered_slot (rm_rx_list m1)) < fuel" using Suc.prems(4) by simp
    obtain k m' where k: "am_free_delivered fuel (2 * w) m1 r1 (n + 1) =
        Inr (m', (r + (1 + k)) mod (2 * w), n + 1 + k)" "0 \<le> k" "k \<le> w"
      "rx_manager_ok m'" "rm_size m' = w" "rm_sn_start m' = rm_sn_start m"
      and del: "\<And>i. 0 \<le> i \<Longrightarrow> i < k \<Longrightarrow> delivered_slot (?get m1 ((r + (1 + i)) mod (2 * w)))"
      and get': "\<And>i. 0 \<le> i \<Longrightarrow> i < w \<Longrightarrow> ?get m' ((r + (1 + i)) mod (2 * w)) =
        (if i < k then [] else ?get m1 ((r + (1 + i)) mod (2 * w)))"
      and stop: "\<not> delivered_slot (?get m' ((r + (1 + k)) mod (2 * w)))"
      using Suc.IH [OF m1(1,2) r1(1) f, of "n + 1"] unfolding r1(2) m1(3) by blast
    have get1: "?get m1 ((r + i) mod (2 * w)) = (if i = 0 then [] else ?get m ((r + i) mod (2 * w)))"
      if "0 \<le> i" "i < w" for i
      using rm.get_put_window [of m 0 i r "[]"] that Suc.prems w r
      by (auto simp: m1_def nr_rlc_rx_manager_clear_pdu_def)
    have wrap: "?get x ((r + (1 + (w - 1))) mod (2 * w)) = ?get x r"
      if "rx_manager_ok x" "rm_size x = w" for x
      using rm.get_next_window [of x r 0] that r by simp
    have kw: "k < w"
    proof (rule ccontr)
      assume "\<not> k < w"
      then have "delivered_slot (?get m1 r)"
        using del [of "w - 1"] w wrap [OF m1(1)] m1(2) by simp
      with get1 [of 0] w r show False by (simp add: delivered_slot_def)
    qed
    have "?get m' ((r + i) mod (2 * w)) = (if i < 1 + k then [] else ?get m ((r + i) mod (2 * w)))"
      if "0 \<le> i" "i < w" for i
    proof (cases "i = 0")
      case True
      with get' [of "w - 1"] wrap [OF k(4,5)] wrap [OF m1(1)] m1(2) get1 [of 0] w r k(2) show ?thesis
        by (auto split: if_splits)
    next
      case False
      with get' [of "i - 1"] get1 [of i] that show ?thesis by auto
    qed
    moreover have "delivered_slot (?get m ((r + i) mod (2 * w)))" if "0 \<le> i" "i < 1 + k" for i
      using that True r get1 [of i] del [of "i - 1"] kw by (cases "i = 0") auto
    ultimately show ?thesis
      using step k kw stop by (intro exI [of _ "1 + k"] exI [of _ m']) (auto simp: add.assoc)
  qed
qed simp

lemma am_advance_key:
  assumes "am_rx_cfg e" and "sn_valid (am_sn_modulus e) a" and "0 \<le> k" "k \<le> am_modulus_rx e a"
    and "am_rx_cfg e'" "am_rx_next e' = am_at e k" "am_sn_modulus e' = am_sn_modulus e"
  shows "am_modulus_rx e' a = am_modulus_rx e a - k"
proof -
  have "am_modulus_rx e' a = (a - (am_rx_next e + k)) mod am_sn_modulus e"
    using am_modulus_rx_eq [OF assms(5), of a] assms by (simp add: am_at_def mod_diff_right_eq)
  also have "\<dots> = (am_modulus_rx e a - k) mod am_sn_modulus e"
    using am_modulus_rx_eq [OF assms(1,2)] by (simp add: mod_diff_left_eq algebra_simps)
  finally show ?thesis
    using am_key_less [OF assms(1,2)] assms(3,4) by simp
qed

lemma am_advance_ok:
  assumes core: "am_rx_core e"
    and high: "am_modulus_rx e (am_rx_highest_status e) < am_window_size e \<longrightarrow>
      \<not> am_sdu_delivered e (am_rx_highest_status e)"
  shows "\<exists>k m'. am_advance_rx_next e = Inr (e\<lparr>am_rx_next := am_at e k, am_rx := m'\<rparr>) \<and>
     am_rx_core (e\<lparr>am_rx_next := am_at e k, am_rx := m'\<rparr>) \<and>
     \<not> am_sdu_delivered (e\<lparr>am_rx_next := am_at e k, am_rx := m'\<rparr>) (am_at e k) \<and>
     \<not> am_sdu_delivered (e\<lparr>am_rx_next := am_at e k, am_rx := m'\<rparr>) (am_rx_highest_status e)"
proof -
  let ?get = "nr_rlc_rx_manager_get_pdu_from_sn" and ?w = "am_window_size e" and ?M = "am_sn_modulus e"
  have cfg: "am_rx_cfg e" and ok: "rx_manager_ok (am_rx e)" and w: "?w = rm_size (am_rx e)"
    and M: "?M = 2 * ?w" and st: "rm_sn_start (am_rx e) = am_rx_next e"
    and v: "sn_valid (2 * ?w) (am_rx_next e)" and pos: "1 < ?w" "?w < ?M"
    using core am_rx_cfg_pos [of e] by (auto simp: am_rx_core_def)
  have "length (filter delivered_slot (rm_rx_list (am_rx e))) < Suc (nat (rm_size (am_rx e)))"
    using ok length_filter_le [of delivered_slot "rm_rx_list (am_rx e)"]
    by (simp add: rx_manager_ok_def)
  from am_free_delivered_ok [OF ok w v this, of 0] obtain k m where
    free: "am_free_delivered (Suc (nat (rm_size (am_rx e)))) ?M (am_rx e) (am_rx_next e) 0 =
      Inr (m, am_at e k, k)" and k: "0 \<le> k" "k \<le> ?w"
    and m: "rx_manager_ok m" "rm_size m = ?w" "rm_sn_start m = am_rx_next e"
    and del: "\<And>i. 0 \<le> i \<Longrightarrow> i < k \<Longrightarrow> am_sdu_delivered e (am_at e i)"
    and get: "\<And>i. 0 \<le> i \<Longrightarrow> i < ?w \<Longrightarrow> ?get m (am_at e i) = (if i < k then [] else am_get e (am_at e i))"
    and stop: "\<not> delivered_slot (?get m (am_at e k))"
    unfolding am_sdu_delivered_slot am_at_def M st by auto
  define m' where "m' = rx_manager_slide m k (am_at e k)"
  define e' where "e' = e\<lparr>am_rx_next := am_at e k, am_rx := m'\<rparr>"
  have run: "am_advance_rx_next e = Inr e'"
    using free by (simp add: am_advance_rx_next_def e'_def m'_def rx_manager_slide_def)
  have b: "am_at e k = (rm_sn_start m + k) mod (2 * rm_size m)"
    using m M by (simp add: am_at_def)
  note slide = rx_manager_slide_pos [OF m(1) k(1) b, folded m'_def]
  have cfg': "am_rx_cfg e'" "am_sn_modulus e' = ?M" "am_window_size e' = ?w" "am_rx_next e' = am_at e k"
    using cfg am_at_valid [OF cfg, of k] by (auto simp: am_rx_cfg_def am_cfg_def e'_def)
  have get': "am_get e' (am_at e i) = (if i < k then [] else am_get e (am_at e i))"
    if "0 \<le> i" "i < ?w" for i
    using get [OF that] rm.get_slide [OF m(1) k(1) b, of "am_at e i"] am_at_valid [OF cfg, of i] m M
    by (simp add: e'_def m'_def)
  have shared: "am_get e' (am_at e (i + ?w)) = am_get e' (am_at e i)" for i
    using rm.get_next_window [of m' "am_rx_next e" i] slide m M
    by (simp add: e'_def am_at_def add.assoc)
  have at': "am_at e' i = am_at e (k + i)" for i
    by (simp add: am_at_def e'_def mod_add_left_eq add.assoc)
  have nh: "k \<le> am_modulus_rx e (am_rx_next_highest e)"
  proof (cases "k = 0")
    case False
    with del [of "k - 1"] k have "am_get e (am_at e (k - 1)) \<noteq> []"
      by (auto simp: am_sdu_delivered_def)
    with am_rx_slot(2) [OF core, of "k - 1"] False k show ?thesis by simp
  qed (use core am_key_nonneg in \<open>auto simp: am_rx_core_def\<close>)
  have hv: "sn_valid ?M (am_rx_highest_status e)" using core by (simp add: am_rx_core_def)
  define h where "h = am_modulus_rx e (am_rx_highest_status e)"
  have h: "am_rx_highest_status e = am_at e h" "0 \<le> h" "h \<le> ?w"
    using am_at_key [OF cfg hv] am_key_nonneg [OF cfg hv] core by (auto simp: h_def am_rx_core_def)
  have hk: "k \<le> h"
  proof (rule ccontr)
    assume "\<not> k \<le> h"
    then have "h < ?w" "am_sdu_delivered e (am_rx_highest_status e)" using k h del [of h] by auto
    with high show False by (simp add: h_def)
  qed
  have hd: "\<not> am_sdu_delivered e' (am_rx_highest_status e)"
  proof (cases "h < ?w")
    case True
    then show ?thesis
      using get' [of h] hk high [folded h_def] h(2) unfolding h(1) am_sdu_delivered_slot by simp
  next
    case False
    then have "am_get e' (am_rx_highest_status e) = am_get e' (am_at e 0)"
      using shared [of 0] h by simp
    moreover have "\<not> delivered_slot (am_get e' (am_at e 0))"
      using get' [of 0] get [of 0] stop k pos by (cases "k = 0") (auto simp: delivered_slot_def)
    ultimately show ?thesis by (simp add: am_sdu_delivered_slot)
  qed
  have nd: "\<not> am_sdu_delivered e' (am_at e k)"
    using stop rm.get_slide [OF m(1) k(1) b, of "am_at e k"] am_at_valid [OF cfg, of k] m M
    by (simp add: am_sdu_delivered_slot e'_def m'_def)
  have slots: "slot_ok (am_at e' i) (am_get e' (am_at e' i)) \<and> (am_get e' (am_at e' i) \<noteq> [] \<longrightarrow>
      i < am_modulus_rx e (am_rx_next_highest e) - k)" if "0 \<le> i" "i < ?w" for i
  proof (cases "k + i < ?w")
    case True
    then have "am_get e' (am_at e' i) = am_get e (am_at e (k + i))"
      using get' [of "k + i"] that k by (simp add: at')
    with am_rx_slot [OF core, of "k + i"] True that k show ?thesis unfolding at' by auto
  next
    case False
    then have "am_get e' (am_at e' i) = []"
      using shared [of "k + i - ?w"] get' [of "k + i - ?w"] that k by (simp add: at')
    then show ?thesis by (simp add: slot_ok_def)
  qed
  have keys: "am_modulus_rx e' (am_rx_next_highest e) = am_modulus_rx e (am_rx_next_highest e) - k"
    "am_modulus_rx e' (am_rx_highest_status e) = h - k"
    using am_advance_key [OF cfg _ k(1) _ cfg'(1,4,2)] nh hk core by (auto simp: am_rx_core_def h_def)
  have "am_rx_core e'"
    using slots core cfg' keys slide m h nh k unfolding am_rx_core_def e'_def by simp
  with run nd hd show ?thesis unfolding e'_def by blast
qed

section \<open>Reception actions\<close>

text \<open>A move of \<open>rx_next_highest\<close> behind the sequence number at offset \<open>i\<close>.\<close>

definition am_raise_highest :: "nr_rlc_entity_am \<Rightarrow> int \<Rightarrow> int" where
  "am_raise_highest e x =
     (if am_sn_compare_rx e x (am_rx_next_highest e) \<ge> 0
      then crem (x + 1) (am_sn_modulus e) else am_rx_next_highest e)"

lemma am_raise_highest_ok:
  assumes "am_rx_core e" and "0 \<le> i" "i < am_window_size e"
  shows "am_rx_core (e\<lparr>am_rx_next_highest := am_raise_highest e (am_at e i)\<rparr>)"
    and "i < am_modulus_rx e (am_raise_highest e (am_at e i))"
proof -
  have cfg: "am_rx_cfg e" using assms(1) by (rule am_rx_core_cfg)
  have pos: "am_window_size e < am_sn_modulus e" using am_rx_cfg_pos [OF cfg] by blast
  have ki: "am_modulus_rx e (am_at e i) = i" "am_modulus_rx e (am_at e (i + 1)) = i + 1"
    using am_key_at [OF cfg] assms pos by auto
  have nh: "am_raise_highest e (am_at e i) = (if i \<ge> am_modulus_rx e (am_rx_next_highest e)
      then am_at e (i + 1) else am_rx_next_highest e)"
    using am_at_Suc [OF cfg am_at_valid [OF cfg], of i] ki
    by (simp add: am_raise_highest_def am_rx_order.cmp_ge_key [OF cfg])
  have key: "am_modulus_rx e (am_raise_highest e (am_at e i)) =
      max (am_modulus_rx e (am_rx_next_highest e)) (i + 1)"
    using ki by (auto simp: nh)
  then show "i < am_modulus_rx e (am_raise_highest e (am_at e i))" by simp
  have v: "sn_valid (am_sn_modulus e) (am_raise_highest e (am_at e i))"
    using assms(1) am_at_valid [OF cfg] by (simp add: nh am_rx_core_def)
  let ?e = "e\<lparr>am_rx_next_highest := am_raise_highest e (am_at e i)\<rparr>"
  have c: "am_modulus_rx ?e = am_modulus_rx e" "am_at ?e = am_at e" "am_rx_cfg ?e = am_rx_cfg e"
    using am_key_cong [of ?e e] by (simp_all add: am_rx_cfg_def am_cfg_def)
  show "am_rx_core ?e"
    using assms v key unfolding am_rx_core_def c by (auto simp: less_max_iff_disj)
qed

lemma am_reception_full_ok:
  assumes core: "am_rx_core e" and i: "0 \<le> i" "i < am_window_size e" and full: "am_sdu_full e (am_at e i)"
    and next_nd: "\<not> am_sdu_delivered e (am_rx_next e)"
    and high_nd: "\<not> am_sdu_delivered e (am_rx_highest_status e)"
    and other: "0 < j" "j < am_window_size e" "\<not> am_sdu_delivered e (am_at e j)"
  shows "\<exists>e'. am_reception_full e (am_at e i) = Inr e' \<and> am_rx_core e' \<and>
     \<not> am_sdu_delivered e' (am_rx_next e') \<and> \<not> am_sdu_delivered e' (am_rx_highest_status e') \<and>
     am_tx_view e' = am_tx_view e"
proof -
  let ?w = "am_window_size e"
  have cfg: "am_rx_cfg e" using core by (rule am_rx_core_cfg)
  have pos: "1 < ?w" "?w < am_sn_modulus e" using am_rx_cfg_pos [OF cfg] by auto
  obtain c n l where re: "am_reassemble_and_deliver e (am_at e i) =
       Inr (e\<lparr>am_rx := rx_manager_set (am_rx e) (am_at e i) l, am_rx_size := n, am_common := c\<rparr>)"
     and l: "l \<noteq> []" "pdu_data (hd l) = None" "slot_ok (am_at e i) l"
     and nh: "i < am_modulus_rx e (am_rx_next_highest e)"
    using am_reassemble_ok [OF core i full] by blast
  define e1 where "e1 = e\<lparr>am_rx := rx_manager_set (am_rx e) (am_at e i) l, am_rx_size := n, am_common := c\<rparr>"
  have f1: "am_at e1 = am_at e" "am_modulus_rx e1 = am_modulus_rx e" "am_window_size e1 = ?w"
    "am_sn_modulus e1 = am_sn_modulus e" "am_rx_next e1 = am_rx_next e"
    "am_rx_highest_status e1 = am_rx_highest_status e" "am_tx_view e1 = am_tx_view e"
    using am_key_cong [of e1 e] by (simp_all add: e1_def am_tx_view_def)
  have core1: "am_rx_core e1"
    using am_rx_core_set [OF core i l(3)] nh
    by (subst am_rx_inv_cong(1) [of _ "e\<lparr>am_rx := rx_manager_set (am_rx e) (am_at e i) l\<rparr>"])
      (simp_all add: e1_def)
  have del1: "am_sdu_delivered e1 (am_at e k) \<longleftrightarrow> k = i \<or> am_sdu_delivered e (am_at e k)"
    if "0 \<le> k" "k < ?w" for k
    using am_delivered_set [OF core i that, of e1 l] l by (auto simp: e1_def)
  have wrap1: "am_sdu_delivered e1 (am_at e ?w) \<longleftrightarrow> am_sdu_delivered e1 (am_at e 0)"
    using am_get_alias [OF core1, of 0] f1 by (simp add: am_sdu_delivered_slot)
  have hv: "sn_valid (am_sn_modulus e) (am_rx_highest_status e)" using core by (simp add: am_rx_core_def)
  define h where "h = am_modulus_rx e (am_rx_highest_status e)"
  have h: "am_rx_highest_status e = am_at e h" "0 \<le> h" "h \<le> ?w"
    using am_at_key [OF cfg hv] am_key_nonneg [OF cfg hv] core by (auto simp: h_def am_rx_core_def)
  have x_h: "am_at e i = am_rx_highest_status e \<longleftrightarrow> i = h"
    using am_key_at [OF cfg i(1)] i pos h by (auto simp: h_def)
  have x_n: "am_at e i = am_rx_next e \<longleftrightarrow> i = 0"
    using am_key_at [OF cfg i(1)] am_key_at [OF cfg, of 0] i pos am_at_0 [OF cfg] by force
  text \<open>The value of \<open>rx_highest_status\<close> after the first loop.\<close>
  obtain h2 where h2: "(if am_at e i = am_rx_highest_status e1
       then bindr (skip_delivered (am_sdu_delivered e1) (am_sn_modulus e1) (am_rx_highest_status e1))
              (\<lambda>r. Inr (e1\<lparr>am_rx_highest_status := r\<rparr>)) else Inr e1) =
       Inr (e1\<lparr>am_rx_highest_status := am_at e h2\<rparr>)" "0 \<le> h2" "h2 \<le> ?w"
     "h2 < ?w \<or> i \<noteq> 0 \<longrightarrow> \<not> am_sdu_delivered e1 (am_at e h2)"
  proof (cases "i = h")
    case True
    have "\<exists>k. i \<le> k \<and> k \<le> ?w \<and> \<not> am_sdu_delivered e1 (am_at e k) \<and>
        skip_delivered (am_sdu_delivered e1) (am_sn_modulus e1) (am_at e i) = Inr (am_at e k)"
    proof (cases "i = 0")
      case True
      then have "\<not> am_sdu_delivered e1 (am_at e j)" using del1 [of j] other by auto
      then show ?thesis
        using am_skip_ok [OF core1, of i j] other True unfolding f1 by force
    next
      case False
      then have "\<not> am_sdu_delivered e1 (am_at e ?w)"
        using wrap1 del1 [of 0] next_nd pos am_at_0 [OF cfg] by simp
      then show ?thesis using am_skip_ok [OF core1, of i ?w] i unfolding f1 by force
    qed
    then obtain k where k: "i \<le> k" "k \<le> ?w" "\<not> am_sdu_delivered e1 (am_at e k)"
      "skip_delivered (am_sdu_delivered e1) (am_sn_modulus e1) (am_at e i) = Inr (am_at e k)"
      by blast
    then show ?thesis using that [of k] True x_h f1 i by simp
  next
    case False
    have "\<not> am_sdu_delivered e1 (am_at e h)" if "h < ?w \<or> i \<noteq> 0"
      using that del1 [of h] del1 [of 0] wrap1 False h high_nd next_nd pos am_at_0 [OF cfg]
      by (cases "h < ?w") auto
    moreover have "e1\<lparr>am_rx_highest_status := am_at e h\<rparr> = e1"
      using f1(6) h(1) by (cases e1) simp
    ultimately show ?thesis using that [of h] False x_h f1 h by simp
  qed
  define e2 where "e2 = e1\<lparr>am_rx_highest_status := am_at e h2\<rparr>"
  have f2: "am_at e2 = am_at e" "am_modulus_rx e2 = am_modulus_rx e" "am_window_size e2 = ?w"
    "am_sdu_delivered e2 = am_sdu_delivered e1" "am_rx_next e2 = am_rx_next e"
    "am_rx_highest_status e2 = am_at e h2" "am_tx_view e2 = am_tx_view e" "am_rx e2 = am_rx e1"
    using am_key_cong [of e2 e] f1
    by (simp_all add: e2_def am_sdu_delivered_def fun_eq_iff am_tx_view_def)
  have kh: "am_modulus_rx e (am_at e h2) = h2" using am_key_at [OF cfg h2(2)] h2(3) pos by simp
  have core2: "am_rx_core e2"
    using am_rx_core_highest [OF core1, of h2] h2(2,3) f1 by (simp add: e2_def)
  have run: "am_reception_full e (am_at e i) =
      (if am_at e i = am_rx_next e2 then am_advance_rx_next e2 else Inr e2)"
    unfolding am_reception_full_def re e1_def [symmetric] bindr_simps h2(1) e2_def [symmetric] ..
  show ?thesis
  proof (cases "i = 0")
    case True
    then obtain k m' where "am_advance_rx_next e2 = Inr (e2\<lparr>am_rx_next := am_at e2 k, am_rx := m'\<rparr>)"
      "am_rx_core (e2\<lparr>am_rx_next := am_at e2 k, am_rx := m'\<rparr>)"
      "\<not> am_sdu_delivered (e2\<lparr>am_rx_next := am_at e2 k, am_rx := m'\<rparr>) (am_at e2 k)"
      "\<not> am_sdu_delivered (e2\<lparr>am_rx_next := am_at e2 k, am_rx := m'\<rparr>) (am_rx_highest_status e2)"
      using am_advance_ok [OF core2] h2(4) kh unfolding f2 by auto
    moreover have "am_reception_full e (am_at e i) = am_advance_rx_next e2"
      using run True x_n f2(5) by simp
    ultimately show ?thesis using f2(7) by (auto simp: am_tx_view_def)
  next
    case False
    then have "am_reception_full e (am_at e i) = Inr e2"
      using run x_n f2(5) by simp
    moreover have "\<not> am_sdu_delivered e2 (am_rx_next e2)"
      using False del1 [of 0] next_nd pos am_at_0 [OF cfg] f2 by simp
    ultimately show ?thesis using core2 h2(4) False f2 by auto
  qed
qed

section \<open>Timers\<close>

lemma am_timer_keys:
  assumes "am_rx_next e' = am_rx_next e" "am_sn_modulus e' = am_sn_modulus e"
    "am_window_size e' = am_window_size e" "am_sn_field_length e' = am_sn_field_length e"
  shows "am_modulus_rx e' = am_modulus_rx e" "am_at e' = am_at e" "am_rx_cfg e' = am_rx_cfg e"
  using am_key_cong [OF assms(1,2)] assms by (simp_all add: am_rx_cfg_def am_cfg_def)

lemma am_stop_t_reassembly_ok:
  assumes "am_rx_core e" and "\<not> am_sdu_delivered e (am_rx_next e)"
    and "\<not> am_sdu_delivered e (am_rx_highest_status e)"
  shows "am_rx_inv (am_stop_t_reassembly e)"
proof -
  let ?e = "e\<lparr>am_t_reassembly_start := 0\<rparr>"
  have cfg: "am_rx_cfg e" using assms(1) by (rule am_rx_core_cfg)
  have t: "sn_valid (am_sn_modulus e) (am_rx_next_status_trigger e)" using assms(1) by (simp add: am_rx_core_def)
  have w: "crem (am_rx_next e + am_window_size e) (am_sn_modulus e) = am_at e (am_window_size e)"
    "am_modulus_rx e (am_at e (am_window_size e)) = am_window_size e"
    using am_rx_cfg_pos [OF cfg] am_key_at [OF cfg, of "am_window_size e"]
    by (auto simp: am_at_def sn_valid_def)
  have stopped: "am_rx_inv ?e"
    using am_rx_inv_cong(1) [of ?e e] assms by (simp add: am_rx_inv_def am_sdu_delivered_def)
  have trig: "am_modulus_rx e (am_rx_next_status_trigger e) \<le> am_window_size e"
    if "am_sn_in_recv_window e (am_rx_next_status_trigger e) \<or> am_rx_next_status_trigger e =
      crem (am_rx_next e + am_window_size e) (am_sn_modulus e)"
    using that w(2) unfolding w(1) am_sn_in_recv_window_def by auto
  show ?thesis
    unfolding am_stop_t_reassembly_def
  proof (split if_split, intro conjI impI)
    show "am_rx_inv ?e" by (rule stopped)
  next
    assume "\<not> (am_t_reassembly_start e \<noteq> 0 \<and>
         (am_rx_next_status_trigger e = am_rx_next e \<or>
          (am_rx_next_status_trigger e = crem (am_rx_next e + 1) (am_sn_modulus e) \<and>
           \<not> am_sdu_has_missing_bytes e (am_rx_next e)) \<or>
          (\<not> am_sn_in_recv_window e (am_rx_next_status_trigger e) \<and>
           am_rx_next_status_trigger e \<noteq>
             crem (am_rx_next e + am_window_size e) (am_sn_modulus e))))"
    then show "am_rx_inv e" using assms trig unfolding am_rx_inv_def by blast
  qed
qed

lemma am_start_trigger_ok:
  assumes "am_rx_inv e"
  shows "am_rx_inv (e\<lparr>am_rx_next_status_trigger := am_rx_next_highest e, am_t_reassembly_start := t\<rparr>)"
proof -
  let ?e = "e\<lparr>am_rx_next_status_trigger := am_rx_next_highest e, am_t_reassembly_start := t\<rparr>"
  have c: "am_modulus_rx ?e = am_modulus_rx e" "am_at ?e = am_at e" "am_rx_cfg ?e = am_rx_cfg e"
    by (rule am_timer_keys; simp)+
  show ?thesis
    using assms unfolding am_rx_inv_def am_rx_core_def c by (simp add: am_sdu_delivered_def)
qed

lemma am_start_t_reassembly_ok: "am_rx_inv e \<Longrightarrow> am_rx_inv (am_start_t_reassembly e)"
  by (simp add: am_start_t_reassembly_def am_start_trigger_ok)

lemma am_timers_tx_view [simp]:
  "am_tx_view (am_stop_t_reassembly e) = am_tx_view e"
  "am_tx_view (am_start_t_reassembly e) = am_tx_view e"
  by (simp_all add: am_stop_t_reassembly_def am_start_t_reassembly_def am_tx_view_def)

section \<open>A new PDU\<close>

lemma slot_ok_add:
  assumes "slot_ok sn l" and "pdu_sn p = sn" and "0 \<le> pdu_so p"
    and "pdu_data p = Some d" and "pdu_size p = int (length d)"
  shows "slot_ok sn (insert_before (\<lambda>q. pdu_so q > pdu_so p) p l)"
    and "delivered_slot (insert_before (\<lambda>q. pdu_so q > pdu_so p) p l) = delivered_slot l"
proof -
  have "sorted_wrt (\<lambda>x y. pdu_so x \<le> pdu_so y) (insert_before (\<lambda>q. pdu_so q > pdu_so p) p l)"
    using assms(1)
    by (intro sorted_wrt_insert_before transp_onI) (auto simp: slot_ok_def sorted_map)
  then have sort: "sorted (map pdu_so (insert_before (\<lambda>q. pdu_so q > pdu_so p) p l))"
    by (simp add: sorted_map)
  show "slot_ok sn (insert_before (\<lambda>q. pdu_so q > pdu_so p) p l)"
  proof (cases l)
    case (Cons q k)
    have "q \<in> set l" using Cons by simp
    with Cons sort assms show ?thesis unfolding slot_ok_def by (cases "pdu_data q") auto
  qed (use assms in \<open>simp add: slot_ok_def\<close>)
  show "delivered_slot (insert_before (\<lambda>q. pdu_so q > pdu_so p) p l) = delivered_slot l"
    using assms by (cases l) (auto simp: delivered_slot_def slot_ok_def split: if_splits)
qed

lemma am_reception_actions_conv:
  "am_reception_actions e x =
     (let e1 = e\<lparr>am_rx_next_highest := am_raise_highest e x\<rparr>
      in bindr (if am_sdu_full e1 x then am_reception_full e1 x else Inr e1)
           (\<lambda>e. Inr (am_start_t_reassembly (am_stop_t_reassembly e))))"
proof -
  have "e\<lparr>am_rx_next_highest := am_rx_next_highest e\<rparr> = e" by (cases e) simp
  then show ?thesis by (simp add: am_reception_actions_def am_raise_highest_def Let_def)
qed

text \<open>The state in which \<open>reception_actions\<close> works on a new PDU at offset \<open>i\<close>.\<close>

lemma am_add_pdu_ok:
  assumes inv: "am_rx_inv e" and i: "0 \<le> i" "i < am_window_size e" and p: "pdu_sn p = am_at e i" "0 \<le> pdu_so p"
    "pdu_data p = Some d" "pdu_size p = int (length d)"
    and e1: "e1 = e\<lparr>am_rx_size := n, am_rx := nr_rlc_rx_manager_add_pdu (am_rx e) p,
      am_rx_next_highest := am_raise_highest e (am_at e i)\<rparr>"
  shows "am_rx_core e1" and "am_at e1 = am_at e"
    and "am_sdu_delivered e1 (am_at e j) = am_sdu_delivered e (am_at e j)"
    and "am_sdu_delivered e1 (am_rx_highest_status e) = am_sdu_delivered e (am_rx_highest_status e)"
proof -
  define l where "l = insert_before (\<lambda>q. pdu_so q > pdu_so p) p (am_get e (am_at e i))"
  have core: "am_rx_core e" using inv by (simp add: am_rx_inv_def)
  define e0 where "e0 = e\<lparr>am_rx_next_highest := am_raise_highest e (am_at e i)\<rparr>"
  have k0: "am_modulus_rx e0 = am_modulus_rx e" "am_at e0 = am_at e" "am_rx_cfg e0 = am_rx_cfg e"
    unfolding e0_def by (rule am_timer_keys; simp)+
  have slot: "slot_ok (am_at e i) l" "delivered_slot l = delivered_slot (am_get e (am_at e i))"
    using slot_ok_add [OF am_rx_slot(1) [OF core i] p] by (simp_all add: l_def)
  have rx: "am_rx e1 = rx_manager_set (am_rx e) (am_at e i) l"
    using p(1) by (simp add: e1 nr_rlc_rx_manager_add_pdu_def l_def)
  have w0: "am_window_size e0 = am_window_size e"
    "am_rx_next_highest e0 = am_raise_highest e (am_at e i)"
    by (simp_all add: e0_def)
  have "am_rx_core (e0\<lparr>am_rx := rx_manager_set (am_rx e0) (am_at e0 i) l\<rparr>)"
    using am_raise_highest_ok [OF core i, folded e0_def] slot i
    by (intro am_rx_core_set) (simp_all only: k0 w0 simp_thms)
  then show c1: "am_rx_core e1"
    using rx k0 by (subst am_rx_inv_cong(1) [of e1 "e0\<lparr>am_rx := rx_manager_set (am_rx e0) (am_at e0 i) l\<rparr>"])
      (simp_all add: e0_def, simp_all add: e1)
  show at1: "am_at e1 = am_at e" by (simp add: am_at_def fun_eq_iff e1)
  have cfg: "am_rx_cfg e" using core by (rule am_rx_core_cfg)
  have w: "0 < am_window_size e" "am_sn_modulus e = 2 * am_window_size e"
    using am_rx_cfg_pos [OF cfg] by auto
  have in_w: "am_sdu_delivered e1 (am_at e j) = am_sdu_delivered e (am_at e j)"
    if "0 \<le> j" "j < am_window_size e" for j
    using am_delivered_set [OF core i that rx] slot by (auto simp: delivered_slot_def am_sdu_delivered_slot)
  have all: "am_sdu_delivered e1 (am_at e j) = am_sdu_delivered e (am_at e j)" for j
  proof -
    define k where "k = j mod am_sn_modulus e"
    have k: "am_at e j = am_at e k" "0 \<le> k" "k < 2 * am_window_size e"
      using w by (simp_all add: am_at_def k_def mod_add_right_eq)
    show ?thesis
    proof (cases "k < am_window_size e")
      case False
      then show ?thesis
        using in_w [of "k - am_window_size e"] am_get_alias [OF core, of "k - am_window_size e"]
          am_get_alias [OF c1, of "k - am_window_size e"] k at1
        by (simp add: am_sdu_delivered_slot e1)
    qed (use k in_w in simp)
  qed
  then show "am_sdu_delivered e1 (am_at e j) = am_sdu_delivered e (am_at e j)" .
  have "sn_valid (am_sn_modulus e) (am_rx_highest_status e)" using core by (simp add: am_rx_core_def)
  from all [of "am_modulus_rx e (am_rx_highest_status e)"] am_at_key [OF cfg this]
  show "am_sdu_delivered e1 (am_rx_highest_status e) = am_sdu_delivered e (am_rx_highest_status e)"
    by simp
qed

lemma am_reception_actions_ok:
  assumes inv: "am_rx_inv e" and i: "0 \<le> i" "i < am_window_size e" and p: "pdu_sn p = am_at e i" "0 \<le> pdu_so p"
    "pdu_data p = Some d" "pdu_size p = int (length d)"
    and other: "0 < j" "j < am_window_size e" "\<not> am_sdu_delivered e (am_at e j)"
  shows "\<exists>e'. am_reception_actions (e\<lparr>am_rx_size := n, am_rx := nr_rlc_rx_manager_add_pdu (am_rx e) p\<rparr>)
       (am_at e i) = Inr e' \<and> am_rx_inv e' \<and> am_tx_view e' = am_tx_view e"
proof -
  let ?e = "e\<lparr>am_rx_size := n, am_rx := nr_rlc_rx_manager_add_pdu (am_rx e) p\<rparr>"
  define e1 where "e1 = e\<lparr>am_rx_size := n, am_rx := nr_rlc_rx_manager_add_pdu (am_rx e) p,
      am_rx_next_highest := am_raise_highest e (am_at e i)\<rparr>"
  note add = am_add_pdu_ok [OF inv i p e1_def]
  have cfg: "am_rx_cfg e" using inv by (simp add: am_rx_inv_def am_rx_core_def)
  have f1: "am_rx_next e1 = am_rx_next e" "am_rx_highest_status e1 = am_rx_highest_status e"
    "am_window_size e1 = am_window_size e" "am_tx_view e1 = am_tx_view e"
    by (simp_all add: e1_def am_tx_view_def)
  have nd: "\<not> am_sdu_delivered e1 (am_rx_next e1)" "\<not> am_sdu_delivered e1 (am_rx_highest_status e1)"
    using inv add(3) [of 0] add(4) f1 am_at_0 [OF cfg] by (auto simp: am_rx_inv_def)
  obtain e2 where e2: "(if am_sdu_full e1 (am_at e i) then am_reception_full e1 (am_at e i) else Inr e1) = Inr e2"
    "am_rx_core e2" "\<not> am_sdu_delivered e2 (am_rx_next e2)"
    "\<not> am_sdu_delivered e2 (am_rx_highest_status e2)" "am_tx_view e2 = am_tx_view e"
  proof (cases "am_sdu_full e1 (am_at e i)")
    case True
    then show ?thesis
      using that am_reception_full_ok [OF add(1) i(1) _ _ nd, of j] i other add(2,3) f1 by auto
  next
    case False
    then show ?thesis using that [of e1] add(1) nd f1 by simp
  qed
  have "am_raise_highest ?e (am_at e i) = am_raise_highest e (am_at e i)"
    by (simp add: am_raise_highest_def am_sn_compare_rx_def am_modulus_rx_def Let_def)
  then have "?e\<lparr>am_rx_next_highest := am_raise_highest ?e (am_at e i)\<rparr> = e1" by (simp add: e1_def)
  then have "am_reception_actions ?e (am_at e i) = Inr (am_start_t_reassembly (am_stop_t_reassembly e2))"
    unfolding am_reception_actions_conv Let_def by (simp only: e2(1) bindr_simps)
  with am_start_t_reassembly_ok [OF am_stop_t_reassembly_ok [OF e2(2-4)]] e2(5) show ?thesis by simp
qed

lemma am_discard_pdu_ok [simp]:
  "am_rx_inv (am_discard_pdu e p n) = am_rx_inv e" "am_tx_view (am_discard_pdu e p n) = am_tx_view e"
  by (rule am_rx_inv_cong(2); simp add: am_discard_pdu_def) (simp add: am_discard_pdu_def am_tx_view_def)

lemma am_rx_inv_frame [simp]:
  "am_rx_inv (e\<lparr>am_common := c\<rparr>) = am_rx_inv e"
  "am_rx_inv (e\<lparr>am_status_triggered := b\<rparr>) = am_rx_inv e"
  by (rule am_rx_inv_cong(2); simp)+

lemma am_tx_view_frame [simp]:
  "am_tx_view (e\<lparr>am_common := c\<rparr>) = am_tx_view e"
  "am_tx_view (e\<lparr>am_status_triggered := b\<rparr>) = am_tx_view e"
  by (simp_all add: am_tx_view_def)

lemma am_recv_segment_ok:
  assumes inv: "am_rx_inv e" and v: "sn_valid (am_sn_modulus e) sn" and so: "0 \<le> so"
    and other: "0 < j" "j < am_window_size e" "\<not> am_sdu_delivered e (am_at e j)"
  shows "\<exists>e'. am_recv_segment e buf p f la sn so d = Inr e' \<and> am_rx_inv e' \<and> am_tx_view e' = am_tx_view e"
proof (cases "int (length buf) - int (dec_byte d) \<le> 0 \<or>
    am_rx_size e + (int (length buf) - int (dec_byte d)) > am_rx_maxsize e \<or>
    \<not> am_sn_in_recv_window e sn \<or>
    am_segment_already_received e sn so (int (length buf) - int (dec_byte d))")
  case True
  then show ?thesis using inv by (auto simp: am_recv_segment_def Let_def)
next
  case False
  have cfg: "am_rx_cfg e" using inv by (simp add: am_rx_inv_def am_rx_core_def)
  define i where "i = am_modulus_rx e sn"
  have i: "0 \<le> i" "i < am_window_size e" "am_at e i = sn"
    using False am_key_nonneg [OF cfg v] am_at_key [OF cfg v]
    by (auto simp: i_def am_sn_in_recv_window_def)
  define data where "data = drop (nat (int (length buf) - (int (length buf) - int (dec_byte d)))) buf"
  define pdu where "pdu = nr_rlc_new_pdu sn so f la data"
  have pdu: "pdu_sn pdu = am_at e i" "0 \<le> pdu_so pdu" "pdu_data pdu = Some data"
    "pdu_size pdu = int (length data)"
    using so i by (simp_all add: pdu_def nr_rlc_new_pdu_def)
  obtain e' where e': "am_reception_actions (e\<lparr>am_rx_size := am_rx_size e + (int (length buf) - int (dec_byte d)),
      am_rx := nr_rlc_rx_manager_add_pdu (am_rx e) pdu\<rparr>) sn = Inr e'" "am_rx_inv e'" "am_tx_view e' = am_tx_view e"
    using am_reception_actions_ok [OF inv i(1,2) pdu other] i(3) by auto
  have "am_recv_segment e buf p f la sn so d = Inr (if p then e'\<lparr>am_status_triggered := True\<rparr> else e')"
    using False e'(1) pdu(1) i(3) unfolding am_recv_segment_def Let_def data_def [symmetric] pdu_def [symmetric]
    by simp
  with e'(2,3) show ?thesis by simp
qed

lemma am_recv_data_pdu_ok:
  assumes inv: "am_rx_inv e" and d: "dec_wf d"
    and other: "0 < j" "j < am_window_size e" "\<not> am_sdu_delivered e (am_at e j)"
  shows "\<exists>e'. am_recv_data_pdu e buf d = Inr e' \<and> am_rx_inv e' \<and> am_tx_view e' = am_tx_view e"
proof -
  define good where "good r \<longleftrightarrow> (\<exists>e'. r = Inr e' \<and> am_rx_inv e' \<and> am_tx_view e' = am_tx_view e)"
    for r :: "nr_rlc_entity_am res"
  have cfg: "am_cfg e" using inv by (simp add: am_rx_inv_def am_rx_core_def am_rx_cfg_def)
  have len: "nat (am_sn_field_length e) \<le> 31" and m: "am_sn_modulus e = 2 ^ nat (am_sn_field_length e)"
    using cfg unfolding am_cfg_def by auto
  have disc: "good (Inr (am_discard_pdu e p n))" for p n using inv by (simp add: good_def)
  have seg: "good (am_recv_segment e buf p f la sn so d)"
    if "0 \<le> sn" "sn < 2 ^ nat (am_sn_field_length e)" "0 \<le> so" for p f la sn so d
    using am_recv_segment_ok [OF inv _ that(3) other] that(1,2) m by (simp add: good_def sn_valid_def)
  note rule = read_field_rule [where P = good]
  have "good (am_recv_data_pdu e buf d)"
    unfolding am_recv_data_pdu_def Let_def
    by (intro rule [OF d] rule conjI impI if_split [where P = good, THEN iffD2] disc seg len
        | assumption | simp)+
  then show ?thesis by (simp add: good_def)
qed

lemma am_new_fields:
  assumes "new_nr_rlc_entity_am rxs txs tp tr ts pp pb mr n = Inr e"
  shows "am_cfg e" and "am_rx e = nr_rlc_new_rx_manager (am_window_size e)"
    and "am_rx_next e = 0" "am_rx_next_highest e = 0" "am_rx_highest_status e = 0"
    "am_rx_next_status_trigger e = 0" "am_t_reassembly_start e = 0"
  using assms
  by (auto simp: new_nr_rlc_entity_am_def am_cfg_def push_bit_eq_mult split: if_splits)

text \<open>The state of a new entity, and of one that has been re-established.\<close>

lemma am_rx_inv_empty:
  assumes f: "am_cfg e" "am_rx e = nr_rlc_new_rx_manager (am_window_size e)"
    "am_rx_next e = 0" "am_rx_next_highest e = 0" "am_rx_highest_status e = 0"
    "am_rx_next_status_trigger e = 0" "am_t_reassembly_start e = 0"
  shows "am_rx_inv e" and "sn_valid (am_sn_modulus e) a \<Longrightarrow> \<not> am_sdu_delivered e a"
proof -
  have pos: "0 < am_window_size e" "am_sn_modulus e = 2 * am_window_size e" "0 < am_sn_modulus e"
    using am_cfg_pos [OF f(1)] by auto
  have get: "am_get e a = []" if "sn_valid (am_sn_modulus e) a" for a
    using new_rx_manager_ok(4) [OF pos(1), of a] that f(2) pos(2) by simp
  then show "sn_valid (am_sn_modulus e) a \<Longrightarrow> \<not> am_sdu_delivered e a"
    by (simp add: am_sdu_delivered_def)
  have v0: "sn_valid (am_sn_modulus e) 0" using pos by (simp add: sn_valid_def)
  have cfg: "am_rx_cfg e" using f v0 by (simp add: am_rx_cfg_def)
  have key: "am_modulus_rx e 0 = 0" by (simp add: am_modulus_rx_def f)
  have slots: "slot_ok sn (am_get e (am_at e i))" "am_get e (am_at e i) = []" for sn i
    using get [OF am_at_valid [OF cfg, of i]] by (simp_all add: slot_ok_def)
  have "am_rx_core e"
    unfolding am_rx_core_def f key using cfg v0 pos slots new_rx_manager_ok(1-3) [OF pos(1)]
    by (simp add: f(2))
  then show "am_rx_inv e"
    using get [OF v0] by (simp add: am_rx_inv_def f am_sdu_delivered_def)
qed

lemma am_rx_inv_new:
  assumes "new_nr_rlc_entity_am rxs txs tp tr ts pp pb mr n = Inr e"
  shows "am_rx_inv e" and "sn_valid (am_sn_modulus e) a \<Longrightarrow> \<not> am_sdu_delivered e a"
  using am_rx_inv_empty [OF am_new_fields [OF assms]] by blast+

section \<open>The reassembly timer\<close>

lemma am_check_t_reassembly_ok:
  assumes inv: "am_rx_inv e"
  shows "\<exists>e'. am_check_t_reassembly e = Inr e' \<and> am_rx_inv e' \<and> am_tx_view e' = am_tx_view e"
proof (cases "am_t_reassembly_start e = 0 \<or>
    am_t_current e \<le> am_t_reassembly_start e + word_of_int (am_t_reassembly e)")
  case False
  have core: "am_rx_core e" and nd: "\<not> am_sdu_delivered e (am_rx_next e)"
    and trig: "am_modulus_rx e (am_rx_next_status_trigger e) \<le> am_window_size e"
    using inv False by (auto simp: am_rx_inv_def)
  have cfg: "am_rx_cfg e" using core by (rule am_rx_core_cfg)
  have v: "sn_valid (am_sn_modulus e) (am_rx_next_status_trigger e)" using core by (simp add: am_rx_core_def)
  have "\<not> am_sdu_delivered e (am_at e (am_window_size e))"
    using am_get_alias [OF core, of 0] am_at_0 [OF cfg] nd by (simp add: am_sdu_delivered_slot)
  then obtain k where k: "0 \<le> k" "k \<le> am_window_size e" "\<not> am_sdu_delivered e (am_at e k)"
    "skip_delivered (am_sdu_delivered e) (am_sn_modulus e) (am_rx_next_status_trigger e) = Inr (am_at e k)"
    using am_skip_ok [OF core am_key_nonneg [OF cfg v] trig order.refl] am_at_key [OF cfg v]
      am_key_nonneg [OF cfg v] by (metis order.trans)
  define e1 where "e1 = e\<lparr>am_t_reassembly_start := 0, am_rx_highest_status := am_at e k,
     am_status_triggered := True\<rparr>"
  have "am_rx_core e1"
    using am_rx_core_highest [OF core k(1,2)]
    by (subst am_rx_inv_cong(1) [of e1 "e\<lparr>am_rx_highest_status := am_at e k\<rparr>"]) (simp_all add: e1_def)
  then have inv1: "am_rx_inv e1"
    using nd k(3) by (simp add: am_rx_inv_def e1_def am_sdu_delivered_def)
  have view: "am_tx_view (e1\<lparr>am_rx_next_status_trigger := x, am_t_reassembly_start := y\<rparr>) = am_tx_view e"
    "am_tx_view e1 = am_tx_view e" for x y
    by (simp_all add: e1_def am_tx_view_def)
  have "\<exists>c. am_check_t_reassembly e = Inr (if c then e1\<lparr>am_rx_next_status_trigger := am_rx_next_highest e1,
      am_t_reassembly_start := am_t_current e\<rparr> else e1)"
    using False k(4) by (auto simp: am_check_t_reassembly_def Let_def e1_def)
  with am_start_trigger_ok [OF inv1, of "am_t_current e"] inv1 view show ?thesis by auto
qed (use inv in \<open>auto simp: am_check_t_reassembly_def\<close>)

section \<open>The window that fills up\<close>

text \<open>
  When the last missing SDU of a full window is the first one, \<open>rx_highest_status\<close> runs over
  delivered SDUs only: the slot array has no undelivered slot any more.
\<close>

lemma am_full_window_endless:
  assumes core: "am_rx_core e" and full: "am_sdu_full e (am_rx_next e)"
    and h: "am_rx_highest_status e = am_rx_next e"
    and del: "\<And>i. 0 < i \<Longrightarrow> i < am_window_size e \<Longrightarrow> am_sdu_delivered e (am_at e i)"
  shows "am_reception_full e (am_rx_next e) = Inl Endless_loop"
proof -
  let ?w = "am_window_size e"
  have cfg: "am_rx_cfg e" using core by (rule am_rx_core_cfg)
  have pos: "0 < ?w" "am_sn_modulus e = 2 * ?w" and rv: "sn_valid (am_sn_modulus e) (am_rx_next e)"
    using am_rx_cfg_pos [OF cfg] by auto
  have at0: "am_at e 0 = am_rx_next e" by (rule am_at_0 [OF cfg])
  obtain c n l where re: "am_reassemble_and_deliver e (am_rx_next e) =
       Inr (e\<lparr>am_rx := rx_manager_set (am_rx e) (am_rx_next e) l, am_rx_size := n, am_common := c\<rparr>)"
     and l: "l \<noteq> []" "pdu_data (hd l) = None" "slot_ok (am_at e 0) l"
     and nh: "0 < am_modulus_rx e (am_rx_next_highest e)"
    using am_reassemble_ok [OF core order.refl pos(1)] full at0 by auto
  define e1 where "e1 = e\<lparr>am_rx := rx_manager_set (am_rx e) (am_rx_next e) l, am_rx_size := n, am_common := c\<rparr>"
  have core1: "am_rx_core e1"
    using am_rx_core_set [OF core order.refl pos(1) l(3)] nh at0
    by (subst am_rx_inv_cong(1) [of _ "e\<lparr>am_rx := rx_manager_set (am_rx e) (am_at e 0) l\<rparr>"])
      (simp_all add: e1_def)
  have at1: "am_at e1 = am_at e" by (simp add: e1_def am_at_def fun_eq_iff)
  have in_w: "am_sdu_delivered e1 (am_at e i)" if "0 \<le> i" "i < ?w" for i
    using am_delivered_set [OF core order.refl pos(1) that, of e1 l] at0 l(1,2) del [of i] that
    by (auto simp: e1_def)
  have all: "am_sdu_delivered e1 y" if y: "0 \<le> y" "y < am_sn_modulus e" for y
  proof -
    define k where "k = am_modulus_rx e y"
    have v: "sn_valid (am_sn_modulus e) y" using y by (simp add: sn_valid_def)
    have k: "y = am_at e k" "0 \<le> k" "k < 2 * ?w"
      using am_at_key [OF cfg v] am_key_nonneg [OF cfg v] am_key_less [OF cfg v] pos(2)
      by (auto simp: k_def)
    show ?thesis
    proof (cases "k < ?w")
      case False
      then show ?thesis
        using in_w [of "k - ?w"] am_get_alias [OF core1, of "k - ?w"] at1 k
        by (simp add: am_sdu_delivered_slot e1_def)
    qed (use k in_w in simp)
  qed
  have "skip_delivered (am_sdu_delivered e1) (am_sn_modulus e) (am_rx_next e) = Inl Endless_loop"
    using skip_delivered_endless [of "am_sn_modulus e" "am_sdu_delivered e1" "am_rx_next e"] all rv
    by (simp add: sn_valid_def)
  with re h show ?thesis
    by (simp add: am_reception_full_def e1_def [symmetric]) (simp add: e1_def)
qed

section \<open>Properties\<close>

lemma read_dc_bit:
  "\<exists>d. read_field (nr_rlc_pdu_decoder_init (b # bs)) 1 err k = k (of_bool (bit b 7)) d \<and> dec_wf d \<and>
     dec_rest d = drop 1 (bits_of (b # bs)) \<and> dec_pos d = 1 \<and> dec_buffer d = b # bs"
  using read_field_ok [OF dec_wf_init, of 1 "b # bs" err k]
  by (simp add: byte_bits_def upt_rec bits_val_def)

text \<open>
  C8: reception of data PDUs by the acknowledged mode entity. Whatever bytes arrive as a data PDU,
  \<open>recv_pdu\<close> returns without a fault, keeps the receiver invariant (ordered slots of the window,
  state variables inside of the window, timers consistent) and does not touch the transmitter,
  provided that besides the first one some other SDU of the window has not been delivered.
\<close>

theorem am_recv_data_pdu_safe:
  assumes "am_rx_inv e" and "bit b 7"
    and "0 < j" and "j < am_window_size e" and "\<not> am_sdu_delivered e (am_at e j)"
  shows "\<exists>e'. nr_rlc_entity_am_recv_pdu e (b # bs) = Inr e' \<and> am_rx_inv e' \<and>
     am_tx_view e' = am_tx_view e"
proof -
  let ?n = "int (length (b # bs))"
  define e1 where "e1 = e\<lparr>am_common := upd_stats (stat_rxpdu ?n) (am_common e)\<rparr>"
  have f: "am_window_size e1 = am_window_size e" "am_at e1 = am_at e" "am_sdu_delivered e1 = am_sdu_delivered e"
    by (simp_all add: e1_def am_at_def am_sdu_delivered_def fun_eq_iff)
  obtain d where d: "nr_rlc_entity_am_recv_pdu e (b # bs) = am_recv_data_pdu e1 (b # bs) d" "dec_wf d"
    using read_dc_bit [of b bs "Inr (am_discard_pdu e1 False ?n)"
        "\<lambda>dc d. if dc = 0 then process_control_pdu e1 (b # bs) else am_recv_data_pdu e1 (b # bs) d"] assms(2)
    unfolding nr_rlc_entity_am_recv_pdu_def Let_def e1_def [symmetric] by auto
  have "am_rx_inv e1" "am_tx_view e1 = am_tx_view e" using assms(1) by (simp_all add: e1_def)
  with am_recv_data_pdu_ok [OF _ d(2), of e1 j "b # bs"] assms(3-5) d(1) f show ?thesis by simp
qed

lemma new_am_Inr: "\<exists>e. new_nr_rlc_entity_am rxs txs tp tr ts pp pb mr 12 = Inr e \<and> am_window_size e = 2048"
proof -
  obtain c where "new_common NR_RLC_AM = Inr c" using new_common_Inr by blast
  then show ?thesis by (simp add: new_nr_rlc_entity_am_def push_bit_eq_mult)
qed

theorem am_recv_data_pdu_safe_witness:
  "\<exists>e e'. new_nr_rlc_entity_am 10000 10000 45 35 0 16 500 4 12 = Inr e \<and>
     nr_rlc_entity_am_recv_pdu e [0xff, 0xff, 0xff, 0xff, 0xff] = Inr e' \<and> am_rx_inv e'"
proof -
  obtain e where e: "new_nr_rlc_entity_am 10000 10000 45 35 0 16 500 4 12 = Inr e" "am_window_size e = 2048"
    using new_am_Inr by blast
  have "sn_valid (am_sn_modulus e) (am_at e 1)"
    using am_rx_inv_new(1) [OF e(1)] by (intro am_at_valid) (simp add: am_rx_inv_def am_rx_core_def)
  from am_rx_inv_new(2) [OF e(1) this] have "\<not> am_sdu_delivered e (am_at e 1)" .
  moreover have "bit (0xff :: byte) 7" by simp
  ultimately obtain e' where "nr_rlc_entity_am_recv_pdu e [0xff, 0xff, 0xff, 0xff, 0xff] = Inr e'" "am_rx_inv e'"
    using am_recv_data_pdu_safe [OF am_rx_inv_new(1) [OF e(1)], of "0xff" 1 "[0xff, 0xff, 0xff, 0xff]"] e(2)
    by auto
  with e(1) show ?thesis by blast
qed

text \<open>
  the case that the previous property leaves out. When all SDUs of the window but the first
  have been delivered, \<open>rx_highest_status\<close> still is at the first one, and that one becomes
  complete, the loop of \<open>reception_actions\<close> that moves \<open>rx_highest_status\<close> over the delivered SDUs
  never ends: it runs before the window is moved, and every sequence number, inside of the window or
  not, maps to a delivered slot.
\<close>

lemma am_reception_endless:
  assumes "am_rx_core e" and "am_sdu_full e (am_rx_next e)" and "am_rx_highest_status e = am_rx_next e"
    and "\<forall>i. 0 < i \<and> i < am_window_size e \<longrightarrow> am_sdu_delivered e (am_at e i)"
  shows "am_reception_actions e (am_rx_next e) = Inl Endless_loop"
proof -
  have cfg: "am_rx_cfg e" using assms(1) by (rule am_rx_core_cfg)
  have "am_get e (am_at e 0) \<noteq> []" using assms(2) am_at_0 [OF cfg] by (auto simp: am_sdu_full_def)
  then have "0 < am_modulus_rx e (am_rx_next_highest e)"
    using am_rx_slot(2) [OF assms(1), of 0] am_rx_cfg_pos [OF cfg] by simp
  then have "am_sn_compare_rx e (am_rx_next e) (am_rx_next_highest e) < 0"
    by (simp add: am_sn_compare_rx_def am_key_next [OF cfg])
  with assms am_full_window_endless [OF assms(1-3)] show ?thesis
    by (simp add: am_reception_actions_def)
qed

text \<open>A window with the first SDU complete and all others delivered.\<close>

definition example_full_window :: "nr_rlc_entity_am \<Rightarrow> nr_rlc_entity_am" where
  "example_full_window e =
     e\<lparr>am_rx := (am_rx e)\<lparr>rm_rx_list := map (\<lambda>i. [(nr_rlc_new_pdu (int i) 0 True True [1])
          \<lparr>pdu_data := if i = 0 then Some [1] else None\<rparr>]) [0 ..< nat (am_window_size e)]\<rparr>,
       am_rx_next_highest := am_window_size e\<rparr>"

lemma example_full_window_get:
  assumes "new_nr_rlc_entity_am rxs txs tp tr ts pp pb mr n = Inr e" and "0 \<le> i" "i < am_window_size e"
  shows "am_at (example_full_window e) i = i"
    and "am_get (example_full_window e) i = [(nr_rlc_new_pdu i 0 True True [1])
       \<lparr>pdu_data := if i = 0 then Some [1] else None\<rparr>]"
proof -
  note f = am_new_fields [OF assms(1)]
  have pos: "0 < am_window_size e" "am_sn_modulus e = 2 * am_window_size e" using am_cfg_pos [OF f(1)] by auto
  show "am_at (example_full_window e) i = i"
    using assms pos by (simp add: am_at_def example_full_window_def f)
  have "get_pos (am_rx (example_full_window e)) i = i"
    using assms(2,3) pos
    by (simp add: get_pos_def example_full_window_def f nr_rlc_new_rx_manager_def)
  then show "am_get (example_full_window e) i = [(nr_rlc_new_pdu i 0 True True [1])
       \<lparr>pdu_data := if i = 0 then Some [1] else None\<rparr>]"
    using assms(2,3) by (simp add: nr_rlc_rx_manager_get_pdu_from_sn_def)
      (simp add: example_full_window_def nat_less_iff)
qed

lemma am_reception_endless_example:
  "\<exists>e. new_nr_rlc_entity_am 10000 10000 45 35 0 16 500 4 12 = Inr e \<and>
     am_reception_actions (example_full_window e) 0 = Inl Endless_loop"
proof -
  obtain e where e: "new_nr_rlc_entity_am 10000 10000 45 35 0 16 500 4 12 = Inr e" "am_window_size e = 2048"
    using new_am_Inr by blast
  note f = am_new_fields [OF e(1)]
  note g = example_full_window_get [OF e(1)]
  let ?e = "example_full_window e"
  have M: "am_sn_modulus e = 4096" using am_cfg_pos [OF f(1)] e(2) by simp
  have w: "am_window_size ?e = 2048" "am_sn_modulus ?e = 4096" "am_rx_next ?e = 0"
    "am_rx_next_highest ?e = 2048" "am_rx_highest_status ?e = 0" "am_rx_next_status_trigger ?e = 0"
    using e(2) M by (simp_all add: example_full_window_def f)
  have key: "am_modulus_rx ?e a = a" if "0 \<le> a" for a using that by (simp add: am_modulus_rx_def w)
  have cfg: "am_rx_cfg ?e"
    using f(1) w by (simp add: am_rx_cfg_def am_cfg_def sn_valid_def) (simp add: example_full_window_def)
  have rm: "rx_manager_ok (am_rx ?e)" "rm_size (am_rx ?e) = 2048" "rm_sn_start (am_rx ?e) = 0"
    using e(2) by (simp_all add: example_full_window_def f rx_manager_ok_def nr_rlc_new_rx_manager_def sn_valid_def)
  have "am_rx_core ?e"
    unfolding am_rx_core_def w using cfg rm key g e(2)
    by (simp add: sn_valid_def slot_ok_def nr_rlc_new_pdu_def)
  moreover have "am_sdu_full ?e 0"
    using g [of 0] e(2) by (simp add: am_sdu_full_def nr_rlc_new_pdu_def)
  moreover have "am_sdu_delivered ?e (am_at ?e i)" if "0 < i" "i < 2048" for i
    using g [of i] e(2) that by (simp add: am_sdu_delivered_def)
  ultimately show ?thesis
    using am_reception_endless [of ?e] w e(1) by auto
qed

end
