(* ===== verification/Nr_Rlc_Am_Arq.thy ===== *)
theory Nr_Rlc_Am_Arq
  imports Nr_Rlc_Am_Rx
begin

text \<open>
  The transmitter of the acknowledged mode entity. The invariant \<open>am_tx_inv\<close> covers the reference
  counts of the SDUs shared by the three lists, the list ends, the order of the wait and of the
  retransmit list, the window of sequence numbers in flight, that no byte is in two segments, and
  the buffer status.
\<close>

section \<open>Invariant\<close>

definition seg_sn :: "rlc_heap \<Rightarrow> nr_rlc_sdu_segment \<Rightarrow> int" where
  "seg_sn h seg = (case h_sdus h (seg_sdu seg) of None \<Rightarrow> - 1 | Some s \<Rightarrow> sdu_sn s)"

definition am_seg_cost :: "nr_rlc_entity_am \<Rightarrow> nr_rlc_sdu_segment \<Rightarrow> int" where
  "am_seg_cost e seg = am_compute_pdu_header_size e seg + seg_size seg"

text \<open>The number of sequence numbers in flight.\<close>

definition am_flight :: "nr_rlc_entity_am \<Rightarrow> int" where
  "am_flight e = am_modulus_tx e (am_tx_next e)"

definition seg_sent :: "nr_rlc_entity_am \<Rightarrow> nr_rlc_sdu_segment \<Rightarrow> bool" where
  "seg_sent e seg \<longleftrightarrow> sn_valid (am_sn_modulus e) (seg_sn (am_heap e) seg) \<and>
     am_modulus_tx e (seg_sn (am_heap e) seg) < am_flight e"

definition seg_fresh :: "rlc_heap \<Rightarrow> nr_rlc_sdu_segment \<Rightarrow> bool" where
  "seg_fresh h seg \<longleftrightarrow> seg_sn h seg = - 1 \<and> seg_is_first seg \<and> seg_is_last seg"

text \<open>The head of the transmit list may be the rest of an SDU that was partly sent.\<close>

definition tx_shape :: "nr_rlc_entity_am \<Rightarrow> segs \<Rightarrow> bool" where
  "tx_shape e l \<longleftrightarrow> distinct (map seg_sdu l) \<and> (\<forall>x \<in> set (tl l). seg_fresh (am_heap e) x) \<and>
     (l \<noteq> [] \<longrightarrow> seg_fresh (am_heap e) (hd l) \<or>
        (seg_sent e (hd l) \<and> \<not> seg_is_first (hd l) \<and>
           am_modulus_tx e (seg_sn (am_heap e) (hd l)) = am_flight e - 1))"

definition seg_disj :: "rlc_heap \<Rightarrow> nr_rlc_sdu_segment \<Rightarrow> nr_rlc_sdu_segment \<Rightarrow> bool" where
  "seg_disj h s t \<longleftrightarrow> seg_sn h s = seg_sn h t \<and> seg_sn h s \<noteq> - 1 \<longrightarrow>
     0 < seg_size s \<and> 0 < seg_size t \<and>
     (seg_so s + seg_size s \<le> seg_so t \<or> seg_so t + seg_size t \<le> seg_so s)"

definition all_disj :: "rlc_heap \<Rightarrow> segs \<Rightarrow> bool" where
  "all_disj h l \<longleftrightarrow> (\<forall>s \<in> set l. \<forall>t \<in> set l. seg_addr s \<noteq> seg_addr t \<longrightarrow> seg_disj h s t)"

abbreviation am_sorted :: "nr_rlc_entity_am \<Rightarrow> segs \<Rightarrow> bool" where
  "am_sorted e \<equiv> sorted_wrt (sn_le (am_modulus_tx e) (seg_sn (am_heap e)) seg_so)"

text \<open>\<open>fl\<close> is the segment that an operation has taken from a list and not yet put into another.\<close>

definition am_tx_ok :: "(nat \<Rightarrow> nat) \<Rightarrow> nr_rlc_entity_am \<Rightarrow> segs \<Rightarrow> bool" where
  "am_tx_ok lk e fl \<longleftrightarrow>
     am_tx_cfg e \<and> sn_valid (am_sn_modulus e) (am_tx_next e) \<and> am_flight e \<le> am_window_size e \<and>
     heap_leak lk (am_heap e) (fl @ am_tx_list e @ am_wait_list e @ am_retransmit_list e) \<and>
     end_ok (am_tx_list e) (am_tx_end e) \<and> end_ok (am_wait_list e) (am_wait_end e) \<and>
     (\<forall>a s. h_sdus (am_heap e) a = Some s \<longrightarrow> sdu_size s \<le> NR_SDU_MAX) \<and>
     (\<forall>x \<in> set (fl @ am_wait_list e @ am_retransmit_list e). seg_sent e x) \<and>
     tx_shape e (am_tx_list e) \<and>
     am_sorted e (am_wait_list e) \<and> am_sorted e (am_retransmit_list e) \<and>
     all_disj (am_heap e) (fl @ am_tx_list e @ am_wait_list e @ am_retransmit_list e) \<and>
     bs_tx_size (c_bstatus (am_common e)) = sum_list (map (am_seg_cost e) (am_tx_list e)) \<and>
     bs_retx_size (c_bstatus (am_common e)) = sum_list (map (am_seg_cost e) (am_retransmit_list e))"

definition am_tx_inv :: "(nat \<Rightarrow> nat) \<Rightarrow> nr_rlc_entity_am \<Rightarrow> bool" where
  "am_tx_inv lk e \<longleftrightarrow> am_tx_ok lk e []"

lemma am_header_cong:
  "am_sn_field_length e' = am_sn_field_length e \<Longrightarrow>
     am_compute_pdu_header_size e' = am_compute_pdu_header_size e \<and> am_seg_cost e' = am_seg_cost e"
  by (simp add: am_compute_pdu_header_size_def am_seg_cost_def fun_eq_iff)

lemma am_tx_key_cong:
  "am_tx_next_ack e' = am_tx_next_ack e \<Longrightarrow> am_sn_modulus e' = am_sn_modulus e \<Longrightarrow>
     am_modulus_tx e' = am_modulus_tx e"
  by (simp add: am_modulus_tx_def fun_eq_iff Let_def)

lemma am_tx_ok_cong:
  assumes "am_sn_field_length e' = am_sn_field_length e" "am_sn_modulus e' = am_sn_modulus e"
    "am_window_size e' = am_window_size e" "am_tx_next e' = am_tx_next e"
    "am_tx_next_ack e' = am_tx_next_ack e" "am_heap e' = am_heap e" "am_tx_list e' = am_tx_list e"
    "am_tx_end e' = am_tx_end e" "am_wait_list e' = am_wait_list e" "am_wait_end e' = am_wait_end e"
    "am_retransmit_list e' = am_retransmit_list e"
    "c_bstatus (am_common e') = c_bstatus (am_common e)"
  shows "am_tx_ok lk e' fl = am_tx_ok lk e fl"
proof -
  have k: "am_modulus_tx e' = am_modulus_tx e" "am_seg_cost e' = am_seg_cost e" "am_flight e' = am_flight e"
    using am_tx_key_cong [of e' e] am_header_cong [of e' e] assms by (simp_all add: am_flight_def)
  show ?thesis
    unfolding am_tx_ok_def am_tx_cfg_def am_cfg_def tx_shape_def seg_sent_def k assms ..
qed

lemma am_tx_inv_new:
  "new_nr_rlc_entity_am rxs txs tp tr ts pp pb mr n = Inr e \<Longrightarrow> am_tx_inv (\<lambda>_. 0) e"
  by (auto simp: new_nr_rlc_entity_am_def new_common_def am_tx_inv_def am_tx_ok_def am_tx_cfg_def
      am_cfg_def sn_valid_def push_bit_eq_mult tx_shape_def all_disj_def am_flight_def am_modulus_tx_def
      empty_heap_def heap_leak_def split: if_splits)

text \<open>Writes of an SDU that keep its sequence number.\<close>

lemma seg_sn_store:
  assumes "h_sdus h (seg_sdu seg) = Some s" and "sdu_sn s' = sdu_sn s"
  shows "seg_sn (store h seg s') = seg_sn h"
  using assms by (auto simp: seg_sn_def fun_eq_iff)

lemma seg_sn_Some: "h_sdus h (seg_sdu seg) = Some s \<Longrightarrow> seg_sn h seg = sdu_sn s"
  by (simp add: seg_sn_def)

lemma all_disj_subset: "all_disj h l \<Longrightarrow> set k \<subseteq> set l \<Longrightarrow> all_disj h k"
  unfolding all_disj_def by blast

lemma am_tx_okD:
  assumes "am_tx_ok lk e fl"
  shows "am_tx_cfg e" and "sn_valid (am_sn_modulus e) (am_tx_next e)" and "am_flight e \<le> am_window_size e"
    and "heap_leak lk (am_heap e) (fl @ am_tx_list e @ am_wait_list e @ am_retransmit_list e)"
    and "end_ok (am_tx_list e) (am_tx_end e)" and "end_ok (am_wait_list e) (am_wait_end e)"
    and "\<forall>a s. h_sdus (am_heap e) a = Some s \<longrightarrow> sdu_size s \<le> NR_SDU_MAX"
    and "\<forall>x \<in> set (fl @ am_wait_list e @ am_retransmit_list e). seg_sent e x"
    and "tx_shape e (am_tx_list e)"
    and "am_sorted e (am_wait_list e)" and "am_sorted e (am_retransmit_list e)"
    and "all_disj (am_heap e) (fl @ am_tx_list e @ am_wait_list e @ am_retransmit_list e)"
    and "bs_tx_size (c_bstatus (am_common e)) = sum_list (map (am_seg_cost e) (am_tx_list e))"
    and "bs_retx_size (c_bstatus (am_common e)) = sum_list (map (am_seg_cost e) (am_retransmit_list e))"
  using assms unfolding am_tx_ok_def by blast+

lemma am_tx_ok_perm:
  assumes "am_tx_ok lk e fl" and "am_sn_field_length e' = am_sn_field_length e"
    "am_sn_modulus e' = am_sn_modulus e" "am_window_size e' = am_window_size e"
    "am_tx_next e' = am_tx_next e" "am_tx_next_ack e' = am_tx_next_ack e" "am_heap e' = am_heap e"
    and "mset (fl' @ am_tx_list e' @ am_wait_list e' @ am_retransmit_list e') =
      mset (fl @ am_tx_list e @ am_wait_list e @ am_retransmit_list e)"
  shows "am_tx_cfg e'" "sn_valid (am_sn_modulus e') (am_tx_next e')" "am_flight e' \<le> am_window_size e'"
    and "heap_leak lk (am_heap e') (fl' @ am_tx_list e' @ am_wait_list e' @ am_retransmit_list e')"
    and "\<forall>a s. h_sdus (am_heap e') a = Some s \<longrightarrow> sdu_size s \<le> NR_SDU_MAX"
    and "all_disj (am_heap e') (fl' @ am_tx_list e' @ am_wait_list e' @ am_retransmit_list e')"
    and "am_modulus_tx e' = am_modulus_tx e" "am_seg_cost e' = am_seg_cost e" "seg_sent e' = seg_sent e"
    "am_flight e' = am_flight e"
proof -
  show k: "am_modulus_tx e' = am_modulus_tx e" "am_seg_cost e' = am_seg_cost e" "am_flight e' = am_flight e"
    using am_tx_key_cong [of e' e] am_header_cong [of e' e] assms(2-7) by (simp_all add: am_flight_def)
  show "seg_sent e' = seg_sent e" unfolding seg_sent_def [abs_def] k assms(3,7) ..
  show "am_tx_cfg e'" "sn_valid (am_sn_modulus e') (am_tx_next e')" "am_flight e' \<le> am_window_size e'"
    "\<forall>a s. h_sdus (am_heap e') a = Some s \<longrightarrow> sdu_size s \<le> NR_SDU_MAX"
    using assms(1) unfolding am_tx_ok_def am_tx_cfg_def am_cfg_def k assms(2-7) by blast+
  show "heap_leak lk (am_heap e') (fl' @ am_tx_list e' @ am_wait_list e' @ am_retransmit_list e')"
    using assms(1) heap_ok_perm [OF _ assms(8) [symmetric]] unfolding am_tx_ok_def assms(7) by blast
  show "all_disj (am_heap e') (fl' @ am_tx_list e' @ am_wait_list e' @ am_retransmit_list e')"
    using assms(1) all_disj_subset [of "am_heap e"] mset_eq_setD [OF assms(8)]
    unfolding am_tx_ok_def assms(7) by blast
qed

section \<open>The wait list\<close>

lemma heap_live: "heap_leak lk h l \<Longrightarrow> x \<in> set l \<Longrightarrow> \<exists>d. h_sdus h (seg_sdu x) = Some d"
  by (erule heap_ok_deref) auto

lemma last_insert_before: "l \<noteq> [] \<Longrightarrow> P (last l) \<Longrightarrow> last (insert_before P x l) = last l"
  by (induction l) (auto simp: last_append_if split: if_splits)

lemma sorted_wrt_snoc:
  assumes "sorted_wrt R l" and "transp_on UNIV R" and "l \<noteq> [] \<longrightarrow> R (last l) x"
  shows "sorted_wrt R (l @ [x])"
proof (cases l rule: rev_cases)
  case (snoc k y)
  then have "R z x" if "z \<in> set k" for z
    using assms that transp_onD [OF assms(2), of z y x] by (auto simp: sorted_wrt_append)
  with snoc assms show ?thesis by (auto simp: sorted_wrt_append)
qed simp

lemma tx_segment_list_add_conv:
  assumes "\<forall>x \<in> set (s # l). \<exists>d. h_sdus (am_heap e) (seg_sdu x) = Some d"
  shows "nr_rlc_tx_sdu_segment_list_add e l s = Inr (insert_before
     (\<lambda>c. am_sn_compare_tx e (seg_sn (am_heap e) c) (seg_sn (am_heap e) s) > 0 \<or>
       (seg_sn (am_heap e) c = seg_sn (am_heap e) s \<and> seg_so c > seg_so s)) s l)"
  using assms
proof (induction l)
  case (Cons x l)
  then obtain d ds where "h_sdus (am_heap e) (seg_sdu x) = Some d" "h_sdus (am_heap e) (seg_sdu s) = Some ds"
    by auto
  with Cons show ?case by (simp add: deref_def seg_sn_Some)
qed simp

lemma filter_addr_last:
  "distinct (map seg_addr l) \<Longrightarrow> l \<noteq> [] \<Longrightarrow> filter (\<lambda>x. seg_addr x = seg_addr (last l)) l = [last l]"
proof (induction l)
  case (Cons x l)
  show ?case
  proof (cases "l = []")
    case False
    then have "seg_addr x \<noteq> seg_addr (last l)" using Cons.prems(1) last_in_set by fastforce
    with False Cons show ?thesis by auto
  qed simp
qed simp

lemma put_in_wait_list_ok:
  assumes ok: "am_tx_ok lk e [seg]"
  shows "\<exists>w a. put_in_wait_list e seg = Inr (e\<lparr>am_wait_list := w, am_wait_end := a\<rparr>) \<and>
     mset w = mset (seg # am_wait_list e) \<and> am_tx_ok lk (e\<lparr>am_wait_list := w, am_wait_end := a\<rparr>) []"
proof -
  let ?w = "am_wait_list e" and ?h = "am_heap e" and ?key = "am_modulus_tx e" and ?sn = "seg_sn (am_heap e)"
  have heap: "heap_leak lk ?h ([seg] @ am_tx_list e @ ?w @ am_retransmit_list e)"
    and we: "end_ok ?w (am_wait_end e)" and cfg: "am_tx_cfg e" and sort: "am_sorted e ?w"
    and sent: "\<forall>x \<in> set (seg # ?w). seg_sent e x"
    and disj: "all_disj ?h ([seg] @ am_tx_list e @ ?w @ am_retransmit_list e)"
    using am_tx_okD [OF ok] by simp_all
  have dist: "distinct (map seg_addr (seg # ?w))" using heap by (auto simp: heap_leak_def)
  have live: "\<exists>d. h_sdus ?h (seg_sdu x) = Some d" if "x \<in> set (seg # ?w)" for x
    using heap_live [OF heap] that by auto
  have valid: "sn_valid (am_sn_modulus e) (?sn x)" if "x \<in> set (seg # ?w)" for x
    using sent that by (auto simp: seg_sent_def)
  define after where "after \<longleftrightarrow> ?w = [] \<or> am_sn_compare_tx e (?sn seg) (?sn (last ?w)) > 0 \<or>
    (am_sn_compare_tx e (?sn seg) (?sn (last ?w)) = 0 \<and> seg_so seg > seg_so (last ?w))"
  have aft: "after_wait_end e seg = Inr after"
  proof (cases "?w = []")
    case False
    then have "am_wait_end e = Some (seg_addr (last ?w))" using we by (simp add: end_ok_def)
    moreover have "wait_end_segment e (seg_addr (last ?w)) = Inr (last ?w)"
      using filter_addr_last [of ?w] dist False by (simp add: wait_end_segment_def)
    moreover obtain d ds where "h_sdus ?h (seg_sdu (last ?w)) = Some d" "h_sdus ?h (seg_sdu seg) = Some ds"
      using live [of "last ?w"] live [of seg] False by auto
    ultimately show ?thesis using False by (simp add: after_wait_end_def after_def deref_def seg_sn_Some)
  qed (use we in \<open>simp add: after_wait_end_def after_def\<close>)
  have finish: "am_tx_ok lk (e\<lparr>am_wait_list := w, am_wait_end := a\<rparr>) []"
    if "mset w = mset (seg # ?w)" "end_ok w a" "am_sorted e w" for w a
  proof -
    let ?e = "e\<lparr>am_wait_list := w, am_wait_end := a\<rparr>"
    have "mset ([] @ am_tx_list ?e @ am_wait_list ?e @ am_retransmit_list ?e) =
        mset ([seg] @ am_tx_list e @ ?w @ am_retransmit_list e)"
      using that(1) by simp
    note p = am_tx_ok_perm [OF ok _ _ _ _ _ _ this]
    have k: "am_modulus_tx ?e = ?key" "am_seg_cost ?e = am_seg_cost e" "seg_sent ?e = seg_sent e"
      "am_flight ?e = am_flight e" using p(7-10) by simp_all
    have "set w = set (seg # ?w)" using that(1) by (rule mset_eq_setD)
    then have sent': "\<forall>x \<in> set (w @ am_retransmit_list e). seg_sent e x"
      using am_tx_okD(8) [OF ok] by auto
    have shape: "tx_shape ?e (am_tx_list e)"
      using am_tx_okD(9) [OF ok] unfolding tx_shape_def k by simp
    show ?thesis
      unfolding am_tx_ok_def using p(1-6) that(2,3) sent' shape am_tx_okD(5,11,13,14) [OF ok]
      by (intro conjI) (simp_all add: k)
  qed
  show ?thesis
  proof (cases after)
    case True
    have "sn_le ?key ?sn seg_so (last ?w) seg" if "?w \<noteq> []"
      using True that am_tx_order.key_inj [OF cfg, of "?sn (last ?w)" "?sn seg"] valid
      by (auto simp: after_def sn_le_def am_tx_order.cmp_key [OF cfg])
    then have "am_sorted e (?w @ [seg])"
      using sorted_wrt_snoc [OF sort transp_sn_le] by blast
    with finish [of "?w @ [seg]" "Some (seg_addr seg)"] show ?thesis
      using list_append_ok [OF we, of seg] dist True aft by (auto simp: put_in_wait_list_def)
  next
    case False
    define P where "P c \<longleftrightarrow> am_sn_compare_tx e (?sn c) (?sn seg) > 0 \<or>
       (?sn c = ?sn seg \<and> seg_so c > seg_so seg)" for c
    have ne: "?w \<noteq> []" using False by (simp add: after_def)
    have add: "nr_rlc_tx_sdu_segment_list_add e ?w seg = Inr (insert_before P seg ?w)"
      using tx_segment_list_add_conv [of seg ?w e] live unfolding P_def by blast
    have "seg_addr seg \<noteq> seg_addr (last ?w)" using dist ne by auto
    then have "seg_disj ?h seg (last ?w)" using disj ne unfolding all_disj_def by auto
    then have "seg_so seg \<noteq> seg_so (last ?w)" if "?sn seg = ?sn (last ?w)"
      using that valid [of seg] by (auto simp: seg_disj_def sn_valid_def)
    then have "P (last ?w)"
      using False am_tx_order.key_inj [OF cfg, of "?sn (last ?w)" "?sn seg"] valid ne
      by (auto simp: after_def P_def am_tx_order.cmp_key [OF cfg])
    then have "end_ok (insert_before P seg ?w) (am_wait_end e)"
      using we ne last_insert_before [OF ne, of P seg] by (simp add: end_ok_def)
    moreover have "am_sorted e (insert_before P seg ?w)"
      using am_tx_order.insert_sorted [OF cfg sort, of seg] valid unfolding P_def by auto
    moreover have "mset (insert_before P seg l) = mset (seg # l)" for l by (induction l) auto
    ultimately have ok': "am_tx_ok lk (e\<lparr>am_wait_list := insert_before P seg ?w, am_wait_end := am_wait_end e\<rparr>) []"
      "mset (insert_before P seg ?w) = mset (seg # ?w)"
      using finish by blast+
    have "(case insert_before P seg ?w of [x] \<Rightarrow> Some (seg_addr x) | _ \<Rightarrow> am_wait_end e) = am_wait_end e"
      using ne by (cases ?w; cases "tl ?w") (auto split: list.splits)
    then have "put_in_wait_list e seg =
        Inr (e\<lparr>am_wait_list := insert_before P seg ?w, am_wait_end := am_wait_end e\<rparr>)"
      using aft False add by (simp add: put_in_wait_list_def)
    with ok' show ?thesis by blast
  qed
qed

section \<open>Data PDUs\<close>

definition am_hdr :: "int \<Rightarrow> bool \<Rightarrow> bool \<Rightarrow> bool \<Rightarrow> int \<Rightarrow> int \<Rightarrow> (int \<times> nat) list" where
  "am_hdr n p f la sn so =
     [(1, 1), (of_bool p, 1), (1 - of_bool f, 1), (1 - of_bool la, 1)] @
     (if n = 18 then [(0, 2)] else []) @ [(sn, nat n)] @ (if \<not> f then [(so, 16)] else [])"

text \<open>A data PDU on the air: its header has the bits of the fields, and the data follows.\<close>

definition is_am_pdu :: "int \<Rightarrow> bool \<Rightarrow> bool \<Rightarrow> bool \<Rightarrow> int \<Rightarrow> int \<Rightarrow> byte list \<Rightarrow> byte list \<Rightarrow> bool" where
  "is_am_pdu n p f la sn so data pdu \<longleftrightarrow>
     (\<exists>hdr. pdu = hdr @ data \<and> bits_of hdr = field_bits (am_hdr n p f la sn so))"

lemma am_header_fields_hdr:
  "am_header_fields e seg sn =
     am_hdr (am_sn_field_length e) False (seg_is_first seg) (seg_is_last seg) sn (seg_so seg)"
  by (simp add: am_header_fields_def am_hdr_def)

lemma am_hdr_width:
  "am_cfg e \<Longrightarrow> int (fields_width (am_header_fields e seg sn)) = 8 * am_compute_pdu_header_size e seg"
  by (auto simp: am_header_fields_hdr am_hdr_def am_compute_pdu_header_size_def am_cfg_def)

lemma am_hdr_ok:
  "am_cfg e \<Longrightarrow> sn_valid (am_sn_modulus e) sn \<Longrightarrow> 0 \<le> seg_so seg \<Longrightarrow> seg_so seg < 65536 \<Longrightarrow>
     fields_ok (am_header_fields e seg sn)"
  by (auto simp: am_header_fields_hdr am_hdr_def am_cfg_def sn_valid_def)

lemma am_header_size_bounds:
  "2 \<le> am_compute_pdu_header_size e seg" "am_compute_pdu_header_size e seg \<le> 5"
  by (auto simp: am_compute_pdu_header_size_def)

text \<open>\<open>include_poll\<close> sets the second bit of the PDU.\<close>

lemma byte_bits_poll: "byte_bits (b OR 0x40) = (byte_bits b)[1 := True]"
proof -
  have "bit (0x40 :: byte) i \<longleftrightarrow> i = 6" for i
    using bit_push_bit_iff [of 6 "1 :: byte" i] by (auto simp: push_bit_eq_mult bit_1_iff)
  then show ?thesis by (simp add: byte_bits_def upt_rec bit_or_iff)
qed

lemma is_am_pdu_poll:
  assumes "is_am_pdu n False f la sn so data (take k b)" and "0 < k" and "b \<noteq> []"
  shows "is_am_pdu n True f la sn so data (take k (b[0 := b ! 0 OR 0x40]))"
proof -
  obtain hdr where hdr: "take k b = hdr @ data" "bits_of hdr = field_bits (am_hdr n False f la sn so)"
    using assms(1) by (auto simp: is_am_pdu_def)
  have "fields_width (am_hdr n False f la sn so) > 0" by (simp add: am_hdr_def)
  then obtain x xs where x: "hdr = x # xs"
    using hdr(2) by (metis bits_of_simps(1) length_0_conv length_field_bits list.exhaust less_irrefl)
  obtain y ys k' where y: "b = y # ys" "k = Suc k'" using assms(2,3) by (cases b; cases k) auto
  have "y = x" "take k' ys = xs @ data" using hdr(1) x y by auto
  then have "take k (b[0 := b ! 0 OR 0x40]) = ((x OR 0x40) # xs) @ data" using y by simp
  moreover have "bits_of ((x OR 0x40) # xs) = (bits_of hdr)[1 := True]"
    using byte_bits_poll [of x] x by (simp add: list_update_append)
  moreover have "(field_bits (am_hdr n False f la sn so))[1 := True] = field_bits (am_hdr n True f la sn so)"
    by (simp add: am_hdr_def val_bits_def)
  ultimately show ?thesis using hdr(2) unfolding is_am_pdu_def by metis
qed

definition am_polled :: "nr_rlc_entity_am \<Rightarrow> nr_rlc_entity_am" where
  "am_polled e = e\<lparr>am_pdu_without_poll := 0, am_byte_without_poll := 0,
     am_poll_sn := crem (am_tx_next e - 1 + am_sn_modulus e) (am_sn_modulus e),
     am_t_poll_retransmit_start := am_t_current e\<rparr>"

lemma am_serialize_ok:
  assumes cfg: "am_cfg e" and d: "deref (am_heap e) seg = Inr s" and ok: "seg_ok (am_heap e) seg"
    and sn: "sn_valid (am_sn_modulus e) (sdu_sn s)" and so: "seg_so seg < 65536"
    and fits: "am_seg_cost e seg \<le> int (length buf)"
  shows "\<exists>b. am_serialize_sdu e seg buf p = Inr (am_seg_cost e seg, b, if p then am_polled e else e) \<and>
     length b = length buf \<and>
     is_am_pdu (am_sn_field_length e) p (seg_is_first seg) (seg_is_last seg) (sdu_sn s) (seg_so seg)
       (take (nat (seg_size seg)) (drop (nat (seg_so seg)) (sdu_data s))) (take (nat (am_seg_cost e seg)) b)"
proof -
  let ?H = "am_compute_pdu_header_size e seg" and ?f = "am_header_fields e seg (sdu_sn s)"
  have H: "2 \<le> ?H" by (rule am_header_size_bounds)
  have s: "h_sdus (am_heap e) (seg_sdu seg) = Some s"
    using d by (auto simp: deref_def split: option.splits)
  then have sg: "0 \<le> seg_so seg" "0 \<le> seg_size seg"
    "seg_so seg + seg_size seg \<le> int (length (sdu_data s))"
    using ok by (auto simp: seg_ok_def sdu_ok_def)
  have w: "fields_width ?f = 8 * nat ?H" using am_hdr_width [OF cfg, of seg "sdu_sn s"] H by simp
  have fo: "fields_ok ?f" by (rule am_hdr_ok [OF cfg sn sg(1) so])
  have "nat ?H \<le> length buf" using fits sg(2) by (simp add: am_seg_cost_def)
  then obtain enc where enc: "put_fields (nr_rlc_pdu_encoder_init buf) ?f = Inr enc"
    "enc_byte enc = nat ?H" "length (enc_buffer enc) = length buf"
    "bits_of (take (nat ?H) (enc_buffer enc)) = field_bits ?f"
    using put_fields_header [OF fo w] by blast
  obtain b where b: "mem_copy (enc_buffer enc) ?H (sdu_data s) (seg_so seg) (seg_size seg) = Inr b"
    "length b = length (enc_buffer enc)"
    "take (nat (?H + seg_size seg)) b = take (nat ?H) (enc_buffer enc) @
       take (nat (seg_size seg)) (drop (nat (seg_so seg)) (sdu_data s))"
    using mem_copy_ok [of "seg_size seg" ?H "seg_so seg" "enc_buffer enc" "sdu_data s"]
      sg H fits enc(3) by (auto simp: am_seg_cost_def)
  have pdu: "is_am_pdu (am_sn_field_length e) False (seg_is_first seg) (seg_is_last seg) (sdu_sn s)
       (seg_so seg) (take (nat (seg_size seg)) (drop (nat (seg_so seg)) (sdu_data s)))
       (take (nat (am_seg_cost e seg)) b)"
    unfolding is_am_pdu_def am_seg_cost_def using b(3) enc(4) am_header_fields_hdr [of e seg] by auto
  have ne: "b \<noteq> []" "0 < nat (am_seg_cost e seg)" using b(2) enc(3) fits sg(2) H by (auto simp: am_seg_cost_def)
  show ?thesis
  proof (cases p)
    case True
    then have "am_serialize_sdu e seg buf p = Inr (am_seg_cost e seg, b[0 := b ! 0 OR 0x40], am_polled e)"
      using H ne(1) by (simp add: am_serialize_sdu_def d enc b include_poll_def or_byte_def am_polled_def am_seg_cost_def)
    with True is_am_pdu_poll [OF pdu ne(2,1)] b(2) enc(3) show ?thesis by auto
  next
    case False
    then have "am_serialize_sdu e seg buf p = Inr (am_seg_cost e seg, b, e)"
      using H by (simp add: am_serialize_sdu_def d enc b am_seg_cost_def)
    with False pdu b(2) enc(3) show ?thesis by auto
  qed
qed

lemma am_floating:
  assumes "am_tx_ok lk e [seg]"
  obtains s where "h_sdus (am_heap e) (seg_sdu seg) = Some s" "deref (am_heap e) seg = Inr s"
    "seg_ok (am_heap e) seg" "seg_sn (am_heap e) seg = sdu_sn s" "sn_valid (am_sn_modulus e) (sdu_sn s)"
    "seg_so seg < 65536" "0 \<le> seg_size seg" "0 \<le> seg_so seg" "am_cfg e"
proof -
  note ok = am_tx_okD [OF assms]
  have sok: "seg_ok (am_heap e) seg" using ok(4) by (simp add: heap_leak_def)
  then obtain s where s: "h_sdus (am_heap e) (seg_sdu seg) = Some s" "0 \<le> seg_so seg" "0 \<le> seg_size seg"
    "seg_so seg + seg_size seg \<le> sdu_size s"
    by (auto simp: seg_ok_def)
  have "sdu_size s \<le> NR_SDU_MAX" using ok(7) s(1) by blast
  moreover have "seg_sent e seg" using ok(8) by simp
  moreover have "am_cfg e" using ok(1) by (simp add: am_tx_cfg_def)
  ultimately show thesis
    using that [of s] s sok by (simp add: deref_def seg_sn_Some seg_sent_def NR_SDU_MAX_def)
qed

text \<open>What the receiver of the entity works on.\<close>

definition am_rx_view ::
  "nr_rlc_entity_am \<Rightarrow> (int \<times> int \<times> int \<times> int) \<times> (int \<times> int \<times> int \<times> u64) \<times> nr_rlc_rx_manager" where
  "am_rx_view e =
     ((am_sn_field_length e, am_sn_modulus e, am_window_size e, am_rx_next e),
      (am_rx_next_highest e, am_rx_highest_status e, am_rx_next_status_trigger e, am_t_reassembly_start e),
      am_rx e)"

lemma am_rx_inv_view: "am_rx_view e' = am_rx_view e \<Longrightarrow> am_rx_inv e' = am_rx_inv e"
  by (rule am_rx_inv_cong(2)) (simp_all add: am_rx_view_def)

section \<open>Sending a segment\<close>

text \<open>The result of sending the floating segment \<open>seg\<close> of \<open>e\<close> as a PDU.\<close>

definition am_sent_as ::
  "(nat \<Rightarrow> nat) \<Rightarrow> nr_rlc_entity_am \<Rightarrow> nr_rlc_sdu_segment \<Rightarrow> byte list \<Rightarrow> nr_rlc_entity_am \<Rightarrow> byte list \<Rightarrow> bool" where
  "am_sent_as lk e seg buf e' b \<longleftrightarrow>
     length b = length buf \<and> am_tx_inv lk e' \<and> am_rx_view e' = am_rx_view e \<and>
     am_tx_list e' = am_tx_list e \<and> am_retransmit_list e' = am_retransmit_list e \<and>
     mset (am_wait_list e') = mset (seg # am_wait_list e) \<and> am_heap e' = am_heap e \<and>
     am_tx_next e' = am_tx_next e \<and> am_tx_next_ack e' = am_tx_next_ack e \<and> am_tx_size e' = am_tx_size e \<and>
     c_upcalls (am_common e') = c_upcalls (am_common e) \<and>
     (\<exists>p s. h_sdus (am_heap e) (seg_sdu seg) = Some s \<and>
        is_am_pdu (am_sn_field_length e) p (seg_is_first seg) (seg_is_last seg) (sdu_sn s) (seg_so seg)
          (take (nat (seg_size seg)) (drop (nat (seg_so seg)) (sdu_data s)))
          (take (nat (am_seg_cost e seg)) b))"

text \<open>The state in which a generator calls \<open>serialize_sdu\<close>, up to the polling variables.\<close>

lemma am_serialize_sent:
  assumes ok: "am_tx_ok lk e [seg]" and fits: "am_seg_cost e seg \<le> int (length buf)"
    and put: "put_in_wait_list e seg = Inr e1"
    and e2: "e2 = e1\<lparr>am_pdu_without_poll := i, am_byte_without_poll := j, am_force_poll := f\<rparr>"
    and c: "\<And>c. c_bstatus (g c) = c_bstatus c \<and> c_upcalls (g c) = c_upcalls c"
  shows "\<exists>b e3. am_serialize_sdu e2 seg buf p = Inr (am_seg_cost e seg, b, e3) \<and>
     deref (am_heap e3) seg = deref (am_heap e) seg \<and>
     am_sent_as lk e seg buf (e3\<lparr>am_common := g (am_common e3)\<rparr>) b"
proof -
  obtain w a where w: "e1 = e\<lparr>am_wait_list := w, am_wait_end := a\<rparr>" "mset w = mset (seg # am_wait_list e)"
    "am_tx_ok lk e1 []"
    using put_in_wait_list_ok [OF ok] put by auto
  obtain s where s: "h_sdus (am_heap e) (seg_sdu seg) = Some s" "deref (am_heap e) seg = Inr s"
    "seg_ok (am_heap e) seg" "sn_valid (am_sn_modulus e) (sdu_sn s)" "seg_so seg < 65536" "am_cfg e"
    by (rule am_floating [OF ok])
  have f2: "am_heap e2 = am_heap e" "am_sn_modulus e2 = am_sn_modulus e"
    "am_sn_field_length e2 = am_sn_field_length e" "am_cfg e2 = am_cfg e" "am_seg_cost e2 = am_seg_cost e"
    using am_header_cong [of e2 e] by (simp_all add: e2 w(1) am_cfg_def)
  obtain b where b: "am_serialize_sdu e2 seg buf p = Inr (am_seg_cost e seg, b, if p then am_polled e2 else e2)"
    "length b = length buf"
    "is_am_pdu (am_sn_field_length e) p (seg_is_first seg) (seg_is_last seg) (sdu_sn s) (seg_so seg)
       (take (nat (seg_size seg)) (drop (nat (seg_so seg)) (sdu_data s))) (take (nat (am_seg_cost e seg)) b)"
    using am_serialize_ok [of e2 seg s buf p] s fits unfolding f2 by blast
  define e3 where "e3 = (if p then am_polled e2 else e2)"
  let ?e = "e3\<lparr>am_common := g (am_common e3)\<rparr>"
  have "am_tx_ok lk ?e [] = am_tx_ok lk e1 []"
    by (rule am_tx_ok_cong) (simp_all add: e3_def e2 am_polled_def c)
  then have "am_tx_inv lk ?e" using w(3) by (simp add: am_tx_inv_def)
  moreover have "am_rx_view ?e = am_rx_view e" "am_tx_list ?e = am_tx_list e" "am_heap ?e = am_heap e"
    "am_retransmit_list ?e = am_retransmit_list e" "am_wait_list ?e = w" "am_tx_next ?e = am_tx_next e"
    "am_tx_next_ack ?e = am_tx_next_ack e" "am_tx_size ?e = am_tx_size e"
    "c_upcalls (am_common ?e) = c_upcalls (am_common e)" "am_heap e3 = am_heap e"
    by (simp_all add: e3_def e2 w(1) am_polled_def am_rx_view_def c)
  ultimately show ?thesis
    using b s(1) w(2) unfolding am_sent_as_def e3_def [symmetric] by fastforce
qed

lemma take_force_poll_eq:
  "\<exists>q f. take_force_poll e p = (q, e\<lparr>am_force_poll := f\<rparr>)"
  by (cases "am_force_poll e") (auto simp: take_force_poll_def intro: exI [of _ False])

lemma am_finish_retx_ok:
  assumes ok: "am_tx_ok lk e [seg]" and fits: "am_seg_cost e seg \<le> int (length buf)"
  shows "\<exists>b e'. am_finish_retx e seg buf = Inr (am_seg_cost e seg, b, e') \<and> am_sent_as lk e seg buf e' b"
proof -
  obtain e1 where e1: "put_in_wait_list e seg = Inr e1" using put_in_wait_list_ok [OF ok] by blast
  obtain q f where q: "take_force_poll e1 (check_poll_after_pdu_assembly e1) = (q, e1\<lparr>am_force_poll := f\<rparr>)"
    using take_force_poll_eq by blast
  have e2: "e1\<lparr>am_force_poll := f\<rparr> = e1\<lparr>am_pdu_without_poll := am_pdu_without_poll e1,
      am_byte_without_poll := am_byte_without_poll e1, am_force_poll := f\<rparr>"
    by simp
  obtain b e3 where "am_serialize_sdu (e1\<lparr>am_force_poll := f\<rparr>) seg buf q = Inr (am_seg_cost e seg, b, e3)"
    "am_sent_as lk e seg buf (e3\<lparr>am_common := upd_stats (stat_txpdu_retx (am_seg_cost e seg))
       (upd_stats (stat_txpdu (am_seg_cost e seg)) (am_common e3))\<rparr>) b"
    using am_serialize_sent [OF ok fits e1 e2, of "\<lambda>c. upd_stats (stat_txpdu_retx (am_seg_cost e seg))
       (upd_stats (stat_txpdu (am_seg_cost e seg)) c)" q] by auto
  then show ?thesis by (simp add: am_finish_retx_def e1 q)
qed

lemma am_finish_tx_ok:
  assumes ok: "am_tx_ok lk e [seg]" and fits: "am_seg_cost e seg \<le> int (length buf)"
  shows "\<exists>b e'. am_finish_tx clk e seg buf = Inr (am_seg_cost e seg, b, e') \<and> am_sent_as lk e seg buf e' b"
proof -
  obtain e1 where e1: "put_in_wait_list e seg = Inr e1" using put_in_wait_list_ok [OF ok] by blast
  obtain s where s: "deref (am_heap e) seg = Inr s" by (rule am_floating [OF ok])
  define e1' where "e1' = e1\<lparr>am_pdu_without_poll := am_pdu_without_poll e1 + 1,
     am_byte_without_poll := am_byte_without_poll e1 + seg_size seg\<rparr>"
  define p where "p \<longleftrightarrow> (am_poll_pdu e1' \<noteq> - 1 \<and> am_pdu_without_poll e1' \<ge> am_poll_pdu e1') \<or>
     (am_poll_byte e1' \<noteq> - 1 \<and> am_byte_without_poll e1' \<ge> am_poll_byte e1') \<or> check_poll_after_pdu_assembly e1'"
  obtain q f where q: "take_force_poll e1' p = (q, e1'\<lparr>am_force_poll := f\<rparr>)" using take_force_poll_eq by blast
  have e2: "e1'\<lparr>am_force_poll := f\<rparr> = e1\<lparr>am_pdu_without_poll := am_pdu_without_poll e1 + 1,
      am_byte_without_poll := am_byte_without_poll e1 + seg_size seg, am_force_poll := f\<rparr>"
    by (simp add: e1'_def)
  obtain b e3 where "am_serialize_sdu (e1'\<lparr>am_force_poll := f\<rparr>) seg buf q = Inr (am_seg_cost e seg, b, e3)"
    "deref (am_heap e3) seg = Inr s"
    "am_sent_as lk e seg buf (e3\<lparr>am_common := add_avg_time clk (sdu_time_of_arrival s)
       (upd_stats (stat_txpdu (am_seg_cost e seg)) (am_common e3))\<rparr>) b"
    using am_serialize_sent [OF ok fits e1 e2, of "\<lambda>c. add_avg_time clk (sdu_time_of_arrival s)
       (upd_stats (stat_txpdu (am_seg_cost e seg)) c)" q] s by auto
  then show ?thesis
    unfolding am_finish_tx_def e1 bindr_simps Let_def e1'_def [symmetric] p_def [symmetric] q by simp
qed

section \<open>Cutting a segment\<close>

lemma seg_disj_sym: "seg_disj h s t \<longleftrightarrow> seg_disj h t s"
  unfolding seg_disj_def by auto

lemma all_disj_Cons:
  "all_disj h (x # l) \<longleftrightarrow> all_disj h l \<and> (\<forall>t \<in> set l. seg_addr x \<noteq> seg_addr t \<longrightarrow> seg_disj h x t)"
proof
  assume a: "all_disj h l \<and> (\<forall>t \<in> set l. seg_addr x \<noteq> seg_addr t \<longrightarrow> seg_disj h x t)"
  have "seg_disj h s t" if "s \<in> set (x # l)" "t \<in> set (x # l)" "seg_addr s \<noteq> seg_addr t" for s t
    using that a seg_disj_sym [of h s t] unfolding all_disj_def by (cases "s = x"; cases "t = x") auto
  then show "all_disj h (x # l)" by (simp add: all_disj_def)
qed (simp add: all_disj_def)

lemma all_disj_split:
  assumes "all_disj h (seg # l)" and "seg_sn h seg \<noteq> - 1" and "0 < n" "n < seg_size seg"
    and "a \<notin> seg_addr ` set (seg # l)" and "seg_addr seg \<notin> seg_addr ` set l"
  shows "all_disj h (seg\<lparr>seg_size := n, seg_is_last := False\<rparr> #
     seg\<lparr>seg_addr := a, seg_size := seg_size seg - n, seg_so := seg_so seg + n, seg_is_first := False\<rparr> # l)"
proof -
  let ?x = "seg\<lparr>seg_size := n, seg_is_last := False\<rparr>"
  let ?y = "seg\<lparr>seg_addr := a, seg_size := seg_size seg - n, seg_so := seg_so seg + n, seg_is_first := False\<rparr>"
  have sn: "seg_sn h ?x = seg_sn h seg" "seg_sn h ?y = seg_sn h seg" by (simp_all add: seg_sn_def)
  have old: "seg_disj h seg t" if "t \<in> set l" for t
    using assms(1,6) that by (auto simp: all_disj_def)
  have "seg_disj h ?x t" "seg_disj h ?y t" if "t \<in> set l" for t
    using old [OF that] assms(3,4) unfolding seg_disj_def sn by auto
  moreover have "seg_disj h ?x ?y" using assms(3,4) unfolding seg_disj_def sn by auto
  moreover have "all_disj h l" using assms(1) by (simp add: all_disj_Cons)
  ultimately show ?thesis by (simp add: all_disj_Cons)
qed

lemma am_resegment_ok:
  assumes heap: "heap_leak lk (am_heap e) (seg # l)" and disj: "all_disj (am_heap e) (seg # l)"
    and sn: "seg_sn (am_heap e) seg \<noteq> - 1"
    and n: "am_compute_pdu_header_size e seg + 1 \<le> n" "n < am_seg_cost e seg"
  shows "\<exists>x y h. am_resegment e seg n = Inr (x, y, e\<lparr>am_heap := h\<rparr>) \<and>
     heap_leak lk h (x # y # l) \<and> all_disj h (x # y # l) \<and> seg_sn h = seg_sn (am_heap e) \<and>
     (\<forall>a. map_option (\<lambda>s. (sdu_data s, sdu_size s)) (h_sdus h a) =
          map_option (\<lambda>s. (sdu_data s, sdu_size s)) (h_sdus (am_heap e) a)) \<and>
     x = seg\<lparr>seg_size := n - am_compute_pdu_header_size e seg, seg_is_last := False\<rparr> \<and>
     y = seg\<lparr>seg_addr := seg_addr y, seg_size := am_seg_cost e seg - n,
             seg_so := seg_so seg + (n - am_compute_pdu_header_size e seg), seg_is_first := False\<rparr>"
proof -
  let ?H = "am_compute_pdu_header_size e seg" and ?h = "am_heap e"
  obtain s where s: "deref ?h seg = Inr s" "h_sdus ?h (seg_sdu seg) = Some s"
    using heap_ok_deref [OF heap, of seg] by auto
  define h where "h = (store ?h seg (s\<lparr>sdu_ref_count := sdu_ref_count s + 1\<rparr>))\<lparr>h_next := h_next ?h + 1\<rparr>"
  define x where "x = seg\<lparr>seg_size := n - ?H, seg_is_last := False\<rparr>"
  define y where "y = seg\<lparr>seg_addr := h_next ?h, seg_size := seg_size seg - (n - ?H),
     seg_so := seg_so seg + (n - ?H), seg_is_first := False\<rparr>"
  have sz: "0 < n - ?H" "n - ?H < seg_size seg" using n by (auto simp: am_seg_cost_def)
  have hp: "heap_leak lk h (x # y # l)"
    unfolding x_def y_def using heap_ok_split [OF heap s(2) sz refl h_def] .
  have sn': "seg_sn h = seg_sn ?h"
    using seg_sn_store [OF s(2), of "s\<lparr>sdu_ref_count := sdu_ref_count s + 1\<rparr>"]
    by (simp add: h_def seg_sn_def fun_eq_iff)
  have dst: "h_next ?h \<notin> seg_addr ` set (seg # l)" "seg_addr seg \<notin> seg_addr ` set l"
    using heap by (auto simp: heap_leak_def)
  have "all_disj ?h (x # y # l)"
    unfolding x_def y_def by (rule all_disj_split [OF disj sn sz dst])
  then have dj: "all_disj h (x # y # l)" by (simp add: all_disj_def seg_disj_def sn')
  have "am_resegment e seg n = Inr (x, y, e\<lparr>am_heap := h\<rparr>)"
    by (simp add: am_resegment_def s(1) Let_def h_def x_def y_def)
  moreover have "map_option (\<lambda>s. (sdu_data s, sdu_size s)) (h_sdus h a) =
          map_option (\<lambda>s. (sdu_data s, sdu_size s)) (h_sdus ?h a)" for a
    using s(2) by (simp add: h_def)
  moreover have "y = seg\<lparr>seg_addr := seg_addr y, seg_size := am_seg_cost e seg - n,
     seg_so := seg_so seg + (n - ?H), seg_is_first := False\<rparr>"
    by (simp add: y_def am_seg_cost_def)
  ultimately show ?thesis using hp dj sn' x_def by blast
qed

text \<open>
  The floating segment is cut, and the rest of it goes to the head of the retransmit list or of the
  transmit list.
\<close>

lemma am_split_facts:
  assumes heap: "heap_leak lk (am_heap e) (seg # l)" and disj: "all_disj (am_heap e) (seg # l)"
    and sn: "seg_sn (am_heap e) seg \<noteq> - 1"
    and max: "\<forall>a s. h_sdus (am_heap e) a = Some s \<longrightarrow> sdu_size s \<le> NR_SDU_MAX"
    and n: "am_compute_pdu_header_size e seg + 1 \<le> n" "n < am_seg_cost e seg"
  obtains x y h where "am_resegment e seg n = Inr (x, y, e\<lparr>am_heap := h\<rparr>)"
    "heap_leak lk h (x # y # l)" "all_disj h (x # y # l)" "seg_sn h = seg_sn (am_heap e)"
    "\<forall>a s. h_sdus h a = Some s \<longrightarrow> sdu_size s \<le> NR_SDU_MAX"
    "x = seg\<lparr>seg_size := n - am_compute_pdu_header_size e seg, seg_is_last := False\<rparr>"
    "y = seg\<lparr>seg_addr := seg_addr y, seg_size := am_seg_cost e seg - n,
             seg_so := seg_so seg + (n - am_compute_pdu_header_size e seg), seg_is_first := False\<rparr>"
    "\<forall>a. map_option (\<lambda>s. (sdu_data s, sdu_size s)) (h_sdus h a) =
          map_option (\<lambda>s. (sdu_data s, sdu_size s)) (h_sdus (am_heap e) a)"
    "am_seg_cost e x = n"
proof -
  obtain h x y where r: "am_resegment e seg n = Inr (x, y, e\<lparr>am_heap := h\<rparr>)"
    "heap_leak lk h (x # y # l)" "all_disj h (x # y # l)" "seg_sn h = seg_sn (am_heap e)"
    "\<forall>a. map_option (\<lambda>s. (sdu_data s, sdu_size s)) (h_sdus h a) =
          map_option (\<lambda>s. (sdu_data s, sdu_size s)) (h_sdus (am_heap e) a)"
    "x = seg\<lparr>seg_size := n - am_compute_pdu_header_size e seg, seg_is_last := False\<rparr>"
    "y = seg\<lparr>seg_addr := seg_addr y, seg_size := am_seg_cost e seg - n,
             seg_so := seg_so seg + (n - am_compute_pdu_header_size e seg), seg_is_first := False\<rparr>"
    using am_resegment_ok [OF heap disj sn n] by blast
  have "sdu_size s \<le> NR_SDU_MAX" if "h_sdus h a = Some s" for a s
  proof -
    have "map_option (\<lambda>s. (sdu_data s, sdu_size s)) (h_sdus (am_heap e) a) = Some (sdu_data s, sdu_size s)"
      using r(5) that by (metis option.simps(9))
    then show ?thesis using max [rule_format, of a] by auto
  qed
  moreover have "am_seg_cost e x = n"
    unfolding r(6) by (simp add: am_seg_cost_def am_compute_pdu_header_size_def)
  ultimately show thesis using that [OF r(1-4) _ r(6,7,5)] by blast
qed

end
