(* ===== verification/Nr_Rlc_Am_Gen.thy ===== *)
theory Nr_Rlc_Am_Gen
  imports Nr_Rlc_Am_Arq
begin

text \<open>
  The two generators of data PDUs of the acknowledged mode entity. \<open>generate_retx_pdu\<close> and
  \<open>generate_tx_pdu\<close> send the head of their list, cut when it does not fit, and keep the invariant of
  the transmitter.
\<close>

section \<open>What a generator promises\<close>

text \<open>
  The PDU that a generator writes into \<open>buf\<close> for the segment \<open>seg\<close> with the sequence number \<open>sn\<close>: it
  carries a prefix of the segment, all of it unless the buffer is full.
\<close>

definition am_pdu_of ::
  "nr_rlc_entity_am \<Rightarrow> int \<Rightarrow> nr_rlc_sdu_segment \<Rightarrow> byte list \<Rightarrow> int \<Rightarrow> byte list \<Rightarrow> bool" where
  "am_pdu_of e sn seg buf r b \<longleftrightarrow>
     (\<exists>p n s. h_sdus (am_heap e) (seg_sdu seg) = Some s \<and> n \<le> nat (seg_size seg) \<and>
        r = am_compute_pdu_header_size e seg + int n \<and>
        (int n = seg_size seg \<or> r = int (length buf)) \<and>
        is_am_pdu (am_sn_field_length e) p (seg_is_first seg) (seg_is_last seg \<and> int n = seg_size seg)
          sn (seg_so seg) (take n (drop (nat (seg_so seg)) (sdu_data s))) (take (nat r) b))"

text \<open>What does not depend on the segment.\<close>

definition am_gen_frame ::
  "(nat \<Rightarrow> nat) \<Rightarrow> nr_rlc_entity_am \<Rightarrow> byte list \<Rightarrow> int \<Rightarrow> byte list \<Rightarrow> nr_rlc_entity_am \<Rightarrow> bool" where
  "am_gen_frame lk e buf r b e' \<longleftrightarrow>
     length b = length buf \<and> 0 \<le> r \<and> r \<le> int (length buf) \<and> am_tx_inv lk e' \<and>
     am_rx_view e' = am_rx_view e \<and> am_tx_next_ack e' = am_tx_next_ack e \<and>
     am_tx_size e' = am_tx_size e \<and> c_upcalls (am_common e') = c_upcalls (am_common e) \<and>
     (r = 0 \<longrightarrow> e' = e \<and> b = buf)"

lemma am_gen_frame_none: "am_tx_inv lk e \<Longrightarrow> am_gen_frame lk e buf 0 buf e"
  by (simp add: am_gen_frame_def)

lemma am_sent_frame:
  assumes "am_sent_as lk e1 seg buf e' b" and "am_rx_view e1 = am_rx_view e"
    and "am_tx_next_ack e1 = am_tx_next_ack e" and "am_tx_size e1 = am_tx_size e"
    and "c_upcalls (am_common e1) = c_upcalls (am_common e)"
    and "am_seg_cost e1 seg \<le> int (length buf)" "0 \<le> seg_size seg"
  shows "am_gen_frame lk e buf (am_seg_cost e1 seg) b e'"
  using assms am_header_size_bounds [of e1 seg]
  by (simp add: am_sent_as_def am_gen_frame_def am_seg_cost_def)

text \<open>A sent segment \<open>x\<close> that is \<open>seg\<close>, or its first bytes.\<close>

lemma am_sent_pdu_of:
  assumes sent: "am_sent_as lk e1 x buf e' b"
    and view: "am_rx_view e1 = am_rx_view e"
    and data: "map_option (\<lambda>s. (sdu_data s, sdu_size s)) (h_sdus (am_heap e1) (seg_sdu seg)) =
      map_option (\<lambda>s. (sdu_data s, sdu_size s)) (h_sdus (am_heap e) (seg_sdu seg))"
    and sn: "seg_sn (am_heap e1) x = sn"
    and x: "x = seg\<lparr>seg_size := n, seg_is_last := l\<rparr>" and l: "l \<longleftrightarrow> seg_is_last seg \<and> n = seg_size seg"
    and n: "0 \<le> n" "n \<le> seg_size seg" "n = seg_size seg \<or> am_seg_cost e1 x = int (length buf)"
  shows "am_pdu_of e sn seg buf (am_seg_cost e1 x) b"
proof -
  have c: "am_sn_field_length e1 = am_sn_field_length e"
    "am_seg_cost e1 x = am_compute_pdu_header_size e seg + n"
    using view am_header_cong [of e1 e] by (simp_all add: am_rx_view_def x am_seg_cost_def am_compute_pdu_header_size_def)
  obtain p s where s: "h_sdus (am_heap e1) (seg_sdu x) = Some s"
    "is_am_pdu (am_sn_field_length e1) p (seg_is_first x) (seg_is_last x) (sdu_sn s) (seg_so x)
          (take (nat (seg_size x)) (drop (nat (seg_so x)) (sdu_data s)))
          (take (nat (am_seg_cost e1 x)) b)"
    using sent by (auto simp: am_sent_as_def)
  have "sdu_sn s = sn" using sn s(1) by (simp add: seg_sn_Some)
  moreover obtain s' where s': "h_sdus (am_heap e) (seg_sdu seg) = Some s'" "sdu_data s' = sdu_data s"
    using data s(1) x by (cases "h_sdus (am_heap e) (seg_sdu seg)") auto
  ultimately have "is_am_pdu (am_sn_field_length e) p (seg_is_first seg)
      (seg_is_last seg \<and> int (nat n) = seg_size seg) sn (seg_so seg)
      (take (nat n) (drop (nat (seg_so seg)) (sdu_data s'))) (take (nat (am_seg_cost e1 x)) b)"
    using s(2) l n(1) by (simp add: x c(1))
  then show ?thesis unfolding am_pdu_of_def using s'(1) n c(2) by (intro exI [of _ p] exI [of _ "nat n"]) auto
qed

section \<open>Lists\<close>

text \<open>The invariant after a step that changes the transmit or the retransmit list.\<close>

lemma am_tx_okI:
  assumes ok: "am_tx_ok lk e fl" and sn: "seg_sn (am_heap e') = seg_sn (am_heap e)"
    and "am_sn_field_length e' = am_sn_field_length e" "am_sn_modulus e' = am_sn_modulus e"
    "am_window_size e' = am_window_size e" "am_tx_next e' = am_tx_next e"
    "am_tx_next_ack e' = am_tx_next_ack e" "am_wait_list e' = am_wait_list e" "am_wait_end e' = am_wait_end e"
    and "heap_leak lk (am_heap e') (fl' @ am_tx_list e' @ am_wait_list e' @ am_retransmit_list e')"
    "all_disj (am_heap e') (fl' @ am_tx_list e' @ am_wait_list e' @ am_retransmit_list e')"
    "end_ok (am_tx_list e') (am_tx_end e')" "\<forall>a s. h_sdus (am_heap e') a = Some s \<longrightarrow> sdu_size s \<le> NR_SDU_MAX"
    "\<forall>x \<in> set (fl' @ am_retransmit_list e'). seg_sent e x" "tx_shape e (am_tx_list e')"
    "am_sorted e (am_retransmit_list e')"
    "bs_tx_size (c_bstatus (am_common e')) = sum_list (map (am_seg_cost e) (am_tx_list e'))"
    "bs_retx_size (c_bstatus (am_common e')) = sum_list (map (am_seg_cost e) (am_retransmit_list e'))"
  shows "am_tx_ok lk e' fl'"
proof -
  note D = am_tx_okD [OF ok]
  have k: "am_modulus_tx e' = am_modulus_tx e" "am_seg_cost e' = am_seg_cost e" "am_flight e' = am_flight e"
    using am_tx_key_cong [of e' e] am_header_cong [of e' e] assms(3-9) by (simp_all add: am_flight_def)
  have s: "seg_sent e' = seg_sent e" unfolding seg_sent_def [abs_def] k assms(2,4) ..
  have "tx_shape e' (am_tx_list e')"
    using assms(15) unfolding tx_shape_def seg_fresh_def s k sn .
  moreover have "am_tx_cfg e'" using D(1) unfolding am_tx_cfg_def am_cfg_def assms(3-7) .
  ultimately show ?thesis
    unfolding am_tx_ok_def k sn s assms(4,5,6,8,9)
    using D(2,3,6,8,10) assms(10-18) unfolding assms(8) set_append by blast
qed

lemma am_retx_head:
  assumes inv: "am_tx_inv lk e" and l: "am_retransmit_list e = seg # rest"
    and e1: "e1 = e\<lparr>am_retransmit_list := rest, am_common := add_retx_size (- am_seg_cost e seg) (am_common e)\<rparr>"
  shows "am_tx_ok lk e1 [seg]" "am_sorted e1 (seg # rest)"
proof -
  note ok = inv [unfolded am_tx_inv_def]
  note D = am_tx_okD [OF ok]
  let ?l = "[] @ am_tx_list e @ am_wait_list e @ seg # rest" and ?k = "[seg] @ am_tx_list e @ am_wait_list e @ rest"
  have "mset ?k = mset ?l" by simp
  note m = heap_ok_perm [OF _ this [symmetric]] mset_eq_setD [OF this]
  have "heap_leak lk (am_heap e) ?k" using m(1) D(4) unfolding l by blast
  moreover have "all_disj (am_heap e) ?k"
    using D(12) m(2) all_disj_subset [of "am_heap e" ?l ?k] unfolding l by blast
  moreover have "am_modulus_tx e1 = am_modulus_tx e" by (rule am_tx_key_cong) (simp_all add: e1)
  ultimately show "am_tx_ok lk e1 [seg]" "am_sorted e1 (seg # rest)"
    using D(5,7-9,11,13,14) unfolding l by (auto simp: e1 intro!: am_tx_okI [OF ok])
qed

lemma am_split_sorted:
  assumes ok: "am_tx_ok lk e [seg]" and s: "am_sorted e (seg # am_retransmit_list e)"
    and y: "seg_sdu y = seg_sdu seg" "seg_so y \<le> seg_so seg + seg_size seg"
  shows "am_sorted e (y # am_retransmit_list e)"
proof -
  note D = am_tx_okD [OF ok]
  have sn: "seg_sn (am_heap e) y = seg_sn (am_heap e) seg" using y by (simp add: seg_sn_def)
  have "sn_le (am_modulus_tx e) (seg_sn (am_heap e)) seg_so y t" if t: "t \<in> set (am_retransmit_list e)" for t
  proof -
    have "seg_addr seg \<noteq> seg_addr t" using D(4) t by (auto simp: heap_leak_def)
    then have "seg_disj (am_heap e) seg t" using D(12) t by (auto simp: all_disj_def)
    moreover have "seg_sn (am_heap e) seg \<noteq> - 1" using D(8) by (auto simp: seg_sent_def sn_valid_def)
    moreover have "sn_le (am_modulus_tx e) (seg_sn (am_heap e)) seg_so seg t" using s t by simp
    ultimately show ?thesis using y(2) unfolding sn_le_def seg_disj_def sn by auto
  qed
  with s show ?thesis by simp
qed

section \<open>Retransmission\<close>

lemma am_split_retx:
  assumes ok: "am_tx_ok lk e [seg]" and s: "am_sorted e (seg # am_retransmit_list e)"
    and n: "am_compute_pdu_header_size e seg + 1 \<le> n" "n < am_seg_cost e seg"
  obtains x y h where "am_resegment e seg n = Inr (x, y, e\<lparr>am_heap := h\<rparr>)"
    "am_tx_ok lk (e\<lparr>am_heap := h, am_retransmit_list := y # am_retransmit_list e,
       am_common := upd_stats stat_segmented (add_retx_size (am_seg_cost e y) (am_common e))\<rparr>) [x]"
    "seg_sn h = seg_sn (am_heap e)" "am_seg_cost e x = n"
    "x = seg\<lparr>seg_size := n - am_compute_pdu_header_size e seg, seg_is_last := False\<rparr>"
    "\<forall>a. map_option (\<lambda>s. (sdu_data s, sdu_size s)) (h_sdus h a) =
          map_option (\<lambda>s. (sdu_data s, sdu_size s)) (h_sdus (am_heap e) a)"
proof -
  note D = am_tx_okD [OF ok]
  have sn: "seg_sn (am_heap e) seg \<noteq> - 1" using D(8) by (auto simp: seg_sent_def sn_valid_def)
  have hl: "heap_leak lk (am_heap e) (seg # am_tx_list e @ am_wait_list e @ am_retransmit_list e)"
    "all_disj (am_heap e) (seg # am_tx_list e @ am_wait_list e @ am_retransmit_list e)"
    using D(4,12) by simp_all
  obtain x y h where r: "am_resegment e seg n = Inr (x, y, e\<lparr>am_heap := h\<rparr>)"
    "heap_leak lk h (x # y # am_tx_list e @ am_wait_list e @ am_retransmit_list e)"
    "all_disj h (x # y # am_tx_list e @ am_wait_list e @ am_retransmit_list e)"
    "seg_sn h = seg_sn (am_heap e)" "\<forall>a s. h_sdus h a = Some s \<longrightarrow> sdu_size s \<le> NR_SDU_MAX"
    "x = seg\<lparr>seg_size := n - am_compute_pdu_header_size e seg, seg_is_last := False\<rparr>"
    "y = seg\<lparr>seg_addr := seg_addr y, seg_size := am_seg_cost e seg - n,
             seg_so := seg_so seg + (n - am_compute_pdu_header_size e seg), seg_is_first := False\<rparr>"
    "\<forall>a. map_option (\<lambda>s. (sdu_data s, sdu_size s)) (h_sdus h a) =
          map_option (\<lambda>s. (sdu_data s, sdu_size s)) (h_sdus (am_heap e) a)"
    "am_seg_cost e x = n"
    by (rule am_split_facts [OF hl(1,2) sn D(7) n])
  have y: "seg_sdu y = seg_sdu seg" "seg_so y = seg_so seg + (n - am_compute_pdu_header_size e seg)"
    by (subst r(7), simp)+
  have x: "seg_sdu x = seg_sdu seg" by (simp add: r(6))
  have sent: "seg_sent e x" "seg_sent e y" using D(8) x y by (simp_all add: seg_sent_def seg_sn_def)
  have "am_sorted e (y # am_retransmit_list e)"
    by (rule am_split_sorted [OF ok s]) (use y n in \<open>simp_all add: am_seg_cost_def\<close>)
  moreover let ?k = "x # am_tx_list e @ am_wait_list e @ y # am_retransmit_list e"
  have "mset (x # y # am_tx_list e @ am_wait_list e @ am_retransmit_list e) = mset ?k" by simp
  from heap_ok_perm [OF r(2) this] mset_eq_setD [OF this]
  have "heap_leak lk h ?k" "all_disj h ?k" using r(3) all_disj_subset [of h _ ?k] by blast+
  ultimately have "am_tx_ok lk (e\<lparr>am_heap := h, am_retransmit_list := y # am_retransmit_list e,
       am_common := upd_stats stat_segmented (add_retx_size (am_seg_cost e y) (am_common e))\<rparr>) [x]"
    using sent r(4,5) D(5,8,9,13,14) by (auto intro!: am_tx_okI [OF ok])
  from that [OF r(1) this r(4,9,6,8)] show thesis .
qed

lemma am_generate_retx_ok:
  assumes inv: "am_tx_inv lk e" and l: "am_retransmit_list e = seg # rest"
  shows "\<exists>r b e'. am_generate_retx_pdu e buf = Inr (r, b, e') \<and> am_gen_frame lk e buf r b e' \<and>
     (r = 0 \<longleftrightarrow> int (length buf) \<le> am_compute_pdu_header_size e seg) \<and>
     (r \<noteq> 0 \<longrightarrow> am_pdu_of e (seg_sn (am_heap e) seg) seg buf r b)"
proof (cases "am_compute_pdu_header_size e seg + 1 > int (length buf)")
  case True
  then show ?thesis using am_gen_frame_none [OF inv] by (auto simp: am_generate_retx_pdu_def l)
next
  case room: False
  define e1 where "e1 = e\<lparr>am_retransmit_list := rest, am_common := add_retx_size (- am_seg_cost e seg) (am_common e)\<rparr>"
  have ok: "am_tx_ok lk e1 [seg]" and srt: "am_sorted e1 (seg # am_retransmit_list e1)"
    using am_retx_head [OF inv l e1_def] by (simp_all add: e1_def)
  have H: "am_compute_pdu_header_size e1 = am_compute_pdu_header_size e" "am_seg_cost e1 = am_seg_cost e"
    using am_header_cong [of e1 e] by (simp_all add: e1_def)
  have v: "am_rx_view e1 = am_rx_view e" "am_heap e1 = am_heap e" by (simp_all add: e1_def am_rx_view_def)
  have pos: "0 \<le> seg_size seg" by (rule am_floating [OF ok])
  have hpos: "2 \<le> am_compute_pdu_header_size e seg" by (rule am_header_size_bounds)
  show ?thesis
  proof (cases "am_seg_cost e seg > int (length buf)")
    case False
    then obtain b e' where f: "am_finish_retx e1 seg buf = Inr (am_seg_cost e seg, b, e')"
      "am_sent_as lk e1 seg buf e' b"
      using am_finish_retx_ok [OF ok, of buf] H by auto
    have "am_gen_frame lk e buf (am_seg_cost e1 seg) b e'"
      by (rule am_sent_frame [OF f(2) v(1)]) (use False pos H in \<open>simp_all add: e1_def\<close>)
    moreover have "am_pdu_of e (seg_sn (am_heap e) seg) seg buf (am_seg_cost e1 seg) b"
      by (rule am_sent_pdu_of [OF f(2) v(1), where n = "seg_size seg" and l = "seg_is_last seg"])
        (use pos v in simp_all)
    moreover have "am_generate_retx_pdu e buf = Inr (am_seg_cost e seg, b, e')"
      using room False f(1) by (simp add: am_generate_retx_pdu_def l Let_def am_seg_cost_def e1_def)
    moreover have "am_seg_cost e seg \<noteq> 0" using pos hpos by (simp add: am_seg_cost_def)
    ultimately show ?thesis using room H by auto
  next
    case True
    with room H have n: "am_compute_pdu_header_size e1 seg + 1 \<le> int (length buf)"
      "int (length buf) < am_seg_cost e1 seg" by auto
    obtain x y h where s: "am_resegment e1 seg (int (length buf)) = Inr (x, y, e1\<lparr>am_heap := h\<rparr>)"
      "am_tx_ok lk (e1\<lparr>am_heap := h, am_retransmit_list := y # am_retransmit_list e1,
       am_common := upd_stats stat_segmented (add_retx_size (am_seg_cost e1 y) (am_common e1))\<rparr>) [x]"
      "seg_sn h = seg_sn (am_heap e1)" "am_seg_cost e1 x = int (length buf)"
      "x = seg\<lparr>seg_size := int (length buf) - am_compute_pdu_header_size e1 seg, seg_is_last := False\<rparr>"
      "\<forall>a. map_option (\<lambda>s. (sdu_data s, sdu_size s)) (h_sdus h a) =
          map_option (\<lambda>s. (sdu_data s, sdu_size s)) (h_sdus (am_heap e1) a)"
      by (rule am_split_retx [OF ok srt n])
    define e2 where "e2 = e1\<lparr>am_heap := h, am_retransmit_list := y # am_retransmit_list e1,
       am_common := upd_stats stat_segmented (add_retx_size (am_seg_cost e1 y) (am_common e1))\<rparr>"
    have v2: "am_rx_view e2 = am_rx_view e" "am_heap e2 = h" using v by (simp_all add: e2_def am_rx_view_def)
    have c2: "am_seg_cost e2 x = int (length buf)" using am_header_cong [of e2 e1] s(4) by (simp add: e2_def)
    obtain b e' where f: "am_finish_retx e2 x buf = Inr (am_seg_cost e2 x, b, e')" "am_sent_as lk e2 x buf e' b"
      using am_finish_retx_ok [OF s(2) [folded e2_def], of buf] c2 by auto
    have "am_gen_frame lk e buf (am_seg_cost e2 x) b e'"
      by (rule am_sent_frame [OF f(2) v2(1)]) (use c2 s(5) n(1) in \<open>simp_all add: e1_def e2_def\<close>)
    moreover have "seg_sn h x = seg_sn (am_heap e) seg" unfolding s(3) v(2) by (simp add: s(5) seg_sn_def)
    then have "am_pdu_of e (seg_sn (am_heap e) seg) seg buf (am_seg_cost e2 x) b"
      using s(6) v2(2) n c2 v(2)
      by (intro am_sent_pdu_of [OF f(2) v2(1) _ _ s(5)]) (auto simp: am_seg_cost_def)
    moreover have "am_generate_retx_pdu e buf = Inr (am_seg_cost e2 x, b, e')"
    proof -
      have h1: "am_compute_pdu_header_size (e1\<lparr>am_heap := h\<rparr>) y + seg_size y = am_seg_cost e1 y"
        by (simp add: am_seg_cost_def am_compute_pdu_header_size_def)
      have "am_generate_retx_pdu e buf = bindr (am_resegment e1 seg (int (length buf))) (\<lambda>(sdu, next_sdu, e).
                       am_finish_retx
                         (e\<lparr>am_retransmit_list := next_sdu # am_retransmit_list e,
                            am_common := upd_stats stat_segmented (add_retx_size
                              (am_compute_pdu_header_size e next_sdu + seg_size next_sdu)
                              (am_common e))\<rparr>)
                         sdu buf)"
        using room True by (simp add: am_generate_retx_pdu_def l Let_def am_seg_cost_def e1_def)
      then show ?thesis using f(1) unfolding s(1) by (simp add: h1 e2_def)
    qed
    moreover have "am_seg_cost e2 x \<noteq> 0" using n(1) hpos unfolding c2 H by linarith
    ultimately show ?thesis using room by auto
  qed
qed

section \<open>First transmission\<close>

lemma am_not_stalling:
  assumes ok: "am_tx_cfg e" "sn_valid (am_sn_modulus e) (am_tx_next e)"
  shows "is_window_stalling e \<longleftrightarrow> am_flight e \<ge> am_window_size e"
proof -
  have c: "0 < am_window_size e" "am_window_size e < am_sn_modulus e" "0 \<le> am_tx_next_ack e"
    "am_tx_next_ack e < am_sn_modulus e"
    using ok(1) am_cfg_pos [of e] by (auto simp: am_tx_cfg_def sn_valid_def)
  then have "am_modulus_tx e (crem (am_tx_next_ack e + am_window_size e) (am_sn_modulus e)) = am_window_size e"
    by (simp add: am_modulus_tx_def mod_plus_wrap)
  moreover have "am_modulus_tx e (am_tx_next_ack e) = 0" by (simp add: am_modulus_tx_def)
  moreover have "0 \<le> am_flight e"
    using am_tx_order.key_range [OF ok] by (simp add: am_flight_def sn_valid_def)
  ultimately show ?thesis
    unfolding is_window_stalling_def am_tx_order.cmp_key [OF ok(1)] am_flight_def by linarith
qed

lemma am_flight_Suc:
  assumes "am_tx_cfg e" "sn_valid (am_sn_modulus e) (am_tx_next e)" "am_flight e < am_window_size e"
  shows "sn_valid (am_sn_modulus e) (crem (am_tx_next e + 1) (am_sn_modulus e))"
    and "am_modulus_tx e (crem (am_tx_next e + 1) (am_sn_modulus e)) = am_flight e + 1"
proof -
  have c: "1 < am_window_size e" "am_window_size e < am_sn_modulus e" "0 \<le> am_tx_next_ack e"
    "am_tx_next_ack e < am_sn_modulus e" "am_sn_modulus e = 2 * am_window_size e"
    using assms(1) am_cfg_pos [of e] by (auto simp: am_tx_cfg_def sn_valid_def)
  with assms(2) show "sn_valid (am_sn_modulus e) (crem (am_tx_next e + 1) (am_sn_modulus e))"
    by (simp add: sn_valid_def)
  show "am_modulus_tx e (crem (am_tx_next e + 1) (am_sn_modulus e)) = am_flight e + 1"
    using assms(2,3) c mod_plus_wrap [of "am_tx_next e" "am_sn_modulus e" 1]
    by (auto simp: am_modulus_tx_def am_flight_def sn_valid_def Let_def split: if_splits)
qed

lemma tx_shape_Cons:
  "tx_shape e (seg # l) \<longleftrightarrow> seg_sdu seg \<notin> seg_sdu ` set l \<and> distinct (map seg_sdu l) \<and>
     (\<forall>x \<in> set l. seg_fresh (am_heap e) x) \<and> (seg_fresh (am_heap e) seg \<or>
        (seg_sent e seg \<and> \<not> seg_is_first seg \<and>
           am_modulus_tx e (seg_sn (am_heap e) seg) = am_flight e - 1))"
  by (auto simp: tx_shape_def)

lemma tx_shape_fresh:
  "distinct (map seg_sdu l) \<Longrightarrow> \<forall>x \<in> set l. seg_fresh (am_heap e) x \<Longrightarrow> tx_shape e l"
  by (cases l) (auto simp: tx_shape_def)

text \<open>The head of the transmit list is taken out; it has a sequence number, or gets the next one.\<close>

lemma am_tx_head_sent:
  assumes inv: "am_tx_inv lk e" and l: "am_tx_list e = seg # rest" and sent: "seg_sn (am_heap e) seg \<noteq> - 1"
    and e1: "e1 = e\<lparr>am_tx_list := rest, am_tx_end := (if rest = [] then None else am_tx_end e),
       am_common := add_tx_size (- am_seg_cost e seg) (am_common e)\<rparr>"
  shows "am_tx_ok lk e1 [seg]" and "am_modulus_tx e1 (seg_sn (am_heap e1) seg) = am_flight e1 - 1"
proof -
  note ok = inv [unfolded am_tx_inv_def]
  note D = am_tx_okD [OF ok]
  have sh: "seg_sent e seg" "am_modulus_tx e (seg_sn (am_heap e) seg) = am_flight e - 1" "tx_shape e rest"
    using D(9) sent tx_shape_fresh [of rest e] unfolding l tx_shape_Cons by (auto simp: seg_fresh_def)
  have en: "end_ok rest (if rest = [] then None else am_tx_end e)" using D(5) by (simp add: l end_ok_def)
  have fl: "am_modulus_tx e1 = am_modulus_tx e" "am_flight e1 = am_flight e"
    using am_tx_key_cong [of e1 e] by (simp_all add: e1 am_flight_def)
  then show "am_modulus_tx e1 (seg_sn (am_heap e1) seg) = am_flight e1 - 1" using sh(2) by (simp add: e1)
  show "am_tx_ok lk e1 [seg]"
    using D(4,7,8,11-14) sh(1,3) en unfolding l by (auto simp: e1 intro!: am_tx_okI [OF ok])
qed

lemma all_disj_assign:
  assumes disj: "all_disj h (seg # l)" and fresh: "\<forall>x \<in> set l. seg_sn h x \<noteq> n"
    and sn: "\<forall>x \<in> set l. seg_sn h' x = seg_sn h x" and n: "seg_sn h' seg = n"
  shows "all_disj h' (seg # l)"
proof -
  have "seg_disj h' seg t" if "t \<in> set l" for t
    using fresh sn n that unfolding seg_disj_def by metis
  moreover have "seg_disj h' s t = seg_disj h s t" if "s \<in> set l" "t \<in> set l" for s t
    using sn that unfolding seg_disj_def by simp
  ultimately show ?thesis using disj unfolding all_disj_Cons by (simp add: all_disj_def)
qed

lemma am_tx_head_fresh:
  assumes inv: "am_tx_inv lk e" and l: "am_tx_list e = seg # rest" and fresh: "seg_sn (am_heap e) seg = - 1"
    and room: "am_flight e < am_window_size e" and s: "h_sdus (am_heap e) (seg_sdu seg) = Some s"
    and e2: "e2 = e\<lparr>am_tx_list := rest, am_tx_end := (if rest = [] then None else am_tx_end e),
       am_common := add_tx_size (- am_seg_cost e seg) (am_common e),
       am_heap := store (am_heap e) seg (s\<lparr>sdu_sn := am_tx_next e\<rparr>),
       am_tx_next := crem (am_tx_next e + 1) (am_sn_modulus e)\<rparr>"
  shows "am_tx_ok lk e2 [seg]" and "am_modulus_tx e2 (seg_sn (am_heap e2) seg) = am_flight e2 - 1"
proof -
  note D = am_tx_okD [OF inv [unfolded am_tx_inv_def]]
  let ?h = "am_heap e" and ?h2 = "am_heap e2"
  let ?l = "rest @ am_wait_list e @ am_retransmit_list e"
  have k: "am_modulus_tx e2 = am_modulus_tx e" "am_seg_cost e2 = am_seg_cost e"
    using am_tx_key_cong [of e2 e] am_header_cong [of e2 e] by (simp_all add: e2)
  have fl: "sn_valid (am_sn_modulus e2) (am_tx_next e2)" "am_flight e2 = am_flight e + 1"
    using am_flight_Suc [OF D(1,2) room] k(1) by (simp_all add: e2 am_flight_def)
  have seg: "seg_sn ?h2 seg = am_tx_next e" by (simp add: e2 seg_sn_def)
  then show last: "am_modulus_tx e2 (seg_sn (am_heap e2) seg) = am_flight e2 - 1"
    unfolding k fl by (simp add: am_flight_def)
  have sent: "seg_sent e x" if "x \<in> set (am_wait_list e @ am_retransmit_list e)" for x
    using D(8) that by auto
  have rest: "seg_fresh ?h x" "seg_sdu x \<noteq> seg_sdu seg" if "x \<in> set rest" for x
    using D(9) that unfolding l tx_shape_Cons by (simp_all add: image_iff) metis
  have other: "seg_sdu x \<noteq> seg_sdu seg" if "x \<in> set ?l" for x
  proof (cases "x \<in> set rest")
    case False
    then have "seg_sn ?h x \<noteq> - 1" using that sent [of x] by (auto simp: seg_sent_def sn_valid_def)
    then show ?thesis using fresh by (auto simp: seg_sn_def)
  qed (use rest in auto)
  then have same: "seg_sn ?h2 x = seg_sn ?h x" if "x \<in> set ?l" for x
    using that by (simp add: e2 seg_sn_def)
  have sent2: "seg_sent e2 x" if "x \<in> set (am_wait_list e @ am_retransmit_list e)" for x
    using sent [OF that] same [of x] that unfolding seg_sent_def k fl by (auto simp: e2)
  have "seg_sent e2 seg" using last D(2) unfolding seg_sent_def seg by (simp add: e2)
  moreover have "tx_shape e2 rest"
  proof -
    have "seg_fresh ?h2 x" if "x \<in> set rest" for x
      using rest(1) [OF that] same [of x] that by (simp add: seg_fresh_def)
    then show ?thesis using D(9) tx_shape_fresh [of rest e2] by (simp add: l tx_shape_Cons)
  qed
  moreover have "all_disj ?h2 (seg # ?l)"
  proof (rule all_disj_assign [OF _ _ _ seg])
    show "all_disj ?h (seg # ?l)" using D(12) by (simp add: l)
    have "am_tx_next e \<noteq> - 1" using D(2) by (auto simp: sn_valid_def)
    then show "\<forall>x \<in> set ?l. seg_sn ?h x \<noteq> am_tx_next e"
      using rest(1) sent unfolding seg_fresh_def seg_sent_def am_flight_def set_append by (metis Un_iff less_irrefl)
    show "\<forall>x \<in> set ?l. seg_sn ?h2 x = seg_sn ?h x" using same by blast
  qed
  moreover have srt: "am_sorted e2 k" if "am_sorted e k" "set k \<subseteq> set ?l" for k
    unfolding k using that(1)
    by (rule sorted_wrt_mono_rel [rotated]) (use that(2) same in \<open>auto simp: sn_le_def subset_iff\<close>)
  have "am_sorted e2 (am_wait_list e)" "am_sorted e2 (am_retransmit_list e)"
    using srt [OF D(10)] srt [OF D(11)] by auto
  moreover have "heap_leak lk ?h2 (seg # ?l)"
    using heap_ok_store [OF _ s, of lk "seg # ?l" "s\<lparr>sdu_sn := am_tx_next e\<rparr>"] D(4) by (simp add: l e2)
  moreover have "sdu_size t \<le> NR_SDU_MAX" if "h_sdus ?h2 a = Some t" for a t
    using that D(7) s by (auto simp: e2 split: if_splits)
  moreover have "am_tx_cfg e2" using D(1) unfolding am_tx_cfg_def am_cfg_def e2 by simp metis
  moreover have "end_ok rest (if rest = [] then None else am_tx_end e)" using D(5) by (simp add: l end_ok_def)
  moreover have f: "am_tx_list e2 = rest" "am_wait_list e2 = am_wait_list e" "am_window_size e2 = am_window_size e"
    "am_retransmit_list e2 = am_retransmit_list e" "am_wait_end e2 = am_wait_end e"
    "am_tx_end e2 = (if rest = [] then None else am_tx_end e)"
    "bs_tx_size (c_bstatus (am_common e2)) = bs_tx_size (c_bstatus (am_common e)) - am_seg_cost e seg"
    "bs_retx_size (c_bstatus (am_common e2)) = bs_retx_size (c_bstatus (am_common e))"
    by (simp_all add: e2)
  ultimately show "am_tx_ok lk e2 [seg]"
    unfolding am_tx_ok_def f k(2) using fl sent2 room D(6,13,14) by (simp add: l)
qed

text \<open>The state in which the floating head of the transmit list is sent.\<close>

definition am_tx_head_ok :: "(nat \<Rightarrow> nat) \<Rightarrow> nr_rlc_entity_am \<Rightarrow> nr_rlc_sdu_segment \<Rightarrow> bool" where
  "am_tx_head_ok lk e seg \<longleftrightarrow> am_tx_ok lk e [seg] \<and>
     am_modulus_tx e (seg_sn (am_heap e) seg) = am_flight e - 1 \<and>
     (\<forall>x \<in> set (am_tx_list e). seg_fresh (am_heap e) x)"

lemma am_assign_ok:
  assumes inv: "am_tx_inv lk e" and l: "am_tx_list e = seg # rest" and room: "am_flight e < am_window_size e"
    and e1: "e1 = e\<lparr>am_tx_list := rest, am_tx_end := (if rest = [] then None else am_tx_end e),
       am_common := add_tx_size (- am_seg_cost e seg) (am_common e)\<rparr>"
  obtains h n where "assign_sn e1 seg = Inr (e1\<lparr>am_heap := h, am_tx_next := n\<rparr>)"
    "am_tx_head_ok lk (e1\<lparr>am_heap := h, am_tx_next := n\<rparr>) seg"
    "seg_sn h seg = (if seg_sn (am_heap e) seg = - 1 then am_tx_next e else seg_sn (am_heap e) seg)"
    "\<forall>a. map_option (\<lambda>s. (sdu_data s, sdu_size s)) (h_sdus h a) =
          map_option (\<lambda>s. (sdu_data s, sdu_size s)) (h_sdus (am_heap e) a)"
proof -
  note D = am_tx_okD [OF inv [unfolded am_tx_inv_def]]
  obtain s where s: "deref (am_heap e) seg = Inr s" "h_sdus (am_heap e) (seg_sdu seg) = Some s"
    by (rule heap_ok_deref [OF D(4), of seg]) (auto simp: l)
  have sn: "seg_sn (am_heap e) seg = sdu_sn s" using s(2) by (rule seg_sn_Some)
  have rest: "\<forall>x \<in> set rest. seg_fresh (am_heap e) x" "seg_sdu seg \<notin> seg_sdu ` set rest"
    using D(9) unfolding l tx_shape_Cons by blast+
  show thesis
  proof (cases "sdu_sn s = - 1")
    case False
    have "e1\<lparr>am_heap := am_heap e, am_tx_next := am_tx_next e\<rparr> = e1" by (simp add: e1)
    moreover have "assign_sn e1 seg = Inr e1" using False s(1) by (simp add: assign_sn_def e1)
    moreover have "am_tx_head_ok lk e1 seg"
      using am_tx_head_sent [OF inv l _ e1] False sn rest(1) unfolding am_tx_head_ok_def by (simp add: e1)
    ultimately show thesis using that [where h = "am_heap e" and n = "am_tx_next e"] False sn by simp
  next
    case True
    let ?h = "store (am_heap e) seg (s\<lparr>sdu_sn := am_tx_next e\<rparr>)" and ?n = "crem (am_tx_next e + 1) (am_sn_modulus e)"
    define e2 where "e2 = e1\<lparr>am_heap := ?h, am_tx_next := ?n\<rparr>"
    have "assign_sn e1 seg = Inr e2" using True s(1) by (simp add: assign_sn_def e1 e2_def)
    moreover have "seg_fresh ?h x" if "x \<in> set rest" for x
    proof -
      have "seg_sdu x \<noteq> seg_sdu seg" using rest(2) that by (metis image_eqI)
      then show ?thesis using rest(1) that by (simp add: seg_fresh_def seg_sn_def)
    qed
    then have "am_tx_head_ok lk e2 seg"
      using am_tx_head_fresh [OF inv l _ room s(2), of e2] True sn unfolding am_tx_head_ok_def
      by (simp add: e2_def e1)
    moreover have "seg_sn ?h seg = am_tx_next e" by (simp add: seg_sn_def)
    moreover have "\<forall>a. map_option (\<lambda>s. (sdu_data s, sdu_size s)) (h_sdus ?h a) =
          map_option (\<lambda>s. (sdu_data s, sdu_size s)) (h_sdus (am_heap e) a)"
      using s(2) by simp
    ultimately show thesis using that [where h = ?h and n = ?n] True sn unfolding e2_def by simp
  qed
qed

lemma am_split_tx:
  assumes head: "am_tx_head_ok lk e seg"
    and n: "am_compute_pdu_header_size e seg + 1 \<le> n" "n < am_seg_cost e seg"
  obtains x y h where "am_resegment e seg n = Inr (x, y, e\<lparr>am_heap := h\<rparr>)"
    "am_tx_ok lk (e\<lparr>am_heap := h, am_tx_list := y # am_tx_list e,
       am_tx_end := (if am_tx_end e = None then Some (seg_addr y) else am_tx_end e),
       am_common := add_tx_size (am_seg_cost e y) (upd_stats stat_segmented (am_common e))\<rparr>) [x]"
    "seg_sn h = seg_sn (am_heap e)" "am_seg_cost e x = n"
    "x = seg\<lparr>seg_size := n - am_compute_pdu_header_size e seg, seg_is_last := False\<rparr>"
    "\<forall>a. map_option (\<lambda>s. (sdu_data s, sdu_size s)) (h_sdus h a) =
          map_option (\<lambda>s. (sdu_data s, sdu_size s)) (h_sdus (am_heap e) a)"
proof -
  have ok: "am_tx_ok lk e [seg]" and key: "am_modulus_tx e (seg_sn (am_heap e) seg) = am_flight e - 1"
    and fresh: "\<forall>x \<in> set (am_tx_list e). seg_fresh (am_heap e) x"
    using head unfolding am_tx_head_ok_def by blast+
  note D = am_tx_okD [OF ok]
  have sn: "seg_sn (am_heap e) seg \<noteq> - 1" using D(8) by (auto simp: seg_sent_def sn_valid_def)
  have hl: "heap_leak lk (am_heap e) (seg # am_tx_list e @ am_wait_list e @ am_retransmit_list e)"
    "all_disj (am_heap e) (seg # am_tx_list e @ am_wait_list e @ am_retransmit_list e)"
    using D(4,12) by simp_all
  obtain x y h where r: "am_resegment e seg n = Inr (x, y, e\<lparr>am_heap := h\<rparr>)"
    "heap_leak lk h (x # y # am_tx_list e @ am_wait_list e @ am_retransmit_list e)"
    "all_disj h (x # y # am_tx_list e @ am_wait_list e @ am_retransmit_list e)"
    "seg_sn h = seg_sn (am_heap e)" "\<forall>a s. h_sdus h a = Some s \<longrightarrow> sdu_size s \<le> NR_SDU_MAX"
    "x = seg\<lparr>seg_size := n - am_compute_pdu_header_size e seg, seg_is_last := False\<rparr>"
    "y = seg\<lparr>seg_addr := seg_addr y, seg_size := am_seg_cost e seg - n,
             seg_so := seg_so seg + (n - am_compute_pdu_header_size e seg), seg_is_first := False\<rparr>"
    "\<forall>a. map_option (\<lambda>s. (sdu_data s, sdu_size s)) (h_sdus h a) =
          map_option (\<lambda>s. (sdu_data s, sdu_size s)) (h_sdus (am_heap e) a)"
    "am_seg_cost e x = n"
    by (rule am_split_facts [OF hl(1,2) sn D(7) n])
  have sdu: "seg_sdu y = seg_sdu seg" "seg_sdu x = seg_sdu seg" by (subst r(7), simp) (simp add: r(6))
  have nf: "\<not> seg_is_first y" by (subst r(7)) simp
  from sdu have sny: "seg_sn (am_heap e) y = seg_sn (am_heap e) seg" by (simp add: seg_sn_def)
  have sent: "seg_sent e x" "seg_sent e y" using D(8) sdu by (simp_all add: seg_sent_def seg_sn_def)
  have "seg_sdu seg \<notin> seg_sdu ` set (am_tx_list e)"
    using fresh sn by (force simp: seg_fresh_def seg_sn_def)
  then have "tx_shape e (y # am_tx_list e)"
    using D(9) fresh sent(2) key sny sdu nf unfolding tx_shape_Cons by (simp add: tx_shape_def)
  moreover have "end_ok (y # am_tx_list e) (if am_tx_end e = None then Some (seg_addr y) else am_tx_end e)"
    using D(5) by (auto simp: end_ok_def split: if_splits)
  ultimately have "am_tx_ok lk (e\<lparr>am_heap := h, am_tx_list := y # am_tx_list e,
       am_tx_end := (if am_tx_end e = None then Some (seg_addr y) else am_tx_end e),
       am_common := add_tx_size (am_seg_cost e y) (upd_stats stat_segmented (am_common e))\<rparr>) [x]"
    using sent r(2-5) D(8,11,13,14) by (auto intro!: am_tx_okI [OF ok])
  from that [OF r(1) this r(4,9,6,8)] show thesis .
qed

lemma am_generate_tx_ok:
  assumes inv: "am_tx_inv lk e" and l: "am_tx_list e = seg # rest" and room: "am_flight e < am_window_size e"
    and fits: "am_compute_pdu_header_size e seg + 1 \<le> int (length buf)"
  shows "\<exists>r b e'. am_generate_tx_pdu clk e buf = Inr (r, b, e') \<and> am_gen_frame lk e buf r b e' \<and> r \<noteq> 0 \<and>
     am_pdu_of e (if seg_sn (am_heap e) seg = - 1 then am_tx_next e else seg_sn (am_heap e) seg) seg buf r b"
proof -
  note D = am_tx_okD [OF inv [unfolded am_tx_inv_def]]
  define e0 where "e0 = e\<lparr>am_tx_list := rest, am_tx_end := (if rest = [] then None else am_tx_end e),
       am_common := add_tx_size (- am_seg_cost e seg) (am_common e)\<rparr>"
  let ?sn = "if seg_sn (am_heap e) seg = - 1 then am_tx_next e else seg_sn (am_heap e) seg"
  obtain h1 n1 where as: "assign_sn e0 seg = Inr (e0\<lparr>am_heap := h1, am_tx_next := n1\<rparr>)"
    "am_tx_head_ok lk (e0\<lparr>am_heap := h1, am_tx_next := n1\<rparr>) seg" "seg_sn h1 seg = ?sn"
    "\<forall>a. map_option (\<lambda>s. (sdu_data s, sdu_size s)) (h_sdus h1 a) =
          map_option (\<lambda>s. (sdu_data s, sdu_size s)) (h_sdus (am_heap e) a)"
    by (rule am_assign_ok [OF inv l room e0_def])
  define e1 where "e1 = e0\<lparr>am_heap := h1, am_tx_next := n1\<rparr>"
  have ok: "am_tx_ok lk e1 [seg]" using as(2) unfolding e1_def am_tx_head_ok_def by blast
  have H: "am_compute_pdu_header_size e1 = am_compute_pdu_header_size e" "am_seg_cost e1 = am_seg_cost e"
    using am_header_cong [of e1 e] by (simp_all add: e1_def e0_def)
  have v: "am_rx_view e1 = am_rx_view e" "am_heap e1 = h1" by (simp_all add: e1_def e0_def am_rx_view_def)
  have pos: "0 \<le> seg_size seg" by (rule am_floating [OF ok])
  have hpos: "2 \<le> am_compute_pdu_header_size e seg" by (rule am_header_size_bounds)
  have gen: "am_generate_tx_pdu clk e buf =
      (if am_seg_cost e seg > int (length buf)
       then bindr (am_resegment e1 seg (int (length buf))) (\<lambda>(sdu, next_sdu, e).
                       am_finish_tx clk
                         (e\<lparr>am_tx_list := next_sdu # am_tx_list e,
                            am_tx_end := (if am_tx_end e = None
                                          then Some (seg_addr next_sdu) else am_tx_end e),
                            am_common := add_tx_size
                              (am_compute_pdu_header_size e next_sdu + seg_size next_sdu)
                              (upd_stats stat_segmented (am_common e))\<rparr>)
                         sdu buf)
       else am_finish_tx clk e1 seg buf)"
    using as(1) fits room am_not_stalling [OF D(1,2)]
    by (simp add: am_generate_tx_pdu_def l Let_def am_seg_cost_def e0_def e1_def)
  show ?thesis
  proof (cases "am_seg_cost e seg > int (length buf)")
    case False
    then obtain b e' where f: "am_finish_tx clk e1 seg buf = Inr (am_seg_cost e1 seg, b, e')"
      "am_sent_as lk e1 seg buf e' b"
      using am_finish_tx_ok [OF ok, of buf clk] H by auto
    have "am_gen_frame lk e buf (am_seg_cost e1 seg) b e'"
      by (rule am_sent_frame [OF f(2) v(1)]) (use False pos H in \<open>simp_all add: e1_def e0_def\<close>)
    moreover have "am_pdu_of e ?sn seg buf (am_seg_cost e1 seg) b"
      by (rule am_sent_pdu_of [OF f(2) v(1), where n = "seg_size seg" and l = "seg_is_last seg"])
        (use pos v as in simp_all)
    moreover have "am_seg_cost e1 seg \<noteq> 0" using pos hpos H by (simp add: am_seg_cost_def)
    ultimately show ?thesis using gen False f(1) by auto
  next
    case True
    with fits H have n: "am_compute_pdu_header_size e1 seg + 1 \<le> int (length buf)"
      "int (length buf) < am_seg_cost e1 seg" by auto
    obtain x y h where s: "am_resegment e1 seg (int (length buf)) = Inr (x, y, e1\<lparr>am_heap := h\<rparr>)"
      "am_tx_ok lk (e1\<lparr>am_heap := h, am_tx_list := y # am_tx_list e1,
         am_tx_end := (if am_tx_end e1 = None then Some (seg_addr y) else am_tx_end e1),
         am_common := add_tx_size (am_seg_cost e1 y) (upd_stats stat_segmented (am_common e1))\<rparr>) [x]"
      "seg_sn h = seg_sn (am_heap e1)" "am_seg_cost e1 x = int (length buf)"
      "x = seg\<lparr>seg_size := int (length buf) - am_compute_pdu_header_size e1 seg, seg_is_last := False\<rparr>"
      "\<forall>a. map_option (\<lambda>s. (sdu_data s, sdu_size s)) (h_sdus h a) =
          map_option (\<lambda>s. (sdu_data s, sdu_size s)) (h_sdus (am_heap e1) a)"
      by (rule am_split_tx [OF as(2) [folded e1_def] n])
    define e2 where "e2 = e1\<lparr>am_heap := h, am_tx_list := y # am_tx_list e1,
         am_tx_end := (if am_tx_end e1 = None then Some (seg_addr y) else am_tx_end e1),
         am_common := add_tx_size (am_seg_cost e1 y) (upd_stats stat_segmented (am_common e1))\<rparr>"
    have v2: "am_rx_view e2 = am_rx_view e" "am_heap e2 = h" using v by (simp_all add: e2_def am_rx_view_def)
    have c2: "am_seg_cost e2 x = int (length buf)" using am_header_cong [of e2 e1] s(4) by (simp add: e2_def)
    obtain b e' where f: "am_finish_tx clk e2 x buf = Inr (am_seg_cost e2 x, b, e')" "am_sent_as lk e2 x buf e' b"
      using am_finish_tx_ok [OF s(2) [folded e2_def], of buf clk] c2 by auto
    have "am_gen_frame lk e buf (am_seg_cost e2 x) b e'"
      by (rule am_sent_frame [OF f(2) v2(1)]) (use c2 s(5) n(1) in \<open>simp_all add: e0_def e1_def e2_def\<close>)
    moreover have "seg_sn h x = ?sn" using as(3) unfolding s(3) v(2) by (simp add: s(5) seg_sn_def)
    then have "am_pdu_of e ?sn seg buf (am_seg_cost e2 x) b"
      using s(6) as(4) v2(2) n c2 v(2)
      by (intro am_sent_pdu_of [OF f(2) v2(1) _ _ s(5)]) (auto simp: am_seg_cost_def)
    moreover have "am_compute_pdu_header_size (e1\<lparr>am_heap := h\<rparr>) y + seg_size y = am_seg_cost e1 y"
      by (simp add: am_seg_cost_def am_compute_pdu_header_size_def)
    then have "am_generate_tx_pdu clk e buf = am_finish_tx clk e2 x buf"
      unfolding gen s(1) e2_def using True by simp
    moreover have "am_seg_cost e2 x \<noteq> 0" using n(1) hpos unfolding c2 H by linarith
    ultimately show ?thesis using f(1) by auto
  qed
qed

text \<open>Nothing is sent when the window is full, the list is empty, or no byte of data would fit.\<close>

lemma am_generate_tx_none:
  assumes inv: "am_tx_inv lk e" and none: "am_tx_list e = [] \<or> am_flight e \<ge> am_window_size e \<or>
      int (length buf) \<le> am_compute_pdu_header_size e (hd (am_tx_list e))"
  shows "am_generate_tx_pdu clk e buf = Inr (0, buf, e)"
  using none am_not_stalling am_tx_okD(1,2) [OF inv [unfolded am_tx_inv_def]]
  by (auto simp: am_generate_tx_pdu_def Let_def split: list.splits)

end
