(* ===== verification/Nr_Rlc_Am_Life.thy ===== *)
theory Nr_Rlc_Am_Life
  imports Nr_Rlc_Am_Gen
begin

text \<open>
  The other operations on the transmitter of the acknowledged mode entity: \<open>recv_sdu\<close>,
  \<open>discard_sdu\<close>, the poll retransmission timer, re-establishment and deletion keep its invariant, and
  deletion frees every SDU.
\<close>

section \<open>New SDUs\<close>

lemma seg_sn_new_sdu:
  assumes "heap_leak lk h l" and "nr_rlc_new_sdu h buf i = (seg, h')"
  shows "seg_sn h' = seg_sn h" and "seg_sn (stamp_arrival c clk seg h') = seg_sn h"
    and "seg_fresh h' seg" and "seg_sdu seg \<notin> seg_sdu ` set l"
    and "h_sdus h' a = (if a = seg_sdu seg then h_sdus h' a else h_sdus h a)"
proof -
  have none: "h_sdus h (h_next h) = None" using assms(1) by (simp add: heap_leak_def)
  have seg: "seg_sdu seg = h_next h" using assms(2) by (auto simp: nr_rlc_new_sdu_def Let_def)
  show sn: "seg_sn h' = seg_sn h"
    using assms(2) none by (auto simp: nr_rlc_new_sdu_def Let_def seg_sn_def fun_eq_iff)
  obtain s where s: "h_sdus h' (seg_sdu seg) = Some s"
    using assms(2) by (auto simp: nr_rlc_new_sdu_def Let_def)
  then obtain t where "stamp_arrival c clk seg h' = store h' seg (s\<lparr>sdu_time_of_arrival := t\<rparr>)"
    using stamp_arrival_store by blast
  then show "seg_sn (stamp_arrival c clk seg h') = seg_sn h"
    using seg_sn_store [OF s] sn by simp
  show "seg_fresh h' seg"
    using assms(2) by (auto simp: nr_rlc_new_sdu_def Let_def seg_fresh_def seg_sn_def)
  show "seg_sdu seg \<notin> seg_sdu ` set l"
    using assms(1) none seg heap_live [OF assms(1)] by (metis image_iff option.simps(3))
  show "h_sdus h' a = (if a = seg_sdu seg then h_sdus h' a else h_sdus h a)"
    using assms(2) by (auto simp: nr_rlc_new_sdu_def Let_def)
qed

text \<open>A segment whose SDU has no sequence number is disjoint from every other one.\<close>

lemma all_disj_fresh:
  assumes "all_disj h l" and "seg_sn h seg = - 1" shows "all_disj h (seg # l)"
  using assms by (auto simp: all_disj_Cons seg_disj_def)

lemma tx_shape_snoc:
  assumes "tx_shape e l" and "seg_fresh (am_heap e) seg" and "seg_sdu seg \<notin> seg_sdu ` set l"
  shows "tx_shape e (l @ [seg])"
  using assms by (cases l) (auto simp: tx_shape_def)

lemma am_recv_sdu_ok:
  assumes inv: "am_tx_inv lk e" and size: "int (length buf) \<le> NR_SDU_MAX"
  shows "\<exists>e'. nr_rlc_entity_am_recv_sdu clk e buf i = Inr e' \<and> am_tx_inv lk e' \<and> am_rx_view e' = am_rx_view e \<and>
     (if am_tx_size e + int (length buf) > am_tx_maxsize e
      then am_tx_view e' = am_tx_view e
      else am_tx_size e' = am_tx_size e + int (length buf) \<and>
        (\<exists>seg s. am_tx_list e' = am_tx_list e @ [seg] \<and> seg_size seg = int (length buf) \<and>
           h_sdus (am_heap e') (seg_sdu seg) = Some s \<and> sdu_data s = buf \<and> sdu_upper_layer_id s = i))"
proof -
  note D = am_tx_okD [OF inv [unfolded am_tx_inv_def]]
  define e1 where "e1 = am_log_rejected (e\<lparr>am_common := upd_stats stat_rxsdu_pkt (am_common e)\<rparr>)"
  have f: "am_tx_view e1 = am_tx_view e" "am_rx_view e1 = am_rx_view e"
    "am_tx_size e1 = am_tx_size e" "am_tx_maxsize e1 = am_tx_maxsize e" "c_bstatus (am_common e1) = c_bstatus (am_common e)"
    by (simp_all add: e1_def am_log_rejected_def am_tx_view_def am_rx_view_def)
  have run: "nr_rlc_entity_am_recv_sdu clk e buf i =
     (if am_tx_size e + int (length buf) > am_tx_maxsize e
      then Inr (e1\<lparr>am_sdu_rejected := am_sdu_rejected e1 + 1,
                   am_common := upd_stats (stat_txpdu_dd (int (length buf))) (am_common e1)\<rparr>)
      else
        let e2 = e1\<lparr>am_tx_size := am_tx_size e1 + int (length buf),
                    am_common := upd_stats (stat_rxsdu_bytes (int (length buf))) (am_common e1)\<rparr>;
            (sdu, h) = nr_rlc_new_sdu (am_heap e2) buf i
        in bindr (nr_rlc_sdu_segment_list_append (am_tx_list e2, am_tx_end e2) sdu)
             (\<lambda>(l, en). Inr (e2\<lparr>am_tx_list := l, am_tx_end := en,
                am_common := add_tx_size (am_compute_pdu_header_size e2 sdu + seg_size sdu) (am_common e2),
                am_heap := stamp_arrival (am_common e2) clk sdu h\<rparr>)))"
    using size f(3,4) unfolding nr_rlc_entity_am_recv_sdu_def Let_def e1_def by (simp add: not_le)
  show ?thesis
  proof (cases "am_tx_size e + int (length buf) > am_tx_maxsize e")
    case True
    let ?e = "e1\<lparr>am_sdu_rejected := am_sdu_rejected e1 + 1,
       am_common := upd_stats (stat_txpdu_dd (int (length buf))) (am_common e1)\<rparr>"
    have "am_tx_ok lk ?e [] = am_tx_ok lk e []"
      by (rule am_tx_ok_cong) (use f in \<open>simp_all add: am_tx_view_def\<close>)
    moreover have "am_tx_view ?e = am_tx_view e" "am_rx_view ?e = am_rx_view e"
      using f by (simp_all add: am_tx_view_def am_rx_view_def)
    ultimately show ?thesis using run True inv by (simp add: am_tx_inv_def)
  next
    case False
    define e2 where "e2 = e1\<lparr>am_tx_size := am_tx_size e1 + int (length buf),
       am_common := upd_stats (stat_rxsdu_bytes (int (length buf))) (am_common e1)\<rparr>"
    have ok2: "am_tx_ok lk e2 []"
      using inv unfolding am_tx_inv_def
      by (subst am_tx_ok_cong [of _ e]) (use f in \<open>simp_all add: e2_def am_tx_view_def\<close>)
    note D2 = am_tx_okD [OF ok2]
    obtain seg h where new: "nr_rlc_new_sdu (am_heap e2) buf i = (seg, h)" by fastforce
    note N = seg_sn_new_sdu [OF D2(4) new]
    note H = heap_ok_new_sdu [OF D2(4) new]
    define h' where "h' = stamp_arrival (am_common e2) clk seg h"
    obtain s where s: "h_sdus h (seg_sdu seg) = Some s" "sdu_data s = buf" "sdu_upper_layer_id s = i"
      "sdu_size s = int (length buf)"
      using new by (auto simp: nr_rlc_new_sdu_def Let_def)
    obtain t where t: "h' = store h seg (s\<lparr>sdu_time_of_arrival := t\<rparr>)"
      using stamp_arrival_store [OF s(1)] unfolding h'_def by blast
    have addr: "seg_addr seg \<notin> seg_addr ` set (am_tx_list e2)" using H(1) by (auto simp: heap_leak_def)
    have app: "nr_rlc_sdu_segment_list_append (am_tx_list e2, am_tx_end e2) seg =
        Inr (am_tx_list e2 @ [seg], Some (seg_addr seg))"
      by (rule list_append_ok [OF D2(5)]) (use H(1) in \<open>auto simp: heap_leak_def\<close>)
    define e' where "e' = e2\<lparr>am_tx_list := am_tx_list e2 @ [seg], am_tx_end := Some (seg_addr seg),
       am_common := add_tx_size (am_seg_cost e2 seg) (am_common e2), am_heap := h'\<rparr>"
    have r: "nr_rlc_entity_am_recv_sdu clk e buf i = Inr e'"
      unfolding run using False new app
      by (simp add: e2_def [symmetric] e'_def am_seg_cost_def h'_def)
    let ?k = "(am_tx_list e2 @ [seg]) @ am_wait_list e2 @ am_retransmit_list e2"
    have m: "mset (seg # am_tx_list e2 @ am_wait_list e2 @ am_retransmit_list e2) = mset ?k" by simp
    have "heap_leak lk h' (seg # am_tx_list e2 @ am_wait_list e2 @ am_retransmit_list e2)"
      unfolding h'_def using heap_ok_stamp_arrival [OF H(1)] by simp
    then have "heap_leak lk h' ?k" by (rule heap_ok_perm [OF _ m])
    moreover have snh: "seg_sn h' = seg_sn (am_heap e2)" unfolding h'_def by (rule N(2))
    have fr: "seg_fresh (am_heap e2) seg" using N(1,3) by (simp add: seg_fresh_def)
    then have "all_disj (am_heap e2) (seg # am_tx_list e2 @ am_wait_list e2 @ am_retransmit_list e2)"
      using D2(12) by (intro all_disj_fresh) (simp_all add: seg_fresh_def)
    then have "all_disj (am_heap e2) ?k" by (rule all_disj_subset) auto
    then have "all_disj h' ?k" by (simp add: all_disj_def seg_disj_def snh)
    moreover have "tx_shape e2 (am_tx_list e2 @ [seg])"
      by (rule tx_shape_snoc [OF D2(9) fr]) (use N(4) in auto)
    moreover have "sdu_size x \<le> NR_SDU_MAX" if "h_sdus h' a = Some x" for a x
      using that t s size D2(7) N(5) [of a] by (auto split: if_splits)
    ultimately have "am_tx_ok lk e' []"
      using snh D2(8,11,13,14) by (intro am_tx_okI [OF ok2]) (simp_all add: e'_def)
    moreover have "am_rx_view e' = am_rx_view e" "am_tx_size e' = am_tx_size e + int (length buf)"
      "am_tx_list e' = am_tx_list e @ [seg]"
      using f by (simp_all add: e'_def e2_def am_rx_view_def am_tx_view_def)
    moreover have "\<exists>s. h_sdus (am_heap e') (seg_sdu seg) = Some s \<and> sdu_data s = buf \<and> sdu_upper_layer_id s = i"
      using t s by (simp add: e'_def)
    ultimately show ?thesis using r False H(2) by (auto simp: am_tx_inv_def)
  qed
qed

section \<open>Discarded SDUs\<close>

lemma free_segment_facts:
  assumes "nr_rlc_free_sdu_segment h seg = Inr (fr, h')"
  shows "seg_sn h seg = - 1 \<Longrightarrow> seg_sn h' = seg_sn h"
    and "h_sdus h' a = Some s \<Longrightarrow> \<exists>s0. h_sdus h a = Some s0 \<and> sdu_size s0 = sdu_size s"
proof -
  obtain d where d: "h_sdus h (seg_sdu seg) = Some d"
    using assms by (auto simp: nr_rlc_free_sdu_segment_def deref_def split: option.splits)
  have h': "h' = (if sdu_free_count d + 1 = sdu_ref_count d then h\<lparr>h_sdus := (h_sdus h)(seg_sdu seg := None)\<rparr>
      else store h seg (d\<lparr>sdu_free_count := sdu_free_count d + 1\<rparr>))"
    using assms d by (auto simp: nr_rlc_free_sdu_segment_def deref_def Let_def split: if_splits)
  show "seg_sn h seg = - 1 \<Longrightarrow> seg_sn h' = seg_sn h"
    using d by (auto simp: h' seg_sn_def fun_eq_iff)
  show "h_sdus h' a = Some s \<Longrightarrow> \<exists>s0. h_sdus h a = Some s0 \<and> sdu_size s0 = sdu_size s"
    using d by (auto simp: h' split: if_splits)
qed

lemma tx_shape_remove:
  assumes "tx_shape e (before @ cur # after)" and "seg_fresh (am_heap e) cur"
  shows "tx_shape e (before @ after)"
  using assms by (cases before; cases after) (auto simp: tx_shape_def)

lemma tx_shape_whole:
  "tx_shape e l \<Longrightarrow> x \<in> set l \<Longrightarrow> seg_is_first x \<Longrightarrow> seg_fresh (am_heap e) x"
  by (cases l) (auto simp: tx_shape_def)

lemma am_discard_ok:
  assumes inv: "am_tx_inv lk e"
  shows "\<exists>e'. nr_rlc_entity_am_discard_sdu e i = Inr e' \<and> am_tx_inv lk e' \<and> am_rx_view e' = am_rx_view e \<and>
     (e' = e \<or> (\<exists>before cur after s. am_tx_list e = before @ cur # after \<and> am_tx_list e' = before @ after \<and>
        seg_fresh (am_heap e) cur \<and> h_sdus (am_heap e) (seg_sdu cur) = Some s \<and> sdu_upper_layer_id s = i \<and>
        am_tx_size e' = am_tx_size e - sdu_size s))"
proof -
  note ok = inv [unfolded am_tx_inv_def]
  note D = am_tx_okD [OF ok]
  have "\<forall>seg \<in> set (am_tx_list e). \<exists>s. deref (am_heap e) seg = Inr s"
    using heap_live [OF D(4)] by (force simp: deref_def)
  from find_upper_layer_id_ok [OF this, of i] obtain before rest where fnd: "find_upper_layer_id (am_heap e) i (am_tx_list e) = Inr (before, rest)"
    "am_tx_list e = before @ rest"
    "rest \<noteq> [] \<longrightarrow> (\<exists>s. deref (am_heap e) (hd rest) = Inr s \<and> sdu_upper_layer_id s = i)"
    by blast
  show ?thesis
  proof (cases "case rest of [] \<Rightarrow> True | cur # _ \<Rightarrow> \<not> seg_is_first cur \<or> \<not> seg_is_last cur")
    case True
    then have "nr_rlc_entity_am_discard_sdu e i = Inr e"
      using fnd by (auto simp: nr_rlc_entity_am_discard_sdu_def split: list.splits)
    with inv show ?thesis by blast
  next
    case False
    then obtain cur after where r: "rest = cur # after" "seg_is_first cur" "seg_is_last cur"
      by (auto split: list.splits)
    obtain s where s: "deref (am_heap e) cur = Inr s" "sdu_upper_layer_id s = i" using fnd(3) r(1) by auto
    then have hs: "h_sdus (am_heap e) (seg_sdu cur) = Some s" by (auto simp: deref_def split: option.splits)
    have l: "am_tx_list e = before @ cur # after" using fnd(2) r(1) by simp
    have fr: "seg_fresh (am_heap e) cur" by (rule tx_shape_whole [OF D(9)]) (simp_all add: l r)
    let ?k = "before @ after @ am_wait_list e @ am_retransmit_list e"
    have m: "mset ([] @ am_tx_list e @ am_wait_list e @ am_retransmit_list e) = mset (cur # ?k)" by (simp add: l)
    obtain fl h where h: "nr_rlc_free_sdu_segment (am_heap e) cur = Inr (fl, h)" "heap_leak lk h ?k"
      using heap_ok_free [OF heap_ok_perm [OF D(4) m]] by blast
    have sn: "seg_sn h = seg_sn (am_heap e)" using free_segment_facts(1) [OF h(1)] fr by (simp add: seg_fresh_def)
    define e' where "e' = e\<lparr>am_tx_list := before @ after,
        am_tx_end := (if am_tx_end e = Some (seg_addr cur)
                      then if before \<noteq> [] then Some (seg_addr (last before)) else None
                      else am_tx_end e),
        am_common := add_tx_size (- am_seg_cost e cur) (am_common e),
        am_tx_size := am_tx_size e - sdu_size s, am_heap := h\<rparr>"
    have run: "nr_rlc_entity_am_discard_sdu e i = Inr e'"
      using fnd r s h(1) by (simp add: nr_rlc_entity_am_discard_sdu_def e'_def am_seg_cost_def)
    have "distinct (map seg_addr (am_tx_list e))" using D(4) by (simp add: heap_leak_def)
    then have "distinct (map seg_addr (before @ cur # after))" by (simp only: l)
    then have en: "end_ok (before @ after) (am_tx_end e')"
      using end_ok_remove D(5) by (simp add: e'_def l)
    have "all_disj (am_heap e) ?k" by (rule all_disj_subset [OF D(12)]) (auto simp: l)
    then have dj: "all_disj h ?k" by (simp add: all_disj_def seg_disj_def sn)
    have sz: "\<forall>a s. h_sdus h a = Some s \<longrightarrow> sdu_size s \<le> NR_SDU_MAX"
      using free_segment_facts(2) [OF h(1)] D(7) by metis
    have sh: "tx_shape e (before @ after)" using tx_shape_remove [OF _ fr] D(9) l by simp
    have "am_tx_ok lk e' []"
      by (rule am_tx_okI [OF ok]) (use sn h(2) dj en sz sh D(8,11,13,14) in \<open>simp_all add: e'_def l\<close>)
    moreover have "am_rx_view e' = am_rx_view e" "am_tx_list e' = before @ after"
      "am_tx_size e' = am_tx_size e - sdu_size s"
      by (simp_all add: e'_def am_rx_view_def)
    ultimately show ?thesis using run l fr hs s(2) unfolding am_tx_inv_def by blast
  qed
qed

section \<open>Re-establishment and deletion\<close>

lemma free_list_sizes:
  assumes "nr_rlc_free_sdu_segment_list h l = Inr h'" and "h_sdus h' a = Some s"
  shows "\<exists>s0. h_sdus h a = Some s0 \<and> sdu_size s0 = sdu_size s"
  using assms
proof (induction l arbitrary: h)
  case (Cons x l)
  then obtain fr h1 where h1: "nr_rlc_free_sdu_segment h x = Inr (fr, h1)" "nr_rlc_free_sdu_segment_list h1 l = Inr h'"
    by (auto elim!: bindr_InrE)
  with Cons.IH [OF h1(2) Cons.prems(2)] free_segment_facts(2) [OF h1(1)] show ?case by metis
qed simp

lemma am_clear_ok:
  assumes inv: "am_tx_inv lk e" and rx: "rm_size (am_rx e) = am_window_size e"
  shows "\<exists>e'. am_clear_entity e = Inr e' \<and> am_tx_inv lk e' \<and> am_rx_inv e' \<and> heap_leak lk (am_heap e') [] \<and>
     am_tx_list e' = [] \<and> am_wait_list e' = [] \<and> am_retransmit_list e' = [] \<and> am_tx_size e' = 0 \<and> am_rx_size e' = 0"
proof -
  note D = am_tx_okD [OF inv [unfolded am_tx_inv_def]]
  obtain h1 where h1: "nr_rlc_free_sdu_segment_list (am_heap e) (am_tx_list e) = Inr h1"
    "heap_leak lk h1 (am_wait_list e @ am_retransmit_list e)"
    using heap_ok_free_list [of lk "am_heap e" "am_tx_list e"] D(4) by auto
  obtain h2 where h2: "nr_rlc_free_sdu_segment_list h1 (am_wait_list e) = Inr h2"
    "heap_leak lk h2 (am_retransmit_list e)"
    using heap_ok_free_list [OF h1(2)] by auto
  obtain h where h: "nr_rlc_free_sdu_segment_list h2 (am_retransmit_list e) = Inr h" "heap_leak lk h []"
    using heap_ok_free_list [of lk h2 "am_retransmit_list e" "[]"] h2(2) by auto
  have small: "\<forall>a s. h_sdus h a = Some s \<longrightarrow> sdu_size s \<le> NR_SDU_MAX"
    using free_list_sizes [OF h(1)] free_list_sizes [OF h2(1)] free_list_sizes [OF h1(1)] D(7) by metis
  define e' where "e' = e\<lparr>am_rx_next := 0, am_rx_next_status_trigger := 0, am_rx_highest_status := 0,
              am_rx_next_highest := 0, am_status_triggered := False, am_tx_next := 0,
              am_tx_next_ack := 0, am_poll_sn := 0, am_pdu_without_poll := 0,
              am_byte_without_poll := 0, am_force_poll := False, am_t_current := 0,
              am_t_log_buffer_full := 0, am_sdu_rejected := 0,
              am_t_poll_retransmit_start := 0, am_t_reassembly_start := 0,
              am_t_status_prohibit_start := 0, am_rx := nr_rlc_clear_rx_manager (am_rx e),
              am_rx_size := 0, am_tx_list := [], am_tx_end := None, am_tx_size := 0,
              am_wait_list := [], am_wait_end := None, am_retransmit_list := [],
              am_common := (am_common e)\<lparr>c_bstatus :=
                 (c_bstatus (am_common e))\<lparr>bs_tx_size := 0, bs_retx_size := 0\<rparr>\<rparr>,
              am_heap := h\<rparr>"
  have run: "am_clear_entity e = Inr e'"
    using h1(1) h2(1) h(1) by (simp add: am_clear_entity_def e'_def)
  have cfg: "am_cfg e'" using D(1) unfolding am_tx_cfg_def am_cfg_def e'_def by simp
  have pos: "0 < am_sn_modulus e'" "0 \<le> am_window_size e'" using am_cfg_pos [OF cfg] by auto
  have "am_rx_inv e'"
    by (rule am_rx_inv_empty(1) [OF cfg]) (simp_all add: e'_def clear_rx_manager_eq rx)
  moreover have f: "am_tx_list e' = []" "am_wait_list e' = []" "am_retransmit_list e' = []" "am_tx_size e' = 0"
    "am_rx_size e' = 0" "am_heap e' = h" "am_tx_next e' = 0" "am_tx_next_ack e' = 0" "am_tx_end e' = None"
    "am_wait_end e' = None" "bs_tx_size (c_bstatus (am_common e')) = 0" "bs_retx_size (c_bstatus (am_common e')) = 0"
    by (simp_all add: e'_def)
  moreover have "am_tx_cfg e'" "sn_valid (am_sn_modulus e') 0" "am_flight e' = 0"
    using cfg pos f by (simp_all add: am_tx_cfg_def sn_valid_def am_flight_def am_modulus_tx_def)
  then have "am_tx_inv lk e'"
    unfolding am_tx_inv_def am_tx_ok_def f using small h(2) pos by (simp add: tx_shape_def all_disj_def)
  ultimately show ?thesis using run h(2) by blast
qed

section \<open>The poll retransmission timer\<close>

text \<open>The invariant after a step that moves segments between the lists.\<close>

lemma am_tx_ok_move:
  assumes ok: "am_tx_ok lk e []" and e': "e' = e\<lparr>am_wait_list := w, am_wait_end := we, am_common := c, am_retransmit_list := r\<rparr>"
    and m: "mset w + mset r = mset (am_wait_list e) + mset (am_retransmit_list e)"
    and "end_ok w we" and "am_sorted e w" and "am_sorted e r"
    and "bs_tx_size (c_bstatus c) = bs_tx_size (c_bstatus (am_common e))"
    and "bs_retx_size (c_bstatus c) = sum_list (map (am_seg_cost e) r)"
  shows "am_tx_ok lk e' []"
proof -
  note D = am_tx_okD [OF ok]
  have "mset ([] @ am_tx_list e' @ am_wait_list e' @ am_retransmit_list e') =
      mset ([] @ am_tx_list e @ am_wait_list e @ am_retransmit_list e)"
    using m by (simp add: e')
  note p = am_tx_ok_perm [OF ok _ _ _ _ _ _ this]
  have f: "am_heap e' = am_heap e" "am_tx_list e' = am_tx_list e" "am_tx_end e' = am_tx_end e" "am_wait_list e' = w"
    "am_wait_end e' = we" "am_retransmit_list e' = r" "am_common e' = c"
    by (simp_all add: e')
  have k: "am_modulus_tx e' = am_modulus_tx e" "am_seg_cost e' = am_seg_cost e" "seg_sent e' = seg_sent e"
    "am_flight e' = am_flight e"
    by (rule p(7-10); simp add: e')+
  have "set (w @ r) = set (am_wait_list e @ am_retransmit_list e)" using m by (intro mset_eq_setD) simp
  then have sent: "\<forall>x \<in> set ([] @ w @ r). seg_sent e x" using D(8) by simp
  have shape: "tx_shape e' (am_tx_list e)" using D(9) unfolding tx_shape_def k f .
  have c: "am_tx_cfg e'" "sn_valid (am_sn_modulus e') (am_tx_next e')" "am_flight e' \<le> am_window_size e'"
    "heap_leak lk (am_heap e') ([] @ am_tx_list e' @ am_wait_list e' @ am_retransmit_list e')"
    "\<forall>a s. h_sdus (am_heap e') a = Some s \<longrightarrow> sdu_size s \<le> NR_SDU_MAX"
    "all_disj (am_heap e') ([] @ am_tx_list e' @ am_wait_list e' @ am_retransmit_list e')"
    by (rule p(1-6); simp add: e')+
  show ?thesis
    unfolding am_tx_ok_def
    by (intro conjI c) (use D(5,13) assms(4-8) sent shape in \<open>simp_all only: f k\<close>)
qed

text \<open>One segment goes from the head of the wait list to its place in the retransmit list.\<close>

lemma retransmit_move_ok:
  assumes inv: "am_tx_inv lk e" and w: "am_wait_list e = cur # rest"
    and e1: "e1 = e\<lparr>am_wait_list := rest, am_wait_end := (if rest = [] then None else am_wait_end e),
       am_common := add_retx_size (am_seg_cost e cur) (am_common e)\<rparr>"
  obtains r where "nr_rlc_tx_sdu_segment_list_add e1 (am_retransmit_list e1) cur = Inr r"
    "am_tx_inv lk (e1\<lparr>am_retransmit_list := r\<rparr>)" "mset r = mset (cur # am_retransmit_list e)"
proof -
  note ok = inv [unfolded am_tx_inv_def]
  note D = am_tx_okD [OF ok]
  define P where "P x \<longleftrightarrow> am_sn_compare_tx e (seg_sn (am_heap e) x) (seg_sn (am_heap e) cur) > 0 \<or>
     (seg_sn (am_heap e) x = seg_sn (am_heap e) cur \<and> seg_so x > seg_so cur)" for x
  let ?r = "insert_before P cur (am_retransmit_list e)"
  have cmp: "am_sn_compare_tx e1 = am_sn_compare_tx e"
    using am_tx_key_cong [of e1 e] by (simp add: am_sn_compare_tx_def fun_eq_iff e1)
  have live: "\<forall>x \<in> set (cur # am_retransmit_list e). \<exists>d. h_sdus (am_heap e) (seg_sdu x) = Some d"
    using heap_live [OF D(4)] w by simp
  have h1: "am_heap e1 = am_heap e" "am_retransmit_list e1 = am_retransmit_list e" by (simp_all add: e1)
  have add: "nr_rlc_tx_sdu_segment_list_add e1 (am_retransmit_list e1) cur = Inr ?r"
    using tx_segment_list_add_conv [of cur "am_retransmit_list e" e1] live unfolding P_def cmp h1 .
  have m: "mset (insert_before P cur l) = mset (cur # l)" for l by (induction l) auto
  have v: "sn_valid (am_sn_modulus e) (seg_sn (am_heap e) x)" if "x \<in> set (cur # am_retransmit_list e)" for x
    using D(8) w that by (auto simp: seg_sent_def)
  have srt: "am_sorted e ?r"
    unfolding P_def by (rule am_tx_order.insert_sorted [OF D(1,11)]) (use v in auto)
  have "sum_list (map (am_seg_cost e) ?r) = am_seg_cost e cur + sum_list (map (am_seg_cost e) (am_retransmit_list e))"
    using m [of "am_retransmit_list e"] by (metis list.simps(9) mset_map sum_list.Cons sum_mset_sum_list)
  then have "am_tx_ok lk (e1\<lparr>am_retransmit_list := ?r\<rparr>) []"
    using D(6,10,14) w m [of "am_retransmit_list e"] srt
    by (intro am_tx_ok_move [OF ok, where w = rest and r = ?r and we = "if rest = [] then None else am_wait_end e"
          and c = "add_retx_size (am_seg_cost e cur) (am_common e)"]) (auto simp: e1 end_ok_def)
  then show thesis using that [OF add] m by (simp add: am_tx_inv_def)
qed

lemma retransmit_loop_ok:
  assumes "am_tx_inv lk e" and "am_wait_list e = cur # rest"
  shows "\<exists>w we r c. retransmit_loop e sn cur rest =
       Inr (e\<lparr>am_wait_list := w, am_wait_end := we, am_common := c, am_retransmit_list := r\<rparr>) \<and>
     am_tx_inv lk (e\<lparr>am_wait_list := w, am_wait_end := we, am_common := c, am_retransmit_list := r\<rparr>) \<and>
     mset w + mset r = mset (am_wait_list e) + mset (am_retransmit_list e) \<and> cur \<in> set r \<and>
     set (am_retransmit_list e) \<subseteq> set r \<and> c_upcalls c = c_upcalls (am_common e)"
  using assms
proof (induction rest arbitrary: e cur)
  case (Nil e cur)
  define e1 where "e1 = e\<lparr>am_wait_list := [], am_wait_end := None, am_common := add_retx_size (am_seg_cost e cur) (am_common e)\<rparr>"
  obtain r where r: "nr_rlc_tx_sdu_segment_list_add e1 (am_retransmit_list e1) cur = Inr r"
    "am_tx_inv lk (e1\<lparr>am_retransmit_list := r\<rparr>)" "mset r = mset (cur # am_retransmit_list e)"
    by (rule retransmit_move_ok [OF Nil, of e1]) (simp_all add: e1_def)
  have "retransmit_loop e sn cur [] = Inr (e1\<lparr>am_retransmit_list := r\<rparr>)"
    using r(1) by (simp add: retransmit_loop.simps e1_def am_seg_cost_def)
  moreover have "set r = set (cur # am_retransmit_list e)" using r(3) by (rule mset_eq_setD)
  ultimately show ?case
    using r(2,3) Nil(2) by (rule_tac x = "[]" in exI, rule_tac x = None in exI, rule_tac x = r in exI,
        rule_tac x = "add_retx_size (am_seg_cost e cur) (am_common e)" in exI) (auto simp: e1_def)
next
  case (Cons x rest e cur)
  define e1 where "e1 = e\<lparr>am_wait_list := x # rest, am_wait_end := am_wait_end e,
     am_common := add_retx_size (am_seg_cost e cur) (am_common e)\<rparr>"
  obtain r where r: "nr_rlc_tx_sdu_segment_list_add e1 (am_retransmit_list e1) cur = Inr r"
    "am_tx_inv lk (e1\<lparr>am_retransmit_list := r\<rparr>)" "mset r = mset (cur # am_retransmit_list e)"
    by (rule retransmit_move_ok [OF Cons(2,3), of e1]) (simp_all add: e1_def)
  define e2 where "e2 = e1\<lparr>am_retransmit_list := r\<rparr>"
  have setr: "set r = set (cur # am_retransmit_list e)" using r(3) by (rule mset_eq_setD)
  have w2: "am_wait_list e2 = x # rest" by (simp add: e2_def e1_def)
  obtain s where s: "deref (am_heap e2) x = Inr s"
    using heap_ok_deref [OF am_tx_okD(4) [OF r(2) [unfolded am_tx_inv_def]], of x] w2 by (auto simp: e2_def)
  have run: "retransmit_loop e sn cur (x # rest) =
      (if sdu_sn s = sn then retransmit_loop e2 sn x rest else Inr e2)"
    using r(1) s unfolding retransmit_loop.simps [of e sn cur] e1_def e2_def by (simp add: am_seg_cost_def)
  have upd: "e2\<lparr>am_wait_list := w, am_wait_end := we, am_common := c, am_retransmit_list := r'\<rparr> =
      e\<lparr>am_wait_list := w, am_wait_end := we, am_common := c, am_retransmit_list := r'\<rparr>" for w we r' c
    by (simp add: e2_def e1_def)
  show ?case
  proof (cases "sdu_sn s = sn")
    case True
    obtain w we r' c where L: "retransmit_loop e2 sn x rest =
         Inr (e\<lparr>am_wait_list := w, am_wait_end := we, am_common := c, am_retransmit_list := r'\<rparr>)"
       "am_tx_inv lk (e\<lparr>am_wait_list := w, am_wait_end := we, am_common := c, am_retransmit_list := r'\<rparr>)"
       "mset w + mset r' = mset (am_wait_list e2) + mset (am_retransmit_list e2)"
       "set (am_retransmit_list e2) \<subseteq> set r'" "c_upcalls c = c_upcalls (am_common e2)"
      using Cons.IH [OF r(2) [folded e2_def] w2] unfolding upd by blast
    have "mset w + mset r' = mset (am_wait_list e) + mset (am_retransmit_list e)"
      using L(3) r(3) Cons(3) w2 by (simp add: e2_def)
    moreover have "cur \<in> set r'" "set (am_retransmit_list e) \<subseteq> set r'" "c_upcalls c = c_upcalls (am_common e)"
      using L(4,5) setr by (auto simp: e2_def e1_def)
    ultimately show ?thesis using run True L(1,2) by (metis (no_types, lifting))
  next
    case False
    then show ?thesis
      using run r(2,3) Cons(3) setr
      by (rule_tac x = "x # rest" in exI, rule_tac x = "am_wait_end e" in exI, rule_tac x = r in exI,
        rule_tac x = "add_retx_size (am_seg_cost e cur) (am_common e)" in exI) (auto simp: e2_def e1_def)
  qed
qed

text \<open>The only fault: the timer runs out, a poll is due, and no segment waits for an acknowledgement.\<close>

definition poll_fault :: "nr_rlc_entity_am \<Rightarrow> bool" where
  "poll_fault e \<longleftrightarrow> am_t_poll_retransmit_start e \<noteq> 0 \<and>
     am_t_current e > am_t_poll_retransmit_start e + word_of_int (am_t_poll_retransmit e) \<and>
     check_poll_after_pdu_assembly e \<and> am_wait_list e = []"

lemma check_poll_cong:
  "check_poll_after_pdu_assembly (e\<lparr>am_t_poll_retransmit_start := t, am_force_poll := b\<rparr>) =
     check_poll_after_pdu_assembly e"
  using am_tx_key_cong [of "e\<lparr>am_t_poll_retransmit_start := t, am_force_poll := b\<rparr>" e]
  by (simp add: check_poll_after_pdu_assembly_def is_window_stalling_def am_sn_compare_tx_def)

lemma check_t_poll_retransmit_ok:
  assumes inv: "am_tx_inv lk e" and nf: "\<not> poll_fault e"
  shows "\<exists>e'. check_t_poll_retransmit e = Inr e' \<and> am_tx_inv lk e' \<and> am_rx_view e' = am_rx_view e \<and>
     am_t_current e' = am_t_current e \<and> am_t_reassembly e' = am_t_reassembly e"
proof (cases "am_t_poll_retransmit_start e = 0 \<or>
    am_t_current e \<le> am_t_poll_retransmit_start e + word_of_int (am_t_poll_retransmit e)")
  case True
  then show ?thesis using inv by (auto simp: check_t_poll_retransmit_def)
next
  case run_out: False
  define e1 where "e1 = e\<lparr>am_t_poll_retransmit_start := 0, am_force_poll := True\<rparr>"
  have ok1: "am_tx_ok lk e1 []"
    using inv unfolding am_tx_inv_def by (subst am_tx_ok_cong [of _ e]) (simp_all add: e1_def)
  have f1: "am_rx_view e1 = am_rx_view e" "am_t_current e1 = am_t_current e" "am_t_reassembly e1 = am_t_reassembly e"
    "check_poll_after_pdu_assembly e1 = check_poll_after_pdu_assembly e" "am_wait_list e1 = am_wait_list e"
    using check_poll_cong by (simp_all add: e1_def am_rx_view_def)
  show ?thesis
  proof (cases "check_poll_after_pdu_assembly e")
    case False
    then have "check_t_poll_retransmit e = Inr e1"
      using run_out f1(4) by (simp add: check_t_poll_retransmit_def Let_def e1_def)
    then show ?thesis using ok1 f1 by (simp add: am_tx_inv_def)
  next
    case poll: True
    then obtain cur rest where w: "am_wait_list e1 = cur # rest"
      using nf run_out f1(5) by (cases "am_wait_list e") (auto simp: poll_fault_def not_le)
    note D = am_tx_okD [OF ok1]
    obtain s where s: "deref (am_heap e1) cur = Inr s" "h_sdus (am_heap e1) (seg_sdu cur) = Some s"
      by (rule heap_ok_deref [OF D(4), of cur]) (auto simp: w)
    define s' where "s' = s\<lparr>sdu_retx_count := sdu_retx_count s + 1\<rparr>"
    define e2 where "e2 = e1\<lparr>am_heap := store (am_heap e1) cur s'\<rparr>"
    have ss: "sdu_sn s' = sdu_sn s" "sdu_retx_count s' = sdu_retx_count s + 1" by (simp_all add: s'_def)
    have sn: "seg_sn (store (am_heap e1) cur s') = seg_sn (am_heap e1)"
      by (rule seg_sn_store [OF s(2)]) (simp add: s'_def)
    have "all_disj (store (am_heap e1) cur s') ([] @ am_tx_list e1 @ am_wait_list e1 @ am_retransmit_list e1)"
      using D(12) by (simp add: all_disj_def seg_disj_def sn)
    moreover have "heap_leak lk (store (am_heap e1) cur s') ([] @ am_tx_list e1 @ am_wait_list e1 @ am_retransmit_list e1)"
      by (rule heap_ok_store [OF D(4) s(2)]) (simp_all add: s'_def)
    moreover have "\<forall>a t. h_sdus (store (am_heap e1) cur s') a = Some t \<longrightarrow> sdu_size t \<le> NR_SDU_MAX"
      using D(7) s(2) by (auto simp: s'_def)
    ultimately have "am_tx_ok lk e2 []"
      using sn D(5,8,9,11,13,14) by (intro am_tx_okI [OF ok1]) (simp_all add: e2_def)
    then have inv2: "am_tx_inv lk e2" by (simp add: am_tx_inv_def)
    have w2: "am_wait_list e2 = cur # rest" by (simp add: e2_def w)
    obtain w we r c where L: "retransmit_loop e2 (sdu_sn s') cur rest =
         Inr (e2\<lparr>am_wait_list := w, am_wait_end := we, am_common := c, am_retransmit_list := r\<rparr>)"
       "am_tx_inv lk (e2\<lparr>am_wait_list := w, am_wait_end := we, am_common := c, am_retransmit_list := r\<rparr>)"
      using retransmit_loop_ok [OF inv2 w2, of "sdu_sn s'"] by blast
    define e3 where "e3 = e2\<lparr>am_wait_list := w, am_wait_end := we, am_common := c, am_retransmit_list := r\<rparr>"
    have res: "check_t_poll_retransmit e = Inr (if sdu_retx_count s' \<ge> am_max_retx_threshold e3
        then e3\<lparr>am_common := upcall Max_retx_reached (am_common e3)\<rparr> else e3)"
      using run_out poll f1(4) w s(1) L(1) [folded e3_def]
      unfolding check_t_poll_retransmit_def Let_def e1_def [symmetric] ss
      by (simp add: s'_def [symmetric] e2_def [symmetric])
    have "am_tx_ok lk (e3\<lparr>am_common := upcall Max_retx_reached (am_common e3)\<rparr>) [] = am_tx_ok lk e3 []"
      by (rule am_tx_ok_cong) simp_all
    then have "am_tx_inv lk (e3\<lparr>am_common := upcall Max_retx_reached (am_common e3)\<rparr>)" "am_tx_inv lk e3"
      using L(2) by (simp_all add: am_tx_inv_def e3_def)
    moreover have "am_rx_view e3 = am_rx_view e" "am_t_current e3 = am_t_current e" "am_t_reassembly e3 = am_t_reassembly e"
      using f1 by (simp_all add: e3_def e2_def am_rx_view_def)
    moreover have "am_rx_view (e3\<lparr>am_common := x\<rparr>) = am_rx_view e3" for x by (simp add: am_rx_view_def)
    ultimately show ?thesis using res by auto
  qed
qed

lemma am_tx_view_inv:
  assumes "am_tx_view e' = am_tx_view e" and "c_bstatus (am_common e') = c_bstatus (am_common e)"
  shows "am_tx_inv lk e' = am_tx_inv lk e"
  unfolding am_tx_inv_def by (rule am_tx_ok_cong) (use assms in \<open>simp_all add: am_tx_view_def\<close>)

lemma am_check_t_reassembly_common:
  "am_check_t_reassembly e = Inr e' \<Longrightarrow> am_common e' = am_common e"
  by (auto simp: am_check_t_reassembly_def Let_def split: if_splits)

section \<open>Properties\<close>

text \<open>
  C28: the clock of the acknowledged mode entity. \<open>set_time\<close> keeps the invariants of the transmitter and
  of the receiver, with both timers handled, except in one state, where it dereferences a null
  pointer: the poll retransmission timer runs out while a poll is due and the wait list is empty.
\<close>

theorem am_set_time_invariant:
  assumes tx: "am_tx_inv lk e" and rx: "am_rx_inv e"
  shows "if poll_fault (e\<lparr>am_t_current := now\<rparr>) then nr_rlc_entity_am_set_time e now = Inl Null_dereference
     else \<exists>e'. nr_rlc_entity_am_set_time e now = Inr e' \<and> am_tx_inv lk e' \<and> am_rx_inv e'"
proof -
  let ?e = "e\<lparr>am_t_current := now\<rparr>"
  have inv: "am_tx_inv lk ?e" using tx am_tx_view_inv [of ?e e] by (simp add: am_tx_view_def)
  have rx0: "am_rx_inv ?e" using rx am_rx_inv_view [of ?e e] by (simp add: am_rx_view_def)
  show ?thesis
  proof (cases "poll_fault ?e")
    case True
    then have "check_t_poll_retransmit ?e = Inl Null_dereference"
      using check_poll_cong [where e = ?e] by (simp add: poll_fault_def check_t_poll_retransmit_def Let_def not_le)
    with True show ?thesis by (simp add: nr_rlc_entity_am_set_time_def)
  next
    case False
    obtain e1 where e1: "check_t_poll_retransmit ?e = Inr e1" "am_tx_inv lk e1" "am_rx_view e1 = am_rx_view ?e"
      using check_t_poll_retransmit_ok [OF inv False] by blast
    have "am_rx_inv e1" using rx0 am_rx_inv_view [OF e1(3)] by simp
    then obtain e2 where e2: "am_check_t_reassembly e1 = Inr e2" "am_rx_inv e2" "am_tx_view e2 = am_tx_view e1"
      using am_check_t_reassembly_ok by blast
    have "am_tx_inv lk e2" using am_tx_view_inv [OF e2(3)] am_check_t_reassembly_common [OF e2(1)] e1(2) by simp
    with False e1(1) e2 show ?thesis by (simp add: nr_rlc_entity_am_set_time_def)
  qed
qed

lemma am_example:
  "\<exists>e. new_nr_rlc_entity_am 10000 10000 45 35 0 16 500 4 12 = Inr e \<and> am_tx_inv (\<lambda>_. 0) e \<and> am_rx_inv e \<and>
     am_tx_size e = 0 \<and> am_tx_maxsize e = 50000 \<and> am_t_poll_retransmit_start e = 0 \<and> \<not> am_status_triggered e \<and>
     am_retransmit_list e = [] \<and> am_tx_list e = []"
proof -
  obtain e where e: "new_nr_rlc_entity_am 10000 10000 45 35 0 16 500 4 12 = Inr e" using new_am_Inr by blast
  then have "am_tx_size e = 0 \<and> am_tx_maxsize e = 50000 \<and> am_t_poll_retransmit_start e = 0 \<and>
      \<not> am_status_triggered e \<and> am_retransmit_list e = [] \<and> am_tx_list e = []"
    by (auto simp: new_nr_rlc_entity_am_def)
  with e am_tx_inv_new [OF e] am_rx_inv_new(1) [OF e] show ?thesis by blast
qed

theorem am_set_time_invariant_witness:
  "\<exists>e e'. new_nr_rlc_entity_am 10000 10000 45 35 0 16 500 4 12 = Inr e \<and> nr_rlc_entity_am_set_time e 100 = Inr e' \<and>
     am_tx_inv (\<lambda>_. 0) e' \<and> am_rx_inv e'"
proof -
  obtain e where e: "new_nr_rlc_entity_am 10000 10000 45 35 0 16 500 4 12 = Inr e" "am_tx_inv (\<lambda>_. 0) e" "am_rx_inv e"
    "am_t_poll_retransmit_start e = 0"
    using am_example by blast
  have "\<not> poll_fault (e\<lparr>am_t_current := 100\<rparr>)" using e(4) by (simp add: poll_fault_def)
  with am_set_time_invariant [OF e(2,3), of 100] e(1) show ?thesis by auto
qed

text \<open>
  reception of SDUs by the acknowledged mode entity. An SDU larger than the limit fails the
  assertion. An SDU that does not fit the transmit buffer is dropped and the lists are unchanged. Any
  other one is appended to the transmit list with its data and its identifier, accounted in
  \<open>tx_size\<close>, and the invariant, with the buffer status equal to the cost of the queued segments, is
  kept.
\<close>

lemma am_recv_sdu_correct:
  assumes inv: "am_tx_inv lk e"
  shows "if int (length buf) > NR_SDU_MAX then nr_rlc_entity_am_recv_sdu clk e buf i = Inl Assert_failed
     else \<exists>e'. nr_rlc_entity_am_recv_sdu clk e buf i = Inr e' \<and> am_tx_inv lk e' \<and> am_rx_view e' = am_rx_view e \<and>
       (if am_tx_size e + int (length buf) > am_tx_maxsize e
        then am_tx_view e' = am_tx_view e
        else am_tx_size e' = am_tx_size e + int (length buf) \<and>
          (\<exists>seg s. am_tx_list e' = am_tx_list e @ [seg] \<and> seg_size seg = int (length buf) \<and>
             h_sdus (am_heap e') (seg_sdu seg) = Some s \<and> sdu_data s = buf \<and> sdu_upper_layer_id s = i))"
proof (cases "int (length buf) > NR_SDU_MAX")
  case True
  then show ?thesis by (simp add: nr_rlc_entity_am_recv_sdu_def Let_def)
next
  case False
  with am_recv_sdu_ok [OF inv, of buf clk i] show ?thesis by simp
qed

lemma am_recv_sdu_correct_example:
  "\<exists>e e' seg s. new_nr_rlc_entity_am 10000 10000 45 35 0 16 500 4 12 = Inr e \<and>
     nr_rlc_entity_am_recv_sdu 0 e [1, 2, 3] 7 = Inr e' \<and> am_tx_inv (\<lambda>_. 0) e' \<and> am_tx_list e' = [seg] \<and>
     h_sdus (am_heap e') (seg_sdu seg) = Some s \<and> sdu_data s = [1, 2, 3]"
proof -
  obtain e where e: "new_nr_rlc_entity_am 10000 10000 45 35 0 16 500 4 12 = Inr e" "am_tx_inv (\<lambda>_. 0) e"
    "am_tx_size e = 0" "am_tx_maxsize e = 50000" "am_tx_list e = []"
    using am_example by blast
  from am_recv_sdu_correct [OF e(2), of "[1, 2, 3]" 0 7] e show ?thesis by (auto simp: NR_SDU_MAX_def)
qed

text \<open>
  Deletion: every SDU of the store is freed, each one exactly once, also when segments of the transmit, the
  wait and the retransmit list share it.
\<close>

lemma am_delete_ok:
  assumes "am_tx_inv (\<lambda>_. 0) e" and "rm_size (am_rx e) = am_window_size e"
  shows "\<exists>h. nr_rlc_entity_am_delete e = Inr h \<and> (\<forall>a. h_sdus h a = None)"
proof -
  obtain e' where "am_clear_entity e = Inr e'" "heap_ok (am_heap e') []" using am_clear_ok [OF assms] by blast
  with heap_ok_Nil show ?thesis by (auto simp: nr_rlc_entity_am_delete_def)
qed

end
