(* ===== verification/Nr_Rlc_Am_Report.thy ===== *)
theory Nr_Rlc_Am_Report
  imports Nr_Rlc_Am_Life
begin

text \<open>
  Status reports of the acknowledged mode entity. The search for missing data ends, the STATUS PDU
  fits its buffer, and its size is the one that \<open>status_size\<close> announces to the scheduler.
\<close>

section \<open>Walking over the received PDUs\<close>

abbreviation am_hs :: "nr_rlc_entity_am \<Rightarrow> int" where
  "am_hs e \<equiv> am_modulus_rx e (am_rx_highest_status e)"

text \<open>
  The slot of the sequence number behind the window is the first slot of the window. The report
  reaches it only when the last slot of the window is in use.
\<close>

definition am_report_ok :: "nr_rlc_entity_am \<Rightarrow> bool" where
  "am_report_ok e \<longleftrightarrow> am_rx_core e \<and>
     (am_hs e = am_window_size e \<longrightarrow> am_get e (am_at e (am_window_size e - 1)) \<noteq> [])"

text \<open>A pointer to a received PDU: the rest of a slot of the report.\<close>

definition in_slot :: "nr_rlc_entity_am \<Rightarrow> pdus \<Rightarrow> bool" where
  "in_slot e l \<longleftrightarrow> (\<exists>i a. 0 \<le> i \<and> i < am_window_size e \<and> i \<le> am_hs e \<and> am_get e (am_at e i) = a @ l)"

lemma am_report_facts:
  assumes "am_report_ok e"
  shows "am_rx_core e" "am_rx_cfg e" "am_cfg e" "1 < am_window_size e"
    "am_window_size e < am_sn_modulus e" "0 \<le> am_hs e" "am_hs e \<le> am_window_size e"
    "am_rx_highest_status e = am_at e (am_hs e)" "sn_valid (am_sn_modulus e) (am_rx_highest_status e)"
proof -
  show c: "am_rx_core e" "am_rx_cfg e" "am_cfg e"
    using assms by (simp_all add: am_report_ok_def am_rx_core_def am_rx_cfg_def)
  show v: "sn_valid (am_sn_modulus e) (am_rx_highest_status e)" "am_hs e \<le> am_window_size e"
    using c(1) by (simp_all add: am_rx_core_def)
  show "1 < am_window_size e" "am_window_size e < am_sn_modulus e" using am_rx_cfg_pos [OF c(2)] by auto
  show "0 \<le> am_hs e" "am_rx_highest_status e = am_at e (am_hs e)"
    using am_key_nonneg [OF c(2) v(1)] am_at_key [OF c(2) v(1)] by auto
qed

lemma find_rx_pdu_ok:
  assumes ok: "am_report_ok e" and "0 \<le> i" "i \<le> am_hs e" "am_hs e - i < int fuel"
  shows "\<exists>j. i \<le> j \<and> j \<le> am_hs e \<and> find_rx_pdu fuel e (am_rx_highest_status e) (am_at e i) =
     Inr (am_get e (am_at e j)) \<and> (\<forall>k. i \<le> k \<and> k < j \<longrightarrow> am_get e (am_at e k) = [])"
  using assms(2-4)
proof (induction fuel arbitrary: i)
  case (Suc fuel)
  note F = am_report_facts [OF ok]
  have key: "am_modulus_rx e (am_at e i) = i" using am_key_at [OF F(2)] Suc.prems F(5,7) by simp
  have eq: "am_at e i = am_rx_highest_status e \<longleftrightarrow> i = am_hs e" using key F(8) by auto
  have nxt: "crem (am_at e i + 1) (am_sn_modulus e) = am_at e (i + 1)"
    using am_at_Suc [OF F(2) am_at_valid [OF F(2)], of i] key by simp
  show ?case
  proof (cases "am_at e i \<noteq> am_rx_highest_status e \<and> am_get e (am_at e i) = []")
    case True
    then obtain j where "i + 1 \<le> j" "j \<le> am_hs e"
      "find_rx_pdu fuel e (am_rx_highest_status e) (am_at e (i + 1)) = Inr (am_get e (am_at e j))"
      "\<forall>k. i + 1 \<le> k \<and> k < j \<longrightarrow> am_get e (am_at e k) = []"
      using Suc.IH [of "i + 1"] Suc.prems eq by auto
    moreover have "am_get e (am_at e k) = []" if "i \<le> k" "k < j" for k
      using that calculation(4) True by (cases "k = i") auto
    ultimately show ?thesis using True nxt by (intro exI [of _ j]) auto
  next
    case False
    then show ?thesis using Suc.prems by (intro exI [of _ i]) auto
  qed
qed simp

lemma in_slot_get:
  assumes "am_report_ok e" and "0 \<le> j" "j \<le> am_hs e"
  shows "in_slot e (am_get e (am_at e j))"
proof (cases "j < am_window_size e")
  case False
  note F = am_report_facts [OF assms(1)]
  have "j = am_window_size e" using False assms F(7) by simp
  then have "am_get e (am_at e j) = am_get e (am_at e 0)" using am_get_alias [OF F(1), of 0] by simp
  then show ?thesis unfolding in_slot_def using F by (intro exI [of _ 0] exI [of _ "[]"]) simp
qed (use assms in \<open>auto simp: in_slot_def\<close>)

lemma in_slotD:
  assumes ok: "am_report_ok e" and l: "in_slot e (p # l)"
  obtains i where "0 \<le> i" "i < am_window_size e" "i \<le> am_hs e" "pdu_sn p = am_at e i"
    "am_modulus_rx e (pdu_sn p) = i" "\<forall>q \<in> set (p # l). pdu_sn q = am_at e i \<and> 0 \<le> pdu_so q"
proof -
  note F = am_report_facts [OF ok]
  obtain i a where i: "0 \<le> i" "i < am_window_size e" "i \<le> am_hs e" "am_get e (am_at e i) = a @ p # l"
    using l by (auto simp: in_slot_def)
  then have "\<forall>q \<in> set (p # l). pdu_sn q = am_at e i \<and> 0 \<le> pdu_so q"
    using am_rx_slot(1) [OF F(1) i(1,2)] by (auto simp: slot_ok_def)
  then show thesis using that [of i] i am_key_at [OF F(2) i(1)] F(5) by simp
qed

lemma in_slot_tl: "in_slot e (p # l) \<Longrightarrow> in_slot e l"
  unfolding in_slot_def by (metis append_Cons append_Nil append_assoc)

lemma get_first_rx_pdu_ok:
  assumes "am_report_ok e"
  shows "\<exists>l. get_first_rx_pdu e = Inr l \<and> in_slot e l"
proof -
  note F = am_report_facts [OF assms]
  obtain j where "0 \<le> j" "j \<le> am_hs e" "get_first_rx_pdu e = Inr (am_get e (am_at e j))"
    using find_rx_pdu_ok [OF assms order.refl F(6), of "nat (am_sn_modulus e)"] F(5-7) am_at_0 [OF F(2)]
    by (auto simp: get_first_rx_pdu_def)
  with in_slot_get [OF assms] show ?thesis by blast
qed

text \<open>
  The step to the next slot goes up in the window, or from the last slot of the window to the first
  one, which stands for the sequence number behind the window.
\<close>

lemma get_next_rx_pdu_ok:
  assumes ok: "am_report_ok e" and s: "in_slot e [p]"
  shows "\<exists>l. get_next_rx_pdu e [p] = Inr l \<and> in_slot e l \<and> (\<forall>q k. l = q # k \<longrightarrow>
     am_modulus_rx e (pdu_sn p) < am_modulus_rx e (pdu_sn q) \<or>
     (am_modulus_rx e (pdu_sn p) = am_window_size e - 1 \<and> pdu_sn q = am_rx_next e))"
proof -
  note F = am_report_facts [OF ok]
  obtain i where i: "0 \<le> i" "i < am_window_size e" "i \<le> am_hs e" "pdu_sn p = am_at e i"
    "am_modulus_rx e (pdu_sn p) = i" by (rule in_slotD [OF ok s])
  have nxt: "crem (pdu_sn p + 1) (am_sn_modulus e) = am_at e (i + 1)"
    using am_at_Suc [OF F(2) am_at_valid [OF F(2)], of i] i(4,5) by simp
  show ?thesis
  proof (cases "pdu_sn p = am_rx_highest_status e")
    case True
    then show ?thesis using in_slot_tl [OF s] by (simp add: get_next_rx_pdu_def)
  next
    case False
    then have "i + 1 \<le> am_hs e" using i F(8) by (cases "i = am_hs e") auto
    then obtain j where j: "i + 1 \<le> j" "j \<le> am_hs e"
      "find_rx_pdu (nat (am_sn_modulus e)) e (am_rx_highest_status e) (am_at e (i + 1)) = Inr (am_get e (am_at e j))"
      "\<forall>k. i + 1 \<le> k \<and> k < j \<longrightarrow> am_get e (am_at e k) = []"
      using find_rx_pdu_ok [OF ok, of "i + 1" "nat (am_sn_modulus e)"] i(1) F(5,7) by auto
    have r: "get_next_rx_pdu e [p] = Inr (am_get e (am_at e j))"
      using False j(3) nxt by (simp add: get_next_rx_pdu_def)
    have sl: "in_slot e (am_get e (am_at e j))" using in_slot_get [OF ok, of j] i j by simp
    have "i < am_modulus_rx e (pdu_sn q) \<or> (i = am_window_size e - 1 \<and> pdu_sn q = am_rx_next e)"
      if q: "am_get e (am_at e j) = q # k" for q k
    proof (cases "j < am_window_size e")
      case True
      then have "pdu_sn q = am_at e j" using am_rx_slot(1) [OF F(1), of j] q i j by (simp add: slot_ok_def)
      then show ?thesis using am_key_at [OF F(2), of j] True i(1) j(1) F(5) by simp
    next
      case False
      then have w: "j = am_window_size e" "am_hs e = am_window_size e" using j(2) F(7) by auto
      then have "am_get e (am_at e (am_window_size e - 1)) \<noteq> []" using ok by (simp add: am_report_ok_def)
      then have "i = am_window_size e - 1" using j(4) [rule_format, of "am_window_size e - 1"] w(1) i(2) by fastforce
      moreover have "am_get e (am_at e 0) = q # k" using am_get_alias [OF F(1), of 0] w q by simp
      then have "pdu_sn q = am_at e 0" using am_rx_slot(1) [OF F(1), of 0] F(4) by (simp add: slot_ok_def)
      ultimately show ?thesis using am_at_0 [OF F(2)] by simp
    qed
    with r sl i(5) show ?thesis by blast
  qed
qed

section \<open>The search for missing data\<close>

definition missing_ok :: "nr_rlc_entity_am \<Rightarrow> missing_data \<Rightarrow> bool" where
  "missing_ok e m \<longleftrightarrow> md_sn_start m = - 1 \<or>
     (sn_valid (am_sn_modulus e) (md_sn_start m) \<and> sn_valid (am_sn_modulus e) (md_sn_end m) \<and>
      in_slot e (md_next m))"

lemma missing_ok_none [simp]: "missing_ok e no_missing"
  by (simp add: missing_ok_def no_missing_def)

lemma in_slot_sn:
  assumes "am_report_ok e" and "in_slot e (p # l)"
  shows "sn_valid (am_sn_modulus e) (pdu_sn p)"
  by (rule in_slotD [OF assms]) (simp add: am_report_facts(2) [OF assms(1)])

lemma before_sn_valid:
  "am_rx_cfg e \<Longrightarrow> sn_valid (am_sn_modulus e) a \<Longrightarrow>
     sn_valid (am_sn_modulus e) (crem (a - 1 + am_sn_modulus e) (am_sn_modulus e)) \<and>
     sn_valid (am_sn_modulus e) (crem (a + 1) (am_sn_modulus e))"
  using am_rx_cfg_pos [of e] by (auto simp: sn_valid_def)

lemma in_slot_Nil: "am_report_ok e \<Longrightarrow> in_slot e []"
  using am_report_facts [of e] unfolding in_slot_def by (intro exI [of _ 0]) auto

lemma set_end_ok:
  assumes ok: "am_report_ok e" and p: "in_slot e (p # l)" and v: "sn_valid (am_sn_modulus e) sn"
  shows "missing_ok e (set_end_different_sdu e sn so p (p # l))"
  using before_sn_valid [OF am_report_facts(2) [OF ok] in_slot_sn [OF ok p]] in_slot_sn [OF ok p]
    before_sn_valid [OF am_report_facts(2,9) [OF ok]] in_slot_Nil [OF ok] p v
  by (simp add: set_end_different_sdu_def Let_def missing_ok_def before_highest_status_def)

lemma missing_before_ok:
  assumes ok: "am_report_ok e" and p: "sn_valid (am_sn_modulus e) sn" and q: "in_slot e (q # l)"
  shows "missing_ok e (missing_before e sn mso la q (q # l))"
proof -
  have "missing_ok e (set_end_different_sdu e (if la then crem (sn + 1) (am_sn_modulus e) else sn) so q (q # l))" for so
    by (rule set_end_ok [OF ok q]) (use p before_sn_valid [OF am_report_facts(2) [OF ok] p] in simp)
  then show ?thesis
    using p q unfolding missing_before_def Let_def by (simp add: missing_ok_def [of e "\<lparr>md_sn_start = sn, md_so_start = _, md_sn_end = _, md_so_end = _, md_next = _\<rparr>"])
qed

lemma missing_after_last_ok:
  assumes ok: "am_report_ok e" and p: "in_slot e [p]"
  shows "missing_ok e (missing_after_last e mso la p)"
  using before_sn_valid [OF am_report_facts(2) [OF ok] in_slot_sn [OF ok p]] in_slot_sn [OF ok p]
    before_sn_valid [OF am_report_facts(2,9) [OF ok]] in_slot_Nil [OF ok]
  unfolding missing_after_last_def Let_def by (simp add: missing_ok_def before_highest_status_def no_missing_def)

text \<open>The data continue into another slot only when that slot is the next one of the window.\<close>

lemma data_continue_up:
  assumes ok: "am_report_ok e" and p: "in_slot e [p]" and q: "in_slot e (q # l)"
    and up: "am_modulus_rx e (pdu_sn p) < am_modulus_rx e (pdu_sn q) \<or>
     (am_modulus_rx e (pdu_sn p) = am_window_size e - 1 \<and> pdu_sn q = am_rx_next e)"
    and c: "data_continue e (pdu_sn p) mso la q = Some x"
  shows "am_modulus_rx e (pdu_sn p) < am_modulus_rx e (pdu_sn q)"
proof (rule ccontr)
  note F = am_report_facts [OF ok]
  assume "\<not> am_modulus_rx e (pdu_sn p) < am_modulus_rx e (pdu_sn q)"
  with up have last: "am_modulus_rx e (pdu_sn p) = am_window_size e - 1" "pdu_sn q = am_rx_next e" by auto
  have k: "am_modulus_rx e (pdu_sn q) = 0" using last(2) am_key_next [OF F(2)] by simp
  have "pdu_sn q = pdu_sn p \<or> pdu_sn q = crem (pdu_sn p + 1) (am_sn_modulus e)"
    using c by (auto simp: data_continue_def split: if_splits)
  moreover have "am_modulus_rx e (crem (pdu_sn p + 1) (am_sn_modulus e)) = am_window_size e"
    using am_at_Suc [OF F(2) in_slot_sn [OF ok p]] last(1) am_key_at [OF F(2), of "am_window_size e"] F(4,5) by simp
  ultimately show False using k last(1) F(4) by auto
qed

lemma next_pdu_loop_ok:
  assumes ok: "am_report_ok e" and "in_slot e (p # l)"
    and "am_window_size e - am_modulus_rx e (pdu_sn p) < int fuel"
  shows "\<exists>m. next_pdu_loop fuel e mso la (p # l) = Inr m \<and> missing_ok e m"
  using assms
proof (induction fuel e mso la "p # l" arbitrary: p l rule: next_pdu_loop.induct)
  case (2 fuel e mso la p q l)
  have tl: "in_slot e (q # l)" using 2(3) by (rule in_slot_tl)
  obtain i where "\<forall>x \<in> set (p # q # l). pdu_sn x = am_at e i \<and> 0 \<le> pdu_so x" by (rule in_slotD [OF 2(2,3)])
  then have same: "pdu_sn q = pdu_sn p" by (metis list.set_intros)
  let ?mso = "if pdu_so p + pdu_size p - 1 > mso then pdu_so p + pdu_size p - 1 else mso"
  show ?case
  proof (cases "data_continue e (pdu_sn p) ?mso (la \<or> pdu_is_last p) q")
    case None
    then show ?thesis
      using missing_before_ok [OF 2(2) in_slot_sn [OF 2(2,3)] tl] by (simp add: Let_def)
  next
    case (Some x)
    with 2(1) [OF refl refl refl refl Some _ 2(2) tl] 2(4) same show ?thesis
      by (cases x) (simp add: Let_def)
  qed
next
  case (3 e mso la p)
  obtain i where "i < am_window_size e" "am_modulus_rx e (pdu_sn p) = i" by (rule in_slotD [OF 3(1,2)])
  with 3(3) show ?case by simp
next
  case (4 fuel e mso la p)
  obtain cur where cur: "get_next_rx_pdu e [p] = Inr cur" "in_slot e cur"
    "\<And>q k. cur = q # k \<Longrightarrow> am_modulus_rx e (pdu_sn p) < am_modulus_rx e (pdu_sn q) \<or>
     (am_modulus_rx e (pdu_sn p) = am_window_size e - 1 \<and> pdu_sn q = am_rx_next e)"
    using get_next_rx_pdu_ok [OF 4(2,3)] by blast
  let ?mso = "if pdu_so p + pdu_size p - 1 > mso then pdu_so p + pdu_size p - 1 else mso"
  show ?case
  proof (cases cur)
    case Nil
    then show ?thesis using cur missing_after_last_ok [OF 4(2,3)] by (simp add: Let_def)
  next
    case (Cons q k)
    show ?thesis
    proof (cases "data_continue e (pdu_sn p) ?mso (la \<or> pdu_is_last p) q")
      case None
      then show ?thesis
        using missing_before_ok [OF 4(2) in_slot_sn [OF 4(2,3)]] cur Cons by (simp add: Let_def)
    next
      case (Some x)
      have "am_modulus_rx e (pdu_sn p) < am_modulus_rx e (pdu_sn q)"
        using data_continue_up [OF 4(2,3) _ cur(3) [OF Cons] Some] cur(2) Cons by simp
      then have "am_window_size e - am_modulus_rx e (pdu_sn q) < int fuel" using 4(4) by simp
      with 4(1) [OF refl refl refl refl cur(1) Cons Some _ 4(2)] cur Cons Some show ?thesis
        by (cases x) (simp add: Let_def)
    qed
  qed
qed

lemma next_missing_ok:
  assumes ok: "am_report_ok e" and p: "in_slot e (p # l)"
  shows "\<exists>m. next_missing e (p # l) c = Inr m \<and> missing_ok e m"
proof (cases "c \<and> (pdu_sn p \<noteq> am_rx_next e \<or> \<not> pdu_is_first p)")
  case True
  have "sn_valid (am_sn_modulus e) (am_rx_next e)"
    using am_report_facts(2) [OF ok] by (simp add: am_rx_cfg_def)
  from set_end_ok [OF ok p this, of 0] True show ?thesis by (simp add: next_missing_def)
next
  case False
  note F = am_report_facts [OF ok]
  obtain i where "0 \<le> i" "am_modulus_rx e (pdu_sn p) = i" by (rule in_slotD [OF ok p])
  then have "am_window_size e - am_modulus_rx e (pdu_sn p) < int (nat (am_sn_modulus e))" using F(4,5) by simp
  from next_pdu_loop_ok [OF ok p this] show ?thesis unfolding next_missing_def list.case if_not_P [OF False] .
qed

section \<open>Negative acknowledgements\<close>

definition status_ok :: "status_state \<Rightarrow> bool" where
  "status_ok s \<longleftrightarrow> enc_wf (ss_encoder s) \<and> enc_bit (ss_encoder s) = 0 \<and>
     ss_e1_byte s < enc_byte (ss_encoder s) \<and> 3 \<le> enc_byte (ss_encoder s) \<and>
     (\<forall>a. ss_so_end_address s = Some a \<longrightarrow> a + 1 < enc_byte (ss_encoder s))"

lemma nack_size_bounds: "2 \<le> nack_size e n" "nack_size e n \<le> 8"
  by (simp_all add: nack_size_def Let_def)

lemma put_fields_aligned:
  assumes "enc_wf c" and "enc_bit c = 0" and "\<forall>f \<in> set fs. snd f \<le> 31" and "fields_width fs = 8 * k"
    and "enc_byte c + k \<le> enc_size c"
  obtains c' where "put_fields c fs = Inr c'" "enc_wf c'" "enc_bit c' = 0" "enc_byte c' = enc_byte c + k"
    "enc_size c' = enc_size c"
proof -
  obtain c' where c': "put_fields c fs = Inr c'" "enc_wf c'" "enc_pos c' = enc_pos c + 8 * k" "enc_size c' = enc_size c"
    using put_fields_bits [OF assms(1,3)] assms(2,4,5) by (auto simp: enc_pos_def)
  have "enc_bit c' < 8" using c'(2) by (simp add: enc_wf_def)
  then have "enc_bit c' = 0" "enc_byte c' = enc_byte c + k" using c'(3) assms(2) by (auto simp: enc_pos_def) presburger+
  with c' show thesis using that by blast
qed

lemma put_nack_ok:
  assumes cfg: "am_cfg e" and s: "status_ok s"
    and room: "int (enc_byte (ss_encoder s)) + nack_size e n \<le> int (enc_size (ss_encoder s))"
  obtains s' where "put_nack e s n c = Inr s'" "status_ok s'"
    "int (enc_byte (ss_encoder s')) = int (enc_byte (ss_encoder s)) + nack_size e n"
    "enc_size (ss_encoder s') = enc_size (ss_encoder s)"
proof -
  let ?c = "ss_encoder s" and ?whole = "md_so_start n = 0 \<and> md_so_end n = 0xffff"
  let ?multi = "md_sn_start n \<noteq> md_sn_end n"
  define k1 k2 where "k1 = (if am_sn_field_length e = 18 then 3 else 2) + (if ?whole then 0 else 2 :: nat)"
    and "k2 = (if ?whole then 0 else 2) + (if ?multi then 1 else 0 :: nat)"
  have k: "nack_size e n = int k1 + int k2" by (auto simp: nack_size_def Let_def k1_def k2_def)
  have e1: "ss_e1_byte s < length (enc_buffer ?c)" using s by (auto simp: status_ok_def enc_wf_def)
  define b where "b = (enc_buffer ?c)[ss_e1_byte s := enc_buffer ?c ! ss_e1_byte s OR push_bit (ss_e1_bit s) 1]"
  define c0 where "c0 = ?c\<lparr>enc_buffer := b\<rparr>"
  have c0: "enc_wf c0" "enc_bit c0 = 0" "enc_byte c0 = enc_byte ?c" "enc_size c0 = enc_size ?c"
    using s by (auto simp: status_ok_def enc_wf_def c0_def b_def)
  define f1 where "f1 = [(md_sn_start n, nat (am_sn_field_length e)), (0, 1), (of_bool (\<not> ?whole), 1),
     (of_bool ?multi, 1), (0, if am_sn_field_length e = 18 then 3 else 1)] @
     (if \<not> ?whole then [(md_so_start n, 16)] else [])"
  define f2 where "f2 = (if \<not> ?whole then [(md_so_end n, 16)] else []) @ (if ?multi then [(c, 8 :: nat)] else [])"
  have w1: "\<forall>f \<in> set f1. snd f \<le> 31" "fields_width f1 = 8 * k1"
    using cfg by (auto simp: f1_def am_cfg_def k1_def)
  have w2: "\<forall>f \<in> set f2. snd f \<le> 31" "fields_width f2 = 8 * k2" by (auto simp: f2_def k2_def)
  obtain c1 where c1: "put_fields c0 f1 = Inr c1" "enc_wf c1" "enc_bit c1 = 0" "enc_byte c1 = enc_byte c0 + k1"
    "enc_size c1 = enc_size c0"
    by (rule put_fields_aligned [OF c0(1,2) w1]) (use room k c0 in auto)
  obtain c2 where c2: "put_fields c1 f2 = Inr c2" "enc_wf c2" "enc_bit c2 = 0" "enc_byte c2 = enc_byte c1 + k2"
    "enc_size c2 = enc_size c1"
    by (rule put_fields_aligned [OF c1(2,3) w2]) (use room k c0 c1 in auto)
  obtain p q where pq: "get_e1_position e c0 = (p, q)" by fastforce
  have p: "p < enc_byte c0 + k1"
    using pq k1_def by (auto simp: get_e1_position_def split: if_splits)
  let ?s = "\<lparr>ss_encoder = c2, ss_e1_byte = p, ss_e1_bit = q,
     ss_so_end_address = if \<not> ?whole then Some (enc_byte c1) else None\<rparr>"
  have "put_nack e s n c = Inr ?s"
    using e1 pq c1(1) c2(1) unfolding put_nack_def or_byte_def f1_def f2_def c0_def b_def by (simp add: Let_def)
  moreover have "status_ok ?s"
    using s c2 c1 c0 p by (auto simp: status_ok_def k2_def)
  ultimately show thesis using that [of ?s] c0 c1 c2 k by simp
qed

text \<open>
  The loop over the ranges of a missing part, and the loop of \<open>missing_size\<close> that computes the size
  of what it writes.
\<close>

lemma generate_missing_loop_ok:
  assumes "am_cfg e" and "status_ok s"
  shows "\<exists>s' ln tr rc'. generate_missing_loop e m s start k ln0 = Inr (s', ln, tr) \<and> status_ok s' \<and>
     enc_size (ss_encoder s') = enc_size (ss_encoder s) \<and>
     missing_size_loop e m (int (enc_size (ss_encoder s))) (int (enc_byte (ss_encoder s))) start k rc =
       (int (enc_byte (ss_encoder s')), rc', tr) \<and> enc_byte (ss_encoder s) \<le> enc_byte (ss_encoder s') \<and>
     rc \<le> rc' \<and> (0 < k \<and> \<not> tr \<longrightarrow> rc < rc' \<and> enc_byte (ss_encoder s) < enc_byte (ss_encoder s'))"
  using assms
proof (induction e m s start k ln0 arbitrary: rc rule: generate_missing_loop.induct)
  case (1 e m s start k ln0)
  define cur n where "cur = (if k > 255 then 255 else k)" and "n = cut_range e m start (int k)"
  let ?size = "int (enc_size (ss_encoder s))" and ?byte = "int (enc_byte (ss_encoder s))"
  have hb: "(am_sn_field_length e + 3 + (if am_sn_field_length e = 18 then 3 else 1)) div 8 =
      2 + (if am_sn_field_length e = 18 then 1 else 0)"
    using 1(2) by (auto simp: am_cfg_def)
  have delta: "(let r_bits = (if am_sn_field_length e = 18 then 3 else 1);
            head_bits = am_sn_field_length e + 3 + r_bits;
            whole = (md_so_start n = 0 \<and> md_so_end n = 0xffff)
      in (if start = md_sn_end n
                      then if whole then head_bits div 8 else (head_bits + 16 * 2) div 8
                      else if whole then (head_bits + 8) div 8
                      else (head_bits + 16 * 2 + 8) div 8)) = nack_size e n"
    using 1(2) by (auto simp: am_cfg_def nack_size_def Let_def n_def cut_range_def)
  consider "k = 0" | "0 < k" "?byte + nack_size e n > ?size" | "0 < k" "?byte + nack_size e n \<le> ?size"
    by linarith
  then show ?case
  proof cases
    case 3
    obtain s1 where s1: "put_nack e s n (int cur) = Inr s1" "status_ok s1"
      "int (enc_byte (ss_encoder s1)) = ?byte + nack_size e n" "enc_size (ss_encoder s1) = enc_size (ss_encoder s)"
      by (rule put_nack_ok [OF 1(2,3) 3(2)])
    have "\<not> ?byte + nack_size e n > ?size" using 3 by simp
    note IH = 1(1) [OF _ cur_def n_def this s1(1) 1(2) s1(2), of "rc + 1"]
    let ?start = "crem (start + int cur) (am_sn_modulus e)"
    obtain s' ln tr rc' where r: "generate_missing_loop e m s1 ?start (k - cur)
        (if start \<noteq> md_sn_end n then start + int cur - 1 else start) = Inr (s', ln, tr)" "status_ok s'"
      "enc_size (ss_encoder s') = enc_size (ss_encoder s1)"
      "missing_size_loop e m (int (enc_size (ss_encoder s1))) (int (enc_byte (ss_encoder s1))) ?start (k - cur) (rc + 1) =
         (int (enc_byte (ss_encoder s')), rc', tr)"
      "enc_byte (ss_encoder s1) \<le> enc_byte (ss_encoder s')" "rc + 1 \<le> rc'"
      using IH 3(1) by auto
    have "generate_missing_loop e m s start k ln0 = Inr (s', ln, tr)"
      using 3 s1(1) r(1)
      unfolding generate_missing_loop.simps [of e m s] Let_def cur_def [symmetric] n_def [symmetric] by simp
    moreover have "missing_size_loop e m ?size ?byte start k rc = (int (enc_byte (ss_encoder s')), rc', tr)"
      using 3 r(4) s1(3,4) delta unfolding missing_size_loop.simps [of e m ?size ?byte] Let_def cur_def [symmetric] n_def [symmetric]
      by simp
    ultimately show ?thesis using r s1(3,4) nack_size_bounds [of e n] by auto
  qed (auto simp: generate_missing_loop.simps [of e m s] missing_size_loop.simps [of e m] 1(3) n_def Let_def)
qed

section \<open>The STATUS PDU\<close>

lemma force_so_end_ok:
  assumes "status_ok s"
  obtains b where "force_so_end s = Inr (s\<lparr>ss_encoder := (ss_encoder s)\<lparr>enc_buffer := b\<rparr>\<rparr>)"
    "status_ok (s\<lparr>ss_encoder := (ss_encoder s)\<lparr>enc_buffer := b\<rparr>\<rparr>)"
proof (cases "ss_so_end_address s")
  case None
  then show thesis using that [of "enc_buffer (ss_encoder s)"] assms by (simp add: force_so_end_def)
next
  case (Some a)
  let ?b = "(enc_buffer (ss_encoder s))[a := 0xff, a + 1 := 0xff]"
  have "a + 1 < length (enc_buffer (ss_encoder s))" using assms Some by (auto simp: status_ok_def enc_wf_def)
  then have "force_so_end s = Inr (s\<lparr>ss_encoder := (ss_encoder s)\<lparr>enc_buffer := ?b\<rparr>\<rparr>)"
    using Some by (simp add: force_so_end_def set_byte_def)
  moreover have "status_ok (s\<lparr>ss_encoder := (ss_encoder s)\<lparr>enc_buffer := ?b\<rparr>\<rparr>)"
    using assms by (auto simp: status_ok_def enc_wf_def)
  ultimately show thesis by (rule that)
qed

lemma put_ack_sn_ok:
  "3 \<le> length b \<Longrightarrow> \<exists>b'. put_ack_sn e a b = Inr b' \<and> length b' = length b"
  by (cases "am_sn_field_length e = 12") (auto simp: put_ack_sn_def set_byte_def or_byte_def)

lemma missing_sn_count_pos:
  assumes "0 < am_sn_modulus e" and "sn_valid (am_sn_modulus e) (md_sn_start m)"
    and "sn_valid (am_sn_modulus e) (md_sn_end m)"
  shows "0 < missing_sn_count e m"
proof -
  have "0 \<le> md_sn_end m - md_sn_start m + am_sn_modulus e" using assms(2,3) by (simp add: sn_valid_def)
  then show ?thesis
    using assms(1) pos_mod_sign [of "am_sn_modulus e" "md_sn_end m - md_sn_start m + am_sn_modulus e"]
    by (simp add: missing_sn_count_def)
qed

text \<open>One turn: either it is the last one, or the report has grown.\<close>

lemma generate_missing_ok:
  assumes ok: "am_report_ok e" and s: "status_ok s" and m: "missing_ok e m" "md_sn_start m \<noteq> - 1"
  obtains s' ln tr cur rc where "generate_missing e m s = Inr (s', ln, tr, cur)" "status_ok s'"
    "enc_size (ss_encoder s') = enc_size (ss_encoder s)"
    "missing_size e m (int (enc_byte (ss_encoder s))) (int (enc_size (ss_encoder s))) =
       (int (enc_byte (ss_encoder s')), rc, cur)" "in_slot e cur"
    "cur \<noteq> [] \<longrightarrow> 0 < rc \<and> enc_byte (ss_encoder s) < enc_byte (ss_encoder s')"
proof -
  note F = am_report_facts [OF ok]
  have v: "sn_valid (am_sn_modulus e) (md_sn_start m)" "sn_valid (am_sn_modulus e) (md_sn_end m)" "in_slot e (md_next m)"
    using m by (simp_all add: missing_ok_def)
  have k: "0 < nat (missing_sn_count e m)" using missing_sn_count_pos [OF _ v(1,2)] F(4,5) by simp
  obtain s' ln tr rc where r:
    "generate_missing_loop e m s (md_sn_start m) (nat (missing_sn_count e m)) (- 1) = Inr (s', ln, tr)"
    "status_ok s'" "enc_size (ss_encoder s') = enc_size (ss_encoder s)"
    "missing_size_loop e m (int (enc_size (ss_encoder s))) (int (enc_byte (ss_encoder s))) (md_sn_start m)
       (nat (missing_sn_count e m)) 0 = (int (enc_byte (ss_encoder s')), rc, tr)"
    "\<not> tr \<longrightarrow> 0 < rc \<and> enc_byte (ss_encoder s) < enc_byte (ss_encoder s')"
    using generate_missing_loop_ok [OF F(3) s, of m "md_sn_start m" "nat (missing_sn_count e m)" "- 1" 0] k by auto
  show thesis
    by (rule that [of s' ln tr "if tr then [] else md_next m" rc])
      (use r v in_slot_Nil [OF ok] in \<open>simp_all add: generate_missing_def missing_size_def\<close>)
qed

lemma generate_status_loop_ok:
  assumes "am_report_ok e" and "status_ok s" and "in_slot e cur"
    and "enc_size (ss_encoder s) - enc_byte (ss_encoder s) < fuel" and "c \<longleftrightarrow> nc = 0" and "0 \<le> nc"
  shows "\<exists>s' ln. generate_status_loop fuel e c cur s ln0 = Inr (s', ln) \<and> status_ok s' \<and>
     enc_size (ss_encoder s') = enc_size (ss_encoder s) \<and>
     status_size_loop fuel e (int (enc_size (ss_encoder s))) cur (int (enc_byte (ss_encoder s))) nc =
       Inr (int (enc_byte (ss_encoder s')))"
  using assms(2-)
proof (induction fuel arbitrary: s cur c nc ln0)
  case (Suc fuel)
  show ?case
  proof (cases cur)
    case (Cons p l)
    obtain m where m: "next_missing e (p # l) c = Inr m" "missing_ok e m"
      using next_missing_ok [OF assms(1)] Suc.prems(2) Cons by blast
    show ?thesis
    proof (cases "md_sn_start m = - 1")
      case True
      then show ?thesis using Cons m(1) Suc.prems(1,4) by simp
    next
      case False
      obtain s1 ln tr cur1 rc where g: "generate_missing e m s = Inr (s1, ln, tr, cur1)" "status_ok s1"
        "enc_size (ss_encoder s1) = enc_size (ss_encoder s)"
        "missing_size e m (int (enc_byte (ss_encoder s))) (int (enc_size (ss_encoder s))) =
           (int (enc_byte (ss_encoder s1)), rc, cur1)" "in_slot e cur1"
        "cur1 \<noteq> [] \<longrightarrow> 0 < rc \<and> enc_byte (ss_encoder s) < enc_byte (ss_encoder s1)"
        by (rule generate_missing_ok [OF assms(1) Suc.prems(1) m(2) False])
      obtain s2 where s2: "(if tr then force_so_end s1 else Inr s1) = Inr s2" "status_ok s2"
        "enc_size (ss_encoder s2) = enc_size (ss_encoder s)" "enc_byte (ss_encoder s2) = enc_byte (ss_encoder s1)"
      proof (cases tr)
        case True
        obtain b where "force_so_end s1 = Inr (s1\<lparr>ss_encoder := (ss_encoder s1)\<lparr>enc_buffer := b\<rparr>\<rparr>)"
          "status_ok (s1\<lparr>ss_encoder := (ss_encoder s1)\<lparr>enc_buffer := b\<rparr>\<rparr>)"
          by (rule force_so_end_ok [OF g(2)])
        with True g(3) show ?thesis
          by (intro that [of "s1\<lparr>ss_encoder := (ss_encoder s1)\<lparr>enc_buffer := b\<rparr>\<rparr>"]) simp_all
      qed (use that g in simp)
      have step: "generate_status_loop (Suc fuel) e c cur s ln0 =
          generate_status_loop fuel e False cur1 s2 (if ln \<noteq> - 1 then ln else ln0)"
        "status_size_loop (Suc fuel) e (int (enc_size (ss_encoder s))) cur (int (enc_byte (ss_encoder s))) nc =
          status_size_loop fuel e (int (enc_size (ss_encoder s2))) cur1 (int (enc_byte (ss_encoder s2))) (nc + rc)"
        using Cons m(1) False g(1,4) s2 Suc.prems(4) by simp_all
      show ?thesis
      proof (cases cur1)
        case Nil
        then show ?thesis using step s2 g by simp
      next
        case c1: Cons
        have "enc_byte (ss_encoder s1) \<le> enc_size (ss_encoder s1)" using g(2) by (auto simp: status_ok_def enc_wf_def)
        then show ?thesis
          using Suc.IH [OF s2(2) g(5), of False "nc + rc"] step s2(3,4) Suc.prems(3,5) g(3,6) c1 by auto
      qed
    qed
  qed (use Suc.prems in simp)
qed simp

lemma generate_status_ok:
  assumes ok: "am_report_ok e"
  shows "\<exists>n b. generate_status e buf = Inr (n, b, if length buf < 3 then e else
       e\<lparr>am_status_triggered := False, am_t_status_prohibit_start := am_t_current e,
         am_common := upd_stats (stat_txpdu_status n) (upd_stats (stat_txpdu n) (am_common e))\<rparr>) \<and>
     status_size e (int (length buf)) = Inr n \<and> length b = length buf \<and> n \<le> int (length buf) \<and>
     (if length buf < 3 then n = 0 \<and> b = buf else 3 \<le> n)"
proof (cases "length buf < 3")
  case False
  have init: "enc_bit (nr_rlc_pdu_encoder_init buf) = 0" "enc_byte (nr_rlc_pdu_encoder_init buf) = 0"
    "enc_size (nr_rlc_pdu_encoder_init buf) = length buf"
    by (simp_all add: nr_rlc_pdu_encoder_init_def)
  obtain c where "put_fields (nr_rlc_pdu_encoder_init buf) [(0, 24)] = Inr c" and c: "enc_wf c" "enc_bit c = 0"
    "enc_byte c = 0 + 3" "enc_size c = length buf"
    by (rule put_fields_aligned [OF enc_wf_init init(1), of "[(0, 24)]" 3, unfolded init(2,3)]) (use False in simp_all)
  then have put: "nr_rlc_pdu_encoder_put_bits (nr_rlc_pdu_encoder_init buf) 0 24 = Inr c"
    by (cases "nr_rlc_pdu_encoder_put_bits (nr_rlc_pdu_encoder_init buf) 0 24") simp_all
  obtain cur where cur: "get_first_rx_pdu e = Inr cur" "in_slot e cur"
    using get_first_rx_pdu_ok [OF ok] by blast
  let ?s = "\<lparr>ss_encoder = c, ss_e1_byte = 2, ss_e1_bit = (if am_sn_field_length e = 18 then 1 else 7),
     ss_so_end_address = None\<rparr>"
  have st: "status_ok ?s" and lt: "enc_size (ss_encoder ?s) - enc_byte (ss_encoder ?s) < Suc (length buf)"
    using c by (simp_all add: status_ok_def)
  obtain s ln where s: "generate_status_loop (Suc (length buf)) e True cur ?s
      (crem (am_rx_next e - 1 + am_sn_modulus e) (am_sn_modulus e)) = Inr (s, ln)" "status_ok s"
    "enc_size (ss_encoder s) = length buf"
    "status_size_loop (Suc (length buf)) e (int (length buf)) cur 3 0 = Inr (int (enc_byte (ss_encoder s)))"
    using generate_status_loop_ok [OF ok st cur(2) lt, of True 0
        "crem (am_rx_next e - 1 + am_sn_modulus e) (am_sn_modulus e)"] c by auto
  have len: "length (enc_buffer (ss_encoder s)) = length buf" "enc_byte (ss_encoder s) \<le> length buf"
    "3 \<le> enc_byte (ss_encoder s)"
    using s(2,3) by (auto simp: status_ok_def enc_wf_def)
  obtain b where b: "put_ack_sn e (crem (ln + 1) (am_sn_modulus e)) (enc_buffer (ss_encoder s)) = Inr b"
    "length b = length buf"
    using put_ack_sn_ok [of "enc_buffer (ss_encoder s)" e] len by auto
  show ?thesis
    using False put cur(1) s(1,4) b len by (simp add: generate_status_def status_size_def Let_def)
qed (simp add: generate_status_def status_size_def)

section \<open>The whole generator\<close>

text \<open>
  The segment that the next data PDU is made of, with its sequence number: the head of the
  retransmit list, or the head of the transmit list when the window has room.
\<close>

definition am_pick_tx :: "nr_rlc_entity_am \<Rightarrow> int \<Rightarrow> (int \<times> nr_rlc_sdu_segment) option" where
  "am_pick_tx e n =
     (case am_tx_list e of
        [] \<Rightarrow> None
      | seg # _ \<Rightarrow>
          if am_flight e < am_window_size e \<and> am_compute_pdu_header_size e seg < n
          then Some (if seg_sn (am_heap e) seg = - 1 then am_tx_next e else seg_sn (am_heap e) seg, seg)
          else None)"

definition am_pick :: "nr_rlc_entity_am \<Rightarrow> int \<Rightarrow> (int \<times> nr_rlc_sdu_segment) option" where
  "am_pick e n =
     (case am_retransmit_list e of
        [] \<Rightarrow> am_pick_tx e n
      | seg # _ \<Rightarrow>
          if am_compute_pdu_header_size e seg < n then Some (seg_sn (am_heap e) seg, seg)
          else am_pick_tx e n)"

lemma am_report_ok_view: "am_rx_view e' = am_rx_view e \<Longrightarrow> am_report_ok e' = am_report_ok e"
proof -
  assume v: "am_rx_view e' = am_rx_view e"
  have "am_rx_core e' = am_rx_core e"
    by (rule am_rx_inv_cong(1)) (use v in \<open>simp_all add: am_rx_view_def\<close>)
  moreover have "am_modulus_rx e' = am_modulus_rx e \<and> am_at e' = am_at e"
    by (rule am_key_cong) (use v in \<open>simp_all add: am_rx_view_def\<close>)
  ultimately show ?thesis using v by (simp add: am_report_ok_def am_rx_view_def)
qed

definition am_data_post ::
  "(nat \<Rightarrow> nat) \<Rightarrow> nr_rlc_entity_am \<Rightarrow> byte list \<Rightarrow> (int \<times> nr_rlc_sdu_segment) option \<Rightarrow>
   (int \<times> byte list \<times> nr_rlc_entity_am) res \<Rightarrow> bool" where
  "am_data_post lk e buf pick res \<longleftrightarrow> (\<exists>r b e'. res = Inr (r, b, e') \<and> am_gen_frame lk e buf r b e' \<and>
     (case pick of None \<Rightarrow> r = 0 | Some (sn, seg) \<Rightarrow> r \<noteq> 0 \<and> am_pdu_of e sn seg buf r b))"

lemma am_generate_tx_post:
  assumes "am_tx_inv lk e"
  shows "am_data_post lk e buf (am_pick_tx e (int (length buf))) (am_generate_tx_pdu clk e buf)"
proof (cases "am_pick_tx e (int (length buf))")
  case None
  then have "am_generate_tx_pdu clk e buf = Inr (0, buf, e)"
    by (intro am_generate_tx_none [OF assms]) (auto simp: am_pick_tx_def split: list.splits if_splits)
  with None am_gen_frame_none [OF assms] show ?thesis by (simp add: am_data_post_def)
next
  case (Some x)
  then obtain seg rest where l: "am_tx_list e = seg # rest" "am_flight e < am_window_size e"
    "am_compute_pdu_header_size e seg + 1 \<le> int (length buf)"
    "x = (if seg_sn (am_heap e) seg = - 1 then am_tx_next e else seg_sn (am_heap e) seg, seg)"
    by (auto simp: am_pick_tx_def split: list.splits if_splits)
  from am_generate_tx_ok [OF assms l(1-3), of clk] show ?thesis unfolding am_data_post_def Some l(4) by auto
qed

lemma am_generate_data_post:
  assumes inv: "am_tx_inv lk e"
  shows "am_data_post lk e buf (am_pick e (int (length buf)))
     (gen_if (am_retransmit_list e \<noteq> []) am_generate_retx_pdu (am_generate_tx_pdu clk) e buf)"
proof (cases "am_retransmit_list e")
  case Nil
  then show ?thesis using am_generate_tx_post [OF inv] by (simp add: am_pick_def gen_if_def)
next
  case (Cons seg rest)
  obtain r b e' where r: "am_generate_retx_pdu e buf = Inr (r, b, e')" "am_gen_frame lk e buf r b e'"
    "r = 0 \<longleftrightarrow> int (length buf) \<le> am_compute_pdu_header_size e seg"
    "r \<noteq> 0 \<longrightarrow> am_pdu_of e (seg_sn (am_heap e) seg) seg buf r b"
    using am_generate_retx_ok [OF inv Cons] by blast
  show ?thesis
  proof (cases "r = 0")
    case True
    then have "e' = e" "b = buf" using r(2) by (simp_all add: am_gen_frame_def)
    with True r Cons am_generate_tx_post [OF inv] show ?thesis by (simp add: am_pick_def gen_if_def)
  next
    case False
    with r Cons show ?thesis by (simp add: am_pick_def gen_if_def am_data_post_def)
  qed
qed

section \<open>Properties\<close>

text \<open>What \<open>generate_pdu\<close> does, for every buffer.\<close>

lemma am_generate_spec:
  assumes tx: "am_tx_inv lk e" and rx: "am_report_ok e"
  shows "\<exists>r b e'. nr_rlc_entity_am_generate_pdu clk e buf = Inr (r, b, e') \<and> length b = length buf \<and>
     0 \<le> r \<and> r \<le> int (length buf) \<and> am_tx_inv lk e' \<and> am_report_ok e' \<and> am_rx_view e' = am_rx_view e \<and>
     (if status_to_report e \<and> 3 \<le> length buf
      then status_size e (int (length buf)) = Inr r \<and> am_tx_view e' = am_tx_view e \<and> \<not> am_status_triggered e'
      else case am_pick e (int (length buf)) of
        None \<Rightarrow> r = 0 \<and> e' = e \<and> b = buf
      | Some (sn, seg) \<Rightarrow> r \<noteq> 0 \<and> am_pdu_of e sn seg buf r b)"
proof (cases "status_to_report e \<and> 3 \<le> length buf")
  case True
  obtain n b where g: "status_size e (int (length buf)) = Inr n" "length b = length buf" "n \<le> int (length buf)"
    "3 \<le> n" "generate_status e buf = Inr (n, b, e\<lparr>am_status_triggered := False,
         am_t_status_prohibit_start := am_t_current e,
         am_common := upd_stats (stat_txpdu_status n) (upd_stats (stat_txpdu n) (am_common e))\<rparr>)"
    using generate_status_ok [OF rx, of buf] True by (auto simp: not_le [symmetric])
  define e' where "e' = e\<lparr>am_status_triggered := False, am_t_status_prohibit_start := am_t_current e,
         am_common := upd_stats (stat_txpdu_status n) (upd_stats (stat_txpdu n) (am_common e))\<rparr>"
  have "am_tx_ok lk e' [] = am_tx_ok lk e []" by (rule am_tx_ok_cong) (simp_all add: e'_def)
  then have "am_tx_inv lk e'" using tx by (simp add: am_tx_inv_def)
  moreover have "am_rx_view e' = am_rx_view e" "am_tx_view e' = am_tx_view e" "\<not> am_status_triggered e'"
    by (simp_all add: e'_def am_rx_view_def am_tx_view_def)
  moreover have "nr_rlc_entity_am_generate_pdu clk e buf = Inr (n, b, e')"
    using True g(4,5) by (simp add: nr_rlc_entity_am_generate_pdu_def gen_if_def [of True] e'_def)
  ultimately show ?thesis using True g(1-4) am_report_ok_view [of e' e] rx by auto
next
  case False
  have "nr_rlc_entity_am_generate_pdu clk e buf =
      gen_if (am_retransmit_list e \<noteq> []) am_generate_retx_pdu (am_generate_tx_pdu clk) e buf"
    using False by (auto simp: nr_rlc_entity_am_generate_pdu_def gen_if_def generate_status_def)
  moreover have "am_data_post lk e buf (am_pick e (int (length buf)))
      (gen_if (am_retransmit_list e \<noteq> []) am_generate_retx_pdu (am_generate_tx_pdu clk) e buf)"
    by (rule am_generate_data_post [OF tx])
  ultimately obtain r b e' where r: "nr_rlc_entity_am_generate_pdu clk e buf = Inr (r, b, e')"
    "am_gen_frame lk e buf r b e'"
    "case am_pick e (int (length buf)) of None \<Rightarrow> r = 0 | Some (sn, seg) \<Rightarrow> r \<noteq> 0 \<and> am_pdu_of e sn seg buf r b"
    by (auto simp: am_data_post_def)
  moreover have "am_report_ok e'" using r(2) am_report_ok_view [of e' e] rx by (simp add: am_gen_frame_def)
  ultimately show ?thesis using False by (auto simp: am_gen_frame_def split: option.splits)
qed

text \<open>
  C6: \<open>generate_pdu\<close> of the acknowledged mode entity. In every state that satisfies the invariants it
  returns without a fault, stays inside the buffer and keeps the invariants of the transmitter and of
  the receiver. A pending status report is sent first, with the size that was announced for it.
  Otherwise the PDU is made of the segment that the specification \<open>am_pick\<close> names, the head of the
  retransmit list before new data: its header has the sequence number, the offset and the flags of
  the segment, and its payload is all of the segment or as much as fills the buffer. Without such a
  segment nothing is sent.
\<close>

theorem am_generate_pdu_correct:
  assumes tx: "am_tx_inv lk e" and rx: "am_report_ok e"
  shows "\<exists>r b e'. nr_rlc_entity_am_generate_pdu clk e buf = Inr (r, b, e') \<and> length b = length buf \<and>
     0 \<le> r \<and> r \<le> int (length buf) \<and> am_tx_inv lk e' \<and> am_report_ok e' \<and> am_rx_view e' = am_rx_view e \<and>
     (if status_to_report e \<and> 3 \<le> length buf
      then status_size e (int (length buf)) = Inr r \<and> am_tx_view e' = am_tx_view e \<and> \<not> am_status_triggered e'
      else case am_pick e (int (length buf)) of
        None \<Rightarrow> r = 0 \<and> e' = e \<and> b = buf
      | Some (sn, seg) \<Rightarrow> r \<noteq> 0 \<and> am_pdu_of e sn seg buf r b)"
  by (rule am_generate_spec [OF assms])

lemma am_report_ok_example:
  assumes "new_nr_rlc_entity_am rxs txs tp tr ts pp pb mr n = Inr e"
  shows "am_report_ok e"
proof -
  note f = am_new_fields [OF assms]
  have "am_rx_core e" using am_rx_inv_new(1) [OF assms] by (simp add: am_rx_inv_def)
  moreover have "am_hs e = 0" by (simp add: f am_modulus_rx_def)
  ultimately show ?thesis using am_cfg_pos [OF f(1)] by (simp add: am_report_ok_def)
qed

theorem am_generate_pdu_correct_witness:
  "\<exists>e e1 seg r b e'. new_nr_rlc_entity_am 10000 10000 45 35 0 16 500 4 12 = Inr e \<and>
     nr_rlc_entity_am_recv_sdu 0 e [1, 2, 3] 7 = Inr e1 \<and> am_tx_list e1 = [seg] \<and>
     nr_rlc_entity_am_generate_pdu 0 e1 (replicate 10 0) = Inr (r, b, e') \<and> r \<noteq> 0 \<and>
     am_pdu_of e1 (if seg_sn (am_heap e1) seg = - 1 then am_tx_next e1 else seg_sn (am_heap e1) seg) seg (replicate 10 0) r b"
proof -
  obtain e where e: "new_nr_rlc_entity_am 10000 10000 45 35 0 16 500 4 12 = Inr e" "am_tx_inv (\<lambda>_. 0) e"
    "am_tx_size e = 0" "am_tx_maxsize e = 50000" "am_tx_list e = []" "\<not> am_status_triggered e" "am_retransmit_list e = []"
    "am_tx_next e = 0" "am_tx_next_ack e = 0"
    using am_example by (auto simp: new_nr_rlc_entity_am_def)
  obtain e1 seg where e1: "nr_rlc_entity_am_recv_sdu 0 e [1, 2, 3] 7 = Inr e1" "am_tx_inv (\<lambda>_. 0) e1"
    "am_rx_view e1 = am_rx_view e" "am_tx_list e1 = [seg]"
    using am_recv_sdu_ok [OF e(2), of "[1, 2, 3]" 0 7] e by (auto simp: NR_SDU_MAX_def)
  have rx: "am_report_ok e1" using am_report_ok_view [OF e1(3)] am_report_ok_example [OF e(1)] by simp
  have f: "am_retransmit_list e1 = []" "\<not> am_status_triggered e1" "am_tx_next e1 = 0" "am_tx_next_ack e1 = 0"
    using e1(1) e by (auto simp: nr_rlc_entity_am_recv_sdu_def Let_def am_log_rejected_def split: if_splits prod.splits)
  have "am_flight e1 = 0" by (simp add: am_flight_def am_modulus_tx_def f)
  moreover have "0 < am_window_size e1"
    using am_cfg_pos [of e1] am_tx_okD(1) [OF e1(2) [unfolded am_tx_inv_def]] by (simp add: am_tx_cfg_def)
  ultimately have "am_pick e1 10 = Some (if seg_sn (am_heap e1) seg = - 1 then am_tx_next e1 else seg_sn (am_heap e1) seg, seg)"
    using am_header_size_bounds [of e1 seg] by (simp add: am_pick_def am_pick_tx_def f e1(4))
  then obtain r b e' where "nr_rlc_entity_am_generate_pdu 0 e1 (replicate 10 0) = Inr (r, b, e')" "r \<noteq> 0"
    "am_pdu_of e1 (if seg_sn (am_heap e1) seg = - 1 then am_tx_next e1 else seg_sn (am_heap e1) seg) seg (replicate 10 0) r b"
    using am_generate_pdu_correct [OF e1(2) rx, of 0 "replicate 10 0"] f(2) by (auto simp: status_to_report_def)
  with e(1) e1 show ?thesis by blast
qed

text \<open>
  C27: the size of the status report. For every size of the transport block, the size that
  \<open>status_size\<close> reports to the scheduler, computed by loops of its own without writing a byte, is the
  size of the PDU that \<open>generate_status\<close> then writes into a buffer of that size.
\<close>

theorem am_status_size_exact:
  assumes "am_report_ok e"
  shows "\<exists>n b e'. status_size e (int (length buf)) = Inr n \<and> generate_status e buf = Inr (n, b, e') \<and>
     length b = length buf \<and> n \<le> int (length buf)"
  using generate_status_ok [OF assms, of buf] by auto

theorem am_status_size_exact_witness:
  "\<exists>e n b e'. new_nr_rlc_entity_am 10000 10000 45 35 0 16 500 4 12 = Inr e \<and>
     status_size e 10 = Inr n \<and> generate_status e (replicate 10 0) = Inr (n, b, e') \<and> length b = 10"
proof -
  obtain e where e: "new_nr_rlc_entity_am 10000 10000 45 35 0 16 500 4 12 = Inr e" using am_example by blast
  from am_status_size_exact [OF am_report_ok_example [OF e], of "replicate 10 0"] e show ?thesis by auto
qed

end
