(* ===== verification/Nr_Rlc_Table.thy ===== *)
theory Nr_Rlc_Table
  imports Nr_Rlc_Api Nr_Table Nr_Rlc_Um_Tx Nr_Rlc_Am_Report
begin

text \<open>
  The RLC entities of all UEs as a map, with the table of UEs as its implementation; the assembly of a
  transport block from the PDUs of a bearer; the mapping of logical channels to bearers; the removal of a
  UE.
\<close>

section \<open>The table as a map\<close>

type_synonym rlc_key = "int \<times> rlc_slot"

fun rlc_at :: "nr_rlc_ue_manager_t \<Rightarrow> rlc_key \<Rightarrow> nr_rlc_entity_t option" where
  "rlc_at m (ue_id, slot) = (case rlc_ue_index (rum_list m) ue_id of None \<Rightarrow> None | Some i \<Rightarrow> slot_get (rum_list m ! i) slot)"

fun rlc_put :: "nr_rlc_ue_manager_t \<Rightarrow> rlc_key \<Rightarrow> nr_rlc_entity_t \<Rightarrow> nr_rlc_ue_manager_t" where
  "rlc_put m (ue_id, slot) e =
     (case rlc_ue_index (rum_list m) ue_id of None \<Rightarrow> m
      | Some i \<Rightarrow> m\<lparr>rum_list := (rum_list m)[i := slot_put (rum_list m ! i) slot (Some e)]\<rparr>)"

definition rlc_ue_ok :: "nr_rlc_ue_t \<Rightarrow> bool" where
  "rlc_ue_ok u \<longleftrightarrow> length (ru_srb u) = 3 \<and> length (ru_drb u) = 32 \<and> length (ru_lcid2rb u) = 32"

definition rlc_ok :: "nr_rlc_ue_manager_t \<Rightarrow> bool" where
  "rlc_ok m \<longleftrightarrow> distinct (map ru_ue_id (rum_list m)) \<and> (\<forall>u \<in> set (rum_list m). rlc_ue_ok u)"

lemma rlc_ue_index_Some: "rlc_ue_index l ue_id = Some i \<Longrightarrow> i < length l \<and> ru_ue_id (l ! i) = ue_id"
  by (induction l arbitrary: i) (auto split: if_splits)

lemma rlc_ue_index_None: "rlc_ue_index l ue_id = None \<longleftrightarrow> ue_id \<notin> ru_ue_id ` set l"
  by (induction l) auto

lemma rlc_ue_index_append:
  "rlc_ue_index (l @ [u]) ue_id =
     (case rlc_ue_index l ue_id of Some i \<Rightarrow> Some i | None \<Rightarrow> if ru_ue_id u = ue_id then Some (length l) else None)"
  by (induction l) (auto split: option.splits)

lemma rlc_ue_index_update: "i < length l \<Longrightarrow> ru_ue_id u = ru_ue_id (l ! i) \<Longrightarrow> rlc_ue_index (l[i := u]) ue_id = rlc_ue_index l ue_id"
  by (induction l arbitrary: i) (auto split: nat.splits)

lemma slot_put_sel [simp]:
  "ru_ue_id (slot_put u s e) = ru_ue_id u" "rlc_ue_ok (slot_put u s e) = rlc_ue_ok u" "ru_lcid2rb (slot_put u s e) = ru_lcid2rb u"
  by (cases s; simp add: rlc_ue_ok_def)+

lemma slot_get_put:
  assumes "slot_get u s = Some e"
  shows "slot_get (slot_put u s x) t = (if t = s then x else slot_get u t)"
  using assms by (cases s; cases t) (auto split: if_splits)

lemma rlc_ok_update:
  assumes "rlc_ok m" "i < length (rum_list m)" "ru_ue_id u = ru_ue_id (rum_list m ! i)" "rlc_ue_ok u"
  shows "rlc_ok (m\<lparr>rum_list := (rum_list m)[i := u]\<rparr>)"
proof -
  have "map ru_ue_id ((rum_list m)[i := u]) = map ru_ue_id (rum_list m)" using assms(2,3) by (metis list_update_id map_update nth_map)
  with assms show ?thesis by (auto simp: rlc_ok_def dest!: subsetD [OF set_update_subset_insert])
qed

text \<open>The map after the replacement of one UE.\<close>

lemma rlc_at_update:
  assumes "i < length (rum_list m)" "ru_ue_id u = ru_ue_id (rum_list m ! i)" "rlc_ue_index (rum_list m) ue_id = Some i"
  shows "rlc_at (m\<lparr>rum_list := (rum_list m)[i := u]\<rparr>) (v, s) = (if v = ue_id then slot_get u s else rlc_at m (v, s))"
proof (cases "rlc_ue_index (rum_list m) v")
  case (Some j)
  have "ru_ue_id (rum_list m ! j) = v" "ru_ue_id (rum_list m ! i) = ue_id"
    using rlc_ue_index_Some [OF Some] rlc_ue_index_Some [OF assms(3)] by blast+
  moreover have "v = ue_id \<Longrightarrow> j = i" using Some assms(3) by simp
  ultimately have "i = j \<longleftrightarrow> v = ue_id" by metis
  with Some show ?thesis using assms(1) by (simp add: rlc_ue_index_update [OF assms(1,2)] nth_list_update)
qed (use assms in \<open>auto simp: rlc_ue_index_update\<close>)

interpretation rlc_table: entity_table rlc_at rlc_put rlc_ok "\<lambda>_ _. True"
proof
  fix m :: nr_rlc_ue_manager_t and k :: rlc_key and e e'
  assume ok: "rlc_ok m" and l: "rlc_at m k = Some e"
  obtain ue_id s where k: "k = (ue_id, s)" by (cases k)
  from l k obtain i where i: "rlc_ue_index (rum_list m) ue_id = Some i" "slot_get (rum_list m ! i) s = Some e"
    by (auto split: option.splits)
  note i' = rlc_ue_index_Some [OF i(1)]
  have "rlc_ue_ok (rum_list m ! i)" using ok i' by (simp add: rlc_ok_def)
  then show "rlc_ok (rlc_put m k e')" using rlc_ok_update [OF ok] i' by (simp add: k i(1))
  show "rlc_at (rlc_put m k e') = (rlc_at m)(k \<mapsto> e')"
  proof
    fix j :: rlc_key
    obtain v t where j: "j = (v, t)" by (cases j)
    have "rlc_at (rlc_put m k e') j = (if v = ue_id then slot_get (slot_put (rum_list m ! i) s (Some e')) t else rlc_at m (v, t))"
      using rlc_at_update [OF _ _ i(1), of "slot_put (rum_list m ! i) s (Some e')"] i' by (simp add: j k i(1) del: rlc_at.simps)
    then show "rlc_at (rlc_put m k e') j = ((rlc_at m)(k \<mapsto> e')) j"
      using slot_get_put [OF i(2)] i(1) by (simp add: j k)
  qed
qed

section \<open>Callbacks\<close>

text \<open>The bearers for which all three callbacks find the entity.\<close>

fun callback_slot :: "rlc_slot \<Rightarrow> bool" where
  "callback_slot Srb0 = False"
| "callback_slot (Srb i) = (i < 2)"
| "callback_slot (Drb i) = True"

lemma handle_upcalls_total: "callback_slot s \<Longrightarrow> \<exists>out. handle_upcalls f1 mode ue s us = Inr out"
proof (induction us)
  case (Cons u us)
  have "\<exists>out. handle_upcall f1 mode ue s u = Inr out"
    using Cons.prems
    by (cases u; cases s) (simp_all add: deliver_sdu_def successful_delivery_def max_retx_reached_def callback_rb_def Let_def)
  with Cons show ?case by auto
qed simp

text \<open>
  The third signalling bearer can be configured and delivers SDUs, but as soon as the peer acknowledges an
  SDU, or the number of retransmissions reaches its limit, the callback does not find the bearer and ends
  the process.
\<close>

lemma srb3_callback_exits:
  "\<forall>b. u \<noteq> Deliver_sdu b \<Longrightarrow> handle_upcalls f1 mode ue (Srb 2) (u # us) = Inl Exit_fatal"
  by (cases u) (simp_all add: successful_delivery_def max_retx_reached_def callback_rb_def)

section \<open>Access through a logical channel\<close>

text \<open>The UE of an identifier, as the interface functions see it: they create it when it is not there.\<close>

definition the_ue :: "nr_rlc_ue_manager_t \<Rightarrow> int \<Rightarrow> nr_rlc_ue_t" where
  "the_ue m ue_id = (case rlc_ue_index (rum_list m) ue_id of None \<Rightarrow> new_rlc_ue ue_id | Some i \<Rightarrow> rum_list m ! i)"

definition set_ue :: "nr_rlc_ue_manager_t \<Rightarrow> int \<Rightarrow> nr_rlc_ue_t \<Rightarrow> nr_rlc_ue_manager_t" where
  "set_ue m ue_id u =
     (case rlc_ue_index (rum_list m) ue_id of None \<Rightarrow> m\<lparr>rum_list := rum_list m @ [u]\<rparr> | Some i \<Rightarrow> m\<lparr>rum_list := (rum_list m)[i := u]\<rparr>)"

lemma on_ue_eq: "on_ue m ue_id f = bindr (f (the_ue m ue_id)) (\<lambda>(r, out, u). Inr (r, out, set_ue m ue_id u))"
  by (simp add: on_ue_def nr_rlc_manager_get_ue_def the_ue_def set_ue_def split: option.split)

lemma new_rlc_ue_slots [simp]: "slot_get (new_rlc_ue ue_id) s = None" "ru_ue_id (new_rlc_ue ue_id) = ue_id" "rlc_ue_ok (new_rlc_ue ue_id)"
  by (cases s; simp add: new_rlc_ue_def rlc_ue_ok_def)+

lemma rlc_at_the_ue: "rlc_at m (ue_id, s) = slot_get (the_ue m ue_id) s"
  by (simp add: the_ue_def split: option.split)

lemma the_ue_id: "ru_ue_id (the_ue m ue_id) = ue_id"
  using rlc_ue_index_Some by (auto simp: the_ue_def split: option.split)

lemma the_ue_ok: "rlc_ok m \<Longrightarrow> rlc_ue_ok (the_ue m ue_id)"
  using rlc_ue_index_Some [of "rum_list m" ue_id] by (auto simp: the_ue_def rlc_ok_def split: option.split)

lemma set_ue_ok: "rlc_ok m \<Longrightarrow> ru_ue_id u = ue_id \<Longrightarrow> rlc_ue_ok u \<Longrightarrow> rlc_ok (set_ue m ue_id u)"
  using rlc_ok_update [of m _ u] rlc_ue_index_Some [of "rum_list m" ue_id]
  by (auto simp: set_ue_def rlc_ue_index_None rlc_ok_def [of "m\<lparr>rum_list := _ @ _\<rparr>"] split: option.split) (auto simp: rlc_ok_def)

lemma the_set_ue:
  assumes "ru_ue_id u = ue_id"
  shows "the_ue (set_ue m ue_id u) v = (if v = ue_id then u else the_ue m v)"
proof (cases "rlc_ue_index (rum_list m) ue_id")
  case None
  then show ?thesis using assms rlc_ue_index_Some [of "rum_list m" v]
    by (auto simp: the_ue_def set_ue_def rlc_ue_index_append nth_append split: option.split)
next
  case (Some i)
  note i = rlc_ue_index_Some [OF Some]
  have ix: "rlc_ue_index ((rum_list m)[i := u]) w = rlc_ue_index (rum_list m) w" for w
    by (rule rlc_ue_index_update) (use i assms in simp_all)
  have "j = i \<longleftrightarrow> v = ue_id" if "rlc_ue_index (rum_list m) v = Some j" for j
    using that Some i rlc_ue_index_Some [OF that] by (cases "v = ue_id") auto
  then show ?thesis using Some i by (auto simp: the_ue_def set_ue_def ix split: option.split)
qed

text \<open>The bearer of a channel of a UE.\<close>

definition channel :: "nr_rlc_ue_manager_t \<Rightarrow> int \<Rightarrow> nat \<Rightarrow> rlc_slot option res" where
  "channel m ue_id ch = get_rlc_entity_from_lcid (the_ue m ue_id) ch"

lemma on_lcid_present:
  assumes "rlc_ok m" "channel m ue_id ch = Inr (Some s)" "rlc_at m (ue_id, s) = Some e" "f e = Inr (r, e')"
    "callback_slot s \<or> new_upcalls e e' = []"
  obtains out m' where "on_lcid f1 m ue_id ch d f = Inr (r, out, m')" "rlc_at m' = (rlc_at m)((ue_id, s) \<mapsto> e')" "rlc_ok m'"
proof -
  obtain i where i: "rlc_ue_index (rum_list m) ue_id = Some i" "slot_get (rum_list m ! i) s = Some e"
    "get_rlc_entity_from_lcid (rum_list m ! i) ch = Inr (Some s)"
    using assms(2,3) by (auto simp: channel_def the_ue_def split: option.splits)
  obtain out where out: "handle_upcalls f1 (rum_mode m) (rum_list m ! i) s (new_upcalls e e') = Inr out"
    using handle_upcalls_total assms(5) by (metis handle_upcalls.simps(1))
  have "on_lcid f1 m ue_id ch d f = Inr (r, out, rlc_put m (ue_id, s) e')"
    using i out assms(4) by (simp add: on_lcid_def on_ue_def nr_rlc_manager_get_ue_def on_slot_def)
  then show thesis
    by (rule that) (use rlc_table.lookup_store [OF assms(1,3)] rlc_table.store_inv [OF assms(1,3)] in simp_all)
qed

section \<open>Transport blocks\<close>

text \<open>
  What MAC relies on when it fills a transport block from an entity: the entity produces a PDU that fits,
  or nothing, and stays ready.
\<close>

locale mac_source =
  fixes gen :: "u64 \<Rightarrow> 'e \<Rightarrow> byte list \<Rightarrow> (int \<times> byte list \<times> 'e) res"
    and ready :: "'e \<Rightarrow> bool"
  assumes gen_fits: "ready e \<Longrightarrow> \<exists>r b e'. gen clk e buf = Inr (r, b, e') \<and> 0 \<le> r \<and> r \<le> int (length buf) \<and> length b = length buf \<and> ready e'"
begin

lemma multi_pdu_fits:
  "ready e \<Longrightarrow> \<exists>sizes b e'. multi_pdu gen clk n buf e = Inr ((sizes, b), e') \<and> length b = length buf \<and> ready e' \<and>
     length sizes \<le> n \<and> (\<forall>s \<in> set sizes. 0 < s) \<and> sum_list (map ((+) 3) sizes) \<le> int (length buf)"
proof (induction n arbitrary: buf e)
  case (Suc n)
  show ?case
  proof (cases "int (length buf) - 3 > 0")
    case True
    obtain r c e1 where g: "gen (clk n) e (drop 3 buf) = Inr (r, c, e1)" "0 \<le> r" "r \<le> int (length (drop 3 buf))"
      "length c = length (drop 3 buf)" "ready e1"
      using gen_fits [OF Suc.prems] by blast
    show ?thesis
    proof (cases "r = 0")
      case True
      then show ?thesis using g \<open>int (length buf) - 3 > 0\<close> by (simp add: min_def)
    next
      case False
      obtain sizes b e' where m: "multi_pdu gen clk n (drop (nat r) c) e1 = Inr ((sizes, b), e')" "length b = length (drop (nat r) c)"
        "ready e'" "length sizes \<le> n" "\<forall>s \<in> set sizes. 0 < s" "sum_list (map ((+) 3) sizes) \<le> int (length (drop (nat r) c))"
        using Suc.IH [OF g(5), of "drop (nat r) c"] by blast
      have "multi_pdu gen clk (Suc n) buf e = Inr ((r # sizes, take 3 buf @ take (nat r) c @ b), e')"
        using True False g(1) m(1) by simp
      moreover have "length (take 3 buf @ take (nat r) c @ b) = length buf" using True g(2-4) m(2) by simp
      moreover have "sum_list (map ((+) 3) (r # sizes)) \<le> int (length buf)" using True g(2-4) m(6) by simp
      moreover have "length (r # sizes) \<le> Suc n" "\<forall>s \<in> set (r # sizes). 0 < s" using g(2) False m(4,5) by simp_all
      ultimately show ?thesis using m(3) by blast
    qed
  qed (use Suc.prems in simp)
qed simp

text \<open>MAC stops before the block is full only when the entity has nothing that fits.\<close>

lemma multi_pdu_full:
  assumes "ready e" "multi_pdu gen clk n buf e = Inr ((sizes, b), e')" "length sizes < n"
  shows "int (length buf) - sum_list (map ((+) 3) sizes) \<le> 3 \<or>
    (\<exists>e1 c d k. gen k e1 c = Inr (0, d, e') \<and> ready e1 \<and> int (length c) = int (length buf) - sum_list (map ((+) 3) sizes) - 3)"
  using assms
proof (induction n arbitrary: buf e sizes b)
  case (Suc n)
  show ?case
  proof (cases "int (length buf) - 3 > 0")
    case True
    obtain r c e1 where g: "gen (clk n) e (drop 3 buf) = Inr (r, c, e1)" "0 \<le> r" "r \<le> int (length (drop 3 buf))"
      "length c = length (drop 3 buf)" "ready e1"
      using gen_fits [OF Suc.prems(1)] by blast
    show ?thesis
    proof (cases "r = 0")
      case r0: True
      then have "sizes = []" "e' = e1" using Suc.prems(2) True g(1) by auto
      with g(1) r0 True Suc.prems(1) show ?thesis by (intro disjI2 exI [of _ e] exI [of _ "drop 3 buf"] exI [of _ c] exI [of _ "clk n"]) auto
    next
      case False
      then obtain s b' where m: "sizes = r # s" "multi_pdu gen clk n (drop (nat r) c) e1 = Inr ((s, b'), e')"
        using Suc.prems(2) True g(1) by auto
      have eq: "int (length buf) - sum_list (map ((+) 3) sizes) = int (length (drop (nat r) c)) - sum_list (map ((+) 3) s)"
        using g(2-4) True by (simp add: m(1))
      show ?thesis unfolding eq by (rule Suc.IH [OF g(5) m(2)]) (use Suc.prems(3) m(1) in simp)
    qed
  qed (use Suc.prems in auto)
qed simp

end

text \<open>The entities of all three kinds are such sources.\<close>

fun mac_ready :: "nr_rlc_entity_t \<Rightarrow> bool" where
  "mac_ready (Tm_entity e) = tm_inv e"
| "mac_ready (Um_entity e) = (\<exists>lk. um_tx_inv lk e)"
| "mac_ready (Am_entity e) = ((\<exists>lk. am_tx_inv lk e) \<and> am_report_ok e)"

interpretation rlc_source: mac_source ent_generate_pdu mac_ready
proof
  fix e clk buf assume "mac_ready e"
  then show "\<exists>r b e'. ent_generate_pdu clk e buf = Inr (r, b, e') \<and> 0 \<le> r \<and> r \<le> int (length buf) \<and> length b = length buf \<and> mac_ready e'"
  proof (cases e)
    case (Tm_entity t)
    then show ?thesis using tm_generate_bounds [of t clk buf] \<open>mac_ready e\<close> by fastforce
  next
    case (Um_entity u)
    then obtain lk where "um_tx_inv lk u" using \<open>mac_ready e\<close> by auto
    from um_generate_bounds [OF this, of clk buf] Um_entity show ?thesis by fastforce
  next
    case (Am_entity a)
    then obtain lk where "am_tx_inv lk a" "am_report_ok a" using \<open>mac_ready e\<close> by auto
    from am_generate_spec [OF this, of clk buf] Am_entity show ?thesis by fastforce
  qed
qed

text \<open>An entity in transparent mode, the one of SRB 0, makes no callbacks when it is asked for PDUs.\<close>

lemma tm_generate_quiet:
  "nr_rlc_entity_tm_generate_pdu clk t buf = Inr (r, b, t') \<Longrightarrow> c_upcalls (tm_common t') = c_upcalls (tm_common t)"
  by (auto simp: nr_rlc_entity_tm_generate_pdu_def tm_generate_tx_pdu_def Let_def add_avg_time_def add_tx_size_def
    split: list.splits if_splits)

lemma multi_pdu_tm_quiet:
  "multi_pdu ent_generate_pdu clk n buf (Tm_entity t) = Inr (x, e') \<Longrightarrow>
     \<exists>t'. e' = Tm_entity t' \<and> c_upcalls (tm_common t') = c_upcalls (tm_common t)"
proof (induction n arbitrary: buf t x)
  case (Suc n)
  then show ?case by (fastforce dest: tm_generate_quiet split: if_splits)
qed auto

section \<open>Properties\<close>

text \<open>
  C11: assembly of a transport block. MAC asks for the PDUs of a logical channel, at most \<open>n\<close> of them, with
  three bytes for its own header before each. The channel leads to an entity in transparent mode, or to one
  in any mode on SRB 1, SRB 2 or a data bearer (the callbacks of SRB 3 end the process), and the entity, told
  the time first, runs its timers without a fault and is consistent then. The request succeeds; the PDUs with
  their headers fit the block and every PDU is non-empty; the entity stays consistent and no other entity of
  any UE changes. The block is left with room for a PDU, and fewer than \<open>n\<close> PDUs in it, only when the entity,
  asked for a PDU of just that room, had none.
\<close>

theorem rlc_transport_block:
  assumes "rlc_ok m" "channel m ue ch = Inr (Some s)" "rlc_at m (ue, s) = Some e"
    "callback_slot s \<or> (\<exists>t. e = Tm_entity t)" "ent_set_time e now = Inr e1" "mac_ready e1"
  shows "\<exists>sizes b out m' e'. nr_mac_rlc_multi_data_req f1 clk now m ue ch buf n = Inr ((sizes, b), out, m') \<and>
     rlc_ok m' \<and> rlc_at m' = (rlc_at m)((ue, s) \<mapsto> e') \<and> mac_ready e' \<and> length b = length buf \<and> length sizes \<le> n \<and>
     (\<forall>x \<in> set sizes. 0 < x) \<and> sum_list (map ((+) 3) sizes) \<le> int (length buf) \<and>
     (length sizes < n \<longrightarrow> int (length buf) - sum_list (map ((+) 3) sizes) \<le> 3 \<or>
       (\<exists>e2 c d k. ent_generate_pdu k e2 c = Inr (0, d, e') \<and> mac_ready e2 \<and>
          int (length c) = int (length buf) - sum_list (map ((+) 3) sizes) - 3))"
proof -
  obtain sizes b e' where g: "multi_pdu ent_generate_pdu clk n buf e1 = Inr ((sizes, b), e')" "length b = length buf" "mac_ready e'"
    "length sizes \<le> n" "\<forall>x \<in> set sizes. 0 < x" "sum_list (map ((+) 3) sizes) \<le> int (length buf)"
    using rlc_source.multi_pdu_fits [OF assms(6)] by blast
  have timed: "timed now (multi_pdu ent_generate_pdu clk n buf) e = Inr ((sizes, b), e')" using assms(5) g(1) by (simp add: timed_def)
  have quiet: "callback_slot s \<or> new_upcalls e e' = []"
    using assms(4,5) g(1) by (auto simp: new_upcalls_def nr_rlc_entity_tm_set_time_def dest!: multi_pdu_tm_quiet)
  from on_lcid_present [where f = "timed now (multi_pdu ent_generate_pdu clk n buf)", OF assms(1-3) timed quiet]
  obtain out m' where "nr_mac_rlc_multi_data_req f1 clk now m ue ch buf n = Inr ((sizes, b), out, m')"
    "rlc_at m' = (rlc_at m)((ue, s) \<mapsto> e')" "rlc_ok m'"
    unfolding nr_mac_rlc_multi_data_req_def by blast
  with g rlc_source.multi_pdu_full [OF assms(6) g(1)] show ?thesis by blast
qed

text \<open>An entity whose reference counts are exact, and its deletion.\<close>

fun rlc_clean :: "nr_rlc_entity_t \<Rightarrow> bool" where
  "rlc_clean (Tm_entity e) = tm_inv e"
| "rlc_clean (Um_entity e) = um_tx_inv (\<lambda>_. 0) e"
| "rlc_clean (Am_entity e) = (am_tx_inv (\<lambda>_. 0) e \<and> rm_size (am_rx e) = am_window_size e)"

lemma ent_delete_ok: "rlc_clean e \<Longrightarrow> \<exists>h. ent_delete e = Inr h \<and> (\<forall>a. h_sdus h a = None)"
proof (cases e)
  case (Tm_entity t)
  assume "rlc_clean e"
  then obtain h where "nr_rlc_free_sdu_segment_list (tm_heap t) (tm_tx_list t) = Inr h" "heap_ok h []"
    using heap_ok_free_list [of "\<lambda>_. 0" "tm_heap t" "tm_tx_list t" "[]"] Tm_entity by (auto simp: tm_inv_def)
  with heap_ok_Nil Tm_entity show ?thesis by (auto simp: nr_rlc_entity_tm_delete_def tm_clear_entity_def)
qed (use um_delete_ok am_delete_ok in force)+

lemma delete_rbs_ok:
  "\<forall>e. Some e \<in> set l \<longrightarrow> rlc_clean e \<Longrightarrow>
   \<exists>hs. delete_rbs l = Inr hs \<and> length hs = length (filter (\<lambda>x. x \<noteq> None) l) \<and> (\<forall>h \<in> set hs. \<forall>a. h_sdus h a = None)"
proof (induction l rule: delete_rbs.induct)
  case (3 e l)
  then have "rlc_clean e" by simp
  from ent_delete_ok [OF this] obtain h where "ent_delete e = Inr h" "\<forall>a. h_sdus h a = None" by blast
  with 3 show ?case by auto
qed auto

text \<open>The number of entities of a UE.\<close>

lemma card_slots:
  "card {s. slot_get u s \<noteq> None} = length (filter (\<lambda>x. x \<noteq> None) (ru_srb0 u # ru_srb u @ ru_drb u))"
proof -
  let ?A = "{s. s = Srb0 \<and> ru_srb0 u \<noteq> None}"
  let ?B = "Srb ` {i. i < length (ru_srb u) \<and> ru_srb u ! i \<noteq> None}" and ?C = "Drb ` {i. i < length (ru_drb u) \<and> ru_drb u ! i \<noteq> None}"
  have "{s. slot_get u s \<noteq> None} = ?A \<union> ?B \<union> ?C" (is "?S = _")
  proof (intro set_eqI)
    fix s show "s \<in> ?S \<longleftrightarrow> s \<in> ?A \<union> ?B \<union> ?C" by (cases s) auto
  qed
  moreover have "card ?A = (if ru_srb0 u \<noteq> None then 1 else 0)" by simp
  moreover have "card ?B = length (filter (\<lambda>x. x \<noteq> None) (ru_srb u))" "card ?C = length (filter (\<lambda>x. x \<noteq> None) (ru_drb u))"
    unfolding length_filter_conv_card by (auto intro!: card_image inj_onI)
  moreover have "card (?A \<union> ?B \<union> ?C) = card ?A + card ?B + card ?C" by (subst card_Un_disjoint; (subst card_Un_disjoint)?; auto)
  ultimately show ?thesis by simp
qed

lemma remove_nth:
  assumes "distinct (map ru_ue_id l)" "rlc_ue_index l ue = Some i"
  shows "take i l @ drop (Suc i) l = filter (\<lambda>u. ru_ue_id u \<noteq> ue) l"
  using assms
proof (induction l arbitrary: i)
  case (Cons u l)
  show ?case
  proof (cases "ru_ue_id u = ue")
    case True
    then have "ue \<notin> ru_ue_id ` set l" using Cons.prems(1) by auto
    then have "filter (\<lambda>u. ru_ue_id u \<noteq> ue) l = l" unfolding filter_id_conv by blast
    then show ?thesis using True Cons.prems(2) by auto
  next
    case False
    then obtain j where "rlc_ue_index l ue = Some j" "i = Suc j" using Cons.prems(2) by auto
    then show ?thesis using False Cons by simp
  qed
qed simp

lemma rlc_at_filter:
  "(case rlc_ue_index (filter (\<lambda>u. ru_ue_id u \<noteq> ue) l) v of None \<Rightarrow> None | Some i \<Rightarrow> slot_get (filter (\<lambda>u. ru_ue_id u \<noteq> ue) l ! i) s) =
   (if v = ue then None else case rlc_ue_index l v of None \<Rightarrow> None | Some i \<Rightarrow> slot_get (l ! i) s)"
  by (induction l) (auto split: option.splits)

text \<open>
  C33: removal of a UE. When all of its entities are consistent, \<open>nr_rlc_remove_ue\<close> succeeds, deletes each of
  them, SRB 0 and all data bearers included, and frees every SDU in them; the UE is gone from the table and
  the entities of all other UEs are as before. Without entities, or without the UE, nothing is deleted.
\<close>

theorem rlc_remove_ue_frees_all:
  assumes "rlc_ok m" "\<forall>s e. rlc_at m (ue, s) = Some e \<longrightarrow> rlc_clean e"
  shows "\<exists>hs m'. nr_rlc_remove_ue m ue = Inr (hs, m') \<and> length hs = card {s. rlc_at m (ue, s) \<noteq> None} \<and>
     (\<forall>h \<in> set hs. \<forall>a. h_sdus h a = None) \<and> rlc_ok m' \<and> rlc_at m' = (\<lambda>(v, s). if v = ue then None else rlc_at m (v, s))"
proof (cases "rlc_ue_index (rum_list m) ue")
  case None
  then show ?thesis using assms(1) by (simp add: nr_rlc_remove_ue_def nr_rlc_manager_remove_ue_def fun_eq_iff)
next
  case (Some i)
  let ?u = "rum_list m ! i" and ?m = "m\<lparr>rum_list := filter (\<lambda>u. ru_ue_id u \<noteq> ue) (rum_list m)\<rparr>"
  have at: "rlc_at m (ue, s) = slot_get ?u s" for s using Some by simp
  have "rlc_clean e" if e: "Some e \<in> set (ru_srb0 ?u # ru_srb ?u @ ru_drb ?u)" for e
  proof -
    have "\<exists>s. slot_get ?u s = Some e"
      using e by (auto simp: in_set_conv_nth intro: exI [of _ Srb0] exI [of _ "Srb _"] exI [of _ "Drb _"])
    then show ?thesis using assms(2) at by auto
  qed
  then obtain hs where hs: "delete_rbs (ru_srb0 ?u # ru_srb ?u @ ru_drb ?u) = Inr hs" "length hs = card {s. slot_get ?u s \<noteq> None}"
    "\<forall>h \<in> set hs. \<forall>a. h_sdus h a = None"
    using delete_rbs_ok [of "ru_srb0 ?u # ru_srb ?u @ ru_drb ?u"] unfolding card_slots by blast
  have d: "distinct (map ru_ue_id (rum_list m))" using assms(1) by (simp add: rlc_ok_def)
  have "nr_rlc_remove_ue m ue = Inr (hs, ?m)"
    using Some hs(1) remove_nth [OF d Some] by (simp add: nr_rlc_remove_ue_def nr_rlc_manager_remove_ue_def Let_def)
  moreover have "rlc_ok ?m" using assms(1) by (auto simp: rlc_ok_def distinct_map_filter)
  moreover have "rum_list ?m = filter (\<lambda>u. ru_ue_id u \<noteq> ue) (rum_list m)" by simp
  then have "rlc_at ?m (v, s) = (if v = ue then None else rlc_at m (v, s))" for v s
    by (simp only: rlc_at.simps rlc_at_filter)
  then have "rlc_at ?m = (\<lambda>(v, s). if v = ue then None else rlc_at m (v, s))" by (simp add: fun_eq_iff)
  moreover have "length hs = card {s. rlc_at m (ue, s) \<noteq> None}" using hs(2) by (simp only: at)
  ultimately show ?thesis using hs(3) by (intro exI [of _ hs] exI [of _ ?m] conjI)
qed

text \<open>The entity that a configuration describes.\<close>

definition config_entity :: "NR_RLC_Config_t \<Rightarrow> nr_rlc_entity_t res" where
  "config_entity c =
     (case c of
        NR_RLC_Config_am am \<Rightarrow>
          bindr (decode_am am) (\<lambda>p.
          bindr (new_sn_length rlc_sn_field_lengths_am (ac_dl_sn_FieldLength am) (ac_ul_sn_FieldLength am)) (new_am p))
      | NR_RLC_Config_um_Bi_Directional um \<Rightarrow>
          bindr (decode_value rlc_t_reassemblies (uc_t_Reassembly um)) (\<lambda>t.
          bindr (new_sn_length rlc_sn_field_lengths_um (uc_dl_sn_FieldLength um) (uc_ul_sn_FieldLength um)) (\<lambda>n.
          bindr (new_nr_rlc_entity_um RLC_MAXSIZE RLC_MAXSIZE t n) (\<lambda>e. Inr (Um_entity e))))
      | NR_RLC_Config_um_Uni_Directional \<Rightarrow> Inl Exit_fatal)"

lemma add_drb_config:
  assumes "bc_rlc_Config bc = Some c" "config_entity c = Inr e" "1 \<le> drb" "drb \<le> 32"
  shows "nr_rlc_add_drb m ue drb bc = add_drb_entity m ue drb bc (Inr e)"
  using assms by (cases c) (auto simp: nr_rlc_add_drb_def add_drb_am_def add_drb_um_def config_entity_def)

lemma find_lcid_update: "rb \<notin> set l \<Longrightarrow> i < length l \<Longrightarrow> find_lcid rb n (l[i := rb]) = n + i"
  by (induction l arbitrary: i n) (auto split: nat.split)

text \<open>
  a new data bearer. When the configuration is valid and describes a new bearer on a channel from 1 to 32,
  \<open>nr_rlc_add_drb\<close> succeeds: the bearer has the entity that the configuration describes, the channel
  leads to it and it leads back to the channel; all other entities, of this UE and of others, and all other
  channels are as before.
\<close>

lemma rlc_add_drb_routes:
  assumes "rlc_ok m" "bc_rlc_Config bc = Some c" "config_entity c = Inr e" "bc_servedRadioBearer bc = NR_LCID_DRB drb"
    "1 \<le> drb" "drb \<le> 32" "bc_logicalChannelIdentity bc = int ch" "1 \<le> ch" "ch \<le> 32"
    "rlc_at m (ue, Drb (nat (drb - 1))) = None" "NR_LCID_DRB drb \<notin> set (ru_lcid2rb (the_ue m ue))"
  shows "\<exists>m'. nr_rlc_add_drb m ue drb bc = Inr m' \<and> rlc_ok m' \<and> rlc_at m' = (rlc_at m)((ue, Drb (nat (drb - 1))) \<mapsto> e) \<and>
     channel m' ue ch = Inr (Some (Drb (nat (drb - 1)))) \<and> nr_rlc_get_lcid_from_rb m' ue False drb = Inr (ch, (), m') \<and>
     (\<forall>v k. (v, k) \<noteq> (ue, ch) \<longrightarrow> channel m' v k = channel m v k)"
proof -
  let ?u = "the_ue m ue" and ?i = "nat (drb - 1)"
  let ?v = "?u\<lparr>ru_lcid2rb := (ru_lcid2rb ?u)[ch - 1 := NR_LCID_DRB drb], ru_drb := (ru_drb ?u)[?i := Some e]\<rparr>"
  let ?m = "set_ue m ue ?v"
  have ok: "rlc_ue_ok ?u" by (rule the_ue_ok [OF assms(1)])
  then have len: "length (ru_drb ?u) = 32" "length (ru_lcid2rb ?u) = 32" by (simp_all add: rlc_ue_ok_def)
  have i: "?i < 32" "ch - 1 < 32" using assms(5,6,8,9) by simp_all
  have id: "ru_ue_id ?v = ue" by (simp add: the_ue_id)
  have none: "ru_drb ?u ! ?i = None" using assms(10) i(1) len(1) by (simp only: rlc_at_the_ue) simp
  have "nat (int ch - 1) = ch - 1" using assms(8) by simp
  then have "nr_rlc_add_drb m ue drb bc = Inr ?m"
    using assms(4-9) none
    by (simp add: add_drb_config [OF assms(2,3,5,6)] add_drb_entity_def on_ue_eq set_lcid_def nr_rlc_ue_add_drb_rlc_entity_def)
  moreover have "rlc_ok ?m" by (rule set_ue_ok [OF assms(1) id]) (use ok in \<open>simp add: rlc_ue_ok_def\<close>)
  moreover have "slot_get ?v s = (if s = Drb ?i then Some e else slot_get ?u s)" for s
    using i(1) len(1) by (cases s) auto
  then have "rlc_at ?m (v, s) = ((rlc_at m)((ue, Drb ?i) \<mapsto> e)) (v, s)" for v s
    using the_set_ue [OF id, of m v] i(1) len(1) by (simp add: rlc_at_the_ue del: rlc_at.simps)
  then have "rlc_at ?m = (rlc_at m)((ue, Drb ?i) \<mapsto> e)" by (intro ext) (metis surj_pair)
  moreover have lc: "get_rlc_entity_from_lcid ?v k = (if k = ch then Inr (Some (Drb ?i)) else get_rlc_entity_from_lcid ?u k)" for k
    using assms(5,6,8) i len(2) by (auto simp: get_rlc_entity_from_lcid_def lcid_slot_def nth_list_update)
  then have "channel ?m v k = (if (v, k) = (ue, ch) then Inr (Some (Drb ?i)) else channel m v k)" for v k
    using the_set_ue [OF id, of m v] by (simp add: channel_def)
  moreover have "nr_rlc_get_lcid_from_rb ?m ue False drb = Inr (ch, (), set_ue ?m ue ?v)"
    using the_set_ue [OF id, of m ue] find_lcid_update [OF assms(11), of "ch - 1" 1] i(2) len(2) assms(8)
    by (simp add: nr_rlc_get_lcid_from_rb_def on_ue_eq)
  moreover have "set_ue ?m ue ?v = ?m"
    using rlc_ue_index_Some [of "rum_list m" ue] id
    by (auto simp: set_ue_def rlc_ue_index_append rlc_ue_index_update split: option.split)
  ultimately show ?thesis by (intro exI [of _ ?m]) simp
qed

subsection \<open>Witnesses\<close>

text \<open>One UE with an unacknowledged mode bearer on channel 4, in which six bytes are queued.\<close>

definition example_rlc :: "nr_rlc_entity_um \<Rightarrow> nr_rlc_ue_manager_t" where
  "example_rlc e =
     \<lparr>rum_list = [(new_rlc_ue 7)\<lparr>ru_lcid2rb := (replicate 32 NR_LCID_NONE)[3 := NR_LCID_DRB 1],
                               ru_drb := (replicate 32 None)[0 := Some (Um_entity e)]\<rparr>],
      rum_mode = NR_RLC_OP_MODE_MONO_GNB\<rparr>"

lemma example_rlc_facts:
  "rlc_ok (example_rlc e)" "channel (example_rlc e) 7 4 = Inr (Some (Drb 0))" "rlc_at (example_rlc e) (7, Drb 0) = Some (Um_entity e)"
  "rlc_at (example_rlc e) (7, s) = Some x \<Longrightarrow> s = Drb 0 \<and> x = Um_entity e"
  by (simp_all add: example_rlc_def rlc_ok_def rlc_ue_ok_def new_rlc_ue_def channel_def the_ue_def get_rlc_entity_from_lcid_def lcid_slot_def)
    (cases s; auto simp: nth_Cons nth_list_update split: if_splits)

theorem rlc_transport_block_witness:
  "\<exists>e sizes b out m'. um_queue e = [([1, 2, 3, 4, 5, 6], 0)] \<and>
     nr_mac_rlc_multi_data_req (\<lambda>_. 0) (\<lambda>_. 0) 5 (example_rlc e) 7 4 (replicate 20 0) 3 = Inr ((sizes, b), out, m') \<and>
     length sizes \<le> 3 \<and> sum_list (map ((+) 3) sizes) \<le> 20"
proof -
  obtain e where e: "um_tx_inv (\<lambda>_. 0) e" "um_queue e = [([1, 2, 3, 4, 5, 6], 0)]" "um_t_reassembly_start e = 0"
    using um_example by blast
  let ?e = "e\<lparr>um_t_current := 5\<rparr>"
  have st: "ent_set_time (Um_entity e) 5 = Inr (Um_entity ?e)"
    using e(3) by (simp add: nr_rlc_entity_um_set_time_def um_check_t_reassembly_def)
  have "um_seg_cost ?e = um_seg_cost e" by (simp add: um_seg_cost_def um_compute_pdu_header_size_def fun_eq_iff)
  then have rd: "mac_ready (Um_entity ?e)" using e(1) by (auto simp: um_tx_inv_def um_sn_len_def)
  have "callback_slot (Drb 0) \<or> (\<exists>t. Um_entity e = Tm_entity t)" by simp
  from rlc_transport_block [OF example_rlc_facts(1-3) this st rd, where buf = "replicate 20 0" and n = 3 and ?f1.0 = "\<lambda>_. 0" and clk = "\<lambda>_. 0"]
  obtain sizes b out m' where "nr_mac_rlc_multi_data_req (\<lambda>_. 0) (\<lambda>_. 0) 5 (example_rlc e) 7 4 (replicate 20 0) 3 = Inr ((sizes, b), out, m')"
    "length sizes \<le> 3" "sum_list (map ((+) 3) sizes) \<le> int (length (replicate 20 (0 :: byte)))" by blast
  with e(2) show ?thesis by (intro exI conjI) simp_all
qed

theorem rlc_remove_ue_frees_all_witness:
  "\<exists>e h m'. um_queue e = [([1, 2, 3, 4, 5, 6], 0)] \<and> nr_rlc_remove_ue (example_rlc e) 7 = Inr ([h], m') \<and> h_sdus h = (\<lambda>_. None)"
proof -
  obtain e where e: "um_tx_inv (\<lambda>_. 0) e" "um_queue e = [([1, 2, 3, 4, 5, 6], 0)]" using um_example by blast
  have "\<forall>s x. rlc_at (example_rlc e) (7, s) = Some x \<longrightarrow> rlc_clean x" using example_rlc_facts(4) [of e] e(1) by (metis rlc_clean.simps(2))
  from rlc_remove_ue_frees_all [OF example_rlc_facts(1) this] obtain hs m' where r:
    "nr_rlc_remove_ue (example_rlc e) 7 = Inr (hs, m')" "length hs = card {s. rlc_at (example_rlc e) (7, s) \<noteq> None}"
    "\<forall>h \<in> set hs. \<forall>a. h_sdus h a = None" by blast
  have "rlc_at (example_rlc e) (7, s) \<noteq> None \<longleftrightarrow> s = Drb 0" for s by (metis not_None_eq example_rlc_facts(3,4))
  then have "length hs = card {s. s = Drb 0}" using r(2) by (simp only:)
  then have "length hs = 1" by simp
  then obtain h where "hs = [h]" by (auto simp: length_Suc_conv)
  with r(1,3) e(2) show ?thesis by (intro exI [of _ e] exI [of _ h] exI [of _ m']) (simp add: fun_eq_iff)
qed

lemma rlc_add_drb_routes_example:
  "\<exists>e m'. new_nr_rlc_entity_um 10000000 10000000 35 12 = Inr e \<and>
     nr_rlc_add_drb (new_nr_rlc_ue_manager NR_RLC_OP_MODE_UE) 7 1
       \<lparr>bc_logicalChannelIdentity = 4, bc_servedRadioBearer = NR_LCID_DRB 1,
        bc_rlc_Config = Some (NR_RLC_Config_um_Bi_Directional \<lparr>uc_t_Reassembly = 7, uc_dl_sn_FieldLength = Some 1, uc_ul_sn_FieldLength = Some 1\<rparr>)\<rparr> = Inr m' \<and>
     rlc_at m' (7, Drb 0) = Some (Um_entity e) \<and> nr_rlc_get_lcid_from_rb m' 7 False 1 = Inr (4, (), m')"
proof -
  let ?m = "new_nr_rlc_ue_manager NR_RLC_OP_MODE_UE"
  let ?c = "NR_RLC_Config_um_Bi_Directional \<lparr>uc_t_Reassembly = 7, uc_dl_sn_FieldLength = Some 1, uc_ul_sn_FieldLength = Some 1\<rparr>"
  let ?bc = "\<lparr>bc_logicalChannelIdentity = 4, bc_servedRadioBearer = NR_LCID_DRB 1, bc_rlc_Config = Some ?c\<rparr>"
  obtain e where e: "new_nr_rlc_entity_um 10000000 10000000 35 12 = Inr e" using new_um_Inr by blast
  have "rlc_ok ?m" by (simp add: rlc_ok_def new_nr_rlc_ue_manager_def)
  moreover have "config_entity ?c = Inr (Um_entity e)"
    using e by (simp add: config_entity_def decode_value_def rlc_t_reassemblies_def new_sn_length_def rlc_sn_field_lengths_um_def)
  moreover have "rlc_at ?m (7, Drb 0) = None" "NR_LCID_DRB 1 \<notin> set (ru_lcid2rb (the_ue ?m 7))"
    by (simp_all add: new_nr_rlc_ue_manager_def the_ue_def new_rlc_ue_def)
  ultimately show ?thesis using rlc_add_drb_routes [of ?m ?bc ?c "Um_entity e" 1 4 7] e by (auto simp del: rlc_at.simps)
qed

end
