(* ===== verification/Nr_Rlc_Um_Link.thy ===== *)
theory Nr_Rlc_Um_Link
  imports Nr_Rlc_Um_Tx
begin

text \<open>
  Two unacknowledged mode entities over a link that loses nothing and keeps the order: SDUs are
  submitted to one, MAC asks it for PDUs of any sizes, and each PDU is handed to the other. The
  inductive relation \<open>um_link\<close> gives the reachable states. \<open>um_link_in_order\<close> states that the
  receiver has delivered exactly a prefix of the accepted SDUs, in order, without loss, duplication
  or corruption, and that the transmitter still queues the rest; \<open>um_link_progress\<close> states that
  every grant of five bytes or more brings the transfer forward.
\<close>

section \<open>The receiver on a PDU of the transmitter\<close>

definition um_count_rx :: "nr_rlc_entity_um \<Rightarrow> byte list \<Rightarrow> nr_rlc_entity_um" where
  "um_count_rx e pdu = e\<lparr>um_common := upd_stats (stat_rxpdu (int (length pdu))) (um_common e)\<rparr>"

lemma is_um_pdu_length:
  assumes "is_um_pdu n f la sn so data pdu"
  shows "8 * (length pdu - length data) = fields_width (um_hdr n f la sn so)"
    and "drop (length pdu - length data) pdu = data" and "length data \<le> length pdu"
    and "bits_of pdu = field_bits (um_hdr n f la sn so) @ bits_of data"
proof -
  obtain hdr where h: "pdu = hdr @ data" "bits_of hdr = field_bits (um_hdr n f la sn so)"
    using assms by (auto simp: is_um_pdu_def)
  have "8 * length hdr = fields_width (um_hdr n f la sn so)"
    using arg_cong [OF h(2), of length] by simp
  with h show "8 * (length pdu - length data) = fields_width (um_hdr n f la sn so)"
    "drop (length pdu - length data) pdu = data" "length data \<le> length pdu"
    "bits_of pdu = field_bits (um_hdr n f la sn so) @ bits_of data" by simp_all
qed

text \<open>The first two bits.\<close>

lemma um_read_si:
  assumes "is_um_pdu n f la sn so data pdu"
    and "\<And>d. dec_wf d \<Longrightarrow> dec_pos d = 2 \<Longrightarrow> dec_buffer d = pdu \<Longrightarrow>
      dec_rest d = field_bits (drop 2 (um_hdr n f la sn so)) @ bits_of data \<Longrightarrow>
      P (k (2 * of_bool (\<not> f) + of_bool (\<not> la)) d)"
  shows "P (read_field (nr_rlc_pdu_decoder_init pdu) 2 err k)"
proof -
  have "bits_of pdu = (val_bits 1 (of_bool (\<not> f)) @ val_bits 1 (of_bool (\<not> la))) @
      field_bits (drop 2 (um_hdr n f la sn so)) @ bits_of data"
    using is_um_pdu_length(4) [OF assms(1)] by (auto simp: um_hdr_def numeral_2_eq_2)
  then have r: "dec_rest (nr_rlc_pdu_decoder_init pdu) = val_bits 2 (2 * of_bool (\<not> f) + of_bool (\<not> la)) @
      field_bits (drop 2 (um_hdr n f la sn so)) @ bits_of data"
    unfolding val_bits_flags by simp
  show ?thesis
    by (rule read_field_val [OF dec_wf_init _ r]) (use assms(2) in auto)
qed

lemma um_flags:
  "(2 * of_bool (\<not> f) + of_bool (\<not> la) :: int) AND 2 = 0 \<longleftrightarrow> f"
  "(2 * of_bool (\<not> f) + of_bool (\<not> la) :: int) AND 1 = 0 \<longleftrightarrow> la"
  by (cases f; cases la; simp)+

lemma um_recv_whole:
  assumes "is_um_pdu (um_sn_field_length e) True True sn so data pdu" and "data \<noteq> []"
  shows "nr_rlc_entity_um_recv_pdu e pdu = Inr ((um_count_rx e pdu)\<lparr>um_common :=
     upd_stats (stat_txsdu (int (length pdu) - 1))
       (upcall (Deliver_sdu data) (um_common (um_count_rx e pdu)))\<rparr>)" (is "_ = ?r")
proof -
  note l = is_um_pdu_length [OF assms(1)]
  have "length pdu - length data = 1" using l(1) by (simp add: um_hdr_def)
  then have d: "drop 1 pdu = data" "\<not> int (length pdu) < 2" using l(2,3) assms(2) by (cases data; simp)+
  show ?thesis
    unfolding nr_rlc_entity_um_recv_pdu_def Let_def um_count_rx_def [symmetric]
    by (rule um_read_si [OF assms(1), where P = "\<lambda>r. r = ?r"]) (use d in simp)
qed

lemma um_recv_part:
  assumes pdu: "is_um_pdu (um_sn_field_length e) f la sn so data pdu" and "\<not> (f \<and> la)"
    and len: "um_sn_len e" and sn: "sn_valid (um_sn_modulus e) sn" and so: "0 \<le> so" "so < 65536"
    and fs: "f \<longleftrightarrow> so = 0"
    and P: "\<And>d. dec_byte d = length pdu - length data \<Longrightarrow> P (um_recv_segment (um_count_rx e pdu) pdu f la sn so d)"
  shows "P (nr_rlc_entity_um_recv_pdu e pdu)"
proof -
  let ?n = "um_sn_field_length e"
  have n: "um_sn_field_length (um_count_rx e pdu) = ?n" by (simp add: um_count_rx_def)
  have nn: "nat ?n \<le> 31" "0 \<le> sn" "sn < 2 ^ nat ?n"
    using len sn by (auto simp: um_sn_len_def sn_valid_def)
  have w: "8 * (length pdu - length data) = fields_width (um_hdr ?n f la sn so)"
    by (rule is_um_pdu_length(1) [OF pdu])
  define err where "err = (Inr (um_discard_pdu (um_count_rx e pdu) (int (length pdu))) :: nr_rlc_entity_um res)"
  define last_k where "last_k = (\<lambda>sn d. if \<not> f then read_field d 16 err (\<lambda>so d. if so = 0 then err
        else um_recv_segment (um_count_rx e pdu) pdu f la sn so d)
      else um_recv_segment (um_count_rx e pdu) pdu f la sn 0 d)"
  have so_step: "P (last_k sn d)"
    if d: "dec_wf d" "dec_rest d = field_bits (if f then [] else [(so, 16)]) @ bits_of data"
      "dec_pos d + (if f then 0 else 16) = 8 * (length pdu - length data)" for d
  proof (cases f)
    case True
    with d fs P [of d] dec_byte_aligned [OF d(1)] show ?thesis by (simp add: last_k_def)
  next
    case False
    then have r: "dec_rest d = val_bits 16 so @ bits_of data" using d(2) by simp
    have "P (read_field d 16 err (\<lambda>so d. if so = 0 then err
        else um_recv_segment (um_count_rx e pdu) pdu f la sn so d))"
      by (rule read_field_val [OF d(1) _ r]) (use so fs False d(3) P dec_byte_aligned in auto)
    with False show ?thesis by (simp add: last_k_def)
  qed
  have sn_step: "P (read_field d (nat ?n) err last_k)"
    if d: "dec_wf d" "dec_rest d = val_bits (nat ?n) sn @ field_bits (if f then [] else [(so, 16)]) @ bits_of data"
      "dec_pos d + nat ?n + (if f then 0 else 16) = 8 * (length pdu - length data)" for d
    by (rule read_field_val [OF d(1) nn(1) d(2) nn(2,3)]) (use d(3) in \<open>auto intro!: so_step\<close>)
  show ?thesis
    unfolding nr_rlc_entity_um_recv_pdu_def Let_def um_count_rx_def [symmetric] err_def [symmetric] n
  proof (rule um_read_si [OF pdu, where P = P], unfold um_flags last_k_def [symmetric])
    fix d assume d: "dec_wf d" "dec_pos d = 2" "dec_buffer d = pdu"
      "dec_rest d = field_bits (drop 2 (um_hdr ?n f la sn so)) @ bits_of data"
    have "P (if ?n = 12 then read_field d 2 err (\<lambda>_ d. read_field d (nat ?n) err last_k)
        else read_field d (nat ?n) err last_k)"
    proof (cases "?n = 12")
      case True
      then have r: "dec_rest d = val_bits 2 0 @ val_bits (nat ?n) sn @
          field_bits (if f then [] else [(so, 16)]) @ bits_of data"
        using d(4) assms(2) by (auto simp: um_hdr_def numeral_2_eq_2)
      have "P (read_field d 2 err (\<lambda>_ d. read_field d (nat ?n) err last_k))"
      proof (rule read_field_val [OF d(1) _ r])
        fix d' assume d': "dec_wf d'" "dec_rest d' = val_bits (nat ?n) sn @
          field_bits (if f then [] else [(so, 16)]) @ bits_of data" "dec_pos d' = dec_pos d + 2"
        show "P (read_field d' (nat ?n) err last_k)"
          by (rule sn_step [OF d'(1,2)]) (use d'(3) d(2) w assms(2) True in \<open>auto simp: um_hdr_def\<close>)
      qed simp_all
      with True show ?thesis by simp
    next
      case False
      then have r: "dec_rest d = val_bits (nat ?n) sn @
          field_bits (if f then [] else [(so, 16)]) @ bits_of data"
        using d(4) assms(2) by (auto simp: um_hdr_def numeral_2_eq_2)
      have "P (read_field d (nat ?n) err last_k)"
        by (rule sn_step [OF d(1) r]) (use d(2) w assms(2) False in \<open>auto simp: um_hdr_def\<close>)
      with False show ?thesis by simp
    qed
    with assms(2) show "P (if f \<and> la then if int (length pdu) < 2 then err
        else Inr ((um_count_rx e pdu)\<lparr>um_common := upd_stats (stat_txsdu (int (length pdu) - 1))
           (upcall (Deliver_sdu (drop 1 pdu)) (um_common (um_count_rx e pdu)))\<rparr>)
       else if ?n = 12 then read_field d 2 err (\<lambda>_ d. read_field d (nat ?n) err last_k)
       else read_field d (nat ?n) err last_k)" by auto
  qed
qed

section \<open>Contiguous segments\<close>

fun chain :: "pdus \<Rightarrow> int \<Rightarrow> int \<Rightarrow> bool" where
  "chain [] a b \<longleftrightarrow> a = b"
| "chain (p # l) a b \<longleftrightarrow> pdu_so p = a \<and> chain l (a + pdu_size p) b"

lemma chain_snoc: "chain (l @ [p]) a b \<longleftrightarrow> chain l a (pdu_so p) \<and> pdu_so p + pdu_size p = b"
  by (induction l arbitrary: a) auto

lemma chain_sum: "chain l a b \<Longrightarrow> a + sum_list (map pdu_size l) = b"
  by (induction l arbitrary: a) (fastforce simp: algebra_simps)+

lemma chain_so: "chain l a b \<Longrightarrow> \<forall>p \<in> set l. 0 < pdu_size p \<Longrightarrow> p \<in> set l \<Longrightarrow> pdu_so p < b"
proof (induction l arbitrary: a)
  case (Cons q l)
  have le: "a + pdu_size q \<le> b"
  proof -
    have "0 \<le> sum_list (map pdu_size l)" using Cons.prems(2) by (intro sum_list_nonneg) force
    then show ?thesis using chain_sum [of l "a + pdu_size q" b] Cons.prems(1) by simp
  qed
  with Cons show ?case by auto
qed simp

lemma chain_same: "chain l a a \<Longrightarrow> \<forall>p \<in> set l. 0 < pdu_size p \<Longrightarrow> l = []"
  using chain_so [of l a a] by (cases l) auto

lemma not_full_without_last: "\<forall>p \<in> set l. \<not> pdu_is_last p \<Longrightarrow> \<not> sdu_full_loop l lb"
  by (induction l arbitrary: lb) (auto simp: Let_def)

lemma chain_full:
  "chain l a (pdu_so p) \<Longrightarrow> \<forall>q \<in> set l. 0 < pdu_size q \<Longrightarrow> pdu_is_last p \<Longrightarrow>
   sdu_full_loop (l @ [p]) (a - 1)"
proof (induction l arbitrary: a)
  case (Cons q l)
  then have "sdu_full_loop (l @ [p]) (a + pdu_size q - 1)" by auto
  moreover have "max (a - 1) (pdu_so q + pdu_size q - 1) = a + pdu_size q - 1"
    using Cons.prems by auto
  ultimately show ?case using Cons.prems(1) unfolding append_Cons sdu_full_loop_Cons by auto
qed simp

section \<open>The receiver between two segments\<close>

text \<open>
  \<open>um_rx_at e sn D k\<close>: the receiver expects the sequence number \<open>sn\<close> and holds the first
  \<open>k\<close> bytes of the SDU \<open>D\<close>; everything else in its list has been delivered.
\<close>

definition um_rx_at :: "nr_rlc_entity_um \<Rightarrow> int \<Rightarrow> byte list \<Rightarrow> nat \<Rightarrow> bool" where
  "um_rx_at e sn D k \<longleftrightarrow>
     um_rx_inv e \<and> um_rx_next_reassembly e = sn \<and>
     um_rx_next_highest e = (if k = 0 then sn else (sn + 1) mod um_sn_modulus e) \<and>
     chain (filter (\<lambda>p. pdu_sn p = sn) (um_rx_list e)) 0 (int k) \<and>
     (\<forall>p \<in> set (um_rx_list e). if pdu_sn p = sn then part_of D p \<and> \<not> pdu_is_last p
                                else pdu_data p = None) \<and>
     um_rx_size e = int k \<and> NR_SDU_MAX \<le> um_rx_maxsize e"

lemma um_rx_at_facts:
  assumes "um_rx_at e sn D k"
  shows "um_rx_inv e" and "um_cfg e" and "um_sn_len e" and "sn_valid (um_sn_modulus e) sn"
    and "0 < um_window_size e" and "um_window_size e < um_sn_modulus e"
    and "\<forall>p \<in> set (filter (\<lambda>p. pdu_sn p = sn) (um_rx_list e)). 0 < pdu_size p"
    and "k = 0 \<Longrightarrow> filter (\<lambda>p. pdu_sn p = sn) (um_rx_list e) = []"
    and "um_modulus_rx e sn = (if k = 0 then um_window_size e else um_window_size e - 1)"
proof -
  show inv: "um_rx_inv e" using assms by (simp add: um_rx_at_def)
  then show cfg: "um_cfg e" and v: "sn_valid (um_sn_modulus e) sn"
    using assms by (auto simp: um_rx_at_def um_rx_inv_def um_rx_ok_def)
  then show "um_sn_len e" and w: "0 < um_window_size e" "um_window_size e < um_sn_modulus e"
    using um_cfg_pos [OF cfg] by (auto simp: um_cfg_def um_sn_len_def)
  show pos: "\<forall>p \<in> set (filter (\<lambda>p. pdu_sn p = sn) (um_rx_list e)). 0 < pdu_size p"
    using assms by (auto simp: um_rx_at_def part_of_def)
  show "filter (\<lambda>p. pdu_sn p = sn) (um_rx_list e) = []" if "k = 0"
  proof -
    have "chain (filter (\<lambda>p. pdu_sn p = sn) (um_rx_list e)) 0 0"
      using assms that by (simp add: um_rx_at_def)
    then show ?thesis by (rule chain_same [OF _ pos])
  qed
  show "um_modulus_rx e sn = (if k = 0 then um_window_size e else um_window_size e - 1)"
  proof (cases "k = 0")
    case True
    then show ?thesis using um_key_highest [OF cfg] assms by (simp add: um_rx_at_def)
  next
    case False
    then have "um_modulus_rx e sn = (sn - (sn + 1) mod um_sn_modulus e + um_window_size e) mod um_sn_modulus e"
      using um_modulus_rx_eq [OF cfg v] assms by (simp add: um_rx_at_def)
    also have "\<dots> = (sn - (sn + 1) + um_window_size e) mod um_sn_modulus e"
      by (metis mod_add_left_eq mod_diff_right_eq)
    also have "\<dots> = um_window_size e - 1" using w by (simp add: mod_pos_pos_trivial)
    finally show ?thesis using False by simp
  qed
qed

text \<open>The next segment goes to the end of the list.\<close>

definition um_next_pdu :: "int \<Rightarrow> byte list \<Rightarrow> nat \<Rightarrow> nat \<Rightarrow> nr_rlc_pdu" where
  "um_next_pdu sn D k n = nr_rlc_new_pdu sn (int k) (k = 0) (k + n = length D) (take n (drop k D))"

lemma um_next_pdu_part:
  assumes "0 < n" "k + n \<le> length D"
  shows "part_of D (um_next_pdu sn D k n)" and "pdu_sn (um_next_pdu sn D k n) = sn"
    and "pdu_so (um_next_pdu sn D k n) = int k" and "pdu_size (um_next_pdu sn D k n) = int n"
    and "pdu_is_last (um_next_pdu sn D k n) \<longleftrightarrow> k + n = length D"
  using assms by (auto simp: part_of_def um_next_pdu_def nr_rlc_new_pdu_def)

lemma insert_before_end: "\<forall>y \<in> set l. \<not> P y \<Longrightarrow> insert_before P x l = l @ [x]"
  by (induction l) auto

lemma um_append_next:
  assumes at: "um_rx_at e sn D k" and n: "0 < n" "k + n \<le> length D"
  shows "nr_rlc_pdu_list_add (um_sn_compare_rx e) (um_rx_list e) (um_next_pdu sn D k n) =
     um_rx_list e @ [um_next_pdu sn D k n]"
proof -
  note f = um_rx_at_facts [OF at]
  have "\<not> (um_sn_compare_rx e (pdu_sn q) sn > 0 \<or> (pdu_sn q = sn \<and> pdu_so q > int k))"
    if q: "q \<in> set (um_rx_list e)" for q
  proof -
    have "um_modulus_rx e (pdu_sn q) < um_window_size e"
      using f(1) q by (simp add: um_rx_inv_def um_rx_ok_def)
    moreover have "pdu_so q < int k" if "pdu_sn q = sn"
    proof (rule chain_so [OF _ f(7)])
      show "chain (filter (\<lambda>p. pdu_sn p = sn) (um_rx_list e)) 0 (int k)"
        using at by (simp add: um_rx_at_def)
    qed (use q that in simp)
    ultimately show ?thesis using f(9) by (auto simp: um_sn_compare_rx_def)
  qed
  then show ?thesis
    unfolding nr_rlc_pdu_list_add_conv um_next_pdu_part(2,3) [OF n]
    by (intro insert_before_end) blast
qed

text \<open>\<open>recv_pdu\<close> on the next segment runs the reception actions on the extended list.\<close>

definition um_with_next :: "nr_rlc_entity_um \<Rightarrow> int \<Rightarrow> byte list \<Rightarrow> nat \<Rightarrow> nat \<Rightarrow> nr_rlc_entity_um" where
  "um_with_next e sn D k n =
     e\<lparr>um_rx_size := int (k + n), um_rx_list := um_rx_list e @ [um_next_pdu sn D k n]\<rparr>"

lemma um_count_rx_at: "um_rx_at (um_count_rx e pdu) sn D k = um_rx_at e sn D k"
  by (simp add: um_rx_at_def um_count_rx_def)

lemma um_recv_next:
  assumes at: "um_rx_at e sn D k" and n: "0 < n" "k + n \<le> length D" "\<not> (k = 0 \<and> k + n = length D)"
    and D: "int (length D) \<le> NR_SDU_MAX"
    and pdu: "is_um_pdu (um_sn_field_length e) (k = 0) (k + n = length D) sn (int k) (take n (drop k D)) pdu"
  shows "nr_rlc_entity_um_recv_pdu e pdu = um_reception_actions (um_with_next (um_count_rx e pdu) sn D k n) sn"
    and "\<exists>e'. nr_rlc_entity_um_recv_pdu e pdu = Inr e' \<and> um_rx_inv e'"
proof -
  note f = um_rx_at_facts [OF at]
  let ?e = "um_count_rx e pdu"
  have at1: "um_rx_at ?e sn D k" using at by (simp add: um_count_rx_at)
  have len: "length (take n (drop k D)) = n" using n by simp
  have seg: "um_recv_segment ?e pdu (k = 0) (k + n = length D) sn (int k) d =
      um_reception_actions (um_with_next ?e sn D k n) sn"
    if d: "dec_byte d = length pdu - length (take n (drop k D))" for d
  proof -
    note l = is_um_pdu_length [OF pdu]
    have ds: "int (length pdu) - int (dec_byte d) = int n" using d l(3) len by (simp add: of_nat_diff)
    have dt: "drop (nat (int (length pdu) - int n)) pdu = take n (drop k D)"
      using l(2,3) len by (simp add: nat_diff_distrib)
    have rx: "um_rx_size ?e = int k" "NR_SDU_MAX \<le> um_rx_maxsize ?e" "um_rx_next_reassembly ?e = sn"
      using at1 by (simp_all add: um_rx_at_def)
    have p: "nr_rlc_new_pdu sn (int k) (k = 0) (k + n = length D) (take n (drop k D)) = um_next_pdu sn D k n"
      by (simp add: um_next_pdu_def)
    have "um_sn_compare_rx ?e sn sn = 0" by (simp add: um_sn_compare_rx_def)
    moreover have "int k + int n \<le> um_rx_maxsize ?e" using rx(2) D n(2) by linarith
    ultimately show ?thesis
      unfolding um_recv_segment_def Let_def ds dt rx p um_append_next [OF at1 n(1,2)] um_next_pdu_part(2) [OF n(1,2)]
      using n(1) by (simp add: um_with_next_def)
  qed
  have part: "is_um_pdu (um_sn_field_length e) (k = 0) (k + n = length D) sn (int k) (take n (drop k D)) pdu"
    "\<not> (k = 0 \<and> k + n = length D)" "um_sn_len e" "sn_valid (um_sn_modulus e) sn" "0 \<le> int k"
    "int k < 65536" "(k = 0) = (int k = 0)"
    using pdu n f(3,4) D by (simp_all add: NR_SDU_MAX_def)
  show run: "nr_rlc_entity_um_recv_pdu e pdu = um_reception_actions (um_with_next ?e sn D k n) sn"
    by (rule um_recv_part [OF part]) (rule seg)
  show "\<exists>e'. nr_rlc_entity_um_recv_pdu e pdu = Inr e' \<and> um_rx_inv e'"
    by (rule um_recv_pdu_ok [OF f(1)])
qed

lemma um_stop_t_reassembly_frame [simp]:
  "um_rx_list (um_stop_t_reassembly e) = um_rx_list e"
  "um_rx_size (um_stop_t_reassembly e) = um_rx_size e"
  "um_rx_next_reassembly (um_stop_t_reassembly e) = um_rx_next_reassembly e"
  "um_rx_next_highest (um_stop_t_reassembly e) = um_rx_next_highest e"
  "um_sn_modulus (um_stop_t_reassembly e) = um_sn_modulus e"
  "um_rx_maxsize (um_stop_t_reassembly e) = um_rx_maxsize e"
  "um_sn_field_length (um_stop_t_reassembly e) = um_sn_field_length e"
  "um_common (um_stop_t_reassembly e) = um_common e"
  unfolding um_stop_t_reassembly_def by (cases "um_t_reassembly_start e = 0"; simp)+

lemma um_start_t_reassembly_frame [simp]:
  "um_rx_list (um_start_t_reassembly e) = um_rx_list e"
  "um_rx_size (um_start_t_reassembly e) = um_rx_size e"
  "um_rx_next_reassembly (um_start_t_reassembly e) = um_rx_next_reassembly e"
  "um_rx_next_highest (um_start_t_reassembly e) = um_rx_next_highest e"
  "um_sn_modulus (um_start_t_reassembly e) = um_sn_modulus e"
  "um_rx_maxsize (um_start_t_reassembly e) = um_rx_maxsize e"
  "um_sn_field_length (um_start_t_reassembly e) = um_sn_field_length e"
  "um_common (um_start_t_reassembly e) = um_common e"
  unfolding um_start_t_reassembly_def by (cases "um_t_reassembly_start e = 0"; simp)+

text \<open>The receiver seen from outside: what it has delivered, and its fixed configuration.\<close>

definition um_rx_view :: "nr_rlc_entity_um \<Rightarrow> upcall list \<times> int \<times> int" where
  "um_rx_view e = (c_upcalls (um_common e), um_sn_field_length e, um_sn_modulus e)"

lemma um_with_next_pdus:
  assumes at: "um_rx_at e sn D k" and n: "0 < n" "k + n \<le> length D"
  defines "e1 \<equiv> um_with_next e sn D k n"
  shows "um_rx_ok e1 (\<lambda>q. pdu_sn q = sn)"
    and "sn_pdus (um_rx_list e1) sn = filter (\<lambda>p. pdu_sn p = sn) (um_rx_list e) @ [um_next_pdu sn D k n]"
    and "chain (sn_pdus (um_rx_list e1) sn) 0 (int (k + n))"
    and "\<forall>p \<in> set (sn_pdus (um_rx_list e1) sn). part_of D p"
    and "um_sdu_full e1 sn \<longleftrightarrow> sdu_full_loop (sn_pdus (um_rx_list e1) sn) (- 1)"
proof -
  note f = um_rx_at_facts [OF at] and p = um_next_pdu_part [OF n]
  have ok: "um_rx_ok (e\<lparr>um_rx_size := um_rx_size e + int (length (take n (drop k D))),
       um_rx_list := nr_rlc_pdu_list_add (um_sn_compare_rx e) (um_rx_list e)
         (nr_rlc_new_pdu sn (int k) (k = 0) (k + n = length D) (take n (drop k D)))\<rparr>) (\<lambda>q. pdu_sn q = sn)"
    by (rule um_add_pdu_ok [OF f(1,4)]) simp
  moreover have "um_rx_size e + int (length (take n (drop k D))) = int (k + n)"
    using at n by (simp add: um_rx_at_def)
  ultimately show ok1: "um_rx_ok e1 (\<lambda>q. pdu_sn q = sn)"
    using um_append_next [OF at n] by (simp add: e1_def um_with_next_def um_next_pdu_def)
  show pdus: "sn_pdus (um_rx_list e1) sn = filter (\<lambda>p. pdu_sn p = sn) (um_rx_list e) @ [um_next_pdu sn D k n]"
    unfolding um_sn_pdus [OF ok1] using p(2) by (simp add: e1_def um_with_next_def)
  show "chain (sn_pdus (um_rx_list e1) sn) 0 (int (k + n))"
    unfolding pdus chain_snoc using at p by (simp add: um_rx_at_def)
  show parts: "\<forall>p \<in> set (sn_pdus (um_rx_list e1) sn). part_of D p"
    unfolding pdus using at p(1) by (auto simp: um_rx_at_def)
  obtain q l where ql: "sn_pdus (um_rx_list e1) sn = q # l"
    using pdus by (metis append_is_Nil_conv neq_Nil_conv)
  then have "pdu_data q \<noteq> None" using parts by (auto simp: part_of_def)
  with ql show "um_sdu_full e1 sn \<longleftrightarrow> sdu_full_loop (sn_pdus (um_rx_list e1) sn) (- 1)"
    by (auto simp: um_sdu_full_def simp del: sdu_full_loop.simps)
qed

lemma sum_list_map_zero: "\<forall>x \<in> set l. f x = 0 \<Longrightarrow> sum_list (map f l) = (0::int)"
  by (induction l) auto

lemma um_rx_sn_not_before:
  "um_rx_ok e A \<Longrightarrow> P sn \<Longrightarrow> filter (\<lambda>p. pdu_sn p = sn) (dropWhile (\<lambda>p. \<not> P (pdu_sn p)) l) =
     filter (\<lambda>p. pdu_sn p = sn) l"
  by (induction l) auto

text \<open>A segment that is not the last one.\<close>

lemma um_rx_step_part:
  assumes at: "um_rx_at e sn D k" and n: "0 < n" "k + n < length D" and D: "int (length D) \<le> NR_SDU_MAX"
    and pdu: "is_um_pdu (um_sn_field_length e) (k = 0) False sn (int k) (take n (drop k D)) pdu"
  shows "\<exists>e'. nr_rlc_entity_um_recv_pdu e pdu = Inr e' \<and> um_rx_at e' sn D (k + n) \<and>
     um_rx_view e' = um_rx_view e"
proof -
  define e0 where "e0 = um_count_rx e pdu"
  have at0: "um_rx_at e0 sn D k" using at by (simp add: e0_def um_count_rx_at)
  have kn: "k + n \<le> length D" "\<not> (k = 0 \<and> k + n = length D)" "(k + n = length D) = False" using n by auto
  define e1 where "e1 = um_with_next e0 sn D k n"
  note f = um_rx_at_facts [OF at0] and w = um_with_next_pdus [OF at0 n(1) kn(1), folded e1_def]
    and p = um_next_pdu_part [OF n(1) kn(1), of sn]
  have run: "nr_rlc_entity_um_recv_pdu e pdu = um_reception_actions e1 sn"
    using um_recv_next(1) [OF at n(1) kn(1,2) D] pdu kn(3) by (simp add: e1_def e0_def)
  obtain e' where e': "nr_rlc_entity_um_recv_pdu e pdu = Inr e'" "um_rx_inv e'"
    using um_recv_next(2) [OF at n(1) kn(1,2) D] pdu kn(3) by auto
  have "\<forall>q \<in> set (sn_pdus (um_rx_list e1) sn). \<not> pdu_is_last q"
    unfolding w(2) using at0 p(5) n(2) by (auto simp: um_rx_at_def)
  then have nf: "\<not> um_sdu_full e1 sn" using w(5) not_full_without_last by blast
  have cfg1: "um_cfg e1" using w(1) by (simp add: um_rx_ok_def)
  have key: "um_modulus_rx e1 = um_modulus_rx e0" "um_window_size e1 = um_window_size e0"
    "um_sn_modulus e1 = um_sn_modulus e0" "um_rx_next_reassembly e1 = sn"
    using at0 by (simp_all add: e1_def um_with_next_def um_rx_at_def)
  have e1: "um_rx_list e1 = um_rx_list e0 @ [um_next_pdu sn D k n]" "um_rx_size e1 = int (k + n)"
    "um_common e1 = um_common e0" "um_sn_field_length e1 = um_sn_field_length e0"
    "um_rx_maxsize e1 = um_rx_maxsize e0" "um_rx_next_highest e1 = um_rx_next_highest e0"
    by (simp_all add: e1_def um_with_next_def)
  have sz0: "pdu_size q = 0" if "q \<in> set (um_rx_list e1)" "pdu_sn q \<noteq> sn" for q
    using that at0 f(1) p(2) by (auto simp: e1 um_rx_at_def um_rx_inv_def um_rx_ok_def pdu_wf_def)
  obtain e2 where e2: "um_reception_not_full e1 sn = Inr e2"
    and e2f: "um_rx_next_reassembly e2 = sn" "um_rx_next_highest e2 = (sn + 1) mod um_sn_modulus e0"
      "filter (\<lambda>q. pdu_sn q = sn) (um_rx_list e2) = filter (\<lambda>q. pdu_sn q = sn) (um_rx_list e1)"
      "set (um_rx_list e2) \<subseteq> set (um_rx_list e1)" "um_rx_size e2 = int (k + n)"
      "um_rx_maxsize e2 = um_rx_maxsize e0" "um_rx_view e2 = um_rx_view e0" "um_sn_modulus e2 = um_sn_modulus e0"
  proof (cases "k = 0")
    case False
    then have "um_reception_not_full e1 sn = Inr e1"
      using f(9) key um_ge_highest [OF cfg1, of sn] by (simp add: um_reception_not_full_def)
    then show ?thesis
      by (rule that) (use key e1 at0 False in \<open>simp_all add: um_rx_at_def um_rx_view_def\<close>)
  next
    case True
    have hi: "\<not> um_modulus_rx e1 sn < um_window_size e1" using f(9) True key by simp
    define e3 where "e3 = um_move_window e1 sn"
    have v: "sn_valid (um_sn_modulus e1) sn" using f(4) key by simp
    obtain c where c: "e3 = e1\<lparr>um_rx_next_highest := (sn + 1) mod um_sn_modulus e1,
       um_rx_list := dropWhile (\<lambda>p. \<not> um_modulus_rx e3 (pdu_sn p) < um_window_size e1) (um_rx_list e1),
       um_rx_size := um_rx_size e1 - sum_list (map pdu_size (takeWhile
         (\<lambda>p. \<not> um_modulus_rx e3 (pdu_sn p) < um_window_size e1) (um_rx_list e1))),
       um_common := c\<rparr>" "c_upcalls c = c_upcalls (um_common e1)"
      using um_move_window_frame [OF cfg1 v] unfolding e3_def by blast
    have inv3: "um_rx_inv e3" unfolding e3_def by (rule um_move_window_inv [OF w(1) v hi])
    have f3: "um_rx_next_highest e3 = (sn + 1) mod um_sn_modulus e1" "um_sn_modulus e3 = um_sn_modulus e1"
      "um_window_size e3 = um_window_size e1" "um_rx_next_reassembly e3 = sn" "um_rx_maxsize e3 = um_rx_maxsize e1"
      "um_common e3 = c" "um_sn_field_length e3 = um_sn_field_length e1"
      "um_rx_list e3 = dropWhile (\<lambda>p. \<not> um_modulus_rx e3 (pdu_sn p) < um_window_size e1) (um_rx_list e1)"
      "um_rx_size e3 = um_rx_size e1 - sum_list (map pdu_size (takeWhile
         (\<lambda>p. \<not> um_modulus_rx e3 (pdu_sn p) < um_window_size e1) (um_rx_list e1)))"
      by (subst c(1), simp add: key)+
    have cfg3: "um_cfg e3" using inv3 by (simp add: um_rx_inv_def um_rx_ok_def)
    have "um_modulus_rx e3 sn = (sn - (sn + 1) mod um_sn_modulus e1 + um_window_size e1) mod um_sn_modulus e1"
      using um_modulus_rx_eq [OF cfg3, of sn] v by (simp add: f3(1-3))
    also have "\<dots> = (sn - (sn + 1) + um_window_size e1) mod um_sn_modulus e1"
      by (metis mod_add_left_eq mod_diff_right_eq)
    also have "\<dots> = um_window_size e1 - 1" using f(5,6) key by (simp add: mod_pos_pos_trivial)
    finally have lt: "um_modulus_rx e3 sn < um_window_size e1" by simp
    have "um_reception_not_full e1 sn = Inr e3"
      unfolding um_reception_not_full_def e3_def [symmetric] Let_def
      using um_ge_highest [OF cfg1, of sn] hi um_ge_highest [OF cfg3, of sn] lt by (simp add: f3(3,4))
    moreover have "filter (\<lambda>q. pdu_sn q = sn) (um_rx_list e3) = filter (\<lambda>q. pdu_sn q = sn) (um_rx_list e1)"
      unfolding f3(8) by (rule um_rx_sn_not_before [OF w(1)]) (rule lt)
    moreover have "set (um_rx_list e3) \<subseteq> set (um_rx_list e1)"
      unfolding f3(8) by (auto dest: set_dropWhileD)
    moreover have "sum_list (map pdu_size (takeWhile
         (\<lambda>p. \<not> um_modulus_rx e3 (pdu_sn p) < um_window_size e1) (um_rx_list e1))) = 0"
      by (rule sum_list_map_zero) (use lt sz0 in \<open>auto dest!: set_takeWhileD\<close>)
    ultimately show ?thesis
      by (intro that [of e3]) (use f3(1,2,4,5,6,7,9) c(2) e1 key in \<open>simp_all add: um_rx_view_def\<close>)
  qed
  have e'2: "e' = um_start_t_reassembly (um_stop_t_reassembly e2)"
    using e'(1) run nf e2 by (simp add: um_reception_actions_def)
  have "um_rx_at e' sn D (k + n)"
    unfolding um_rx_at_def
  proof (intro conjI)
    show "chain (filter (\<lambda>p. pdu_sn p = sn) (um_rx_list e')) 0 (int (k + n))"
      using w(3) um_sn_pdus [OF w(1), of sn] by (simp add: e'2 e2f(3))
    show "\<forall>q \<in> set (um_rx_list e'). if pdu_sn q = sn then part_of D q \<and> \<not> pdu_is_last q
        else pdu_data q = None"
      using e2f(4) at0 p n(2) by (auto simp: e'2 e1 um_rx_at_def split: if_splits)
  qed (use e'(2) e2f n at0 in \<open>simp_all add: e'2 um_rx_at_def\<close>)
  moreover have "um_rx_view e' = um_rx_view e"
    using e2f(7) by (simp add: e'2 um_rx_view_def e0_def um_count_rx_def)
  ultimately show ?thesis using e'(1) by blast
qed

text \<open>The last segment.\<close>

lemma skip_delivered_once:
  assumes "delivered x" and "\<not> delivered ((x + 1) mod m)" and "0 \<le> x" and "2 \<le> m"
  shows "skip_delivered delivered m x = Inr ((x + 1) mod m)"
proof -
  obtain j where "nat m = Suc (Suc j)" using assms(4) 
    by (intro that [of "nat (m - 2)"]) linarith
  with assms show ?thesis by (simp add: skip_delivered_def)
qed

lemma um_rx_step_last:
  assumes at: "um_rx_at e sn D k" and k: "0 < k" "k < length D" and D: "int (length D) \<le> NR_SDU_MAX"
    and pdu: "is_um_pdu (um_sn_field_length e) False True sn (int k) (drop k D) pdu"
  shows "\<exists>e'. nr_rlc_entity_um_recv_pdu e pdu = Inr e' \<and>
     um_rx_at e' ((sn + 1) mod um_sn_modulus e) D' 0 \<and>
     um_rx_view e' = (fst (um_rx_view e) @ [Deliver_sdu D], snd (um_rx_view e))"
proof -
  define n where "n = length D - k"
  have n: "0 < n" "k + n \<le> length D" "k + n = length D" "\<not> (k = 0 \<and> k + n = length D)"
    using k by (auto simp: n_def)
  define e0 where "e0 = um_count_rx e pdu"
  have at0: "um_rx_at e0 sn D k" using at by (simp add: e0_def um_count_rx_at)
  define e1 where "e1 = um_with_next e0 sn D k n"
  note f = um_rx_at_facts [OF at0] and w = um_with_next_pdus [OF at0 n(1,2), folded e1_def]
    and p = um_next_pdu_part [OF n(1,2), of sn]
  have pdu': "is_um_pdu (um_sn_field_length e) (k = 0) (k + n = length D) sn (int k) (take n (drop k D)) pdu"
    using pdu k n(3) by (simp add: n_def)
  have run: "nr_rlc_entity_um_recv_pdu e pdu = um_reception_actions e1 sn"
    using um_recv_next(1) [OF at n(1,2,4) D pdu'] by (simp add: e1_def e0_def)
  obtain e' where e': "nr_rlc_entity_um_recv_pdu e pdu = Inr e'" "um_rx_inv e'"
    using um_recv_next(2) [OF at n(1,2,4) D pdu'] by auto
  let ?l = "sn_pdus (um_rx_list e1) sn"
  have full: "sdu_full_loop ?l (- 1)"
    using chain_full [of _ 0 "um_next_pdu sn D k n"] f(7) at0 p(3,5) n(3) unfolding w(2)
    by (simp add: um_rx_at_def)
  have rsm: "reassemble ?l = Inr (D, False)" by (rule reassemble_full [OF w(4) D full])
  have sum: "sum_list (map pdu_size ?l) = int (k + n)" using chain_sum [OF w(3)] by simp
  define e2 where "e2 = e1\<lparr>um_rx_list := map (free_data sn) (um_rx_list e1), um_rx_size := 0,
      um_common := upd_stats (stat_txsdu (int (length D))) (upcall (Deliver_sdu D) (um_common e1))\<rparr>"
  have ne: "?l \<noteq> []" unfolding w(2) by simp
  have del: "um_reassemble_and_deliver e1 sn = Inr e2"
  proof -
    have "um_rx_size e1 = int (k + n)" by (simp add: e1_def um_with_next_def)
    then show ?thesis using ne rsm sum um_free_data_eq [OF w(1), of sn]
      by (simp add: um_reassemble_and_deliver_def Let_def e2_def)
  qed
  have e2f: "um_rx_next_reassembly e2 = sn" "um_sn_modulus e2 = um_sn_modulus e"
    "um_rx_next_highest e2 = (sn + 1) mod um_sn_modulus e" "um_rx_maxsize e2 = um_rx_maxsize e"
    "um_rx_view e2 = (fst (um_rx_view e) @ [Deliver_sdu D], snd (um_rx_view e))" "um_rx_size e2 = 0"
    "um_rx_list e2 = map (free_data sn) (um_rx_list e1)"
    using at0 k(1) by (simp_all add: e2_def e1_def e0_def um_with_next_def um_count_rx_def um_rx_at_def um_rx_view_def)
  have none: "pdu_data q = None" if "q \<in> set (um_rx_list e2)" for q
    using that at0 p(2) unfolding e2f(7)
    by (auto simp: e1_def um_with_next_def um_rx_at_def free_data_def split: if_splits)
  have key1: "um_modulus_rx e1 sn < um_window_size e1"
    using f(9) k(1) by (simp add: e1_def um_with_next_def)
  then have inv1: "um_rx_inv e1" using w(1) by (auto simp: um_rx_inv_def um_rx_ok_def)
  obtain e2' c where "um_reassemble_and_deliver e1 sn = Inr e2'" "um_rx_ok e2' (\<lambda>_. False)"
    using um_reassemble_ok [of e1 "\<lambda>_. False" sn] inv1 w(5) full by (auto simp: um_rx_inv_def)
  then have inv2: "um_rx_inv e2" using del by (simp add: um_rx_inv_def)
  have dlv: "um_sdu_delivered e2 sn"
  proof -
    have "sn_pdus (um_rx_list e2) sn = filter (\<lambda>p. pdu_sn p = sn) (um_rx_list e2)"
      using inv2 by (intro um_sn_pdus) (simp add: um_rx_inv_def)
    moreover have "filter (\<lambda>p. pdu_sn p = sn) (um_rx_list e2) \<noteq> []"
      using p(2) unfolding e2f(7) by (auto simp: filter_empty_conv e1_def um_with_next_def)
    ultimately obtain q l where ql: "sn_pdus (um_rx_list e2) sn = q # l" and "q \<in> set (um_rx_list e2)"
      by (metis filter_is_subset list.set_intros(1) neq_Nil_conv subsetD)
    then show ?thesis using none by (simp add: um_sdu_delivered_def)
  qed
  have nd: "\<not> um_sdu_delivered e2 ((sn + 1) mod um_sn_modulus e2)"
    using um_highest_not_delivered [OF inv2] e2f(2,3) by simp
  have m2: "2 \<le> um_sn_modulus e2" using f(5,6) e2f(2) by (simp add: e0_def um_count_rx_def)
  have skip: "skip_delivered (um_sdu_delivered e2) (um_sn_modulus e2) sn = Inr ((sn + 1) mod um_sn_modulus e2)"
    by (rule skip_delivered_once [OF dlv nd _ m2]) (use f(4) in \<open>simp add: sn_valid_def\<close>)
  have "e' = um_start_t_reassembly (um_stop_t_reassembly
      (e2\<lparr>um_rx_next_reassembly := (sn + 1) mod um_sn_modulus e2\<rparr>))"
    using e'(1) run full w(5) del skip e2f(1) by (simp add: um_reception_actions_def um_reception_full_def)
  then have e'f: "um_rx_next_reassembly e' = (sn + 1) mod um_sn_modulus e" "um_rx_list e' = um_rx_list e2"
    "um_rx_next_highest e' = (sn + 1) mod um_sn_modulus e" "um_rx_size e' = 0"
    "um_rx_maxsize e' = um_rx_maxsize e" "um_rx_view e' = um_rx_view e2"
    using e2f by (simp_all add: um_rx_view_def)
  have empty: "filter (\<lambda>p. pdu_sn p = (sn + 1) mod um_sn_modulus e) (um_rx_list e') = []"
    using e'(2) um_key_highest [of e'] unfolding e'f(3) [symmetric]
    by (fastforce simp: um_rx_inv_def um_rx_ok_def filter_empty_conv)
  then have "um_rx_at e' ((sn + 1) mod um_sn_modulus e) D' 0"
    using e'(2) e'f none at by (auto simp: um_rx_at_def filter_empty_conv)
  with e'(1) e'f(6) e2f(5) show ?thesis by auto
qed

section \<open>The link\<close>

text \<open>
  \<open>um_link t r sdus\<close>: the transmitter \<open>t\<close> and the receiver \<open>r\<close> can be reached, and \<open>sdus\<close>
  are the SDUs that the transmitter has accepted so far.
\<close>

inductive um_link :: "nr_rlc_entity_um \<Rightarrow> nr_rlc_entity_um \<Rightarrow> byte list list \<Rightarrow> bool" where
  start: "new_nr_rlc_entity_um rx1 tx1 t1 n = Inr t \<Longrightarrow> new_nr_rlc_entity_um rx2 tx2 t2 n = Inr r \<Longrightarrow>
    NR_SDU_MAX \<le> rx2 \<Longrightarrow> um_link t r []"
| submit: "um_link t r sdus \<Longrightarrow> sdu \<noteq> [] \<Longrightarrow> nr_rlc_entity_um_recv_sdu clk t sdu i = Inr t' \<Longrightarrow>
    um_link t' r (if um_tx_size t + int (length sdu) > um_tx_maxsize t then sdus else sdus @ [sdu])"
| idle: "um_link t r sdus \<Longrightarrow> length buf \<noteq> 2 \<or> um_sn_field_length t = 6 \<Longrightarrow>
    nr_rlc_entity_um_generate_pdu clk t buf = Inr (0, b, t') \<Longrightarrow> um_link t' r sdus"
| transfer: "um_link t r sdus \<Longrightarrow> length buf \<noteq> 2 \<or> um_sn_field_length t = 6 \<Longrightarrow>
    nr_rlc_entity_um_generate_pdu clk t buf = Inr (ret, b, t') \<Longrightarrow> 0 < ret \<Longrightarrow>
    nr_rlc_entity_um_recv_pdu r (take (nat ret) b) = Inr r' \<Longrightarrow> um_link t' r' sdus"

definition um_delivered :: "nr_rlc_entity_um \<Rightarrow> byte list list" where
  "um_delivered e = [sdu. Deliver_sdu sdu \<leftarrow> c_upcalls (um_common e)]"

text \<open>The bytes that are still to be sent.\<close>

definition um_backlog :: "nr_rlc_entity_um \<Rightarrow> nat" where
  "um_backlog e = sum_list (map (\<lambda>(D, k). length D - k) (um_queue e))"

definition um_sync :: "nr_rlc_entity_um \<Rightarrow> int \<Rightarrow> (byte list \<times> nat) list \<Rightarrow> bool" where
  "um_sync r sn q = (case q of [] \<Rightarrow> um_rx_at r sn [] 0 | (D, k) # _ \<Rightarrow> um_rx_at r sn D k)"

definition um_link_inv :: "nr_rlc_entity_um \<Rightarrow> nr_rlc_entity_um \<Rightarrow> byte list list \<Rightarrow> bool" where
  "um_link_inv t r sdus \<longleftrightarrow>
     um_tx_inv (\<lambda>_. 0) t \<and> um_rest_pos t \<and>
     um_sn_field_length r = um_sn_field_length t \<and> um_sn_modulus r = um_sn_modulus t \<and>
     (\<forall>(D, k) \<in> set (um_queue t). D \<noteq> [] \<and> int (length D) \<le> NR_SDU_MAX) \<and>
     (\<forall>(D, k) \<in> set (tl (um_queue t)). k = 0) \<and>
     um_sync r (um_tx_next t) (um_queue t) \<and>
     um_delivered r @ map fst (um_queue t) = sdus"

lemma um_rx_at_0:
  assumes "um_rx_at e sn D 0"
  shows "um_rx_at e sn D' 0"
proof -
  have "\<forall>p \<in> set (um_rx_list e). pdu_sn p \<noteq> sn"
    using um_rx_at_facts(8) [OF assms] by (simp add: filter_empty_conv)
  with assms show ?thesis by (simp add: um_rx_at_def)
qed

lemma um_sync_0: "um_rx_at r sn D 0 \<Longrightarrow> \<forall>(D, k) \<in> set q. k = 0 \<Longrightarrow> um_sync r sn q"
  by (auto simp: um_sync_def intro: um_rx_at_0 split: list.splits)

lemma um_sync_snoc: "um_sync r sn q \<Longrightarrow> um_sync r sn (q @ [(D, 0)])"
  by (auto simp: um_sync_def intro: um_rx_at_0 split: list.splits)

lemma um_delivered_view:
  "um_delivered e = [sdu. Deliver_sdu sdu \<leftarrow> fst (um_rx_view e)]"
  by (simp add: um_delivered_def um_rx_view_def)

lemma um_link_inv_start:
  assumes "new_nr_rlc_entity_um rx1 tx1 t1 n = Inr t" "new_nr_rlc_entity_um rx2 tx2 t2 n = Inr r"
    "NR_SDU_MAX \<le> rx2"
  shows "um_link_inv t r []"
proof -
  have t: "um_tx_list t = []" "um_tx_next t = 0" "um_sn_field_length t = n" "um_sn_modulus t = push_bit (nat n) 1"
    using assms(1) by (auto simp: new_nr_rlc_entity_um_def split: if_splits)
  have r: "um_sn_field_length r = n" "um_sn_modulus r = push_bit (nat n) 1" "um_rx_list r = []"
    "um_rx_next_reassembly r = 0" "um_rx_next_highest r = 0" "um_rx_size r = 0" "um_rx_maxsize r = rx2"
    "c_upcalls (um_common r) = []"
    using assms(2) by (auto simp: new_nr_rlc_entity_um_def new_common_def split: if_splits)
  show ?thesis
    using um_tx_inv_new [OF assms(1)] um_rx_inv_new [OF assms(2)] t r assms(3)
    by (simp add: um_link_inv_def um_queue_def um_rest_pos_def um_delivered_def um_rx_at_def um_sync_def)
qed

lemma um_link_inv_submit:
  assumes inv: "um_link_inv t r sdus" and ne: "sdu \<noteq> []"
    and run: "nr_rlc_entity_um_recv_sdu clk t sdu i = Inr t'"
  shows "um_link_inv t' r (if um_tx_size t + int (length sdu) > um_tx_maxsize t then sdus else sdus @ [sdu])"
proof -
  have small: "int (length sdu) \<le> NR_SDU_MAX"
    using run by (auto simp: nr_rlc_entity_um_recv_sdu_def Let_def split: if_splits)
  have txi: "um_tx_inv (\<lambda>_. 0) t" using inv by (simp add: um_link_inv_def)
  have t': "um_tx_inv (\<lambda>_. 0) t'" "um_queue t' = (if um_tx_size t + int (length sdu) > um_tx_maxsize t
                    then um_queue t else um_queue t @ [(sdu, 0)])"
    "um_tx_next t' = um_tx_next t" "um_sn_field_length t' = um_sn_field_length t"
    "um_sn_modulus t' = um_sn_modulus t"
    using um_recv_sdu_ok [OF txi small, of clk i] run by auto
  show ?thesis
  proof (cases "um_tx_size t + int (length sdu) > um_tx_maxsize t")
    case True
    with inv t' show ?thesis by (simp add: um_link_inv_def um_rest_pos_def)
  next
    case False
    have "\<forall>(D, k) \<in> set (tl (um_queue t @ [(sdu, 0)])). k = 0"
      using inv by (cases "um_queue t") (auto simp: um_link_inv_def)
    with False inv t' ne small um_sync_snoc show ?thesis
      by (auto simp: um_link_inv_def um_rest_pos_def)
  qed
qed

text \<open>One step of the transfer, for the SDU at the head of the queue.\<close>

lemma um_link_transfer_step:
  assumes inv: "um_link_inv t r sdus" and q: "um_queue t = (D, k) # q"
    and sent: "um_sent t D k q ret b t' n" and t': "um_tx_inv (\<lambda>_. 0) t'" "um_rest_pos t'"
  shows "\<exists>r'. nr_rlc_entity_um_recv_pdu r (take (nat ret) b) = Inr r' \<and> um_link_inv t' r' sdus"
proof -
  let ?sn = "um_tx_next t" and ?pdu = "take (nat ret) b"
  have D: "D \<noteq> []" "int (length D) \<le> NR_SDU_MAX" "k < length D"
    and q0: "\<forall>(D, k) \<in> set q. k = 0" "\<forall>(D, k) \<in> set q. D \<noteq> [] \<and> int (length D) \<le> NR_SDU_MAX"
    and fl: "um_sn_field_length r = um_sn_field_length t" "um_sn_modulus r = um_sn_modulus t"
    and at: "um_rx_at r ?sn D k"
    using inv q by (auto simp: um_link_inv_def um_rest_pos_def um_sync_def)
  have s: "0 < n" "k + n \<le> length D"
    "is_um_pdu (um_sn_field_length r) (k = 0) (k + n = length D) ?sn (int k) (take n (drop k D)) ?pdu"
    "um_queue t' = (if k + n = length D then q else (D, k + n) # q)"
    "um_tx_next t' = (if k \<noteq> 0 \<and> k + n = length D then (?sn + 1) mod um_sn_modulus t else ?sn)"
    "um_sn_field_length t' = um_sn_field_length t" "um_sn_modulus t' = um_sn_modulus t"
    using sent D(1) by (auto simp: um_sent_def fl)
  have tlq: "\<forall>(D, k) \<in> set (tl q). k = 0" using q0(1) by (cases q) auto
  have dq: "um_delivered r @ D # map fst q = sdus" using inv q by (simp add: um_link_inv_def)
  consider "k + n < length D" | "k = 0" "n = length D" | "0 < k" "k + n = length D"
    using s(2) by linarith
  then show ?thesis
  proof cases
    case 1
    obtain r' where r': "nr_rlc_entity_um_recv_pdu r ?pdu = Inr r'" "um_rx_at r' ?sn D (k + n)"
      "um_rx_view r' = um_rx_view r"
      using um_rx_step_part [OF at s(1) 1 D(2)] s(3) 1 by auto
    with 1 s t' q0 D fl dq show ?thesis
      by (auto simp: um_link_inv_def um_delivered_view um_rx_view_def um_sync_def)
  next
    case 2
    then have pdu: "is_um_pdu (um_sn_field_length r) True True ?sn 0 D ?pdu" using s(3) by simp
    define r' where "r' = (um_count_rx r ?pdu)\<lparr>um_common :=
       upd_stats (stat_txsdu (int (length ?pdu) - 1)) (upcall (Deliver_sdu D) (um_common (um_count_rx r ?pdu)))\<rparr>"
    have run: "nr_rlc_entity_um_recv_pdu r ?pdu = Inr r'"
      unfolding r'_def by (rule um_recv_whole [OF pdu D(1)])
    have "um_rx_at r' ?sn [] 0"
      using um_rx_at_0 [OF at [unfolded 2(1)], of "[]"] by (simp add: r'_def um_rx_at_def um_count_rx_def)
    then have "um_sync r' ?sn q" by (rule um_sync_0 [OF _ q0(1)])
    moreover have "um_delivered r' = um_delivered r @ [D]" "um_sn_field_length r' = um_sn_field_length r"
      "um_sn_modulus r' = um_sn_modulus r"
      by (simp_all add: um_delivered_def r'_def um_count_rx_def)
    ultimately have "um_link_inv t' r' sdus"
      using 2 s t' q0 fl dq tlq by (simp add: um_link_inv_def)
    with run show ?thesis by blast
  next
    case 3
    have pdu: "is_um_pdu (um_sn_field_length r) False True ?sn (int k) (drop k D) ?pdu"
    proof -
      have "take n (drop k D) = drop k D" using 3(2) by simp
      with s(3) 3 show ?thesis by simp
    qed
    obtain r' where r': "nr_rlc_entity_um_recv_pdu r ?pdu = Inr r'"
      "um_rx_at r' ((?sn + 1) mod um_sn_modulus r) [] 0"
      "um_rx_view r' = (fst (um_rx_view r) @ [Deliver_sdu D], snd (um_rx_view r))"
      using um_rx_step_last [OF at 3(1) D(3) D(2) pdu, of "[]"] by blast
    have "um_sync r' ((?sn + 1) mod um_sn_modulus r) q" by (rule um_sync_0 [OF r'(2) q0(1)])
    moreover have "um_delivered r' = um_delivered r @ [D]" "um_sn_field_length r' = um_sn_field_length r"
      "um_sn_modulus r' = um_sn_modulus r"
      using r'(3) by (simp_all add: um_delivered_view um_rx_view_def)
    ultimately have "um_link_inv t' r' sdus"
      using 3 s t' q0 fl dq tlq by (simp add: um_link_inv_def)
    with r'(1) show ?thesis by blast
  qed
qed

lemma um_queue_Nil_generate:
  "um_queue t = [] \<Longrightarrow> nr_rlc_entity_um_generate_pdu clk t buf = Inr (0, buf, t)"
  by (rule um_generate_nothing) (simp add: um_queue_def split: list.splits)

text \<open>The transmitter in a reachable state.\<close>

lemma um_link_generate:
  assumes inv: "um_link_inv t r sdus" and q: "um_queue t = (D, k) # q"
    and b2: "length buf \<noteq> 2 \<or> um_sn_field_length t = 6"
  obtains ret b t' where "nr_rlc_entity_um_generate_pdu clk t buf = Inr (ret, b, t')"
    "um_tx_inv (\<lambda>_. 0) t'" "um_rest_pos t'"
    "(ret = 0 \<and> t' = t \<and> length buf < 5) \<or> (\<exists>n. um_sent t D k q ret b t' n)"
proof -
  have "um_tx_inv (\<lambda>_. 0) t" "um_rest_pos t" using inv by (simp_all add: um_link_inv_def)
  with um_generate_no_loss [OF _ q, of _ buf clk] b2 that show thesis by blast
qed

lemma um_link_reachable: "um_link t r sdus \<Longrightarrow> um_link_inv t r sdus"
proof (induction rule: um_link.induct)
  case (start rx1 tx1 t1 n t rx2 tx2 t2 r)
  then show ?case by (rule um_link_inv_start)
next
  case (submit t r sdus sdu clk i t')
  then show ?case by (intro um_link_inv_submit)
next
  case (idle t r sdus buf clk b t')
  show ?case
  proof (cases "um_queue t")
    case Nil
    with idle show ?thesis by (simp add: um_queue_Nil_generate)
  next
    case (Cons Dk q)
    obtain D k where Dk: "Dk = (D, k)" by (cases Dk)
    have "t' = t"
      by (rule um_link_generate [OF idle.IH Cons [unfolded Dk] idle.hyps(2), of clk])
        (use idle.hyps in \<open>auto simp: um_sent_def\<close>)
    with idle.IH show ?thesis by simp
  qed
next
  case (transfer t r sdus buf clk ret b t' r')
  then obtain D k q where q: "um_queue t = (D, k) # q"
    using um_queue_Nil_generate [of t clk buf] by (cases "um_queue t") auto
  obtain n where "um_sent t D k q ret b t' n" "um_tx_inv (\<lambda>_. 0) t'" "um_rest_pos t'"
    by (rule um_link_generate [OF transfer.IH q transfer.hyps(2), of clk]) (use transfer.hyps in auto)
  from um_link_transfer_step [OF transfer.IH q this] transfer.hyps show ?case by auto
qed

lemma um_sent_backlog:
  assumes "um_sent t D k q ret b t' n" and "um_queue t = (D, k) # q" and "D \<noteq> []"
  shows "um_backlog t' < um_backlog t"
  using assms by (auto simp: um_sent_def um_backlog_def)

section \<open>Properties\<close>

text \<open>
  C5: in-order, exactly-once transfer over a link without losses. In every state that is reached
  from two new entities with the same sequence number length, whose receiver has a buffer of at
  least 16000 bytes (one SDU of the largest size), for non-empty SDUs and for MAC buffers of any
  sizes other than two bytes with the sequence numbers of 12 bits (there the code loses the SDU),
  the SDUs delivered by the receiver, followed by the SDUs that the transmitter still queues, are
  exactly the accepted SDUs in the order of their submission.
\<close>

theorem um_link_in_order:
  assumes "um_link t r sdus"
  shows "um_delivered r @ map fst (um_queue t) = sdus"
  using um_link_reachable [OF assms] by (simp add: um_link_inv_def)

text \<open>
  C25: progress of the link. In every reachable state with a non-empty queue, a MAC buffer of five
  bytes or more gives a PDU of positive size that fits the buffer; the receiver takes it without
  fault, the new state is reachable, and the number of bytes still to be sent has decreased.
\<close>

theorem um_link_progress:
  assumes "um_link t r sdus" and "um_queue t \<noteq> []" and "5 \<le> length buf"
  shows "\<exists>ret b t' r'. nr_rlc_entity_um_generate_pdu clk t buf = Inr (ret, b, t') \<and>
     0 < ret \<and> ret \<le> int (length buf) \<and> nr_rlc_entity_um_recv_pdu r (take (nat ret) b) = Inr r' \<and>
     um_link t' r' sdus \<and> um_backlog t' < um_backlog t"
proof -
  have inv: "um_link_inv t r sdus" by (rule um_link_reachable [OF assms(1)])
  obtain D k q where q: "um_queue t = (D, k) # q" using assms(2) by (cases "um_queue t") auto
  have b2: "length buf \<noteq> 2 \<or> um_sn_field_length t = 6" using assms(3) by simp
  obtain ret b t' n where g: "nr_rlc_entity_um_generate_pdu clk t buf = Inr (ret, b, t')"
    "um_tx_inv (\<lambda>_. 0) t'" "um_rest_pos t'" "um_sent t D k q ret b t' n"
    by (rule um_link_generate [OF inv q b2, of clk]) (use assms(3) in auto)
  have ret: "0 < ret" "ret \<le> int (length b)" using g(4) by (simp_all add: um_sent_def)
  obtain r' where r': "nr_rlc_entity_um_recv_pdu r (take (nat ret) b) = Inr r'"
    using um_link_transfer_step [OF inv q g(4,2,3)] by blast
  have "D \<noteq> []" using inv q by (simp add: um_link_inv_def)
  with um_sent_backlog [OF g(4) q] um_link.transfer [OF assms(1) b2 g(1) ret(1) r'] g(1) ret r'
    um_generate_bounds [of "\<lambda>_. 0" t clk buf] inv
  show ?thesis by (auto simp: um_link_inv_def)
qed

text \<open>A reachable state with an SDU of six bytes queued.\<close>

lemma um_link_example:
  "\<exists>t r. um_link t r [[1, 2, 3, 4, 5, 6]] \<and> um_queue t = [([1, 2, 3, 4, 5, 6], 0)]"
proof -
  obtain t where t: "new_nr_rlc_entity_um 20000 100 35 12 = Inr t" using new_um_Inr by blast
  have l: "um_link t t []" by (rule um_link.start [OF t t]) (simp add: NR_SDU_MAX_def)
  have f: "um_tx_list t = []" "um_tx_size t = 0" "um_tx_maxsize t = 100"
    using t by (auto simp: new_nr_rlc_entity_um_def)
  have small: "int (length [1::byte, 2, 3, 4, 5, 6]) \<le> NR_SDU_MAX" by (simp add: NR_SDU_MAX_def)
  obtain t' where t': "nr_rlc_entity_um_recv_sdu 0 t [1, 2, 3, 4, 5, 6] 1 = Inr t'"
    "um_queue t' = um_queue t @ [([1, 2, 3, 4, 5, 6], 0)]"
    using um_recv_sdu_ok [OF um_tx_inv_new [OF t] small, of 0 1] f by auto
  with um_link.submit [OF l _ t'(1)] f show ?thesis by (auto simp: um_queue_def)
qed

theorem um_link_in_order_witness:
  "\<exists>t r. um_link t r [[1, 2, 3, 4, 5, 6]] \<and> um_queue t = [([1, 2, 3, 4, 5, 6], 0)] \<and> um_delivered r = []"
proof -
  obtain t r where l: "um_link t r [[1, 2, 3, 4, 5, 6]]" "um_queue t = [([1, 2, 3, 4, 5, 6], 0)]"
    using um_link_example by blast
  from um_link_in_order [OF l(1)] l show ?thesis by auto
qed

theorem um_link_progress_witness:
  "\<exists>t r ret b t' r'. um_link t r [[1, 2, 3, 4, 5, 6]] \<and>
     nr_rlc_entity_um_generate_pdu 0 t [0, 0, 0, 0, 0] = Inr (ret, b, t') \<and> 0 < ret \<and>
     nr_rlc_entity_um_recv_pdu r (take (nat ret) b) = Inr r' \<and> um_backlog t' < 6"
proof -
  obtain t r where l: "um_link t r [[1, 2, 3, 4, 5, 6]]" "um_queue t = [([1, 2, 3, 4, 5, 6], 0)]"
    using um_link_example by blast
  then have "um_backlog t = 6" by (simp add: um_backlog_def)
  then have "\<exists>ret b t' r'. nr_rlc_entity_um_generate_pdu 0 t [0, 0, 0, 0, 0] = Inr (ret, b, t') \<and>
     0 < ret \<and> nr_rlc_entity_um_recv_pdu r (take (nat ret) b) = Inr r' \<and> um_backlog t' < 6"
    using um_link_progress [OF l(1), of "[0, 0, 0, 0, 0]" 0] l(2) by auto
  with l(1) show ?thesis by blast
qed

end
