(* ===== verification/Nr_Rlc_Am_Ack.thy ===== *)
theory Nr_Rlc_Am_Ack
  imports Nr_Rlc_Am_Report
begin

text \<open>
  Reception of status reports by the acknowledged mode entity. The acknowledged segments are freed,
  the negatively acknowledged ones merged into the retransmit list, and the window moves; the
  transmitter invariant is kept for reports whose negative acknowledgements are below the
  acknowledgement, and which do not acknowledge an SDU that is still being sent.
\<close>

section \<open>Invariant of the processing\<close>

definition ct_view ::
  "nr_rlc_entity_am \<Rightarrow> ((int \<times> int \<times> int \<times> int) \<times> (int \<times> int \<times> int \<times> u64) \<times> nr_rlc_rx_manager) \<times>
     (segs \<times> nat option \<times> nat option) \<times> int \<times> int \<times> int" where
  "ct_view e = (am_rx_view e, (am_tx_list e, am_tx_end e, am_wait_end e), am_tx_next e, am_tx_next_ack e,
     bs_tx_size (c_bstatus (am_common e)))"

definition ct_segs :: "control_state \<Rightarrow> segs" where
  "ct_segs c = ct_wdone c @ ct_wcur c @ ct_rnew c @ ct_rcur c"

abbreviation am_before :: "nr_rlc_entity_am \<Rightarrow> nr_rlc_sdu_segment \<Rightarrow> nr_rlc_sdu_segment \<Rightarrow> bool" where
  "am_before e \<equiv> sn_le (am_modulus_tx e) (seg_sn (am_heap e)) seg_so"

text \<open>What the processing keeps of the store: \<open>l\<close> are the segments that are left.\<close>

definition ct_heap_ok :: "(nat \<Rightarrow> nat) \<Rightarrow> nr_rlc_entity_am \<Rightarrow> rlc_heap \<Rightarrow> segs \<Rightarrow> bool" where
  "ct_heap_ok lk e h l \<longleftrightarrow> heap_leak lk h l \<and> (\<forall>x \<in> set l. seg_sn h x = seg_sn (am_heap e) x) \<and>
     (\<forall>a s. h_sdus h a = Some s \<longrightarrow> sdu_size s \<le> NR_SDU_MAX)"

definition ct_ok :: "(nat \<Rightarrow> nat) \<Rightarrow> nr_rlc_entity_am \<Rightarrow> control_state \<Rightarrow> bool" where
  "ct_ok lk e c \<longleftrightarrow>
     ct_view (ct_entity c) = ct_view e \<and>
     ct_heap_ok lk e (am_heap (ct_entity c)) (ct_segs c @ am_tx_list e) \<and>
     set (ct_segs c) \<subseteq> set (am_wait_list e @ am_retransmit_list e) \<and> ct_wtail c = [] \<and>
     am_sorted e (ct_wdone c @ ct_wcur c) \<and> am_sorted e (ct_rnew c @ ct_rcur c) \<and>
     (\<forall>x \<in> set (ct_rnew c). \<forall>y \<in> set (ct_wcur c). am_before e x y) \<and>
     end_ok (ct_wdone c @ ct_wcur c) (case ct_end c of None \<Rightarrow> am_wait_end e | Some p \<Rightarrow> p) \<and>
     (ct_wcur c \<noteq> [] \<longrightarrow> ct_end c = None) \<and>
     bs_retx_size (c_bstatus (am_common (ct_entity c))) = sum_list (map (am_seg_cost e) (ct_rnew c @ ct_rcur c))"

lemma ct_okD:
  assumes "ct_ok lk e c"
  shows "ct_view (ct_entity c) = ct_view e" "ct_heap_ok lk e (am_heap (ct_entity c)) (ct_segs c @ am_tx_list e)"
    "set (ct_segs c) \<subseteq> set (am_wait_list e @ am_retransmit_list e)" "ct_wtail c = []"
    "am_sorted e (ct_wdone c @ ct_wcur c)" "am_sorted e (ct_rnew c @ ct_rcur c)"
    "\<forall>x \<in> set (ct_rnew c). \<forall>y \<in> set (ct_wcur c). am_before e x y"
    "end_ok (ct_wdone c @ ct_wcur c) (case ct_end c of None \<Rightarrow> am_wait_end e | Some p \<Rightarrow> p)"
    "ct_wcur c \<noteq> [] \<longrightarrow> ct_end c = None"
    "bs_retx_size (c_bstatus (am_common (ct_entity c))) = sum_list (map (am_seg_cost e) (ct_rnew c @ ct_rcur c))"
  using assms unfolding ct_ok_def by blast+

lemma ct_heap_perm:
  assumes "ct_heap_ok lk e h l" and "mset l = mset k"
  shows "ct_heap_ok lk e h k"
proof -
  note c = assms(1) [unfolded ct_heap_ok_def mset_eq_setD [OF assms(2)]]
  have "heap_leak lk h k" by (rule heap_ok_perm [OF conjunct1 [OF c] assms(2)])
  then show ?thesis unfolding ct_heap_ok_def using conjunct2 [OF c] by (rule conjI)
qed

lemma ct_view_keys:
  assumes "ct_view e' = ct_view e"
  shows "am_modulus_tx e' = am_modulus_tx e" "am_sn_compare_tx e' = am_sn_compare_tx e"
    "am_seg_cost e' = am_seg_cost e" "am_compute_pdu_header_size e' = am_compute_pdu_header_size e"
  using assms am_tx_key_cong [of e' e] am_header_cong [of e' e]
  by (simp_all add: ct_view_def am_rx_view_def am_sn_compare_tx_def fun_eq_iff)

lemma ct_deref:
  assumes "ct_heap_ok lk e h l" and "x \<in> set l"
  obtains s where "deref h x = Inr s" "h_sdus h (seg_sdu x) = Some s" "sdu_sn s = seg_sn (am_heap e) x"
proof -
  have hl: "heap_leak lk h l" and sn: "seg_sn h x = seg_sn (am_heap e) x"
    using assms by (simp_all add: ct_heap_ok_def)
  obtain s where s: "deref h x = Inr s" "h_sdus h (seg_sdu x) = Some s" by (rule heap_ok_deref [OF hl assms(2)])
  then show thesis using that seg_sn_Some [OF s(2)] sn by simp
qed

section \<open>Freeing and moving segments\<close>

lemma free_keeps_sn:
  assumes "heap_leak lk h (seg # l)" and "nr_rlc_free_sdu_segment h seg = Inr (fr, h')" and "x \<in> set l"
  shows "seg_sn h' x = seg_sn h x"
proof -
  obtain d where d: "h_sdus h (seg_sdu seg) = Some d" using heap_live [OF assms(1), of seg] by auto
  have fr: "h' = (if fr then h\<lparr>h_sdus := (h_sdus h)(seg_sdu seg := None)\<rparr>
      else store h seg (d\<lparr>sdu_free_count := sdu_free_count d + 1\<rparr>))"
    using assms(2) d by (auto simp: nr_rlc_free_sdu_segment_def deref_def Let_def split: if_splits)
  show ?thesis
  proof (cases fr)
    case True
    obtain h2 where "nr_rlc_free_sdu_segment h seg = Inr (True, h2)" "refs l (seg_sdu seg) + lk (seg_sdu seg) = 0"
      using heap_ok_free [OF assms(1)] assms(2) True by auto
    then have "seg_sdu x \<noteq> seg_sdu seg" using refs_pos [OF assms(3)] by auto
    with True fr show ?thesis by (simp add: seg_sn_def)
  next
    case False
    with fr seg_sn_store [OF d] show ?thesis by simp
  qed
qed

lemma free_acked_ok:
  assumes heap: "ct_heap_ok lk e0 (am_heap e) (cur # l)"
  obtains e' where "free_acked e cur = Inr e'" "ct_heap_ok lk e0 (am_heap e') l" "ct_view e' = ct_view e"
    "c_bstatus (am_common e') = c_bstatus (am_common e)"
proof -
  obtain s where s: "deref (am_heap e) cur = Inr s" by (rule ct_deref [OF heap, of cur]) auto
  have hl: "heap_leak lk (am_heap e) (cur # l)" using heap by (simp add: ct_heap_ok_def)
  obtain fr h where h: "nr_rlc_free_sdu_segment (am_heap e) cur = Inr (fr, h)" "heap_leak lk h l"
    using heap_ok_free [OF hl] by blast
  have sz: "\<forall>a s. h_sdus (am_heap e) a = Some s \<longrightarrow> sdu_size s \<le> NR_SDU_MAX"
    and sn: "\<forall>x \<in> set l. seg_sn (am_heap e) x = seg_sn (am_heap e0) x"
    using heap by (simp_all add: ct_heap_ok_def)
  have "sdu_size s \<le> NR_SDU_MAX" if "h_sdus h a = Some s" for a s
    using free_segment_facts(2) [OF h(1) that] sz [rule_format, of a] by auto
  then have "ct_heap_ok lk e0 h l"
    using sn h(2) free_keeps_sn [OF hl h(1)] by (simp add: ct_heap_ok_def)
  moreover define e' where "e' = (if fr then e\<lparr>am_heap := h, am_tx_size := am_tx_size e - sdu_size s,
     am_common := upcall (Sdu_successful_delivery (sdu_upper_layer_id s))
                        (upd_stats (stat_txsdu_bytes (sdu_size s)) (am_common e))\<rparr> else e\<lparr>am_heap := h\<rparr>)"
  have "free_acked e cur = Inr e'" using s h(1) by (simp add: free_acked_def Let_def e'_def)
  moreover have "am_heap e' = h" "ct_view e' = ct_view e" "c_bstatus (am_common e') = c_bstatus (am_common e)"
    by (simp_all add: e'_def ct_view_def am_rx_view_def)
  ultimately show thesis using that by simp
qed

text \<open>The head of the wait list is taken out.\<close>

lemma ct_unlink_end:
  assumes ok: "ct_ok lk e c" and w: "ct_wcur c = w # ws"
  shows "end_ok (ct_wdone c @ ws) (case ct_end (ct_unlink_wait c) of None \<Rightarrow> am_wait_end e | Some p \<Rightarrow> p)"
    and "ws \<noteq> [] \<longrightarrow> ct_end (ct_unlink_wait c) = None"
proof -
  note D = ct_okD [OF ok]
  have none: "ct_end c = None" using D(9) w by simp
  have en: "am_wait_end (ct_entity c) = Some (seg_addr (last (w # ws)))" "am_wait_end e = Some (seg_addr (last (w # ws)))"
    using D(1,8) none w by (simp_all add: ct_view_def end_ok_def)
  have "distinct (map seg_addr (w # ws))"
    using D(2) w unfolding ct_heap_ok_def heap_leak_def ct_segs_def by auto
  then have "seg_addr (last (w # ws)) = seg_addr w \<longleftrightarrow> ws = []"
    by (cases "ws = []") (simp_all, metis image_eqI last_in_set)
  then have c: "ct_end (ct_unlink_wait c) = (if ws = [] then Some (ct_prev c) else None)"
    using w none en(1) by (simp add: ct_unlink_wait_def)
  then show "ws \<noteq> [] \<longrightarrow> ct_end (ct_unlink_wait c) = None" by simp
  show "end_ok (ct_wdone c @ ws) (case ct_end (ct_unlink_wait c) of None \<Rightarrow> am_wait_end e | Some p \<Rightarrow> p)"
    using c en(2) by (auto simp: end_ok_def ct_prev_def)
qed

lemma ack_wait_head_ok:
  assumes ok: "ct_ok lk e c" and w: "ct_wcur c = w # ws"
  shows "\<exists>c'. ack_wait_head c w = Inr c' \<and> ct_ok lk e c' \<and> ct_wcur c' = ws \<and> ct_rcur c' = ct_rcur c \<and>
     ct_wdone c' = ct_wdone c \<and> ct_rnew c' = ct_rnew c"
proof -
  note D = ct_okD [OF ok]
  let ?l = "ct_wdone c @ ws @ ct_rnew c @ ct_rcur c @ am_tx_list e"
  have "ct_heap_ok lk e (am_heap (ct_entity c)) (w # ?l)"
    by (rule ct_heap_perm [OF D(2)]) (simp add: ct_segs_def w)
  then obtain e' where e': "free_acked (ct_entity c) w = Inr e'" "ct_heap_ok lk e (am_heap e') ?l"
    "ct_view e' = ct_view (ct_entity c)" "c_bstatus (am_common e') = c_bstatus (am_common (ct_entity c))"
    by (rule free_acked_ok)
  define c' where "c' = (ct_unlink_wait c)\<lparr>ct_entity := e'\<rparr>"
  have f: "ct_entity c' = e'" "ct_wdone c' = ct_wdone c" "ct_wcur c' = ws" "ct_wtail c' = ct_wtail c"
    "ct_rnew c' = ct_rnew c" "ct_rcur c' = ct_rcur c" "ct_end c' = ct_end (ct_unlink_wait c)"
    by (simp_all add: c'_def ct_unlink_wait_def w)
  have "set (ct_segs c') \<subseteq> set (am_wait_list e @ am_retransmit_list e)"
    using D(3) unfolding ct_segs_def f w by auto
  moreover have "am_sorted e (ct_wdone c @ ws)" using D(5) unfolding w by (simp add: sorted_wrt_append)
  moreover have "\<forall>x \<in> set (ct_rnew c). \<forall>y \<in> set ws. am_before e x y" using D(7) unfolding w by simp
  ultimately have "ct_ok lk e c'"
    unfolding ct_ok_def f ct_segs_def using D(1,4,6,10) e'(2-4) ct_unlink_end [OF ok w]
    by (simp add: ct_segs_def f)
  moreover have "ack_wait_head c w = Inr c'" using e'(1) by (simp add: ack_wait_head_def c'_def)
  ultimately show ?thesis using f by blast
qed

lemma ack_retransmit_head_ok:
  assumes ok: "ct_ok lk e c" and r: "ct_rcur c = r # rs"
  shows "\<exists>c'. ack_retransmit_head c r rs = Inr c' \<and> ct_ok lk e c' \<and> ct_rcur c' = rs \<and> ct_wcur c' = ct_wcur c"
proof -
  note D = ct_okD [OF ok]
  define e1 where "e1 = (ct_entity c)\<lparr>am_common := add_retx_size (- am_seg_cost e r) (am_common (ct_entity c))\<rparr>"
  have e1: "am_heap e1 = am_heap (ct_entity c)" "ct_view e1 = ct_view (ct_entity c)"
    by (simp_all add: e1_def ct_view_def am_rx_view_def)
  let ?l = "ct_wdone c @ ct_wcur c @ ct_rnew c @ rs @ am_tx_list e"
  have "ct_heap_ok lk e (am_heap e1) (r # ?l)"
    unfolding e1(1) by (rule ct_heap_perm [OF D(2)]) (simp add: ct_segs_def r)
  then obtain e' where e': "free_acked e1 r = Inr e'" "ct_heap_ok lk e (am_heap e') ?l"
    "ct_view e' = ct_view e1" "c_bstatus (am_common e') = c_bstatus (am_common e1)"
    by (rule free_acked_ok)
  define c' where "c' = c\<lparr>ct_entity := e', ct_rcur := rs\<rparr>"
  have f: "ct_entity c' = e'" "ct_wdone c' = ct_wdone c" "ct_wcur c' = ct_wcur c" "ct_wtail c' = ct_wtail c"
    "ct_rnew c' = ct_rnew c" "ct_rcur c' = rs" "ct_end c' = ct_end c"
    by (simp_all add: c'_def)
  have "set (ct_segs c') \<subseteq> set (am_wait_list e @ am_retransmit_list e)"
    using D(3) unfolding ct_segs_def f r by auto
  moreover have "am_sorted e (ct_rnew c @ rs)" using D(6) unfolding r by (simp add: sorted_wrt_append)
  moreover have "bs_retx_size (c_bstatus (am_common e1)) = sum_list (map (am_seg_cost e) (ct_rnew c @ rs))"
    using D(10) by (simp add: r e1_def)
  ultimately have "ct_ok lk e c'"
    unfolding ct_ok_def f ct_segs_def using D(1,4,5,7-9) e'(2-4) e1(2) by (simp add: ct_segs_def f)
  moreover have "ack_retransmit_head c r rs = Inr c'"
    using e'(1) ct_view_keys(4) [OF D(1)]
    by (simp add: ack_retransmit_head_def c'_def e1_def am_seg_cost_def)
  ultimately show ?thesis using f by blast
qed

text \<open>The segment is the next one of the merged lists, so it goes to the end of the new retransmit list.\<close>

lemma nack_wait_head_ok:
  assumes ok: "ct_ok lk e c" and w: "ct_wcur c = w # ws" and min: "\<forall>y \<in> set (ct_rcur c). am_before e w y"
    and s: "h_sdus (am_heap (ct_entity c)) (seg_sdu w) = Some s"
  shows "ct_ok lk e (nack_wait_head c w s)" "ct_wcur (nack_wait_head c w s) = ws"
proof -
  note D = ct_okD [OF ok]
  let ?e = "ct_entity c" and ?s = "s\<lparr>sdu_retx_count := sdu_retx_count s + 1\<rparr>"
  define h where "h = store (am_heap ?e) w ?s"
  define cm where "cm = (if sdu_retx_count ?s \<ge> am_max_retx_threshold ?e * sdu_ref_count ?s
     then upcall Max_retx_reached (am_common ?e) else am_common ?e)"
  define e' where "e' = ?e\<lparr>am_heap := h, am_common := add_retx_size (am_seg_cost e w) cm\<rparr>"
  have c': "nack_wait_head c w s = (ct_unlink_wait c)\<lparr>ct_rnew := ct_rnew c @ [w], ct_entity := e'\<rparr>"
  proof -
    have cost: "am_compute_pdu_header_size x w = am_compute_pdu_header_size e w"
      if "am_sn_field_length x = am_sn_field_length ?e" for x
      using that am_header_cong [of x ?e] ct_view_keys(4) [OF D(1)] by metis
    have "ct_entity (ct_unlink_wait c) = ?e" by (simp add: ct_unlink_wait_def)
    then show ?thesis
      unfolding nack_wait_head_def Let_def e'_def h_def cm_def am_seg_cost_def
      by (cases "sdu_retx_count ?s \<ge> am_max_retx_threshold ?e * sdu_ref_count ?s") (simp_all add: cost)
  qed
  then have f: "ct_entity (nack_wait_head c w s) = e'" "ct_wdone (nack_wait_head c w s) = ct_wdone c"
    "ct_wcur (nack_wait_head c w s) = ws" "ct_wtail (nack_wait_head c w s) = ct_wtail c"
    "ct_rnew (nack_wait_head c w s) = ct_rnew c @ [w]" "ct_rcur (nack_wait_head c w s) = ct_rcur c"
    "ct_end (nack_wait_head c w s) = ct_end (ct_unlink_wait c)"
    by (simp_all add: ct_unlink_wait_def w)
  show "ct_wcur (nack_wait_head c w s) = ws" by (rule f)
  have hc: "ct_heap_ok lk e (am_heap ?e) (ct_segs c @ am_tx_list e)" by (rule D(2))
  have sn: "seg_sn h = seg_sn (am_heap ?e)" unfolding h_def by (rule seg_sn_store [OF s]) simp
  have "heap_leak lk h (ct_segs c @ am_tx_list e)"
    unfolding h_def by (rule heap_ok_store [OF _ s]) (use hc in \<open>simp_all add: ct_heap_ok_def\<close>)
  moreover have "sdu_size t \<le> NR_SDU_MAX" if "h_sdus h a = Some t" for a t
    using that hc s by (auto simp: h_def ct_heap_ok_def split: if_splits)
  ultimately have "ct_heap_ok lk e h (ct_segs c @ am_tx_list e)"
    using hc by (simp add: ct_heap_ok_def sn)
  then have heap: "ct_heap_ok lk e h ((ct_wdone c @ ws @ (ct_rnew c @ [w]) @ ct_rcur c) @ am_tx_list e)"
    by (rule ct_heap_perm) (simp add: ct_segs_def w)
  have wsort: "am_sorted e (ct_wdone c @ ws)" "\<forall>y \<in> set ws. am_before e w y"
    using D(5) unfolding w by (simp_all add: sorted_wrt_append)
  have "am_sorted e ((ct_rnew c @ [w]) @ ct_rcur c)"
    using D(6,7) min unfolding w by (auto simp: sorted_wrt_append)
  moreover have "\<forall>x \<in> set (ct_rnew c @ [w]). \<forall>y \<in> set ws. am_before e x y"
    using D(7) wsort(2) unfolding w by auto
  moreover have "set (ct_wdone c @ ws @ (ct_rnew c @ [w]) @ ct_rcur c) \<subseteq> set (am_wait_list e @ am_retransmit_list e)"
    using D(3) unfolding ct_segs_def w by auto
  moreover have "ct_view e' = ct_view ?e" "am_heap e' = h"
    by (simp_all add: e'_def cm_def ct_view_def am_rx_view_def)
  moreover have "bs_retx_size (c_bstatus (am_common e')) = sum_list (map (am_seg_cost e) ((ct_rnew c @ [w]) @ ct_rcur c))"
    using D(10) by (simp add: e'_def cm_def)
  ultimately show "ct_ok lk e (nack_wait_head c w s)"
    unfolding ct_ok_def ct_segs_def f using D(1,4) heap wsort(1) ct_unlink_end [OF ok w] by simp
qed

section \<open>The merge of the lists\<close>

lemma process_wait_list_head_ok:
  assumes ok: "ct_ok lk e c" and w: "ct_wcur c = w # ws" and min: "\<forall>y \<in> set (ct_rcur c). am_before e w y"
    and n: "am_sn_compare_tx e (fst n) ack < 0"
  shows "\<exists>c' nx. process_wait_list_head ack n c w ws = Inr (c', nx) \<and> ct_ok lk e c'"
proof -
  note D = ct_okD [OF ok]
  obtain sn so so' where nn: "n = (sn, so, so')" by (cases n)
  obtain s where s: "deref (am_heap (ct_entity c)) w = Inr s" "h_sdus (am_heap (ct_entity c)) (seg_sdu w) = Some s"
    by (rule ct_deref [OF D(2), of w]) (auto simp: ct_segs_def w)
  obtain c1 where c1: "ack_wait_head c w = Inr c1" "ct_ok lk e c1" using ack_wait_head_ok [OF ok w] by blast
  have nk: "ct_ok lk e (nack_wait_head c w s)" by (rule nack_wait_head_ok [OF ok w min s(2)])
  show ?thesis
    using n s(1) c1 nk ok ct_view_keys(1) [OF D(1)]
    by (auto simp: process_wait_list_head_def Let_def nn am_sn_compare_tx_def)
qed

lemma ct_keep_retransmit:
  assumes ok: "ct_ok lk e c" and r: "ct_rcur c = r # rs" and min: "\<forall>y \<in> set (ct_wcur c). am_before e r y"
  shows "ct_ok lk e (c\<lparr>ct_rnew := ct_rnew c @ [r], ct_rcur := rs\<rparr>)"
proof -
  have "ct_segs (c\<lparr>ct_rnew := ct_rnew c @ [r], ct_rcur := rs\<rparr>) = ct_segs c" by (simp add: ct_segs_def r)
  with ct_okD [OF ok] min show ?thesis unfolding ct_ok_def by (auto simp: r)
qed

lemma process_retransmit_list_head_ok:
  assumes ok: "ct_ok lk e c" and r: "ct_rcur c = r # rs" and min: "\<forall>y \<in> set (ct_wcur c). am_before e r y"
    and n: "am_sn_compare_tx e (fst n) ack < 0"
  shows "\<exists>c' nx. process_retransmit_list_head ack n c r rs = Inr (c', nx) \<and> ct_ok lk e c'"
proof -
  note D = ct_okD [OF ok]
  obtain sn so so' where nn: "n = (sn, so, so')" by (cases n)
  obtain s where s: "deref (am_heap (ct_entity c)) r = Inr s" by (rule ct_deref [OF D(2), of r]) (auto simp: ct_segs_def r)
  obtain c1 where c1: "ack_retransmit_head c r rs = Inr c1" "ct_ok lk e c1" using ack_retransmit_head_ok [OF ok r] by blast
  show ?thesis
    using n s(1) c1 ct_keep_retransmit [OF ok r min] ok ct_view_keys(1) [OF D(1)]
    by (auto simp: process_retransmit_list_head_def Let_def nn am_sn_compare_tx_def)
qed

lemma am_before_trans: "am_before e x y \<Longrightarrow> am_before e y z \<Longrightarrow> am_before e x z"
  by (auto simp: sn_le_def)

lemma process_next_pdu_ok:
  assumes inv: "am_tx_inv lk0 e" and ok: "ct_ok lk e c" and n: "am_sn_compare_tx e (fst n) ack < 0"
  shows "\<exists>c' nx. process_next_pdu ack n c = Inr (c', nx) \<and> ct_ok lk e c'"
proof -
  note D = ct_okD [OF ok]
  note T = am_tx_okD [OF inv [unfolded am_tx_inv_def]]
  have v: "sn_valid (am_sn_modulus e) (seg_sn (am_heap e) x)" if "x \<in> set (ct_segs c)" for x
    using D(3) T(8) that by (auto simp: seg_sent_def)
  show ?thesis
  proof (cases "ct_wcur c"; cases "ct_rcur c")
    fix w ws r rs assume w: "ct_wcur c = w # ws" and r: "ct_rcur c = r # rs"
    obtain sw where sw: "deref (am_heap (ct_entity c)) w = Inr sw" "sdu_sn sw = seg_sn (am_heap e) w"
      by (rule ct_deref [OF D(2), of w]) (auto simp: ct_segs_def w)
    obtain sr where sr: "deref (am_heap (ct_entity c)) r = Inr sr" "sdu_sn sr = seg_sn (am_heap e) r"
      by (rule ct_deref [OF D(2), of r]) (auto simp: ct_segs_def r)
    let ?first = "am_sn_compare_tx e (sdu_sn sw) (sdu_sn sr) < 0 \<or>
       (am_sn_compare_tx e (sdu_sn sw) (sdu_sn sr) = 0 \<and> seg_so w < seg_so r)"
    have run: "process_next_pdu ack n c = (if ?first then process_wait_list_head ack n c w ws
        else process_retransmit_list_head ack n c r rs)"
      using sw(1) sr(1) ct_view_keys(2) [OF D(1)] by (simp add: process_next_pdu_def w r)
    have eq: "seg_sn (am_heap e) w = seg_sn (am_heap e) r" if "am_sn_compare_tx e (sdu_sn sw) (sdu_sn sr) = 0"
      using am_tx_order.key_inj [OF T(1) v v, of w r] that sw(2) sr(2)
      by (simp add: am_sn_compare_tx_def ct_segs_def w r)
    have srt: "\<forall>y \<in> set ws. am_before e w y" "\<forall>y \<in> set rs. am_before e r y"
      using D(5,6) unfolding w r by (simp_all add: sorted_wrt_append)
    show ?thesis
    proof (cases ?first)
      case True
      then have "am_before e w r" using eq sw(2) sr(2) by (auto simp: sn_le_def am_sn_compare_tx_def)
      then have "\<forall>y \<in> set (ct_rcur c). am_before e w y" using srt(2) am_before_trans unfolding r by auto
      from process_wait_list_head_ok [OF ok w this n] show ?thesis unfolding run if_P [OF True] .
    next
      case False
      then have "am_before e r w"
        using eq sw(2) sr(2) by (fastforce simp: sn_le_def am_sn_compare_tx_def)
      then have "\<forall>y \<in> set (ct_wcur c). am_before e r y" using srt(1) am_before_trans unfolding w by auto
      from process_retransmit_list_head_ok [OF ok r this n] show ?thesis unfolding run if_not_P [OF False] .
    qed
  qed (use ok process_wait_list_head_ok [OF ok _ _ n] process_retransmit_list_head_ok [OF ok _ _ n]
      in \<open>auto simp: process_next_pdu_def\<close>)
qed

lemma process_nack_ok:
  assumes inv: "am_tx_inv lk0 e" and n: "am_sn_compare_tx e (fst n) ack < 0" and "ct_ok lk e c"
  shows "\<exists>c' over. process_nack ack n c = Inr (c', over) \<and> ct_ok lk e c'"
  using assms(3)
proof (induction "ct_measure c" arbitrary: c rule: less_induct)
  case less
  obtain c1 nx where c1: "process_next_pdu ack n c = Inr (c1, nx)" "ct_ok lk e c1"
    using process_next_pdu_ok [OF inv less.prems n] by blast
  show ?case
  proof (cases nx)
    case Process_next_pdu
    then have "ct_measure c1 < ct_measure c" using c1(1) process_next_pdu_measure by simp
    from less.hyps [OF this c1(2)] Process_next_pdu c1(1) show ?thesis by (subst process_nack.simps) simp
  next
    case Done_nack
    with c1 show ?thesis by (subst process_nack.simps) auto
  next
    case Lists_over
    with c1 show ?thesis by (subst process_nack.simps) auto
  qed
qed

lemma process_cur_nacks_ok:
  assumes inv: "am_tx_inv lk0 e" and "\<forall>n \<in> set ns. am_sn_compare_tx e (fst n) ack < 0" and "ct_ok lk e c"
  shows "\<exists>c'. process_cur_nacks ack ns c = Inr c' \<and> ct_ok lk e c'"
  using assms(2,3)
proof (induction ns arbitrary: c)
  case (Cons n ns)
  obtain c1 over where "process_nack ack n c = Inr (c1, over)" "ct_ok lk e c1"
    using process_nack_ok [OF inv _ Cons.prems(2), of n ack] Cons.prems(1) by auto
  with Cons show ?case by auto
qed simp

lemma stop_poll_timer_ok: "ct_ok lk e c \<Longrightarrow> ct_ok lk e (stop_poll_timer n c)"
  unfolding stop_poll_timer_def Let_def
  by (simp add: ct_ok_def ct_view_def am_rx_view_def ct_segs_def)

text \<open>Reports whose negative acknowledgements are all below the acknowledgement.\<close>

definition nacks_below :: "nr_rlc_entity_am \<Rightarrow> int \<Rightarrow> nack list \<Rightarrow> bool" where
  "nacks_below e ack ns \<longleftrightarrow> (\<forall>n \<in> set ns. \<forall>x \<in> set (expand_nack e n). am_sn_compare_tx e (fst x) ack < 0)"

lemma process_nacks_ok:
  assumes inv: "am_tx_inv lk0 e" and "nacks_below e ack ns" and "ct_ok lk e c"
  shows "\<exists>c'. process_nacks ack ns c = Inr c' \<and> ct_ok lk e c'"
  using assms(2,3)
proof (induction ns arbitrary: c)
  case (Cons n ns)
  have "am_sn_modulus (ct_entity c) = am_sn_modulus e"
    using ct_okD(1) [OF Cons.prems(2)] by (simp add: ct_view_def am_rx_view_def)
  then have "expand_nack (ct_entity c) n = expand_nack e n" by (simp add: expand_nack_def)
  then obtain c1 where "process_cur_nacks ack (expand_nack (ct_entity c) n) c = Inr c1" "ct_ok lk e c1"
    using process_cur_nacks_ok [OF inv _ Cons.prems(2), of "expand_nack e n" ack] Cons.prems(1)
    by (auto simp: nacks_below_def)
  with Cons.IH [of "stop_poll_timer n c1"] Cons.prems(1) stop_poll_timer_ok [of lk e c1 n] show ?case
    by (auto simp: nacks_below_def)
qed simp

lemma ack_wait_list_ok:
  assumes "ct_ok lk e c"
  shows "\<exists>c'. ack_wait_list ack c = Inr c' \<and> ct_ok lk e c' \<and> ct_rcur c' = ct_rcur c"
  using assms
proof (induction "length (ct_wcur c)" arbitrary: c)
  case 0
  then show ?case by (subst ack_wait_list.simps) simp
next
  case (Suc k)
  then obtain w ws where w: "ct_wcur c = w # ws" by (cases "ct_wcur c") auto
  obtain s where s: "deref (am_heap (ct_entity c)) w = Inr s"
    by (rule ct_deref [OF ct_okD(2) [OF Suc.prems], of w]) (auto simp: ct_segs_def w)
  obtain c1 where c1: "ack_wait_head c w = Inr c1" "ct_ok lk e c1" "ct_wcur c1 = ws" "ct_rcur c1 = ct_rcur c"
    using ack_wait_head_ok [OF Suc.prems w] by blast
  have "k = length (ct_wcur c1)" using Suc.hyps(2) w c1(3) by simp
  from Suc.hyps(1) [OF this c1(2)] s c1 w Suc.prems show ?case by (subst ack_wait_list.simps) auto
qed

lemma ack_retransmit_list_ok:
  assumes "ct_ok lk e c"
  shows "\<exists>c'. ack_retransmit_list ack c = Inr c' \<and> ct_ok lk e c'"
  using assms
proof (induction "length (ct_rcur c)" arbitrary: c)
  case 0
  then show ?case by (subst ack_retransmit_list.simps) simp
next
  case (Suc k)
  then obtain r rs where r: "ct_rcur c = r # rs" by (cases "ct_rcur c") auto
  obtain s where s: "deref (am_heap (ct_entity c)) r = Inr s"
    by (rule ct_deref [OF ct_okD(2) [OF Suc.prems], of r]) (auto simp: ct_segs_def r)
  obtain c1 where c1: "ack_retransmit_head c r rs = Inr c1" "ct_ok lk e c1" "ct_rcur c1 = rs"
    using ack_retransmit_head_ok [OF Suc.prems r] by blast
  have "k = length (ct_rcur c1)" using Suc.hyps(2) r c1(3) by simp
  from Suc.hyps(1) [OF this c1(2)] s c1 r Suc.prems show ?case by (subst ack_retransmit_list.simps) auto
qed

lemma ct_ok_start:
  assumes inv: "am_tx_inv lk e"
  shows "ct_ok lk e (control_start e ack)"
proof -
  note D = am_tx_okD [OF inv [unfolded am_tx_inv_def]]
  let ?c = "control_start e ack"
  have "heap_leak lk (am_heap e) ((am_wait_list e @ am_retransmit_list e) @ am_tx_list e)"
    by (rule heap_ok_perm [OF D(4)]) simp
  then have "ct_heap_ok lk e (am_heap e) ((am_wait_list e @ am_retransmit_list e) @ am_tx_list e)"
    using D(7) by (simp add: ct_heap_ok_def)
  then show ?thesis
    using D(6,10,11,14)
    by (simp add: ct_ok_def control_start_def ct_segs_def ct_view_def am_rx_view_def)
qed

section \<open>Moving the window\<close>

lemma am_ack_key:
  assumes "am_tx_cfg e" and "sn_valid (am_sn_modulus e) A" and "sn_valid (am_sn_modulus e) a"
    and "am_modulus_tx e A \<le> am_modulus_tx e a"
  shows "am_modulus_tx (e\<lparr>am_tx_next_ack := A\<rparr>) a = am_modulus_tx e a - am_modulus_tx e A"
proof -
  let ?e = "e\<lparr>am_tx_next_ack := A\<rparr>"
  have "am_tx_cfg ?e" using assms(1,2) by (auto simp: am_tx_cfg_def am_cfg_def)
  then have "am_modulus_tx ?e a = (a - A) mod am_sn_modulus e" using am_modulus_tx_eq [of ?e a] assms(3) by simp
  also have "\<dots> = (am_modulus_tx e a - am_modulus_tx e A) mod am_sn_modulus e"
    using am_modulus_tx_eq [OF assms(1,2)] am_modulus_tx_eq [OF assms(1,3)] by (simp add: mod_diff_eq)
  finally show ?thesis
    using assms(4) am_tx_order.key_range [OF assms(1,2)] am_tx_order.key_range [OF assms(1,3)]
    by (simp add: sn_valid_def)
qed

lemma am_move_ack_ok:
  assumes inv: "am_tx_inv lk e" and A: "sn_valid (am_sn_modulus e) A" "am_modulus_tx e A \<le> am_flight e"
    and low: "\<forall>x \<in> set (am_tx_list e @ am_wait_list e @ am_retransmit_list e). seg_sn (am_heap e) x \<noteq> - 1 \<longrightarrow>
      am_modulus_tx e A \<le> am_modulus_tx e (seg_sn (am_heap e) x)"
  shows "am_tx_inv lk (e\<lparr>am_tx_next_ack := A\<rparr>)"
proof -
  note D = am_tx_okD [OF inv [unfolded am_tx_inv_def]]
  let ?k = "am_modulus_tx e A" and ?sn = "seg_sn (am_heap e)"
  define e' where "e' = e\<lparr>am_tx_next_ack := A\<rparr>"
  have f: "am_heap e' = am_heap e" "am_tx_list e' = am_tx_list e" "am_wait_list e' = am_wait_list e"
    "am_retransmit_list e' = am_retransmit_list e" "am_tx_end e' = am_tx_end e" "am_wait_end e' = am_wait_end e"
    "am_common e' = am_common e" "am_tx_next e' = am_tx_next e" "am_window_size e' = am_window_size e"
    "am_sn_modulus e' = am_sn_modulus e" "am_seg_cost e' = am_seg_cost e"
    using am_header_cong [of e' e] by (simp_all add: e'_def)
  have kA: "0 \<le> ?k" using am_tx_order.key_range [OF D(1) A(1)] by (simp add: sn_valid_def)
  have fl: "am_flight e' = am_flight e - ?k"
    using am_ack_key [OF D(1) A(1) D(2)] A(2) by (simp add: am_flight_def e'_def)
  have key: "am_modulus_tx e' (?sn x) = am_modulus_tx e (?sn x) - ?k" "seg_sent e' x"
    if x: "seg_sent e x" "x \<in> set (am_tx_list e @ am_wait_list e @ am_retransmit_list e)" for x
  proof -
    have v: "sn_valid (am_sn_modulus e) (?sn x)" "?sn x \<noteq> - 1" using x(1) by (auto simp: seg_sent_def sn_valid_def)
    then show "am_modulus_tx e' (?sn x) = am_modulus_tx e (?sn x) - ?k"
      using am_ack_key [OF D(1) A(1) v(1)] low x(2) by (simp add: e'_def)
    with v x(1) show "seg_sent e' x" unfolding seg_sent_def f fl by simp
  qed
  have srt: "am_sorted e' l" if "am_sorted e l" "set l \<subseteq> set (am_wait_list e @ am_retransmit_list e)" for l
    unfolding f using that(1)
  proof (rule sorted_wrt_mono_rel [rotated])
    fix x y assume "x \<in> set l" "y \<in> set l" "sn_le (am_modulus_tx e) ?sn seg_so x y"
    with key(1) [of x] key(1) [of y] D(8) that(2) show "sn_le (am_modulus_tx e') ?sn seg_so x y"
      by (auto simp: sn_le_def subset_iff)
  qed
  have s1: "am_sorted e' (am_wait_list e)" by (rule srt [OF D(10)]) simp
  have s2: "am_sorted e' (am_retransmit_list e)" by (rule srt [OF D(11)]) simp
  have "tx_shape e' (am_tx_list e)"
  proof (cases "am_tx_list e")
    case (Cons y ys)
    with key [of y] D(9) show ?thesis unfolding Cons tx_shape_Cons f fl by auto
  qed (simp add: tx_shape_def)
  moreover have "\<forall>x \<in> set ([] @ am_wait_list e @ am_retransmit_list e). seg_sent e' x"
    using D(8) key(2) by simp
  moreover have "am_tx_cfg e'" using D(1) A(1) by (simp add: am_tx_cfg_def am_cfg_def e'_def)
  ultimately have "am_tx_ok lk e' []"
    unfolding am_tx_ok_def using D(2-7,12-14) kA fl s1 s2 by (simp add: f)
  then show ?thesis by (simp add: am_tx_inv_def e'_def)
qed

lemma lower_to_head_ok:
  assumes cfg: "am_tx_cfg e" and s: "am_sorted e l"
    and l: "\<forall>x \<in> set l. seg_sent e x" "\<forall>x \<in> set l. \<exists>d. h_sdus (am_heap e) (seg_sdu x) = Some d"
    and t: "sn_valid (am_sn_modulus e) t"
  obtains t' where "lower_to_head e l t = Inr t'" "sn_valid (am_sn_modulus e) t'"
    "am_modulus_tx e t' \<le> am_modulus_tx e t"
    "\<forall>x \<in> set l. am_modulus_tx e t' \<le> am_modulus_tx e (seg_sn (am_heap e) x)"
proof (cases l)
  case Nil
  with that [of t] t show thesis by (simp add: lower_to_head_def)
next
  case (Cons y ys)
  obtain d where d: "h_sdus (am_heap e) (seg_sdu y) = Some d" "seg_sn (am_heap e) y = sdu_sn d"
    using l(2) Cons seg_sn_Some by auto
  have "\<forall>x \<in> set ys. am_modulus_tx e (sdu_sn d) \<le> am_modulus_tx e (seg_sn (am_heap e) x)"
    using s Cons d(2) by (auto simp: sn_le_def)
  moreover have "sn_valid (am_sn_modulus e) (sdu_sn d)" using l(1) Cons d(2) by (auto simp: seg_sent_def)
  moreover have "lower_to_head e l t = Inr (if am_modulus_tx e (sdu_sn d) < am_modulus_tx e t then sdu_sn d else t)"
    using d Cons by (simp add: lower_to_head_def deref_def am_tx_order.cmp_neg_key [OF cfg])
  ultimately show thesis
    using that [of "sdu_sn d"] that [of t] d(2) t Cons
    by (cases "am_modulus_tx e (sdu_sn d) < am_modulus_tx e t") force+
qed

lemma update_tx_next_ack_ok:
  assumes inv: "am_tx_inv lk e" and ack: "sn_valid (am_sn_modulus e) ack"
    and part: "\<forall>x \<in> set (am_tx_list e). seg_sn (am_heap e) x \<noteq> - 1 \<longrightarrow>
      am_modulus_tx e ack \<le> am_modulus_tx e (seg_sn (am_heap e) x)"
  shows "\<exists>A. update_tx_next_ack e ack = Inr (e\<lparr>am_tx_next_ack := A\<rparr>) \<and> am_tx_inv lk (e\<lparr>am_tx_next_ack := A\<rparr>)"
proof -
  note D = am_tx_okD [OF inv [unfolded am_tx_inv_def]]
  have live: "\<forall>x \<in> set (am_wait_list e @ am_retransmit_list e). \<exists>d. h_sdus (am_heap e) (seg_sdu x) = Some d"
    using heap_live [OF D(4)] by simp
  obtain t1 where t1: "lower_to_head e (am_wait_list e) (am_tx_next e) = Inr t1" "sn_valid (am_sn_modulus e) t1"
    "am_modulus_tx e t1 \<le> am_modulus_tx e (am_tx_next e)"
    "\<forall>x \<in> set (am_wait_list e). am_modulus_tx e t1 \<le> am_modulus_tx e (seg_sn (am_heap e) x)"
    by (rule lower_to_head_ok [OF D(1,10) _ _ D(2)]) (use D(8) live in auto)
  obtain t2 where t2: "lower_to_head e (am_retransmit_list e) t1 = Inr t2" "sn_valid (am_sn_modulus e) t2"
    "am_modulus_tx e t2 \<le> am_modulus_tx e t1"
    "\<forall>x \<in> set (am_retransmit_list e). am_modulus_tx e t2 \<le> am_modulus_tx e (seg_sn (am_heap e) x)"
    by (rule lower_to_head_ok [OF D(1,11) _ _ t1(2)]) (use D(8) live in auto)
  define A where "A = (if am_sn_compare_tx e ack t2 < 0 then ack else t2)"
  have A: "sn_valid (am_sn_modulus e) A" "am_modulus_tx e A \<le> am_modulus_tx e ack" "am_modulus_tx e A \<le> am_modulus_tx e t2"
    using ack t2(2) by (auto simp: A_def am_sn_compare_tx_def)
  have "am_tx_inv lk (e\<lparr>am_tx_next_ack := A\<rparr>)"
    by (rule am_move_ack_ok [OF inv A(1)]) (use A t1 t2 part in \<open>fastforce simp: am_flight_def\<close>)+
  then show ?thesis using t1(1) t2(1) by (auto simp: update_tx_next_ack_def A_def)
qed

lemma ct_ok_finish:
  assumes inv: "am_tx_inv lk0 e" and ok: "ct_ok lk e c"
  shows "am_tx_inv lk (control_finish c)"
    and "am_modulus_tx (control_finish c) = am_modulus_tx e" "am_sn_modulus (control_finish c) = am_sn_modulus e"
    "am_tx_list (control_finish c) = am_tx_list e" "am_rx_view (control_finish c) = am_rx_view e"
    "\<forall>x \<in> set (am_tx_list e). seg_sn (am_heap (control_finish c)) x = seg_sn (am_heap e) x"
proof -
  note D = am_tx_okD [OF inv [unfolded am_tx_inv_def]]
  note C = ct_okD [OF ok]
  define e' where "e' = control_finish c"
  have f: "am_tx_list e' = am_tx_list e" "am_tx_end e' = am_tx_end e" "am_wait_list e' = ct_wdone c @ ct_wcur c"
    "am_retransmit_list e' = ct_rnew c @ ct_rcur c" "am_heap e' = am_heap (ct_entity c)"
    "am_wait_end e' = (case ct_end c of None \<Rightarrow> am_wait_end e | Some p \<Rightarrow> p)" "am_rx_view e' = am_rx_view e"
    "am_tx_next e' = am_tx_next e" "am_tx_next_ack e' = am_tx_next_ack e"
    "bs_tx_size (c_bstatus (am_common e')) = bs_tx_size (c_bstatus (am_common e))"
    "am_common e' = am_common (ct_entity c)" "am_sn_modulus e' = am_sn_modulus e"
    "am_window_size e' = am_window_size e" "am_sn_field_length e' = am_sn_field_length e"
    using C(1,4) by (cases "ct_end c"; simp add: e'_def control_finish_def Let_def ct_view_def am_rx_view_def)+
  have k: "am_modulus_tx e' = am_modulus_tx e" "am_seg_cost e' = am_seg_cost e" "am_flight e' = am_flight e"
    using am_tx_key_cong [of e' e] am_header_cong [of e' e] f by (simp_all add: am_flight_def)
  have sn: "\<forall>x \<in> set (ct_segs c @ am_tx_list e). seg_sn (am_heap e') x = seg_sn (am_heap e) x"
    and heap: "heap_leak lk (am_heap e') (ct_segs c @ am_tx_list e)"
    and sz: "\<forall>a s. h_sdus (am_heap e') a = Some s \<longrightarrow> sdu_size s \<le> NR_SDU_MAX"
    using C(2) unfolding ct_heap_ok_def f by blast+
  let ?l = "am_tx_list e @ (ct_wdone c @ ct_wcur c) @ ct_rnew c @ ct_rcur c"
  have set_l: "set (ct_segs c @ am_tx_list e) = set ?l" by (auto simp: ct_segs_def)
  have "heap_leak lk (am_heap e') ?l" by (rule heap_ok_perm [OF heap]) (simp add: ct_segs_def)
  moreover have "all_disj (am_heap e') ?l"
  proof -
    have "all_disj (am_heap e) ?l"
      by (rule all_disj_subset [OF D(12)]) (use C(3) in \<open>auto simp: ct_segs_def\<close>)
    then show ?thesis using sn unfolding set_l all_disj_def seg_disj_def by metis
  qed
  moreover have sent: "seg_sent e' x" if "x \<in> set (ct_segs c)" for x
    using D(8) C(3) sn that unfolding seg_sent_def k f by auto
  moreover have shape: "tx_shape e' (am_tx_list e)"
  proof (cases "am_tx_list e")
    case (Cons y ys)
    have "seg_sn (am_heap e') x = seg_sn (am_heap e) x" if "x \<in> set (y # ys)" for x using sn that Cons by auto
    with D(9) show ?thesis unfolding Cons tx_shape_Cons seg_fresh_def seg_sent_def k f by auto
  qed (simp add: tx_shape_def)
  moreover have srt: "am_sorted e' l" if "am_sorted e l" "set l \<subseteq> set (ct_segs c)" for l
    using that(1) by (rule sorted_wrt_mono_rel [rotated]) (use that(2) sn k in \<open>auto simp: sn_le_def subset_iff\<close>)
  have "am_sorted e' (ct_wdone c @ ct_wcur c)" by (rule srt [OF C(5)]) (auto simp: ct_segs_def)
  moreover have "am_sorted e' (ct_rnew c @ ct_rcur c)" by (rule srt [OF C(6)]) (auto simp: ct_segs_def)
  moreover have "am_tx_cfg e'" using D(1) unfolding am_tx_cfg_def am_cfg_def f .
  ultimately have "am_tx_ok lk e' []"
    unfolding am_tx_ok_def using D(2,3,5,13) C(8,10) sz k f(2,6-14) by (simp add: f(1,3,4) ct_segs_def)
  then show "am_tx_inv lk (control_finish c)" by (simp add: am_tx_inv_def e'_def)
  show "am_modulus_tx (control_finish c) = am_modulus_tx e" "am_sn_modulus (control_finish c) = am_sn_modulus e"
    "am_tx_list (control_finish c) = am_tx_list e" "am_rx_view (control_finish c) = am_rx_view e"
    "\<forall>x \<in> set (am_tx_list e). seg_sn (am_heap (control_finish c)) x = seg_sn (am_heap e) x"
    using k f sn unfolding e'_def by auto
qed

section \<open>Validation\<close>

text \<open>A read consumes the bits of its field.\<close>

lemma read_field_shrinks:
  assumes "dec_wf d" and "n \<le> 31" and "P err"
    and "\<And>v d'. dec_wf d' \<Longrightarrow> length (dec_rest d') + n = length (dec_rest d) \<Longrightarrow> 0 \<le> v \<Longrightarrow> v < 2 ^ n \<Longrightarrow> P (k v d')"
  shows "P (read_field d n err k)"
proof (cases "n \<le> length (dec_rest d)")
  case True
  obtain d' where d': "read_field d n err k = k (bits_val 0 (take n (dec_rest d))) d'" "dec_wf d'"
    "dec_rest d' = drop n (dec_rest d)"
    using read_field_ok [OF assms(1,2) True, of err k] by blast
  show ?thesis
    unfolding d'(1) by (rule assms(4) [OF d'(2)])
      (use d'(3) bits_val_bound [of 0 "take n (dec_rest d)"] True in auto)
qed (use read_field_err [OF assms(1,2), of err k] assms(3) in simp)

lemma read_nack_rule:
  assumes cfg: "am_cfg e" and d: "dec_wf d" and err: "P err"
    and k: "\<And>n e1 d'. dec_wf d' \<Longrightarrow> length (dec_rest d') + 16 \<le> length (dec_rest d) \<Longrightarrow> P (k n e1 d')"
  shows "P (read_nack e d err k)"
proof -
  have len: "nat (am_sn_field_length e) \<le> 31" "12 \<le> nat (am_sn_field_length e)" using cfg by (auto simp: am_cfg_def)
  note rule = read_field_shrinks [where P = P, OF _ _ err]
  show ?thesis
    unfolding read_nack_def Let_def
    by (intro rule [OF d len(1)] rule conjI impI if_split [where P = P, THEN iffD2] k) (use len in \<open>auto split: if_splits\<close>)
qed

lemma validate_nacks_ok:
  assumes cfg: "am_cfg e" and "dec_wf d" and "length (dec_rest d) < 16 * fuel"
  shows "\<exists>r. validate_nacks fuel e ack ps po e1 d = Inr r"
  using assms(2,3)
proof (induction fuel arbitrary: e1 d)
  case (Suc fuel)
  show ?case
  proof (cases e1)
    case True
    have "\<exists>r. (if list_ex (bad_nack e ack ps po) (expand_nack e n) then Inr None
        else bindr (validate_nacks fuel e ack ps po e1 d') (\<lambda>ns. Inr (map_option ((#) n) ns))) = Inr r"
      if "dec_wf d'" "length (dec_rest d') + 16 \<le> length (dec_rest d)" for n e1 d'
      using Suc.IH [OF that(1), of e1] that(2) Suc.prems(2) by auto
    then show ?thesis
      using True by (simp, intro read_nack_rule [OF cfg Suc.prems(1), where P = "\<lambda>x. \<exists>r. x = Inr r"]) auto
  qed simp
qed simp

lemma validate_control_pdu_ok:
  assumes cfg: "am_cfg e"
  shows "\<exists>r. validate_control_pdu e buf = Inr r \<and> (\<forall>ack ns. r = Some (ack, ns) \<longrightarrow>
     sn_valid (am_sn_modulus e) ack \<and> am_sn_compare_tx e ack (am_tx_next e) \<le> 0)"
proof -
  define P where "P x \<longleftrightarrow> (\<exists>r. x = Inr r \<and> (\<forall>ack ns. r = Some (ack, ns) \<longrightarrow>
     sn_valid (am_sn_modulus e) ack \<and> am_sn_compare_tx e ack (am_tx_next e) \<le> 0))"
    for x :: "(int \<times> nack list) option res"
  have err: "P (Inr None)" by (simp add: P_def)
  have len: "nat (am_sn_field_length e) \<le> 31" "am_sn_modulus e = 2 ^ nat (am_sn_field_length e)"
    using cfg unfolding am_cfg_def by auto
  note rule = read_field_shrinks [where P = P, OF _ _ err]
  have fin: "P (if am_sn_compare_tx e ack (am_tx_next e) > 0 then Inr None
      else bindr (validate_nacks (Suc (length buf)) e ack (- 1) 0 e1 d) (\<lambda>ns. Inr (map_option (Pair ack) ns)))"
    if "dec_wf d" "length (dec_rest d) \<le> 8 * length buf" "0 \<le> ack" "ack < 2 ^ nat (am_sn_field_length e)" for ack e1 d
    using validate_nacks_ok [OF cfg that(1), of "Suc (length buf)" ack "- 1" 0 e1] that(2-4) len(2) err
    by (auto simp: P_def sn_valid_def)
  have "length (dec_rest (nr_rlc_pdu_decoder_init buf)) = 8 * length buf" by simp
  then have "P (validate_control_pdu e buf)"
    unfolding validate_control_pdu_def Let_def
    by (intro rule [OF dec_wf_init] rule conjI impI if_split [where P = P, THEN iffD2] err fin len(1)) auto
  then show ?thesis by (simp add: P_def)
qed

section \<open>Properties\<close>

text \<open>What a peer that follows the protocol sends in the state \<open>e\<close>.\<close>

definition honest_report :: "nr_rlc_entity_am \<Rightarrow> int \<Rightarrow> nack list \<Rightarrow> bool" where
  "honest_report e ack ns \<longleftrightarrow> nacks_below e ack ns \<and>
     (\<forall>x \<in> set (am_tx_list e). seg_sn (am_heap e) x \<noteq> - 1 \<longrightarrow>
        am_modulus_tx e ack \<le> am_modulus_tx e (seg_sn (am_heap e) x))"

lemma process_control_pdu_ok:
  assumes inv: "am_tx_inv lk e"
    and honest: "\<And>ack ns. validate_control_pdu e buf = Inr (Some (ack, ns)) \<Longrightarrow> honest_report e ack ns"
  shows "\<exists>e'. process_control_pdu e buf = Inr e' \<and> am_tx_inv lk e' \<and> am_rx_view e' = am_rx_view e"
proof -
  have cfg: "am_cfg e" using am_tx_okD(1) [OF inv [unfolded am_tx_inv_def]] by (simp add: am_tx_cfg_def)
  obtain r where r: "validate_control_pdu e buf = Inr r"
    "\<And>ack ns. r = Some (ack, ns) \<Longrightarrow> sn_valid (am_sn_modulus e) ack"
    using validate_control_pdu_ok [OF cfg, of buf] by blast
  show ?thesis
  proof (cases r)
    case None
    then show ?thesis using r inv by (simp add: process_control_pdu_def)
  next
    case (Some p)
    then obtain ack ns where p: "r = Some (ack, ns)" by (cases p) auto
    have h: "nacks_below e ack ns" "\<forall>x \<in> set (am_tx_list e). seg_sn (am_heap e) x \<noteq> - 1 \<longrightarrow>
        am_modulus_tx e ack \<le> am_modulus_tx e (seg_sn (am_heap e) x)"
      using honest r(1) p by (simp_all add: honest_report_def)
    obtain c1 where c1: "process_nacks ack ns (control_start e ack) = Inr c1" "ct_ok lk e c1"
      using process_nacks_ok [OF inv h(1) ct_ok_start [OF inv]] by blast
    obtain c2 where c2: "ack_wait_list ack c1 = Inr c2" "ct_ok lk e c2" using ack_wait_list_ok [OF c1(2)] by blast
    obtain c3 where c3: "ack_retransmit_list ack c2 = Inr c3" "ct_ok lk e c3"
      using ack_retransmit_list_ok [OF c2(2)] by blast
    note F = ct_ok_finish [OF inv c3(2)]
    have "sn_valid (am_sn_modulus (control_finish c3)) ack" using r(2) p F(3) by simp
    moreover have "\<forall>x \<in> set (am_tx_list (control_finish c3)). seg_sn (am_heap (control_finish c3)) x \<noteq> - 1 \<longrightarrow>
        am_modulus_tx (control_finish c3) ack \<le> am_modulus_tx (control_finish c3) (seg_sn (am_heap (control_finish c3)) x)"
      using h(2) F(6) unfolding F(2,4) by simp
    ultimately obtain A where "update_tx_next_ack (control_finish c3) ack = Inr ((control_finish c3)\<lparr>am_tx_next_ack := A\<rparr>)"
      "am_tx_inv lk ((control_finish c3)\<lparr>am_tx_next_ack := A\<rparr>)"
      using update_tx_next_ack_ok [OF F(1)] by blast
    moreover have "am_rx_view ((control_finish c3)\<lparr>am_tx_next_ack := A\<rparr>) = am_rx_view e"
      using F(5) by (simp add: am_rx_view_def)
    ultimately show ?thesis using r(1) p c1(1) c2(1) c3(1) by (simp add: process_control_pdu_def)
  qed
qed

text \<open>
  C7: processing of a status report by the acknowledged mode entity. A control PDU arrives that
  either does not parse or is the report of a peer that follows the protocol: every negative
  acknowledgement is strictly below the acknowledgement (one equal to it, which the code accepts,
  is not covered), and no SDU is acknowledged whose transmission has not been completed. Then
  \<open>recv_pdu\<close> returns without a fault. For such a report the acknowledged segments are freed, the
  others merged into the ordered retransmit list and the window moved so that the whole invariant of the transmitter holds again: exact reference counts over the
  three lists, list ends, order, sequence numbers inside the window, disjoint segments and exact
  buffer status. The receiver is not touched.
\<close>

theorem am_recv_control_pdu_safe:
  assumes "am_tx_inv lk e" and "\<not> bit b 7"
    and "\<forall>ack ns. validate_control_pdu e (b # bs) = Inr (Some (ack, ns)) \<longrightarrow> honest_report e ack ns"
  shows "\<exists>e'. nr_rlc_entity_am_recv_pdu e (b # bs) = Inr e' \<and> am_tx_inv lk e' \<and> am_rx_view e' = am_rx_view e"
proof -
  let ?n = "int (length (b # bs))"
  define e1 where "e1 = e\<lparr>am_common := upd_stats (stat_rxpdu ?n) (am_common e)\<rparr>"
  have run: "nr_rlc_entity_am_recv_pdu e (b # bs) = process_control_pdu e1 (b # bs)"
    using read_dc_bit [of b bs "Inr (am_discard_pdu e1 False ?n)"
        "\<lambda>dc d. if dc = 0 then process_control_pdu e1 (b # bs) else am_recv_data_pdu e1 (b # bs) d"] assms(2)
    unfolding nr_rlc_entity_am_recv_pdu_def Let_def e1_def [symmetric] by auto
  have inv: "am_tx_inv lk e1" using assms(1) am_tx_view_inv [of e1 e] by (simp add: e1_def am_tx_view_def)
  have k: "am_sn_compare_tx e1 = am_sn_compare_tx e" "am_modulus_tx e1 = am_modulus_tx e"
    using am_tx_key_cong [of e1 e] by (simp_all add: e1_def am_sn_compare_tx_def fun_eq_iff)
  have f: "am_sn_field_length e1 = am_sn_field_length e" "am_tx_next e1 = am_tx_next e" "am_heap e1 = am_heap e"
    "am_tx_list e1 = am_tx_list e" "am_sn_modulus e1 = am_sn_modulus e" "am_rx_view e1 = am_rx_view e"
    by (simp_all add: e1_def am_rx_view_def)
  have x: "expand_nack e1 = expand_nack e" by (simp add: expand_nack_def fun_eq_iff f)
  have rn: "read_nack e1 = (read_nack e :: nr_rlc_pdu_decoder \<Rightarrow> nack list option res \<Rightarrow> _)"
    by (simp add: read_nack_def fun_eq_iff f)
  have "validate_nacks fuel e1 ack ps po y d = validate_nacks fuel e ack ps po y d" for fuel ack ps po y d
    by (induction fuel arbitrary: y d) (simp_all add: rn x k bad_nack_def [abs_def] cong: if_cong)
  then have "validate_control_pdu e1 (b # bs) = validate_control_pdu e (b # bs)"
    by (simp add: validate_control_pdu_def f k Let_def cong: if_cong)
  moreover have "honest_report e1 ack ns = honest_report e ack ns" for ack ns
    by (simp add: honest_report_def nacks_below_def x k f)
  ultimately show ?thesis
    using process_control_pdu_ok [OF inv, of "b # bs"] assms(3) run f(6) by simp
qed

text \<open>An SDU of ten bytes, of which four have been sent.\<close>

definition example_sdu :: nr_rlc_sdu where
  "example_sdu = \<lparr>sdu_sn = 0, sdu_upper_layer_id = 7, sdu_data = [1, 2, 3, 4, 5, 6, 7, 8, 9, 10], sdu_size = 10,
     sdu_retx_count = - 1, sdu_ref_count = 2, sdu_free_count = 0, sdu_time_of_arrival = 0\<rparr>"

definition example_sent :: nr_rlc_sdu_segment where
  "example_sent = \<lparr>seg_addr = 1, seg_sdu = 0, seg_size = 4, seg_so = 0, seg_is_first = True, seg_is_last = False\<rparr>"

definition example_rest :: nr_rlc_sdu_segment where
  "example_rest = \<lparr>seg_addr = 2, seg_sdu = 0, seg_size = 6, seg_so = 4, seg_is_first = False, seg_is_last = True\<rparr>"

definition example_partial :: "nr_rlc_entity_am \<Rightarrow> nr_rlc_entity_am" where
  "example_partial e = e\<lparr>am_tx_next := 1, am_tx_list := [example_rest], am_tx_end := Some 2,
     am_wait_list := [example_sent], am_wait_end := Some 1,
     am_common := add_tx_size (am_seg_cost e example_rest) (am_common e),
     am_heap := \<lparr>h_sdus = [0 \<mapsto> example_sdu], h_next = 3\<rparr>\<rparr>"

lemma example_partial_ok:
  assumes "new_nr_rlc_entity_am 10000 10000 45 35 0 16 500 4 12 = Inr e"
  shows "am_tx_inv (\<lambda>_. 0) (example_partial e)"
proof -
  have f: "am_sn_field_length e = 12" "am_sn_modulus e = 4096" "am_window_size e = 2048" "am_tx_next_ack e = 0"
    "am_retransmit_list e = []" "c_bstatus (am_common e) = \<lparr>bs_status_size = 0, bs_tx_size = 0, bs_retx_size = 0\<rparr>"
    using assms by (auto simp: new_nr_rlc_entity_am_def new_common_def split: if_splits)
  have c: "am_seg_cost (example_partial e) = am_seg_cost e"
    using am_header_cong [of "example_partial e" e] by (simp add: example_partial_def)
  have sn: "seg_sn (am_heap (example_partial e)) x = (if seg_sdu x = 0 then 0 else - 1)" for x
    by (simp add: seg_sn_def example_partial_def example_sdu_def)
  have key: "am_modulus_tx (example_partial e) a = (if a < 0 then a + 4096 else a)" for a
    by (simp add: am_modulus_tx_def example_partial_def f)
  have fl: "am_flight (example_partial e) = 1" by (simp add: am_flight_def key) (simp add: example_partial_def)
  have heap: "heap_leak (\<lambda>_. 0) (am_heap (example_partial e)) [example_rest, example_sent]"
    by (auto simp: heap_leak_def example_partial_def example_rest_def example_sent_def example_sdu_def seg_ok_def sdu_ok_def
        split: if_splits)
  have "all_disj (am_heap (example_partial e)) [example_rest, example_sent]"
    unfolding all_disj_def seg_disj_def by (simp add: sn) (simp add: example_rest_def example_sent_def)
  with heap show ?thesis
    unfolding am_tx_inv_def am_tx_ok_def tx_shape_def seg_sent_def seg_fresh_def sn fl key c
    by (simp add: example_partial_def f am_tx_cfg_def am_cfg_def sn_valid_def example_rest_def example_sent_def
        example_sdu_def NR_SDU_MAX_def end_ok_def)
qed

lemma example_new:
  "\<exists>e. new_nr_rlc_entity_am 10000 10000 45 35 0 16 500 4 12 = Inr e \<and> am_sn_field_length (example_partial e) = 12 \<and>
     am_sn_modulus (example_partial e) = 4096 \<and> am_tx_next_ack (example_partial e) = 0 \<and>
     am_tx_next (example_partial e) = 1 \<and> am_retransmit_list (example_partial e) = []"
proof -
  obtain e where e: "new_nr_rlc_entity_am 10000 10000 45 35 0 16 500 4 12 = Inr e" using new_am_Inr by blast
  then show ?thesis by (auto simp: new_nr_rlc_entity_am_def example_partial_def)
qed

lemma validate_ack_zero:
  assumes "am_sn_field_length e = 12" "am_sn_modulus e = 4096" "am_tx_next e = 1" "am_tx_next_ack e = 0"
  shows "validate_control_pdu e [0, 0, 0] = Inr (Some (0, []))"
  by (simp add: validate_control_pdu_def assms read_field_def nr_rlc_pdu_decoder_get_bits_def
      nr_rlc_pdu_decoder_init_def am_sn_compare_tx_def am_modulus_tx_def get_bit_def Let_def eval_nat_numeral)

theorem am_recv_control_pdu_safe_witness:
  "\<exists>e e'. new_nr_rlc_entity_am 10000 10000 45 35 0 16 500 4 12 = Inr e \<and>
     nr_rlc_entity_am_recv_pdu (example_partial e) [0, 0, 0] = Inr e' \<and> am_tx_inv (\<lambda>_. 0) e'"
proof -
  obtain e where e: "new_nr_rlc_entity_am 10000 10000 45 35 0 16 500 4 12 = Inr e"
    "am_sn_field_length (example_partial e) = 12" "am_sn_modulus (example_partial e) = 4096"
    "am_tx_next_ack (example_partial e) = 0" "am_tx_next (example_partial e) = 1"
    using example_new by blast
  have "seg_sn (am_heap (example_partial e)) example_rest = 0" "am_tx_list (example_partial e) = [example_rest]"
    by (simp_all add: example_partial_def seg_sn_def example_rest_def example_sdu_def)
  then have "honest_report (example_partial e) 0 []"
    by (simp add: honest_report_def nacks_below_def)
  with am_recv_control_pdu_safe [OF example_partial_ok [OF e(1)], of 0 "[0, 0]"] validate_ack_zero [OF e(2,3,5,4)] e(1)
  show ?thesis by auto
qed

text \<open>
  a report that the previous property leaves out, and which a peer sends when the transmission of
  an SDU is interrupted for longer than its reassembly timer. The first bytes of an SDU have been
  sent, the rest \<open>x\<close> is at the head of the transmit list; the report asks for the bytes from \<open>x\<close> on and
  acknowledges up to the next sequence number. The entity then frees the segment \<open>w\<close> that was sent and
  moves the start of its window behind the SDU, while the rest of the SDU is still to be sent: its
  sequence number is outside of the transmit window from then on.
\<close>

lemma am_ack_of_partial_sdu:
  assumes inv: "am_tx_inv lk e" and tx: "am_tx_list e = x # l" "seg_sn (am_heap e) x \<noteq> - 1"
    and w: "am_wait_list e = [w]" "seg_sn (am_heap e) w = seg_sn (am_heap e) x" "seg_so w < seg_so x"
    and r: "am_retransmit_list e = []"
    and val: "validate_control_pdu e buf = Inr (Some (am_tx_next e,
      [\<lparr>nk_sn = seg_sn (am_heap e) x, nk_so_start = seg_so x, nk_so_end = - 1, nk_range = 1\<rparr>]))"
  shows "\<exists>e'. process_control_pdu e buf = Inr e' \<and> am_tx_list e' = x # l \<and> am_wait_list e' = [] \<and>
     am_tx_next_ack e' = am_tx_next e \<and> (\<forall>lk'. \<not> am_tx_inv lk' e')"
proof -
  note D = am_tx_okD [OF inv [unfolded am_tx_inv_def]]
  let ?sn = "seg_sn (am_heap e) x" and ?ack = "am_tx_next e"
  have x: "seg_sent e x" "am_modulus_tx e ?sn = am_flight e - 1"
    using D(9) tx by (auto simp: tx_shape_Cons seg_fresh_def)
  have v: "sn_valid (am_sn_modulus e) ?sn" using x(1) by (simp add: seg_sent_def)
  have less: "am_sn_compare_tx e ?sn ?ack < 0" using x(2) by (simp add: am_sn_compare_tx_def am_flight_def)
  define c0 where "c0 = control_start e ?ack"
  have c0: "ct_ok lk e c0" "ct_wcur c0 = [w]" "ct_rcur c0 = []" "ct_wdone c0 = []" "ct_rnew c0 = []"
    using ct_ok_start [OF inv] w(1) r by (simp_all add: c0_def control_start_def)
  obtain sw where sw: "deref (am_heap (ct_entity c0)) w = Inr sw" "sdu_sn sw = seg_sn (am_heap e) w"
    by (rule ct_deref [OF ct_okD(2) [OF c0(1)], of w]) (auto simp: ct_segs_def c0)
  obtain c1 where c1: "ack_wait_head c0 w = Inr c1" "ct_ok lk e c1" "ct_wcur c1 = []" "ct_rcur c1 = []"
    "ct_wdone c1 = []" "ct_rnew c1 = []"
    using ack_wait_head_ok [OF c0(1,2)] c0(3-5) by auto
  have "seg_addr w \<noteq> seg_addr x" using D(4) tx(1) w(1) by (auto simp: heap_leak_def)
  then have "seg_disj (am_heap e) w x" using D(12) tx(1) w(1) by (auto simp: all_disj_def)
  then have dj: "0 < seg_size w" "seg_so w + seg_size w \<le> seg_so x"
    using w(2,3) tx(2) by (auto simp: seg_disj_def)
  have "seg_ok (am_heap e) w" using D(4) w(1) by (simp add: heap_leak_def)
  then have "0 \<le> seg_so w" by (auto simp: seg_ok_def)
  then have no: "\<not> so_overlap (seg_so x) (- 1) (seg_so w) (seg_so w + seg_size w - 1)"
    using dj w(3) by (simp add: so_overlap_def)
  note k = ct_view_keys(2) [OF ct_okD(1) [OF c0(1)]]
  have step1: "process_next_pdu ?ack (?sn, seg_so x, - 1) c0 = Inr (c1, Process_next_pdu)"
    using sw no w less c1(1) k
    by (simp add: process_next_pdu_def c0 process_wait_list_head_def Let_def) (simp add: am_sn_compare_tx_def)
  have step2: "process_next_pdu ?ack (?sn, seg_so x, - 1) c1 = Inr (c1, Lists_over)"
    by (simp add: process_next_pdu_def c1)
  have pn: "process_nack ?ack (?sn, seg_so x, - 1) c0 = Inr (c1, True)"
    by (subst process_nack.simps, simp add: step1) (subst process_nack.simps, simp add: step2)
  let ?n = "\<lparr>nk_sn = ?sn, nk_so_start = seg_so x, nk_so_end = - 1, nk_range = 1\<rparr>"
  have "am_sn_modulus (ct_entity c0) = am_sn_modulus e"
    using ct_okD(1) [OF c0(1)] by (simp add: ct_view_def am_rx_view_def)
  then have ex: "expand_nack (ct_entity c0) ?n = [(?sn, seg_so x, - 1)]"
    using v by (simp add: expand_nack_def sn_valid_def)
  define c2 where "c2 = stop_poll_timer ?n c1"
  have c2: "ct_ok lk e c2" "ct_wcur c2 = []" "ct_rcur c2 = []" "ct_wdone c2 = []" "ct_rnew c2 = []"
    unfolding c2_def by (rule stop_poll_timer_ok [OF c1(2)]) (simp_all add: stop_poll_timer_def Let_def c1)
  have loops: "process_nacks ?ack [?n] c0 = Inr c2" "ack_wait_list ?ack c2 = Inr c2" "ack_retransmit_list ?ack c2 = Inr c2"
    using pn by (simp_all add: ex c2_def [symmetric] ack_wait_list.simps ack_retransmit_list.simps c2)
  define e' where "e' = (control_finish c2)\<lparr>am_tx_next_ack := ?ack\<rparr>"
  note F = ct_ok_finish [OF inv c2(1)]
  have cf: "am_wait_list (control_finish c2) = []" "am_retransmit_list (control_finish c2) = []"
    "am_tx_next (control_finish c2) = ?ack"
    using c2 ct_okD(1,4) [OF c2(1)] by (simp_all add: control_finish_def Let_def ct_view_def)
  have "update_tx_next_ack (control_finish c2) ?ack = Inr e'"
    by (simp add: update_tx_next_ack_def cf lower_to_head_def e'_def)
  then have run: "process_control_pdu e buf = Inr e'"
    using val loops by (simp add: process_control_pdu_def c0_def)
  have f: "am_tx_list e' = x # l" "am_wait_list e' = []" "am_tx_next_ack e' = ?ack" "am_tx_next e' = ?ack"
    "seg_sn (am_heap e') x = ?sn"
    using F(4,6) tx(1) cf by (simp_all add: e'_def)
  have "\<not> am_tx_inv lk' e'" for lk'
  proof
    assume "am_tx_inv lk' e'"
    note E = am_tx_okD [OF this [unfolded am_tx_inv_def]]
    have "seg_sent e' x" using E(9) tx(2) f(1,5) by (auto simp: tx_shape_Cons seg_fresh_def)
    moreover have "am_flight e' = 0" by (simp add: am_flight_def am_modulus_tx_def f)
    ultimately show False
      using am_tx_order.key_range [OF E(1), of ?sn] f(5) by (auto simp: seg_sent_def sn_valid_def)
  qed
  with run f show ?thesis by blast
qed

text \<open>The fields of the report, read one after the other.\<close>

definition example_report :: "byte list" where
  "example_report = [0x00, 0x01, 0x80, 0x00, 0x04, 0x00, 0x04, 0xff, 0xff]"

definition example_dec :: "nat \<Rightarrow> nat \<Rightarrow> nr_rlc_pdu_decoder" where
  "example_dec i j = \<lparr>dec_error = False, dec_byte = i, dec_bit = j, dec_buffer = example_report, dec_size = 9\<rparr>"

lemma example_fields:
  "nr_rlc_pdu_decoder_get_bits (nr_rlc_pdu_decoder_init example_report) 1 = Inr (0, example_dec 0 1)"
  "nr_rlc_pdu_decoder_get_bits (example_dec 0 1) 3 = Inr (0, example_dec 0 4)"
  "nr_rlc_pdu_decoder_get_bits (example_dec 0 4) 12 = Inr (1, example_dec 2 0)"
  "nr_rlc_pdu_decoder_get_bits (example_dec 2 0) 1 = Inr (1, example_dec 2 1)"
  "nr_rlc_pdu_decoder_get_bits (example_dec 2 1) 7 = Inr (0, example_dec 3 0)"
  "nr_rlc_pdu_decoder_get_bits (example_dec 3 0) 12 = Inr (0, example_dec 4 4)"
  "nr_rlc_pdu_decoder_get_bits (example_dec 4 4) 1 = Inr (0, example_dec 4 5)"
  "nr_rlc_pdu_decoder_get_bits (example_dec 4 5) 1 = Inr (1, example_dec 4 6)"
  "nr_rlc_pdu_decoder_get_bits (example_dec 4 6) 1 = Inr (0, example_dec 4 7)"
  "nr_rlc_pdu_decoder_get_bits (example_dec 4 7) 1 = Inr (0, example_dec 5 0)"
  "nr_rlc_pdu_decoder_get_bits (example_dec 5 0) 16 = Inr (4, example_dec 7 0)"
  "nr_rlc_pdu_decoder_get_bits (example_dec 7 0) 16 = Inr (0xffff, example_dec 9 0)"
  by code_simp+

lemma validate_partial:
  assumes "am_sn_field_length e = 12" "am_sn_modulus e = 4096" "am_tx_next e = 1" "am_tx_next_ack e = 0"
  shows "validate_control_pdu e example_report =
     Inr (Some (1, [\<lparr>nk_sn = 0, nk_so_start = 4, nk_so_end = - 1, nk_range = 1\<rparr>]))"
proof -
  let ?n = "\<lparr>nk_sn = 0, nk_so_start = 4, nk_so_end = - 1, nk_range = 1\<rparr>"
  have err: "\<not> dec_error (example_dec i j)" for i j by (simp add: example_dec_def)
  have ok: "\<not> list_ex (bad_nack e 1 (- 1) 0) (expand_nack e ?n)" "am_sn_compare_tx e 1 (am_tx_next e) = 0"
    by (simp_all add: expand_nack_def bad_nack_def am_sn_compare_tx_def am_modulus_tx_def assms)
  have nack: "read_nack e (example_dec 3 0) er k = k ?n False (example_dec 9 0)" for er and k :: "_ \<Rightarrow> _ \<Rightarrow> _ \<Rightarrow> nack list option res"
    by (simp add: read_nack_def read_field_def example_fields err assms(1) Let_def del: One_nat_def)
  have "validate_nacks (Suc (Suc m)) e 1 (- 1) 0 True (example_dec 3 0) = Inr (Some [?n])" for m
    using ok(1) by (simp add: nack)
  moreover have "length example_report = Suc 8" by (simp add: example_report_def)
  ultimately have "validate_nacks (Suc (length example_report)) e 1 (- 1) 0 True (example_dec 3 0) = Inr (Some [?n])"
    by (simp only:)
  then show ?thesis
    using ok(2) by (simp add: validate_control_pdu_def read_field_def example_fields err assms(1) Let_def
        del: One_nat_def validate_nacks.simps)
qed

lemma am_ack_of_partial_sdu_example:
  "\<exists>e e'. new_nr_rlc_entity_am 10000 10000 45 35 0 16 500 4 12 = Inr e \<and>
     process_control_pdu (example_partial e) example_report = Inr e' \<and>
     am_tx_next_ack e' = 1 \<and> am_tx_list e' = [example_rest]"
proof -
  obtain e where e: "new_nr_rlc_entity_am 10000 10000 45 35 0 16 500 4 12 = Inr e"
    "am_sn_field_length (example_partial e) = 12" "am_sn_modulus (example_partial e) = 4096"
    "am_tx_next_ack (example_partial e) = 0" "am_tx_next (example_partial e) = 1"
    "am_retransmit_list (example_partial e) = []"
    using example_new by blast
  have f: "am_tx_list (example_partial e) = [example_rest]" "am_wait_list (example_partial e) = [example_sent]"
    "seg_sn (am_heap (example_partial e)) example_rest = 0" "seg_sn (am_heap (example_partial e)) example_sent = 0"
    "seg_so example_sent = 0" "seg_so example_rest = 4"
    by (simp_all add: example_partial_def seg_sn_def example_rest_def example_sent_def example_sdu_def)
  have "\<exists>e'. process_control_pdu (example_partial e) example_report = Inr e' \<and>
      am_tx_list e' = [example_rest] \<and> am_wait_list e' = [] \<and> am_tx_next_ack e' = am_tx_next (example_partial e) \<and>
      (\<forall>lk'. \<not> am_tx_inv lk' e')"
    by (rule am_ack_of_partial_sdu [OF example_partial_ok [OF e(1)] f(1) _ f(2)])
      (use f e(6) validate_partial [OF e(2,3,5,4)] e(5) in simp_all)
  with e(1,5) show ?thesis by auto
qed

end
