(* ===== verification/Snow3g.thy ===== *)
theory Snow3g
  imports Snow3g_Tables
begin

text \<open>
  The SNOW 3G stream cipher of \<open>openair3/SECU/snow3g.c\<close> and the two algorithms built on it: the
  ciphering \<open>snow3g_ciphering\<close> (128-NEA1) and the message authentication code \<open>snow3g_integrity\<close>
  (128-NIA1).

  The shift register is kept twice in an array of 32 words, and the pointer \<open>s\<close> moves over it instead
  of the words; it is an index here. Local arrays of C are uninitialised: what the memory holds at an
  index is given by the arguments \<open>junk\<close> and \<open>pmj\<close>, and the correctness theorems show that it has no
  influence.
\<close>

section \<open>State and clocking\<close>

record snow3g_t =
  snow_mem :: "u32 list"     \<comment> \<open>\<open>_s[16 * 2]\<close>\<close>
  snow_pos :: nat            \<comment> \<open>\<open>s - _s\<close>\<close>
  snow_r1 :: u32
  snow_r2 :: u32
  snow_r3 :: u32

definition snow_s :: "snow3g_t \<Rightarrow> nat \<Rightarrow> u32" where
  "snow_s s i = snow_mem s ! (snow_pos s + i)"

definition byte_of :: "nat \<Rightarrow> u32 \<Rightarrow> u32" where
  "byte_of n w = drop_bit n w AND 0xff"

definition snow_s1 :: "u32 \<Rightarrow> u32" where
  "snow_s1 w =
    (let w0 = unat (byte_of 24 w); w1 = unat (byte_of 16 w); w2 = unat (byte_of 8 w); w3 = unat (byte_of 0 w)
     in s1_t0 ! w3 XOR s1_t1 ! w2 XOR s1_t2 ! w1 XOR s1_t3 ! w0)"

definition snow_s2 :: "u32 \<Rightarrow> u32" where
  "snow_s2 w =
    (let w0 = unat (byte_of 24 w); w1 = unat (byte_of 16 w); w2 = unat (byte_of 8 w); w3 = unat (byte_of 0 w)
     in s2_t0 ! w3 XOR s2_t1 ! w2 XOR s2_t2 ! w1 XOR s2_t3 ! w0)"

definition MULa :: "u32 \<Rightarrow> u32" where
  "MULa c = mula ! unat c"

definition DIVa :: "u32 \<Rightarrow> u32" where
  "DIVa c = diva ! unat c"

text \<open>The value fed back into the register, the same expression in \<open>lfsr_init\<close> and \<open>lfsr_keystream\<close>.\<close>

definition lfsr_feedback :: "u32 \<Rightarrow> u32 \<Rightarrow> u32 \<Rightarrow> u32" where
  "lfsr_feedback x0 x2 x11 =
    (let v0 = push_bit 24 (byte_of 16 x0) OR push_bit 16 (byte_of 8 x0) OR push_bit 8 (byte_of 0 x0);
         v11 = push_bit 16 (byte_of 24 x11) OR push_bit 8 (byte_of 16 x11) OR byte_of 8 x11
     in v0 XOR MULa (byte_of 24 x0) XOR x2 XOR v11 XOR DIVa (byte_of 0 x11))"

definition lfsr_advance :: "u32 \<Rightarrow> snow3g_t \<Rightarrow> snow3g_t" where
  "lfsr_advance v s =
    (let mem = (snow_mem s)[snow_pos s := v, snow_pos s + 16 := v]; pos = snow_pos s + 1
     in s\<lparr>snow_mem := mem, snow_pos := if pos = 16 then 0 else pos\<rparr>)"

definition lfsr_init :: "snow3g_t \<Rightarrow> u32 \<Rightarrow> snow3g_t" where
  "lfsr_init s f = lfsr_advance (lfsr_feedback (snow_s s 0) (snow_s s 2) (snow_s s 11) XOR f) s"

definition lfsr_keystream :: "snow3g_t \<Rightarrow> snow3g_t" where
  "lfsr_keystream s = lfsr_advance (lfsr_feedback (snow_s s 0) (snow_s s 2) (snow_s s 11)) s"

definition clock_fsm :: "snow3g_t \<Rightarrow> u32 \<times> snow3g_t" where
  "clock_fsm s =
    (let f = (snow_s s 15 + snow_r1 s) XOR snow_r2 s;
         r = snow_r2 s + (snow_r3 s XOR snow_s s 5)
     in (f, s\<lparr>snow_r1 := r, snow_r2 := snow_s1 (snow_r1 s), snow_r3 := snow_s2 (snow_r2 s)\<rparr>))"

section \<open>Initialisation and keystream\<close>

definition GET32 :: "byte list \<Rightarrow> u32" where
  "GET32 b = push_bit 24 (ucast (b ! 0)) OR push_bit 16 (ucast (b ! 1)) OR push_bit 8 (ucast (b ! 2)) OR ucast (b ! 3)"

definition init_clock :: "snow3g_t \<Rightarrow> snow3g_t" where
  "init_clock s = (case clock_fsm s of (f, s') \<Rightarrow> lfsr_init s' f)"

text \<open>The sixteen words stored into the register, from \<open>s[0]\<close> to \<open>s[15]\<close>.\<close>

definition snow3g_load :: "byte list \<Rightarrow> byte list \<Rightarrow> u32 list" where
  "snow3g_load kb ivb =
    (let k = (\<lambda>i. GET32 (drop (i * 4) kb)); iv = (\<lambda>i. GET32 (drop (i * 4) ivb)); ones = 0xffffffff
     in [k 0 XOR ones, k 1 XOR ones, k 2 XOR ones, k 3 XOR ones,
         k 0, k 1, k 2, k 3,
         k 0 XOR ones, k 1 XOR ones XOR iv 3, k 2 XOR ones XOR iv 2, k 3 XOR ones,
         k 0 XOR iv 1, k 1, k 2, k 3 XOR iv 0])"

definition snow3g_init :: "(nat \<Rightarrow> u32) \<Rightarrow> byte list \<Rightarrow> byte list \<Rightarrow> snow3g_t" where
  "snow3g_init junk kb ivb =
    (let s0 = \<lparr>snow_mem = snow3g_load kb ivb @ map junk [16..<32], snow_pos = 0, snow_r1 = 0, snow_r2 = 0, snow_r3 = 0\<rparr>;
         s1 = (init_clock ^^ 32) s0
     in lfsr_keystream (snd (clock_fsm s1)))"

definition generate_keystream_step :: "snow3g_t \<Rightarrow> u32 \<times> snow3g_t" where
  "generate_keystream_step s =
    (case clock_fsm s of (f, s') \<Rightarrow> (f XOR snow_s s' 0, lfsr_keystream s'))"

fun generate_keystream :: "nat \<Rightarrow> snow3g_t \<Rightarrow> u32 list" where
  "generate_keystream 0 s = []"
| "generate_keystream (Suc n) s =
    (case generate_keystream_step s of (z, s') \<Rightarrow> z # generate_keystream n s')"

section \<open>Ciphering\<close>

text \<open>The key bytes are read in the order of the last word first.\<close>

definition snow_key :: "byte list \<Rightarrow> byte list" where
  "snow_key key = map ((!) key) [12, 13, 14, 15, 8, 9, 10, 11, 4, 5, 6, 7, 0, 1, 2, 3]"

text \<open>The bytes of a word, most significant first: what \<open>htonl\<close> leaves in memory.\<close>

definition be_bytes :: "u32 \<Rightarrow> byte list" where
  "be_bytes w = [ucast (drop_bit 24 w), ucast (drop_bit 16 w), ucast (drop_bit 8 w), ucast w]"

definition cipher_iv :: "u32 \<Rightarrow> int \<Rightarrow> int \<Rightarrow> byte list" where
  "cipher_iv count bearer direction =
    (let b = word_of_int (push_bit 3 bearer OR push_bit 2 direction)
     in [b, 0, 0, 0] @ be_bytes count @ [b, 0, 0, 0] @ be_bytes count)"

definition snow3g_ciphering :: "(nat \<Rightarrow> u32) \<Rightarrow> u32 \<Rightarrow> int \<Rightarrow> int \<Rightarrow> byte list \<Rightarrow> byte list \<Rightarrow> byte list" where
  "snow3g_ciphering junk count bearer direction key inp =
    (let s = snow3g_init junk (snow_key key) (cipher_iv count bearer direction);
         keystream = concat (map be_bytes (generate_keystream ((length inp + 3) div 4) s))
     in map2 (XOR) inp keystream)"

section \<open>Multiplication in the field of \<open>2^64\<close> elements\<close>

definition MULx64 :: "u64 \<Rightarrow> u64 \<Rightarrow> u64" where
  "MULx64 v c = (if v AND push_bit 63 1 \<noteq> 0 then push_bit 1 v XOR c else push_bit 1 v)"

fun MULxPOW64 :: "u64 \<Rightarrow> nat \<Rightarrow> u64 \<Rightarrow> u64" where
  "MULxPOW64 v 0 c = v"
| "MULxPOW64 v (Suc i) c = MULx64 (MULxPOW64 v i c) c"

definition MUL64 :: "u64 \<Rightarrow> u64 \<Rightarrow> u64 \<Rightarrow> u64" where
  "MUL64 v p c =
    fold (\<lambda>i result. if drop_bit i p AND 1 \<noteq> 0 then result XOR MULxPOW64 v i c else result) [0..<64] 0"

text \<open>The precomputed table \<open>pm[8][256]\<close> of the products with \<open>p\<close>.\<close>

definition pm_get :: "u64 list list \<Rightarrow> nat \<Rightarrow> nat \<Rightarrow> u64" where
  "pm_get pm i j = pm ! i ! j"

definition pm_set :: "nat \<Rightarrow> nat \<Rightarrow> u64 \<Rightarrow> u64 list list \<Rightarrow> u64 list list" where
  "pm_set i j v pm = pm[i := (pm ! i)[j := v]]"

definition pm_powers :: "u64 \<Rightarrow> u64 list list \<Rightarrow> u64 list list" where
  "pm_powers p pm =
    fold (\<lambda>i pm.
        let prev = pm_get pm ((i - 1) div 8) (2 ^ ((i - 1) mod 8));
            pm' = pm_set (i div 8) (2 ^ (i mod 8)) (push_bit 1 prev) pm
        in if prev AND 0x8000000000000000 \<noteq> 0
           then pm_set (i div 8) (2 ^ (i mod 8)) (pm_get pm' (i div 8) (2 ^ (i mod 8)) XOR 0x1b) pm'
           else pm')
      [1..<64] (pm_set 0 1 p (fold (\<lambda>i. pm_set i 0 0) [0..<8] pm))"

definition pm_sums :: "u64 list list \<Rightarrow> u64 list list" where
  "pm_sums =
    fold (\<lambda>i. fold (\<lambda>j. fold (\<lambda>k pm. pm_set i (2 ^ j + k) (pm_get pm i (2 ^ j) XOR pm_get pm i k) pm)
        [1..<2 ^ j]) [1..<8]) [0..<8]"

definition pm_table :: "(nat \<Rightarrow> nat \<Rightarrow> u64) \<Rightarrow> u64 \<Rightarrow> u64 list list" where
  "pm_table pmj p = pm_sums (pm_powers p (map (\<lambda>i. map (pmj i) [0..<256]) [0..<8]))"

definition mul_p :: "u64 list list \<Rightarrow> u64 \<Rightarrow> u64" where
  "mul_p pm x =
    (let x0 = unat (drop_bit (32 + 24) x AND 255); x1 = unat (drop_bit (32 + 16) x AND 255);
         x2 = unat (drop_bit (32 + 8) x AND 255); x3 = unat (drop_bit 32 x AND 255);
         x4 = unat (drop_bit 24 x AND 255); x5 = unat (drop_bit 16 x AND 255);
         x6 = unat (drop_bit 8 x AND 255); x7 = unat (x AND 255)
     in pm_get pm 0 x7 XOR pm_get pm 1 x6 XOR pm_get pm 2 x5 XOR pm_get pm 3 x4 XOR
        pm_get pm 4 x3 XOR pm_get pm 5 x2 XOR pm_get pm 6 x1 XOR pm_get pm 7 x0)"

section \<open>Integrity\<close>

text \<open>
  \<open>GET64\<close> reads the first bytes that are available and takes zero for the others; the pointer is an
  offset into the message, and a read outside of the message is a fault.
\<close>

definition GET64 :: "byte list \<Rightarrow> int \<Rightarrow> int \<Rightarrow> u64 res" where
  "GET64 buf pos available =
    (if pos < 0 \<or> pos + available > int (length buf) then Inl Out_of_bounds
     else let b = (\<lambda>i. if int i < available then ucast (buf ! (nat pos + i)) else 0 :: u64)
          in Inr (push_bit (32 + 24) (b 0) OR push_bit (32 + 16) (b 1) OR push_bit (32 + 8) (b 2) OR push_bit 32 (b 3)
              OR push_bit 24 (b 4) OR push_bit 16 (b 5) OR push_bit 8 (b 6) OR b 7))"

fun eval_blocks :: "u64 list list \<Rightarrow> byte list \<Rightarrow> nat list \<Rightarrow> u64 \<Rightarrow> u64 res" where
  "eval_blocks pm inp [] ev = Inr ev"
| "eval_blocks pm inp (i # is) ev =
    bindr (GET64 inp (int i * 8) 8) (\<lambda>m. eval_blocks pm inp is (mul_p pm (ev XOR m)))"

definition integrity_iv :: "u32 \<Rightarrow> u32 \<Rightarrow> int \<Rightarrow> byte list" where
  "integrity_iv count fresh direction =
    (let dir = word_of_int (push_bit 7 (direction AND 1)); f = be_bytes fresh; c = be_bytes count
     in [f ! 0, f ! 1, f ! 2 XOR dir, f ! 3] @ [c ! 0 XOR dir, c ! 1, c ! 2, c ! 3] @ f @ c)"

definition snow3g_integrity_fresh ::
  "(nat \<Rightarrow> u32) \<Rightarrow> (nat \<Rightarrow> nat \<Rightarrow> u64) \<Rightarrow> u32 \<Rightarrow> u32 \<Rightarrow> int \<Rightarrow> byte list \<Rightarrow> byte list \<Rightarrow> byte list res" where
  "snow3g_integrity_fresh junk pmj count fresh direction key inp =
    (let len = int (length inp);
         s = snow3g_init junk (snow_key key) (integrity_iv count fresh direction);
         z = generate_keystream 5 s;
         d = (len * 8 + 63) div 64 + 1;
         p = push_bit 32 (ucast (z ! 0)) OR ucast (z ! 1);
         q = push_bit 32 (ucast (z ! 2)) OR ucast (z ! 3);
         otp = z ! 4;
         pm = pm_table pmj p
     in bindr (eval_blocks pm inp [0..<nat (d - 2)] 0) (\<lambda>ev1.
        bindr (GET64 inp ((d - 2) * 8) (min 8 (len - (d - 2) * 8))) (\<lambda>m.
          let ev2 = mul_p pm (ev1 XOR m);
              ev3 = ev2 XOR (word_of_int len * 8);
              ev4 = MUL64 ev3 q 0x1b;
              ev5 = drop_bit 32 ev4 XOR ucast otp
          in Inr [ucast (drop_bit 24 ev5), ucast (drop_bit 16 ev5), ucast (drop_bit 8 ev5), ucast ev5])))"

definition snow3g_integrity ::
  "(nat \<Rightarrow> u32) \<Rightarrow> (nat \<Rightarrow> nat \<Rightarrow> u64) \<Rightarrow> u32 \<Rightarrow> int \<Rightarrow> int \<Rightarrow> byte list \<Rightarrow> byte list \<Rightarrow> byte list res" where
  "snow3g_integrity junk pmj count bearer direction key inp =
    snow3g_integrity_fresh junk pmj count (push_bit 27 (word_of_int bearer)) direction key inp"

end
