(* ===== verification/Snow3g_Register.thy ===== *)
theory Snow3g_Register
  imports Snow3g
begin

text \<open>
  The shift register of SNOW 3G. The reference is the register of the specification, which the sources
  keep as a comment (\<open>the specs do this\<close>): sixteen words that all move by one place at every clock. The
  code keeps every word twice and moves a pointer instead. The keystream is shown to be the one of the
  reference, whatever the uninitialised memory holds; from this follow the laws of the ciphering.
\<close>

section \<open>The register of the specification\<close>

record snow_ref =
  ref_s :: "u32 list"
  ref_r1 :: u32
  ref_r2 :: u32
  ref_r3 :: u32

definition ref_shift :: "u32 \<Rightarrow> snow_ref \<Rightarrow> snow_ref" where
  "ref_shift v r = r\<lparr>ref_s := tl (ref_s r) @ [v]\<rparr>"

definition ref_feedback :: "snow_ref \<Rightarrow> u32" where
  "ref_feedback r = lfsr_feedback (ref_s r ! 0) (ref_s r ! 2) (ref_s r ! 11)"

definition ref_fsm :: "snow_ref \<Rightarrow> u32 \<times> snow_ref" where
  "ref_fsm r =
    ((ref_s r ! 15 + ref_r1 r) XOR ref_r2 r,
     r\<lparr>ref_r1 := ref_r2 r + (ref_r3 r XOR ref_s r ! 5), ref_r2 := snow_s1 (ref_r1 r), ref_r3 := snow_s2 (ref_r2 r)\<rparr>)"

definition ref_init_clock :: "snow_ref \<Rightarrow> snow_ref" where
  "ref_init_clock r = (case ref_fsm r of (f, r') \<Rightarrow> ref_shift (ref_feedback r' XOR f) r')"

definition ref_init :: "byte list \<Rightarrow> byte list \<Rightarrow> snow_ref" where
  "ref_init k iv =
    (let r = snd (ref_fsm ((ref_init_clock ^^ 32) \<lparr>ref_s = snow3g_load k iv, ref_r1 = 0, ref_r2 = 0, ref_r3 = 0\<rparr>))
     in ref_shift (ref_feedback r) r)"

fun ref_keystream :: "nat \<Rightarrow> snow_ref \<Rightarrow> u32 list" where
  "ref_keystream 0 r = []"
| "ref_keystream (Suc n) r =
    (case ref_fsm r of (f, r') \<Rightarrow> (f XOR ref_s r' ! 0) # ref_keystream n (ref_shift (ref_feedback r') r'))"

section \<open>Simulation\<close>

text \<open>
  The sixteen words from the pointer on are the register, and the words that the pointer has passed
  are stored a second time, sixteen places further on.
\<close>

definition snow_rel :: "snow3g_t \<Rightarrow> snow_ref \<Rightarrow> bool" where
  "snow_rel s r \<longleftrightarrow>
     length (snow_mem s) = 32 \<and> snow_pos s < 16 \<and> length (ref_s r) = 16 \<and>
     (\<forall>i < 16. ref_s r ! i = snow_s s i) \<and>
     (\<forall>j < snow_pos s. snow_mem s ! (j + 16) = snow_mem s ! j) \<and>
     snow_r1 s = ref_r1 r \<and> snow_r2 s = ref_r2 r \<and> snow_r3 s = ref_r3 r"

lemma snow_rel_word: "snow_rel s r \<Longrightarrow> i < 16 \<Longrightarrow> snow_s s i = ref_s r ! i"
  by (simp add: snow_rel_def)

lemma snow_rel_advance:
  assumes "snow_rel s r"
  shows "snow_rel (lfsr_advance v s) (ref_shift v r)"
proof -
  let ?p = "snow_pos s" and ?m = "snow_mem s" and ?s' = "lfsr_advance v s"
  let ?m' = "?m[?p := v, ?p + 16 := v]"
  have a: "length ?m = 32" "?p < 16" "length (ref_s r) = 16" using assms by (auto simp: snow_rel_def)
  have w: "ref_s r ! i = ?m ! (?p + i)" if "i < 16" for i using assms that by (simp add: snow_rel_def snow_s_def)
  have c: "?m ! (j + 16) = ?m ! j" if "j < ?p" for j using assms that by (simp add: snow_rel_def)
  have m: "snow_mem ?s' = ?m'" "snow_pos ?s' = (if ?p = 15 then 0 else Suc ?p)"
    by (auto simp: lfsr_advance_def Let_def)
  have t: "(tl (ref_s r) @ [v]) ! i = (if i = 15 then v else ?m ! (?p + Suc i))" if "i < 16" for i
    using that a w [of "Suc i"] by (auto simp: nth_append nth_tl)
  have n: "snow_s ?s' i = (if i = 15 then v else ?m ! (?p + Suc i))" if i: "i < 16" for i
  proof (cases "?p = 15")
    case True
    then show ?thesis using i a c [of i] by (auto simp: snow_s_def m nth_list_update add.commute)
  next
    case False
    have "?p + Suc i = ?p + 16 \<longleftrightarrow> i = 15" by auto
    with False i a show ?thesis by (auto simp: snow_s_def m nth_list_update)
  qed
  have d: "?m' ! (j + 16) = ?m' ! j" if "j < snow_pos ?s'" for j
    using that a c [of j] by (auto simp: m nth_list_update less_Suc_eq split: if_splits)
  have "\<forall>i < 16. (tl (ref_s r) @ [v]) ! i = snow_s ?s' i" using t n by simp
  moreover have "\<forall>j < snow_pos ?s'. snow_mem ?s' ! (j + 16) = snow_mem ?s' ! j" using d by (simp add: m)
  ultimately show ?thesis
    using assms a m by (simp add: snow_rel_def ref_shift_def lfsr_advance_def Let_def)
qed

lemma snow_rel_fsm:
  assumes "snow_rel s r"
  shows "fst (clock_fsm s) = fst (ref_fsm r)" and "snow_rel (snd (clock_fsm s)) (snd (ref_fsm r))"
  using assms snow_rel_word [OF assms, of 15] snow_rel_word [OF assms, of 5]
  by (simp_all add: clock_fsm_def ref_fsm_def Let_def snow_rel_def snow_s_def)

lemma snow_rel_keystream: "snow_rel s r \<Longrightarrow> snow_rel (lfsr_keystream s) (ref_shift (ref_feedback r) r)"
  using snow_rel_word [of s r 0] snow_rel_word [of s r 2] snow_rel_word [of s r 11]
  by (simp add: lfsr_keystream_def ref_feedback_def snow_rel_advance)

lemma snow_rel_init_clock:
  assumes "snow_rel s r"
  shows "snow_rel (init_clock s) (ref_init_clock r)"
proof -
  note f = snow_rel_fsm [OF assms]
  show ?thesis
    using f snow_rel_word [OF f(2), of 0] snow_rel_word [OF f(2), of 2] snow_rel_word [OF f(2), of 11]
    by (simp add: init_clock_def ref_init_clock_def split_beta lfsr_init_def ref_feedback_def snow_rel_advance)
qed

lemma snow_rel_funpow: "snow_rel s r \<Longrightarrow> snow_rel ((init_clock ^^ n) s) ((ref_init_clock ^^ n) r)"
  by (induction n) (simp_all add: snow_rel_init_clock)

lemma snow_rel_init: "snow_rel (snow3g_init junk k iv) (ref_init k iv)"
proof -
  have len: "length (snow3g_load k iv) = 16" by (simp add: snow3g_load_def Let_def)
  have "snow_rel \<lparr>snow_mem = snow3g_load k iv @ map junk [16..<32], snow_pos = 0, snow_r1 = 0, snow_r2 = 0, snow_r3 = 0\<rparr>
     \<lparr>ref_s = snow3g_load k iv, ref_r1 = 0, ref_r2 = 0, ref_r3 = 0\<rparr>"
    using len by (simp add: snow_rel_def snow_s_def nth_append)
  from snow_rel_keystream [OF snow_rel_fsm(2) [OF snow_rel_funpow [OF this, of 32]]]
  show ?thesis by (simp add: snow3g_init_def ref_init_def Let_def)
qed

lemma snow_rel_generate: "snow_rel s r \<Longrightarrow> generate_keystream n s = ref_keystream n r"
proof (induction n arbitrary: s r)
  case (Suc n)
  note f = snow_rel_fsm [OF Suc.prems]
  show ?case
    using f Suc.IH [OF snow_rel_keystream [OF f(2)]] snow_rel_word [OF f(2), of 0]
    by (simp add: generate_keystream_step_def split_beta)
qed simp

lemma keystream_of_reference:
  "generate_keystream n (snow3g_init junk k iv) = ref_keystream n (ref_init k iv)"
  by (simp add: snow_rel_generate snow_rel_init)

lemma length_ref_keystream [simp]: "length (ref_keystream n r) = n"
  by (induction n arbitrary: r) (simp_all add: split_beta)

section \<open>The ciphering\<close>

definition ref_cipher_stream :: "u32 \<Rightarrow> int \<Rightarrow> int \<Rightarrow> byte list \<Rightarrow> nat \<Rightarrow> byte list" where
  "ref_cipher_stream count bearer direction key n =
    concat (map be_bytes (ref_keystream ((n + 3) div 4) (ref_init (snow_key key) (cipher_iv count bearer direction))))"

lemma length_concat_be_bytes [simp]: "length (concat (map be_bytes ws)) = 4 * length ws"
  by (induction ws) (simp_all add: be_bytes_def)

lemma ref_cipher_stream_long: "n \<le> length (ref_cipher_stream count bearer direction key n)"
  by (simp add: ref_cipher_stream_def)

lemma snow3g_ciphering_ref:
  "snow3g_ciphering junk count bearer direction key m = map2 (XOR) m (ref_cipher_stream count bearer direction key (length m))"
  by (simp add: snow3g_ciphering_def keystream_of_reference ref_cipher_stream_def Let_def)

lemma length_snow3g_ciphering [simp]:
  "length (snow3g_ciphering junk count bearer direction key m) = length m"
  using ref_cipher_stream_long [of "length m" count bearer direction key] by (simp add: snow3g_ciphering_ref)

lemma map2_xor_twice: "length m \<le> length ks \<Longrightarrow> map2 (XOR) (map2 (XOR) m ks) ks = (m :: 'a::len word list)"
proof (induction m arbitrary: ks)
  case (Cons x m)
  then show ?case by (cases ks) (simp_all add: xor.assoc)
qed simp

lemma snow3g_ciphering_twice:
  "snow3g_ciphering junk' count bearer direction key (snow3g_ciphering junk count bearer direction key m) = m"
  using ref_cipher_stream_long [of "length m" count bearer direction key]
  by (simp add: snow3g_ciphering_ref map2_xor_twice)

text \<open>
  C30: the keystream generator of SNOW 3G. For every key, initialisation vector and number of words,
  the generator of the code, which moves a pointer over a doubled array, produces the same words as
  the shift register of the specification, in which every clock moves sixteen words. The result does
  not depend on the contents of the uninitialised half of the array.
\<close>

theorem snow3g_keystream_refines:
  "generate_keystream n (snow3g_init junk k iv) = ref_keystream n (ref_init k iv)"
  by (rule keystream_of_reference)

end
