(* ===== verification/Snow3g_Field.thy ===== *)
theory Snow3g_Field
  imports Snow3g_Register
begin

text \<open>
  Arithmetic of the message authentication code of SNOW 3G in the field of \<open>2^64\<close> elements. The
  reference is the bitwise multiplication \<open>MUL64\<close>; the code multiplies with a table of 2048
  precomputed products instead. The table is shown to hold these products, and the code to compute the
  polynomial evaluation of the specification.
\<close>

section \<open>Sums in the field\<close>

primrec xor_sum :: "(nat \<Rightarrow> u64) \<Rightarrow> nat \<Rightarrow> u64" where
  "xor_sum f 0 = 0"
| "xor_sum f (Suc n) = xor_sum f n XOR f n"

definition gate :: "bool \<Rightarrow> u64 \<Rightarrow> u64" where
  "gate b x = (if b then x else 0)"

lemma gate_simps [simp]: "gate True x = x" "gate False x = 0" "gate b 0 = 0"
  by (simp_all add: gate_def)

lemma gate_when: "gate a (gate b x) = gate (a \<and> b) x"
  by (simp add: gate_def)

lemma xor_sum_cong: "(\<And>i. i < n \<Longrightarrow> f i = g i) \<Longrightarrow> xor_sum f n = xor_sum g n"
  by (induction n) simp_all

lemma xor_sum_0 [simp]: "xor_sum (\<lambda>i. 0) n = 0"
  by (induction n) simp_all

lemma xor_sum_xor: "xor_sum (\<lambda>i. f i XOR g i) n = xor_sum f n XOR xor_sum g n"
  by (induction n) (simp_all add: xor.assoc xor.left_commute)

lemma xor_sum_when: "xor_sum (\<lambda>i. gate b (f i)) n = gate b (xor_sum f n)"
  by (cases b) simp_all

lemma xor_sum_swap: "xor_sum (\<lambda>i. xor_sum (f i) m) n = xor_sum (\<lambda>j. xor_sum (\<lambda>i. f i j) n) m"
  by (induction n) (simp_all add: xor_sum_xor)

lemma xor_sum_add: "xor_sum f (n + m) = xor_sum f n XOR xor_sum (\<lambda>i. f (n + i)) m"
  by (induction m) (simp_all add: xor.assoc)

lemma xor_sum_single: "j < n \<Longrightarrow> xor_sum (\<lambda>i. gate (i = j) (f i)) n = f j"
proof (induction n)
  case (Suc n)
  have "xor_sum (\<lambda>i. gate (i = n) (f i)) n = 0"
    by (subst xor_sum_cong [of n _ "\<lambda>i. 0"]) (simp_all add: gate_def)
  then show ?case using Suc by (cases "j = n") (simp_all add: gate_def)
qed simp

lemma bit_xor_sum_bits:
  "bit (xor_sum (\<lambda>j. gate (bit v j) (2 ^ j)) n) k \<longleftrightarrow> k < n \<and> bit v k"
  for v :: u64
proof (induction n)
  case (Suc n)
  have "bit (gate (bit v n) (2 ^ n) :: u64) k \<longleftrightarrow> k = n \<and> bit v n"
    by (auto simp: gate_def bit_simps dest: bit_imp_le_length)
  with Suc show ?case by (auto simp: bit_xor_iff less_Suc_eq)
qed simp

lemma word_as_sum: "v = xor_sum (\<lambda>j. gate (bit v j) (2 ^ j)) 64" for v :: u64
  by (rule bit_eqI) (auto simp: bit_xor_sum_bits dest: bit_imp_le_length)

section \<open>Multiplication\<close>

lemma MULx64_bit: "MULx64 v c = push_bit 1 v XOR gate (bit v 63) c"
proof -
  have "v AND push_bit 63 1 \<noteq> 0 \<longleftrightarrow> bit v 63"
    by (simp add: bit_iff_and_push_bit_not_eq_0)
  then show ?thesis by (simp add: MULx64_def gate_def)
qed

lemma MULx64_0 [simp]: "MULx64 0 c = 0"
  by (simp add: MULx64_bit)

lemma MULx64_xor: "MULx64 (a XOR b) c = MULx64 a c XOR MULx64 b c"
  by (simp add: MULx64_bit push_bit_xor bit_xor_iff gate_def xor.assoc xor.left_commute xor.commute)

lemma MULxPOW64_0 [simp]: "MULxPOW64 0 i c = 0"
  by (induction i) simp_all

lemma MULxPOW64_xor: "MULxPOW64 (a XOR b) i c = MULxPOW64 a i c XOR MULxPOW64 b i c"
  by (induction i) (simp_all add: MULx64_xor)

lemma MULxPOW64_when: "MULxPOW64 (gate b v) i c = gate b (MULxPOW64 v i c)"
  by (cases b) simp_all

lemma MULxPOW64_sum: "MULxPOW64 (xor_sum f n) i c = xor_sum (\<lambda>j. MULxPOW64 (f j) i c) n"
  by (induction n) (simp_all add: MULxPOW64_xor)

lemma MULxPOW64_add: "MULxPOW64 (MULxPOW64 v j c) i c = MULxPOW64 v (i + j) c"
  by (induction i) simp_all

lemma MULxPOW64_one: "j < 64 \<Longrightarrow> MULxPOW64 1 j c = 2 ^ j"
proof (induction j)
  case (Suc j)
  then have "\<not> bit (2 ^ j :: u64) 63" by (auto simp: bit_simps)
  with Suc show ?case by (simp add: MULx64_bit gate_def)
qed simp

lemma MUL64_sum: "MUL64 v p c = xor_sum (\<lambda>i. gate (bit p i) (MULxPOW64 v i c)) 64"
proof -
  have *: "drop_bit i p AND 1 \<noteq> 0 \<longleftrightarrow> bit p i" for i
    by (simp add: bit_iff_odd_drop_bit and_one_eq mod2_eq_if)
  have "fold (\<lambda>i r. if drop_bit i p AND 1 \<noteq> 0 then r XOR MULxPOW64 v i c else r) [0..<n] 0 =
     xor_sum (\<lambda>i. gate (bit p i) (MULxPOW64 v i c)) n" for n
    by (induction n) (simp_all add: * gate_def)
  then show ?thesis by (simp only: MUL64_def)
qed

lemma MUL64_product:
  "MUL64 v p c = xor_sum (\<lambda>i. xor_sum (\<lambda>j. gate (bit p i \<and> bit v j) (MULxPOW64 1 (i + j) c)) 64) 64"
  unfolding MUL64_sum
proof (rule xor_sum_cong)
  fix i
  have "MULxPOW64 v i c = MULxPOW64 (xor_sum (\<lambda>j. gate (bit v j) (2 ^ j)) 64) i c"
    by (rule arg_cong [OF word_as_sum])
  also have "\<dots> = xor_sum (\<lambda>j. gate (bit v j) (MULxPOW64 1 (i + j) c)) 64"
    unfolding MULxPOW64_sum MULxPOW64_when
    by (rule xor_sum_cong) (metis MULxPOW64_one MULxPOW64_add)
  finally show "gate (bit p i) (MULxPOW64 v i c) =
      xor_sum (\<lambda>j. gate (bit p i \<and> bit v j) (MULxPOW64 1 (i + j) c)) 64"
    by (simp only: xor_sum_when [symmetric] gate_when)
qed

lemma MUL64_commute: "MUL64 v p c = MUL64 p v c"
  unfolding MUL64_product by (subst xor_sum_swap) (simp add: conj_commute add.commute)

section \<open>The table of products\<close>

text \<open>The product of \<open>p\<close> with the byte \<open>b\<close> at place \<open>i\<close> of a 64 bit word.\<close>

definition pm_entry :: "u64 \<Rightarrow> nat \<Rightarrow> nat \<Rightarrow> u64" where
  "pm_entry p i b = xor_sum (\<lambda>j. gate (bit b j) (MULxPOW64 p (8 * i + j) 0x1b)) 8"

lemma pm_entry_0 [simp]: "pm_entry p i 0 = 0"
  by (simp add: pm_entry_def)

lemma pm_entry_power: "j < 8 \<Longrightarrow> pm_entry p i (2 ^ j) = MULxPOW64 p (8 * i + j) 0x1b"
  unfolding pm_entry_def by (subst xor_sum_single [symmetric, of j 8]) (simp_all add: bit_exp_iff eq_commute)

lemma bit_power_plus: "k < 2 ^ j \<Longrightarrow> bit (2 ^ j + k :: nat) n \<longleftrightarrow> n = j \<or> bit k n"
proof -
  assume k: "k < 2 ^ j"
  have "2 ^ j AND k = 0"
  proof (rule bit_eqI)
    fix n
    have "\<not> bit k j" using k by (simp add: bit_nat_iff bit_iff_odd)
    then show "bit (2 ^ j AND k) n \<longleftrightarrow> bit (0 :: nat) n" by (auto simp: bit_and_iff bit_exp_iff)
  qed
  then have "2 ^ j + k = 2 ^ j OR k" by (simp add: disjunctive_add_eq_or)
  then show ?thesis by (auto simp: bit_or_iff bit_exp_iff)
qed

lemma pm_entry_sum:
  assumes "k < 2 ^ j" "j < 8"
  shows "pm_entry p i (2 ^ j + k) = pm_entry p i (2 ^ j) XOR pm_entry p i k"
proof -
  have "\<not> bit k j" using assms(1) by (simp add: bit_iff_odd)
  then show ?thesis
    unfolding pm_entry_def xor_sum_xor [symmetric] bit_power_plus [OF assms(1)]
    by (intro xor_sum_cong) (auto simp: gate_def bit_exp_iff)
qed

text \<open>The entries of the set \<open>S\<close> have been computed.\<close>

definition pm_ok :: "u64 \<Rightarrow> (nat \<times> nat) set \<Rightarrow> u64 list list \<Rightarrow> bool" where
  "pm_ok p S pm \<longleftrightarrow>
     length pm = 8 \<and> (\<forall>i < 8. length (pm ! i) = 256) \<and> S \<subseteq> {..<8} \<times> {..<256} \<and>
     (\<forall>(i, b) \<in> S. pm_get pm i b = pm_entry p i b)"

lemma pm_ok_get: "pm_ok p S pm \<Longrightarrow> (i, b) \<in> S \<Longrightarrow> pm_get pm i b = pm_entry p i b"
  by (auto simp: pm_ok_def)

lemma pm_ok_mono: "pm_ok p S pm \<Longrightarrow> T \<subseteq> S \<Longrightarrow> pm_ok p T pm"
  by (auto simp: pm_ok_def)

lemma pm_ok_set:
  assumes "pm_ok p S pm" "i < 8" "b < 256" "v = pm_entry p i b"
  shows "pm_ok p (insert (i, b) S) (pm_set i b v pm)"
  using assms by (auto simp: pm_ok_def pm_set_def pm_get_def nth_list_update split: if_splits)

lemma pm_set_twice: "i < length pm \<Longrightarrow> pm_set i b w (pm_set i b v pm) = pm_set i b w pm"
  by (simp add: pm_set_def)

lemma pm_get_set: "i < length pm \<Longrightarrow> b < length (pm ! i) \<Longrightarrow> pm_get (pm_set i b v pm) i b = v"
  by (simp add: pm_set_def pm_get_def)

lemma fold_upt_invariant:
  assumes "\<And>k x. a \<le> k \<Longrightarrow> k < b \<Longrightarrow> P k x \<Longrightarrow> P (Suc k) (f k x)" and "P a x" and "a \<le> b"
  shows "P b (fold f [a..<b] x)"
  using assms(3,1,2)
proof (induction b rule: dec_induct)
  case (step n)
  then have "P n (fold f [a..<n] x)" by (simp add: less_SucI)
  with step show ?case by simp
qed simp

definition pm_places :: "nat \<Rightarrow> (nat \<times> nat) set" where
  "pm_places n = {..<8} \<times> {0} \<union> (\<lambda>i. (i div 8, 2 ^ (i mod 8))) ` {..<n}"

lemma pm_power_step:
  assumes k: "1 \<le> k" "k < 64" and y: "pm_ok p (pm_places k) y"
    and w: "w = pm_get y ((k - 1) div 8) (2 ^ ((k - 1) mod 8))"
  shows "pm_ok p (pm_places (Suc k)) (let pm' = pm_set (k div 8) (2 ^ (k mod 8)) (push_bit 1 w) y
        in if w AND 0x8000000000000000 \<noteq> 0
           then pm_set (k div 8) (2 ^ (k mod 8)) (pm_get pm' (k div 8) (2 ^ (k mod 8)) XOR 0x1b) pm' else pm')"
proof -
  define i b where "i = k div 8" and "b = (2 ^ (k mod 8) :: nat)"
  have sh: "length y = 8" "i < 8" "length (y ! i) = 256" using y k by (auto simp: pm_ok_def i_def)
  have b: "b < 256" using power_strict_increasing [of "k mod 8" 8 "2 :: nat"] by (simp add: b_def)
  have prev: "w = MULxPOW64 p (k - 1) 0x1b"
    using pm_ok_get [OF y, of "(k - 1) div 8" "2 ^ ((k - 1) mod 8)"] k pm_entry_power [of "(k - 1) mod 8" p "(k - 1) div 8"]
    by (auto simp: pm_places_def w)
  have top: "w AND 0x8000000000000000 \<noteq> 0 \<longleftrightarrow> bit w 63"
    using bit_iff_and_push_bit_not_eq_0 [of w 63] by simp
  have "MULxPOW64 p k 0x1b = MULx64 w 0x1b" using k prev by (cases k) simp_all
  then have v: "push_bit 1 w XOR gate (bit w 63) 0x1b = pm_entry p i b"
    using pm_entry_power [of "k mod 8" p i] by (simp add: MULx64_bit i_def b_def)
  have "pm_ok p (insert (i, b) (pm_places k)) (pm_set i b (push_bit 1 w XOR gate (bit w 63) 0x1b) y)"
    by (rule pm_ok_set [OF y sh(2) b v])
  moreover have "insert (i, b) (pm_places k) = pm_places (Suc k)"
    by (auto simp: pm_places_def less_Suc_eq i_def b_def)
  ultimately have ok: "pm_ok p (pm_places (Suc k)) (pm_set i b (push_bit 1 w XOR gate (bit w 63) 0x1b) y)" by simp
  show ?thesis
    unfolding i_def [symmetric] b_def [symmetric] Let_def top
    using ok sh b by (cases "bit w 63") (simp_all add: pm_set_twice pm_get_set)
qed

lemma pm_powers_ok:
  assumes "length pm = 8" "\<forall>i < 8. length (pm ! i) = 256"
  shows "pm_ok p (pm_places 64) (pm_powers p pm)"
proof -
  have "pm_ok p ({..<0} \<times> {0}) pm" using assms by (auto simp: pm_ok_def)
  then have "pm_ok p ({..<8} \<times> {0}) (fold (\<lambda>i. pm_set i 0 0) [0..<8] pm)"
  proof (rule fold_upt_invariant [where P = "\<lambda>k. pm_ok p ({..<k} \<times> {0})", rotated])
    fix k and y :: "u64 list list"
    assume "k < 8" "pm_ok p ({..<k} \<times> {0}) y"
    from pm_ok_set [OF this(2,1), of 0 0] have "pm_ok p (insert (k, 0) ({..<k} \<times> {0})) (pm_set k 0 0 y)" by simp
    then show "pm_ok p ({..<Suc k} \<times> {0}) (pm_set k 0 0 y)"
      by (rule pm_ok_mono) (auto simp: less_Suc_eq)
  qed simp
  from pm_ok_set [OF this, of 0 1 p] have "pm_ok p (pm_places 1) (pm_set 0 1 p (fold (\<lambda>i. pm_set i 0 0) [0..<8] pm))"
    using pm_entry_power [of 0 p 0] by (simp add: pm_places_def lessThan_Suc)
  then show ?thesis unfolding pm_powers_def
  proof (rule fold_upt_invariant [where P = "\<lambda>k. pm_ok p (pm_places k)", rotated])
    fix k and y :: "u64 list list"
    assume k: "1 \<le> k" "k < 64" and y: "pm_ok p (pm_places k) y"
    show "pm_ok p (pm_places (Suc k)) (let prev = pm_get y ((k - 1) div 8) (2 ^ ((k - 1) mod 8));
            pm' = pm_set (k div 8) (2 ^ (k mod 8)) (push_bit 1 prev) y
        in if prev AND 0x8000000000000000 \<noteq> 0
           then pm_set (k div 8) (2 ^ (k mod 8)) (pm_get pm' (k div 8) (2 ^ (k mod 8)) XOR 0x1b) pm' else pm')"
      unfolding Let_def by (rule pm_power_step [OF k y refl, unfolded Let_def])
  qed simp
qed

text \<open>The rows before \<open>i\<close> are complete, and the row \<open>i\<close> up to \<open>b\<close>.\<close>

definition pm_done :: "nat \<Rightarrow> nat \<Rightarrow> (nat \<times> nat) set" where
  "pm_done i b = pm_places 64 \<union> {..<i} \<times> {..<256} \<union> {i} \<times> {..<b}"

lemma pm_places_power: "i < 8 \<Longrightarrow> j < 8 \<Longrightarrow> (i, 2 ^ j) \<in> pm_places 64"
  by (auto simp: pm_places_def image_iff intro!: bexI [of _ "8 * i + j"])

lemma pm_row_step:
  assumes "i < 8" "j < 8" "pm_ok p (pm_done i (2 ^ j)) pm"
  shows "pm_ok p (pm_done i (2 ^ Suc j))
     (fold (\<lambda>k pm. pm_set i (2 ^ j + k) (pm_get pm i (2 ^ j) XOR pm_get pm i k) pm) [1..<2 ^ j] pm)"
proof -
  have pw: "(i, 2 ^ j) \<in> pm_places 64" by (rule pm_places_power [OF assms(1,2)])
  have lt: "2 ^ j + 2 ^ j \<le> (256 :: nat)"
    using power_increasing [of "Suc j" 8 "2 :: nat"] assms(2) by simp
  have "pm_ok p (pm_done i (2 ^ j + 1)) pm"
    by (rule pm_ok_mono [OF assms(3)]) (use pw in \<open>auto simp: pm_done_def less_Suc_eq\<close>)
  then have "pm_ok p (pm_done i (2 ^ j + 2 ^ j))
     (fold (\<lambda>k pm. pm_set i (2 ^ j + k) (pm_get pm i (2 ^ j) XOR pm_get pm i k) pm) [1..<2 ^ j] pm)"
  proof (rule fold_upt_invariant [where P = "\<lambda>k. pm_ok p (pm_done i (2 ^ j + k))", rotated])
    fix k and y :: "u64 list list"
    assume k: "k < 2 ^ j" and y: "pm_ok p (pm_done i (2 ^ j + k)) y"
    have g: "pm_get y i (2 ^ j) = pm_entry p i (2 ^ j)" "pm_get y i k = pm_entry p i k"
      using y pw k by (auto intro!: pm_ok_get [OF y] simp: pm_done_def)
    have "pm_ok p (insert (i, 2 ^ j + k) (pm_done i (2 ^ j + k)))
        (pm_set i (2 ^ j + k) (pm_get y i (2 ^ j) XOR pm_get y i k) y)"
      by (rule pm_ok_set [OF y assms(1)]) (use k lt g pm_entry_sum [OF k assms(2)] in simp_all)
    then show "pm_ok p (pm_done i (2 ^ j + Suc k)) (pm_set i (2 ^ j + k) (pm_get y i (2 ^ j) XOR pm_get y i k) y)"
      by (rule pm_ok_mono) (auto simp: pm_done_def less_Suc_eq)
  qed simp
  then show ?thesis by (simp add: mult_2)
qed

lemma pm_row_ok:
  assumes "i < 8" "pm_ok p (pm_done i 0) pm"
  shows "pm_ok p (pm_done (Suc i) 0)
     (fold (\<lambda>j. fold (\<lambda>k pm. pm_set i (2 ^ j + k) (pm_get pm i (2 ^ j) XOR pm_get pm i k) pm) [1..<2 ^ j]) [1..<8] pm)"
proof -
  have "pm_ok p (pm_done i (2 ^ 1)) pm"
    by (rule pm_ok_mono [OF assms(2)])
      (use assms(1) pm_places_power [OF assms(1), of 0] in \<open>auto simp: pm_done_def pm_places_def less_Suc_eq numeral_2_eq_2\<close>)
  then have "pm_ok p (pm_done i (2 ^ 8))
     (fold (\<lambda>j. fold (\<lambda>k pm. pm_set i (2 ^ j + k) (pm_get pm i (2 ^ j) XOR pm_get pm i k) pm) [1..<2 ^ j]) [1..<8] pm)"
    by (rule fold_upt_invariant [where P = "\<lambda>j. pm_ok p (pm_done i (2 ^ j))", rotated])
      (use pm_row_step [OF assms(1)] in simp_all)
  then show ?thesis by (rule pm_ok_mono) (auto simp: pm_done_def less_Suc_eq)
qed

lemma pm_table_entry:
  assumes "i < 8" "b < 256"
  shows "pm_get (pm_table pmj p) i b = pm_entry p i b"
proof -
  let ?pm = "map (\<lambda>i. map (pmj i) [0..<256]) [0..<8]"
  have "pm_ok p (pm_done 0 0) (pm_powers p ?pm)"
    using pm_powers_ok [of ?pm] by (simp add: pm_done_def)
  then have "pm_ok p (pm_done 8 0) (pm_sums (pm_powers p ?pm))" unfolding pm_sums_def
    by (rule fold_upt_invariant [where P = "\<lambda>i. pm_ok p (pm_done i 0)", rotated]) (use pm_row_ok in simp_all)
  then show ?thesis unfolding pm_table_def
    by (rule pm_ok_get) (simp add: pm_done_def assms)
qed

section \<open>The product read from the table\<close>

lemma bit_byte_of_word:
  "j < 8 \<Longrightarrow> bit (unat (drop_bit n x AND 255)) j \<longleftrightarrow> bit x (n + j)" for x :: u64
proof -
  assume "j < 8"
  moreover have "(255 :: u64) = mask 8" by (simp add: mask_eq_exp_minus_1)
  then have "bit (255 :: u64) j" using \<open>j < 8\<close> by (simp only: bit_mask_iff) simp
  ultimately show ?thesis
    by (auto simp: bit_unsigned_iff bit_and_iff bit_drop_bit_eq)
qed

lemma byte_lt_256: "unat (drop_bit n x AND 255) < 256" for x :: u64
proof -
  have "unat (drop_bit n x AND 255) \<le> unat (255 :: u64)" using word_and_le1 [of "drop_bit n x" 255] by (simp add: word_le_nat_alt and.commute)
  then show ?thesis by simp
qed

lemma pm_entry_byte:
  "pm_entry p i (unat (drop_bit (8 * i) x AND 255)) =
   xor_sum (\<lambda>j. gate (bit x (8 * i + j)) (MULxPOW64 p (8 * i + j) 0x1b)) 8"
  for x :: u64
  unfolding pm_entry_def by (rule xor_sum_cong) (simp add: bit_byte_of_word)

lemma mul_p_MUL64: "mul_p (pm_table pmj p) x = MUL64 x p 0x1b"
proof -
  let ?f = "\<lambda>k. gate (bit x k) (MULxPOW64 p k 0x1b)"
  have e: "pm_get (pm_table pmj p) i (unat (drop_bit (8 * i) x AND 255)) = xor_sum (\<lambda>j. ?f (8 * i + j)) 8" if "i < 8" for i
    using pm_table_entry [OF that byte_lt_256, of pmj p "8 * i" x] pm_entry_byte [of p i x] by simp
  have "xor_sum ?f (8 + (8 + (8 + (8 + (8 + (8 + (8 + 8))))))) = mul_p (pm_table pmj p) x"
    using e [of 0] e [of 1] e [of 2] e [of 3] e [of 4] e [of 5] e [of 6] e [of 7]
    by (simp only: xor_sum_add) (simp add: mul_p_def Let_def ac_simps)
  then show ?thesis using MUL64_sum [of p x "0x1b"] MUL64_commute [of x p] by simp
qed

section \<open>The message authentication code\<close>

text \<open>
  The reference reads the message as a sequence of 64 bit words, the last one filled up with zeros,
  and evaluates the polynomial with these coefficients by the scheme of Horner.
\<close>

definition be64 :: "byte list \<Rightarrow> u64" where
  "be64 bs = foldl (\<lambda>acc b. push_bit 8 acc OR ucast b) 0 (take 8 (bs @ replicate 8 0))"

definition ref_blocks :: "byte list \<Rightarrow> u64 list" where
  "ref_blocks msg = map (\<lambda>i. be64 (take 8 (drop (8 * i) msg))) [0..<(length msg + 7) div 8]"

definition ref_mac :: "u32 \<Rightarrow> u32 \<Rightarrow> int \<Rightarrow> byte list \<Rightarrow> byte list \<Rightarrow> byte list" where
  "ref_mac count fresh direction key msg =
    (let z = ref_keystream 5 (ref_init (snow_key key) (integrity_iv count fresh direction));
         p = push_bit 32 (ucast (z ! 0)) OR ucast (z ! 1);
         q = push_bit 32 (ucast (z ! 2)) OR ucast (z ! 3);
         ev = fold (\<lambda>m ev. MUL64 (ev XOR m) p 0x1b) (ref_blocks msg) 0;
         ev' = MUL64 (ev XOR of_nat (8 * length msg)) q 0x1b
     in be_bytes (ucast (drop_bit 32 ev') XOR z ! 4))"

lemma upt_eight: "[0..<8] = [0, 1, 2, 3, 4, 5, 6, 7 :: nat]"
  by code_simp

lemma GET64_be64:
  assumes "8 * i < length msg"
  shows "GET64 msg (int i * 8) (min 8 (int (length msg) - int i * 8)) = Inr (be64 (take 8 (drop (8 * i) msg)))"
proof -
  let ?l = "take 8 (take 8 (drop (8 * i) msg) @ replicate 8 (0 :: byte))"
  let ?b = "\<lambda>k. if int k < min 8 (int (length msg) - int i * 8) then msg ! (nat (int i * 8) + k) else (0 :: byte)"
  have nth: "?l ! k = ?b k" if "k < 8" for k
    using that assms by (auto simp: nth_append min_def nat_mult_distrib mult.commute)
  have "?l ! k = map ?b [0..<8] ! k" if "k < length ?l" for k
  proof -
    from that have "k < 8" by simp
    with nth [OF this] show ?thesis by (simp only: nth_map length_upt nth_upt) simp
  qed
  then have "?l = map ?b [0..<8]" by (intro nth_equalityI) simp_all
  then have l: "?l = [?b 0, ?b 1, ?b 2, ?b 3, ?b 4, ?b 5, ?b 6, ?b 7]"
    by (simp only: upt_eight list.map)
  have u: "(if c then ucast x else 0 :: u64) = ucast (if c then x else (0 :: byte))" for c and x :: byte by simp
  show ?thesis
    unfolding be64_def l GET64_def Let_def u using assms
    by (auto simp: push_bit_or ac_simps simp del: of_nat_mult)
qed

lemma eval_blocks_ref:
  assumes "\<forall>i \<in> set is. 8 * i + 8 \<le> length msg"
  shows "eval_blocks (pm_table pmj p) msg is ev =
    Inr (fold (\<lambda>m ev. MUL64 (ev XOR m) p 0x1b) (map (\<lambda>i. be64 (take 8 (drop (8 * i) msg))) is) ev)"
  using assms
proof (induction "is" arbitrary: ev)
  case (Cons i "is")
  then have "min 8 (int (length msg) - int i * 8) = 8" "8 * i < length msg" by auto
  with GET64_be64 [of i msg] have "GET64 msg (int i * 8) 8 = Inr (be64 (take 8 (drop (8 * i) msg)))" by simp
  with Cons show ?case by (simp add: mul_p_MUL64)
qed simp

lemma snow3g_integrity_ref:
  assumes "msg \<noteq> []"
  shows "snow3g_integrity_fresh junk pmj count fresh direction key msg = Inr (ref_mac count fresh direction key msg)"
proof -
  define n where "n = (length msg + 7) div 8 - 1"
  have n: "(length msg + 7) div 8 = Suc n" using assms by (cases msg) (auto simp: n_def div_if)
  have d: "(int (length msg) * 8 + 63) div 64 + 1 - 2 = int n"
  proof -
    have "(int (length msg) * 8 + 63) div 8 = int (length msg) + 7" by linarith
    then have "(int (length msg) * 8 + 63) div 64 = (int (length msg) + 7) div 8"
      using zdiv_zmult2_eq [of 8 "int (length msg) * 8 + 63" 8] by simp
    also have "\<dots> = int ((length msg + 7) div 8)" by (simp add: zdiv_int)
    finally show ?thesis by (simp add: n)
  qed
  have len: "8 * n < length msg" "length msg \<le> 8 * n + 8" using n by linarith+
  have blocks: "ref_blocks msg = map (\<lambda>i. be64 (take 8 (drop (8 * i) msg))) [0..<n] @ [be64 (take 8 (drop (8 * n) msg))]"
    by (simp add: ref_blocks_def n)
  have "\<forall>i \<in> set [0..<n]. 8 * i + 8 \<le> length msg" using len by auto
  note ev = eval_blocks_ref [OF this]
  have low: "[ucast (drop_bit 24 x), ucast (drop_bit 16 x), ucast (drop_bit 8 x), ucast x] = be_bytes (ucast x)" for x :: u64
    by (auto simp: be_bytes_def intro!: bit_word_eqI simp: bit_simps)
  have xor32: "ucast (drop_bit 32 x XOR ucast y) = ucast (drop_bit 32 x) XOR y" for x :: u64 and y :: u32
    by (auto intro!: bit_word_eqI simp: bit_simps)
  have l8: "word_of_int (int (length msg)) * 8 = (of_nat (8 * length msg) :: u64)" by simp
  show ?thesis
    unfolding snow3g_integrity_fresh_def keystream_of_reference Let_def d nat_int ev bindr_simps
      GET64_be64 [OF len(1)] mul_p_MUL64 low xor32 l8
    by (simp add: ref_mac_def Let_def blocks)
qed

text \<open>
  C31: multiplication by table. For every \<open>p\<close> and \<open>x\<close>, the product that \<open>mul_p\<close> reads from the table of
  2048 precomputed values, filled by the nested loops of \<open>_snow3g_integrity\<close> from uninitialised memory,
  is the bitwise product \<open>MUL64\<close> in the field of \<open>2^64\<close> elements.
\<close>

theorem snow3g_table_multiplication: "mul_p (pm_table pmj p) x = MUL64 x p 0x1b"
  by (rule mul_p_MUL64)

text \<open>
  C32: the message authentication code of 128-NIA1. For every key, counter, bearer, direction and every
  message that is not empty, \<open>snow3g_integrity\<close> returns the code of the specification: the polynomial
  with the zero padded 64 bit words of the message as coefficients, evaluated in the field of \<open>2^64\<close>
  elements at the first keystream words, combined with the length and masked with the fifth word. All
  reads are inside of the message. For the empty message the code reads the eight bytes before it.
\<close>

theorem snow3g_integrity_correct:
  "snow3g_integrity junk pmj count bearer direction key msg =
    (if msg = [] then Inl Out_of_bounds
     else Inr (ref_mac count (push_bit 27 (word_of_int bearer)) direction key msg))"
proof (cases "msg = []")
  case True
  then show ?thesis by (simp add: snow3g_integrity_def snow3g_integrity_fresh_def Let_def GET64_def)
qed (simp add: snow3g_integrity_def snow3g_integrity_ref)

end
