(* ===== verification/Nr_Secu.thy ===== *)
theory Nr_Secu
  imports Snow3g_Field
begin

text \<open>
  The security algorithms that NAS and PDCP share (\<open>openair3/SECU\<close>) and their PDCP front ends
  (\<open>nr_pdcp_security_nea1.c\<close>, \<open>nr_pdcp_security_nea2.c\<close>, \<open>nr_pdcp_integrity_nia1.c\<close>,
  \<open>nr_pdcp_integrity_nia2.c\<close>).

  AES is not part of the repository but of OpenSSL: the two operations that are used, encryption in
  counter mode and CMAC, are fields of the parameter \<open>crypto\<close>; \<open>openssl_ok\<close> says what is documented of
  them. The other two fields are the uninitialised memory of the SNOW 3G code.
\<close>

record crypto =
  evp_aes_128_ctr :: "byte list \<Rightarrow> byte list \<Rightarrow> byte list \<Rightarrow> byte list"   \<comment> \<open>key, initialisation vector, message\<close>
  evp_aes_128_cmac :: "byte list \<Rightarrow> byte list \<Rightarrow> byte list"               \<comment> \<open>key, message\<close>
  mem_snow :: "nat \<Rightarrow> u32"
  mem_pm :: "nat \<Rightarrow> nat \<Rightarrow> u64"

definition openssl_ok :: "crypto \<Rightarrow> bool" where
  "openssl_ok C \<longleftrightarrow>
     (\<forall>k iv m. length (evp_aes_128_ctr C k iv m) = length m) \<and>
     (\<forall>k iv m. evp_aes_128_ctr C k iv (evp_aes_128_ctr C k iv m) = m) \<and>
     (\<forall>k m. length (evp_aes_128_cmac C k m) = 16)"

text \<open>Two runs use the same library but may find different garbage in memory.\<close>

definition same_library :: "crypto \<Rightarrow> crypto \<Rightarrow> bool" where
  "same_library C D \<longleftrightarrow>
     evp_aes_128_ctr C = evp_aes_128_ctr D \<and> evp_aes_128_cmac C = evp_aes_128_cmac D"

section \<open>AES\<close>

text \<open>
  The vectors \<open>iv16_t\<close> and \<open>iv8_t\<close>: the counter in network order and a byte with the fields \<open>padding\<close>
  (two bits), \<open>direction\<close> (one bit) and \<open>bearer\<close> (five bits) from the least significant bit on.
\<close>

definition iv_head :: "u32 \<Rightarrow> int \<Rightarrow> int \<Rightarrow> byte list" where
  "iv_head count bearer direction =
     be_bytes count @ [push_bit 2 (take_bit 1 (word_of_int direction)) OR push_bit 3 (take_bit 5 (word_of_int bearer))]"

definition iv16 :: "u32 \<Rightarrow> int \<Rightarrow> int \<Rightarrow> byte list" where
  "iv16 count bearer direction = iv_head count bearer direction @ replicate 11 0"

definition iv8 :: "u32 \<Rightarrow> int \<Rightarrow> int \<Rightarrow> byte list" where
  "iv8 count bearer direction = iv_head count bearer direction @ replicate 3 0"

definition aes_128_ctr :: "crypto \<Rightarrow> byte list \<Rightarrow> byte list \<Rightarrow> byte list \<Rightarrow> byte list" where
  "aes_128_ctr C key iv msg = evp_aes_128_ctr C key iv msg"

definition cipher_aes_128_cbc_cmac :: "crypto \<Rightarrow> byte list \<Rightarrow> byte list \<Rightarrow> byte list \<Rightarrow> byte list" where
  "cipher_aes_128_cbc_cmac C key iv msg = evp_aes_128_cmac C key (iv @ msg)"

section \<open>The algorithms of NAS\<close>

record nas_stream_cipher_t =
  nsc_context :: "byte list"     \<comment> \<open>the key\<close>
  nsc_count :: u32
  nsc_bearer :: byte
  nsc_direction :: byte
  nsc_message :: "byte list"
  nsc_blength :: u32             \<comment> \<open>length in bits\<close>

definition nsc_bytes :: "nas_stream_cipher_t \<Rightarrow> byte list" where
  "nsc_bytes c = take (unat (nsc_blength c div 8)) (nsc_message c)"

definition nas_stream_encrypt_eea0 :: "nas_stream_cipher_t \<Rightarrow> byte list res" where
  "nas_stream_encrypt_eea0 c = Inr (take (unat (drop_bit 3 (nsc_blength c + 7))) (nsc_message c))"

definition nas_stream_encrypt_eea1 :: "crypto \<Rightarrow> nas_stream_cipher_t \<Rightarrow> byte list res" where
  "nas_stream_encrypt_eea1 C c =
     Inr (snow3g_ciphering (mem_snow C) (nsc_count c) (uint (nsc_bearer c)) (uint (nsc_direction c)) (nsc_context c) (nsc_bytes c))"

definition nas_stream_encrypt_eea2 :: "crypto \<Rightarrow> nas_stream_cipher_t \<Rightarrow> byte list res" where
  "nas_stream_encrypt_eea2 C c =
     (if nsc_bearer c < 32 \<and> nsc_direction c < 2 \<and> nsc_blength c > 7 \<and> nsc_blength c AND 7 = 0
      then Inr (aes_128_ctr C (nsc_context c) (iv16 (nsc_count c) (uint (nsc_bearer c)) (uint (nsc_direction c))) (nsc_bytes c))
      else Inl Assert_failed)"

definition nas_stream_encrypt_eia1 :: "crypto \<Rightarrow> nas_stream_cipher_t \<Rightarrow> byte list res" where
  "nas_stream_encrypt_eia1 C c =
     snow3g_integrity (mem_snow C) (mem_pm C) (nsc_count c) (uint (nsc_bearer c)) (uint (nsc_direction c)) (nsc_context c) (nsc_bytes c)"

definition nas_stream_encrypt_eia2 :: "crypto \<Rightarrow> nas_stream_cipher_t \<Rightarrow> byte list res" where
  "nas_stream_encrypt_eia2 C c =
     (if nsc_bearer c < 32 \<and> nsc_blength c AND 7 = 0
      then Inr (take 4 (cipher_aes_128_cbc_cmac C (nsc_context c)
             (iv8 (nsc_count c) (uint (nsc_bearer c)) (uint (nsc_direction c))) (nsc_bytes c)))
      else Inl Assert_failed)"

text \<open>
  The dispatch by algorithm number; the argument \<open>out\<close> is what the output buffer holds before the call,
  which algorithm 0 of the integrity leaves as it is.
\<close>

definition stream_compute_integrity :: "crypto \<Rightarrow> int \<Rightarrow> nas_stream_cipher_t \<Rightarrow> byte list \<Rightarrow> byte list res" where
  "stream_compute_integrity C alg c out =
     (if alg = 0 then Inr out
      else if alg = 1 then nas_stream_encrypt_eia1 C c
      else if alg = 2 then nas_stream_encrypt_eia2 C c
      else Inl Assert_failed)"

definition stream_compute_encrypt :: "crypto \<Rightarrow> int \<Rightarrow> nas_stream_cipher_t \<Rightarrow> byte list res" where
  "stream_compute_encrypt C alg c =
     (if alg = 0 then nas_stream_encrypt_eea0 c
      else if alg = 1 then nas_stream_encrypt_eea1 C c
      else if alg = 2 then nas_stream_encrypt_eea2 C c
      else Inl Assert_failed)"

section \<open>The front ends of PDCP\<close>

text \<open>
  A region of a buffer with its length in bytes is a byte list; \<open>bearer\<close> is the bearer identity from 1
  on, of which the algorithms get the predecessor.
\<close>

definition pdcp_nas_cipher :: "byte list \<Rightarrow> byte list \<Rightarrow> int \<Rightarrow> u32 \<Rightarrow> int \<Rightarrow> nas_stream_cipher_t" where
  "pdcp_nas_cipher key buf bearer count direction =
     \<lparr>nsc_context = key, nsc_count = count, nsc_bearer = word_of_int (bearer - 1),
      nsc_direction = word_of_int direction, nsc_message = buf, nsc_blength = word_of_int (int (length buf) * 8)\<rparr>"

definition nr_pdcp_security_nea1_cipher ::
  "crypto \<Rightarrow> byte list \<Rightarrow> byte list \<Rightarrow> int \<Rightarrow> u32 \<Rightarrow> int \<Rightarrow> byte list res" where
  "nr_pdcp_security_nea1_cipher C key buf bearer count direction =
     stream_compute_encrypt C 1 (pdcp_nas_cipher key buf bearer count direction)"

definition nr_pdcp_security_nea2_cipher ::
  "crypto \<Rightarrow> byte list \<Rightarrow> byte list \<Rightarrow> int \<Rightarrow> u32 \<Rightarrow> int \<Rightarrow> byte list res" where
  "nr_pdcp_security_nea2_cipher C key buf bearer count direction =
     (if length buf > 0 \<and> bearer > - 1 \<and> bearer < 32 \<and> direction > - 1 \<and> direction < 2
      then Inr (aes_128_ctr C key (iv16 count (bearer - 1) direction) buf)
      else Inl Assert_failed)"

definition nr_pdcp_integrity_nia1_integrity ::
  "crypto \<Rightarrow> byte list \<Rightarrow> byte list \<Rightarrow> byte list \<Rightarrow> int \<Rightarrow> u32 \<Rightarrow> int \<Rightarrow> byte list res" where
  "nr_pdcp_integrity_nia1_integrity C key out buf bearer count direction =
     stream_compute_integrity C 1 (pdcp_nas_cipher key buf bearer count direction) out"

definition nr_pdcp_integrity_nia2_integrity ::
  "crypto \<Rightarrow> byte list \<Rightarrow> byte list \<Rightarrow> byte list \<Rightarrow> int \<Rightarrow> u32 \<Rightarrow> int \<Rightarrow> byte list res" where
  "nr_pdcp_integrity_nia2_integrity C key out buf bearer count direction =
     (if bearer > 0 \<and> bearer < 33
      then Inr (take 4 (cipher_aes_128_cbc_cmac C key (iv8 count (bearer - 1) direction) buf))
      else Inl Assert_failed)"

section \<open>The laws of a cipher\<close>

text \<open>
  What PDCP relies on: on a region that is not empty and not larger than \<open>2^29\<close> bytes, where the
  number of bits would overflow, the cipher succeeds and keeps the length, and deciphering, which is
  the same operation in another run, gives the region back.
\<close>

abbreviation region_ok :: "byte list \<Rightarrow> bool" where
  "region_ok m \<equiv> m \<noteq> [] \<and> length m < 2 ^ 29"

locale stream_cipher =
  fixes crypt decrypt :: "byte list \<Rightarrow> byte list res"
  assumes crypt_returns: "region_ok m \<Longrightarrow> \<exists>c. crypt m = Inr c \<and> length c = length m \<and> decrypt c = Inr m"
begin

lemma crypt_decrypt: "region_ok m \<Longrightarrow> bindr (crypt m) decrypt = Inr m"
  using crypt_returns by fastforce

lemma crypt_length: "region_ok m \<Longrightarrow> crypt m = Inr c \<Longrightarrow> length c = length m"
  using crypt_returns by fastforce

text \<open>A protected region inside of a larger PDU: what stands before it is not touched.\<close>

lemma crypt_suffix:
  assumes "region_ok m"
  obtains c where "crypt m = Inr c" "length (h @ c) = length (h @ m)" "decrypt (drop (length h) (h @ c)) = Inr m"
  using crypt_returns [OF assms] by auto

end

lemma nsc_bytes_pdcp:
  assumes "length buf < 2 ^ 29"
  shows "nsc_bytes (pdcp_nas_cipher key buf bearer count direction) = buf"
proof -
  have "unat (of_nat (length buf * 8) :: u32) = length buf * 8"
    using assms by (simp add: unsigned_of_nat take_bit_nat_eq_self del: of_nat_mult)
  then have "unat (of_nat (length buf * 8) div 8 :: u32) = length buf" by (simp add: unat_div_distrib del: of_nat_mult)
  moreover have "(word_of_int (int (length buf) * 8) :: u32) = of_nat (length buf * 8)" by simp
  ultimately have "unat (word_of_int (int (length buf) * 8) div 8 :: u32) = length buf" by (simp only:)
  then show ?thesis by (simp add: nsc_bytes_def pdcp_nas_cipher_def)
qed

lemma nea1_snow3g:
  assumes "length buf < 2 ^ 29"
  shows "nr_pdcp_security_nea1_cipher C key buf bearer count direction =
    Inr (snow3g_ciphering (mem_snow C) count (uint (word_of_int (bearer - 1) :: byte)) (uint (word_of_int direction :: byte)) key buf)"
  using nsc_bytes_pdcp [OF assms, of key bearer count direction]
  by (simp add: nr_pdcp_security_nea1_cipher_def stream_compute_encrypt_def nas_stream_encrypt_eea1_def)
    (simp add: pdcp_nas_cipher_def)

interpretation nea1: stream_cipher
  "\<lambda>m. nr_pdcp_security_nea1_cipher C key m bearer count direction"
  "\<lambda>m. nr_pdcp_security_nea1_cipher D key m bearer count direction"
  for C D key bearer count direction
  by unfold_locales (auto simp: nea1_snow3g snow3g_ciphering_twice)

lemma nea2_stream_cipher:
  assumes "openssl_ok C" "same_library C D" "0 \<le> bearer" "bearer < 32" "direction = 0 \<or> direction = 1"
  shows "stream_cipher (\<lambda>m. nr_pdcp_security_nea2_cipher C key m bearer count direction)
     (\<lambda>m. nr_pdcp_security_nea2_cipher D key m bearer count direction)"
proof unfold_locales
  fix m :: "byte list"
  assume m: "region_ok m"
  let ?c = "evp_aes_128_ctr C key (iv16 count (bearer - 1) direction) m"
  have "length ?c = length m" "evp_aes_128_ctr D key (iv16 count (bearer - 1) direction) ?c = m"
    using assms(1,2) by (simp_all add: openssl_ok_def same_library_def)
  moreover from this(1) m have "?c \<noteq> []" by (metis length_0_conv)
  ultimately show "\<exists>c. nr_pdcp_security_nea2_cipher C key m bearer count direction = Inr c \<and> length c = length m \<and>
      nr_pdcp_security_nea2_cipher D key c bearer count direction = Inr m"
    using assms(3-5) m by (auto simp: nr_pdcp_security_nea2_cipher_def aes_128_ctr_def)
qed

section \<open>The laws of an authentication code\<close>

text \<open>The code has four bytes and does not depend on uninitialised memory or on the output buffer.\<close>

locale auth_code =
  fixes mac mac' :: "byte list \<Rightarrow> byte list \<Rightarrow> byte list res"
  assumes mac_returns: "region_ok m \<Longrightarrow> \<exists>t. mac out m = Inr t \<and> length t = 4 \<and> mac' out' m = Inr t"
begin

lemma mac_agrees: "region_ok m \<Longrightarrow> mac out m = Inr t \<Longrightarrow> mac' out' m = Inr t \<and> length t = 4"
  using mac_returns [of m out out'] by auto

end

lemma nia1_snow3g:
  assumes "region_ok buf"
  shows "nr_pdcp_integrity_nia1_integrity C key out buf bearer count direction =
    Inr (ref_mac count (push_bit 27 (word_of_int (uint (word_of_int (bearer - 1) :: byte))))
           (uint (word_of_int direction :: byte)) key buf)"
proof -
  let ?c = "pdcp_nas_cipher key buf bearer count direction"
  have "nsc_bytes ?c = buf" using nsc_bytes_pdcp assms by blast
  then have "nas_stream_encrypt_eia1 C ?c =
     snow3g_integrity_fresh (mem_snow C) (mem_pm C) count (push_bit 27 (word_of_int (uint (word_of_int (bearer - 1) :: byte))))
           (uint (word_of_int direction :: byte)) key buf"
    by (simp add: nas_stream_encrypt_eia1_def snow3g_integrity_def) (simp add: pdcp_nas_cipher_def)
  with snow3g_integrity_ref assms show ?thesis
    by (simp add: nr_pdcp_integrity_nia1_integrity_def stream_compute_integrity_def)
qed

interpretation nia1: auth_code
  "\<lambda>out m. nr_pdcp_integrity_nia1_integrity C key out m bearer count direction"
  "\<lambda>out m. nr_pdcp_integrity_nia1_integrity D key out m bearer count direction"
  for C D key bearer count direction
  by unfold_locales (simp add: nia1_snow3g ref_mac_def Let_def be_bytes_def)

lemma nia2_auth_code:
  assumes "openssl_ok C" "same_library C D" "0 < bearer" "bearer < 33"
  shows "auth_code (\<lambda>out m. nr_pdcp_integrity_nia2_integrity C key out m bearer count direction)
     (\<lambda>out m. nr_pdcp_integrity_nia2_integrity D key out m bearer count direction)"
  by unfold_locales
    (use assms in \<open>auto simp: nr_pdcp_integrity_nia2_integrity_def cipher_aes_128_cbc_cmac_def openssl_ok_def same_library_def\<close>)

end
