(* ===== verification/Nr_Pdcp.thy ===== *)
theory Nr_Pdcp
  imports Nr_Secu
begin

text \<open>
  The PDCP entity of \<open>openair2/LAYER2/nr_pdcp\<close> (\<open>nr_pdcp_sdu.c\<close>, \<open>nr_pdcp_entity.c\<close>): sequence numbering
  with a 32 bit COUNT, ciphering, integrity protection, reordering and duplicate removal.

  COUNT values and statistics are 32 bit words, times are 64 bit words. The functions \<open>cipher\<close>,
  \<open>integrity\<close>, \<open>free_security\<close> and \<open>free_integrity\<close> of the entity are the number of the algorithm they
  belong to (\<open>None\<close> is the null pointer). A security context is null, a private copy of a key, the
  address of the key in the entity itself (as \<open>nr_pdcp_security_nea2_init\<close> returns it), or freed memory.
  The SDUs handed to \<open>deliver_sdu\<close> are recorded in \<open>pe_upcalls\<close>.
\<close>

section \<open>SDUs (\<open>nr_pdcp_sdu.c\<close>)\<close>

record nr_pdcp_integrity_data_t =
  pi_count :: u32
  pi_mac :: "byte list"
  pi_header_size :: int
  pi_header :: "byte list"

record nr_pdcp_sdu_t =
  ps_count :: u32
  ps_buffer :: "byte list"
  ps_msg_integrity :: nr_pdcp_integrity_data_t

abbreviation ps_size :: "nr_pdcp_sdu_t \<Rightarrow> int" where
  "ps_size s \<equiv> int (length (ps_buffer s))"

definition nr_pdcp_new_sdu :: "u32 \<Rightarrow> byte list \<Rightarrow> nr_pdcp_integrity_data_t \<Rightarrow> nr_pdcp_sdu_t" where
  "nr_pdcp_new_sdu count buffer mi = \<lparr>ps_count = count, ps_buffer = buffer, ps_msg_integrity = mi\<rparr>"

definition nr_pdcp_sdu_list_add :: "nr_pdcp_sdu_t list \<Rightarrow> nr_pdcp_sdu_t \<Rightarrow> nr_pdcp_sdu_t list" where
  "nr_pdcp_sdu_list_add l sdu = insert_before (\<lambda>cur. ps_count sdu < ps_count cur) sdu l"

fun nr_pdcp_sdu_in_list :: "nr_pdcp_sdu_t list \<Rightarrow> u32 \<Rightarrow> bool" where
  "nr_pdcp_sdu_in_list [] count = False"
| "nr_pdcp_sdu_in_list (s # l) count = (if ps_count s = count then True else nr_pdcp_sdu_in_list l count)"

section \<open>State (\<open>nr_pdcp_entity.h\<close>)\<close>

datatype nr_pdcp_entity_type_t = NR_PDCP_DRB_AM | NR_PDCP_DRB_UM | NR_PDCP_SRB

record nr_pdcp_entity_security_keys_and_algos_t =
  integrity_algorithm :: int
  ciphering_algorithm :: int
  integrity_key :: "byte list"
  ciphering_key :: "byte list"

record nr_pdcp_count_t =
  cnt_sn :: u32
  cnt_hfn :: u32

record nr_pdcp_statistics_t =
  txpdu_pkts :: u32
  txpdu_bytes :: u32
  txpdu_sn :: u32
  rxpdu_pkts :: u32
  rxpdu_bytes :: u32
  rxpdu_sn :: u32
  rxpdu_dd_pkts :: u32
  rxpdu_dd_bytes :: u32
  txsdu_pkts :: u32
  txsdu_bytes :: u32
  rxsdu_pkts :: u32
  rxsdu_bytes :: u32

datatype sec_context = Null_context | Key_in_entity | Own_key "byte list" | Freed_context

record nr_pdcp_entity_t =
  pe_type :: nr_pdcp_entity_type_t
  pe_rb_id :: int
  pe_pdusession_id :: int
  pe_has_sdap_rx :: bool
  pe_has_sdap_tx :: bool
  pe_sn_size :: nat
  pe_t_reordering :: int
  pe_discard_timer :: int
  pe_sn_max :: int
  pe_window_size :: int
  pe_tx_next :: u32
  pe_rx_next :: u32
  pe_rx_deliv :: u32
  pe_rx_reord :: u32
  pe_t_current :: u64
  pe_t_reordering_start :: u64
  pe_has_ciphering :: bool
  pe_has_integrity :: bool
  pe_keys :: nr_pdcp_entity_security_keys_and_algos_t
  pe_security_context :: sec_context
  pe_cipher :: "int option"
  pe_free_security :: "int option"
  pe_integrity_context :: sec_context
  pe_integrity :: "int option"
  pe_free_integrity :: "int option"
  pe_is_gnb :: bool
  pe_rx_list :: "nr_pdcp_sdu_t list"
  pe_rx_size :: int
  pe_stats :: nr_pdcp_statistics_t
  pe_suspended :: bool
  pe_upcalls :: "nr_pdcp_sdu_t list"

abbreviation (input) SHORT_SN_SIZE :: nat where "SHORT_SN_SIZE \<equiv> 12"
abbreviation (input) LONG_SN_SIZE :: nat where "LONG_SN_SIZE \<equiv> 18"
abbreviation (input) SHORT_PDCP_HEADER_SIZE :: int where "SHORT_PDCP_HEADER_SIZE \<equiv> 2"
abbreviation (input) LONG_PDCP_HEADER_SIZE :: int where "LONG_PDCP_HEADER_SIZE \<equiv> 3"
abbreviation (input) PDCP_INTEGRITY_SIZE :: int where "PDCP_INTEGRITY_SIZE \<equiv> 4"

definition nr_max_pdcp_pdu_size :: "int \<Rightarrow> int" where
  "nr_max_pdcp_pdu_size sdu_size = sdu_size + LONG_PDCP_HEADER_SIZE + PDCP_INTEGRITY_SIZE"

abbreviation upd_pstats :: "(nr_pdcp_statistics_t \<Rightarrow> nr_pdcp_statistics_t) \<Rightarrow> nr_pdcp_entity_t \<Rightarrow> nr_pdcp_entity_t" where
  "upd_pstats f e \<equiv> e\<lparr>pe_stats := f (pe_stats e)\<rparr>"

definition stat_dd :: "int \<Rightarrow> nr_pdcp_statistics_t \<Rightarrow> nr_pdcp_statistics_t" where
  "stat_dd n st = st\<lparr>rxpdu_dd_pkts := rxpdu_dd_pkts st + 1, rxpdu_dd_bytes := rxpdu_dd_bytes st + word_of_int n\<rparr>"

definition stat_txsdu :: "int \<Rightarrow> nr_pdcp_statistics_t \<Rightarrow> nr_pdcp_statistics_t" where
  "stat_txsdu n st = st\<lparr>txsdu_pkts := txsdu_pkts st + 1, txsdu_bytes := txsdu_bytes st + word_of_int n\<rparr>"

section \<open>Calls through the security contexts\<close>

definition context_key :: "nr_pdcp_entity_t \<Rightarrow> sec_context \<Rightarrow> byte list res" where
  "context_key e ctx =
     (case ctx of Null_context \<Rightarrow> Inl Null_dereference
      | Key_in_entity \<Rightarrow> Inr (ciphering_key (pe_keys e))
      | Own_key k \<Rightarrow> Inr k
      | Freed_context \<Rightarrow> Inl Dangling_pointer)"

text \<open>
  \<open>entity->cipher\<close> and \<open>entity->decipher\<close>, which always are the same function, and their call on \<open>len\<close>
  bytes of the buffer from \<open>pos\<close> on. The local array \<open>out[length]\<close> of the front end of algorithm 1 must
  not have a negative length; algorithm 2 has an assertion for it.
\<close>

definition cipher_call :: "crypto \<Rightarrow> nr_pdcp_entity_t \<Rightarrow> byte list \<Rightarrow> u32 \<Rightarrow> int \<Rightarrow> byte list res" where
  "cipher_call C e m count direction =
     (case pe_cipher e of None \<Rightarrow> Inl Null_dereference
      | Some alg \<Rightarrow>
          bindr (context_key e (pe_security_context e)) (\<lambda>key.
            if alg = 2 then nr_pdcp_security_nea2_cipher C key m (pe_rb_id e) count direction
            else nr_pdcp_security_nea1_cipher C key m (pe_rb_id e) count direction))"

definition pdcp_cipher :: "crypto \<Rightarrow> nr_pdcp_entity_t \<Rightarrow> byte list \<Rightarrow> int \<Rightarrow> int \<Rightarrow> u32 \<Rightarrow> int \<Rightarrow> byte list res" where
  "pdcp_cipher C e buf pos len count direction =
     (if len < 0 then Inl (if pe_cipher e = Some 2 then Assert_failed else Out_of_bounds)
      else bindr (cipher_call C e (take (nat len) (drop (nat pos) buf)) count direction) (\<lambda>c.
             Inr (take (nat pos) buf @ c @ drop (nat pos + nat len) buf)))"

definition pdcp_integrity :: "crypto \<Rightarrow> nr_pdcp_entity_t \<Rightarrow> byte list \<Rightarrow> byte list \<Rightarrow> u32 \<Rightarrow> int \<Rightarrow> byte list res" where
  "pdcp_integrity C e out m count direction =
     (case pe_integrity e of None \<Rightarrow> Inl Null_dereference
      | Some alg \<Rightarrow>
          bindr (context_key e (pe_integrity_context e)) (\<lambda>key.
            if alg = 2 then nr_pdcp_integrity_nia2_integrity C key out m (pe_rb_id e) count direction
            else nr_pdcp_integrity_nia1_integrity C key out m (pe_rb_id e) count direction))"

section \<open>Reception\<close>

text \<open>The loop that delivers consecutive SDUs from the head of the list, and the one that delivers all below a COUNT.\<close>

definition deliver_head :: "nr_pdcp_sdu_t \<Rightarrow> nr_pdcp_sdu_t list \<Rightarrow> nr_pdcp_entity_t \<Rightarrow> nr_pdcp_entity_t" where
  "deliver_head cur rest e =
     e\<lparr>pe_rx_list := rest, pe_rx_size := pe_rx_size e - ps_size cur,
       pe_stats := stat_txsdu (ps_size cur) (pe_stats e), pe_upcalls := pe_upcalls e @ [cur]\<rparr>"

fun deliver_consecutive :: "nr_pdcp_sdu_t list \<Rightarrow> u32 \<Rightarrow> nr_pdcp_entity_t \<Rightarrow> u32 \<times> nr_pdcp_entity_t" where
  "deliver_consecutive [] count e = (count, e)"
| "deliver_consecutive (cur # l) count e =
     (if count = ps_count cur then deliver_consecutive l (count + 1) (deliver_head cur l e) else (count, e))"

fun deliver_below :: "nr_pdcp_sdu_t list \<Rightarrow> u32 \<Rightarrow> nr_pdcp_entity_t \<Rightarrow> nr_pdcp_entity_t" where
  "deliver_below [] reord e = e"
| "deliver_below (cur # l) reord e =
     (if ps_count cur < reord then deliver_below l reord (deliver_head cur l e) else e)"

definition recv_header :: "nr_pdcp_entity_t \<Rightarrow> byte list \<Rightarrow> (int \<times> int) res" where
  "recv_header e buf =
     (if pe_sn_size e = SHORT_SN_SIZE
      then if length buf < 2 then Inl Out_of_bounds
           else Inr (uint (push_bit 8 (ucast (buf ! 0 AND 0xf)) OR ucast (buf ! 1) :: u32), SHORT_PDCP_HEADER_SIZE)
      else if length buf < 3 then Inl Out_of_bounds
           else Inr (uint (push_bit 16 (ucast (buf ! 0 AND 0x3)) OR push_bit 8 (ucast (buf ! 1)) OR ucast (buf ! 2) :: u32),
                     LONG_PDCP_HEADER_SIZE))"

definition pdcp_integrity_size :: "nr_pdcp_entity_t \<Rightarrow> int" where
  "pdcp_integrity_size e = (if pe_has_integrity e \<or> pe_type e = NR_PDCP_SRB then PDCP_INTEGRITY_SIZE else 0)"

definition recv_count :: "nr_pdcp_entity_t \<Rightarrow> int \<Rightarrow> u32" where
  "recv_count e rcvd_sn =
     (let rx_deliv_sn = uint (pe_rx_deliv e AND word_of_int (pe_sn_max e));
          rx_deliv_hfn = drop_bit (pe_sn_size e) (pe_rx_deliv e);
          rcvd_hfn = (if rcvd_sn < rx_deliv_sn - pe_window_size e then rx_deliv_hfn + 1
                      else if rcvd_sn \<ge> rx_deliv_sn + pe_window_size e then rx_deliv_hfn - 1
                      else rx_deliv_hfn)
      in push_bit (pe_sn_size e) rcvd_hfn OR word_of_int rcvd_sn)"

definition integrity_none :: nr_pdcp_integrity_data_t where
  "integrity_none = \<lparr>pi_count = 0, pi_mac = [0, 0, 0, 0], pi_header_size = 0, pi_header = [0, 0, 0]\<rparr>"

definition recv_integrity_data :: "nr_pdcp_entity_t \<Rightarrow> byte list \<Rightarrow> int \<Rightarrow> u32 \<Rightarrow> nr_pdcp_integrity_data_t" where
  "recv_integrity_data e buf header_size count =
     (if pe_has_integrity e \<or> pe_type e = NR_PDCP_SRB
      then integrity_none\<lparr>pi_count := count, pi_mac := drop (length buf - 4) buf, pi_header_size := header_size,
             pi_header := take (nat header_size) buf @ replicate (3 - nat header_size) 0\<rparr>
      else integrity_none)"

text \<open>The end of \<open>recv_pdu\<close>, from the creation of the SDU on.\<close>

definition recv_store :: "nr_pdcp_entity_t \<Rightarrow> nr_pdcp_sdu_t \<Rightarrow> int \<Rightarrow> nr_pdcp_entity_t" where
  "recv_store e sdu bytes =
     (let count = ps_count sdu;
          e1 = e\<lparr>pe_rx_list := nr_pdcp_sdu_list_add (pe_rx_list e) sdu, pe_rx_size := pe_rx_size e + bytes\<rparr>;
          e2 = (if count \<ge> pe_rx_next e1 then e1\<lparr>pe_rx_next := count + 1\<rparr> else e1);
          e3 = (if count = pe_rx_deliv e2
                then case deliver_consecutive (pe_rx_list e2) (pe_rx_deliv e2) e2 of
                       (c, e') \<Rightarrow> e'\<lparr>pe_rx_deliv := c\<rparr>
                else e2);
          e4 = (if pe_t_reordering_start e3 \<noteq> 0 \<and> pe_rx_deliv e3 \<ge> pe_rx_reord e3
                then e3\<lparr>pe_t_reordering_start := 0\<rparr> else e3)
      in if pe_t_reordering_start e4 = 0 \<and> pe_rx_deliv e4 < pe_rx_next e4
         then e4\<lparr>pe_rx_reord := pe_rx_next e4, pe_t_reordering_start := pe_t_current e4\<rparr> else e4)"

definition recv_check_integrity :: "crypto \<Rightarrow> nr_pdcp_entity_t \<Rightarrow> byte list \<Rightarrow> u32 \<Rightarrow> bool res" where
  "recv_check_integrity C e buf count =
     (if \<not> pe_has_integrity e then Inr True
      else let n = length buf - 4 in
        bindr (pdcp_integrity C e [0, 0, 0, 0] (take n buf) count (if pe_is_gnb e then 0 else 1)) (\<lambda>mac.
          Inr (mac = drop n buf)))"

definition nr_pdcp_entity_recv_pdu :: "crypto \<Rightarrow> nr_pdcp_entity_t \<Rightarrow> byte list \<Rightarrow> nr_pdcp_entity_t res" where
  "nr_pdcp_entity_recv_pdu C e buffer =
     (let size = int (length buffer) in
      if pe_suspended e then Inr e
      else if size < 1 then Inr e
      else
        let buf = (if pe_type e \<noteq> NR_PDCP_SRB \<and> buffer ! 0 AND 0x80 = 0
                   then buffer[0 := buffer ! 0 OR 128] else buffer);
            e1 = upd_pstats (\<lambda>st. st\<lparr>rxpdu_pkts := rxpdu_pkts st + 1, rxpdu_bytes := rxpdu_bytes st + word_of_int size\<rparr>) e;
            sdap_header_size = (if pe_has_sdap_rx e then 1 else 0)
        in bindr (recv_header e1 buf) (\<lambda>(rcvd_sn, header_size).
          let e2 = upd_pstats (\<lambda>st. st\<lparr>rxpdu_sn := word_of_int rcvd_sn\<rparr>) e1;
              integrity_size = pdcp_integrity_size e2
          in if size < header_size + sdap_header_size + integrity_size + 1
             then Inr (upd_pstats (stat_dd size) e2)
             else
               let rcvd_count = recv_count e2 rcvd_sn;
                   mi = recv_integrity_data e2 buf header_size rcvd_count
               in bindr (if pe_has_ciphering e2
                         then pdcp_cipher C e2 buf (header_size + sdap_header_size) (size - (header_size + sdap_header_size))
                                rcvd_count (if pe_is_gnb e2 then 0 else 1)
                         else Inr buf) (\<lambda>buf2.
                  bindr (recv_check_integrity C e2 buf2 rcvd_count) (\<lambda>ok.
                    if \<not> ok then Inr (upd_pstats (stat_dd size) e2)
                    else if rcvd_count < pe_rx_deliv e2 \<or> nr_pdcp_sdu_in_list (pe_rx_list e2) rcvd_count
                    then Inr (upd_pstats (stat_dd size) e2)
                    else Inr (recv_store e2
                           (nr_pdcp_new_sdu rcvd_count
                              (take (nat (size - header_size - integrity_size)) (drop (nat header_size) buf2)) mi)
                           (size - header_size))))))"

section \<open>Transmission\<close>

definition send_header :: "nr_pdcp_entity_t \<Rightarrow> u32 \<Rightarrow> byte list" where
  "send_header e sn =
     (let dc_bit = (if pe_type e = NR_PDCP_DRB_AM \<or> pe_type e = NR_PDCP_DRB_UM then 0x80 else 0)
      in if pe_sn_size e = SHORT_SN_SIZE
         then [dc_bit OR (ucast (drop_bit 8 sn) AND 0xf), ucast sn]
         else [dc_bit OR (ucast (drop_bit 16 sn) AND 0x3), ucast (drop_bit 8 sn), ucast sn])"

text \<open>The result is the return value with the first bytes of \<open>pdu_buffer\<close> that it counts.\<close>

definition nr_pdcp_entity_process_sdu ::
  "crypto \<Rightarrow> nr_pdcp_entity_t \<Rightarrow> byte list \<Rightarrow> int \<Rightarrow> (int \<times> byte list \<times> nr_pdcp_entity_t) res" where
  "nr_pdcp_entity_process_sdu C e sdu pdu_max_size =
     (let size = int (length sdu) in
      if \<not> nr_max_pdcp_pdu_size size \<le> pdu_max_size then Inl Assert_failed
      else if pe_suspended e then Inr (- 1, [], e)
      else
        let e1 = upd_pstats (\<lambda>st. st\<lparr>rxsdu_pkts := rxsdu_pkts st + 1, rxsdu_bytes := rxsdu_bytes st + word_of_int size\<rparr>) e;
            count = pe_tx_next e1;
            sn = pe_tx_next e1 AND word_of_int (pe_sn_max e1);
            sdap_header_size = (if pe_has_sdap_tx e1 then 1 else 0);
            header = send_header e1 sn;
            header_size = int (length header);
            integrity_size = pdcp_integrity_size e1;
            direction = (if pe_is_gnb e1 then 1 else 0);
            body = header @ sdu
        in bindr (if pe_has_integrity e1 then pdcp_integrity C e1 [0, 0, 0, 0] body count direction
                  else Inr (replicate (nat integrity_size) 0)) (\<lambda>mac.
           bindr (if pe_has_ciphering e1
                  then pdcp_cipher C e1 (body @ mac) (header_size + sdap_header_size)
                         (size + integrity_size - sdap_header_size) count direction
                  else Inr (body @ mac)) (\<lambda>pdu.
             let ret = header_size + size + integrity_size
             in Inr (ret, pdu,
                 upd_pstats (\<lambda>st. st\<lparr>txpdu_pkts := txpdu_pkts st + 1, txpdu_bytes := txpdu_bytes st + word_of_int ret,
                     txpdu_sn := sn\<rparr>) (e1\<lparr>pe_tx_next := pe_tx_next e1 + 1\<rparr>)))))"

definition nr_pdcp_entity_check_integrity ::
  "crypto \<Rightarrow> nr_pdcp_entity_t \<Rightarrow> byte list \<Rightarrow> byte list \<Rightarrow> nr_pdcp_integrity_data_t \<Rightarrow> bool res" where
  "nr_pdcp_entity_check_integrity C e junk buffer mi =
     (if \<not> pe_has_integrity e then Inr False
      else if int (length (pi_header mi)) < pi_header_size mi then Inl Out_of_bounds
      else bindr (pdcp_integrity C e junk (take (nat (pi_header_size mi)) (pi_header mi) @ buffer) (pi_count mi)
                    (if pe_is_gnb e then 0 else 1)) (\<lambda>mac. Inr (mac = pi_mac mi)))"

section \<open>Security settings\<close>

definition free_context :: "int option \<Rightarrow> sec_context \<Rightarrow> sec_context res" where
  "free_context f ctx =
     (case f of None \<Rightarrow> Inr ctx
      | Some _ \<Rightarrow> (case ctx of Own_key k \<Rightarrow> Inr Freed_context
                  | Key_in_entity \<Rightarrow> Inr Key_in_entity
                  | Null_context \<Rightarrow> Inl Null_dereference
                  | Freed_context \<Rightarrow> Inl Dangling_pointer))"

definition set_integrity :: "int \<Rightarrow> nr_pdcp_entity_t \<Rightarrow> nr_pdcp_entity_t res" where
  "set_integrity alg e =
     (if alg = 0
      then bindr (free_context (pe_free_integrity e) (pe_integrity_context e)) (\<lambda>ctx.
             Inr (e\<lparr>pe_has_integrity := False, pe_integrity_context := ctx, pe_free_integrity := None\<rparr>))
      else if alg \<noteq> - 1
      then bindr (free_context (pe_free_integrity e) (pe_integrity_context e)) (\<lambda>ctx.
             if alg = 1 \<or> alg = 2
             then Inr (e\<lparr>pe_has_integrity := True, pe_integrity_context := Own_key (integrity_key (pe_keys e)),
                         pe_integrity := Some alg, pe_free_integrity := Some alg\<rparr>)
             else Inl Exit_bad_algorithm)
      else Inr e)"

definition set_ciphering :: "int \<Rightarrow> nr_pdcp_entity_t \<Rightarrow> nr_pdcp_entity_t res" where
  "set_ciphering alg e =
     (if alg = 0
      then bindr (free_context (pe_free_security e) (pe_security_context e)) (\<lambda>ctx.
             Inr (e\<lparr>pe_has_ciphering := False, pe_security_context := ctx, pe_free_security := None\<rparr>))
      else if alg \<noteq> - 1
      then bindr (free_context (pe_free_security e) (pe_security_context e)) (\<lambda>ctx.
             if alg = 2
             then Inr (e\<lparr>pe_has_ciphering := True, pe_security_context := Key_in_entity,
                         pe_cipher := Some alg, pe_free_security := Some alg\<rparr>)
             else if alg = 1
             then Inr (e\<lparr>pe_has_ciphering := True, pe_security_context := Own_key (ciphering_key (pe_keys e)),
                         pe_cipher := Some alg, pe_free_security := Some alg\<rparr>)
             else Inl Exit_bad_algorithm)
      else Inr e)"

definition nr_pdcp_entity_set_security ::
  "nr_pdcp_entity_t \<Rightarrow> nr_pdcp_entity_security_keys_and_algos_t \<Rightarrow> nr_pdcp_entity_t res" where
  "nr_pdcp_entity_set_security e p =
     (let k1 = (if integrity_algorithm p \<noteq> - 1
                then (pe_keys e)\<lparr>integrity_algorithm := integrity_algorithm p, integrity_key := integrity_key p\<rparr>
                else pe_keys e);
          k2 = (if ciphering_algorithm p \<noteq> - 1
                then k1\<lparr>ciphering_algorithm := ciphering_algorithm p, ciphering_key := ciphering_key p\<rparr> else k1)
      in bindr (set_integrity (integrity_algorithm p) (e\<lparr>pe_keys := k2\<rparr>)) (set_ciphering (ciphering_algorithm p)))"

section \<open>Timer, suspension, re-establishment\<close>

definition check_t_reordering :: "nr_pdcp_entity_t \<Rightarrow> nr_pdcp_entity_t" where
  "check_t_reordering e =
     (if pe_t_reordering e = - 1 then e
      else if pe_t_reordering_start e = 0 \<or>
              pe_t_current e \<le> pe_t_reordering_start e + word_of_int (pe_t_reordering e) then e
      else
        let e1 = e\<lparr>pe_t_reordering_start := 0\<rparr>;
            e2 = deliver_below (pe_rx_list e1) (pe_rx_reord e1) e1
        in case deliver_consecutive (pe_rx_list e2) (pe_rx_reord e2) e2 of (count, e3) \<Rightarrow>
             let e4 = e3\<lparr>pe_rx_deliv := count\<rparr>
             in if pe_rx_deliv e4 < pe_rx_next e4
                then e4\<lparr>pe_rx_reord := pe_rx_next e4, pe_t_reordering_start := pe_t_current e4\<rparr> else e4)"

definition nr_pdcp_entity_set_time :: "nr_pdcp_entity_t \<Rightarrow> u64 \<Rightarrow> nr_pdcp_entity_t" where
  "nr_pdcp_entity_set_time e now = check_t_reordering (e\<lparr>pe_t_current := now\<rparr>)"

fun deliver_all_sdus_loop :: "nr_pdcp_sdu_t list \<Rightarrow> nr_pdcp_entity_t \<Rightarrow> nr_pdcp_entity_t" where
  "deliver_all_sdus_loop [] e = e"
| "deliver_all_sdus_loop (cur # l) e = deliver_all_sdus_loop l (deliver_head cur l e)"

definition deliver_all_sdus :: "nr_pdcp_entity_t \<Rightarrow> nr_pdcp_entity_t" where
  "deliver_all_sdus e = deliver_all_sdus_loop (pe_rx_list e) e"

definition nr_pdcp_entity_suspend :: "nr_pdcp_entity_t \<Rightarrow> nr_pdcp_entity_t" where
  "nr_pdcp_entity_suspend e =
     (let e1 = e\<lparr>pe_tx_next := 0\<rparr>;
          e2 = (if pe_t_reordering_start e1 \<noteq> 0 then deliver_all_sdus (e1\<lparr>pe_t_reordering_start := 0\<rparr>) else e1)
      in e2\<lparr>pe_rx_next := 0, pe_rx_deliv := 0, pe_suspended := True\<rparr>)"

definition free_rx_list :: "nr_pdcp_entity_t \<Rightarrow> nr_pdcp_entity_t" where
  "free_rx_list e =
     (upd_pstats (fold (\<lambda>cur. stat_dd (ps_size cur)) (pe_rx_list e)) e)\<lparr>pe_rx_list := [], pe_rx_size := 0\<rparr>"

definition nr_pdcp_entity_reestablish_drb_am ::
  "nr_pdcp_entity_t \<Rightarrow> nr_pdcp_entity_security_keys_and_algos_t \<Rightarrow> nr_pdcp_entity_t res" where
  "nr_pdcp_entity_reestablish_drb_am e p =
     bindr (nr_pdcp_entity_set_security e p) (\<lambda>e1. Inr (e1\<lparr>pe_suspended := False\<rparr>))"

definition nr_pdcp_entity_reestablish_drb_um ::
  "nr_pdcp_entity_t \<Rightarrow> nr_pdcp_entity_security_keys_and_algos_t \<Rightarrow> nr_pdcp_entity_t res" where
  "nr_pdcp_entity_reestablish_drb_um e p =
     (let e1 = e\<lparr>pe_tx_next := 0\<rparr>;
          e2 = (if pe_t_reordering_start e1 \<noteq> 0 then deliver_all_sdus e1 else e1);
          e3 = e2\<lparr>pe_rx_next := 0, pe_rx_deliv := 0, pe_t_reordering_start := 0\<rparr>
      in bindr (nr_pdcp_entity_set_security e3 p) (\<lambda>e4. Inr (e4\<lparr>pe_suspended := False\<rparr>)))"

definition nr_pdcp_entity_reestablish_srb ::
  "nr_pdcp_entity_t \<Rightarrow> nr_pdcp_entity_security_keys_and_algos_t \<Rightarrow> nr_pdcp_entity_t res" where
  "nr_pdcp_entity_reestablish_srb e p =
     (let e1 = free_rx_list (e\<lparr>pe_tx_next := 0\<rparr>);
          e2 = e1\<lparr>pe_rx_next := 0, pe_rx_deliv := 0, pe_t_reordering_start := 0\<rparr>
      in bindr (nr_pdcp_entity_set_security e2 p) (\<lambda>e3. Inr (e3\<lparr>pe_suspended := False\<rparr>)))"

definition reestablish_entity ::
  "nr_pdcp_entity_t \<Rightarrow> nr_pdcp_entity_security_keys_and_algos_t \<Rightarrow> nr_pdcp_entity_t res" where
  "reestablish_entity e p =
     (case pe_type e of NR_PDCP_DRB_AM \<Rightarrow> nr_pdcp_entity_reestablish_drb_am e p
      | NR_PDCP_DRB_UM \<Rightarrow> nr_pdcp_entity_reestablish_drb_um e p
      | NR_PDCP_SRB \<Rightarrow> nr_pdcp_entity_reestablish_srb e p)"

definition nr_pdcp_entity_release :: "nr_pdcp_entity_t \<Rightarrow> nr_pdcp_entity_t" where
  "nr_pdcp_entity_release e = deliver_all_sdus e"

text \<open>Deletion: what is left of the entity when its memory is given back.\<close>

definition nr_pdcp_entity_delete :: "nr_pdcp_entity_t \<Rightarrow> nr_pdcp_entity_t res" where
  "nr_pdcp_entity_delete e =
     (let e1 = free_rx_list e in
      bindr (free_context (pe_free_security e1) (pe_security_context e1)) (\<lambda>sc.
      bindr (free_context (pe_free_integrity e1) (pe_integrity_context e1)) (\<lambda>ic.
        Inr (e1\<lparr>pe_security_context := sc, pe_integrity_context := ic\<rparr>))))"

definition nr_pdcp_entity_get_stats :: "nr_pdcp_entity_t \<Rightarrow> nr_pdcp_statistics_t" where
  "nr_pdcp_entity_get_stats e = pe_stats e"

section \<open>COUNT interface\<close>

definition nr_pdcp_entity_get_count_dl :: "nr_pdcp_entity_t \<Rightarrow> nr_pdcp_count_t" where
  "nr_pdcp_entity_get_count_dl e =
     \<lparr>cnt_sn = pe_rx_deliv e AND word_of_int (pe_sn_max e), cnt_hfn = drop_bit (pe_sn_size e) (pe_rx_deliv e)\<rparr>"

definition nr_pdcp_entity_get_count_ul :: "nr_pdcp_entity_t \<Rightarrow> nr_pdcp_count_t" where
  "nr_pdcp_entity_get_count_ul e =
     \<lparr>cnt_sn = pe_tx_next e AND word_of_int (pe_sn_max e), cnt_hfn = drop_bit (pe_sn_size e) (pe_tx_next e)\<rparr>"

definition compose_count :: "nr_pdcp_count_t \<Rightarrow> nat \<Rightarrow> u32" where
  "compose_count c sn_size = push_bit sn_size (cnt_hfn c) OR (cnt_sn c AND (push_bit sn_size 1 - 1))"

definition nr_pdcp_entity_set_count_dl :: "nr_pdcp_entity_t \<Rightarrow> nr_pdcp_count_t \<Rightarrow> nat \<Rightarrow> nr_pdcp_entity_t" where
  "nr_pdcp_entity_set_count_dl e c sn_size =
     (let count = compose_count c sn_size in e\<lparr>pe_rx_next := count + 1, pe_rx_deliv := count\<rparr>)"

definition nr_pdcp_entity_set_count_ul :: "nr_pdcp_entity_t \<Rightarrow> nr_pdcp_count_t \<Rightarrow> nat \<Rightarrow> nr_pdcp_entity_t" where
  "nr_pdcp_entity_set_count_ul e c sn_size = e\<lparr>pe_tx_next := compose_count c sn_size\<rparr>"

section \<open>Construction\<close>

definition stats_zero :: nr_pdcp_statistics_t where
  "stats_zero = \<lparr>txpdu_pkts = 0, txpdu_bytes = 0, txpdu_sn = 0, rxpdu_pkts = 0, rxpdu_bytes = 0, rxpdu_sn = 0,
     rxpdu_dd_pkts = 0, rxpdu_dd_bytes = 0, txsdu_pkts = 0, txsdu_bytes = 0, rxsdu_pkts = 0, rxsdu_bytes = 0\<rparr>"

text \<open>The entity with its configuration, before the security settings.\<close>

definition init_nr_pdcp_entity ::
  "nr_pdcp_entity_type_t \<Rightarrow> bool \<Rightarrow> int \<Rightarrow> int \<Rightarrow> bool \<Rightarrow> bool \<Rightarrow> nat \<Rightarrow> int \<Rightarrow> int \<Rightarrow> nr_pdcp_entity_t" where
  "init_nr_pdcp_entity ty is_gnb rb_id pdusession_id has_sdap_rx has_sdap_tx sn_size t_reordering discard_timer =
       \<lparr>pe_type = ty, pe_rb_id = rb_id, pe_pdusession_id = pdusession_id, pe_has_sdap_rx = has_sdap_rx,
        pe_has_sdap_tx = has_sdap_tx, pe_sn_size = sn_size, pe_t_reordering = t_reordering,
        pe_discard_timer = discard_timer, pe_sn_max = 2 ^ sn_size - 1, pe_window_size = 2 ^ (sn_size - 1),
        pe_tx_next = 0, pe_rx_next = 0, pe_rx_deliv = 0, pe_rx_reord = 0, pe_t_current = 0,
        pe_t_reordering_start = 0, pe_has_ciphering = False, pe_has_integrity = False,
        pe_keys = \<lparr>integrity_algorithm = 0, ciphering_algorithm = 0,
          integrity_key = replicate 16 0, ciphering_key = replicate 16 0\<rparr>,
        pe_security_context = Null_context, pe_cipher = None, pe_free_security = None,
        pe_integrity_context = Null_context, pe_integrity = None, pe_free_integrity = None,
        pe_is_gnb = is_gnb, pe_rx_list = [], pe_rx_size = 0, pe_stats = stats_zero, pe_suspended = False,
        pe_upcalls = []\<rparr>"

definition new_nr_pdcp_entity ::
  "nr_pdcp_entity_type_t \<Rightarrow> bool \<Rightarrow> int \<Rightarrow> int \<Rightarrow> bool \<Rightarrow> bool \<Rightarrow> nat \<Rightarrow> int \<Rightarrow> int \<Rightarrow>
   nr_pdcp_entity_security_keys_and_algos_t \<Rightarrow> nr_pdcp_entity_t res" where
  "new_nr_pdcp_entity ty is_gnb rb_id pdusession_id has_sdap_rx has_sdap_tx sn_size t_reordering discard_timer sec =
     nr_pdcp_entity_set_security
       (init_nr_pdcp_entity ty is_gnb rb_id pdusession_id has_sdap_rx has_sdap_tx sn_size t_reordering discard_timer) sec"

end
