(* ===== verification/Nr_Pdcp_Rx.thy ===== *)
theory Nr_Pdcp_Rx
  imports Nr_Pdcp
begin

text \<open>
  The receiving side of the PDCP entity: reconstruction of the COUNT from the sequence number, and the
  invariant of the reordering buffer.
\<close>

section \<open>Configuration\<close>

definition pdcp_cfg :: "nr_pdcp_entity_t \<Rightarrow> bool" where
  "pdcp_cfg e \<longleftrightarrow>
     (pe_sn_size e = SHORT_SN_SIZE \<or> pe_sn_size e = LONG_SN_SIZE) \<and>
     pe_sn_max e = 2 ^ pe_sn_size e - 1 \<and> pe_window_size e = 2 ^ (pe_sn_size e - 1)"

lemma pdcp_cfgD:
  assumes "pdcp_cfg e"
  shows "0 < pe_sn_size e" "pe_sn_size e < 32" "pe_sn_max e = 2 ^ pe_sn_size e - 1"
    "2 * pe_window_size e = 2 ^ pe_sn_size e" "0 < pe_window_size e"
  using assms by (auto simp: pdcp_cfg_def)

lemma word_and_sn_max:
  assumes "n < 32"
  shows "(w :: u32) AND word_of_int (2 ^ n - 1) = take_bit n w"
proof -
  have "(word_of_int (2 ^ n - 1) :: u32) = mask n" by (simp add: mask_eq_exp_minus_1)
  then show ?thesis by (simp add: take_bit_eq_mask)
qed

section \<open>Reconstruction of the COUNT\<close>

text \<open>The number with the given low order bits that is nearest to the next COUNT to deliver.\<close>

definition nearest :: "nr_pdcp_entity_t \<Rightarrow> int \<Rightarrow> int" where
  "nearest e sn =
     (let d = uint (pe_rx_deliv e); m = 2 ^ pe_sn_size e; s = d mod m
      in m * (d div m + (if sn < s - pe_window_size e then 1 else if sn \<ge> s + pe_window_size e then - 1 else 0)) + sn)"

lemma nearest_range:
  assumes "pdcp_cfg e" "0 \<le> sn" "sn < 2 ^ pe_sn_size e"
  shows "uint (pe_rx_deliv e) - pe_window_size e \<le> nearest e sn"
    and "nearest e sn < uint (pe_rx_deliv e) + pe_window_size e"
    and "nearest e sn mod 2 ^ pe_sn_size e = sn"
proof -
  let ?d = "uint (pe_rx_deliv e)" and ?m = "2 ^ pe_sn_size e :: int"
  have m: "2 * pe_window_size e = ?m" "0 < ?m" using pdcp_cfgD [OF assms(1)] by auto
  define q s where "q = ?d div ?m" and "s = ?d mod ?m"
  have d: "?d = ?m * q + s" "0 \<le> s" "s < ?m" by (simp_all add: q_def s_def)
  have "nearest e sn = ?m * q + (if sn < s - pe_window_size e then ?m else if sn \<ge> s + pe_window_size e then - ?m else 0) + sn"
    by (simp add: nearest_def Let_def distrib_left q_def s_def)
  with d m assms(2,3) show "?d - pe_window_size e \<le> nearest e sn" "nearest e sn < ?d + pe_window_size e"
    by (auto split: if_splits)
  show "nearest e sn mod ?m = sn" using assms(2,3) by (simp add: nearest_def Let_def)
qed

lemma push_bit_or_small:
  assumes "n < 32" "0 \<le> s" "s < 2 ^ n"
  shows "push_bit n (w :: u32) OR word_of_int s = word_of_int (2 ^ n * uint w + s)"
proof -
  have z: "push_bit n w AND word_of_int s = 0"
  proof (rule bit_word_eqI)
    fix k assume "k < LENGTH(32)"
    have "take_bit n s = s" using assms(2,3) by (simp add: take_bit_int_eq_self)
    then have "bit s k \<Longrightarrow> k < n" by (metis bit_take_bit_iff)
    then show "bit (push_bit n w AND word_of_int s) k \<longleftrightarrow> bit (0 :: u32) k"
      by (auto simp: bit_and_iff bit_push_bit_iff bit_word_of_int_iff)
  qed
  then have "push_bit n w OR word_of_int s = push_bit n w + word_of_int s" by (simp add: disjunctive_add_eq_or)
  also have "\<dots> = word_of_int (2 ^ n * uint w + s)" by (simp add: push_bit_eq_mult)
  finally show ?thesis .
qed

lemma recv_count_nearest:
  assumes "pdcp_cfg e" "0 \<le> sn" "sn < 2 ^ pe_sn_size e"
  shows "recv_count e sn = word_of_int (nearest e sn)"
proof -
  note c = pdcp_cfgD [OF assms(1)]
  let ?n = "pe_sn_size e" and ?d = "pe_rx_deliv e"
  have sn: "uint (?d AND word_of_int (pe_sn_max e)) = uint ?d mod 2 ^ ?n"
    unfolding c(3) word_and_sn_max [OF c(2)] by (simp only: unsigned_take_bit_eq) (simp add: take_bit_eq_mod)
  have h: "uint (drop_bit ?n ?d) = uint ?d div 2 ^ ?n"
    unfolding unsigned_drop_bit_eq by (subst take_bit_int_eq_self) (use uint_lt2p [of ?d] in \<open>simp_all add: drop_bit_eq_div\<close>)
  have p: "push_bit ?n w OR word_of_int sn = word_of_int (2 ^ ?n * x + sn)" if "w = word_of_int x" for w :: u32 and x
  proof -
    have "push_bit ?n w OR word_of_int sn = word_of_int (2 ^ ?n * uint w + sn)"
      by (rule push_bit_or_small [OF c(2) assms(2,3)])
    also have "\<dots> = (word_of_int (2 ^ ?n) :: u32) * word_of_int (uint w) + word_of_int sn" by simp
    also have "\<dots> = word_of_int (2 ^ ?n * x + sn)" using that by simp
    finally show ?thesis .
  qed
  have w: "drop_bit ?n ?d = word_of_int (uint ?d div 2 ^ ?n)" using h by (metis word_of_int_uint)
  have w': "drop_bit ?n ?d + 1 = word_of_int (uint ?d div 2 ^ ?n + 1)"
    "drop_bit ?n ?d - 1 = word_of_int (uint ?d div 2 ^ ?n + - 1)" by (simp_all add: w)
  show ?thesis
    unfolding recv_count_def Let_def sn nearest_def
    using p [OF w] p [OF w'(1)] p [OF w'(2)] by auto
qed

lemma nearest_unique:
  assumes "pdcp_cfg e" "uint (pe_rx_deliv e) - pe_window_size e \<le> c" "c < uint (pe_rx_deliv e) + pe_window_size e"
  shows "nearest e (c mod 2 ^ pe_sn_size e) = c"
proof -
  let ?m = "2 ^ pe_sn_size e :: int" and ?x = "nearest e (c mod 2 ^ pe_sn_size e)"
  have r: "uint (pe_rx_deliv e) - pe_window_size e \<le> ?x" "?x < uint (pe_rx_deliv e) + pe_window_size e"
    "?x mod ?m = c mod ?m"
    using nearest_range [OF assms(1), of "c mod ?m"] by simp_all
  have "\<bar>?x - c\<bar> < ?m" using r assms(2,3) pdcp_cfgD(4) [OF assms(1)] by linarith
  moreover have "?m dvd ?x - c" using r(3) by (simp add: mod_eq_dvd_iff)
  ultimately have "?x - c = 0" using zdvd_not_zless [of "\<bar>?x - c\<bar>" ?m] by auto
  then show ?thesis by simp
qed

lemma recv_count_window:
  assumes "pdcp_cfg e" "uint (pe_rx_deliv e) - pe_window_size e \<le> uint c" "uint c < uint (pe_rx_deliv e) + pe_window_size e"
  shows "recv_count e (uint c mod 2 ^ pe_sn_size e) = c"
  using recv_count_nearest [OF assms(1), of "uint c mod 2 ^ pe_sn_size e"] nearest_unique [OF assms] by simp

section \<open>The reordering buffer\<close>

text \<open>
  The buffer is strictly ordered by COUNT, its entries are after the next COUNT to deliver and before
  the next expected one, and a running timer waits for a COUNT in between.
\<close>

definition by_count :: "nr_pdcp_sdu_t list \<Rightarrow> bool" where
  "by_count l \<longleftrightarrow> sorted_wrt (\<lambda>a b. ps_count a < ps_count b) l"

definition pdcp_rx_inv :: "nr_pdcp_entity_t \<Rightarrow> bool" where
  "pdcp_rx_inv e \<longleftrightarrow>
     by_count (pe_rx_list e) \<and> pe_rx_deliv e \<le> pe_rx_next e \<and>
     (\<forall>s \<in> set (pe_rx_list e). pe_rx_deliv e < ps_count s \<and> ps_count s < pe_rx_next e) \<and>
     (pe_t_reordering_start e \<noteq> 0 \<longrightarrow> pe_rx_deliv e < pe_rx_reord e \<and> pe_rx_reord e \<le> pe_rx_next e)"

text \<open>What has been delivered: in strictly increasing order of COUNT, and below the next COUNT to deliver.\<close>

definition pdcp_order_inv :: "nr_pdcp_entity_t \<Rightarrow> bool" where
  "pdcp_order_inv e \<longleftrightarrow> by_count (pe_upcalls e) \<and> (\<forall>s \<in> set (pe_upcalls e). ps_count s < pe_rx_deliv e)"

lemma in_list_iff: "nr_pdcp_sdu_in_list l c \<longleftrightarrow> c \<in> ps_count ` set l"
  by (induction l) auto

lemma set_list_add [simp]: "set (nr_pdcp_sdu_list_add l s) = insert s (set l)"
  by (simp add: nr_pdcp_sdu_list_add_def)

lemma by_count_add:
  assumes "by_count l" "ps_count s \<notin> ps_count ` set l"
  shows "by_count (nr_pdcp_sdu_list_add l s)"
  unfolding by_count_def nr_pdcp_sdu_list_add_def
  by (rule sorted_wrt_insert_before) (use assms in \<open>auto simp: by_count_def transp_on_def neq_iff intro: less_trans\<close>)

lemma by_count_append:
  "by_count (xs @ ys) \<longleftrightarrow> by_count xs \<and> by_count ys \<and> (\<forall>x \<in> set xs. \<forall>y \<in> set ys. ps_count x < ps_count y)"
  by (auto simp: by_count_def sorted_wrt_append)

lemma by_count_Cons: "by_count (x # l) \<longleftrightarrow> (\<forall>y \<in> set l. ps_count x < ps_count y) \<and> by_count l"
  by (simp add: by_count_def)

section \<open>The delivery loops\<close>

text \<open>The effect of delivering the SDUs of a list one after the other.\<close>

definition delivered :: "nr_pdcp_sdu_t list \<Rightarrow> nr_pdcp_sdu_t list \<Rightarrow> nr_pdcp_entity_t \<Rightarrow> nr_pdcp_entity_t" where
  "delivered ss rest e =
     e\<lparr>pe_rx_list := rest, pe_rx_size := pe_rx_size e - (\<Sum>s\<leftarrow>ss. ps_size s),
       pe_stats := fold (\<lambda>s. stat_txsdu (ps_size s)) ss (pe_stats e), pe_upcalls := pe_upcalls e @ ss\<rparr>"

lemma delivered_Nil: "pe_rx_list e = l \<Longrightarrow> delivered [] l e = e"
  by (auto simp: delivered_def)

lemma delivered_head: "delivered ss rest (deliver_head s l e) = delivered (s # ss) rest e"
  by (simp add: delivered_def deliver_head_def diff_diff_eq)

lemma delivered_twice: "delivered ss' rest' (delivered ss rest e) = delivered (ss @ ss') rest' e"
  by (simp add: delivered_def diff_diff_eq)

lemma delivered_sel [simp]:
  "pe_rx_list (delivered ss rest e) = rest" "pe_upcalls (delivered ss rest e) = pe_upcalls e @ ss"
  "pe_rx_deliv (delivered ss rest e) = pe_rx_deliv e" "pe_rx_next (delivered ss rest e) = pe_rx_next e"
  "pe_rx_reord (delivered ss rest e) = pe_rx_reord e" "pe_t_current (delivered ss rest e) = pe_t_current e"
  "pe_t_reordering_start (delivered ss rest e) = pe_t_reordering_start e"
  by (simp_all add: delivered_def)

lemma word_succ:
  assumes "(c :: u32) < n"
  shows "c < c + 1" and "c + 1 \<le> n" and "x < c + 1 \<longleftrightarrow> x \<le> c"
proof -
  have "uint c + 1 \<le> uint n" using assms by (simp add: word_less_def)
  moreover have "uint n < 2 ^ 32" using uint_lt2p [of n] by simp
  ultimately have u: "uint (c + 1) = uint c + 1" by (simp add: uint_word_ariths)
  show "c < c + 1" "c + 1 \<le> n" "x < c + 1 \<longleftrightarrow> x \<le> c"
    using u \<open>uint c + 1 \<le> uint n\<close> by (auto simp: word_less_def word_le_def)
qed

lemma deliver_consecutive_spec:
  assumes "pe_rx_list e = l" "by_count l" "\<forall>s \<in> set l. c \<le> ps_count s \<and> ps_count s < n" "c \<le> n"
  shows "\<exists>ss rest c'. l = ss @ rest \<and> deliver_consecutive l c e = (c', delivered ss rest e) \<and> c \<le> c' \<and> c' \<le> n \<and>
     ps_count ` set ss = {c..<c'} \<and> (\<forall>s \<in> set rest. c' < ps_count s)"
  using assms
proof (induction l arbitrary: c e)
  case Nil
  then show ?case by (intro exI [of _ "[]"]) (auto simp: delivered_Nil)
next
  case (Cons s l)
  show ?case
  proof (cases "c = ps_count s")
    case True
    then have cn: "c < n" using Cons.prems by simp
    have 1: "pe_rx_list (deliver_head s l e) = l" by (simp add: deliver_head_def)
    have 2: "by_count l" using Cons.prems(2) by (simp add: by_count_Cons)
    have 3: "\<forall>t \<in> set l. c + 1 \<le> ps_count t \<and> ps_count t < n"
      using Cons.prems True word_succ(2) by (auto simp: by_count_Cons)
    from Cons.IH [OF 1 2 3 word_succ(2) [OF cn]] obtain ss rest c' where *: "l = ss @ rest"
      "deliver_consecutive l (c + 1) (deliver_head s l e) = (c', delivered ss rest (deliver_head s l e))"
      "c + 1 \<le> c'" "c' \<le> n" "ps_count ` set ss = {c + 1..<c'}" "\<forall>s \<in> set rest. c' < ps_count s"
      by blast
    have "c < c'" using word_succ(1) [OF cn] *(3) by simp
    have k: "c + 1 \<le> x \<longleftrightarrow> c < x" for x using word_succ(3) [OF cn] by (metis not_le)
    have "insert c {c + 1..<c'} = {c..<c'}"
      unfolding set_eq_iff insert_iff atLeastLessThan_iff k using \<open>c < c'\<close> by (metis order.order_iff_strict)
    with * True \<open>c < c'\<close> show ?thesis
      by (intro exI [of _ "s # ss"] exI [of _ rest] exI [of _ c']) (simp add: delivered_head)
  next
    case False
    with Cons.prems have "c < ps_count s" by auto
    moreover have "\<forall>t \<in> set l. c < ps_count t" using Cons.prems \<open>c < ps_count s\<close> by (auto simp: by_count_Cons)
    ultimately show ?thesis using False Cons.prems
      by (intro exI [of _ "[]"] exI [of _ "s # l"] exI [of _ c]) (simp add: delivered_Nil)
  qed
qed

lemma deliver_below_spec:
  assumes "pe_rx_list e = l" "by_count l"
  shows "\<exists>ss rest. l = ss @ rest \<and> deliver_below l r e = delivered ss rest e \<and>
     (\<forall>s \<in> set ss. ps_count s < r) \<and> (\<forall>s \<in> set rest. r \<le> ps_count s)"
  using assms
proof (induction l arbitrary: e)
  case Nil
  then show ?case by (intro exI [of _ "[]"]) (auto simp: delivered_Nil)
next
  case (Cons s l)
  show ?case
  proof (cases "ps_count s < r")
    case True
    have 1: "pe_rx_list (deliver_head s l e) = l" "by_count l"
      using Cons.prems(2) by (simp_all add: deliver_head_def by_count_Cons)
    from Cons.IH [OF 1] obtain ss rest where "l = ss @ rest"
      "deliver_below l r (deliver_head s l e) = delivered ss rest (deliver_head s l e)"
      "\<forall>s \<in> set ss. ps_count s < r" "\<forall>s \<in> set rest. r \<le> ps_count s"
      by blast
    with True show ?thesis by (intro exI [of _ "s # ss"] exI [of _ rest]) (simp add: delivered_head)
  next
    case False
    with Cons.prems have "\<forall>t \<in> set (s # l). r \<le> ps_count t" by (auto simp: by_count_Cons)
    with False Cons.prems show ?thesis by (intro exI [of _ "[]"] exI [of _ "s # l"]) (simp add: delivered_Nil)
  qed
qed

lemma deliver_all_loop: "pe_rx_list e = l \<Longrightarrow> deliver_all_sdus_loop l e = delivered l [] e"
proof (induction l arbitrary: e)
  case (Cons s l)
  then have "deliver_all_sdus_loop l (deliver_head s l e) = delivered l [] (deliver_head s l e)"
    by (intro Cons.IH) (simp add: deliver_head_def)
  then show ?case by (simp add: delivered_head)
qed (simp add: delivered_Nil)

lemma deliver_all_spec: "deliver_all_sdus e = delivered (pe_rx_list e) [] e"
  by (simp add: deliver_all_sdus_def deliver_all_loop)

section \<open>Preservation\<close>

text \<open>
  The two ways to end a reception or a timer expiry: the timer is stopped when the gap is closed, and
  started when there is a gap.
\<close>

lemma restart_timer_inv:
  assumes "by_count (pe_rx_list e)" "pe_rx_deliv e \<le> pe_rx_next e"
    and "\<forall>s \<in> set (pe_rx_list e). pe_rx_deliv e < ps_count s \<and> ps_count s < pe_rx_next e"
    and "pe_t_reordering_start e \<noteq> 0 \<Longrightarrow> pe_rx_deliv e < pe_rx_reord e \<and> pe_rx_reord e \<le> pe_rx_next e"
  shows "pdcp_rx_inv (if pe_t_reordering_start e = 0 \<and> pe_rx_deliv e < pe_rx_next e
         then e\<lparr>pe_rx_reord := pe_rx_next e, pe_t_reordering_start := pe_t_current e\<rparr> else e)"
  using assms by (auto simp: pdcp_rx_inv_def)

text \<open>The state after an SDU has been put into the buffer and what can be delivered has been delivered.\<close>

definition recv_insert :: "nr_pdcp_entity_t \<Rightarrow> nr_pdcp_sdu_t \<Rightarrow> int \<Rightarrow> nr_pdcp_entity_t" where
  "recv_insert e sdu bytes =
     (let e1 = e\<lparr>pe_rx_list := nr_pdcp_sdu_list_add (pe_rx_list e) sdu, pe_rx_size := pe_rx_size e + bytes\<rparr>
      in if ps_count sdu \<ge> pe_rx_next e1 then e1\<lparr>pe_rx_next := ps_count sdu + 1\<rparr> else e1)"

definition recv_deliver :: "nr_pdcp_entity_t \<Rightarrow> nr_pdcp_sdu_t \<Rightarrow> int \<Rightarrow> nr_pdcp_entity_t" where
  "recv_deliver e sdu bytes =
     (let e2 = recv_insert e sdu bytes
      in if ps_count sdu = pe_rx_deliv e2
         then case deliver_consecutive (pe_rx_list e2) (pe_rx_deliv e2) e2 of (c, e') \<Rightarrow> e'\<lparr>pe_rx_deliv := c\<rparr>
         else e2)"

lemma recv_store_deliver:
  "recv_store e sdu bytes =
     (let e3 = recv_deliver e sdu bytes;
          e4 = (if pe_t_reordering_start e3 \<noteq> 0 \<and> pe_rx_deliv e3 \<ge> pe_rx_reord e3
                then e3\<lparr>pe_t_reordering_start := 0\<rparr> else e3)
      in if pe_t_reordering_start e4 = 0 \<and> pe_rx_deliv e4 < pe_rx_next e4
         then e4\<lparr>pe_rx_reord := pe_rx_next e4, pe_t_reordering_start := pe_t_current e4\<rparr> else e4)"
  by (simp only: recv_store_def recv_deliver_def recv_insert_def Let_def)

lemma recv_insert_sel:
  "pe_rx_list (recv_insert e sdu bytes) = nr_pdcp_sdu_list_add (pe_rx_list e) sdu"
  "pe_rx_size (recv_insert e sdu bytes) = pe_rx_size e + bytes"
  "pe_rx_next (recv_insert e sdu bytes) = (if ps_count sdu \<ge> pe_rx_next e then ps_count sdu + 1 else pe_rx_next e)"
  "pe_rx_deliv (recv_insert e sdu bytes) = pe_rx_deliv e"
  "pe_rx_reord (recv_insert e sdu bytes) = pe_rx_reord e"
  "pe_t_reordering_start (recv_insert e sdu bytes) = pe_t_reordering_start e"
  "pe_t_current (recv_insert e sdu bytes) = pe_t_current e"
  "pe_upcalls (recv_insert e sdu bytes) = pe_upcalls e"
  by (simp_all add: recv_insert_def Let_def)

lemma next_count_max:
  assumes "(c :: u32) < - 1"
  shows "(if c \<ge> n then c + 1 else n) = max n (c + 1)"
proof (cases "n \<le> c")
  case True
  then have "n \<le> c + 1" using word_succ(1) [OF assms] by (metis order.trans order.strict_implies_order)
  with True show ?thesis by (simp add: max_absorb2)
next
  case False
  then have "c + 1 \<le> n" using word_succ(2) [of c n] by simp
  with False show ?thesis by (simp add: max_absorb1)
qed

text \<open>
  What a reception does to the buffer: the SDUs \<open>ss\<close> are delivered, the others stay, and the next COUNT
  to deliver moves over exactly the delivered ones.
\<close>

lemma recv_deliver_spec:
  assumes inv: "pdcp_rx_inv e" and new: "pe_rx_deliv e \<le> ps_count sdu" "ps_count sdu \<notin> ps_count ` set (pe_rx_list e)"
    and top: "ps_count sdu < - 1"
  obtains ss rest where
    "nr_pdcp_sdu_list_add (pe_rx_list e) sdu = ss @ rest"
    "pe_rx_list (recv_deliver e sdu bytes) = rest"
    "pe_upcalls (recv_deliver e sdu bytes) = pe_upcalls e @ ss"
    "pe_rx_next (recv_deliver e sdu bytes) = max (pe_rx_next e) (ps_count sdu + 1)"
    "pe_rx_deliv e \<le> pe_rx_deliv (recv_deliver e sdu bytes)"
    "pe_rx_deliv (recv_deliver e sdu bytes) \<le> pe_rx_next (recv_deliver e sdu bytes)"
    "ps_count ` set ss = {pe_rx_deliv e..<pe_rx_deliv (recv_deliver e sdu bytes)}"
    "\<forall>s \<in> set rest. pe_rx_deliv (recv_deliver e sdu bytes) < ps_count s \<and> ps_count s < pe_rx_next (recv_deliver e sdu bytes)"
    "pe_rx_reord (recv_deliver e sdu bytes) = pe_rx_reord e"
    "pe_t_reordering_start (recv_deliver e sdu bytes) = pe_t_reordering_start e"
    "pe_t_current (recv_deliver e sdu bytes) = pe_t_current e"
    "pe_rx_size (recv_deliver e sdu bytes) = pe_rx_size e + bytes - (\<Sum>s\<leftarrow>ss. ps_size s)"
proof -
  let ?c = "ps_count sdu" and ?l = "nr_pdcp_sdu_list_add (pe_rx_list e) sdu" and ?e2 = "recv_insert e sdu bytes"
  let ?n = "max (pe_rx_next e) (?c + 1)"
  note sel = recv_insert_sel [of e sdu bytes, unfolded next_count_max [OF top]]
  have cn: "?c < ?n" using word_succ(1) [OF top] by (simp add: less_max_iff_disj)
  have l: "by_count ?l" using by_count_add inv new(2) by (auto simp: pdcp_rx_inv_def)
  have r: "\<forall>s \<in> set ?l. pe_rx_deliv e \<le> ps_count s \<and> ps_count s < ?n"
    using inv new(1) cn by (simp add: pdcp_rx_inv_def less_max_iff_disj order.strict_implies_order)
  have dn: "pe_rx_deliv e \<le> ?n" using new(1) cn by (metis order.trans order.strict_implies_order)
  show thesis
  proof (cases "?c = pe_rx_deliv e")
    case True
    from deliver_consecutive_spec [OF sel(1) l r dn] obtain ss rest c' where *: "?l = ss @ rest"
      "deliver_consecutive ?l (pe_rx_deliv e) ?e2 = (c', delivered ss rest ?e2)"
      "pe_rx_deliv e \<le> c'" "c' \<le> ?n" "ps_count ` set ss = {pe_rx_deliv e..<c'}" "\<forall>s \<in> set rest. c' < ps_count s"
      by blast
    have d: "recv_deliver e sdu bytes = (delivered ss rest ?e2)\<lparr>pe_rx_deliv := c'\<rparr>"
      using True *(2) by (simp add: recv_deliver_def Let_def sel)
    have "\<forall>s \<in> set rest. ps_count s < ?n" using r *(1) by simp
    moreover have "pe_rx_size (delivered ss rest ?e2) = pe_rx_size e + bytes - (\<Sum>s\<leftarrow>ss. ps_size s)"
      by (simp add: delivered_def sel)
    ultimately show thesis using * by (intro that [of ss rest]) (simp_all add: d sel)
  next
    case False
    with inv new(1) have "\<forall>s \<in> set ?l. pe_rx_deliv e < ps_count s" by (simp add: pdcp_rx_inv_def order.not_eq_order_implies_strict)
    with False r dn show thesis
      by (intro that [of "[]" ?l]) (simp_all add: recv_deliver_def Let_def sel)
  qed
qed

lemma order_inv_extend:
  assumes "pdcp_order_inv e" "pe_upcalls e' = pe_upcalls e @ ss" "by_count ss"
    and "ps_count ` set ss \<subseteq> {pe_rx_deliv e..<pe_rx_deliv e'}" "pe_rx_deliv e \<le> pe_rx_deliv e'"
  shows "pdcp_order_inv e'"
proof -
  have n: "pe_rx_deliv e \<le> ps_count s \<and> ps_count s < pe_rx_deliv e'" if "s \<in> set ss" for s
    using assms(4) that by (metis atLeastLessThan_iff image_eqI subsetD)
  have o: "ps_count s < pe_rx_deliv e" if "s \<in> set (pe_upcalls e)" for s
    using assms(1) that by (simp add: pdcp_order_inv_def)
  have "ps_count s < ps_count t" if "s \<in> set (pe_upcalls e)" "t \<in> set ss" for s t
    using o [OF that(1)] n [OF that(2)] by (metis less_le_trans)
  moreover have "ps_count s < pe_rx_deliv e'" if "s \<in> set (pe_upcalls e)" for s
    using o [OF that] assms(5) by (metis less_le_trans)
  ultimately show ?thesis
    using assms(1-3) n by (auto simp: pdcp_order_inv_def by_count_append)
qed

lemma recv_store_inv:
  assumes inv: "pdcp_rx_inv e" "pdcp_order_inv e"
    and new: "pe_rx_deliv e \<le> ps_count sdu" "ps_count sdu \<notin> ps_count ` set (pe_rx_list e)" "ps_count sdu < - 1"
  shows "pdcp_rx_inv (recv_store e sdu bytes)" and "pdcp_order_inv (recv_store e sdu bytes)"
proof -
  let ?e3 = "recv_deliver e sdu bytes"
  obtain ss rest where s: "nr_pdcp_sdu_list_add (pe_rx_list e) sdu = ss @ rest"
    "pe_rx_list ?e3 = rest" "pe_upcalls ?e3 = pe_upcalls e @ ss" "pe_rx_next ?e3 = max (pe_rx_next e) (ps_count sdu + 1)"
    "pe_rx_deliv e \<le> pe_rx_deliv ?e3" "pe_rx_deliv ?e3 \<le> pe_rx_next ?e3"
    "ps_count ` set ss = {pe_rx_deliv e..<pe_rx_deliv ?e3}"
    "\<forall>s \<in> set rest. pe_rx_deliv ?e3 < ps_count s \<and> ps_count s < pe_rx_next ?e3"
    "pe_rx_reord ?e3 = pe_rx_reord e" "pe_t_reordering_start ?e3 = pe_t_reordering_start e"
    by (rule recv_deliver_spec [OF inv(1) new])
  have "by_count (ss @ rest)" using by_count_add [OF _ new(2)] inv(1) s(1) by (simp add: pdcp_rx_inv_def)
  then have b: "by_count ss" "by_count rest" by (simp_all add: by_count_append)
  define e4 where "e4 = (if pe_t_reordering_start ?e3 \<noteq> 0 \<and> pe_rx_deliv ?e3 \<ge> pe_rx_reord ?e3
      then ?e3\<lparr>pe_t_reordering_start := 0\<rparr> else ?e3)"
  have f: "pe_rx_list e4 = rest" "pe_upcalls e4 = pe_upcalls ?e3" "pe_rx_next e4 = pe_rx_next ?e3"
    "pe_rx_deliv e4 = pe_rx_deliv ?e3" "pe_rx_reord e4 = pe_rx_reord e" using s by (simp_all add: e4_def)
  have t: "pe_rx_deliv e4 < pe_rx_reord e4 \<and> pe_rx_reord e4 \<le> pe_rx_next e4" if "pe_t_reordering_start e4 \<noteq> 0"
  proof -
    have "pe_t_reordering_start e \<noteq> 0" "pe_rx_deliv ?e3 < pe_rx_reord e" using that s(9,10) by (auto simp: e4_def split: if_splits)
    moreover from this inv(1) have "pe_rx_reord e \<le> pe_rx_next e" by (simp add: pdcp_rx_inv_def)
    ultimately show ?thesis using f s(4) by (simp add: le_max_iff_disj)
  qed
  have st: "recv_store e sdu bytes = (if pe_t_reordering_start e4 = 0 \<and> pe_rx_deliv e4 < pe_rx_next e4
         then e4\<lparr>pe_rx_reord := pe_rx_next e4, pe_t_reordering_start := pe_t_current e4\<rparr> else e4)"
    by (simp add: recv_store_deliver e4_def Let_def)
  show "pdcp_rx_inv (recv_store e sdu bytes)"
    unfolding st by (rule restart_timer_inv) (use f s b t in simp_all)
  have "pdcp_order_inv (?e3)"
    by (rule order_inv_extend [OF inv(2) s(3) b(1) equalityD1 [OF s(7)] s(5)])
  then show "pdcp_order_inv (recv_store e sdu bytes)"
    unfolding st using f s(3) by (simp add: pdcp_order_inv_def)
qed

section \<open>The reordering timer\<close>

definition t_reordering_expired :: "nr_pdcp_entity_t \<Rightarrow> bool" where
  "t_reordering_expired e \<longleftrightarrow>
     pe_t_reordering e \<noteq> - 1 \<and> pe_t_reordering_start e \<noteq> 0 \<and>
     pe_t_reordering_start e + word_of_int (pe_t_reordering e) < pe_t_current e"

text \<open>
  At expiry all SDUs below the COUNT that the timer waits for are delivered, then the consecutive ones
  from there on.
\<close>

lemma check_t_reordering_spec:
  assumes inv: "pdcp_rx_inv e" and ex: "t_reordering_expired e"
  obtains ss rest where "pe_rx_list e = ss @ rest"
    "pe_rx_list (check_t_reordering e) = rest" "pe_upcalls (check_t_reordering e) = pe_upcalls e @ ss"
    "pe_rx_next (check_t_reordering e) = pe_rx_next e"
    "pe_rx_reord e \<le> pe_rx_deliv (check_t_reordering e)" "pe_rx_deliv (check_t_reordering e) \<le> pe_rx_next e"
    "\<forall>s \<in> set ss. pe_rx_deliv e < ps_count s \<and> ps_count s < pe_rx_deliv (check_t_reordering e)"
    "{pe_rx_reord e..<pe_rx_deliv (check_t_reordering e)} \<subseteq> ps_count ` set ss"
    "\<forall>s \<in> set rest. pe_rx_deliv (check_t_reordering e) < ps_count s"
    "pdcp_rx_inv (check_t_reordering e)"
proof -
  let ?e1 = "e\<lparr>pe_t_reordering_start := 0\<rparr>" and ?r = "pe_rx_reord e" and ?n = "pe_rx_next e"
  have i: "by_count (pe_rx_list e)" "\<forall>s \<in> set (pe_rx_list e). pe_rx_deliv e < ps_count s \<and> ps_count s < ?n" "pe_rx_deliv e < ?r" "?r \<le> ?n"
    using inv ex by (simp_all add: pdcp_rx_inv_def t_reordering_expired_def)
  obtain ss1 rest1 where 1: "pe_rx_list e = ss1 @ rest1" "deliver_below (pe_rx_list e) ?r ?e1 = delivered ss1 rest1 ?e1"
     "\<forall>s \<in> set ss1. ps_count s < ?r" "\<forall>s \<in> set rest1. ?r \<le> ps_count s"
    using deliver_below_spec [of ?e1 "pe_rx_list e" ?r] i(1) by auto
  let ?e2 = "delivered ss1 rest1 ?e1"
  have b: "by_count ss1" "by_count rest1" using i(1) unfolding 1(1) by_count_append by simp_all
  have 2: "\<forall>s \<in> set rest1. ?r \<le> ps_count s \<and> ps_count s < ?n" using 1(1,4) i(2) by simp
  have 0: "pe_rx_list ?e2 = rest1" by simp
  from deliver_consecutive_spec [OF 0 b(2) 2 i(4)] obtain ss2 rest c' where 3: "rest1 = ss2 @ rest"
    "deliver_consecutive rest1 ?r ?e2 = (c', delivered ss2 rest ?e2)" "?r \<le> c'" "c' \<le> ?n"
    "ps_count ` set ss2 = {?r..<c'}" "\<forall>s \<in> set rest. c' < ps_count s" by blast
  define e4 where "e4 = (delivered (ss1 @ ss2) rest ?e1)\<lparr>pe_rx_deliv := c'\<rparr>"
  have ne: "pe_t_reordering e \<noteq> - 1" "pe_t_reordering_start e \<noteq> 0"
    "\<not> pe_t_current e \<le> pe_t_reordering_start e + word_of_int (pe_t_reordering e)"
    using ex by (simp_all add: t_reordering_expired_def not_le)
  have run: "check_t_reordering e = (if pe_t_reordering_start e4 = 0 \<and> pe_rx_deliv e4 < pe_rx_next e4
         then e4\<lparr>pe_rx_reord := pe_rx_next e4, pe_t_reordering_start := pe_t_current e4\<rparr> else e4)"
    using ne 1(2) 3(2) by (simp add: check_t_reordering_def Let_def e4_def delivered_twice)
  have f: "pe_rx_list (check_t_reordering e) = rest" "pe_upcalls (check_t_reordering e) = pe_upcalls e @ ss1 @ ss2"
    "pe_rx_next (check_t_reordering e) = ?n" "pe_rx_deliv (check_t_reordering e) = c'"
    unfolding run by (simp_all add: e4_def)
  have l: "pe_rx_list e = (ss1 @ ss2) @ rest" using 1(1) 3(1) by simp
  have d: "\<forall>s \<in> set (ss1 @ ss2). pe_rx_deliv e < ps_count s \<and> ps_count s < c'"
  proof
    fix s assume s: "s \<in> set (ss1 @ ss2)"
    then have "ps_count s < c'"
    proof (cases "s \<in> set ss1")
      case True
      then show ?thesis using 1(3) 3(3) by (metis less_le_trans)
    next
      case False
      then have "ps_count s \<in> {?r..<c'}" using s unfolding 3(5) [symmetric] by simp
      then show ?thesis by simp
    qed
    moreover have "s \<in> set (pe_rx_list e)" using s l by auto
    ultimately show "pe_rx_deliv e < ps_count s \<and> ps_count s < c'" using i(2) by simp
  qed
  have "pdcp_rx_inv (check_t_reordering e)"
    unfolding run
    by (rule restart_timer_inv) (use i(2) l 3(4,6) b(2) 3(1) in \<open>simp_all add: e4_def by_count_append\<close>)
  moreover have "{?r..<c'} \<subseteq> ps_count ` set (ss1 @ ss2)" unfolding 3(5) [symmetric] by auto
  ultimately show thesis using d 3(3,4,6) l by (intro that [of "ss1 @ ss2" rest]) (simp_all add: f)
qed

lemma check_t_reordering_idle: "\<not> t_reordering_expired e \<Longrightarrow> check_t_reordering e = e"
  by (auto simp: check_t_reordering_def t_reordering_expired_def not_less)

lemma check_t_reordering_inv:
  assumes "pdcp_rx_inv e" "pdcp_order_inv e"
  shows "pdcp_rx_inv (check_t_reordering e)" and "pdcp_order_inv (check_t_reordering e)"
proof -
  have "pdcp_rx_inv (check_t_reordering e) \<and> pdcp_order_inv (check_t_reordering e)"
  proof (cases "t_reordering_expired e")
    case True
    let ?e = "check_t_reordering e"
    obtain ss rest where s: "pe_rx_list e = ss @ rest" "pe_upcalls ?e = pe_upcalls e @ ss"
      "pe_rx_reord e \<le> pe_rx_deliv ?e" "\<forall>s \<in> set ss. pe_rx_deliv e < ps_count s \<and> ps_count s < pe_rx_deliv ?e" "pdcp_rx_inv ?e"
      by (rule check_t_reordering_spec [OF assms(1) True])
    have "by_count (ss @ rest)" using assms(1) s(1) by (simp add: pdcp_rx_inv_def)
    then have b: "by_count ss" by (simp add: by_count_append)
    have "pe_rx_deliv e < pe_rx_reord e" using assms(1) True by (simp add: pdcp_rx_inv_def t_reordering_expired_def)
    then have le: "pe_rx_deliv e \<le> pe_rx_deliv ?e" using s(3) by (metis less_le_trans order.strict_implies_order)
    have "ps_count ` set ss \<subseteq> {pe_rx_deliv e..<pe_rx_deliv ?e}" using s(4) by (auto intro: order.strict_implies_order)
    from order_inv_extend [OF assms(2) s(2) b this le] s(5) show ?thesis by simp
  qed (use assms in \<open>simp add: check_t_reordering_idle\<close>)
  then show "pdcp_rx_inv (check_t_reordering e)" "pdcp_order_inv (check_t_reordering e)" by simp_all
qed

lemma set_time_inv:
  assumes "pdcp_rx_inv e" "pdcp_order_inv e"
  shows "pdcp_rx_inv (nr_pdcp_entity_set_time e now)" and "pdcp_order_inv (nr_pdcp_entity_set_time e now)"
  using check_t_reordering_inv [of "e\<lparr>pe_t_current := now\<rparr>"] assms
  by (simp_all add: nr_pdcp_entity_set_time_def pdcp_rx_inv_def pdcp_order_inv_def)

end
