(* ===== verification/Nr_Pdcp_Sec.thy ===== *)
theory Nr_Pdcp_Sec
  imports Nr_Pdcp
begin

text \<open>
  The security settings of the PDCP entity: the flags, the function pointers and the contexts always
  fit the algorithms and keys stored in the entity, no context is used or freed after it has been
  freed, and two entities with the same keys are peers.
\<close>

section \<open>Invariant\<close>

definition ciphering_ok :: "nr_pdcp_entity_t \<Rightarrow> bool" where
  "ciphering_ok e \<longleftrightarrow>
     (let alg = ciphering_algorithm (pe_keys e); key = ciphering_key (pe_keys e)
      in (alg = 0 \<and> \<not> pe_has_ciphering e \<and> pe_free_security e = None) \<or>
         (alg = 1 \<and> pe_has_ciphering e \<and> pe_cipher e = Some 1 \<and> pe_free_security e = Some 1 \<and>
            pe_security_context e = Own_key key) \<or>
         (alg = 2 \<and> pe_has_ciphering e \<and> pe_cipher e = Some 2 \<and> pe_free_security e = Some 2 \<and>
            pe_security_context e = Key_in_entity))"

definition integrity_ok :: "nr_pdcp_entity_t \<Rightarrow> bool" where
  "integrity_ok e \<longleftrightarrow>
     (let alg = integrity_algorithm (pe_keys e); key = integrity_key (pe_keys e)
      in (alg = 0 \<and> \<not> pe_has_integrity e \<and> pe_free_integrity e = None) \<or>
         ((alg = 1 \<or> alg = 2) \<and> pe_has_integrity e \<and> pe_integrity e = Some alg \<and> pe_free_integrity e = Some alg \<and>
            pe_integrity_context e = Own_key key))"

definition pdcp_sec_ok :: "nr_pdcp_entity_t \<Rightarrow> bool" where
  "pdcp_sec_ok e \<longleftrightarrow> ciphering_ok e \<and> integrity_ok e"

text \<open>The keys after a change: a component with the algorithm -1 is kept.\<close>

definition merge_keys :: "nr_pdcp_entity_security_keys_and_algos_t \<Rightarrow> nr_pdcp_entity_security_keys_and_algos_t \<Rightarrow>
   nr_pdcp_entity_security_keys_and_algos_t" where
  "merge_keys k p =
     \<lparr>integrity_algorithm = if integrity_algorithm p = - 1 then integrity_algorithm k else integrity_algorithm p,
      ciphering_algorithm = if ciphering_algorithm p = - 1 then ciphering_algorithm k else ciphering_algorithm p,
      integrity_key = if integrity_algorithm p = - 1 then integrity_key k else integrity_key p,
      ciphering_key = if ciphering_algorithm p = - 1 then ciphering_key k else ciphering_key p\<rparr>"

definition known_algorithm :: "int \<Rightarrow> bool" where
  "known_algorithm a \<longleftrightarrow> a \<in> {- 1, 0, 1, 2}"

text \<open>Everything of an entity but its security settings.\<close>

definition pdcp_data_view where
  "pdcp_data_view e =
     ((pe_type e, pe_rb_id e, pe_pdusession_id e, pe_has_sdap_rx e, pe_has_sdap_tx e, pe_sn_size e, pe_t_reordering e,
       pe_discard_timer e, pe_sn_max e, pe_window_size e, pe_is_gnb e, pe_suspended e),
      (pe_tx_next e, pe_rx_next e, pe_rx_deliv e, pe_rx_reord e, pe_t_current e, pe_t_reordering_start e,
       pe_rx_list e, pe_rx_size e, pe_stats e, pe_upcalls e))"

definition start_security :: "nr_pdcp_entity_t \<Rightarrow> bool" where
  "start_security e \<longleftrightarrow> pe_free_security e = None \<and> pe_free_integrity e = None \<and>
     \<not> pe_has_ciphering e \<and> \<not> pe_has_integrity e \<and> ciphering_algorithm (pe_keys e) = 0 \<and> integrity_algorithm (pe_keys e) = 0"

lemma start_security_ok: "start_security e \<Longrightarrow> pdcp_sec_ok e"
  by (simp add: start_security_def pdcp_sec_ok_def ciphering_ok_def integrity_ok_def)

lemma merge_keys_eq:
  "(let k1 = (if integrity_algorithm p \<noteq> - 1
                then k\<lparr>integrity_algorithm := integrity_algorithm p, integrity_key := integrity_key p\<rparr> else k)
    in if ciphering_algorithm p \<noteq> - 1
       then k1\<lparr>ciphering_algorithm := ciphering_algorithm p, ciphering_key := ciphering_key p\<rparr> else k1) = merge_keys k p"
  by (cases k) (simp add: merge_keys_def)

lemma set_integrity_ok:
  assumes "integrity_ok e0" "known_algorithm alg" "pe_free_integrity e = pe_free_integrity e0"
    "pe_integrity_context e = pe_integrity_context e0" "pe_integrity e = pe_integrity e0" "pe_has_integrity e = pe_has_integrity e0"
    "integrity_algorithm (pe_keys e) = (if alg = - 1 then integrity_algorithm (pe_keys e0) else alg)"
    "alg = - 1 \<Longrightarrow> integrity_key (pe_keys e) = integrity_key (pe_keys e0)"
  shows "\<exists>e'. set_integrity alg e = Inr e' \<and> integrity_ok e' \<and> pe_keys e' = pe_keys e \<and> pdcp_data_view e' = pdcp_data_view e \<and>
    pe_free_security e' = pe_free_security e \<and> pe_security_context e' = pe_security_context e \<and> pe_cipher e' = pe_cipher e \<and>
    pe_has_ciphering e' = pe_has_ciphering e"
proof -
  obtain ctx where "free_context (pe_free_integrity e) (pe_integrity_context e) = Inr ctx"
    using assms(1,3,4) by (auto simp: integrity_ok_def free_context_def Let_def)
  with assms show ?thesis
    by (auto simp: set_integrity_def known_algorithm_def integrity_ok_def pdcp_data_view_def Let_def)
qed

lemma set_ciphering_ok:
  assumes "ciphering_ok e0" "known_algorithm alg" "pe_free_security e = pe_free_security e0"
    "pe_security_context e = pe_security_context e0" "pe_cipher e = pe_cipher e0" "pe_has_ciphering e = pe_has_ciphering e0"
    "ciphering_algorithm (pe_keys e) = (if alg = - 1 then ciphering_algorithm (pe_keys e0) else alg)"
    "alg = - 1 \<Longrightarrow> ciphering_key (pe_keys e) = ciphering_key (pe_keys e0)"
  shows "\<exists>e'. set_ciphering alg e = Inr e' \<and> ciphering_ok e' \<and> pe_keys e' = pe_keys e \<and> pdcp_data_view e' = pdcp_data_view e \<and>
    pe_free_integrity e' = pe_free_integrity e \<and> pe_integrity_context e' = pe_integrity_context e \<and> pe_integrity e' = pe_integrity e \<and>
    pe_has_integrity e' = pe_has_integrity e"
proof -
  obtain ctx where "free_context (pe_free_security e) (pe_security_context e) = Inr ctx"
    using assms(1,3,4) by (auto simp: ciphering_ok_def free_context_def Let_def)
  with assms show ?thesis
    by (auto simp: set_ciphering_def known_algorithm_def ciphering_ok_def pdcp_data_view_def Let_def)
qed

lemma set_security_ok:
  assumes "pdcp_sec_ok e" "known_algorithm (integrity_algorithm p)" "known_algorithm (ciphering_algorithm p)"
  shows "\<exists>e'. nr_pdcp_entity_set_security e p = Inr e' \<and> pdcp_sec_ok e' \<and>
    pe_keys e' = merge_keys (pe_keys e) p \<and> pdcp_data_view e' = pdcp_data_view e"
proof -
  let ?e1 = "e\<lparr>pe_keys := merge_keys (pe_keys e) p\<rparr>"
  have "\<exists>e'. set_integrity (integrity_algorithm p) ?e1 = Inr e' \<and> integrity_ok e' \<and> pe_keys e' = pe_keys ?e1 \<and>
    pdcp_data_view e' = pdcp_data_view ?e1 \<and> pe_free_security e' = pe_free_security ?e1 \<and>
    pe_security_context e' = pe_security_context ?e1 \<and> pe_cipher e' = pe_cipher ?e1 \<and> pe_has_ciphering e' = pe_has_ciphering ?e1"
    by (rule set_integrity_ok [of e]) (use assms in \<open>simp_all add: pdcp_sec_ok_def merge_keys_def\<close>)
  then obtain e2 where e2: "set_integrity (integrity_algorithm p) ?e1 = Inr e2" "integrity_ok e2"
    "pe_keys e2 = merge_keys (pe_keys e) p" "pdcp_data_view e2 = pdcp_data_view ?e1" "pe_free_security e2 = pe_free_security e"
    "pe_security_context e2 = pe_security_context e" "pe_cipher e2 = pe_cipher e" "pe_has_ciphering e2 = pe_has_ciphering e"
    by auto
  have "\<exists>e'. set_ciphering (ciphering_algorithm p) e2 = Inr e' \<and> ciphering_ok e' \<and> pe_keys e' = pe_keys e2 \<and>
    pdcp_data_view e' = pdcp_data_view e2 \<and> pe_free_integrity e' = pe_free_integrity e2 \<and>
    pe_integrity_context e' = pe_integrity_context e2 \<and> pe_integrity e' = pe_integrity e2 \<and> pe_has_integrity e' = pe_has_integrity e2"
    by (rule set_ciphering_ok [of e]) (use assms e2 in \<open>simp_all add: pdcp_sec_ok_def merge_keys_def\<close>)
  then obtain e3 where e3: "set_ciphering (ciphering_algorithm p) e2 = Inr e3" "ciphering_ok e3" "pe_keys e3 = pe_keys e2"
    "pdcp_data_view e3 = pdcp_data_view e2" "pe_free_integrity e3 = pe_free_integrity e2"
    "pe_integrity_context e3 = pe_integrity_context e2" "pe_integrity e3 = pe_integrity e2" "pe_has_integrity e3 = pe_has_integrity e2"
    by auto
  have "nr_pdcp_entity_set_security e p = Inr e3"
    using e2(1) e3(1) merge_keys_eq [of p "pe_keys e"] by (simp add: nr_pdcp_entity_set_security_def Let_def)
  moreover have "integrity_ok e3" using e2(2) e3 by (simp add: integrity_ok_def)
  moreover have "pdcp_data_view ?e1 = pdcp_data_view e" by (simp add: pdcp_data_view_def)
  ultimately show ?thesis using e2 e3 by (simp add: pdcp_sec_ok_def)
qed

lemma init_security: "start_security (init_nr_pdcp_entity ty gnb rb pdu srx stx n tr dt)"
  by (simp add: start_security_def init_nr_pdcp_entity_def)

lemma new_pdcp_ok:
  assumes "known_algorithm (integrity_algorithm sec)" "known_algorithm (ciphering_algorithm sec)"
  shows "\<exists>e. new_nr_pdcp_entity ty gnb rb pdu srx stx n tr dt sec = Inr e \<and> pdcp_sec_ok e \<and>
     pe_keys e = merge_keys (pe_keys (init_nr_pdcp_entity ty gnb rb pdu srx stx n tr dt)) sec \<and>
     pdcp_data_view e = pdcp_data_view (init_nr_pdcp_entity ty gnb rb pdu srx stx n tr dt)"
  unfolding new_nr_pdcp_entity_def by (rule set_security_ok [OF start_security_ok [OF init_security] assms])

section \<open>Peers\<close>

text \<open>
  Two entities with the same bearer, keys and algorithms, in processes that use the same library. What
  one of them ciphers the other one deciphers, and both compute the same authentication codes.
\<close>

definition sec_peers :: "crypto \<Rightarrow> nr_pdcp_entity_t \<Rightarrow> crypto \<Rightarrow> nr_pdcp_entity_t \<Rightarrow> bool" where
  "sec_peers C a D b \<longleftrightarrow>
     openssl_ok C \<and> same_library C D \<and> pdcp_sec_ok a \<and> pdcp_sec_ok b \<and>
     pe_keys a = pe_keys b \<and> pe_rb_id a = pe_rb_id b \<and> 0 < pe_rb_id a \<and> pe_rb_id a < 32"

lemma sec_peers_flags:
  assumes "sec_peers C a D b"
  shows "pe_has_ciphering a = pe_has_ciphering b" "pe_has_integrity a = pe_has_integrity b"
  using assms by (auto simp: sec_peers_def pdcp_sec_ok_def ciphering_ok_def integrity_ok_def Let_def)

lemma cipher_call_key:
  assumes "ciphering_ok e" "pe_has_ciphering e"
  shows "cipher_call C e m count dir =
    (if ciphering_algorithm (pe_keys e) = 2
     then nr_pdcp_security_nea2_cipher C (ciphering_key (pe_keys e)) m (pe_rb_id e) count dir
     else nr_pdcp_security_nea1_cipher C (ciphering_key (pe_keys e)) m (pe_rb_id e) count dir)"
  using assms by (auto simp: cipher_call_def ciphering_ok_def context_key_def Let_def)

lemma pdcp_integrity_key:
  assumes "integrity_ok e" "pe_has_integrity e"
  shows "pdcp_integrity C e out m count dir =
    (if integrity_algorithm (pe_keys e) = 2
     then nr_pdcp_integrity_nia2_integrity C (integrity_key (pe_keys e)) out m (pe_rb_id e) count dir
     else nr_pdcp_integrity_nia1_integrity C (integrity_key (pe_keys e)) out m (pe_rb_id e) count dir)"
  using assms by (auto simp: pdcp_integrity_def integrity_ok_def context_key_def Let_def)

lemma peers_cipher:
  assumes "sec_peers C a D b" "pe_has_ciphering a" "dir = 0 \<or> dir = 1"
  shows "stream_cipher (\<lambda>m. cipher_call C a m count dir) (\<lambda>m. cipher_call D b m count dir)"
proof -
  note flags = sec_peers_flags [OF assms(1)]
  have k: "ciphering_ok a" "ciphering_ok b" "pe_has_ciphering b" "pe_keys b = pe_keys a" "pe_rb_id b = pe_rb_id a"
    "openssl_ok C" "same_library C D" "0 \<le> pe_rb_id a" "pe_rb_id a < 32"
    using assms flags by (simp_all add: sec_peers_def pdcp_sec_ok_def)
  show ?thesis
    unfolding cipher_call_key [OF k(1) assms(2)] cipher_call_key [OF k(2,3)] k(4,5)
    using nea2_stream_cipher [OF k(6-9) assms(3)] nea1.stream_cipher_axioms
    by (cases "ciphering_algorithm (pe_keys a) = 2") simp_all
qed

lemma peers_integrity:
  assumes "sec_peers C a D b" "pe_has_integrity a"
  shows "auth_code (\<lambda>out m. pdcp_integrity C a out m count dir) (\<lambda>out m. pdcp_integrity D b out m count dir)"
proof -
  note flags = sec_peers_flags [OF assms(1)]
  have k: "integrity_ok a" "integrity_ok b" "pe_has_integrity b" "pe_keys b = pe_keys a" "pe_rb_id b = pe_rb_id a"
    "openssl_ok C" "same_library C D" "0 < pe_rb_id a" "pe_rb_id a < 33"
    using assms flags by (simp_all add: sec_peers_def pdcp_sec_ok_def)
  show ?thesis
    unfolding pdcp_integrity_key [OF k(1) assms(2)] pdcp_integrity_key [OF k(2,3)] k(4,5)
    using nia2_auth_code [OF k(6-9)] nia1.auth_code_axioms
    by (cases "integrity_algorithm (pe_keys a) = 2") simp_all
qed

section \<open>Property\<close>

fun set_security_all :: "nr_pdcp_entity_t \<Rightarrow> nr_pdcp_entity_security_keys_and_algos_t list \<Rightarrow> nr_pdcp_entity_t res" where
  "set_security_all e [] = Inr e"
| "set_security_all e (p # ps) = bindr (nr_pdcp_entity_set_security e p) (\<lambda>e'. set_security_all e' ps)"

lemma set_security_all_ok:
  assumes "pdcp_sec_ok e" "\<forall>p \<in> set ps. known_algorithm (integrity_algorithm p) \<and> known_algorithm (ciphering_algorithm p)"
  shows "\<exists>e'. set_security_all e ps = Inr e' \<and> pdcp_sec_ok e' \<and> pe_keys e' = foldl merge_keys (pe_keys e) ps \<and>
     pdcp_data_view e' = pdcp_data_view e"
  using assms
proof (induction ps arbitrary: e)
  case (Cons p ps)
  from set_security_ok [OF Cons.prems(1), of p] Cons.prems(2) obtain e1 where e1:
    "nr_pdcp_entity_set_security e p = Inr e1" "pdcp_sec_ok e1" "pe_keys e1 = merge_keys (pe_keys e) p"
    "pdcp_data_view e1 = pdcp_data_view e" by auto
  with Cons.IH [OF e1(2)] Cons.prems(2) show ?case by auto
qed simp

text \<open>
  C29: changes of the security settings. A new entity, and then any sequence of calls of
  \<open>set_security\<close> with supported algorithms (0, 1, 2, or -1 to keep the present one), succeeds: no
  context is freed twice or used after it has been freed, the stored keys and algorithms are the merge
  of all the calls, and the flags, function pointers and contexts belong to them. The state of the data
  path is untouched.
\<close>

theorem pdcp_set_security_invariant:
  assumes "\<forall>p \<in> set (sec # ps). known_algorithm (integrity_algorithm p) \<and> known_algorithm (ciphering_algorithm p)"
  shows "\<exists>e e'. new_nr_pdcp_entity ty gnb rb pdu srx stx n tr dt sec = Inr e \<and> pdcp_sec_ok e \<and>
     set_security_all e ps = Inr e' \<and> pdcp_sec_ok e' \<and>
     pe_keys e' = foldl merge_keys (pe_keys e) ps \<and> pdcp_data_view e' = pdcp_data_view e"
proof -
  from new_pdcp_ok [of sec] assms obtain e where e: "new_nr_pdcp_entity ty gnb rb pdu srx stx n tr dt sec = Inr e" "pdcp_sec_ok e"
    by (meson list.set_intros(1))
  with set_security_all_ok [OF e(2), of ps] assms show ?thesis by simp
qed

definition example_keys :: "int \<Rightarrow> int \<Rightarrow> byte \<Rightarrow> nr_pdcp_entity_security_keys_and_algos_t" where
  "example_keys ia ca k =
     \<lparr>integrity_algorithm = ia, ciphering_algorithm = ca, integrity_key = replicate 16 k, ciphering_key = replicate 16 (k + 1)\<rparr>"

theorem pdcp_set_security_invariant_witness:
  "\<exists>e e'. new_nr_pdcp_entity NR_PDCP_SRB True 1 0 False False 12 100 (- 1) (example_keys 2 0 7) = Inr e \<and> pdcp_sec_ok e \<and>
     set_security_all e [example_keys (- 1) 2 9, example_keys 1 1 11, example_keys 0 (- 1) 3] = Inr e' \<and> pdcp_sec_ok e' \<and>
     pe_keys e' = foldl merge_keys (pe_keys e) [example_keys (- 1) 2 9, example_keys 1 1 11, example_keys 0 (- 1) 3] \<and>
     pdcp_data_view e' = pdcp_data_view e"
  by (rule pdcp_set_security_invariant) (simp add: known_algorithm_def example_keys_def)

end
