(* ===== verification/Nr_Pdcp_Link.thy ===== *)
theory Nr_Pdcp_Link
  imports Nr_Pdcp_Rx Nr_Pdcp_Sec
begin

text \<open>
  Two PDCP entities over a network that may lose, duplicate and reorder PDUs: what the sender protects
  the receiver opens, and the receiver hands up the SDUs in the order in which they were submitted.
\<close>

section \<open>Headers\<close>

lemma byte_consts: "(0xf :: byte) = mask 4" "(0x3 :: byte) = mask 2" "(0x80 :: byte) = 2 ^ 7"
  by (simp_all add: mask_eq_exp_minus_1)

text \<open>The flag for data PDUs does not touch the bits of the sequence number.\<close>

lemma dc_and_mask:
  assumes "d = 0x80 \<or> d = (0 :: byte)"
  shows "(d OR (x AND 0xf)) AND 0xf = x AND 0xf" and "(d OR (x AND 0x3)) AND 0x3 = x AND 0x3"
  using assms by (auto simp: bit.conj_disj_distrib2 and.assoc)

lemma short_header:
  assumes "d = 0x80 \<or> d = (0 :: byte)"
  shows "push_bit 8 (ucast ((d OR (ucast (drop_bit 8 (take_bit 12 w)) AND 0xf)) AND 0xf)) OR ucast (ucast (take_bit 12 w) :: byte) = take_bit 12 (w :: u32)"
  unfolding dc_and_mask [OF assms] unfolding byte_consts by (rule bit_word_eqI) (auto simp: bit_simps)

lemma long_header:
  assumes "d = 0x80 \<or> d = (0 :: byte)"
  shows "push_bit 16 (ucast ((d OR (ucast (drop_bit 16 (take_bit 18 w)) AND 0x3)) AND 0x3)) OR
    push_bit 8 (ucast (ucast (drop_bit 8 (take_bit 18 w)) :: byte)) OR ucast (ucast (take_bit 18 w) :: byte) = take_bit 18 (w :: u32)"
  unfolding dc_and_mask [OF assms] unfolding byte_consts by (rule bit_word_eqI) (auto simp: bit_simps)

definition pdcp_header_size :: "nr_pdcp_entity_t \<Rightarrow> nat" where
  "pdcp_header_size e = (if pe_sn_size e = SHORT_SN_SIZE then 2 else 3)"

lemma length_send_header [simp]: "length (send_header e sn) = pdcp_header_size e"
  by (simp add: send_header_def pdcp_header_size_def Let_def)

lemma send_recv_header:
  assumes "pdcp_cfg a" "pe_sn_size b = pe_sn_size a" "take (pdcp_header_size a) buf = send_header a (w AND word_of_int (pe_sn_max a))"
  shows "recv_header b buf = Inr (uint w mod 2 ^ pe_sn_size a, int (pdcp_header_size a))"
proof -
  let ?sn = "take_bit (pe_sn_size a) w"
  have c: "pe_sn_size a < 32" "w AND word_of_int (pe_sn_max a) = ?sn"
    using pdcp_cfgD [OF assms(1)] word_and_sn_max [of "pe_sn_size a" w] by simp_all
  have h: "take (pdcp_header_size a) buf = send_header a ?sn" using assms(3) c(2) by simp
  then have "length (take (pdcp_header_size a) buf) = pdcp_header_size a" by simp
  then have len: "pdcp_header_size a \<le> length buf" by simp
  have nth: "buf ! i = send_header a ?sn ! i" if "i < pdcp_header_size a" for i
    using h that by (metis nth_take)
  have u: "uint ?sn = uint w mod 2 ^ pe_sn_size a" by (simp only: unsigned_take_bit_eq) (simp add: take_bit_eq_mod)
  define d :: byte where "d = (if pe_type a = NR_PDCP_DRB_AM \<or> pe_type a = NR_PDCP_DRB_UM then 0x80 else 0)"
  have d: "d = 0x80 \<or> d = 0" by (simp add: d_def)
  from assms(1) consider "pe_sn_size a = 12" | "pe_sn_size a = 18" by (auto simp: pdcp_cfg_def)
  then show ?thesis
  proof cases
    case 1
    then have "buf ! 0 = d OR (ucast (drop_bit 8 (take_bit 12 w)) AND 0xf)" "buf ! 1 = ucast (take_bit 12 w)"
      using nth [of 0] nth [of 1] by (simp_all add: send_header_def pdcp_header_size_def d_def Let_def)
    then have "push_bit 8 (ucast (buf ! 0 AND 0xf)) OR ucast (buf ! 1) = take_bit 12 w"
      using short_header [OF d, of w] by simp
    then show ?thesis using 1 u len assms(2) by (simp only: recv_header_def pdcp_header_size_def) simp
  next
    case 2
    then have "buf ! 0 = d OR (ucast (drop_bit 16 (take_bit 18 w)) AND 0x3)" "buf ! 1 = ucast (drop_bit 8 (take_bit 18 w))"
      "buf ! 2 = ucast (take_bit 18 w)"
      using nth [of 0] nth [of 1] nth [of 2] by (simp_all add: send_header_def pdcp_header_size_def d_def Let_def)
    then have "push_bit 16 (ucast (buf ! 0 AND 0x3)) OR push_bit 8 (ucast (buf ! 1)) OR ucast (buf ! 2) = take_bit 18 w"
      using long_header [OF d, of w] by simp
    then show ?thesis using 2 u len assms(2) by (simp only: recv_header_def pdcp_header_size_def) simp
  qed
qed

lemma send_header_dc: "pe_type e \<noteq> NR_PDCP_SRB \<Longrightarrow> send_header e sn ! 0 AND 0x80 \<noteq> 0"
proof -
  assume t: "pe_type e \<noteq> NR_PDCP_SRB"
  have "(0x80 OR y) AND 0x80 = (0x80 :: byte)" for y by (rule bit_eqI) (auto simp: bit_and_iff bit_or_iff)
  with t show ?thesis by (cases "pe_type e") (simp_all add: send_header_def Let_def)
qed

section \<open>Protection of one SDU\<close>

text \<open>The PDU that \<open>process_sdu\<close> makes of an SDU with a given COUNT.\<close>

definition protect :: "crypto \<Rightarrow> nr_pdcp_entity_t \<Rightarrow> u32 \<Rightarrow> byte list \<Rightarrow> byte list res" where
  "protect C e count sdu =
     (let header = send_header e (count AND word_of_int (pe_sn_max e));
          sdap = (if pe_has_sdap_tx e then 1 else 0); isz = pdcp_integrity_size e;
          direction = (if pe_is_gnb e then 1 else 0); body = header @ sdu
      in bindr (if pe_has_integrity e then pdcp_integrity C e [0, 0, 0, 0] body count direction
                else Inr (replicate (nat isz) 0)) (\<lambda>mac.
         if pe_has_ciphering e
         then pdcp_cipher C e (body @ mac) (int (length header) + sdap) (int (length sdu) + isz - sdap) count direction
         else Inr (body @ mac)))"

lemma stats_irrelevant [simp]:
  "send_header (e\<lparr>pe_stats := st\<rparr>) = send_header e"
  "pdcp_header_size (e\<lparr>pe_stats := st\<rparr>) = pdcp_header_size e"
  "pdcp_integrity_size (e\<lparr>pe_stats := st\<rparr>) = pdcp_integrity_size e"
  "pdcp_integrity C (e\<lparr>pe_stats := st\<rparr>) = pdcp_integrity C e"
  "cipher_call C (e\<lparr>pe_stats := st\<rparr>) = cipher_call C e"
  "pdcp_cipher C (e\<lparr>pe_stats := st\<rparr>) = pdcp_cipher C e"
  "recv_header (e\<lparr>pe_stats := st\<rparr>) = recv_header e"
  "recv_count (e\<lparr>pe_stats := st\<rparr>) = recv_count e"
  "recv_check_integrity C (e\<lparr>pe_stats := st\<rparr>) = recv_check_integrity C e"
  "recv_integrity_data (e\<lparr>pe_stats := st\<rparr>) = recv_integrity_data e"
  by (simp_all add: fun_eq_iff send_header_def pdcp_header_size_def pdcp_integrity_size_def pdcp_integrity_def context_key_def cipher_call_def
      pdcp_cipher_def recv_header_def recv_count_def recv_check_integrity_def recv_integrity_data_def Let_def
      cong: option.case_cong sec_context.case_cong if_cong)

lemma process_sdu_protect:
  assumes "\<not> pe_suspended e" "nr_max_pdcp_pdu_size (int (length sdu)) \<le> pdu_max_size"
  shows "nr_pdcp_entity_process_sdu C e sdu pdu_max_size =
    bindr (protect C e (pe_tx_next e) sdu) (\<lambda>pdu.
      let ret = int (pdcp_header_size e) + int (length sdu) + pdcp_integrity_size e;
          st = (pe_stats e)\<lparr>rxsdu_pkts := rxsdu_pkts (pe_stats e) + 1, rxsdu_bytes := rxsdu_bytes (pe_stats e) + word_of_int (int (length sdu))\<rparr>
      in Inr (ret, pdu, e\<lparr>pe_tx_next := pe_tx_next e + 1,
           pe_stats := st\<lparr>txpdu_pkts := txpdu_pkts st + 1, txpdu_bytes := txpdu_bytes st + word_of_int ret,
             txpdu_sn := pe_tx_next e AND word_of_int (pe_sn_max e)\<rparr>\<rparr>))"
  using assms
  by (simp add: nr_pdcp_entity_process_sdu_def protect_def Let_def bindr_assoc cong: if_cong)

text \<open>Sender and receiver of one direction of a bearer.\<close>

definition pdcp_pair :: "crypto \<Rightarrow> nr_pdcp_entity_t \<Rightarrow> crypto \<Rightarrow> nr_pdcp_entity_t \<Rightarrow> bool" where
  "pdcp_pair C a D b \<longleftrightarrow>
     sec_peers C a D b \<and> pdcp_cfg a \<and> pdcp_cfg b \<and> pe_sn_size b = pe_sn_size a \<and> pe_type b = pe_type a \<and>
     pe_is_gnb b = (\<not> pe_is_gnb a) \<and> pe_has_sdap_rx b = pe_has_sdap_tx a \<and> \<not> pe_suspended a \<and> \<not> pe_suspended b"

definition sdu_fits :: "nr_pdcp_entity_t \<Rightarrow> byte list \<Rightarrow> bool" where
  "sdu_fits e sdu \<longleftrightarrow> (if pe_has_sdap_tx e then 1 else 0) < length sdu \<and> length sdu < 2 ^ 28"

text \<open>
  A protected SDU: the PDU has the header of its COUNT, and the receiver, once it knows the COUNT,
  deciphers it to the header, the SDU and a code that it accepts.
\<close>

lemma protect_spec:
  assumes pair: "pdcp_pair C a D b" and fits: "sdu_fits a sdu"
  obtains pdu mac where "protect C a count sdu = Inr pdu"
    "length pdu = pdcp_header_size a + length sdu + nat (pdcp_integrity_size a)"
    "take (pdcp_header_size a) pdu = send_header a (count AND word_of_int (pe_sn_max a))"
    "(if pe_has_ciphering b
      then pdcp_cipher D b pdu (int (pdcp_header_size a) + (if pe_has_sdap_rx b then 1 else 0))
             (int (length pdu) - (int (pdcp_header_size a) + (if pe_has_sdap_rx b then 1 else 0)))
             count (if pe_is_gnb b then 0 else 1)
      else Inr pdu) = Inr (send_header a (count AND word_of_int (pe_sn_max a)) @ sdu @ mac)"
    "length mac = nat (pdcp_integrity_size a)"
    "recv_check_integrity D b (send_header a (count AND word_of_int (pe_sn_max a)) @ sdu @ mac) count = Inr True"
proof -
  define h dir where "h = send_header a (count AND word_of_int (pe_sn_max a))" and "dir = (if pe_is_gnb a then 1 else (0 :: int))"
  define sdap where "sdap = (if pe_has_sdap_tx a then 1 else 0 :: nat)"
  have p: "sec_peers C a D b" "pe_is_gnb b = (\<not> pe_is_gnb a)" "pe_has_sdap_rx b = pe_has_sdap_tx a" "pe_type b = pe_type a"
    using pair by (simp_all add: pdcp_pair_def)
  note flags = sec_peers_flags [OF p(1)]
  have hl: "length h = pdcp_header_size a" "0 < length h" "length h \<le> 3" by (simp_all add: h_def pdcp_header_size_def)
  have sl: "sdap < length sdu" "length sdu < 2 ^ 28" using fits by (simp_all add: sdu_fits_def sdap_def)
  have dirb: "(if pe_is_gnb b then 0 else 1) = dir" "dir = 0 \<or> dir = 1" using p(2) by (simp_all add: dir_def)
  have isz: "pdcp_integrity_size a = (if pe_has_integrity a \<or> pe_type a = NR_PDCP_SRB then 4 else 0)"
    by (simp add: pdcp_integrity_size_def)
  have rb: "region_ok (h @ sdu)" using hl sl by auto
  obtain mac where mac: "(if pe_has_integrity a then pdcp_integrity C a [0, 0, 0, 0] (h @ sdu) count dir
      else Inr (replicate (nat (pdcp_integrity_size a)) 0)) = Inr mac" "length mac = nat (pdcp_integrity_size a)"
    "recv_check_integrity D b (h @ sdu @ mac) count = Inr True"
  proof (cases "pe_has_integrity a")
    case True
    from auth_code.mac_returns [OF peers_integrity [OF p(1) True, of count dir] rb] obtain t where
      "pdcp_integrity C a [0, 0, 0, 0] (h @ sdu) count dir = Inr t" "length t = 4" "pdcp_integrity D b [0, 0, 0, 0] (h @ sdu) count dir = Inr t"
      by blast
    with True flags(2) dirb(1) isz show thesis
      by (intro that [of t]) (simp_all add: recv_check_integrity_def Let_def)
  next
    case False
    with flags(2) show thesis
      by (intro that [of "replicate (nat (pdcp_integrity_size a)) 0"]) (simp_all add: recv_check_integrity_def)
  qed
  define pre m where "pre = h @ take sdap sdu" and "m = drop sdap sdu @ mac"
  have all: "h @ sdu @ mac = pre @ m" "length pre = length h + sdap" using sl by (simp_all add: pre_def m_def)
  have rm: "region_ok m" using sl mac(2) isz by (auto simp: m_def)
  have len: "int (length sdu) + pdcp_integrity_size a - int sdap = int (length m)" "0 \<le> pdcp_integrity_size a"
    using sl(1) mac(2) isz by (auto simp: m_def)
  have sd: "(if pe_has_sdap_tx a then 1 else 0 :: int) = int sdap" "(if pe_has_sdap_rx b then 1 else 0 :: int) = int sdap"
    using p(3) by (simp_all add: sdap_def)
  obtain c where c: "(if pe_has_ciphering a then cipher_call C a m count dir else Inr m) = Inr c" "length c = length m"
    "(if pe_has_ciphering b then cipher_call D b c count dir else Inr c) = Inr m"
  proof (cases "pe_has_ciphering a")
    case True
    from stream_cipher.crypt_returns [OF peers_cipher [OF p(1) True dirb(2), of count] rm] True flags(1) show thesis
      by (auto intro: that)
  qed (use flags(1) that in simp)
  have cip: "pdcp_cipher X e (pre @ x) (int (length h) + int sdap) (int (length x)) count dir =
      bindr (cipher_call X e x count dir) (\<lambda>c. Inr (pre @ c))" for X e x
    using all(2) by (simp add: pdcp_cipher_def nat_add_distrib)
  have pr: "protect C a count sdu = Inr (pre @ c)"
    using mac(1) c(1) cip [of C a m] all(1) len(1) sd(1)
    by (auto simp: protect_def Let_def h_def [symmetric] dir_def [symmetric] split: if_splits)
  have lp: "length (pre @ c) = pdcp_header_size a + length sdu + nat (pdcp_integrity_size a)"
    using all c(2) mac(2) hl(1) by (metis add.assoc length_append)
  have "(if pe_has_ciphering b then pdcp_cipher D b (pre @ c) (int (pdcp_header_size a) + int sdap)
             (int (length (pre @ c)) - (int (pdcp_header_size a) + int sdap)) count dir
      else Inr (pre @ c)) = Inr (h @ sdu @ mac)"
    using c(3) cip [of D b c] all hl(1) by (auto split: if_splits)
  moreover have "take (pdcp_header_size a) (pre @ c) = h" by (simp add: pre_def hl(1) [symmetric])
  ultimately show thesis
    using pr lp mac(2,3) unfolding h_def [symmetric]
    by (intro that [of "pre @ c" mac, unfolded h_def [symmetric] sd(2) dirb(1)])
qed

text \<open>
  The part of \<open>recv_pdu\<close> after the header has been read, with the statistics of a dropped and of a
  stored PDU as arguments.
\<close>

definition recv_data :: "crypto \<Rightarrow> nr_pdcp_entity_t \<Rightarrow> byte list \<Rightarrow> int \<Rightarrow> int \<Rightarrow> nr_pdcp_statistics_t \<Rightarrow> nr_pdcp_statistics_t \<Rightarrow>
    nr_pdcp_entity_t res" where
  "recv_data D b buf sn hs st st' =
     (let size = int (length buf); sdap = (if pe_has_sdap_rx b then 1 else 0); isz = pdcp_integrity_size b; count = recv_count b sn
      in if size < hs + sdap + isz + 1 then Inr (b\<lparr>pe_stats := st\<rparr>)
         else bindr (if pe_has_ciphering b
                     then pdcp_cipher D b buf (hs + sdap) (size - (hs + sdap)) count (if pe_is_gnb b then 0 else 1)
                     else Inr buf) (\<lambda>buf2.
              bindr (recv_check_integrity D b buf2 count) (\<lambda>ok.
                if \<not> ok then Inr (b\<lparr>pe_stats := st\<rparr>)
                else if count < pe_rx_deliv b \<or> nr_pdcp_sdu_in_list (pe_rx_list b) count then Inr (b\<lparr>pe_stats := st\<rparr>)
                else Inr (recv_store (b\<lparr>pe_stats := st'\<rparr>)
                       (nr_pdcp_new_sdu count (take (nat (size - hs - isz)) (drop (nat hs) buf2)) (recv_integrity_data b buf hs count))
                       (size - hs)))))"

lemma recv_pdu_data:
  assumes "\<not> pe_suspended b" "buffer \<noteq> []"
    and "recv_header b (if pe_type b \<noteq> NR_PDCP_SRB \<and> buffer ! 0 AND 0x80 = 0 then buffer[0 := buffer ! 0 OR 128] else buffer) = Inr (sn, hs)"
  obtains st st' where "nr_pdcp_entity_recv_pdu D b buffer =
    recv_data D b (if pe_type b \<noteq> NR_PDCP_SRB \<and> buffer ! 0 AND 0x80 = 0 then buffer[0 := buffer ! 0 OR 128] else buffer) sn hs st st'"
proof -
  define buf where "buf = (if pe_type b \<noteq> NR_PDCP_SRB \<and> buffer ! 0 AND 0x80 = 0 then buffer[0 := buffer ! 0 OR 128] else buffer)"
  define st1 where "st1 = (pe_stats b)\<lparr>rxpdu_pkts := rxpdu_pkts (pe_stats b) + 1,
      rxpdu_bytes := rxpdu_bytes (pe_stats b) + word_of_int (int (length buffer))\<rparr>"
  define st2 where "st2 = st1\<lparr>rxpdu_sn := word_of_int sn\<rparr>"
  have l: "length buf = length buffer" by (simp add: buf_def)
  have h: "recv_header b buf = Inr (sn, hs)" using assms(3) by (simp add: buf_def)
  have ne: "\<not> int (length buffer) < 1" using assms(2) by (cases buffer) auto
  have "nr_pdcp_entity_recv_pdu D b buffer = recv_data D b buf sn hs (stat_dd (int (length buffer)) st2) st2"
    unfolding nr_pdcp_entity_recv_pdu_def Let_def buf_def [symmetric] recv_data_def l
    by (simp only: assms(1) ne if_False stats_irrelevant h bindr_simps prod.case nr_pdcp_entity_t.simps st1_def [symmetric])
      (simp add: st2_def cong: if_cong)
  then show thesis unfolding buf_def by (rule that)
qed

text \<open>
  Reception of a protected SDU whose COUNT is reconstructed rightly: it is dropped when it is old or a
  duplicate, and otherwise stored with exactly the bytes that were submitted.
\<close>

lemma recv_protected:
  assumes pair: "pdcp_pair C a D b" and fits: "sdu_fits a sdu" and pr: "protect C a count sdu = Inr pdu"
    and cnt: "recv_count b (uint count mod 2 ^ pe_sn_size a) = count"
  obtains st st' mi where "nr_pdcp_entity_recv_pdu D b pdu =
    Inr (if count < pe_rx_deliv b \<or> count \<in> ps_count ` set (pe_rx_list b) then b\<lparr>pe_stats := st\<rparr>
         else recv_store (b\<lparr>pe_stats := st'\<rparr>) (nr_pdcp_new_sdu count sdu mi) (int (length pdu) - int (pdcp_header_size a)))"
proof -
  obtain mac where 1: "length pdu = pdcp_header_size a + length sdu + nat (pdcp_integrity_size a)"
    "take (pdcp_header_size a) pdu = send_header a (count AND word_of_int (pe_sn_max a))"
    "(if pe_has_ciphering b
      then pdcp_cipher D b pdu (int (pdcp_header_size a) + (if pe_has_sdap_rx b then 1 else 0))
             (int (length pdu) - (int (pdcp_header_size a) + (if pe_has_sdap_rx b then 1 else 0)))
             count (if pe_is_gnb b then 0 else 1)
      else Inr pdu) = Inr (send_header a (count AND word_of_int (pe_sn_max a)) @ sdu @ mac)"
    "length mac = nat (pdcp_integrity_size a)"
    "recv_check_integrity D b (send_header a (count AND word_of_int (pe_sn_max a)) @ sdu @ mac) count = Inr True"
    by (rule protect_spec [OF pair fits, of count]) (use pr in auto)
  have p: "pdcp_cfg a" "pe_sn_size b = pe_sn_size a" "pe_type b = pe_type a" "\<not> pe_suspended b" "sec_peers C a D b"
    "pe_has_sdap_rx b = pe_has_sdap_tx a"
    using pair by (simp_all add: pdcp_pair_def)
  have isz: "pdcp_integrity_size b = pdcp_integrity_size a" "0 \<le> pdcp_integrity_size a"
    using sec_peers_flags [OF p(5)] p(3) by (simp_all add: pdcp_integrity_size_def)
  have hs: "0 < pdcp_header_size a" by (simp add: pdcp_header_size_def)
  have "pdu ! 0 = send_header a (count AND word_of_int (pe_sn_max a)) ! 0" using 1(2) hs by (metis nth_take)
  then have dc: "(if pe_type b \<noteq> NR_PDCP_SRB \<and> pdu ! 0 AND 0x80 = 0 then pdu[0 := pdu ! 0 OR 128] else pdu) = pdu"
    using send_header_dc [of a] p(3) by auto
  have hd: "recv_header b pdu = Inr (uint count mod 2 ^ pe_sn_size a, int (pdcp_header_size a))"
    by (rule send_recv_header [OF p(1,2) 1(2)])
  have sz: "\<not> int (length pdu) < 1" "\<not> int (length pdu) < int (pdcp_header_size a) + (if pe_has_sdap_rx b then 1 else 0) + pdcp_integrity_size b + 1"
    using 1(1) hs fits isz p(6) by (auto simp: sdu_fits_def)
  have sd: "take (nat (int (length pdu) - int (pdcp_header_size a) - pdcp_integrity_size b))
      (drop (nat (int (pdcp_header_size a))) (send_header a (count AND word_of_int (pe_sn_max a)) @ sdu @ mac)) = sdu"
    using 1(1) isz by (simp add: nat_diff_distrib nat_add_distrib)
  obtain st st' where run: "nr_pdcp_entity_recv_pdu D b pdu = recv_data D b pdu (uint count mod 2 ^ pe_sn_size a) (int (pdcp_header_size a)) st st'"
    by (rule recv_pdu_data [of b pdu, unfolded dc, OF p(4) _ hd]) (use sz(1) in auto)
  have "recv_data D b pdu (uint count mod 2 ^ pe_sn_size a) (int (pdcp_header_size a)) st st' =
    Inr (if count < pe_rx_deliv b \<or> count \<in> ps_count ` set (pe_rx_list b) then b\<lparr>pe_stats := st\<rparr>
         else recv_store (b\<lparr>pe_stats := st'\<rparr>)
           (nr_pdcp_new_sdu count sdu (recv_integrity_data b pdu (int (pdcp_header_size a)) count)) (int (length pdu) - int (pdcp_header_size a)))"
    unfolding recv_data_def Let_def cnt 1(3) bindr_simps 1(5) sd in_list_iff using sz(2) by simp
  with run show thesis by (intro that) simp
qed

end
