(* ===== verification/Nr_Pdcp_Net.thy ===== *)
theory Nr_Pdcp_Net
  imports Nr_Pdcp_Link
begin

text \<open>
  A sending and a receiving PDCP entity with an unreliable network between them, as a step relation:
  the sender submits SDUs, any PDU that was sent before may arrive at any time and any number of times,
  and the clock of the receiver advances.
\<close>

section \<open>What the operations leave alone\<close>

definition pdcp_static where
  "pdcp_static e =
     ((pe_type e, pe_rb_id e, pe_has_sdap_rx e, pe_has_sdap_tx e, pe_sn_size e, pe_t_reordering e, pe_sn_max e, pe_window_size e),
      (pe_is_gnb e, pe_suspended e, pe_has_ciphering e, pe_has_integrity e, pe_keys e),
      (pe_security_context e, pe_cipher e, pe_free_security e, pe_integrity_context e, pe_integrity e, pe_free_integrity e))"

lemma pdcp_staticD:
  assumes "pdcp_static a' = pdcp_static a"
  shows "pe_type a' = pe_type a" "pe_rb_id a' = pe_rb_id a" "pe_has_sdap_rx a' = pe_has_sdap_rx a" "pe_has_sdap_tx a' = pe_has_sdap_tx a"
    "pe_sn_size a' = pe_sn_size a" "pe_sn_max a' = pe_sn_max a" "pe_window_size a' = pe_window_size a" "pe_is_gnb a' = pe_is_gnb a"
    "pe_suspended a' = pe_suspended a" "pe_has_ciphering a' = pe_has_ciphering a" "pe_has_integrity a' = pe_has_integrity a"
    "pe_keys a' = pe_keys a" "pe_security_context a' = pe_security_context a" "pe_cipher a' = pe_cipher a"
    "pe_free_security a' = pe_free_security a" "pe_integrity_context a' = pe_integrity_context a" "pe_integrity a' = pe_integrity a"
    "pe_free_integrity a' = pe_free_integrity a"
  using assms by (simp_all add: pdcp_static_def)

lemma pdcp_pair_static:
  assumes "pdcp_static a' = pdcp_static a" "pdcp_static b' = pdcp_static b"
  shows "pdcp_pair C a' D b' = pdcp_pair C a D b"
  by (simp only: pdcp_pair_def sec_peers_def pdcp_sec_ok_def ciphering_ok_def integrity_ok_def pdcp_cfg_def
      pdcp_staticD [OF assms(1)] pdcp_staticD [OF assms(2)])

lemma protect_static:
  assumes "pdcp_static a' = pdcp_static a"
  shows "protect C a' = protect C a"
  by (intro ext) (simp only: protect_def send_header_def pdcp_integrity_size_def pdcp_integrity_def context_key_def
      cipher_call_def pdcp_cipher_def pdcp_staticD [OF assms])

lemma delivered_static [simp]: "pdcp_static (delivered ss rest e) = pdcp_static e"
  by (simp add: pdcp_static_def delivered_def)

lemma deliver_consecutive_static: "pdcp_static (snd (deliver_consecutive l c e)) = pdcp_static e"
  by (induction l arbitrary: c e) (simp_all add: pdcp_static_def deliver_head_def)

lemma deliver_below_static: "pdcp_static (deliver_below l r e) = pdcp_static e"
  by (induction l arbitrary: e) (simp_all add: pdcp_static_def deliver_head_def)

lemma pdcp_static_upd [simp]:
  "pdcp_static (e\<lparr>pe_stats := st\<rparr>) = pdcp_static e" "pdcp_static (e\<lparr>pe_rx_deliv := c\<rparr>) = pdcp_static e"
  "pdcp_static (e\<lparr>pe_t_reordering_start := t\<rparr>) = pdcp_static e" "pdcp_static (e\<lparr>pe_t_current := t\<rparr>) = pdcp_static e"
  "pdcp_static (e\<lparr>pe_rx_reord := c\<rparr>) = pdcp_static e" "pdcp_static (e\<lparr>pe_tx_next := c\<rparr>) = pdcp_static e"
  by (simp_all add: pdcp_static_def)

lemma recv_store_static: "pdcp_static (recv_store e sdu bytes) = pdcp_static e"
proof -
  have i: "pdcp_static (recv_insert e sdu bytes) = pdcp_static e" by (simp add: recv_insert_def pdcp_static_def Let_def)
  have "pdcp_static (recv_deliver e sdu bytes) = pdcp_static e"
    using deliver_consecutive_static [of "pe_rx_list (recv_insert e sdu bytes)" "pe_rx_deliv (recv_insert e sdu bytes)" "recv_insert e sdu bytes"] i
    by (auto simp: recv_deliver_def Let_def split: prod.splits)
  then show ?thesis by (simp add: recv_store_deliver Let_def)
qed

lemma check_t_reordering_static: "pdcp_static (check_t_reordering e) = pdcp_static e"
proof -
  let ?e1 = "e\<lparr>pe_t_reordering_start := 0\<rparr>" and ?e2 = "deliver_below (pe_rx_list e) (pe_rx_reord e) (e\<lparr>pe_t_reordering_start := 0\<rparr>)"
  have "pdcp_static (snd (deliver_consecutive (pe_rx_list ?e2) (pe_rx_reord ?e2) ?e2)) = pdcp_static e"
    by (simp add: deliver_consecutive_static deliver_below_static)
  then show ?thesis by (auto simp: check_t_reordering_def Let_def split: prod.splits)
qed

lemma set_time_static: "pdcp_static (nr_pdcp_entity_set_time e now) = pdcp_static e"
  by (simp add: nr_pdcp_entity_set_time_def check_t_reordering_static)

section \<open>Deliveries of one step\<close>

lemma recv_store_parts:
  assumes "pdcp_rx_inv e" "pe_rx_deliv e \<le> ps_count sdu" "ps_count sdu \<notin> ps_count ` set (pe_rx_list e)" "ps_count sdu < - 1"
  obtains ss rest where "insert sdu (set (pe_rx_list e)) = set ss \<union> set rest"
    "pe_rx_list (recv_store e sdu bytes) = rest" "pe_upcalls (recv_store e sdu bytes) = pe_upcalls e @ ss"
    "pe_rx_next (recv_store e sdu bytes) = max (pe_rx_next e) (ps_count sdu + 1)"
    "pe_rx_deliv e \<le> pe_rx_deliv (recv_store e sdu bytes)"
    "ps_count ` set ss = {pe_rx_deliv e..<pe_rx_deliv (recv_store e sdu bytes)}"
proof -
  let ?e3 = "recv_deliver e sdu bytes"
  obtain ss rest where s: "nr_pdcp_sdu_list_add (pe_rx_list e) sdu = ss @ rest"
    "pe_rx_list ?e3 = rest" "pe_upcalls ?e3 = pe_upcalls e @ ss" "pe_rx_next ?e3 = max (pe_rx_next e) (ps_count sdu + 1)"
    "pe_rx_deliv e \<le> pe_rx_deliv ?e3" "ps_count ` set ss = {pe_rx_deliv e..<pe_rx_deliv ?e3}"
    by (rule recv_deliver_spec [OF assms])
  have "pe_rx_list (recv_store e sdu bytes) = pe_rx_list ?e3" "pe_upcalls (recv_store e sdu bytes) = pe_upcalls ?e3"
    "pe_rx_next (recv_store e sdu bytes) = pe_rx_next ?e3" "pe_rx_deliv (recv_store e sdu bytes) = pe_rx_deliv ?e3"
    by (simp_all add: recv_store_deliver Let_def)
  moreover have "insert sdu (set (pe_rx_list e)) = set ss \<union> set rest" using s(1) by (metis set_append set_list_add)
  ultimately show thesis using s by (intro that) simp_all
qed

section \<open>The step relation\<close>

record pdcp_net =
  nt_tx :: nr_pdcp_entity_t
  nt_rx :: nr_pdcp_entity_t
  nt_sdus :: "byte list list"       \<comment> \<open>the SDUs submitted so far\<close>
  nt_pdus :: "byte list list"       \<comment> \<open>the PDUs sent so far\<close>
  nt_expired :: bool                \<comment> \<open>has the reordering timer expired\<close>

definition in_rx_window :: "nr_pdcp_entity_t \<Rightarrow> nat \<Rightarrow> bool" where
  "in_rx_window e i \<longleftrightarrow>
     uint (pe_rx_deliv e) - pe_window_size e \<le> int i \<and> int i < uint (pe_rx_deliv e) + pe_window_size e"

inductive pdcp_step :: "crypto \<Rightarrow> crypto \<Rightarrow> pdcp_net \<Rightarrow> pdcp_net \<Rightarrow> bool" for C D where
  send: "sdu_fits (nt_tx n) sdu \<Longrightarrow> Suc (length (nt_sdus n)) < 2 ^ 32 \<Longrightarrow>
     nr_pdcp_entity_process_sdu C (nt_tx n) sdu (nr_max_pdcp_pdu_size (int (length sdu))) = Inr (ret, pdu, tx') \<Longrightarrow>
     pdcp_step C D n (n\<lparr>nt_tx := tx', nt_sdus := nt_sdus n @ [sdu], nt_pdus := nt_pdus n @ [pdu]\<rparr>)"
| arrive: "i < length (nt_pdus n) \<Longrightarrow> in_rx_window (nt_rx n) i \<Longrightarrow>
     nr_pdcp_entity_recv_pdu D (nt_rx n) (nt_pdus n ! i) = Inr rx' \<Longrightarrow> pdcp_step C D n (n\<lparr>nt_rx := rx'\<rparr>)"
| tick: "pdcp_step C D n (n\<lparr>nt_rx := nr_pdcp_entity_set_time (nt_rx n) now,
     nt_expired := nt_expired n \<or> t_reordering_expired ((nt_rx n)\<lparr>pe_t_current := now\<rparr>)\<rparr>)"

definition pdcp_start :: "crypto \<Rightarrow> crypto \<Rightarrow> pdcp_net \<Rightarrow> bool" where
  "pdcp_start C D n \<longleftrightarrow>
     pdcp_pair C (nt_tx n) D (nt_rx n) \<and> pe_tx_next (nt_tx n) = 0 \<and>
     pe_rx_next (nt_rx n) = 0 \<and> pe_rx_deliv (nt_rx n) = 0 \<and> pe_rx_list (nt_rx n) = [] \<and> pe_upcalls (nt_rx n) = [] \<and>
     pe_t_reordering_start (nt_rx n) = 0 \<and> nt_sdus n = [] \<and> nt_pdus n = [] \<and> \<not> nt_expired n"

section \<open>Invariant\<close>

definition sdu_of :: "byte list list \<Rightarrow> nr_pdcp_sdu_t \<Rightarrow> bool" where
  "sdu_of sdus s \<longleftrightarrow> unat (ps_count s) < length sdus \<and> ps_buffer s = sdus ! unat (ps_count s)"

definition pdcp_net_inv :: "crypto \<Rightarrow> crypto \<Rightarrow> pdcp_net \<Rightarrow> bool" where
  "pdcp_net_inv C D n \<longleftrightarrow>
     pdcp_pair C (nt_tx n) D (nt_rx n) \<and>
     unat (pe_tx_next (nt_tx n)) = length (nt_sdus n) \<and> length (nt_pdus n) = length (nt_sdus n) \<and>
     (\<forall>i < length (nt_sdus n). sdu_fits (nt_tx n) (nt_sdus n ! i) \<and>
        protect C (nt_tx n) (of_nat i) (nt_sdus n ! i) = Inr (nt_pdus n ! i)) \<and>
     pdcp_rx_inv (nt_rx n) \<and> pdcp_order_inv (nt_rx n) \<and> unat (pe_rx_next (nt_rx n)) \<le> length (nt_sdus n) \<and>
     (\<forall>s \<in> set (pe_rx_list (nt_rx n)) \<union> set (pe_upcalls (nt_rx n)). sdu_of (nt_sdus n) s) \<and>
     (\<not> nt_expired n \<longrightarrow> ps_count ` set (pe_upcalls (nt_rx n)) = {0..<pe_rx_deliv (nt_rx n)})"

lemma pdcp_net_inv_start: "pdcp_start C D n \<Longrightarrow> pdcp_net_inv C D n"
  by (simp add: pdcp_start_def pdcp_net_inv_def pdcp_rx_inv_def pdcp_order_inv_def by_count_def)

lemma unat_of_nat32: "i < 2 ^ 32 \<Longrightarrow> unat (of_nat i :: u32) = i"
  by (simp add: unsigned_of_nat take_bit_nat_eq_self)

lemma sdu_of_append: "sdu_of sdus s \<Longrightarrow> sdu_of (sdus @ [x]) s"
  by (simp add: sdu_of_def nth_append)

lemma sdu_fits_static:
  assumes "pdcp_static a' = pdcp_static a"
  shows "sdu_fits a' = sdu_fits a"
  by (intro ext) (simp only: sdu_fits_def pdcp_staticD [OF assms])

lemma net_inv_send:
  assumes inv: "pdcp_net_inv C D n" and fits: "sdu_fits (nt_tx n) sdu" and room: "Suc (length (nt_sdus n)) < 2 ^ 32"
    and run: "nr_pdcp_entity_process_sdu C (nt_tx n) sdu (nr_max_pdcp_pdu_size (int (length sdu))) = Inr (ret, pdu, tx')"
  shows "pdcp_net_inv C D (n\<lparr>nt_tx := tx', nt_sdus := nt_sdus n @ [sdu], nt_pdus := nt_pdus n @ [pdu]\<rparr>)"
proof -
  let ?a = "nt_tx n" and ?k = "length (nt_sdus n)"
  have i: "pdcp_pair C ?a D (nt_rx n)" "unat (pe_tx_next ?a) = ?k" "length (nt_pdus n) = ?k" using inv by (simp_all add: pdcp_net_inv_def)
  then have ns: "\<not> pe_suspended ?a" by (simp add: pdcp_pair_def)
  from run obtain st where pr: "protect C ?a (pe_tx_next ?a) sdu = Inr pdu" and tx: "tx' = ?a\<lparr>pe_tx_next := pe_tx_next ?a + 1, pe_stats := st\<rparr>"
    unfolding process_sdu_protect [OF ns order.refl] by (auto simp: Let_def)
  have st: "pdcp_static tx' = pdcp_static ?a" by (simp add: tx)
  have c: "of_nat ?k = pe_tx_next ?a" using i(2) by (metis of_nat_unat ucast_id)
  have "pe_tx_next tx' = of_nat (Suc ?k)" by (simp add: tx c [symmetric] add.commute)
  then have n: "unat (pe_tx_next tx') = Suc ?k" using unat_of_nat32 [OF room] by simp
  have "sdu_fits tx' ((nt_sdus n @ [sdu]) ! j) \<and> protect C tx' (of_nat j) ((nt_sdus n @ [sdu]) ! j) = Inr ((nt_pdus n @ [pdu]) ! j)"
    if "j < Suc ?k" for j
    using that inv fits pr c i(3) unfolding sdu_fits_static [OF st] protect_static [OF st]
    by (cases "j < ?k") (auto simp: pdcp_net_inv_def nth_append less_Suc_eq)
  then show ?thesis
    using inv n i(3) pdcp_pair_static [OF st refl] by (auto simp: pdcp_net_inv_def sdu_of_append)
qed

lemma net_inv_arrive:
  assumes inv: "pdcp_net_inv C D n" and i: "i < length (nt_pdus n)" "in_rx_window (nt_rx n) i"
  obtains rx' where "nr_pdcp_entity_recv_pdu D (nt_rx n) (nt_pdus n ! i) = Inr rx'" "pdcp_net_inv C D (n\<lparr>nt_rx := rx'\<rparr>)"
proof -
  let ?a = "nt_tx n" and ?b = "nt_rx n" and ?c = "of_nat i :: u32" and ?sdu = "nt_sdus n ! i"
  have v: "pdcp_pair C ?a D ?b" "i < length (nt_sdus n)" "sdu_fits ?a ?sdu" "protect C ?a ?c ?sdu = Inr (nt_pdus n ! i)"
    "unat (pe_tx_next ?a) = length (nt_sdus n)" "pdcp_rx_inv ?b" "pdcp_order_inv ?b"
    using inv i(1) by (auto simp: pdcp_net_inv_def)
  have "length (nt_sdus n) < 2 ^ 32" using v(5) unsigned_less [of "pe_tx_next ?a", where ?'a = nat] by simp
  then have u: "unat ?c = i" "Suc i < 2 ^ 32" "unat (?c + 1) = Suc i"
    using unat_of_nat32 [of i] unat_of_nat32 [of "Suc i"] v(2) by (simp_all add: add.commute)
  have ui: "uint ?c = int i" using u(1) by (simp add: uint_nat)
  have cfg: "pdcp_cfg ?b" "pe_sn_size ?b = pe_sn_size ?a" using v(1) by (simp_all add: pdcp_pair_def)
  have cnt: "recv_count ?b (uint ?c mod 2 ^ pe_sn_size ?a) = ?c"
    using recv_count_window [OF cfg(1), of ?c] i(2) ui cfg(2) by (simp add: in_rx_window_def)
  obtain st st' mi where run: "nr_pdcp_entity_recv_pdu D ?b (nt_pdus n ! i) =
    Inr (if ?c < pe_rx_deliv ?b \<or> ?c \<in> ps_count ` set (pe_rx_list ?b) then ?b\<lparr>pe_stats := st\<rparr>
         else recv_store (?b\<lparr>pe_stats := st'\<rparr>) (nr_pdcp_new_sdu ?c ?sdu mi) (int (length (nt_pdus n ! i)) - int (pdcp_header_size ?a)))"
    by (rule recv_protected [OF v(1,3,4) cnt])
  show thesis
  proof (cases "?c < pe_rx_deliv ?b \<or> ?c \<in> ps_count ` set (pe_rx_list ?b)")
    case True
    have "pdcp_net_inv C D (n\<lparr>nt_rx := ?b\<lparr>pe_stats := st\<rparr>\<rparr>)"
      using inv pdcp_pair_static [OF refl, of "?b\<lparr>pe_stats := st\<rparr>" ?b] by (simp add: pdcp_net_inv_def pdcp_rx_inv_def pdcp_order_inv_def)
    with run True show thesis by (intro that) simp_all
  next
    case False
    let ?e = "?b\<lparr>pe_stats := st'\<rparr>" and ?s = "nr_pdcp_new_sdu ?c ?sdu mi" and ?z = "int (length (nt_pdus n ! i)) - int (pdcp_header_size ?a)"
    let ?r = "recv_store ?e ?s ?z"
    have e: "pdcp_rx_inv ?e" "pdcp_order_inv ?e" using v(6,7) by (simp_all add: pdcp_rx_inv_def pdcp_order_inv_def)
    have s: "ps_count ?s = ?c" "ps_buffer ?s = ?sdu" by (simp_all add: nr_pdcp_new_sdu_def)
    have top: "?c < - 1" using u(1,2) by (simp add: word_less_nat_alt unsigned_minus_1_eq_mask mask_eq_exp_minus_1)
    have new: "pe_rx_deliv ?e \<le> ps_count ?s" "ps_count ?s \<notin> ps_count ` set (pe_rx_list ?e)" "ps_count ?s < - 1"
      using False top by (simp_all add: s not_less)
    obtain ss rest where p: "insert ?s (set (pe_rx_list ?e)) = set ss \<union> set rest" "pe_rx_list ?r = rest"
      "pe_upcalls ?r = pe_upcalls ?e @ ss" "pe_rx_next ?r = max (pe_rx_next ?e) (ps_count ?s + 1)"
      "pe_rx_deliv ?e \<le> pe_rx_deliv ?r" "ps_count ` set ss = {pe_rx_deliv ?e..<pe_rx_deliv ?r}"
      by (rule recv_store_parts [OF e(1) new])
    have "sdu_of (nt_sdus n) ?s" using v(2) u(1) by (simp add: sdu_of_def s)
    then have "\<forall>x \<in> insert ?s (set (pe_rx_list ?e)) \<union> set (pe_upcalls ?b). sdu_of (nt_sdus n) x"
      using inv by (auto simp: pdcp_net_inv_def)
    then have so: "\<forall>x \<in> set rest \<union> set (pe_upcalls ?b @ ss). sdu_of (nt_sdus n) x" unfolding p(1) by auto
    have nx: "unat (pe_rx_next ?r) \<le> length (nt_sdus n)"
      using inv v(2) u(3) unfolding p(4) s by (auto simp: max_def pdcp_net_inv_def)
    have full: "ps_count ` set (pe_upcalls ?r) = {0..<pe_rx_deliv ?r}" if "\<not> nt_expired n"
    proof -
      have "ps_count ` set (pe_upcalls ?r) = {0..<pe_rx_deliv ?b} \<union> {pe_rx_deliv ?b..<pe_rx_deliv ?r}"
        using inv that p(3,6) by (simp add: pdcp_net_inv_def image_Un)
      then show ?thesis using p(5) ivl_disj_un_two(3) [of 0 "pe_rx_deliv ?b" "pe_rx_deliv ?r"] by simp
    qed
    have st: "pdcp_static ?r = pdcp_static ?b" by (simp add: recv_store_static)
    have "pdcp_net_inv C D (n\<lparr>nt_rx := ?r\<rparr>)"
      using inv recv_store_inv [OF e new, of ?z] so nx full pdcp_pair_static [OF refl st] p(2,3)
      by (simp add: pdcp_net_inv_def)
    with run False show thesis by (intro that) simp_all
  qed
qed

lemma net_inv_can_send:
  assumes "pdcp_net_inv C D n" "sdu_fits (nt_tx n) sdu"
  shows "\<exists>r. nr_pdcp_entity_process_sdu C (nt_tx n) sdu (nr_max_pdcp_pdu_size (int (length sdu))) = Inr r"
proof -
  have p: "pdcp_pair C (nt_tx n) D (nt_rx n)" using assms(1) by (simp add: pdcp_net_inv_def)
  then have ns: "\<not> pe_suspended (nt_tx n)" by (simp add: pdcp_pair_def)
  obtain pdu where "protect C (nt_tx n) (pe_tx_next (nt_tx n)) sdu = Inr pdu" by (rule protect_spec [OF p assms(2)])
  then show ?thesis unfolding process_sdu_protect [OF ns order.refl] by (simp add: Let_def)
qed

lemma net_inv_tick:
  assumes inv: "pdcp_net_inv C D n"
  shows "pdcp_net_inv C D (n\<lparr>nt_rx := nr_pdcp_entity_set_time (nt_rx n) now,
     nt_expired := nt_expired n \<or> t_reordering_expired ((nt_rx n)\<lparr>pe_t_current := now\<rparr>)\<rparr>)"
proof -
  let ?b = "nt_rx n" and ?e = "(nt_rx n)\<lparr>pe_t_current := now\<rparr>" and ?r = "nr_pdcp_entity_set_time (nt_rx n) now"
  have r: "?r = check_t_reordering ?e" by (simp add: nr_pdcp_entity_set_time_def)
  have b: "pdcp_rx_inv ?b" "pdcp_order_inv ?b" using inv by (simp_all add: pdcp_net_inv_def)
  then have e: "pdcp_rx_inv ?e" by (simp add: pdcp_rx_inv_def)
  have set: "set (pe_rx_list ?r) \<union> set (pe_upcalls ?r) \<subseteq> set (pe_rx_list ?b) \<union> set (pe_upcalls ?b) \<and>
     pe_rx_next ?r = pe_rx_next ?b \<and> (\<not> t_reordering_expired ?e \<longrightarrow> pe_upcalls ?r = pe_upcalls ?b \<and> pe_rx_deliv ?r = pe_rx_deliv ?b)"
  proof (cases "t_reordering_expired ?e")
    case True
    obtain ss rest where "pe_rx_list ?e = ss @ rest" "pe_rx_list (check_t_reordering ?e) = rest"
      "pe_upcalls (check_t_reordering ?e) = pe_upcalls ?e @ ss" "pe_rx_next (check_t_reordering ?e) = pe_rx_next ?e"
      by (rule check_t_reordering_spec [OF e True])
    with True r show ?thesis by auto
  qed (simp add: r check_t_reordering_idle)
  then show ?thesis
    using inv set_time_inv [OF b, of now] pdcp_pair_static [OF refl set_time_static, of C _ D ?b now]
    by (auto simp: pdcp_net_inv_def)
qed

lemma pdcp_net_inv_step: "pdcp_step C D n n' \<Longrightarrow> pdcp_net_inv C D n \<Longrightarrow> pdcp_net_inv C D n'"
proof (induction rule: pdcp_step.induct)
  case (send n sdu ret pdu tx')
  show ?case by (rule net_inv_send [OF send.prems send.hyps])
next
  case (arrive i n rx')
  show ?case by (rule net_inv_arrive [OF arrive.prems arrive.hyps(1,2)]) (use arrive.hyps(3) in simp)
next
  case (tick n now)
  then show ?case by (rule net_inv_tick)
qed

lemma pdcp_net_inv_steps: "(pdcp_step C D)\<^sup>*\<^sup>* n n' \<Longrightarrow> pdcp_net_inv C D n \<Longrightarrow> pdcp_net_inv C D n'"
  by (induction rule: rtranclp_induct) (auto intro: pdcp_net_inv_step)

section \<open>Order of delivery\<close>

lemma map_nth_nths:
  assumes "sorted_wrt (<) is" "\<forall>i \<in> set is. i < length xs"
  shows "map ((!) xs) is = nths xs (set is)"
  using assms
proof (induction xs arbitrary: "is" rule: rev_induct)
  case (snoc x xs)
  show ?case
  proof (cases "length xs \<in> set is")
    case False
    then have lt: "\<forall>i \<in> set is. i < length xs" using snoc.prems(2) by (auto simp: less_Suc_eq)
    then have "map ((!) (xs @ [x])) is = map ((!) xs) is" by (simp add: nth_append)
    with snoc.IH [OF snoc.prems(1) lt] False show ?thesis by (simp add: nths_append)
  next
    case True
    then have ne: "is \<noteq> []" by auto
    then obtain is' j where "is": "is = is' @ [j]" by (metis rev_exhaust)
    have "j = length xs"
    proof (rule ccontr)
      assume "j \<noteq> length xs"
      with True "is" have "length xs \<in> set is'" by auto
      with snoc.prems "is" show False by (auto simp: sorted_wrt_append)
    qed
    moreover from this have lt: "\<forall>i \<in> set is'. i < length xs" using snoc.prems(1) "is" by (auto simp: sorted_wrt_append)
    ultimately have "map ((!) (xs @ [x])) is = map ((!) xs) is' @ [x]" using "is" by (simp add: nth_append)
    moreover have "nths (xs @ [x]) (set is) = nths xs (set is') @ [x]"
    proof -
      have "nths xs (set is) = nths xs (set is')"
        unfolding nths_def using \<open>j = length xs\<close> "is"
        by (intro arg_cong [where f = "map fst"] filter_cong refl) (auto dest: set_zip_rightD)
      then show ?thesis using True by (simp add: nths_append)
    qed
    moreover have "sorted_wrt (<) is'" using snoc.prems(1) "is" by (simp add: sorted_wrt_append)
    note snoc.IH [OF this lt]
    ultimately show ?thesis by (simp only:)
  qed
qed simp

lemma delivered_nths:
  assumes "by_count l" "\<forall>s \<in> set l. sdu_of sdus s"
  shows "map ps_buffer l = nths sdus (unat ` ps_count ` set l)"
proof -
  have "sorted_wrt (<) (map (unat \<circ> ps_count) l)"
    using assms(1) by (simp add: by_count_def sorted_wrt_map word_less_nat_alt)
  moreover have "\<forall>i \<in> set (map (unat \<circ> ps_count) l). i < length sdus" using assms(2) by (auto simp: sdu_of_def)
  ultimately have "map ((!) sdus) (map (unat \<circ> ps_count) l) = nths sdus (set (map (unat \<circ> ps_count) l))" by (rule map_nth_nths)
  moreover have "map ((!) sdus) (map (unat \<circ> ps_count) l) = map ps_buffer l" using assms(2) by (simp add: sdu_of_def)
  ultimately show ?thesis by (simp add: image_comp)
qed

lemma unat_interval: "unat ` {0..<c :: u32} = {..<unat c}"
proof (intro set_eqI iffI)
  fix i assume "i \<in> {..<unat c}"
  then have i: "i < unat c" "i < 2 ^ 32" using unsigned_less [of c, where ?'a = nat] by simp_all
  have "of_nat i < c" using i unat_of_nat32 [OF i(2)] by (simp add: word_less_nat_alt)
  then show "i \<in> unat ` {0..<c}" using unat_of_nat32 [OF i(2)] by (intro image_eqI [of _ _ "of_nat i"]) simp_all
qed (auto simp: word_less_nat_alt)

text \<open>
  C3: a PDCP bearer over an unreliable network. The sender submits SDUs (fewer than 2^32, each
  shorter than 2^28 bytes and longer than its SDAP header); the network may lose and duplicate PDUs, and
  reorders them within a window: it hands over a PDU only while its COUNT is within half of the
  sequence number space of the next COUNT to deliver (beyond that the sequence number does not tell
  the COUNT, and without integrity protection a wrong SDU could be delivered); the clock of the receiver advances in any way. With equal
  keys and algorithms on both sides (any of the supported ones, ciphering and integrity on or off,
  short or long sequence numbers, with or without SDAP header, signalling or data bearer) every SDU
  is sent and every PDU that arrives is taken without a fault, the receiver hands up, byte for byte, a subsequence of the
  submitted SDUs in their order and without duplicates, and as long as the reordering timer has not
  expired it is exactly the first \<open>rx_deliv\<close> SDUs.
\<close>

theorem pdcp_network_delivery:
  assumes "pdcp_start C D n0" "(pdcp_step C D)\<^sup>*\<^sup>* n0 n"
  shows "map ps_buffer (pe_upcalls (nt_rx n)) = nths (nt_sdus n) (unat ` ps_count ` set (pe_upcalls (nt_rx n))) \<and>
    (\<not> nt_expired n \<longrightarrow> map ps_buffer (pe_upcalls (nt_rx n)) = take (unat (pe_rx_deliv (nt_rx n))) (nt_sdus n)) \<and>
    (\<forall>sdu. sdu_fits (nt_tx n) sdu \<longrightarrow>
      (\<exists>r. nr_pdcp_entity_process_sdu C (nt_tx n) sdu (nr_max_pdcp_pdu_size (int (length sdu))) = Inr r)) \<and>
    (\<forall>i < length (nt_pdus n). in_rx_window (nt_rx n) i \<longrightarrow>
      (\<exists>rx'. nr_pdcp_entity_recv_pdu D (nt_rx n) (nt_pdus n ! i) = Inr rx'))"
proof -
  have inv: "pdcp_net_inv C D n" by (rule pdcp_net_inv_steps [OF assms(2) pdcp_net_inv_start [OF assms(1)]])
  have u: "by_count (pe_upcalls (nt_rx n))" "\<forall>s \<in> set (pe_upcalls (nt_rx n)). sdu_of (nt_sdus n) s"
    using inv by (simp_all add: pdcp_net_inv_def pdcp_order_inv_def)
  note d = delivered_nths [OF u]
  have "map ps_buffer (pe_upcalls (nt_rx n)) = take (unat (pe_rx_deliv (nt_rx n))) (nt_sdus n)" if "\<not> nt_expired n"
    using d inv that by (simp add: pdcp_net_inv_def unat_interval)
  moreover have "\<exists>rx'. nr_pdcp_entity_recv_pdu D (nt_rx n) (nt_pdus n ! i) = Inr rx'"
    if "i < length (nt_pdus n)" "in_rx_window (nt_rx n) i" for i
    by (rule net_inv_arrive [OF inv that]) blast
  moreover have "\<exists>r. nr_pdcp_entity_process_sdu C (nt_tx n) sdu (nr_max_pdcp_pdu_size (int (length sdu))) = Inr r"
    if "sdu_fits (nt_tx n) sdu" for sdu
    by (rule net_inv_can_send [OF inv that])
  ultimately show ?thesis using d by blast
qed

text \<open>
  The witness: two entities with AES ciphering and integrity (a concrete stand-in for the library), two
  SDUs, of which the second arrives first.
\<close>

definition example_crypto :: crypto where
  "example_crypto = \<lparr>evp_aes_128_ctr = \<lambda>k iv m. map (xor 0x55) m, evp_aes_128_cmac = \<lambda>k m. replicate 16 (foldl (+) 0 m),
     mem_snow = \<lambda>_. 0, mem_pm = \<lambda>_ _. 0\<rparr>"

definition example_bearer :: "bool \<Rightarrow> bool \<Rightarrow> nr_pdcp_entity_t" where
  "example_bearer sdap gnb =
     (case new_nr_pdcp_entity NR_PDCP_DRB_AM gnb 4 0 sdap sdap 12 100 (- 1) (example_keys 2 2 7) of
        Inr e \<Rightarrow> e | Inl _ \<Rightarrow> init_nr_pdcp_entity NR_PDCP_DRB_AM gnb 4 0 sdap sdap 12 100 (- 1))"

abbreviation example_pdcp :: "bool \<Rightarrow> nr_pdcp_entity_t" where
  "example_pdcp \<equiv> example_bearer False"

definition net_send :: "byte list \<Rightarrow> pdcp_net \<Rightarrow> pdcp_net" where
  "net_send sdu n =
     (case nr_pdcp_entity_process_sdu example_crypto (nt_tx n) sdu (nr_max_pdcp_pdu_size (int (length sdu))) of
        Inr (ret, pdu, tx') \<Rightarrow> n\<lparr>nt_tx := tx', nt_sdus := nt_sdus n @ [sdu], nt_pdus := nt_pdus n @ [pdu]\<rparr> | Inl _ \<Rightarrow> n)"

definition net_arrive :: "nat \<Rightarrow> pdcp_net \<Rightarrow> pdcp_net" where
  "net_arrive i n =
     (case nr_pdcp_entity_recv_pdu example_crypto (nt_rx n) (nt_pdus n ! i) of Inr rx' \<Rightarrow> n\<lparr>nt_rx := rx'\<rparr> | Inl _ \<Rightarrow> n)"

definition example_link :: "bool \<Rightarrow> pdcp_net" where
  "example_link sdap =
     \<lparr>nt_tx = example_bearer sdap True, nt_rx = example_bearer sdap False, nt_sdus = [], nt_pdus = [], nt_expired = False\<rparr>"

abbreviation example_net :: pdcp_net where
  "example_net \<equiv> example_link False"

definition "example_net1 = net_send [4] (net_send [1, 2, 3] example_net)"

definition "example_net2 = net_arrive 0 (net_arrive 1 example_net1)"

lemma net_send_run:
  assumes "(if pe_has_sdap_tx (nt_tx n) then 1 else 0) < length sdu \<and> length sdu < 100 \<and> length (nt_sdus n) < 100"
  shows "(pdcp_step example_crypto example_crypto)\<^sup>*\<^sup>* n (net_send sdu n)"
proof -
  have "sdu_fits (nt_tx n) sdu" "Suc (length (nt_sdus n)) < 2 ^ 32" using assms by (simp_all add: sdu_fits_def)
  note send = pdcp_step.send [OF this]
  show ?thesis by (auto simp: net_send_def split: sum.split intro!: r_into_rtranclp send)
qed

lemma net_arrive_run:
  "i < length (nt_pdus n) \<and> in_rx_window (nt_rx n) i \<Longrightarrow> (pdcp_step example_crypto example_crypto)\<^sup>*\<^sup>* n (net_arrive i n)"
  by (auto simp: net_arrive_def split: sum.split intro!: r_into_rtranclp pdcp_step.arrive)

lemma example_openssl: "openssl_ok example_crypto"
  by (simp add: openssl_ok_def example_crypto_def comp_def xor.assoc [symmetric])

lemma example_link_start: "pdcp_start example_crypto example_crypto (example_link sdap)"
proof -
  have "pdcp_sec_ok (example_bearer sdap gnb)" "pdcp_cfg (example_bearer sdap gnb)" for gnb
    by (simp_all add: example_bearer_def new_nr_pdcp_entity_def nr_pdcp_entity_set_security_def set_integrity_def set_ciphering_def
        init_nr_pdcp_entity_def example_keys_def free_context_def pdcp_sec_ok_def ciphering_ok_def integrity_ok_def pdcp_cfg_def)
  moreover have "pe_keys (example_bearer sdap gnb) = example_keys 2 2 7" "pe_rb_id (example_bearer sdap gnb) = 4"
    "pe_sn_size (example_bearer sdap gnb) = 12" "pe_type (example_bearer sdap gnb) = NR_PDCP_DRB_AM" "pe_is_gnb (example_bearer sdap gnb) = gnb"
    "pe_has_sdap_rx (example_bearer sdap gnb) = sdap" "pe_has_sdap_tx (example_bearer sdap gnb) = sdap" "\<not> pe_suspended (example_bearer sdap gnb)"
    "pe_tx_next (example_bearer sdap gnb) = 0" "pe_rx_next (example_bearer sdap gnb) = 0" "pe_rx_deliv (example_bearer sdap gnb) = 0"
    "pe_rx_list (example_bearer sdap gnb) = []" "pe_upcalls (example_bearer sdap gnb) = []" "pe_t_reordering_start (example_bearer sdap gnb) = 0" for gnb
    by (simp_all add: example_bearer_def new_nr_pdcp_entity_def nr_pdcp_entity_set_security_def set_integrity_def set_ciphering_def
        init_nr_pdcp_entity_def example_keys_def free_context_def)
  ultimately show ?thesis using example_openssl
    by (simp add: pdcp_start_def pdcp_pair_def sec_peers_def example_link_def same_library_def)
qed

lemmas example_net_start = example_link_start [of False]

lemma example_net_run: "(pdcp_step example_crypto example_crypto)\<^sup>*\<^sup>* example_net example_net2"
proof -
  have "(if pe_has_sdap_tx (nt_tx example_net) then 1 else 0) < length [1, 2, 3 :: byte] \<and> length [1, 2, 3 :: byte] < 100 \<and>
      length (nt_sdus example_net) < 100" by code_simp
  note 1 = net_send_run [OF this]
  have "(if pe_has_sdap_tx (nt_tx (net_send [1, 2, 3] example_net)) then 1 else 0) < length [4 :: byte] \<and> length [4 :: byte] < 100 \<and>
      length (nt_sdus (net_send [1, 2, 3] example_net)) < 100" by code_simp
  note 2 = net_send_run [OF this, folded example_net1_def]
  have "1 < length (nt_pdus example_net1) \<and> in_rx_window (nt_rx example_net1) 1" by code_simp
  note 3 = net_arrive_run [OF this]
  have "0 < length (nt_pdus (net_arrive 1 example_net1)) \<and> in_rx_window (nt_rx (net_arrive 1 example_net1)) 0" by code_simp
  note 4 = net_arrive_run [OF this, folded example_net2_def]
  from 1 2 3 4 show ?thesis by (meson rtranclp_trans)
qed

theorem pdcp_network_delivery_witness:
  "pdcp_start example_crypto example_crypto example_net \<and> (pdcp_step example_crypto example_crypto)\<^sup>*\<^sup>* example_net example_net2 \<and>
   map ps_buffer (pe_upcalls (nt_rx example_net2)) =
     nths (nt_sdus example_net2) (unat ` ps_count ` set (pe_upcalls (nt_rx example_net2))) \<and>
   map ps_buffer (pe_upcalls (nt_rx example_net2)) = [[1, 2, 3], [4]]"
proof -
  have "map ps_buffer (pe_upcalls (nt_rx example_net2)) = [[1, 2, 3], [4]]" by code_simp
  with pdcp_network_delivery [OF example_net_start example_net_run] show ?thesis
    using example_net_start example_net_run by blast
qed

end
