(* ===== verification/Nr_Pdcp_Recv.thy ===== *)
theory Nr_Pdcp_Recv
  imports Nr_Pdcp_Net
begin

text \<open>
  The PDCP receiver against arbitrary input: which byte strings make it leave its buffer, what it does
  with all the others, which COUNT it assigns, and what a stray sequence number does to a new bearer.
  Then suspension and re-establishment.
\<close>

section \<open>Headers of arbitrary PDUs\<close>

text \<open>The buffer after the flag of data PDUs has been forced.\<close>

definition flagged :: "nr_pdcp_entity_t \<Rightarrow> byte list \<Rightarrow> byte list" where
  "flagged e buf = (if pe_type e \<noteq> NR_PDCP_SRB \<and> buf ! 0 AND 0x80 = 0 then buf[0 := buf ! 0 OR 128] else buf)"

lemma length_flagged [simp]: "length (flagged e buf) = length buf"
  by (simp add: flagged_def)

lemma flag_and_mask: "((x :: byte) OR 128) AND 0xf = x AND 0xf" "((x :: byte) OR 128) AND 0x3 = x AND 0x3"
  by (simp_all add: bit.conj_disj_distrib2)

lemma recv_header_flagged [simp]: "recv_header e (flagged e buf) = recv_header e buf"
  by (cases buf) (auto simp: recv_header_def flagged_def flag_and_mask)

lemma recv_header_short: "length buf < pdcp_header_size e \<Longrightarrow> recv_header e buf = Inl Out_of_bounds"
  by (auto simp: recv_header_def pdcp_header_size_def split: if_splits)

lemma uint_less_take_bit: "take_bit n w = w \<Longrightarrow> uint (w :: u32) < 2 ^ n"
  by (metis take_bit_int_less_exp unsigned_take_bit_eq)

lemma uint_or_bytes:
  "uint (push_bit 8 (ucast ((x :: byte) AND 0xf)) OR ucast (y :: byte) :: u32) < 2 ^ 12"
  "uint (push_bit 16 (ucast ((x :: byte) AND 0x3)) OR push_bit 8 (ucast (y :: byte)) OR ucast (z :: byte) :: u32) < 2 ^ 18"
  unfolding byte_consts
  by (rule uint_less_take_bit, rule bit_word_eqI, use bit_imp_le_length in \<open>fastforce simp: bit_simps\<close>)+

lemma recv_header_ok:
  assumes "pdcp_cfg e" "pdcp_header_size e \<le> length buf"
  obtains sn where "recv_header e buf = Inr (sn, int (pdcp_header_size e))" "0 \<le> sn" "sn < 2 ^ pe_sn_size e"
proof -
  from assms(1) consider "pe_sn_size e = 12" | "pe_sn_size e = 18" by (auto simp: pdcp_cfg_def)
  then show thesis
  proof cases
    case 1
    show thesis
      by (rule that [of "uint (push_bit 8 (ucast (buf ! 0 AND 0xf)) OR ucast (buf ! 1) :: u32)"])
        (use 1 assms(2) uint_or_bytes(1) in \<open>auto simp: recv_header_def pdcp_header_size_def\<close>)
  next
    case 2
    show thesis
      by (rule that [of "uint (push_bit 16 (ucast (buf ! 0 AND 0x3)) OR push_bit 8 (ucast (buf ! 1)) OR ucast (buf ! 2) :: u32)"])
        (use 2 assms(2) uint_or_bytes(2) in \<open>auto simp: recv_header_def pdcp_header_size_def\<close>)
  qed
qed

text \<open>The COUNT that the receiver assigns to a PDU.\<close>

definition pdu_sn :: "nr_pdcp_entity_t \<Rightarrow> byte list \<Rightarrow> int" where
  "pdu_sn e buf = (case recv_header e buf of Inr (sn, _) \<Rightarrow> sn | Inl _ \<Rightarrow> 0)"

definition pdu_count :: "nr_pdcp_entity_t \<Rightarrow> byte list \<Rightarrow> u32" where
  "pdu_count e buf = recv_count e (pdu_sn e buf)"

section \<open>Security operations on arbitrary input\<close>

lemma decipher_total:
  assumes "sec_peers C e C e" "pe_has_ciphering e" "dir = 0 \<or> dir = 1" "0 \<le> pos" "pos < int (length buf)" "length buf < 2 ^ 29"
  obtains buf2 where "pdcp_cipher C e buf pos (int (length buf) - pos) count dir = Inr buf2" "length buf2 = length buf"
proof -
  let ?m = "take (nat (int (length buf) - pos)) (drop (nat pos) buf)"
  have r: "region_ok ?m" using assms(4-6) by auto
  from stream_cipher.crypt_returns [OF peers_cipher [OF assms(1-3)] r, of count] obtain c where
    c: "cipher_call C e ?m count dir = Inr c" "length c = length ?m" by blast
  have "pdcp_cipher C e buf pos (int (length buf) - pos) count dir =
      Inr (take (nat pos) buf @ c @ drop (nat pos + nat (int (length buf) - pos)) buf)"
    using assms(5) c(1) by (simp add: pdcp_cipher_def)
  then show thesis by (rule that) (use c(2) assms(4,5) in auto)
qed

lemma check_integrity_total:
  assumes "sec_peers C e C e" "pe_has_integrity e \<longrightarrow> 4 < length buf" "length buf < 2 ^ 29"
  shows "\<exists>ok. recv_check_integrity C e buf count = Inr ok"
proof (cases "pe_has_integrity e")
  case True
  have "region_ok (take (length buf - 4) buf)" using assms(2,3) True by auto
  from auth_code.mac_returns [OF peers_integrity [OF assms(1) True] this] obtain t where
    "pdcp_integrity C e [0, 0, 0, 0] (take (length buf - 4) buf) count (if pe_is_gnb e then 0 else 1) = Inr t" by blast
  then show ?thesis by (simp add: recv_check_integrity_def Let_def True)
qed (auto simp: recv_check_integrity_def)

text \<open>What the receiver takes for the plain text of a PDU, and whether its code is right.\<close>

definition plain_pdu :: "crypto \<Rightarrow> nr_pdcp_entity_t \<Rightarrow> byte list \<Rightarrow> byte list res" where
  "plain_pdu C e buf =
     (let pos = int (pdcp_header_size e) + (if pe_has_sdap_rx e then 1 else 0)
      in if pe_has_ciphering e
         then pdcp_cipher C e (flagged e buf) pos (int (length buf) - pos) (pdu_count e buf) (if pe_is_gnb e then 0 else 1)
         else Inr (flagged e buf))"

definition authentic :: "crypto \<Rightarrow> nr_pdcp_entity_t \<Rightarrow> byte list \<Rightarrow> bool" where
  "authentic C e buf \<longleftrightarrow> bindr (plain_pdu C e buf) (\<lambda>plain. recv_check_integrity C e plain (pdu_count e buf)) = Inr True"

section \<open>Reception of arbitrary PDUs\<close>

lemma recv_pdu_short:
  assumes "\<not> pe_suspended e" "buf \<noteq> []" "length buf < pdcp_header_size e"
  shows "nr_pdcp_entity_recv_pdu C e buf = Inl Out_of_bounds"
proof -
  have "recv_header e (flagged e buf) = Inl Out_of_bounds" using recv_header_short [OF assms(3)] by simp
  then show ?thesis
    using assms(1,2) unfolding nr_pdcp_entity_recv_pdu_def Let_def flagged_def [symmetric] by (simp add: Suc_le_eq)
qed

text \<open>
  A PDU with a complete header is dropped, with a change of the statistics only, or it is authentic,
  new and large enough, and its plain text is stored under its COUNT.
\<close>

lemma recv_pdu_cases:
  assumes cfg: "pdcp_cfg e" and sec: "sec_peers C e C e" and ns: "\<not> pe_suspended e"
    and len: "pdcp_header_size e \<le> length buf" "length buf < 2 ^ 28"
  obtains (drop) st where "nr_pdcp_entity_recv_pdu C e buf = Inr (e\<lparr>pe_stats := st\<rparr>)"
    | (store) st sdu bytes where "nr_pdcp_entity_recv_pdu C e buf = Inr (recv_store (e\<lparr>pe_stats := st\<rparr>) sdu bytes)"
      "ps_count sdu = pdu_count e buf" "authentic C e buf"
      "\<not> pdu_count e buf < pe_rx_deliv e" "pdu_count e buf \<notin> ps_count ` set (pe_rx_list e)"
proof -
  let ?hs = "int (pdcp_header_size e)" and ?sdap = "if pe_has_sdap_rx e then 1 else 0 :: int"
  obtain sn where h: "recv_header e (flagged e buf) = Inr (sn, ?hs)" using recv_header_ok [OF cfg len(1)] by auto
  then have c: "recv_count e sn = pdu_count e buf" by (simp add: pdu_count_def pdu_sn_def)
  have ne: "buf \<noteq> []" using len(1) by (auto simp: pdcp_header_size_def split: if_splits)
  obtain st st' where run: "nr_pdcp_entity_recv_pdu C e buf = recv_data C e (flagged e buf) sn ?hs st st'"
    by (rule recv_pdu_data [OF ns ne h [unfolded flagged_def], folded flagged_def])
  show thesis
  proof (cases "int (length buf) < ?hs + ?sdap + pdcp_integrity_size e + 1")
    case True
    then show thesis using run by (intro drop) (simp add: recv_data_def Let_def)
  next
    case False
    have "\<exists>plain. plain_pdu C e buf = Inr plain \<and> length plain = length buf"
    proof (cases "pe_has_ciphering e")
      case True
      have "0 \<le> ?hs + ?sdap" "?hs + ?sdap < int (length (flagged e buf))" "length (flagged e buf) < 2 ^ 29"
        "(if pe_is_gnb e then 0 else 1) = (0 :: int) \<or> (if pe_is_gnb e then 0 else 1) = (1 :: int)"
        using False len(2) by (auto simp: pdcp_integrity_size_def split: if_splits)
      from decipher_total [OF sec True this(4,1-3)] show ?thesis unfolding plain_pdu_def Let_def using True by (metis length_flagged)
    qed (simp add: plain_pdu_def)
    then obtain plain where pl: "plain_pdu C e buf = Inr plain" "length plain = length buf" by blast
    have "pe_has_integrity e \<longrightarrow> 4 < length plain" using False pl(2) by (auto simp: pdcp_integrity_size_def split: if_splits)
    then obtain ok where ok: "recv_check_integrity C e plain (pdu_count e buf) = Inr ok"
      using check_integrity_total [OF sec, of plain] pl(2) len(2) by fastforce
    have r: "nr_pdcp_entity_recv_pdu C e buf =
      (if \<not> ok \<or> pdu_count e buf < pe_rx_deliv e \<or> pdu_count e buf \<in> ps_count ` set (pe_rx_list e) then Inr (e\<lparr>pe_stats := st\<rparr>)
       else Inr (recv_store (e\<lparr>pe_stats := st'\<rparr>)
         (nr_pdcp_new_sdu (pdu_count e buf) (take (nat (int (length buf) - ?hs - pdcp_integrity_size e)) (drop (nat ?hs) plain))
           (recv_integrity_data e (flagged e buf) ?hs (pdu_count e buf))) (int (length buf) - ?hs)))"
      unfolding run recv_data_def Let_def c length_flagged using False pl(1) ok
      by (simp only: plain_pdu_def Let_def in_list_iff) simp
    show thesis
    proof (cases "\<not> ok \<or> pdu_count e buf < pe_rx_deliv e \<or> pdu_count e buf \<in> ps_count ` set (pe_rx_list e)")
      case True
      then show thesis using r by (intro drop) simp
    next
      case False
      moreover from this have "authentic C e buf" using pl(1) ok by (simp add: authentic_def)
      moreover have "ps_count (nr_pdcp_new_sdu c b mi) = c" for c b mi by (simp add: nr_pdcp_new_sdu_def)
      ultimately show thesis by (intro store [OF r [unfolded if_not_P [OF False]]]) simp_all
    qed
  qed
qed

lemma word_not_max: "c \<noteq> - 1 \<Longrightarrow> (c :: u32) < - 1"
  by (simp add: order.not_eq_order_implies_strict)

lemma recv_pdu_keeps:
  assumes cfg: "pdcp_cfg e" and sec: "sec_peers C e C e" and inv: "pdcp_rx_inv e" "pdcp_order_inv e"
    and len: "pe_suspended e \<or> buf = [] \<or> pdcp_header_size e \<le> length buf" "length buf < 2 ^ 28" and top: "pdu_count e buf \<noteq> - 1"
  obtains e' ss where "nr_pdcp_entity_recv_pdu C e buf = Inr e'" "pdcp_static e' = pdcp_static e"
    "pdcp_rx_inv e'" "pdcp_order_inv e'" "pe_upcalls e' = pe_upcalls e @ ss"
    "(pe_rx_list e', pe_upcalls e') \<noteq> (pe_rx_list e, pe_upcalls e) \<longrightarrow> authentic C e buf"
proof (cases "pe_suspended e \<or> buf = []")
  case True
  then have "nr_pdcp_entity_recv_pdu C e buf = Inr e" by (auto simp: nr_pdcp_entity_recv_pdu_def)
  then show thesis by (rule that [of _ "[]"]) (use inv in simp_all)
next
  case False
  then have ns: "\<not> pe_suspended e" and hl: "pdcp_header_size e \<le> length buf" using len(1) by auto
  show thesis
  proof (cases rule: recv_pdu_cases [OF cfg sec ns hl len(2)])
    case (1 st)
    then show thesis by (rule that [of _ "[]"]) (use inv in \<open>simp_all add: pdcp_rx_inv_def pdcp_order_inv_def\<close>)
  next
    case (2 st sdu bytes)
    let ?e = "e\<lparr>pe_stats := st\<rparr>"
    have i: "pdcp_rx_inv ?e" "pdcp_order_inv ?e" using inv by (simp_all add: pdcp_rx_inv_def pdcp_order_inv_def)
    have new: "pe_rx_deliv ?e \<le> ps_count sdu" "ps_count sdu \<notin> ps_count ` set (pe_rx_list ?e)" "ps_count sdu < - 1"
      using 2 word_not_max [OF top] by (simp_all add: not_less)
    obtain ss where "pe_upcalls (recv_store ?e sdu bytes) = pe_upcalls ?e @ ss" by (rule recv_store_parts [OF i(1) new])
    then show thesis
      by (intro that [OF 2(1)]) (simp_all add: 2(3) recv_store_inv [OF i new] recv_store_static)
  qed
qed

text \<open>
  C9: reception of bytes that may come from anyone. The entity has consistent security settings and a
  consistent reordering buffer; the PDU is shorter than 2^28 bytes and the COUNT that is assigned to it
  is not the last one, 2^32 - 1 (which a new bearer assigns to the highest sequence number, too). An
  entity that is not suspended faults when the PDU is not empty but shorter than the header: it reads
  outside of the buffer. In all other cases, empty PDUs and suspended entities included, the PDU is taken
  (or ignored) without a fault: the configuration stays, the
  reordering buffer stays consistent (its entries are strictly ordered and in the window), more SDUs may
  be delivered, all in strictly increasing order of COUNT, and only a PDU whose code is right under the
  COUNT assigned to it changes the buffer or is delivered.
\<close>

theorem pdcp_recv_pdu_safe:
  assumes "pdcp_cfg e" "sec_peers C e C e" "pdcp_rx_inv e" "pdcp_order_inv e" "length buf < 2 ^ 28" "pdu_count e buf \<noteq> - 1"
  shows "if \<not> pe_suspended e \<and> 0 < length buf \<and> length buf < pdcp_header_size e
    then nr_pdcp_entity_recv_pdu C e buf = Inl Out_of_bounds
    else \<exists>e' ss. nr_pdcp_entity_recv_pdu C e buf = Inr e' \<and> pdcp_static e' = pdcp_static e \<and>
      pdcp_rx_inv e' \<and> pdcp_order_inv e' \<and> pe_upcalls e' = pe_upcalls e @ ss \<and>
      ((pe_rx_list e', pe_upcalls e') \<noteq> (pe_rx_list e, pe_upcalls e) \<longrightarrow> authentic C e buf)"
proof (cases "\<not> pe_suspended e \<and> 0 < length buf \<and> length buf < pdcp_header_size e")
  case True
  then show ?thesis using recv_pdu_short [of e buf C] by simp
next
  case False
  then have "pe_suspended e \<or> buf = [] \<or> pdcp_header_size e \<le> length buf" by auto
  from recv_pdu_keeps [OF assms(1-4) this assms(5,6)] False show ?thesis by (metis (no_types, lifting))
qed

theorem pdcp_recv_pdu_safe_witness:
  "\<exists>e' ss. nr_pdcp_entity_recv_pdu example_crypto (example_pdcp False) [0x80, 5, 1, 2, 3, 4, 5, 6] = Inr e' \<and>
      pdcp_static e' = pdcp_static (example_pdcp False) \<and>
      pdcp_rx_inv e' \<and> pdcp_order_inv e' \<and> pe_upcalls e' = pe_upcalls (example_pdcp False) @ ss \<and>
      ((pe_rx_list e', pe_upcalls e') \<noteq> (pe_rx_list (example_pdcp False), pe_upcalls (example_pdcp False)) \<longrightarrow>
        authentic example_crypto (example_pdcp False) [0x80, 5, 1, 2, 3, 4, 5, 6])"
proof -
  let ?e = "example_pdcp False"
  note s = example_net_start [unfolded pdcp_start_def pdcp_pair_def]
  have "pdcp_cfg ?e" using s by (simp add: example_link_def)
  moreover have "sec_peers example_crypto ?e example_crypto ?e" using s by (simp add: example_link_def sec_peers_def same_library_def)
  moreover have "pdcp_rx_inv ?e" "pdcp_order_inv ?e"
    using s by (simp_all add: example_link_def pdcp_rx_inv_def pdcp_order_inv_def by_count_def)
  moreover have "pdu_count ?e [0x80, 5, 1, 2, 3, 4, 5, 6] \<noteq> - 1" by code_simp
  moreover have "pdcp_header_size ?e = 2" by code_simp
  ultimately show ?thesis using pdcp_recv_pdu_safe [of ?e example_crypto "[0x80, 5, 1, 2, 3, 4, 5, 6]"] by simp
qed

end
