(* ===== verification/Nr_Pdcp_Count.thy ===== *)
theory Nr_Pdcp_Count
  imports Nr_Pdcp_Recv
begin

text \<open>
  The COUNT that a receiver assigns, characterised in 32 bit arithmetic, and what happens when the
  window reaches below zero; suspension and re-establishment of an entity.
\<close>

section \<open>The window of COUNT values\<close>

lemma sn_space: "pdcp_cfg e \<Longrightarrow> (2 :: int) ^ pe_sn_size e < 2 ^ 32"
  using power_strict_increasing [of "pe_sn_size e" 32 "2 :: int"] pdcp_cfgD(2) by simp

lemma uint_of_small: "0 \<le> x \<Longrightarrow> x < 2 ^ 32 \<Longrightarrow> uint (word_of_int x :: u32) = x"
  by (simp add: uint_word_of_int)

lemma recv_count_iff:
  assumes cfg: "pdcp_cfg e"
  shows "recv_count e (uint c mod 2 ^ pe_sn_size e) = c \<longleftrightarrow>
    uint (c - pe_rx_deliv e + word_of_int (pe_window_size e)) < 2 ^ pe_sn_size e"
proof -
  let ?n = "pe_sn_size e" and ?W = "pe_window_size e" and ?d = "uint (pe_rx_deliv e)"
  note n = pdcp_cfgD [OF cfg]
  have m: "2 * ?W = 2 ^ ?n" "(2 :: int) ^ ?n < 2 ^ 32" using n sn_space [OF cfg] by auto
  have r: "0 \<le> uint c mod 2 ^ ?n" "uint c mod 2 ^ ?n < 2 ^ ?n" by simp_all
  note rc = recv_count_nearest [OF cfg r] and nr = nearest_range [OF cfg r]
  have shift: "c - pe_rx_deliv e + word_of_int ?W = word_of_int (x - ?d + ?W)" if "c = word_of_int x" for x
    using that by simp
  show ?thesis
  proof
    assume "recv_count e (uint c mod 2 ^ ?n) = c"
    then have c: "c = word_of_int (nearest e (uint c mod 2 ^ ?n))" using rc by simp
    let ?y = "nearest e (uint c mod 2 ^ ?n) - ?d + ?W"
    have y: "0 \<le> ?y" "?y < 2 ^ ?n" using nr(1,2) m(1) by linarith+
    then have "uint (word_of_int ?y :: u32) = ?y" using m(2) by (intro uint_of_small) linarith+
    then show "uint (c - pe_rx_deliv e + word_of_int ?W) < 2 ^ ?n" using shift [OF c] y(2) by simp
  next
    assume l: "uint (c - pe_rx_deliv e + word_of_int ?W) < 2 ^ ?n"
    define x where "x = uint (c - pe_rx_deliv e + word_of_int ?W) + ?d - ?W"
    have x: "?d - ?W \<le> x" "x < ?d + ?W" using l m(1) by (simp_all add: x_def)
    have c: "c = word_of_int x" by (simp add: x_def)
    have "uint c = x mod 2 ^ 32" using c by (simp add: uint_word_of_int)
    moreover have "(2 :: int) ^ ?n dvd 2 ^ 32" using n le_imp_power_dvd [of ?n 32 "2 :: int"] by simp
    ultimately have "uint c mod 2 ^ ?n = x mod 2 ^ ?n" by (simp add: mod_mod_cancel)
    then show "recv_count e (uint c mod 2 ^ ?n) = c" using rc nearest_unique [OF cfg x] c by simp
  qed
qed

text \<open>
  which PDUs are recognised. The receiver reconstructs a COUNT from its low order bits exactly
  when the COUNT is at most one half of the sequence number space before, or less than one half after,
  the next COUNT to deliver; the comparison is in 32 bit arithmetic, so that the window reaches over the
  wrap-around at both ends.
\<close>

lemma pdcp_count_window:
  assumes "pdcp_cfg e"
  shows "recv_count e (uint c mod 2 ^ pe_sn_size e) = c \<longleftrightarrow>
    c - pe_rx_deliv e + word_of_int (pe_window_size e) < word_of_int (2 ^ pe_sn_size e)"
proof -
  from uint_of_small [OF _ sn_space [OF assms]] have "uint (word_of_int (2 ^ pe_sn_size e) :: u32) = 2 ^ pe_sn_size e" by (simp del: of_int_power)
  then show ?thesis by (simp add: recv_count_iff [OF assms] word_less_def)
qed

lemma pdcp_count_window_example:
  "recv_count ((example_pdcp False)\<lparr>pe_rx_deliv := 5000\<rparr>) (uint (3000 :: u32) mod 2 ^ 12) = 3000"
proof -
  have "pdcp_cfg ((example_pdcp False)\<lparr>pe_rx_deliv := 5000\<rparr>)" by code_simp
  from pdcp_count_window [OF this, of 3000] show ?thesis by code_simp
qed

section \<open>A stray sequence number at the start of a bearer\<close>

definition open_bearer :: "nr_pdcp_entity_t \<Rightarrow> bool" where
  "open_bearer e \<longleftrightarrow> pdcp_cfg e \<and> \<not> pe_suspended e \<and> \<not> pe_has_ciphering e \<and> \<not> pe_has_integrity e \<and> pe_type e \<noteq> NR_PDCP_SRB"

lemma recv_pdu_open:
  assumes "open_bearer e" "pdcp_header_size e + (if pe_has_sdap_rx e then 1 else 0) < length buf"
  obtains st st' sdu bytes where "ps_count sdu = pdu_count e buf" "nr_pdcp_entity_recv_pdu C e buf =
    Inr (if pdu_count e buf < pe_rx_deliv e \<or> pdu_count e buf \<in> ps_count ` set (pe_rx_list e)
         then e\<lparr>pe_stats := st\<rparr> else recv_store (e\<lparr>pe_stats := st'\<rparr>) sdu bytes)"
proof -
  have o: "pdcp_cfg e" "\<not> pe_suspended e" "\<not> pe_has_ciphering e" "\<not> pe_has_integrity e" "pe_type e \<noteq> NR_PDCP_SRB"
    using assms(1) by (simp_all add: open_bearer_def)
  obtain sn where h: "recv_header e (flagged e buf) = Inr (sn, int (pdcp_header_size e))"
    using recv_header_ok [OF o(1), of buf] assms(2) by (auto split: if_splits)
  then have c: "recv_count e sn = pdu_count e buf" by (simp add: pdu_count_def pdu_sn_def)
  have ne: "buf \<noteq> []" using assms(2) by auto
  obtain st st' where run: "nr_pdcp_entity_recv_pdu C e buf = recv_data C e (flagged e buf) sn (int (pdcp_header_size e)) st st'"
    by (rule recv_pdu_data [OF o(2) ne h [unfolded flagged_def], folded flagged_def])
  have "\<not> int (length buf) < int (pdcp_header_size e) + (if pe_has_sdap_rx e then 1 else 0) + 0 + 1"
    using assms(2) by (simp split: if_splits)
  moreover have "pdcp_integrity_size e = 0" using o(4,5) by (simp add: pdcp_integrity_size_def)
  moreover have "recv_check_integrity C e b c = Inr True" for b c using o(4) by (simp add: recv_check_integrity_def)
  ultimately have "nr_pdcp_entity_recv_pdu C e buf =
    Inr (if pdu_count e buf < pe_rx_deliv e \<or> pdu_count e buf \<in> ps_count ` set (pe_rx_list e)
         then e\<lparr>pe_stats := st\<rparr>
         else recv_store (e\<lparr>pe_stats := st'\<rparr>) (nr_pdcp_new_sdu (pdu_count e buf)
           (take (nat (int (length buf) - int (pdcp_header_size e))) (drop (nat (int (pdcp_header_size e))) (flagged e buf)))
           (recv_integrity_data e (flagged e buf) (int (pdcp_header_size e)) (pdu_count e buf))) (int (length buf) - int (pdcp_header_size e)))"
    unfolding run recv_data_def Let_def c length_flagged in_list_iff using o(3) by simp
  then show thesis by (intro that) (simp_all add: nr_pdcp_new_sdu_def)
qed

lemma stray_count:
  assumes "pdcp_cfg e" "pe_rx_deliv e = 0" "pe_window_size e \<le> sn" "sn < 2 ^ pe_sn_size e"
  shows "recv_count e sn = word_of_int (sn - 2 ^ pe_sn_size e)"
proof -
  have "0 \<le> sn" using assms(3) pdcp_cfgD [OF assms(1)] by simp
  from recv_count_nearest [OF assms(1) this assms(4)] show ?thesis
    using assms(2,3) pdcp_cfgD [OF assms(1)] by (simp add: nearest_def)
qed

lemma high_hfn:
  assumes "pdcp_cfg e" "0 \<le> s" "s < 2 ^ pe_sn_size e"
  shows "uint (word_of_int (s - 2 ^ pe_sn_size e) :: u32) = 2 ^ 32 - 2 ^ pe_sn_size e + s"
proof -
  let ?x = "2 ^ 32 - 2 ^ pe_sn_size e + s"
  have "(s - 2 ^ pe_sn_size e) mod 2 ^ 32 = ?x mod 2 ^ 32" by (simp add: mod_eq_dvd_iff)
  moreover have "0 \<le> ?x" "?x < 2 ^ 32" using assms(2,3) sn_space [OF assms(1)] by linarith+
  ultimately show ?thesis unfolding uint_word_of_int by simp
qed

text \<open>With the highest HFN, a lower sequence number is old, whether the window wraps around or not.\<close>

lemma count_below:
  assumes cfg: "pdcp_cfg e" and d: "pe_rx_deliv e = word_of_int (s - 2 ^ pe_sn_size e)" and s: "s < 2 ^ pe_sn_size e" and sn: "0 \<le> sn" "sn < s"
  shows "recv_count e sn < pe_rx_deliv e"
proof -
  let ?m = "2 ^ pe_sn_size e :: int" and ?d = "uint (pe_rx_deliv e)"
  have ud: "?d = 2 ^ 32 - ?m + s" using d high_hfn [OF cfg _ s] sn by simp
  obtain q :: int where q: "2 ^ 32 = ?m * q"
    using le_imp_power_dvd [of "pe_sn_size e" 32 "2 :: int"] pdcp_cfgD(2) [OF cfg] by (auto elim!: dvdE)
  have dq: "?d = ?m * (q - 1) + s" using ud q by (simp add: right_diff_distrib)
  then have md: "?d mod ?m = s" "?d div ?m = q - 1" using s sn by (auto simp: div_mult_self4)
  have rc: "recv_count e sn = word_of_int (nearest e sn)" using recv_count_nearest [OF cfg sn(1)] sn(2) s by simp
  have W: "0 < pe_window_size e" "?m < 2 ^ 32" using pdcp_cfgD [OF cfg] sn_space [OF cfg] by simp_all
  show ?thesis
  proof (cases "sn < s - pe_window_size e")
    case True
    then have "nearest e sn = 2 ^ 32 + sn" using md q by (simp add: nearest_def Let_def)
    then have "recv_count e sn = word_of_int sn" using rc by simp
    moreover have "uint (word_of_int sn :: u32) = sn" using sn s W(2) by (intro uint_of_small) linarith+
    ultimately show ?thesis unfolding word_less_def using ud W(2) sn by simp
  next
    case False
    then have "nearest e sn = ?d - s + sn" using md sn W(1) dq by (simp add: nearest_def Let_def)
    moreover from this have "uint (word_of_int (nearest e sn) :: u32) = nearest e sn"
      using ud sn s W(2) by (intro uint_of_small) linarith+
    ultimately show ?thesis unfolding word_less_def rc using sn by simp
  qed
qed

lemma open_static:
  assumes "pdcp_static e' = pdcp_static e"
  shows "pdu_sn e' buf = pdu_sn e buf" and "open_bearer e' = open_bearer e"
  by (simp_all only: pdu_sn_def recv_header_def open_bearer_def pdcp_cfg_def pdcp_staticD [OF assms])

text \<open>The first SDU of a new bearer with a COUNT that is not zero, and the expiry of the timer that it starts.\<close>

lemma store_first:
  fixes e :: nr_pdcp_entity_t
  assumes "pe_rx_deliv e = 0" "pe_rx_next e = 0" "pe_rx_list e = []" "pe_t_reordering_start e = 0" "pe_t_current e \<noteq> 0"
    "pe_t_reordering e \<noteq> - 1" "pe_t_current e + word_of_int (pe_t_reordering e) < now" "ps_count sdu \<noteq> 0" "ps_count sdu + 1 \<noteq> 0"
  shows "pe_rx_deliv (nr_pdcp_entity_set_time (recv_store e sdu bytes) now) = ps_count sdu + 1"
proof -
  let ?c = "ps_count sdu" and ?r = "recv_store e sdu bytes"
  have pos: "0 < ?c" "0 < ?c + 1" using assms(8,9) by (simp_all add: word_gt_0)
  have lt: "?c < ?c + 1" using assms(9) by (intro word_succ(1) [OF word_not_max]) auto
  have r: "pe_rx_list ?r = [sdu]" "pe_rx_next ?r = ?c + 1" "pe_rx_reord ?r = ?c + 1" "pe_t_reordering_start ?r = pe_t_current e"
    "pe_t_reordering ?r = pe_t_reordering e"
    using assms(1-5,8) pos by (simp_all add: recv_store_def Let_def nr_pdcp_sdu_list_add_def)
  have "\<not> now \<le> pe_t_current e + word_of_int (pe_t_reordering e)" using assms(7) by (simp add: not_le)
  with r lt assms(5,6) show ?thesis
    by (simp add: nr_pdcp_entity_set_time_def check_t_reordering_def Let_def deliver_head_def)
qed

text \<open>
  a stray sequence number on a new bearer without ciphering and integrity. When the first PDU has
  a sequence number of the upper half, its HFN is computed as zero minus one: it is stored with a COUNT
  just below \<open>2^32\<close> instead of being dropped. At the next expiry of the reordering timer the next COUNT
  to deliver is behind it, and from then on every PDU with a sequence number up to the stray one is
  dropped.
\<close>

lemma pdcp_stray_sn:
  assumes "open_bearer e" "pe_rx_deliv e = 0" "pe_rx_next e = 0" "pe_rx_list e = []" "pe_t_reordering_start e = 0"
    "pe_t_current e \<noteq> 0" "pe_t_reordering e \<noteq> - 1" "pe_t_current e + word_of_int (pe_t_reordering e) < now"
    "pdcp_header_size e + 1 < length buf" "pe_window_size e \<le> pdu_sn e buf" "pdu_sn e buf + 1 < 2 ^ pe_sn_size e"
  shows "\<exists>e1. nr_pdcp_entity_recv_pdu C e buf = Inr e1 \<and>
    pe_rx_deliv (nr_pdcp_entity_set_time e1 now) = word_of_int (pdu_sn e buf + 1 - 2 ^ pe_sn_size e) \<and>
    (\<forall>buf'. pdcp_header_size e + 1 < length buf' \<and> pdu_sn e buf' \<le> pdu_sn e buf \<longrightarrow>
      (\<exists>st. nr_pdcp_entity_recv_pdu C (nr_pdcp_entity_set_time e1 now) buf' = Inr ((nr_pdcp_entity_set_time e1 now)\<lparr>pe_stats := st\<rparr>)))"
proof -
  have cfg: "pdcp_cfg e" using assms(1) by (simp add: open_bearer_def)
  let ?m = "2 ^ pe_sn_size e :: int" and ?sn = "pdu_sn e buf"
  have fit: "pdcp_header_size x + (if pe_has_sdap_rx x then 1 else 0) < length b" if "pdcp_header_size x + 1 < length b" for x b
    using that by simp
  have c: "pdu_count e buf = word_of_int (?sn - ?m)"
    unfolding pdu_count_def by (rule stray_count [OF cfg assms(2,10)]) (use assms(11) in simp)
  have sn: "0 \<le> ?sn" "?sn < ?m" using assms(10,11) pdcp_cfgD [OF cfg] by linarith+
  have c1: "pdu_count e buf + 1 = word_of_int (?sn + 1 - ?m)" by (simp add: c)
  have "uint (pdu_count e buf) = 2 ^ 32 - ?m + ?sn" "uint (pdu_count e buf + 1) = 2 ^ 32 - ?m + (?sn + 1)"
    unfolding c1 unfolding c using high_hfn [OF cfg, of ?sn] high_hfn [OF cfg, of "?sn + 1"] sn assms(11) by simp_all
  then have nz: "pdu_count e buf \<noteq> 0" "pdu_count e buf + 1 \<noteq> 0" using sn sn_space [OF cfg] by (auto simp del: uint_add_lem)
  obtain st st' sdu bytes where r: "ps_count sdu = pdu_count e buf" "nr_pdcp_entity_recv_pdu C e buf =
    Inr (if pdu_count e buf < pe_rx_deliv e \<or> pdu_count e buf \<in> ps_count ` set (pe_rx_list e)
         then e\<lparr>pe_stats := st\<rparr> else recv_store (e\<lparr>pe_stats := st'\<rparr>) sdu bytes)"
    by (rule recv_pdu_open [OF assms(1) fit [OF assms(9)]])
  define e1 where "e1 = recv_store (e\<lparr>pe_stats := st'\<rparr>) sdu bytes"
  let ?e2 = "nr_pdcp_entity_set_time e1 now"
  have d: "pe_rx_deliv ?e2 = word_of_int (?sn + 1 - ?m)"
    unfolding e1_def c1 [symmetric] r(1) [symmetric]
    by (rule store_first) (use assms(2-8) nz r(1) in simp_all)
  have st2: "pdcp_static ?e2 = pdcp_static e" by (simp add: set_time_static e1_def recv_store_static)
  note o = open_static [OF st2] and hs = pdcp_staticD [OF st2]
  have "\<exists>st. nr_pdcp_entity_recv_pdu C ?e2 b = Inr (?e2\<lparr>pe_stats := st\<rparr>)"
    if b: "pdcp_header_size e + 1 < length b" "pdu_sn e b \<le> ?sn" for b
  proof -
    have len: "pdcp_header_size ?e2 + 1 < length b" using b(1) hs by (simp add: pdcp_header_size_def)
    then obtain sn where "recv_header e b = Inr (sn, int (pdcp_header_size e))" "0 \<le> sn"
      using recv_header_ok [OF cfg, of b] b(1) by auto
    then have "0 \<le> pdu_sn e b" by (simp add: pdu_sn_def)
    then have "recv_count ?e2 (pdu_sn e b) < pe_rx_deliv ?e2"
      using count_below [of ?e2 "?sn + 1" "pdu_sn e b"] d b(2) assms(1,11) o(2) hs(5) by (simp add: open_bearer_def)
    then have "pdu_count ?e2 b < pe_rx_deliv ?e2" by (simp add: pdu_count_def o)
    moreover have "open_bearer ?e2" using assms(1) o(2) by simp
    ultimately show ?thesis by (elim recv_pdu_open [OF _ fit [OF len], of C]) auto
  qed
  then show ?thesis using d r(2) assms(2,4) by (auto simp: e1_def)
qed

section \<open>Suspension and re-establishment\<close>

lemma suspend_spec:
  assumes "pe_rx_list e \<noteq> [] \<longrightarrow> pe_t_reordering_start e \<noteq> 0"
  shows "pe_upcalls (nr_pdcp_entity_suspend e) = pe_upcalls e @ pe_rx_list e" "pe_rx_list (nr_pdcp_entity_suspend e) = []"
    "pe_tx_next (nr_pdcp_entity_suspend e) = 0" "pe_rx_next (nr_pdcp_entity_suspend e) = 0" "pe_rx_deliv (nr_pdcp_entity_suspend e) = 0"
    "pe_t_reordering_start (nr_pdcp_entity_suspend e) = 0" "pe_suspended (nr_pdcp_entity_suspend e)"
    "pe_keys (nr_pdcp_entity_suspend e) = pe_keys e" "pdcp_sec_ok (nr_pdcp_entity_suspend e) = pdcp_sec_ok e"
  using assms by (auto simp: nr_pdcp_entity_suspend_def deliver_all_spec delivered_def Let_def pdcp_sec_ok_def ciphering_ok_def integrity_ok_def)

text \<open>The state after a restart, and that new security settings can be applied to it.\<close>

definition restarted :: "nr_pdcp_entity_t \<Rightarrow> bool" where
  "restarted e \<longleftrightarrow> pe_rx_list e = [] \<and> pe_tx_next e = 0 \<and> pe_rx_next e = 0 \<and> pe_rx_deliv e = 0 \<and> pe_t_reordering_start e = 0"

lemma resume_ok:
  assumes "pdcp_sec_ok x" "restarted x" "known_algorithm (integrity_algorithm p)" "known_algorithm (ciphering_algorithm p)"
  shows "\<exists>r. bindr (nr_pdcp_entity_set_security x p) (\<lambda>y. Inr (y\<lparr>pe_suspended := False\<rparr>)) = Inr r \<and> pdcp_sec_ok r \<and>
    pe_keys r = merge_keys (pe_keys x) p \<and> \<not> pe_suspended r \<and> restarted r \<and> pdcp_rx_inv r \<and> pe_upcalls r = pe_upcalls x"
proof -
  obtain y where y: "nr_pdcp_entity_set_security x p = Inr y" "pdcp_sec_ok y" "pe_keys y = merge_keys (pe_keys x) p"
    "pdcp_data_view y = pdcp_data_view x" using set_security_ok [OF assms(1,3,4)] by auto
  have "pdcp_sec_ok (y\<lparr>pe_suspended := False\<rparr>)" using y(2) by (simp add: pdcp_sec_ok_def ciphering_ok_def integrity_ok_def)
  with y assms(2) show ?thesis by (simp add: pdcp_data_view_def restarted_def pdcp_rx_inv_def by_count_def)
qed

lemma reestablish_ok:
  assumes "pdcp_sec_ok s" "restarted s" "known_algorithm (integrity_algorithm p)" "known_algorithm (ciphering_algorithm p)"
  shows "\<exists>r. reestablish_entity s p = Inr r \<and> pdcp_sec_ok r \<and>
    pe_keys r = merge_keys (pe_keys s) p \<and> \<not> pe_suspended r \<and> restarted r \<and> pdcp_rx_inv r \<and> pe_upcalls r = pe_upcalls s"
proof (cases "pe_type s")
  case NR_PDCP_DRB_AM
  then show ?thesis using resume_ok [OF assms] by (simp add: reestablish_entity_def nr_pdcp_entity_reestablish_drb_am_def)
next
  case NR_PDCP_DRB_UM
  have "pdcp_sec_ok (s\<lparr>pe_tx_next := 0, pe_rx_next := 0, pe_rx_deliv := 0, pe_t_reordering_start := 0\<rparr>)"
    using assms(1) by (simp add: pdcp_sec_ok_def ciphering_ok_def integrity_ok_def)
  from resume_ok [OF this _ assms(3,4)] assms(2) NR_PDCP_DRB_UM show ?thesis
    by (simp add: reestablish_entity_def nr_pdcp_entity_reestablish_drb_um_def Let_def restarted_def)
next
  case NR_PDCP_SRB
  let ?x = "(free_rx_list (s\<lparr>pe_tx_next := 0\<rparr>))\<lparr>pe_rx_next := 0, pe_rx_deliv := 0, pe_t_reordering_start := 0\<rparr>"
  have "pdcp_sec_ok ?x" using assms(1) by (simp add: free_rx_list_def pdcp_sec_ok_def ciphering_ok_def integrity_ok_def)
  from resume_ok [OF this _ assms(3,4)] NR_PDCP_SRB show ?thesis
    by (simp add: reestablish_entity_def nr_pdcp_entity_reestablish_srb_def Let_def free_rx_list_def restarted_def)
qed

text \<open>
  suspension, as at a handover or a release to the inactive state. An entity whose reordering timer runs
  whenever SDUs are stored hands up all of them in order and restarts all COUNT values; until it is
  re-established, it neither takes PDUs nor sends SDUs. Re-establishment with supported algorithms then
  succeeds for every type of bearer, merges the new keys, resumes the entity and leaves an empty,
  consistent reordering buffer.
\<close>

lemma pdcp_suspend_reestablish:
  assumes "pe_rx_list e \<noteq> [] \<longrightarrow> pe_t_reordering_start e \<noteq> 0" "pdcp_sec_ok e"
    "known_algorithm (integrity_algorithm p)" "known_algorithm (ciphering_algorithm p)"
    "nr_max_pdcp_pdu_size (int (length sdu)) \<le> max_size"
  shows "let s = nr_pdcp_entity_suspend e in
    pe_upcalls s = pe_upcalls e @ pe_rx_list e \<and> restarted s \<and>
    nr_pdcp_entity_recv_pdu C s buf = Inr s \<and> nr_pdcp_entity_process_sdu C s sdu max_size = Inr (- 1, [], s) \<and>
    (\<exists>r. reestablish_entity s p = Inr r \<and> pdcp_sec_ok r \<and> pe_keys r = merge_keys (pe_keys e) p \<and> \<not> pe_suspended r \<and>
      restarted r \<and> pdcp_rx_inv r \<and> pe_upcalls r = pe_upcalls s)"
proof -
  note s = suspend_spec [OF assms(1)]
  have r: "restarted (nr_pdcp_entity_suspend e)" using s by (simp add: restarted_def)
  have "pdcp_sec_ok (nr_pdcp_entity_suspend e)" using s(9) assms(2) by simp
  from reestablish_ok [OF this r assms(3,4)] s(7,8) r assms(5) s(1) show ?thesis
    by (simp add: nr_pdcp_entity_recv_pdu_def nr_pdcp_entity_process_sdu_def Let_def)
qed

text \<open>
  The witness: an entity that waits for COUNT 0 and holds the SDU with COUNT 1, suspended and then
  re-established with the algorithms 1 and 2.
\<close>

definition example_waiting :: nr_pdcp_entity_t where
  "example_waiting = (nt_rx (net_arrive 1 (example_net1\<lparr>nt_rx := (nt_rx example_net1)\<lparr>pe_t_current := 7\<rparr>\<rparr>)))"

lemma pdcp_suspend_reestablish_example:
  "map ps_buffer (pe_upcalls (nr_pdcp_entity_suspend example_waiting)) = [[4]] \<and> restarted (nr_pdcp_entity_suspend example_waiting) \<and>
   (\<exists>r. reestablish_entity (nr_pdcp_entity_suspend example_waiting) (example_keys 1 2 9) = Inr r \<and> pdcp_sec_ok r \<and> \<not> pe_suspended r)"
proof -
  have "pe_rx_list example_waiting \<noteq> [] \<longrightarrow> pe_t_reordering_start example_waiting \<noteq> 0" "pdcp_sec_ok example_waiting"
    "known_algorithm (integrity_algorithm (example_keys 1 2 9))" "known_algorithm (ciphering_algorithm (example_keys 1 2 9))"
    "nr_max_pdcp_pdu_size (int (length [])) \<le> 10"
    "map ps_buffer (pe_upcalls example_waiting @ pe_rx_list example_waiting) = [[4]]" by code_simp+
  with pdcp_suspend_reestablish [of example_waiting "example_keys 1 2 9" "[]" 10] show ?thesis unfolding Let_def by metis
qed

text \<open>The witness of the stray sequence number: a first PDU with the number 3000 on a bearer with 12 bit numbers.\<close>

definition example_open :: nr_pdcp_entity_t where
  "example_open = (init_nr_pdcp_entity NR_PDCP_DRB_AM False 4 0 False False 12 100 (- 1))\<lparr>pe_t_current := 7\<rparr>"

lemma pdcp_stray_sn_example:
  "\<exists>e1. nr_pdcp_entity_recv_pdu example_crypto example_open [0x8b, 0xb8, 1, 2] = Inr e1 \<and>
    pe_rx_deliv (nr_pdcp_entity_set_time e1 200) = word_of_int (3001 - 2 ^ 12) \<and>
    (\<exists>st. nr_pdcp_entity_recv_pdu example_crypto (nr_pdcp_entity_set_time e1 200) [0x80, 0, 1, 2] =
      Inr ((nr_pdcp_entity_set_time e1 200)\<lparr>pe_stats := st\<rparr>))"
proof -
  have "open_bearer example_open" "pe_rx_deliv example_open = 0" "pe_rx_next example_open = 0" "pe_rx_list example_open = []"
    "pe_t_reordering_start example_open = 0" "pe_t_current example_open \<noteq> 0" "pe_t_reordering example_open \<noteq> - 1"
    "pe_t_current example_open + word_of_int (pe_t_reordering example_open) < 200"
    "pdcp_header_size example_open + 1 < length [0x8b, 0xb8, 1, 2 :: byte]"
    "pe_window_size example_open \<le> pdu_sn example_open [0x8b, 0xb8, 1, 2]"
    "pdu_sn example_open [0x8b, 0xb8, 1, 2] + 1 < 2 ^ pe_sn_size example_open" by code_simp+
  note w = pdcp_stray_sn [OF this, of example_crypto]
  have "pdu_sn example_open [0x8b, 0xb8, 1, 2] + 1 - 2 ^ pe_sn_size example_open = 3001 - 2 ^ 12"
    "pdcp_header_size example_open + 1 < length [0x80, 0, 1, 2 :: byte] \<and>
     pdu_sn example_open [0x80, 0, 1, 2] \<le> pdu_sn example_open [0x8b, 0xb8, 1, 2]" by code_simp+
  with w show ?thesis by metis
qed

end
