(* ===== verification/Nr_Sdap.thy ===== *)
theory Nr_Sdap
  imports Nr_Prelude
begin

text \<open>
  The service data adaptation protocol (\<open>openair2/SDAP/nr_sdap\<close>): one entity per PDU session maps QoS
  flows to data radio bearers, marks packets with the flow identifier and hands received packets to
  GTP-U (gNB) or to the IP interface (UE).

  The list of all entities, a global variable of the code, is an argument. The calls of other layers
  (\<open>nr_pdcp_data_req_drb\<close>, the GTP-U functions and \<open>write\<close> on the interface) are the values of
  \<open>sdap_out\<close>. An identifier of a QoS flow is a byte, a role is the bit mask of the code. The threads that
  read the IP interface are left out, and with them the fields that only they use.
\<close>

section \<open>Data (\<open>nr_sdap_entity.h\<close>)\<close>

abbreviation (input) SDAP_MAX_QFI :: nat where "SDAP_MAX_QFI \<equiv> 64"
abbreviation (input) SDAP_NO_MAPPING_RULE :: int where "SDAP_NO_MAPPING_RULE \<equiv> 0"
abbreviation (input) NO_SDAP_HEADER :: int where "NO_SDAP_HEADER \<equiv> 0"
abbreviation (input) SDAP_UL_TX :: int where "SDAP_UL_TX \<equiv> 1"
abbreviation (input) SDAP_UL_RX :: int where "SDAP_UL_RX \<equiv> 2"
abbreviation (input) SDAP_DL_TX :: int where "SDAP_DL_TX \<equiv> 4"
abbreviation (input) SDAP_DL_RX :: int where "SDAP_DL_RX \<equiv> 8"
abbreviation (input) MAX_DRBS_PER_UE :: int where "MAX_DRBS_PER_UE \<equiv> 32"
abbreviation (input) NR_MAX_NB_PDU_SESSIONS :: int where "NR_MAX_NB_PDU_SESSIONS \<equiv> 256"

text \<open>The one byte headers; the first bit field is the least significant one.\<close>

definition dl_hdr :: "byte \<Rightarrow> bool \<Rightarrow> bool \<Rightarrow> byte" where
  "dl_hdr qfi rqi rdi = take_bit 6 qfi OR push_bit 6 (of_bool rqi) OR push_bit 7 (of_bool rdi)"

definition ul_hdr :: "byte \<Rightarrow> bool \<Rightarrow> bool \<Rightarrow> byte" where
  "ul_hdr qfi r dc = take_bit 6 qfi OR push_bit 6 (of_bool r) OR push_bit 7 (of_bool dc)"

record qfi2drb_t =
  q_drb_id :: int
  q_role :: int

record sdap_config_t =
  sc_pdusession_id :: int
  sc_drb_id :: int
  sc_role :: int
  sc_defaultDRB :: bool
  sc_mappedQFIs2Add :: "int list"
  sc_mappedQFIs2Release :: "int list"

record nr_sdap_entity_t =
  se_ue_id :: u64
  se_default_drb :: int
  se_is_gnb :: bool
  se_enable_sdap :: bool
  se_pdusession_id :: int
  se_qfi :: byte
  se_table :: "qfi2drb_t list"

datatype sdap_out =
    To_pdcp int "byte list"            \<comment> \<open>bearer and data\<close>
  | To_gtp "byte option" "byte list"   \<comment> \<open>identifier of the flow, if it is marked, and data\<close>
  | To_tun "byte list"

definition has_role :: "int \<Rightarrow> int \<Rightarrow> bool" where
  "has_role role r \<longleftrightarrow> role AND r \<noteq> 0"

definition table_get :: "nr_sdap_entity_t \<Rightarrow> byte \<Rightarrow> qfi2drb_t res" where
  "table_get e qfi = (if unat qfi < length (se_table e) then Inr (se_table e ! unat qfi) else Inl Out_of_bounds)"

definition table_set :: "nr_sdap_entity_t \<Rightarrow> byte \<Rightarrow> qfi2drb_t \<Rightarrow> nr_sdap_entity_t res" where
  "table_set e qfi q =
     (if unat qfi < length (se_table e) then Inr (e\<lparr>se_table := (se_table e)[unat qfi := q]\<rparr>) else Inl Out_of_bounds)"

section \<open>Mapping rules\<close>

definition nr_sdap_qfi2drb_map_add :: "nr_sdap_entity_t \<Rightarrow> byte \<Rightarrow> int \<Rightarrow> int \<Rightarrow> nr_sdap_entity_t res" where
  "nr_sdap_qfi2drb_map_add e qfi drb_id role = table_set e qfi \<lparr>q_drb_id = take_bit 8 drb_id, q_role = take_bit 8 role\<rparr>"

definition nr_sdap_qfi2drb_map_del :: "nr_sdap_entity_t \<Rightarrow> byte \<Rightarrow> nr_sdap_entity_t res" where
  "nr_sdap_qfi2drb_map_del e qfi = table_set e qfi \<lparr>q_drb_id = SDAP_NO_MAPPING_RULE, q_role = NO_SDAP_HEADER\<rparr>"

definition nr_sdap_qfi2drb :: "nr_sdap_entity_t \<Rightarrow> byte \<Rightarrow> int res" where
  "nr_sdap_qfi2drb e qfi =
     bindr (table_get e qfi) (\<lambda>q.
       Inr (if q_drb_id q \<noteq> 0 then q_drb_id q else if se_default_drb e \<noteq> 0 then se_default_drb e else 0))"

definition nr_sdap_construct_ctrl_pdu :: "byte \<Rightarrow> byte" where
  "nr_sdap_construct_ctrl_pdu qfi = ul_hdr qfi False False"

abbreviation (input) SDAP_CTRL_PDU_MAP_DEF_DRB :: int where "SDAP_CTRL_PDU_MAP_DEF_DRB \<equiv> 0"
abbreviation (input) SDAP_CTRL_PDU_MAP_RULE_DRB :: int where "SDAP_CTRL_PDU_MAP_RULE_DRB \<equiv> 1"

definition nr_sdap_map_ctrl_pdu :: "nr_sdap_entity_t \<Rightarrow> int \<Rightarrow> byte \<Rightarrow> int res" where
  "nr_sdap_map_ctrl_pdu e map_type dl_qfi =
     (if map_type = SDAP_CTRL_PDU_MAP_DEF_DRB then Inr (se_default_drb e)
      else if map_type = SDAP_CTRL_PDU_MAP_RULE_DRB then nr_sdap_qfi2drb e dl_qfi
      else Inr 0)"

text \<open>An end marker goes to PDCP unless the bearer is 0.\<close>

definition nr_sdap_submit_ctrl_pdu :: "int \<Rightarrow> byte \<Rightarrow> sdap_out list" where
  "nr_sdap_submit_ctrl_pdu drb pdu = (if drb \<noteq> 0 then [To_pdcp drb [pdu]] else [])"

text \<open>The three calls that send an end marker, when the condition holds.\<close>

definition end_marker :: "nr_sdap_entity_t \<Rightarrow> bool \<Rightarrow> int \<Rightarrow> byte \<Rightarrow> sdap_out list res" where
  "end_marker e cond map_type qfi =
     (if cond
      then bindr (nr_sdap_map_ctrl_pdu e map_type qfi) (\<lambda>drb. Inr (nr_sdap_submit_ctrl_pdu drb (nr_sdap_construct_ctrl_pdu qfi)))
      else Inr [])"

section \<open>Transmission and reception\<close>

text \<open>The bearer and the PDU that go to PDCP, or nothing when the SDU is dropped.\<close>

definition nr_sdap_tx_entity :: "nr_sdap_entity_t \<Rightarrow> byte list \<Rightarrow> byte \<Rightarrow> bool \<Rightarrow> sdap_out option res" where
  "nr_sdap_tx_entity e sdu qfi rqi =
     bindr (nr_sdap_qfi2drb e qfi) (\<lambda>drb.
       if drb = 0 then Inr None
       else bindr (table_get e qfi) (\<lambda>q.
         let sdap_ul_tx = has_role (q_role q) SDAP_UL_TX; sdap_dl_tx = has_role (q_role q) SDAP_DL_TX
         in if \<not> sdap_ul_tx \<and> \<not> sdap_dl_tx then Inr (Some (To_pdcp drb sdu))
            else if length sdu = 0 \<or> length sdu > 8999 then Inr None
            else if sdap_dl_tx then Inr (Some (To_pdcp drb (dl_hdr qfi rqi False # sdu)))
            else Inr (Some (To_pdcp drb (ul_hdr qfi False rqi # sdu)))))"

text \<open>Reflective mapping at the UE: the end markers and the new rule.\<close>

definition reflective_mapping :: "nr_sdap_entity_t \<Rightarrow> int \<Rightarrow> byte \<Rightarrow> (nr_sdap_entity_t \<times> sdap_out list) res" where
  "reflective_mapping e pdcp_entity qfi =
     bindr (table_get e qfi) (\<lambda>q.
     bindr (end_marker e (q_drb_id q = 0 \<and> se_default_drb e \<noteq> 0) SDAP_CTRL_PDU_MAP_DEF_DRB qfi) (\<lambda>out1.
     bindr (end_marker e (pdcp_entity \<noteq> q_drb_id q) SDAP_CTRL_PDU_MAP_RULE_DRB qfi) (\<lambda>out2.
     bindr (table_set e qfi (q\<lparr>q_drb_id := pdcp_entity\<rparr>)) (\<lambda>e'. Inr (e', out1 @ out2)))))"

definition nr_sdap_rx_entity ::
  "nr_sdap_entity_t \<Rightarrow> int \<Rightarrow> bool \<Rightarrow> byte list \<Rightarrow> (nr_sdap_entity_t \<times> sdap_out list) res" where
  "nr_sdap_rx_entity e pdcp_entity is_gnb buf =
     (if se_enable_sdap e \<and> buf = [] then Inl Out_of_bounds
      else
        let qfi = buf ! 0 AND 0x3f in
        bindr (if se_enable_sdap e then table_get e qfi else Inr \<lparr>q_drb_id = 1, q_role = 0\<rparr>) (\<lambda>mapping.
          if se_enable_sdap e \<and> q_drb_id mapping = SDAP_NO_MAPPING_RULE then Inr (e, [])
          else
            let sdap_ul_rx = se_enable_sdap e \<and> has_role (q_role mapping) SDAP_UL_RX;
                sdap_dl_rx = se_enable_sdap e \<and> has_role (q_role mapping) SDAP_DL_RX
            in if is_gnb
               then if sdap_ul_rx then Inr (e, [To_gtp (Some qfi) (drop 1 buf)])
                    else if se_enable_sdap e then Inl Assert_failed
                    else Inr (e, [To_gtp None buf])
               else if sdap_dl_rx
               then bindr (if buf ! 0 AND 0x80 \<noteq> 0 then reflective_mapping e pdcp_entity qfi else Inr (e, [])) (\<lambda>(e', out).
                      Inr (e', out @ [To_tun (drop 1 buf)]))
               else Inr (e, [To_tun buf])))"

section \<open>Configuration\<close>

abbreviation qfi_of :: "int \<Rightarrow> byte" where
  "qfi_of x \<equiv> word_of_int x"

fun nr_sdap_ue_control_pdu_config :: "nr_sdap_entity_t \<Rightarrow> int \<Rightarrow> int list \<Rightarrow> sdap_out list res" where
  "nr_sdap_ue_control_pdu_config e drb [] = Inr []"
| "nr_sdap_ue_control_pdu_config e drb (x # xs) =
     (let qfi = qfi_of x in
      bindr (table_get e qfi) (\<lambda>q.
      bindr (end_marker e (se_default_drb e \<noteq> 0 \<and> q_drb_id q = SDAP_NO_MAPPING_RULE) SDAP_CTRL_PDU_MAP_DEF_DRB qfi) (\<lambda>out1.
      bindr (end_marker e (q_drb_id q \<noteq> drb \<and> has_role (q_role q) SDAP_UL_TX) SDAP_CTRL_PDU_MAP_RULE_DRB qfi) (\<lambda>out2.
      bindr (nr_sdap_ue_control_pdu_config e drb xs) (\<lambda>out. Inr (out1 @ out2 @ out))))))"

fun nr_sdap_add_qos_flows_to_drb :: "nr_sdap_entity_t \<Rightarrow> int \<Rightarrow> int \<Rightarrow> int list \<Rightarrow> nr_sdap_entity_t res" where
  "nr_sdap_add_qos_flows_to_drb e drb role [] = Inr e"
| "nr_sdap_add_qos_flows_to_drb e drb role (x # xs) =
     (let qfi = qfi_of x in
      bindr (if qfi < 64 \<and> drb > 0 \<and> drb \<le> MAX_DRBS_PER_UE then nr_sdap_qfi2drb_map_add e qfi drb role else Inr e)
        (\<lambda>e'. nr_sdap_add_qos_flows_to_drb e' drb role xs))"

fun nr_sdap_rm_qos_flows_from_drb :: "nr_sdap_entity_t \<Rightarrow> int list \<Rightarrow> nr_sdap_entity_t res" where
  "nr_sdap_rm_qos_flows_from_drb e [] = Inr e"
| "nr_sdap_rm_qos_flows_from_drb e (x # xs) =
     bindr (nr_sdap_qfi2drb_map_del e (qfi_of x)) (\<lambda>e'. nr_sdap_rm_qos_flows_from_drb e' xs)"

definition nr_sdap_qfi2drb_map_update :: "nr_sdap_entity_t \<Rightarrow> sdap_config_t \<Rightarrow> (nr_sdap_entity_t \<times> sdap_out list) res" where
  "nr_sdap_qfi2drb_map_update e sdap =
     (if \<not> se_enable_sdap e \<and> (\<exists>q \<in> set (se_table e). q_drb_id q \<noteq> SDAP_NO_MAPPING_RULE \<and> q_drb_id q \<noteq> sc_drb_id sdap)
      then Inl Assert_failed
      else bindr (if \<not> se_is_gnb e then nr_sdap_ue_control_pdu_config e (sc_drb_id sdap) (sc_mappedQFIs2Add sdap) else Inr []) (\<lambda>out.
           bindr (nr_sdap_add_qos_flows_to_drb e (sc_drb_id sdap) (sc_role sdap) (sc_mappedQFIs2Add sdap)) (\<lambda>e1.
           bindr (nr_sdap_rm_qos_flows_from_drb e1 (sc_mappedQFIs2Release sdap)) (\<lambda>e2. Inr (e2, out)))))"

section \<open>The list of entities\<close>

definition sdap_key :: "nr_sdap_entity_t \<Rightarrow> u64 \<times> int" where
  "sdap_key e = (se_ue_id e, se_pdusession_id e)"

definition new_sdap_entity :: "bool \<Rightarrow> u64 \<Rightarrow> sdap_config_t \<Rightarrow> nr_sdap_entity_t" where
  "new_sdap_entity is_gnb ue_id sdap =
     \<lparr>se_ue_id = ue_id, se_default_drb = if sc_defaultDRB sdap then sc_drb_id sdap else 0, se_is_gnb = is_gnb,
      se_enable_sdap = (sc_role sdap \<noteq> NO_SDAP_HEADER), se_pdusession_id = sc_pdusession_id sdap, se_qfi = 0,
      se_table = replicate 64 \<lparr>q_drb_id = 0, q_role = 0\<rparr>\<rparr>"

definition nr_sdap_add_entity :: "nr_sdap_entity_t list \<Rightarrow> bool \<Rightarrow> u64 \<Rightarrow> sdap_config_t \<Rightarrow> nr_sdap_entity_t list res" where
  "nr_sdap_add_entity l is_gnb ue_id sdap =
     (let e = new_sdap_entity is_gnb ue_id sdap in
      if \<not> se_enable_sdap e \<and> \<not> length (sc_mappedQFIs2Add sdap) \<le> 1 then Inl Assert_failed
      else bindr (nr_sdap_add_qos_flows_to_drb e (sc_drb_id sdap) (sc_role sdap) (sc_mappedQFIs2Add sdap)) (\<lambda>e'. Inr (e' # l)))"

text \<open>The entity with its position in the list, and an update of it in place.\<close>

fun nr_sdap_get_entity :: "nr_sdap_entity_t list \<Rightarrow> u64 \<times> int \<Rightarrow> nr_sdap_entity_t option" where
  "nr_sdap_get_entity [] k = None"
| "nr_sdap_get_entity (e # l) k = (if sdap_key e = k then Some e else nr_sdap_get_entity l k)"

fun sdap_store :: "nr_sdap_entity_t list \<Rightarrow> u64 \<times> int \<Rightarrow> nr_sdap_entity_t \<Rightarrow> nr_sdap_entity_t list" where
  "sdap_store [] k e' = []"
| "sdap_store (e # l) k e' = (if sdap_key e = k then e' # l else e # sdap_store l k e')"

definition sdap_modify ::
  "nr_sdap_entity_t list \<Rightarrow> u64 \<times> int \<Rightarrow> nr_sdap_entity_t \<times> sdap_out list \<Rightarrow> nr_sdap_entity_t list \<times> sdap_out list" where
  "sdap_modify l k r = (sdap_store l k (fst r), snd r)"

definition nr_sdap_addmod_entity ::
  "nr_sdap_entity_t list \<Rightarrow> bool \<Rightarrow> u64 \<Rightarrow> sdap_config_t \<Rightarrow> (nr_sdap_entity_t list \<times> sdap_out list) res" where
  "nr_sdap_addmod_entity l is_gnb ue_id sdap =
     (let k = (ue_id, sc_pdusession_id sdap) in
      case nr_sdap_get_entity l k of
        Some e \<Rightarrow> bindr (nr_sdap_qfi2drb_map_update e sdap) (\<lambda>r. Inr (sdap_modify l k r))
      | None \<Rightarrow> bindr (nr_sdap_add_entity l is_gnb ue_id sdap) (\<lambda>l'. Inr (l', [])))"

definition nr_sdap_release_drb :: "nr_sdap_entity_t list \<Rightarrow> u64 \<Rightarrow> int \<Rightarrow> int \<Rightarrow> nr_sdap_entity_t list" where
  "nr_sdap_release_drb l ue_id drb_id pdusession_id =
     (case nr_sdap_get_entity l (ue_id, pdusession_id) of None \<Rightarrow> l
      | Some e \<Rightarrow> sdap_store l (ue_id, pdusession_id)
          (e\<lparr>se_table := map (\<lambda>q. if q_drb_id q = drb_id then q\<lparr>q_drb_id := SDAP_NO_MAPPING_RULE\<rparr> else q) (se_table e)\<rparr>))"

text \<open>The configuration that \<open>nr_sdap_entity_update_qos_flows\<close> derives from the list of flows.\<close>

definition flows_config :: "nr_sdap_entity_t \<Rightarrow> int \<Rightarrow> byte list \<Rightarrow> sdap_config_t" where
  "flows_config e drb_id qfis =
     \<lparr>sc_pdusession_id = se_pdusession_id e, sc_drb_id = drb_id,
      sc_role = if se_enable_sdap e then if se_is_gnb e then SDAP_UL_RX OR SDAP_DL_TX else SDAP_UL_TX OR SDAP_DL_RX
                else NO_SDAP_HEADER,
      sc_defaultDRB = (se_default_drb e = drb_id),
      sc_mappedQFIs2Add = map uint qfis,
      sc_mappedQFIs2Release =
        map int (filter (\<lambda>q. q_drb_id (se_table e ! q) = drb_id \<and> int q \<notin> uint ` set qfis) [0..<length (se_table e)])\<rparr>"

definition nr_sdap_entity_update_qos_flows ::
  "nr_sdap_entity_t list \<Rightarrow> u64 \<Rightarrow> int \<Rightarrow> int \<Rightarrow> byte list \<Rightarrow> (nr_sdap_entity_t list \<times> sdap_out list) res" where
  "nr_sdap_entity_update_qos_flows l ue_id pdusession_id drb_id qfis =
     (let k = (ue_id, pdusession_id) in
      case nr_sdap_get_entity l k of None \<Rightarrow> Inr (l, [])
      | Some e \<Rightarrow>
          if length qfis > SDAP_MAX_QFI then Inl Out_of_bounds
          else bindr (nr_sdap_qfi2drb_map_update e (flows_config e drb_id qfis)) (\<lambda>r. Inr (sdap_modify l k r)))"

section \<open>Deletion\<close>

text \<open>
  The walk of \<open>nr_sdap_delete_entity\<close>, at most \<open>bound\<close> steps far; the case of the first element, which
  the code handles before the loop, is the same.
\<close>

fun delete_walk :: "nat \<Rightarrow> u64 \<times> int \<Rightarrow> nr_sdap_entity_t list \<Rightarrow> bool \<times> nr_sdap_entity_t list" where
  "delete_walk bound k [] = (False, [])"
| "delete_walk bound k (e # l) =
     (if sdap_key e = k then (True, l)
      else if l = [] \<or> bound = 0 then (False, e # l)
      else case delete_walk (bound - 1) k l of (b, l') \<Rightarrow> (b, e # l'))"

definition nr_sdap_delete_entity ::
  "nat \<Rightarrow> nr_sdap_entity_t list \<Rightarrow> u64 \<Rightarrow> int \<Rightarrow> (bool \<times> nr_sdap_entity_t list) res" where
  "nr_sdap_delete_entity bound l ue_id pdusession_id =
     (if l = [] \<and> (pdusession_id < 0 \<or> pdusession_id > NR_MAX_NB_PDU_SESSIONS) then Inr (False, l)
      else if l = [] then Inl Null_dereference
      else Inr (delete_walk bound (ue_id, pdusession_id) l))"

text \<open>The two loops of \<open>nr_sdap_delete_ue_entities\<close>; \<open>upperBound\<close> is never incremented there.\<close>

fun delete_ue_head :: "u64 \<Rightarrow> nr_sdap_entity_t list \<Rightarrow> bool \<times> nr_sdap_entity_t list" where
  "delete_ue_head ue_id [] = (False, [])"
| "delete_ue_head ue_id (e # l) =
     (if se_ue_id e = ue_id then (True, snd (delete_ue_head ue_id l)) else (False, e # l))"

fun delete_ue_rest :: "u64 \<Rightarrow> nr_sdap_entity_t list \<Rightarrow> bool \<times> nr_sdap_entity_t list" where
  "delete_ue_rest ue_id [] = (False, [])"
| "delete_ue_rest ue_id (e # l) =
     (case delete_ue_rest ue_id l of (b, l') \<Rightarrow> if se_ue_id e \<noteq> ue_id then (b, e # l') else (True, l'))"

definition nr_sdap_delete_ue_entities :: "nr_sdap_entity_t list \<Rightarrow> u64 \<Rightarrow> bool \<times> nr_sdap_entity_t list" where
  "nr_sdap_delete_ue_entities l ue_id =
     (if l = [] \<and> 0 < ue_id * (ue_id - 65536) then (False, l)
      else case delete_ue_head ue_id l of (b1, l1) \<Rightarrow>
             case delete_ue_rest ue_id l1 of (b2, l2) \<Rightarrow> (b1 \<or> b2, l2))"

section \<open>Interfaces to RRC, GTP-U and PDCP\<close>

record NR_SDAP_Config_t =
  nc_pdu_Session :: int
  nc_HeaderDL_present :: bool
  nc_HeaderUL_present :: bool
  nc_defaultDRB :: bool
  nc_FlowsToAdd :: "int list option"
  nc_FlowsToRelease :: "int list option"

definition get_sdap_role :: "bool \<Rightarrow> NR_SDAP_Config_t \<Rightarrow> int" where
  "get_sdap_role is_gnb c =
     (if nc_HeaderUL_present c then if is_gnb then SDAP_UL_RX else SDAP_UL_TX else 0) OR
     (if nc_HeaderDL_present c then if is_gnb then SDAP_DL_TX else SDAP_DL_RX else 0)"

text \<open>A list of flows with its count, which is kept in a byte.\<close>

definition config_flows :: "int list option \<Rightarrow> int list res" where
  "config_flows x =
     (case x of None \<Rightarrow> Inr []
      | Some l \<Rightarrow> let n = length l mod 256 in if n \<le> 64 then Inr (take n l) else Inl Assert_failed)"

definition nr_sdap_get_config :: "bool \<Rightarrow> NR_SDAP_Config_t \<Rightarrow> int \<Rightarrow> sdap_config_t res" where
  "nr_sdap_get_config is_gnb c drb_id =
     bindr (config_flows (nc_FlowsToAdd c)) (\<lambda>add.
     bindr (config_flows (nc_FlowsToRelease c)) (\<lambda>rel.
       Inr \<lparr>sc_pdusession_id = nc_pdu_Session c, sc_drb_id = drb_id, sc_role = get_sdap_role is_gnb c,
            sc_defaultDRB = nc_defaultDRB c, sc_mappedQFIs2Add = add, sc_mappedQFIs2Release = rel\<rparr>))"

definition nr_reconfigure_sdap_entity ::
  "nr_sdap_entity_t list \<Rightarrow> NR_SDAP_Config_t \<Rightarrow> u64 \<Rightarrow> int \<Rightarrow> int \<Rightarrow> (nr_sdap_entity_t list \<times> sdap_out list) res" where
  "nr_reconfigure_sdap_entity l c ue_id pdusession_id drb_id =
     (let k = (ue_id, pdusession_id) in
      case nr_sdap_get_entity l k of None \<Rightarrow> Inr (l, [])
      | Some e \<Rightarrow> bindr (nr_sdap_get_config False c drb_id) (\<lambda>sdap.
                  bindr (nr_sdap_qfi2drb_map_update e sdap) (\<lambda>r. Inr (sdap_modify l k r))))"

definition set_qfi :: "nr_sdap_entity_t list \<Rightarrow> byte \<Rightarrow> int \<Rightarrow> u64 \<Rightarrow> nr_sdap_entity_t list res" where
  "set_qfi l qfi pduid ue_id =
     (case nr_sdap_get_entity l (ue_id, pduid) of None \<Rightarrow> Inl Assert_failed
      | Some e \<Rightarrow> Inr (sdap_store l (ue_id, pduid) (e\<lparr>se_qfi := qfi\<rparr>)))"

definition sdap_data_req :: "nr_sdap_entity_t list \<Rightarrow> u64 \<Rightarrow> byte list \<Rightarrow> byte \<Rightarrow> bool \<Rightarrow> int \<Rightarrow> sdap_out option res" where
  "sdap_data_req l ue_id sdu qfi rqi pdusession_id =
     (case nr_sdap_get_entity l (ue_id, pdusession_id) of None \<Rightarrow> Inr None
      | Some e \<Rightarrow> nr_sdap_tx_entity e sdu qfi rqi)"

definition sdap_data_ind ::
  "nr_sdap_entity_t list \<Rightarrow> int \<Rightarrow> bool \<Rightarrow> int \<Rightarrow> u64 \<Rightarrow> byte list \<Rightarrow> (nr_sdap_entity_t list \<times> sdap_out list) res" where
  "sdap_data_ind l pdcp_entity is_gnb pdusession_id ue_id buf =
     (let k = (ue_id, pdusession_id) in
      case nr_sdap_get_entity l k of None \<Rightarrow> Inr (l, [])
      | Some e \<Rightarrow> bindr (nr_sdap_rx_entity e pdcp_entity is_gnb buf) (\<lambda>r. Inr (sdap_modify l k r)))"

end
