(* ===== verification/Nr_Pdcp_Ue.thy ===== *)
theory Nr_Pdcp_Ue
  imports Nr_Pdcp_Count Nr_Sdap Nr_Asn1
begin

text \<open>
  The PDCP layer above the single entity: the table of UEs (\<open>nr_pdcp_ue_manager.c\<close>), the
  configuration values (\<open>nr_pdcp_configuration.h\<close>), the interface functions
  (\<open>nr_pdcp_oai_api.c\<close>) and the tick of the timer thread (\<open>nr_pdcp_timer_thread.c\<close>).

  The code runs each of these functions under one lock, so that each is one step on the state. An array
  of pointers to entities is a list of options. \<open>um_lost\<close> records the entities whose last pointer is
  gone without a call of \<open>delete_entity\<close>. A call of \<open>deliver_pdu\<close> is the PDU in the result. The queues that
  carry data between threads, and the structures generated from ASN.1 beyond the fields that are read,
  are left out.
\<close>

section \<open>Table of UEs\<close>

record nr_pdcp_ue_t =
  pu_id :: u64
  pu_srb :: "nr_pdcp_entity_t option list"    \<comment> \<open>\<open>srb[3]\<close>\<close>
  pu_drb :: "nr_pdcp_entity_t option list"    \<comment> \<open>\<open>drb[MAX_DRBS_PER_UE]\<close>\<close>

record nr_pdcp_ue_manager_t =
  um_list :: "nr_pdcp_ue_t list"
  um_enb_flag :: bool
  um_lost :: "nr_pdcp_entity_t list"

definition new_nr_pdcp_ue_manager :: "bool \<Rightarrow> nr_pdcp_ue_manager_t" where
  "new_nr_pdcp_ue_manager enb_flag = \<lparr>um_list = [], um_enb_flag = enb_flag, um_lost = []\<rparr>"

definition new_ue :: "u64 \<Rightarrow> nr_pdcp_ue_t" where
  "new_ue uid = \<lparr>pu_id = uid, pu_srb = replicate 3 None, pu_drb = replicate 32 None\<rparr>"

fun ue_index :: "nr_pdcp_ue_t list \<Rightarrow> u64 \<Rightarrow> nat option" where
  "ue_index [] uid = None"
| "ue_index (u # l) uid = (if pu_id u = uid then Some 0 else map_option Suc (ue_index l uid))"

text \<open>The position of the UE, which is created when it is not there yet.\<close>

definition nr_pdcp_manager_get_ue :: "nr_pdcp_ue_manager_t \<Rightarrow> u64 \<Rightarrow> nat \<times> nr_pdcp_ue_manager_t" where
  "nr_pdcp_manager_get_ue m uid =
     (case ue_index (um_list m) uid of Some i \<Rightarrow> (i, m)
      | None \<Rightarrow> (length (um_list m), m\<lparr>um_list := um_list m @ [new_ue uid]\<rparr>))"

fun delete_entities :: "nr_pdcp_entity_t option list \<Rightarrow> unit res" where
  "delete_entities [] = Inr ()"
| "delete_entities (None # l) = delete_entities l"
| "delete_entities (Some e # l) = bindr (nr_pdcp_entity_delete e) (\<lambda>_. delete_entities l)"

definition entities :: "nr_pdcp_entity_t option list \<Rightarrow> nr_pdcp_entity_t list" where
  "entities l = map the (filter (\<lambda>x. x \<noteq> None) l)"

definition nr_pdcp_manager_remove_ue :: "nr_pdcp_ue_manager_t \<Rightarrow> u64 \<Rightarrow> nr_pdcp_ue_manager_t res" where
  "nr_pdcp_manager_remove_ue m uid =
     (case ue_index (um_list m) uid of None \<Rightarrow> Inr m
      | Some i \<Rightarrow>
          let ue = um_list m ! i in
          bindr (delete_entities (take 2 (pu_srb ue))) (\<lambda>_.
          bindr (delete_entities (take 5 (pu_drb ue))) (\<lambda>_.
            Inr (m\<lparr>um_list := take i (um_list m) @ drop (Suc i) (um_list m),
                   um_lost := um_lost m @ entities (drop 2 (pu_srb ue) @ drop 5 (pu_drb ue))\<rparr>))))"

definition nr_pdcp_ue_add_srb_pdcp_entity :: "nr_pdcp_ue_t \<Rightarrow> int \<Rightarrow> nr_pdcp_entity_t \<Rightarrow> nr_pdcp_ue_t res" where
  "nr_pdcp_ue_add_srb_pdcp_entity ue srb_id e =
     (if srb_id < 1 \<or> srb_id > 2 \<or> pu_srb ue ! nat (srb_id - 1) \<noteq> None then Inl Exit_fatal
      else Inr (ue\<lparr>pu_srb := (pu_srb ue)[nat (srb_id - 1) := Some e]\<rparr>))"

definition nr_pdcp_ue_add_drb_pdcp_entity :: "nr_pdcp_ue_t \<Rightarrow> int \<Rightarrow> nr_pdcp_entity_t \<Rightarrow> nr_pdcp_ue_t res" where
  "nr_pdcp_ue_add_drb_pdcp_entity ue drb_id e =
     (if drb_id < 1 \<or> drb_id > MAX_DRBS_PER_UE \<or> pu_drb ue ! nat (drb_id - 1) \<noteq> None then Inl Exit_fatal
      else Inr (ue\<lparr>pu_drb := (pu_drb ue)[nat (drb_id - 1) := Some e]\<rparr>))"

definition nr_pdcp_get_first_ue_id :: "nr_pdcp_ue_manager_t \<Rightarrow> u64 option" where
  "nr_pdcp_get_first_ue_id m = (case um_list m of [] \<Rightarrow> None | u # _ \<Rightarrow> Some (pu_id u))"

section \<open>Configuration values\<close>

definition pdcp_sn_sizes :: "int list" where "pdcp_sn_sizes = [12, 18]"

definition pdcp_t_reorderings :: "int list" where
  "pdcp_t_reorderings =
     [0, 1, 2, 4, 5, 8, 10, 15, 20, 30, 40, 50, 60, 80, 100, 120, 140, 160, 180, 200, 220, 240, 260, 280,
      300, 500, 750, 1000, 1250, 1500, 1750, 2000, 2250, 2500, 2750, 3000, - 1]"

definition pdcp_discard_timers :: "int list" where
  "pdcp_discard_timers = [10, 20, 30, 40, 50, 60, 75, 100, 150, 200, 250, 300, 500, 750, 1500, - 1]"

text \<open>The fields of \<open>NR_PDCP_Config_t\<close> that are read; a null pointer is \<open>None\<close>.\<close>

record pdcp_config_drb =
  dc_discardTimer :: "int option"
  dc_SN_SizeUL :: "int option"
  dc_SN_SizeDL :: "int option"
  dc_integrityProtection :: bool

record NR_PDCP_Config_t =
  pc_t_Reordering :: "int option"
  pc_drb :: "pdcp_config_drb option"
  pc_cipheringDisabled :: bool

definition deref :: "'a option \<Rightarrow> 'a res" where
  "deref x = (case x of None \<Rightarrow> Inl Null_dereference | Some v \<Rightarrow> Inr v)"

definition config_t_reordering :: "int option \<Rightarrow> int res" where
  "config_t_reordering x = (case x of None \<Rightarrow> Inr (- 1) | Some v \<Rightarrow> decode_value pdcp_t_reorderings v)"

section \<open>Access to a radio bearer\<close>

definition nr_pdcp_get_rb :: "nr_pdcp_ue_t \<Rightarrow> int \<Rightarrow> bool \<Rightarrow> nr_pdcp_entity_t option" where
  "nr_pdcp_get_rb ue rb_id srb_flag =
     (if srb_flag then if rb_id < 1 \<or> rb_id > 2 then None else pu_srb ue ! nat (rb_id - 1)
      else if rb_id < 1 \<or> rb_id > MAX_DRBS_PER_UE then None else pu_drb ue ! nat (rb_id - 1))"

text \<open>The UE after a change of the entity behind a pointer that \<open>nr_pdcp_get_rb\<close> has returned.\<close>

definition put_rb :: "nr_pdcp_ue_t \<Rightarrow> int \<Rightarrow> bool \<Rightarrow> nr_pdcp_entity_t option \<Rightarrow> nr_pdcp_ue_t" where
  "put_rb ue rb_id srb_flag e =
     (if srb_flag then ue\<lparr>pu_srb := (pu_srb ue)[nat (rb_id - 1) := e]\<rparr>
      else ue\<lparr>pu_drb := (pu_drb ue)[nat (rb_id - 1) := e]\<rparr>)"

definition put_ue :: "nr_pdcp_ue_manager_t \<Rightarrow> nat \<Rightarrow> nr_pdcp_ue_t \<Rightarrow> nr_pdcp_ue_manager_t" where
  "put_ue m i ue = m\<lparr>um_list := (um_list m)[i := ue]\<rparr>"

text \<open>
  The frame of most of the interface functions: find the UE and the bearer, call an operation of the
  entity; \<open>None\<close> when there is no such bearer.
\<close>

definition with_rb ::
  "nr_pdcp_ue_manager_t \<Rightarrow> u64 \<Rightarrow> int \<Rightarrow> bool \<Rightarrow> (nr_pdcp_entity_t \<Rightarrow> ('r \<times> nr_pdcp_entity_t) res) \<Rightarrow>
   ('r option \<times> nr_pdcp_ue_manager_t) res" where
  "with_rb m uid rb_id srb_flag f =
     (case nr_pdcp_manager_get_ue m uid of (i, m1) \<Rightarrow>
        case nr_pdcp_get_rb (um_list m1 ! i) rb_id srb_flag of None \<Rightarrow> Inr (None, m1)
        | Some e \<Rightarrow> bindr (f e) (\<lambda>(r, e'). Inr (Some r, put_ue m1 i (put_rb (um_list m1 ! i) rb_id srb_flag (Some e')))))"

definition unit_op :: "nr_pdcp_entity_t res \<Rightarrow> (unit \<times> nr_pdcp_entity_t) res" where
  "unit_op x = bindr x (\<lambda>e. Inr ((), e))"

section \<open>Interface functions\<close>

record protocol_ctxt_t =
  cx_module_id :: int
  cx_instance :: int
  cx_rntiMaybeUEid :: u64
  cx_eNB_index :: int
  cx_brOption :: bool

definition do_pdcp_data_ind ::
  "crypto \<Rightarrow> nr_pdcp_ue_manager_t \<Rightarrow> protocol_ctxt_t \<Rightarrow> bool \<Rightarrow> int \<Rightarrow> byte list \<Rightarrow> nr_pdcp_ue_manager_t res" where
  "do_pdcp_data_ind C m ctxt srb_flag rb_id buf =
     (if cx_module_id ctxt \<noteq> 0 \<or> cx_instance ctxt \<noteq> 0 \<or> cx_eNB_index ctxt \<noteq> 0 \<or> cx_brOption ctxt then Inl Exit_fatal
      else bindr (with_rb m (cx_rntiMaybeUEid ctxt) rb_id srb_flag (\<lambda>e. unit_op (nr_pdcp_entity_recv_pdu C e buf))) (\<lambda>(_, m'). Inr m'))"

text \<open>The PDU for the callback \<open>deliver_pdu\<close>, or \<open>None\<close> when the function returns 0.\<close>

definition send_sdu ::
  "crypto \<Rightarrow> nr_pdcp_ue_manager_t \<Rightarrow> u64 \<Rightarrow> int \<Rightarrow> bool \<Rightarrow> byte list \<Rightarrow> (byte list option \<times> nr_pdcp_ue_manager_t) res" where
  "send_sdu C m uid rb_id srb_flag sdu =
     bindr (with_rb m uid rb_id srb_flag (\<lambda>e.
         bindr (nr_pdcp_entity_process_sdu C e sdu (nr_max_pdcp_pdu_size (int (length sdu)))) (\<lambda>(ret, pdu, e').
           Inr (if ret = - 1 then None else Some pdu, e'))))
       (\<lambda>(r, m'). Inr (case r of None \<Rightarrow> None | Some p \<Rightarrow> p, m'))"

definition nr_pdcp_data_req_srb ::
  "crypto \<Rightarrow> nr_pdcp_ue_manager_t \<Rightarrow> u64 \<Rightarrow> int \<Rightarrow> byte list \<Rightarrow> (byte list option \<times> nr_pdcp_ue_manager_t) res" where
  "nr_pdcp_data_req_srb C m uid rb_id sdu = send_sdu C m uid rb_id True sdu"

definition nr_pdcp_data_req_drb ::
  "crypto \<Rightarrow> nr_pdcp_ue_manager_t \<Rightarrow> protocol_ctxt_t \<Rightarrow> int \<Rightarrow> byte list \<Rightarrow> (byte list option \<times> nr_pdcp_ue_manager_t) res" where
  "nr_pdcp_data_req_drb C m ctxt rb_id sdu =
     (if cx_module_id ctxt \<noteq> 0 \<or> cx_instance ctxt \<noteq> 0 \<or> cx_eNB_index ctxt \<noteq> 0 then Inl Exit_fatal
      else send_sdu C m (cx_rntiMaybeUEid ctxt) rb_id False sdu)"

definition add_srb ::
  "nr_pdcp_ue_manager_t \<Rightarrow> bool \<Rightarrow> u64 \<Rightarrow> int \<Rightarrow> int option \<Rightarrow> nr_pdcp_entity_security_keys_and_algos_t \<Rightarrow> nr_pdcp_ue_manager_t res" where
  "add_srb m is_gnb uid srb_id t_Reordering sec =
     bindr (config_t_reordering t_Reordering) (\<lambda>tr.
       case nr_pdcp_manager_get_ue m uid of (i, m1) \<Rightarrow>
         if nr_pdcp_get_rb (um_list m1 ! i) srb_id True \<noteq> None then Inr m1
         else bindr (new_nr_pdcp_entity NR_PDCP_SRB is_gnb srb_id 0 False False SHORT_SN_SIZE tr (- 1) sec) (\<lambda>e.
              bindr (nr_pdcp_ue_add_srb_pdcp_entity (um_list m1 ! i) srb_id e) (\<lambda>ue. Inr (put_ue m1 i ue))))"

definition nr_pdcp_add_drb ::
  "nr_pdcp_ue_manager_t \<Rightarrow> bool \<Rightarrow> u64 \<Rightarrow> NR_PDCP_Config_t \<Rightarrow> sdap_config_t \<Rightarrow> nr_pdcp_entity_security_keys_and_algos_t \<Rightarrow>
   nr_pdcp_ue_manager_t res" where
  "nr_pdcp_add_drb m is_gnb uid pdcp sdap sec =
     (case pc_drb pdcp of None \<Rightarrow> Inr m
      | Some drb \<Rightarrow>
          bindr (bindr (deref (dc_SN_SizeUL drb)) (decode_value pdcp_sn_sizes)) (\<lambda>sn_size_ul.
          bindr (bindr (deref (dc_SN_SizeDL drb)) (decode_value pdcp_sn_sizes)) (\<lambda>sn_size_dl.
          bindr (bindr (deref (dc_discardTimer drb)) (decode_value pdcp_discard_timers)) (\<lambda>discard_timer.
          bindr (config_t_reordering (pc_t_Reordering pdcp)) (\<lambda>tr.
            let actual = sec\<lparr>ciphering_algorithm := if pc_cipheringDisabled pdcp then 0 else ciphering_algorithm sec,
                             integrity_algorithm := if dc_integrityProtection drb then integrity_algorithm sec else 0\<rparr>
            in case nr_pdcp_manager_get_ue m uid of (i, m1) \<Rightarrow>
                 if nr_pdcp_get_rb (um_list m1 ! i) (sc_drb_id sdap) False \<noteq> None then Inr m1
                 else if sn_size_ul \<noteq> sn_size_dl then Inl Exit_fatal
                 else bindr (new_nr_pdcp_entity NR_PDCP_DRB_AM is_gnb (sc_drb_id sdap) (sc_pdusession_id sdap)
                          (has_role (sc_role sdap) (SDAP_UL_RX OR SDAP_DL_RX)) (has_role (sc_role sdap) (SDAP_UL_TX OR SDAP_DL_TX))
                          (nat sn_size_dl) tr discard_timer actual) (\<lambda>e.
                      bindr (nr_pdcp_ue_add_drb_pdcp_entity (um_list m1 ! i) (sc_drb_id sdap) e) (\<lambda>ue. Inr (put_ue m1 i ue))))))))"

definition nr_pdcp_get_drb_ids_for_pdusession ::
  "nr_pdcp_ue_manager_t \<Rightarrow> u64 \<Rightarrow> int \<Rightarrow> int list \<times> nr_pdcp_ue_manager_t" where
  "nr_pdcp_get_drb_ids_for_pdusession m uid pdusession_id =
     (case nr_pdcp_manager_get_ue m uid of (i, m1) \<Rightarrow>
        (map pe_rb_id (filter (\<lambda>e. pe_pdusession_id e = pdusession_id) (entities (pu_drb (um_list m1 ! i)))), m1))"

definition nr_pdcp_remove_UE :: "nr_pdcp_ue_manager_t \<Rightarrow> u64 \<Rightarrow> nr_pdcp_ue_manager_t res" where
  "nr_pdcp_remove_UE m uid = nr_pdcp_manager_remove_ue m uid"

definition nr_pdcp_config_set_security ::
  "nr_pdcp_ue_manager_t \<Rightarrow> u64 \<Rightarrow> int \<Rightarrow> bool \<Rightarrow> nr_pdcp_entity_security_keys_and_algos_t \<Rightarrow> nr_pdcp_ue_manager_t res" where
  "nr_pdcp_config_set_security m uid rb_id is_srb p =
     bindr (with_rb m uid rb_id is_srb (\<lambda>e. unit_op (nr_pdcp_entity_set_security e p))) (\<lambda>(_, m'). Inr m')"

definition nr_pdcp_check_integrity_srb ::
  "crypto \<Rightarrow> byte list \<Rightarrow> nr_pdcp_ue_manager_t \<Rightarrow> u64 \<Rightarrow> int \<Rightarrow> byte list \<Rightarrow> nr_pdcp_integrity_data_t \<Rightarrow> (bool \<times> nr_pdcp_ue_manager_t) res" where
  "nr_pdcp_check_integrity_srb C junk m uid srb_id msg mi =
     bindr (with_rb m uid srb_id True (\<lambda>e. bindr (nr_pdcp_entity_check_integrity C e junk msg mi) (\<lambda>b. Inr (b, e))))
       (\<lambda>(r, m'). Inr (r = Some True, m'))"

definition nr_pdcp_suspend_srb :: "nr_pdcp_ue_manager_t \<Rightarrow> u64 \<Rightarrow> int \<Rightarrow> nr_pdcp_ue_manager_t res" where
  "nr_pdcp_suspend_srb m uid srb_id =
     bindr (with_rb m uid srb_id True (\<lambda>e. unit_op (Inr (nr_pdcp_entity_suspend e)))) (\<lambda>(_, m'). Inr m')"

definition nr_pdcp_suspend_drb :: "nr_pdcp_ue_manager_t \<Rightarrow> u64 \<Rightarrow> int \<Rightarrow> nr_pdcp_ue_manager_t res" where
  "nr_pdcp_suspend_drb m uid drb_id =
     bindr (with_rb m uid drb_id False (\<lambda>e. unit_op (Inr (nr_pdcp_entity_suspend e)))) (\<lambda>(_, m'). Inr m')"

definition nr_pdcp_reconfigure_srb :: "nr_pdcp_ue_manager_t \<Rightarrow> u64 \<Rightarrow> int \<Rightarrow> int \<Rightarrow> nr_pdcp_ue_manager_t res" where
  "nr_pdcp_reconfigure_srb m uid srb_id t_Reordering =
     bindr (with_rb m uid srb_id True (\<lambda>e. unit_op (bindr (decode_value pdcp_t_reorderings t_Reordering) (\<lambda>tr. Inr (e\<lparr>pe_t_reordering := tr\<rparr>)))))
       (\<lambda>(_, m'). Inr m')"

text \<open>The new configuration of a data radio bearer; the fields derived from the size of the sequence number stay.\<close>

definition reconfigure_sn_size :: "nr_pdcp_entity_t \<Rightarrow> pdcp_config_drb \<Rightarrow> nr_pdcp_entity_t res" where
  "reconfigure_sn_size e c =
     bindr (case dc_SN_SizeUL c of None \<Rightarrow> Inr e
            | Some v \<Rightarrow> bindr (decode_value pdcp_sn_sizes v) (\<lambda>n. Inr (e\<lparr>pe_sn_size := nat n\<rparr>))) (\<lambda>e1.
       case dc_SN_SizeDL c of None \<Rightarrow> Inr e1
       | Some v \<Rightarrow> bindr (decode_value pdcp_sn_sizes v) (\<lambda>n.
           if dc_SN_SizeUL c \<noteq> None \<and> nat n \<noteq> pe_sn_size e1 then Inl Assert_failed else Inr (e1\<lparr>pe_sn_size := nat n\<rparr>)))"

definition reconfigure_drb_entity :: "nr_pdcp_entity_t \<Rightarrow> NR_PDCP_Config_t option \<Rightarrow> nr_pdcp_entity_t res" where
  "reconfigure_drb_entity e cfg =
     (case cfg of None \<Rightarrow> Inr e
      | Some c \<Rightarrow>
          bindr (config_t_reordering (pc_t_Reordering c)) (\<lambda>tr.
            let e1 = e\<lparr>pe_t_reordering := tr\<rparr> in
            case pc_drb c of None \<Rightarrow> Inr e1
            | Some d \<Rightarrow>
                bindr (case dc_discardTimer d of None \<Rightarrow> Inr e1
                       | Some v \<Rightarrow> bindr (decode_value pdcp_discard_timers v) (\<lambda>t. Inr (e1\<lparr>pe_discard_timer := t\<rparr>))) (\<lambda>e2.
                  reconfigure_sn_size e2 d)))"

definition nr_pdcp_reconfigure_drb :: "nr_pdcp_ue_manager_t \<Rightarrow> u64 \<Rightarrow> int \<Rightarrow> NR_PDCP_Config_t option \<Rightarrow> nr_pdcp_ue_manager_t res" where
  "nr_pdcp_reconfigure_drb m uid drb_id cfg =
     bindr (with_rb m uid drb_id False (\<lambda>e. unit_op (reconfigure_drb_entity e cfg))) (\<lambda>(_, m'). Inr m')"

text \<open>Release: the index is not checked. The release of a data radio bearer also changes the SDAP entities.\<close>

definition nr_pdcp_release_srb :: "nr_pdcp_ue_manager_t \<Rightarrow> u64 \<Rightarrow> int \<Rightarrow> nr_pdcp_ue_manager_t res" where
  "nr_pdcp_release_srb m uid srb_id =
     (case nr_pdcp_manager_get_ue m uid of (i, m1) \<Rightarrow>
        let ue = um_list m1 ! i in
        if srb_id < 1 \<or> srb_id > int (length (pu_srb ue)) then Inl Out_of_bounds
        else case pu_srb ue ! nat (srb_id - 1) of None \<Rightarrow> Inr m1
          | Some e \<Rightarrow> bindr (nr_pdcp_entity_delete e) (\<lambda>_. Inr (put_ue m1 i (put_rb ue srb_id True None))))"

definition nr_pdcp_release_drb ::
  "nr_pdcp_ue_manager_t \<Rightarrow> nr_sdap_entity_t list \<Rightarrow> u64 \<Rightarrow> int \<Rightarrow> (nr_pdcp_ue_manager_t \<times> nr_sdap_entity_t list) res" where
  "nr_pdcp_release_drb m sdaps uid drb_id =
     (case nr_pdcp_manager_get_ue m uid of (i, m1) \<Rightarrow>
        let ue = um_list m1 ! i in
        if drb_id < 1 \<or> drb_id > int (length (pu_drb ue)) then Inl Out_of_bounds
        else case pu_drb ue ! nat (drb_id - 1) of None \<Rightarrow> Inr (m1, sdaps)
          | Some e \<Rightarrow>
              bindr (nr_pdcp_entity_delete (nr_pdcp_entity_release e)) (\<lambda>_.
                Inr (put_ue m1 i (put_rb ue drb_id False None), nr_sdap_release_drb sdaps uid drb_id (pe_pdusession_id e))))"

definition nr_pdcp_reestablishment ::
  "nr_pdcp_ue_manager_t \<Rightarrow> u64 \<Rightarrow> int \<Rightarrow> bool \<Rightarrow> nr_pdcp_entity_security_keys_and_algos_t \<Rightarrow> nr_pdcp_ue_manager_t res" where
  "nr_pdcp_reestablishment m uid rb_id srb_flag p =
     bindr (with_rb m uid rb_id srb_flag (\<lambda>e. unit_op (reestablish_entity e p))) (\<lambda>(_, m'). Inr m')"

definition nr_pdcp_get_statistics ::
  "nr_pdcp_ue_manager_t \<Rightarrow> u64 \<Rightarrow> bool \<Rightarrow> int \<Rightarrow> (nr_pdcp_statistics_t option \<times> nr_pdcp_ue_manager_t) res" where
  "nr_pdcp_get_statistics m uid srb_flag rb_id = with_rb m uid rb_id srb_flag (\<lambda>e. Inr (nr_pdcp_entity_get_stats e, e))"

definition nr_pdcp_get_num_ues :: "nr_pdcp_ue_manager_t \<Rightarrow> nat \<Rightarrow> nat \<times> u64 list" where
  "nr_pdcp_get_num_ues m len = (length (um_list m), map pu_id (take len (um_list m)))"

text \<open>The COUNT values of a bearer, read at the source and written at the target of a handover.\<close>

definition nr_pdcp_get_drb_count_values ::
  "nr_pdcp_ue_manager_t \<Rightarrow> u64 \<Rightarrow> int \<Rightarrow> ((nr_pdcp_count_t \<times> nr_pdcp_count_t) option \<times> nr_pdcp_ue_manager_t) res" where
  "nr_pdcp_get_drb_count_values m uid rb_id =
     with_rb m uid rb_id False (\<lambda>e. Inr ((nr_pdcp_entity_get_count_ul e, nr_pdcp_entity_get_count_dl e), e))"

definition nr_pdcp_count_update ::
  "nr_pdcp_ue_manager_t \<Rightarrow> u64 \<Rightarrow> int \<Rightarrow> nr_pdcp_count_t \<Rightarrow> nr_pdcp_count_t \<Rightarrow> nat \<Rightarrow> nr_pdcp_ue_manager_t res" where
  "nr_pdcp_count_update m uid drb_id dl_count ul_count sn_size =
     bindr (with_rb m uid drb_id False (\<lambda>e.
         unit_op (Inr (nr_pdcp_entity_set_count_ul (nr_pdcp_entity_set_count_dl e dl_count sn_size) ul_count sn_size))))
       (\<lambda>(_, m'). Inr m')"

section \<open>The timer thread\<close>

text \<open>One turn of the loop of the timer thread: the first two signalling and the first five data radio bearers.\<close>

definition tick_rbs :: "nat \<Rightarrow> u64 \<Rightarrow> nr_pdcp_entity_t option list \<Rightarrow> nr_pdcp_entity_t option list" where
  "tick_rbs n now l = map (map_option (\<lambda>e. nr_pdcp_entity_set_time e now)) (take n l) @ drop n l"

definition nr_pdcp_timer_thread_turn :: "nr_pdcp_ue_manager_t \<Rightarrow> u64 \<Rightarrow> nr_pdcp_ue_manager_t" where
  "nr_pdcp_timer_thread_turn m curtime =
     m\<lparr>um_list := map (\<lambda>u. u\<lparr>pu_srb := tick_rbs 2 curtime (pu_srb u), pu_drb := tick_rbs 5 curtime (pu_drb u)\<rparr>) (um_list m)\<rparr>"

section \<open>Configuration values, continued\<close>

text \<open>The tables of the configuration values are injective, so that encoding and decoding are inverse.\<close>

lemma pdcp_tables_distinct: "distinct pdcp_sn_sizes" "distinct pdcp_t_reorderings" "distinct pdcp_discard_timers"
  by (simp_all add: pdcp_sn_sizes_def pdcp_t_reorderings_def pdcp_discard_timers_def)

text \<open>
  A reconfiguration of the size of the sequence number keeps \<open>sn_max\<close> and \<open>window_size\<close>: the entity is no
  longer consistent when the size changes.
\<close>

lemma reconfigure_sn_size_stale:
  assumes "pdcp_cfg e" "reconfigure_sn_size e c = Inr e'" "pe_sn_size e' \<noteq> pe_sn_size e"
  shows "\<not> pdcp_cfg e'"
proof -
  have "pe_sn_max e' = pe_sn_max e"
    using assms(2) by (auto simp: reconfigure_sn_size_def split: option.splits if_splits)
  then show ?thesis using assms(1,3) by (auto simp: pdcp_cfg_def)
qed

end
