(* ===== verification/Nr_Pdcp_Table.thy ===== *)
theory Nr_Pdcp_Table
  imports Nr_Pdcp_Ue Nr_Table
begin

text \<open>
  The PDCP bearers of all UEs as a map, with the table of UEs as its implementation; the transfer of
  COUNT values at a handover; the bearers that the timer thread and the removal of a UE forget.
\<close>

section \<open>The table as a map\<close>

type_synonym rb_key = "u64 \<times> int \<times> bool"   \<comment> \<open>UE, bearer, signalling or data\<close>

fun rb_at :: "nr_pdcp_ue_manager_t \<Rightarrow> rb_key \<Rightarrow> nr_pdcp_entity_t option" where
  "rb_at m (uid, rb_id, srb_flag) =
     (case ue_index (um_list m) uid of None \<Rightarrow> None | Some i \<Rightarrow> nr_pdcp_get_rb (um_list m ! i) rb_id srb_flag)"

fun put_at :: "nr_pdcp_ue_manager_t \<Rightarrow> rb_key \<Rightarrow> nr_pdcp_entity_t \<Rightarrow> nr_pdcp_ue_manager_t" where
  "put_at m (uid, rb_id, srb_flag) e =
     (case ue_index (um_list m) uid of None \<Rightarrow> m
      | Some i \<Rightarrow> put_ue m i (put_rb (um_list m ! i) rb_id srb_flag (Some e)))"

definition um_ok :: "nr_pdcp_ue_manager_t \<Rightarrow> bool" where
  "um_ok m \<longleftrightarrow> distinct (map pu_id (um_list m)) \<and> (\<forall>u \<in> set (um_list m). length (pu_srb u) = 3 \<and> length (pu_drb u) = 32)"

lemma ue_index_Some: "ue_index l uid = Some i \<Longrightarrow> i < length l \<and> pu_id (l ! i) = uid"
  by (induction l arbitrary: i) (auto split: if_splits)

lemma ue_index_None: "ue_index l uid = None \<longleftrightarrow> uid \<notin> pu_id ` set l"
  by (induction l) auto

lemma ue_index_append: "ue_index (l @ [u]) uid = (case ue_index l uid of Some i \<Rightarrow> Some i | None \<Rightarrow> if pu_id u = uid then Some (length l) else None)"
  by (induction l) (auto split: option.splits)

lemma ue_index_update: "i < length l \<Longrightarrow> pu_id u = pu_id (l ! i) \<Longrightarrow> ue_index (l[i := u]) uid = ue_index l uid"
  by (induction l arbitrary: i) (auto split: nat.splits)

lemma put_rb_sel [simp]:
  "pu_id (put_rb ue rb s e) = pu_id ue" "length (pu_srb (put_rb ue rb s e)) = length (pu_srb ue)"
  "length (pu_drb (put_rb ue rb s e)) = length (pu_drb ue)"
  by (simp_all add: put_rb_def)

lemma get_put_rb:
  assumes "length (pu_srb ue) = 3" "length (pu_drb ue) = 32" "nr_pdcp_get_rb ue rb s = Some e"
  shows "nr_pdcp_get_rb (put_rb ue rb s x) rb' s' = (if rb' = rb \<and> s' = s then x else nr_pdcp_get_rb ue rb' s')"
  using assms by (auto simp: nr_pdcp_get_rb_def put_rb_def nth_list_update split: if_splits)

lemma um_ok_at: "um_ok m \<Longrightarrow> i < length (um_list m) \<Longrightarrow> length (pu_srb (um_list m ! i)) = 3 \<and> length (pu_drb (um_list m ! i)) = 32"
  by (simp add: um_ok_def)

lemma put_ue_ok:
  assumes "um_ok m" "i < length (um_list m)" "pu_id u = pu_id (um_list m ! i)" "length (pu_srb u) = 3" "length (pu_drb u) = 32"
  shows "um_ok (put_ue m i u)"
proof -
  have "map pu_id ((um_list m)[i := u]) = map pu_id (um_list m)" using assms(2,3) by (metis list_update_id map_update nth_map)
  with assms show ?thesis by (auto simp: um_ok_def put_ue_def dest!: subsetD [OF set_update_subset_insert])
qed

interpretation pdcp_table: entity_table rb_at put_at um_ok "\<lambda>_ _. True"
proof
  fix m :: nr_pdcp_ue_manager_t and k :: rb_key and e e'
  assume ok: "um_ok m" and l: "rb_at m k = Some e"
  obtain uid rb s where k: "k = (uid, rb, s)" by (cases k)
  from l k obtain i where i: "ue_index (um_list m) uid = Some i" "nr_pdcp_get_rb (um_list m ! i) rb s = Some e"
    by (auto split: option.splits)
  note i' = ue_index_Some [OF i(1)] and len = um_ok_at [OF ok, of i]
  show "um_ok (put_at m k e')" using put_ue_ok [OF ok, of i] i' len by (simp add: k i(1))
  have l': "um_list (put_at m k e') = (um_list m)[i := put_rb (um_list m ! i) rb s (Some e')]"
    by (simp add: k i(1) put_ue_def)
  have ix: "ue_index (um_list (put_at m k e')) u = ue_index (um_list m) u" for u
    unfolding l' by (rule ue_index_update) (use i' in simp_all)
  have at: "rb_at (put_at m k e') (u, r, f) = (case ue_index (um_list m) u of None \<Rightarrow> None
      | Some i2 \<Rightarrow> nr_pdcp_get_rb ((um_list m)[i := put_rb (um_list m ! i) rb s (Some e')] ! i2) r f)" for u r f
    by (simp only: rb_at.simps ix) (simp only: l')
  show "rb_at (put_at m k e') = (rb_at m)(k \<mapsto> e')"
  proof
    fix j :: rb_key
    obtain uid' rb' s' where j: "j = (uid', rb', s')" by (cases j)
    show "rb_at (put_at m k e') j = ((rb_at m)(k \<mapsto> e')) j"
    proof (cases "ue_index (um_list m) uid'")
      case None
      then have "uid' \<noteq> uid" using i(1) by auto
      then show ?thesis using None by (simp add: j k at [unfolded k] del: put_at.simps rb_at.simps) simp
    next
      case (Some i2)
      show ?thesis
      proof (cases "i2 = i")
        case True
        then have "uid' = uid" using ue_index_Some [OF Some] i' by simp
        then show ?thesis
          using Some True i' get_put_rb [OF _ _ i(2), of "Some e'" rb' s'] len by (simp add: j k at [unfolded k] del: put_at.simps rb_at.simps) simp
      next
        case False
        then have "uid' \<noteq> uid" using Some i(1) by auto
        then show ?thesis using Some False by (simp add: j k at [unfolded k] del: put_at.simps rb_at.simps) simp
      qed
    qed
  qed
qed

text \<open>Looking up a UE creates it when it is not there, which the map does not show.\<close>

definition touch :: "nr_pdcp_ue_manager_t \<Rightarrow> u64 \<Rightarrow> nr_pdcp_ue_manager_t" where
  "touch m uid = snd (nr_pdcp_manager_get_ue m uid)"

lemma new_ue_rb: "nr_pdcp_get_rb (new_ue uid) rb s = None"
  by (auto simp: nr_pdcp_get_rb_def new_ue_def)

lemma get_ue_index: "nr_pdcp_manager_get_ue m uid = (i, m1) \<Longrightarrow> m1 = touch m uid \<and> ue_index (um_list m1) uid = Some i"
  by (auto simp: nr_pdcp_manager_get_ue_def touch_def ue_index_append new_ue_def split: option.splits)

lemma touch_lookup [simp]: "rb_at (touch m uid) = rb_at m"
proof
  fix k :: rb_key
  obtain u rb s where k: "k = (u, rb, s)" by (cases k)
  show "rb_at (touch m uid) k = rb_at m k"
    using ue_index_Some [of "um_list m" u]
    by (auto simp: k touch_def nr_pdcp_manager_get_ue_def ue_index_append nth_append new_ue_rb split: option.splits)
qed

lemma touch_ok: "um_ok m \<Longrightarrow> um_ok (touch m uid)"
  by (auto simp: um_ok_def touch_def nr_pdcp_manager_get_ue_def new_ue_def ue_index_None split: option.splits)

text \<open>The frame of the interface functions is an access to the table.\<close>

lemma with_rb_access: "with_rb m uid rb s f = pdcp_table.access (touch m uid) (uid, rb, s) f"
proof -
  obtain i m1 where g: "nr_pdcp_manager_get_ue m uid = (i, m1)" by fastforce
  have i: "m1 = touch m uid" "ue_index (um_list (touch m uid)) uid = Some i" using get_ue_index [OF g] by auto
  show ?thesis by (simp add: g i with_rb_def pdcp_table.access_def del: touch_lookup split: option.splits)
qed

lemma with_rb_present:
  assumes "um_ok m" "rb_at m (uid, rb, s) = Some e" "f e = Inr (r, e')"
  obtains m' where "with_rb m uid rb s f = Inr (Some r, m')" "rb_at m' = (rb_at m)((uid, rb, s) \<mapsto> e')" "um_ok m'"
proof -
  let ?m = "touch m uid"
  have l: "rb_at ?m (uid, rb, s) = Some e" using assms(2) by (simp only: touch_lookup)
  note o = touch_ok [OF assms(1), of uid]
  show thesis
    by (rule that [of "put_at ?m (uid, rb, s) e'"])
      (use pdcp_table.access_present [OF l, of f r e'] assms(3) pdcp_table.lookup_store [OF o l, of e'] pdcp_table.store_inv [OF o l, of e']
        in \<open>simp_all add: with_rb_access del: put_at.simps rb_at.simps\<close>)
qed

lemma with_rb_absent:
  assumes "rb_at m (uid, rb, s) = None"
  shows "with_rb m uid rb s f = Inr (None, touch m uid)"
proof -
  have "rb_at (touch m uid) (uid, rb, s) = None" using assms by (simp only: touch_lookup)
  then show ?thesis unfolding with_rb_access by (rule pdcp_table.access_absent)
qed

lemma unit_rb_present:
  assumes "um_ok m" "rb_at m (uid, rb, s) = Some e" "g e = Inr e'"
  obtains m' where "bindr (with_rb m uid rb s (\<lambda>e. unit_op (g e))) (\<lambda>(_, m'). Inr m') = Inr m'"
    "rb_at m' = (rb_at m)((uid, rb, s) \<mapsto> e')" "um_ok m'"
proof -
  have "unit_op (g e) = Inr ((), e')" using assms(3) by (simp add: unit_op_def)
  then obtain m' where "with_rb m uid rb s (\<lambda>e. unit_op (g e)) = Inr (Some (), m')"
    "rb_at m' = (rb_at m)((uid, rb, s) \<mapsto> e')" "um_ok m'" by (rule with_rb_present [OF assms(1,2)])
  then show thesis by (intro that) simp_all
qed

section \<open>Handover\<close>

lemma compose_split:
  assumes "n < 32"
  shows "push_bit n (drop_bit n w) OR ((w AND word_of_int (2 ^ n - 1)) AND (push_bit n 1 - 1)) = (w :: u32)"
proof -
  have m: "(word_of_int (2 ^ n - 1) :: u32) = mask n" "push_bit n 1 - 1 = (mask n :: u32)"
    by (simp_all add: mask_eq_exp_minus_1 push_bit_eq_mult)
  show ?thesis unfolding m by (rule bit_word_eqI) (auto simp: bit_simps)
qed

lemma compose_get_count:
  assumes "pdcp_cfg e"
  shows "compose_count (nr_pdcp_entity_get_count_dl e) (pe_sn_size e) = pe_rx_deliv e"
    and "compose_count (nr_pdcp_entity_get_count_ul e) (pe_sn_size e) = pe_tx_next e"
  using compose_split pdcp_cfgD(2,3) [OF assms]
  by (simp_all add: compose_count_def nr_pdcp_entity_get_count_dl_def nr_pdcp_entity_get_count_ul_def)

text \<open>
  C10: handover. The COUNT values that the source reads from a bearer, split into sequence number and
  HFN, and that the target writes to the bearer it has prepared, with the same size of the sequence
  number, are rebuilt exactly: the target goes on with the COUNT of the source in both directions. The
  source keeps all of its bearers, the target changes this bearer only, and the reordering buffer of an
  idle target stays consistent, except at the very last COUNT.
\<close>

theorem pdcp_handover_counts:
  assumes "um_ok src" "rb_at src (ue, drb, False) = Some a" "pdcp_cfg a"
    and "um_ok tgt" "rb_at tgt (ue', drb', False) = Some b"
  shows "\<exists>ul dl src' tgt'. nr_pdcp_get_drb_count_values src ue drb = Inr (Some (ul, dl), src') \<and> rb_at src' = rb_at src \<and>
    nr_pdcp_count_update tgt ue' drb' dl ul (pe_sn_size a) = Inr tgt' \<and> um_ok tgt' \<and>
    rb_at tgt' = (rb_at tgt)((ue', drb', False) \<mapsto>
      b\<lparr>pe_tx_next := pe_tx_next a, pe_rx_next := pe_rx_deliv a + 1, pe_rx_deliv := pe_rx_deliv a\<rparr>) \<and>
    (pe_rx_list b = [] \<and> pe_t_reordering_start b = 0 \<and> pe_rx_deliv a \<noteq> - 1 \<longrightarrow>
      pdcp_rx_inv (b\<lparr>pe_tx_next := pe_tx_next a, pe_rx_next := pe_rx_deliv a + 1, pe_rx_deliv := pe_rx_deliv a\<rparr>))"
proof -
  let ?ul = "nr_pdcp_entity_get_count_ul a" and ?dl = "nr_pdcp_entity_get_count_dl a"
  let ?b = "b\<lparr>pe_tx_next := pe_tx_next a, pe_rx_next := pe_rx_deliv a + 1, pe_rx_deliv := pe_rx_deliv a\<rparr>"
  obtain src' where s: "nr_pdcp_get_drb_count_values src ue drb = Inr (Some (?ul, ?dl), src')" "rb_at src' = (rb_at src)((ue, drb, False) \<mapsto> a)"
    unfolding nr_pdcp_get_drb_count_values_def by (rule with_rb_present [OF assms(1,2), of _ "(?ul, ?dl)" a]) simp_all
  have "rb_at src' = rb_at src" unfolding s(2) using assms(2) by (rule map_upd_triv)
  moreover have up: "Inr (nr_pdcp_entity_set_count_ul (nr_pdcp_entity_set_count_dl b ?dl (pe_sn_size a)) ?ul (pe_sn_size a)) = Inr ?b"
    using compose_get_count [OF assms(3)] by (simp add: nr_pdcp_entity_set_count_ul_def nr_pdcp_entity_set_count_dl_def Let_def)
  obtain tgt' where "nr_pdcp_count_update tgt ue' drb' ?dl ?ul (pe_sn_size a) = Inr tgt'" "um_ok tgt'"
    "rb_at tgt' = (rb_at tgt)((ue', drb', False) \<mapsto> ?b)"
    unfolding nr_pdcp_count_update_def
    by (rule unit_rb_present [OF assms(4,5),
        where g = "\<lambda>e. Inr (nr_pdcp_entity_set_count_ul (nr_pdcp_entity_set_count_dl e ?dl (pe_sn_size a)) ?ul (pe_sn_size a))", OF up])
  moreover have "pdcp_rx_inv ?b" if "pe_rx_list b = [] \<and> pe_t_reordering_start b = 0 \<and> pe_rx_deliv a \<noteq> - 1"
    using that word_succ(1) [OF word_not_max, of "pe_rx_deliv a"] by (simp add: pdcp_rx_inv_def by_count_def)
  ultimately show ?thesis using s(1) by blast
qed

definition example_drb_config :: NR_PDCP_Config_t where
  "example_drb_config = \<lparr>pc_t_Reordering = Some 14,
     pc_drb = Some \<lparr>dc_discardTimer = Some 15, dc_SN_SizeUL = Some 0, dc_SN_SizeDL = Some 0, dc_integrityProtection = True\<rparr>,
     pc_cipheringDisabled = False\<rparr>"

definition example_um :: "int \<Rightarrow> nr_pdcp_ue_manager_t" where
  "example_um drb =
     (case nr_pdcp_add_drb (new_nr_pdcp_ue_manager True) True 7 example_drb_config
        \<lparr>sc_pdusession_id = 10, sc_drb_id = drb, sc_role = 0, sc_defaultDRB = True, sc_mappedQFIs2Add = [9], sc_mappedQFIs2Release = []\<rparr>
        (example_keys 2 2 7) of Inr m \<Rightarrow> m | Inl _ \<Rightarrow> new_nr_pdcp_ue_manager True)"

definition example_source :: nr_pdcp_ue_manager_t where
  "example_source =
     (case nr_pdcp_count_update (example_um 2) 7 2 \<lparr>cnt_sn = 5, cnt_hfn = 3\<rparr> \<lparr>cnt_sn = 6, cnt_hfn = 4\<rparr> 12 of Inr m \<Rightarrow> m | Inl _ \<Rightarrow> example_um 2)"

theorem pdcp_handover_counts_witness:
  "\<exists>a b ul dl src' tgt'. rb_at example_source (7, 2, False) = Some a \<and> rb_at (example_um 1) (7, 1, False) = Some b \<and>
    nr_pdcp_get_drb_count_values example_source 7 2 = Inr (Some (ul, dl), src') \<and>
    nr_pdcp_count_update (example_um 1) 7 1 dl ul (pe_sn_size a) = Inr tgt' \<and>
    rb_at tgt' = (rb_at (example_um 1))((7, 1, False) \<mapsto>
      b\<lparr>pe_tx_next := pe_tx_next a, pe_rx_next := pe_rx_deliv a + 1, pe_rx_deliv := pe_rx_deliv a\<rparr>) \<and>
    pe_tx_next a = 4 * 2 ^ 12 + 6"
proof -
  let ?a = "the (rb_at example_source (7, 2, False))" and ?b = "the (rb_at (example_um 1) (7, 1, False))"
  have "um_ok example_source \<and> rb_at example_source (7, 2, False) \<noteq> None \<and> pdcp_cfg ?a \<and> pe_tx_next ?a = 4 * 2 ^ 12 + 6" by code_simp
  moreover have "um_ok (example_um 1) \<and> rb_at (example_um 1) (7, 1, False) \<noteq> None" by code_simp
  ultimately have p: "um_ok example_source" "rb_at example_source (7, 2, False) = Some ?a" "pdcp_cfg ?a"
    "um_ok (example_um 1)" "rb_at (example_um 1) (7, 1, False) = Some ?b" "pe_tx_next ?a = 4 * 2 ^ 12 + 6" by (simp_all del: rb_at.simps)
  from pdcp_handover_counts [OF p(1-5)] p(2,5,6) show ?thesis by blast
qed

section \<open>Bearers above the fifth\<close>

text \<open>What the threads do to the table: turns of the timer thread and PDUs from RLC.\<close>

datatype pdcp_event = Turn u64 | Data protocol_ctxt_t bool int "byte list"

fun run_events :: "crypto \<Rightarrow> nr_pdcp_ue_manager_t \<Rightarrow> pdcp_event list \<Rightarrow> nr_pdcp_ue_manager_t res" where
  "run_events C m [] = Inr m"
| "run_events C m (Turn now # es) = run_events C (nr_pdcp_timer_thread_turn m now) es"
| "run_events C m (Data ctxt srb rb buf # es) = bindr (do_pdcp_data_ind C m ctxt srb rb buf) (\<lambda>m'. run_events C m' es)"

definition no_clock :: "nr_pdcp_entity_t \<Rightarrow> bool" where
  "no_clock e \<longleftrightarrow> pe_t_current e = 0 \<and> pe_t_reordering_start e = 0"

lemma no_clock_stats [simp]: "no_clock (e\<lparr>pe_stats := st\<rparr>) = no_clock e"
  by (simp add: no_clock_def)

lemma deliver_consecutive_clock: "no_clock (snd (deliver_consecutive l c e)) = no_clock e"
  by (induction l arbitrary: c e) (simp_all add: no_clock_def deliver_head_def)

lemma recv_store_clock: "no_clock e \<Longrightarrow> no_clock (recv_store e sdu bytes)"
proof -
  assume n: "no_clock e"
  have i: "no_clock (recv_insert e sdu bytes)" using n by (simp add: recv_insert_def no_clock_def Let_def)
  have "no_clock (recv_deliver e sdu bytes)"
    using deliver_consecutive_clock [of "pe_rx_list (recv_insert e sdu bytes)" "pe_rx_deliv (recv_insert e sdu bytes)" "recv_insert e sdu bytes"] i
    by (auto simp: recv_deliver_def Let_def no_clock_def split: prod.splits)
  then show ?thesis by (simp add: recv_store_deliver Let_def no_clock_def)
qed

lemma recv_pdu_clock:
  assumes "nr_pdcp_entity_recv_pdu C e buf = Inr e'" "no_clock e"
  shows "no_clock e'"
  using assms
  by (auto simp: nr_pdcp_entity_recv_pdu_def Let_def recv_store_clock split: if_splits prod.splits)

lemma turn_ok: "um_ok m \<Longrightarrow> um_ok (nr_pdcp_timer_thread_turn m now)"
  by (auto simp: um_ok_def nr_pdcp_timer_thread_turn_def tick_rbs_def comp_def)

lemma ue_index_map: "(\<And>u. pu_id (f u) = pu_id u) \<Longrightarrow> ue_index (map f l) uid = ue_index l uid"
  by (induction l) auto

lemma turn_high:
  assumes "um_ok m" "5 < drb"
  shows "rb_at (nr_pdcp_timer_thread_turn m now) (uid, drb, False) = rb_at m (uid, drb, False)"
proof (cases "ue_index (um_list m) uid")
  case (Some i)
  have "tick_rbs 5 now l ! n = l ! n" if "5 \<le> n" "n < length l" for n and l :: "nr_pdcp_entity_t option list"
    using that by (simp add: tick_rbs_def nth_append)
  with ue_index_Some [OF Some] um_ok_at [OF assms(1)] assms(2) show ?thesis
    using Some by (auto simp: nr_pdcp_timer_thread_turn_def ue_index_map nr_pdcp_get_rb_def)
qed (simp add: nr_pdcp_timer_thread_turn_def ue_index_map)

lemma data_ind_clock:
  assumes "um_ok m" "rb_at m k = Some e" "no_clock e" "do_pdcp_data_ind C m ctxt srb rb buf = Inr m'"
  shows "um_ok m' \<and> (\<exists>e'. rb_at m' k = Some e' \<and> no_clock e')"
proof -
  let ?j = "(cx_rntiMaybeUEid ctxt, rb, srb)" and ?m = "touch m (cx_rntiMaybeUEid ctxt)"
  from assms(4) obtain r where a: "pdcp_table.access ?m ?j (\<lambda>e. unit_op (nr_pdcp_entity_recv_pdu C e buf)) = Inr (r, m')"
    by (auto simp: do_pdcp_data_ind_def with_rb_access split: if_splits prod.splits)
  have l: "rb_at ?m k = Some e" using assms(2) by (simp only: touch_lookup)
  show ?thesis
  proof (cases rule: pdcp_table.access_ok [OF touch_ok [OF assms(1)] a TrueI])
    case 1
    then show ?thesis using l assms(3) touch_ok [OF assms(1)] by auto
  next
    case (2 e0 x e1)
    show ?thesis
    proof (cases "k = ?j")
      case True
      then have "nr_pdcp_entity_recv_pdu C e buf = Inr e1" using 2(1,2) l by (auto simp: unit_op_def)
      then show ?thesis using 2(4,5) True recv_pdu_clock [OF _ assms(3)] by auto
    next
      case False
      then show ?thesis using 2(4,5) l assms(3) by auto
    qed
  qed
qed

lemma run_events_clock:
  "run_events C m evs = Inr m' \<Longrightarrow> um_ok m \<Longrightarrow> rb_at m (uid, drb, False) = Some e \<Longrightarrow> 5 < drb \<Longrightarrow> no_clock e \<Longrightarrow>
    um_ok m' \<and> (\<exists>e'. rb_at m' (uid, drb, False) = Some e' \<and> no_clock e')"
proof (induction C m evs arbitrary: e rule: run_events.induct)
  case (2 C m now es)
  show ?case by (rule "2.IH" [of e]) (use 2 turn_ok turn_high in \<open>simp_all del: rb_at.simps\<close>)
next
  case (3 C m ctxt srb rb buf es)
  from "3.prems"(1) obtain m1 where m1: "do_pdcp_data_ind C m ctxt srb rb buf = Inr m1" "run_events C m1 es = Inr m'" by auto
  from data_ind_clock [OF "3.prems"(2,3,5) m1(1)] obtain e1 where "um_ok m1" "rb_at m1 (uid, drb, False) = Some e1" "no_clock e1" by auto
  with "3.IH" [OF m1(1,2)] "3.prems"(4) show ?case by blast
qed (simp del: rb_at.simps)

lemma remove_loses:
  assumes "um_ok m" "rb_at m (uid, drb, False) = Some e" "5 < drb" "nr_pdcp_manager_remove_ue m uid = Inr m'"
  shows "e \<in> set (um_lost m')"
proof -
  from assms(2) obtain i where i: "ue_index (um_list m) uid = Some i" "nr_pdcp_get_rb (um_list m ! i) drb False = Some e"
    by (auto split: option.splits)
  let ?l = "pu_drb (um_list m ! i)"
  have d: "drb \<le> 32" "?l ! nat (drb - 1) = Some e" using i(2) by (auto simp: nr_pdcp_get_rb_def split: if_splits)
  have "length ?l = 32" using um_ok_at [OF assms(1)] ue_index_Some [OF i(1)] by simp
  moreover have "nat (drb - 1) = 5 + nat (drb - 6)" using assms(3) by simp
  ultimately have "Some e \<in> set (drop 5 ?l)"
    using d assms(3) by (auto simp: in_set_conv_nth intro!: exI [of _ "nat (drb - 6)"])
  then have "e \<in> set (entities (drop 2 (pu_srb (um_list m ! i)) @ drop 5 ?l))" by (force simp: entities_def)
  then show ?thesis using assms(4) i(1) by (auto simp: nr_pdcp_manager_remove_ue_def Let_def)
qed

text \<open>
  data radio bearers above the fifth. The table has room for 32 data radio bearers of a UE, but the
  timer thread and the removal of the UE only handle the first five. Whatever PDUs arrive and however
  often the timer thread runs, the clock of a bearer above stays at zero and its reordering timer never
  runs, so that SDUs behind a gap stay in the reordering buffer; and when the UE is removed, the memory
  of the entity is lost.
\<close>

lemma pdcp_high_drb_forgotten:
  assumes "um_ok m" "rb_at m (uid, drb, False) = Some e" "5 < drb" "no_clock e" "run_events C m evs = Inr m'"
  shows "\<exists>e'. rb_at m' (uid, drb, False) = Some e' \<and> no_clock e' \<and>
    (\<forall>now. rb_at (nr_pdcp_timer_thread_turn m' now) (uid, drb, False) = Some e') \<and>
    (\<forall>m''. nr_pdcp_remove_UE m' uid = Inr m'' \<longrightarrow> e' \<in> set (um_lost m''))"
proof -
  from run_events_clock [OF assms(5,1-4)] obtain e' where e: "um_ok m'" "rb_at m' (uid, drb, False) = Some e'" "no_clock e'" by blast
  then show ?thesis using turn_high [OF e(1) assms(3)] remove_loses [OF e(1,2) assms(3)] by (simp only: nr_pdcp_remove_UE_def) blast
qed

definition example_ctxt :: protocol_ctxt_t where
  "example_ctxt = \<lparr>cx_module_id = 0, cx_instance = 0, cx_rntiMaybeUEid = 7, cx_eNB_index = 0, cx_brOption = False\<rparr>"

lemma pdcp_high_drb_forgotten_example:
  "\<exists>m' e'. run_events example_crypto (example_um 6) [Turn 5, Data example_ctxt False 6 [0x80, 1, 2, 3], Turn 900] = Inr m' \<and>
    rb_at m' (7, 6, False) = Some e' \<and> no_clock e' \<and> (\<forall>m''. nr_pdcp_remove_UE m' 7 = Inr m'' \<longrightarrow> e' \<in> set (um_lost m''))"
proof -
  let ?evs = "[Turn 5, Data example_ctxt False 6 [0x80, 1, 2, 3], Turn 900]"
  have "um_ok (example_um 6) \<and> (case rb_at (example_um 6) (7, 6, False) of None \<Rightarrow> False | Some e \<Rightarrow> no_clock e)" by code_simp
  then obtain e where e: "um_ok (example_um 6)" "rb_at (example_um 6) (7, 6, False) = Some e" "no_clock e"
    by (auto split: option.splits simp del: rb_at.simps)
  have "(case run_events example_crypto (example_um 6) ?evs of Inr _ \<Rightarrow> True | Inl _ \<Rightarrow> False)" by code_simp
  then obtain m' where m: "run_events example_crypto (example_um 6) ?evs = Inr m'" by (auto split: sum.splits simp del: run_events.simps)
  from pdcp_high_drb_forgotten [OF e(1,2) _ e(3) m] m show ?thesis by force
qed

end
