(* ===== verification/Nr_Sdap_Map.thy ===== *)
theory Nr_Sdap_Map
  imports Nr_Sdap Nr_Table
begin

text \<open>
  The mapping tables and the list of SDAP entities: configuration replaces the flows of a bearer
  exactly, the list behaves as a map from (UE, PDU session) to entities, and a header that one side
  writes is understood by the other.
\<close>

section \<open>The list as a map\<close>

definition sdap_list_ok :: "nr_sdap_entity_t list \<Rightarrow> bool" where
  "sdap_list_ok l \<longleftrightarrow> distinct (map sdap_key l)"

lemma sdap_get_Some: "nr_sdap_get_entity l k = Some e \<Longrightarrow> e \<in> set l \<and> sdap_key e = k"
  by (induction l) (auto split: if_splits)

lemma sdap_get_None: "nr_sdap_get_entity l k = None \<longleftrightarrow> k \<notin> sdap_key ` set l"
  by (induction l) auto

lemma sdap_store_keys: "sdap_key e' = k \<Longrightarrow> map sdap_key (sdap_store l k e') = map sdap_key l"
  by (induction l) auto

lemma sdap_get_store:
  "nr_sdap_get_entity l k = Some e \<Longrightarrow> sdap_key e' = k \<Longrightarrow>
    nr_sdap_get_entity (sdap_store l k e') j = (if j = k then Some e' else nr_sdap_get_entity l j)"
  by (induction l) (auto split: if_splits)

interpretation sdap_table: entity_table nr_sdap_get_entity sdap_store sdap_list_ok "\<lambda>k e. sdap_key e = k"
proof
  fix l k and e e' :: nr_sdap_entity_t
  assume "sdap_list_ok l" "nr_sdap_get_entity l k = Some e" "sdap_key e' = k"
  then show "nr_sdap_get_entity (sdap_store l k e') = (nr_sdap_get_entity l)(k \<mapsto> e')" "sdap_list_ok (sdap_store l k e')"
    by (auto simp: fun_eq_iff sdap_get_store sdap_list_ok_def sdap_store_keys)
qed

section \<open>Deletion\<close>

lemma delete_walk_spec:
  "sdap_list_ok l \<Longrightarrow> length l \<le> Suc bound \<Longrightarrow> delete_walk bound k l = (b, l') \<Longrightarrow>
    b = (nr_sdap_get_entity l k \<noteq> None) \<and> l' = filter (\<lambda>e. sdap_key e \<noteq> k) l"
proof (induction bound k l arbitrary: b l' rule: delete_walk.induct)
  case (2 bound k e l)
  have f: "filter (\<lambda>x. sdap_key x \<noteq> k) l = l" if "sdap_key e = k" using "2.prems"(1) that by (auto simp: sdap_list_ok_def filter_id_conv image_iff)
  show ?case
  proof (cases "sdap_key e = k \<or> l = [] \<or> bound = 0")
    case True
    then show ?thesis using "2.prems" f by (auto simp: sdap_list_ok_def split: if_splits)
  next
    case False
    then obtain b1 l1 where w: "delete_walk (bound - 1) k l = (b1, l1)" "b = b1" "l' = e # l1"
      using "2.prems"(3) by (auto split: prod.splits)
    with False "2.IH" [OF _ _ _ _ w(1)] "2.prems"(1,2) show ?thesis by (simp add: sdap_list_ok_def)
  qed
qed simp

lemma delete_ue_head_spec:
  "snd (delete_ue_head ue l) = dropWhile (\<lambda>e. se_ue_id e = ue) l \<and> fst (delete_ue_head ue l) = (l \<noteq> [] \<and> se_ue_id (hd l) = ue)"
  by (induction l) auto

lemma delete_ue_rest_spec: "delete_ue_rest ue l = (ue \<in> se_ue_id ` set l, filter (\<lambda>e. se_ue_id e \<noteq> ue) l)"
  by (induction l) auto

lemma filter_dropWhile: "filter (\<lambda>x. \<not> P x) (dropWhile P l) = filter (\<lambda>x. \<not> P x) l"
  by (induction l) auto

lemma delete_ue_spec: "nr_sdap_delete_ue_entities l ue = (ue \<in> se_ue_id ` set l, filter (\<lambda>e. se_ue_id e \<noteq> ue) l)"
proof -
  have "ue \<in> se_ue_id ` set l \<longleftrightarrow> (l \<noteq> [] \<and> se_ue_id (hd l) = ue) \<or> ue \<in> se_ue_id ` set (dropWhile (\<lambda>e. se_ue_id e = ue) l)"
    by (induction l) auto
  then show ?thesis
    using delete_ue_head_spec [of ue l] filter_dropWhile [of "\<lambda>e. se_ue_id e = ue" l]
    by (auto simp: nr_sdap_delete_ue_entities_def delete_ue_rest_spec split: prod.splits)
qed

lemma get_filter:
  "sdap_list_ok l \<Longrightarrow> nr_sdap_get_entity (filter P l) k = (case nr_sdap_get_entity l k of None \<Rightarrow> None | Some e \<Rightarrow> if P e then Some e else None)"
proof (induction l)
  case (Cons e l)
  then have "sdap_key e = k \<Longrightarrow> nr_sdap_get_entity l k = None" by (auto simp: sdap_get_None sdap_list_ok_def)
  with Cons show ?case by (auto simp: sdap_list_ok_def split: option.splits)
qed simp

lemma sdap_list_ok_filter: "sdap_list_ok l \<Longrightarrow> sdap_list_ok (filter P l)"
  by (simp add: sdap_list_ok_def distinct_map_filter)

text \<open>
  deletion of SDAP entities. On the map from (UE, PDU session) to entities, deleting the entities of a
  UE removes exactly its sessions, deleting one entity removes exactly that one, as long as the walk
  over the list is not cut off by its bound, and both say whether there was anything to delete. But the
  deletion of a session with a valid identifier while the list is empty dereferences a null pointer.
\<close>

lemma sdap_delete_refines:
  assumes "sdap_list_ok l"
  shows "(\<exists>l'. nr_sdap_delete_ue_entities l ue = (\<exists>p. nr_sdap_get_entity l (ue, p) \<noteq> None, l') \<and> sdap_list_ok l' \<and>
      nr_sdap_get_entity l' = (\<lambda>(u, p). if u = ue then None else nr_sdap_get_entity l (u, p))) \<and>
    (l \<noteq> [] \<and> length l \<le> Suc bound \<longrightarrow>
      (\<exists>l'. nr_sdap_delete_entity bound l ue pdu = Inr (nr_sdap_get_entity l (ue, pdu) \<noteq> None, l') \<and> sdap_list_ok l' \<and>
        nr_sdap_get_entity l' = (nr_sdap_get_entity l)((ue, pdu) := None))) \<and>
    (0 \<le> pdu \<and> pdu \<le> 256 \<longrightarrow> nr_sdap_delete_entity bound [] ue pdu = Inl Null_dereference)"
proof (intro conjI impI)
  have "ue \<in> se_ue_id ` set l \<longleftrightarrow> (\<exists>p. nr_sdap_get_entity l (ue, p) \<noteq> None)"
    unfolding sdap_get_None by (force simp: sdap_key_def)
  moreover have "nr_sdap_get_entity (filter (\<lambda>e. se_ue_id e \<noteq> ue) l) = (\<lambda>(u, p). if u = ue then None else nr_sdap_get_entity l (u, p))"
  proof
    fix k
    show "nr_sdap_get_entity (filter (\<lambda>e. se_ue_id e \<noteq> ue) l) k = (case k of (u, p) \<Rightarrow> if u = ue then None else nr_sdap_get_entity l (u, p))"
      using sdap_get_Some [of l k] by (auto simp: get_filter [OF assms] sdap_key_def split: option.splits prod.splits)
  qed
  ultimately show "\<exists>l'. nr_sdap_delete_ue_entities l ue = (\<exists>p. nr_sdap_get_entity l (ue, p) \<noteq> None, l') \<and> sdap_list_ok l' \<and>
      nr_sdap_get_entity l' = (\<lambda>(u, p). if u = ue then None else nr_sdap_get_entity l (u, p))"
    using sdap_list_ok_filter [OF assms] by (simp add: delete_ue_spec)
next
  assume l: "l \<noteq> [] \<and> length l \<le> Suc bound"
  obtain b l' where w: "delete_walk bound (ue, pdu) l = (b, l')" by fastforce
  note s = delete_walk_spec [OF assms _ w]
  have "nr_sdap_get_entity (filter (\<lambda>e. sdap_key e \<noteq> (ue, pdu)) l) = (nr_sdap_get_entity l)((ue, pdu) := None)"
    by (rule ext) (auto simp: get_filter [OF assms] dest: sdap_get_Some split: option.splits)
  with s l show "\<exists>l'. nr_sdap_delete_entity bound l ue pdu = Inr (nr_sdap_get_entity l (ue, pdu) \<noteq> None, l') \<and> sdap_list_ok l' \<and>
        nr_sdap_get_entity l' = (nr_sdap_get_entity l)((ue, pdu) := None)"
    using sdap_list_ok_filter [OF assms] w by (simp add: nr_sdap_delete_entity_def)
qed (simp add: nr_sdap_delete_entity_def)

text \<open>Two sessions of UE 5 and one of UE 6.\<close>

definition example_sdap :: "u64 \<Rightarrow> int \<Rightarrow> nr_sdap_entity_t" where
  "example_sdap ue pdu = (new_sdap_entity True ue \<lparr>sc_pdusession_id = pdu, sc_drb_id = 1, sc_role = 6, sc_defaultDRB = True,
     sc_mappedQFIs2Add = [], sc_mappedQFIs2Release = []\<rparr>)"

lemma sdap_delete_refines_example:
  "\<exists>l'. nr_sdap_delete_entity 10 [example_sdap 5 1, example_sdap 6 1, example_sdap 5 2] 6 1 =
      Inr (nr_sdap_get_entity [example_sdap 5 1, example_sdap 6 1, example_sdap 5 2] (6, 1) \<noteq> None, l') \<and> sdap_list_ok l' \<and>
    nr_sdap_get_entity l' = (nr_sdap_get_entity [example_sdap 5 1, example_sdap 6 1, example_sdap 5 2])((6, 1) := None)"
proof -
  let ?l = "[example_sdap 5 1, example_sdap 6 1, example_sdap 5 2]"
  have "sdap_list_ok ?l" by (simp add: sdap_list_ok_def sdap_key_def example_sdap_def new_sdap_entity_def)
  from sdap_delete_refines [OF this, of 6 10 1] show ?thesis by simp
qed

section \<open>Flows of a bearer\<close>

definition sdap_ok :: "nr_sdap_entity_t \<Rightarrow> bool" where
  "sdap_ok e \<longleftrightarrow> length (se_table e) = 64"

lemma add_flows_spec:
  assumes "sdap_ok e" "0 < drb" "drb \<le> 32" "\<forall>x \<in> set xs. unat (qfi_of x) < 64"
  shows "\<exists>t. nr_sdap_add_qos_flows_to_drb e drb role xs = Inr (e\<lparr>se_table := t\<rparr>) \<and> length t = 64 \<and>
    (\<forall>q < 64. t ! q = (if q \<in> (\<lambda>x. unat (qfi_of x)) ` set xs then \<lparr>q_drb_id = drb, q_role = take_bit 8 role\<rparr> else se_table e ! q))"
  using assms
proof (induction xs arbitrary: e)
  case Nil
  then show ?case by (auto simp: sdap_ok_def intro!: exI [of _ "se_table e"])
next
  case (Cons x xs)
  let ?n = "\<lparr>q_drb_id = drb, q_role = take_bit 8 role\<rparr>" and ?i = "unat (qfi_of x)"
  let ?e = "e\<lparr>se_table := (se_table e)[?i := ?n]\<rparr>"
  have i: "?i < 64" "qfi_of x < 64" using Cons.prems(4) by (simp_all add: word_less_nat_alt)
  have "take_bit 8 drb = drb" using Cons.prems(2,3) by (simp add: take_bit_int_eq_self)
  then have step: "nr_sdap_qfi2drb_map_add e (qfi_of x) drb role = Inr ?e"
    using i Cons.prems(1) by (simp add: nr_sdap_qfi2drb_map_add_def table_set_def sdap_ok_def)
  have "sdap_ok ?e" using Cons.prems(1) by (simp add: sdap_ok_def)
  from Cons.IH [OF this Cons.prems(2,3)] Cons.prems(4) obtain t where t:
    "nr_sdap_add_qos_flows_to_drb ?e drb role xs = Inr (?e\<lparr>se_table := t\<rparr>)" "length t = 64"
    "\<forall>q < 64. t ! q = (if q \<in> (\<lambda>x. unat (qfi_of x)) ` set xs then ?n else (se_table e)[?i := ?n] ! q)" by auto
  have "nr_sdap_add_qos_flows_to_drb e drb role (x # xs) = Inr (e\<lparr>se_table := t\<rparr>)"
    using t(1) step i Cons.prems(2,3) by (simp add: Let_def)
  then show ?case using t(2,3) Cons.prems(1) by (auto simp: nth_list_update sdap_ok_def)
qed

lemma rm_flows_spec:
  assumes "sdap_ok e" "\<forall>x \<in> set xs. unat (qfi_of x) < 64"
  shows "\<exists>t. nr_sdap_rm_qos_flows_from_drb e xs = Inr (e\<lparr>se_table := t\<rparr>) \<and> length t = 64 \<and>
    (\<forall>q < 64. t ! q = (if q \<in> (\<lambda>x. unat (qfi_of x)) ` set xs then \<lparr>q_drb_id = 0, q_role = 0\<rparr> else se_table e ! q))"
  using assms
proof (induction xs arbitrary: e)
  case Nil
  then show ?case by (auto simp: sdap_ok_def intro!: exI [of _ "se_table e"])
next
  case (Cons x xs)
  let ?n = "\<lparr>q_drb_id = 0, q_role = 0\<rparr>" and ?i = "unat (qfi_of x)"
  let ?e = "e\<lparr>se_table := (se_table e)[?i := ?n]\<rparr>"
  have step: "nr_sdap_qfi2drb_map_del e (qfi_of x) = Inr ?e"
    using Cons.prems by (simp add: nr_sdap_qfi2drb_map_del_def table_set_def sdap_ok_def)
  have "sdap_ok ?e" using Cons.prems(1) by (simp add: sdap_ok_def)
  from Cons.IH [OF this] Cons.prems(2) obtain t where t:
    "nr_sdap_rm_qos_flows_from_drb ?e xs = Inr (?e\<lparr>se_table := t\<rparr>)" "length t = 64"
    "\<forall>q < 64. t ! q = (if q \<in> (\<lambda>x. unat (qfi_of x)) ` set xs then ?n else (se_table e)[?i := ?n] ! q)" by auto
  have "nr_sdap_rm_qos_flows_from_drb e (x # xs) = Inr (e\<lparr>se_table := t\<rparr>)" using t(1) step by simp
  then show ?case using t(2,3) Cons.prems(1) by (auto simp: nth_list_update sdap_ok_def)
qed

lemma control_pdu_total:
  assumes "sdap_ok e" "\<forall>x \<in> set xs. unat (qfi_of x) < 64"
  shows "\<exists>out. nr_sdap_ue_control_pdu_config e drb xs = Inr out"
  using assms(2)
proof (induction xs)
  case (Cons x xs)
  then obtain out where "nr_sdap_ue_control_pdu_config e drb xs = Inr out" by auto
  moreover have "unat (qfi_of x) < length (se_table e)" using Cons.prems assms(1) by (simp add: sdap_ok_def)
  ultimately show ?case
    by (simp add: Let_def table_get_def end_marker_def nr_sdap_map_ctrl_pdu_def nr_sdap_qfi2drb_def)
qed simp

lemma qfi_of_uint [simp]: "qfi_of (uint q) = q"
  by simp

lemma unat_qfi_of_nat: "n < 64 \<Longrightarrow> unat (qfi_of (int n)) = n"
  by (simp add: unsigned_of_nat take_bit_nat_eq_self)

text \<open>The flows that are released: those of the bearer that are not in the new list.\<close>

lemma released_flows:
  assumes "sdap_ok e"
  shows "(\<lambda>x. unat (qfi_of x)) ` set (sc_mappedQFIs2Release (flows_config e drb qfis)) =
    {q. q < 64 \<and> q_drb_id (se_table e ! q) = drb \<and> q \<notin> unat ` set qfis}"
proof -
  have "uint ` set qfis = int ` unat ` set qfis" by (simp add: image_image)
  then have "int q \<in> uint ` set qfis \<longleftrightarrow> q \<in> unat ` set qfis" for q by (simp only: inj_image_mem_iff [OF inj_of_nat])
  then show ?thesis using assms unat_qfi_of_nat by (force simp: flows_config_def sdap_ok_def image_iff)
qed

text \<open>
  C13: replacement of the flows of a bearer, as requested over E1. When the session exists, uses SDAP
  headers, the bearer and the flows are in range, then the update succeeds, changes this session only,
  and afterwards a flow is mapped to the bearer exactly when it is in the list; all these flows have the
  role of the entity, the flows that the bearer has lost have no rule, and all others have the rule they
  had.
\<close>

theorem sdap_update_qos_flows_exact:
  assumes "sdap_list_ok l" "nr_sdap_get_entity l (ue, pdu) = Some e" "sdap_ok e" "se_enable_sdap e"
    "0 < drb" "drb \<le> 32" "\<forall>q \<in> set qfis. unat q < 64" "length qfis \<le> 64"
  shows "\<exists>l' out t. nr_sdap_entity_update_qos_flows l ue pdu drb qfis = Inr (l', out) \<and> sdap_list_ok l' \<and>
    nr_sdap_get_entity l' = (nr_sdap_get_entity l)((ue, pdu) \<mapsto> e\<lparr>se_table := t\<rparr>) \<and> length t = 64 \<and>
    (\<forall>q < 64. t ! q = (if q \<in> unat ` set qfis then \<lparr>q_drb_id = drb, q_role = if se_is_gnb e then 6 else 9\<rparr>
                       else if q_drb_id (se_table e ! q) = drb then \<lparr>q_drb_id = 0, q_role = 0\<rparr> else se_table e ! q))"
proof -
  let ?c = "flows_config e drb qfis"
  have c: "sc_drb_id ?c = drb" "take_bit 8 (sc_role ?c) = (if se_is_gnb e then 6 else 9)" "sc_mappedQFIs2Add ?c = map uint qfis"
    using assms(4) by (simp_all add: flows_config_def)
  have a: "\<forall>x \<in> set (map uint qfis). unat (qfi_of x) < 64" using assms(7) by simp
  from add_flows_spec [OF assms(3,5,6) a] obtain t1 where t1:
    "nr_sdap_add_qos_flows_to_drb e drb (sc_role ?c) (map uint qfis) = Inr (e\<lparr>se_table := t1\<rparr>)" "length t1 = 64"
    "\<forall>q < 64. t1 ! q = (if q \<in> unat ` set qfis then \<lparr>q_drb_id = drb, q_role = if se_is_gnb e then 6 else 9\<rparr> else se_table e ! q)"
    by (force simp: c(2) image_image)
  note rel = released_flows [OF assms(3), of drb qfis]
  have "\<forall>x \<in> set (sc_mappedQFIs2Release ?c). unat (qfi_of x) < 64" using rel by blast
  from rm_flows_spec [OF _ this, of "e\<lparr>se_table := t1\<rparr>"] t1(2) obtain t where t:
    "nr_sdap_rm_qos_flows_from_drb (e\<lparr>se_table := t1\<rparr>) (sc_mappedQFIs2Release ?c) = Inr (e\<lparr>se_table := t\<rparr>)" "length t = 64"
    "\<forall>q < 64. t ! q = (if q \<in> {q. q < 64 \<and> q_drb_id (se_table e ! q) = drb \<and> q \<notin> unat ` set qfis}
       then \<lparr>q_drb_id = 0, q_role = 0\<rparr> else t1 ! q)"
    unfolding rel by (auto simp: sdap_ok_def)
  obtain out where "(if \<not> se_is_gnb e then nr_sdap_ue_control_pdu_config e drb (map uint qfis) else Inr []) = Inr out"
    using control_pdu_total [OF assms(3) a] by (cases "se_is_gnb e") auto
  then have u: "nr_sdap_qfi2drb_map_update e ?c = Inr (e\<lparr>se_table := t\<rparr>, out)"
    using assms(4) t1(1) t(1) by (cases "se_is_gnb e") (simp_all add: nr_sdap_qfi2drb_map_update_def c)
  have k: "sdap_key (e\<lparr>se_table := t\<rparr>) = (ue, pdu)" using sdap_get_Some [OF assms(2)] by (simp add: sdap_key_def)
  have "nr_sdap_entity_update_qos_flows l ue pdu drb qfis = Inr (sdap_store l (ue, pdu) (e\<lparr>se_table := t\<rparr>), out)"
    using assms(2,8) u by (simp add: nr_sdap_entity_update_qos_flows_def sdap_modify_def Let_def)
  moreover note sdap_table.lookup_store [OF assms(1,2) k] sdap_table.store_inv [OF assms(1,2) k]
  moreover have "\<forall>q < 64. t ! q = (if q \<in> unat ` set qfis then \<lparr>q_drb_id = drb, q_role = if se_is_gnb e then 6 else 9\<rparr>
      else if q_drb_id (se_table e ! q) = drb then \<lparr>q_drb_id = 0, q_role = 0\<rparr> else se_table e ! q)"
    using t(3) t1(3) by simp
  ultimately show ?thesis using t(2) by blast
qed

theorem sdap_update_qos_flows_exact_witness:
  "\<exists>l' out t. nr_sdap_entity_update_qos_flows [example_sdap 5 1, example_sdap 6 1] 6 1 3 [9, 1] = Inr (l', out) \<and>
    nr_sdap_get_entity l' = (nr_sdap_get_entity [example_sdap 5 1, example_sdap 6 1])((6, 1) \<mapsto> (example_sdap 6 1)\<lparr>se_table := t\<rparr>) \<and>
    t ! 9 = \<lparr>q_drb_id = 3, q_role = 6\<rparr>"
proof -
  let ?l = "[example_sdap 5 1, example_sdap 6 1]" and ?e = "example_sdap 6 1"
  have "sdap_list_ok ?l" "nr_sdap_get_entity ?l (6, 1) = Some ?e" "sdap_ok ?e" "se_enable_sdap ?e" "se_is_gnb ?e"
    by (simp_all add: sdap_list_ok_def sdap_key_def example_sdap_def new_sdap_entity_def sdap_ok_def)
  from sdap_update_qos_flows_exact [OF this(1-4), of 3 "[9, 1]"] this(5) show ?thesis by force
qed

end
