(* ===== verification/Nr_Sdap_Link.thy ===== *)
theory Nr_Sdap_Link
  imports Nr_Sdap
begin

text \<open>
  One SDAP entity talks to its peer: the header that \<open>nr_sdap_tx_entity\<close> writes is the one that
  \<open>nr_sdap_rx_entity\<close> of the other side reads, in both directions.
\<close>

section \<open>Headers\<close>

lemma hdr_qfi:
  assumes "unat q < 64"
  shows "dl_hdr q r s AND 0x3f = q" "ul_hdr q r s AND 0x3f = q"
proof -
  have "(0x3f :: byte) = mask 6" by (simp add: mask_eq_exp_minus_1)
  then have m: "x AND 0x3f = take_bit 6 x" for x :: byte by (simp add: take_bit_eq_mask)
  have "unat (take_bit 6 q) = unat q"
    using assms by (simp add: unsigned_take_bit_eq take_bit_nat_eq_self)
  then have "take_bit 6 q = q" by (rule unsigned_word_eqI)
  then show "dl_hdr q r s AND 0x3f = q" "ul_hdr q r s AND 0x3f = q"
    by (simp_all add: m dl_hdr_def ul_hdr_def push_bit_of_1 take_bit_push_bit)
qed

lemma hdr_rdi: "dl_hdr q r s AND 0x80 \<noteq> 0 \<longleftrightarrow> s"
proof -
  have "(0x80 :: byte) = push_bit 7 1" by simp
  then have "x AND 0x80 \<noteq> 0 \<longleftrightarrow> bit x 7" for x :: byte by (simp add: bit_iff_and_push_bit_not_eq_0)
  then show ?thesis by (simp add: dl_hdr_def bit_simps)
qed

section \<open>A flow between two entities\<close>

text \<open>
  The flow \<open>q\<close> is configured with headers on both sides, downlink from the gNB to the UE or uplink; the
  sender maps it to the bearer \<open>drb\<close>.
\<close>

definition tx_flow :: "bool \<Rightarrow> nr_sdap_entity_t \<Rightarrow> int \<Rightarrow> byte \<Rightarrow> bool" where
  "tx_flow dl e drb q \<longleftrightarrow>
     unat q < 64 \<and> length (se_table e) = 64 \<and> drb \<noteq> 0 \<and> q_drb_id (se_table e ! unat q) = drb \<and>
     has_role (q_role (se_table e ! unat q)) SDAP_DL_TX = dl \<and> has_role (q_role (se_table e ! unat q)) SDAP_UL_TX = (\<not> dl)"

definition rx_flow :: "bool \<Rightarrow> nr_sdap_entity_t \<Rightarrow> byte \<Rightarrow> bool" where
  "rx_flow dl e q \<longleftrightarrow>
     unat q < 64 \<and> length (se_table e) = 64 \<and> se_enable_sdap e \<and> q_drb_id (se_table e ! unat q) \<noteq> 0 \<and>
     has_role (q_role (se_table e ! unat q)) (if dl then SDAP_DL_RX else SDAP_UL_RX)"

text \<open>A packet with its flow and the reflective QoS indication, and what the receiving side does with it.\<close>

type_synonym packet = "byte \<times> bool \<times> byte list"

fun packet_out :: "bool \<Rightarrow> packet \<Rightarrow> sdap_out" where
  "packet_out dl (q, rqi, p) = (if dl then To_tun p else To_gtp (Some q) p)"

fun packet_ok :: "bool \<Rightarrow> nr_sdap_entity_t \<Rightarrow> nr_sdap_entity_t \<Rightarrow> int \<Rightarrow> packet \<Rightarrow> bool" where
  "packet_ok dl tx rx drb (q, rqi, p) \<longleftrightarrow>
     tx_flow dl tx drb q \<and> rx_flow dl rx q \<and> p \<noteq> [] \<and> length p \<le> 8999"

fun sdap_pdu :: "bool \<Rightarrow> packet \<Rightarrow> byte list" where
  "sdap_pdu dl (q, rqi, p) = (if dl then dl_hdr q rqi False else ul_hdr q False rqi) # p"

lemma sdap_tx_packet:
  "packet_ok dl tx rx drb (q, rqi, p) \<Longrightarrow>
   nr_sdap_tx_entity tx p q rqi = Inr (Some (To_pdcp drb (sdap_pdu dl (q, rqi, p))))"
  by (auto simp: tx_flow_def nr_sdap_tx_entity_def nr_sdap_qfi2drb_def table_get_def Let_def)

lemma sdap_rx_packet:
  assumes "packet_ok dl tx rx drb x"
  shows "nr_sdap_rx_entity rx b (\<not> dl) (sdap_pdu dl x) = Inr (rx, [packet_out dl x])"
proof -
  obtain q rqi p where x: "x = (q, rqi, p)" by (cases x)
  have f: "rx_flow dl rx q" "unat q < 64" using assms x by (auto simp: rx_flow_def)
  show ?thesis
    using f by (cases dl) (simp_all add: x nr_sdap_rx_entity_def rx_flow_def table_get_def Let_def hdr_qfi hdr_rdi)
qed

section \<open>A stream of packets\<close>

text \<open>What the receiving entity does with the PDUs that PDCP delivers, one after the other.\<close>

fun sdap_receive :: "nr_sdap_entity_t \<Rightarrow> int \<Rightarrow> bool \<Rightarrow> byte list list \<Rightarrow> (nr_sdap_entity_t \<times> sdap_out list) res" where
  "sdap_receive e drb gnb [] = Inr (e, [])"
| "sdap_receive e drb gnb (pdu # pdus) =
     bindr (nr_sdap_rx_entity e drb gnb pdu) (\<lambda>(e', out).
     bindr (sdap_receive e' drb gnb pdus) (\<lambda>(e'', out'). Inr (e'', out @ out')))"

lemma sdap_receive_packets:
  "\<forall>x \<in> set xs. packet_ok dl tx rx drb x \<Longrightarrow>
   sdap_receive rx b (\<not> dl) (map (sdap_pdu dl) xs) = Inr (rx, map (packet_out dl) xs)"
proof (induction xs)
  case (Cons x xs)
  then have "nr_sdap_rx_entity rx b (\<not> dl) (sdap_pdu dl x) = Inr (rx, [packet_out dl x])" by (intro sdap_rx_packet [of dl tx rx drb]) simp
  with Cons show ?case by simp
qed simp

text \<open>The PDUs of a list of packets, when the sender has handed each of them to the bearer.\<close>

definition sdap_sent :: "nr_sdap_entity_t \<Rightarrow> int \<Rightarrow> packet list \<Rightarrow> byte list list \<Rightarrow> bool" where
  "sdap_sent tx drb xs pdus \<longleftrightarrow>
     list_all2 (\<lambda>(q, rqi, p) pdu. nr_sdap_tx_entity tx p q rqi = Inr (Some (To_pdcp drb pdu))) xs pdus"

lemma sdap_sent_pdus:
  assumes "sdap_sent tx drb xs pdus" "\<forall>x \<in> set xs. packet_ok dl tx rx drb x"
  shows "pdus = map (sdap_pdu dl) xs"
proof -
  have "pdus ! i = sdap_pdu dl (xs ! i)" if "i < length xs" for i
  proof -
    obtain q rqi p where x: "xs ! i = (q, rqi, p)" by (cases "xs ! i")
    have "packet_ok dl tx rx drb (q, rqi, p)" using assms(2) that x by (metis nth_mem)
    from sdap_tx_packet [OF this] show ?thesis
      using assms(1) that x by (auto simp: sdap_sent_def list_all2_conv_all_nth)
  qed
  then show ?thesis using assms(1) by (auto simp: sdap_sent_def list_all2_conv_all_nth intro: nth_equalityI)
qed

end
