(* ===== verification/Seq_Arr.thy ===== *)
theory Seq_Arr
  imports Nr_Prelude
begin

text \<open>
  The growing array of \<open>common/utils/ds/seq_arr.c\<close>, with the search of
  \<open>common/utils/alg/find.c\<close>. The RRC keeps its DRBs, PDU sessions, serving cells, neighbour
  cells and the cells of a DU in such arrays.

  The model is at the level of the bytes: \<open>data\<close> is the block of the heap the pointer
  \<open>data\<close> owns, an iterator is the offset of its element in that block, and an access outside of
  the block is the fault \<open>Out_of_bounds\<close>. The sizes are \<open>size_t\<close> and stay below \<open>2^64\<close>,
  because a block of that many bytes exists; the three sizes the code keeps in an \<open>int\<close> or
  an \<open>int32_t\<close> are converted with \<open>to_i32\<close>. The bytes \<open>realloc\<close> adds are unspecified:
  they are the parameter \<open>junk\<close>.
\<close>

section \<open>The array\<close>

record seq_arr =
  arr_data :: "byte list"
  arr_size :: nat
  arr_elt_size :: nat
  arr_cap :: nat

definition MIN_SIZE :: nat where
  "MIN_SIZE = 8"

definition to_i32 :: "int \<Rightarrow> int" where
  "to_i32 n = sint (of_int n :: 32 word)"

definition assertr :: "bool \<Rightarrow> unit res" where
  "assertr b = (if b then Inr () else Inl Assert_failed)"

text \<open>\<open>realloc(data, n)\<close>: the old bytes that fit, then unspecified ones.\<close>

definition mem_realloc :: "(nat \<Rightarrow> byte) \<Rightarrow> nat \<Rightarrow> byte list \<Rightarrow> byte list" where
  "mem_realloc junk n d = take n d @ map junk [length d ..< n]"

definition maybe_expand :: "(nat \<Rightarrow> byte) \<Rightarrow> seq_arr \<Rightarrow> seq_arr" where
  "maybe_expand junk arr =
     (if arr_size arr + 1 = arr_cap arr
      then arr\<lparr>arr_data := mem_realloc junk (2 * arr_cap arr * arr_elt_size arr) (arr_data arr),
               arr_cap := arr_cap arr * 2\<rparr>
      else arr)"

text \<open>
  The occupancy is computed in \<open>float\<close>. The capacity is a power of two, so the quotient is
  exact for every size up to \<open>2^24\<close>, and the test is \<open>4 * size < cap\<close>.
\<close>

definition maybe_shrink :: "seq_arr \<Rightarrow> seq_arr res" where
  "maybe_shrink arr =
     (if arr_size arr > MIN_SIZE \<and> 4 * arr_size arr < arr_cap arr
      then bindr (assertr (arr_cap arr > MIN_SIZE)) (\<lambda>_.
             let cap = arr_cap arr div 2; block = replicate (cap * cap) 0 in
             bindr (assertr (arr_size arr \<le> cap)) (\<lambda>_.
             bindr (mem_copy block 0 (arr_data arr) 0 (int (arr_size arr * arr_elt_size arr)))
               (\<lambda>d. Inr (arr\<lparr>arr_data := d, arr_cap := cap\<rparr>))))
      else Inr arr)"

definition seq_arr_init :: "nat \<Rightarrow> seq_arr" where
  "seq_arr_init elt_size =
     \<lparr>arr_data = replicate (MIN_SIZE * elt_size) 0, arr_size = 0, arr_elt_size = elt_size,
      arr_cap = MIN_SIZE\<rparr>"

definition seq_arr_push_back :: "(nat \<Rightarrow> byte) \<Rightarrow> seq_arr \<Rightarrow> byte list \<Rightarrow> seq_arr res" where
  "seq_arr_push_back junk arr x =
     bindr (assertr (length x = arr_elt_size arr)) (\<lambda>_.
       let arr = maybe_expand junk arr; offset = arr_size arr * arr_elt_size arr in
       bindr (mem_copy (arr_data arr) (int offset) x 0 (int (arr_elt_size arr)))
         (\<lambda>d. Inr (arr\<lparr>arr_data := d, arr_size := arr_size arr + 1\<rparr>)))"

section \<open>Iterators\<close>

definition seq_arr_front :: "seq_arr \<Rightarrow> nat" where
  "seq_arr_front arr = 0"

definition seq_arr_next :: "seq_arr \<Rightarrow> nat \<Rightarrow> nat" where
  "seq_arr_next arr it = it + arr_elt_size arr"

definition seq_arr_end :: "seq_arr \<Rightarrow> nat" where
  "seq_arr_end arr = arr_size arr * arr_elt_size arr"

definition seq_arr_at :: "seq_arr \<Rightarrow> nat \<Rightarrow> nat res" where
  "seq_arr_at arr pos =
     bindr (assertr (pos < arr_size arr)) (\<lambda>_. Inr (pos * arr_elt_size arr))"

text \<open>The division of \<open>seq_arr_dist\<close> is unsigned, as the element size is a \<open>size_t\<close>.\<close>

definition seq_arr_dist :: "seq_arr \<Rightarrow> nat \<Rightarrow> nat \<Rightarrow> int res" where
  "seq_arr_dist arr it it' =
     (let pos = sint (of_int ((int it' - int it) mod 2 ^ 64 div int (arr_elt_size arr)) :: u64) in
      bindr (assertr (pos > -1)) (\<lambda>_. Inr pos))"

text \<open>The bytes of the element an iterator points to.\<close>

definition elt_at :: "seq_arr \<Rightarrow> nat \<Rightarrow> byte list" where
  "elt_at arr it = take (arr_elt_size arr) (drop it (arr_data arr))"

text \<open>
  The loop \<open>while (it != end_it)\<close> with \<open>seq_arr_next\<close>: the iterators it visits. It ends
  because the distance is a multiple of the element size; the first argument bounds the steps.
\<close>

fun visit_it :: "nat \<Rightarrow> seq_arr \<Rightarrow> nat \<Rightarrow> nat \<Rightarrow> nat list res" where
  "visit_it fuel arr it e =
     (if it = e then Inr []
      else case fuel of
        0 \<Rightarrow> Inl Endless_loop
      | Suc fuel \<Rightarrow> bindr (visit_it fuel arr (seq_arr_next arr it) e) (\<lambda>l. Inr (it # l)))"

declare visit_it.simps [simp del]

text \<open>\<open>find_if_arr_it\<close> and \<open>find_if\<close>: the first iterator whose element passes the test.\<close>

fun find_if_arr_it :: "nat \<Rightarrow> seq_arr \<Rightarrow> nat \<Rightarrow> nat \<Rightarrow> (byte list \<Rightarrow> bool) \<Rightarrow> nat option res" where
  "find_if_arr_it fuel arr it e f =
     (if it = e then Inr None
      else case fuel of
        0 \<Rightarrow> Inl Endless_loop
      | Suc fuel \<Rightarrow>
          if f (elt_at arr it) then Inr (Some it)
          else find_if_arr_it fuel arr (seq_arr_next arr it) e f)"

declare find_if_arr_it.simps [simp del]

definition find_if :: "seq_arr \<Rightarrow> (byte list \<Rightarrow> bool) \<Rightarrow> nat option res" where
  "find_if arr f = find_if_arr_it (arr_size arr) arr (seq_arr_front arr) (seq_arr_end arr) f"

section \<open>Erasing and freeing\<close>

text \<open>
  \<open>free_func\<close> is external: when it is given, the second component of the result lists the
  elements it is called on, in that order.
\<close>

definition seq_arr_erase_it ::
  "seq_arr \<Rightarrow> nat \<Rightarrow> nat \<Rightarrow> bool \<Rightarrow> (seq_arr \<times> byte list list) res" where
  "seq_arr_erase_it arr start_it end_it free_func =
     bindr (assertr (start_it \<le> end_it)) (\<lambda>_.
     if start_it = end_it then Inr (arr, [])
     else
       bindr (if free_func then visit_it (arr_size arr) arr start_it end_it else Inr []) (\<lambda>its.
       let freed = map (elt_at arr) its;
           num_bytes_move = to_i32 (int (seq_arr_end arr) - int end_it) in
       bindr (assertr (num_bytes_move > -1)) (\<lambda>_.
       bindr (mem_copy (arr_data arr) (int start_it) (arr_data arr) (int end_it)
                num_bytes_move) (\<lambda>d.
       let num_bytes_erase = to_i32 (int end_it - int start_it);
           num_elm_erase = to_i32 (num_bytes_erase mod 2 ^ 64 div int (arr_elt_size arr)) in
       bindr (assertr (num_elm_erase > 0)) (\<lambda>_.
       let arr = arr\<lparr>arr_data := d, arr_size := arr_size arr - nat num_elm_erase\<rparr> in
       bindr (mem_copy (arr_data arr) (int (seq_arr_end arr))
                (replicate (nat num_bytes_erase) 0) 0 num_bytes_erase) (\<lambda>d.
       bindr (maybe_shrink (arr\<lparr>arr_data := d\<rparr>)) (\<lambda>arr. Inr (arr, freed))))))))"

definition seq_arr_erase_deep ::
  "seq_arr \<Rightarrow> nat \<Rightarrow> bool \<Rightarrow> (seq_arr \<times> byte list list) res" where
  "seq_arr_erase_deep arr it free_func =
     seq_arr_erase_it arr it (seq_arr_next arr it) free_func"

definition seq_arr_erase :: "seq_arr \<Rightarrow> nat \<Rightarrow> seq_arr res" where
  "seq_arr_erase arr it = bindr (seq_arr_erase_deep arr it False) (\<lambda>(arr, _). Inr arr)"

definition seq_arr_free :: "seq_arr \<Rightarrow> bool \<Rightarrow> byte list list res" where
  "seq_arr_free arr free_func =
     (if free_func
      then bindr (visit_it (arr_size arr) arr (seq_arr_front arr) (seq_arr_end arr))
             (\<lambda>its. Inr (map (elt_at arr) its))
      else Inr [])"

section \<open>Chunks of a byte string\<close>

definition chunk :: "nat \<Rightarrow> nat \<Rightarrow> 'a list \<Rightarrow> 'a list list" where
  "chunk n k d = map (\<lambda>i. take n (drop (i * n) d)) [0..<k]"

lemma length_chunk [simp]: "length (chunk n k d) = k"
  by (simp add: chunk_def)

lemma nth_chunk [simp]: "i < k \<Longrightarrow> chunk n k d ! i = take n (drop (i * n) d)"
  by (simp add: chunk_def)

lemma Suc_mult_le: "i < k \<Longrightarrow> i * n + n \<le> k * (n::nat)"
  by (metis Suc_leI mult_Suc mult_le_mono1 add.commute)

lemma chunk_take: "k * n \<le> m \<Longrightarrow> chunk n k (take m d) = chunk n k d"
proof (rule nth_equalityI)
  fix i assume "k * n \<le> m" and "i < length (chunk n k (take m d))"
  with Suc_mult_le [of i k n] show "chunk n k (take m d) ! i = chunk n k d ! i"
    by (simp add: drop_take min_def)
qed simp

lemma chunk_append:
  assumes "length d = k * n"
  shows "chunk n (k + j) (d @ e) = chunk n k d @ chunk n j e"
proof (rule nth_equalityI)
  fix i assume "i < length (chunk n (k + j) (d @ e))"
  with assms Suc_mult_le [of i k n]
  show "chunk n (k + j) (d @ e) ! i = (chunk n k d @ chunk n j e) ! i"
    by (cases "i < k") (simp_all add: nth_append diff_mult_distrib)
qed simp

lemma chunk_cong:
  "k * n \<le> length d \<Longrightarrow> take (k * n) e = take (k * n) d \<Longrightarrow> chunk n k e = chunk n k d"
  by (metis chunk_take order_refl)

lemma chunk_prefix: "j \<le> k \<Longrightarrow> chunk n j d = take j (chunk n k d)"
  by (simp add: chunk_def take_map)

lemma chunk_drop: "chunk n k (drop (j * n) d) = drop j (chunk n (j + k) d)"
  by (rule nth_equalityI) (simp_all add: add_mult_distrib add.commute)

lemma chunk_Suc: "chunk n (Suc k) d = chunk n k d @ [take n (drop (k * n) d)]"
  by (simp add: chunk_def)

section \<open>The array as a list\<close>

definition arr_elems :: "seq_arr \<Rightarrow> byte list list" where
  "arr_elems arr = chunk (arr_elt_size arr) (arr_size arr) (arr_data arr)"

text \<open>
  The invariant: the block holds \<open>cap\<close> elements, the capacity is eight doubled some number of
  times, one element of it is free, and the sizes fit an \<open>int\<close>.
\<close>

definition arr_ok :: "seq_arr \<Rightarrow> bool" where
  "arr_ok arr \<longleftrightarrow> 0 < arr_elt_size arr \<and> arr_size arr < arr_cap arr \<and>
     (\<exists>k. arr_cap arr = MIN_SIZE * 2 ^ k) \<and>
     arr_cap arr * arr_elt_size arr \<le> length (arr_data arr) \<and>
     arr_cap arr * arr_elt_size arr < 2 ^ 31"

lemma length_arr_elems [simp]: "length (arr_elems arr) = arr_size arr"
  by (simp add: arr_elems_def)

lemma arr_ok_room:
  assumes "arr_ok arr"
  shows "arr_size arr * arr_elt_size arr + arr_elt_size arr \<le> length (arr_data arr)"
  using assms Suc_mult_le [of "arr_size arr" "arr_cap arr" "arr_elt_size arr"]
  by (auto simp: arr_ok_def)

lemma arr_init_ok:
  assumes "0 < n" "MIN_SIZE * n < 2 ^ 31"
  shows "arr_ok (seq_arr_init n) \<and> arr_elems (seq_arr_init n) = []"
proof -
  have "\<exists>k. MIN_SIZE = MIN_SIZE * 2 ^ k" by (rule exI [of _ 0]) simp
  with assms show ?thesis
    by (simp add: seq_arr_init_def arr_ok_def arr_elems_def chunk_def MIN_SIZE_def)
qed

text \<open>Growing keeps the elements; the block may already be longer than the capacity needs.\<close>

lemma maybe_expand_ok:
  fixes junk :: "nat \<Rightarrow> byte"
  assumes ok: "arr_ok arr" and fits: "2 * arr_cap arr * arr_elt_size arr < 2 ^ 31"
  defines "arr' \<equiv> maybe_expand junk arr"
  shows "arr_ok arr' \<and> arr_elems arr' = arr_elems arr \<and> arr_size arr' = arr_size arr \<and>
         arr_elt_size arr' = arr_elt_size arr \<and> arr_size arr' + 1 < arr_cap arr'"
proof (cases "arr_size arr + 1 = arr_cap arr")
  case False
  with ok show ?thesis by (auto simp: arr'_def maybe_expand_def arr_ok_def)
next
  case True
  let ?n = "2 * arr_cap arr * arr_elt_size arr"
  let ?d = "mem_realloc junk ?n (arr_data arr)"
  obtain k where k: "arr_cap arr = MIN_SIZE * 2 ^ k" using ok by (auto simp: arr_ok_def)
  have sz: "arr_size arr * arr_elt_size arr \<le> ?n"
    unfolding mult.assoc [of 2] True [symmetric] by (simp add: add_mult_distrib)
  have len': "?n \<le> length ?d" by (simp add: mem_realloc_def)
  have "take (arr_size arr * arr_elt_size arr) ?d =
        take (arr_size arr * arr_elt_size arr) (arr_data arr)"
    using sz arr_ok_room [OF ok] by (simp add: mem_realloc_def min_def)
  then have elems: "chunk (arr_elt_size arr) (arr_size arr) ?d = arr_elems arr"
    unfolding arr_elems_def using arr_ok_room [OF ok] by (intro chunk_cong) auto
  have "\<exists>j. arr_cap arr * 2 = MIN_SIZE * 2 ^ j" by (rule exI [of _ "Suc k"]) (simp add: k)
  moreover have "arr' = arr\<lparr>arr_data := ?d, arr_cap := arr_cap arr * 2\<rparr>"
    using True by (simp add: arr'_def maybe_expand_def)
  ultimately show ?thesis
    using ok True fits len' elems by (simp add: arr_ok_def arr_elems_def mult.commute)
qed

lemma seq_arr_push_back_ok:
  assumes ok: "arr_ok arr" and fits: "2 * arr_cap arr * arr_elt_size arr < 2 ^ 31"
    and len: "length x = arr_elt_size arr"
  shows "\<exists>arr'. seq_arr_push_back junk arr x = Inr arr' \<and> arr_ok arr' \<and>
           arr_elt_size arr' = arr_elt_size arr \<and> arr_elems arr' = arr_elems arr @ [x]"
proof -
  let ?a = "maybe_expand junk arr"
  let ?n = "arr_elt_size arr" and ?k = "arr_size arr"
  have a: "arr_ok ?a" "arr_elems ?a = arr_elems arr" "arr_size ?a = ?k"
    "arr_elt_size ?a = ?n" "?k + 1 < arr_cap ?a"
    using maybe_expand_ok [OF ok fits, of junk] by simp_all
  have room: "?k * ?n + ?n \<le> length (arr_data ?a)"
    using arr_ok_room [OF a(1)] a(3,4) by simp
  let ?d = "take (?k * ?n) (arr_data ?a) @ x @ drop (?k * ?n + ?n) (arr_data ?a)"
  let ?a' = "?a\<lparr>arr_data := ?d, arr_size := ?k + 1\<rparr>"
  have "mem_copy (arr_data ?a) (int (?k * ?n)) x 0 (int ?n) = Inr ?d"
    using room len by (simp add: mem_copy_def nat_mult_distrib flip: of_nat_mult of_nat_add)
  then have "seq_arr_push_back junk arr x = Inr ?a'"
    using len a(3,4) by (simp add: seq_arr_push_back_def assertr_def Let_def)
  moreover have "arr_ok ?a'"
    using a room len by (simp add: arr_ok_def)
  moreover have "arr_elems ?a' = arr_elems arr @ [x]"
  proof -
    have "chunk ?n ?k ?d = chunk ?n ?k (arr_data ?a)"
      using room by (intro chunk_cong) auto
    moreover have "take ?n (drop (?k * ?n) ?d) = x"
      using room len by simp
    ultimately show ?thesis
      using a(2-4) by (simp add: arr_elems_def chunk_Suc)
  qed
  ultimately show ?thesis using a(4) by simp
qed

text \<open>
  Shrinking allocates \<open>cap * cap\<close> bytes instead of \<open>cap * elt_size\<close>. With elements no larger
  than the new capacity this is enough; the new capacity is at least 32, because more than
  eight elements are left in less than a quarter of the old one.
\<close>

lemma cap_at_shrink:
  assumes "arr_ok arr" and "MIN_SIZE < arr_size arr" and "4 * arr_size arr < arr_cap arr"
  obtains k where "arr_cap arr = 2 * (MIN_SIZE * 2 ^ k)" and "32 \<le> MIN_SIZE * 2 ^ k"
proof -
  obtain j where j: "arr_cap arr = MIN_SIZE * 2 ^ j" using assms(1) by (auto simp: arr_ok_def)
  have "(2::nat) ^ 2 < 2 ^ j" using assms j by (simp add: MIN_SIZE_def)
  then have "2 < j" by (rule power_less_imp_less_exp [rotated]) simp
  then obtain k where k: "j = Suc k" "2 \<le> k" by (cases j) auto
  have "(2::nat) ^ 2 \<le> 2 ^ k" using k(2) by (rule power_increasing) simp
  with j k show ?thesis by (intro that [of k]) (simp_all add: MIN_SIZE_def)
qed

definition shrinks :: "seq_arr \<Rightarrow> bool" where
  "shrinks arr \<longleftrightarrow> MIN_SIZE < arr_size arr \<and> 4 * arr_size arr < arr_cap arr"

lemma maybe_shrink_ok:
  assumes ok: "arr_ok arr" and small: "shrinks arr \<Longrightarrow> arr_elt_size arr \<le> arr_cap arr div 2"
  shows "\<exists>arr'. maybe_shrink arr = Inr arr' \<and> arr_ok arr' \<and>
           arr_elt_size arr' = arr_elt_size arr \<and> arr_elems arr' = arr_elems arr"
proof (cases "shrinks arr")
  case False
  with ok show ?thesis unfolding shrinks_def maybe_shrink_def by auto
next
  case True
  then have guard: "MIN_SIZE < arr_size arr" "4 * arr_size arr < arr_cap arr"
    by (auto simp: shrinks_def)
  obtain k where k: "arr_cap arr = 2 * (MIN_SIZE * 2 ^ k)" "32 \<le> MIN_SIZE * 2 ^ k"
    using cap_at_shrink [OF ok guard] .
  let ?c = "MIN_SIZE * 2 ^ k" and ?n = "arr_elt_size arr" and ?s = "arr_size arr"
  have c: "arr_cap arr div 2 = ?c" using k by simp
  have n: "?n \<le> ?c" using small [OF True] c by simp
  have cn: "?c * ?n \<le> ?c * ?c" using n by (rule mult_le_mono2)
  have sn: "?s * ?n \<le> ?c * ?n" using guard(2) k(1) by (intro mult_le_mono1) simp
  have sc: "?s * ?n \<le> ?c * ?c" using sn cn by (rule order_trans)
  let ?d = "take (?s * ?n) (arr_data arr) @ replicate (?c * ?c - ?s * ?n) 0"
  let ?a = "arr\<lparr>arr_data := ?d, arr_cap := ?c\<rparr>"
  have room: "?s * ?n \<le> length (arr_data arr)" using arr_ok_room [OF ok] by simp
  have "mem_copy (replicate (?c * ?c) 0) 0 (arr_data arr) 0 (int (?s * ?n)) = Inr ?d"
    using room sc by (simp add: mem_copy_def nat_mult_distrib flip: of_nat_mult)
  moreover have "MIN_SIZE < arr_cap arr" using guard by linarith
  moreover have "?s \<le> ?c" using guard k(1) by linarith
  ultimately have "maybe_shrink arr = Inr ?a"
    using guard by (simp add: maybe_shrink_def assertr_def c Let_def)
  moreover have "arr_ok ?a"
  proof -
    have "?s < ?c" using guard(2) k(1) by linarith
    moreover have "length ?d = ?c * ?c" using room sc by simp
    moreover have "2 * (?c * ?n) < 2 ^ 31" using ok k(1) by (simp add: arr_ok_def ac_simps)
    then have "?c * ?n < 2 ^ 31" by linarith
    ultimately show ?thesis using ok cn by (simp add: arr_ok_def)
  qed
  moreover have "arr_elems ?a = arr_elems arr"
    unfolding arr_elems_def using room by simp (intro chunk_cong, auto)
  ultimately show ?thesis by simp
qed

section \<open>Erasing one element\<close>

lemma to_i32_small [simp]: "0 \<le> n \<Longrightarrow> n < 2 ^ 31 \<Longrightarrow> to_i32 n = n"
  by (simp add: to_i32_def sint_sbintrunc' signed_take_bit_int_eq_self)

text \<open>The block after the move and the clearing of the freed end.\<close>

definition erased_data :: "seq_arr \<Rightarrow> nat \<Rightarrow> byte list" where
  "erased_data arr i =
     (let n = arr_elt_size arr; k = arr_size arr; d = arr_data arr in
      take (i * n) d @ take ((k - Suc i) * n) (drop (Suc i * n) d) @ replicate n 0 @
      drop (k * n) d)"

lemma erased_data_elems:
  assumes "i < arr_size arr" and "arr_size arr * arr_elt_size arr \<le> length (arr_data arr)"
  shows "length (erased_data arr i) = length (arr_data arr)"
    and "chunk (arr_elt_size arr) (arr_size arr - 1) (erased_data arr i) =
         take i (arr_elems arr) @ drop (Suc i) (arr_elems arr)"
proof -
  let ?n = "arr_elt_size arr" and ?k = "arr_size arr" and ?d = "arr_data arr"
  obtain j where j: "?k = i + Suc j" using assms(1) less_imp_Suc_add by auto
  have len: "length (take (i * ?n) ?d) = i * ?n"
    "length (take (j * ?n) (drop (Suc i * ?n) ?d)) = j * ?n"
    using assms(2) by (simp_all add: j add_mult_distrib)
  show "length (erased_data arr i) = length ?d"
    using assms(2) len by (simp add: erased_data_def Let_def j add_mult_distrib)
  have "chunk ?n (i + j) (erased_data arr i) =
        chunk ?n i (take (i * ?n) ?d) @ chunk ?n j (drop (Suc i * ?n) ?d)"
    using len chunk_append [OF len(2), of 0] chunk_take [of j ?n "j * ?n"]
    by (simp add: erased_data_def Let_def j chunk_append chunk_take chunk_def [of _ 0])
  also have "\<dots> = take i (chunk ?n ?k ?d) @ drop (Suc i) (chunk ?n ?k ?d)"
    using chunk_drop [of ?n j "Suc i" ?d] chunk_prefix [of i ?k ?n ?d]
    by (simp add: chunk_take j)
  finally show "chunk ?n (?k - 1) (erased_data arr i) =
      take i (arr_elems arr) @ drop (Suc i) (arr_elems arr)"
    by (simp add: arr_elems_def j)
qed

lemma visit_it_one:
  "0 < arr_size arr \<Longrightarrow> 0 < arr_elt_size arr \<Longrightarrow>
   visit_it (arr_size arr) arr it (it + arr_elt_size arr) = Inr [it]"
  by (cases "arr_size arr") (simp_all add: visit_it.simps seq_arr_next_def)

lemma mem_move_clear:
  assumes i: "i < arr_size arr" and room: "arr_size arr * arr_elt_size arr \<le> length (arr_data arr)"
    and n: "n = arr_elt_size arr" and k: "arr_size arr = i + Suc j"
  shows "bindr (mem_copy (arr_data arr) (int (i * n)) (arr_data arr) (int (i * n + n))
                  (int (j * n)))
           (\<lambda>d. mem_copy d (int ((i + j) * n)) (replicate n 0) 0 (int n)) =
         Inr (erased_data arr i)"
proof -
  let ?d = "arr_data arr"
  have room': "i * n + n + j * n \<le> length ?d" using room by (simp add: n k add_mult_distrib)
  let ?m = "take (i * n) ?d @ take (j * n) (drop (i * n + n) ?d) @ drop (i * n + j * n) ?d"
  have move: "mem_copy ?d (int (i * n)) ?d (int (i * n + n)) (int (j * n)) = Inr ?m"
    using room' unfolding mem_copy_def by (simp only: nat_int of_nat_add [symmetric] of_nat_le_iff
      of_nat_less_iff) (simp del: of_nat_add of_nat_mult)
  have len: "length ?m = length ?d" using room' by simp
  have "mem_copy ?m (int ((i + j) * n)) (replicate n 0) 0 (int n) =
        Inr (take ((i + j) * n) ?m @ replicate n 0 @ drop ((i + j) * n + n) ?m)"
    using room' len unfolding mem_copy_def
    by (simp del: of_nat_add of_nat_mult add: add_mult_distrib flip: of_nat_add)
  also have "\<dots> = Inr (erased_data arr i)"
  proof -
    have "(i + Suc j) * n = i * n + j * n + n" "(i + j) * n = i * n + j * n"
      "Suc i * n = i * n + n" by (simp_all add: add_mult_distrib)
    then show ?thesis
      using room' by (simp add: erased_data_def Let_def k n [symmetric] add.commute [of n])
  qed
  finally show ?thesis using move by simp
qed

text \<open>What erasing needs of an array: its elements lie in the block, and the sizes fit an \<open>int\<close>.\<close>

definition arr_wf :: "seq_arr \<Rightarrow> bool" where
  "arr_wf arr \<longleftrightarrow> 0 < arr_elt_size arr \<and> arr_size arr < arr_cap arr \<and>
     arr_size arr * arr_elt_size arr \<le> length (arr_data arr) \<and>
     arr_cap arr * arr_elt_size arr < 2 ^ 31"

lemma arr_ok_wf: "arr_ok arr \<Longrightarrow> arr_wf arr"
  using arr_ok_room [of arr] by (simp add: arr_ok_def arr_wf_def)

lemma seq_arr_erase_deep_eq:
  assumes wf: "arr_wf arr" and i: "i < arr_size arr"
  shows "seq_arr_erase_deep arr (i * arr_elt_size arr) free_func =
         bindr (maybe_shrink (arr\<lparr>arr_size := arr_size arr - 1, arr_data := erased_data arr i\<rparr>))
           (\<lambda>arr'. Inr (arr', if free_func then [arr_elems arr ! i] else []))"
proof -
  let ?n = "arr_elt_size arr" and ?s = "i * arr_elt_size arr"
  obtain j where j: "arr_size arr = i + Suc j" using i less_imp_Suc_add by auto
  have n: "0 < ?n" and room: "arr_size arr * ?n \<le> length (arr_data arr)"
    using wf by (simp_all add: arr_wf_def)
  have "arr_size arr * ?n \<le> arr_cap arr * ?n" using wf by (simp add: arr_wf_def)
  then have "arr_size arr * ?n < 2 ^ 31" using wf unfolding arr_wf_def by linarith
  then have bound: "?s + ?n + j * ?n < 2 ^ 31" by (simp add: j add_mult_distrib)
  have diffs: "int (seq_arr_end arr) - int (?s + ?n) = int (j * ?n)"
    "int (?s + ?n) - int ?s = int ?n"
    by (simp_all add: seq_arr_end_def j add_mult_distrib)
  have ints: "to_i32 (int (j * ?n)) = int (j * ?n)" "to_i32 (int ?n) = int ?n"
    "to_i32 (int ?n mod 18446744073709551616 div int ?n) = 1"
    using bound n by (simp_all del: of_nat_mult add: to_i32_small)
  obtain m where m:
    "mem_copy (arr_data arr) (int ?s) (arr_data arr) (int (?s + ?n)) (int (j * ?n)) = Inr m"
    "mem_copy m (int ((i + j) * ?n)) (replicate ?n 0) 0 (int ?n) = Inr (erased_data arr i)"
    using mem_move_clear [OF i room refl j] by blast
  moreover have "(if free_func then visit_it (arr_size arr) arr ?s (?s + ?n) else Inr []) =
      Inr (if free_func then [?s] else [])"
    using visit_it_one [of arr ?s] n i by simp
  moreover have "elt_at arr ?s = arr_elems arr ! i"
    using i by (simp add: arr_elems_def elt_at_def)
  moreover have "seq_arr_end (arr\<lparr>arr_data := m, arr_size := i + j\<rparr>) = (i + j) * ?n"
    by (simp add: seq_arr_end_def)
  ultimately show ?thesis
    using n by (simp add: seq_arr_erase_deep_def seq_arr_next_def seq_arr_erase_it_def diffs ints
      assertr_def Let_def j del: of_nat_mult of_nat_add)
qed

lemma arr_after_erase:
  assumes ok: "arr_ok arr" and i: "i < arr_size arr"
  defines "arr' \<equiv> arr\<lparr>arr_size := arr_size arr - 1, arr_data := erased_data arr i\<rparr>"
  shows "arr_ok arr' \<and> arr_elems arr' = take i (arr_elems arr) @ drop (Suc i) (arr_elems arr)"
proof -
  have room: "arr_size arr * arr_elt_size arr \<le> length (arr_data arr)"
    using arr_ok_room [OF ok] by simp
  have "arr_size arr - 1 < arr_cap arr" using ok i unfolding arr_ok_def by linarith
  then show ?thesis
    using ok erased_data_elems [OF i room] by (simp add: arr'_def arr_ok_def arr_elems_def)
qed

text \<open>An element at most as large as the halved capacity is enough, and 32 bytes always are.\<close>

lemma seq_arr_erase_deep_ok:
  assumes ok: "arr_ok arr" and n: "arr_elt_size arr \<le> 32" and i: "i < arr_size arr"
  shows "\<exists>arr'. seq_arr_erase_deep arr (i * arr_elt_size arr) free_func =
             Inr (arr', if free_func then [arr_elems arr ! i] else []) \<and> arr_ok arr' \<and>
           arr_elt_size arr' = arr_elt_size arr \<and> arr_cap arr' \<le> arr_cap arr \<and>
           arr_elems arr' = take i (arr_elems arr) @ drop (Suc i) (arr_elems arr)"
proof -
  let ?a = "arr\<lparr>arr_size := arr_size arr - 1, arr_data := erased_data arr i\<rparr>"
  have a: "arr_ok ?a" "arr_elems ?a = take i (arr_elems arr) @ drop (Suc i) (arr_elems arr)"
    using arr_after_erase [OF ok i] by simp_all
  have "arr_elt_size ?a \<le> arr_cap ?a div 2" if sh: "shrinks ?a"
  proof -
    obtain k where "arr_cap ?a = 2 * (MIN_SIZE * 2 ^ k)" "32 \<le> MIN_SIZE * 2 ^ k"
      using sh cap_at_shrink [OF a(1)] unfolding shrinks_def by metis
    with n show ?thesis by simp
  qed
  from maybe_shrink_ok [OF a(1) this]
  obtain arr' where arr': "maybe_shrink ?a = Inr arr'" "arr_ok arr'"
    "arr_elt_size arr' = arr_elt_size arr" "arr_elems arr' = arr_elems ?a" by auto
  moreover have "arr_cap arr' \<le> arr_cap arr"
    using arr'(1) by (auto simp: maybe_shrink_def assertr_def Let_def split: if_splits)
  ultimately show ?thesis
    using a(2) seq_arr_erase_deep_eq [OF arr_ok_wf [OF ok] i, of free_func] by simp
qed

definition erase_pos :: "seq_arr \<Rightarrow> nat \<Rightarrow> seq_arr res" where
  "erase_pos arr pos = bindr (seq_arr_at arr pos) (seq_arr_erase arr)"

lemma erase_pos_ok:
  assumes "arr_ok arr" "arr_elt_size arr \<le> 32" "i < arr_size arr"
  shows "\<exists>arr'. erase_pos arr i = Inr arr' \<and> arr_ok arr' \<and>
           arr_elt_size arr' = arr_elt_size arr \<and> arr_cap arr' \<le> arr_cap arr \<and>
           arr_elems arr' = take i (arr_elems arr) @ drop (Suc i) (arr_elems arr)"
  using seq_arr_erase_deep_ok [OF assms, of False] assms(3)
  by (auto simp: erase_pos_def seq_arr_at_def assertr_def seq_arr_erase_def)

section \<open>Search and iteration\<close>

fun find_index :: "('a \<Rightarrow> bool) \<Rightarrow> 'a list \<Rightarrow> nat option" where
  "find_index f [] = None"
| "find_index f (x # l) = (if f x then Some 0 else map_option Suc (find_index f l))"

lemma find_index_SomeD:
  "find_index f l = Some i \<Longrightarrow> i < length l \<and> f (l ! i) \<and> (\<forall>j<i. \<not> f (l ! j))"
  by (induction l arbitrary: i) (auto simp: nth_Cons less_Suc_eq_0_disj split: if_splits nat.splits)

lemma find_index_None_iff: "find_index f l = None \<longleftrightarrow> (\<forall>x\<in>set l. \<not> f x)"
  by (induction l) auto

lemma elt_at_step: "i < arr_size arr \<Longrightarrow> elt_at arr (i * arr_elt_size arr) = arr_elems arr ! i"
  by (simp add: elt_at_def arr_elems_def)

lemma mult_end_iff:
  "0 < arr_elt_size arr \<Longrightarrow> i * arr_elt_size arr = seq_arr_end arr \<longleftrightarrow> i = arr_size arr"
  by (simp add: seq_arr_end_def)

lemma seq_arr_next_mult: "seq_arr_next arr (i * arr_elt_size arr) = Suc i * arr_elt_size arr"
  by (simp add: seq_arr_next_def)

lemma find_if_from:
  assumes n: "0 < arr_elt_size arr" and "i \<le> arr_size arr" and "fuel = arr_size arr - i"
  shows "find_if_arr_it fuel arr (i * arr_elt_size arr) (seq_arr_end arr) f =
         Inr (map_option (\<lambda>j. (i + j) * arr_elt_size arr) (find_index f (drop i (arr_elems arr))))"
  using assms(2,3)
proof (induction fuel arbitrary: i)
  case 0
  then show ?case by (simp add: find_if_arr_it.simps seq_arr_end_def)
next
  case (Suc fuel)
  then have i: "i < arr_size arr" by simp
  have "drop i (arr_elems arr) = arr_elems arr ! i # drop (Suc i) (arr_elems arr)"
    using i by (simp add: Cons_nth_drop_Suc)
  moreover have "find_if_arr_it fuel arr (Suc i * arr_elt_size arr) (seq_arr_end arr) f =
      Inr (map_option (\<lambda>j. (Suc i + j) * arr_elt_size arr)
             (find_index f (drop (Suc i) (arr_elems arr))))"
    using Suc.prems i by (intro Suc.IH) auto
  ultimately show ?case
    using i n by (subst find_if_arr_it.simps)
      (simp add: mult_end_iff seq_arr_next_mult elt_at_step option.map_comp comp_def
        del: mult_Suc)
qed

lemma find_if_ok:
  assumes "0 < arr_elt_size arr"
  shows "find_if arr f = Inr (map_option (\<lambda>i. i * arr_elt_size arr) (find_index f (arr_elems arr)))"
  using find_if_from [OF assms, of 0 "arr_size arr" f] by (simp add: find_if_def seq_arr_front_def)

lemma visit_it_from:
  assumes n: "0 < arr_elt_size arr" and "i \<le> arr_size arr" and "fuel = arr_size arr - i"
  shows "visit_it fuel arr (i * arr_elt_size arr) (seq_arr_end arr) =
         Inr (map (\<lambda>j. j * arr_elt_size arr) [i..<arr_size arr])"
  using assms(2,3)
proof (induction fuel arbitrary: i)
  case 0
  then show ?case by (simp add: visit_it.simps seq_arr_end_def)
next
  case (Suc fuel)
  then have i: "i < arr_size arr" by simp
  have "visit_it fuel arr (Suc i * arr_elt_size arr) (seq_arr_end arr) =
      Inr (map (\<lambda>j. j * arr_elt_size arr) [Suc i..<arr_size arr])"
    using Suc.prems i by (intro Suc.IH) auto
  then show ?case
    using i n by (subst visit_it.simps)
      (simp add: mult_end_iff seq_arr_next_mult upt_conv_Cons del: mult_Suc)
qed

lemma seq_arr_free_ok:
  assumes "0 < arr_elt_size arr"
  shows "seq_arr_free arr True = Inr (arr_elems arr)"
proof -
  have "visit_it (arr_size arr) arr (seq_arr_front arr) (seq_arr_end arr) =
        Inr (map (\<lambda>j. j * arr_elt_size arr) [0..<arr_size arr])"
    using visit_it_from [OF assms, of 0 "arr_size arr"] by (simp add: seq_arr_front_def)
  moreover have "map (elt_at arr \<circ> (\<lambda>j. j * arr_elt_size arr)) [0..<arr_size arr] = arr_elems arr"
    by (simp add: arr_elems_def chunk_def elt_at_def comp_def)
  ultimately show ?thesis by (simp add: seq_arr_free_def)
qed

section \<open>Erasing a set of positions\<close>

text \<open>
  The loop of the callers that erase several elements: the positions are collected first, then
  erased from the last to the first. The contract of the container is a locale: a position of
  the list of elements can be erased, and the elements before and behind it stay.
\<close>

fun erase_indices :: "('a \<Rightarrow> nat \<Rightarrow> 'a res) \<Rightarrow> nat list \<Rightarrow> 'a \<Rightarrow> 'a res" where
  "erase_indices er [] a = Inr a"
| "erase_indices er (i # is) a = bindr (erase_indices er is a) (\<lambda>a. er a i)"

definition indices_of :: "('e \<Rightarrow> bool) \<Rightarrow> 'e list \<Rightarrow> nat list" where
  "indices_of P l = filter (\<lambda>i. P (l ! i)) [0..<length l]"

lemma indices_of_snoc:
  "indices_of P (l @ [y]) = indices_of P l @ (if P y then [length l] else [])"
proof -
  have "filter (\<lambda>i. P ((l @ [y]) ! i)) [0..<length l] = filter (\<lambda>i. P (l ! i)) [0..<length l]"
    by (rule filter_cong) (auto simp: nth_append)
  then show ?thesis by (simp add: indices_of_def)
qed

lemma erase_indices_append:
  "erase_indices er (is @ js) a = bindr (erase_indices er js a) (erase_indices er is)"
proof (induction "is")
  case Nil
  show ?case by (cases "erase_indices er js a") simp_all
next
  case (Cons i "is")
  then show ?case by (cases "erase_indices er js a") simp_all
qed

locale seq_container =
  fixes ok :: "'a \<Rightarrow> bool" and elems :: "'a \<Rightarrow> 'e list" and er :: "'a \<Rightarrow> nat \<Rightarrow> 'a res"
  assumes erase: "ok a \<Longrightarrow> i < length (elems a) \<Longrightarrow>
    \<exists>a'. er a i = Inr a' \<and> ok a' \<and> elems a' = take i (elems a) @ drop (Suc i) (elems a)"
begin

lemma erase_indices_prefix:
  assumes "ok a" and "elems a = l @ r"
  shows "\<exists>a'. erase_indices er (indices_of P l) a = Inr a' \<and> ok a' \<and>
           elems a' = filter (\<lambda>x. \<not> P x) l @ r"
  using assms
proof (induction l arbitrary: a r rule: rev_induct)
  case Nil
  then show ?case by (simp add: indices_of_def)
next
  case (snoc y l)
  show ?case
  proof (cases "P y")
    case False
    with snoc.IH [of a "y # r"] snoc.prems show ?thesis by (simp add: indices_of_snoc)
  next
    case True
    obtain a1 where a1: "er a (length l) = Inr a1" "ok a1" "elems a1 = l @ r"
      using erase [OF snoc.prems(1), of "length l"] snoc.prems(2) by auto
    with snoc.IH [of a1 r] True show ?thesis
      by (simp add: indices_of_snoc erase_indices_append)
  qed
qed

lemma erase_matching:
  assumes "ok a"
  shows "\<exists>a'. erase_indices er (indices_of P (elems a)) a = Inr a' \<and> ok a' \<and>
           elems a' = filter (\<lambda>x. \<not> P x) (elems a)"
  using erase_indices_prefix [OF assms, of "elems a" "[]"] by simp

end

interpretation sa: seq_container
  "\<lambda>arr. arr_ok arr \<and> arr_elt_size arr \<le> 32" arr_elems erase_pos
proof unfold_locales
  fix a i assume "arr_ok a \<and> arr_elt_size a \<le> 32" and "i < length (arr_elems a)"
  then show "\<exists>a'. erase_pos a i = Inr a' \<and> (arr_ok a' \<and> arr_elt_size a' \<le> 32) \<and>
      arr_elems a' = take i (arr_elems a) @ drop (Suc i) (arr_elems a)"
    using erase_pos_ok [of a i] by auto
qed

section \<open>Histories of an array\<close>

datatype arr_op = Push_back "byte list" | Erase_at nat

definition arr_step :: "(nat \<Rightarrow> byte) \<Rightarrow> arr_op \<Rightarrow> seq_arr \<Rightarrow> seq_arr res" where
  "arr_step junk op arr =
     (case op of Push_back x \<Rightarrow> seq_arr_push_back junk arr x | Erase_at i \<Rightarrow> erase_pos arr i)"

fun arr_run :: "(nat \<Rightarrow> byte) \<Rightarrow> arr_op list \<Rightarrow> seq_arr \<Rightarrow> seq_arr res" where
  "arr_run junk [] arr = Inr arr"
| "arr_run junk (op # ops) arr = bindr (arr_step junk op arr) (arr_run junk ops)"

text \<open>The same history on the list of elements; \<open>None\<close> when an operation is not allowed.\<close>

fun list_run :: "nat \<Rightarrow> arr_op list \<Rightarrow> byte list list \<Rightarrow> byte list list option" where
  "list_run n [] l = Some l"
| "list_run n (Push_back x # ops) l = (if length x = n then list_run n ops (l @ [x]) else None)"
| "list_run n (Erase_at i # ops) l =
     (if i < length l then list_run n ops (take i l @ drop (Suc i) l) else None)"

text \<open>The capacity doubles only when all but one element of it are in use.\<close>

lemma push_back_cap:
  assumes "seq_arr_push_back junk arr x = Inr arr'" and "arr_cap arr \<le> 8 + 2 * m"
    and "arr_size arr \<le> m"
  shows "arr_cap arr' \<le> 8 + 2 * Suc m"
  using assms by (auto simp: seq_arr_push_back_def maybe_expand_def assertr_def Let_def
      split: if_splits)

lemma arr_run_refines:
  assumes "arr_ok arr" "arr_elt_size arr = n" "n \<le> 32" "arr_cap arr \<le> 8 + 2 * m"
    "arr_size arr \<le> m" "m + length ops \<le> 2 ^ 20" "list_run n ops (arr_elems arr) = Some l"
  shows "\<exists>arr'. arr_run junk ops arr = Inr arr' \<and> arr_ok arr' \<and> arr_elt_size arr' = n \<and>
           arr_elems arr' = l"
  using assms
proof (induction ops arbitrary: arr m)
  case (Cons op ops)
  show ?case
  proof (cases op)
    case (Push_back x)
    have x: "length x = n" and rest: "list_run n ops (arr_elems arr @ [x]) = Some l"
      using Cons.prems(7) Push_back by (auto split: if_splits)
    have "arr_cap arr * n \<le> (8 + 2 * m) * 32" using Cons.prems(3,4) by (rule mult_le_mono [rotated])
    moreover have "(8 + 2 * m) * 32 \<le> 67109120" using Cons.prems(6) by simp
    ultimately have "arr_cap arr * n \<le> 67109120" by (rule order_trans)
    then have "2 * (arr_cap arr * n) < 2147483648" by linarith
    then have "2 * arr_cap arr * n < 2 ^ 31" by (simp add: mult.assoc)
    then obtain arr1 where arr1: "seq_arr_push_back junk arr x = Inr arr1" "arr_ok arr1"
      "arr_elt_size arr1 = n" "arr_elems arr1 = arr_elems arr @ [x]"
      using seq_arr_push_back_ok [OF Cons.prems(1), of x junk] x Cons.prems(2) by auto
    have "arr_size arr1 = Suc (arr_size arr)"
      using arg_cong [OF arr1(4), of length] by simp
    then have "\<exists>arr'. arr_run junk ops arr1 = Inr arr' \<and> arr_ok arr' \<and> arr_elt_size arr' = n \<and>
        arr_elems arr' = l"
      using arr1 rest Cons.prems push_back_cap [OF arr1(1) Cons.prems(4,5)]
      by (intro Cons.IH [of arr1 "Suc m"]) auto
    with arr1(1) show ?thesis by (simp add: Push_back arr_step_def)
  next
    case (Erase_at i)
    have i: "i < arr_size arr"
      and rest: "list_run n ops (take i (arr_elems arr) @ drop (Suc i) (arr_elems arr)) = Some l"
      using Cons.prems(7) Erase_at by (auto split: if_splits)
    obtain arr1 where arr1: "erase_pos arr i = Inr arr1" "arr_ok arr1" "arr_elt_size arr1 = n"
      "arr_cap arr1 \<le> arr_cap arr"
      "arr_elems arr1 = take i (arr_elems arr) @ drop (Suc i) (arr_elems arr)"
      using erase_pos_ok [OF Cons.prems(1) _ i] Cons.prems(2,3) by auto
    have "arr_size arr1 = arr_size arr - 1"
      using arg_cong [OF arr1(5), of length] i by simp
    then have "\<exists>arr'. arr_run junk ops arr1 = Inr arr' \<and> arr_ok arr' \<and> arr_elt_size arr' = n \<and>
        arr_elems arr' = l"
      using arr1 rest Cons.prems by (intro Cons.IH [of arr1 m]) auto
    with arr1(1) show ?thesis by (simp add: Erase_at arr_step_def)
  qed
qed simp

text \<open>
  C18: Every history of a new array whose elements have at most 32 bytes is the history of a list.
  From the list of elements onwards: whatever bytes \<open>realloc\<close> adds, a sequence of up to
  \<open>2^20\<close> pushes and erasures that is allowed on the list never leaves the block, through all
  growing and shrinking, and ends with exactly the elements of the list. Searching such an array
  finds the first matching element, and freeing it visits every element once in order.
\<close>

theorem seq_arr_refines_list:
  assumes "0 < n" "n \<le> 32" "length ops \<le> 2 ^ 20" "list_run n ops [] = Some l"
  shows "\<exists>arr. arr_run junk ops (seq_arr_init n) = Inr arr \<and> arr_ok arr \<and> arr_elems arr = l \<and>
           (\<forall>f. find_if arr f = Inr (map_option (\<lambda>i. i * n) (find_index f l))) \<and>
           seq_arr_free arr True = Inr l"
proof -
  have init: "arr_ok (seq_arr_init n)" "arr_elems (seq_arr_init n) = []"
    using arr_init_ok [of n] assms(1,2) by (simp_all add: MIN_SIZE_def)
  obtain arr where arr: "arr_run junk ops (seq_arr_init n) = Inr arr" "arr_ok arr"
    "arr_elt_size arr = n" "arr_elems arr = l"
    using arr_run_refines [OF init(1), of n 0 ops l junk] assms init(2)
    by (auto simp: seq_arr_init_def MIN_SIZE_def)
  with assms(1) find_if_ok [of arr] seq_arr_free_ok [of arr] show ?thesis by auto
qed

theorem seq_arr_refines_list_witness:
  "list_run 1 [Push_back [7], Push_back [8], Erase_at 0] [] = Some [[8]] \<and>
   (\<exists>arr. arr_run (\<lambda>_. 0) [Push_back [7], Push_back [8], Erase_at 0] (seq_arr_init 1) = Inr arr \<and>
      find_if arr (\<lambda>x. x = [8]) = Inr (Some 0) \<and> seq_arr_free arr True = Inr [[8]])"
  using seq_arr_refines_list [of 1 "[Push_back [7], Push_back [8], Erase_at 0]" "[[8]]" "\<lambda>_. 0"]
  by auto

text \<open>
  Shrinking an array of large elements. \<open>maybe_shrink\<close> allocates the square of the new
  capacity instead of the capacity times the element size. When an erasure leaves more than
  eight elements in less than a quarter of the capacity and these elements do not fit that
  square, the erasure writes behind the new block; when the elements fit but are larger than the
  new capacity, the array that comes back announces more room than its block has.
\<close>

lemma seq_arr_shrink_overflow:
  assumes ok: "arr_ok arr" and i: "i < arr_size arr"
    and shrink: "8 < arr_size arr - 1" "4 * (arr_size arr - 1) < arr_cap arr"
    and large: "arr_cap arr div 2 < arr_elt_size arr"
  shows "if (arr_cap arr div 2)\<^sup>2 < (arr_size arr - 1) * arr_elt_size arr
         then erase_pos arr i = Inl Out_of_bounds
         else \<exists>arr'. erase_pos arr i = Inr arr' \<and> arr_size arr' < arr_cap arr' \<and>
                length (arr_data arr') < arr_cap arr' * arr_elt_size arr'"
proof -
  let ?c = "arr_cap arr div 2" and ?k = "arr_size arr - 1"
  let ?a = "arr\<lparr>arr_size := ?k, arr_data := erased_data arr i\<rparr>"
  have a: "arr_ok ?a" using arr_after_erase [OF ok i] by simp
  have room: "?k * arr_elt_size arr \<le> length (erased_data arr i)"
    using arr_ok_room [OF a] by simp
  have erase: "erase_pos arr i = bindr (maybe_shrink ?a) Inr"
    using i seq_arr_erase_deep_eq [OF arr_ok_wf [OF ok] i, of False]
    by (cases "maybe_shrink ?a") (simp_all add: erase_pos_def seq_arr_at_def seq_arr_erase_def assertr_def)
  have c: "?k < ?c" "8 < arr_cap arr" using shrink by linarith+
  have copy: "mem_copy (replicate (?c * ?c) 0) 0 (erased_data arr i) 0
        (int (?k * arr_elt_size arr)) =
      (if ?c * ?c < ?k * arr_elt_size arr then Inl Out_of_bounds
       else Inr (take (?k * arr_elt_size arr) (erased_data arr i) @
                 replicate (?c * ?c - ?k * arr_elt_size arr) 0))"
    using room by (simp add: mem_copy_def del: of_nat_mult)
  have pos: "0 < ?c" using c by linarith
  have "?c * ?c < ?c * arr_elt_size arr" using pos large by simp
  then show ?thesis
    using shrink c copy room
    by (auto simp: erase maybe_shrink_def assertr_def MIN_SIZE_def Let_def power2_eq_square)
qed

lemma seq_arr_shrink_overflow_example:
  "erase_pos \<lparr>arr_data = replicate (64 * 120) 0, arr_size = 10, arr_elt_size = 120,
     arr_cap = 64\<rparr> 0 = Inl Out_of_bounds"
proof -
  have "\<exists>k. (64::nat) = MIN_SIZE * 2 ^ k" by (rule exI [of _ 3]) (simp add: MIN_SIZE_def)
  then show ?thesis
    using seq_arr_shrink_overflow [of "\<lparr>arr_data = replicate (64 * 120) 0, arr_size = 10,
      arr_elt_size = 120, arr_cap = 64\<rparr>" 0]
    by (simp add: arr_ok_def)
qed

end
