(* ===== verification/Seq_Arr_Space.thy ===== *)
theory Seq_Arr_Space
  imports Seq_Arr
begin

text \<open>
  The array of \<open>Seq_Arr\<close> at the level of its elements, for the components that keep records in
  one: the list of the elements with the capacity and the size of the block in bytes. Growing and
  shrinking are those of the array of bytes, the fault \<open>Out_of_bounds\<close> of a block that is too small
  for its elements included; the refinement lemmas say so.
\<close>

section \<open>Elements and space\<close>

record arr_space =
  sp_cap :: nat
  sp_block :: nat

type_synonym 'a arr = "'a list \<times> arr_space"

definition init_space :: "nat \<Rightarrow> arr_space" where
  "init_space n = \<lparr>sp_cap = MIN_SIZE, sp_block = MIN_SIZE * n\<rparr>"

text \<open>\<open>seq_arr_push_back\<close> of an element of \<open>n\<close> bytes, with \<open>maybe_expand\<close>.\<close>

definition space_expand :: "nat \<Rightarrow> nat \<Rightarrow> arr_space \<Rightarrow> arr_space" where
  "space_expand n k sp =
     (if k + 1 = sp_cap sp then \<lparr>sp_cap = sp_cap sp * 2, sp_block = 2 * sp_cap sp * n\<rparr> else sp)"

definition arr_push :: "nat \<Rightarrow> 'a arr \<Rightarrow> 'a \<Rightarrow> 'a arr res" where
  "arr_push n a x =
     (case a of (l, sp) \<Rightarrow>
      let sp = space_expand n (length l) sp in
      if (length l + 1) * n \<le> sp_block sp then Inr (l @ [x], sp) else Inl Out_of_bounds)"

text \<open>\<open>seq_arr_erase_deep\<close> at a position, with \<open>maybe_shrink\<close>.\<close>

definition space_shrink :: "nat \<Rightarrow> nat \<Rightarrow> arr_space \<Rightarrow> arr_space res" where
  "space_shrink n k sp =
     (if k > MIN_SIZE \<and> 4 * k < sp_cap sp
      then let c = sp_cap sp div 2 in
           if k * n \<le> c * c then Inr \<lparr>sp_cap = c, sp_block = c * c\<rparr> else Inl Out_of_bounds
      else Inr sp)"

definition list_erase :: "'a list \<Rightarrow> nat \<Rightarrow> 'a list res" where
  "list_erase l i =
     bindr (assertr (i < length l)) (\<lambda>_. Inr (take i l @ drop (Suc i) l))"

definition arr_erase :: "nat \<Rightarrow> 'a arr \<Rightarrow> nat \<Rightarrow> 'a arr res" where
  "arr_erase n a i =
     (case a of (l, sp) \<Rightarrow>
      bindr (list_erase l i) (\<lambda>l.
      bindr (space_shrink n (length l) sp) (\<lambda>sp. Inr (l, sp))))"

section \<open>Refinement of the array of bytes\<close>

definition elem_arr :: "seq_arr \<Rightarrow> byte list arr" where
  "elem_arr arr = (arr_elems arr, \<lparr>sp_cap = arr_cap arr, sp_block = length (arr_data arr)\<rparr>)"

lemma elem_arr_init: "elem_arr (seq_arr_init n) = ([], init_space n)"
  by (simp add: elem_arr_def seq_arr_init_def arr_elems_def chunk_def init_space_def)

lemma maybe_shrink_elems:
  assumes "arr_wf arr"
  shows "case maybe_shrink arr of
           Inl f \<Rightarrow> space_shrink (arr_elt_size arr) (arr_size arr) (snd (elem_arr arr)) = Inl f
         | Inr arr' \<Rightarrow> space_shrink (arr_elt_size arr) (arr_size arr) (snd (elem_arr arr)) = Inr (snd (elem_arr arr')) \<and>
             arr_elems arr' = arr_elems arr \<and> arr_elt_size arr' = arr_elt_size arr \<and> arr_wf arr'"
proof (cases "shrinks arr")
  case False
  with assms show ?thesis by (auto simp: shrinks_def maybe_shrink_def space_shrink_def elem_arr_def)
next
  case True
  let ?c = "arr_cap arr div 2" and ?k = "arr_size arr" and ?n = "arr_elt_size arr"
  have guard: "MIN_SIZE < ?k" "4 * ?k < arr_cap arr" using True by (auto simp: shrinks_def)
  have c: "?k < ?c" "MIN_SIZE < arr_cap arr" using guard by linarith+
  have room: "?k * ?n \<le> length (arr_data arr)" using assms by (simp add: arr_wf_def)
  have copy: "mem_copy (replicate (?c * ?c) 0) 0 (arr_data arr) 0 (int (?k * ?n)) =
      (if ?k * ?n \<le> ?c * ?c
       then Inr (take (?k * ?n) (arr_data arr) @ replicate (?c * ?c - ?k * ?n) 0) else Inl Out_of_bounds)"
    using room by (simp add: mem_copy_def del: of_nat_mult)
  show ?thesis
  proof (cases "?k * ?n \<le> ?c * ?c")
    case False
    then show ?thesis
      using guard c copy by (simp add: maybe_shrink_def space_shrink_def elem_arr_def assertr_def Let_def)
  next
    case True
    let ?d = "take (?k * ?n) (arr_data arr) @ replicate (?c * ?c - ?k * ?n) 0"
    have "chunk ?n ?k ?d = chunk ?n ?k (arr_data arr)" using room by (intro chunk_cong) auto
    moreover have "?c * ?n \<le> arr_cap arr * ?n" by (intro mult_le_mono1) simp
    then have "?c * ?n < 2 ^ 31" using assms unfolding arr_wf_def by linarith
    ultimately show ?thesis
      using True guard c copy room assms
      by (simp add: maybe_shrink_def space_shrink_def elem_arr_def assertr_def Let_def arr_elems_def arr_wf_def)
  qed
qed

text \<open>
  Erasing: the array of bytes and the list with its space take the same step or have the same
  fault, for elements of any size.
\<close>

lemma arr_erase_refines:
  assumes wf: "arr_wf arr" and i: "i < arr_size arr"
  shows "case erase_pos arr i of
           Inl f \<Rightarrow> arr_erase (arr_elt_size arr) (elem_arr arr) i = Inl f
         | Inr arr' \<Rightarrow> arr_erase (arr_elt_size arr) (elem_arr arr) i = Inr (elem_arr arr') \<and>
             arr_elt_size arr' = arr_elt_size arr \<and> arr_wf arr'"
proof -
  let ?a = "arr\<lparr>arr_size := arr_size arr - 1, arr_data := erased_data arr i\<rparr>"
  have room: "arr_size arr * arr_elt_size arr \<le> length (arr_data arr)" using wf by (simp add: arr_wf_def)
  note e = erased_data_elems [OF i room]
  have elems: "arr_elems ?a = take i (arr_elems arr) @ drop (Suc i) (arr_elems arr)"
    using e(2) by (simp add: arr_elems_def)
  have "(arr_size arr - 1) * arr_elt_size arr \<le> arr_size arr * arr_elt_size arr" by (intro mult_le_mono1) simp
  then have "(arr_size arr - 1) * arr_elt_size arr \<le> length (arr_data arr)" using room by (rule order_trans)
  then have "arr_wf ?a" using wf i e(1) by (auto simp: arr_wf_def)
  note shrink = maybe_shrink_elems [OF this]
  have "erase_pos arr i = bindr (maybe_shrink ?a) Inr"
    using i seq_arr_erase_deep_eq [OF wf i, of False]
    by (cases "maybe_shrink ?a") (simp_all add: erase_pos_def seq_arr_at_def seq_arr_erase_def assertr_def)
  moreover have "length (take i (arr_elems arr) @ drop (Suc i) (arr_elems arr)) = arr_size arr - 1"
    using i by simp
  ultimately show ?thesis
    using i shrink elems e(1)
    by (auto simp: arr_erase_def elem_arr_def list_erase_def assertr_def split: sum.splits)
qed

lemma arr_push_refines:
  assumes wf: "arr_wf arr" and fits: "2 * arr_cap arr * arr_elt_size arr < 2 ^ 31"
    and len: "length x = arr_elt_size arr"
  shows "case seq_arr_push_back junk arr x of
           Inl f \<Rightarrow> arr_push (arr_elt_size arr) (elem_arr arr) x = Inl f
         | Inr arr' \<Rightarrow> arr_push (arr_elt_size arr) (elem_arr arr) x = Inr (elem_arr arr') \<and>
             arr_elt_size arr' = arr_elt_size arr \<and> arr_wf arr'"
proof -
  let ?a = "maybe_expand junk arr" and ?n = "arr_elt_size arr" and ?k = "arr_size arr"
  let ?d = "arr_data ?a"
  have a: "arr_size ?a = ?k" "arr_elt_size ?a = ?n" by (simp_all add: maybe_expand_def)
  have sp: "\<lparr>sp_cap = arr_cap ?a, sp_block = length ?d\<rparr> =
      space_expand ?n ?k \<lparr>sp_cap = arr_cap arr, sp_block = length (arr_data arr)\<rparr>"
    by (simp add: maybe_expand_def mem_realloc_def space_expand_def min_def)
  have room: "?k * ?n \<le> length (arr_data arr)" "?k < arr_cap arr" "0 < ?n" using wf by (simp_all add: arr_wf_def)
  have "?k * ?n \<le> 2 * arr_cap arr * ?n" using room(2) by (intro mult_le_mono1) simp
  then have pre: "take (?k * ?n) ?d = take (?k * ?n) (arr_data arr)" "?k * ?n \<le> length ?d"
    using room(1) by (auto simp: maybe_expand_def mem_realloc_def min_def)
  let ?d' = "take (?k * ?n) ?d @ x @ drop (?k * ?n + ?n) ?d"
  have copy: "mem_copy ?d (int (?k * ?n)) x 0 (int ?n) =
      (if (?k + 1) * ?n \<le> length ?d then Inr ?d' else Inl Out_of_bounds)"
    using len by (simp add: mem_copy_def nat_mult_distrib add.commute flip: of_nat_mult of_nat_add)
  have elems: "chunk ?n (Suc ?k) ?d' = arr_elems arr @ [x]"
  proof -
    have "chunk ?n ?k ?d' = chunk ?n ?k (arr_data arr)" using room pre by (intro chunk_cong) auto
    then show ?thesis using pre(2) len by (simp add: chunk_Suc arr_elems_def)
  qed
  have cap: "?k + 1 < arr_cap ?a" "arr_cap ?a * ?n < 2 ^ 31"
    using room wf fits by (auto simp: maybe_expand_def arr_wf_def ac_simps)
  show ?thesis
    using len a copy elems cap room(3) pre(2)
    by (auto simp: seq_arr_push_back_def assertr_def Let_def arr_push_def elem_arr_def sp [symmetric]
      arr_elems_def arr_wf_def)
qed

section \<open>Arrays that have not been shrunk\<close>

text \<open>
  A new array grows until an erasure shrinks it. Until then its block has room for its capacity, a
  power of two of at least eight, and a capacity of more than 32 is used to a quarter at least.
  Pushing is then always possible; an erasure shrinks the array exactly when it leaves less than a
  quarter of a capacity of more than 32, and writes behind the new block when the elements that are
  left do not fit the square of the new capacity.
\<close>

definition space_ok :: "nat \<Rightarrow> nat \<Rightarrow> arr_space \<Rightarrow> bool" where
  "space_ok n k sp \<longleftrightarrow> k < sp_cap sp \<and> sp_block sp = sp_cap sp * n \<and>
     (\<exists>j. sp_cap sp = MIN_SIZE * 2 ^ j) \<and> (32 < sp_cap sp \<longrightarrow> sp_cap sp \<le> 4 * k)"

lemma space_ok_cap:
  assumes "space_ok n k sp" "32 < sp_cap sp"
  shows "sp_cap sp = 64 \<or> sp_cap sp = 128 \<or> 256 \<le> sp_cap sp"
proof -
  obtain j where j: "sp_cap sp = 8 * 2 ^ j" using assms(1) by (auto simp: space_ok_def MIN_SIZE_def)
  show ?thesis
  proof (cases "5 \<le> j")
    case True
    then have "(2::nat) ^ 5 \<le> 2 ^ j" by (intro power_increasing) simp_all
    with j show ?thesis by simp
  next
    case False
    then have "j \<in> {0, 1, 2, 3, 4}" by auto
    with j assms(2) show ?thesis by auto
  qed
qed

lemma space_ok_few: "k < MIN_SIZE \<Longrightarrow> space_ok n k (init_space n)"
  unfolding space_ok_def by (auto simp: init_space_def MIN_SIZE_def intro: exI [of _ 0])

lemma init_space_ok: "space_ok n 0 (init_space n)"
  by (rule space_ok_few) (simp add: MIN_SIZE_def)

lemma space_expand_ok:
  assumes "space_ok n k sp"
  shows "space_ok n (Suc k) (space_expand n k sp)"
proof (cases "k + 1 = sp_cap sp")
  case True
  obtain j where "sp_cap sp = MIN_SIZE * 2 ^ j" using assms by (auto simp: space_ok_def)
  then have "sp_cap sp * 2 = MIN_SIZE * 2 ^ Suc j" by simp
  then have "\<exists>j. sp_cap sp * 2 = MIN_SIZE * 2 ^ j" by blast
  with True assms show ?thesis by (simp add: space_ok_def space_expand_def)
next
  case False
  with assms show ?thesis by (auto simp: space_ok_def space_expand_def)
qed

lemma arr_push_ok:
  assumes "space_ok n (length l) sp"
  shows "arr_push n (l, sp) x = Inr (l @ [x], space_expand n (length l) sp)"
proof -
  have "space_ok n (Suc (length l)) (space_expand n (length l) sp)" using space_expand_ok [OF assms] .
  then have "(length l + 1) * n \<le> sp_block (space_expand n (length l) sp)"
    unfolding space_ok_def by (metis Suc_eq_plus1 less_imp_le mult_le_mono1)
  then show ?thesis by (simp add: arr_push_def)
qed

definition shrink_point :: "nat \<Rightarrow> arr_space \<Rightarrow> bool" where
  "shrink_point k sp \<longleftrightarrow> 32 < sp_cap sp \<and> sp_cap sp = 4 * k"

lemma space_shrink_eq:
  assumes "space_ok n (Suc k) sp"
  shows "space_shrink n k sp =
      (if shrink_point (Suc k) sp
       then if k * n \<le> (2 * Suc k)\<^sup>2 then Inr \<lparr>sp_cap = 2 * Suc k, sp_block = (2 * Suc k)\<^sup>2\<rparr>
            else Inl Out_of_bounds
       else Inr sp)"
    and "\<not> shrink_point (Suc k) sp \<Longrightarrow> space_ok n k sp"
proof -
  obtain j where j: "sp_cap sp = 8 * 2 ^ j" using assms by (auto simp: space_ok_def MIN_SIZE_def)
  have big: "sp_cap sp \<le> 4 * k" if "32 < sp_cap sp" "\<not> shrink_point (Suc k) sp"
  proof -
    have "4 * (2 * 2 ^ j) < 4 * Suc k" using that assms j by (auto simp: space_ok_def shrink_point_def)
    then show ?thesis using j by simp
  qed
  then show "\<not> shrink_point (Suc k) sp \<Longrightarrow> space_ok n k sp" using assms by (auto simp: space_ok_def)
  show "space_shrink n k sp =
      (if shrink_point (Suc k) sp
       then if k * n \<le> (2 * Suc k)\<^sup>2 then Inr \<lparr>sp_cap = 2 * Suc k, sp_block = (2 * Suc k)\<^sup>2\<rparr>
            else Inl Out_of_bounds
       else Inr sp)"
  proof (cases "shrink_point (Suc k) sp")
    case True
    then have "sp_cap sp = 4 * Suc k" "sp_cap sp div 2 = 2 * Suc k" "MIN_SIZE < k"
      using j by (auto simp: shrink_point_def MIN_SIZE_def)
    with True show ?thesis by (simp add: space_shrink_def Let_def power2_eq_square)
  next
    case False
    then have "\<not> (k > MIN_SIZE \<and> 4 * k < sp_cap sp)"
      using big by (cases "32 < sp_cap sp") (auto simp: MIN_SIZE_def)
    with False show ?thesis by (auto simp: space_shrink_def)
  qed
qed

lemma arr_erase_eq:
  assumes "space_ok n (length l) sp" "i < length l"
  shows "arr_erase n (l, sp) i =
    bindr (space_shrink n (length l - 1) sp) (\<lambda>sp'. Inr (take i l @ drop (Suc i) l, sp'))"
proof -
  have "length (take i l @ drop (Suc i) l) = length l - 1" using assms(2) by simp
  with assms(2) show ?thesis by (simp add: arr_erase_def list_erase_def assertr_def del: length_append)
qed

lemma arr_erase_keeps:
  assumes "space_ok n (length l) sp" "i < length l" "\<not> shrink_point (length l) sp"
  shows "arr_erase n (l, sp) i = Inr (take i l @ drop (Suc i) l, sp)" "space_ok n (length l - 1) sp"
  using assms arr_erase_eq [OF assms(1,2)] space_shrink_eq [of n "length l - 1" sp]
  by (cases "length l"; simp)+

lemma arr_erase_overflow:
  assumes "space_ok n (length l) sp" "i < length l" "shrink_point (length l) sp"
    and "(2 * length l)\<^sup>2 < (length l - 1) * n"
  shows "arr_erase n (l, sp) i = Inl Out_of_bounds"
  using assms arr_erase_eq [OF assms(1,2)] space_shrink_eq(1) [of n "length l - 1" sp]
  by (cases "length l") simp_all

lemma arr_erase_Inr:
  "arr_erase n (l, sp) i = Inr (l', sp') \<Longrightarrow> i < length l \<and> l' = take i l @ drop (Suc i) l"
  by (auto simp: arr_erase_def list_erase_def assertr_def split: if_splits)

text \<open>Whether an erasure writes behind the block that it moves the elements to, for any space.\<close>

definition erase_overflows :: "nat \<Rightarrow> 'a arr \<Rightarrow> bool" where
  "erase_overflows n a \<longleftrightarrow> space_shrink n (length (fst a) - 1) (snd a) = Inl Out_of_bounds"

lemma arr_erase_any:
  assumes "i < length l"
  shows "if erase_overflows n (l, sp) then arr_erase n (l, sp) i = Inl Out_of_bounds
    else \<exists>sp'. arr_erase n (l, sp) i = Inr (take i l @ drop (Suc i) l, sp')"
proof -
  have "length (take i l @ drop (Suc i) l) = length l - 1" using assms by simp
  with assms show ?thesis
    by (auto simp: erase_overflows_def arr_erase_def list_erase_def assertr_def space_shrink_def Let_def
      simp del: length_append)
qed

text \<open>Whether there is room for a further element, for any space.\<close>

definition push_fits :: "nat \<Rightarrow> 'a arr \<Rightarrow> bool" where
  "push_fits n a \<longleftrightarrow> (length (fst a) + 1) * n \<le> sp_block (space_expand n (length (fst a)) (snd a))"

lemma arr_push_any:
  "arr_push n (l, sp) x =
     (if push_fits n (l, sp) then Inr (l @ [x], space_expand n (length l) sp) else Inl Out_of_bounds)"
  by (simp add: push_fits_def arr_push_def Let_def)

end
