(* ===== verification/Uid_Alloc.thy ===== *)
theory Uid_Alloc
  imports Nr_Prelude
begin

text \<open>
  \<open>common/utils/collection/linear_alloc.h\<close>: the allocator of UE identities, a bitmap of 33
  words. The loops over the words and over the bits of a word are kept; the loop over the bits
  shifts a one until it finds a zero, it has a bound here and is shown to stay below it. The
  abstraction is the set of identities in use.
\<close>

unbundle bit_operations_syntax

definition UID_LINEAR_ALLOCATOR_SIZE :: nat where
  "UID_LINEAR_ALLOCATOR_SIZE = 1024"

definition UID_LINEAR_ALLOCATOR_BITMAP_SIZE :: nat where
  "UID_LINEAR_ALLOCATOR_BITMAP_SIZE = UID_LINEAR_ALLOCATOR_SIZE div 8 div 4 + 1"

definition UINT_MAX :: u32 where
  "UINT_MAX = 0xFFFFFFFF"

type_synonym uid_allocator = "u32 list"

definition uid_linear_allocator_init :: uid_allocator where
  "uid_linear_allocator_init = replicate UID_LINEAR_ALLOCATOR_BITMAP_SIZE 0"

fun uid_scan :: "nat \<Rightarrow> u32 \<Rightarrow> u32 \<Rightarrow> u32 \<Rightarrow> (u32 \<times> u32) res" where
  "uid_scan 0 w bit_index uid = Inl Endless_loop"
| "uid_scan (Suc n) w bit_index uid =
     (if w AND bit_index = bit_index then uid_scan n w (push_bit 1 bit_index) (uid + 1)
      else Inr (bit_index, uid))"

fun uid_new_from :: "nat \<Rightarrow> uid_allocator \<Rightarrow> (u32 \<times> uid_allocator) res" where
  "uid_new_from i [] = Inr (UINT_MAX, [])"
| "uid_new_from i (w # ws) =
     (if w \<noteq> UINT_MAX
      then bindr (uid_scan 32 w 1 0) (\<lambda>(bit_index, uid).
             Inr (uid + of_nat i * 4 * 8, (w OR bit_index) # ws))
      else bindr (uid_new_from (Suc i) ws) (\<lambda>(uid, ws). Inr (uid, w # ws)))"

definition uid_linear_allocator_new :: "uid_allocator \<Rightarrow> (u32 \<times> uid_allocator) res" where
  "uid_linear_allocator_new uia = uid_new_from 0 uia"

definition uid_linear_allocator_free :: "u32 \<Rightarrow> uid_allocator \<Rightarrow> uid_allocator" where
  "uid_linear_allocator_free uid uia =
     (let i = unat (uid div 4 div 8); b = unat (uid mod 32); v = NOT (push_bit b 1) in
      if i < UID_LINEAR_ALLOCATOR_BITMAP_SIZE then uia[i := uia ! i AND v] else uia)"

section \<open>Identities in use\<close>

definition uids :: "uid_allocator \<Rightarrow> nat set" where
  "uids uia = {n. n < 32 * length uia \<and> bit (uia ! (n div 32)) (n mod 32)}"

lemma UINT_MAX_bit: "bit UINT_MAX n \<longleftrightarrow> n < 32"
proof -
  have max: "UINT_MAX = - 1" by (simp add: UINT_MAX_def)
  show ?thesis unfolding max by (simp add: bit_minus_1_iff)
qed

lemma not_max_free:
  assumes "w \<noteq> UINT_MAX"
  shows "\<exists>n<32. \<not> bit w n"
  using assms bit_word_eqI [of w UINT_MAX] UINT_MAX_bit by force

lemma and_pow: "(w :: u32) AND 2 ^ n = 2 ^ n \<longleftrightarrow> (n < 32 \<longrightarrow> bit w n)"
proof
  assume "w AND 2 ^ n = 2 ^ n"
  then have "bit (w AND 2 ^ n) n = bit (2 ^ n :: u32) n" by simp
  then show "n < 32 \<longrightarrow> bit w n" by (auto simp: bit_simps)
qed (auto intro!: bit_word_eqI simp: bit_simps)

lemma uid_scan_ok:
  assumes "m < 32" "\<not> bit w m" "\<forall>j<m. bit w j" "n \<le> m" "m < n + k"
  shows "uid_scan k w (2 ^ n) (of_nat n) = Inr (2 ^ m, of_nat m)"
  using assms(4,5)
proof (induction k arbitrary: n)
  case (Suc k)
  show ?case
  proof (cases "n = m")
    case True
    then show ?thesis using assms(1,2) by (simp add: and_pow)
  next
    case False
    then have "n < m" using Suc.prems by simp
    then show ?thesis
      using Suc.IH [of "Suc n"] Suc.prems assms(3) by (simp add: and_pow mult.commute add.commute)
  qed
qed simp

lemma uid_scan_least:
  assumes "w \<noteq> UINT_MAX"
  shows "\<exists>m<32. \<not> bit w m \<and> (\<forall>j<m. bit w j) \<and> uid_scan 32 w 1 0 = Inr (2 ^ m, of_nat m)"
proof -
  define m where "m = (LEAST n. \<not> bit w n)"
  obtain n where n: "n < 32" "\<not> bit w n" using not_max_free [OF assms] by blast
  have m: "\<not> bit w m" unfolding m_def using n(2) by (rule LeastI)
  have "m \<le> n" unfolding m_def using n(2) by (rule Least_le)
  then have "m < 32" using n(1) by simp
  moreover have least: "\<forall>j<m. bit w j" unfolding m_def using not_less_Least by blast
  ultimately show ?thesis using m uid_scan_ok [of m w 0 32] by auto
qed

text \<open>The first word gives the identities below 32, the others follow.\<close>

lemma uids_Cons: "uids (w # ws) = {n. n < 32 \<and> bit w n} \<union> (+) 32 ` uids ws"
proof (intro set_eqI)
  fix n
  show "n \<in> uids (w # ws) \<longleftrightarrow> n \<in> {n. n < 32 \<and> bit w n} \<union> (+) 32 ` uids ws"
  proof (cases "n < 32")
    case False
    then obtain k where n: "n = 32 + k" using nat_le_iff_add not_less by blast
    have "(32 + k) div 32 = Suc (k div 32)" "(32 + k) mod 32 = k mod 32" by simp_all
    then show ?thesis by (auto simp: n uids_def)
  qed (auto simp: uids_def)
qed

definition allocates :: "nat \<Rightarrow> uid_allocator \<Rightarrow> u32 \<Rightarrow> uid_allocator \<Rightarrow> bool" where
  "allocates i uia uid uia' \<longleftrightarrow> length uia' = length uia \<and>
    (if uids uia = {..<32 * length uia} then uid = UINT_MAX \<and> uia' = uia
     else \<exists>m. m \<notin> uids uia \<and> m < 32 * length uia \<and> (\<forall>j<m. j \<in> uids uia) \<and>
            uids uia' = insert m (uids uia) \<and> unat uid = 32 * i + m)"

lemma allocates_here:
  assumes "w \<noteq> UINT_MAX" and bound: "32 * (i + length (w # ws)) < 2 ^ 32"
  shows "\<exists>uid uia'. uid_new_from i (w # ws) = Inr (uid, uia') \<and> allocates i (w # ws) uid uia'"
proof -
  obtain m where m: "m < 32" "\<not> bit w m" "\<forall>j<m. bit w j" "uid_scan 32 w 1 0 = Inr (2 ^ m, of_nat m)"
    using uid_scan_least [OF assms(1)] by blast
  have new: "uid_new_from i (w # ws) = Inr (of_nat (32 * i + m), (w OR 2 ^ m) # ws)"
    using assms(1) m(4) by (simp add: algebra_simps)
  have "m \<notin> uids (w # ws)" using m(1,2) by (auto simp: uids_Cons)
  moreover have "\<forall>j<m. j \<in> uids (w # ws)" using m(1,3) by (auto simp: uids_Cons)
  moreover have "{n. n < 32 \<and> bit (w OR 2 ^ m) n} = insert m {n. n < 32 \<and> bit w n}"
    using m(1) by (auto simp: bit_simps)
  then have "uids ((w OR 2 ^ m) # ws) = insert m (uids (w # ws))" by (simp add: uids_Cons)
  moreover have "unat (of_nat (32 * i + m) :: u32) = 32 * i + m"
    using bound m(1) by (subst unat_of_nat) simp
  moreover have "m < 32 * length (w # ws)" using m(1) by simp
  moreover from this have "uids (w # ws) \<noteq> {..<32 * length (w # ws)}"
    using \<open>m \<notin> uids (w # ws)\<close> by auto
  ultimately have "allocates i (w # ws) (of_nat (32 * i + m)) ((w OR 2 ^ m) # ws)"
    unfolding allocates_def by auto
  with new show ?thesis by blast
qed

lemma uids_full_word: "uids (UINT_MAX # ws) = {..<32} \<union> (+) 32 ` uids ws"
  by (auto simp: uids_Cons UINT_MAX_bit)

lemma below_shifted: "(\<forall>j<32 + m. j \<in> {..<32} \<union> (+) 32 ` A) \<longleftrightarrow> (\<forall>j<m. j \<in> A)" for m :: nat
proof
  assume *: "\<forall>j<32 + m. j \<in> {..<32} \<union> (+) 32 ` A"
  show "\<forall>j<m. j \<in> A"
  proof (intro allI impI)
    fix j assume "j < m"
    with * have "32 + j \<in> {..<32} \<union> (+) 32 ` A" by (simp del: Un_iff)
    then show "j \<in> A" by auto
  qed
next
  assume *: "\<forall>j<m. j \<in> A"
  show "\<forall>j<32 + m. j \<in> {..<32} \<union> (+) 32 ` A"
  proof (intro allI impI)
    fix j assume j: "j < 32 + m"
    show "j \<in> {..<32} \<union> (+) 32 ` A"
    proof (cases "j < 32")
      case False
      then have "j = 32 + (j - 32)" "j - 32 \<in> A" using j * by auto
      then show ?thesis by blast
    qed simp
  qed
qed

lemma full_shifted: "{..<32} \<union> (+) 32 ` A = {..<32 + n} \<longleftrightarrow> A = {..<n}" for n :: nat
proof -
  have "{..<32 + n} = {..<32} \<union> (+) 32 ` {..<n}"
  proof (intro set_eqI)
    fix j
    show "j \<in> {..<32 + n} \<longleftrightarrow> j \<in> {..<32} \<union> (+) 32 ` {..<n}"
      by (cases "j < 32") (auto simp: image_iff intro!: bexI [of _ "j - 32"])
  qed
  moreover have "({..<32} \<union> (+) 32 ` A = {..<32} \<union> (+) 32 ` B) = (A = B)" for B :: "nat set"
  proof
    assume *: "{..<32} \<union> (+) 32 ` A = {..<32} \<union> (+) 32 ` B"
    have "a \<in> A \<longleftrightarrow> a \<in> B" for a
    proof -
      have "32 + a \<in> {..<32} \<union> (+) 32 ` A \<longleftrightarrow> 32 + a \<in> {..<32} \<union> (+) 32 ` B" using * by simp
      then show ?thesis by auto
    qed
    then show "A = B" by blast
  qed simp
  ultimately show ?thesis by simp
qed

lemma allocates_later:
  assumes "allocates (Suc i) ws uid ws'"
  shows "allocates i (UINT_MAX # ws) uid (UINT_MAX # ws')"
proof (cases "uids ws = {..<32 * length ws}")
  case True
  then have "uids (UINT_MAX # ws) = {..<32 * length (UINT_MAX # ws)}"
    using full_shifted [of "uids ws" "32 * length ws"] by (simp add: uids_full_word)
  then show ?thesis using assms True by (simp add: allocates_def)
next
  case False
  then obtain m where m: "m \<notin> uids ws" "m < 32 * length ws" "\<forall>j<m. j \<in> uids ws"
    "uids ws' = insert m (uids ws)" "unat uid = 32 * Suc i + m" "length ws' = length ws"
    using assms by (auto simp: allocates_def)
  have "uids (UINT_MAX # ws) \<noteq> {..<32 * length (UINT_MAX # ws)}"
    using False full_shifted [of "uids ws" "32 * length ws"] by (simp add: uids_full_word)
  moreover have "32 + m \<notin> uids (UINT_MAX # ws)" using m(1) by (auto simp: uids_full_word)
  moreover have "\<forall>j<32 + m. j \<in> uids (UINT_MAX # ws)"
    unfolding uids_full_word below_shifted using m(3) .
  moreover have "uids (UINT_MAX # ws') = insert (32 + m) (uids (UINT_MAX # ws))"
    using m(4) by (auto simp: uids_full_word)
  ultimately show ?thesis
    using m(2,5,6) unfolding allocates_def by (auto intro!: exI [of _ "32 + m"])
qed

lemma uid_new_from_ok:
  assumes "32 * (i + length uia) < 2 ^ 32"
  shows "\<exists>uid uia'. uid_new_from i uia = Inr (uid, uia') \<and> allocates i uia uid uia'"
  using assms
proof (induction uia arbitrary: i)
  case Nil
  show ?case by (simp add: uids_def allocates_def)
next
  case (Cons w ws)
  show ?case
  proof (cases "w = UINT_MAX")
    case True
    obtain uid ws' where "uid_new_from (Suc i) ws = Inr (uid, ws')" "allocates (Suc i) ws uid ws'"
      using Cons.IH [of "Suc i"] Cons.prems by auto
    then show ?thesis using allocates_later True by auto
  next
    case False
    then show ?thesis using allocates_here Cons.prems by blast
  qed
qed

lemma uid_free_ok:
  assumes "length uia = UID_LINEAR_ALLOCATOR_BITMAP_SIZE"
  shows "uids (uid_linear_allocator_free uid uia) = uids uia - {unat uid}"
proof -
  define i b where "i = unat uid div 32" and "b = unat uid mod 32"
  have uid: "unat uid = 32 * i + b" "b < 32" by (simp_all add: i_def b_def)
  have i: "unat (uid div 4 div 8) = i"
    by (simp add: i_def unat_div div_mult2_eq [symmetric])
  have b: "unat (uid mod 32) = b" by (simp add: b_def unat_mod)
  show ?thesis
  proof (cases "i < UID_LINEAR_ALLOCATOR_BITMAP_SIZE")
    case False
    then have "unat uid \<notin> uids uia" using assms uid by (simp add: uids_def)
    with False show ?thesis by (simp add: uid_linear_allocator_free_def Let_def i)
  next
    case True
    have free: "uid_linear_allocator_free uid uia = uia[i := uia ! i AND NOT (push_bit b 1)]"
      using True by (simp only: uid_linear_allocator_free_def Let_def i b if_True)
    have eq: "n = unat uid \<longleftrightarrow> n div 32 = i \<and> n mod 32 = b" for n
      by (auto simp: i_def b_def) (metis div_mult_mod_eq)
    show ?thesis
    proof (intro set_eqI)
      fix n
      show "n \<in> uids (uid_linear_allocator_free uid uia) \<longleftrightarrow> n \<in> uids uia - {unat uid}"
      proof (cases "n div 32 = i")
        case i': True
        have "n mod 32 < 32" by simp
        then show ?thesis
          using i' True assms by (auto simp: uids_def free eq bit_simps)
      qed (auto simp: uids_def free eq)
    qed
  qed
qed

section \<open>Pool of identities\<close>

text \<open>
  What the users of the allocator rely on: an identity that is given out was not in use, and
  what is given back is free again.
\<close>

locale id_pool =
  fixes pool_ok :: "'p \<Rightarrow> bool" and used :: "'p \<Rightarrow> nat set"
    and alloc :: "'p \<Rightarrow> (u32 \<times> 'p) res" and release :: "u32 \<Rightarrow> 'p \<Rightarrow> 'p" and none :: u32
  assumes alloc_law: "pool_ok p \<Longrightarrow> \<exists>u p'. alloc p = Inr (u, p') \<and> pool_ok p' \<and>
        (if u = none then p' = p else unat u \<notin> used p \<and> used p' = insert (unat u) (used p))"
    and release_law: "pool_ok p \<Longrightarrow> pool_ok (release u p) \<and> used (release u p) = used p - {unat u}"
begin

lemma alloc_ok:
  assumes "pool_ok p" "alloc p = Inr (u, p')" "u \<noteq> none"
  shows "pool_ok p'" "unat u \<notin> used p" "used p' = insert (unat u) (used p)"
  using alloc_law [OF assms(1)] assms(2,3) by auto

lemma release_alloc:
  assumes "pool_ok p" "alloc p = Inr (u, p')" "u \<noteq> none"
  shows "pool_ok (release u p')" "used (release u p') = used p"
  using release_law [OF alloc_ok(1) [OF assms], of u] alloc_ok(2,3) [OF assms] by auto

end

definition uid_ok :: "uid_allocator \<Rightarrow> bool" where
  "uid_ok uia \<longleftrightarrow> length uia = UID_LINEAR_ALLOCATOR_BITMAP_SIZE"

lemma uid_new_ok:
  assumes "uid_ok uia"
  shows "\<exists>uid uia'. uid_linear_allocator_new uia = Inr (uid, uia') \<and> uid_ok uia' \<and>
    (if uid = UINT_MAX then uia' = uia
     else unat uid \<notin> uids uia \<and> uids uia' = insert (unat uid) (uids uia)) \<and>
    (uids uia \<noteq> {..<1056} \<longrightarrow> unat uid < 1056)"
proof -
  have size: "32 * length uia = 1056"
    using assms by (simp add: uid_ok_def UID_LINEAR_ALLOCATOR_BITMAP_SIZE_def UID_LINEAR_ALLOCATOR_SIZE_def)
  then obtain uid uia' where new: "uid_linear_allocator_new uia = Inr (uid, uia')"
    and alloc: "allocates 0 uia uid uia'"
    using uid_new_from_ok [of 0 uia] by (auto simp: uid_linear_allocator_new_def)
  have "uid \<noteq> UINT_MAX" if "unat uid < 1056" using that by (auto simp: UINT_MAX_def)
  then have "(if uid = UINT_MAX then uia' = uia
     else unat uid \<notin> uids uia \<and> uids uia' = insert (unat uid) (uids uia)) \<and>
    (uids uia \<noteq> {..<1056} \<longrightarrow> unat uid < 1056)"
    using alloc unfolding allocates_def size by (auto split: if_splits)
  moreover have "uid_ok uia'" using alloc assms by (simp add: allocates_def uid_ok_def)
  ultimately show ?thesis using new by blast
qed

interpretation ua: id_pool uid_ok uids uid_linear_allocator_new uid_linear_allocator_free UINT_MAX
proof unfold_locales
  fix p :: uid_allocator assume "uid_ok p"
  then show "\<exists>u p'. uid_linear_allocator_new p = Inr (u, p') \<and> uid_ok p' \<and>
      (if u = UINT_MAX then p' = p else unat u \<notin> uids p \<and> uids p' = insert (unat u) (uids p))"
    using uid_new_ok by blast
next
  fix p :: uid_allocator and u assume "uid_ok p"
  then show "uid_ok (uid_linear_allocator_free u p) \<and>
      uids (uid_linear_allocator_free u p) = uids p - {unat u}"
    using uid_free_ok by (simp add: uid_ok_def uid_linear_allocator_free_def Let_def)
qed

text \<open>
  C19: The allocator of UE identities implements a set. On a bitmap of the length the code
  gives it, the search ends; a new identity is the least one that is not in use, exactly this one
  is in use afterwards, and only when all 1056 are in use the answer is \<open>UINT_MAX\<close>. Freeing takes
  exactly the given identity out of the set, and does nothing for one that the bitmap does not
  have. A fresh allocator is empty.
\<close>

theorem uid_allocator_refines_set:
  "uids uid_linear_allocator_init = {} \<and>
   (\<forall>uia. length uia = UID_LINEAR_ALLOCATOR_BITMAP_SIZE \<longrightarrow>
     (\<exists>uid uia'. uid_linear_allocator_new uia = Inr (uid, uia') \<and>
        length uia' = UID_LINEAR_ALLOCATOR_BITMAP_SIZE \<and>
        (if uids uia = {..<1056} then uid = UINT_MAX \<and> uia' = uia
         else unat uid \<notin> uids uia \<and> unat uid < 1056 \<and> (\<forall>j<unat uid. j \<in> uids uia) \<and>
              uids uia' = insert (unat uid) (uids uia))) \<and>
     (\<forall>uid. uids (uid_linear_allocator_free uid uia) = uids uia - {unat uid} \<and>
        length (uid_linear_allocator_free uid uia) = UID_LINEAR_ALLOCATOR_BITMAP_SIZE))"
proof (intro conjI allI impI)
  show "uids uid_linear_allocator_init = {}"
    by (auto simp: uids_def uid_linear_allocator_init_def)
next
  fix uia :: uid_allocator
  assume len: "length uia = UID_LINEAR_ALLOCATOR_BITMAP_SIZE"
  then have size: "32 * length uia = 1056"
    by (simp add: UID_LINEAR_ALLOCATOR_BITMAP_SIZE_def UID_LINEAR_ALLOCATOR_SIZE_def)
  then obtain uid uia' where new: "uid_linear_allocator_new uia = Inr (uid, uia')"
    and alloc: "allocates 0 uia uid uia'"
    using uid_new_from_ok [of 0 uia] by (auto simp: uid_linear_allocator_new_def)
  have "length uia' = UID_LINEAR_ALLOCATOR_BITMAP_SIZE" using alloc len by (simp add: allocates_def)
  moreover have "if uids uia = {..<1056} then uid = UINT_MAX \<and> uia' = uia
     else unat uid \<notin> uids uia \<and> unat uid < 1056 \<and> (\<forall>j<unat uid. j \<in> uids uia) \<and>
          uids uia' = insert (unat uid) (uids uia)"
    using alloc unfolding allocates_def size by (auto split: if_splits)
  ultimately show "\<exists>uid uia'. uid_linear_allocator_new uia = Inr (uid, uia') \<and>
        length uia' = UID_LINEAR_ALLOCATOR_BITMAP_SIZE \<and>
        (if uids uia = {..<1056} then uid = UINT_MAX \<and> uia' = uia
         else unat uid \<notin> uids uia \<and> unat uid < 1056 \<and> (\<forall>j<unat uid. j \<in> uids uia) \<and>
              uids uia' = insert (unat uid) (uids uia))"
    using new by blast
next
  fix uia :: uid_allocator and uid
  assume len: "length uia = UID_LINEAR_ALLOCATOR_BITMAP_SIZE"
  show "uids (uid_linear_allocator_free uid uia) = uids uia - {unat uid}"
    using len by (rule uid_free_ok)
  show "length (uid_linear_allocator_free uid uia) = UID_LINEAR_ALLOCATOR_BITMAP_SIZE"
    using len by (simp add: uid_linear_allocator_free_def Let_def)
qed

theorem uid_allocator_refines_set_witness:
  "\<exists>uid uia'. uid_linear_allocator_new uid_linear_allocator_init = Inr (uid, uia') \<and> unat uid = 0 \<and>
     uids uia' = {0}"
proof -
  have "length uid_linear_allocator_init = UID_LINEAR_ALLOCATOR_BITMAP_SIZE"
    by (simp add: uid_linear_allocator_init_def)
  with uid_allocator_refines_set obtain uid uia' where *:
    "uid_linear_allocator_new uid_linear_allocator_init = Inr (uid, uia')"
    "if uids uid_linear_allocator_init = {..<1056} then uid = UINT_MAX \<and> uia' = uid_linear_allocator_init
     else unat uid \<notin> uids uid_linear_allocator_init \<and> unat uid < 1056 \<and>
       (\<forall>j<unat uid. j \<in> uids uid_linear_allocator_init) \<and>
       uids uia' = insert (unat uid) (uids uid_linear_allocator_init)"
    "uids uid_linear_allocator_init = {}" by blast
  have "(0 :: nat) \<in> {..<1056}" by simp
  then have "({} :: nat set) \<noteq> {..<1056}" by blast
  with * have "\<forall>j<unat uid. j \<in> ({} :: nat set)" "uids uia' = {unat uid}" by simp_all
  with *(1) show ?thesis by auto
qed

end
