(* ===== verification/Nr_Rrc_State.thy ===== *)
theory Nr_Rrc_State
  imports Seq_Arr_Space Uid_Alloc
begin

text \<open>
  The state of the RRC of a CU-CP that mobility works on: cells, DUs and UE contexts
  (\<open>RRC/NR/nr_rrc_defs.h\<close>), the handover context (\<open>rrc_gNB_mobility.h\<close>), the association of a
  UE with its DU (\<open>F1AP/f1ap_ids.c\<close>), and the messages RRC hands to F1AP, NGAP, E1AP and PDCP.

  A cell container is shared: the tree of all cells, the array of its DU and every handover
  context hold a pointer to it. Cells are therefore kept in a store, a map from addresses to
  containers, and an access to a freed container is the fault \<open>Dangling_pointer\<close>. The red-black
  trees are the lists of their nodes in the order of the tree. The dynamic arrays are the lists of
  their elements; those of bearers, sessions and flows, whose elements are too large for
  \<open>maybe_shrink\<close>, also have their capacity and the size of their block (\<open>Seq_Arr_Space\<close>). The
  elements of the other arrays from which something is erased, serving cells of 16 bytes and
  pointers to cells, are small: by the refinement in \<open>Seq_Arr\<close> these arrays are their lists. The
  messages are recorded in the order in which they are sent.
\<close>

type_synonym u16 = "16 word"
type_synonym cell_ptr = nat

section \<open>Cells, DUs and the association of a UE\<close>

record plmn_id =
  mcc :: u16
  mnc :: u16
  mnc_digit_length :: byte

record nr_rrc_freq_info =
  band :: int
  arfcn :: u32
  scs :: byte
  nrb :: u16

datatype nr_rrc_cell_mode =
    NR_MODE_TDD nr_rrc_freq_info
  | NR_MODE_FDD nr_rrc_freq_info nr_rrc_freq_info

record nr_rrc_cell =
  c_assoc_id :: int
  c_cell_id :: u64
  c_pci :: u16
  c_mode :: nr_rrc_cell_mode
  c_plmn :: plmn_id
  c_tac :: u16
  c_mtc :: "int option"

record nr_rrc_du =
  d_assoc_id :: int
  d_gNB_DU_id :: u64
  d_cells :: "cell_ptr list"

record f1_ue_data =
  secondary_ue :: u32
  e1_assoc_id :: int
  du_assoc_id :: int

record ue_serving_cell =
  nci :: u64
  serving_cell_id :: byte
  s_assoc_id :: int

record nr_neighbour_cell =
  gNB_ID :: u32
  nrcell_id :: u64
  physicalCellId :: int
  n_scs :: int
  n_plmn :: plmn_id
  n_tac :: u32

record neighbour_cell_configuration =
  nr_cell_id :: u64
  neighbour_cells :: "nr_neighbour_cell list"

record nr_a3_event =
  a3_pci :: int
  a3_offset :: int
  a3_hysteresis :: int

section \<open>Radio bearers and PDU sessions of a UE\<close>

record gtpu_tunnel =
  teid :: u32
  tl_addr :: "byte list"

definition no_tunnel :: gtpu_tunnel where
  "no_tunnel = \<lparr>teid = 0, tl_addr = []\<rparr>"

record drb =
  drb_id :: int
  drb_pdusession :: int
  du_tunnel_config :: gtpu_tunnel

datatype pdu_session_status =
    PDU_SESSION_STATUS_NEW
  | PDU_SESSION_STATUS_ESTABLISHED
  | PDU_SESSION_STATUS_TOMODIFY
  | PDU_SESSION_STATUS_FAILED
  | PDU_SESSION_STATUS_TORELEASE

text \<open>
  The QoS profile of a flow: a non-dynamic 5QI with an optional priority, or a dynamic one, whose
  numeric 5QI is optional, with priority, packet delay budget and packet error rate.
\<close>

datatype fiveQI =
    NON_DYNAMIC u16 "byte option"
  | DYNAMIC "u16 option" byte int byte byte

record qos_arp =
  arp_priority_level :: byte
  pre_emp_capability :: int
  pre_emp_vulnerability :: int

record qos_parameter =
  qp_qfi :: byte
  qp_characteristics :: fiveQI
  qp_arp :: qos_arp

record nr_rrc_qos =
  qf_drb_id :: int
  qf_qos :: qos_parameter
  qf_ngap_pending :: bool

text \<open>
  A session with its flows; \<open>None\<close> is an array that has never been initialised, whose \<open>data\<close> is
  null. \<open>p_qos_space\<close> is the space of this array, \<open>p_default_drb\<close> the default bearer of its SDAP configuration, 0 when there is none.
\<close>

record rrc_pdu_session =
  pdusession_id :: int
  p_nas_pdu :: "byte list"
  p_status :: pdu_session_status
  p_xid :: byte
  p_qos :: "nr_rrc_qos list option"
  p_qos_space :: arr_space
  p_default_drb :: int

text \<open>The sizes of the elements of the arrays, with the layout of x86-64.\<close>

definition SIZEOF_drb_t :: nat where
  "SIZEOF_drb_t = 80"

definition SIZEOF_rrc_pdu_session_param_t :: nat where
  "SIZEOF_rrc_pdu_session_param_t = 144"

definition SIZEOF_nr_rrc_qos_t :: nat where
  "SIZEOF_nr_rrc_qos_t = 72"

datatype rrc_action =
    RRC_ACTION_NONE
  | RRC_SETUP
  | RRC_SETUP_FOR_REESTABLISHMENT
  | RRC_REESTABLISH
  | RRC_REESTABLISH_COMPLETE
  | RRC_DEDICATED_RECONF
  | RRC_PDUSESSION_ESTABLISH
  | RRC_PDUSESSION_MODIFY
  | RRC_PDUSESSION_RELEASE
  | RRC_UECAPABILITY_ENQUIRY

definition NR_RRC_TRANSACTION_IDENTIFIER_NUMBER :: nat where
  "NR_RRC_TRANSACTION_IDENTIFIER_NUMBER = 4"

definition MAX_DRBS_PER_UE :: int where
  "MAX_DRBS_PER_UE = 32"

definition NR_MAX_NB_PDU_SESSIONS :: int where
  "NR_MAX_NB_PDU_SESSIONS = 256"

section \<open>Handover context\<close>

text \<open>
  The function pointers of the context are the names of the functions stored in them;
  \<open>None\<close> is the null pointer.
\<close>

datatype ho_req_ack = F1_ho_acknowledge | N2_ho_acknowledge
datatype ho_success = F1_ho_complete | N2_ho_complete
datatype ho_cancel = F1_ho_cancel | N2_ho_cancel
datatype ho_failure = N2_ho_failure
datatype ho_trigger = N2_ho_trigger_target
datatype ho_status_transfer = N2_ul_ran_status_transfer

record ho_source_cu =
  hs_cell :: "cell_ptr option"
  hs_du_ue_id :: u32
  hs_old_rnti :: u16
  hs_old_cgc :: "byte list"
  hs_ho_cancel :: "ho_cancel option"
  hs_ho_status_transfer :: "ho_status_transfer option"
  hs_old_du_tunnel_config :: gtpu_tunnel

record ho_target_cu =
  ht_cell :: "cell_ptr option"
  ht_du_ue_id :: u32
  ht_new_rnti :: u16
  ht_ue_ho_prep_info :: "byte list"
  ht_ho_trigger :: "ho_trigger option"
  ht_ho_req_ack :: "ho_req_ack option"
  ht_ho_success :: "ho_success option"
  ht_ho_failure :: "ho_failure option"

record nr_handover_context =
  ho_source :: "ho_source_cu option"
  ho_target :: "ho_target_cu option"

datatype ho_ctx_type = HO_CTX_BOTH | HO_CTX_SOURCE | HO_CTX_TARGET

section \<open>UE context\<close>

record gNB_RRC_UE =
  rrc_ue_id :: u32
  rnti :: u16
  amf_ue_ngap_id :: u64
  ho_context :: "nr_handover_context option"
  serving_cells :: "ue_serving_cell list"
  drbs :: "drb list"
  drbs_space :: arr_space
  pduSessions :: "rrc_pdu_session list"
  sessions_space :: arr_space
  xids :: "rrc_action list"
  mcg :: "byte list"
  ue_nas_pdu :: "byte list"
  ue_cap_buffer :: "byte list"
  srb2_active :: bool
  f1_ue_context_active :: bool
  ongoing_reconfiguration :: bool
  ue_reconfiguration_counter :: u32
  n_initial_pdu :: int
  srb1_active :: bool
  as_security_active :: bool
  an_release :: bool
  random_ue_identity :: u64

text \<open>The arrays of a UE with their space.\<close>

abbreviation drb_arr :: "gNB_RRC_UE \<Rightarrow> drb arr" where
  "drb_arr ue \<equiv> (drbs ue, drbs_space ue)"

abbreviation session_arr :: "gNB_RRC_UE \<Rightarrow> rrc_pdu_session arr" where
  "session_arr ue \<equiv> (pduSessions ue, sessions_space ue)"

definition put_drb_arr :: "drb arr \<Rightarrow> gNB_RRC_UE \<Rightarrow> gNB_RRC_UE" where
  "put_drb_arr a ue = ue\<lparr>drbs := fst a, drbs_space := snd a\<rparr>"

definition put_session_arr :: "rrc_pdu_session arr \<Rightarrow> gNB_RRC_UE \<Rightarrow> gNB_RRC_UE" where
  "put_session_arr a ue = ue\<lparr>pduSessions := fst a, sessions_space := snd a\<rparr>"

section \<open>Messages\<close>

datatype ngap_cause =
    UNSPECIFIED
  | RELEASE_DUE_TO_NGRAN_GENERATED_REASON
  | HO_FAILURE_IN_TARGET
  | HANDOVER_CANCELLED
  | RADIO_CONNECTION_WITH_UE_LOST

text \<open>
  In the F1 messages the first argument is the association the message goes to, then the UE ids
  of CU and DU. A setup request carries the bearers, the measurement configuration and, for a
  handover, the preparation information. A modification request carries an RRC message for the UE (recorded as it is
  handed to PDCP for SRB1) with the order to stop transmission, or the report that the
  reconfiguration is complete. An E1 modification for a session lists the bearers to set up and to
  modify, each with the flows mapped to it, and the bearers to remove. The modify response lists
  the modified sessions with the flows that were added or modified, and the failed sessions.
\<close>

record e1_session_mod =
  em_session :: int
  em_setup :: "(int \<times> qos_parameter list) list"
  em_modify :: "(int \<times> qos_parameter list) list"
  em_remove :: "int list"

text \<open>
  A bearer in a setup request to a DU: the flows mapped to it with their parameters, and the
  parameters of the bearer, those of one of its flows. The bit rates are not part of the model.
\<close>

record f1ap_qos_flow_param =
  fq_characteristics :: fiveQI
  fq_arp :: qos_arp

record f1ap_drb_to_setup =
  ds_id :: int
  ds_flows :: "(byte \<times> f1ap_qos_flow_param) list"
  ds_qos :: f1ap_qos_flow_param

datatype rrc_msg =
    F1_setup_request int u32 cell_ptr "f1ap_drb_to_setup list" "byte list" "byte list"
  | F1_setup_request_reest int u32 u32 cell_ptr "f1ap_drb_to_setup list" "byte list"
  | F1_modification_query int u32 u32
  | F1_modification_stop int u32 u32 "byte list"
  | F1_modification_complete int u32 u32
  | F1_release_command int u32 u32 int
  | E1_bearer_modification int u32 "(int \<times> gtpu_tunnel) list"
  | E1_bearer_reestablishment int u32 "(int \<times> gtpu_tunnel) list"
  | E1_pdcp_status_request int u32 "int list"
  | E1_session_modification int u32 "e1_session_mod list"
  | E1_bearer_release int u32
  | Pdcp_add_srb u32 nat
  | Pdcp_remove_ue u32
  | Pdcp_reestablishment u32 nat
  | Dl_rrc_message int u32 u32 nat "byte list"
  | Ngap_handover_required u32 u64 nr_neighbour_cell "byte list"
  | Ngap_handover_request_ack u32 u64 "byte list"
  | Ngap_handover_notify u32 u64 u64
  | Ngap_handover_cancel u32 u64 ngap_cause
  | Ngap_handover_failure u64 ngap_cause
  | Ngap_release_request u32 ngap_cause
  | Ngap_release_complete u32
  | Ngap_initial_context_setup_resp u32
  | Ngap_pdusession_setup_resp u32
  | Ngap_pdusession_modify_resp u32 "(int \<times> byte list) list" "int list"
  | Ngap_pdusession_release_resp u32 "int list"

section \<open>The RRC instance\<close>

text \<open>
  \<open>f1_ids\<close> is the hash table \<open>cu2du_ue_mapping\<close> of \<open>f1ap_ids.c\<close>, \<open>transaction_id\<close> the static
  counter of \<open>rrc_gNB_get_next_transaction_identifier\<close>, \<open>sent\<close> the messages so far.
\<close>

record gNB_RRC_INST =
  cell_store :: "cell_ptr \<rightharpoonup> nr_rrc_cell"
  cells :: "cell_ptr list"
  num_cells :: nat
  dus :: "nr_rrc_du list"
  num_dus :: nat
  rrc_ue_head :: "gNB_RRC_UE list"
  f1_ids :: "u32 \<rightharpoonup> f1_ue_data"
  neighbour_configs :: "neighbour_cell_configuration list option"
  a3_event_list :: "nr_a3_event list option"
  transaction_id :: u32
  cuups :: "int list"
  sent :: "rrc_msg list"
  uid_allocator :: uid_allocator

definition send :: "rrc_msg \<Rightarrow> gNB_RRC_INST \<Rightarrow> gNB_RRC_INST" where
  "send m rrc = rrc\<lparr>sent := sent rrc @ [m]\<rparr>"

text \<open>An assertion that a pointer is not null, and an access through a pointer to a cell container.\<close>

definition assert_some :: "'a option \<Rightarrow> 'a res" where
  "assert_some x = (case x of None \<Rightarrow> Inl Assert_failed | Some y \<Rightarrow> Inr y)"

definition deref_cell :: "gNB_RRC_INST \<Rightarrow> cell_ptr option \<Rightarrow> nr_rrc_cell res" where
  "deref_cell rrc p =
     (case p of
        None \<Rightarrow> Inl Null_dereference
      | Some a \<Rightarrow> (case cell_store rrc a of None \<Rightarrow> Inl Dangling_pointer | Some c \<Rightarrow> Inr c))"

section \<open>Association of a UE with its DU (CU side)\<close>

definition cu_add_f1_ue_data :: "u32 \<Rightarrow> f1_ue_data \<Rightarrow> gNB_RRC_INST \<Rightarrow> bool \<times> gNB_RRC_INST" where
  "cu_add_f1_ue_data ue_id d rrc =
     (if f1_ids rrc ue_id \<noteq> None then (False, rrc)
      else (True, rrc\<lparr>f1_ids := (f1_ids rrc)(ue_id \<mapsto> d)\<rparr>))"

definition cu_exists_f1_ue_data :: "u32 \<Rightarrow> gNB_RRC_INST \<Rightarrow> bool" where
  "cu_exists_f1_ue_data ue_id rrc \<longleftrightarrow> f1_ids rrc ue_id \<noteq> None"

definition cu_update_f1_ue_data :: "u32 \<Rightarrow> f1_ue_data \<Rightarrow> gNB_RRC_INST \<Rightarrow> gNB_RRC_INST res" where
  "cu_update_f1_ue_data ue_id d rrc =
     (if f1_ids rrc ue_id = None then Inl Assert_failed
      else Inr (rrc\<lparr>f1_ids := (f1_ids rrc)(ue_id \<mapsto> d)\<rparr>))"

definition cu_get_f1_ue_data :: "u32 \<Rightarrow> gNB_RRC_INST \<Rightarrow> f1_ue_data res" where
  "cu_get_f1_ue_data ue_id rrc =
     (case f1_ids rrc ue_id of None \<Rightarrow> Inl Assert_failed | Some d \<Rightarrow> Inr d)"

definition cu_remove_f1_ue_data :: "u32 \<Rightarrow> gNB_RRC_INST \<Rightarrow> bool \<times> gNB_RRC_INST" where
  "cu_remove_f1_ue_data ue_id rrc =
     (f1_ids rrc ue_id \<noteq> None, rrc\<lparr>f1_ids := (f1_ids rrc)(ue_id := None)\<rparr>)"

section \<open>UE contexts\<close>

definition rrc_gNB_get_ue_context :: "gNB_RRC_INST \<Rightarrow> u32 \<Rightarrow> gNB_RRC_UE option" where
  "rrc_gNB_get_ue_context rrc ue = find (\<lambda>u. rrc_ue_id u = ue) (rrc_ue_head rrc)"

fun get_ue_by_rnti :: "(u32 \<Rightarrow> f1_ue_data res) \<Rightarrow> int \<Rightarrow> u16 \<Rightarrow> gNB_RRC_UE list \<Rightarrow>
    gNB_RRC_UE option res" where
  "get_ue_by_rnti get assoc_id r [] = Inr None"
| "get_ue_by_rnti get assoc_id r (u # l) =
     bindr (get (rrc_ue_id u)) (\<lambda>d.
       if du_assoc_id d = assoc_id \<and> rnti u = r then Inr (Some u)
       else get_ue_by_rnti get assoc_id r l)"

definition rrc_gNB_get_ue_context_by_rnti ::
  "gNB_RRC_INST \<Rightarrow> int \<Rightarrow> u16 \<Rightarrow> gNB_RRC_UE option res" where
  "rrc_gNB_get_ue_context_by_rnti rrc assoc_id r =
     get_ue_by_rnti (\<lambda>i. cu_get_f1_ue_data i rrc) assoc_id r (rrc_ue_head rrc)"

definition rrc_gNB_get_ue_context_by_rnti_any_du ::
  "gNB_RRC_INST \<Rightarrow> u16 \<Rightarrow> gNB_RRC_UE option" where
  "rrc_gNB_get_ue_context_by_rnti_any_du rrc r = find (\<lambda>u. rnti u = r) (rrc_ue_head rrc)"

definition rrc_gNB_get_ue_context_by_amf_ue_ngap_id ::
  "gNB_RRC_INST \<Rightarrow> u64 \<Rightarrow> gNB_RRC_UE option" where
  "rrc_gNB_get_ue_context_by_amf_ue_ngap_id rrc a =
     find (\<lambda>u. amf_ue_ngap_id u = a) (rrc_ue_head rrc)"

text \<open>The UE contexts are changed in place: the changed context takes the place of the old one.\<close>

definition put_ue :: "gNB_RRC_UE \<Rightarrow> gNB_RRC_INST \<Rightarrow> gNB_RRC_INST" where
  "put_ue ue rrc =
     rrc\<lparr>rrc_ue_head := map (\<lambda>u. if rrc_ue_id u = rrc_ue_id ue then ue else u)
        (rrc_ue_head rrc)\<rparr>"

definition rrc_gNB_get_next_transaction_identifier :: "gNB_RRC_INST \<Rightarrow> nat \<times> gNB_RRC_INST" where
  "rrc_gNB_get_next_transaction_identifier rrc =
     (let t = transaction_id rrc + 1 in
      (unat t mod NR_RRC_TRANSACTION_IDENTIFIER_NUMBER, rrc\<lparr>transaction_id := t\<rparr>))"

section \<open>Small arrays as lists\<close>

text \<open>
  The arrays of small elements are the lists of their elements; \<open>seq_arr_erase\<close> at a position of
  the array is \<open>list_erase\<close>. The list fulfils the contract that the array of bytes fulfils.
\<close>

interpretation ls: seq_container "\<lambda>_. True" "\<lambda>l. l" list_erase
  by unfold_locales (auto simp: list_erase_def assertr_def)

end
