(* ===== verification/Nr_Rrc_Cell.thy ===== *)
theory Nr_Rrc_Cell
  imports Nr_Rrc_State
begin

text \<open>
  \<open>RRC/NR/rrc_cell_management.c\<close>: the tree of DUs, the tree of cells, the cells of a DU and
  the serving cells of a UE, with the lookups of \<open>rrc_gNB_du.c\<close> and \<open>rrc_gNB.c\<close> that mobility
  uses. The serving cells keep the PCell first; the invariant \<open>serving_ok\<close> says so, and every
  operation keeps it.
\<close>

section \<open>DUs\<close>

definition get_du_by_assoc_id :: "gNB_RRC_INST \<Rightarrow> int \<Rightarrow> nr_rrc_du option" where
  "get_du_by_assoc_id rrc a = find (\<lambda>d. d_assoc_id d = a) (dus rrc)"

text \<open>
  \<open>rrc_add_du\<close> gives back the DU it collides with, or nothing.
\<close>

definition rrc_add_du :: "nr_rrc_du \<Rightarrow> gNB_RRC_INST \<Rightarrow> nr_rrc_du option \<times> gNB_RRC_INST" where
  "rrc_add_du du rrc =
     (case get_du_by_assoc_id rrc (d_assoc_id du) of
        Some c \<Rightarrow> (Some c, rrc)
      | None \<Rightarrow>
          (None, rrc\<lparr>dus := insert_before (\<lambda>d. d_assoc_id du < d_assoc_id d) du (dus rrc),
                     num_dus := num_dus rrc + 1\<rparr>))"

definition rrc_rm_du :: "int \<Rightarrow> gNB_RRC_INST \<Rightarrow> gNB_RRC_INST res" where
  "rrc_rm_du a rrc =
     bindr (assertr (get_du_by_assoc_id rrc a \<noteq> None)) (\<lambda>_.
       Inr (rrc\<lparr>dus := filter (\<lambda>d. d_assoc_id d \<noteq> a) (dus rrc), num_dus := num_dus rrc - 1\<rparr>))"

section \<open>The tree of cells\<close>

definition has_cell_id :: "gNB_RRC_INST \<Rightarrow> u64 \<Rightarrow> cell_ptr \<Rightarrow> bool" where
  "has_cell_id rrc i p = (case cell_store rrc p of None \<Rightarrow> False | Some c \<Rightarrow> c_cell_id c = i)"

definition get_cell_by_cell_id :: "gNB_RRC_INST \<Rightarrow> u64 \<Rightarrow> cell_ptr option" where
  "get_cell_by_cell_id rrc i = find (has_cell_id rrc i) (cells rrc)"

definition after_cell_id :: "gNB_RRC_INST \<Rightarrow> u64 \<Rightarrow> cell_ptr \<Rightarrow> bool" where
  "after_cell_id rrc i p = (case cell_store rrc p of None \<Rightarrow> False | Some c \<Rightarrow> i < c_cell_id c)"

definition rrc_add_cell :: "cell_ptr \<Rightarrow> gNB_RRC_INST \<Rightarrow> (cell_ptr option \<times> gNB_RRC_INST) res" where
  "rrc_add_cell p rrc =
     bindr (deref_cell rrc (Some p)) (\<lambda>c.
       Inr (case get_cell_by_cell_id rrc (c_cell_id c) of
              Some q \<Rightarrow> (Some q, rrc)
            | None \<Rightarrow>
                (None, rrc\<lparr>cells := insert_before (after_cell_id rrc (c_cell_id c)) p (cells rrc),
                           num_cells := num_cells rrc + 1\<rparr>)))"

text \<open>\<open>rrc_rm_cell\<close> unlinks the container from the tree and frees it.\<close>

definition rrc_rm_cell :: "cell_ptr \<Rightarrow> gNB_RRC_INST \<Rightarrow> gNB_RRC_INST res" where
  "rrc_rm_cell p rrc =
     bindr (deref_cell rrc (Some p)) (\<lambda>c.
     bindr (assertr (p \<in> set (cells rrc))) (\<lambda>_.
       Inr (rrc\<lparr>cells := removeAll p (cells rrc), num_cells := num_cells rrc - 1,
                cell_store := (cell_store rrc)(p := None)\<rparr>)))"

section \<open>The cells of a DU\<close>

definition rrc_get_cell_for_du :: "gNB_RRC_INST \<Rightarrow> cell_ptr list \<Rightarrow> u64 \<Rightarrow> cell_ptr option" where
  "rrc_get_cell_for_du rrc cs i = find (has_cell_id rrc i) cs"

definition has_pci :: "gNB_RRC_INST \<Rightarrow> u16 \<Rightarrow> cell_ptr \<Rightarrow> bool" where
  "has_pci rrc pci p = (case cell_store rrc p of None \<Rightarrow> False | Some c \<Rightarrow> c_pci c = pci)"

definition rrc_get_cell_by_pci_for_du :: "gNB_RRC_INST \<Rightarrow> cell_ptr list \<Rightarrow> u16 \<Rightarrow> cell_ptr option"
where
  "rrc_get_cell_by_pci_for_du rrc cs pci = find (has_pci rrc pci) cs"

definition rrc_add_cell_to_du ::
  "gNB_RRC_INST \<Rightarrow> cell_ptr list \<Rightarrow> cell_ptr \<Rightarrow> (cell_ptr option \<times> cell_ptr list) res" where
  "rrc_add_cell_to_du rrc cs p =
     bindr (deref_cell rrc (Some p)) (\<lambda>c.
       Inr (if rrc_get_cell_for_du rrc cs (c_cell_id c) \<noteq> None then (None, cs)
            else if rrc_get_cell_by_pci_for_du rrc cs (c_pci c) \<noteq> None then (None, cs)
            else (Some p, cs @ [p])))"

text \<open>\<open>rrc_cleanup_du\<close> removes the cells of a DU from the last to the first, then the DU.\<close>

fun rm_cells :: "cell_ptr list \<Rightarrow> gNB_RRC_INST \<Rightarrow> gNB_RRC_INST res" where
  "rm_cells [] rrc = Inr rrc"
| "rm_cells (p # ps) rrc = bindr (rrc_rm_cell p rrc) (rm_cells ps)"

definition rrc_cleanup_du :: "nr_rrc_du \<Rightarrow> gNB_RRC_INST \<Rightarrow> gNB_RRC_INST res" where
  "rrc_cleanup_du du rrc = bindr (rm_cells (rev (d_cells du)) rrc) (rrc_rm_du (d_assoc_id du))"

section \<open>Serving cells\<close>

definition RRC_PCELL_INDEX :: byte where
  "RRC_PCELL_INDEX = 0"

definition RRC_MAX_NUM_SERVING_CELLS :: nat where
  "RRC_MAX_NUM_SERVING_CELLS = 32"

definition rrc_get_ue_serving_cell_by_id :: "gNB_RRC_UE \<Rightarrow> byte \<Rightarrow> ue_serving_cell option" where
  "rrc_get_ue_serving_cell_by_id ue i = find (\<lambda>s. serving_cell_id s = i) (serving_cells ue)"

text \<open>
  \<open>rrc_add_ue_serving_cell\<close> gives back the entry of the cell, or nothing on an error. A PCell
  goes to the front: it is appended, then the entries before it are shifted by one.
\<close>

definition rrc_add_ue_serving_cell ::
  "gNB_RRC_INST \<Rightarrow> nr_rrc_cell \<Rightarrow> byte \<Rightarrow> gNB_RRC_UE \<Rightarrow>
     (ue_serving_cell option \<times> gNB_RRC_UE) res" where
  "rrc_add_ue_serving_cell rrc cell i ue =
     bindr (assertr (unat i < RRC_MAX_NUM_SERVING_CELLS)) (\<lambda>_.
     if length (serving_cells ue) \<ge> RRC_MAX_NUM_SERVING_CELLS then Inr (None, ue)
     else case rrc_get_ue_serving_cell_by_id ue i of
       Some e \<Rightarrow> Inr (if nci e = c_cell_id cell then Some e else None, ue)
     | None \<Rightarrow>
         let new = \<lparr>nci = c_cell_id cell, serving_cell_id = i, s_assoc_id = c_assoc_id cell\<rparr> in
         bindr
           (if i = RRC_PCELL_INDEX
            then bindr (assertr (cu_exists_f1_ue_data (rrc_ue_id ue) rrc)) (\<lambda>_.
                 bindr (cu_get_f1_ue_data (rrc_ue_id ue) rrc) (\<lambda>d.
                 bindr (assertr (du_assoc_id d = c_assoc_id cell)) (\<lambda>_.
                 let pushed = serving_cells ue @ [new]; n = length (serving_cells ue) in
                 Inr (if n > 0 then new # take n pushed else pushed))))
            else Inr (serving_cells ue @ [new])) (\<lambda>l.
         let ue = ue\<lparr>serving_cells := l\<rparr> in
         Inr (rrc_get_ue_serving_cell_by_id ue i, ue)))"

definition rrc_remove_ue_scells_from_du :: "int \<Rightarrow> gNB_RRC_UE \<Rightarrow> gNB_RRC_UE res" where
  "rrc_remove_ue_scells_from_du a ue =
     (let indices = indices_of (\<lambda>s. s_assoc_id s = a) (serving_cells ue) in
      bindr (if length indices \<le> RRC_MAX_NUM_SERVING_CELLS then Inr () else Inl Out_of_bounds) (\<lambda>_.
      bindr (erase_indices list_erase indices (serving_cells ue)) (\<lambda>l.
        Inr (ue\<lparr>serving_cells := l\<rparr>))))"

definition ue_get_pcell_entry :: "gNB_RRC_UE \<Rightarrow> ue_serving_cell option res" where
  "ue_get_pcell_entry ue =
     (case serving_cells ue of
        [] \<Rightarrow> Inr None
      | s # _ \<Rightarrow> bindr (assertr (serving_cell_id s = RRC_PCELL_INDEX)) (\<lambda>_. Inr (Some s)))"

definition rrc_get_pcell_for_ue :: "gNB_RRC_INST \<Rightarrow> gNB_RRC_UE \<Rightarrow> cell_ptr option res" where
  "rrc_get_pcell_for_ue rrc ue =
     bindr (ue_get_pcell_entry ue) (\<lambda>e.
       Inr (case e of None \<Rightarrow> None | Some s \<Rightarrow> get_cell_by_cell_id rrc (nci s)))"

definition rrc_update_ue_pcell ::
  "gNB_RRC_INST \<Rightarrow> nr_rrc_cell \<Rightarrow> gNB_RRC_UE \<Rightarrow> (ue_serving_cell option \<times> gNB_RRC_UE) res" where
  "rrc_update_ue_pcell rrc cell ue =
     bindr (ue_get_pcell_entry ue) (\<lambda>e.
     bindr (case e of None \<Rightarrow> Inr ue | Some s \<Rightarrow> rrc_remove_ue_scells_from_du (s_assoc_id s) ue)
       (rrc_add_ue_serving_cell rrc cell RRC_PCELL_INDEX))"

section \<open>Lookups of mobility\<close>

definition get_du_for_ue :: "gNB_RRC_INST \<Rightarrow> u32 \<Rightarrow> nr_rrc_du option res" where
  "get_du_for_ue rrc ue_id =
     (if \<not> cu_exists_f1_ue_data ue_id rrc then Inr None
      else bindr (cu_get_f1_ue_data ue_id rrc) (\<lambda>d. Inr (get_du_by_assoc_id rrc (du_assoc_id d))))"

text \<open>
  \<open>find_target_du\<close>: the first loop passes the DUs up to the source and takes the next one; the
  second takes the first DU other than the source.
\<close>

fun next_du :: "int \<Rightarrow> bool \<Rightarrow> nr_rrc_du list \<Rightarrow> nr_rrc_du option" where
  "next_du a seen [] = None"
| "next_du a seen (d # l) =
     (if \<not> seen \<and> a \<noteq> d_assoc_id d then next_du a seen l
      else if a = d_assoc_id d then next_du a True l
      else Some d)"

definition find_target_du :: "gNB_RRC_INST \<Rightarrow> int \<Rightarrow> nr_rrc_du option" where
  "find_target_du rrc a =
     (case next_du a False (dus rrc) of
        Some d \<Rightarrow> Some d
      | None \<Rightarrow> find (\<lambda>d. a \<noteq> d_assoc_id d) (dus rrc))"

text \<open>
  \<open>get_neighbour_cell_config\<close> takes the cell identity as an \<open>int\<close> and compares it, converted
  back, with the 64 bit identity of the configuration.
\<close>

definition get_neighbour_cell_config ::
  "gNB_RRC_INST \<Rightarrow> u64 \<Rightarrow> neighbour_cell_configuration option" where
  "get_neighbour_cell_config rrc i =
     (let cell_id = to_i32 (uint i) in
      case neighbour_configs rrc of
        None \<Rightarrow> None
      | Some l \<Rightarrow> find (\<lambda>n. nr_cell_id n = word_of_int cell_id) l)"

definition get_neighbour_cell_by_pci ::
  "neighbour_cell_configuration \<Rightarrow> int \<Rightarrow> nr_neighbour_cell option" where
  "get_neighbour_cell_by_pci n pci = find (\<lambda>c. physicalCellId c = pci) (neighbour_cells n)"

definition get_a3_configuration :: "gNB_RRC_INST \<Rightarrow> int \<Rightarrow> nr_a3_event option res" where
  "get_a3_configuration rrc pci =
     (case a3_event_list rrc of
        None \<Rightarrow> Inr None
      | Some l \<Rightarrow>
          (case find (\<lambda>e. a3_pci e = pci) (take 256 l) of
             Some e \<Rightarrow> Inr (Some e)
           | None \<Rightarrow> if length l \<ge> 256 then Inl Endless_loop else Inr None))"

section \<open>Serving cells: PCell first\<close>

definition serving_ok :: "gNB_RRC_UE \<Rightarrow> bool" where
  "serving_ok ue \<longleftrightarrow>
     (let l = serving_cells ue in
      distinct (map serving_cell_id l) \<and> length l \<le> RRC_MAX_NUM_SERVING_CELLS \<and>
      (l \<noteq> [] \<longrightarrow> serving_cell_id (hd l) = RRC_PCELL_INDEX))"

lemma length_indices_of: "length (indices_of P l) \<le> length l"
  unfolding indices_of_def using length_filter_le [of _ "[0..<length l]"] by simp

lemma rrc_remove_ue_scells_from_du_eq:
  assumes "length (serving_cells ue) \<le> RRC_MAX_NUM_SERVING_CELLS"
  shows "rrc_remove_ue_scells_from_du a ue =
         Inr (ue\<lparr>serving_cells := filter (\<lambda>s. s_assoc_id s \<noteq> a) (serving_cells ue)\<rparr>)"
proof -
  have "length (indices_of (\<lambda>s. s_assoc_id s = a) (serving_cells ue)) \<le> RRC_MAX_NUM_SERVING_CELLS"
    using length_indices_of assms by (rule order_trans)
  moreover have "erase_indices list_erase (indices_of (\<lambda>s. s_assoc_id s = a) (serving_cells ue))
      (serving_cells ue) = Inr (filter (\<lambda>s. s_assoc_id s \<noteq> a) (serving_cells ue))"
    using ls.erase_matching [where a = "serving_cells ue" and P = "\<lambda>s. s_assoc_id s = a"] by simp
  ultimately show ?thesis
    by (simp add: rrc_remove_ue_scells_from_du_def Let_def)
qed

definition pcell_entry :: "nr_rrc_cell \<Rightarrow> ue_serving_cell" where
  "pcell_entry cell =
     \<lparr>nci = c_cell_id cell, serving_cell_id = RRC_PCELL_INDEX, s_assoc_id = c_assoc_id cell\<rparr>"

text \<open>The serving cells that stay when the PCell changes: those of other DUs than its own.\<close>

definition kept_cells :: "gNB_RRC_UE \<Rightarrow> ue_serving_cell list" where
  "kept_cells ue =
     (case serving_cells ue of
        [] \<Rightarrow> []
      | s # l \<Rightarrow> filter (\<lambda>t. s_assoc_id t \<noteq> s_assoc_id s) l)"

lemma serving_ok_ConsD:
  assumes "serving_ok ue" and "serving_cells ue = s # l"
  shows "serving_cell_id s = RRC_PCELL_INDEX" "distinct (map serving_cell_id l)"
    "RRC_PCELL_INDEX \<notin> serving_cell_id ` set l" "length l < RRC_MAX_NUM_SERVING_CELLS"
  using assms by (auto simp: serving_ok_def Let_def)

lemma kept_cells_ok:
  assumes "serving_ok ue"
  shows "distinct (map serving_cell_id (kept_cells ue))"
    and "RRC_PCELL_INDEX \<notin> serving_cell_id ` set (kept_cells ue)"
    and "length (kept_cells ue) < RRC_MAX_NUM_SERVING_CELLS"
proof -
  have "distinct (map serving_cell_id (kept_cells ue)) \<and>
      RRC_PCELL_INDEX \<notin> serving_cell_id ` set (kept_cells ue) \<and>
      length (kept_cells ue) < RRC_MAX_NUM_SERVING_CELLS"
  proof (cases "serving_cells ue")
    case Nil
    then show ?thesis by (simp add: kept_cells_def RRC_MAX_NUM_SERVING_CELLS_def)
  next
    case (Cons s l)
    have "length (filter (\<lambda>t. s_assoc_id t \<noteq> s_assoc_id s) l) < RRC_MAX_NUM_SERVING_CELLS"
      using serving_ok_ConsD(4) [OF assms Cons] length_filter_le le_less_trans by blast
    then show ?thesis
      using serving_ok_ConsD(2,3) [OF assms Cons]
      by (auto simp: kept_cells_def Cons distinct_map_filter)
  qed
  then show "distinct (map serving_cell_id (kept_cells ue))"
    and "RRC_PCELL_INDEX \<notin> serving_cell_id ` set (kept_cells ue)"
    and "length (kept_cells ue) < RRC_MAX_NUM_SERVING_CELLS" by simp_all
qed

lemma find_serving_None:
  "i \<notin> serving_cell_id ` set l \<Longrightarrow> find (\<lambda>s. serving_cell_id s = i) l = None"
  by (auto simp: find_None_iff)

lemma rrc_update_ue_pcell_step:
  assumes ok: "serving_ok ue"
  shows "rrc_update_ue_pcell rrc cell ue =
         rrc_add_ue_serving_cell rrc cell RRC_PCELL_INDEX (ue\<lparr>serving_cells := kept_cells ue\<rparr>)"
proof -
  let ?ue = "ue\<lparr>serving_cells := kept_cells ue\<rparr>"
  have "bindr (ue_get_pcell_entry ue) (\<lambda>e.
      case e of None \<Rightarrow> Inr ue | Some s \<Rightarrow> rrc_remove_ue_scells_from_du (s_assoc_id s) ue) = Inr ?ue"
  proof (cases "serving_cells ue")
    case Nil
    then have "ue\<lparr>serving_cells := []\<rparr> = ue" by (cases ue) simp
    with Nil show ?thesis by (simp add: ue_get_pcell_entry_def kept_cells_def)
  next
    case (Cons s l)
    have "length (serving_cells ue) \<le> RRC_MAX_NUM_SERVING_CELLS"
      using ok by (simp add: serving_ok_def Let_def)
    then show ?thesis
      using serving_ok_ConsD(1) [OF ok Cons]
      by (simp add: ue_get_pcell_entry_def assertr_def Cons rrc_remove_ue_scells_from_du_eq
        kept_cells_def)
  qed
  then show ?thesis
    unfolding rrc_update_ue_pcell_def by (cases "ue_get_pcell_entry ue") simp_all
qed

lemma rrc_update_ue_pcell_eq:
  assumes ok: "serving_ok ue"
    and f1: "f1_ids rrc (rrc_ue_id ue) = Some d" "du_assoc_id d = c_assoc_id cell"
  shows "rrc_update_ue_pcell rrc cell ue =
         Inr (Some (pcell_entry cell), ue\<lparr>serving_cells := pcell_entry cell # kept_cells ue\<rparr>)"
  unfolding rrc_update_ue_pcell_step [OF ok]
  using kept_cells_ok [OF ok] f1 find_serving_None [OF kept_cells_ok(2) [OF ok]]
  by (simp add: rrc_add_ue_serving_cell_def assertr_def rrc_get_ue_serving_cell_by_id_def Let_def
    cu_exists_f1_ue_data_def cu_get_f1_ue_data_def pcell_entry_def RRC_PCELL_INDEX_def
    RRC_MAX_NUM_SERVING_CELLS_def)

text \<open>A PCell of another DU than the one the UE is associated with is an assertion.\<close>

lemma rrc_update_ue_pcell_wrong_du:
  assumes ok: "serving_ok ue"
    and f1: "f1_ids rrc (rrc_ue_id ue) = Some d" "du_assoc_id d \<noteq> c_assoc_id cell"
  shows "rrc_update_ue_pcell rrc cell ue = Inl Assert_failed"
  unfolding rrc_update_ue_pcell_step [OF ok]
  using kept_cells_ok [OF ok] f1 find_serving_None [OF kept_cells_ok(2) [OF ok]]
  by (simp add: rrc_add_ue_serving_cell_def assertr_def rrc_get_ue_serving_cell_by_id_def Let_def
    cu_exists_f1_ue_data_def cu_get_f1_ue_data_def RRC_PCELL_INDEX_def RRC_MAX_NUM_SERVING_CELLS_def)

lemma serving_ok_after_pcell:
  assumes "serving_ok ue"
  shows "serving_ok (ue\<lparr>serving_cells := pcell_entry cell # kept_cells ue\<rparr>)"
  using kept_cells_ok [OF assms]
  by (simp add: serving_ok_def Let_def pcell_entry_def Suc_leI)

lemma find_snoc: "find P (l @ [x]) = (case find P l of None \<Rightarrow> if P x then Some x else None | r \<Rightarrow> r)"
  by (induction l) auto

lemma rrc_add_ue_scell_eq:
  assumes "i \<noteq> RRC_PCELL_INDEX" "unat i < RRC_MAX_NUM_SERVING_CELLS"
    "length (serving_cells ue) < RRC_MAX_NUM_SERVING_CELLS"
  shows "rrc_add_ue_serving_cell rrc cell i ue =
    Inr (case rrc_get_ue_serving_cell_by_id ue i of
           Some e \<Rightarrow> (if nci e = c_cell_id cell then Some e else None, ue)
         | None \<Rightarrow>
             let new = \<lparr>nci = c_cell_id cell, serving_cell_id = i, s_assoc_id = c_assoc_id cell\<rparr> in
             (Some new, ue\<lparr>serving_cells := serving_cells ue @ [new]\<rparr>))"
  using assms
  by (auto simp: rrc_add_ue_serving_cell_def assertr_def rrc_get_ue_serving_cell_by_id_def Let_def
      find_snoc split: option.splits)

definition added_scell :: "nr_rrc_cell \<Rightarrow> byte \<Rightarrow> ue_serving_cell option \<Rightarrow> gNB_RRC_UE \<Rightarrow> bool" where
  "added_scell cell i r ue \<longleftrightarrow>
     (case r of None \<Rightarrow> True
      | Some e \<Rightarrow> e \<in> set (serving_cells ue) \<and> serving_cell_id e = i \<and> nci e = c_cell_id cell)"

lemma rrc_add_ue_scell_ok:
  assumes ok: "serving_ok ue" and i: "i \<noteq> RRC_PCELL_INDEX" "unat i < RRC_MAX_NUM_SERVING_CELLS"
    and ne: "serving_cells ue \<noteq> []"
  shows "\<exists>r ue'. rrc_add_ue_serving_cell rrc cell i ue = Inr (r, ue') \<and> serving_ok ue' \<and>
           added_scell cell i r ue'"
proof -
  have len: "length (serving_cells ue) \<le> RRC_MAX_NUM_SERVING_CELLS"
    and dist: "distinct (map serving_cell_id (serving_cells ue))"
    and pcell: "serving_cell_id (hd (serving_cells ue)) = RRC_PCELL_INDEX"
    using ok ne by (simp_all add: serving_ok_def Let_def)
  consider "length (serving_cells ue) = RRC_MAX_NUM_SERVING_CELLS"
    | "length (serving_cells ue) < RRC_MAX_NUM_SERVING_CELLS" "rrc_get_ue_serving_cell_by_id ue i = None"
    | e where "length (serving_cells ue) < RRC_MAX_NUM_SERVING_CELLS"
        "rrc_get_ue_serving_cell_by_id ue i = Some e"
    using len by fastforce
  then show ?thesis
  proof cases
    case 1
    then show ?thesis
      using i ok by (simp add: rrc_add_ue_serving_cell_def assertr_def added_scell_def)
  next
    case 2
    then have "i \<notin> serving_cell_id ` set (serving_cells ue)"
      by (auto simp: rrc_get_ue_serving_cell_by_id_def find_None_iff)
    then show ?thesis
      using 2 dist i pcell ne
      by (simp add: rrc_add_ue_scell_eq serving_ok_def Let_def Suc_leI added_scell_def)
  next
    case 3
    then have "e \<in> set (serving_cells ue)" "serving_cell_id e = i"
      by (auto simp: rrc_get_ue_serving_cell_by_id_def find_Some_iff)
    then show ?thesis using 3 i ok by (simp add: rrc_add_ue_scell_eq added_scell_def)
  qed
qed

text \<open>Removing the cells of a DU keeps the PCell first, or takes it away.\<close>

lemma serving_cells_after_removal:
  fixes a :: int
  assumes ok: "serving_ok ue"
  defines "l \<equiv> filter (\<lambda>s. s_assoc_id s \<noteq> a) (serving_cells ue)"
  shows "if l = [] \<or> s_assoc_id (hd (serving_cells ue)) \<noteq> a
         then serving_ok (ue\<lparr>serving_cells := l\<rparr>)
         else ue_get_pcell_entry (ue\<lparr>serving_cells := l\<rparr>) = Inl Assert_failed"
proof (cases "serving_cells ue")
  case Nil
  then show ?thesis by (simp add: l_def serving_ok_def)
next
  case (Cons s t)
  note D = serving_ok_ConsD [OF ok Cons]
  let ?t = "filter (\<lambda>s. s_assoc_id s \<noteq> a) t"
  have len: "length ?t < RRC_MAX_NUM_SERVING_CELLS"
    using D(4) length_filter_le le_less_trans by blast
  show ?thesis
  proof (cases "s_assoc_id s = a")
    case False
    then show ?thesis
      using D len by (auto simp: l_def Cons serving_ok_def Let_def distinct_map_filter)
  next
    case True
    show ?thesis
    proof (cases ?t)
      case Nil
      then show ?thesis using True by (simp add: l_def Cons serving_ok_def)
    next
      case (Cons u v)
      then have "u \<in> set t" by (metis filter_is_subset list.set_intros(1) subsetD)
      then have "serving_cell_id u \<noteq> RRC_PCELL_INDEX" using D(3) by (metis imageI)
      then show ?thesis
        using True Cons \<open>serving_cells ue = s # t\<close>
        by (simp add: l_def ue_get_pcell_entry_def assertr_def)
    qed
  qed
qed

text \<open>Direct addition of the PCell, and of an SCell to a UE without a PCell.\<close>

lemma rrc_add_ue_pcell_eq:
  assumes ok: "serving_ok ue"
    and f1: "f1_ids rrc (rrc_ue_id ue) = Some d" "du_assoc_id d = c_assoc_id cell"
  shows "rrc_add_ue_serving_cell rrc cell RRC_PCELL_INDEX ue =
    Inr (case serving_cells ue of
           [] \<Rightarrow> (Some (pcell_entry cell), ue\<lparr>serving_cells := [pcell_entry cell]\<rparr>)
         | s # l \<Rightarrow>
             (if length (s # l) < RRC_MAX_NUM_SERVING_CELLS \<and> nci s = c_cell_id cell then Some s else None, ue))"
proof (cases "serving_cells ue")
  case Nil
  then show ?thesis
    using f1 by (simp add: rrc_add_ue_serving_cell_def assertr_def rrc_get_ue_serving_cell_by_id_def Let_def
      cu_exists_f1_ue_data_def cu_get_f1_ue_data_def pcell_entry_def RRC_PCELL_INDEX_def
      RRC_MAX_NUM_SERVING_CELLS_def)
next
  case (Cons s l)
  have "rrc_get_ue_serving_cell_by_id ue RRC_PCELL_INDEX = Some s"
    using serving_ok_ConsD(1) [OF ok Cons] Cons by (simp add: rrc_get_ue_serving_cell_by_id_def)
  then show ?thesis
    using Cons by (simp add: rrc_add_ue_serving_cell_def assertr_def RRC_PCELL_INDEX_def
      RRC_MAX_NUM_SERVING_CELLS_def)
qed

lemma rrc_add_scell_without_pcell:
  assumes i: "i \<noteq> RRC_PCELL_INDEX" "unat i < RRC_MAX_NUM_SERVING_CELLS" and "serving_cells ue = []"
  shows "\<exists>e ue'. rrc_add_ue_serving_cell rrc cell i ue = Inr (Some e, ue') \<and> serving_cells ue' = [e] \<and>
    ue_get_pcell_entry ue' = Inl Assert_failed"
  using assms rrc_add_ue_scell_eq [OF i, of ue]
  by (simp add: rrc_get_ue_serving_cell_by_id_def Let_def ue_get_pcell_entry_def assertr_def
    RRC_MAX_NUM_SERVING_CELLS_def)

text \<open>
  C20: The serving cells of a UE. The invariant says that the serving cell indices are distinct,
  that there are at most 32 entries and that index 0, the PCell, is first. Under it, changing the
  PCell to a cell of the DU the UE is associated with always succeeds, puts the new PCell first,
  drops every cell of the DU of the old PCell and keeps the others in order; adding index 0 directly
  to a UE that is associated with the DU of the cell makes the cell the PCell of a UE without cells
  and changes nothing otherwise; adding another index to a UE with a PCell keeps the invariant on
  every branch and gives back an entry of that cell and index or nothing; and removing the cells of
  a DU keeps exactly the cells of the other DUs. Two operations break the invariant, and then the
  next lookup of the PCell fails an assertion: adding another index than 0 to a UE without cells,
  and removing the cells of a DU when this takes the PCell and leaves an SCell of another DU.
\<close>

theorem serving_cells_type:
  assumes ok: "serving_ok ue"
  shows "(\<forall>rrc :: gNB_RRC_INST. \<forall>d cell.
            f1_ids rrc (rrc_ue_id ue) = Some d \<and> du_assoc_id d = c_assoc_id cell \<longrightarrow>
            (\<exists>ue'. rrc_update_ue_pcell rrc cell ue = Inr (Some (pcell_entry cell), ue') \<and>
               serving_ok ue' \<and> serving_cells ue' = pcell_entry cell # kept_cells ue)) \<and>
         (\<forall>rrc :: gNB_RRC_INST. \<forall>d cell.
            f1_ids rrc (rrc_ue_id ue) = Some d \<and> du_assoc_id d = c_assoc_id cell \<longrightarrow>
            (\<exists>r ue'. rrc_add_ue_serving_cell rrc cell RRC_PCELL_INDEX ue = Inr (r, ue') \<and> serving_ok ue' \<and>
               serving_cells ue' = (if serving_cells ue = [] then [pcell_entry cell] else serving_cells ue))) \<and>
         (\<forall>rrc cell i. i \<noteq> RRC_PCELL_INDEX \<and> unat i < RRC_MAX_NUM_SERVING_CELLS \<longrightarrow>
            (\<exists>r ue'. rrc_add_ue_serving_cell rrc cell i ue = Inr (r, ue') \<and> added_scell cell i r ue' \<and>
               (if serving_cells ue \<noteq> [] then serving_ok ue'
                else ue_get_pcell_entry ue' = Inl Assert_failed))) \<and>
         (\<forall>a. \<exists>ue'. rrc_remove_ue_scells_from_du a ue = Inr ue' \<and>
            serving_cells ue' = filter (\<lambda>s. s_assoc_id s \<noteq> a) (serving_cells ue) \<and>
            (if serving_cells ue' = [] \<or> s_assoc_id (hd (serving_cells ue)) \<noteq> a
             then serving_ok ue' else ue_get_pcell_entry ue' = Inl Assert_failed))"
proof (intro conjI allI impI)
  fix rrc :: gNB_RRC_INST and d :: f1_ue_data and cell :: nr_rrc_cell
  assume f1: "f1_ids rrc (rrc_ue_id ue) = Some d \<and> du_assoc_id d = c_assoc_id cell"
  then show "\<exists>ue'. rrc_update_ue_pcell rrc cell ue = Inr (Some (pcell_entry cell), ue') \<and>
      serving_ok ue' \<and> serving_cells ue' = pcell_entry cell # kept_cells ue"
    using rrc_update_ue_pcell_eq [OF ok] serving_ok_after_pcell [OF ok] by simp
  have "serving_ok (ue\<lparr>serving_cells := [pcell_entry cell]\<rparr>)"
    by (simp add: serving_ok_def pcell_entry_def RRC_MAX_NUM_SERVING_CELLS_def)
  then show "\<exists>r ue'. rrc_add_ue_serving_cell rrc cell RRC_PCELL_INDEX ue = Inr (r, ue') \<and> serving_ok ue' \<and>
      serving_cells ue' = (if serving_cells ue = [] then [pcell_entry cell] else serving_cells ue)"
    using rrc_add_ue_pcell_eq [OF ok, of rrc d cell] f1 ok by (cases "serving_cells ue") auto
next
  fix rrc :: gNB_RRC_INST and cell :: nr_rrc_cell and i :: byte
  assume i: "i \<noteq> RRC_PCELL_INDEX \<and> unat i < RRC_MAX_NUM_SERVING_CELLS"
  show "\<exists>r ue'. rrc_add_ue_serving_cell rrc cell i ue = Inr (r, ue') \<and> added_scell cell i r ue' \<and>
      (if serving_cells ue \<noteq> [] then serving_ok ue' else ue_get_pcell_entry ue' = Inl Assert_failed)"
    using i rrc_add_ue_scell_ok [OF ok, of i rrc cell] rrc_add_scell_without_pcell [of i ue rrc cell]
      rrc_add_ue_scell_eq [of i ue rrc cell]
    by (cases "serving_cells ue") (auto simp: added_scell_def rrc_get_ue_serving_cell_by_id_def Let_def)
next
  fix a
  have "length (serving_cells ue) \<le> RRC_MAX_NUM_SERVING_CELLS"
    using ok by (simp add: serving_ok_def Let_def)
  from rrc_remove_ue_scells_from_du_eq [OF this, of a] serving_cells_after_removal [OF ok, of a]
  show "\<exists>ue'. rrc_remove_ue_scells_from_du a ue = Inr ue' \<and>
      serving_cells ue' = filter (\<lambda>s. s_assoc_id s \<noteq> a) (serving_cells ue) \<and>
      (if serving_cells ue' = [] \<or> s_assoc_id (hd (serving_cells ue)) \<noteq> a
       then serving_ok ue' else ue_get_pcell_entry ue' = Inl Assert_failed)" by simp
qed

definition sample_qos :: "int \<Rightarrow> nr_rrc_qos" where
  "sample_qos i =
     \<lparr>qf_drb_id = i,
      qf_qos = \<lparr>qp_qfi = of_int i, qp_characteristics = NON_DYNAMIC 9 None,
        qp_arp = \<lparr>arp_priority_level = 8, pre_emp_capability = 0, pre_emp_vulnerability = 0\<rparr>\<rparr>,
      qf_ngap_pending = False\<rparr>"

definition sample_ue :: gNB_RRC_UE where
  "sample_ue =
     \<lparr>rrc_ue_id = 1, rnti = 0x4601, amf_ue_ngap_id = 7, ho_context = None,
      serving_cells = [\<lparr>nci = 11, serving_cell_id = 0, s_assoc_id = 3\<rparr>],
      drbs = [\<lparr>drb_id = 1, drb_pdusession = 10, du_tunnel_config = \<lparr>teid = 5, tl_addr = [1, 2, 3, 4]\<rparr>\<rparr>],
      drbs_space = init_space SIZEOF_drb_t,
      pduSessions = [\<lparr>pdusession_id = 10, p_nas_pdu = [], p_status = PDU_SESSION_STATUS_ESTABLISHED,
        p_xid = 0, p_qos = Some [sample_qos 1], p_qos_space = init_space SIZEOF_nr_rrc_qos_t,
        p_default_drb = 0\<rparr>],
      sessions_space = init_space SIZEOF_rrc_pdu_session_param_t,
      xids = replicate 4 RRC_ACTION_NONE, mcg = [8, 9], ue_nas_pdu = [], ue_cap_buffer = [1],
      srb2_active = True, f1_ue_context_active = True, ongoing_reconfiguration = False,
      ue_reconfiguration_counter = 0, n_initial_pdu = 0,
      srb1_active = True, as_security_active = True, an_release = False, random_ue_identity = 3\<rparr>"

theorem serving_cells_type_witness:
  "serving_ok sample_ue \<and>
   (\<exists>ue'. rrc_remove_ue_scells_from_du 3 sample_ue = Inr ue' \<and> serving_cells ue' = [])"
proof -
  have "serving_ok sample_ue"
    by (simp add: serving_ok_def sample_ue_def RRC_PCELL_INDEX_def RRC_MAX_NUM_SERVING_CELLS_def)
  moreover from serving_cells_type [OF this]
  obtain ue' where "rrc_remove_ue_scells_from_du 3 sample_ue = Inr ue'"
    and "serving_cells ue' = filter (\<lambda>s. s_assoc_id s \<noteq> 3) (serving_cells sample_ue)" by blast
  moreover have "filter (\<lambda>s. s_assoc_id s \<noteq> 3) (serving_cells sample_ue) = []"
    by (simp add: sample_ue_def)
  ultimately show ?thesis by simp
qed

section \<open>The next DU\<close>

lemma next_du_seen: "next_du a True l = find (\<lambda>d. a \<noteq> d_assoc_id d) l"
  by (induction l) auto

lemma next_du_skip:
  "a \<notin> d_assoc_id ` set l \<Longrightarrow> next_du a False (l @ r) = next_du a False r"
  by (induction l) auto

lemma find_target_du_at:
  assumes "distinct (map d_assoc_id (dus rrc))" and i: "i < length (dus rrc)"
  shows "find_target_du rrc (d_assoc_id (dus rrc ! i)) =
         (if length (dus rrc) = 1 then None else Some (dus rrc ! (Suc i mod length (dus rrc))))"
proof -
  define l d r where "l = take i (dus rrc)" and "d = dus rrc ! i" and "r = drop (Suc i) (dus rrc)"
  have split: "dus rrc = l @ d # r" and len: "length l = i"
    using i by (simp_all add: l_def d_def r_def id_take_nth_drop)
  have notin: "d_assoc_id d \<notin> d_assoc_id ` set l" "d_assoc_id d \<notin> d_assoc_id ` set r"
    using assms(1) by (auto simp: split)
  have nxt: "next_du (d_assoc_id d) False (dus rrc) = find (\<lambda>e. d_assoc_id d \<noteq> d_assoc_id e) r"
    using notin(1) by (simp add: split next_du_skip next_du_seen)
  show ?thesis
  proof (cases r)
    case (Cons e r')
    then have "next_du (d_assoc_id d) False (dus rrc) = Some e" using nxt notin(2) by simp
    moreover have "dus rrc ! Suc i = e" "Suc i < length (dus rrc)"
      using len Cons by (simp_all add: split nth_append)
    ultimately show ?thesis by (simp add: find_target_du_def d_def [symmetric])
  next
    case Nil
    then have none: "next_du (d_assoc_id d) False (dus rrc) = None" using nxt by simp
    have last: "Suc i = length (dus rrc)" using len Nil by (simp add: split)
    show ?thesis
    proof (cases l)
      case Nil
      with \<open>r = []\<close> none last show ?thesis
        by (simp add: find_target_du_def d_def [symmetric] split)
    next
      case (Cons e l')
      with notin(1) have "find (\<lambda>f. d_assoc_id d \<noteq> d_assoc_id f) (dus rrc) = Some e"
        by (simp add: split)
      moreover have "dus rrc ! 0 = e" "length (dus rrc) \<noteq> 1" using Cons by (simp_all add: split)
      ultimately show ?thesis
        using none last by (simp add: find_target_du_def d_def [symmetric])
    qed
  qed
qed

text \<open>The target of the \<open>k\<close>-th of a row of handovers, each from the DU the last one reached.\<close>

fun target_after :: "nat \<Rightarrow> gNB_RRC_INST \<Rightarrow> nr_rrc_du \<Rightarrow> nr_rrc_du option" where
  "target_after 0 rrc d = Some d"
| "target_after (Suc k) rrc d =
     (case target_after k rrc d of None \<Rightarrow> None | Some e \<Rightarrow> find_target_du rrc (d_assoc_id e))"

text \<open>
  Choice of the target DU. The DU that \<open>find_target_du\<close> chooses for a UE of the \<open>i\<close>-th DU
  is the next one in the order of the tree, the first one after the last, and none when there is
  no other DU. A row of handovers, each from the DU the one before reached, visits the DUs
  cyclically: after \<open>k\<close> of them the UE is at the DU \<open>(i + k) mod n\<close>, so \<open>n\<close> handovers bring it
  back and every DU is reached.
\<close>

lemma find_target_du_cyclic:
  assumes "distinct (map d_assoc_id (dus rrc))" and "i < length (dus rrc)"
    and "1 < length (dus rrc)"
  shows "target_after k rrc (dus rrc ! i) = Some (dus rrc ! ((i + k) mod length (dus rrc)))"
proof (induction k)
  case 0
  show ?case using assms(2) by simp
next
  case (Suc k)
  let ?n = "length (dus rrc)" and ?j = "(i + k) mod length (dus rrc)"
  have "?j < ?n" using assms(3) by (intro mod_less_divisor) linarith
  then have "find_target_du rrc (d_assoc_id (dus rrc ! ?j)) = Some (dus rrc ! (Suc ?j mod ?n))"
    using find_target_du_at [OF assms(1), of ?j] assms(3) by simp
  with Suc.IH show ?case by (simp add: mod_Suc_eq)
qed

definition sample_freq :: nr_rrc_freq_info where
  "sample_freq = \<lparr>band = 78, arfcn = 640000, scs = 1, nrb = 106\<rparr>"

definition sample_cell :: "int \<Rightarrow> u64 \<Rightarrow> u16 \<Rightarrow> nr_rrc_cell" where
  "sample_cell a i pci =
     \<lparr>c_assoc_id = a, c_cell_id = i, c_pci = pci, c_mode = NR_MODE_TDD sample_freq,
      c_plmn = \<lparr>mcc = 1, mnc = 1, mnc_digit_length = 2\<rparr>, c_tac = 1,
      c_mtc = Some 640000\<rparr>"

text \<open>A CU with two DUs, a cell each, and the sample UE on the cell of the first.\<close>

definition sample_rrc :: gNB_RRC_INST where
  "sample_rrc =
     \<lparr>cell_store = [100 \<mapsto> sample_cell 3 11 1, 200 \<mapsto> sample_cell 5 22 2],
      cells = [100, 200], num_cells = 2,
      dus = [\<lparr>d_assoc_id = 3, d_gNB_DU_id = 1, d_cells = [100]\<rparr>,
             \<lparr>d_assoc_id = 5, d_gNB_DU_id = 2, d_cells = [200]\<rparr>],
      num_dus = 2, rrc_ue_head = [sample_ue],
      f1_ids = [1 \<mapsto> \<lparr>secondary_ue = 40, e1_assoc_id = 9, du_assoc_id = 3\<rparr>],
      neighbour_configs = None, a3_event_list = None, transaction_id = 0, cuups = [9], sent = [],
      uid_allocator = uid_linear_allocator_init[0 := 1]\<rparr>"

lemma find_target_du_cyclic_example:
  "target_after 1 sample_rrc (dus sample_rrc ! 0) = Some (dus sample_rrc ! 1) \<and>
   target_after 2 sample_rrc (dus sample_rrc ! 0) = Some (dus sample_rrc ! 0)"
proof -
  have "distinct (map d_assoc_id (dus sample_rrc))" "length (dus sample_rrc) = 2"
    by (simp_all add: sample_rrc_def)
  then show ?thesis
    using find_target_du_cyclic [of sample_rrc 0 1] find_target_du_cyclic [of sample_rrc 0 2]
    by simp
qed

section \<open>Neighbour cells\<close>

lemma to_i32_range: "- (2 ^ 31) \<le> to_i32 x" "to_i32 x < 2 ^ 31"
  using sint_greater_eq [of "of_int x :: 32 word"] sint_less [of "of_int x :: 32 word"]
  by (simp_all add: to_i32_def)

lemma to_i32_wrong:
  fixes i :: u64
  assumes "2 ^ 31 \<le> uint i" "uint i < 2 ^ 36"
  shows "word_of_int (to_i32 (uint i)) \<noteq> i"
proof (cases "0 \<le> to_i32 (uint i)")
  case True
  then have "uint (word_of_int (to_i32 (uint i)) :: u64) = to_i32 (uint i)"
    using to_i32_range(2) [of "uint i"] by (simp add: uint_word_of_int)
  with assms(1) to_i32_range(2) [of "uint i"] show ?thesis by auto
next
  case False
  let ?t = "to_i32 (uint i)"
  have "?t mod 2 ^ 64 = (?t + 2 ^ 64) mod 2 ^ 64" by simp
  also have "\<dots> = ?t + 2 ^ 64"
    using False to_i32_range(1) [of "uint i"] by (intro mod_pos_pos_trivial) simp_all
  finally have "uint (word_of_int ?t :: u64) = ?t + 2 ^ 64"
    by (simp add: uint_word_of_int)
  with assms(2) to_i32_range(1) [of "uint i"] show ?thesis by auto
qed

text \<open>
  The neighbours of a cell are looked up by its 36 bit identity, which is passed as an
  \<open>int\<close>. Below \<open>2^31\<close> the lookup gives the first configuration with that identity. For an
  identity of \<open>2^31\<close> or more it never gives the configuration of this cell: either none, or
  one of another cell.
\<close>

lemma neighbour_lookup_truncated:
  fixes i :: u64
  assumes "neighbour_configs rrc = Some l" and "uint i < 2 ^ 36"
  shows "if uint i < 2 ^ 31
         then get_neighbour_cell_config rrc i = find (\<lambda>n. nr_cell_id n = i) l
         else \<forall>n. get_neighbour_cell_config rrc i = Some n \<longrightarrow> nr_cell_id n \<noteq> i"
proof (cases "uint i < 2 ^ 31")
  case True
  then have "word_of_int (to_i32 (uint i)) = i" by simp
  with True assms(1) show ?thesis by (simp add: get_neighbour_cell_config_def)
next
  case False
  then have "word_of_int (to_i32 (uint i)) \<noteq> i" using to_i32_wrong assms(2) by simp
  with False assms(1) show ?thesis
    by (auto simp: get_neighbour_cell_config_def find_Some_iff)
qed

lemma neighbour_lookup_truncated_example:
  "get_neighbour_cell_config
     (sample_rrc\<lparr>neighbour_configs := Some [\<lparr>nr_cell_id = 12345678, neighbour_cells = []\<rparr>]\<rparr>) 12345678 =
   Some \<lparr>nr_cell_id = 12345678, neighbour_cells = []\<rparr> \<and>
   (\<forall>n. get_neighbour_cell_config
     (sample_rrc\<lparr>neighbour_configs := Some [\<lparr>nr_cell_id = 0xE0000000, neighbour_cells = []\<rparr>]\<rparr>) 0xE0000000
     = Some n \<longrightarrow> nr_cell_id n \<noteq> 0xE0000000)"
  using neighbour_lookup_truncated [where i = 12345678 and rrc = "sample_rrc\<lparr>neighbour_configs :=
      Some [\<lparr>nr_cell_id = 12345678, neighbour_cells = []\<rparr>]\<rparr>"]
    neighbour_lookup_truncated [where i = "0xE0000000" and rrc = "sample_rrc\<lparr>neighbour_configs :=
      Some [\<lparr>nr_cell_id = 0xE0000000, neighbour_cells = []\<rparr>]\<rparr>"]
  by simp

end
