(* ===== verification/Nr_Rrc_Bearer.thy ===== *)
theory Nr_Rrc_Bearer
  imports Nr_Rrc_State
begin

text \<open>
  The data radio bearers and PDU sessions of a UE context: the operations on their arrays of
  \<open>RRC/NR/rrc_gNB_radio_bearers.c\<close> and the answers to NGAP of \<open>rrc_gNB_NGAP.c\<close> that change
  the sessions when a transaction with the UE completes. The transport addresses of
  a session are not part of the model; its QoS flows are in \<open>Nr_Rrc_Qos\<close>.
\<close>

section \<open>Bearers\<close>

definition get_drb :: "drb list \<Rightarrow> int \<Rightarrow> drb option res" where
  "get_drb l i =
     bindr (assertr (0 < i \<and> i \<le> MAX_DRBS_PER_UE)) (\<lambda>_. Inr (find (\<lambda>d. drb_id d = i) l))"

definition find_pduSession :: "rrc_pdu_session list \<Rightarrow> int \<Rightarrow> rrc_pdu_session option" where
  "find_pduSession l i = find (\<lambda>s. pdusession_id s = i) l"

definition find_pduSession_from_drbId :: "gNB_RRC_UE \<Rightarrow> int \<Rightarrow> rrc_pdu_session option res" where
  "find_pduSession_from_drbId ue i =
     bindr (get_drb (drbs ue) i) (\<lambda>d.
       Inr (case d of None \<Rightarrow> None | Some d \<Rightarrow> find_pduSession (pduSessions ue) (drb_pdusession d)))"

definition find_drb_by_pdusession_id :: "drb list \<Rightarrow> int \<Rightarrow> nat option res" where
  "find_drb_by_pdusession_id l i =
     bindr (assertr (0 < i \<and> i \<le> NR_MAX_NB_PDU_SESSIONS)) (\<lambda>_.
       Inr (find_index (\<lambda>d. drb_pdusession d = i) l))"

definition nr_rrc_remove_drb_by_id :: "drb arr \<Rightarrow> int \<Rightarrow> (bool \<times> drb arr) res" where
  "nr_rrc_remove_drb_by_id a i =
     bindr (get_drb (fst a) i) (\<lambda>d.
     if d = None then Inr (False, a)
     else case find_index (\<lambda>d. drb_id d = i) (fst a) of
       None \<Rightarrow> Inr (False, a)
     | Some k \<Rightarrow> bindr (arr_erase SIZEOF_drb_t a k) (\<lambda>a. Inr (True, a)))"

text \<open>The loop over the identities 1 to 32 stops at the first one without a bearer.\<close>

fun first_free_drb :: "drb list \<Rightarrow> int list \<Rightarrow> int option res" where
  "first_free_drb l [] = Inr None"
| "first_free_drb l (i # is) =
     bindr (get_drb l i) (\<lambda>d. if d = None then Inr (Some i) else first_free_drb l is)"

definition nr_rrc_add_drb :: "drb arr \<Rightarrow> int \<Rightarrow> (drb option \<times> drb arr) res" where
  "nr_rrc_add_drb a pdusession =
     bindr (assertr (0 < pdusession \<and> pdusession \<le> NR_MAX_NB_PDU_SESSIONS)) (\<lambda>_.
     bindr (first_free_drb (fst a) [1..MAX_DRBS_PER_UE]) (\<lambda>i.
     case i of
       None \<Rightarrow> Inr (None, a)
     | Some i \<Rightarrow>
         bindr (arr_push SIZEOF_drb_t a
                  \<lparr>drb_id = i, drb_pdusession = pdusession, du_tunnel_config = no_tunnel\<rparr>) (\<lambda>a.
         bindr (get_drb (fst a) i) (\<lambda>out. bindr (assertr (out \<noteq> None)) (\<lambda>_. Inr (out, a))))))"

section \<open>Sessions\<close>

text \<open>The array of flows of the new session is the one that is handed over, or none.\<close>

definition new_session :: "int \<Rightarrow> byte list \<Rightarrow> nr_rrc_qos arr option \<Rightarrow> rrc_pdu_session" where
  "new_session i nas qos =
     \<lparr>pdusession_id = i, p_nas_pdu = nas, p_status = PDU_SESSION_STATUS_NEW, p_xid = -1,
      p_qos = map_option fst qos,
      p_qos_space = (case qos of None \<Rightarrow> \<lparr>sp_cap = 0, sp_block = 0\<rparr> | Some a \<Rightarrow> snd a),
      p_default_drb = 0\<rparr>"

definition add_pduSession ::
  "rrc_pdu_session arr \<Rightarrow> int \<Rightarrow> byte list \<Rightarrow> nr_rrc_qos arr option \<Rightarrow>
     (rrc_pdu_session option \<times> rrc_pdu_session arr) res" where
  "add_pduSession ss i nas qos =
     (if int (length (fst ss)) = NR_MAX_NB_PDU_SESSIONS then Inr (None, ss)
      else if find_pduSession (fst ss) i \<noteq> None then Inr (None, ss)
      else
        bindr (arr_push SIZEOF_rrc_pdu_session_param_t ss (new_session i nas qos)) (\<lambda>ss.
        bindr (assertr (find_pduSession (fst ss) i \<noteq> None)) (\<lambda>_. Inr (find_pduSession (fst ss) i, ss))))"

text \<open>
  The loop of \<open>rm_pduSession\<close> that removes the bearers of the session one by one. The session is
  then erased with \<open>free_pdusession\<close>, which frees the array of its flows and asserts that it has
  been initialised.
\<close>

function rm_drbs_of :: "int \<Rightarrow> drb arr \<Rightarrow> drb arr res" where
  "rm_drbs_of i a =
     bindr (find_drb_by_pdusession_id (fst a) i) (\<lambda>k.
     case k of
       None \<Rightarrow> Inr a
     | Some k \<Rightarrow> bindr (arr_erase SIZEOF_drb_t a k) (\<lambda>a. rm_drbs_of i a))"
  by pat_completeness auto

termination rm_drbs_of
  by (relation "measure (\<lambda>(i, a). length (fst a))") (auto dest!: arr_erase_Inr)

declare rm_drbs_of.simps [simp del]

definition rm_pduSession ::
  "rrc_pdu_session arr \<Rightarrow> drb arr \<Rightarrow> int \<Rightarrow> (bool \<times> rrc_pdu_session arr \<times> drb arr) res" where
  "rm_pduSession ss a i =
     (case find_index (\<lambda>s. pdusession_id s = i) (fst ss) of
        None \<Rightarrow> Inr (False, ss, a)
      | Some k \<Rightarrow>
          bindr (rm_drbs_of i a) (\<lambda>a.
          bindr (assert_some (p_qos (fst ss ! k))) (\<lambda>_.
          bindr (arr_erase SIZEOF_rrc_pdu_session_param_t ss k) (\<lambda>ss. Inr (True, ss, a)))))"

lemma rm_pduSession_length:
  "rm_pduSession ss a i = Inr (b, ss', a') \<Longrightarrow> length (fst ss') \<le> length (fst ss)"
  by (cases ss; cases ss') (auto simp: rm_pduSession_def dest!: arr_erase_Inr split: option.splits)

section \<open>Answers to NGAP\<close>

text \<open>
  In both setup responses, which list the flows of the new sessions (initialised for every session
  in this state), a new session becomes established and any other that is not
  established failed. The response of a session setup also resets the transaction of all
  sessions, and is sent only when it lists a session.
\<close>

definition setup_status :: "rrc_pdu_session \<Rightarrow> rrc_pdu_session" where
  "setup_status s =
     (if p_status s = PDU_SESSION_STATUS_NEW then s\<lparr>p_status := PDU_SESSION_STATUS_ESTABLISHED\<rparr>
      else if p_status s \<noteq> PDU_SESSION_STATUS_ESTABLISHED
      then s\<lparr>p_status := PDU_SESSION_STATUS_FAILED\<rparr> else s)"

definition rrc_gNB_send_NGAP_INITIAL_CONTEXT_SETUP_RESP ::
  "gNB_RRC_INST \<Rightarrow> gNB_RRC_UE \<Rightarrow> gNB_RRC_INST \<times> gNB_RRC_UE" where
  "rrc_gNB_send_NGAP_INITIAL_CONTEXT_SETUP_RESP rrc ue =
     (send (Ngap_initial_context_setup_resp (rrc_ue_id ue)) rrc,
      ue\<lparr>pduSessions := map setup_status (pduSessions ue)\<rparr>)"

definition rrc_gNB_send_NGAP_PDUSESSION_SETUP_RESP ::
  "gNB_RRC_INST \<Rightarrow> gNB_RRC_UE \<Rightarrow> gNB_RRC_INST \<times> gNB_RRC_UE" where
  "rrc_gNB_send_NGAP_PDUSESSION_SETUP_RESP rrc ue =
     (if \<exists>s \<in> set (pduSessions ue). p_status s \<noteq> PDU_SESSION_STATUS_ESTABLISHED
      then send (Ngap_pdusession_setup_resp (rrc_ue_id ue)) rrc else rrc,
      ue\<lparr>pduSessions := map (\<lambda>s. (setup_status s)\<lparr>p_xid := -1\<rparr>) (pduSessions ue)\<rparr>)"

text \<open>
  The loop of the modify response erases the failed sessions of the transaction while it runs
  over the array: the iterator steps on after an erasure, and the loop ends only when it equals
  the end; when the erasure has shrunk the array, the iterator points to the old block, which has
  been freed. The flows of a modified session that are pending are listed and not pending any more.
\<close>

definition pending_qfis :: "nr_rrc_qos list \<Rightarrow> byte list" where
  "pending_qfis qos = map (qp_qfi \<circ> qf_qos) (filter qf_ngap_pending qos)"

definition MAX_QOS_FLOWS :: nat where
  "MAX_QOS_FLOWS = 64"

definition clear_pending :: "nr_rrc_qos list \<Rightarrow> nr_rrc_qos list" where
  "clear_pending = map (\<lambda>q. q\<lparr>qf_ngap_pending := False\<rparr>)"

function modify_sessions ::
  "byte \<Rightarrow> nat \<Rightarrow> rrc_pdu_session arr \<Rightarrow> drb arr \<Rightarrow> (int \<times> byte list) list \<Rightarrow> int list \<Rightarrow>
     (rrc_pdu_session arr \<times> drb arr \<times> (int \<times> byte list) list \<times> int list) res" where
  "modify_sessions xid i ss a done failed =
     (if i = length (fst ss) then Inr (ss, a, done, failed)
      else if i > length (fst ss) then Inl Out_of_bounds
      else
        let s = fst ss ! i in
        if p_xid s \<noteq> xid then modify_sessions xid (i + 1) ss a done failed
        else if p_status s = PDU_SESSION_STATUS_TOMODIFY
        then bindr (assert_some (p_qos s)) (\<lambda>qos.
             bindr (assertr (length (pending_qfis qos) \<le> MAX_QOS_FLOWS)) (\<lambda>_.
               modify_sessions xid (i + 1)
                 ((fst ss)[i := s\<lparr>p_status := PDU_SESSION_STATUS_ESTABLISHED, p_qos := Some (clear_pending qos)\<rparr>],
                  snd ss) a
                 (done @ [(pdusession_id s, pending_qfis qos)]) failed))
        else if p_status s = PDU_SESSION_STATUS_FAILED
        then bindr (rm_pduSession ss a (pdusession_id s)) (\<lambda>(_, ss', a).
               if snd ss' \<noteq> snd ss then Inl Dangling_pointer
               else modify_sessions xid (i + 1) ss' a done (failed @ [pdusession_id s]))
        else modify_sessions xid (i + 1) ss a done failed)"
  by pat_completeness auto

termination modify_sessions
  by (relation "measure (\<lambda>(xid, i, ss, _). length (fst ss) - i)") (auto dest!: rm_pduSession_length)

declare modify_sessions.simps [simp del]

definition rrc_gNB_send_NGAP_PDUSESSION_MODIFY_RESP ::
  "nat \<Rightarrow> gNB_RRC_INST \<Rightarrow> gNB_RRC_UE \<Rightarrow> (gNB_RRC_INST \<times> gNB_RRC_UE) res" where
  "rrc_gNB_send_NGAP_PDUSESSION_MODIFY_RESP xid rrc ue =
     (if pduSessions ue = [] then Inr (rrc, ue)
      else
        bindr (modify_sessions (of_nat xid) 0 (session_arr ue) (drb_arr ue) [] [])
          (\<lambda>(ss, a, done, failed).
             Inr (send (Ngap_pdusession_modify_resp (rrc_ue_id ue) done failed) rrc,
                  put_session_arr ss (put_drb_arr a ue))))"

fun rm_sessions ::
  "int list \<Rightarrow> rrc_pdu_session arr \<Rightarrow> drb arr \<Rightarrow> (rrc_pdu_session arr \<times> drb arr) res" where
  "rm_sessions [] ss a = Inr (ss, a)"
| "rm_sessions (i # is) ss a =
     bindr (rm_pduSession ss a i) (\<lambda>(_, ss, a). rm_sessions is ss a)"

definition released_sessions :: "nat \<Rightarrow> rrc_pdu_session list \<Rightarrow> int list" where
  "released_sessions xid ss =
     map pdusession_id (filter (\<lambda>s. p_xid s = of_nat xid \<and> p_status s = PDU_SESSION_STATUS_TORELEASE) ss)"

definition rrc_gNB_send_NGAP_PDUSESSION_RELEASE_RESPONSE ::
  "nat \<Rightarrow> gNB_RRC_INST \<Rightarrow> gNB_RRC_UE \<Rightarrow> (gNB_RRC_INST \<times> gNB_RRC_UE) res" where
  "rrc_gNB_send_NGAP_PDUSESSION_RELEASE_RESPONSE xid rrc ue =
     (let is = released_sessions xid (pduSessions ue) in
      bindr (assertr (int (length is) \<le> NR_MAX_NB_PDU_SESSIONS)) (\<lambda>_.
      bindr (rm_sessions is (session_arr ue) (drb_arr ue)) (\<lambda>(ss, a).
        Inr (send (Ngap_pdusession_release_resp (rrc_ue_id ue) is) rrc,
             put_session_arr ss (put_drb_arr a ue)))))"

section \<open>Properties of the lists\<close>

definition bearers_ok :: "drb list \<Rightarrow> bool" where
  "bearers_ok l \<longleftrightarrow> distinct (map drb_id l) \<and> (\<forall>d\<in>set l. 0 < drb_id d \<and> drb_id d \<le> MAX_DRBS_PER_UE)"

definition sessions_ok :: "rrc_pdu_session list \<Rightarrow> bool" where
  "sessions_ok ss \<longleftrightarrow> distinct (map pdusession_id ss) \<and>
     (\<forall>s\<in>set ss. 0 < pdusession_id s \<and> pdusession_id s \<le> NR_MAX_NB_PDU_SESSIONS \<and>
        (\<exists>qos. p_qos s = Some qos \<and> length qos \<le> MAX_QOS_FLOWS))"

lemma erase_first:
  assumes "find_index P l = Some k"
  shows "filter (\<lambda>x. \<not> P x) (take k l @ drop (Suc k) l) = filter (\<lambda>x. \<not> P x) l"
proof -
  from find_index_SomeD [OF assms] have k: "k < length l" "P (l ! k)" by auto
  then have "l = take k l @ l ! k # drop (Suc k) l" by (simp add: id_take_nth_drop)
  then have "filter (\<lambda>x. \<not> P x) l = filter (\<lambda>x. \<not> P x) (take k l @ l ! k # drop (Suc k) l)" by simp
  with k(2) show ?thesis by simp
qed

lemma erase_unique:
  assumes "distinct (map f l)" and "find_index (\<lambda>x. f x = i) l = Some k"
  shows "take k l @ drop (Suc k) l = filter (\<lambda>x. f x \<noteq> i) l"
proof -
  from find_index_SomeD [OF assms(2)] have k: "k < length l" "f (l ! k) = i" by auto
  have split: "l = take k l @ l ! k # drop (Suc k) l" using k(1) by (simp add: id_take_nth_drop)
  from assms(1) have "distinct (map f (take k l @ l ! k # drop (Suc k) l))" by (simp flip: split)
  then have "\<forall>x\<in>set (take k l @ drop (Suc k) l). f x \<noteq> i" using k(2) by (force simp: image_iff)
  then have "filter (\<lambda>x. f x \<noteq> i) (take k l @ drop (Suc k) l) = take k l @ drop (Suc k) l"
    by (rule filter_True)
  then show ?thesis using erase_first [OF assms(2)] by simp
qed

text \<open>The array of bearers has never been shrunk; at most 32 bearers do not need more than 64 places.\<close>

definition drb_arr_ok :: "drb arr \<Rightarrow> bool" where
  "drb_arr_ok a \<longleftrightarrow> bearers_ok (fst a) \<and> space_ok SIZEOF_drb_t (length (fst a)) (snd a) \<and>
     sp_cap (snd a) \<le> 64"

definition session_arr_ok :: "rrc_pdu_session arr \<Rightarrow> bool" where
  "session_arr_ok ss \<longleftrightarrow> sessions_ok (fst ss) \<and>
     space_ok SIZEOF_rrc_pdu_session_param_t (length (fst ss)) (snd ss)"

lemma bearers_ok_filter: "bearers_ok l \<Longrightarrow> bearers_ok (filter P l)"
  by (simp add: bearers_ok_def distinct_map_filter)

lemma bearers_ok_erase: "bearers_ok l \<Longrightarrow> bearers_ok (take k l @ drop (Suc k) l)"
proof -
  assume l: "bearers_ok l"
  have "set (take k l @ drop (Suc k) l) \<subseteq> set l" using set_take_subset set_drop_subset by fastforce
  moreover have "distinct (take k (map drb_id l) @ drop (Suc k) (map drb_id l))"
    using l by (auto simp: bearers_ok_def dest: set_take_disj_set_drop_if_distinct [of _ k "Suc k"])
  ultimately show ?thesis using l by (auto simp: bearers_ok_def take_map drop_map)
qed

lemma drb_cap: "drb_arr_ok a \<Longrightarrow> 32 < sp_cap (snd a) \<Longrightarrow> sp_cap (snd a) = 64"
  using space_ok_cap by (fastforce simp: drb_arr_ok_def)

lemma drb_erase:
  assumes "drb_arr_ok (l, sp)" "k < length l"
  shows "arr_erase SIZEOF_drb_t (l, sp) k =
    (if sp_cap sp = 64 \<and> length l = 16 then Inl Out_of_bounds else Inr (take k l @ drop (Suc k) l, sp))"
    and "\<not> (sp_cap sp = 64 \<and> length l = 16) \<Longrightarrow> drb_arr_ok (take k l @ drop (Suc k) l, sp)"
proof -
  have sp: "space_ok SIZEOF_drb_t (length l) sp" "sp_cap sp \<le> 64" "bearers_ok l"
    using assms(1) by (simp_all add: drb_arr_ok_def)
  have point: "shrink_point (length l) sp \<longleftrightarrow> sp_cap sp = 64 \<and> length l = 16"
    using drb_cap [OF assms(1)] by (auto simp: shrink_point_def)
  have len: "length (take k l @ drop (Suc k) l) = length l - 1" using assms(2) by simp
  show "arr_erase SIZEOF_drb_t (l, sp) k =
    (if sp_cap sp = 64 \<and> length l = 16 then Inl Out_of_bounds else Inr (take k l @ drop (Suc k) l, sp))"
    using arr_erase_keeps(1) [OF sp(1) assms(2)] arr_erase_overflow [OF sp(1) assms(2)] point
    by (simp add: SIZEOF_drb_t_def)
  show "\<not> (sp_cap sp = 64 \<and> length l = 16) \<Longrightarrow> drb_arr_ok (take k l @ drop (Suc k) l, sp)"
    using arr_erase_keeps(2) [OF sp(1) assms(2)] point sp bearers_ok_erase [OF sp(3), of k] len
    unfolding drb_arr_ok_def by simp
qed

lemma rm_drbs_of_eq:
  assumes "drb_arr_ok (l, sp)" "0 < i" "i \<le> NR_MAX_NB_PDU_SESSIONS"
  shows "rm_drbs_of i (l, sp) =
    (if sp_cap sp = 64 \<and> length (filter (\<lambda>d. drb_pdusession d \<noteq> i) l) < 16 then Inl Out_of_bounds
     else Inr (filter (\<lambda>d. drb_pdusession d \<noteq> i) l, sp))"
  using assms(1)
proof (induction l rule: length_induct)
  case (1 l)
  have find: "find_drb_by_pdusession_id l i = Inr (find_index (\<lambda>d. drb_pdusession d = i) l)"
    using assms(2,3) by (simp add: find_drb_by_pdusession_id_def assertr_def)
  show ?case
  proof (cases "find_index (\<lambda>d. drb_pdusession d = i) l")
    case None
    then have "\<forall>d\<in>set l. drb_pdusession d \<noteq> i" by (simp add: find_index_None_iff)
    then have "filter (\<lambda>d. drb_pdusession d \<noteq> i) l = l" by (rule filter_True)
    moreover have "sp_cap sp = 64 \<Longrightarrow> 16 \<le> length l" using 1(2) by (simp add: drb_arr_ok_def space_ok_def)
    ultimately show ?thesis using None find by (subst rm_drbs_of.simps) auto
  next
    case (Some k)
    let ?l = "take k l @ drop (Suc k) l"
    have k: "k < length l" "drb_pdusession (l ! k) = i" using find_index_SomeD [OF Some] by auto
    have fil: "filter (\<lambda>d. drb_pdusession d \<noteq> i) ?l = filter (\<lambda>d. drb_pdusession d \<noteq> i) l"
      using erase_first [OF Some] by simp
    have less: "length ?l < length l" "length (filter (\<lambda>d. drb_pdusession d \<noteq> i) ?l) \<le> length ?l"
      using k(1) length_filter_le by (simp, blast)
    show ?thesis
      using 1 Some find drb_erase [OF 1(2) k(1)] less fil
      by (subst rm_drbs_of.simps) (auto simp del: filter_append)
  qed
qed

text \<open>
  The array of sessions shrinks when 15 sessions are left in 64 places, 31 in 128, and so on; in
  the first two cases the sessions do not fit the new block.
\<close>

definition session_overflow :: "rrc_pdu_session arr \<Rightarrow> bool" where
  "session_overflow ss \<longleftrightarrow>
     (length (fst ss) = 16 \<and> sp_cap (snd ss) = 64) \<or> (length (fst ss) = 32 \<and> sp_cap (snd ss) = 128)"

lemma session_shrink_fits:
  assumes "space_ok SIZEOF_rrc_pdu_session_param_t k sp" "shrink_point k sp"
  shows "(k - 1) * SIZEOF_rrc_pdu_session_param_t \<le> (2 * k)\<^sup>2 \<longleftrightarrow> sp_cap sp \<noteq> 64 \<and> sp_cap sp \<noteq> 128"
proof -
  have k: "sp_cap sp = 4 * k" "32 < sp_cap sp" using assms(2) by (simp_all add: shrink_point_def)
  consider "k = 16" | "k = 32" | "64 \<le> k" using space_ok_cap [OF assms(1) k(2)] k(1) by auto
  then show ?thesis
  proof cases
    case 3
    then have "64 * k \<le> k * k" by (rule mult_le_mono1)
    moreover have "36 * (k - 1) \<le> 64 * k" by simp
    ultimately have "36 * (k - 1) \<le> k * k" by linarith
    with 3 show ?thesis using k(1) by (simp add: SIZEOF_rrc_pdu_session_param_t_def power2_eq_square)
  qed (use k in \<open>simp_all add: SIZEOF_rrc_pdu_session_param_t_def\<close>)
qed

lemma session_erase:
  assumes "session_arr_ok ss" "k < length (fst ss)"
  shows "if session_overflow ss then arr_erase SIZEOF_rrc_pdu_session_param_t ss k = Inl Out_of_bounds
    else \<exists>sp. arr_erase SIZEOF_rrc_pdu_session_param_t ss k =
        Inr (take k (fst ss) @ drop (Suc k) (fst ss), sp) \<and>
      (sp_cap (snd ss) \<le> 128 \<longrightarrow> sp = snd ss \<and> space_ok SIZEOF_rrc_pdu_session_param_t (length (fst ss) - 1) sp)"
proof -
  obtain l sp where ss: "ss = (l, sp)" by (cases ss)
  have sp: "space_ok SIZEOF_rrc_pdu_session_param_t (length l) sp" and k: "k < length l"
    using assms by (simp_all add: session_arr_ok_def ss)
  have over: "session_overflow ss \<longleftrightarrow> shrink_point (length l) sp \<and> (sp_cap sp = 64 \<or> sp_cap sp = 128)"
    by (auto simp: session_overflow_def shrink_point_def ss)
  show ?thesis
  proof (cases "shrink_point (length l) sp")
    case False
    then show ?thesis using over arr_erase_keeps [OF sp k] by (auto simp: ss)
  next
    case True
    then have "32 < sp_cap sp" by (simp add: shrink_point_def)
    from space_ok_cap [OF sp this] have cap: "sp_cap sp \<le> 128 \<longrightarrow> session_overflow ss" using over True by auto
    obtain m where m: "length l = Suc m" using k by (cases "length l") auto
    have "arr_erase SIZEOF_rrc_pdu_session_param_t ss k =
        (if session_overflow ss then Inl Out_of_bounds
         else Inr (take k l @ drop (Suc k) l, \<lparr>sp_cap = 2 * Suc m, sp_block = (2 * Suc m)\<^sup>2\<rparr>))"
      using over True session_shrink_fits [OF sp True] arr_erase_eq [OF sp k]
        space_shrink_eq(1) [OF sp [unfolded m]] by (simp add: ss m)
    then show ?thesis using cap by (auto simp: ss)
  qed
qed

lemma rm_pduSession_eq:
  assumes ss: "session_arr_ok ss" and a: "drb_arr_ok a" and i: "i \<in> pdusession_id ` set (fst ss)"
  defines "ss' \<equiv> filter (\<lambda>s. pdusession_id s \<noteq> i) (fst ss)"
    and "l' \<equiv> filter (\<lambda>d. drb_pdusession d \<noteq> i) (fst a)"
  shows "if sp_cap (snd a) = 64 \<and> length l' < 16 \<or> session_overflow ss
    then rm_pduSession ss a i = Inl Out_of_bounds
    else \<exists>sp. rm_pduSession ss a i = Inr (True, (ss', sp), (l', snd a)) \<and>
      (sp_cap (snd ss) \<le> 128 \<longrightarrow> session_arr_ok (ss', sp)) \<and> drb_arr_ok (l', snd a)"
proof -
  obtain k where k: "find_index (\<lambda>s. pdusession_id s = i) (fst ss) = Some k"
    using i find_index_None_iff [of "\<lambda>s. pdusession_id s = i" "fst ss"] by auto
  have sok: "sessions_ok (fst ss)" using ss by (simp add: session_arr_ok_def)
  have range: "0 < i" "i \<le> NR_MAX_NB_PDU_SESSIONS" using sok i by (auto simp: sessions_ok_def)
  have less: "k < length (fst ss)" using find_index_SomeD [OF k] by simp
  then obtain qos where qos: "p_qos (fst ss ! k) = Some qos"
    using sok nth_mem by (fastforce simp: sessions_ok_def)
  have era: "take k (fst ss) @ drop (Suc k) (fst ss) = ss'"
    using erase_unique [OF _ k] sok by (simp add: sessions_ok_def ss'_def)
  have "length ss' = length (fst ss) - 1" using less by (simp flip: era)
  moreover have "sessions_ok ss'" using sok by (simp add: sessions_ok_def ss'_def distinct_map_filter)
  moreover have "rm_drbs_of i a =
      (if sp_cap (snd a) = 64 \<and> length l' < 16 then Inl Out_of_bounds else Inr (l', snd a))"
    using rm_drbs_of_eq [of "fst a" "snd a" i] a range by (simp add: l'_def)
  moreover have "drb_arr_ok (l', snd a)" if "\<not> (sp_cap (snd a) = 64 \<and> length l' < 16)"
    using that a drb_cap [OF a] le_less_trans [OF length_filter_le, of "fst a" "sp_cap (snd a)"]
    by (auto simp: drb_arr_ok_def space_ok_def l'_def bearers_ok_filter)
  ultimately show ?thesis
    using k qos session_erase [OF ss less] era
    by (auto simp: rm_pduSession_def assert_some_def session_arr_ok_def split: if_splits)
qed

lemma get_drb_in_range:
  "0 < i \<Longrightarrow> i \<le> MAX_DRBS_PER_UE \<Longrightarrow> get_drb l i = Inr (find (\<lambda>d. drb_id d = i) l)"
  by (simp add: get_drb_def assertr_def)

lemma first_free_drb_eq:
  assumes "\<forall>i\<in>set is. 0 < i \<and> i \<le> MAX_DRBS_PER_UE"
  shows "first_free_drb l is = Inr (find (\<lambda>i. i \<notin> drb_id ` set l) is)"
  using assms
proof (induction "is")
  case (Cons i "is")
  have "(find (\<lambda>d. drb_id d = i) l = None) = (i \<notin> drb_id ` set l)"
    by (auto simp: find_None_iff)
  with Cons show ?case by (simp add: get_drb_in_range)
qed simp

lemma nr_rrc_add_drb_eq:
  assumes p: "0 < p" "p \<le> NR_MAX_NB_PDU_SESSIONS" and sp: "space_ok SIZEOF_drb_t (length l) sp"
  shows "nr_rrc_add_drb (l, sp) p =
         Inr (case find (\<lambda>i. i \<notin> drb_id ` set l) [1..MAX_DRBS_PER_UE] of
                None \<Rightarrow> (None, (l, sp))
              | Some i \<Rightarrow>
                  let d = \<lparr>drb_id = i, drb_pdusession = p, du_tunnel_config = no_tunnel\<rparr> in
                  (Some d, (l @ [d], space_expand SIZEOF_drb_t (length l) sp)))"
proof -
  have free: "first_free_drb l [1..MAX_DRBS_PER_UE] =
        Inr (find (\<lambda>i. i \<notin> drb_id ` set l) [1..MAX_DRBS_PER_UE])"
    by (intro first_free_drb_eq) auto
  have found: "find (\<lambda>d. drb_id d = drb_id e) (l @ [e]) = Some e"
    if "drb_id e \<notin> drb_id ` set l" for e :: drb
    using that by (induction l) auto
  show ?thesis
  proof (cases "find (\<lambda>i. i \<notin> drb_id ` set l) [1..MAX_DRBS_PER_UE]")
    case (Some i)
    then have i: "i \<notin> drb_id ` set l" "0 < i" "i \<le> MAX_DRBS_PER_UE" by (auto simp: find_Some_iff)
    let ?e = "\<lparr>drb_id = i, drb_pdusession = p, du_tunnel_config = no_tunnel\<rparr>"
    have "get_drb (l @ [?e]) i = Inr (Some ?e)"
      using i found [of ?e] by (simp add: get_drb_in_range)
    then show ?thesis using free Some p by (simp add: nr_rrc_add_drb_def assertr_def Let_def arr_push_ok [OF sp])
  qed (use free p in \<open>simp add: nr_rrc_add_drb_def assertr_def\<close>)
qed

text \<open>The least free identity: found while a free one is left.\<close>

lemma find_least:
  assumes "find (\<lambda>i. i \<notin> A) [1..m] = Some (k::int)"
  shows "k \<notin> A \<and> 1 \<le> k \<and> k \<le> m \<and> (\<forall>j. 1 \<le> j \<and> j < k \<longrightarrow> j \<in> A)"
proof -
  from assms obtain n where n: "n < length [1..m]" "[1..m] ! n \<notin> A" "k = [1..m] ! n"
    "\<forall>j<n. [1..m] ! j \<in> A" by (auto simp: find_Some_iff)
  then have k: "k = 1 + int n" by simp
  have "j \<in> A" if "1 \<le> j" "j < k" for j
  proof -
    have "[1..m] ! nat (j - 1) = j" using that n(1) k by simp
    moreover have "nat (j - 1) < n" using that k by simp
    ultimately show ?thesis using n(4) by metis
  qed
  with n k show ?thesis by simp
qed

definition added_drb :: "drb list \<Rightarrow> int \<Rightarrow> drb option \<Rightarrow> drb list \<Rightarrow> bool" where
  "added_drb l p r l' \<longleftrightarrow>
     (case r of
        None \<Rightarrow> l' = l \<and> drb_id ` set l = {1..MAX_DRBS_PER_UE}
      | Some d \<Rightarrow> l' = l @ [d] \<and> drb_pdusession d = p \<and> drb_id d \<notin> drb_id ` set l \<and>
          (\<forall>j. 1 \<le> j \<and> j < drb_id d \<longrightarrow> j \<in> drb_id ` set l))"

lemma all_bearers_used:
  assumes "bearers_ok l"
  shows "length l \<le> nat MAX_DRBS_PER_UE"
    and "find (\<lambda>i. i \<notin> drb_id ` set l) [1..MAX_DRBS_PER_UE] = None \<Longrightarrow> drb_id ` set l = {1..MAX_DRBS_PER_UE}"
    and "drb_id ` set l = {1..MAX_DRBS_PER_UE} \<Longrightarrow> int (length l) = MAX_DRBS_PER_UE"
proof -
  have sub: "drb_id ` set l \<subseteq> {1..MAX_DRBS_PER_UE}" using assms by (auto simp: bearers_ok_def)
  have card: "card (drb_id ` set l) = length l"
    using assms distinct_card [of "map drb_id l"] by (simp add: bearers_ok_def)
  then show "length l \<le> nat MAX_DRBS_PER_UE" using card_mono [OF _ sub] by simp
  show "drb_id ` set l = {1..MAX_DRBS_PER_UE}"
    if "find (\<lambda>i. i \<notin> drb_id ` set l) [1..MAX_DRBS_PER_UE] = None"
    using that sub by (auto simp: find_None_iff)
  show "int (length l) = MAX_DRBS_PER_UE" if "drb_id ` set l = {1..MAX_DRBS_PER_UE}"
    using card unfolding that by (simp add: MAX_DRBS_PER_UE_def)
qed

lemma nr_rrc_add_drb_ok:
  assumes a: "drb_arr_ok a" and p: "0 < p" "p \<le> NR_MAX_NB_PDU_SESSIONS"
  shows "\<exists>r a'. nr_rrc_add_drb a p = Inr (r, a') \<and> drb_arr_ok a' \<and> added_drb (fst a) p r (fst a')"
proof -
  obtain l sp where lsp: "a = (l, sp)" by (cases a)
  have l: "bearers_ok l" "space_ok SIZEOF_drb_t (length l) sp" "sp_cap sp \<le> 64"
    using a by (simp_all add: drb_arr_ok_def lsp)
  note eq = nr_rrc_add_drb_eq [OF p l(2)]
  show ?thesis
  proof (cases "find (\<lambda>i. i \<notin> drb_id ` set l) [1..MAX_DRBS_PER_UE]")
    case None
    then show ?thesis using eq a all_bearers_used(2) [OF l(1) None] by (simp add: added_drb_def lsp)
  next
    case (Some k)
    note k = find_least [OF Some]
    let ?d = "\<lparr>drb_id = k, drb_pdusession = p, du_tunnel_config = no_tunnel\<rparr>"
    have b: "bearers_ok (l @ [?d])" using k l(1) by (auto simp: bearers_ok_def)
    have "length l < 32" using all_bearers_used(1) [OF b] by (simp add: MAX_DRBS_PER_UE_def)
    then have "drb_arr_ok (l @ [?d], space_expand SIZEOF_drb_t (length l) sp)"
      using b l(3) space_expand_ok [OF l(2)] by (auto simp: drb_arr_ok_def space_expand_def)
    then show ?thesis using eq Some k by (simp add: added_drb_def Let_def lsp)
  qed
qed

lemma rm_pduSession_unknown: "i \<notin> pdusession_id ` set (fst ss) \<Longrightarrow> rm_pduSession ss a i = Inr (False, ss, a)"
proof -
  assume "i \<notin> pdusession_id ` set (fst ss)"
  then have "find_index (\<lambda>s. pdusession_id s = i) (fst ss) = None" by (auto simp: find_index_None_iff)
  then show ?thesis by (simp add: rm_pduSession_def)
qed

text \<open>
  C38: The arrays of bearers and sessions of a UE. Both are well-formed and have not been shrunk
  yet. Adding a bearer takes the least unused identity from 1 to 32 and fails exactly when all are
  in use. Removing an unknown session changes nothing. Removing a session that exists removes
  exactly this session and every bearer of it, whatever their positions, except that the erasure
  writes behind the block of an array that it shrinks: of the array of bearers when it has 64 places
  (the UE has had 32 bearers at a time) and fewer than 16 bearers remain, of the array of sessions
  when it has 64 places and 16 sessions or 128 places and 32 sessions. Identities stay distinct and
  in range, and the arrays well-formed (that of sessions unless it has more than 128 places).
\<close>

theorem bearer_lists_correct:
  assumes "drb_arr_ok a" and "session_arr_ok ss"
  shows "(\<forall>p. 0 < p \<and> p \<le> NR_MAX_NB_PDU_SESSIONS \<longrightarrow>
            (\<exists>r a'. nr_rrc_add_drb a p = Inr (r, a') \<and> drb_arr_ok a' \<and> added_drb (fst a) p r (fst a'))) \<and>
         (\<forall>i. i \<notin> pdusession_id ` set (fst ss) \<longrightarrow> rm_pduSession ss a i = Inr (False, ss, a)) \<and>
         (\<forall>i \<in> pdusession_id ` set (fst ss).
            let ss' = filter (\<lambda>s. pdusession_id s \<noteq> i) (fst ss);
                l' = filter (\<lambda>d. drb_pdusession d \<noteq> i) (fst a) in
            if sp_cap (snd a) = 64 \<and> length l' < 16 \<or>
               length (fst ss) = 16 \<and> sp_cap (snd ss) = 64 \<or> length (fst ss) = 32 \<and> sp_cap (snd ss) = 128
            then rm_pduSession ss a i = Inl Out_of_bounds
            else \<exists>sp. rm_pduSession ss a i = Inr (True, (ss', sp), (l', snd a)) \<and> drb_arr_ok (l', snd a) \<and>
              sessions_ok ss' \<and> (sp_cap (snd ss) \<le> 128 \<longrightarrow> session_arr_ok (ss', sp)))"
proof (intro conjI allI ballI impI)
  fix p :: int
  assume "0 < p \<and> p \<le> NR_MAX_NB_PDU_SESSIONS"
  then show "\<exists>r a'. nr_rrc_add_drb a p = Inr (r, a') \<and> drb_arr_ok a' \<and> added_drb (fst a) p r (fst a')"
    using nr_rrc_add_drb_ok [OF assms(1)] by blast
next
  fix i assume i: "i \<in> pdusession_id ` set (fst ss)"
  have "sessions_ok (filter (\<lambda>s. pdusession_id s \<noteq> i) (fst ss))"
    using assms(2) by (simp add: session_arr_ok_def sessions_ok_def distinct_map_filter)
  then show "let ss' = filter (\<lambda>s. pdusession_id s \<noteq> i) (fst ss);
          l' = filter (\<lambda>d. drb_pdusession d \<noteq> i) (fst a) in
      if sp_cap (snd a) = 64 \<and> length l' < 16 \<or>
         length (fst ss) = 16 \<and> sp_cap (snd ss) = 64 \<or> length (fst ss) = 32 \<and> sp_cap (snd ss) = 128
      then rm_pduSession ss a i = Inl Out_of_bounds
      else \<exists>sp. rm_pduSession ss a i = Inr (True, (ss', sp), (l', snd a)) \<and> drb_arr_ok (l', snd a) \<and>
        sessions_ok ss' \<and> (sp_cap (snd ss) \<le> 128 \<longrightarrow> session_arr_ok (ss', sp))"
    using rm_pduSession_eq [OF assms(2,1) i] unfolding Let_def session_overflow_def by (auto split: if_splits)
qed (rule rm_pduSession_unknown)

definition sample_bearers :: "nat \<Rightarrow> drb list" where
  "sample_bearers n =
     map (\<lambda>i. \<lparr>drb_id = i, drb_pdusession = if i \<le> 15 then 10 else 11, du_tunnel_config = no_tunnel\<rparr>) [1..int n]"

definition sample_sessions :: "rrc_pdu_session list" where
  "sample_sessions =
     map (\<lambda>i. new_session i [] (Some ([], init_space SIZEOF_nr_rrc_qos_t))) [10, 11]"

text \<open>
  A UE with 32 bearers, 15 of one session and 17 of the other: releasing the second session
  overflows the array of bearers, releasing the first one does not.
\<close>

theorem bearer_lists_correct_witness:
  "rm_pduSession (sample_sessions, init_space SIZEOF_rrc_pdu_session_param_t)
     (sample_bearers 32, \<lparr>sp_cap = 64, sp_block = 64 * SIZEOF_drb_t\<rparr>) 11 = Inl Out_of_bounds \<and>
   (\<exists>ss a. rm_pduSession (sample_sessions, init_space SIZEOF_rrc_pdu_session_param_t)
     (sample_bearers 32, \<lparr>sp_cap = 64, sp_block = 64 * SIZEOF_drb_t\<rparr>) 10 = Inr (True, ss, a) \<and>
     map drb_id (fst a) = [16..32])"
proof -
  let ?a = "(sample_bearers 32, \<lparr>sp_cap = 64, sp_block = 64 * SIZEOF_drb_t\<rparr>)"
  let ?ss = "(sample_sessions, init_space SIZEOF_rrc_pdu_session_param_t)"
  have b: "sample_bearers 32 = map (\<lambda>i. \<lparr>drb_id = i, drb_pdusession = if i \<le> 15 then 10 else 11,
      du_tunnel_config = no_tunnel\<rparr>) [1..32]" by (simp add: sample_bearers_def)
  have "bearers_ok (sample_bearers 32)"
    unfolding bearers_ok_def b by (auto simp: MAX_DRBS_PER_UE_def comp_def)
  moreover have "space_ok SIZEOF_drb_t 32 \<lparr>sp_cap = 64, sp_block = 64 * SIZEOF_drb_t\<rparr>"
    unfolding space_ok_def by (auto simp: MIN_SIZE_def intro: exI [of _ 3])
  ultimately have a: "drb_arr_ok ?a" by (simp add: drb_arr_ok_def b)
  have sp: "space_ok SIZEOF_rrc_pdu_session_param_t (Suc (Suc 0)) (init_space SIZEOF_rrc_pdu_session_param_t)"
    unfolding space_ok_def by (auto simp: init_space_def MIN_SIZE_def intro: exI [of _ 0])
  have ss: "session_arr_ok ?ss"
    using sp by (simp add: session_arr_ok_def sessions_ok_def sample_sessions_def new_session_def
      NR_MAX_NB_PDU_SESSIONS_def)
  have f: "length (filter (\<lambda>d. drb_pdusession d \<noteq> 11) (sample_bearers 32)) = 15"
    "map drb_id (filter (\<lambda>d. drb_pdusession d \<noteq> 10) (sample_bearers 32)) = [16..32]"
    by (simp_all add: sample_bearers_def upto.simps)
  have len: "length (filter (\<lambda>d. drb_pdusession d \<noteq> 10) (sample_bearers 32)) = 17"
    using arg_cong [OF f(2), of length] by simp
  have s: "pdusession_id ` set sample_sessions = {10, 11}" "length sample_sessions = 2"
    by (auto simp: sample_sessions_def new_session_def)
  note r = bearer_lists_correct [OF a ss, THEN conjunct2, THEN conjunct2, rule_format]
  show ?thesis
    using r [of 11] r [of 10] s f len by (auto simp: Let_def)
qed

section \<open>Failed sessions in the modify response\<close>

definition modified :: "byte \<Rightarrow> rrc_pdu_session \<Rightarrow> bool" where
  "modified x s \<longleftrightarrow> p_xid s = x \<and> p_status s = PDU_SESSION_STATUS_TOMODIFY"

definition modify_status :: "byte \<Rightarrow> rrc_pdu_session \<Rightarrow> rrc_pdu_session" where
  "modify_status x s =
     (if modified x s then s\<lparr>p_status := PDU_SESSION_STATUS_ESTABLISHED, p_qos := map_option clear_pending (p_qos s)\<rparr>
      else s)"

definition modify_report :: "rrc_pdu_session \<Rightarrow> int \<times> byte list" where
  "modify_report s = (pdusession_id s, pending_qfis (the (p_qos s)))"

lemma modify_sessions_eq:
  assumes "\<forall>s\<in>set ss. p_status s = PDU_SESSION_STATUS_FAILED \<longrightarrow> p_xid s \<noteq> x"
    and "\<forall>s\<in>set ss. modified x s \<longrightarrow> (\<exists>qos. p_qos s = Some qos \<and> length qos \<le> MAX_QOS_FLOWS)"
  shows "modify_sessions x (length pre) (pre @ ss, sp) l d f =
         Inr ((pre @ map (modify_status x) ss, sp), l, d @ map modify_report (filter (modified x) ss), f)"
  using assms
proof (induction ss arbitrary: pre d)
  case Nil
  show ?case by (subst modify_sessions.simps) simp
next
  case (Cons s ss)
  have IH: "modify_sessions x (Suc (length pre)) (pre @ s' # ss, sp) l d' f =
      Inr ((pre @ s' # map (modify_status x) ss, sp), l,
           d' @ map modify_report (filter (modified x) ss), f)" for s' d'
    using Cons.IH [of "pre @ [s']" d'] Cons.prems by simp
  show ?case
  proof (cases "modified x s")
    case True
    then obtain qos where "p_qos s = Some qos" "length qos \<le> MAX_QOS_FLOWS" using Cons.prems by auto
    moreover have "length (pending_qfis qos) \<le> length qos" by (simp add: pending_qfis_def)
    ultimately show ?thesis
      using True
      by (subst modify_sessions.simps)
        (simp add: Let_def IH modified_def modify_status_def modify_report_def list_update_append assert_some_def
          assertr_def)
  next
    case False
    then show ?thesis
      using Cons.prems
      by (subst modify_sessions.simps) (auto simp: Let_def IH modified_def modify_status_def)
  qed
qed

lemma xid_not_new: "xid < NR_RRC_TRANSACTION_IDENTIFIER_NUMBER \<Longrightarrow> (of_nat xid :: byte) \<noteq> -1"
proof -
  assume "xid < NR_RRC_TRANSACTION_IDENTIFIER_NUMBER"
  then have "xid \<in> {0, 1, 2, 3}" by (auto simp: NR_RRC_TRANSACTION_IDENTIFIER_NUMBER_def)
  then show ?thesis by auto
qed

text \<open>
  A session of a modify request that the UE does not have is entered into its list as
  failed, to be reported as failed; it carries the transaction identifier that
  \<open>add_pduSession\<close> gives every new session, which no transaction has. So the response never
  lists a failed session and never removes one: with failed sessions of this kind only, it
  reports exactly the modified sessions of the transaction as modified, an empty list of failed
  ones, and every failed session stays in the list of the UE.
\<close>

lemma modify_resp_omits_failed:
  assumes "pduSessions ue \<noteq> []" and "xid < NR_RRC_TRANSACTION_IDENTIFIER_NUMBER"
    and "\<forall>s\<in>set (pduSessions ue). p_status s = PDU_SESSION_STATUS_FAILED \<longrightarrow> p_xid s = -1"
    and "\<forall>s\<in>set (pduSessions ue). modified (of_nat xid) s \<longrightarrow>
      (\<exists>qos. p_qos s = Some qos \<and> length qos \<le> MAX_QOS_FLOWS)"
  shows "\<exists>ue'. rrc_gNB_send_NGAP_PDUSESSION_MODIFY_RESP xid rrc ue =
           Inr (send (Ngap_pdusession_modify_resp (rrc_ue_id ue)
                  (map modify_report (filter (modified (of_nat xid)) (pduSessions ue))) []) rrc, ue') \<and>
         drbs ue' = drbs ue \<and>
         pduSessions ue' = map (modify_status (of_nat xid)) (pduSessions ue) \<and>
         (\<forall>s\<in>set (pduSessions ue). p_status s = PDU_SESSION_STATUS_FAILED \<longrightarrow>
            s \<in> set (pduSessions ue'))"
proof -
  have "modify_sessions (of_nat xid) 0 (session_arr ue) (drb_arr ue) [] [] =
      Inr ((map (modify_status (of_nat xid)) (pduSessions ue), sessions_space ue), drb_arr ue,
           map modify_report (filter (modified (of_nat xid)) (pduSessions ue)), [])"
    using modify_sessions_eq [of "pduSessions ue" "of_nat xid" "[]"] xid_not_new [OF assms(2)] assms(3,4) by simp
  moreover have "s \<in> set (map (modify_status (of_nat xid)) (pduSessions ue))"
    if "s \<in> set (pduSessions ue)" "p_status s = PDU_SESSION_STATUS_FAILED" for s
    using that by (force simp: modify_status_def modified_def)
  ultimately show ?thesis
    using assms(1)
    by (simp add: rrc_gNB_send_NGAP_PDUSESSION_MODIFY_RESP_def put_session_arr_def put_drb_arr_def)
qed

end
