(* ===== verification/Nr_Rrc_F1_Request.thy ===== *)
theory Nr_Rrc_F1_Request
  imports Nr_Rrc_Cell Nr_Rrc_Bearer
begin

text \<open>
  What the CU puts into a request to set up the context of a UE at another DU
  (\<open>RRC/NR/rrc_gNB.c\<close>): the bearers of the UE with the flows mapped to them, and the measurement
  configuration of the target cell. Both are full of assertions: every bearer needs a session and
  a flow, every flow parameters in their ranges, the cell a measurement timing. The lemmas give
  conditions under which all of them hold.

  The bit rates, the tunnel of the CU-UP and the RLC mode in the request are not recorded. The PDCP
  configuration of a bearer, whose sequence number size the code asserts to be 12 or 18, is a copy
  of that of the instance, which only takes these two values from the configuration file.
\<close>

section \<open>Bearers\<close>

definition MAX_FIVEQI :: u16 where
  "MAX_FIVEQI = 255"

text \<open>The position of the flow with an identifier.\<close>

definition find_qos :: "nr_rrc_qos list \<Rightarrow> int \<Rightarrow> nat option" where
  "find_qos flows qfi = find_index (\<lambda>f. uint (qp_qfi (qf_qos f)) = qfi) flows"

definition nr_rrc_get_f1_qos_flow_param :: "qos_parameter \<Rightarrow> f1ap_qos_flow_param res" where
  "nr_rrc_get_f1_qos_flow_param q =
     bindr
       (case qp_characteristics q of
          DYNAMIC _ prio pdb scalar exponent \<Rightarrow>
            bindr (assertr (1 \<le> prio \<and> prio \<le> 127)) (\<lambda>_.
            bindr (assertr (0 \<le> pdb \<and> pdb \<le> 1023)) (\<lambda>_.
            bindr (assertr (scalar \<le> 9)) (\<lambda>_.
            bindr (assertr (exponent \<le> 9)) (\<lambda>_.
              Inr (DYNAMIC None prio pdb scalar exponent)))))
        | NON_DYNAMIC v _ \<Rightarrow> bindr (assertr (v \<le> MAX_FIVEQI)) (\<lambda>_. Inr (NON_DYNAMIC v None))) (\<lambda>c.
     let a = qp_arp q in
     bindr (assertr (1 \<le> arp_priority_level a \<and> arp_priority_level a \<le> 15)) (\<lambda>_.
       Inr \<lparr>fq_characteristics = c,
            fq_arp = \<lparr>arp_priority_level = arp_priority_level a,
              pre_emp_capability = (if pre_emp_capability a = 1 then 1 else 0),
              pre_emp_vulnerability = (if pre_emp_vulnerability a = 1 then 1 else 0)\<rparr>\<rparr>))"

definition arp_level :: "f1ap_qos_flow_param \<Rightarrow> byte" where
  "arp_level p = arp_priority_level (fq_arp p)"

definition fill_f1_drb_qos :: "f1ap_qos_flow_param \<Rightarrow> f1ap_qos_flow_param res" where
  "fill_f1_drb_qos p = bindr (assertr (1 \<le> arp_level p)) (\<lambda>_. Inr p)"

text \<open>The loop over the flows of a bearer keeps the first one with the highest priority.\<close>

fun f1_flows ::
  "nr_rrc_qos list \<Rightarrow> byte list \<Rightarrow> f1ap_qos_flow_param option \<Rightarrow>
     ((byte \<times> f1ap_qos_flow_param) list \<times> f1ap_qos_flow_param option) res" where
  "f1_flows flows [] best = Inr ([], best)"
| "f1_flows flows (qfi # qfis) best =
     bindr (assert_some (find_qos flows (uint qfi))) (\<lambda>k.
     bindr (nr_rrc_get_f1_qos_flow_param (qf_qos (flows ! k))) (\<lambda>p.
     bindr (f1_flows flows qfis
              (case best of None \<Rightarrow> Some p
               | Some b \<Rightarrow> if arp_level p < arp_level b then Some p else best)) (\<lambda>(fs, best).
       Inr ((qfi, p) # fs, best))))"

definition fill_f1_drb_info_nr ::
  "nr_rrc_qos list \<Rightarrow> byte list \<Rightarrow> ((byte \<times> f1ap_qos_flow_param) list \<times> f1ap_qos_flow_param) res" where
  "fill_f1_drb_info_nr flows qfis =
     bindr (f1_flows flows qfis None) (\<lambda>(fs, best).
     bindr (assert_some best) (\<lambda>b.
     bindr (fill_f1_drb_qos b) (\<lambda>q. Inr (fs, q))))"

definition fill_f1_drb_to_be_setup :: "drb \<Rightarrow> nr_rrc_qos list \<Rightarrow> byte list \<Rightarrow> f1ap_drb_to_setup res" where
  "fill_f1_drb_to_be_setup d flows qfis =
     bindr (assertr (qfis \<noteq> [])) (\<lambda>_.
     bindr (assertr (length qfis \<le> MAX_QOS_FLOWS)) (\<lambda>_.
     bindr (fill_f1_drb_info_nr flows qfis) (\<lambda>(fs, q).
       Inr \<lparr>ds_id = drb_id d, ds_flows = fs, ds_qos = q\<rparr>)))"

definition qfis_on :: "nr_rrc_qos list \<Rightarrow> int \<Rightarrow> byte list" where
  "qfis_on flows i = map (qp_qfi \<circ> qf_qos) (filter (\<lambda>f. qf_drb_id f = i) flows)"

fun f1_drbs_from :: "gNB_RRC_UE \<Rightarrow> nat \<Rightarrow> drb list \<Rightarrow> f1ap_drb_to_setup list res" where
  "f1_drbs_from ue nb_drb [] = Inr []"
| "f1_drbs_from ue nb_drb (d # l) =
     bindr (assertr (int nb_drb < MAX_DRBS_PER_UE)) (\<lambda>_.
     bindr (find_pduSession_from_drbId ue (drb_id d)) (\<lambda>pdu.
     bindr (assert_some pdu) (\<lambda>pdu.
     bindr (assert_some (p_qos pdu)) (\<lambda>flows.
     let qfis = qfis_on flows (drb_id d) in
     bindr (assertr (length qfis \<le> MAX_QOS_FLOWS)) (\<lambda>_.
     bindr (assertr (qfis \<noteq> [])) (\<lambda>_.
     bindr (fill_f1_drb_to_be_setup d flows qfis) (\<lambda>b.
     bindr (f1_drbs_from ue (nb_drb + 1) l) (\<lambda>bs. Inr (b # bs)))))))))"

definition rrc_fill_f1_drb_to_setup :: "gNB_RRC_UE \<Rightarrow> f1ap_drb_to_setup list res" where
  "rrc_fill_f1_drb_to_setup ue = f1_drbs_from ue 0 (drbs ue)"

section \<open>Measurement configuration\<close>

text \<open>
  What \<open>nr_rrc_get_measconfig\<close> gives to the ASN.1 code that builds the configuration: the timing,
  the band and identity of the cell, the reports for event A3 with their identities, and for every
  neighbour the identity of its report, -1 without one. The reports for periodic measurements and
  for event A2 come from the configuration file as they are and belong to that code.
\<close>

record meas_config =
  mc_timing :: int
  mc_band :: int
  mc_pci :: u16
  mc_a3_reports :: "(nr_a3_event \<times> int) list"
  mc_neighbours :: "nr_neighbour_cell list"
  mc_a3_ids :: "int list"

text \<open>The loop over the neighbours: the default report, identity 3, is added only once.\<close>

fun a3_reports ::
  "gNB_RRC_INST \<Rightarrow> int \<Rightarrow> bool \<Rightarrow> nr_neighbour_cell list \<Rightarrow> ((nr_a3_event \<times> int) list \<times> int list) res"
where
  "a3_reports rrc i default_a3_added [] = Inr ([], [])"
| "a3_reports rrc i default_a3_added (n # ns) =
     bindr (get_a3_configuration rrc (physicalCellId n)) (\<lambda>e.
     case e of
       Some e \<Rightarrow>
         bindr (a3_reports rrc (i + 1) default_a3_added ns) (\<lambda>(rs, ids).
           Inr ((e, i + 4) # rs, (i + 4) # ids))
     | None \<Rightarrow>
         if default_a3_added
         then bindr (a3_reports rrc (i + 1) default_a3_added ns) (\<lambda>(rs, ids). Inr (rs, 3 # ids))
         else
           bindr (get_a3_configuration rrc (-1)) (\<lambda>e.
           case e of
             None \<Rightarrow> bindr (a3_reports rrc (i + 1) False ns) (\<lambda>(rs, ids). Inr (rs, -1 # ids))
           | Some e \<Rightarrow> bindr (a3_reports rrc (i + 1) True ns) (\<lambda>(rs, ids). Inr ((e, 3) # rs, 3 # ids))))"

definition nr_rrc_get_measconfig :: "gNB_RRC_INST \<Rightarrow> u64 \<Rightarrow> meas_config option res" where
  "nr_rrc_get_measconfig rrc nr_cellid =
     bindr (assert_some (get_cell_by_cell_id rrc nr_cellid)) (\<lambda>p.
     bindr (deref_cell rrc (Some p)) (\<lambda>c.
     case c_mtc c of
       None \<Rightarrow> Inr None
     | Some mtc \<Rightarrow>
         let band = (case c_mode c of NR_MODE_TDD f \<Rightarrow> band f | NR_MODE_FDD dl _ \<Rightarrow> band dl);
             neighbours =
               (case get_neighbour_cell_config rrc (c_cell_id c) of
                  Some cfg \<Rightarrow> if a3_event_list rrc = None \<or> a3_event_list rrc = Some [] then []
                              else neighbour_cells cfg
                | None \<Rightarrow> []) in
         bindr (a3_reports rrc 0 False neighbours) (\<lambda>(rs, ids).
           Inr (Some \<lparr>mc_timing = mtc, mc_band = band, mc_pci = c_pci c, mc_a3_reports = rs,
                      mc_neighbours = neighbours, mc_a3_ids = ids\<rparr>))))"

section \<open>When the request can be filled\<close>

definition f1_flow_ok :: "qos_parameter \<Rightarrow> bool" where
  "f1_flow_ok q \<longleftrightarrow>
     (case qp_characteristics q of
        DYNAMIC _ prio pdb scalar exponent \<Rightarrow>
          1 \<le> prio \<and> prio \<le> 127 \<and> 0 \<le> pdb \<and> pdb \<le> 1023 \<and> scalar \<le> 9 \<and> exponent \<le> 9
      | NON_DYNAMIC v _ \<Rightarrow> v \<le> MAX_FIVEQI) \<and>
     1 \<le> arp_priority_level (qp_arp q) \<and> arp_priority_level (qp_arp q) \<le> 15"

text \<open>
  Every bearer belongs to a session with an initialised array of at most 64 flows, one of which is
  mapped to the bearer, and the parameters of the flows are in their ranges.
\<close>

definition f1_bearers_ok :: "gNB_RRC_UE \<Rightarrow> bool" where
  "f1_bearers_ok ue \<longleftrightarrow>
     (\<forall>d\<in>set (drbs ue). \<exists>s flows. find_pduSession (pduSessions ue) (drb_pdusession d) = Some s \<and>
        p_qos s = Some flows \<and> length flows \<le> MAX_QOS_FLOWS \<and> (\<exists>f\<in>set flows. qf_drb_id f = drb_id d) \<and>
        (\<forall>f\<in>set flows. f1_flow_ok (qf_qos f)))"

text \<open>The identifiers of the flows of a bearer.\<close>

definition bearer_qfis :: "gNB_RRC_UE \<Rightarrow> drb \<Rightarrow> byte list" where
  "bearer_qfis ue d =
     (case find_pduSession (pduSessions ue) (drb_pdusession d) of
        None \<Rightarrow> []
      | Some s \<Rightarrow> (case p_qos s of None \<Rightarrow> [] | Some flows \<Rightarrow> qfis_on flows (drb_id d)))"

lemma f1_flow_param_ok: "f1_flow_ok q \<Longrightarrow> \<exists>p. nr_rrc_get_f1_qos_flow_param q = Inr p \<and> 1 \<le> arp_level p"
  by (auto simp: f1_flow_ok_def nr_rrc_get_f1_qos_flow_param_def assertr_def Let_def arp_level_def
    split: fiveQI.splits)

lemma f1_flows_ok:
  assumes "\<forall>f\<in>set flows. f1_flow_ok (qf_qos f)" "\<forall>b. best = Some b \<longrightarrow> 1 \<le> arp_level b"
    "set qfis \<subseteq> (qp_qfi \<circ> qf_qos) ` set flows" "best \<noteq> None \<or> qfis \<noteq> []"
  shows "\<exists>fs b. f1_flows flows qfis best = Inr (fs, Some b) \<and> map fst fs = qfis \<and> 1 \<le> arp_level b"
  using assms(2-4)
proof (induction qfis arbitrary: best)
  case (Cons qfi qfis)
  obtain f where f: "f \<in> set flows" "qp_qfi (qf_qos f) = qfi" using Cons.prems(2) by auto
  then obtain k where k: "find_qos flows (uint qfi) = Some k"
    using find_index_None_iff [of "\<lambda>f. uint (qp_qfi (qf_qos f)) = uint qfi" flows]
    by (cases "find_qos flows (uint qfi)") (auto simp: find_qos_def)
  then have "flows ! k \<in> set flows" using find_index_SomeD by (fastforce simp: find_qos_def)
  then obtain p where p: "nr_rrc_get_f1_qos_flow_param (qf_qos (flows ! k)) = Inr p" "1 \<le> arp_level p"
    using f1_flow_param_ok assms(1) by blast
  let ?best = "case best of None \<Rightarrow> Some p | Some b \<Rightarrow> if arp_level p < arp_level b then Some p else best"
  have best: "\<forall>b. ?best = Some b \<longrightarrow> 1 \<le> arp_level b" "?best \<noteq> None"
    using Cons.prems(1) p(2) by (auto split: option.splits)
  have "set qfis \<subseteq> (qp_qfi \<circ> qf_qos) ` set flows" using Cons.prems(2) by simp
  then obtain fs b where "f1_flows flows qfis ?best = Inr (fs, Some b)" "map fst fs = qfis" "1 \<le> arp_level b"
    using Cons.IH [OF best(1)] best(2) by blast
  then show ?case using k p by (simp add: assert_some_def)
qed auto

lemma find_drb_unique: "distinct (map drb_id l) \<Longrightarrow> d \<in> set l \<Longrightarrow> find (\<lambda>e. drb_id e = drb_id d) l = Some d"
  by (induction l) auto

lemma f1_drbs_from_ok:
  assumes "bearers_ok (drbs ue)" "f1_bearers_ok ue" "set l \<subseteq> set (drbs ue)" "nb + length l \<le> nat MAX_DRBS_PER_UE"
  shows "\<exists>bs. f1_drbs_from ue nb l = Inr bs \<and>
    map (\<lambda>b. (ds_id b, map fst (ds_flows b))) bs = map (\<lambda>d. (drb_id d, bearer_qfis ue d)) l"
  using assms(3,4)
proof (induction l arbitrary: nb)
  case (Cons d l)
  have d: "d \<in> set (drbs ue)" "0 < drb_id d" "drb_id d \<le> MAX_DRBS_PER_UE"
    using Cons.prems(1) assms(1) by (auto simp: bearers_ok_def)
  then obtain s flows where s: "find_pduSession (pduSessions ue) (drb_pdusession d) = Some s" "p_qos s = Some flows"
    "length flows \<le> MAX_QOS_FLOWS" "\<exists>f\<in>set flows. qf_drb_id f = drb_id d" "\<forall>f\<in>set flows. f1_flow_ok (qf_qos f)"
    using assms(2) unfolding f1_bearers_ok_def by blast
  have pdu: "find_pduSession_from_drbId ue (drb_id d) = Inr (Some s)"
    using find_drb_unique [OF _ d(1)] assms(1) s(1) d
    by (simp add: find_pduSession_from_drbId_def get_drb_in_range bearers_ok_def)
  let ?qfis = "qfis_on flows (drb_id d)"
  have q: "?qfis \<noteq> []" "length ?qfis \<le> MAX_QOS_FLOWS" "set ?qfis \<subseteq> (qp_qfi \<circ> qf_qos) ` set flows"
    using s(3,4) order_trans [OF length_filter_le [of "\<lambda>f. qf_drb_id f = drb_id d" flows]]
    by (auto simp: qfis_on_def filter_empty_conv)
  obtain fs b where fs: "f1_flows flows ?qfis None = Inr (fs, Some b)" "map fst fs = ?qfis" "1 \<le> arp_level b"
    using f1_flows_ok [OF s(5) _ q(3), of None] q(1) by auto
  obtain bs where bs: "f1_drbs_from ue (nb + 1) l = Inr bs"
    "map (\<lambda>b. (ds_id b, map fst (ds_flows b))) bs = map (\<lambda>d. (drb_id d, bearer_qfis ue d)) l"
    using Cons.IH [of "nb + 1"] Cons.prems by auto
  have "int nb < MAX_DRBS_PER_UE" using Cons.prems(2) by simp
  then have "f1_drbs_from ue nb (d # l) = Inr (\<lparr>ds_id = drb_id d, ds_flows = fs, ds_qos = b\<rparr> # bs)"
    using pdu s(2) q fs bs(1)
    by (simp add: assertr_def assert_some_def Let_def fill_f1_drb_to_be_setup_def fill_f1_drb_info_nr_def
      fill_f1_drb_qos_def)
  then show ?case using bs(2) fs(2) s(1,2) by (simp add: bearer_qfis_def)
qed simp

lemma rrc_fill_f1_drb_to_setup_ok:
  assumes "bearers_ok (drbs ue)" "f1_bearers_ok ue"
  shows "\<exists>bs. rrc_fill_f1_drb_to_setup ue = Inr bs \<and>
    map (\<lambda>b. (ds_id b, map fst (ds_flows b))) bs = map (\<lambda>d. (drb_id d, bearer_qfis ue d)) (drbs ue)"
  using f1_drbs_from_ok [OF assms, of "drbs ue" 0] all_bearers_used(1) [OF assms(1)]
  by (simp add: rrc_fill_f1_drb_to_setup_def)

lemma rrc_fill_f1_drb_to_setup_cong:
  assumes "drbs ue' = drbs ue" "pduSessions ue' = pduSessions ue"
  shows "rrc_fill_f1_drb_to_setup ue' = rrc_fill_f1_drb_to_setup ue"
proof -
  have "find_pduSession_from_drbId ue' = find_pduSession_from_drbId ue"
    unfolding find_pduSession_from_drbId_def assms ..
  then have "f1_drbs_from ue' nb l = f1_drbs_from ue nb l" for nb l
    by (induction l arbitrary: nb) simp_all
  then show ?thesis by (simp add: rrc_fill_f1_drb_to_setup_def assms(1))
qed

text \<open>With fewer than 256 events of type A3 the search for one ends.\<close>

definition a3_searchable :: "gNB_RRC_INST \<Rightarrow> bool" where
  "a3_searchable rrc \<longleftrightarrow> (\<forall>l. a3_event_list rrc = Some l \<longrightarrow> length l < 256)"

lemma a3_configuration_ok: "a3_searchable rrc \<Longrightarrow> \<exists>e. get_a3_configuration rrc i = Inr e"
  by (auto simp: a3_searchable_def get_a3_configuration_def split: option.splits)

lemma a3_reports_ok:
  assumes "a3_searchable rrc"
  shows "\<exists>rs ids. a3_reports rrc i b ns = Inr (rs, ids) \<and> length ids = length ns"
proof (induction ns arbitrary: i b)
  case (Cons n ns)
  obtain e e' where e: "get_a3_configuration rrc (physicalCellId n) = Inr e" "get_a3_configuration rrc (-1) = Inr e'"
    using a3_configuration_ok [OF assms] by metis
  obtain rs ids where r: "a3_reports rrc (i + 1) b ns = Inr (rs, ids)" "length ids = length ns"
    using Cons.IH by blast
  obtain rs' ids' where "a3_reports rrc (i + 1) True ns = Inr (rs', ids')" "length ids' = length ns"
    using Cons.IH by blast
  then show ?case using e r by (auto split: option.splits)
qed simp

lemma nr_rrc_get_measconfig_ok:
  assumes "a3_searchable rrc" "get_cell_by_cell_id rrc i = Some p" "cell_store rrc p = Some c" "c_mtc c = Some t"
  shows "\<exists>mc. nr_rrc_get_measconfig rrc i = Inr (Some mc) \<and> mc_timing mc = t \<and> mc_pci mc = c_pci c"
proof -
  obtain rs ids where "a3_reports rrc 0 False
      (case get_neighbour_cell_config rrc (c_cell_id c) of
         Some cfg \<Rightarrow> if a3_event_list rrc = None \<or> a3_event_list rrc = Some [] then [] else neighbour_cells cfg
       | None \<Rightarrow> []) = Inr (rs, ids)"
    using a3_reports_ok [OF assms(1)] by blast
  then show ?thesis
    using assms(2-4) by (simp add: nr_rrc_get_measconfig_def assert_some_def deref_cell_def Let_def)
qed

end
