(* ===== verification/Nr_Rrc_Ho.thy ===== *)
theory Nr_Rrc_Ho
  imports Nr_Rrc_F1_Request
begin

text \<open>
  Handover at the CU-CP: \<open>RRC/NR/rrc_gNB_mobility.c\<close> and the functions of \<open>rrc_gNB.c\<close>,
  \<open>rrc_gNB_NGAP.c\<close> and \<open>rrc_gNB_radio_bearers.c\<close> it calls. Every function takes the RRC
  instance and the UE context and returns both. The encoders and decoders of RRC messages rest
  on generated ASN.1 code; they are the fields of \<open>rrc_asn1\<close>, which every function that needs
  one takes as an argument. The measurement configuration that is stored in the UE context and the
  decoded capabilities of the UE are not part of the model; the RRC messages are.
\<close>

section \<open>Encoders\<close>

text \<open>
  An empty byte string is a failed encoding. The measurement timing is encoded only when the
  measurement objects have different frequencies.
\<close>

record rrc_reconfig_param =
  rp_transaction_id :: nat
  rp_srb_reest_bitmap :: nat
  rp_drb_reestablish :: bool
  rp_drbs :: "drb list"
  rp_cgc :: "byte list"
  rp_nas_msgs :: "byte list list"
  rp_drb_rel :: "int list"
  rp_masterKeyUpdate :: bool

record rrc_asn1 =
  do_NR_HandoverPreparationInformation :: "byte list \<Rightarrow> byte list"
  do_RRCReconfiguration :: "rrc_reconfig_param \<Rightarrow> byte list"
  get_HandoverCommandMessage :: "rrc_reconfig_param \<Rightarrow> byte list"
  get_HandoverPreparationInformation :: "rrc_reconfig_param \<Rightarrow> byte list \<Rightarrow> byte list"
  doRRCReconfiguration_from_HandoverCommand :: "byte list \<Rightarrow> byte list"
  cgc_has_reestablishRLC :: "byte list \<Rightarrow> bool"
  do_NR_MeasConfig :: "meas_config \<Rightarrow> byte list"
  get_meas_timing_config :: "meas_config \<Rightarrow> byte list option"

section \<open>Parameters of a reconfiguration\<close>

text \<open>
  \<open>get_RRCReconfiguration_params\<close>: the pending NAS messages move from the sessions and the UE
  into the parameters, the DRBs of sessions to release are listed, up to the size of the list.
  The list of NAS messages has \<open>MAX_DRBS_PER_UE\<close> places.
\<close>

definition drbs_of_session :: "drb list \<Rightarrow> int \<Rightarrow> int list" where
  "drbs_of_session l i = map drb_id (filter (\<lambda>d. drb_pdusession d = i) l)"

fun session_params ::
  "drb list \<Rightarrow> rrc_pdu_session list \<Rightarrow> byte list list \<Rightarrow> int list \<Rightarrow>
     rrc_pdu_session list \<times> byte list list \<times> int list" where
  "session_params l [] nas rel = ([], nas, rel)"
| "session_params l (s # ss) nas rel =
     (let nas = (if p_nas_pdu s \<noteq> [] then nas @ [p_nas_pdu s] else nas);
          rel = (if p_status s = PDU_SESSION_STATUS_TORELEASE
                 then rel @ take (nat MAX_DRBS_PER_UE - length rel)
                              (drbs_of_session l (pdusession_id s))
                 else rel);
          (ss, nas, rel) = session_params l ss nas rel in
      (s\<lparr>p_nas_pdu := []\<rparr> # ss, nas, rel))"

definition get_RRCReconfiguration_params ::
  "gNB_RRC_INST \<Rightarrow> gNB_RRC_UE \<Rightarrow> nat \<Rightarrow> bool \<Rightarrow>
     (rrc_reconfig_param \<times> gNB_RRC_INST \<times> gNB_RRC_UE) res" where
  "get_RRCReconfiguration_params rrc ue srb_reest_bitmap drb_reestablish =
     (let (xid, rrc) = rrc_gNB_get_next_transaction_identifier rrc;
          (ss, nas, rel) = session_params (drbs ue) (pduSessions ue) [] [];
          nas = (if ue_nas_pdu ue \<noteq> [] then nas @ [ue_nas_pdu ue] else nas) in
      if length nas > nat MAX_DRBS_PER_UE then Inl Out_of_bounds
      else Inr (\<lparr>rp_transaction_id = xid, rp_srb_reest_bitmap = srb_reest_bitmap,
                 rp_drb_reestablish = drb_reestablish, rp_drbs = drbs ue, rp_cgc = mcg ue,
                 rp_nas_msgs = nas, rp_drb_rel = rel, rp_masterKeyUpdate = False\<rparr>,
                rrc, ue\<lparr>pduSessions := ss, ue_nas_pdu := []\<rparr>))"

section \<open>Context\<close>

definition new_source_cu :: ho_source_cu where
  "new_source_cu =
     \<lparr>hs_cell = None, hs_du_ue_id = 0, hs_old_rnti = 0, hs_old_cgc = [], hs_ho_cancel = None,
      hs_ho_status_transfer = None, hs_old_du_tunnel_config = no_tunnel\<rparr>"

definition new_target_cu :: ho_target_cu where
  "new_target_cu =
     \<lparr>ht_cell = None, ht_du_ue_id = 0, ht_new_rnti = 0, ht_ue_ho_prep_info = [],
      ht_ho_trigger = None, ht_ho_req_ack = None, ht_ho_success = None, ht_ho_failure = None\<rparr>"

definition alloc_ho_ctx :: "ho_ctx_type \<Rightarrow> nr_handover_context" where
  "alloc_ho_ctx type =
     \<lparr>ho_source = (if type = HO_CTX_SOURCE \<or> type = HO_CTX_BOTH then Some new_source_cu else None),
      ho_target = (if type = HO_CTX_TARGET \<or> type = HO_CTX_BOTH then Some new_target_cu else None)\<rparr>"

text \<open>The accesses \<open>ue->ho_context->source\<close> and \<open>ue->ho_context->target\<close> with their assertions.\<close>

definition deref :: "'a option \<Rightarrow> 'a res" where
  "deref x = (case x of None \<Rightarrow> Inl Null_dereference | Some y \<Rightarrow> Inr y)"

definition asserted_target :: "gNB_RRC_UE \<Rightarrow> ho_target_cu res" where
  "asserted_target ue = bindr (assert_some (ho_context ue)) (\<lambda>h. assert_some (ho_target h))"

definition asserted_source :: "gNB_RRC_UE \<Rightarrow> ho_source_cu res" where
  "asserted_source ue = bindr (assert_some (ho_context ue)) (\<lambda>h. assert_some (ho_source h))"

definition set_target :: "ho_target_cu \<Rightarrow> gNB_RRC_UE \<Rightarrow> gNB_RRC_UE" where
  "set_target t ue =
     ue\<lparr>ho_context := map_option (\<lambda>h. h\<lparr>ho_target := Some t\<rparr>) (ho_context ue)\<rparr>"

definition set_source :: "ho_source_cu \<Rightarrow> gNB_RRC_UE \<Rightarrow> gNB_RRC_UE" where
  "set_source t ue =
     ue\<lparr>ho_context := map_option (\<lambda>h. h\<lparr>ho_source := Some t\<rparr>) (ho_context ue)\<rparr>"

text \<open>\<open>nr_rrc_finalize_ho\<close> with \<open>free_ho_ctx\<close>: everything the context owns is freed.\<close>

definition nr_rrc_finalize_ho :: "gNB_RRC_UE \<Rightarrow> gNB_RRC_UE res" where
  "nr_rrc_finalize_ho ue = bindr (deref (ho_context ue)) (\<lambda>_. Inr (ue\<lparr>ho_context := None\<rparr>))"

definition nr_rrc_apply_target_context ::
  "gNB_RRC_INST \<Rightarrow> gNB_RRC_UE \<Rightarrow> (gNB_RRC_INST \<times> gNB_RRC_UE) res" where
  "nr_rrc_apply_target_context rrc ue =
     bindr (asserted_target ue) (\<lambda>t.
     bindr (cu_get_f1_ue_data (rrc_ue_id ue) rrc) (\<lambda>d.
     bindr (deref_cell rrc (ht_cell t)) (\<lambda>c.
     bindr (cu_update_f1_ue_data (rrc_ue_id ue)
              (d\<lparr>secondary_ue := ht_du_ue_id t, du_assoc_id := c_assoc_id c\<rparr>) rrc) (\<lambda>rrc.
       Inr (rrc, ue\<lparr>rnti := ht_new_rnti t\<rparr>)))))"

section \<open>Initiation\<close>

text \<open>
  \<open>rrc_f1_ue_context_setup_for_target_du\<close>: for a handover the request carries the preparation
  information, for a reestablishment the identity that the UE already has at the DU. In both cases
  the bearers and the measurement configuration of the target cell are filled in first; without a
  measurement timing there is no configuration, and its encoding fails.
\<close>

definition f1_setup_contents ::
  "rrc_asn1 \<Rightarrow> gNB_RRC_UE \<Rightarrow> nr_rrc_cell \<Rightarrow> gNB_RRC_INST \<Rightarrow> (f1ap_drb_to_setup list \<times> byte list) res" where
  "f1_setup_contents asn ue c rrc =
     bindr (rrc_fill_f1_drb_to_setup ue) (\<lambda>bearers.
     bindr (nr_rrc_get_measconfig rrc (c_cell_id c)) (\<lambda>mc.
     bindr (assert_some mc) (\<lambda>mc.
     let meas_config = do_NR_MeasConfig asn mc in
     bindr (assertr (meas_config \<noteq> [])) (\<lambda>_.
     bindr (assertr (get_meas_timing_config asn mc \<noteq> Some [])) (\<lambda>_.
       Inr (bearers, meas_config))))))"

definition rrc_f1_ue_context_setup_for_target_du ::
  "rrc_asn1 \<Rightarrow> gNB_RRC_UE \<Rightarrow> cell_ptr \<Rightarrow> byte list option \<Rightarrow> gNB_RRC_INST \<Rightarrow> gNB_RRC_INST res" where
  "rrc_f1_ue_context_setup_for_target_du asn ue p hpi rrc =
     (let request = (\<lambda>msg.
        bindr (deref_cell rrc (Some p)) (\<lambda>c.
        bindr (f1_setup_contents asn ue c rrc) (\<lambda>(bearers, meas_config).
          Inr (if c_assoc_id c = 0 then rrc
               else send (msg (c_assoc_id c) bearers meas_config) rrc)))) in
      case hpi of
        Some h \<Rightarrow> request (\<lambda>a bearers mc. F1_setup_request a (rrc_ue_id ue) p bearers mc h)
      | None \<Rightarrow>
          bindr (cu_get_f1_ue_data (rrc_ue_id ue) rrc) (\<lambda>d.
          if du_assoc_id d = 0 then Inr rrc
          else request (\<lambda>a bearers mc.
                 F1_setup_request_reest a (rrc_ue_id ue) (secondary_ue d) p bearers mc)))"

text \<open>The loop that saves the tunnel of the DU leaves the one of the last DRB.\<close>

definition save_tunnels :: "drb list \<Rightarrow> ho_source_cu \<Rightarrow> ho_source_cu" where
  "save_tunnels l s = fold (\<lambda>d s. s\<lparr>hs_old_du_tunnel_config := du_tunnel_config d\<rparr>) l s"

definition nr_initiate_handover ::
  "rrc_asn1 \<Rightarrow> gNB_RRC_INST \<Rightarrow> gNB_RRC_UE \<Rightarrow> cell_ptr option \<Rightarrow> byte list \<Rightarrow> ho_req_ack \<Rightarrow> ho_success \<Rightarrow>
     ho_cancel option \<Rightarrow> ho_failure option \<Rightarrow> (gNB_RRC_INST \<times> gNB_RRC_UE) res" where
  "nr_initiate_handover asn rrc ue source_cell ho_prep_info ack success cancel failure =
     bindr (assertr (ho_prep_info \<noteq> [])) (\<lambda>_.
     bindr (asserted_target ue) (\<lambda>t.
     if \<exists>x \<in> set (xids ue). x \<noteq> RRC_ACTION_NONE then Inr (rrc, ue)
     else
       bindr (assert_some (ht_cell t)) (\<lambda>target_cell.
       let ue = set_target (t\<lparr>ht_ho_req_ack := Some ack, ht_ho_success := Some success,
                              ht_ho_failure := failure\<rparr>) ue in
       bindr (cu_get_f1_ue_data (rrc_ue_id ue) rrc) (\<lambda>d.
       bindr (case source_cell of
                None \<Rightarrow> Inr ue
              | Some p \<Rightarrow>
                  bindr (deref_cell rrc (Some p)) (\<lambda>c.
                  bindr (assertr (c_assoc_id c = du_assoc_id d)) (\<lambda>_.
                  bindr (deref (ho_context ue)) (\<lambda>h.
                  bindr (deref (ho_source h)) (\<lambda>s.
                    Inr (set_source ((save_tunnels (drbs ue)
                      (s\<lparr>hs_ho_cancel := cancel, hs_cell := Some p,
                         hs_du_ue_id := secondary_ue d, hs_old_rnti := rnti ue\<rparr>))
                      \<lparr>hs_old_cgc := mcg ue\<rparr>) ue)))))) (\<lambda>ue.
       bindr (rrc_f1_ue_context_setup_for_target_du asn ue target_cell (Some ho_prep_info) rrc) (\<lambda>rrc.
         Inr (rrc, ue)))))))"

definition nr_rrc_trigger_f1_ho ::
  "rrc_asn1 \<Rightarrow> gNB_RRC_INST \<Rightarrow> gNB_RRC_UE \<Rightarrow> cell_ptr \<Rightarrow> cell_ptr \<Rightarrow>
     (gNB_RRC_INST \<times> gNB_RRC_UE) res" where
  "nr_rrc_trigger_f1_ho asn rrc ue source_cell target_cell =
     (if drbs ue = [] then Inr (rrc, ue)
      else
        let hpi = do_NR_HandoverPreparationInformation asn (ue_cap_buffer ue) in
        if ho_context ue \<noteq> None then Inr (rrc, ue)
        else
          let h = alloc_ho_ctx HO_CTX_BOTH;
              ue = ue\<lparr>ho_context :=
                Some (h\<lparr>ho_target := Some (new_target_cu\<lparr>ht_cell := Some target_cell\<rparr>)\<rparr>)\<rparr> in
          nr_initiate_handover asn rrc ue (Some source_cell) hpi F1_ho_acknowledge F1_ho_complete
            (Some F1_ho_cancel) None)"

section \<open>Handover within the CU (F1)\<close>

definition rrc_gNB_trigger_reconfiguration_for_handover ::
  "gNB_RRC_UE \<Rightarrow> byte list \<Rightarrow> gNB_RRC_INST \<Rightarrow> gNB_RRC_INST res" where
  "rrc_gNB_trigger_reconfiguration_for_handover ue rrc_reconf rrc =
     bindr (cu_get_f1_ue_data (rrc_ue_id ue) rrc) (\<lambda>d.
       Inr (if du_assoc_id d = 0 then rrc
            else send (F1_modification_stop (du_assoc_id d) (rrc_ue_id ue) (secondary_ue d) rrc_reconf)
                   rrc))"

text \<open>\<open>UE->xids[xid] = action\<close>\<close>

definition set_xid :: "nat \<Rightarrow> rrc_action \<Rightarrow> gNB_RRC_UE \<Rightarrow> gNB_RRC_UE res" where
  "set_xid xid a ue =
     (if xid < length (xids ue) then Inr (ue\<lparr>xids := (xids ue)[xid := a]\<rparr>) else Inl Out_of_bounds)"

definition nr_rrc_f1_ho_acknowledge ::
  "rrc_asn1 \<Rightarrow> gNB_RRC_INST \<Rightarrow> gNB_RRC_UE \<Rightarrow> (gNB_RRC_INST \<times> gNB_RRC_UE) res" where
  "nr_rrc_f1_ho_acknowledge asn rrc ue =
     bindr (get_RRCReconfiguration_params rrc ue 4 True) (\<lambda>(params, rrc, ue).
     bindr (set_xid (rp_transaction_id params) RRC_DEDICATED_RECONF ue) (\<lambda>ue.
     let buffer = do_RRCReconfiguration asn params in
     if buffer = [] then Inr (rrc, ue)
     else
       bindr (deref (ho_context ue)) (\<lambda>h.
       bindr (assert_some (ho_source h)) (\<lambda>_.
       bindr (rrc_gNB_trigger_reconfiguration_for_handover ue buffer rrc) (\<lambda>rrc.
         Inr (if srb2_active ue then send (Pdcp_reestablishment (rrc_ue_id ue) 2) rrc else rrc,
              ue))))))"

definition nr_rrc_f1_ho_complete :: "gNB_RRC_INST \<Rightarrow> gNB_RRC_UE \<Rightarrow> gNB_RRC_INST res" where
  "nr_rrc_f1_ho_complete rrc ue =
     bindr (asserted_source ue) (\<lambda>s.
     bindr (deref_cell rrc (hs_cell s)) (\<lambda>c.
       Inr (if c_assoc_id c = 0 then rrc
            else send (F1_release_command (c_assoc_id c) (rrc_ue_id ue) (hs_du_ue_id s) 5) rrc)))"

definition nr_rrc_cancel_f1_ho :: "gNB_RRC_INST \<Rightarrow> gNB_RRC_UE \<Rightarrow> gNB_RRC_INST res" where
  "nr_rrc_cancel_f1_ho rrc ue =
     bindr (asserted_target ue) (\<lambda>t.
     bindr (deref_cell rrc (ht_cell t)) (\<lambda>c.
       Inr (send (F1_release_command (c_assoc_id c) (rrc_ue_id ue) (ht_du_ue_id t) 5) rrc)))"

definition nr_HO_F1_trigger_telnet ::
  "rrc_asn1 \<Rightarrow> u32 \<Rightarrow> gNB_RRC_INST \<Rightarrow> gNB_RRC_INST res" where
  "nr_HO_F1_trigger_telnet asn ue_id rrc =
     (case rrc_gNB_get_ue_context rrc ue_id of
        None \<Rightarrow> Inr rrc
      | Some ue \<Rightarrow>
          bindr (get_du_for_ue rrc (rrc_ue_id ue)) (\<lambda>source_du.
          case source_du of
            None \<Rightarrow> bindr (cu_get_f1_ue_data ue_id rrc) (\<lambda>_. Inr rrc)
          | Some source_du \<Rightarrow>
              bindr (rrc_get_pcell_for_ue rrc ue) (\<lambda>source_cell.
              case source_cell of
                None \<Rightarrow> Inr rrc
              | Some source_cell \<Rightarrow>
                  case find_target_du rrc (d_assoc_id source_du) of
                    None \<Rightarrow> Inr rrc
                  | Some target_du \<Rightarrow>
                      case d_cells target_du of
                        [] \<Rightarrow> Inr rrc
                      | target_cell # _ \<Rightarrow>
                          bindr (nr_rrc_trigger_f1_ho asn rrc ue source_cell target_cell)
                            (\<lambda>(rrc, ue). Inr (put_ue ue rrc)))))"

section \<open>Cell association after a handover\<close>

definition nr_rrc_update_cell_assoc_after_ho ::
  "gNB_RRC_INST \<Rightarrow> gNB_RRC_UE \<Rightarrow> (bool \<times> gNB_RRC_UE) res" where
  "nr_rrc_update_cell_assoc_after_ho rrc ue =
     bindr (assert_some (ho_context ue)) (\<lambda>h.
     bindr (assert_some (ho_target h)) (\<lambda>t.
     if \<not> cu_exists_f1_ue_data (rrc_ue_id ue) rrc then Inr (False, ue)
     else
       bindr (cu_get_f1_ue_data (rrc_ue_id ue) rrc) (\<lambda>d.
       bindr (deref_cell rrc (ht_cell t)) (\<lambda>c.
       if du_assoc_id d \<noteq> c_assoc_id c then Inr (False, ue)
       else
         bindr (if ho_source h = None
                then bindr (ue_get_pcell_entry ue) (\<lambda>e. assertr (e = None))
                else Inr ()) (\<lambda>_.
         bindr (rrc_update_ue_pcell rrc c ue) (\<lambda>(added, ue).
           Inr (added \<noteq> None, ue)))))))"

section \<open>Handover between CUs (N2)\<close>

definition rrc_gNB_send_NGAP_UE_CONTEXT_RELEASE_REQ ::
  "gNB_RRC_UE option \<Rightarrow> ngap_cause \<Rightarrow> gNB_RRC_INST \<Rightarrow> gNB_RRC_INST res" where
  "rrc_gNB_send_NGAP_UE_CONTEXT_RELEASE_REQ ue cause rrc =
     (case ue of
        None \<Rightarrow> Inr rrc
      | Some u \<Rightarrow>
          bindr (assertr (int (length (pduSessions u)) \<le> NR_MAX_NB_PDU_SESSIONS)) (\<lambda>_.
            Inr (send (Ngap_release_request (rrc_ue_id u) cause) rrc)))"

definition nr_rrc_n2_ho_failure :: "u32 \<Rightarrow> u64 \<Rightarrow> ngap_cause \<Rightarrow> gNB_RRC_INST \<Rightarrow> gNB_RRC_INST res"
where
  "nr_rrc_n2_ho_failure ue_id amf cause rrc =
     (let rrc = send (Ngap_handover_failure amf cause) rrc in
      rrc_gNB_send_NGAP_UE_CONTEXT_RELEASE_REQ (rrc_gNB_get_ue_context rrc ue_id) cause rrc)"

definition call_ho_failure ::
  "ho_failure option \<Rightarrow> gNB_RRC_UE \<Rightarrow> ngap_cause \<Rightarrow> gNB_RRC_INST \<Rightarrow> gNB_RRC_INST res" where
  "call_ho_failure f ue cause rrc =
     (case f of
        None \<Rightarrow> Inl Null_dereference
      | Some N2_ho_failure \<Rightarrow> nr_rrc_n2_ho_failure (rrc_ue_id ue) (amf_ue_ngap_id ue) cause rrc)"

text \<open>
  The encoder of the handover command. The removal lists of the measurement configuration,
  which it fills from the stored preparation information, are not part of the model.
\<close>

definition rrc_gNB_encode_HandoverCommand ::
  "rrc_asn1 \<Rightarrow> gNB_RRC_INST \<Rightarrow> gNB_RRC_UE \<Rightarrow> (byte list \<times> gNB_RRC_INST \<times> gNB_RRC_UE) res" where
  "rrc_gNB_encode_HandoverCommand asn rrc ue =
     bindr (asserted_target ue) (\<lambda>_.
     bindr (get_RRCReconfiguration_params rrc ue 6 True) (\<lambda>(params, rrc, ue).
     bindr (set_xid (rp_transaction_id params) RRC_DEDICATED_RECONF ue) (\<lambda>ue.
       Inr (get_HandoverCommandMessage asn (params\<lparr>rp_masterKeyUpdate := True\<rparr>), rrc, ue))))"

text \<open>The acknowledgement lists the flows of every session: their array has to be initialised.\<close>

definition rrc_gNB_send_NGAP_HANDOVER_REQUEST_ACKNOWLEDGE ::
  "gNB_RRC_INST \<Rightarrow> gNB_RRC_UE \<Rightarrow> byte list \<Rightarrow> (gNB_RRC_INST \<times> gNB_RRC_UE) res" where
  "rrc_gNB_send_NGAP_HANDOVER_REQUEST_ACKNOWLEDGE rrc ue ho_command =
     bindr (assertr (int (length (pduSessions ue)) \<le> NR_MAX_NB_PDU_SESSIONS)) (\<lambda>_.
     bindr (assertr (\<forall>s\<in>set (pduSessions ue).
              case p_qos s of None \<Rightarrow> False | Some qos \<Rightarrow> length qos \<le> MAX_QOS_FLOWS)) (\<lambda>_.
       Inr (send (Ngap_handover_request_ack (rrc_ue_id ue) (amf_ue_ngap_id ue) ho_command) rrc,
            ue\<lparr>pduSessions := map (\<lambda>s. s\<lparr>p_status := PDU_SESSION_STATUS_ESTABLISHED\<rparr>)
                               (pduSessions ue)\<rparr>)))"

text \<open>
  The length of the encoded command is unsigned, so the test \<open>hoCommand.len < 0\<close> never holds and
  the branch behind it is never taken.
\<close>

definition nr_rrc_n2_ho_acknowledge ::
  "rrc_asn1 \<Rightarrow> gNB_RRC_INST \<Rightarrow> gNB_RRC_UE \<Rightarrow> (gNB_RRC_INST \<times> gNB_RRC_UE) res" where
  "nr_rrc_n2_ho_acknowledge asn rrc ue =
     bindr (assertr (cu_exists_f1_ue_data (rrc_ue_id ue) rrc)) (\<lambda>_.
     bindr (cu_get_f1_ue_data (rrc_ue_id ue) rrc) (\<lambda>previous.
     bindr (assertr (secondary_ue previous = -1)) (\<lambda>_.
     bindr (nr_rrc_apply_target_context rrc ue) (\<lambda>(rrc, ue).
     bindr (asserted_target ue) (\<lambda>t.
     bindr (nr_rrc_update_cell_assoc_after_ho rrc ue) (\<lambda>(ok, ue).
     if \<not> ok then
       bindr (call_ho_failure (ht_ho_failure t) ue HO_FAILURE_IN_TARGET rrc) (\<lambda>rrc. Inr (rrc, ue))
     else
       bindr (rrc_gNB_encode_HandoverCommand asn rrc ue) (\<lambda>(hoCommand, rrc, ue).
         rrc_gNB_send_NGAP_HANDOVER_REQUEST_ACKNOWLEDGE rrc ue hoCommand)))))))"

definition rrc_gNB_send_NGAP_HANDOVER_NOTIFY :: "gNB_RRC_INST \<Rightarrow> gNB_RRC_UE \<Rightarrow> gNB_RRC_INST res"
where
  "rrc_gNB_send_NGAP_HANDOVER_NOTIFY rrc ue =
     bindr (rrc_get_pcell_for_ue rrc ue) (\<lambda>cell.
     case cell of
       None \<Rightarrow> Inr rrc
     | Some p \<Rightarrow>
         bindr (get_du_for_ue rrc (rrc_ue_id ue)) (\<lambda>du.
         case du of
           None \<Rightarrow> Inr rrc
         | Some _ \<Rightarrow>
             bindr (deref_cell rrc (Some p)) (\<lambda>c.
               Inr (send (Ngap_handover_notify (rrc_ue_id ue) (amf_ue_ngap_id ue) (c_cell_id c))
                      rrc))))"

definition nr_rrc_n2_ho_complete :: "gNB_RRC_INST \<Rightarrow> gNB_RRC_UE \<Rightarrow> gNB_RRC_INST res" where
  "nr_rrc_n2_ho_complete rrc ue = rrc_gNB_send_NGAP_HANDOVER_NOTIFY rrc ue"

definition nr_rrc_n2_ho_cancel :: "gNB_RRC_INST \<Rightarrow> gNB_RRC_UE \<Rightarrow> gNB_RRC_INST res" where
  "nr_rrc_n2_ho_cancel rrc ue =
     bindr (asserted_source ue) (\<lambda>_.
       Inr (send (Ngap_handover_cancel (rrc_ue_id ue) (amf_ue_ngap_id ue) HANDOVER_CANCELLED) rrc))"

definition nr_rrc_trigger_n2_ho_target ::
  "rrc_asn1 \<Rightarrow> gNB_RRC_INST \<Rightarrow> gNB_RRC_UE \<Rightarrow> (gNB_RRC_INST \<times> gNB_RRC_UE) res" where
  "nr_rrc_trigger_n2_ho_target asn rrc ue =
     bindr (deref (ho_context ue)) (\<lambda>h.
     bindr (deref (ho_target h)) (\<lambda>t.
     bindr (nr_initiate_handover asn rrc ue None (ht_ue_ho_prep_info t) N2_ho_acknowledge
              N2_ho_complete None (Some N2_ho_failure)) (\<lambda>(rrc, ue).
     bindr (asserted_target ue) (\<lambda>t.
       Inr (rrc, set_target (t\<lparr>ht_ue_ho_prep_info := []\<rparr>) ue)))))"

text \<open>\<open>rrc_gNB_generate_HandoverPreparationInformation\<close>; its test \<open>len < 0\<close> never holds either.\<close>

definition rrc_gNB_generate_HandoverPreparationInformation ::
  "rrc_asn1 \<Rightarrow> gNB_RRC_INST \<Rightarrow> gNB_RRC_UE \<Rightarrow> (byte list \<times> gNB_RRC_INST \<times> gNB_RRC_UE) res" where
  "rrc_gNB_generate_HandoverPreparationInformation asn rrc ue =
     bindr (get_RRCReconfiguration_params rrc ue 0 False) (\<lambda>(params, rrc, ue).
       Inr (get_HandoverPreparationInformation asn params (ue_cap_buffer ue), rrc, ue))"

definition rrc_gNB_send_NGAP_HANDOVER_REQUIRED ::
  "gNB_RRC_UE \<Rightarrow> nr_neighbour_cell \<Rightarrow> byte list \<Rightarrow> gNB_RRC_INST \<Rightarrow> gNB_RRC_INST res" where
  "rrc_gNB_send_NGAP_HANDOVER_REQUIRED ue neighbour hpi rrc =
     bindr (assertr (int (length (filter (\<lambda>s. p_status s = PDU_SESSION_STATUS_ESTABLISHED)
                            (pduSessions ue))) \<le> NR_MAX_NB_PDU_SESSIONS)) (\<lambda>_.
       Inr (send (Ngap_handover_required (rrc_ue_id ue) (amf_ue_ngap_id ue) neighbour hpi) rrc))"

definition nr_rrc_trigger_n2_ho ::
  "rrc_asn1 \<Rightarrow> gNB_RRC_INST \<Rightarrow> gNB_RRC_UE \<Rightarrow> nr_neighbour_cell \<Rightarrow>
     (gNB_RRC_INST \<times> gNB_RRC_UE) res" where
  "nr_rrc_trigger_n2_ho asn rrc ue neighbour =
     (if \<not> (\<exists>s \<in> set (pduSessions ue). p_status s = PDU_SESSION_STATUS_ESTABLISHED)
      then Inr (rrc, ue)
      else
        bindr (rrc_gNB_generate_HandoverPreparationInformation asn rrc ue) (\<lambda>(hpi, rrc, ue).
        if ho_context ue \<noteq> None then Inr (rrc, ue)
        else
          let ue = ue\<lparr>ho_context := Some (alloc_ho_ctx HO_CTX_SOURCE)\<rparr> in
          bindr (rrc_get_pcell_for_ue rrc ue) (\<lambda>source_cell.
          case source_cell of
            None \<Rightarrow> Inr (rrc, ue)
          | Some p \<Rightarrow>
              let ue = set_source (new_source_cu\<lparr>hs_cell := Some p,
                         hs_ho_status_transfer := Some N2_ul_ran_status_transfer,
                         hs_ho_cancel := Some N2_ho_cancel\<rparr>) ue in
              bindr (rrc_gNB_send_NGAP_HANDOVER_REQUIRED ue neighbour hpi rrc) (\<lambda>rrc.
                Inr (rrc, ue)))))"

definition nr_HO_N2_trigger_telnet ::
  "rrc_asn1 \<Rightarrow> u32 \<Rightarrow> u32 \<Rightarrow> gNB_RRC_INST \<Rightarrow> gNB_RRC_INST res" where
  "nr_HO_N2_trigger_telnet asn neighbour_pci ue_id rrc =
     (case rrc_gNB_get_ue_context rrc ue_id of
        None \<Rightarrow> Inr rrc
      | Some ue \<Rightarrow>
          bindr (get_du_for_ue rrc (rrc_ue_id ue)) (\<lambda>du.
          case du of
            None \<Rightarrow> Inr rrc
          | Some du \<Rightarrow>
              bindr (rrc_get_pcell_for_ue rrc ue) (\<lambda>pcell.
              case pcell of
                None \<Rightarrow> Inr rrc
              | Some p \<Rightarrow>
                  bindr (deref_cell rrc (Some p)) (\<lambda>c.
                  let trigger = (\<lambda>n. bindr (nr_rrc_trigger_n2_ho asn rrc ue n)
                                       (\<lambda>(rrc, ue). Inr (put_ue ue rrc))) in
                  if uint neighbour_pci = uint (c_pci c)
                  then trigger \<lparr>gNB_ID = ucast (d_gNB_DU_id du), nrcell_id = c_cell_id c,
                         physicalCellId = uint (c_pci c),
                         n_scs = (case c_mode c of NR_MODE_TDD f \<Rightarrow> uint (scs f)
                                                 | NR_MODE_FDD dl _ \<Rightarrow> uint (scs dl)),
                         n_plmn = c_plmn c, n_tac = 0\<rparr>
                  else case get_neighbour_cell_config rrc (c_cell_id c) of
                    None \<Rightarrow> Inr rrc
                  | Some cfg \<Rightarrow>
                      case get_neighbour_cell_by_pci cfg (to_i32 (uint neighbour_pci)) of
                        None \<Rightarrow> Inr rrc
                      | Some n \<Rightarrow> trigger n))))"

end
