(* ===== verification/Nr_Rrc_Ho_Life.thy ===== *)
theory Nr_Rrc_Ho_Life
  imports Nr_Rrc_Ho
begin

text \<open>
  The events that drive a handover at the CU-CP (\<open>RRC/NR/rrc_gNB.c\<close>, \<open>rrc_gNB_du.c\<close>): the
  measurement report that starts it, the answers of the DUs, the completion by the UE, the
  release request of a DU, the return of the UE to the source cell, and the loss of a DU.

  Stand-alone mode is modelled. A handler that finds its UE works on the context of the UE and
  puts it back; it is given here on the instance and the context.
\<close>

section \<open>Measurement report (event A3)\<close>

text \<open>
  The report lists the serving cells and, when it has measurements of NR neighbours, these, each
  with physical cell identity and RSRP (the SSB based value, or the CSI-RS based one without it).
\<close>

record a3_report =
  a3_serving :: "(int \<times> int) list"
  a3_neighbours :: "(int \<times> int) list option"

text \<open>The serving cell of the UE with the reported identity.\<close>

fun resolve_source :: "gNB_RRC_INST \<Rightarrow> int \<Rightarrow> ue_serving_cell list \<Rightarrow> (cell_ptr \<times> nr_rrc_cell) option"
where
  "resolve_source rrc pci [] = None"
| "resolve_source rrc pci (s # l) =
     (case get_cell_by_cell_id rrc (nci s) of
        None \<Rightarrow> resolve_source rrc pci l
      | Some p \<Rightarrow>
          (case cell_store rrc p of
             None \<Rightarrow> resolve_source rrc pci l
           | Some c \<Rightarrow> if uint (c_pci c) = pci then Some (p, c) else resolve_source rrc pci l))"

text \<open>\<open>a3_offset * 0.5 + hysteresis < difference\<close>, without the fraction.\<close>

definition a3_passed :: "nr_a3_event option \<Rightarrow> int \<Rightarrow> int \<Rightarrow> bool" where
  "a3_passed e n s =
     (case e of None \<Rightarrow> False
      | Some e \<Rightarrow> a3_offset e + 2 * a3_hysteresis e < 2 * (n - s))"

definition a3_one ::
  "rrc_asn1 \<Rightarrow> int \<Rightarrow> int \<Rightarrow> int \<times> int \<Rightarrow> gNB_RRC_INST \<times> gNB_RRC_UE \<times> int \<Rightarrow>
     (gNB_RRC_INST \<times> gNB_RRC_UE \<times> int) res" where
  "a3_one asn scell_pci serving_rsrp meas st =
     (case meas of (neighbour_pci, neighbour_rsrp) \<Rightarrow>
      case st of (rrc, ue, best_rsrp) \<Rightarrow>
      case resolve_source rrc scell_pci (serving_cells ue) of
        None \<Rightarrow> Inr st
      | Some (source_cell, c) \<Rightarrow>
          bindr (assert_some (get_neighbour_cell_config rrc (c_cell_id c))) (\<lambda>cfg.
          case get_neighbour_cell_by_pci cfg neighbour_pci of
            None \<Rightarrow> Inr st
          | Some n \<Rightarrow>
              (case get_cell_by_cell_id rrc (nrcell_id n) of
                 Some target_cell \<Rightarrow>
                   bindr (nr_rrc_trigger_f1_ho asn rrc ue source_cell target_cell)
                     (\<lambda>(rrc, ue). Inr (rrc, ue, best_rsrp))
               | None \<Rightarrow>
                   bindr (get_a3_configuration rrc (physicalCellId n)) (\<lambda>e.
                   bindr (if e = None then get_a3_configuration rrc (-1) else Inr e) (\<lambda>e.
                   if a3_passed e neighbour_rsrp serving_rsrp \<and> neighbour_rsrp > best_rsrp
                   then bindr (nr_rrc_trigger_n2_ho asn rrc ue n)
                          (\<lambda>(rrc, ue). Inr (rrc, ue, neighbour_rsrp))
                   else Inr st)))))"

fun a3_loop ::
  "rrc_asn1 \<Rightarrow> int \<Rightarrow> int \<Rightarrow> (int \<times> int) list \<Rightarrow> gNB_RRC_INST \<times> gNB_RRC_UE \<times> int \<Rightarrow>
     (gNB_RRC_INST \<times> gNB_RRC_UE \<times> int) res" where
  "a3_loop asn p s [] st = Inr st"
| "a3_loop asn p s (m # ms) st = bindr (a3_one asn p s m st) (a3_loop asn p s ms)"

definition process_Event_A3_Measurement_Report ::
  "rrc_asn1 \<Rightarrow> a3_report \<Rightarrow> gNB_RRC_INST \<Rightarrow> gNB_RRC_UE \<Rightarrow> (gNB_RRC_INST \<times> gNB_RRC_UE) res" where
  "process_Event_A3_Measurement_Report asn r rrc ue =
     (let (scell_pci, serving_rsrp) = (if a3_serving r = [] then (-1, 0) else last (a3_serving r)) in
      case a3_neighbours r of
        None \<Rightarrow> Inr (rrc, ue)
      | Some ms \<Rightarrow>
          bindr (a3_loop asn scell_pci serving_rsrp ms (rrc, ue, -10000))
            (\<lambda>(rrc, ue, _). Inr (rrc, ue)))"

section \<open>Answers of the DUs\<close>

definition store_cgc :: "byte list \<Rightarrow> gNB_RRC_UE \<Rightarrow> gNB_RRC_UE" where
  "store_cgc cgc ue = ue\<lparr>mcg := cgc\<rparr>"

text \<open>A DRB in an answer of a DU: its identity and the addresses of its downlink tunnels.\<close>

record f1ap_drb_setup =
  f_id :: int
  f_up_dl_tnl :: "gtpu_tunnel list"

definition set_drb_tunnel :: "int \<Rightarrow> gtpu_tunnel \<Rightarrow> drb list \<Rightarrow> drb list" where
  "set_drb_tunnel i t l =
     (case find_index (\<lambda>d. drb_id d = i) l of
        None \<Rightarrow> l
      | Some k \<Rightarrow> l[k := (l ! k)\<lparr>du_tunnel_config := t\<rparr>])"

fun store_du_f1u_tunnel :: "f1ap_drb_setup list \<Rightarrow> gNB_RRC_UE \<Rightarrow> gNB_RRC_UE res" where
  "store_du_f1u_tunnel [] ue = Inr ue"
| "store_du_f1u_tunnel (f # fs) ue =
     (case f_up_dl_tnl f of
        [t] \<Rightarrow>
          bindr (assertr (f_id f < MAX_DRBS_PER_UE)) (\<lambda>_.
          bindr (get_drb (drbs ue) (f_id f)) (\<lambda>d.
          bindr (assert_some d) (\<lambda>_.
            store_du_f1u_tunnel fs (ue\<lparr>drbs := set_drb_tunnel (f_id f) t (drbs ue)\<rparr>))))
      | _ \<Rightarrow> Inl Assert_failed)"

text \<open>
  \<open>append_e1_drb_mod_req\<close> over a list of DRBs: those whose PDU session is found are in the
  request.
\<close>

fun e1_drb_mods :: "gNB_RRC_UE \<Rightarrow> (int \<times> 'a) list \<Rightarrow> (int \<times> 'a) list res" where
  "e1_drb_mods ue [] = Inr []"
| "e1_drb_mods ue ((i, x) # l) =
     bindr (find_pduSession_from_drbId ue i) (\<lambda>s.
     bindr (e1_drb_mods ue l) (\<lambda>r. Inr (if s = None then r else (i, x) # r)))"

definition get_existing_cuup_for_ue :: "gNB_RRC_INST \<Rightarrow> gNB_RRC_UE \<Rightarrow> int res" where
  "get_existing_cuup_for_ue rrc ue =
     bindr (cu_get_f1_ue_data (rrc_ue_id ue) rrc) (\<lambda>d.
     bindr (assertr (e1_assoc_id d \<noteq> 0)) (\<lambda>_. Inr (e1_assoc_id d)))"

definition e1_send_bearer_updates ::
  "f1ap_drb_setup list \<Rightarrow> gNB_RRC_UE \<Rightarrow> gNB_RRC_INST \<Rightarrow> gNB_RRC_INST res" where
  "e1_send_bearer_updates fs ue rrc =
     (if cuups rrc = [] \<or> fs = [] then Inr rrc
      else
        bindr (assertr (pduSessions ue \<noteq> [])) (\<lambda>_.
        bindr (e1_drb_mods ue (map (\<lambda>f. (f_id f, hd (f_up_dl_tnl f))) fs)) (\<lambda>l.
        if l = [] then Inr rrc
        else
          bindr (get_existing_cuup_for_ue rrc ue) (\<lambda>a.
            Inr (send (E1_bearer_modification a (rrc_ue_id ue) l) rrc)))))"

definition e1_request_pdcp_status :: "gNB_RRC_UE \<Rightarrow> gNB_RRC_INST \<Rightarrow> gNB_RRC_INST res" where
  "e1_request_pdcp_status ue rrc =
     (if cuups rrc = [] then Inr rrc
      else
        bindr (assertr (pduSessions ue \<noteq> [])) (\<lambda>_.
        bindr (e1_drb_mods ue (map (\<lambda>d. (drb_id d, ())) (drbs ue))) (\<lambda>l.
        if l = [] then Inr rrc
        else
          bindr (get_existing_cuup_for_ue rrc ue) (\<lambda>a.
            Inr (send (E1_pdcp_status_request a (rrc_ue_id ue) (map fst l)) rrc)))))"

definition cuup_notify_reestablishment :: "gNB_RRC_UE \<Rightarrow> gNB_RRC_INST \<Rightarrow> gNB_RRC_INST res" where
  "cuup_notify_reestablishment ue rrc =
     (if cuups rrc = [] then Inr rrc
      else
        bindr (cu_get_f1_ue_data (rrc_ue_id ue) rrc) (\<lambda>d.
        if e1_assoc_id d = 0 then Inr rrc
        else
          bindr (assertr (pduSessions ue \<noteq> [])) (\<lambda>_.
          bindr (e1_drb_mods ue (map (\<lambda>d. (drb_id d, du_tunnel_config d)) (drbs ue))) (\<lambda>l.
          bindr (get_existing_cuup_for_ue rrc ue) (\<lambda>a.
            Inr (send (E1_bearer_reestablishment a (rrc_ue_id ue) l) rrc))))))"

section \<open>Reconfiguration outside of a handover\<close>

definition single_action :: "rrc_action \<Rightarrow> rrc_action \<Rightarrow> rrc_action res" where
  "single_action action expected =
     bindr (assertr (action \<noteq> RRC_REESTABLISH_COMPLETE)) (\<lambda>_.
     bindr (assertr (action = RRC_ACTION_NONE \<or> action = expected)) (\<lambda>_. Inr expected))"

fun action_from_sessions ::
  "rrc_reconfig_param \<Rightarrow> rrc_action \<Rightarrow> rrc_pdu_session list \<Rightarrow>
     (rrc_action \<times> rrc_pdu_session list) res" where
  "action_from_sessions params action [] = Inr (action, [])"
| "action_from_sessions params action (s # ss) =
     bindr
       (case p_status s of
          PDU_SESSION_STATUS_TOMODIFY \<Rightarrow> single_action action RRC_PDUSESSION_MODIFY
        | PDU_SESSION_STATUS_NEW \<Rightarrow> single_action action RRC_PDUSESSION_ESTABLISH
        | PDU_SESSION_STATUS_TORELEASE \<Rightarrow>
            bindr (assertr (rp_drb_rel params \<noteq> [])) (\<lambda>_.
              single_action action RRC_PDUSESSION_RELEASE)
        | _ \<Rightarrow> Inr action) (\<lambda>action.
     bindr (action_from_sessions params action ss) (\<lambda>(action, ss).
       Inr (action,
            (if p_status s \<noteq> PDU_SESSION_STATUS_FAILED \<and> p_status s \<noteq> PDU_SESSION_STATUS_ESTABLISHED
             then s\<lparr>p_xid := of_nat (rp_transaction_id params)\<rparr> else s) # ss)))"

definition rrc_gNB_action_from_pdusession_status ::
  "rrc_reconfig_param \<Rightarrow> bool \<Rightarrow> gNB_RRC_UE \<Rightarrow> (rrc_action \<times> gNB_RRC_UE) res" where
  "rrc_gNB_action_from_pdusession_status params is_reest ue =
     bindr (action_from_sessions params
              (if is_reest then RRC_REESTABLISH_COMPLETE else RRC_ACTION_NONE) (pduSessions ue))
       (\<lambda>(action, ss). Inr (action, ue\<lparr>pduSessions := ss\<rparr>))"

definition nr_rrc_transfer_protected_rrc_message ::
  "gNB_RRC_UE \<Rightarrow> byte list \<Rightarrow> gNB_RRC_INST \<Rightarrow> gNB_RRC_INST res" where
  "nr_rrc_transfer_protected_rrc_message ue buf rrc =
     bindr (assertr (buf \<noteq> [])) (\<lambda>_.
     bindr (cu_get_f1_ue_data (rrc_ue_id ue) rrc) (\<lambda>d.
       Inr (if du_assoc_id d = 0 then rrc else send (Dl_rrc_message (du_assoc_id d) (rrc_ue_id ue) (secondary_ue d) 1 buf) rrc)))"

definition rrc_gNB_generate_dedicatedRRCReconfiguration ::
  "rrc_asn1 \<Rightarrow> bool \<Rightarrow> gNB_RRC_INST \<Rightarrow> gNB_RRC_UE \<Rightarrow> (gNB_RRC_INST \<times> gNB_RRC_UE) res" where
  "rrc_gNB_generate_dedicatedRRCReconfiguration asn is_reest rrc ue =
     bindr (get_RRCReconfiguration_params rrc ue (if is_reest then 4 else 0) is_reest)
       (\<lambda>(params, rrc, ue).
     bindr (rrc_gNB_action_from_pdusession_status params is_reest ue) (\<lambda>(action, ue).
     bindr (set_xid (rp_transaction_id params) action ue) (\<lambda>ue.
     let msg = do_RRCReconfiguration asn params in
     if msg = [] then Inr (rrc, ue)
     else
       bindr (if is_reest
              then cuup_notify_reestablishment ue
                     (if srb2_active ue then send (Pdcp_reestablishment (rrc_ue_id ue) 2) rrc else rrc)
              else Inr rrc) (\<lambda>rrc.
       bindr (nr_rrc_transfer_protected_rrc_message ue msg rrc) (\<lambda>rrc.
         Inr (rrc, ue))))))"

section \<open>UE context setup response\<close>

record setup_resp =
  sr_du_ue_id :: u32
  sr_crnti :: "u16 option"
  sr_cgc :: "byte list"
  sr_drbs :: "f1ap_drb_setup list"

definition call_ho_req_ack ::
  "rrc_asn1 \<Rightarrow> ho_req_ack option \<Rightarrow> gNB_RRC_INST \<Rightarrow> gNB_RRC_UE \<Rightarrow> (gNB_RRC_INST \<times> gNB_RRC_UE) res"
where
  "call_ho_req_ack asn f rrc ue =
     (case f of
        None \<Rightarrow> Inl Null_dereference
      | Some F1_ho_acknowledge \<Rightarrow> nr_rrc_f1_ho_acknowledge asn rrc ue
      | Some N2_ho_acknowledge \<Rightarrow> nr_rrc_n2_ho_acknowledge asn rrc ue)"

text \<open>
  The handler in stand-alone mode; the measurement gap
  configuration is not part of the model.
\<close>

definition rrc_CU_process_ue_context_setup_response ::
  "rrc_asn1 \<Rightarrow> setup_resp \<Rightarrow> gNB_RRC_INST \<Rightarrow> gNB_RRC_UE \<Rightarrow>
     (gNB_RRC_INST \<times> gNB_RRC_UE) res" where
  "rrc_CU_process_ue_context_setup_response asn resp rrc ue =
     (let ue = store_cgc (sr_cgc resp) (ue\<lparr>f1_ue_context_active := True\<rparr>) in
      bindr
        (if sr_drbs resp \<noteq> []
         then
           bindr (assertr (drbs ue = [] \<or> length (drbs ue) = length (sr_drbs resp))) (\<lambda>_.
           bindr (assertr (srb1_active ue \<and> srb2_active ue)) (\<lambda>_.
           bindr (store_du_f1u_tunnel (sr_drbs resp) ue) (\<lambda>ue'.
           bindr (if drbs ue = [] then e1_send_bearer_updates (sr_drbs resp) ue' rrc
                  else cuup_notify_reestablishment ue' rrc) (\<lambda>rrc.
             Inr (rrc, ue')))))
         else Inr (rrc, ue)) (\<lambda>(rrc, ue).
      case ho_context ue of
        None \<Rightarrow>
          rrc_gNB_generate_dedicatedRRCReconfiguration asn (cgc_has_reestablishRLC asn (sr_cgc resp))
            rrc ue
      | Some h \<Rightarrow>
          bindr (assert_some (ho_target h)) (\<lambda>t.
          bindr (assert_some (sr_crnti resp)) (\<lambda>crnti.
            call_ho_req_ack asn (ht_ho_req_ack t) rrc
              (set_target (t\<lparr>ht_du_ue_id := sr_du_ue_id resp, ht_new_rnti := crnti\<rparr>) ue)))))"

section \<open>UE context modification response\<close>

record mod_resp =
  mr_drbs :: "f1ap_drb_setup list"
  mr_cgc :: "byte list option"

definition rrc_CU_process_ue_context_modification_response ::
  "rrc_asn1 \<Rightarrow> mod_resp \<Rightarrow> gNB_RRC_INST \<Rightarrow> gNB_RRC_UE \<Rightarrow> (gNB_RRC_INST \<times> gNB_RRC_UE) res" where
  "rrc_CU_process_ue_context_modification_response asn resp rrc ue =
     (let is_inter_cu_ho = (case ho_context ue of None \<Rightarrow> False
            | Some h \<Rightarrow> ho_source h \<noteq> None \<and> ho_target h = None) in
      bindr
        (if mr_drbs resp \<noteq> []
         then
           bindr (store_du_f1u_tunnel (mr_drbs resp) ue) (\<lambda>ue.
           bindr (e1_send_bearer_updates (mr_drbs resp) ue rrc) (\<lambda>rrc. Inr (rrc, ue)))
         else if is_inter_cu_ho
         then bindr (e1_request_pdcp_status ue rrc) (\<lambda>rrc. Inr (rrc, ue))
         else Inr (rrc, ue)) (\<lambda>(rrc, ue).
      bindr
        (case mr_cgc resp of
           None \<Rightarrow> Inr (rrc, ue)
         | Some cgc \<Rightarrow>
             if cgc = [0, 0] then Inr (rrc, ue)
             else rrc_gNB_generate_dedicatedRRCReconfiguration asn (cgc_has_reestablishRLC asn cgc)
                    rrc (store_cgc cgc ue)) (\<lambda>(rrc, ue).
      case ho_context ue of
        None \<Rightarrow> Inr (rrc, ue)
      | Some h \<Rightarrow>
          (case (ho_source h, ho_target h) of
             (Some s, Some t) \<Rightarrow>
               bindr (assertr (hs_old_rnti s = rnti ue)) (\<lambda>_.
               bindr (nr_rrc_apply_target_context rrc ue) (\<lambda>(rrc, ue).
               bindr (nr_rrc_update_cell_assoc_after_ho rrc ue) (\<lambda>(_, ue).
                 Inr (rrc, ue))))
           | _ \<Rightarrow> Inr (rrc, ue)))))"

section \<open>Reconfiguration complete\<close>

definition call_ho_success ::
  "ho_success option \<Rightarrow> gNB_RRC_INST \<Rightarrow> gNB_RRC_UE \<Rightarrow> gNB_RRC_INST res" where
  "call_ho_success f rrc ue =
     (case f of
        None \<Rightarrow> Inl Null_dereference
      | Some F1_ho_complete \<Rightarrow> nr_rrc_f1_ho_complete rrc ue
      | Some N2_ho_complete \<Rightarrow> nr_rrc_n2_ho_complete rrc ue)"

text \<open>
  The answer to NGAP depends on the action of the transaction. The delayed NG actions of the UE
  are not part of the model.
\<close>

definition reconfiguration_answer ::
  "nat \<Rightarrow> rrc_action \<Rightarrow> gNB_RRC_INST \<Rightarrow> gNB_RRC_UE \<Rightarrow> (gNB_RRC_INST \<times> gNB_RRC_UE) res" where
  "reconfiguration_answer xid action rrc ue =
     (case action of
        RRC_PDUSESSION_RELEASE \<Rightarrow> rrc_gNB_send_NGAP_PDUSESSION_RELEASE_RESPONSE xid rrc ue
      | RRC_PDUSESSION_ESTABLISH \<Rightarrow>
          Inr (if n_initial_pdu ue > 0
               then let (rrc, ue) = rrc_gNB_send_NGAP_INITIAL_CONTEXT_SETUP_RESP rrc ue in
                    (rrc, ue\<lparr>n_initial_pdu := 0\<rparr>)
               else if pduSessions ue \<noteq> [] then rrc_gNB_send_NGAP_PDUSESSION_SETUP_RESP rrc ue
               else (rrc, ue))
      | RRC_PDUSESSION_MODIFY \<Rightarrow> rrc_gNB_send_NGAP_PDUSESSION_MODIFY_RESP xid rrc ue
      | _ \<Rightarrow> Inr (rrc, ue))"

definition handle_rrcReconfigurationComplete ::
  "nat \<Rightarrow> gNB_RRC_INST \<Rightarrow> gNB_RRC_UE \<Rightarrow> (gNB_RRC_INST \<times> gNB_RRC_UE) res" where
  "handle_rrcReconfigurationComplete xid rrc ue =
     (let ue = ue\<lparr>ue_reconfiguration_counter := ue_reconfiguration_counter ue + 1,
                  ongoing_reconfiguration := False\<rparr> in
      if xid \<ge> length (xids ue) then Inl Out_of_bounds
      else
        bindr (reconfiguration_answer xid (xids ue ! xid) rrc ue) (\<lambda>(rrc, ue).
        let ue = ue\<lparr>xids := (xids ue)[xid := RRC_ACTION_NONE]\<rparr> in
        bindr
          (case ho_context ue of
             None \<Rightarrow> Inr (rrc, ue)
           | Some h \<Rightarrow>
               bindr (assert_some (ho_target h)) (\<lambda>t.
               bindr (call_ho_success (ht_ho_success t) rrc ue) (\<lambda>rrc.
               bindr (nr_rrc_finalize_ho ue) (\<lambda>ue.
                 Inr (rrc, ue))))) (\<lambda>(rrc, ue).
        bindr (cu_get_f1_ue_data (rrc_ue_id ue) rrc) (\<lambda>d.
          Inr (if du_assoc_id d = 0 then rrc
               else send (F1_modification_complete (du_assoc_id d) (rrc_ue_id ue) (secondary_ue d)) rrc,
               ue)))))"

section \<open>Release request of a DU\<close>

definition rrc_CU_process_ue_context_release_request ::
  "int \<Rightarrow> gNB_RRC_INST \<Rightarrow> gNB_RRC_UE \<Rightarrow> (gNB_RRC_INST \<times> gNB_RRC_UE) res" where
  "rrc_CU_process_ue_context_release_request assoc_id rrc ue =
     (let forward = (\<lambda>ue. bindr (rrc_gNB_send_NGAP_UE_CONTEXT_RELEASE_REQ (Some ue)
                            RADIO_CONNECTION_WITH_UE_LOST rrc) (\<lambda>rrc. Inr (rrc, ue))) in
      case ho_context ue of
        Some h \<Rightarrow>
          bindr (case ho_source h of
                   None \<Rightarrow> Inr None
                 | Some s \<Rightarrow> bindr (deref_cell rrc (hs_cell s)) (\<lambda>c. Inr (Some (s, c)))) (\<lambda>src.
          (case src of
             Some (s, c) \<Rightarrow>
               if c_assoc_id c = assoc_id
               then if c_assoc_id c = 0 then Inr (rrc, ue)
                    else bindr (nr_rrc_finalize_ho ue) (\<lambda>ue'.
                      Inr (send (F1_release_command assoc_id (rrc_ue_id ue) (hs_du_ue_id s) 5) rrc,
                           ue'))
               else bindr (nr_rrc_finalize_ho ue) forward
           | None \<Rightarrow> bindr (nr_rrc_finalize_ho ue) forward))
      | None \<Rightarrow>
          bindr (cu_get_f1_ue_data (rrc_ue_id ue) rrc) (\<lambda>d.
          if du_assoc_id d \<noteq> assoc_id then Inr (rrc, ue) else forward ue))"

section \<open>Return of the UE to the source cell\<close>

fun ue_by_source_cell ::
  "gNB_RRC_INST \<Rightarrow> int \<Rightarrow> u16 \<Rightarrow> gNB_RRC_UE list \<Rightarrow> gNB_RRC_UE option res" where
  "ue_by_source_cell rrc pci r [] = Inr None"
| "ue_by_source_cell rrc pci r (ue # l) =
     (case Option.bind (ho_context ue) ho_source of
        None \<Rightarrow> ue_by_source_cell rrc pci r l
      | Some s \<Rightarrow>
          if hs_cell s = None \<or> hs_old_rnti s \<noteq> r then ue_by_source_cell rrc pci r l
          else
            bindr (deref_cell rrc (hs_cell s)) (\<lambda>c.
              if uint (c_pci c) = pci then Inr (Some ue) else ue_by_source_cell rrc pci r l))"

definition rrc_gNB_get_ue_context_source_cell ::
  "gNB_RRC_INST \<Rightarrow> int \<Rightarrow> u16 \<Rightarrow> gNB_RRC_UE option res" where
  "rrc_gNB_get_ue_context_source_cell rrc pci r = ue_by_source_cell rrc pci r (rrc_ue_head rrc)"

definition f1u_dl_gtp_rollback :: "ho_source_cu \<Rightarrow> gNB_RRC_UE \<Rightarrow> gNB_RRC_UE" where
  "f1u_dl_gtp_rollback s ue =
     ue\<lparr>drbs := map (\<lambda>d. d\<lparr>du_tunnel_config := hs_old_du_tunnel_config s\<rparr>) (drbs ue)\<rparr>"

definition call_ho_cancel ::
  "ho_cancel option \<Rightarrow> gNB_RRC_INST \<Rightarrow> gNB_RRC_UE \<Rightarrow> gNB_RRC_INST res" where
  "call_ho_cancel f rrc ue =
     (case f of
        None \<Rightarrow> Inl Null_dereference
      | Some F1_ho_cancel \<Rightarrow> nr_rrc_cancel_f1_ho rrc ue
      | Some N2_ho_cancel \<Rightarrow> nr_rrc_n2_ho_cancel rrc ue)"

text \<open>
  The parts of \<open>rrc_handle_RRCReestablishmentRequest\<close> that work on the context of the UE, once it
  has been found: \<open>cell\<close> is the cell it was on before, \<open>d\<close> the local copy of its association.
  When that cell is the source of a handover, the handover is cancelled and the UE is associated
  with the source again (\<open>ho_rollback\<close>); then the RNTI, the PCell and the identity at the DU are
  set to those of the message (\<open>reestablish_ue\<close>).
\<close>

record initial_ul_rrc =
  im_crnti :: u16
  im_nr_cellid :: u64
  im_du_ue_id :: u32
  im_container :: "byte list option"

definition ho_rollback ::
  "nr_rrc_cell \<Rightarrow> gNB_RRC_INST \<Rightarrow> gNB_RRC_UE \<Rightarrow> f1_ue_data \<Rightarrow>
     (gNB_RRC_INST \<times> gNB_RRC_UE \<times> f1_ue_data) res" where
  "ho_rollback cell rrc ue d =
     (case Option.bind (ho_context ue) ho_source of
        None \<Rightarrow> Inr (rrc, ue, d)
      | Some s \<Rightarrow>
          bindr (assert_some (hs_cell s)) (\<lambda>_.
          bindr (deref_cell rrc (hs_cell s)) (\<lambda>source_cell.
          if c_cell_id cell \<noteq> c_cell_id source_cell then Inr (rrc, ue, d)
          else
            let ue = ue\<lparr>xids := map (\<lambda>x. if x = RRC_DEDICATED_RECONF then RRC_ACTION_NONE else x)
                         (xids ue)\<rparr> in
            bindr (call_ho_cancel (hs_ho_cancel s) rrc ue) (\<lambda>rrc.
            let ue = store_cgc (hs_old_cgc s) (f1u_dl_gtp_rollback s ue);
                d = d\<lparr>du_assoc_id := c_assoc_id source_cell\<rparr> in
            bindr (cu_update_f1_ue_data (rrc_ue_id ue) d rrc) (\<lambda>rrc.
            bindr (nr_rrc_finalize_ho ue) (\<lambda>ue.
              Inr (rrc, ue, d)))))))"

definition reestablish_ue ::
  "nr_rrc_cell \<Rightarrow> initial_ul_rrc \<Rightarrow> gNB_RRC_INST \<Rightarrow> gNB_RRC_UE \<Rightarrow> f1_ue_data \<Rightarrow>
     (bool \<times> gNB_RRC_INST \<times> gNB_RRC_UE) res" where
  "reestablish_ue cell msg rrc ue d =
     (let ue = ue\<lparr>rnti := im_crnti msg\<rparr> in
      bindr (assertr (c_cell_id cell = im_nr_cellid msg)) (\<lambda>_.
      bindr (rrc_update_ue_pcell rrc cell ue) (\<lambda>(added, ue).
      if added = None then Inr (False, rrc, ue)
      else
        bindr (cu_update_f1_ue_data (rrc_ue_id ue) (d\<lparr>secondary_ue := im_du_ue_id msg\<rparr>) rrc) (\<lambda>rrc.
          Inr (True, rrc, ue)))))"

text \<open>The way of a UE that comes back to the source of its handover.\<close>

definition reestablish_on_cell ::
  "nr_rrc_cell \<Rightarrow> initial_ul_rrc \<Rightarrow> gNB_RRC_INST \<Rightarrow> gNB_RRC_UE \<Rightarrow>
     (bool \<times> gNB_RRC_INST \<times> gNB_RRC_UE) res" where
  "reestablish_on_cell cell msg rrc ue =
     bindr (cu_get_f1_ue_data (rrc_ue_id ue) rrc) (\<lambda>d.
     bindr (ho_rollback cell rrc ue d) (\<lambda>(rrc, ue, d). reestablish_ue cell msg rrc ue d))"

section \<open>Handover command of the AMF\<close>

definition rrc_gNB_process_HandoverCommand ::
  "rrc_asn1 \<Rightarrow> u32 \<Rightarrow> byte list \<Rightarrow> gNB_RRC_INST \<Rightarrow> gNB_RRC_INST res" where
  "rrc_gNB_process_HandoverCommand asn ue_id command rrc =
     (case rrc_gNB_get_ue_context rrc ue_id of
        None \<Rightarrow> Inr rrc
      | Some ue \<Rightarrow>
          let buffer = doRRCReconfiguration_from_HandoverCommand asn command in
          if buffer = []
          then
            bindr (asserted_source ue) (\<lambda>s.
            bindr (assert_some (hs_ho_cancel s)) (\<lambda>f. call_ho_cancel (Some f) rrc ue))
          else rrc_gNB_trigger_reconfiguration_for_handover ue buffer rrc)"

section \<open>Loss of a DU\<close>

definition invalidate_ue ::
  "int \<Rightarrow> gNB_RRC_UE \<Rightarrow> gNB_RRC_INST \<Rightarrow> gNB_RRC_INST res" where
  "invalidate_ue assoc_id ue rrc =
     bindr (rrc_remove_ue_scells_from_du assoc_id ue) (\<lambda>ue.
     let rrc = put_ue ue rrc in
     bindr (cu_get_f1_ue_data (rrc_ue_id ue) rrc) (\<lambda>d.
     if du_assoc_id d \<noteq> assoc_id then Inr rrc
     else
       bindr (cu_update_f1_ue_data (rrc_ue_id ue) (d\<lparr>du_assoc_id := 0\<rparr>) rrc)
         (rrc_gNB_send_NGAP_UE_CONTEXT_RELEASE_REQ (Some ue) RADIO_CONNECTION_WITH_UE_LOST)))"

fun invalidate_ues :: "int \<Rightarrow> gNB_RRC_UE list \<Rightarrow> gNB_RRC_INST \<Rightarrow> gNB_RRC_INST res" where
  "invalidate_ues a [] rrc = Inr rrc"
| "invalidate_ues a (u # us) rrc = bindr (invalidate_ue a u rrc) (invalidate_ues a us)"

definition invalidate_du_connections :: "int \<Rightarrow> gNB_RRC_INST \<Rightarrow> gNB_RRC_INST res" where
  "invalidate_du_connections assoc_id rrc = invalidate_ues assoc_id (rrc_ue_head rrc) rrc"

definition rrc_CU_process_f1_lost_connection :: "int \<Rightarrow> gNB_RRC_INST \<Rightarrow> gNB_RRC_INST res" where
  "rrc_CU_process_f1_lost_connection assoc_id rrc =
     bindr (assertr (assoc_id \<noteq> 0)) (\<lambda>_.
     case get_du_by_assoc_id rrc assoc_id of
       None \<Rightarrow> Inr rrc
     | Some du \<Rightarrow> bindr (rrc_cleanup_du du rrc) (invalidate_du_connections assoc_id))"

end
