(* ===== verification/Nr_Rrc_Ho_F1.thy ===== *)
theory Nr_Rrc_Ho_F1
  imports Nr_Rrc_Ho_Life
begin

text \<open>
  The handover between two DUs of a CU, from the trigger to its end. A handover is prepared
  (the target DU is asked for a context), executed (the UE is ordered to the target), applied
  (the UE is associated with the target) and completed, or rolled back when the UE comes back
  to the source. The steps are first computed exactly, then composed.
\<close>

section \<open>A UE that can be handed over\<close>

definition idle_xids :: "gNB_RRC_UE \<Rightarrow> bool" where
  "idle_xids ue \<longleftrightarrow> xids ue = replicate NR_RRC_TRANSACTION_IDENTIFIER_NUMBER RRC_ACTION_NONE"

text \<open>
  What is needed to fill in the request for a cell: bearers with sessions and flows, and a cell
  that is found by its identity and has a measurement timing.
\<close>

definition f1_target_ok :: "gNB_RRC_INST \<Rightarrow> gNB_RRC_UE \<Rightarrow> cell_ptr \<Rightarrow> nr_rrc_cell \<Rightarrow> bool" where
  "f1_target_ok rrc ue tp tc \<longleftrightarrow>
     bearers_ok (drbs ue) \<and> f1_bearers_ok ue \<and> a3_searchable rrc \<and> cell_store rrc tp = Some tc \<and>
     get_cell_by_cell_id rrc (c_cell_id tc) = Some tp \<and> c_mtc tc \<noteq> None"

text \<open>
  Source and target cell exist and belong to connected DUs, the UE is associated with the DU of
  the source, has a bearer and no transaction and no handover under way.
\<close>

definition ho_ready ::
  "rrc_asn1 \<Rightarrow> gNB_RRC_INST \<Rightarrow> gNB_RRC_UE \<Rightarrow> cell_ptr \<Rightarrow> nr_rrc_cell \<Rightarrow> cell_ptr \<Rightarrow> nr_rrc_cell \<Rightarrow>
     f1_ue_data \<Rightarrow> bool" where
  "ho_ready asn rrc ue sp sc tp tc d \<longleftrightarrow>
     ho_context ue = None \<and> idle_xids ue \<and> drbs ue \<noteq> [] \<and> f1_target_ok rrc ue tp tc \<and>
     serving_ok ue \<and> pduSessions ue \<noteq> [] \<and> length (pduSessions ue) < nat MAX_DRBS_PER_UE \<and>
     do_NR_HandoverPreparationInformation asn (ue_cap_buffer ue) \<noteq> [] \<and>
     cell_store rrc sp = Some sc \<and> c_assoc_id sc \<noteq> 0 \<and> c_assoc_id tc \<noteq> 0 \<and>
     f1_ids rrc (rrc_ue_id ue) = Some d \<and> du_assoc_id d = c_assoc_id sc"

definition f1_source :: "gNB_RRC_UE \<Rightarrow> cell_ptr \<Rightarrow> f1_ue_data \<Rightarrow> ho_source_cu" where
  "f1_source ue sp d =
     \<lparr>hs_cell = Some sp, hs_du_ue_id = secondary_ue d, hs_old_rnti = rnti ue,
      hs_old_cgc = mcg ue, hs_ho_cancel = Some F1_ho_cancel, hs_ho_status_transfer = None,
      hs_old_du_tunnel_config = du_tunnel_config (last (drbs ue))\<rparr>"

definition f1_target :: "cell_ptr \<Rightarrow> u32 \<Rightarrow> u16 \<Rightarrow> ho_target_cu" where
  "f1_target tp i r =
     \<lparr>ht_cell = Some tp, ht_du_ue_id = i, ht_new_rnti = r, ht_ue_ho_prep_info = [],
      ht_ho_trigger = None, ht_ho_req_ack = Some F1_ho_acknowledge,
      ht_ho_success = Some F1_ho_complete, ht_ho_failure = None\<rparr>"

definition f1_ctx :: "gNB_RRC_UE \<Rightarrow> cell_ptr \<Rightarrow> cell_ptr \<Rightarrow> f1_ue_data \<Rightarrow> u32 \<Rightarrow> u16 \<Rightarrow>
    nr_handover_context" where
  "f1_ctx ue sp tp d i r = \<lparr>ho_source = Some (f1_source ue sp d), ho_target = Some (f1_target tp i r)\<rparr>"

named_theorems ho_ops
lemmas [ho_ops] = asserted_target_def asserted_source_def assert_some_def deref_def
  deref_cell_def assertr_def cu_get_f1_ue_data_def cu_update_f1_ue_data_def
  cu_exists_f1_ue_data_def set_target_def set_source_def nr_rrc_finalize_ho_def

lemma save_tunnels_last:
  "l \<noteq> [] \<Longrightarrow> save_tunnels l s = s\<lparr>hs_old_du_tunnel_config := du_tunnel_config (last l)\<rparr>"
proof (induction l rule: rev_induct)
  case (snoc x xs)
  then show ?case by (cases "xs = []") (simp_all add: save_tunnels_def)
qed simp

lemma not_busy:
  "idle_xids ue \<Longrightarrow> \<not> (\<exists>x\<in>set (xids ue). x \<noteq> RRC_ACTION_NONE)"
  by (simp add: idle_xids_def)

section \<open>Preparation\<close>

text \<open>What the encoders of the messages have to give: a message.\<close>

definition meas_encodes :: "rrc_asn1 \<Rightarrow> bool" where
  "meas_encodes asn \<longleftrightarrow> (\<forall>mc. do_NR_MeasConfig asn mc \<noteq> []) \<and> (\<forall>mc. get_meas_timing_config asn mc \<noteq> Some [])"

definition encodes :: "rrc_asn1 \<Rightarrow> bool" where
  "encodes asn \<longleftrightarrow> (\<forall>c. do_NR_HandoverPreparationInformation asn c \<noteq> []) \<and>
     (\<forall>p. do_RRCReconfiguration asn p \<noteq> []) \<and> meas_encodes asn"

text \<open>
  The request for the context of a UE at a target cell: it lists every bearer of the UE with the
  flows mapped to it and carries the measurement configuration of the cell.
\<close>

definition f1_request ::
  "rrc_asn1 \<Rightarrow> gNB_RRC_INST \<Rightarrow> gNB_RRC_UE \<Rightarrow> cell_ptr \<Rightarrow> nr_rrc_cell \<Rightarrow> byte list \<Rightarrow> rrc_msg \<Rightarrow> bool" where
  "f1_request asn rrc ue tp tc hpi m \<longleftrightarrow>
     (\<exists>bearers mc. m = F1_setup_request (c_assoc_id tc) (rrc_ue_id ue) tp bearers (do_NR_MeasConfig asn mc) hpi \<and>
        rrc_fill_f1_drb_to_setup ue = Inr bearers \<and>
        map (\<lambda>b. (ds_id b, map fst (ds_flows b))) bearers = map (\<lambda>d. (drb_id d, bearer_qfis ue d)) (drbs ue) \<and>
        nr_rrc_get_measconfig rrc (c_cell_id tc) = Inr (Some mc))"

lemma context_setup_request_ok:
  assumes "meas_encodes asn" "f1_target_ok rrc ue tp tc" "c_assoc_id tc \<noteq> 0"
  shows "\<exists>m. f1_request asn rrc ue tp tc hpi m \<and>
    (\<forall>h. rrc_f1_ue_context_setup_for_target_du asn (ue\<lparr>ho_context := h\<rparr>) tp (Some hpi) rrc = Inr (send m rrc))"
proof -
  obtain bs where bs: "rrc_fill_f1_drb_to_setup ue = Inr bs"
    "map (\<lambda>b. (ds_id b, map fst (ds_flows b))) bs = map (\<lambda>d. (drb_id d, bearer_qfis ue d)) (drbs ue)"
    using rrc_fill_f1_drb_to_setup_ok assms(2) unfolding f1_target_ok_def by blast
  have tc: "cell_store rrc tp = Some tc" "get_cell_by_cell_id rrc (c_cell_id tc) = Some tp" "a3_searchable rrc"
    using assms(2) by (simp_all add: f1_target_ok_def)
  obtain mc where mc: "nr_rrc_get_measconfig rrc (c_cell_id tc) = Inr (Some mc)"
    using nr_rrc_get_measconfig_ok [OF tc(3,2,1)] assms(2) by (auto simp: f1_target_ok_def)
  have "rrc_fill_f1_drb_to_setup (ue\<lparr>ho_context := h\<rparr>) = Inr bs" for h
    using rrc_fill_f1_drb_to_setup_cong [of "ue\<lparr>ho_context := h\<rparr>" ue] bs(1) by simp
  then have "rrc_f1_ue_context_setup_for_target_du asn (ue\<lparr>ho_context := h\<rparr>) tp (Some hpi) rrc =
      Inr (send (F1_setup_request (c_assoc_id tc) (rrc_ue_id ue) tp bs (do_NR_MeasConfig asn mc) hpi) rrc)" for h
    using assms(1,3) tc(1) mc
    by (simp add: rrc_f1_ue_context_setup_for_target_du_def f1_setup_contents_def Let_def ho_ops meas_encodes_def)
  with bs mc show ?thesis unfolding f1_request_def by blast
qed

lemma trigger_f1_ho_eq:
  assumes "encodes asn" "ho_ready asn rrc ue sp sc tp tc d"
  shows "\<exists>m. f1_request asn rrc ue tp tc (do_NR_HandoverPreparationInformation asn (ue_cap_buffer ue)) m \<and>
    nr_rrc_trigger_f1_ho asn rrc ue sp tp =
      Inr (send m rrc, ue\<lparr>ho_context := Some (f1_ctx ue sp tp d 0 0)\<rparr>)"
proof -
  let ?hpi = "do_NR_HandoverPreparationInformation asn (ue_cap_buffer ue)"
  have "meas_encodes asn" "f1_target_ok rrc ue tp tc" "c_assoc_id tc \<noteq> 0" and idle: "idle_xids ue"
    using assms by (simp_all add: encodes_def ho_ready_def)
  then obtain m where m: "f1_request asn rrc ue tp tc ?hpi m"
    "\<And>h. rrc_f1_ue_context_setup_for_target_du asn (ue\<lparr>ho_context := h\<rparr>) tp (Some ?hpi) rrc = Inr (send m rrc)"
    using context_setup_request_ok by blast
  have "nr_rrc_trigger_f1_ho asn rrc ue sp tp = Inr (send m rrc, ue\<lparr>ho_context := Some (f1_ctx ue sp tp d 0 0)\<rparr>)"
    using assms(2) not_busy [OF idle] m(2)
    by (simp add: ho_ready_def nr_rrc_trigger_f1_ho_def nr_initiate_handover_def Let_def ho_ops
      alloc_ho_ctx_def new_target_cu_def new_source_cu_def f1_ctx_def f1_source_def f1_target_def
      save_tunnels_last)
  with m(1) show ?thesis by blast
qed

section \<open>Execution\<close>

text \<open>A valid answer of the target DU, for the bearers of the UE.\<close>

definition resp_ok :: "setup_resp \<Rightarrow> gNB_RRC_UE \<Rightarrow> bool" where
  "resp_ok resp ue \<longleftrightarrow>
     sr_crnti resp \<noteq> None \<and>
     (sr_drbs resp = [] \<or>
      (length (sr_drbs resp) = length (drbs ue) \<and> srb1_active ue \<and> srb2_active ue \<and>
       (\<forall>f\<in>set (sr_drbs resp). length (f_up_dl_tnl f) = 1 \<and> f_id f < MAX_DRBS_PER_UE \<and>
          f_id f \<in> drb_id ` set (drbs ue))))"

text \<open>Only the tunnels of the bearers change.\<close>

definition drb_keys :: "drb list \<Rightarrow> (int \<times> int) list" where
  "drb_keys l = map (\<lambda>d. (drb_id d, drb_pdusession d)) l"

lemma drb_keys_set_tunnel: "drb_keys (set_drb_tunnel i t l) = drb_keys l"
proof (cases "find_index (\<lambda>d. drb_id d = i) l")
  case (Some k)
  then have "k < length l" using find_index_SomeD by blast
  with Some show ?thesis
    by (simp add: set_drb_tunnel_def drb_keys_def map_update list_update_same_conv)
qed (simp add: set_drb_tunnel_def)

lemma drb_keysD:
  assumes "drb_keys l = drb_keys l'"
  shows "map drb_id l = map drb_id l'" "length l = length l'" "bearers_ok l = bearers_ok l'"
    "map (\<lambda>d. d\<lparr>du_tunnel_config := t\<rparr>) l = map (\<lambda>d. d\<lparr>du_tunnel_config := t\<rparr>) l'"
proof -
  have "map fst (drb_keys l) = map fst (drb_keys l')" using assms by simp
  then show ids: "map drb_id l = map drb_id l'" by (simp add: drb_keys_def comp_def)
  show "length l = length l'" using ids by (rule map_eq_imp_length_eq)
  have "drb_id ` set l = drb_id ` set l'" using arg_cong [OF ids, of set] by simp
  then show "bearers_ok l = bearers_ok l'"
    unfolding bearers_ok_def ids by (metis (no_types, lifting) imageE imageI)
  have "map (\<lambda>(i, p). \<lparr>drb_id = i, drb_pdusession = p, du_tunnel_config = t\<rparr>) (drb_keys l) =
        map (\<lambda>(i, p). \<lparr>drb_id = i, drb_pdusession = p, du_tunnel_config = t\<rparr>) (drb_keys l')"
    using assms by simp
  moreover have "d\<lparr>du_tunnel_config := t\<rparr> =
      \<lparr>drb_id = drb_id d, drb_pdusession = drb_pdusession d, du_tunnel_config = t\<rparr>" for d :: drb
    by (cases d) simp
  then have "(\<lambda>d. d\<lparr>du_tunnel_config := t\<rparr>) =
      (\<lambda>d. \<lparr>drb_id = drb_id d, drb_pdusession = drb_pdusession d, du_tunnel_config = t\<rparr>)"
    by (rule ext)
  ultimately show "map (\<lambda>d. d\<lparr>du_tunnel_config := t\<rparr>) l = map (\<lambda>d. d\<lparr>du_tunnel_config := t\<rparr>) l'"
    by (simp only: drb_keys_def map_map comp_def case_prod_conv)
qed

definition with_tunnels :: "f1ap_drb_setup list \<Rightarrow> drb list \<Rightarrow> drb list" where
  "with_tunnels fs l = fold (\<lambda>f. set_drb_tunnel (f_id f) (hd (f_up_dl_tnl f))) fs l"

lemma drb_keys_with_tunnels: "drb_keys (with_tunnels fs l) = drb_keys l"
  unfolding with_tunnels_def by (induction fs arbitrary: l) (simp_all add: drb_keys_set_tunnel)

lemma store_du_f1u_tunnel_ok:
  assumes "bearers_ok (drbs ue)"
    and "\<forall>f\<in>set fs. length (f_up_dl_tnl f) = 1 \<and> f_id f < MAX_DRBS_PER_UE \<and>
           f_id f \<in> drb_id ` set (drbs ue)"
  shows "store_du_f1u_tunnel fs ue = Inr (ue\<lparr>drbs := with_tunnels fs (drbs ue)\<rparr>)"
  using assms
proof (induction fs arbitrary: ue)
  case Nil
  show ?case by (simp add: with_tunnels_def)
next
  case (Cons f fs)
  obtain t where t: "f_up_dl_tnl f = [t]" using Cons.prems(2) by (auto simp: length_Suc_conv)
  have f: "f_id f < MAX_DRBS_PER_UE" "f_id f \<in> drb_id ` set (drbs ue)"
    using Cons.prems(2) by auto
  then have pos: "0 < f_id f" using Cons.prems(1) by (auto simp: bearers_ok_def)
  let ?ue = "ue\<lparr>drbs := set_drb_tunnel (f_id f) t (drbs ue)\<rparr>"
  note D = drb_keysD [OF drb_keys_set_tunnel [of "f_id f" t "drbs ue"]]
  have "drb_id ` set (drbs ?ue) = drb_id ` set (drbs ue)"
    using arg_cong [OF D(1), of set] by simp
  then have l: "store_du_f1u_tunnel fs ?ue = Inr (?ue\<lparr>drbs := with_tunnels fs (drbs ?ue)\<rparr>)"
    using Cons.IH [of ?ue] Cons.prems D(3) by auto
  have "find (\<lambda>d. drb_id d = f_id f) (drbs ue) \<noteq> None" using f(2) by (auto simp: find_None_iff)
  then have "store_du_f1u_tunnel (f # fs) ue = store_du_f1u_tunnel fs ?ue"
    using t f pos by (auto simp: get_drb_in_range ho_ops split: option.splits)
  with l t show ?case by (simp add: with_tunnels_def)
qed

lemma e1_drb_mods_ok:
  assumes "\<forall>x\<in>set l. 0 < fst x \<and> fst x \<le> MAX_DRBS_PER_UE"
  shows "\<exists>r. e1_drb_mods ue l = Inr r"
  using assms
proof (induction l)
  case (Cons x l)
  then show ?case
    by (cases x) (auto simp: find_pduSession_from_drbId_def get_drb_in_range)
qed simp

text \<open>
  The signalling to the DUs and to the AMF: every message but those to the CU-UP and to PDCP,
  which do not matter for the association.
\<close>

definition is_sig :: "rrc_msg \<Rightarrow> bool" where
  "is_sig m = (case m of E1_bearer_modification _ _ _ \<Rightarrow> False | E1_bearer_reestablishment _ _ _ \<Rightarrow> False
     | E1_pdcp_status_request _ _ _ \<Rightarrow> False | E1_session_modification _ _ _ \<Rightarrow> False
     | E1_bearer_release _ _ \<Rightarrow> False | Pdcp_reestablishment _ _ \<Rightarrow> False | Pdcp_add_srb _ _ \<Rightarrow> False
     | Pdcp_remove_ue _ \<Rightarrow> False | _ \<Rightarrow> True)"

definition sig_sent :: "gNB_RRC_INST \<Rightarrow> rrc_msg list" where
  "sig_sent rrc = filter is_sig (sent rrc)"

lemma sig_sent_send [simp]:
  "sig_sent (send m rrc) = sig_sent rrc @ (if is_sig m then [m] else [])"
  by (simp add: sig_sent_def send_def)

lemma send_fields [simp]:
  "cell_store (send m rrc) = cell_store rrc" "f1_ids (send m rrc) = f1_ids rrc"
  "cuups (send m rrc) = cuups rrc" "transaction_id (send m rrc) = transaction_id rrc"
  "rrc_ue_head (send m rrc) = rrc_ue_head rrc" "dus (send m rrc) = dus rrc"
  "cells (send m rrc) = cells rrc"
  by (simp_all add: send_def)

lemma cuup_notify_ok:
  assumes "bearers_ok (drbs ue)" "pduSessions ue \<noteq> []" "f1_ids rrc (rrc_ue_id ue) = Some d"
  shows "\<exists>ms. cuup_notify_reestablishment ue rrc = Inr (rrc\<lparr>sent := sent rrc @ ms\<rparr>) \<and>
           filter is_sig ms = []"
proof -
  have same: "rrc = rrc\<lparr>sent := sent rrc @ []\<rparr>" by simp
  have "\<forall>x\<in>set (map (\<lambda>d. (drb_id d, du_tunnel_config d)) (drbs ue)).
      0 < fst x \<and> fst x \<le> MAX_DRBS_PER_UE"
    using assms(1) by (auto simp: bearers_ok_def)
  then obtain r where "e1_drb_mods ue (map (\<lambda>d. (drb_id d, du_tunnel_config d)) (drbs ue)) = Inr r"
    using e1_drb_mods_ok by blast
  then show ?thesis
    using assms(2,3) same
    by (auto simp: cuup_notify_reestablishment_def get_existing_cuup_for_ue_def ho_ops send_def is_sig_def
        intro: exI [of _ "[]"])
qed

definition cleared :: "rrc_pdu_session list \<Rightarrow> rrc_pdu_session list" where
  "cleared ss = map (\<lambda>s. s\<lparr>p_nas_pdu := []\<rparr>) ss"

lemma session_params_ok:
  "\<exists>nas' rel'. session_params l ss nas rel = (cleared ss, nas @ nas', rel') \<and>
     length nas' \<le> length ss"
proof (induction ss arbitrary: nas rel)
  case Nil
  show ?case by (simp add: cleared_def)
next
  case (Cons s ss)
  let ?nas = "if p_nas_pdu s \<noteq> [] then [p_nas_pdu s] else []"
  let ?rel = "if p_status s = PDU_SESSION_STATUS_TORELEASE
    then rel @ take (nat MAX_DRBS_PER_UE - length rel) (drbs_of_session l (pdusession_id s)) else rel"
  obtain nas' rel' where
    "session_params l ss (nas @ ?nas) ?rel = (cleared ss, (nas @ ?nas) @ nas', rel')"
    "length nas' \<le> length ss"
    using Cons.IH by blast
  then have "session_params l (s # ss) nas rel = (cleared (s # ss), nas @ (?nas @ nas'), rel')"
    "length (?nas @ nas') \<le> length (s # ss)"
    by (auto simp: Let_def cleared_def split: if_splits)
  then show ?case by blast
qed

definition next_xid :: "gNB_RRC_INST \<Rightarrow> nat" where
  "next_xid rrc = unat (transaction_id rrc + 1) mod NR_RRC_TRANSACTION_IDENTIFIER_NUMBER"

lemma next_xid_less: "next_xid rrc < NR_RRC_TRANSACTION_IDENTIFIER_NUMBER"
  by (simp add: next_xid_def NR_RRC_TRANSACTION_IDENTIFIER_NUMBER_def)

lemma reconfig_params_ok:
  assumes "length (pduSessions ue) < nat MAX_DRBS_PER_UE"
  shows "\<exists>p. get_RRCReconfiguration_params rrc ue b r =
           Inr (p, rrc\<lparr>transaction_id := transaction_id rrc + 1\<rparr>,
                ue\<lparr>pduSessions := cleared (pduSessions ue), ue_nas_pdu := []\<rparr>) \<and>
         rp_transaction_id p = next_xid rrc"
proof -
  obtain nas rel where "session_params (drbs ue) (pduSessions ue) [] [] =
      (cleared (pduSessions ue), nas, rel)" "length nas \<le> length (pduSessions ue)"
    using session_params_ok [of "drbs ue" "pduSessions ue" "[]" "[]"] by auto
  with assms show ?thesis
    by (auto simp: get_RRCReconfiguration_params_def rrc_gNB_get_next_transaction_identifier_def
        next_xid_def Let_def)
qed

lemma f1_ho_acknowledge_ok:
  assumes "encodes asn" and "length (pduSessions ue) < nat MAX_DRBS_PER_UE"
    and "length (xids ue) = NR_RRC_TRANSACTION_IDENTIFIER_NUMBER"
    and "ho_context ue = Some h" "ho_source h = Some s"
    and "f1_ids rrc (rrc_ue_id ue) = Some d" "du_assoc_id d \<noteq> 0"
  shows "\<exists>msg ms. nr_rrc_f1_ho_acknowledge asn rrc ue =
           Inr (rrc\<lparr>transaction_id := transaction_id rrc + 1, sent := sent rrc @ ms\<rparr>,
                ue\<lparr>pduSessions := cleared (pduSessions ue), ue_nas_pdu := [],
                   xids := (xids ue)[next_xid rrc := RRC_DEDICATED_RECONF]\<rparr>) \<and>
         filter is_sig ms =
           [F1_modification_stop (du_assoc_id d) (rrc_ue_id ue) (secondary_ue d) msg]"
proof -
  obtain p where p: "get_RRCReconfiguration_params rrc ue 4 True =
      Inr (p, rrc\<lparr>transaction_id := transaction_id rrc + 1\<rparr>,
           ue\<lparr>pduSessions := cleared (pduSessions ue), ue_nas_pdu := []\<rparr>)"
    "rp_transaction_id p = next_xid rrc"
    using reconfig_params_ok [OF assms(2), of rrc 4 True] by blast
  let ?m = "F1_modification_stop (du_assoc_id d) (rrc_ue_id ue) (secondary_ue d)
      (do_RRCReconfiguration asn p)"
  let ?ms = "?m # (if srb2_active ue then [Pdcp_reestablishment (rrc_ue_id ue) 2] else [])"
  have "nr_rrc_f1_ho_acknowledge asn rrc ue =
      Inr (rrc\<lparr>transaction_id := transaction_id rrc + 1, sent := sent rrc @ ?ms\<rparr>,
           ue\<lparr>pduSessions := cleared (pduSessions ue), ue_nas_pdu := [],
              xids := (xids ue)[next_xid rrc := RRC_DEDICATED_RECONF]\<rparr>)"
    using assms p next_xid_less [of rrc]
    by (simp add: nr_rrc_f1_ho_acknowledge_def set_xid_def Let_def ho_ops encodes_def
      rrc_gNB_trigger_reconfiguration_for_handover_def send_def)
  moreover have "filter is_sig ?ms = [?m]" by (simp add: is_sig_def)
  ultimately show ?thesis by blast
qed

text \<open>The UE context after a valid answer of the target DU.\<close>

definition executed :: "gNB_RRC_INST \<Rightarrow> setup_resp \<Rightarrow> u16 \<Rightarrow> cell_ptr \<Rightarrow> ho_source_cu \<Rightarrow> drb list \<Rightarrow>
    gNB_RRC_UE \<Rightarrow> gNB_RRC_UE" where
  "executed rrc resp r tp s l ue =
     ue\<lparr>f1_ue_context_active := True, mcg := sr_cgc resp, drbs := l,
        ho_context := Some \<lparr>ho_source = Some s,
                            ho_target = Some (f1_target tp (sr_du_ue_id resp) r)\<rparr>,
        pduSessions := cleared (pduSessions ue), ue_nas_pdu := [],
        xids := (xids ue)[next_xid rrc := RRC_DEDICATED_RECONF]\<rparr>"

lemma setup_drbs_ok:
  assumes "resp_ok resp ue" "bearers_ok (drbs ue)" "drbs ue \<noteq> []" "pduSessions ue \<noteq> []"
    "f1_ids rrc (rrc_ue_id ue) = Some d"
  shows "\<exists>l ms. (if sr_drbs resp \<noteq> []
         then
           bindr (assertr (drbs ue = [] \<or> length (drbs ue) = length (sr_drbs resp))) (\<lambda>_.
           bindr (assertr (srb1_active ue \<and> srb2_active ue)) (\<lambda>_.
           bindr (store_du_f1u_tunnel (sr_drbs resp) ue) (\<lambda>ue'.
           bindr (if drbs ue = [] then e1_send_bearer_updates (sr_drbs resp) ue' rrc
                  else cuup_notify_reestablishment ue' rrc) (\<lambda>rrc.
             Inr (rrc, ue')))))
         else Inr (rrc, ue)) = Inr (rrc\<lparr>sent := sent rrc @ ms\<rparr>, ue\<lparr>drbs := l\<rparr>) \<and>
       l = with_tunnels (sr_drbs resp) (drbs ue) \<and> filter is_sig ms = []"
proof (cases "sr_drbs resp = []")
  case True
  have "rrc = rrc\<lparr>sent := sent rrc @ []\<rparr>" "ue = ue\<lparr>drbs := drbs ue\<rparr>" by simp_all
  with True show ?thesis
    by (intro exI [of _ "drbs ue"] exI [of _ "[]"]) (simp add: with_tunnels_def)
next
  case False
  then have r: "length (sr_drbs resp) = length (drbs ue)" "srb1_active ue" "srb2_active ue"
    "\<forall>f\<in>set (sr_drbs resp). length (f_up_dl_tnl f) = 1 \<and> f_id f < MAX_DRBS_PER_UE \<and>
       f_id f \<in> drb_id ` set (drbs ue)"
    using assms(1) by (auto simp: resp_ok_def)
  let ?l = "with_tunnels (sr_drbs resp) (drbs ue)"
  have l: "store_du_f1u_tunnel (sr_drbs resp) ue = Inr (ue\<lparr>drbs := ?l\<rparr>)"
    using store_du_f1u_tunnel_ok [OF assms(2) r(4)] .
  have "bearers_ok ?l" using assms(2) drb_keysD(3) [OF drb_keys_with_tunnels] by simp
  then obtain ms where "cuup_notify_reestablishment (ue\<lparr>drbs := ?l\<rparr>) rrc =
      Inr (rrc\<lparr>sent := sent rrc @ ms\<rparr>)" "filter is_sig ms = []"
    using cuup_notify_ok [of "ue\<lparr>drbs := ?l\<rparr>" rrc d] assms(4,5) by auto
  with l r False assms(3) show ?thesis by (auto simp: assertr_def)
qed

lemma setup_response_ok:
  assumes enc: "encodes asn" and resp: "resp_ok resp ue" "sr_crnti resp = Some r"
    and ue: "bearers_ok (drbs ue)" "drbs ue \<noteq> []" "pduSessions ue \<noteq> []"
      "length (pduSessions ue) < nat MAX_DRBS_PER_UE"
      "length (xids ue) = NR_RRC_TRANSACTION_IDENTIFIER_NUMBER"
    and ctx: "ho_context ue = Some \<lparr>ho_source = Some s, ho_target = Some (f1_target tp i0 r0)\<rparr>"
    and f1: "f1_ids rrc (rrc_ue_id ue) = Some d" "du_assoc_id d \<noteq> 0"
  shows "\<exists>l msg ms. rrc_CU_process_ue_context_setup_response asn resp rrc ue =
           Inr (rrc\<lparr>transaction_id := transaction_id rrc + 1, sent := sent rrc @ ms\<rparr>,
                executed rrc resp r tp s l ue) \<and>
         l = with_tunnels (sr_drbs resp) (drbs ue) \<and>
         filter is_sig ms =
           [F1_modification_stop (du_assoc_id d) (rrc_ue_id ue) (secondary_ue d) msg]"
proof -
  let ?ue = "store_cgc (sr_cgc resp) (ue\<lparr>f1_ue_context_active := True\<rparr>)"
  have "resp_ok resp ?ue" "bearers_ok (drbs ?ue)" "drbs ?ue \<noteq> []" "pduSessions ?ue \<noteq> []"
    "f1_ids rrc (rrc_ue_id ?ue) = Some d"
    using resp ue f1 by (simp_all add: store_cgc_def resp_ok_def)
  from setup_drbs_ok [OF this] obtain l ms where l: "(if sr_drbs resp \<noteq> []
         then
           bindr (assertr (drbs ?ue = [] \<or> length (drbs ?ue) = length (sr_drbs resp))) (\<lambda>_.
           bindr (assertr (srb1_active ?ue \<and> srb2_active ?ue)) (\<lambda>_.
           bindr (store_du_f1u_tunnel (sr_drbs resp) ?ue) (\<lambda>ue'.
           bindr (if drbs ?ue = [] then e1_send_bearer_updates (sr_drbs resp) ue' rrc
                  else cuup_notify_reestablishment ue' rrc) (\<lambda>rrc.
             Inr (rrc, ue')))))
         else Inr (rrc, ?ue)) = Inr (rrc\<lparr>sent := sent rrc @ ms\<rparr>, ?ue\<lparr>drbs := l\<rparr>)"
    "l = with_tunnels (sr_drbs resp) (drbs ?ue)" "filter is_sig ms = []" by blast
  let ?rrc1 = "rrc\<lparr>sent := sent rrc @ ms\<rparr>"
  let ?h = "\<lparr>ho_source = Some s, ho_target = Some (f1_target tp (sr_du_ue_id resp) r)\<rparr>"
  let ?ue1 = "?ue\<lparr>drbs := l, ho_context := Some ?h\<rparr>"
  obtain msg ms' where ack: "nr_rrc_f1_ho_acknowledge asn ?rrc1 ?ue1 =
      Inr (?rrc1\<lparr>transaction_id := transaction_id rrc + 1, sent := sent ?rrc1 @ ms'\<rparr>,
           ?ue1\<lparr>pduSessions := cleared (pduSessions ue), ue_nas_pdu := [],
              xids := (xids ue)[next_xid rrc := RRC_DEDICATED_RECONF]\<rparr>)"
    "filter is_sig ms' = [F1_modification_stop (du_assoc_id d) (rrc_ue_id ue) (secondary_ue d) msg]"
    using f1_ho_acknowledge_ok [OF enc, of ?ue1 ?h s ?rrc1 d] ue f1
    by (auto simp: store_cgc_def next_xid_def)
  have "rrc_CU_process_ue_context_setup_response asn resp rrc ue =
      nr_rrc_f1_ho_acknowledge asn ?rrc1 ?ue1"
    unfolding rrc_CU_process_ue_context_setup_response_def Let_def l(1)
    using ctx resp(2)
    by (simp add: store_cgc_def assert_some_def call_ho_req_ack_def set_target_def f1_target_def)
  moreover have "?ue1\<lparr>pduSessions := cleared (pduSessions ue), ue_nas_pdu := [],
      xids := (xids ue)[next_xid rrc := RRC_DEDICATED_RECONF]\<rparr> = executed rrc resp r tp s l ue"
    by (simp add: executed_def store_cgc_def)
  moreover have "l = with_tunnels (sr_drbs resp) (drbs ue)" using l(2) by (simp add: store_cgc_def)
  ultimately show ?thesis
    using ack l(3) by (intro exI [of _ l] exI [of _ msg] exI [of _ "ms @ ms'"]) simp
qed

section \<open>Application\<close>

lemma modification_response_ok:
  assumes ctx: "ho_context ue = Some \<lparr>ho_source = Some s, ho_target = Some (f1_target tp i r)\<rparr>"
    and "hs_old_rnti s = rnti ue" and ok: "serving_ok ue"
    and f1: "f1_ids rrc (rrc_ue_id ue) = Some d" and tc: "cell_store rrc tp = Some tc"
  shows "rrc_CU_process_ue_context_modification_response asn \<lparr>mr_drbs = [], mr_cgc = None\<rparr> rrc ue =
         Inr (rrc\<lparr>f1_ids := (f1_ids rrc)(rrc_ue_id ue \<mapsto>
                  d\<lparr>secondary_ue := i, du_assoc_id := c_assoc_id tc\<rparr>)\<rparr>,
              ue\<lparr>rnti := r, serving_cells := pcell_entry tc # kept_cells ue\<rparr>)"
proof -
  let ?d = "d\<lparr>secondary_ue := i, du_assoc_id := c_assoc_id tc\<rparr>"
  let ?rrc = "rrc\<lparr>f1_ids := (f1_ids rrc)(rrc_ue_id ue \<mapsto> ?d)\<rparr>" and ?ue = "ue\<lparr>rnti := r\<rparr>"
  have "nr_rrc_apply_target_context rrc ue = Inr (?rrc, ?ue)"
    using ctx f1 tc by (simp add: nr_rrc_apply_target_context_def ho_ops f1_target_def)
  moreover have "serving_ok ?ue" "kept_cells ?ue = kept_cells ue"
    using ok by (simp_all add: serving_ok_def kept_cells_def)
  then have "rrc_update_ue_pcell ?rrc tc ?ue =
      Inr (Some (pcell_entry tc), ?ue\<lparr>serving_cells := pcell_entry tc # kept_cells ue\<rparr>)"
    using rrc_update_ue_pcell_eq [of ?ue ?rrc ?d tc] by simp
  then have "nr_rrc_update_cell_assoc_after_ho ?rrc ?ue =
      Inr (True, ?ue\<lparr>serving_cells := pcell_entry tc # kept_cells ue\<rparr>)"
    using ctx tc by (simp add: nr_rrc_update_cell_assoc_after_ho_def ho_ops f1_target_def)
  ultimately show ?thesis
    using assms(1,2)
    by (simp add: rrc_CU_process_ue_context_modification_response_def assertr_def)
qed

section \<open>Completion\<close>

definition quiet_action :: "rrc_action \<Rightarrow> bool" where
  "quiet_action a \<longleftrightarrow> a = RRC_DEDICATED_RECONF \<or> a = RRC_REESTABLISH_COMPLETE"

lemma reconfiguration_complete_ok:
  assumes xid: "xid < length (xids ue)" "quiet_action (xids ue ! xid)"
    and ctx: "ho_context ue = Some \<lparr>ho_source = Some s, ho_target = Some (f1_target tp i r)\<rparr>"
    and sc: "hs_cell s = Some sp" "cell_store rrc sp = Some sc" "c_assoc_id sc \<noteq> 0"
    and f1: "f1_ids rrc (rrc_ue_id ue) = Some d" "du_assoc_id d \<noteq> 0"
  shows "handle_rrcReconfigurationComplete xid rrc ue =
         Inr (send (F1_modification_complete (du_assoc_id d) (rrc_ue_id ue) (secondary_ue d))
                (send (F1_release_command (c_assoc_id sc) (rrc_ue_id ue) (hs_du_ue_id s) 5) rrc),
              ue\<lparr>ue_reconfiguration_counter := ue_reconfiguration_counter ue + 1,
                 ongoing_reconfiguration := False, xids := (xids ue)[xid := RRC_ACTION_NONE],
                 ho_context := None\<rparr>)"
  using assms
  by (auto simp: handle_rrcReconfigurationComplete_def Let_def quiet_action_def
      reconfiguration_answer_def ho_ops call_ho_success_def f1_target_def nr_rrc_f1_ho_complete_def)

section \<open>Rollback\<close>

lemma reestablish_on_source_ok:
  assumes ctx: "ho_context ue = Some \<lparr>ho_source = Some s, ho_target = Some (f1_target tp i r)\<rparr>"
    and s: "hs_cell s = Some sp" "cell_store rrc sp = Some sc" "hs_ho_cancel s = Some F1_ho_cancel"
    and tc: "cell_store rrc tp = Some tc"
    and ok: "serving_ok ue" and f1: "f1_ids rrc (rrc_ue_id ue) = Some d"
    and msg: "im_nr_cellid msg = c_cell_id sc"
  shows "reestablish_on_cell sc msg rrc ue =
         Inr (True, (send (F1_release_command (c_assoc_id tc) (rrc_ue_id ue) i 5) rrc)
                \<lparr>f1_ids := (f1_ids rrc)(rrc_ue_id ue \<mapsto>
                   d\<lparr>du_assoc_id := c_assoc_id sc, secondary_ue := im_du_ue_id msg\<rparr>)\<rparr>,
              ue\<lparr>xids := map (\<lambda>x. if x = RRC_DEDICATED_RECONF then RRC_ACTION_NONE else x) (xids ue),
                 drbs := map (\<lambda>d. d\<lparr>du_tunnel_config := hs_old_du_tunnel_config s\<rparr>) (drbs ue),
                 mcg := hs_old_cgc s, ho_context := None, rnti := im_crnti msg,
                 serving_cells := pcell_entry sc # kept_cells ue\<rparr>)"
proof -
  let ?d = "d\<lparr>du_assoc_id := c_assoc_id sc\<rparr>"
  let ?rrc = "(send (F1_release_command (c_assoc_id tc) (rrc_ue_id ue) i 5) rrc)
      \<lparr>f1_ids := (f1_ids rrc)(rrc_ue_id ue \<mapsto> ?d)\<rparr>"
  let ?ue = "ue\<lparr>xids := map (\<lambda>x. if x = RRC_DEDICATED_RECONF then RRC_ACTION_NONE else x) (xids ue),
      drbs := map (\<lambda>d. d\<lparr>du_tunnel_config := hs_old_du_tunnel_config s\<rparr>) (drbs ue),
      mcg := hs_old_cgc s, ho_context := None\<rparr>"
  have "ho_rollback sc rrc ue d = Inr (?rrc, ?ue, ?d)"
    using ctx s tc f1
    by (simp add: ho_rollback_def ho_ops Let_def call_ho_cancel_def nr_rrc_cancel_f1_ho_def
      f1_target_def f1u_dl_gtp_rollback_def store_cgc_def)
  moreover have "serving_ok (?ue\<lparr>rnti := im_crnti msg\<rparr>)" "kept_cells (?ue\<lparr>rnti := im_crnti msg\<rparr>) = kept_cells ue"
    using ok by (simp_all add: serving_ok_def kept_cells_def)
  then have "rrc_update_ue_pcell ?rrc sc (?ue\<lparr>rnti := im_crnti msg\<rparr>) = Inr (Some (pcell_entry sc),
      ?ue\<lparr>rnti := im_crnti msg, serving_cells := pcell_entry sc # kept_cells ue\<rparr>)"
    using rrc_update_ue_pcell_eq [of "?ue\<lparr>rnti := im_crnti msg\<rparr>" ?rrc ?d sc] by simp
  ultimately show ?thesis
    using f1 msg by (simp add: reestablish_on_cell_def reestablish_ue_def ho_ops Let_def)
qed

section \<open>The whole procedure\<close>

text \<open>The trigger and the answer of the target DU; then also the answer of the source DU.\<close>

definition f1_ho_execute ::
  "rrc_asn1 \<Rightarrow> setup_resp \<Rightarrow> cell_ptr \<Rightarrow> cell_ptr \<Rightarrow> gNB_RRC_INST \<Rightarrow> gNB_RRC_UE \<Rightarrow>
     (gNB_RRC_INST \<times> gNB_RRC_UE) res" where
  "f1_ho_execute asn resp sp tp rrc ue =
     bindr (nr_rrc_trigger_f1_ho asn rrc ue sp tp)
       (\<lambda>(rrc, ue). rrc_CU_process_ue_context_setup_response asn resp rrc ue)"

definition f1_ho_apply ::
  "rrc_asn1 \<Rightarrow> setup_resp \<Rightarrow> cell_ptr \<Rightarrow> cell_ptr \<Rightarrow> gNB_RRC_INST \<Rightarrow> gNB_RRC_UE \<Rightarrow>
     (gNB_RRC_INST \<times> gNB_RRC_UE) res" where
  "f1_ho_apply asn resp sp tp rrc ue =
     bindr (f1_ho_execute asn resp sp tp rrc ue)
       (\<lambda>(rrc, ue). rrc_CU_process_ue_context_modification_response asn
                     \<lparr>mr_drbs = [], mr_cgc = None\<rparr> rrc ue)"

text \<open>The request and its preparation information.\<close>

definition f1_ho_request ::
  "rrc_asn1 \<Rightarrow> gNB_RRC_INST \<Rightarrow> gNB_RRC_UE \<Rightarrow> cell_ptr \<Rightarrow> nr_rrc_cell \<Rightarrow> rrc_msg \<Rightarrow> bool" where
  "f1_ho_request asn rrc ue tp tc =
     f1_request asn rrc ue tp tc (do_NR_HandoverPreparationInformation asn (ue_cap_buffer ue))"

lemma f1_request_is_sig: "f1_request asn rrc ue tp tc hpi m \<Longrightarrow> is_sig m"
  by (auto simp: f1_request_def is_sig_def)

lemma f1_ho_request_is_sig: "f1_ho_request asn rrc ue tp tc m \<Longrightarrow> is_sig m"
  by (simp add: f1_ho_request_def f1_request_is_sig)

lemma f1_ho_execute_ok:
  assumes enc: "encodes asn" and ready: "ho_ready asn rrc ue sp sc tp tc d"
    and resp: "resp_ok resp ue" "sr_crnti resp = Some r"
  shows "\<exists>req l msg ms. f1_ho_execute asn resp sp tp rrc ue =
           Inr (rrc\<lparr>transaction_id := transaction_id rrc + 1,
                    sent := sent rrc @ req # ms\<rparr>,
                executed rrc resp r tp (f1_source ue sp d) l ue) \<and>
         l = with_tunnels (sr_drbs resp) (drbs ue) \<and>
         f1_ho_request asn rrc ue tp tc req \<and>
         filter is_sig ms = [F1_modification_stop (c_assoc_id sc) (rrc_ue_id ue) (secondary_ue d) msg]"
proof -
  obtain req where req: "f1_ho_request asn rrc ue tp tc req"
    "nr_rrc_trigger_f1_ho asn rrc ue sp tp = Inr (send req rrc, ue\<lparr>ho_context := Some (f1_ctx ue sp tp d 0 0)\<rparr>)"
    using trigger_f1_ho_eq [OF enc ready] unfolding f1_ho_request_def by blast
  let ?rrc = "send req rrc"
  let ?ue = "ue\<lparr>ho_context := Some (f1_ctx ue sp tp d 0 0)\<rparr>"
  have R: "bearers_ok (drbs ?ue)" "drbs ?ue \<noteq> []" "pduSessions ?ue \<noteq> []"
    "length (pduSessions ?ue) < nat MAX_DRBS_PER_UE"
    "length (xids ?ue) = NR_RRC_TRANSACTION_IDENTIFIER_NUMBER"
    "f1_ids ?rrc (rrc_ue_id ?ue) = Some d" "du_assoc_id d \<noteq> 0" "du_assoc_id d = c_assoc_id sc"
    using ready by (simp_all add: ho_ready_def f1_target_ok_def idle_xids_def)
  have ctx: "ho_context ?ue = Some \<lparr>ho_source = Some (f1_source ue sp d),
      ho_target = Some (f1_target tp 0 0)\<rparr>" by (simp add: f1_ctx_def)
  have "resp_ok resp ?ue" using resp(1) by (simp add: resp_ok_def)
  from setup_response_ok [OF enc this resp(2) R(1-5) ctx R(6,7)] obtain l msg ms where
    "rrc_CU_process_ue_context_setup_response asn resp ?rrc ?ue =
       Inr (?rrc\<lparr>transaction_id := transaction_id ?rrc + 1, sent := sent ?rrc @ ms\<rparr>,
            executed ?rrc resp r tp (f1_source ue sp d) l ?ue)"
    "l = with_tunnels (sr_drbs resp) (drbs ue)"
    "filter is_sig ms = [F1_modification_stop (du_assoc_id d) (rrc_ue_id ue) (secondary_ue d) msg]"
    by auto
  moreover have "executed ?rrc resp r tp (f1_source ue sp d) l ?ue =
      executed rrc resp r tp (f1_source ue sp d) l ue"
    by (simp add: executed_def next_xid_def)
  ultimately show ?thesis
    using R(8) req by (auto simp: f1_ho_execute_def send_def)
qed

lemma executed_fields [simp]:
  "rrc_ue_id (executed rrc resp r tp s l ue) = rrc_ue_id ue"
  "rnti (executed rrc resp r tp s l ue) = rnti ue"
  "serving_cells (executed rrc resp r tp s l ue) = serving_cells ue"
  "drbs (executed rrc resp r tp s l ue) = l"
  "mcg (executed rrc resp r tp s l ue) = sr_cgc resp"
  "ho_context (executed rrc resp r tp s l ue) =
     Some \<lparr>ho_source = Some s, ho_target = Some (f1_target tp (sr_du_ue_id resp) r)\<rparr>"
  "xids (executed rrc resp r tp s l ue) = (xids ue)[next_xid rrc := RRC_DEDICATED_RECONF]"
  by (simp_all add: executed_def)

lemma f1_ho_apply_ok:
  assumes enc: "encodes asn" and ready: "ho_ready asn rrc ue sp sc tp tc d"
    and resp: "resp_ok resp ue" "sr_crnti resp = Some r"
  shows "\<exists>req l msg ms. f1_ho_apply asn resp sp tp rrc ue =
           Inr (rrc\<lparr>transaction_id := transaction_id rrc + 1,
                    sent := sent rrc @ req # ms,
                    f1_ids := (f1_ids rrc)(rrc_ue_id ue \<mapsto>
                      d\<lparr>secondary_ue := sr_du_ue_id resp, du_assoc_id := c_assoc_id tc\<rparr>)\<rparr>,
                (executed rrc resp r tp (f1_source ue sp d) l ue)
                  \<lparr>rnti := r, serving_cells := pcell_entry tc # kept_cells ue\<rparr>) \<and>
         l = with_tunnels (sr_drbs resp) (drbs ue) \<and>
         f1_ho_request asn rrc ue tp tc req \<and>
         filter is_sig ms = [F1_modification_stop (c_assoc_id sc) (rrc_ue_id ue) (secondary_ue d) msg]"
proof -
  obtain req l msg ms where ex: "f1_ho_execute asn resp sp tp rrc ue =
      Inr (rrc\<lparr>transaction_id := transaction_id rrc + 1,
               sent := sent rrc @ req # ms\<rparr>,
           executed rrc resp r tp (f1_source ue sp d) l ue)"
    "l = with_tunnels (sr_drbs resp) (drbs ue)" "f1_ho_request asn rrc ue tp tc req"
    "filter is_sig ms = [F1_modification_stop (c_assoc_id sc) (rrc_ue_id ue) (secondary_ue d) msg]"
    using f1_ho_execute_ok [OF assms] by blast
  let ?rrc = "rrc\<lparr>transaction_id := transaction_id rrc + 1,
      sent := sent rrc @ req # ms\<rparr>"
  let ?ue = "executed rrc resp r tp (f1_source ue sp d) l ue"
  have "serving_ok ?ue" "kept_cells ?ue = kept_cells ue"
    "f1_ids ?rrc (rrc_ue_id ?ue) = Some d" "cell_store ?rrc tp = Some tc"
    using ready by (simp_all add: ho_ready_def f1_target_ok_def serving_ok_def kept_cells_def)
  with modification_response_ok [OF executed_fields(6) _ this(1,3,4), of asn] ex show ?thesis
    by (auto simp: f1_ho_apply_def f1_source_def)
qed

end
