(* ===== verification/Nr_Rrc_Ho_Props.thy ===== *)
theory Nr_Rrc_Ho_Props
  imports Nr_Rrc_Ho_F1
begin

text \<open>
  What the handover between two DUs achieves: the UE ends on the target with the tunnels of the
  target, or, when it comes back, on the source. Then the cases in which the handlers do not
  fit: a trigger during a transaction, a completion before the answer of the source DU, the loss
  of the source DU, and the source side of a handover between CUs.
\<close>

section \<open>Bearers and transactions\<close>

lemma set_drb_tunnel_Cons:
  "set_drb_tunnel i t (d # l) =
     (if drb_id d = i then d\<lparr>du_tunnel_config := t\<rparr> # l else d # set_drb_tunnel i t l)"
  by (simp add: set_drb_tunnel_def split: option.splits)

lemma find_set_drb_tunnel:
  "find (\<lambda>d. drb_id d = i) (set_drb_tunnel j t l) =
   map_option (\<lambda>d. if i = j then d\<lparr>du_tunnel_config := t\<rparr> else d) (find (\<lambda>d. drb_id d = i) l)"
proof (induction l)
  case Nil
  show ?case by (simp add: set_drb_tunnel_def)
next
  case (Cons d l)
  then show ?case by (cases "drb_id d = i"; cases "drb_id d = j") (auto simp: set_drb_tunnel_Cons option.map_ident)
qed

definition tunnel_of :: "drb list \<Rightarrow> int \<Rightarrow> gtpu_tunnel option" where
  "tunnel_of l i = map_option du_tunnel_config (find (\<lambda>d. drb_id d = i) l)"

lemma tunnel_of_set: "i \<in> drb_id ` set l \<Longrightarrow> tunnel_of (set_drb_tunnel i t l) i = Some t"
proof -
  assume "i \<in> drb_id ` set l"
  then have "find (\<lambda>d. drb_id d = i) l \<noteq> None" by (auto simp: find_None_iff)
  then show ?thesis by (auto simp: tunnel_of_def find_set_drb_tunnel)
qed

lemma tunnel_of_set_other: "i \<noteq> j \<Longrightarrow> tunnel_of (set_drb_tunnel j t l) i = tunnel_of l i"
  by (simp add: tunnel_of_def find_set_drb_tunnel option.map_comp comp_def)

lemma with_tunnels_other:
  "i \<notin> f_id ` set fs \<Longrightarrow> tunnel_of (with_tunnels fs l) i = tunnel_of l i"
  unfolding with_tunnels_def
  by (induction fs arbitrary: l) (auto simp: tunnel_of_set_other)

lemma with_tunnels_of:
  assumes "distinct (map f_id fs)" "f \<in> set fs" "f_id f \<in> drb_id ` set l"
  shows "tunnel_of (with_tunnels fs l) (f_id f) = Some (hd (f_up_dl_tnl f))"
  using assms
proof (induction fs arbitrary: l)
  case (Cons g fs)
  let ?l = "set_drb_tunnel (f_id g) (hd (f_up_dl_tnl g)) l"
  have step: "with_tunnels (g # fs) l = with_tunnels fs ?l" by (simp add: with_tunnels_def)
  have "map drb_id ?l = map drb_id l" using drb_keysD(1) [OF drb_keys_set_tunnel] .
  from arg_cong [OF this, of set] have ids: "drb_id ` set ?l = drb_id ` set l" by simp
  show ?case
  proof (cases "f = g")
    case True
    then show ?thesis
      using Cons.prems by (simp add: step with_tunnels_other tunnel_of_set)
  next
    case False
    then show ?thesis using Cons.prems Cons.IH [of ?l] ids by (simp add: step)
  qed
qed simp

lemma idle_after:
  assumes "idle_xids ue"
  shows "(xids ue)[k := a, k := RRC_ACTION_NONE] = xids ue"
  using assms unfolding idle_xids_def
  by (cases "k < NR_RRC_TRANSACTION_IDENTIFIER_NUMBER")
     (simp_all add: list_update_same_conv list_update_beyond)

lemma idle_cancelled:
  assumes "idle_xids ue"
  shows "map (\<lambda>x. if x = RRC_DEDICATED_RECONF then RRC_ACTION_NONE else x)
           ((xids ue)[k := RRC_DEDICATED_RECONF]) = xids ue"
  using assms unfolding idle_xids_def
  by (cases "k < NR_RRC_TRANSACTION_IDENTIFIER_NUMBER")
     (simp_all add: map_update list_update_same_conv list_update_beyond)

lemma ho_readyD:
  assumes "ho_ready asn rrc ue sp sc tp tc d"
  shows "idle_xids ue" "serving_ok ue" "cell_store rrc sp = Some sc" "cell_store rrc tp = Some tc"
    "c_assoc_id sc \<noteq> 0" "c_assoc_id tc \<noteq> 0" "f1_ids rrc (rrc_ue_id ue) = Some d"
    "du_assoc_id d = c_assoc_id sc" "ho_context ue = None"
    "next_xid rrc < length (xids ue)" "xids ue ! next_xid rrc = RRC_ACTION_NONE"
  using assms next_xid_less [of rrc] by (simp_all add: ho_ready_def f1_target_ok_def idle_xids_def)

lemma sig_sent_app: "sig_sent (rrc\<lparr>sent := sent rrc @ ms\<rparr>) = sig_sent rrc @ filter is_sig ms"
  by (simp add: sig_sent_def)

section \<open>Success\<close>

text \<open>The handover up to the completion by the UE.\<close>

definition f1_ho_run ::
  "rrc_asn1 \<Rightarrow> setup_resp \<Rightarrow> cell_ptr \<Rightarrow> cell_ptr \<Rightarrow> gNB_RRC_INST \<Rightarrow> gNB_RRC_UE \<Rightarrow>
     (gNB_RRC_INST \<times> gNB_RRC_UE) res" where
  "f1_ho_run asn resp sp tp rrc ue =
     bindr (f1_ho_apply asn resp sp tp rrc ue)
       (\<lambda>(rrc', ue'). handle_rrcReconfigurationComplete (next_xid rrc) rrc' ue')"

text \<open>The UE is on a cell: association, RNTI, serving cells, and nothing is under way.\<close>

definition settled_on ::
  "nr_rrc_cell \<Rightarrow> u32 \<Rightarrow> u16 \<Rightarrow> gNB_RRC_INST \<Rightarrow> gNB_RRC_UE \<Rightarrow> bool" where
  "settled_on c du_ue r rrc ue \<longleftrightarrow>
     ho_context ue = None \<and> idle_xids ue \<and> rnti ue = r \<and> serving_ok ue \<and>
     serving_cells ue \<noteq> [] \<and> hd (serving_cells ue) = pcell_entry c \<and>
     (\<exists>d. f1_ids rrc (rrc_ue_id ue) = Some d \<and> secondary_ue d = du_ue \<and>
          du_assoc_id d = c_assoc_id c)"

text \<open>The UE context at the end.\<close>

definition completed ::
  "gNB_RRC_INST \<Rightarrow> setup_resp \<Rightarrow> u16 \<Rightarrow> cell_ptr \<Rightarrow> nr_rrc_cell \<Rightarrow> ho_source_cu \<Rightarrow> gNB_RRC_UE \<Rightarrow>
     gNB_RRC_UE" where
  "completed rrc resp r tp tc s ue =
     (executed rrc resp r tp s (with_tunnels (sr_drbs resp) (drbs ue)) ue)
       \<lparr>rnti := r, serving_cells := pcell_entry tc # kept_cells ue,
        ue_reconfiguration_counter := ue_reconfiguration_counter ue + 1,
        ongoing_reconfiguration := False, xids := xids ue, ho_context := None\<rparr>"

lemma completed_fields [simp]:
  "rrc_ue_id (completed rrc resp r tp tc s ue) = rrc_ue_id ue"
  "rnti (completed rrc resp r tp tc s ue) = r"
  "ho_context (completed rrc resp r tp tc s ue) = None"
  "xids (completed rrc resp r tp tc s ue) = xids ue"
  "mcg (completed rrc resp r tp tc s ue) = sr_cgc resp"
  "drbs (completed rrc resp r tp tc s ue) = with_tunnels (sr_drbs resp) (drbs ue)"
  "serving_cells (completed rrc resp r tp tc s ue) = pcell_entry tc # kept_cells ue"
  by (simp_all add: completed_def)

lemma f1_ho_run_ok:
  assumes "encodes asn" and "ho_ready asn rrc ue sp sc tp tc d"
    and "resp_ok resp ue" and "sr_crnti resp = Some r"
  shows "\<exists>rrc' req msg. f1_ho_run asn resp sp tp rrc ue =
           Inr (rrc', completed rrc resp r tp tc (f1_source ue sp d) ue) \<and>
    f1_ho_request asn rrc ue tp tc req \<and>
    f1_ids rrc' = (f1_ids rrc)(rrc_ue_id ue \<mapsto>
      d\<lparr>secondary_ue := sr_du_ue_id resp, du_assoc_id := c_assoc_id tc\<rparr>) \<and>
    sig_sent rrc' = sig_sent rrc @
      [req,
       F1_modification_stop (c_assoc_id sc) (rrc_ue_id ue) (secondary_ue d) msg,
       F1_release_command (c_assoc_id sc) (rrc_ue_id ue) (secondary_ue d) 5,
       F1_modification_complete (c_assoc_id tc) (rrc_ue_id ue) (sr_du_ue_id resp)]"
proof -
  note R = ho_readyD [OF assms(2)]
  let ?s = "f1_source ue sp d"
  let ?d = "d\<lparr>secondary_ue := sr_du_ue_id resp, du_assoc_id := c_assoc_id tc\<rparr>"
  let ?ue = "(executed rrc resp r tp ?s (with_tunnels (sr_drbs resp) (drbs ue)) ue)
      \<lparr>rnti := r, serving_cells := pcell_entry tc # kept_cells ue\<rparr>"
  obtain req msg ms where ap: "f1_ho_apply asn resp sp tp rrc ue =
      Inr (rrc\<lparr>transaction_id := transaction_id rrc + 1,
               sent := sent rrc @ req # ms,
               f1_ids := (f1_ids rrc)(rrc_ue_id ue \<mapsto> ?d)\<rparr>, ?ue)"
    "f1_ho_request asn rrc ue tp tc req"
    "filter is_sig ms = [F1_modification_stop (c_assoc_id sc) (rrc_ue_id ue) (secondary_ue d) msg]"
    using f1_ho_apply_ok [OF assms(1-4)] by blast
  let ?rrc = "rrc\<lparr>transaction_id := transaction_id rrc + 1,
      sent := sent rrc @ req # ms, f1_ids := (f1_ids rrc)(rrc_ue_id ue \<mapsto> ?d)\<rparr>"
  let ?rrc' = "send (F1_modification_complete (c_assoc_id tc) (rrc_ue_id ue) (sr_du_ue_id resp))
      (send (F1_release_command (c_assoc_id sc) (rrc_ue_id ue) (secondary_ue d) 5) ?rrc)"
  have ctx: "ho_context ?ue = Some \<lparr>ho_source = Some ?s,
      ho_target = Some (f1_target tp (sr_du_ue_id resp) r)\<rparr>" by simp
  have xid: "next_xid rrc < length (xids ?ue)" "quiet_action (xids ?ue ! next_xid rrc)"
    using R(10) by (simp_all add: quiet_action_def)
  have s: "hs_cell ?s = Some sp" "hs_du_ue_id ?s = secondary_ue d" by (simp_all add: f1_source_def)
  have rest: "cell_store ?rrc sp = Some sc" "f1_ids ?rrc (rrc_ue_id ?ue) = Some ?d"
    "du_assoc_id ?d \<noteq> 0" using R by simp_all
  have "handle_rrcReconfigurationComplete (next_xid rrc) ?rrc ?ue = Inr (?rrc', completed rrc resp r tp tc ?s ue)"
    using reconfiguration_complete_ok [OF xid ctx s(1) rest(1) R(5) rest(2,3)] idle_after [OF R(1)]
    by (simp add: s(2) completed_def executed_def)
  with ap f1_ho_request_is_sig [OF ap(2)] show ?thesis
    by (intro exI [of _ ?rrc'] exI [of _ req] exI [of _ msg])
       (simp add: f1_ho_run_def sig_sent_def send_def is_sig_def [of "F1_release_command _ _ _ _"]
         is_sig_def [of "F1_modification_complete _ _ _"])
qed

lemma serving_ok_cong: "serving_cells ue = serving_cells ue' \<Longrightarrow> serving_ok ue = serving_ok ue'"
  by (simp add: serving_ok_def)

lemma completed_settled:
  assumes "idle_xids ue" "serving_ok ue" "f1_ids rrc' (rrc_ue_id ue) = Some d"
    "secondary_ue d = i" "du_assoc_id d = c_assoc_id tc"
  shows "settled_on tc i r rrc' (completed rrc resp r tp tc s ue)"
  using assms serving_ok_after_pcell [OF assms(2), of tc]
    serving_ok_cong [of "completed rrc resp r tp tc s ue"
      "ue\<lparr>serving_cells := pcell_entry tc # kept_cells ue\<rparr>"]
  by (simp add: settled_on_def idle_xids_def)

lemma resp_tunnels:
  assumes "resp_ok resp ue" "distinct (map f_id (sr_drbs resp))" "f \<in> set (sr_drbs resp)"
  shows "f_up_dl_tnl f = [the (tunnel_of (with_tunnels (sr_drbs resp) (drbs ue)) (f_id f))]"
proof -
  have "f_id f \<in> drb_id ` set (drbs ue)" "length (f_up_dl_tnl f) = 1"
    using assms(1,3) by (auto simp: resp_ok_def)
  then show ?thesis
    using with_tunnels_of [OF assms(2,3)] by (cases "f_up_dl_tnl f") auto
qed

text \<open>
  C2: A handover between two DUs succeeds. The UE has bearers, each with a session and a flow mapped
  to it whose parameters are in range, no transaction and no handover under way, both cells exist
  and their DUs are connected, the target cell has a measurement timing, there are fewer than 256
  events of type A3, the encoders give messages, and the target DU answers with an RNTI and one
  tunnel for each bearer (or with no bearers). Then the trigger, the answer of the target, the
  answer of the source and the completion by the UE return without a fault; the UE ends on the
  target cell with the RNTI, the DU identity and the cell group of the answer, its bearers are the
  same, each with the tunnel of the answer, only the association of this UE changes, and exactly
  these messages are sent to DUs and to the AMF, in this order: the request to the target, which
  lists every bearer with its flows and the measurement configuration of the target cell, the order
  to stop with the reconfiguration to the source, the release to the source, the report of the
  completion to the target.
\<close>

theorem f1_handover_success:
  assumes "encodes asn" and "ho_ready asn rrc ue sp sc tp tc d"
    and "resp_ok resp ue" and "sr_crnti resp = Some r"
    and "distinct (map f_id (sr_drbs resp))"
  shows "\<exists>rrc' ue' req msg. f1_ho_run asn resp sp tp rrc ue = Inr (rrc', ue') \<and>
    settled_on tc (sr_du_ue_id resp) r rrc' ue' \<and> mcg ue' = sr_cgc resp \<and>
    drb_keys (drbs ue') = drb_keys (drbs ue) \<and>
    (\<forall>f\<in>set (sr_drbs resp). f_up_dl_tnl f = [the (tunnel_of (drbs ue') (f_id f))]) \<and>
    (\<forall>i. i \<noteq> rrc_ue_id ue \<longrightarrow> f1_ids rrc' i = f1_ids rrc i) \<and>
    f1_request asn rrc ue tp tc (do_NR_HandoverPreparationInformation asn (ue_cap_buffer ue)) req \<and>
    sig_sent rrc' = sig_sent rrc @
      [req,
       F1_modification_stop (c_assoc_id sc) (rrc_ue_id ue) (secondary_ue d) msg,
       F1_release_command (c_assoc_id sc) (rrc_ue_id ue) (secondary_ue d) 5,
       F1_modification_complete (c_assoc_id tc) (rrc_ue_id ue) (sr_du_ue_id resp)]"
proof -
  note R = ho_readyD [OF assms(2)]
  let ?ue = "completed rrc resp r tp tc (f1_source ue sp d) ue"
  obtain rrc' req msg where run: "f1_ho_run asn resp sp tp rrc ue = Inr (rrc', ?ue)"
    and req: "f1_ho_request asn rrc ue tp tc req"
    and ids: "f1_ids rrc' = (f1_ids rrc)(rrc_ue_id ue \<mapsto>
      d\<lparr>secondary_ue := sr_du_ue_id resp, du_assoc_id := c_assoc_id tc\<rparr>)"
    and sent: "sig_sent rrc' = sig_sent rrc @
      [req,
       F1_modification_stop (c_assoc_id sc) (rrc_ue_id ue) (secondary_ue d) msg,
       F1_release_command (c_assoc_id sc) (rrc_ue_id ue) (secondary_ue d) 5,
       F1_modification_complete (c_assoc_id tc) (rrc_ue_id ue) (sr_du_ue_id resp)]"
    using f1_ho_run_ok [OF assms(1-4)] by blast
  have "settled_on tc (sr_du_ue_id resp) r rrc' ?ue"
    using ids completed_settled [OF R(1,2), of rrc'
      "d\<lparr>secondary_ue := sr_du_ue_id resp, du_assoc_id := c_assoc_id tc\<rparr>"] by simp
  then show ?thesis
    using run ids sent resp_tunnels [OF assms(3,5)] req [unfolded f1_ho_request_def]
    by (intro exI [of _ rrc'] exI [of _ ?ue] exI [of _ req] exI [of _ msg])
       (simp add: drb_keys_with_tunnels)
qed

text \<open>Encoders that give a message, an answer of a target DU, and a UE that can go there.\<close>

definition sample_asn1 :: rrc_asn1 where
  "sample_asn1 =
     \<lparr>do_NR_HandoverPreparationInformation = \<lambda>c. 7 # c, do_RRCReconfiguration = \<lambda>_. [9],
      get_HandoverCommandMessage = \<lambda>_. [5], get_HandoverPreparationInformation = \<lambda>_ c. 6 # c,
      doRRCReconfiguration_from_HandoverCommand = \<lambda>c. c, cgc_has_reestablishRLC = \<lambda>_. False,
      do_NR_MeasConfig = \<lambda>_. [4], get_meas_timing_config = \<lambda>_. None\<rparr>"

definition sample_resp :: setup_resp where
  "sample_resp =
     \<lparr>sr_du_ue_id = 50, sr_crnti = Some 0x5A01, sr_cgc = [3, 3],
      sr_drbs = [\<lparr>f_id = 1, f_up_dl_tnl = [\<lparr>teid = 6, tl_addr = [1, 2, 3, 5]\<rparr>]\<rparr>]\<rparr>"

lemma sample_asn1_encodes: "encodes sample_asn1"
  by (simp add: encodes_def meas_encodes_def sample_asn1_def)

lemma sample_f1_bearers_ok: "f1_bearers_ok sample_ue"
  by (simp add: f1_bearers_ok_def sample_ue_def find_pduSession_def sample_qos_def f1_flow_ok_def
    MAX_FIVEQI_def MAX_QOS_FLOWS_def)

lemma sample_target:
  "a3_searchable sample_rrc" "cell_store sample_rrc 200 = Some (sample_cell 5 22 2)"
  "get_cell_by_cell_id sample_rrc (c_cell_id (sample_cell 5 22 2)) = Some 200" "c_mtc (sample_cell 5 22 2) \<noteq> None"
  by (simp_all add: a3_searchable_def sample_rrc_def sample_cell_def get_cell_by_cell_id_def has_cell_id_def)

lemma sample_ready:
  "ho_ready sample_asn1 sample_rrc sample_ue 100 (sample_cell 3 11 1) 200 (sample_cell 5 22 2)
     \<lparr>secondary_ue = 40, e1_assoc_id = 9, du_assoc_id = 3\<rparr>"
proof -
  have "bearers_ok (drbs sample_ue)" by (simp add: bearers_ok_def sample_ue_def MAX_DRBS_PER_UE_def)
  then have "f1_target_ok sample_rrc sample_ue 200 (sample_cell 5 22 2)"
    using sample_f1_bearers_ok sample_target by (simp add: f1_target_ok_def)
  then show ?thesis
    by (simp add: ho_ready_def sample_rrc_def sample_ue_def sample_asn1_def sample_cell_def
      idle_xids_def serving_ok_def MAX_DRBS_PER_UE_def RRC_PCELL_INDEX_def
      RRC_MAX_NUM_SERVING_CELLS_def NR_RRC_TRANSACTION_IDENTIFIER_NUMBER_def)
qed

lemma sample_resp_ok:
  "resp_ok sample_resp sample_ue" "sr_crnti sample_resp = Some 0x5A01"
  "distinct (map f_id (sr_drbs sample_resp))"
  by (simp_all add: resp_ok_def sample_resp_def sample_ue_def MAX_DRBS_PER_UE_def)

theorem f1_handover_success_witness:
  "\<exists>rrc' ue'. f1_ho_run sample_asn1 sample_resp 100 200 sample_rrc sample_ue = Inr (rrc', ue') \<and>
     settled_on (sample_cell 5 22 2) 50 0x5A01 rrc' ue' \<and> mcg ue' = [3, 3]"
proof -
  have "sr_du_ue_id sample_resp = 50" "sr_cgc sample_resp = [3, 3]"
    by (simp_all add: sample_resp_def)
  then show ?thesis
    using f1_handover_success [OF sample_asn1_encodes sample_ready sample_resp_ok] by auto
qed

section \<open>Return to the source\<close>

lemma executed_rollback:
  assumes "idle_xids ue" "serving_cells ue = [pcell_entry sc]" "ho_context ue = None"
    "drb_keys l = drb_keys (drbs ue)"
  shows "(executed rrc resp r tp (f1_source ue sp d) l ue)
           \<lparr>xids := map (\<lambda>x. if x = RRC_DEDICATED_RECONF then RRC_ACTION_NONE else x)
                     (xids (executed rrc resp r tp (f1_source ue sp d) l ue)),
            drbs := map (\<lambda>d. d\<lparr>du_tunnel_config := du_tunnel_config (last (drbs ue))\<rparr>) l,
            mcg := mcg ue, ho_context := None, rnti := crnti, serving_cells := [pcell_entry sc]\<rparr> =
         ue\<lparr>rnti := crnti, f1_ue_context_active := True,
            pduSessions := cleared (pduSessions ue), ue_nas_pdu := [],
            drbs := map (\<lambda>d. d\<lparr>du_tunnel_config := du_tunnel_config (last (drbs ue))\<rparr>) (drbs ue)\<rparr>"
  using assms(2,3) idle_cancelled [OF assms(1), of "next_xid rrc"] drb_keysD(4) [OF assms(4)]
  by (cases ue) (simp add: executed_def)

text \<open>What both points of return have in common.\<close>

lemma f1_ho_steps_ok:
  assumes "encodes asn" and ready: "ho_ready asn rrc ue sp sc tp tc d"
    and "resp_ok resp ue" and "sr_crnti resp = Some r"
    and one: "serving_cells ue = [pcell_entry sc]"
    and "steps = f1_ho_execute \<or> steps = f1_ho_apply"
  shows "\<exists>rrc1 x c d1 req msg. steps asn resp sp tp rrc ue =
      Inr (rrc1, (executed rrc resp r tp (f1_source ue sp d) (with_tunnels (sr_drbs resp) (drbs ue)) ue)
             \<lparr>rnti := x, serving_cells := [pcell_entry c]\<rparr>) \<and>
    cell_store rrc1 = cell_store rrc \<and> f1_ids rrc1 = (f1_ids rrc)(rrc_ue_id ue \<mapsto> d1) \<and>
    e1_assoc_id d1 = e1_assoc_id d \<and> f1_ho_request asn rrc ue tp tc req \<and>
    sig_sent rrc1 = sig_sent rrc @
      [req,
       F1_modification_stop (c_assoc_id sc) (rrc_ue_id ue) (secondary_ue d) msg]"
  using assms(6)
proof
  assume steps: "steps = f1_ho_execute"
  have same: "(executed rrc resp r tp s l ue)\<lparr>rnti := rnti ue, serving_cells := [pcell_entry sc]\<rparr> =
      executed rrc resp r tp s l ue" for s l
    using one by (cases ue) (simp add: executed_def)
  have "(f1_ids rrc)(rrc_ue_id ue \<mapsto> d) = f1_ids rrc"
    using ho_readyD(7) [OF ready] by (simp add: fun_upd_idem)
  with f1_ho_execute_ok [OF assms(1-4)] steps show ?thesis
    by (fastforce simp: sig_sent_def f1_ho_request_is_sig intro!: exI [of _ "rnti ue"] exI [of _ sc] exI [of _ d] same [symmetric])
next
  assume "steps = f1_ho_apply"
  moreover have "kept_cells ue = []" using one by (simp add: kept_cells_def)
  ultimately show ?thesis
    using f1_ho_apply_ok [OF assms(1-4)]
    by (fastforce simp: sig_sent_def f1_ho_request_is_sig intro!: exI [of _ r] exI [of _ tc]
        exI [of _ "d\<lparr>secondary_ue := sr_du_ue_id resp, du_assoc_id := c_assoc_id tc\<rparr>"])
qed


text \<open>The sample UE with a second bearer that has a tunnel of its own.\<close>

definition sample_ue2 :: gNB_RRC_UE where
  "sample_ue2 = sample_ue
     \<lparr>drbs := drbs sample_ue @
        [\<lparr>drb_id = 2, drb_pdusession = 10, du_tunnel_config = \<lparr>teid = 8, tl_addr = [1, 2, 3, 4]\<rparr>\<rparr>],
      pduSessions := map (\<lambda>s. s\<lparr>p_qos := Some [sample_qos 1, sample_qos 2]\<rparr>) (pduSessions sample_ue)\<rparr>"

lemma sample_ready2:
  "ho_ready sample_asn1 sample_rrc sample_ue2 100 (sample_cell 3 11 1) 200 (sample_cell 5 22 2)
     \<lparr>secondary_ue = 40, e1_assoc_id = 9, du_assoc_id = 3\<rparr>"
proof -
  have "bearers_ok (drbs sample_ue2)"
    by (simp add: bearers_ok_def sample_ue2_def sample_ue_def MAX_DRBS_PER_UE_def)
  moreover have "f1_bearers_ok sample_ue2"
    by (simp add: f1_bearers_ok_def sample_ue2_def sample_ue_def find_pduSession_def sample_qos_def f1_flow_ok_def
      MAX_FIVEQI_def MAX_QOS_FLOWS_def)
  ultimately have "f1_target_ok sample_rrc sample_ue2 200 (sample_cell 5 22 2)"
    using sample_target by (simp add: f1_target_ok_def)
  then show ?thesis
    by (simp add: ho_ready_def sample_rrc_def sample_ue2_def sample_ue_def sample_asn1_def sample_cell_def
      idle_xids_def serving_ok_def MAX_DRBS_PER_UE_def RRC_PCELL_INDEX_def
      RRC_MAX_NUM_SERVING_CELLS_def NR_RRC_TRANSACTION_IDENTIFIER_NUMBER_def)
qed

definition sample_im :: initial_ul_rrc where
  "sample_im = \<lparr>im_crnti = 0x4602, im_nr_cellid = 11, im_du_ue_id = 41, im_container = None\<rparr>"


section \<open>A trigger during a transaction\<close>

lemma answer_keeps_ho:
  assumes "quiet_action a \<or> a = RRC_PDUSESSION_ESTABLISH"
  shows "\<exists>rrc' ue'. reconfiguration_answer xid a rrc ue = Inr (rrc', ue') \<and>
    ho_context ue' = ho_context ue \<and> rrc_ue_id ue' = rrc_ue_id ue \<and>
    cell_store rrc' = cell_store rrc \<and> f1_ids rrc' = f1_ids rrc"
  using assms
  by (auto simp: reconfiguration_answer_def quiet_action_def Let_def
      rrc_gNB_send_NGAP_INITIAL_CONTEXT_SETUP_RESP_def rrc_gNB_send_NGAP_PDUSESSION_SETUP_RESP_def
      split: prod.splits)

text \<open>
  C34: A handover that is triggered while a transaction of the UE is under way is refused, but
  its context stays, without callbacks. The end of the transaction then takes it for the end of
  a handover and calls through a null pointer; and every later trigger is refused because of it.
\<close>

theorem busy_trigger_crashes:
  assumes "ho_context ue = None" and "drbs ue \<noteq> []"
    and "do_NR_HandoverPreparationInformation asn (ue_cap_buffer ue) \<noteq> []"
    and "xid < length (xids ue)"
    and "quiet_action (xids ue ! xid) \<or> xids ue ! xid = RRC_PDUSESSION_ESTABLISH"
  shows "\<exists>ue'. nr_rrc_trigger_f1_ho asn rrc ue sp tp = Inr (rrc, ue') \<and> ho_context ue' \<noteq> None \<and>
    (\<forall>rrc'. handle_rrcReconfigurationComplete xid rrc' ue' = Inl Null_dereference) \<and>
    (\<forall>rrc' sp' tp'. nr_rrc_trigger_f1_ho asn rrc' ue' sp' tp' = Inr (rrc', ue'))"
proof -
  let ?t = "new_target_cu\<lparr>ht_cell := Some tp\<rparr>"
  let ?ue = "ue\<lparr>ho_context := Some \<lparr>ho_source = Some new_source_cu, ho_target = Some ?t\<rparr>\<rparr>"
  have "xids ue ! xid \<noteq> RRC_ACTION_NONE" using assms(5) by (auto simp: quiet_action_def)
  then have "\<exists>x\<in>set (xids ue). x \<noteq> RRC_ACTION_NONE" using assms(4) nth_mem by blast
  then have "nr_rrc_trigger_f1_ho asn rrc ue sp tp = Inr (rrc, ?ue)"
    using assms(1-3)
    by (simp add: nr_rrc_trigger_f1_ho_def nr_initiate_handover_def ho_ops alloc_ho_ctx_def)
  moreover have "handle_rrcReconfigurationComplete xid rrc' ?ue = Inl Null_dereference" for rrc'
  proof -
    let ?ue' = "?ue\<lparr>ue_reconfiguration_counter := ue_reconfiguration_counter ue + 1,
      ongoing_reconfiguration := False\<rparr>"
    obtain rrc2 ue2 where "reconfiguration_answer xid (xids ue ! xid) rrc' ?ue' = Inr (rrc2, ue2)"
      "ho_context ue2 = ho_context ?ue'"
      using answer_keeps_ho [OF assms(5), of xid rrc' ?ue'] by blast
    then show ?thesis
      using assms(4)
      by (simp add: handle_rrcReconfigurationComplete_def Let_def ho_ops call_ho_success_def
        new_target_cu_def)
  qed
  moreover have "nr_rrc_trigger_f1_ho asn rrc' ?ue sp' tp' = Inr (rrc', ?ue)" for rrc' sp' tp'
    by (simp add: nr_rrc_trigger_f1_ho_def)
  ultimately show ?thesis by (intro exI [of _ ?ue]) simp
qed

theorem busy_trigger_crashes_witness:
  "\<exists>ue'. nr_rrc_trigger_f1_ho sample_asn1 sample_rrc
       (sample_ue\<lparr>xids := (xids sample_ue)[1 := RRC_PDUSESSION_ESTABLISH]\<rparr>) 100 200 = Inr (sample_rrc, ue') \<and>
     handle_rrcReconfigurationComplete 1 sample_rrc ue' = Inl Null_dereference"
  using busy_trigger_crashes [of "sample_ue\<lparr>xids := (xids sample_ue)[1 := RRC_PDUSESSION_ESTABLISH]\<rparr>"
      sample_asn1 1 sample_rrc 100 200]
  by (auto simp: sample_ue_def sample_asn1_def)

section \<open>Completion before the answer of the source DU\<close>

text \<open>
  The UE completes the handover through the target DU, the answer of the source DU is on
  another connection. When the completion is handled first, the handover ends before the target
  context has been applied: the UE keeps the RNTI, the serving cells and the association of the
  source, although it has the cell group of the target; the source DU is told to release the UE,
  then it gets the report of the completion, and the target DU gets none. The late answer of the
  source DU changes nothing any more.
\<close>

lemma early_completion_keeps_source:
  assumes "encodes asn" and "ho_ready asn rrc ue sp sc tp tc d"
    and "resp_ok resp ue" and "sr_crnti resp = Some r"
  shows "\<exists>rrc' ue' req msg. bindr (f1_ho_execute asn resp sp tp rrc ue)
      (\<lambda>(rrc1, ue1). handle_rrcReconfigurationComplete (next_xid rrc) rrc1 ue1) = Inr (rrc', ue') \<and>
    f1_ids rrc' = f1_ids rrc \<and> rnti ue' = rnti ue \<and> serving_cells ue' = serving_cells ue \<and>
    mcg ue' = sr_cgc resp \<and> ho_context ue' = None \<and> f1_ho_request asn rrc ue tp tc req \<and>
    sig_sent rrc' = sig_sent rrc @
      [req,
       F1_modification_stop (c_assoc_id sc) (rrc_ue_id ue) (secondary_ue d) msg,
       F1_release_command (c_assoc_id sc) (rrc_ue_id ue) (secondary_ue d) 5,
       F1_modification_complete (c_assoc_id sc) (rrc_ue_id ue) (secondary_ue d)] \<and>
    rrc_CU_process_ue_context_modification_response asn \<lparr>mr_drbs = [], mr_cgc = None\<rparr> rrc' ue' =
      Inr (rrc', ue')"
proof -
  note R = ho_readyD [OF assms(2)]
  let ?s = "f1_source ue sp d"
  let ?ue = "executed rrc resp r tp ?s (with_tunnels (sr_drbs resp) (drbs ue)) ue"
  obtain req msg ms where ex: "f1_ho_execute asn resp sp tp rrc ue =
      Inr (rrc\<lparr>transaction_id := transaction_id rrc + 1,
               sent := sent rrc @ req # ms\<rparr>, ?ue)"
    "f1_ho_request asn rrc ue tp tc req"
    "filter is_sig ms = [F1_modification_stop (c_assoc_id sc) (rrc_ue_id ue) (secondary_ue d) msg]"
    using f1_ho_execute_ok [OF assms] by blast
  let ?rrc = "rrc\<lparr>transaction_id := transaction_id rrc + 1,
      sent := sent rrc @ req # ms\<rparr>"
  let ?ue' = "?ue\<lparr>ue_reconfiguration_counter := ue_reconfiguration_counter ?ue + 1,
      ongoing_reconfiguration := False, xids := (xids ?ue)[next_xid rrc := RRC_ACTION_NONE],
      ho_context := None\<rparr>"
  let ?rrc' = "send (F1_modification_complete (c_assoc_id sc) (rrc_ue_id ue) (secondary_ue d))
      (send (F1_release_command (c_assoc_id sc) (rrc_ue_id ue) (secondary_ue d) 5) ?rrc)"
  have hyps: "next_xid rrc < length (xids ?ue)" "quiet_action (xids ?ue ! next_xid rrc)"
    "hs_cell ?s = Some sp" "cell_store ?rrc sp = Some sc" "hs_du_ue_id ?s = secondary_ue d"
    "f1_ids ?rrc (rrc_ue_id ?ue) = Some d" "du_assoc_id d \<noteq> 0"
    using R by (simp_all add: quiet_action_def f1_source_def)
  have "handle_rrcReconfigurationComplete (next_xid rrc) ?rrc ?ue = Inr (?rrc', ?ue')"
    using reconfiguration_complete_ok [OF hyps(1,2) executed_fields(6) hyps(3,4) R(5) hyps(6,7)]
    by (simp add: hyps(5) R(8))
  with ex f1_ho_request_is_sig [OF ex(2)] show ?thesis
    by (intro exI [of _ ?rrc'] exI [of _ ?ue'] exI [of _ req] exI [of _ msg])
       (simp add: sig_sent_def send_def is_sig_def [of "F1_release_command _ _ _ _"]
         is_sig_def [of "F1_modification_complete _ _ _"] rrc_CU_process_ue_context_modification_response_def)
qed

lemma early_completion_keeps_source_example:
  "\<exists>rrc' ue'. bindr (f1_ho_execute sample_asn1 sample_resp 100 200 sample_rrc sample_ue)
      (\<lambda>(rrc1, ue1). handle_rrcReconfigurationComplete (next_xid sample_rrc) rrc1 ue1) = Inr (rrc', ue') \<and>
     f1_ids rrc' 1 = Some \<lparr>secondary_ue = 40, e1_assoc_id = 9, du_assoc_id = 3\<rparr> \<and>
     F1_release_command 3 1 40 5 \<in> set (sig_sent rrc') \<and> mcg ue' = [3, 3]"
proof -
  have "f1_ids sample_rrc 1 = Some \<lparr>secondary_ue = 40, e1_assoc_id = 9, du_assoc_id = 3\<rparr>"
    "c_assoc_id (sample_cell 3 11 1) = 3" "sr_cgc sample_resp = [3, 3]" "rrc_ue_id sample_ue = 1"
    by (simp_all add: sample_rrc_def sample_cell_def sample_resp_def sample_ue_def)
  then show ?thesis
    using early_completion_keeps_source [OF sample_asn1_encodes sample_ready sample_resp_ok(1,2)]
    by auto
qed

section \<open>Loss of the source DU\<close>

lemma rrc_rm_cell_store:
  assumes "rrc_rm_cell p rrc = Inr rrc'"
  shows "cell_store rrc' = (cell_store rrc)(p := None)"
  using assms by (auto simp: rrc_rm_cell_def ho_ops split: option.splits if_splits)

lemma rm_cells_store:
  "rm_cells ps rrc = Inr rrc' \<Longrightarrow> cell_store rrc' q = (if q \<in> set ps then None else cell_store rrc q)"
proof (induction ps arbitrary: rrc)
  case (Cons p ps)
  then obtain rrc1 where "rrc_rm_cell p rrc = Inr rrc1" "rm_cells ps rrc1 = Inr rrc'"
    by (cases "rrc_rm_cell p rrc") auto
  with Cons.IH rrc_rm_cell_store [of p rrc rrc1] show ?case by (simp split: if_splits)
qed simp

lemma release_req_store:
  "rrc_gNB_send_NGAP_UE_CONTEXT_RELEASE_REQ u c rrc = Inr rrc' \<Longrightarrow> cell_store rrc' = cell_store rrc"
  by (auto simp: rrc_gNB_send_NGAP_UE_CONTEXT_RELEASE_REQ_def ho_ops split: option.splits if_splits)

lemma invalidate_ue_store:
  assumes "invalidate_ue a u rrc = Inr rrc'"
  shows "cell_store rrc' = cell_store rrc"
proof -
  obtain u' where u': "rrc_remove_ue_scells_from_du a u = Inr u'"
    using assms by (cases "rrc_remove_ue_scells_from_du a u") (auto simp: invalidate_ue_def)
  have "cell_store (put_ue v r) = cell_store r" for v r by (simp add: put_ue_def)
  with assms u' show ?thesis
    by (auto simp: invalidate_ue_def ho_ops Let_def dest!: release_req_store
        split: option.splits if_splits)
qed

lemma invalidate_ues_store:
  "invalidate_ues a us rrc = Inr rrc' \<Longrightarrow> cell_store rrc' = cell_store rrc"
proof (induction us arbitrary: rrc)
  case (Cons u us)
  then obtain rrc1 where "invalidate_ue a u rrc = Inr rrc1" "invalidate_ues a us rrc1 = Inr rrc'"
    by (cases "invalidate_ue a u rrc") auto
  with Cons.IH invalidate_ue_store show ?case by metis
qed simp

lemma lost_connection_store:
  assumes "rrc_CU_process_f1_lost_connection a rrc = Inr rrc'" "get_du_by_assoc_id rrc a = Some du"
    "p \<in> set (d_cells du)"
  shows "cell_store rrc' p = None"
proof -
  obtain rrc1 where rrc1: "rrc_cleanup_du du rrc = Inr rrc1"
    "invalidate_ues a (rrc_ue_head rrc1) rrc1 = Inr rrc'"
    using assms(1,2)
    by (cases "rrc_cleanup_du du rrc")
       (auto simp: rrc_CU_process_f1_lost_connection_def invalidate_du_connections_def ho_ops
         split: if_splits)
  obtain rrc2 where rrc2: "rm_cells (rev (d_cells du)) rrc = Inr rrc2"
    "rrc_rm_du (d_assoc_id du) rrc2 = Inr rrc1"
    using rrc1(1) by (cases "rm_cells (rev (d_cells du)) rrc") (auto simp: rrc_cleanup_du_def)
  have "cell_store rrc1 = cell_store rrc2"
    using rrc2(2) by (auto simp: rrc_rm_du_def ho_ops split: if_splits)
  with rm_cells_store [OF rrc2(1), of p] assms(3) invalidate_ues_store [OF rrc1(2)]
  show ?thesis by simp
qed

text \<open>The handler keeps what a UE context knows of its handover, and the associations with other DUs.\<close>

lemma get_ue_put:
  "rrc_gNB_get_ue_context (put_ue u rrc) i =
     map_option (\<lambda>v. if rrc_ue_id u = i then u else v) (rrc_gNB_get_ue_context rrc i)"
proof -
  have "find (\<lambda>v. rrc_ue_id v = i) (map (\<lambda>v. if rrc_ue_id v = rrc_ue_id u then u else v) l) =
      map_option (\<lambda>v. if rrc_ue_id u = i then u else v) (find (\<lambda>v. rrc_ue_id v = i) l)" for l
    by (induction l) (auto simp: option.map_ident)
  then show ?thesis by (simp add: rrc_gNB_get_ue_context_def put_ue_def)
qed

lemma release_req_ues:
  "rrc_gNB_send_NGAP_UE_CONTEXT_RELEASE_REQ u c rrc = Inr rrc' \<Longrightarrow>
     rrc_ue_head rrc' = rrc_ue_head rrc \<and> f1_ids rrc' = f1_ids rrc"
  by (auto simp: rrc_gNB_send_NGAP_UE_CONTEXT_RELEASE_REQ_def ho_ops split: option.splits if_splits)

lemma removed_scells:
  "rrc_remove_ue_scells_from_du a u = Inr u' \<Longrightarrow>
     rrc_ue_id u' = rrc_ue_id u \<and> ho_context u' = ho_context u \<and> xids u' = xids u"
  by (auto simp: rrc_remove_ue_scells_from_du_def Let_def split: if_splits)

lemma invalidate_ue_keeps:
  assumes "invalidate_ue a u rrc = Inr rrc'"
  shows "\<exists>u'. rrc_remove_ue_scells_from_du a u = Inr u' \<and> rrc_ue_head rrc' = rrc_ue_head (put_ue u' rrc) \<and>
    (\<forall>i d. f1_ids rrc i = Some d \<and> du_assoc_id d \<noteq> a \<longrightarrow> f1_ids rrc' i = Some d)"
proof -
  obtain u' where u': "rrc_remove_ue_scells_from_du a u = Inr u'"
    using assms by (cases "rrc_remove_ue_scells_from_du a u") (auto simp: invalidate_ue_def)
  have "f1_ids (put_ue v r) = f1_ids r" for v r by (simp add: put_ue_def)
  with assms u' show ?thesis
    by (auto simp: invalidate_ue_def ho_ops Let_def put_ue_def dest!: release_req_ues
        split: option.splits if_splits)
qed

lemma invalidate_ues_keep:
  assumes "invalidate_ues a us rrc = Inr rrc'" "rrc_gNB_get_ue_context rrc i = Some v"
    "\<forall>u\<in>insert v (set us). rrc_ue_id u = i \<longrightarrow> ho_context u = h \<and> xids u = x"
  shows "(\<exists>v'. rrc_gNB_get_ue_context rrc' i = Some v' \<and> ho_context v' = h \<and> xids v' = x) \<and>
    (\<forall>j d. f1_ids rrc j = Some d \<and> du_assoc_id d \<noteq> a \<longrightarrow> f1_ids rrc' j = Some d)"
  using assms
proof (induction us arbitrary: rrc v)
  case Nil
  then show ?case by (auto simp: rrc_gNB_get_ue_context_def find_Some_iff)
next
  case (Cons u us)
  obtain rrc1 where r: "invalidate_ue a u rrc = Inr rrc1" "invalidate_ues a us rrc1 = Inr rrc'"
    using Cons.prems(1) by (cases "invalidate_ue a u rrc") auto
  obtain u' where u': "rrc_remove_ue_scells_from_du a u = Inr u'" "rrc_ue_head rrc1 = rrc_ue_head (put_ue u' rrc)"
    and ids: "\<forall>j d. f1_ids rrc j = Some d \<and> du_assoc_id d \<noteq> a \<longrightarrow> f1_ids rrc1 j = Some d"
    using invalidate_ue_keeps [OF r(1)] by blast
  let ?v = "if rrc_ue_id u' = i then u' else v"
  have "rrc_gNB_get_ue_context rrc1 i = Some ?v"
    using get_ue_put [of u' rrc i] Cons.prems(2) u'(2) by (simp add: rrc_gNB_get_ue_context_def)
  moreover have "\<forall>w\<in>insert ?v (set us). rrc_ue_id w = i \<longrightarrow> ho_context w = h \<and> xids w = x"
    using Cons.prems(3) removed_scells [OF u'(1)] by auto
  ultimately show ?case using Cons.IH [OF r(2)] ids by blast
qed

lemma cleanup_du_ues:
  assumes "rrc_cleanup_du du rrc = Inr rrc'"
  shows "rrc_ue_head rrc' = rrc_ue_head rrc \<and> f1_ids rrc' = f1_ids rrc"
proof -
  have rm: "rm_cells ps r = Inr r' \<Longrightarrow> rrc_ue_head r' = rrc_ue_head r \<and> f1_ids r' = f1_ids r" for ps r r'
    by (induction ps arbitrary: r) (fastforce simp: rrc_rm_cell_def ho_ops split: option.splits if_splits)+
  then show ?thesis
    using assms by (fastforce simp: rrc_cleanup_du_def rrc_rm_du_def ho_ops split: if_splits)
qed

lemma lost_connection_keeps:
  assumes "rrc_CU_process_f1_lost_connection a rrc = Inr rrc'" "rrc_gNB_get_ue_context rrc i = Some ue"
    "distinct (map rrc_ue_id (rrc_ue_head rrc))"
  shows "\<exists>ue'. rrc_gNB_get_ue_context rrc' i = Some ue' \<and> ho_context ue' = ho_context ue \<and> xids ue' = xids ue"
    and "f1_ids rrc i = Some d \<Longrightarrow> du_assoc_id d \<noteq> a \<Longrightarrow> f1_ids rrc' i = Some d"
proof -
  have ue: "ue \<in> set (rrc_ue_head rrc)" "rrc_ue_id ue = i"
    using assms(2) by (auto simp: rrc_gNB_get_ue_context_def find_Some_iff)
  then have one: "\<forall>u\<in>insert ue (set (rrc_ue_head rrc)). rrc_ue_id u = i \<longrightarrow> ho_context u = ho_context ue \<and> xids u = xids ue"
    using assms(3) by (metis distinct_map inj_onD insertE)
  have "(\<exists>ue'. rrc_gNB_get_ue_context rrc' i = Some ue' \<and> ho_context ue' = ho_context ue \<and> xids ue' = xids ue) \<and>
      (\<forall>j d. f1_ids rrc j = Some d \<and> du_assoc_id d \<noteq> a \<longrightarrow> f1_ids rrc' j = Some d)"
  proof (cases "get_du_by_assoc_id rrc a")
    case None
    then show ?thesis
      using assms(1,2) by (auto simp: rrc_CU_process_f1_lost_connection_def ho_ops split: if_splits)
  next
    case (Some du)
    then obtain rrc1 where r: "rrc_cleanup_du du rrc = Inr rrc1" "invalidate_ues a (rrc_ue_head rrc1) rrc1 = Inr rrc'"
      using assms(1)
      by (cases "rrc_cleanup_du du rrc")
         (auto simp: rrc_CU_process_f1_lost_connection_def invalidate_du_connections_def ho_ops split: if_splits)
    note same = cleanup_du_ues [OF r(1)]
    have "rrc_gNB_get_ue_context rrc1 i = Some ue" using assms(2) same by (simp add: rrc_gNB_get_ue_context_def)
    from invalidate_ues_keep [OF r(2) this one [folded conjunct1 [OF same]]] show ?thesis
      unfolding conjunct2 [OF same] .
  qed
  then show "\<exists>ue'. rrc_gNB_get_ue_context rrc' i = Some ue' \<and> ho_context ue' = ho_context ue \<and> xids ue' = xids ue"
    and "f1_ids rrc i = Some d \<Longrightarrow> du_assoc_id d \<noteq> a \<Longrightarrow> f1_ids rrc' i = Some d" by blast+
qed

text \<open>
  C35: The context of a handover points to the container of the source cell. When the source DU is
  lost during the handover of a UE of the CU, its cells are freed, but the context of the UE that
  the handler leaves behind still has the handover, and when the UE is already associated with the
  target DU, this association stays. When this UE then completes the handover, or a DU asks to
  release it, the freed container is read.
\<close>

theorem lost_source_du_dangling:
  assumes "rrc_CU_process_f1_lost_connection a rrc = Inr rrc'"
    and "get_du_by_assoc_id rrc a = Some du" and "sp \<in> set (d_cells du)"
    and "rrc_gNB_get_ue_context rrc i = Some ue" and "distinct (map rrc_ue_id (rrc_ue_head rrc))"
    and "ho_context ue = Some \<lparr>ho_source = Some s, ho_target = Some (f1_target tp j r)\<rparr>"
    and "hs_cell s = Some sp"
    and "xid < length (xids ue)" and "quiet_action (xids ue ! xid)"
  shows "\<exists>ue'. rrc_gNB_get_ue_context rrc' i = Some ue' \<and> ho_context ue' = ho_context ue \<and>
    (\<forall>d. f1_ids rrc i = Some d \<and> du_assoc_id d \<noteq> a \<longrightarrow> f1_ids rrc' i = Some d) \<and>
    handle_rrcReconfigurationComplete xid rrc' ue' = Inl Dangling_pointer \<and>
    (\<forall>b. rrc_CU_process_ue_context_release_request b rrc' ue' = Inl Dangling_pointer)"
proof -
  have freed: "cell_store rrc' sp = None" using lost_connection_store [OF assms(1-3)] .
  obtain ue' where ue': "rrc_gNB_get_ue_context rrc' i = Some ue'" "ho_context ue' = ho_context ue" "xids ue' = xids ue"
    using lost_connection_keeps(1) [OF assms(1,4,5)] by blast
  have "handle_rrcReconfigurationComplete xid rrc' ue' = Inl Dangling_pointer"
    "rrc_CU_process_ue_context_release_request b rrc' ue' = Inl Dangling_pointer" for b
    using assms(6-9) freed ue'(2,3)
    by (auto simp: handle_rrcReconfigurationComplete_def Let_def quiet_action_def ho_ops
        reconfiguration_answer_def call_ho_success_def f1_target_def nr_rrc_f1_ho_complete_def
        rrc_CU_process_ue_context_release_request_def)
  with ue'(1,2) lost_connection_keeps(2) [OF assms(1,4,5)] show ?thesis by blast
qed

text \<open>The sample UE, associated with the target and about to complete the handover.\<close>

definition sample_ho_ue :: gNB_RRC_UE where
  "sample_ho_ue = sample_ue
     \<lparr>ho_context := Some (f1_ctx sample_ue 100 200 \<lparr>secondary_ue = 40, e1_assoc_id = 9, du_assoc_id = 3\<rparr>
                          50 0x5A01),
      serving_cells := [pcell_entry (sample_cell 5 22 2)],
      xids := [RRC_ACTION_NONE, RRC_DEDICATED_RECONF, RRC_ACTION_NONE, RRC_ACTION_NONE]\<rparr>"

definition sample_ho_rrc :: gNB_RRC_INST where
  "sample_ho_rrc = sample_rrc
     \<lparr>rrc_ue_head := [sample_ho_ue],
      f1_ids := [1 \<mapsto> \<lparr>secondary_ue = 50, e1_assoc_id = 9, du_assoc_id = 5\<rparr>]\<rparr>"

lemma sample_ho_lost:
  "\<exists>rrc'. rrc_CU_process_f1_lost_connection 3 sample_ho_rrc = Inr rrc' \<and>
     cell_store rrc' 100 = None \<and> sent rrc' = []"
  by (simp add: rrc_CU_process_f1_lost_connection_def ho_ops get_du_by_assoc_id_def
      sample_ho_rrc_def sample_rrc_def rrc_cleanup_du_def rrc_rm_cell_def rrc_rm_du_def
      invalidate_du_connections_def invalidate_ue_def rrc_remove_ue_scells_from_du_def
      indices_of_def sample_ho_ue_def sample_ue_def pcell_entry_def sample_cell_def Let_def put_ue_def)

theorem lost_source_du_dangling_witness:
  "\<exists>rrc' ue'. rrc_CU_process_f1_lost_connection 3 sample_ho_rrc = Inr rrc' \<and> sent rrc' = [] \<and>
     rrc_gNB_get_ue_context rrc' 1 = Some ue' \<and> f1_ids rrc' 1 = f1_ids sample_ho_rrc 1 \<and>
     handle_rrcReconfigurationComplete 1 rrc' ue' = Inl Dangling_pointer"
proof -
  obtain rrc' where rrc': "rrc_CU_process_f1_lost_connection 3 sample_ho_rrc = Inr rrc'" "sent rrc' = []"
    using sample_ho_lost by blast
  have du: "get_du_by_assoc_id sample_ho_rrc 3 = Some \<lparr>d_assoc_id = 3, d_gNB_DU_id = 1, d_cells = [100]\<rparr>"
    by (simp add: get_du_by_assoc_id_def sample_ho_rrc_def sample_rrc_def)
  have ue: "rrc_gNB_get_ue_context sample_ho_rrc 1 = Some sample_ho_ue"
    "distinct (map rrc_ue_id (rrc_ue_head sample_ho_rrc))"
    "f1_ids sample_ho_rrc 1 = Some \<lparr>secondary_ue = 50, e1_assoc_id = 9, du_assoc_id = 5\<rparr>"
    by (simp_all add: rrc_gNB_get_ue_context_def sample_ho_rrc_def sample_ho_ue_def sample_ue_def)
  from lost_source_du_dangling [OF rrc'(1) du _ ue(1,2), of 100 _ 200 50 "0x5A01" 1] rrc' ue(3) show ?thesis
    by (auto simp: sample_ho_ue_def f1_ctx_def f1_source_def quiet_action_def)
qed

end
