(* ===== verification/Nr_Rrc_Ho_N2.thy ===== *)
theory Nr_Rrc_Ho_N2
  imports Nr_Rrc_Ho_Props
begin

text \<open>
  The handover between two CUs: at the target, from the trigger to the notification of the AMF;
  at the source, what the handlers that know only the handover within a CU make of it.
\<close>

section \<open>Target\<close>

text \<open>Every session has an initialised array of at most 64 flows.\<close>

definition flows_listable :: "gNB_RRC_UE \<Rightarrow> bool" where
  "flows_listable ue \<longleftrightarrow> (\<forall>s\<in>set (pduSessions ue).
     case p_qos s of None \<Rightarrow> False | Some qos \<Rightarrow> length qos \<le> MAX_QOS_FLOWS)"

definition n2_ready ::
  "gNB_RRC_INST \<Rightarrow> gNB_RRC_UE \<Rightarrow> ho_target_cu \<Rightarrow> cell_ptr \<Rightarrow> nr_rrc_cell \<Rightarrow> f1_ue_data \<Rightarrow> bool" where
  "n2_ready rrc ue t tp tc d \<longleftrightarrow>
     ho_context ue = Some \<lparr>ho_source = None, ho_target = Some t\<rparr> \<and> ht_cell t = Some tp \<and>
     ht_ue_ho_prep_info t \<noteq> [] \<and> idle_xids ue \<and> drbs ue \<noteq> [] \<and> f1_target_ok rrc ue tp tc \<and>
     flows_listable ue \<and>
     pduSessions ue \<noteq> [] \<and> length (pduSessions ue) < nat MAX_DRBS_PER_UE \<and>
     serving_cells ue = [] \<and> c_assoc_id tc \<noteq> 0 \<and>
     get_du_by_assoc_id rrc (c_assoc_id tc) \<noteq> None \<and>
     f1_ids rrc (rrc_ue_id ue) = Some d \<and> secondary_ue d = -1"

definition n2_target :: "cell_ptr \<Rightarrow> ho_trigger option \<Rightarrow> u32 \<Rightarrow> u16 \<Rightarrow> ho_target_cu" where
  "n2_target tp f i r =
     \<lparr>ht_cell = Some tp, ht_du_ue_id = i, ht_new_rnti = r, ht_ue_ho_prep_info = [],
      ht_ho_trigger = f, ht_ho_req_ack = Some N2_ho_acknowledge,
      ht_ho_success = Some N2_ho_complete, ht_ho_failure = Some N2_ho_failure\<rparr>"

definition n2_ctx :: "ho_target_cu \<Rightarrow> nr_handover_context" where
  "n2_ctx t = \<lparr>ho_source = None, ho_target = Some t\<rparr>"

lemma trigger_n2_ho_target_eq:
  assumes "meas_encodes asn" "n2_ready rrc ue t tp tc d"
  shows "\<exists>m. f1_request asn rrc ue tp tc (ht_ue_ho_prep_info t) m \<and>
    nr_rrc_trigger_n2_ho_target asn rrc ue =
         Inr (send m rrc,
              ue\<lparr>ho_context := Some (n2_ctx (n2_target tp (ht_ho_trigger t) (ht_du_ue_id t)
                                            (ht_new_rnti t)))\<rparr>)"
proof -
  have "f1_target_ok rrc ue tp tc" "c_assoc_id tc \<noteq> 0" and idle: "idle_xids ue"
    using assms(2) by (simp_all add: n2_ready_def)
  then obtain m where m: "f1_request asn rrc ue tp tc (ht_ue_ho_prep_info t) m"
    "\<And>h. rrc_f1_ue_context_setup_for_target_du asn (ue\<lparr>ho_context := h\<rparr>) tp (Some (ht_ue_ho_prep_info t)) rrc =
      Inr (send m rrc)"
    using context_setup_request_ok [OF assms(1)] by blast
  have "nr_rrc_trigger_n2_ho_target asn rrc ue =
      Inr (send m rrc, ue\<lparr>ho_context := Some (n2_ctx (n2_target tp (ht_ho_trigger t) (ht_du_ue_id t) (ht_new_rnti t)))\<rparr>)"
    using assms(2) not_busy [OF idle] m(2)
    by (simp add: n2_ready_def nr_rrc_trigger_n2_ho_target_def nr_initiate_handover_def Let_def ho_ops
      n2_ctx_def n2_target_def)
  with m(1) show ?thesis by blast
qed

definition established :: "rrc_pdu_session list \<Rightarrow> rrc_pdu_session list" where
  "established ss = map (\<lambda>s. s\<lparr>p_status := PDU_SESSION_STATUS_ESTABLISHED\<rparr>) ss"

text \<open>The acknowledgement: the target context is applied and the AMF gets the command.\<close>

lemma n2_ho_acknowledge_ok:
  assumes ctx: "ho_context ue = Some (n2_ctx (n2_target tp f i r))"
    and ue: "serving_cells ue = []" "length (pduSessions ue) < nat MAX_DRBS_PER_UE"
      "length (xids ue) = NR_RRC_TRANSACTION_IDENTIFIER_NUMBER" "flows_listable ue"
    and tc: "cell_store rrc tp = Some tc"
    and d: "f1_ids rrc (rrc_ue_id ue) = Some d" "secondary_ue d = -1"
  shows "\<exists>cmd. nr_rrc_n2_ho_acknowledge asn rrc ue =
    Inr (send (Ngap_handover_request_ack (rrc_ue_id ue) (amf_ue_ngap_id ue) cmd)
           (rrc\<lparr>f1_ids := (f1_ids rrc)(rrc_ue_id ue \<mapsto>
                  d\<lparr>secondary_ue := i, du_assoc_id := c_assoc_id tc\<rparr>),
                transaction_id := transaction_id rrc + 1\<rparr>),
         ue\<lparr>rnti := r, serving_cells := [pcell_entry tc], ue_nas_pdu := [],
            pduSessions := established (cleared (pduSessions ue)),
            xids := (xids ue)[next_xid rrc := RRC_DEDICATED_RECONF]\<rparr>)"
proof -
  let ?d = "d\<lparr>secondary_ue := i, du_assoc_id := c_assoc_id tc\<rparr>"
  let ?rrc = "rrc\<lparr>f1_ids := (f1_ids rrc)(rrc_ue_id ue \<mapsto> ?d)\<rparr>"
  let ?ue = "ue\<lparr>rnti := r\<rparr>"
  let ?ue1 = "?ue\<lparr>serving_cells := [pcell_entry tc]\<rparr>"
  have "nr_rrc_apply_target_context rrc ue = Inr (?rrc, ?ue)"
    using ctx d tc by (simp add: nr_rrc_apply_target_context_def ho_ops n2_ctx_def n2_target_def)
  moreover have "serving_ok ?ue" "kept_cells ?ue = []"
    using ue(1) by (simp_all add: serving_ok_def kept_cells_def)
  then have "rrc_update_ue_pcell ?rrc tc ?ue = Inr (Some (pcell_entry tc), ?ue1)"
    using rrc_update_ue_pcell_eq [of ?ue ?rrc ?d tc] by simp
  then have "nr_rrc_update_cell_assoc_after_ho ?rrc ?ue = Inr (True, ?ue1)"
    using ctx tc ue(1)
    by (simp add: nr_rrc_update_cell_assoc_after_ho_def ho_ops n2_ctx_def n2_target_def
      ue_get_pcell_entry_def)
  moreover obtain p where "get_RRCReconfiguration_params ?rrc ?ue1 6 True =
      Inr (p, ?rrc\<lparr>transaction_id := transaction_id rrc + 1\<rparr>,
           ?ue1\<lparr>pduSessions := cleared (pduSessions ue), ue_nas_pdu := []\<rparr>)"
    "rp_transaction_id p = next_xid rrc"
    using reconfig_params_ok [of ?ue1 ?rrc 6 True] ue(2) by (auto simp: next_xid_def)
  moreover have "int (length (pduSessions ue)) \<le> NR_MAX_NB_PDU_SESSIONS"
    using ue(2) by (simp add: MAX_DRBS_PER_UE_def NR_MAX_NB_PDU_SESSIONS_def)
  moreover have "\<forall>s\<in>set (cleared (pduSessions ue)).
      case p_qos s of None \<Rightarrow> False | Some qos \<Rightarrow> length qos \<le> MAX_QOS_FLOWS"
    using ue(4) by (simp add: flows_listable_def cleared_def)
  ultimately show ?thesis
    using ctx d ue(3) next_xid_less [of rrc]
    by (intro exI [of _ "get_HandoverCommandMessage asn (p\<lparr>rp_masterKeyUpdate := True\<rparr>)"])
       (simp add: nr_rrc_n2_ho_acknowledge_def ho_ops n2_ctx_def n2_target_def
      rrc_gNB_encode_HandoverCommand_def set_xid_def
      rrc_gNB_send_NGAP_HANDOVER_REQUEST_ACKNOWLEDGE_def established_def cleared_def)
qed

text \<open>The UE context after a valid answer of the target DU.\<close>

definition n2_executed ::
  "gNB_RRC_INST \<Rightarrow> setup_resp \<Rightarrow> u16 \<Rightarrow> cell_ptr \<Rightarrow> nr_rrc_cell \<Rightarrow> ho_trigger option \<Rightarrow> gNB_RRC_UE \<Rightarrow>
     gNB_RRC_UE" where
  "n2_executed rrc resp r tp tc f ue =
     ue\<lparr>f1_ue_context_active := True, mcg := sr_cgc resp,
        drbs := with_tunnels (sr_drbs resp) (drbs ue),
        ho_context := Some (n2_ctx (n2_target tp f (sr_du_ue_id resp) r)),
        rnti := r, serving_cells := [pcell_entry tc], ue_nas_pdu := [],
        pduSessions := established (cleared (pduSessions ue)),
        xids := (xids ue)[next_xid rrc := RRC_DEDICATED_RECONF]\<rparr>"

lemma n2_setup_response_ok:
  assumes resp: "resp_ok resp ue" "sr_crnti resp = Some r"
    and ue: "bearers_ok (drbs ue)" "drbs ue \<noteq> []" "pduSessions ue \<noteq> []" "serving_cells ue = []"
      "length (pduSessions ue) < nat MAX_DRBS_PER_UE"
      "length (xids ue) = NR_RRC_TRANSACTION_IDENTIFIER_NUMBER" "flows_listable ue"
    and ctx: "ho_context ue = Some (n2_ctx (n2_target tp f i0 r0))"
    and tc: "cell_store rrc tp = Some tc"
    and d: "f1_ids rrc (rrc_ue_id ue) = Some d" "secondary_ue d = -1"
  shows "\<exists>cmd ms. rrc_CU_process_ue_context_setup_response asn resp rrc ue =
           Inr (rrc\<lparr>sent := sent rrc @ ms,
                    f1_ids := (f1_ids rrc)(rrc_ue_id ue \<mapsto>
                      d\<lparr>secondary_ue := sr_du_ue_id resp, du_assoc_id := c_assoc_id tc\<rparr>),
                    transaction_id := transaction_id rrc + 1\<rparr>,
                n2_executed rrc resp r tp tc f ue) \<and>
         filter is_sig ms = [Ngap_handover_request_ack (rrc_ue_id ue) (amf_ue_ngap_id ue) cmd]"
proof -
  let ?ue = "store_cgc (sr_cgc resp) (ue\<lparr>f1_ue_context_active := True\<rparr>)"
  let ?l = "with_tunnels (sr_drbs resp) (drbs ue)"
  have "resp_ok resp ?ue" "bearers_ok (drbs ?ue)" "drbs ?ue \<noteq> []" "pduSessions ?ue \<noteq> []"
    "f1_ids rrc (rrc_ue_id ?ue) = Some d" "drbs ?ue = drbs ue"
    using resp ue d by (simp_all add: store_cgc_def resp_ok_def)
  from setup_drbs_ok [OF this(1-5)] this(6) obtain ms where l: "(if sr_drbs resp \<noteq> []
         then
           bindr (assertr (drbs ?ue = [] \<or> length (drbs ?ue) = length (sr_drbs resp))) (\<lambda>_.
           bindr (assertr (srb1_active ?ue \<and> srb2_active ?ue)) (\<lambda>_.
           bindr (store_du_f1u_tunnel (sr_drbs resp) ?ue) (\<lambda>ue'.
           bindr (if drbs ?ue = [] then e1_send_bearer_updates (sr_drbs resp) ue' rrc
                  else cuup_notify_reestablishment ue' rrc) (\<lambda>rrc.
             Inr (rrc, ue')))))
         else Inr (rrc, ?ue)) = Inr (rrc\<lparr>sent := sent rrc @ ms\<rparr>, ?ue\<lparr>drbs := ?l\<rparr>)"
    "filter is_sig ms = []" by auto
  let ?rrc1 = "rrc\<lparr>sent := sent rrc @ ms\<rparr>"
  let ?ue1 = "?ue\<lparr>drbs := ?l, ho_context := Some (n2_ctx (n2_target tp f (sr_du_ue_id resp) r))\<rparr>"
  obtain cmd where ack: "nr_rrc_n2_ho_acknowledge asn ?rrc1 ?ue1 =
      Inr (send (Ngap_handover_request_ack (rrc_ue_id ue) (amf_ue_ngap_id ue) cmd)
             (?rrc1\<lparr>f1_ids := (f1_ids rrc)(rrc_ue_id ue \<mapsto>
                      d\<lparr>secondary_ue := sr_du_ue_id resp, du_assoc_id := c_assoc_id tc\<rparr>),
                    transaction_id := transaction_id rrc + 1\<rparr>),
           ?ue1\<lparr>rnti := r, serving_cells := [pcell_entry tc], ue_nas_pdu := [],
              pduSessions := established (cleared (pduSessions ue)),
              xids := (xids ue)[next_xid rrc := RRC_DEDICATED_RECONF]\<rparr>)"
    using n2_ho_acknowledge_ok [of ?ue1 tp f "sr_du_ue_id resp" r ?rrc1 tc d asn] ue tc d
    by (auto simp: store_cgc_def next_xid_def flows_listable_def)
  have "rrc_CU_process_ue_context_setup_response asn resp rrc ue =
      nr_rrc_n2_ho_acknowledge asn ?rrc1 ?ue1"
    unfolding rrc_CU_process_ue_context_setup_response_def Let_def l(1)
    using ctx resp(2)
    by (simp add: store_cgc_def assert_some_def call_ho_req_ack_def set_target_def n2_ctx_def
      n2_target_def)
  with ack l(2) show ?thesis
    by (intro exI [of _ cmd] exI [of _ "ms @ [Ngap_handover_request_ack (rrc_ue_id ue) (amf_ue_ngap_id ue) cmd]"])
       (simp add: n2_executed_def store_cgc_def send_def is_sig_def)
qed

lemma n2_complete_ok:
  assumes xid: "xid < length (xids ue)" "quiet_action (xids ue ! xid)"
    and ctx: "ho_context ue = Some (n2_ctx (n2_target tp f i r))"
    and cells: "serving_cells ue = [pcell_entry tc]" "cell_store rrc tp = Some tc"
      "get_cell_by_cell_id rrc (c_cell_id tc) = Some tp"
    and du: "get_du_by_assoc_id rrc (c_assoc_id tc) \<noteq> None" "c_assoc_id tc \<noteq> 0"
    and d: "f1_ids rrc (rrc_ue_id ue) = Some d" "du_assoc_id d = c_assoc_id tc"
  shows "handle_rrcReconfigurationComplete xid rrc ue =
         Inr (send (F1_modification_complete (c_assoc_id tc) (rrc_ue_id ue) (secondary_ue d))
                (send (Ngap_handover_notify (rrc_ue_id ue) (amf_ue_ngap_id ue) (c_cell_id tc)) rrc),
              ue\<lparr>ue_reconfiguration_counter := ue_reconfiguration_counter ue + 1,
                 ongoing_reconfiguration := False, xids := (xids ue)[xid := RRC_ACTION_NONE],
                 ho_context := None\<rparr>)"
  using assms
  by (auto simp: handle_rrcReconfigurationComplete_def Let_def quiet_action_def
      reconfiguration_answer_def ho_ops call_ho_success_def n2_ctx_def n2_target_def
      nr_rrc_n2_ho_complete_def rrc_gNB_send_NGAP_HANDOVER_NOTIFY_def rrc_get_pcell_for_ue_def
      ue_get_pcell_entry_def pcell_entry_def get_du_for_ue_def)

definition n2_ho_run ::
  "rrc_asn1 \<Rightarrow> setup_resp \<Rightarrow> gNB_RRC_INST \<Rightarrow> gNB_RRC_UE \<Rightarrow> (gNB_RRC_INST \<times> gNB_RRC_UE) res"
where
  "n2_ho_run asn resp rrc ue =
     bindr (nr_rrc_trigger_n2_ho_target asn rrc ue) (\<lambda>(rrc1, ue1).
     bindr (rrc_CU_process_ue_context_setup_response asn resp rrc1 ue1) (\<lambda>(rrc2, ue2).
       handle_rrcReconfigurationComplete (next_xid rrc) rrc2 ue2))"

lemma lookups_cong [simp]:
  "get_du_by_assoc_id (rrc\<lparr>sent := ms, f1_ids := m, transaction_id := t\<rparr>) a = get_du_by_assoc_id rrc a"
  "get_cell_by_cell_id (rrc\<lparr>sent := ms, f1_ids := m, transaction_id := t\<rparr>) i = get_cell_by_cell_id rrc i"
  by (simp_all add: get_du_by_assoc_id_def get_cell_by_cell_id_def has_cell_id_def [abs_def])

lemma n2_executed_fields [simp]:
  "rrc_ue_id (n2_executed rrc resp r tp tc f ue) = rrc_ue_id ue"
  "amf_ue_ngap_id (n2_executed rrc resp r tp tc f ue) = amf_ue_ngap_id ue"
  "serving_cells (n2_executed rrc resp r tp tc f ue) = [pcell_entry tc]"
  "ho_context (n2_executed rrc resp r tp tc f ue) = Some (n2_ctx (n2_target tp f (sr_du_ue_id resp) r))"
  "xids (n2_executed rrc resp r tp tc f ue) = (xids ue)[next_xid rrc := RRC_DEDICATED_RECONF]"
  "drbs (n2_executed rrc resp r tp tc f ue) = with_tunnels (sr_drbs resp) (drbs ue)"
  "mcg (n2_executed rrc resp r tp tc f ue) = sr_cgc resp"
  "rnti (n2_executed rrc resp r tp tc f ue) = r"
  "pduSessions (n2_executed rrc resp r tp tc f ue) = established (cleared (pduSessions ue))"
  by (simp_all add: n2_executed_def)

definition n2_completed ::
  "gNB_RRC_INST \<Rightarrow> setup_resp \<Rightarrow> u16 \<Rightarrow> cell_ptr \<Rightarrow> nr_rrc_cell \<Rightarrow> ho_trigger option \<Rightarrow> gNB_RRC_UE \<Rightarrow>
     gNB_RRC_UE" where
  "n2_completed rrc resp r tp tc f ue =
     (n2_executed rrc resp r tp tc f ue)
       \<lparr>ue_reconfiguration_counter := ue_reconfiguration_counter ue + 1,
        ongoing_reconfiguration := False, xids := xids ue, ho_context := None\<rparr>"

lemma n2_ho_run_ok:
  assumes enc: "meas_encodes asn" and ready: "n2_ready rrc ue t tp tc d"
    and resp: "resp_ok resp ue" "sr_crnti resp = Some r"
  shows "\<exists>rrc' req cmd. n2_ho_run asn resp rrc ue =
           Inr (rrc', n2_completed rrc resp r tp tc (ht_ho_trigger t) ue) \<and>
    f1_request asn rrc ue tp tc (ht_ue_ho_prep_info t) req \<and>
    f1_ids rrc' = (f1_ids rrc)(rrc_ue_id ue \<mapsto>
      d\<lparr>secondary_ue := sr_du_ue_id resp, du_assoc_id := c_assoc_id tc\<rparr>) \<and>
    sig_sent rrc' = sig_sent rrc @
      [req,
       Ngap_handover_request_ack (rrc_ue_id ue) (amf_ue_ngap_id ue) cmd,
       Ngap_handover_notify (rrc_ue_id ue) (amf_ue_ngap_id ue) (c_cell_id tc),
       F1_modification_complete (c_assoc_id tc) (rrc_ue_id ue) (sr_du_ue_id resp)]"
proof -
  obtain req where req: "f1_request asn rrc ue tp tc (ht_ue_ho_prep_info t) req"
    "nr_rrc_trigger_n2_ho_target asn rrc ue =
         Inr (send req rrc,
              ue\<lparr>ho_context := Some (n2_ctx (n2_target tp (ht_ho_trigger t) (ht_du_ue_id t)
                                            (ht_new_rnti t)))\<rparr>)"
    using trigger_n2_ho_target_eq [OF enc ready] by blast
  let ?rrc1 = "send req rrc" and ?f = "ht_ho_trigger t"
  let ?ue1 = "ue\<lparr>ho_context := Some (n2_ctx (n2_target tp ?f (ht_du_ue_id t) (ht_new_rnti t)))\<rparr>"
  let ?d = "d\<lparr>secondary_ue := sr_du_ue_id resp, du_assoc_id := c_assoc_id tc\<rparr>"
  let ?ue2 = "n2_executed rrc resp r tp tc ?f ue"
  have idle: "idle_xids ue" using ready by (simp add: n2_ready_def)
  have R: "bearers_ok (drbs ?ue1)" "drbs ?ue1 \<noteq> []" "pduSessions ?ue1 \<noteq> []" "serving_cells ?ue1 = []"
    "length (pduSessions ?ue1) < nat MAX_DRBS_PER_UE"
    "length (xids ?ue1) = NR_RRC_TRANSACTION_IDENTIFIER_NUMBER"
    "cell_store ?rrc1 tp = Some tc" "f1_ids ?rrc1 (rrc_ue_id ?ue1) = Some d" "secondary_ue d = -1"
    "resp_ok resp ?ue1" "flows_listable ?ue1"
    using ready resp(1) by (simp_all add: n2_ready_def f1_target_ok_def idle_xids_def resp_ok_def flows_listable_def)
  have ctx: "ho_context ?ue1 = Some (n2_ctx (n2_target tp ?f (ht_du_ue_id t) (ht_new_rnti t)))" by simp
  have same: "n2_executed ?rrc1 resp r tp tc ?f ?ue1 = ?ue2"
    by (simp add: n2_executed_def next_xid_def)
  obtain cmd ms where ex: "rrc_CU_process_ue_context_setup_response asn resp ?rrc1 ?ue1 =
      Inr (?rrc1\<lparr>sent := sent ?rrc1 @ ms, f1_ids := (f1_ids rrc)(rrc_ue_id ue \<mapsto> ?d),
                 transaction_id := transaction_id rrc + 1\<rparr>, ?ue2)"
    "filter is_sig ms = [Ngap_handover_request_ack (rrc_ue_id ue) (amf_ue_ngap_id ue) cmd]"
    using n2_setup_response_ok [OF R(10) resp(2) R(1-6) R(11) ctx R(7-9), of asn] same by auto
  let ?rrc2 = "rrc\<lparr>sent := (sent rrc @ [req]) @ ms, f1_ids := (f1_ids rrc)(rrc_ue_id ue \<mapsto> ?d),
      transaction_id := transaction_id rrc + 1\<rparr>"
  have C: "next_xid rrc < length (xids ?ue2)" "quiet_action (xids ?ue2 ! next_xid rrc)"
    "cell_store ?rrc2 tp = Some tc" "get_cell_by_cell_id ?rrc2 (c_cell_id tc) = Some tp"
    "get_du_by_assoc_id ?rrc2 (c_assoc_id tc) \<noteq> None" "c_assoc_id tc \<noteq> 0"
    "f1_ids ?rrc2 (rrc_ue_id ?ue2) = Some ?d" "du_assoc_id ?d = c_assoc_id tc"
    using ready next_xid_less [of rrc]
    by (simp_all add: n2_ready_def f1_target_ok_def idle_xids_def quiet_action_def)
  let ?rrc3 = "send (F1_modification_complete (c_assoc_id tc) (rrc_ue_id ue) (sr_du_ue_id resp))
      (send (Ngap_handover_notify (rrc_ue_id ue) (amf_ue_ngap_id ue) (c_cell_id tc)) ?rrc2)"
  have "handle_rrcReconfigurationComplete (next_xid rrc) ?rrc2 ?ue2 =
      Inr (?rrc3, n2_completed rrc resp r tp tc ?f ue)"
    using n2_complete_ok [OF C(1,2) n2_executed_fields(4,3) C(3-8)] idle_after [OF idle]
    by (simp add: n2_completed_def n2_executed_def)
  moreover have "?rrc1\<lparr>sent := sent ?rrc1 @ ms, f1_ids := (f1_ids rrc)(rrc_ue_id ue \<mapsto> ?d),
      transaction_id := transaction_id rrc + 1\<rparr> = ?rrc2"
    by (simp add: send_def)
  ultimately have "n2_ho_run asn resp rrc ue = Inr (?rrc3, n2_completed rrc resp r tp tc ?f ue)"
    using ex(1) req(2) by (simp add: n2_ho_run_def)
  moreover have "sig_sent ?rrc3 = sig_sent rrc @
      [req, Ngap_handover_request_ack (rrc_ue_id ue) (amf_ue_ngap_id ue) cmd,
       Ngap_handover_notify (rrc_ue_id ue) (amf_ue_ngap_id ue) (c_cell_id tc),
       F1_modification_complete (c_assoc_id tc) (rrc_ue_id ue) (sr_du_ue_id resp)]"
    using ex(2) f1_request_is_sig [OF req(1)]
      is_sig_def [of "Ngap_handover_notify (rrc_ue_id ue) (amf_ue_ngap_id ue) (c_cell_id tc)"]
      is_sig_def [of "F1_modification_complete (c_assoc_id tc) (rrc_ue_id ue) (sr_du_ue_id resp)"]
    by (simp add: sig_sent_def send_def)
  ultimately show ?thesis
    using req(1) by (intro exI [of _ ?rrc3] exI [of _ req] exI [of _ cmd]) simp
qed


definition sample_n2_ue :: gNB_RRC_UE where
  "sample_n2_ue = sample_ue\<lparr>serving_cells := [],
     ho_context := Some \<lparr>ho_source = None,
       ho_target = Some (new_target_cu\<lparr>ht_cell := Some 200, ht_ue_ho_prep_info := [4]\<rparr>)\<rparr>\<rparr>"

definition sample_n2_rrc :: gNB_RRC_INST where
  "sample_n2_rrc = sample_rrc\<lparr>f1_ids := [1 \<mapsto> \<lparr>secondary_ue = -1, e1_assoc_id = 9, du_assoc_id = 0\<rparr>]\<rparr>"


section \<open>Source\<close>

lemma pcell_cong:
  assumes "cells rrc' = cells rrc" "cell_store rrc' = cell_store rrc" "serving_cells ue' = serving_cells ue"
  shows "rrc_get_pcell_for_ue rrc' ue' = rrc_get_pcell_for_ue rrc ue"
proof -
  have eq: "get_cell_by_cell_id rrc' = get_cell_by_cell_id rrc"
    using assms(1,2) by (simp add: fun_eq_iff get_cell_by_cell_id_def has_cell_id_def [abs_def])
  show ?thesis unfolding rrc_get_pcell_for_ue_def ue_get_pcell_entry_def eq assms(3) ..
qed

definition n2_source :: "cell_ptr \<Rightarrow> ho_source_cu" where
  "n2_source p = new_source_cu\<lparr>hs_cell := Some p,
     hs_ho_status_transfer := Some N2_ul_ran_status_transfer, hs_ho_cancel := Some N2_ho_cancel\<rparr>"

text \<open>The UE context and the instance after a trigger at the source.\<close>

lemma trigger_n2_ho_eq:
  assumes "ho_context ue = None" "length (pduSessions ue) < nat MAX_DRBS_PER_UE"
    and "\<exists>s\<in>set (pduSessions ue). p_status s = PDU_SESSION_STATUS_ESTABLISHED"
    and "rrc_get_pcell_for_ue rrc ue = Inr (Some p)"
  shows "\<exists>hpi. nr_rrc_trigger_n2_ho asn rrc ue n =
    Inr (send (Ngap_handover_required (rrc_ue_id ue) (amf_ue_ngap_id ue) n hpi)
           (rrc\<lparr>transaction_id := transaction_id rrc + 1\<rparr>),
         ue\<lparr>pduSessions := cleared (pduSessions ue), ue_nas_pdu := [],
            ho_context := Some \<lparr>ho_source = Some (n2_source p), ho_target = None\<rparr>\<rparr>)"
proof -
  let ?rrc = "rrc\<lparr>transaction_id := transaction_id rrc + 1\<rparr>"
  let ?ue = "ue\<lparr>pduSessions := cleared (pduSessions ue), ue_nas_pdu := []\<rparr>"
  obtain q where q: "get_RRCReconfiguration_params rrc ue 0 False = Inr (q, ?rrc, ?ue)"
    using reconfig_params_ok [OF assms(2)] by blast
  let ?hpi = "get_HandoverPreparationInformation asn q (ue_cap_buffer ue)"
  have "rrc_get_pcell_for_ue ?rrc (?ue\<lparr>ho_context := h\<rparr>) = Inr (Some p)" for h
    using assms(4) pcell_cong [of ?rrc rrc "?ue\<lparr>ho_context := h\<rparr>" ue] by simp
  moreover have "int (length (filter P (cleared (pduSessions ue)))) \<le> NR_MAX_NB_PDU_SESSIONS" for P
  proof -
    have "length (filter P (cleared (pduSessions ue))) \<le> length (pduSessions ue)"
      using length_filter_le [of P "cleared (pduSessions ue)"] by (simp add: cleared_def del: length_filter_le)
    with assms(2) show ?thesis by (simp add: MAX_DRBS_PER_UE_def NR_MAX_NB_PDU_SESSIONS_def)
  qed
  ultimately show ?thesis
    using assms(1,3) q
    by (intro exI [of _ ?hpi])
       (simp add: nr_rrc_trigger_n2_ho_def rrc_gNB_generate_HandoverPreparationInformation_def Let_def
         rrc_gNB_send_NGAP_HANDOVER_REQUIRED_def alloc_ho_ctx_def set_source_def n2_source_def assertr_def)
qed

text \<open>
  C36: At the source of a handover between CUs the context of the handover has no target and
  saves neither the tunnels nor the cell group of the UE. So a completion of any reconfiguration
  that is under way when the handover is triggered (the trigger does not check for one) runs into
  an assertion; and when the UE comes back to the source cell, the handover is cancelled at the
  AMF, but the UE is left with an empty cell group and with no tunnel for any bearer.
\<close>

theorem n2_source_faults:
  assumes "ho_context ue = None" and "length (pduSessions ue) < nat MAX_DRBS_PER_UE"
    and "\<exists>s\<in>set (pduSessions ue). p_status s = PDU_SESSION_STATUS_ESTABLISHED"
    and "rrc_get_pcell_for_ue rrc ue = Inr (Some p)" and "cell_store rrc p = Some c"
    and "f1_ids rrc (rrc_ue_id ue) = Some d" and "serving_ok ue"
    and "im_nr_cellid req = c_cell_id c"
  shows "\<exists>rrc' ue'. nr_rrc_trigger_n2_ho asn rrc ue n = Inr (rrc', ue') \<and>
    (\<forall>xid<length (xids ue). quiet_action (xids ue ! xid) \<or> xids ue ! xid = RRC_PDUSESSION_ESTABLISH \<longrightarrow>
       handle_rrcReconfigurationComplete xid rrc' ue' = Inl Assert_failed) \<and>
    (\<exists>rrc2 ue2. reestablish_on_cell c req rrc' ue' = Inr (True, rrc2, ue2) \<and>
       last (sent rrc2) = Ngap_handover_cancel (rrc_ue_id ue) (amf_ue_ngap_id ue) HANDOVER_CANCELLED \<and>
       mcg ue2 = [] \<and> drb_keys (drbs ue2) = drb_keys (drbs ue) \<and>
       (\<forall>b\<in>set (drbs ue2). du_tunnel_config b = no_tunnel))"
proof -
  let ?ue = "ue\<lparr>pduSessions := cleared (pduSessions ue), ue_nas_pdu := [],
      ho_context := Some \<lparr>ho_source = Some (n2_source p), ho_target = None\<rparr>\<rparr>"
  obtain hpi where trig: "nr_rrc_trigger_n2_ho asn rrc ue n =
      Inr (send (Ngap_handover_required (rrc_ue_id ue) (amf_ue_ngap_id ue) n hpi)
             (rrc\<lparr>transaction_id := transaction_id rrc + 1\<rparr>), ?ue)"
    using trigger_n2_ho_eq [OF assms(1-4)] by blast
  define rrc1 where "rrc1 = send (Ngap_handover_required (rrc_ue_id ue) (amf_ue_ngap_id ue) n hpi)
      (rrc\<lparr>transaction_id := transaction_id rrc + 1\<rparr>)"
  have rrc1: "cell_store rrc1 = cell_store rrc" "f1_ids rrc1 = f1_ids rrc" by (simp_all add: rrc1_def)
  have "handle_rrcReconfigurationComplete xid rrc1 ?ue = Inl Assert_failed"
    if xid: "xid < length (xids ue)"
      "quiet_action (xids ue ! xid) \<or> xids ue ! xid = RRC_PDUSESSION_ESTABLISH" for xid
  proof -
    let ?ue' = "?ue\<lparr>ue_reconfiguration_counter := ue_reconfiguration_counter ue + 1,
      ongoing_reconfiguration := False\<rparr>"
    obtain rrc2 ue2 where "reconfiguration_answer xid (xids ue ! xid) rrc1 ?ue' = Inr (rrc2, ue2)"
      "ho_context ue2 = ho_context ?ue'"
      using answer_keeps_ho [OF xid(2), of xid rrc1 ?ue'] by blast
    then show ?thesis
      using xid(1) by (simp add: handle_rrcReconfigurationComplete_def Let_def ho_ops)
  qed
  moreover have "\<exists>rrc2 ue2. reestablish_on_cell c req rrc1 ?ue = Inr (True, rrc2, ue2) \<and>
       last (sent rrc2) = Ngap_handover_cancel (rrc_ue_id ue) (amf_ue_ngap_id ue) HANDOVER_CANCELLED \<and>
       mcg ue2 = [] \<and> drb_keys (drbs ue2) = drb_keys (drbs ue) \<and>
       (\<forall>b\<in>set (drbs ue2). du_tunnel_config b = no_tunnel)"
  proof -
    let ?rrc = "(send (Ngap_handover_cancel (rrc_ue_id ue) (amf_ue_ngap_id ue) HANDOVER_CANCELLED) rrc1)
      \<lparr>f1_ids := (f1_ids rrc)(rrc_ue_id ue \<mapsto> d\<lparr>du_assoc_id := c_assoc_id c\<rparr>)\<rparr>"
    let ?ue' = "?ue\<lparr>xids := map (\<lambda>x. if x = RRC_DEDICATED_RECONF then RRC_ACTION_NONE else x) (xids ue),
      drbs := map (\<lambda>d. d\<lparr>du_tunnel_config := no_tunnel\<rparr>) (drbs ue), mcg := [], ho_context := None\<rparr>"
    let ?ue2 = "?ue'\<lparr>rnti := im_crnti req\<rparr>"
    have "ho_rollback c rrc1 ?ue d = Inr (?rrc, ?ue', d\<lparr>du_assoc_id := c_assoc_id c\<rparr>)"
      using assms(5,6) rrc1
      by (simp add: ho_rollback_def ho_ops Let_def call_ho_cancel_def nr_rrc_n2_ho_cancel_def
        n2_source_def new_source_cu_def f1u_dl_gtp_rollback_def store_cgc_def)
    moreover have "serving_ok ?ue2" using assms(7) by (simp add: serving_ok_def)
    then have "rrc_update_ue_pcell ?rrc c ?ue2 = Inr (Some (pcell_entry c),
        ?ue2\<lparr>serving_cells := pcell_entry c # kept_cells ?ue2\<rparr>)"
      using rrc_update_ue_pcell_eq [of ?ue2 ?rrc "d\<lparr>du_assoc_id := c_assoc_id c\<rparr>" c] by simp
    ultimately show ?thesis
      using assms(6,8) rrc1
      by (auto simp: reestablish_on_cell_def reestablish_ue_def ho_ops Let_def send_def drb_keys_def)
  qed
  ultimately show ?thesis using trig by (simp add: rrc1_def)
qed

theorem n2_source_faults_witness:
  "\<exists>rrc' ue' rrc2 ue2. nr_rrc_trigger_n2_ho sample_asn1 sample_rrc sample_ue
       \<lparr>gNB_ID = 1, nrcell_id = 33, physicalCellId = 3, n_scs = 1,
        n_plmn = \<lparr>mcc = 1, mnc = 1, mnc_digit_length = 2\<rparr>, n_tac = 1\<rparr> = Inr (rrc', ue') \<and>
     reestablish_on_cell (sample_cell 3 11 1) sample_im rrc' ue' = Inr (True, rrc2, ue2) \<and>
     mcg ue2 = [] \<and> mcg sample_ue = [8, 9]"
proof -
  have "ho_context sample_ue = None" "length (pduSessions sample_ue) < nat MAX_DRBS_PER_UE"
    "\<exists>s\<in>set (pduSessions sample_ue). p_status s = PDU_SESSION_STATUS_ESTABLISHED"
    "rrc_get_pcell_for_ue sample_rrc sample_ue = Inr (Some 100)"
    "cell_store sample_rrc 100 = Some (sample_cell 3 11 1)"
    "f1_ids sample_rrc (rrc_ue_id sample_ue) = Some \<lparr>secondary_ue = 40, e1_assoc_id = 9, du_assoc_id = 3\<rparr>"
    "serving_ok sample_ue" "im_nr_cellid sample_im = c_cell_id (sample_cell 3 11 1)" "mcg sample_ue = [8, 9]"
    by (simp_all add: sample_ue_def sample_rrc_def sample_im_def sample_cell_def MAX_DRBS_PER_UE_def
        rrc_get_pcell_for_ue_def ue_get_pcell_entry_def assertr_def RRC_PCELL_INDEX_def
        get_cell_by_cell_id_def has_cell_id_def serving_ok_def RRC_MAX_NUM_SERVING_CELLS_def)
  with n2_source_faults [of sample_ue sample_rrc 100 "sample_cell 3 11 1" _ sample_im sample_asn1]
  show ?thesis by metis
qed

end
