(* ===== verification/Nr_Rrc_Conn.thy ===== *)
theory Nr_Rrc_Conn
  imports Nr_Rrc_Ho_Props
begin

text \<open>
  Connections of UEs at the CU-CP (\<open>RRC/NR/rrc_gNB.c\<close>, \<open>rrc_gNB_UE_context.c\<close> and
  \<open>rrc_gNB_NGAP.c\<close>): the UE contexts are created by a setup request or by the fallback of a
  reestablishment, and removed by a reject or by the release of the AMF. The identities come from
  the allocator, the association with the DU from the table of \<open>f1ap_ids.c\<close>; the invariant says
  that tree, allocator and table agree.

  Keys and security algorithms of the UE, its measurement configuration and its 5G-S-TMSI are not
  part of the model.
\<close>

record rrc_asn1_conn =
  do_RRCSetup :: "nat \<Rightarrow> byte list option \<Rightarrow> bool \<Rightarrow> byte list"
  do_RRCReject :: "byte list"
  do_RRCReestablishment :: "nat \<Rightarrow> byte list"
  do_NR_RRCRelease :: "nat \<Rightarrow> byte list"

section \<open>UE contexts\<close>

definition rrc_gNB_allocate_new_ue_context :: "gNB_RRC_INST \<Rightarrow> (u32 \<times> gNB_RRC_INST) res" where
  "rrc_gNB_allocate_new_ue_context rrc =
     bindr (uid_linear_allocator_new (uid_allocator rrc)) (\<lambda>(uid, uia).
       Inr (uid + 1, rrc\<lparr>uid_allocator := uia\<rparr>))"

text \<open>The zeroed context with the fields that are set when it is created.\<close>

definition INT64_MAX :: u64 where
  "INT64_MAX = 0x7FFFFFFFFFFFFFFF"

definition new_rrc_ue :: "u32 \<Rightarrow> u16 \<Rightarrow> u64 \<Rightarrow> gNB_RRC_UE" where
  "new_rrc_ue i r ident =
     \<lparr>rrc_ue_id = i, rnti = r, amf_ue_ngap_id = INT64_MAX, ho_context = None, serving_cells = [],
      drbs = [], drbs_space = init_space SIZEOF_drb_t, pduSessions = [],
      sessions_space = init_space SIZEOF_rrc_pdu_session_param_t,
      xids = replicate NR_RRC_TRANSACTION_IDENTIFIER_NUMBER RRC_ACTION_NONE, mcg = [],
      ue_nas_pdu = [], ue_cap_buffer = [], srb2_active = False, f1_ue_context_active = False,
      ongoing_reconfiguration = False, ue_reconfiguration_counter = 0, n_initial_pdu = 0,
      srb1_active = False, as_security_active = False, an_release = False,
      random_ue_identity = ident\<rparr>"

definition ue_tree_insert :: "gNB_RRC_UE \<Rightarrow> gNB_RRC_UE list \<Rightarrow> gNB_RRC_UE list" where
  "ue_tree_insert ue l =
     (if \<exists>u\<in>set l. rrc_ue_id u = rrc_ue_id ue then l
      else insert_before (\<lambda>u. rrc_ue_id ue < rrc_ue_id u) ue l)"

definition rrc_gNB_create_ue_context ::
  "int \<Rightarrow> u16 \<Rightarrow> u64 \<Rightarrow> u32 \<Rightarrow> gNB_RRC_INST \<Rightarrow> (gNB_RRC_UE \<times> gNB_RRC_INST) res" where
  "rrc_gNB_create_ue_context assoc_id r ident du_ue_id rrc =
     bindr (rrc_gNB_allocate_new_ue_context rrc) (\<lambda>(i, rrc).
     bindr (assertr (\<not> cu_exists_f1_ue_data i rrc)) (\<lambda>_.
     let (success, rrc) = cu_add_f1_ue_data i
           \<lparr>secondary_ue = du_ue_id, e1_assoc_id = 0, du_assoc_id = assoc_id\<rparr> rrc;
         ue = new_rrc_ue i r ident in
     bindr (assertr success) (\<lambda>_.
       Inr (ue, rrc\<lparr>rrc_ue_head := ue_tree_insert ue (rrc_ue_head rrc)\<rparr>))))"

definition rrc_gNB_remove_ue_context :: "u32 \<Rightarrow> gNB_RRC_INST \<Rightarrow> gNB_RRC_INST" where
  "rrc_gNB_remove_ue_context i rrc =
     snd (cu_remove_f1_ue_data i
       (rrc\<lparr>rrc_ue_head := filter (\<lambda>u. rrc_ue_id u \<noteq> i) (rrc_ue_head rrc),
            uid_allocator := uid_linear_allocator_free (i - 1) (uid_allocator rrc)\<rparr>))"

text \<open>
  \<open>rrc_remove_ue\<close>. What \<open>rrc_delete_ue_data\<close> frees is not seen any more, but it asserts that the
  array of the flows of each session has been initialised.
\<close>

definition rrc_delete_ue_data :: "gNB_RRC_UE \<Rightarrow> unit res" where
  "rrc_delete_ue_data ue = assertr (\<forall>s\<in>set (pduSessions ue). p_qos s \<noteq> None)"

definition rrc_remove_ue :: "gNB_RRC_UE \<Rightarrow> gNB_RRC_INST \<Rightarrow> gNB_RRC_INST res" where
  "rrc_remove_ue ue rrc =
     bindr (rrc_delete_ue_data ue) (\<lambda>_.
       Inr (rrc_gNB_remove_ue_context (rrc_ue_id ue) (send (Pdcp_remove_ue (rrc_ue_id ue)) rrc)))"

section \<open>Setup and reject\<close>

definition activate_srb :: "gNB_RRC_UE \<Rightarrow> nat \<Rightarrow> gNB_RRC_INST \<Rightarrow> (gNB_RRC_INST \<times> gNB_RRC_UE) res" where
  "activate_srb ue srb_id rrc =
     bindr (assertr (srb_id = 1 \<or> srb_id = 2)) (\<lambda>_.
       Inr (if srb_id = 1 \<and> srb1_active ue \<or> srb_id = 2 \<and> srb2_active ue then (rrc, ue)
            else (send (Pdcp_add_srb (rrc_ue_id ue) srb_id) rrc,
                  if srb_id = 1 then ue\<lparr>srb1_active := True\<rparr> else ue\<lparr>srb2_active := True\<rparr>)))"

text \<open>The encoder gets a null list of SRBs when SRB1 is not active.\<close>

definition rrc_gNB_generate_RRCSetup ::
  "rrc_asn1_conn \<Rightarrow> byte list option \<Rightarrow> gNB_RRC_INST \<Rightarrow> gNB_RRC_UE \<Rightarrow>
     (gNB_RRC_INST \<times> gNB_RRC_UE) res" where
  "rrc_gNB_generate_RRCSetup asn cgc rrc ue =
     (let (xid, rrc) = rrc_gNB_get_next_transaction_identifier rrc in
      bindr (set_xid xid RRC_SETUP ue) (\<lambda>ue.
      let buf = do_RRCSetup asn xid cgc (srb1_active ue) in
      bindr (assertr (buf \<noteq> [] \<and> length buf \<le> 1024)) (\<lambda>_.
      bindr (cu_get_f1_ue_data (rrc_ue_id ue) rrc) (\<lambda>d.
        Inr (if du_assoc_id d = 0 then rrc
             else send (Dl_rrc_message (du_assoc_id d) (rrc_ue_id ue) (secondary_ue d) 0 buf) rrc,
             ue)))))"

definition rrc_gNB_generate_RRCReject ::
  "rrc_asn1_conn \<Rightarrow> gNB_RRC_UE \<Rightarrow> gNB_RRC_INST \<Rightarrow> gNB_RRC_INST res" where
  "rrc_gNB_generate_RRCReject asn ue rrc =
     (let buf = do_RRCReject asn in
      bindr (assertr (buf \<noteq> [] \<and> length buf \<le> 1024)) (\<lambda>_.
      bindr (cu_get_f1_ue_data (rrc_ue_id ue) rrc) (\<lambda>d.
        if du_assoc_id d = 0 then Inr rrc
        else rrc_remove_ue ue
          (send (Dl_rrc_message (du_assoc_id d) (rrc_ue_id ue) (secondary_ue d) 0 buf) rrc))))"

text \<open>
  The identity in a setup request: a random value or a part of the S-TMSI, each with its bytes;
  for any other identity the value that the code reads in its place.
\<close>

datatype init_ue_identity =
    Random_value "byte list"
  | S_TMSI_part1 "byte list" u64
  | Other_identity u64

text \<open>The five bytes are copied to the bytes 3 to 7 of the 64 bit value.\<close>

definition random_of_bytes :: "byte list \<Rightarrow> u64" where
  "random_of_bytes bs = (\<Sum>k<5. push_bit (8 * (3 + k)) (ucast (bs ! k)))"

definition setup_new_ue ::
  "rrc_asn1_conn \<Rightarrow> initial_ul_rrc \<Rightarrow> gNB_RRC_UE \<Rightarrow> gNB_RRC_INST \<Rightarrow> gNB_RRC_INST res" where
  "setup_new_ue asn msg ue rrc =
     (case im_container msg of
        None \<Rightarrow> rrc_gNB_generate_RRCReject asn ue rrc
      | Some cgc \<Rightarrow>
          let ue = store_cgc cgc ue in
          (case get_cell_by_cell_id rrc (im_nr_cellid msg) of
             None \<Rightarrow> rrc_gNB_generate_RRCReject asn ue (put_ue ue rrc)
           | Some p \<Rightarrow>
               bindr (deref_cell rrc (Some p)) (\<lambda>cell.
               bindr (rrc_update_ue_pcell rrc cell ue) (\<lambda>(added, ue).
               if added = None then rrc_gNB_generate_RRCReject asn ue (put_ue ue rrc)
               else
                 bindr (activate_srb (ue\<lparr>ongoing_reconfiguration := False\<rparr>) 1 rrc) (\<lambda>(rrc, ue).
                 bindr (rrc_gNB_generate_RRCSetup asn (Some cgc) rrc ue) (\<lambda>(rrc, ue).
                   Inr (put_ue ue rrc)))))))"

definition rrc_handle_RRCSetupRequest ::
  "rrc_asn1_conn \<Rightarrow> int \<Rightarrow> init_ue_identity \<Rightarrow> initial_ul_rrc \<Rightarrow> gNB_RRC_INST \<Rightarrow> gNB_RRC_INST res" where
  "rrc_handle_RRCSetupRequest asn assoc_id ident msg rrc =
     (let create = (\<lambda>v. rrc_gNB_create_ue_context assoc_id (im_crnti msg) v (im_du_ue_id msg) rrc) in
      case ident of
        Random_value bs \<Rightarrow>
          if length bs \<noteq> 5 then Inr rrc
          else bindr (create (random_of_bytes bs)) (\<lambda>(ue, rrc). setup_new_ue asn msg ue rrc)
      | S_TMSI_part1 bs v \<Rightarrow>
          if length bs \<noteq> 5 then Inr rrc
          else bindr (create v) (\<lambda>(ue, rrc). setup_new_ue asn msg ue rrc)
      | Other_identity v \<Rightarrow>
          bindr (create v) (\<lambda>(ue, rrc). rrc_gNB_generate_RRCReject asn ue rrc))"

section \<open>Reestablishment\<close>

definition rrc_gNB_generate_RRCReestablishment ::
  "rrc_asn1_conn \<Rightarrow> nr_rrc_cell \<Rightarrow> gNB_RRC_INST \<Rightarrow> gNB_RRC_UE \<Rightarrow> (gNB_RRC_INST \<times> gNB_RRC_UE) res" where
  "rrc_gNB_generate_RRCReestablishment asn cell rrc ue =
     (let (xid, rrc) = rrc_gNB_get_next_transaction_identifier rrc in
      bindr (set_xid xid RRC_REESTABLISH ue) (\<lambda>ue.
      bindr (rrc_get_pcell_for_ue rrc ue) (\<lambda>p.
      bindr (assert_some p) (\<lambda>p.
      bindr (deref_cell rrc (Some p)) (\<lambda>pcell.
      bindr (assertr (c_cell_id pcell = c_cell_id cell)) (\<lambda>_.
      bindr (assert_some (c_mtc pcell)) (\<lambda>_.
      let buf = do_RRCReestablishment asn xid;
          ue = ue\<lparr>srb1_active := True\<rparr>;
          rrc = send (Pdcp_reestablishment (rrc_ue_id ue) 1) rrc in
      bindr (cu_get_f1_ue_data (rrc_ue_id ue) rrc) (\<lambda>d.
        Inr (if du_assoc_id d = 0 then rrc
             else send (Dl_rrc_message (du_assoc_id d) (rrc_ue_id ue) (secondary_ue d) 1 buf) rrc,
             ue)))))))))"

definition get_previous_cell_by_pci_in_du ::
  "gNB_RRC_INST \<Rightarrow> cell_ptr \<Rightarrow> nr_rrc_cell \<Rightarrow> nr_rrc_du \<Rightarrow> u16 \<Rightarrow> cell_ptr option" where
  "get_previous_cell_by_pci_in_du rrc p current du pci =
     (if c_pci current = pci then Some p
      else
        let neighbour =
          Option.bind (get_neighbour_cell_config rrc (c_cell_id current)) (\<lambda>cfg.
          Option.bind (get_neighbour_cell_by_pci cfg (uint pci)) (\<lambda>n.
          Option.bind (get_cell_by_cell_id rrc (nrcell_id n)) (\<lambda>q.
          Option.bind (cell_store rrc q) (\<lambda>c.
            if c_assoc_id c = d_assoc_id du then Some q else None)))) in
        if neighbour \<noteq> None then neighbour
        else rrc_get_cell_by_pci_for_du rrc (d_cells du) pci)"

record reest_request =
  re_physCellId :: int
  re_c_RNTI :: u16

definition F1AP_CauseRadioNetwork_normal_release :: int where
  "F1AP_CauseRadioNetwork_normal_release = 10"

text \<open>The UE by RNTI at the DU, then at any DU, then by the source of its handover.\<close>

definition find_reest_ue :: "int \<Rightarrow> reest_request \<Rightarrow> gNB_RRC_INST \<Rightarrow> gNB_RRC_UE option res" where
  "find_reest_ue assoc_id req rrc =
     bindr (rrc_gNB_get_ue_context_by_rnti rrc assoc_id (re_c_RNTI req)) (\<lambda>u.
       case u of Some ue \<Rightarrow> Inr (Some ue)
       | None \<Rightarrow>
           (case rrc_gNB_get_ue_context_by_rnti_any_du rrc (re_c_RNTI req) of
              Some ue \<Rightarrow> Inr (Some ue)
            | None \<Rightarrow> rrc_gNB_get_ue_context_source_cell rrc (re_physCellId req) (re_c_RNTI req)))"

definition ho_reestab_on_source :: "nr_rrc_cell \<Rightarrow> gNB_RRC_INST \<Rightarrow> gNB_RRC_UE \<Rightarrow> bool res" where
  "ho_reestab_on_source cell rrc ue =
     (case Option.bind (ho_context ue) ho_source of
        None \<Rightarrow> Inr False
      | Some s \<Rightarrow>
          bindr (assert_some (hs_cell s)) (\<lambda>p.
          bindr (deref_cell rrc (Some p)) (\<lambda>source_cell.
            Inr (c_cell_id cell = c_cell_id source_cell))))"

text \<open>\<open>fallback_rrc_setup\<close>: release of the old UE, a new context and a setup.\<close>

definition fallback_rrc_setup ::
  "rrc_asn1_conn \<Rightarrow> int \<Rightarrow> initial_ul_rrc \<Rightarrow> u64 \<Rightarrow> nr_rrc_cell \<Rightarrow> gNB_RRC_UE option \<Rightarrow> ngap_cause \<Rightarrow>
     gNB_RRC_INST \<Rightarrow> gNB_RRC_INST res" where
  "fallback_rrc_setup asn assoc_id msg random current old cause rrc =
     bindr (rrc_gNB_send_NGAP_UE_CONTEXT_RELEASE_REQ old cause rrc) (\<lambda>rrc.
     bindr (rrc_gNB_create_ue_context assoc_id (im_crnti msg) (random AND 0x7FFFFFFFFF)
              (im_du_ue_id msg) rrc) (\<lambda>(ue, rrc).
     bindr (activate_srb ue 1 rrc) (\<lambda>(rrc, ue).
     bindr (rrc_update_ue_pcell rrc current ue) (\<lambda>(added, ue).
     bindr (assert_some added) (\<lambda>_.
     bindr (rrc_gNB_generate_RRCSetup asn (im_container msg) rrc ue) (\<lambda>(rrc, ue).
       Inr (put_ue ue rrc)))))))"

definition finish_reestablishment ::
  "rrc_asn1_conn \<Rightarrow> nr_rrc_cell \<Rightarrow> initial_ul_rrc \<Rightarrow> gNB_RRC_INST \<Rightarrow> gNB_RRC_UE \<Rightarrow> f1_ue_data \<Rightarrow>
     gNB_RRC_INST res" where
  "finish_reestablishment asn cell msg rrc ue d =
     bindr (reestablish_ue cell msg rrc ue d) (\<lambda>(ok, rrc, ue).
     if \<not> ok then Inr (put_ue ue rrc)
     else
       bindr (rrc_gNB_generate_RRCReestablishment asn cell rrc ue) (\<lambda>(rrc, ue).
         Inr (put_ue ue rrc)))"

definition rrc_handle_RRCReestablishmentRequest ::
  "rrc_asn1_conn \<Rightarrow> int \<Rightarrow> reest_request \<Rightarrow> initial_ul_rrc \<Rightarrow> u64 \<Rightarrow> gNB_RRC_INST \<Rightarrow> gNB_RRC_INST res"
where
  "rrc_handle_RRCReestablishmentRequest asn assoc_id req msg random rrc =
     (case get_du_by_assoc_id rrc assoc_id of
        None \<Rightarrow> Inr rrc
      | Some du \<Rightarrow>
      case get_cell_by_cell_id rrc (im_nr_cellid msg) of
        None \<Rightarrow> Inr rrc
      | Some p \<Rightarrow>
      bindr (deref_cell rrc (Some p)) (\<lambda>current.
      let fallback = fallback_rrc_setup asn assoc_id msg random current in
      if c_assoc_id current \<noteq> d_assoc_id du then Inr rrc
      else if re_c_RNTI req < 1 \<or> re_c_RNTI req > 0xFFEF then fallback None UNSPECIFIED rrc
      else if c_mtc current = None then fallback None RELEASE_DUE_TO_NGRAN_GENERATED_REASON rrc
      else
        case get_previous_cell_by_pci_in_du rrc p current du (word_of_int (re_physCellId req)) of
          None \<Rightarrow> Inr rrc
        | Some q \<Rightarrow>
        bindr (deref_cell rrc (Some q)) (\<lambda>cell.
        bindr (find_reest_ue assoc_id req rrc) (\<lambda>u.
        case u of
          None \<Rightarrow> fallback None UNSPECIFIED rrc
        | Some ue \<Rightarrow>
        if \<not> as_security_active ue
        then fallback (Some ue) RELEASE_DUE_TO_NGRAN_GENERATED_REASON rrc
        else
          bindr (cu_get_f1_ue_data (rrc_ue_id ue) rrc) (\<lambda>d.
          bindr (ho_reestab_on_source cell rrc ue) (\<lambda>on_source.
          if on_source
          then bindr (ho_rollback cell rrc ue d) (\<lambda>(rrc, ue, d).
                 finish_reestablishment asn cell msg rrc ue d)
          else if re_physCellId req \<noteq> uint (c_pci cell)
          then
            if assoc_id \<noteq> du_assoc_id d
            then
              bindr (assertr (secondary_ue d \<noteq> 0)) (\<lambda>_.
              if du_assoc_id d = 0 then Inr rrc
              else
                let rrc = send (F1_release_command (du_assoc_id d) (rrc_ue_id ue) (secondary_ue d)
                            F1AP_CauseRadioNetwork_normal_release) rrc;
                    ue = ue\<lparr>f1_ue_context_active := False\<rparr>;
                    d = d\<lparr>du_assoc_id := assoc_id\<rparr> in
                bindr (cu_update_f1_ue_data (rrc_ue_id ue) d rrc) (\<lambda>rrc.
                  finish_reestablishment asn cell msg rrc ue d))
            else fallback (Some ue) RELEASE_DUE_TO_NGRAN_GENERATED_REASON rrc
          else finish_reestablishment asn cell msg rrc ue d))))))"

definition rrc_gNB_process_RRCReestablishmentComplete ::
  "rrc_asn1 \<Rightarrow> nat \<Rightarrow> gNB_RRC_INST \<Rightarrow> gNB_RRC_UE \<Rightarrow> (gNB_RRC_INST \<times> gNB_RRC_UE) res" where
  "rrc_gNB_process_RRCReestablishmentComplete asn xid rrc ue =
     bindr (set_xid xid RRC_ACTION_NONE ue) (\<lambda>ue.
     bindr (cu_get_f1_ue_data (rrc_ue_id ue) rrc) (\<lambda>d.
     if du_assoc_id d = 0 then Inr (rrc, ue)
     else if \<not> f1_ue_context_active ue
     then
       bindr (rrc_get_pcell_for_ue rrc ue) (\<lambda>p.
       case p of
         None \<Rightarrow> Inr (rrc, ue)
       | Some p \<Rightarrow> bindr (rrc_f1_ue_context_setup_for_target_du asn ue p None rrc) (\<lambda>rrc. Inr (rrc, ue)))
     else
       Inr (send (F1_modification_query (du_assoc_id d) (rrc_ue_id ue) (secondary_ue d)) rrc, ue)))"

definition nr_rrc_reconfiguration_req ::
  "rrc_asn1 \<Rightarrow> gNB_RRC_INST \<Rightarrow> gNB_RRC_UE \<Rightarrow> (gNB_RRC_INST \<times> gNB_RRC_UE) res" where
  "nr_rrc_reconfiguration_req asn rrc ue =
     (let (xid, rrc) = rrc_gNB_get_next_transaction_identifier rrc in
      bindr (set_xid xid RRC_DEDICATED_RECONF ue) (\<lambda>ue.
      let ue = ue\<lparr>ongoing_reconfiguration := True\<rparr>;
          msg = do_RRCReconfiguration asn
            \<lparr>rp_transaction_id = xid, rp_srb_reest_bitmap = 0, rp_drb_reestablish = False,
             rp_drbs = [], rp_cgc = mcg ue, rp_nas_msgs = [], rp_drb_rel = [],
             rp_masterKeyUpdate = False\<rparr> in
      if msg = [] then Inr (rrc, ue)
      else bindr (nr_rrc_transfer_protected_rrc_message ue msg rrc) (\<lambda>rrc. Inr (rrc, ue))))"

section \<open>Release\<close>

definition rrc_gNB_generate_RRCRelease ::
  "rrc_asn1_conn \<Rightarrow> gNB_RRC_UE \<Rightarrow> gNB_RRC_INST \<Rightarrow> gNB_RRC_INST res" where
  "rrc_gNB_generate_RRCRelease asn ue rrc =
     (let (xid, rrc) = rrc_gNB_get_next_transaction_identifier rrc in
      bindr (cu_get_f1_ue_data (rrc_ue_id ue) rrc) (\<lambda>d.
        Inr (if du_assoc_id d = 0 then rrc
             else send (F1_release_command (du_assoc_id d) (rrc_ue_id ue) (secondary_ue d) 10) rrc)))"

definition rrc_gNB_process_NGAP_UE_CONTEXT_RELEASE_COMMAND ::
  "rrc_asn1_conn \<Rightarrow> u32 \<Rightarrow> gNB_RRC_INST \<Rightarrow> gNB_RRC_INST res" where
  "rrc_gNB_process_NGAP_UE_CONTEXT_RELEASE_COMMAND asn ue_id rrc =
     (case rrc_gNB_get_ue_context rrc ue_id of
        None \<Rightarrow> Inr (send (Ngap_release_complete ue_id) rrc)
      | Some ue \<Rightarrow>
          let ue = ue\<lparr>an_release := True\<rparr>; rrc = put_ue ue rrc in
          bindr (cu_get_f1_ue_data (rrc_ue_id ue) rrc) (\<lambda>d.
          bindr (if e1_assoc_id d \<noteq> 0
                 then bindr (get_existing_cuup_for_ue rrc ue) (\<lambda>a.
                        Inr (send (E1_bearer_release a (rrc_ue_id ue)) rrc))
                 else Inr rrc) (\<lambda>rrc.
          if du_assoc_id d \<noteq> 0 then rrc_gNB_generate_RRCRelease asn ue rrc
          else rrc_remove_ue ue (send (Ngap_release_complete (rrc_ue_id ue)) rrc))))"

definition rrc_CU_process_ue_context_release_complete ::
  "u32 \<Rightarrow> gNB_RRC_INST \<Rightarrow> gNB_RRC_INST res" where
  "rrc_CU_process_ue_context_release_complete ue_id rrc =
     (case rrc_gNB_get_ue_context rrc ue_id of
        None \<Rightarrow> Inr rrc
      | Some ue \<Rightarrow>
          if an_release ue then rrc_remove_ue ue (send (Ngap_release_complete (rrc_ue_id ue)) rrc)
          else Inr rrc)"

end
