(* ===== verification/Nr_Rrc_Conn_Props.thy ===== *)
theory Nr_Rrc_Conn_Props
  imports Nr_Rrc_Conn
begin

text \<open>
  Properties of the connections: the tree of UE contexts, the allocator of their identities and
  the table of their associations agree after every handler; a UE that is set up and released
  leaves nothing behind; and the cases of a reestablishment that end in an assertion.
\<close>

section \<open>The identities\<close>

text \<open>What the invariant looks at.\<close>

definition ctx_shape :: "gNB_RRC_INST \<Rightarrow> uid_allocator \<times> u32 list \<times> u32 set" where
  "ctx_shape rrc = (uid_allocator rrc, map rrc_ue_id (rrc_ue_head rrc), dom (f1_ids rrc))"

definition ctx_ok :: "gNB_RRC_INST \<Rightarrow> bool" where
  "ctx_ok rrc \<longleftrightarrow>
     uid_ok (uid_allocator rrc) \<and>
     sorted_wrt (<) (map rrc_ue_id (rrc_ue_head rrc)) \<and>
     dom (f1_ids rrc) = rrc_ue_id ` set (rrc_ue_head rrc) \<and>
     0 \<notin> rrc_ue_id ` set (rrc_ue_head rrc) \<and>
     uids (uid_allocator rrc) = (\<lambda>i. unat (i - 1)) ` rrc_ue_id ` set (rrc_ue_head rrc)"

definition uids_left :: "gNB_RRC_INST \<Rightarrow> bool" where
  "uids_left rrc \<longleftrightarrow> uids (uid_allocator rrc) \<noteq> {..<1056}"

lemma ctx_ok_shape:
  assumes "ctx_shape rrc' = ctx_shape rrc"
  shows "ctx_ok rrc' \<longleftrightarrow> ctx_ok rrc" "uids_left rrc' \<longleftrightarrow> uids_left rrc"
proof -
  have eqs: "uid_allocator rrc' = uid_allocator rrc" "map rrc_ue_id (rrc_ue_head rrc') = map rrc_ue_id (rrc_ue_head rrc)"
    "dom (f1_ids rrc') = dom (f1_ids rrc)" using assms by (simp_all add: ctx_shape_def)
  have ids: "rrc_ue_id ` set (rrc_ue_head rrc') = rrc_ue_id ` set (rrc_ue_head rrc)"
    using arg_cong [OF eqs(2), of set] by simp
  show "ctx_ok rrc' \<longleftrightarrow> ctx_ok rrc" unfolding ctx_ok_def eqs ids ..
  show "uids_left rrc' \<longleftrightarrow> uids_left rrc" by (simp add: uids_left_def eqs(1))
qed

lemma ctx_shape_send [simp]: "ctx_shape (send m rrc) = ctx_shape rrc"
  by (simp add: ctx_shape_def send_def)

lemma ctx_shape_put [simp]: "ctx_shape (put_ue ue rrc) = ctx_shape rrc"
  by (simp add: ctx_shape_def put_ue_def comp_def if_distrib)

lemma ctx_shape_xid: "rrc_gNB_get_next_transaction_identifier rrc = (x, rrc') \<Longrightarrow> ctx_shape rrc' = ctx_shape rrc"
  by (auto simp: rrc_gNB_get_next_transaction_identifier_def Let_def ctx_shape_def)

lemma ctx_shape_update: "cu_update_f1_ue_data i d rrc = Inr rrc' \<Longrightarrow> ctx_shape rrc' = ctx_shape rrc"
  by (auto simp: cu_update_f1_ue_data_def ctx_shape_def split: if_splits)

lemma next_id_nonzero: "uid \<noteq> UINT_MAX \<Longrightarrow> uid + 1 \<noteq> (0 :: u32)"
proof
  assume "uid \<noteq> UINT_MAX" "uid + 1 = 0"
  then have "uid = - 1" by (simp add: eq_neg_iff_add_eq_0)
  then show False using \<open>uid \<noteq> UINT_MAX\<close> by (simp add: UINT_MAX_def)
qed

lemma uid_new_left:
  assumes "uid_ok uia" "uids uia \<noteq> {..<1056}"
  shows "\<exists>uid uia'. uid_linear_allocator_new uia = Inr (uid, uia') \<and> uid_ok uia' \<and>
    uid \<noteq> UINT_MAX \<and> unat uid \<notin> uids uia \<and> uids uia' = insert (unat uid) (uids uia)"
proof -
  obtain uid uia' where *: "uid_linear_allocator_new uia = Inr (uid, uia')" "uid_ok uia'"
    "if uid = UINT_MAX then uia' = uia else unat uid \<notin> uids uia \<and> uids uia' = insert (unat uid) (uids uia)"
    "unat uid < 1056" using uid_new_ok [OF assms(1)] assms(2) by blast
  have "uid \<noteq> UINT_MAX" using *(4) by (auto simp: UINT_MAX_def)
  with * show ?thesis by auto
qed

lemma ctx_ok_create:
  assumes ok: "ctx_ok rrc" and left: "uids_left rrc"
  shows "\<exists>ue rrc'. rrc_gNB_create_ue_context a r ident du rrc = Inr (ue, rrc') \<and> ctx_ok rrc' \<and>
    rrc_ue_id ue \<notin> dom (f1_ids rrc) \<and> ue = new_rrc_ue (rrc_ue_id ue) r ident \<and>
    f1_ids rrc' = (f1_ids rrc)(rrc_ue_id ue \<mapsto> \<lparr>secondary_ue = du, e1_assoc_id = 0, du_assoc_id = a\<rparr>) \<and>
    rrc_ue_head rrc' = insert_before (\<lambda>u. rrc_ue_id ue < rrc_ue_id u) ue (rrc_ue_head rrc) \<and>
    rrc' = rrc\<lparr>uid_allocator := uid_allocator rrc', f1_ids := f1_ids rrc', rrc_ue_head := rrc_ue_head rrc'\<rparr>"
proof -
  obtain uid uia where new: "uid_linear_allocator_new (uid_allocator rrc) = Inr (uid, uia)" "uid_ok uia"
    "uid \<noteq> UINT_MAX" "unat uid \<notin> uids (uid_allocator rrc)"
    "uids uia = insert (unat uid) (uids (uid_allocator rrc))"
    using uid_new_left [of "uid_allocator rrc"] ok left by (auto simp: ctx_ok_def uids_left_def)
  let ?ue = "new_rrc_ue (uid + 1) r ident" and ?l = "rrc_ue_head rrc"
  let ?d = "\<lparr>secondary_ue = du, e1_assoc_id = 0, du_assoc_id = a\<rparr>"
  have id: "rrc_ue_id ?ue = uid + 1" by (simp add: new_rrc_ue_def)
  have fresh: "uid + 1 \<notin> rrc_ue_id ` set ?l"
  proof
    assume "uid + 1 \<in> rrc_ue_id ` set ?l"
    then have "unat (uid + 1 - 1) \<in> (\<lambda>i. unat (i - 1)) ` rrc_ue_id ` set ?l" by (rule imageI)
    then show False using new(4) ok by (simp add: ctx_ok_def)
  qed
  let ?l' = "insert_before (\<lambda>u. uid + 1 < rrc_ue_id u) ?ue ?l"
  let ?rrc = "rrc\<lparr>uid_allocator := uia, f1_ids := (f1_ids rrc)(uid + 1 \<mapsto> ?d), rrc_ue_head := ?l'\<rparr>"
  have none: "f1_ids rrc (uid + 1) = None" using fresh ok by (auto simp: ctx_ok_def)
  have "\<not> (\<exists>u\<in>set ?l. rrc_ue_id u = uid + 1)" using fresh by (metis imageI)
  then have "ue_tree_insert ?ue ?l = ?l'" by (simp add: ue_tree_insert_def id)
  then have create: "rrc_gNB_create_ue_context a r ident du rrc = Inr (?ue, ?rrc)"
    using new(1) none
    by (simp add: rrc_gNB_create_ue_context_def rrc_gNB_allocate_new_ue_context_def ho_ops
      cu_add_f1_ue_data_def Let_def)
  have "sorted_wrt (\<lambda>x y. rrc_ue_id x < rrc_ue_id y) ?l'"
    using ok fresh
    by (intro sorted_wrt_insert_before)
       (auto simp: ctx_ok_def sorted_wrt_map id transp_on_def image_iff not_less order.order_iff_strict)
  then have "ctx_ok ?rrc"
    using ok new(2,5) next_id_nonzero [OF new(3)]
    by (simp add: ctx_ok_def sorted_wrt_map id)
  then show ?thesis
    using create none by (intro exI [of _ ?ue] exI [of _ ?rrc]) (simp add: id dom_def)
qed

lemma minus_one_inject: "unat (i - 1) = unat (j - 1) \<longleftrightarrow> i = (j :: u32)"
  by (simp add: word_unat_eq_iff [symmetric])

lemma ctx_ok_remove:
  assumes ok: "ctx_ok rrc" and i: "i \<in> rrc_ue_id ` set (rrc_ue_head rrc)"
  shows "ctx_ok (rrc_gNB_remove_ue_context i rrc)"
proof -
  let ?l = "rrc_ue_head rrc" and ?l' = "filter (\<lambda>u. rrc_ue_id u \<noteq> i) (rrc_ue_head rrc)"
  have ids: "rrc_ue_id ` set ?l' = rrc_ue_id ` set ?l - {i}" by auto
  have "uids (uid_linear_allocator_free (i - 1) (uid_allocator rrc)) =
      (\<lambda>j. unat (j - 1)) ` rrc_ue_id ` set ?l - {unat (i - 1)}"
    using ok ua.release_law by (simp add: ctx_ok_def)
  also have "\<dots> = (\<lambda>j. unat (j - 1)) ` (rrc_ue_id ` set ?l - {i})"
    by (auto simp: minus_one_inject)
  finally have "uids (uid_linear_allocator_free (i - 1) (uid_allocator rrc)) =
      (\<lambda>j. unat (j - 1)) ` rrc_ue_id ` set ?l'" by (simp only: ids)
  moreover have "uid_ok (uid_linear_allocator_free (i - 1) (uid_allocator rrc))"
    using ok ua.release_law by (simp add: ctx_ok_def)
  moreover have "sorted_wrt (<) (map rrc_ue_id ?l')"
    using ok by (simp add: ctx_ok_def sorted_wrt_map sorted_wrt_filter)
  moreover have "dom ((f1_ids rrc)(i := None)) = rrc_ue_id ` set ?l'"
    unfolding ids using ok by (simp add: ctx_ok_def)
  moreover have "0 \<notin> rrc_ue_id ` set ?l'" unfolding ids using ok by (simp add: ctx_ok_def)
  ultimately show ?thesis
    by (simp add: ctx_ok_def rrc_gNB_remove_ue_context_def cu_remove_f1_ue_data_def)
qed

section \<open>The handlers\<close>

lemma ids_shape:
  "ctx_shape rrc' = ctx_shape rrc \<Longrightarrow> rrc_ue_id ` set (rrc_ue_head rrc') = rrc_ue_id ` set (rrc_ue_head rrc)"
  unfolding ctx_shape_def by (metis Pair_inject list.set_map)

lemma ue_shape:
  "set_xid x a ue = Inr ue' \<Longrightarrow> rrc_ue_id ue' = rrc_ue_id ue"
  "rrc_update_ue_pcell rrc c ue = Inr (e, ue') \<Longrightarrow> rrc_ue_id ue' = rrc_ue_id ue"
proof -
  show "rrc_ue_id ue' = rrc_ue_id ue" if "set_xid x a ue = Inr ue'"
    using that by (auto simp: set_xid_def split: if_splits)
  have rm: "rrc_remove_ue_scells_from_du a u = Inr u' \<Longrightarrow> rrc_ue_id u' = rrc_ue_id u" for a u u'
    by (auto simp: rrc_remove_ue_scells_from_du_def Let_def elim!: bindr_InrE split: if_splits)
  have add: "rrc_add_ue_serving_cell rrc c i u = Inr (e, u') \<Longrightarrow> rrc_ue_id u' = rrc_ue_id u" for i u u'
    by (auto simp: rrc_add_ue_serving_cell_def Let_def elim!: bindr_InrE split: if_splits option.splits)
  show "rrc_ue_id ue' = rrc_ue_id ue" if "rrc_update_ue_pcell rrc c ue = Inr (e, ue')"
    using that rm add unfolding rrc_update_ue_pcell_def
    by (elim bindr_InrE) (auto split: option.splits dest!: add rm)
qed

lemma setup_shape:
  assumes "rrc_gNB_generate_RRCSetup asn cgc rrc ue = Inr (rrc', ue')"
  shows "ctx_shape rrc' = ctx_shape rrc" "rrc_ue_id ue' = rrc_ue_id ue"
  using assms
  by (auto simp: rrc_gNB_generate_RRCSetup_def Let_def elim!: bindr_InrE dest: ctx_shape_xid ue_shape(1)
      split: prod.splits if_splits)

lemma activate_srb_shape:
  assumes "activate_srb ue n rrc = Inr (rrc', ue')"
  shows "ctx_shape rrc' = ctx_shape rrc" "rrc_ue_id ue' = rrc_ue_id ue"
  using assms by (auto simp: activate_srb_def elim!: bindr_InrE split: if_splits)

lemma remove_ue_ok:
  assumes "rrc_remove_ue u rrc = Inr rrc'" "ctx_ok rrc" "rrc_ue_id u \<in> rrc_ue_id ` set (rrc_ue_head rrc)"
  shows "ctx_ok rrc'"
proof -
  let ?rrc = "send (Pdcp_remove_ue (rrc_ue_id u)) rrc"
  have "ctx_ok (rrc_gNB_remove_ue_context (rrc_ue_id u) ?rrc)"
    using assms(2,3) ctx_ok_shape(1) [of ?rrc rrc] ids_shape [of ?rrc rrc] by (intro ctx_ok_remove) simp_all
  with assms(1) show ?thesis by (auto simp: rrc_remove_ue_def elim!: bindr_InrE)
qed

lemma reject_ok:
  assumes "rrc_gNB_generate_RRCReject asn ue rrc = Inr rrc'" "ctx_ok rrc"
    "rrc_ue_id ue \<in> rrc_ue_id ` set (rrc_ue_head rrc)"
  shows "ctx_ok rrc'"
proof -
  have "ctx_ok rrc'" if "rrc_remove_ue ue (send m rrc) = Inr rrc'" for m
    using remove_ue_ok [OF that] assms(2,3) ctx_ok_shape(1) [of "send m rrc" rrc] ids_shape [of "send m rrc" rrc]
    by simp
  with assms(1,2) show ?thesis
    by (auto simp: rrc_gNB_generate_RRCReject_def Let_def elim!: bindr_InrE split: if_splits)
qed

lemma setup_new_ue_ok:
  assumes "setup_new_ue asn msg ue rrc = Inr rrc'" and ok: "ctx_ok rrc"
    and id: "rrc_ue_id ue \<in> rrc_ue_id ` set (rrc_ue_head rrc)"
  shows "ctx_ok rrc'"
proof -
  have rej: "ctx_ok r" if "rrc_gNB_generate_RRCReject asn u (put_ue u' rrc) = Inr r"
    "rrc_ue_id u = rrc_ue_id ue" for u u' r
    using reject_ok [OF that(1)] that(2) ok id ctx_ok_shape(1) [of "put_ue u' rrc" rrc]
      ids_shape [of "put_ue u' rrc" rrc] by simp
  have est: "ctx_ok (put_ue u2 r2)"
    if "activate_srb u 1 rrc = Inr (r1, u1)" "rrc_gNB_generate_RRCSetup asn cgc r1 u1 = Inr (r2, u2)"
    for u u1 u2 r1 r2 cgc
    using ok that activate_srb_shape(1) setup_shape(1) ctx_ok_shape(1) [of "put_ue u2 r2" rrc] by auto
  show ?thesis
  proof (cases "im_container msg")
    case None
    then show ?thesis using assms(1) reject_ok ok id by (auto simp: setup_new_ue_def)
  next
    case (Some cgc)
    then show ?thesis
      using assms(1) rej est ue_shape(2)
      by (auto simp: setup_new_ue_def Let_def store_cgc_def elim!: bindr_InrE
          split: option.splits if_splits)
  qed
qed

lemma created_id:
  assumes "ctx_ok rrc" "uids_left rrc" "rrc_gNB_create_ue_context a r v du rrc = Inr (ue, rrc')"
  shows "ctx_ok rrc'" "rrc_ue_id ue \<in> rrc_ue_id ` set (rrc_ue_head rrc')"
proof -
  show "ctx_ok rrc'" using ctx_ok_create [OF assms(1,2), of a r v du] assms(3) by auto
  have "rrc_ue_head rrc' = insert_before (\<lambda>u. rrc_ue_id ue < rrc_ue_id u) ue (rrc_ue_head rrc)"
    using ctx_ok_create [OF assms(1,2), of a r v du] assms(3) by auto
  then show "rrc_ue_id ue \<in> rrc_ue_id ` set (rrc_ue_head rrc')" by simp
qed

lemma setup_request_ok:
  assumes ok: "ctx_ok rrc" and left: "uids_left rrc"
    and run: "rrc_handle_RRCSetupRequest asn a ident msg rrc = Inr rrc'"
  shows "ctx_ok rrc'"
proof -
  have est: "ctx_ok rrc'"
    if "bindr (rrc_gNB_create_ue_context a r v du rrc) (\<lambda>(ue, rrc). setup_new_ue asn msg ue rrc) = Inr rrc'"
    for r v du
    using that created_id [OF ok left] setup_new_ue_ok by (auto elim!: bindr_InrE)
  have reject: "ctx_ok rrc'"
    if "bindr (rrc_gNB_create_ue_context a r v du rrc) (\<lambda>(ue, rrc). rrc_gNB_generate_RRCReject asn ue rrc) = Inr rrc'"
    for r v du
    using that created_id [OF ok left] reject_ok by (auto elim!: bindr_InrE)
  show ?thesis
    using run ok est reject
    by (cases ident) (auto simp: rrc_handle_RRCSetupRequest_def Let_def split: if_splits)
qed

lemma release_req_shape:
  "rrc_gNB_send_NGAP_UE_CONTEXT_RELEASE_REQ u c rrc = Inr rrc' \<Longrightarrow> ctx_shape rrc' = ctx_shape rrc"
  by (auto simp: rrc_gNB_send_NGAP_UE_CONTEXT_RELEASE_REQ_def elim!: bindr_InrE split: option.splits)

lemma fallback_ok:
  assumes run: "fallback_rrc_setup asn a msg v c u cause rrc = Inr rrc'"
    and ok: "ctx_ok rrc" "uids_left rrc"
  shows "ctx_ok rrc'"
proof -
  from run obtain r1 ue r2 r3 ue3 e ue4 r5 ue5 where
    1: "rrc_gNB_send_NGAP_UE_CONTEXT_RELEASE_REQ u cause rrc = Inr r1" and
    2: "rrc_gNB_create_ue_context a (im_crnti msg) (v AND 0x7FFFFFFFFF) (im_du_ue_id msg) r1 = Inr (ue, r2)" and
    3: "activate_srb ue 1 r2 = Inr (r3, ue3)" and
    4: "rrc_gNB_generate_RRCSetup asn (im_container msg) r3 ue4 = Inr (r5, ue5)" "rrc' = put_ue ue5 r5"
    unfolding fallback_rrc_setup_def by (auto elim!: bindr_InrE)
  have "ctx_ok r1" "uids_left r1"
    using ctx_ok_shape [OF release_req_shape [OF 1]] ok by simp_all
  then have "ctx_ok r2" using created_id(1) 2 by blast
  moreover have "ctx_shape rrc' = ctx_shape r2"
    using 4 activate_srb_shape(1) [OF 3] setup_shape(1) [OF 4(1)] by simp
  ultimately show ?thesis using ctx_ok_shape(1) by blast
qed

lemma rollback_shape:
  assumes "ho_rollback c rrc ue d = Inr (rrc', ue', d')"
  shows "ctx_shape rrc' = ctx_shape rrc"
proof -
  have "ctx_shape r' = ctx_shape r" if "call_ho_cancel f r u = Inr r'" for f r u r'
    using that
    by (auto simp: call_ho_cancel_def nr_rrc_cancel_f1_ho_def nr_rrc_n2_ho_cancel_def elim!: bindr_InrE
        split: option.splits ho_cancel.splits)
  with assms show ?thesis
    by (auto simp: ho_rollback_def Let_def elim!: bindr_InrE split: option.splits if_splits
        dest!: ctx_shape_update)
qed

lemma finish_shape:
  assumes "finish_reestablishment asn c msg rrc ue d = Inr rrc'"
  shows "ctx_shape rrc' = ctx_shape rrc"
proof -
  have re: "ctx_shape r' = ctx_shape r" if "reestablish_ue c msg r u d = Inr (b, r', u')" for b r u r' u'
    using that by (auto simp: reestablish_ue_def Let_def elim!: bindr_InrE dest!: ctx_shape_update
        split: if_splits)
  have gen: "ctx_shape r' = ctx_shape r"
    if "rrc_gNB_generate_RRCReestablishment asn c r u = Inr (r', u')" for r u r' u'
    using that
    by (auto simp: rrc_gNB_generate_RRCReestablishment_def Let_def elim!: bindr_InrE dest: ctx_shape_xid
        split: prod.splits if_splits)
  show ?thesis
    using assms by (auto simp: finish_reestablishment_def elim!: bindr_InrE dest!: re gen split: if_splits)
qed

lemma reestablishment_request_ok:
  assumes "ctx_ok rrc" "uids_left rrc"
    and "rrc_handle_RRCReestablishmentRequest asn a req msg v rrc = Inr rrc'"
  shows "ctx_ok rrc'"
proof -
  have "ctx_shape rrc' = ctx_shape rrc \<or>
      (\<exists>c u cause. fallback_rrc_setup asn a msg v c u cause rrc = Inr rrc')"
    using assms(3) unfolding rrc_handle_RRCReestablishmentRequest_def Let_def
    by (auto elim!: bindr_InrE split: option.splits if_splits
        dest!: finish_shape ctx_shape_update rollback_shape)
  then show ?thesis using ctx_ok_shape(1) assms(1,2) fallback_ok by blast
qed

lemma release_command_ok:
  assumes ok: "ctx_ok rrc"
    and run: "rrc_gNB_process_NGAP_UE_CONTEXT_RELEASE_COMMAND asn i rrc = Inr rrc'"
  shows "ctx_ok rrc'"
proof (cases "rrc_gNB_get_ue_context rrc i")
  case None
  then show ?thesis
    using run ok ctx_ok_shape(1) [of "send (Ngap_release_complete i) rrc" rrc]
    by (auto simp: rrc_gNB_process_NGAP_UE_CONTEXT_RELEASE_COMMAND_def)
next
  case (Some ue)
  then have id: "rrc_ue_id ue \<in> rrc_ue_id ` set (rrc_ue_head rrc)"
    by (auto simp: rrc_gNB_get_ue_context_def find_Some_iff)
  have rel: "ctx_shape r' = ctx_shape r" if "rrc_gNB_generate_RRCRelease asn u r = Inr r'" for u r r'
    using that by (auto simp: rrc_gNB_generate_RRCRelease_def Let_def elim!: bindr_InrE
        dest: ctx_shape_xid split: prod.splits if_splits)
  have same: "ctx_ok r" if "ctx_shape r = ctx_shape rrc" for r
    using that ok ctx_ok_shape(1) by blast
  have rm: "ctx_ok rrc'" if "rrc_remove_ue u (send m r) = Inr rrc'" "ctx_shape r = ctx_shape rrc"
    "rrc_ue_id u = rrc_ue_id ue" for u m r
    using remove_ue_ok [OF that(1)] same [of "send m r"] that(2,3) id ids_shape [of "send m r" rrc] by simp
  show ?thesis
    using run Some
    by (auto simp: rrc_gNB_process_NGAP_UE_CONTEXT_RELEASE_COMMAND_def Let_def elim!: bindr_InrE
        split: if_splits dest!: rel same [of rrc']) (erule rm, simp, simp)+
qed

lemma release_complete_ok:
  assumes "ctx_ok rrc" and "rrc_CU_process_ue_context_release_complete i rrc = Inr rrc'"
  shows "ctx_ok rrc'"
proof -
  have "ctx_ok rrc'" if "rrc_gNB_get_ue_context rrc i = Some u" "rrc_remove_ue u (send m rrc) = Inr rrc'" for u m
  proof -
    have "rrc_ue_id u \<in> rrc_ue_id ` set (rrc_ue_head rrc)"
      using that(1) by (auto simp: rrc_gNB_get_ue_context_def find_Some_iff)
    then show ?thesis
      using remove_ue_ok [OF that(2)] assms(1) ids_shape [of "send m rrc" rrc] ctx_ok_shape(1) [of "send m rrc" rrc]
      by simp
  qed
  with assms show ?thesis
    by (auto simp: rrc_CU_process_ue_context_release_complete_def split: option.splits if_splits)
qed

section \<open>All reachable states\<close>

text \<open>The handlers of connections, in any order; a new UE needs a free identity.\<close>

inductive conn_step :: "rrc_asn1_conn \<Rightarrow> gNB_RRC_INST \<Rightarrow> gNB_RRC_INST \<Rightarrow> bool" for asn where
  step_setup: "uids_left rrc \<Longrightarrow> rrc_handle_RRCSetupRequest asn a ident msg rrc = Inr rrc' \<Longrightarrow>
    conn_step asn rrc rrc'"
| step_reest: "uids_left rrc \<Longrightarrow> rrc_handle_RRCReestablishmentRequest asn a req msg v rrc = Inr rrc' \<Longrightarrow>
    conn_step asn rrc rrc'"
| step_release: "rrc_gNB_process_NGAP_UE_CONTEXT_RELEASE_COMMAND asn i rrc = Inr rrc' \<Longrightarrow>
    conn_step asn rrc rrc'"
| step_complete: "rrc_CU_process_ue_context_release_complete i rrc = Inr rrc' \<Longrightarrow> conn_step asn rrc rrc'"

lemma conn_step_ok: "conn_step asn rrc rrc' \<Longrightarrow> ctx_ok rrc \<Longrightarrow> ctx_ok rrc'"
  by (induction rule: conn_step.induct)
     (blast intro: setup_request_ok reestablishment_request_ok release_command_ok release_complete_ok)+

lemma conn_steps_ok: "(conn_step asn)\<^sup>*\<^sup>* rrc rrc' \<Longrightarrow> ctx_ok rrc \<Longrightarrow> ctx_ok rrc'"
  by (induction rule: rtranclp_induct) (auto dest: conn_step_ok)

definition no_ues :: "gNB_RRC_INST \<Rightarrow> bool" where
  "no_ues rrc \<longleftrightarrow> rrc_ue_head rrc = [] \<and> f1_ids rrc = Map.empty \<and>
     uid_allocator rrc = uid_linear_allocator_init"

lemma no_ues_ok: "no_ues rrc \<Longrightarrow> ctx_ok rrc"
  by (auto simp: no_ues_def ctx_ok_def uid_ok_def uid_linear_allocator_init_def uids_def)

lemma get_ue_context_distinct:
  assumes "distinct (map rrc_ue_id (rrc_ue_head rrc))" "u \<in> set (rrc_ue_head rrc)"
  shows "rrc_gNB_get_ue_context rrc (rrc_ue_id u) = Some u"
proof -
  have "find (\<lambda>v. rrc_ue_id v = rrc_ue_id u) l = Some u" if "distinct (map rrc_ue_id l)" "u \<in> set l" for l
    using that by (induction l) (auto simp: image_iff)
  with assms show ?thesis by (simp add: rrc_gNB_get_ue_context_def)
qed

text \<open>
  C4: The tree of UE contexts, the allocator and the table of associations agree in every state
  that setup requests, reestablishment requests, release commands of the AMF and release
  completions of the DUs lead to, as long as fewer than 1056 identities are in use at
  every setup and reestablishment request (with all of them in use the next setup returns with
  identity 0 and breaks the agreement): the contexts are ordered by identity, no identity is 0, every UE
  is found under its identity, its association is in the table (so that the assertion of
  \<open>cu_get_f1_ue_data\<close> holds), the table has no other entries, and the identities in use are those
  of the UEs and no others.
\<close>

theorem rrc_contexts_invariant:
  assumes "no_ues rrc0" and "(conn_step asn)\<^sup>*\<^sup>* rrc0 rrc"
  shows "ctx_ok rrc \<and>
    (\<forall>u\<in>set (rrc_ue_head rrc). rrc_gNB_get_ue_context rrc (rrc_ue_id u) = Some u \<and>
       (\<exists>d. cu_get_f1_ue_data (rrc_ue_id u) rrc = Inr d)) \<and>
    (\<forall>i. rrc_gNB_get_ue_context rrc i = None \<longrightarrow> \<not> cu_exists_f1_ue_data i rrc \<and>
       (i = 0 \<or> unat (i - 1) \<notin> uids (uid_allocator rrc)))"
proof -
  have ok: "ctx_ok rrc" using conn_steps_ok [OF assms(2)] no_ues_ok [OF assms(1)] by simp
  then have "sorted_wrt (<) (map rrc_ue_id (rrc_ue_head rrc))" by (simp add: ctx_ok_def)
  then have dist: "distinct (map rrc_ue_id (rrc_ue_head rrc))" by (simp add: strict_sorted_iff)
  have found: "rrc_gNB_get_ue_context rrc (rrc_ue_id u) = Some u \<and>
      (\<exists>d. cu_get_f1_ue_data (rrc_ue_id u) rrc = Inr d)" if u: "u \<in> set (rrc_ue_head rrc)" for u
  proof -
    have "rrc_ue_id u \<in> dom (f1_ids rrc)" using ok u by (simp add: ctx_ok_def)
    then show ?thesis
      using get_ue_context_distinct [OF dist u] by (auto simp: cu_get_f1_ue_data_def)
  qed
  have absent: "\<not> cu_exists_f1_ue_data i rrc \<and> (i = 0 \<or> unat (i - 1) \<notin> uids (uid_allocator rrc))"
    if "rrc_gNB_get_ue_context rrc i = None" for i
  proof -
    have i: "i \<notin> rrc_ue_id ` set (rrc_ue_head rrc)"
      using that by (auto simp: rrc_gNB_get_ue_context_def find_None_iff)
    then have "unat (i - 1) \<notin> uids (uid_allocator rrc)"
      using ok by (auto simp: ctx_ok_def minus_one_inject)
    moreover have "i \<notin> dom (f1_ids rrc)" using ok i by (simp add: ctx_ok_def)
    then have "f1_ids rrc i = None" by (simp add: dom_def)
    ultimately show ?thesis by (simp add: cu_exists_f1_ue_data_def)
  qed
  show ?thesis using ok found absent by blast
qed

section \<open>Set up and release\<close>

lemma find_insert_before:
  "rrc_ue_id ue \<notin> rrc_ue_id ` set l \<Longrightarrow>
   find (\<lambda>u. rrc_ue_id u = rrc_ue_id ue) (insert_before P ue l) = Some ue"
  by (induction l) auto

lemma put_insert_before:
  assumes "rrc_ue_id ue \<notin> rrc_ue_id ` set l" "rrc_ue_id ue' = rrc_ue_id ue"
  shows "map (\<lambda>u. if rrc_ue_id u = rrc_ue_id ue' then ue' else u) (insert_before P ue l) =
         insert_before P ue' l"
proof -
  have other: "map (\<lambda>u. if rrc_ue_id u = rrc_ue_id ue' then ue' else u) l = l" if "set l \<subseteq> set l0"
    "rrc_ue_id ue \<notin> rrc_ue_id ` set l0" for l l0
  proof (intro map_idI)
    fix x assume "x \<in> set l"
    then have "rrc_ue_id x \<noteq> rrc_ue_id ue'" using that assms(2) by (metis imageI subsetD)
    then show "(if rrc_ue_id x = rrc_ue_id ue' then ue' else x) = x" by simp
  qed
  show ?thesis
    using assms(1)
  proof (induction l)
    case (Cons u l)
    then show ?case using assms(2) other [of l "u # l"] by auto
  qed (simp add: assms(2))
qed

lemma filter_insert_before:
  "rrc_ue_id ue \<notin> rrc_ue_id ` set l \<Longrightarrow>
   filter (\<lambda>u. rrc_ue_id u \<noteq> rrc_ue_id ue) (insert_before P ue l) = l"
  by (induction l) (auto simp: filter_id_conv image_iff)

text \<open>The context of a UE right after its setup.\<close>

definition set_up_ue :: "u32 \<Rightarrow> u16 \<Rightarrow> u64 \<Rightarrow> byte list \<Rightarrow> nr_rrc_cell \<Rightarrow> nat \<Rightarrow> gNB_RRC_UE" where
  "set_up_ue i r v cgc c xid =
     (new_rrc_ue i r v)\<lparr>mcg := cgc, serving_cells := [pcell_entry c], srb1_active := True,
        xids := (replicate NR_RRC_TRANSACTION_IDENTIFIER_NUMBER RRC_ACTION_NONE)[xid := RRC_SETUP]\<rparr>"

definition setup_encodes :: "rrc_asn1_conn \<Rightarrow> bool" where
  "setup_encodes asn \<longleftrightarrow>
     (\<forall>xid cgc b. do_RRCSetup asn xid cgc b \<noteq> [] \<and> length (do_RRCSetup asn xid cgc b) \<le> 1024)"

lemma setup_new_ue_eq:
  assumes enc: "setup_encodes asn" and msg: "im_container msg = Some cgc"
    and cell: "get_cell_by_cell_id rrc (im_nr_cellid msg) = Some p" "cell_store rrc p = Some c"
    and d: "f1_ids rrc i = Some d" "du_assoc_id d = c_assoc_id c" "c_assoc_id c \<noteq> 0"
  shows "\<exists>buf. setup_new_ue asn msg (new_rrc_ue i r v) rrc =
    Inr (put_ue (set_up_ue i r v cgc c (next_xid rrc))
      (rrc\<lparr>transaction_id := transaction_id rrc + 1,
           sent := sent rrc @ [Pdcp_add_srb i 1, Dl_rrc_message (c_assoc_id c) i (secondary_ue d) 0 buf]\<rparr>))"
proof -
  let ?ue = "store_cgc cgc (new_rrc_ue i r v)"
  have "serving_ok ?ue" "kept_cells ?ue = []" "rrc_ue_id ?ue = i" "srb1_active ?ue = False"
    by (simp_all add: serving_ok_def kept_cells_def store_cgc_def new_rrc_ue_def)
  then have "rrc_update_ue_pcell rrc c ?ue = Inr (Some (pcell_entry c), ?ue\<lparr>serving_cells := [pcell_entry c]\<rparr>)"
    using rrc_update_ue_pcell_eq [of ?ue rrc d c] d by simp
  then show ?thesis
    using enc msg cell d next_xid_less [of rrc]
    by (intro exI [of _ "do_RRCSetup asn (next_xid rrc) (Some cgc) True"])
       (simp add: setup_new_ue_def ho_ops activate_srb_def rrc_gNB_generate_RRCSetup_def Let_def
         rrc_gNB_get_next_transaction_identifier_def set_xid_def setup_encodes_def next_xid_def
         store_cgc_def new_rrc_ue_def set_up_ue_def send_def)
qed

lemma connect_eq:
  assumes ok: "ctx_ok rrc" "uids_left rrc" and enc: "setup_encodes asn"
    and msg: "im_container msg = Some cgc" "length bs = 5"
    and cell: "get_cell_by_cell_id rrc (im_nr_cellid msg) = Some p" "cell_store rrc p = Some c"
      "c_assoc_id c \<noteq> 0"
  shows "\<exists>rrc1 i buf ue. rrc_handle_RRCSetupRequest asn (c_assoc_id c) (Random_value bs) msg rrc = Inr rrc1 \<and>
    i \<notin> dom (f1_ids rrc) \<and> rrc_ue_id ue = i \<and>
    ue = set_up_ue i (im_crnti msg) (random_of_bytes bs) cgc c (next_xid rrc) \<and>
    rrc_ue_head rrc1 = insert_before (\<lambda>u. i < rrc_ue_id u) ue (rrc_ue_head rrc) \<and>
    f1_ids rrc1 = (f1_ids rrc)(i \<mapsto>
      \<lparr>secondary_ue = im_du_ue_id msg, e1_assoc_id = 0, du_assoc_id = c_assoc_id c\<rparr>) \<and>
    sent rrc1 = sent rrc @ [Pdcp_add_srb i 1, Dl_rrc_message (c_assoc_id c) i (im_du_ue_id msg) 0 buf]"
proof -
  let ?v = "random_of_bytes bs" and ?d = "\<lparr>secondary_ue = im_du_ue_id msg, e1_assoc_id = 0, du_assoc_id = c_assoc_id c\<rparr>"
  obtain u r1 where create: "rrc_gNB_create_ue_context (c_assoc_id c) (im_crnti msg) ?v (im_du_ue_id msg) rrc = Inr (u, r1)"
    and u: "rrc_ue_id u \<notin> dom (f1_ids rrc)" "u = new_rrc_ue (rrc_ue_id u) (im_crnti msg) ?v"
    and r1: "f1_ids r1 = (f1_ids rrc)(rrc_ue_id u \<mapsto> ?d)"
      "rrc_ue_head r1 = insert_before (\<lambda>v. rrc_ue_id u < rrc_ue_id v) u (rrc_ue_head rrc)"
      "r1 = rrc\<lparr>uid_allocator := uid_allocator r1, f1_ids := f1_ids r1, rrc_ue_head := rrc_ue_head r1\<rparr>"
    using ctx_ok_create [OF ok, of "c_assoc_id c" "im_crnti msg" ?v "im_du_ue_id msg"] by blast
  define i where "i = rrc_ue_id u"
  have same: "cells r1 = cells rrc" "cell_store r1 = cell_store rrc" "transaction_id r1 = transaction_id rrc"
    "sent r1 = sent rrc" by (subst r1(3); simp)+
  then have "get_cell_by_cell_id r1 (im_nr_cellid msg) = Some p"
    using cell(1) by (simp add: get_cell_by_cell_id_def has_cell_id_def [abs_def])
  moreover have "next_xid r1 = next_xid rrc" by (simp add: next_xid_def same)
  ultimately obtain buf where new: "setup_new_ue asn msg u r1 =
      Inr (put_ue (set_up_ue i (im_crnti msg) ?v cgc c (next_xid rrc))
        (r1\<lparr>transaction_id := transaction_id r1 + 1,
            sent := sent r1 @ [Pdcp_add_srb i 1, Dl_rrc_message (c_assoc_id c) i (im_du_ue_id msg) 0 buf]\<rparr>))"
    using setup_new_ue_eq [OF enc msg(1), of r1 p c i ?d "im_crnti msg" ?v] cell(2,3) same(2) r1(1) u(2)
    by (auto simp: i_def)
  have "rrc_ue_id u \<notin> rrc_ue_id ` set (rrc_ue_head rrc)" using u(1) ok(1) by (simp add: ctx_ok_def)
  moreover have "rrc_ue_id (set_up_ue i (im_crnti msg) ?v cgc c (next_xid rrc)) = rrc_ue_id u"
    by (simp add: set_up_ue_def new_rrc_ue_def i_def)
  ultimately have "rrc_ue_head (put_ue (set_up_ue i (im_crnti msg) ?v cgc c (next_xid rrc))
        (r1\<lparr>transaction_id := t, sent := ms\<rparr>)) =
      insert_before (\<lambda>v. i < rrc_ue_id v) (set_up_ue i (im_crnti msg) ?v cgc c (next_xid rrc)) (rrc_ue_head rrc)"
    for t ms using put_insert_before [of u "rrc_ue_head rrc"] r1(2) by (simp add: put_ue_def i_def)
  then show ?thesis
    using create new msg(2) u(1) r1(1) same(4)
    by (intro exI [of _ "put_ue (set_up_ue i (im_crnti msg) ?v cgc c (next_xid rrc))
          (r1\<lparr>transaction_id := transaction_id r1 + 1,
              sent := sent r1 @ [Pdcp_add_srb i 1, Dl_rrc_message (c_assoc_id c) i (im_du_ue_id msg) 0 buf]\<rparr>)"]
        exI [of _ i] exI [of _ buf] exI [of _ "set_up_ue i (im_crnti msg) ?v cgc c (next_xid rrc)"])
       (simp add: rrc_handle_RRCSetupRequest_def Let_def put_ue_def set_up_ue_def new_rrc_ue_def i_def)
qed

lemma release_eq:
  assumes ue: "rrc_gNB_get_ue_context rrc i = Some ue"
    and d: "f1_ids rrc i = Some d" "e1_assoc_id d = 0" "du_assoc_id d \<noteq> 0"
    and s: "\<forall>s\<in>set (pduSessions ue). p_qos s \<noteq> None"
  shows "\<exists>rrc2 rrc3. rrc_gNB_process_NGAP_UE_CONTEXT_RELEASE_COMMAND asn i rrc = Inr rrc2 \<and>
    rrc_CU_process_ue_context_release_complete i rrc2 = Inr rrc3 \<and>
    rrc_ue_head rrc3 = filter (\<lambda>u. rrc_ue_id u \<noteq> i) (rrc_ue_head rrc) \<and>
    f1_ids rrc3 = (f1_ids rrc)(i := None) \<and>
    sent rrc3 = sent rrc @ [F1_release_command (du_assoc_id d) i (secondary_ue d) 10,
      Ngap_release_complete i, Pdcp_remove_ue i]"
proof -
  have id: "rrc_ue_id ue = i" "ue \<in> set (rrc_ue_head rrc)"
    using ue by (auto simp: rrc_gNB_get_ue_context_def find_Some_iff)
  let ?ue = "ue\<lparr>an_release := True\<rparr>"
  let ?rrc2 = "send (F1_release_command (du_assoc_id d) i (secondary_ue d) 10)
      ((put_ue ?ue rrc)\<lparr>transaction_id := transaction_id rrc + 1\<rparr>)"
  have cmd: "rrc_gNB_process_NGAP_UE_CONTEXT_RELEASE_COMMAND asn i rrc = Inr ?rrc2"
    using ue d id
    by (simp add: rrc_gNB_process_NGAP_UE_CONTEXT_RELEASE_COMMAND_def Let_def ho_ops put_ue_def
      rrc_gNB_generate_RRCRelease_def rrc_gNB_get_next_transaction_identifier_def)
  have "find (\<lambda>u. rrc_ue_id u = i) (map (\<lambda>u. if rrc_ue_id u = i then ?ue else u) l) = Some ?ue"
    if "ue \<in> set l" for l using that id(1) by (induction l) auto
  then have "rrc_gNB_get_ue_context ?rrc2 i = Some ?ue"
    using id by (simp add: rrc_gNB_get_ue_context_def send_def put_ue_def)
  then have "rrc_CU_process_ue_context_release_complete i ?rrc2 =
      Inr (rrc_gNB_remove_ue_context i (send (Pdcp_remove_ue i) (send (Ngap_release_complete i) ?rrc2)))"
    using id s by (simp add: rrc_CU_process_ue_context_release_complete_def rrc_remove_ue_def
      rrc_delete_ue_data_def assertr_def)
  moreover have "filter (\<lambda>u. rrc_ue_id u \<noteq> i) (map (\<lambda>u. if rrc_ue_id u = i then ?ue else u) l) =
      filter (\<lambda>u. rrc_ue_id u \<noteq> i) l" for l using id(1) by (induction l) auto
  ultimately show ?thesis
    using cmd id(1)
    by (intro exI [of _ ?rrc2] exI [of _ "rrc_gNB_remove_ue_context i
          (send (Pdcp_remove_ue i) (send (Ngap_release_complete i) ?rrc2))"])
       (simp add: rrc_gNB_remove_ue_context_def cu_remove_f1_ue_data_def send_def put_ue_def)
qed

text \<open>
  C16: A UE that is set up and released leaves nothing behind. A setup request on a cell of the
  DU, with a container, gives the UE an identity that no other UE has; the context is in the tree
  with the RNTI and the cell group of the message, the cell as PCell and SRB1 active, and the setup
  goes to the DU. When the AMF releases the UE and the DU completes the release, the tree of
  contexts, the table of associations and the identities in use are those from before the
  request, and the DU got one release command, the AMF one completion.
\<close>

theorem connection_release_roundtrip:
  assumes "ctx_ok rrc" and "uids_left rrc" and "setup_encodes asn"
    and "im_container msg = Some cgc" and "length bs = 5"
    and "get_cell_by_cell_id rrc (im_nr_cellid msg) = Some p" and "cell_store rrc p = Some c"
    and "c_assoc_id c \<noteq> 0"
  shows "\<exists>rrc1 rrc2 rrc3 i ue buf.
    rrc_handle_RRCSetupRequest asn (c_assoc_id c) (Random_value bs) msg rrc = Inr rrc1 \<and>
    rrc_gNB_get_ue_context rrc i = None \<and> rrc_gNB_get_ue_context rrc1 i = Some ue \<and>
    rnti ue = im_crnti msg \<and> mcg ue = cgc \<and> serving_cells ue = [pcell_entry c] \<and> srb1_active ue \<and>
    rrc_gNB_process_NGAP_UE_CONTEXT_RELEASE_COMMAND asn i rrc1 = Inr rrc2 \<and>
    rrc_CU_process_ue_context_release_complete i rrc2 = Inr rrc3 \<and>
    rrc_ue_head rrc3 = rrc_ue_head rrc \<and> f1_ids rrc3 = f1_ids rrc \<and>
    uids (uid_allocator rrc3) = uids (uid_allocator rrc) \<and>
    sig_sent rrc3 = sig_sent rrc @
      [Dl_rrc_message (c_assoc_id c) i (im_du_ue_id msg) 0 buf,
       F1_release_command (c_assoc_id c) i (im_du_ue_id msg) 10, Ngap_release_complete i]"
proof -
  obtain rrc1 i buf ue where
    1: "rrc_handle_RRCSetupRequest asn (c_assoc_id c) (Random_value bs) msg rrc = Inr rrc1"
      "i \<notin> dom (f1_ids rrc)" "rrc_ue_id ue = i"
      "ue = set_up_ue i (im_crnti msg) (random_of_bytes bs) cgc c (next_xid rrc)"
      "rrc_ue_head rrc1 = insert_before (\<lambda>u. i < rrc_ue_id u) ue (rrc_ue_head rrc)"
      "f1_ids rrc1 = (f1_ids rrc)(i \<mapsto>
        \<lparr>secondary_ue = im_du_ue_id msg, e1_assoc_id = 0, du_assoc_id = c_assoc_id c\<rparr>)"
      "sent rrc1 = sent rrc @ [Pdcp_add_srb i 1, Dl_rrc_message (c_assoc_id c) i (im_du_ue_id msg) 0 buf]"
    using connect_eq [OF assms] by blast
  have fresh: "rrc_ue_id ue \<notin> rrc_ue_id ` set (rrc_ue_head rrc)"
    using 1(2,3) assms(1) by (simp add: ctx_ok_def)
  have get: "rrc_gNB_get_ue_context rrc1 i = Some ue"
    using find_insert_before [OF fresh] by (simp add: rrc_gNB_get_ue_context_def 1(5) flip: 1(3))
  have none: "rrc_gNB_get_ue_context rrc i = None"
    using fresh by (auto simp: rrc_gNB_get_ue_context_def find_None_iff 1(3))
  obtain rrc2 rrc3 where
    2: "rrc_gNB_process_NGAP_UE_CONTEXT_RELEASE_COMMAND asn i rrc1 = Inr rrc2"
      "rrc_CU_process_ue_context_release_complete i rrc2 = Inr rrc3"
      "rrc_ue_head rrc3 = filter (\<lambda>u. rrc_ue_id u \<noteq> i) (rrc_ue_head rrc1)"
      "f1_ids rrc3 = (f1_ids rrc1)(i := None)"
      "sent rrc3 = sent rrc1 @ [F1_release_command (c_assoc_id c) i (im_du_ue_id msg) 10,
         Ngap_release_complete i, Pdcp_remove_ue i]"
    using release_eq [OF get, of "\<lparr>secondary_ue = im_du_ue_id msg, e1_assoc_id = 0,
        du_assoc_id = c_assoc_id c\<rparr>" asn] assms(8) by (auto simp: 1(4,6) set_up_ue_def new_rrc_ue_def)
  have head: "rrc_ue_head rrc3 = rrc_ue_head rrc"
    using filter_insert_before [OF fresh] by (simp add: 2(3) 1(5) flip: 1(3))
  have "f1_ids rrc i = None" using 1(2) by auto
  then have ids: "f1_ids rrc3 = f1_ids rrc" by (simp add: 2(4) 1(6) fun_upd_idem)
  have "ctx_ok rrc3"
    using release_complete_ok release_command_ok [OF setup_request_ok [OF assms(1,2) 1(1)] 2(1)] 2(2) by blast
  then have "uids (uid_allocator rrc3) = uids (uid_allocator rrc)"
    using assms(1) by (simp add: ctx_ok_def head)
  then show ?thesis
    using 1(1) none get 2(1,2) head ids
    by (intro exI [of _ rrc1] exI [of _ rrc2] exI [of _ rrc3] exI [of _ i] exI [of _ ue] exI [of _ buf])
       (simp add: 1(4) set_up_ue_def new_rrc_ue_def sig_sent_def is_sig_def 1(7) 2(5))
qed

definition sample_conn_asn1 :: rrc_asn1_conn where
  "sample_conn_asn1 = \<lparr>do_RRCSetup = \<lambda>_ _ _. [1], do_RRCReject = [2], do_RRCReestablishment = \<lambda>_. [3],
     do_NR_RRCRelease = \<lambda>_. [4]\<rparr>"

lemma sample_rrc_ctx_ok: "ctx_ok sample_rrc"
proof -
  have "uids (uid_linear_allocator_init[0 := 1]) = {0}"
  proof -
    have len: "length uid_linear_allocator_init = 33"
      by (simp add: uid_linear_allocator_init_def UID_LINEAR_ALLOCATOR_BITMAP_SIZE_def
        UID_LINEAR_ALLOCATOR_SIZE_def)
    have key: "bit ((uid_linear_allocator_init[0 := 1]) ! (n div 32)) (n mod 32) \<longleftrightarrow> n = 0"
      if "n < 1056" for n
    proof (cases "n div 32 = 0")
      case True
      then show ?thesis using len by (auto simp: bit_1_iff)
    next
      case False
      have "n div 32 < 33" using that by auto
      then have "uid_linear_allocator_init ! (n div 32) = 0"
        by (simp add: uid_linear_allocator_init_def UID_LINEAR_ALLOCATOR_BITMAP_SIZE_def
          UID_LINEAR_ALLOCATOR_SIZE_def)
      with False show ?thesis by auto
    qed
    have "n \<in> uids (uid_linear_allocator_init[0 := 1]) \<longleftrightarrow> n \<in> {0}" for n
      unfolding uids_def length_list_update len using key [of n] by (cases "n = 0") auto
    then show ?thesis by blast
  qed
  then show ?thesis
    by (simp add: ctx_ok_def sample_rrc_def sample_ue_def uid_ok_def uid_linear_allocator_init_def)
qed

lemma sample_uids_left: "uids_left sample_rrc"
proof -
  have "uids (uid_allocator sample_rrc) = {0}"
    using sample_rrc_ctx_ok by (simp add: ctx_ok_def sample_rrc_def sample_ue_def)
  moreover have "(1 :: nat) \<in> {..<1056}" by simp
  then have "{0 :: nat} \<noteq> {..<1056}" by (metis singletonD zero_neq_one)
  ultimately show ?thesis by (simp add: uids_left_def)
qed

theorem connection_release_roundtrip_witness:
  "\<exists>rrc1 rrc2 rrc3 i. rrc_handle_RRCSetupRequest sample_conn_asn1 3 (Random_value [1, 2, 3, 4, 5])
       \<lparr>im_crnti = 9, im_nr_cellid = 11, im_du_ue_id = 12, im_container = Some [7]\<rparr> sample_rrc = Inr rrc1 \<and>
     rrc_gNB_process_NGAP_UE_CONTEXT_RELEASE_COMMAND sample_conn_asn1 i rrc1 = Inr rrc2 \<and>
     rrc_CU_process_ue_context_release_complete i rrc2 = Inr rrc3 \<and> rrc_ue_head rrc3 = [sample_ue]"
proof -
  have "setup_encodes sample_conn_asn1" by (simp add: setup_encodes_def sample_conn_asn1_def)
  moreover have "get_cell_by_cell_id sample_rrc 11 = Some 100" "cell_store sample_rrc 100 = Some (sample_cell 3 11 1)"
    "c_assoc_id (sample_cell 3 11 1) = 3" "rrc_ue_head sample_rrc = [sample_ue]"
    by (simp_all add: get_cell_by_cell_id_def has_cell_id_def sample_rrc_def sample_cell_def)
  ultimately show ?thesis
    using connection_release_roundtrip [OF sample_rrc_ctx_ok sample_uids_left, of sample_conn_asn1
        "\<lparr>im_crnti = 9, im_nr_cellid = 11, im_du_ue_id = 12, im_container = Some [7]\<rparr>" "[7]" "[1, 2, 3, 4, 5]"
        100 "sample_cell 3 11 1"] by fastforce
qed

theorem rrc_contexts_invariant_witness:
  "\<exists>rrc1. (conn_step sample_conn_asn1)\<^sup>*\<^sup>*
       (sample_rrc\<lparr>rrc_ue_head := [], f1_ids := Map.empty, uid_allocator := uid_linear_allocator_init\<rparr>) rrc1 \<and>
     rrc_ue_head rrc1 \<noteq> [] \<and> ctx_ok rrc1"
proof -
  let ?rrc = "sample_rrc\<lparr>rrc_ue_head := [], f1_ids := Map.empty, uid_allocator := uid_linear_allocator_init\<rparr>"
  let ?msg = "\<lparr>im_crnti = 9, im_nr_cellid = 11, im_du_ue_id = 12, im_container = Some [7]\<rparr>"
  have none: "no_ues ?rrc" by (simp add: no_ues_def)
  have ok: "ctx_ok ?rrc" using none by (rule no_ues_ok)
  then have "uids (uid_allocator ?rrc) = {}" by (simp add: ctx_ok_def)
  moreover have "(0 :: nat) \<in> {..<1056}" by simp
  ultimately have left: "uids_left ?rrc" unfolding uids_left_def by (metis empty_iff)
  have enc: "setup_encodes sample_conn_asn1" by (simp add: setup_encodes_def sample_conn_asn1_def)
  have cell: "get_cell_by_cell_id ?rrc (im_nr_cellid ?msg) = Some 100"
    "cell_store ?rrc 100 = Some (sample_cell 3 11 1)" "c_assoc_id (sample_cell 3 11 1) \<noteq> 0"
    by (simp_all add: get_cell_by_cell_id_def has_cell_id_def sample_rrc_def sample_cell_def)
  obtain rrc1 where rrc1: "rrc_handle_RRCSetupRequest sample_conn_asn1 (c_assoc_id (sample_cell 3 11 1))
      (Random_value [1, 2, 3, 4, 5]) ?msg ?rrc = Inr rrc1" "rrc_ue_head rrc1 \<noteq> []"
    using connect_eq [OF ok left enc _ _ cell, of "[7]" "[1, 2, 3, 4, 5]"] by auto
  then have run: "(conn_step sample_conn_asn1)\<^sup>*\<^sup>* ?rrc rrc1"
    using step_setup [OF left rrc1(1)] by blast
  with rrc_contexts_invariant [OF none run] rrc1(2) show ?thesis by blast
qed

section \<open>Reestablishment\<close>

text \<open>
  A request on a cell of a connected DU, with an RNTI in range, for a UE that is found, has active
  security and no handover.
\<close>

definition reest_ready ::
  "int \<Rightarrow> reest_request \<Rightarrow> initial_ul_rrc \<Rightarrow> gNB_RRC_INST \<Rightarrow> nr_rrc_du \<Rightarrow> cell_ptr \<Rightarrow> nr_rrc_cell \<Rightarrow>
     gNB_RRC_UE \<Rightarrow> f1_ue_data \<Rightarrow> bool" where
  "reest_ready a req msg rrc du p c ue d \<longleftrightarrow>
     get_du_by_assoc_id rrc a = Some du \<and> get_cell_by_cell_id rrc (im_nr_cellid msg) = Some p \<and>
     cell_store rrc p = Some c \<and> c_assoc_id c = a \<and> a \<noteq> 0 \<and> c_mtc c \<noteq> None \<and>
     1 \<le> re_c_RNTI req \<and> re_c_RNTI req \<le> 0xFFEF \<and> 0 \<le> re_physCellId req \<and> re_physCellId req < 1008 \<and>
     find_reest_ue a req rrc = Inr (Some ue) \<and> as_security_active ue \<and> ho_context ue = None \<and>
     serving_ok ue \<and> length (xids ue) = NR_RRC_TRANSACTION_IDENTIFIER_NUMBER \<and>
     f1_ids rrc (rrc_ue_id ue) = Some d"

lemma reest_ready_du:
  assumes "reest_ready a req msg rrc du p c ue d"
  shows "d_assoc_id du = a" "c_cell_id c = im_nr_cellid msg"
proof -
  show "d_assoc_id du = a"
    using assms by (auto simp: reest_ready_def get_du_by_assoc_id_def find_Some_iff)
  have "has_cell_id rrc (im_nr_cellid msg) p"
    using assms by (auto simp: reest_ready_def get_cell_by_cell_id_def find_Some_iff)
  then show "c_cell_id c = im_nr_cellid msg"
    using assms by (simp add: reest_ready_def has_cell_id_def)
qed

text \<open>The handler up to the choice of the previous cell.\<close>

lemma reest_request_eq:
  assumes ready: "reest_ready a req msg rrc du p c ue d"
  shows "rrc_handle_RRCReestablishmentRequest asn a req msg v rrc =
    (case get_previous_cell_by_pci_in_du rrc p c du (word_of_int (re_physCellId req)) of
       None \<Rightarrow> Inr rrc
     | Some q \<Rightarrow>
         bindr (deref_cell rrc (Some q)) (\<lambda>cell.
         if re_physCellId req \<noteq> uint (c_pci cell)
         then
           if a \<noteq> du_assoc_id d
           then
             bindr (assertr (secondary_ue d \<noteq> 0)) (\<lambda>_.
             if du_assoc_id d = 0 then Inr rrc
             else
               let rrc = send (F1_release_command (du_assoc_id d) (rrc_ue_id ue) (secondary_ue d)
                           F1AP_CauseRadioNetwork_normal_release) rrc;
                   ue = ue\<lparr>f1_ue_context_active := False\<rparr>;
                   d = d\<lparr>du_assoc_id := a\<rparr> in
               bindr (cu_update_f1_ue_data (rrc_ue_id ue) d rrc) (\<lambda>rrc.
                 finish_reestablishment asn cell msg rrc ue d))
           else fallback_rrc_setup asn a msg v c (Some ue) RELEASE_DUE_TO_NGRAN_GENERATED_REASON rrc
         else finish_reestablishment asn cell msg rrc ue d))"
proof -
  have range: "\<not> (re_c_RNTI req < 1 \<or> re_c_RNTI req > 0xFFEF)"
    using ready by (auto simp: reest_ready_def)
  have found: "get_du_by_assoc_id rrc a = Some du" "get_cell_by_cell_id rrc (im_nr_cellid msg) = Some p"
    "deref_cell rrc (Some p) = Inr c" "c_assoc_id c = d_assoc_id du" "c_mtc c \<noteq> None"
    "find_reest_ue a req rrc = Inr (Some ue)" "as_security_active ue"
    "cu_get_f1_ue_data (rrc_ue_id ue) rrc = Inr d"
    using ready reest_ready_du(1) [OF ready] by (simp_all add: reest_ready_def ho_ops)
  have no_ho: "ho_reestab_on_source cell rrc ue = Inr False" for cell
    using ready by (simp add: reest_ready_def ho_reestab_on_source_def)
  show ?thesis
    unfolding rrc_handle_RRCReestablishmentRequest_def found(1,2,3,6) option.case bindr_simps Let_def
    using range found(4,5,7) by (simp only: found(8) no_ho bindr_simps if_False simp_thms if_True option.case)
qed

lemma previous_cell_same:
  assumes "re_physCellId req = uint (c_pci c)"
  shows "get_previous_cell_by_pci_in_du rrc p c du (word_of_int (re_physCellId req)) = Some p"
  using assms by (simp add: get_previous_cell_by_pci_in_du_def)

lemma reest_request_same:
  assumes ready: "reest_ready a req msg rrc du p c ue d" and pci: "re_physCellId req = uint (c_pci c)"
  shows "rrc_handle_RRCReestablishmentRequest asn a req msg v rrc =
         finish_reestablishment asn c msg rrc ue d"
proof -
  have "deref_cell rrc (Some p) = Inr c" using ready by (simp add: reest_ready_def deref_cell_def)
  then show ?thesis
    unfolding reest_request_eq [OF ready] previous_cell_same [of req c, OF pci] using pci by simp
qed

lemma reest_other_du:
  assumes ready: "reest_ready a req msg rrc du p c ue d"
    and "re_physCellId req = uint (c_pci c)" "du_assoc_id d \<noteq> a"
  shows "rrc_handle_RRCReestablishmentRequest asn a req msg v rrc = Inl Assert_failed"
proof -
  have "serving_ok (ue\<lparr>rnti := im_crnti msg\<rparr>)" using ready by (simp add: reest_ready_def serving_ok_def)
  then have "rrc_update_ue_pcell rrc c (ue\<lparr>rnti := im_crnti msg\<rparr>) = Inl Assert_failed"
    using rrc_update_ue_pcell_wrong_du [of "ue\<lparr>rnti := im_crnti msg\<rparr>" rrc d c] ready assms(3)
    by (simp add: reest_ready_def)
  then show ?thesis
    using ready reest_ready_du(2) [OF ready] assms(2)
    by (simp add: reest_request_same [OF ready] finish_reestablishment_def reestablish_ue_def ho_ops)
qed

lemma reest_other_cell:
  assumes ready: "reest_ready a req msg rrc du p c ue d"
    and q: "get_previous_cell_by_pci_in_du rrc p c du (word_of_int (re_physCellId req)) = Some q"
      "cell_store rrc q = Some c2" "re_physCellId req = uint (c_pci c2)" "c_cell_id c2 \<noteq> c_cell_id c"
  shows "rrc_handle_RRCReestablishmentRequest asn a req msg v rrc = Inl Assert_failed"
  using q reest_ready_du(2) [OF ready]
  by (simp add: reest_request_eq [OF ready] finish_reestablishment_def reestablish_ue_def ho_ops Let_def)

lemma reest_same_cell:
  assumes ready: "reest_ready a req msg rrc du p c ue d"
    and pci: "re_physCellId req = uint (c_pci c)" "du_assoc_id d = a"
  shows "\<exists>rrc' ue' buf. rrc_handle_RRCReestablishmentRequest asn a req msg v rrc = Inr (put_ue ue' rrc') \<and>
    ue' = ue\<lparr>rnti := im_crnti msg, serving_cells := pcell_entry c # kept_cells ue,
            xids := (xids ue)[next_xid rrc := RRC_REESTABLISH], srb1_active := True\<rparr> \<and>
    rrc' = rrc\<lparr>f1_ids := (f1_ids rrc)(rrc_ue_id ue \<mapsto> d\<lparr>secondary_ue := im_du_ue_id msg\<rparr>),
               transaction_id := transaction_id rrc + 1,
               sent := sent rrc @ [Pdcp_reestablishment (rrc_ue_id ue) 1,
                 Dl_rrc_message a (rrc_ue_id ue) (im_du_ue_id msg) 1 buf]\<rparr>"
proof -
  let ?ue = "ue\<lparr>rnti := im_crnti msg\<rparr>"
  have "serving_ok ?ue" "kept_cells ?ue = kept_cells ue"
    using ready by (simp_all add: reest_ready_def serving_ok_def kept_cells_def)
  then have pcell: "rrc_update_ue_pcell rrc c ?ue =
      Inr (Some (pcell_entry c), ?ue\<lparr>serving_cells := pcell_entry c # kept_cells ue\<rparr>)"
    using rrc_update_ue_pcell_eq [of ?ue rrc d c] ready pci(2) by (simp add: reest_ready_def)
  have cell: "get_cell_by_cell_id r (im_nr_cellid msg) = Some p"
    if "cells r = cells rrc" "cell_store r = cell_store rrc" for r
    using that ready
    by (simp add: reest_ready_def get_cell_by_cell_id_def has_cell_id_def [abs_def])
  obtain m where "c_mtc c = Some m" using ready by (auto simp: reest_ready_def)
  then show ?thesis
    using ready reest_ready_du(2) [OF ready] pci pcell next_xid_less [of rrc]
    by (intro exI [of _ "rrc\<lparr>f1_ids := (f1_ids rrc)(rrc_ue_id ue \<mapsto> d\<lparr>secondary_ue := im_du_ue_id msg\<rparr>),
               transaction_id := transaction_id rrc + 1,
               sent := sent rrc @ [Pdcp_reestablishment (rrc_ue_id ue) 1,
                 Dl_rrc_message a (rrc_ue_id ue) (im_du_ue_id msg) 1
                   (do_RRCReestablishment asn (next_xid rrc))]\<rparr>"]
          exI [of _ "ue\<lparr>rnti := im_crnti msg, serving_cells := pcell_entry c # kept_cells ue,
            xids := (xids ue)[next_xid rrc := RRC_REESTABLISH], srb1_active := True\<rparr>"]
          exI [of _ "do_RRCReestablishment asn (next_xid rrc)"])
       (simp add: reest_request_same [OF ready] finish_reestablishment_def reest_ready_def
         reestablish_ue_def ho_ops Let_def rrc_gNB_generate_RRCReestablishment_def set_xid_def next_xid_def
         rrc_gNB_get_next_transaction_identifier_def rrc_get_pcell_for_ue_def ue_get_pcell_entry_def
         pcell_entry_def cell send_def)
qed

text \<open>
  C37: A reestablishment works on the cell the UE was on, and only there. For a UE that is found,
  with active security and without a handover: when the physical cell identity of the request is
  that of the cell it arrives on and the UE is associated with this DU, the UE gets the RNTI and
  the DU identity of the message, the cell is its PCell, and the reestablishment is sent. When the
  UE is associated with another DU (it is found there by its RNTI alone) and the identity in the
  request is still that of the cell the request arrives on, the branch for a change of the DU is not
  taken, and the PCell of the new DU fails the assertion that it belongs to the DU of the UE. When
  the identity is that of another cell of the DU the request arrives on, the assertion on the cell
  identity of the message fails. When no cell of this DU has the identity, as for a UE that names
  its old cell on another DU, the request is dropped without an answer.
\<close>

theorem reestablishment_only_at_home:
  assumes "reest_ready a req msg rrc du p c ue d"
  shows "(re_physCellId req = uint (c_pci c) \<and> du_assoc_id d = a \<longrightarrow>
      (\<exists>rrc' ue' buf. rrc_handle_RRCReestablishmentRequest asn a req msg v rrc = Inr (put_ue ue' rrc') \<and>
         rrc_ue_id ue' = rrc_ue_id ue \<and> rnti ue' = im_crnti msg \<and> hd (serving_cells ue') = pcell_entry c \<and>
         srb1_active ue' \<and> drbs ue' = drbs ue \<and> pduSessions ue' = pduSessions ue \<and>
         f1_ids rrc' = (f1_ids rrc)(rrc_ue_id ue \<mapsto> d\<lparr>secondary_ue := im_du_ue_id msg\<rparr>) \<and>
         sent rrc' = sent rrc @ [Pdcp_reestablishment (rrc_ue_id ue) 1,
           Dl_rrc_message a (rrc_ue_id ue) (im_du_ue_id msg) 1 buf])) \<and>
    (re_physCellId req = uint (c_pci c) \<and> du_assoc_id d \<noteq> a \<longrightarrow>
      rrc_handle_RRCReestablishmentRequest asn a req msg v rrc = Inl Assert_failed) \<and>
    (\<forall>q c2. get_previous_cell_by_pci_in_du rrc p c du (word_of_int (re_physCellId req)) = Some q \<and>
        cell_store rrc q = Some c2 \<and> re_physCellId req = uint (c_pci c2) \<and> c_cell_id c2 \<noteq> c_cell_id c \<longrightarrow>
      rrc_handle_RRCReestablishmentRequest asn a req msg v rrc = Inl Assert_failed) \<and>
    (get_previous_cell_by_pci_in_du rrc p c du (word_of_int (re_physCellId req)) = None \<longrightarrow>
      rrc_handle_RRCReestablishmentRequest asn a req msg v rrc = Inr rrc)"
proof (intro conjI impI allI; (elim conjE)?)
  assume "re_physCellId req = uint (c_pci c)" "du_assoc_id d = a"
  from reest_same_cell [OF assms this, of asn v] obtain rrc' ue' buf where *:
    "rrc_handle_RRCReestablishmentRequest asn a req msg v rrc = Inr (put_ue ue' rrc')"
    "ue' = ue\<lparr>rnti := im_crnti msg, serving_cells := pcell_entry c # kept_cells ue,
            xids := (xids ue)[next_xid rrc := RRC_REESTABLISH], srb1_active := True\<rparr>"
    "rrc' = rrc\<lparr>f1_ids := (f1_ids rrc)(rrc_ue_id ue \<mapsto> d\<lparr>secondary_ue := im_du_ue_id msg\<rparr>),
               transaction_id := transaction_id rrc + 1,
               sent := sent rrc @ [Pdcp_reestablishment (rrc_ue_id ue) 1,
                 Dl_rrc_message a (rrc_ue_id ue) (im_du_ue_id msg) 1 buf]\<rparr>" by blast
  show "\<exists>rrc' ue' buf. rrc_handle_RRCReestablishmentRequest asn a req msg v rrc = Inr (put_ue ue' rrc') \<and>
         rrc_ue_id ue' = rrc_ue_id ue \<and> rnti ue' = im_crnti msg \<and> hd (serving_cells ue') = pcell_entry c \<and>
         srb1_active ue' \<and> drbs ue' = drbs ue \<and> pduSessions ue' = pduSessions ue \<and>
         f1_ids rrc' = (f1_ids rrc)(rrc_ue_id ue \<mapsto> d\<lparr>secondary_ue := im_du_ue_id msg\<rparr>) \<and>
         sent rrc' = sent rrc @ [Pdcp_reestablishment (rrc_ue_id ue) 1,
           Dl_rrc_message a (rrc_ue_id ue) (im_du_ue_id msg) 1 buf]"
    by (rule exI [of _ rrc'], rule exI [of _ ue'], rule exI [of _ buf]) (simp add: *(1), simp add: *(2,3))
next
  assume "re_physCellId req = uint (c_pci c)" "du_assoc_id d \<noteq> a"
  then show "rrc_handle_RRCReestablishmentRequest asn a req msg v rrc = Inl Assert_failed"
    by (rule reest_other_du [OF assms])
next
  fix q c2
  assume "get_previous_cell_by_pci_in_du rrc p c du (word_of_int (re_physCellId req)) = Some q"
    "cell_store rrc q = Some c2" "re_physCellId req = uint (c_pci c2)" "c_cell_id c2 \<noteq> c_cell_id c"
  then show "rrc_handle_RRCReestablishmentRequest asn a req msg v rrc = Inl Assert_failed"
    by (rule reest_other_cell [OF assms])
next
  assume "get_previous_cell_by_pci_in_du rrc p c du (word_of_int (re_physCellId req)) = None"
  then show "rrc_handle_RRCReestablishmentRequest asn a req msg v rrc = Inr rrc"
    unfolding reest_request_eq [OF assms] by simp
qed

text \<open>The sample UE, on the cell of the first DU, asks on the cell of the second.\<close>

theorem reestablishment_only_at_home_witness:
  "rrc_handle_RRCReestablishmentRequest sample_conn_asn1 5 \<lparr>re_physCellId = 2, re_c_RNTI = 0x4601\<rparr>
     \<lparr>im_crnti = 9, im_nr_cellid = 22, im_du_ue_id = 12, im_container = None\<rparr> 0 sample_rrc = Inl Assert_failed"
proof -
  let ?msg = "\<lparr>im_crnti = 9, im_nr_cellid = 22, im_du_ue_id = 12, im_container = None\<rparr>"
  let ?req = "\<lparr>re_physCellId = 2, re_c_RNTI = 0x4601\<rparr>"
  have "find_reest_ue 5 ?req sample_rrc = Inr (Some sample_ue)"
    by (simp add: find_reest_ue_def rrc_gNB_get_ue_context_by_rnti_def sample_rrc_def cu_get_f1_ue_data_def
      rrc_gNB_get_ue_context_by_rnti_any_du_def sample_ue_def)
  moreover have "serving_ok sample_ue" "length (xids sample_ue) = NR_RRC_TRANSACTION_IDENTIFIER_NUMBER"
    by (simp_all add: serving_ok_def sample_ue_def RRC_PCELL_INDEX_def RRC_MAX_NUM_SERVING_CELLS_def
      NR_RRC_TRANSACTION_IDENTIFIER_NUMBER_def)
  ultimately have "reest_ready 5 ?req ?msg sample_rrc \<lparr>d_assoc_id = 5, d_gNB_DU_id = 2, d_cells = [200]\<rparr> 200
      (sample_cell 5 22 2) sample_ue \<lparr>secondary_ue = 40, e1_assoc_id = 9, du_assoc_id = 3\<rparr>"
    by (simp add: reest_ready_def get_du_by_assoc_id_def get_cell_by_cell_id_def has_cell_id_def
      sample_rrc_def sample_cell_def) (simp add: sample_ue_def)
  from reestablishment_only_at_home [OF this, of sample_conn_asn1 0] show ?thesis
    by (simp add: sample_cell_def)
qed

section \<open>No identity left\<close>

lemma uid_new_full:
  assumes "uid_ok uia" "uids uia = {..<1056}"
  shows "uid_linear_allocator_new uia = Inr (UINT_MAX, uia)"
proof -
  have size: "32 * length uia = 1056"
    using assms by (simp add: uid_ok_def UID_LINEAR_ALLOCATOR_BITMAP_SIZE_def UID_LINEAR_ALLOCATOR_SIZE_def)
  obtain uid uia' where "uid_linear_allocator_new uia = Inr (uid, uia')" "allocates 0 uia uid uia'"
    using uid_new_from_ok [of 0 uia] size by (auto simp: uid_linear_allocator_new_def)
  with assms(2) show ?thesis by (simp add: allocates_def size)
qed

text \<open>When all identities are in use, the next UE gets the identity 0, and the one after it is an
  assertion.\<close>

lemma ids_exhausted:
  assumes ok: "ctx_ok rrc" and full: "\<not> uids_left rrc"
  shows "\<exists>ue rrc1. rrc_gNB_create_ue_context a r v du rrc = Inr (ue, rrc1) \<and> rrc_ue_id ue = 0 \<and>
    (\<forall>a' r' v' du'. rrc_gNB_create_ue_context a' r' v' du' rrc1 = Inl Assert_failed)"
proof -
  have new: "uid_linear_allocator_new (uid_allocator rrc) = Inr (UINT_MAX, uid_allocator rrc)"
    using uid_new_full ok full by (simp add: ctx_ok_def uids_left_def)
  have zero: "UINT_MAX + 1 = 0" by (simp add: UINT_MAX_def)
  have "0 \<notin> dom (f1_ids rrc)" using ok by (simp add: ctx_ok_def)
  then have "f1_ids rrc 0 = None" by auto
  with new zero show ?thesis
    by (auto simp: rrc_gNB_create_ue_context_def rrc_gNB_allocate_new_ue_context_def ho_ops Let_def
        cu_add_f1_ue_data_def new_rrc_ue_def)
qed

end
