(* ===== verification/Nr_Rrc_Qos.thy ===== *)
theory Nr_Rrc_Qos
  imports Nr_Rrc_Ho_Life
begin

text \<open>
  The QoS flows of PDU sessions and their mapping to data radio bearers
  (\<open>RRC/NR/rrc_gNB_radio_bearers.c\<close>, the copy of the flows of a new session in
  \<open>rrc_gNB_NGAP.c\<close>). A flow that shares a bearer with others is chosen by resource type and by
  limits; some flows get a bearer of their own. The bit rates of a flow are not part of the model.
\<close>

section \<open>Quality of service identifiers\<close>

definition NO_FIVEQI :: u16 where
  "NO_FIVEQI = 0xFFFF"

definition MAX_STANDARDIZED_FIVEQI :: u16 where
  "MAX_STANDARDIZED_FIVEQI = 90"

definition get_qos_fiveqi :: "qos_parameter \<Rightarrow> u16 res" where
  "get_qos_fiveqi q =
     (case qp_characteristics q of
        NON_DYNAMIC v _ \<Rightarrow> bindr (assertr (v \<le> MAX_STANDARDIZED_FIVEQI)) (\<lambda>_. Inr v)
      | DYNAMIC (Some v) _ _ _ _ \<Rightarrow> bindr (assertr (v \<le> MAX_FIVEQI)) (\<lambda>_. Inr v)
      | DYNAMIC None _ _ _ _ \<Rightarrow> Inr NO_FIVEQI)"

definition is_5qi_standardized :: "u16 \<Rightarrow> bool res" where
  "is_5qi_standardized v =
     bindr (assertr (v \<le> MAX_FIVEQI)) (\<lambda>_.
       Inr (1 \<le> v \<and> v \<le> 10 \<or> 65 \<le> v \<and> v \<le> 67 \<or> 69 \<le> v \<and> v \<le> 70 \<or> 71 \<le> v \<and> v \<le> 76 \<or>
            79 \<le> v \<and> v \<le> 80 \<or> 82 \<le> v \<and> v \<le> MAX_STANDARDIZED_FIVEQI))"

datatype qos_resource_type =
    QOS_RESOURCE_TYPE_NON_GBR
  | QOS_RESOURCE_TYPE_GBR
  | QOS_RESOURCE_TYPE_DC_GBR

text \<open>The table of resource types; it is read at standardised identifiers only, which it has.\<close>

definition five_qi_resource_type :: "u16 \<Rightarrow> qos_resource_type" where
  "five_qi_resource_type v =
     (if v \<in> {1, 2, 3, 4, 65, 66, 67, 71, 72, 73, 74, 75, 76} then QOS_RESOURCE_TYPE_GBR
      else if v \<in> {82, 83, 84, 85, 86, 87, 88, 89, 90} then QOS_RESOURCE_TYPE_DC_GBR
      else QOS_RESOURCE_TYPE_NON_GBR)"

definition nr_rrc_is_non_gbr_fiveqi :: "u16 \<Rightarrow> bool res" where
  "nr_rrc_is_non_gbr_fiveqi v =
     bindr (is_5qi_standardized v) (\<lambda>b. Inr (b \<and> five_qi_resource_type v = QOS_RESOURCE_TYPE_NON_GBR))"

text \<open>Without a numeric identifier, delay, error rate and priority decide on a bearer of its own.\<close>

definition nr_rrc_qos_dedicated_drb :: "qos_parameter \<Rightarrow> bool res" where
  "nr_rrc_qos_dedicated_drb q =
     bindr (get_qos_fiveqi q) (\<lambda>v.
     if v \<noteq> NO_FIVEQI
     then
       bindr (is_5qi_standardized v) (\<lambda>b.
         Inr (\<not> b \<or> five_qi_resource_type v = QOS_RESOURCE_TYPE_DC_GBR \<or>
              v \<in> {4, 6, 7, 8, 9, 10, 70, 80, 71, 72, 73}))
     else
       case qp_characteristics q of
         NON_DYNAMIC _ _ \<Rightarrow> Inl Assert_failed
       | DYNAMIC _ priority pdb scalar exponent \<Rightarrow>
           Inr (pdb \<le> 50 \<or> scalar \<le> 1 \<and> exponent \<ge> 6 \<or> priority \<le> 10))"

section \<open>The flows of a session\<close>

text \<open>The check of the identifier that \<open>add_qos\<close> and \<open>nr_rrc_apply_qos_add_modify\<close> make.\<close>

definition usable_fiveqi :: "qos_parameter \<Rightarrow> bool res" where
  "usable_fiveqi q =
     (case qp_characteristics q of NON_DYNAMIC v _ \<Rightarrow> is_5qi_standardized v | _ \<Rightarrow> Inr True)"

definition add_qos :: "nr_rrc_qos arr \<Rightarrow> qos_parameter \<Rightarrow> (nat option \<times> nr_rrc_qos arr) res" where
  "add_qos flows q =
     (if length (fst flows) = MAX_QOS_FLOWS then Inr (None, flows)
      else if qp_qfi q > 63 then Inr (None, flows)
      else
        case find_qos (fst flows) (uint (qp_qfi q)) of
          Some k \<Rightarrow> Inr (Some k, flows)
        | None \<Rightarrow>
            bindr (usable_fiveqi q) (\<lambda>ok.
            if \<not> ok then Inr (None, flows)
            else
              bindr (arr_push SIZEOF_nr_rrc_qos_t flows
                       \<lparr>qf_drb_id = 0, qf_qos = q, qf_ngap_pending = False\<rparr>) (\<lambda>flows.
              bindr (assert_some (find_qos (fst flows) (uint (qp_qfi q)))) (\<lambda>k. Inr (Some k, flows)))))"

definition rm_qos :: "nr_rrc_qos arr \<Rightarrow> int \<Rightarrow> (bool \<times> nr_rrc_qos arr) res" where
  "rm_qos flows qfi =
     (if qfi < 0 \<or> qfi > 63 then Inr (False, flows)
      else
        case find_qos (fst flows) qfi of
          None \<Rightarrow> Inr (False, flows)
        | Some k \<Rightarrow> bindr (arr_erase SIZEOF_nr_rrc_qos_t flows k) (\<lambda>flows. Inr (True, flows)))"

text \<open>
  \<open>cp_pdusession_transfer_to_pdusession\<close>: the flows of a new session from the list of the AMF;
  a flow that cannot be added is left out.
\<close>

fun add_qos_list :: "qos_parameter list \<Rightarrow> nr_rrc_qos arr \<Rightarrow> nr_rrc_qos arr res" where
  "add_qos_list [] flows = Inr flows"
| "add_qos_list (q # qs) flows = bindr (add_qos flows q) (\<lambda>(_, flows). add_qos_list qs flows)"

definition cp_pdusession_transfer_to_pdusession :: "qos_parameter list \<Rightarrow> nr_rrc_qos arr res" where
  "cp_pdusession_transfer_to_pdusession qs =
     bindr (assertr (length qs < MAX_QOS_FLOWS)) (\<lambda>_.
       add_qos_list qs ([], init_space SIZEOF_nr_rrc_qos_t))"

section \<open>Choice of the bearer\<close>

text \<open>The flows on a bearer by type: delay critical, guaranteed bit rate, others.\<close>

fun nr_rrc_count_qos_flows_by_type :: "nr_rrc_qos list \<Rightarrow> int \<Rightarrow> (nat \<times> nat \<times> nat) res" where
  "nr_rrc_count_qos_flows_by_type [] i = Inr (0, 0, 0)"
| "nr_rrc_count_qos_flows_by_type (f # flows) i =
     (if qf_drb_id f \<noteq> i then nr_rrc_count_qos_flows_by_type flows i
      else
        bindr (get_qos_fiveqi (qf_qos f)) (\<lambda>v.
        bindr (if v = NO_FIVEQI then Inr False else is_5qi_standardized v) (\<lambda>std.
        bindr (nr_rrc_count_qos_flows_by_type flows i) (\<lambda>(dc, gbr, non_gbr).
          Inr (if \<not> std then (dc + 1, gbr, non_gbr)
               else case five_qi_resource_type v of
                 QOS_RESOURCE_TYPE_DC_GBR \<Rightarrow> (dc + 1, gbr, non_gbr)
               | QOS_RESOURCE_TYPE_GBR \<Rightarrow> (dc, gbr + 1, non_gbr)
               | QOS_RESOURCE_TYPE_NON_GBR \<Rightarrow> (dc, gbr, non_gbr + 1))))))"

fun has_dedicated_flow_on_drb :: "nr_rrc_qos list \<Rightarrow> int \<Rightarrow> bool res" where
  "has_dedicated_flow_on_drb [] i = Inr False"
| "has_dedicated_flow_on_drb (f # flows) i =
     (if qf_drb_id f \<noteq> i then has_dedicated_flow_on_drb flows i
      else bindr (nr_rrc_qos_dedicated_drb (qf_qos f)) (\<lambda>b.
        if b then Inr True else has_dedicated_flow_on_drb flows i))"

definition MAX_QOS_FLOWS_PER_DRB_DC_GBR :: nat where "MAX_QOS_FLOWS_PER_DRB_DC_GBR = 1"
definition MAX_QOS_FLOWS_PER_DRB_GBR :: nat where "MAX_QOS_FLOWS_PER_DRB_GBR = 2"
definition MAX_QOS_FLOWS_PER_DRB_NON_GBR :: nat where "MAX_QOS_FLOWS_PER_DRB_NON_GBR = 5"
definition MAX_QOS_FLOWS_PER_DRB_TOTAL :: nat where "MAX_QOS_FLOWS_PER_DRB_TOTAL = 5"

text \<open>The body of the loop over the bearers: whether one takes a flow of a type.\<close>

definition drb_accepts :: "qos_resource_type \<Rightarrow> nr_rrc_qos list \<Rightarrow> int \<Rightarrow> bool res" where
  "drb_accepts type flows i =
     bindr (nr_rrc_count_qos_flows_by_type flows i) (\<lambda>(dc, gbr, non_gbr).
     bindr (assertr (dc \<le> MAX_QOS_FLOWS_PER_DRB_DC_GBR)) (\<lambda>_.
     if dc = MAX_QOS_FLOWS_PER_DRB_DC_GBR then Inr False
     else
       bindr (has_dedicated_flow_on_drb flows i) (\<lambda>dedicated.
       if dedicated then Inr False
       else
         let has_capacity =
           (if type = QOS_RESOURCE_TYPE_GBR then gbr < MAX_QOS_FLOWS_PER_DRB_GBR
            else type = QOS_RESOURCE_TYPE_NON_GBR \<and> non_gbr < MAX_QOS_FLOWS_PER_DRB_NON_GBR) in
         Inr (has_capacity \<and> gbr + non_gbr < MAX_QOS_FLOWS_PER_DRB_TOTAL))))"

fun suitable_drb :: "qos_resource_type \<Rightarrow> int \<Rightarrow> nr_rrc_qos list \<Rightarrow> drb list \<Rightarrow> int res" where
  "suitable_drb type sid flows [] = Inr (-1)"
| "suitable_drb type sid flows (d # l) =
     (if drb_pdusession d \<noteq> sid then suitable_drb type sid flows l
      else bindr (drb_accepts type flows (drb_id d)) (\<lambda>b.
        if b then Inr (drb_id d) else suitable_drb type sid flows l))"

definition is_dynamic :: "qos_parameter \<Rightarrow> bool" where
  "is_dynamic q = (case qp_characteristics q of DYNAMIC _ _ _ _ _ \<Rightarrow> True | _ \<Rightarrow> False)"

definition nr_rrc_find_suitable_drb_for_qos ::
  "drb list \<Rightarrow> int \<Rightarrow> qos_parameter \<Rightarrow> nr_rrc_qos list \<Rightarrow> int res" where
  "nr_rrc_find_suitable_drb_for_qos l sid q flows =
     bindr (get_qos_fiveqi q) (\<lambda>v.
     bindr (if v = NO_FIVEQI then Inr False else is_5qi_standardized v) (\<lambda>std.
     if \<not> std then bindr (assertr (is_dynamic q)) (\<lambda>_. Inr (-1))
     else
       bindr (nr_rrc_qos_dedicated_drb q) (\<lambda>dedicated.
       if dedicated \<or> five_qi_resource_type v = QOS_RESOURCE_TYPE_DC_GBR then Inr (-1)
       else suitable_drb (five_qi_resource_type v) sid flows l)))"

text \<open>
  The flow at a position of the list of its session gets a bearer: an existing one or a new one.
  The first component of the result tells whether it is new.
\<close>

definition nr_rrc_assign_drb_to_qos_flow ::
  "drb arr \<Rightarrow> int \<Rightarrow> nr_rrc_qos list \<Rightarrow> nat \<Rightarrow> (bool \<times> drb arr \<times> nr_rrc_qos list) res" where
  "nr_rrc_assign_drb_to_qos_flow a sid flows k =
     (let f = flows ! k in
      bindr (get_qos_fiveqi (qf_qos f)) (\<lambda>_.
      bindr (nr_rrc_find_suitable_drb_for_qos (fst a) sid (qf_qos f) flows) (\<lambda>i.
      bindr (if i = -1
             then bindr (nr_rrc_add_drb a sid) (\<lambda>(d, a).
                  bindr (assert_some d) (\<lambda>d. Inr (drb_id d, a)))
             else Inr (i, a)) (\<lambda>(i', a).
      bindr (assertr (0 < i' \<and> i' \<le> MAX_DRBS_PER_UE)) (\<lambda>_.
        Inr (i = -1, a, flows[k := f\<lparr>qf_drb_id := i'\<rparr>]))))))"

section \<open>New sessions\<close>

text \<open>
  The loop over the flows of a new session: each gets a bearer, and the first flow with a
  non-dynamic identifier without guaranteed bit rate determines the default bearer.
\<close>

definition default_flow :: "qos_parameter \<Rightarrow> bool res" where
  "default_flow q =
     (case qp_characteristics q of NON_DYNAMIC v _ \<Rightarrow> nr_rrc_is_non_gbr_fiveqi v | _ \<Rightarrow> Inr False)"

fun assign_flows ::
  "int \<Rightarrow> nat list \<Rightarrow> drb arr \<times> nr_rrc_qos list \<times> int \<times> bool \<Rightarrow>
     (drb arr \<times> nr_rrc_qos list \<times> int \<times> bool) res" where
  "assign_flows sid [] st = Inr st"
| "assign_flows sid (k # ks) (a, flows, default_drb, default_set) =
     bindr (nr_rrc_assign_drb_to_qos_flow a sid flows k) (\<lambda>(_, a, flows).
     bindr (get_qos_fiveqi (qf_qos (flows ! k))) (\<lambda>v.
     if v = NO_FIVEQI then assign_flows sid ks (a, flows, default_drb, default_set)
     else
       bindr (default_flow (qf_qos (flows ! k))) (\<lambda>b.
       if b \<and> \<not> default_set then assign_flows sid ks (a, flows, qf_drb_id (flows ! k), True)
       else assign_flows sid ks (a, flows, default_drb, default_set))))"

definition put_session :: "rrc_pdu_session \<Rightarrow> rrc_pdu_session list \<Rightarrow> rrc_pdu_session list" where
  "put_session s = map (\<lambda>t. if pdusession_id t = pdusession_id s then s else t)"

fun nr_rrc_add_bearers ::
  "(int \<times> byte list \<times> nr_rrc_qos arr) list \<Rightarrow> gNB_RRC_UE \<Rightarrow> gNB_RRC_UE res" where
  "nr_rrc_add_bearers [] ue = Inr ue"
| "nr_rrc_add_bearers ((sid, nas, qos) # ss) ue =
     bindr (add_pduSession (session_arr ue) sid nas (Some qos)) (\<lambda>(s, sessions).
     case s of
       None \<Rightarrow> nr_rrc_add_bearers ss ue
     | Some s \<Rightarrow>
         bindr (assign_flows sid [0..<length (fst qos)] (drb_arr ue, fst qos, 0, False)) (\<lambda>(a, flows, default_drb, _).
           nr_rrc_add_bearers ss
             (put_session_arr
                (put_session (s\<lparr>p_qos := Some flows, p_default_drb := default_drb\<rparr>) (fst sessions), snd sessions)
                (put_drb_arr a ue))))"

end
