(* ===== verification/Nr_Rrc_Modify.thy ===== *)
theory Nr_Rrc_Modify
  imports Nr_Rrc_Qos
begin

text \<open>
  Modification of PDU sessions by the AMF (\<open>rrc_gNB_NGAP.c\<close>): flows are added, changed and
  released, bearers without flows are removed, and the user plane is told with E1. In the E1
  request for a session a bearer comes with the flows mapped to it; the other contents of E1
  messages are not recorded.
\<close>

section \<open>The request to the user plane\<close>

definition E1AP_MAX_NUM_DRBS :: nat where
  "E1AP_MAX_NUM_DRBS = 32"

definition E1AP_MAX_NUM_QOS_FLOWS :: nat where
  "E1AP_MAX_NUM_QOS_FLOWS = 64"

definition flows_on :: "nr_rrc_qos list \<Rightarrow> int \<Rightarrow> qos_parameter list" where
  "flows_on flows i = map qf_qos (filter (\<lambda>f. qf_drb_id f = i) flows)"

definition new_session_mod :: "int \<Rightarrow> e1_session_mod" where
  "new_session_mod sid = \<lparr>em_session = sid, em_setup = [], em_modify = [], em_remove = []\<rparr>"

text \<open>The position of the entry of a session, which is added when there is none.\<close>

definition find_or_add_pdu_session_mod :: "e1_session_mod list \<Rightarrow> int \<Rightarrow> (nat \<times> e1_session_mod list) res" where
  "find_or_add_pdu_session_mod e1 sid =
     (case find_index (\<lambda>m. em_session m = sid) e1 of
        Some j \<Rightarrow> Inr (j, e1)
      | None \<Rightarrow>
          bindr (assertr (int (length e1) < NR_MAX_NB_PDU_SESSIONS)) (\<lambda>_.
            Inr (length e1, e1 @ [new_session_mod sid])))"

definition find_or_add_e1_drb_mod :: "e1_session_mod \<Rightarrow> int \<Rightarrow> nr_rrc_qos list \<Rightarrow> e1_session_mod res" where
  "find_or_add_e1_drb_mod m i flows =
     (if \<exists>x\<in>set (em_modify m). fst x = i then Inr m
      else
        bindr (assertr (length (em_modify m) < E1AP_MAX_NUM_DRBS)) (\<lambda>_.
        bindr (assertr (length (flows_on flows i) \<le> E1AP_MAX_NUM_QOS_FLOWS)) (\<lambda>_.
          Inr (m\<lparr>em_modify := em_modify m @ [(i, flows_on flows i)]\<rparr>))))"

definition nr_rrc_override_flow_mapping_info ::
  "e1_session_mod \<Rightarrow> nat \<Rightarrow> int \<Rightarrow> nr_rrc_qos list \<Rightarrow> e1_session_mod res" where
  "nr_rrc_override_flow_mapping_info m j i flows =
     bindr (assertr (length (flows_on flows i) \<le> E1AP_MAX_NUM_QOS_FLOWS)) (\<lambda>_.
       Inr (m\<lparr>em_modify := (em_modify m)[j := (i, flows_on flows i)]\<rparr>))"

definition fill_e1_drb_to_setup :: "int \<Rightarrow> nr_rrc_qos list \<Rightarrow> (int \<times> qos_parameter list) res" where
  "fill_e1_drb_to_setup i flows =
     bindr (assertr (length (flows_on flows i) \<le> MAX_QOS_FLOWS)) (\<lambda>_.
     bindr (assertr (flows_on flows i \<noteq> [])) (\<lambda>_. Inr (i, flows_on flows i)))"

text \<open>The array \<open>drb_needs_e1_refresh\<close> of 33 flags.\<close>

definition mark_drb :: "bool list \<Rightarrow> int \<Rightarrow> bool list res" where
  "mark_drb marks i =
     (if 0 \<le> i \<and> nat i < length marks then Inr (marks[nat i := True]) else Inl Out_of_bounds)"

definition marked_drb :: "bool list \<Rightarrow> int \<Rightarrow> bool res" where
  "marked_drb marks i =
     (if 0 \<le> i \<and> nat i < length marks then Inr (marks ! nat i) else Inl Out_of_bounds)"

section \<open>Bearers without flows\<close>

lemma remove_drb_length: "nr_rrc_remove_drb_by_id a i = Inr (b, a') \<Longrightarrow> length (fst a') \<le> length (fst a)"
  by (cases a; cases a') (auto simp: nr_rrc_remove_drb_by_id_def dest!: arr_erase_Inr split: option.splits if_splits)

text \<open>
  The loop of \<open>nr_rrc_send_e1_after_qos_update\<close> over the bearers of the UE, from a position on.
  A bearer without flows is erased from the array while the iterator points to it: the identity
  that is read through the iterator afterwards is that of the next bearer, or 0 behind the last
  one, where the array has been cleared. When the erasure has shrunk the array, the iterator points
  to the old block, which has been freed. The iterator steps on and the loop ends only when it
  equals the end; behind the end the memory of the array is left.
\<close>

function e1_refresh_bearers ::
  "int \<Rightarrow> nr_rrc_qos list \<Rightarrow> bool list \<Rightarrow> nat \<Rightarrow> drb arr \<Rightarrow> e1_session_mod \<Rightarrow>
     (drb arr \<times> e1_session_mod) res" where
  "e1_refresh_bearers sid flows marks k a m =
     (if k = length (fst a) then Inr (a, m)
      else if k > length (fst a) then Inl Out_of_bounds
      else
        let i = drb_id (fst a ! k) in
        if drb_pdusession (fst a ! k) \<noteq> sid then e1_refresh_bearers sid flows marks (k + 1) a m
        else if \<not> (\<exists>f\<in>set flows. qf_drb_id f = i)
        then
          bindr (nr_rrc_remove_drb_by_id a i) (\<lambda>(_, a').
          if snd a' \<noteq> snd a then Inl Dangling_pointer
          else
            bindr (assertr (length (em_remove m) < E1AP_MAX_NUM_DRBS)) (\<lambda>_.
              e1_refresh_bearers sid flows marks (k + 1) a'
                (m\<lparr>em_remove := em_remove m @ [if k < length (fst a') then drb_id (fst a' ! k) else 0]\<rparr>)))
        else
          bindr (marked_drb marks i) (\<lambda>marked.
          bindr (if \<not> marked then Inr m
                 else case find_index (\<lambda>x. fst x = i) (em_modify m) of
                   Some j \<Rightarrow> nr_rrc_override_flow_mapping_info m j i flows
                 | None \<Rightarrow> find_or_add_e1_drb_mod m i flows) (\<lambda>m.
            e1_refresh_bearers sid flows marks (k + 1) a m)))"
  by pat_completeness auto

termination e1_refresh_bearers
  by (relation "measure (\<lambda>(sid, flows, marks, k, a, m). length (fst a) - k)") (auto dest!: remove_drb_length)

declare e1_refresh_bearers.simps [simp del]

definition nr_rrc_send_e1_after_qos_update ::
  "int \<Rightarrow> nr_rrc_qos list \<Rightarrow> bool list \<Rightarrow> drb arr \<Rightarrow> e1_session_mod list \<Rightarrow>
     (drb arr \<times> e1_session_mod list) res" where
  "nr_rrc_send_e1_after_qos_update sid flows marks a e1 =
     bindr (find_or_add_pdu_session_mod e1 sid) (\<lambda>(j, e1).
     bindr (e1_refresh_bearers sid flows marks 0 a (e1 ! j)) (\<lambda>(a, m).
       Inr (a, e1[j := m])))"

section \<open>Flows to add, to modify and to release\<close>

definition same_fiveqi_type :: "qos_parameter \<Rightarrow> qos_parameter \<Rightarrow> bool" where
  "same_fiveqi_type p q \<longleftrightarrow> is_dynamic p = is_dynamic q"

text \<open>The bearers of the UE, the flows of the session, the entry of the E1 request and the flags.\<close>

type_synonym modify_state = "drb arr \<times> nr_rrc_qos arr \<times> e1_session_mod \<times> bool list"

text \<open>An existing flow gets the new parameters and keeps its bearer.\<close>

definition modify_flow ::
  "nat \<Rightarrow> qos_parameter \<Rightarrow> modify_state \<Rightarrow>
     (modify_state) res" where
  "modify_flow k q st =
     (case st of (a, (flows, sp), m, marks) \<Rightarrow>
      let f = flows ! k; i = qf_drb_id f in
      bindr (assertr (same_fiveqi_type (qf_qos f) q)) (\<lambda>_.
      let flows = flows[k := f\<lparr>qf_qos := q\<rparr>] in
      bindr (find_or_add_e1_drb_mod m i flows) (\<lambda>m.
      bindr (mark_drb marks i) (\<lambda>marks.
        Inr (a, (flows[k := f\<lparr>qf_qos := q, qf_ngap_pending := True\<rparr>], sp), m, marks)))))"

definition add_flow ::
  "int \<Rightarrow> qos_parameter \<Rightarrow> modify_state \<Rightarrow>
     (modify_state) res" where
  "add_flow sid q st =
     (case st of (a, flows, m, marks) \<Rightarrow>
      bindr (add_qos flows q) (\<lambda>(k, flows, sp).
      case k of
        None \<Rightarrow> Inr (a, (flows, sp), m, marks)
      | Some k \<Rightarrow>
          bindr (nr_rrc_assign_drb_to_qos_flow a sid flows k) (\<lambda>(is_new, a, flows).
          let i = qf_drb_id (flows ! k) in
          bindr
            (if is_new
             then
               bindr (get_drb (fst a) i) (\<lambda>d.
               bindr (assert_some d) (\<lambda>_.
               bindr (assertr (length (em_setup m) < E1AP_MAX_NUM_DRBS)) (\<lambda>_.
               bindr (fill_e1_drb_to_setup i flows) (\<lambda>x.
                 Inr (m\<lparr>em_setup := em_setup m @ [x]\<rparr>, marks)))))
             else
               bindr (assertr (0 < i \<and> i \<le> MAX_DRBS_PER_UE)) (\<lambda>_.
               bindr (find_or_add_e1_drb_mod m i flows) (\<lambda>m.
               bindr (mark_drb marks i) (\<lambda>marks. Inr (m, marks))))) (\<lambda>(m, marks).
            Inr (a, (flows[k := (flows ! k)\<lparr>qf_ngap_pending := True\<rparr>], sp), m, marks)))))"

fun nr_rrc_apply_qos_add_modify ::
  "int \<Rightarrow> qos_parameter list \<Rightarrow> modify_state \<Rightarrow>
     (modify_state) res" where
  "nr_rrc_apply_qos_add_modify sid [] st = Inr st"
| "nr_rrc_apply_qos_add_modify sid (q # qs) st =
     (if qp_qfi q > 63 then nr_rrc_apply_qos_add_modify sid qs st
      else
        bindr (usable_fiveqi q) (\<lambda>ok.
        if \<not> ok then nr_rrc_apply_qos_add_modify sid qs st
        else
          bindr (case find_qos (fst (fst (snd st))) (uint (qp_qfi q)) of
                   Some k \<Rightarrow> modify_flow k q st
                 | None \<Rightarrow> add_flow sid q st) (nr_rrc_apply_qos_add_modify sid qs)))"

fun nr_rrc_apply_qos_release ::
  "byte list \<Rightarrow> nr_rrc_qos arr \<Rightarrow> bool list \<Rightarrow> (nr_rrc_qos arr \<times> bool list) res" where
  "nr_rrc_apply_qos_release [] flows marks = Inr (flows, marks)"
| "nr_rrc_apply_qos_release (qfi # qs) flows marks =
     (case find_qos (fst flows) (uint qfi) of
        None \<Rightarrow> nr_rrc_apply_qos_release qs flows marks
      | Some k \<Rightarrow>
          bindr (rm_qos flows (uint qfi)) (\<lambda>(b, flows').
          if \<not> b then nr_rrc_apply_qos_release qs flows marks
          else bindr (mark_drb marks (qf_drb_id (fst flows ! k))) (nr_rrc_apply_qos_release qs flows')))"

section \<open>One session\<close>

text \<open>The bearer of the first flow that can be the default one, 0 without such a flow.\<close>

fun first_default_drb :: "nr_rrc_qos list \<Rightarrow> int res" where
  "first_default_drb [] = Inr 0"
| "first_default_drb (f # flows) =
     bindr (default_flow (qf_qos f)) (\<lambda>b. if b then Inr (qf_drb_id f) else first_default_drb flows)"

record modify_item =
  mi_session :: int
  mi_nas_pdu :: "byte list"
  mi_add_modify :: "qos_parameter list"
  mi_release :: "byte list"

definition nr_rrc_update_pdusession ::
  "modify_item \<Rightarrow> rrc_pdu_session \<Rightarrow> drb arr \<Rightarrow> e1_session_mod list \<Rightarrow>
     (rrc_pdu_session \<times> drb arr \<times> e1_session_mod list) res" where
  "nr_rrc_update_pdusession x s a e1 =
     (let sid = mi_session x; s = s\<lparr>pdusession_id := sid, p_nas_pdu := mi_nas_pdu x\<rparr>;
          marks = replicate (nat MAX_DRBS_PER_UE + 1) False in
      bindr (assertr (length (mi_add_modify x) < MAX_QOS_FLOWS)) (\<lambda>_.
      bindr (assert_some (p_qos s)) (\<lambda>flows.
      bindr (assertr (int (length e1) < NR_MAX_NB_PDU_SESSIONS)) (\<lambda>_.
      bindr (nr_rrc_apply_qos_add_modify sid (mi_add_modify x)
               (a, (flows, p_qos_space s), new_session_mod sid, marks)) (\<lambda>(a, flows, m, marks).
      bindr (nr_rrc_apply_qos_release (mi_release x) flows marks) (\<lambda>(flows, marks).
      bindr (if p_default_drb s = 0 then first_default_drb (fst flows) else Inr (p_default_drb s)) (\<lambda>default_drb.
      bindr (nr_rrc_send_e1_after_qos_update sid (fst flows) marks a (e1 @ [m])) (\<lambda>(a, e1).
        Inr (s\<lparr>p_qos := Some (fst flows), p_qos_space := snd flows, p_default_drb := default_drb\<rparr>, a, e1)))))))))"

section \<open>The request of the AMF\<close>

text \<open>
  A session that the UE does not have is added as a failed one, without flows: the array of its
  flows is not initialised. The result tells whether all sessions are unknown.
\<close>

fun modify_requested ::
  "byte \<Rightarrow> modify_item list \<Rightarrow> gNB_RRC_UE \<times> e1_session_mod list \<times> bool \<Rightarrow>
     (gNB_RRC_UE \<times> e1_session_mod list \<times> bool) res" where
  "modify_requested xid [] st = Inr st"
| "modify_requested xid (x # xs) (ue, e1, all_failed) =
     (case find_pduSession (pduSessions ue) (mi_session x) of
        None \<Rightarrow>
          bindr (add_pduSession (session_arr ue) (mi_session x) [] None) (\<lambda>(s, sessions).
          case s of
            None \<Rightarrow> Inl Null_dereference
          | Some s \<Rightarrow>
              modify_requested xid xs
                (put_session_arr
                   (put_session (s\<lparr>p_status := PDU_SESSION_STATUS_FAILED\<rparr>) (fst sessions), snd sessions) ue,
                 e1, all_failed))
      | Some s \<Rightarrow>
          bindr (nr_rrc_update_pdusession x (s\<lparr>p_status := PDU_SESSION_STATUS_TOMODIFY, p_xid := xid\<rparr>) (drb_arr ue) e1)
            (\<lambda>(s, a, e1).
          modify_requested xid xs
            (put_drb_arr a (ue\<lparr>pduSessions := put_session s (pduSessions ue)\<rparr>), e1, False)))"

definition clear_ue_ngap_modify_qos_pending :: "gNB_RRC_UE \<Rightarrow> gNB_RRC_UE res" where
  "clear_ue_ngap_modify_qos_pending ue =
     bindr (assertr (\<forall>s\<in>set (pduSessions ue). p_qos s \<noteq> None)) (\<lambda>_.
       Inr (ue\<lparr>pduSessions := map (\<lambda>s. s\<lparr>p_qos := map_option clear_pending (p_qos s)\<rparr>) (pduSessions ue)\<rparr>))"

definition rrc_gNB_ngap_pdusession_mod_failure ::
  "u32 \<Rightarrow> modify_item list \<Rightarrow> gNB_RRC_INST \<Rightarrow> gNB_RRC_INST" where
  "rrc_gNB_ngap_pdusession_mod_failure i xs =
     send (Ngap_pdusession_modify_resp i [] (map mi_session xs))"

definition rrc_gNB_process_NGAP_PDUSESSION_MODIFY_REQ ::
  "u32 \<Rightarrow> u64 \<Rightarrow> modify_item list \<Rightarrow> gNB_RRC_INST \<Rightarrow> gNB_RRC_INST res" where
  "rrc_gNB_process_NGAP_PDUSESSION_MODIFY_REQ ue_id amf_id xs rrc =
     (case rrc_gNB_get_ue_context rrc ue_id of
        None \<Rightarrow> Inr (rrc_gNB_ngap_pdusession_mod_failure ue_id xs rrc)
      | Some ue \<Rightarrow>
          if amf_ue_ngap_id ue \<noteq> amf_id then Inr (rrc_gNB_ngap_pdusession_mod_failure ue_id xs rrc)
          else
            bindr (clear_ue_ngap_modify_qos_pending ue) (\<lambda>ue.
            let (xid, rrc) = rrc_gNB_get_next_transaction_identifier rrc in
            bindr (assertr (int (length xs) \<le> NR_MAX_NB_PDU_SESSIONS)) (\<lambda>_.
            bindr (modify_requested (of_nat xid) xs (ue, [], True)) (\<lambda>(ue, e1, all_failed).
            if all_failed
            then
              bindr (rrc_gNB_send_NGAP_PDUSESSION_MODIFY_RESP xid rrc ue) (\<lambda>(rrc, ue). Inr (put_ue ue rrc))
            else
              bindr (cu_get_f1_ue_data (rrc_ue_id ue) rrc) (\<lambda>d.
              bindr (if e1 \<noteq> [] \<and> e1_assoc_id d \<noteq> 0
                     then bindr (get_existing_cuup_for_ue rrc ue) (\<lambda>a.
                            Inr (send (E1_session_modification a (rrc_ue_id ue) e1) rrc))
                     else Inr rrc) (\<lambda>rrc.
                Inr (put_ue ue rrc)))))))"

end
