(* ===== verification/Nr_Rrc_Qos_Props.thy ===== *)
theory Nr_Rrc_Qos_Props
  imports Nr_Rrc_Qos
begin

text \<open>
  How flows share bearers: every bearer carries either one flow that needs a bearer of its own, or
  at most five others, at most two of them with guaranteed bit rate; the bearers of a flow belong
  to its session. The functions of the model are related to pure descriptions of a profile, the
  counts to the number of flows with a property on a bearer.
\<close>

section \<open>Profiles\<close>

definition standardized :: "u16 \<Rightarrow> bool" where
  "standardized v \<longleftrightarrow> is_5qi_standardized v = Inr True"

definition profile_ok :: "qos_parameter \<Rightarrow> bool" where
  "profile_ok q =
     (case qp_characteristics q of
        NON_DYNAMIC v _ \<Rightarrow> standardized v
      | DYNAMIC v _ _ _ _ \<Rightarrow> (case v of None \<Rightarrow> True | Some v \<Rightarrow> v \<le> MAX_FIVEQI))"

definition fiveqi_of :: "qos_parameter \<Rightarrow> u16" where
  "fiveqi_of q =
     (case qp_characteristics q of
        NON_DYNAMIC v _ \<Rightarrow> v
      | DYNAMIC v _ _ _ _ \<Rightarrow> (case v of None \<Rightarrow> NO_FIVEQI | Some v \<Rightarrow> v))"

definition classified :: "qos_parameter \<Rightarrow> bool" where
  "classified q \<longleftrightarrow> fiveqi_of q \<noteq> NO_FIVEQI \<and> standardized (fiveqi_of q)"

definition dedicated :: "qos_parameter \<Rightarrow> bool" where
  "dedicated q \<longleftrightarrow> nr_rrc_qos_dedicated_drb q = Inr True"

definition type_of :: "qos_parameter \<Rightarrow> qos_resource_type" where
  "type_of q = five_qi_resource_type (fiveqi_of q)"

text \<open>The flows that get a bearer of their own, and those of the rest with guaranteed bit rate.\<close>

definition alone :: "qos_parameter \<Rightarrow> bool" where
  "alone q \<longleftrightarrow> \<not> classified q \<or> dedicated q"

definition gbr :: "qos_parameter \<Rightarrow> bool" where
  "gbr q \<longleftrightarrow> classified q \<and> type_of q = QOS_RESOURCE_TYPE_GBR"

lemma standardized_iff: "v \<le> MAX_FIVEQI \<Longrightarrow> is_5qi_standardized v = Inr (standardized v)"
  by (simp add: standardized_def is_5qi_standardized_def assertr_def)

lemma standardized_range: "standardized v \<Longrightarrow> v \<le> MAX_STANDARDIZED_FIVEQI \<and> v \<le> MAX_FIVEQI"
  by (auto simp: standardized_def is_5qi_standardized_def assertr_def MAX_STANDARDIZED_FIVEQI_def MAX_FIVEQI_def
    split: if_splits) (erule order_trans, simp)+

lemma get_qos_fiveqi_ok: "profile_ok q \<Longrightarrow> get_qos_fiveqi q = Inr (fiveqi_of q)"
  by (auto simp: profile_ok_def get_qos_fiveqi_def fiveqi_of_def assertr_def dest: standardized_range
    split: fiveQI.splits option.splits)

lemma fiveqi_of_range: "profile_ok q \<Longrightarrow> fiveqi_of q \<noteq> NO_FIVEQI \<Longrightarrow> fiveqi_of q \<le> MAX_FIVEQI"
  by (auto simp: profile_ok_def fiveqi_of_def dest: standardized_range split: fiveQI.splits option.splits)

lemma classified_ok:
  "profile_ok q \<Longrightarrow>
     (if fiveqi_of q = NO_FIVEQI then Inr False else is_5qi_standardized (fiveqi_of q)) = Inr (classified q)"
  by (simp add: classified_def standardized_iff fiveqi_of_range)

lemma dedicated_ok: "profile_ok q \<Longrightarrow> nr_rrc_qos_dedicated_drb q = Inr (dedicated q)"
  using standardized_iff [OF fiveqi_of_range [of q]]
  by (auto simp: dedicated_def nr_rrc_qos_dedicated_drb_def get_qos_fiveqi_ok profile_ok_def fiveqi_of_def
    NO_FIVEQI_def MAX_FIVEQI_def split: fiveQI.splits option.splits dest: standardized_range)

lemma dc_gbr_dedicated:
  assumes "profile_ok q" "classified q" "type_of q = QOS_RESOURCE_TYPE_DC_GBR"
  shows "dedicated q"
proof -
  have "is_5qi_standardized (fiveqi_of q) = Inr True" using assms(2) by (simp add: classified_def standardized_def)
  with assms show ?thesis
    by (simp add: dedicated_def nr_rrc_qos_dedicated_drb_def get_qos_fiveqi_ok classified_def type_of_def)
qed

lemma not_classified_dynamic: "profile_ok q \<Longrightarrow> \<not> classified q \<Longrightarrow> is_dynamic q"
  by (auto simp: profile_ok_def classified_def fiveqi_of_def is_dynamic_def NO_FIVEQI_def MAX_FIVEQI_def
    dest: standardized_range split: fiveQI.splits)

section \<open>Flows on a bearer\<close>

definition n_on :: "(qos_parameter \<Rightarrow> bool) \<Rightarrow> int \<Rightarrow> nr_rrc_qos list \<Rightarrow> nat" where
  "n_on P i flows = length (filter (\<lambda>f. qf_drb_id f = i \<and> P (qf_qos f)) flows)"

lemma n_on_Cons: "n_on P i (f # flows) = (if qf_drb_id f = i \<and> P (qf_qos f) then 1 else 0) + n_on P i flows"
  by (simp add: n_on_def)

lemma n_on_Nil: "n_on P i [] = 0"
  by (simp add: n_on_def)

lemma length_filter_update:
  assumes "k < length l" "\<not> P (l ! k)"
  shows "length (filter P (l[k := x])) = length (filter P l) + (if P x then 1 else 0)"
proof -
  have "l = take k l @ l ! k # drop (Suc k) l" using assms(1) by (simp add: id_take_nth_drop)
  then have "filter P l = filter P (take k l) @ filter P (drop (Suc k) l)"
    using assms(2) by (metis filter.simps(2) filter_append)
  then show ?thesis using assms(1) by (simp add: upd_conv_take_nth_drop)
qed

lemma n_on_assign:
  assumes "k < length flows" "qf_drb_id (flows ! k) = 0" "j \<noteq> 0"
  shows "n_on P j (flows[k := (flows ! k)\<lparr>qf_drb_id := i\<rparr>]) =
         n_on P j flows + (if i = j \<and> P (qf_qos (flows ! k)) then 1 else 0)"
  using length_filter_update [OF assms(1), of "\<lambda>f. qf_drb_id f = j \<and> P (qf_qos f)"] assms(2,3)
  by (simp add: n_on_def)

lemma n_on_mono: "(\<And>q. P q \<Longrightarrow> Q q) \<Longrightarrow> n_on P i flows \<le> n_on Q i flows"
  by (induction flows) (auto simp: n_on_Cons n_on_Nil)

lemma n_on_pos: "0 < n_on P i flows \<longleftrightarrow> (\<exists>f\<in>set flows. qf_drb_id f = i \<and> P (qf_qos f))"
  by (auto simp: n_on_def filter_empty_conv)

lemma count_flows_ok:
  assumes "\<forall>f\<in>set flows. profile_ok (qf_qos f)"
  shows "nr_rrc_count_qos_flows_by_type flows i =
    Inr (n_on (\<lambda>q. \<not> classified q \<or> type_of q = QOS_RESOURCE_TYPE_DC_GBR) i flows, n_on gbr i flows,
         n_on (\<lambda>q. classified q \<and> type_of q = QOS_RESOURCE_TYPE_NON_GBR) i flows)"
  using assms
proof (induction flows)
  case (Cons f flows)
  then show ?case
    using classified_ok [of "qf_qos f"]
    by (auto simp: get_qos_fiveqi_ok n_on_Cons gbr_def type_of_def split: qos_resource_type.splits)
qed (simp add: n_on_Nil)

lemma has_dedicated_ok:
  assumes "\<forall>f\<in>set flows. profile_ok (qf_qos f)"
  shows "has_dedicated_flow_on_drb flows i = Inr (0 < n_on dedicated i flows)"
  using assms by (induction flows) (auto simp: dedicated_ok n_on_Cons n_on_Nil)

section \<open>The load of the bearers\<close>

definition load_ok :: "nr_rrc_qos list \<Rightarrow> int \<Rightarrow> bool" where
  "load_ok flows i \<longleftrightarrow> (0 < n_on alone i flows \<longrightarrow> n_on (\<lambda>_. True) i flows = 1) \<and>
     n_on (\<lambda>_. True) i flows \<le> 5 \<and> n_on gbr i flows \<le> 2"

definition mux_ok :: "int \<Rightarrow> drb list \<Rightarrow> nr_rrc_qos list \<Rightarrow> bool" where
  "mux_ok sid l flows \<longleftrightarrow> (\<forall>f\<in>set flows. profile_ok (qf_qos f) \<and>
       (qf_drb_id f \<noteq> 0 \<longrightarrow> (\<exists>d\<in>set l. drb_id d = qf_drb_id f \<and> drb_pdusession d = sid))) \<and>
     (\<forall>i. i \<noteq> 0 \<longrightarrow> load_ok flows i)"

lemma mux_bearer:
  assumes "mux_ok sid l flows" "f \<in> set flows" "qf_drb_id f \<noteq> 0"
  shows "\<exists>d\<in>set l. drb_id d = qf_drb_id f \<and> drb_pdusession d = sid"
  using assms unfolding mux_ok_def by blast

lemma n_on_split:
  assumes "\<forall>f\<in>set flows. profile_ok (qf_qos f)" "n_on alone i flows = 0"
  shows "n_on gbr i flows + n_on (\<lambda>q. classified q \<and> type_of q = QOS_RESOURCE_TYPE_NON_GBR) i flows =
         n_on (\<lambda>_. True) i flows"
  using assms
proof (induction flows)
  case (Cons f flows)
  have "gbr (qf_qos f) \<noteq> (classified (qf_qos f) \<and> type_of (qf_qos f) = QOS_RESOURCE_TYPE_NON_GBR)"
    if "qf_drb_id f = i"
  proof -
    have "classified (qf_qos f)" "\<not> dedicated (qf_qos f)"
      using Cons.prems(2) that by (auto simp: n_on_Cons alone_def split: if_splits)
    then have "type_of (qf_qos f) \<noteq> QOS_RESOURCE_TYPE_DC_GBR"
      using dc_gbr_dedicated Cons.prems(1) by auto
    with \<open>classified (qf_qos f)\<close> show ?thesis
      by (cases "type_of (qf_qos f)") (auto simp: gbr_def)
  qed
  with Cons show ?case by (auto simp: n_on_Cons split: if_splits)
qed (simp add: n_on_Nil)

text \<open>A bearer takes a further flow exactly if it has no flow of its own kind only and has room.\<close>

definition accepts :: "qos_resource_type \<Rightarrow> nr_rrc_qos list \<Rightarrow> int \<Rightarrow> bool" where
  "accepts type flows i \<longleftrightarrow> n_on alone i flows = 0 \<and> n_on (\<lambda>_. True) i flows < 5 \<and>
     (type = QOS_RESOURCE_TYPE_GBR \<longrightarrow> n_on gbr i flows < 2)"

lemma drb_accepts_ok:
  assumes "mux_ok sid l flows" "i \<noteq> 0" "type \<noteq> QOS_RESOURCE_TYPE_DC_GBR"
  shows "drb_accepts type flows i = Inr (accepts type flows i)"
proof -
  let ?dc = "\<lambda>q. \<not> classified q \<or> type_of q = QOS_RESOURCE_TYPE_DC_GBR"
  have ok: "\<forall>f\<in>set flows. profile_ok (qf_qos f)" and load: "load_ok flows i"
    using assms(1,2) by (auto simp: mux_ok_def)
  have dc: "?dc (qf_qos f) \<Longrightarrow> alone (qf_qos f)" if "f \<in> set flows" for f
    using that ok dc_gbr_dedicated by (auto simp: alone_def)
  have alone: "n_on alone i flows = 0 \<longleftrightarrow> n_on ?dc i flows = 0 \<and> n_on dedicated i flows = 0"
    using n_on_pos [of alone i flows] n_on_pos [of ?dc i flows] n_on_pos [of dedicated i flows] dc
    by (auto simp: alone_def)
  have le: "n_on ?dc i flows \<le> 1"
  proof (cases "n_on ?dc i flows = 0")
    case False
    then have "n_on (\<lambda>_. True) i flows = 1" using alone load by (auto simp: load_ok_def)
    then show ?thesis using n_on_mono [of ?dc "\<lambda>_. True" i flows] by simp
  qed simp
  show ?thesis
  proof (cases "n_on alone i flows = 0")
    case True
    moreover have "n_on gbr i flows + n_on (\<lambda>q. classified q \<and> type_of q = QOS_RESOURCE_TYPE_NON_GBR) i flows =
        n_on (\<lambda>_. True) i flows" by (rule n_on_split [OF ok True])
    ultimately show ?thesis
      using alone assms(3)
      by (cases type) (auto simp: drb_accepts_def count_flows_ok [OF ok] has_dedicated_ok [OF ok] assertr_def accepts_def
        Let_def MAX_QOS_FLOWS_PER_DRB_DC_GBR_def MAX_QOS_FLOWS_PER_DRB_GBR_def
        MAX_QOS_FLOWS_PER_DRB_NON_GBR_def MAX_QOS_FLOWS_PER_DRB_TOTAL_def)
  next
    case False
    then have "n_on ?dc i flows = 1 \<or> 0 < n_on dedicated i flows" using alone le by linarith
    then show ?thesis
      using False le
      by (auto simp: drb_accepts_def count_flows_ok [OF ok] has_dedicated_ok [OF ok] assertr_def accepts_def
        MAX_QOS_FLOWS_PER_DRB_DC_GBR_def)
  qed
qed

lemma suitable_drb_ok:
  assumes "\<forall>d\<in>set l. drb_accepts type flows (drb_id d) = Inr (accepts type flows (drb_id d))"
  shows "suitable_drb type sid flows l =
    Inr (case find (\<lambda>d. drb_pdusession d = sid \<and> accepts type flows (drb_id d)) l of
           None \<Rightarrow> -1 | Some d \<Rightarrow> drb_id d)"
  using assms by (induction l) auto

section \<open>Assignment of a bearer\<close>

text \<open>
  A flow for which no bearer is found: one that needs a bearer of its own, or one that no bearer of
  its session takes. The bearer found for any other flow takes it.
\<close>

definition no_bearer :: "int \<Rightarrow> drb list \<Rightarrow> nr_rrc_qos list \<Rightarrow> qos_parameter \<Rightarrow> bool" where
  "no_bearer sid l flows q \<longleftrightarrow>
     alone q \<or> (\<forall>d\<in>set l. drb_pdusession d = sid \<longrightarrow> \<not> accepts (type_of q) flows (drb_id d))"

lemma find_suitable_ok:
  assumes mux: "mux_ok sid l flows" and l: "bearers_ok l" and q: "profile_ok q"
  shows "\<exists>i. nr_rrc_find_suitable_drb_for_qos l sid q flows = Inr i \<and>
    (if i = -1 then no_bearer sid l flows q
     else \<not> alone q \<and> accepts (type_of q) flows i \<and> (\<exists>d\<in>set l. drb_id d = i \<and> drb_pdusession d = sid))"
proof (cases "alone q")
  case True
  then show ?thesis
    using q classified_ok [OF q] dedicated_ok [OF q] not_classified_dynamic [OF q]
    by (auto simp: nr_rrc_find_suitable_drb_for_qos_def get_qos_fiveqi_ok alone_def assertr_def no_bearer_def)
next
  case False
  then have c: "classified q" "\<not> dedicated q" by (auto simp: alone_def)
  have t: "type_of q \<noteq> QOS_RESOURCE_TYPE_DC_GBR" using dc_gbr_dedicated [OF q] c by blast
  have pos: "0 < drb_id d" if "d \<in> set l" for d using that l by (simp add: bearers_ok_def)
  have "drb_accepts (type_of q) flows (drb_id d) = Inr (accepts (type_of q) flows (drb_id d))" if "d \<in> set l" for d
    using pos [OF that] drb_accepts_ok [OF mux _ t] by force
  then have found: "nr_rrc_find_suitable_drb_for_qos l sid q flows =
      Inr (case find (\<lambda>d. drb_pdusession d = sid \<and> accepts (type_of q) flows (drb_id d)) l of
             None \<Rightarrow> -1 | Some d \<Rightarrow> drb_id d)"
    using c t q classified_ok [OF q] dedicated_ok [OF q] suitable_drb_ok [of l "type_of q" flows]
    by (simp add: nr_rrc_find_suitable_drb_for_qos_def get_qos_fiveqi_ok flip: type_of_def)
  show ?thesis
  proof (cases "find (\<lambda>d. drb_pdusession d = sid \<and> accepts (type_of q) flows (drb_id d)) l")
    case None
    then have "\<forall>d\<in>set l. drb_pdusession d = sid \<longrightarrow> \<not> accepts (type_of q) flows (drb_id d)"
      by (auto simp: find_None_iff)
    then show ?thesis using found None by (simp add: no_bearer_def)
  next
    case (Some d)
    then have "d \<in> set l" "drb_pdusession d = sid" "accepts (type_of q) flows (drb_id d)"
      by (auto simp: find_Some_iff)
    then show ?thesis using found Some False pos [of d] by auto
  qed
qed

text \<open>A fresh bearer has no flows; one that accepts a flow can carry it.\<close>

lemma load_ok_assign:
  assumes mux: "mux_ok sid l flows" and k: "k < length flows" "qf_drb_id (flows ! k) = 0" and j: "j \<noteq> 0"
    and i: "n_on (\<lambda>_. True) i flows = 0 \<or> \<not> alone (qf_qos (flows ! k)) \<and> accepts (type_of (qf_qos (flows ! k))) flows i"
  shows "load_ok (flows[k := (flows ! k)\<lparr>qf_drb_id := i\<rparr>]) j"
proof -
  let ?q = "qf_qos (flows ! k)"
  have old: "load_ok flows j" using mux j by (simp add: mux_ok_def)
  have "n_on alone i flows \<le> n_on (\<lambda>_. True) i flows" "n_on gbr i flows \<le> n_on (\<lambda>_. True) i flows"
    by (rule n_on_mono, simp)+
  then show ?thesis
    using old i unfolding load_ok_def n_on_assign [OF k j]
    by (auto simp: accepts_def gbr_def)
qed

lemma mux_ok_assign:
  assumes mux: "mux_ok sid l flows" and k: "k < length flows" "qf_drb_id (flows ! k) = 0"
    and l': "set l \<subseteq> set l'" "\<exists>d\<in>set l'. drb_id d = i \<and> drb_pdusession d = sid"
    and i: "n_on (\<lambda>_. True) i flows = 0 \<or> \<not> alone (qf_qos (flows ! k)) \<and> accepts (type_of (qf_qos (flows ! k))) flows i"
  shows "mux_ok sid l' (flows[k := (flows ! k)\<lparr>qf_drb_id := i\<rparr>])"
proof -
  let ?g = "(flows ! k)\<lparr>qf_drb_id := i\<rparr>"
  have "profile_ok (qf_qos f) \<and>
      (qf_drb_id f \<noteq> 0 \<longrightarrow> (\<exists>d\<in>set l'. drb_id d = qf_drb_id f \<and> drb_pdusession d = sid))"
    if f: "f \<in> set (flows[k := ?g])" for f
  proof (cases "f = ?g")
    case True
    then show ?thesis using mux k(1) l'(2) by (simp add: mux_ok_def)
  next
    case False
    then have "f \<in> set flows" using f set_update_subset_insert [of flows k ?g] by auto
    then show ?thesis using mux l'(1) unfolding mux_ok_def by blast
  qed
  then show ?thesis using load_ok_assign [OF mux k _ i] by (simp add: mux_ok_def)
qed

text \<open>The assertion fails when all identities of bearers are in use and a further bearer is needed.\<close>

definition stuck :: "int \<Rightarrow> drb list \<Rightarrow> nr_rrc_qos list \<Rightarrow> nat \<Rightarrow> bool" where
  "stuck sid l flows k \<longleftrightarrow>
     drb_id ` set l = {1..MAX_DRBS_PER_UE} \<and> no_bearer sid l flows (qf_qos (flows ! k))"

definition assigned ::
  "int \<Rightarrow> drb list \<Rightarrow> nr_rrc_qos list \<Rightarrow> nat \<Rightarrow> int \<Rightarrow> drb list \<Rightarrow> drb arr \<Rightarrow> bool" where
  "assigned sid l flows k i ext a' \<longleftrightarrow> i \<noteq> 0 \<and> fst a' = l @ ext \<and> length ext \<le> 1 \<and>
     (\<forall>d\<in>set ext. drb_id d = i \<and> drb_pdusession d = sid) \<and> drb_arr_ok a' \<and>
     mux_ok sid (fst a') (flows[k := (flows ! k)\<lparr>qf_drb_id := i\<rparr>])"

lemma assign_new:
  assumes mux: "mux_ok sid l flows" and k: "k < length flows" "qf_drb_id (flows ! k) = 0"
    and d: "fst a' = l @ [d]" "drb_pdusession d = sid" "drb_id d \<notin> drb_id ` set l" "0 < drb_id d" and a': "drb_arr_ok a'"
  shows "assigned sid l flows k (drb_id d) [d] a'"
proof -
  have "qf_drb_id f \<noteq> drb_id d" if f: "f \<in> set flows" for f
  proof
    assume "qf_drb_id f = drb_id d"
    then obtain e where "e \<in> set l" "drb_id e = drb_id d" using mux_bearer [OF mux f] d(4) by auto
    with d(3) show False by (metis imageI)
  qed
  then have "n_on (\<lambda>_. True) (drb_id d) flows = 0" by (simp add: n_on_def filter_empty_conv)
  then have "mux_ok sid (l @ [d]) (flows[k := (flows ! k)\<lparr>qf_drb_id := drb_id d\<rparr>])"
    using d by (intro mux_ok_assign [OF mux k]) auto
  then show ?thesis using d a' by (simp add: assigned_def)
qed

lemma assign_ok:
  assumes mux: "mux_ok sid (fst a) flows" and a: "drb_arr_ok a" and sid: "0 < sid" "sid \<le> NR_MAX_NB_PDU_SESSIONS"
    and k: "k < length flows" "qf_drb_id (flows ! k) = 0"
  shows "(\<exists>b i ext a'. nr_rrc_assign_drb_to_qos_flow a sid flows k =
        Inr (b, a', flows[k := (flows ! k)\<lparr>qf_drb_id := i\<rparr>]) \<and> assigned sid (fst a) flows k i ext a') \<or>
    nr_rrc_assign_drb_to_qos_flow a sid flows k = Inl Assert_failed \<and> stuck sid (fst a) flows k"
proof -
  let ?f = "flows ! k"
  have l: "bearers_ok (fst a)" using a by (simp add: drb_arr_ok_def)
  have q: "profile_ok (qf_qos ?f)" using mux k(1) by (simp add: mux_ok_def)
  obtain i where i: "nr_rrc_find_suitable_drb_for_qos (fst a) sid (qf_qos ?f) flows = Inr i"
    "if i = -1 then no_bearer sid (fst a) flows (qf_qos ?f)
     else \<not> alone (qf_qos ?f) \<and> accepts (type_of (qf_qos ?f)) flows i \<and>
       (\<exists>d\<in>set (fst a). drb_id d = i \<and> drb_pdusession d = sid)"
    using find_suitable_ok [OF mux l q] by blast
  show ?thesis
  proof (cases "i = -1")
    case True
    obtain r a' where r: "nr_rrc_add_drb a sid = Inr (r, a')" "drb_arr_ok a'" "added_drb (fst a) sid r (fst a')"
      using nr_rrc_add_drb_ok [OF a sid] by blast
    show ?thesis
    proof (cases r)
      case None
      then have "stuck sid (fst a) flows k" using r(3) i(2) True by (simp add: stuck_def added_drb_def)
      then show ?thesis
        using r None i(1) True q
        by (simp add: nr_rrc_assign_drb_to_qos_flow_def Let_def get_qos_fiveqi_ok assert_some_def)
    next
      case (Some d)
      then have d: "fst a' = fst a @ [d]" "drb_pdusession d = sid" "drb_id d \<notin> drb_id ` set (fst a)"
        using r(3) by (simp_all add: added_drb_def)
      then have pos: "0 < drb_id d" "drb_id d \<le> MAX_DRBS_PER_UE" using r(2) by (simp_all add: drb_arr_ok_def bearers_ok_def)
      show ?thesis
        using r(1) i(1) True Some pos q assign_new [OF mux k d pos(1) r(2)]
        by (intro disjI1 exI [of _ True] exI [of _ "drb_id d"] exI [of _ "[d]"] exI [of _ a'])
           (simp add: nr_rrc_assign_drb_to_qos_flow_def Let_def get_qos_fiveqi_ok assert_some_def assertr_def)
    qed
  next
    case False
    then obtain d where d: "d \<in> set (fst a)" "drb_id d = i" "drb_pdusession d = sid" using i(2) by auto
    then have pos: "0 < i" "i \<le> MAX_DRBS_PER_UE" using l by (auto simp: bearers_ok_def)
    have "mux_ok sid (fst a) (flows[k := ?f\<lparr>qf_drb_id := i\<rparr>])"
      using False i(2) by (intro mux_ok_assign [OF mux k]) auto
    then have "assigned sid (fst a) flows k i [] a" using pos(1) a by (simp add: assigned_def)
    then show ?thesis
      using False i(1) pos q
      by (intro disjI1 exI [of _ False] exI [of _ i] exI [of _ "[]"] exI [of _ a])
         (simp add: nr_rrc_assign_drb_to_qos_flow_def Let_def get_qos_fiveqi_ok assertr_def)
  qed
qed

section \<open>All flows of a session\<close>

definition default_profile :: "qos_parameter \<Rightarrow> bool" where
  "default_profile q \<longleftrightarrow> default_flow q = Inr True"

lemma default_flow_ok: "profile_ok q \<Longrightarrow> default_flow q = Inr (default_profile q)"
  using standardized_iff standardized_range
  by (auto simp: profile_ok_def default_profile_def default_flow_def nr_rrc_is_non_gbr_fiveqi_def split: fiveQI.splits)

lemma default_has_fiveqi: "profile_ok q \<Longrightarrow> default_profile q \<Longrightarrow> fiveqi_of q \<noteq> NO_FIVEQI"
  using standardized_range [of NO_FIVEQI]
  by (auto simp: profile_ok_def default_profile_def default_flow_def fiveqi_of_def NO_FIVEQI_def MAX_FIVEQI_def
    split: fiveQI.splits)

text \<open>
  What the loop over the flows at the positions \<open>ks\<close> makes of bearers and flows: bearers for the
  session are added, each for one of the flows, and the flows get their bearers and are otherwise
  left as they are.
\<close>

definition unassigned :: "nr_rrc_qos \<Rightarrow> nr_rrc_qos" where
  "unassigned f = f\<lparr>qf_drb_id := 0\<rparr>"

definition flows_assigned ::
  "int \<Rightarrow> drb list \<Rightarrow> nr_rrc_qos list \<Rightarrow> nat list \<Rightarrow> drb list \<Rightarrow> nr_rrc_qos list \<Rightarrow> bool" where
  "flows_assigned sid l flows ks l' flows' \<longleftrightarrow>
     (\<exists>ext. l' = l @ ext \<and> length ext \<le> length ks \<and>
        (\<forall>d\<in>set ext. drb_pdusession d = sid \<and> (\<exists>k\<in>set ks. qf_drb_id (flows' ! k) = drb_id d))) \<and>
     mux_ok sid l' flows' \<and> map unassigned flows' = map unassigned flows \<and>
     (\<forall>k<length flows. if k \<in> set ks then qf_drb_id (flows' ! k) \<noteq> 0 else flows' ! k = flows ! k)"

definition default_of :: "int \<Rightarrow> bool \<Rightarrow> nr_rrc_qos list \<Rightarrow> nat list \<Rightarrow> int" where
  "default_of dd ds flows ks =
     (if ds then dd
      else case find (\<lambda>k. default_profile (qf_qos (flows ! k))) ks of None \<Rightarrow> dd | Some k \<Rightarrow> qf_drb_id (flows ! k))"

lemma flows_assigned_step:
  assumes "flows_assigned sid (l @ ext) (flows[k := f]) ks l' flows'" "length ext \<le> 1"
    "k < length flows" "k \<notin> set ks" "qf_drb_id f \<noteq> 0" "unassigned f = unassigned (flows ! k)"
    "\<forall>d\<in>set ext. drb_id d = qf_drb_id f \<and> drb_pdusession d = sid"
  shows "flows_assigned sid l flows (k # ks) l' flows'" "flows' ! k = f"
proof -
  have same: "map unassigned (flows[k := f]) = map unassigned flows"
    using assms(3,6) by (metis list_update_id map_update)
  show k: "flows' ! k = f" using assms(1,3,4) by (auto simp: flows_assigned_def)
  obtain ext' where ext': "l' = (l @ ext) @ ext'" "length ext' \<le> length ks"
    "\<forall>d\<in>set ext'. drb_pdusession d = sid \<and> (\<exists>k\<in>set ks. qf_drb_id (flows' ! k) = drb_id d)"
    using assms(1) unfolding flows_assigned_def by blast
  have "\<exists>ext. l' = l @ ext \<and> length ext \<le> length (k # ks) \<and>
      (\<forall>d\<in>set ext. drb_pdusession d = sid \<and> (\<exists>j\<in>set (k # ks). qf_drb_id (flows' ! j) = drb_id d))"
    using ext' assms(2,7) k by (intro exI [of _ "ext @ ext'"]) auto
  moreover have "if j \<in> set (k # ks) then qf_drb_id (flows' ! j) \<noteq> 0 else flows' ! j = flows ! j"
    if "j < length flows" for j
    using assms(1,5) k that by (cases "j = k") (auto simp: flows_assigned_def)
  ultimately show "flows_assigned sid l flows (k # ks) l' flows'"
    using assms(1) same unfolding flows_assigned_def by simp
qed

lemma assign_flows_append:
  "assign_flows sid (ks @ ks') st = bindr (assign_flows sid ks st) (assign_flows sid ks')"
proof (induction ks arbitrary: st)
  case (Cons k ks)
  obtain a flows dd ds where "st = (a, flows, dd, ds)" by (cases st) auto
  with Cons show ?case by (simp add: bindr_assoc split_def if_distrib [of "\<lambda>m. bindr m g" for g] cong: if_cong)
qed simp

text \<open>The flow at which the loop stops: it needs a further bearer, and there is none.\<close>

definition flow_stuck :: "int \<Rightarrow> nat list \<Rightarrow> drb arr \<times> nr_rrc_qos list \<times> int \<times> bool \<Rightarrow> bool" where
  "flow_stuck sid ks st \<longleftrightarrow>
     (\<exists>ks1 k ks2 a flows d. ks = ks1 @ k # ks2 \<and> assign_flows sid ks1 st = Inr (a, flows, d) \<and> stuck sid (fst a) flows k)"

lemma flow_stuck_step:
  assumes "assign_flows sid [k] st = Inr st'" "flow_stuck sid ks st'"
  shows "flow_stuck sid (k # ks) st"
proof -
  obtain ks1 j ks2 a flows d where "ks = ks1 @ j # ks2" "assign_flows sid ks1 st' = Inr (a, flows, d)"
    "stuck sid (fst a) flows j"
    using assms(2) unfolding flow_stuck_def by blast
  then show ?thesis
    using assms(1) assign_flows_append [of sid "[k]" ks1 st] unfolding flow_stuck_def
    by (intro exI [of _ "k # ks1"] exI [of _ j] exI [of _ ks2] exI [of _ a] exI [of _ flows] exI [of _ d]) simp
qed

lemma assign_flows_ok:
  assumes "mux_ok sid (fst a) flows" "drb_arr_ok a" "0 < sid" "sid \<le> NR_MAX_NB_PDU_SESSIONS" "distinct ks"
    "\<forall>k\<in>set ks. k < length flows \<and> qf_drb_id (flows ! k) = 0"
  shows "(\<exists>a' flows' ds'. assign_flows sid ks (a, flows, dd, ds) = Inr (a', flows', default_of dd ds flows' ks, ds') \<and>
      drb_arr_ok a' \<and> flows_assigned sid (fst a) flows ks (fst a') flows') \<or>
    assign_flows sid ks (a, flows, dd, ds) = Inl Assert_failed \<and> flow_stuck sid ks (a, flows, dd, ds) \<and>
      MAX_DRBS_PER_UE < int (length (fst a) + length ks)"
  using assms
proof (induction ks arbitrary: a flows dd ds)
  case Nil
  then show ?case by (auto simp: flows_assigned_def default_of_def)
next
  case (Cons k ks)
  have k: "k < length flows" "qf_drb_id (flows ! k) = 0" "k \<notin> set ks" using Cons.prems by auto
  let ?q = "qf_qos (flows ! k)"
  have q: "profile_ok ?q" using Cons.prems(1) k(1) by (simp add: mux_ok_def)
  have l: "bearers_ok (fst a)" using Cons.prems(2) by (simp add: drb_arr_ok_def)
  consider b i ext a' where "nr_rrc_assign_drb_to_qos_flow a sid flows k =
        Inr (b, a', flows[k := (flows ! k)\<lparr>qf_drb_id := i\<rparr>])" "assigned sid (fst a) flows k i ext a'"
    | "nr_rrc_assign_drb_to_qos_flow a sid flows k = Inl Assert_failed" "stuck sid (fst a) flows k"
    using assign_ok [OF Cons.prems(1-4) k(1,2)] by blast
  then show ?case
  proof cases
    case 1
    let ?flows = "flows[k := (flows ! k)\<lparr>qf_drb_id := i\<rparr>]"
    let ?dd = "if default_profile ?q \<and> \<not> ds then i else dd" and ?ds = "ds \<or> default_profile ?q"
    have step: "assign_flows sid [k] (a, flows, dd, ds) = Inr (a', ?flows, ?dd, ?ds)"
      using 1(1) k(1) q default_has_fiveqi [OF q] by (auto simp: get_qos_fiveqi_ok default_flow_ok)
    then have more: "assign_flows sid (k # ks) (a, flows, dd, ds) = assign_flows sid ks (a', ?flows, ?dd, ?ds)"
      using assign_flows_append [of sid "[k]" ks "(a, flows, dd, ds)"]
      by (simp only: step append_Cons append_Nil bindr_simps)
    have a': "fst a' = fst a @ ext" "length ext \<le> 1" "i \<noteq> 0" "\<forall>d\<in>set ext. drb_id d = i \<and> drb_pdusession d = sid"
      "drb_arr_ok a'" "mux_ok sid (fst a') ?flows"
      using 1(2) unfolding assigned_def by blast+
    have rest: "\<forall>j\<in>set ks. j < length ?flows \<and> qf_drb_id (?flows ! j) = 0"
      using Cons.prems(6) k(3) by (auto simp: nth_list_update)
    consider a'' flows' ds' where "assign_flows sid ks (a', ?flows, ?dd, ?ds) =
          Inr (a'', flows', default_of ?dd ?ds flows' ks, ds')" "drb_arr_ok a''"
          "flows_assigned sid (fst a') ?flows ks (fst a'') flows'"
      | "assign_flows sid ks (a', ?flows, ?dd, ?ds) = Inl Assert_failed" "flow_stuck sid ks (a', ?flows, ?dd, ?ds)"
        "MAX_DRBS_PER_UE < int (length (fst a') + length ks)"
      using Cons.IH [OF a'(6,5) Cons.prems(3,4) _ rest, of ?dd ?ds] Cons.prems(5) by auto
    then show ?thesis
    proof cases
      case 1
      have "unassigned ((flows ! k)\<lparr>qf_drb_id := i\<rparr>) = unassigned (flows ! k)" by (simp add: unassigned_def)
      note f = flows_assigned_step [OF 1(3) [unfolded a'(1)] a'(2) k(1,3) _ this]
      have f: "flows_assigned sid (fst a) flows (k # ks) (fst a'') flows'"
        "flows' ! k = (flows ! k)\<lparr>qf_drb_id := i\<rparr>" using f a'(3,4) by simp_all
      have "default_of ?dd ?ds flows' ks = default_of dd ds flows' (k # ks)"
        using f(2) by (auto simp: default_of_def)
      then show ?thesis using 1(1,2) f(1) more by auto
    next
      case 2
      then show ?thesis using more a'(1,2) flow_stuck_step [OF step 2(2)] by auto
    qed
  next
    case 2
    have "flow_stuck sid (k # ks) (a, flows, dd, ds)"
      using 2(2) unfolding flow_stuck_def by (intro exI [of _ "[]"]) auto
    then show ?thesis using 2 all_bearers_used(3) [OF l] by (simp add: stuck_def)
  qed
qed

section \<open>New sessions of a UE\<close>

definition session_qos_ok :: "drb list \<Rightarrow> rrc_pdu_session \<Rightarrow> bool" where
  "session_qos_ok l s =
     (case p_qos s of
        None \<Rightarrow> True
      | Some flows \<Rightarrow> mux_ok (pdusession_id s) l flows \<and> (\<forall>f\<in>set flows. qf_drb_id f \<noteq> 0))"

text \<open>The arrays of bearers and sessions have not been shrunk; the flows share bearers as they should.\<close>

definition ue_qos_ok :: "gNB_RRC_UE \<Rightarrow> bool" where
  "ue_qos_ok ue \<longleftrightarrow> drb_arr_ok (drb_arr ue) \<and>
     space_ok SIZEOF_rrc_pdu_session_param_t (length (pduSessions ue)) (sessions_space ue) \<and>
     distinct (map pdusession_id (pduSessions ue)) \<and>
     (\<forall>s\<in>set (pduSessions ue). session_qos_ok (drbs ue) s)"

definition default_drb_ok :: "rrc_pdu_session \<Rightarrow> bool" where
  "default_drb_ok s \<longleftrightarrow> p_default_drb s =
     (case find (\<lambda>f. default_profile (qf_qos f)) (the (p_qos s)) of None \<Rightarrow> 0 | Some f \<Rightarrow> qf_drb_id f)"

definition new_flows :: "nr_rrc_qos list \<Rightarrow> bool" where
  "new_flows qos \<longleftrightarrow> (\<forall>f\<in>set qos. profile_ok (qf_qos f) \<and> qf_drb_id f = 0)"

type_synonym session_request = "int \<times> byte list \<times> nr_rrc_qos arr"

definition request_ok :: "session_request \<Rightarrow> bool" where
  "request_ok x = (case x of (sid, nas, qos) \<Rightarrow> 0 < sid \<and> sid \<le> NR_MAX_NB_PDU_SESSIONS \<and> new_flows (fst qos))"

text \<open>The requests that lead to a session: those for new identities, as long as there is room.\<close>

fun taken :: "int list \<Rightarrow> session_request list \<Rightarrow> session_request list" where
  "taken ids [] = []"
| "taken ids ((sid, nas, qos) # ss) =
     (if int (length ids) = NR_MAX_NB_PDU_SESSIONS \<or> sid \<in> set ids then taken ids ss
      else (sid, nas, qos) # taken (ids @ [sid]) ss)"

text \<open>A session for a request: it has the flows of the request, which differ only in their bearers.\<close>

definition session_of :: "session_request \<Rightarrow> rrc_pdu_session \<Rightarrow> bool" where
  "session_of x s = (case x of (sid, nas, qos) \<Rightarrow>
     pdusession_id s = sid \<and> p_nas_pdu s = nas \<and> p_status s = PDU_SESSION_STATUS_NEW \<and> p_xid s = -1 \<and>
     p_qos_space s = snd qos \<and> (\<exists>flows. p_qos s = Some flows \<and> map unassigned flows = fst qos))"

text \<open>
  The UE has got a session for each of the requests, and for these sessions bearers that are all
  used by a flow; nothing else has changed.
\<close>

definition sessions_added :: "session_request list \<Rightarrow> gNB_RRC_UE \<Rightarrow> gNB_RRC_UE \<Rightarrow> bool" where
  "sessions_added ss ue ue' \<longleftrightarrow>
     (\<exists>new ext. pduSessions ue' = pduSessions ue @ new \<and> list_all2 session_of ss new \<and>
        (\<forall>s\<in>set new. default_drb_ok s) \<and> drbs ue' = drbs ue @ ext \<and>
        (\<forall>d\<in>set ext. \<exists>s\<in>set new. drb_pdusession d = pdusession_id s \<and>
           (\<exists>f\<in>set (the (p_qos s)). qf_drb_id f = drb_id d))) \<and>
     ue' = put_session_arr (session_arr ue') (put_drb_arr (drb_arr ue') ue)"

lemma sessions_added_none: "sessions_added [] ue ue"
  by (simp add: sessions_added_def put_session_arr_def put_drb_arr_def)

lemma sessions_added_Cons:
  assumes "sessions_added [x] ue ue1" "sessions_added ss ue1 ue'"
  shows "sessions_added (x # ss) ue ue'"
proof -
  obtain s ext where s: "pduSessions ue1 = pduSessions ue @ [s]" "session_of x s" "default_drb_ok s"
    "drbs ue1 = drbs ue @ ext"
    "\<forall>d\<in>set ext. drb_pdusession d = pdusession_id s \<and> (\<exists>f\<in>set (the (p_qos s)). qf_drb_id f = drb_id d)"
    "ue1 = put_session_arr (session_arr ue1) (put_drb_arr (drb_arr ue1) ue)"
    using assms(1) by (auto simp: sessions_added_def list_all2_Cons1)
  obtain new ext' where n: "pduSessions ue' = pduSessions ue1 @ new" "list_all2 session_of ss new"
    "\<forall>s\<in>set new. default_drb_ok s" "drbs ue' = drbs ue1 @ ext'"
    "\<forall>d\<in>set ext'. \<exists>s\<in>set new. drb_pdusession d = pdusession_id s \<and> (\<exists>f\<in>set (the (p_qos s)). qf_drb_id f = drb_id d)"
    "ue' = put_session_arr (session_arr ue') (put_drb_arr (drb_arr ue') ue1)"
    using assms(2) by (auto simp: sessions_added_def)
  have "put_session_arr a (put_drb_arr b ue1) = put_session_arr a (put_drb_arr b ue)" for a b
    by (subst s(6)) (simp add: put_session_arr_def put_drb_arr_def)
  then have "ue' = put_session_arr (session_arr ue') (put_drb_arr (drb_arr ue') ue)" using n(6) by simp
  moreover have "\<forall>d\<in>set (ext @ ext'). \<exists>t\<in>set (s # new). drb_pdusession d = pdusession_id t \<and>
      (\<exists>f\<in>set (the (p_qos t)). qf_drb_id f = drb_id d)" using s(5) n(5) by auto
  ultimately show ?thesis
    using s(1-4) n(1-4) unfolding sessions_added_def
    by (intro conjI exI [of _ "s # new"] exI [of _ "ext @ ext'"]) simp_all
qed

text \<open>
  Why an addition fails: in the state that the requests and flows before it lead to, a flow of a
  new session needs a further bearer, and all identities are in use.
\<close>

definition request_stuck :: "session_request \<Rightarrow> gNB_RRC_UE \<Rightarrow> bool" where
  "request_stuck x ue = (case x of (sid, nas, qos) \<Rightarrow>
     sid \<notin> pdusession_id ` set (pduSessions ue) \<and>
     (\<exists>k<length (fst qos). \<exists>a flows d. stuck sid (fst a) flows k \<and>
        assign_flows sid [0..<k] (drb_arr ue, fst qos, 0, False) = Inr (a, flows, d)))"

definition bearers_exhausted :: "session_request list \<Rightarrow> gNB_RRC_UE \<Rightarrow> bool" where
  "bearers_exhausted ss ue \<longleftrightarrow>
     (\<exists>pre x post ue1. ss = pre @ x # post \<and> nr_rrc_add_bearers pre ue = Inr ue1 \<and> request_stuck x ue1)"

lemma upt_split:
  assumes eq: "[0..<n] = xs @ k # ys"
  shows "xs = [0..<k] \<and> k < n"
proof -
  have "n = length xs + Suc (length ys)" using arg_cong [OF eq, of length] by simp
  then have len: "length xs < n" by simp
  have "[0..<n] ! length xs = k" by (simp add: eq)
  then have k: "k = length xs" using len by simp
  have "take (length xs) [0..<n] = xs" by (simp add: eq)
  then show ?thesis using len k by simp
qed

lemma bearers_exhausted_here:
  assumes "flow_stuck sid [0..<length (fst qos)] (drb_arr ue, fst qos, 0, False)"
    "sid \<notin> pdusession_id ` set (pduSessions ue)"
  shows "bearers_exhausted ((sid, nas, qos) # ss) ue"
proof -
  obtain ks1 k ks2 a flows d where split: "[0..<length (fst qos)] = ks1 @ k # ks2"
    and "assign_flows sid ks1 (drb_arr ue, fst qos, 0, False) = Inr (a, flows, d)" "stuck sid (fst a) flows k"
    using assms(1) unfolding flow_stuck_def by blast
  then have "request_stuck (sid, nas, qos) ue"
    using assms(2) upt_split [OF split] unfolding request_stuck_def by blast
  then show ?thesis unfolding bearers_exhausted_def by (intro exI [of _ "[]"]) simp
qed

lemma bearers_exhausted_later:
  assumes "\<And>rest. nr_rrc_add_bearers (x # rest) ue = nr_rrc_add_bearers rest ue1" "bearers_exhausted ss ue1"
  shows "bearers_exhausted (x # ss) ue"
  using assms unfolding bearers_exhausted_def by (metis append_Cons)

lemma mux_ok_mono: "mux_ok sid l flows \<Longrightarrow> set l \<subseteq> set l' \<Longrightarrow> mux_ok sid l' flows"
  unfolding mux_ok_def by blast

lemma session_qos_ok_mono: "session_qos_ok l s \<Longrightarrow> set l \<subseteq> set l' \<Longrightarrow> session_qos_ok l' s"
  by (auto simp: session_qos_ok_def intro: mux_ok_mono split: option.splits)

lemma new_flows_mux: "new_flows qos \<Longrightarrow> mux_ok sid l qos"
proof -
  assume "new_flows qos"
  moreover from this have "n_on P i qos = 0" if "i \<noteq> 0" for P i
    using that by (auto simp: new_flows_def n_on_def filter_empty_conv)
  ultimately show ?thesis by (auto simp: mux_ok_def load_ok_def new_flows_def)
qed

lemma find_map: "find P (map g xs) = map_option g (find (\<lambda>x. P (g x)) xs)"
  by (induction xs) auto

lemma default_of_all:
  "default_of 0 False flows [0..<length flows] =
     (case find (\<lambda>f. default_profile (qf_qos f)) flows of None \<Rightarrow> 0 | Some f \<Rightarrow> qf_drb_id f)"
  using find_map [of "\<lambda>f. default_profile (qf_qos f)" "nth flows" "[0..<length flows]"]
  by (auto simp: default_of_def map_nth split: option.splits)

lemma find_new_session:
  "sid \<notin> pdusession_id ` set ss \<Longrightarrow> pdusession_id s = sid \<Longrightarrow> find_pduSession (ss @ [s]) sid = Some s"
  by (induction ss) (auto simp: find_pduSession_def)

lemma add_pduSession_eq:
  fixes sid :: int and nas :: "byte list" and qos :: "nr_rrc_qos arr option"
  assumes "space_ok SIZEOF_rrc_pdu_session_param_t (length ss) sp"
  defines "s \<equiv> new_session sid nas qos"
  shows "add_pduSession (ss, sp) sid nas qos =
    (if int (length ss) = NR_MAX_NB_PDU_SESSIONS \<or> sid \<in> pdusession_id ` set ss then Inr (None, (ss, sp))
     else Inr (Some s, (ss @ [s], space_expand SIZEOF_rrc_pdu_session_param_t (length ss) sp)))"
proof -
  have "find_pduSession ss sid = None \<longleftrightarrow> sid \<notin> pdusession_id ` set ss"
    by (auto simp: find_pduSession_def find_None_iff)
  moreover have "find_pduSession (ss @ [s]) sid = Some s" if "sid \<notin> pdusession_id ` set ss"
    using that by (intro find_new_session) (simp_all add: s_def new_session_def)
  ultimately show ?thesis
    using arr_push_ok [OF assms(1), of s] by (simp add: add_pduSession_def assertr_def flip: s_def)
qed

lemma put_session_last:
  assumes "pdusession_id s \<notin> pdusession_id ` set ss" "pdusession_id t = pdusession_id s"
  shows "put_session s (ss @ [t]) = ss @ [s]"
  using assms by (induction ss) (auto simp: put_session_def)

text \<open>A request that is taken, with the bearers of its flows.\<close>

lemma session_added:
  fixes ue :: gNB_RRC_UE and nas :: "byte list"
  assumes ue: "ue_qos_ok ue" and fresh: "sid \<notin> pdusession_id ` set (pduSessions ue)" and qos: "new_flows (fst qos)"
    and a: "drb_arr_ok a" "flows_assigned sid (drbs ue) (fst qos) [0..<length (fst qos)] (fst a) flows"
  defines "s \<equiv> (new_session sid nas (Some qos))
      \<lparr>p_qos := Some flows, p_default_drb := default_of 0 False flows [0..<length (fst qos)]\<rparr>"
    and "sp \<equiv> space_expand SIZEOF_rrc_pdu_session_param_t (length (pduSessions ue)) (sessions_space ue)"
  defines "ue' \<equiv> put_session_arr (pduSessions ue @ [s], sp) (put_drb_arr a ue)"
  shows "ue_qos_ok ue'" "sessions_added [(sid, nas, qos)] ue ue'"
proof -
  have fields: "drbs ue' = fst a" "drbs_space ue' = snd a" "pduSessions ue' = pduSessions ue @ [s]"
    "sessions_space ue' = sp" "pdusession_id s = sid" "p_qos s = Some flows"
    by (simp_all add: ue'_def put_session_arr_def put_drb_arr_def s_def new_session_def)
  obtain ext where ext: "fst a = drbs ue @ ext"
    "\<forall>d\<in>set ext. drb_pdusession d = sid \<and> (\<exists>k\<in>set [0..<length (fst qos)]. qf_drb_id (flows ! k) = drb_id d)"
    using a(2) unfolding flows_assigned_def by blast
  have same: "map unassigned flows = map unassigned (fst qos)" using a(2) by (simp add: flows_assigned_def)
  then have len: "length flows = length (fst qos)" by (rule map_eq_imp_length_eq)
  have "qf_drb_id f \<noteq> 0" if "f \<in> set flows" for f
    using that a(2) len by (auto simp: flows_assigned_def in_set_conv_nth)
  then have "session_qos_ok (fst a) s" using a(2) fields(5,6) by (simp add: session_qos_ok_def flows_assigned_def)
  moreover have "space_ok SIZEOF_rrc_pdu_session_param_t (Suc (length (pduSessions ue))) sp"
    using ue space_expand_ok by (auto simp: ue_qos_ok_def sp_def)
  moreover have "drb_arr_ok (drb_arr ue')" using a(1) fields(1,2) by simp
  ultimately show "ue_qos_ok ue'"
    using ue fresh ext(1) session_qos_ok_mono [of "drbs ue" _ "fst a"] fields by (auto simp: ue_qos_ok_def)
  have "map unassigned (fst qos) = fst qos" using qos by (intro map_idI) (simp add: new_flows_def unassigned_def)
  then have "session_of (sid, nas, qos) s" using same by (simp add: session_of_def s_def new_session_def)
  moreover have "default_drb_ok s" using default_of_all [of flows] len by (simp add: default_drb_ok_def s_def)
  moreover have "\<exists>f\<in>set flows. qf_drb_id f = drb_id d" if "d \<in> set ext" for d
    using that ext(2) len by (metis atLeastLessThan_iff nth_mem set_upt)
  moreover have "ue' = put_session_arr (session_arr ue') (put_drb_arr (drb_arr ue') ue)"
    by (simp add: ue'_def put_session_arr_def put_drb_arr_def)
  ultimately show "sessions_added [(sid, nas, qos)] ue ue'"
    using fields ext unfolding sessions_added_def by (intro conjI exI [of _ "[s]"] exI [of _ ext]) auto
qed

lemma add_bearers_step:
  assumes ue: "ue_qos_ok ue" and x: "request_ok (sid, nas, qos)"
    and fresh: "int (length (pduSessions ue)) \<noteq> NR_MAX_NB_PDU_SESSIONS" "sid \<notin> pdusession_id ` set (pduSessions ue)"
  shows "(\<exists>ue'. (\<forall>ss. nr_rrc_add_bearers ((sid, nas, qos) # ss) ue = nr_rrc_add_bearers ss ue') \<and> ue_qos_ok ue' \<and>
      sessions_added [(sid, nas, qos)] ue ue' \<and> map pdusession_id (pduSessions ue') = map pdusession_id (pduSessions ue) @ [sid] \<and>
      length (drbs ue') \<le> length (drbs ue) + length (fst qos)) \<or>
    (\<forall>ss. nr_rrc_add_bearers ((sid, nas, qos) # ss) ue = Inl Assert_failed \<and>
       bearers_exhausted ((sid, nas, qos) # ss) ue) \<and> MAX_DRBS_PER_UE < int (length (drbs ue) + length (fst qos))"
proof -
  let ?ks = "[0..<length (fst qos)]" and ?s = "new_session sid nas (Some qos)"
  let ?sp = "space_expand SIZEOF_rrc_pdu_session_param_t (length (pduSessions ue)) (sessions_space ue)"
  have sid: "0 < sid" "sid \<le> NR_MAX_NB_PDU_SESSIONS" and qos: "new_flows (fst qos)"
    using x by (simp_all add: request_ok_def)
  have b: "drb_arr_ok (drb_arr ue)" using ue by (simp add: ue_qos_ok_def)
  have add: "add_pduSession (session_arr ue) sid nas (Some qos) = Inr (Some ?s, (pduSessions ue @ [?s], ?sp))"
    using add_pduSession_eq [of "pduSessions ue" "sessions_space ue"] ue fresh by (simp add: ue_qos_ok_def)
  have new: "\<forall>k\<in>set ?ks. k < length (fst qos) \<and> qf_drb_id (fst qos ! k) = 0"
    using qos by (simp add: new_flows_def)
  consider a flows ds where "assign_flows sid ?ks (drb_arr ue, fst qos, 0, False) =
        Inr (a, flows, default_of 0 False flows ?ks, ds)" "drb_arr_ok a"
        "flows_assigned sid (drbs ue) (fst qos) ?ks (fst a) flows"
    | "assign_flows sid ?ks (drb_arr ue, fst qos, 0, False) = Inl Assert_failed"
      "flow_stuck sid ?ks (drb_arr ue, fst qos, 0, False)" "MAX_DRBS_PER_UE < int (length (drbs ue) + length (fst qos))"
    using assign_flows_ok [OF _ b sid distinct_upt new, of 0 False] new_flows_mux [OF qos] by auto
  then show ?thesis
  proof cases
    case 1
    let ?t = "?s\<lparr>p_qos := Some flows, p_default_drb := default_of 0 False flows ?ks\<rparr>"
    let ?ue = "put_session_arr (pduSessions ue @ [?t], ?sp) (put_drb_arr a ue)"
    have put: "put_session ?t (pduSessions ue @ [?s]) = pduSessions ue @ [?t]"
      using fresh(2) by (intro put_session_last) (simp_all add: new_session_def)
    have step: "nr_rrc_add_bearers ((sid, nas, qos) # ss) ue = nr_rrc_add_bearers ss ?ue" for ss
      using add 1(1) put by simp
    have "length (drbs ?ue) \<le> length (drbs ue) + length (fst qos)"
      using 1(3) by (auto simp: flows_assigned_def put_session_arr_def put_drb_arr_def)
    moreover have "map pdusession_id (pduSessions ?ue) = map pdusession_id (pduSessions ue) @ [sid]"
      by (simp add: put_session_arr_def new_session_def)
    ultimately show ?thesis using step session_added [OF ue fresh(2) qos 1(2,3), of nas] by blast
  next
    case 2
    then show ?thesis using add bearers_exhausted_here [OF 2(2) fresh(2)] by simp
  qed
qed

lemma add_bearers_ok:
  assumes "ue_qos_ok ue" "\<forall>x\<in>set ss. request_ok x"
  shows "(\<exists>ue'. nr_rrc_add_bearers ss ue = Inr ue' \<and> ue_qos_ok ue' \<and>
      sessions_added (taken (map pdusession_id (pduSessions ue)) ss) ue ue') \<or>
    nr_rrc_add_bearers ss ue = Inl Assert_failed \<and> bearers_exhausted ss ue \<and>
      MAX_DRBS_PER_UE < int (length (drbs ue) + (\<Sum>(sid, nas, qos)\<leftarrow>ss. length (fst qos)))"
  using assms
proof (induction ss arbitrary: ue)
  case Nil
  then show ?case by (simp add: sessions_added_none)
next
  case (Cons x ss)
  obtain sid nas qos where x: "x = (sid, nas, qos)" by (cases x) auto
  have rest: "\<forall>x\<in>set ss. request_ok x" and req: "request_ok (sid, nas, qos)" using Cons.prems(2) x by auto
  show ?case
  proof (cases "int (length (pduSessions ue)) = NR_MAX_NB_PDU_SESSIONS \<or> sid \<in> pdusession_id ` set (pduSessions ue)")
    case True
    then have step: "nr_rrc_add_bearers (x # ss) ue = nr_rrc_add_bearers ss ue" for ss
      using add_pduSession_eq [of "pduSessions ue" "sessions_space ue"] Cons.prems(1) by (simp add: x ue_qos_ok_def)
    have "taken (map pdusession_id (pduSessions ue)) (x # ss) = taken (map pdusession_id (pduSessions ue)) ss"
      using True by (simp add: x)
    then show ?thesis
      using Cons.IH [OF Cons.prems(1) rest] bearers_exhausted_later [OF step, of ss] unfolding step
      by (auto simp: x)
  next
    case False
    then have t: "taken (map pdusession_id (pduSessions ue)) (x # ss) =
        x # taken (map pdusession_id (pduSessions ue) @ [sid]) ss" by (simp add: x)
    consider ue' where "\<forall>ss. nr_rrc_add_bearers (x # ss) ue = nr_rrc_add_bearers ss ue'" "ue_qos_ok ue'"
        "sessions_added [x] ue ue'" "map pdusession_id (pduSessions ue') = map pdusession_id (pduSessions ue) @ [sid]"
        "length (drbs ue') \<le> length (drbs ue) + length (fst qos)"
      | "nr_rrc_add_bearers (x # ss) ue = Inl Assert_failed" "bearers_exhausted (x # ss) ue"
        "MAX_DRBS_PER_UE < int (length (drbs ue) + length (fst qos))"
      using add_bearers_step [OF Cons.prems(1) req] False unfolding x by blast
    then show ?thesis
    proof cases
      case 1
      have step: "nr_rrc_add_bearers (x # ss) ue = nr_rrc_add_bearers ss ue'" for ss using 1(1) by blast
      from Cons.IH [OF 1(2) rest] show ?thesis
        unfolding step t using 1(4,5) sessions_added_Cons [OF 1(3)] bearers_exhausted_later [OF step]
        by (auto simp: x)
    next
      case 2
      then show ?thesis by (auto simp: x)
    qed
  qed
qed

text \<open>
  C17: Mapping of QoS flows to bearers. Sessions with flows whose identifiers are in range and that
  have no bearer yet are added to a UE whose bearers and sessions are in order. Then the UE has,
  behind its old ones, exactly one new session for each request whose identity it did not have (in
  the order of the requests, 256 sessions at most), with the flows of the request; every flow has
  got a bearer of its session and has not changed otherwise; the new bearers come behind the old
  ones, each is used by a flow of a new session, and nothing else of the UE has changed. A flow that
  is delay critical, without a standardised identifier or otherwise isolated is the only one on its
  bearer; the others share bearers with at most five flows, at most two of them with guaranteed bit
  rate. The default bearer of a new session is that of its first non-dynamic flow without
  guaranteed bit rate, 0 without such a flow. The addition fails, with an assertion, only when it
  comes to a flow that needs a further bearer (one that must be alone, or that no bearer of its
  session takes) while all 32 identities are in use; it does not fail if the bearers of the UE and
  the flows of the requests are at most 32.
\<close>

theorem qos_flows_share_bearers:
  assumes "ue_qos_ok ue" and "\<forall>x\<in>set ss. request_ok x"
  shows "(\<exists>ue'. nr_rrc_add_bearers ss ue = Inr ue' \<and>
      sessions_added (taken (map pdusession_id (pduSessions ue)) ss) ue ue' \<and> bearers_ok (drbs ue') \<and>
      (\<forall>s\<in>set (pduSessions ue'). \<forall>flows. p_qos s = Some flows \<longrightarrow>
        (\<forall>f\<in>set flows. \<exists>d\<in>set (drbs ue'). drb_id d = qf_drb_id f \<and> drb_pdusession d = pdusession_id s) \<and>
        (\<forall>i. i \<noteq> 0 \<longrightarrow> load_ok flows i))) \<or>
    nr_rrc_add_bearers ss ue = Inl Assert_failed \<and> bearers_exhausted ss ue \<and>
      MAX_DRBS_PER_UE < int (length (drbs ue) + (\<Sum>(sid, nas, qos)\<leftarrow>ss. length (fst qos)))"
proof -
  have "bearers_ok (drbs ue') \<and> (\<forall>s\<in>set (pduSessions ue'). \<forall>flows. p_qos s = Some flows \<longrightarrow>
      (\<forall>f\<in>set flows. \<exists>d\<in>set (drbs ue'). drb_id d = qf_drb_id f \<and> drb_pdusession d = pdusession_id s) \<and>
      (\<forall>i. i \<noteq> 0 \<longrightarrow> load_ok flows i))" if "ue_qos_ok ue'" for ue' :: gNB_RRC_UE
    using that by (fastforce simp: ue_qos_ok_def session_qos_ok_def mux_ok_def drb_arr_ok_def)
  with add_bearers_ok [OF assms] show ?thesis by blast
qed

definition sample_profile :: "byte \<Rightarrow> u16 \<Rightarrow> qos_parameter" where
  "sample_profile qfi v =
     \<lparr>qp_qfi = qfi, qp_characteristics = NON_DYNAMIC v None,
      qp_arp = \<lparr>arp_priority_level = 8, pre_emp_capability = 0, pre_emp_vulnerability = 0\<rparr>\<rparr>"

definition sample_request :: session_request where
  "sample_request = (5, [],
     map (\<lambda>(qfi, v). \<lparr>qf_drb_id = 0, qf_qos = sample_profile qfi v, qf_ngap_pending = False\<rparr>) [(1, 1), (2, 2), (3, 9)],
     init_space SIZEOF_nr_rrc_qos_t)"

theorem qos_flows_share_bearers_witness:
  "\<exists>ue' s flows. nr_rrc_add_bearers [sample_request]
      (sample_ue\<lparr>drbs := [], pduSessions := []\<rparr>) = Inr ue' \<and> bearers_ok (drbs ue') \<and>
     pduSessions ue' = [s] \<and> pdusession_id s = 5 \<and> p_qos s = Some flows \<and>
     map (qp_qfi \<circ> qf_qos) flows = [1, 2, 3]"
proof -
  let ?ue = "sample_ue\<lparr>drbs := [], pduSessions := []\<rparr>"
  have ue: "ue_qos_ok ?ue"
    by (simp add: ue_qos_ok_def drb_arr_ok_def bearers_ok_def sample_ue_def init_space_ok)
      (simp add: init_space_def MIN_SIZE_def)
  have ss: "\<forall>x\<in>set [sample_request]. request_ok x"
    by (simp add: sample_request_def request_ok_def new_flows_def profile_ok_def sample_profile_def standardized_def
      is_5qi_standardized_def assertr_def MAX_FIVEQI_def MAX_STANDARDIZED_FIVEQI_def NR_MAX_NB_PDU_SESSIONS_def)
  have "taken (map pdusession_id (pduSessions ?ue)) [sample_request] = [sample_request]"
    by (simp add: sample_request_def NR_MAX_NB_PDU_SESSIONS_def)
  with qos_flows_share_bearers [OF ue ss] obtain ue' where ue': "nr_rrc_add_bearers [sample_request] ?ue = Inr ue'"
    "sessions_added [sample_request] ?ue ue'" "bearers_ok (drbs ue')"
    by (auto simp: MAX_DRBS_PER_UE_def sample_request_def)
  from ue'(2) obtain s flows where s: "pduSessions ue' = [s]" "pdusession_id s = 5" "p_qos s = Some flows"
    "map unassigned flows = fst (snd (snd sample_request))"
    by (auto simp: sessions_added_def list_all2_Cons1 session_of_def sample_request_def)
  have "map (qp_qfi \<circ> qf_qos) flows = map (qp_qfi \<circ> qf_qos) (map unassigned flows)" by (simp add: unassigned_def)
  also have "\<dots> = [1, 2, 3]" by (simp only: s(4)) (simp add: sample_request_def sample_profile_def)
  finally have "map (qp_qfi \<circ> qf_qos) flows = [1, 2, 3]" .
  with ue' s show ?thesis by (intro exI [of _ ue'] exI [of _ s] exI [of _ flows]) simp
qed

end
