(* ===== verification/Nr_Rrc_Modify_Props.thy ===== *)
theory Nr_Rrc_Modify_Props
  imports Nr_Rrc_Modify Nr_Rrc_Qos_Props Nr_Rrc_Conn
begin

text \<open>
  What the modification of sessions does: the removal of a bearer that lost its flows, the request
  for a session the UE does not have, and a modification that breaks the rules on shared bearers.
\<close>

section \<open>The loop over the bearers\<close>

text \<open>A bearer the loop leaves alone: of another session, or still used and not marked.\<close>

definition quiet :: "int \<Rightarrow> nr_rrc_qos list \<Rightarrow> bool list \<Rightarrow> drb \<Rightarrow> bool" where
  "quiet sid flows marks d \<longleftrightarrow> (drb_pdusession d = sid \<longrightarrow>
     (\<exists>f\<in>set flows. qf_drb_id f = drb_id d) \<and> marked_drb marks (drb_id d) = Inr False)"

lemma refresh_quiet_step:
  assumes "k < length (fst a)" "quiet sid flows marks (fst a ! k)"
  shows "e1_refresh_bearers sid flows marks k a m = e1_refresh_bearers sid flows marks (Suc k) a m"
  using assms by (subst e1_refresh_bearers.simps) (auto simp: Let_def quiet_def)

lemma refresh_quiet:
  assumes "k \<le> j" "j \<le> length (fst a)" "\<And>i. k \<le> i \<Longrightarrow> i < j \<Longrightarrow> quiet sid flows marks (fst a ! i)"
  shows "e1_refresh_bearers sid flows marks k a m = e1_refresh_bearers sid flows marks j a m"
  using assms
proof (induction "j - k" arbitrary: k)
  case (Suc n)
  then have "e1_refresh_bearers sid flows marks k a m = e1_refresh_bearers sid flows marks (Suc k) a m"
    by (intro refresh_quiet_step) auto
  also have "\<dots> = e1_refresh_bearers sid flows marks j a m"
    using Suc by (intro Suc.hyps(1)) auto
  finally show ?case .
qed simp

lemma refresh_quiet_end:
  assumes "k \<le> length (fst a)" "\<forall>d\<in>set (drop k (fst a)). quiet sid flows marks d"
  shows "e1_refresh_bearers sid flows marks k a m = Inr (a, m)"
proof -
  have "quiet sid flows marks (fst a ! i)" if "k \<le> i" "i < length (fst a)" for i
  proof -
    have "fst a ! i = drop k (fst a) ! (i - k)" "i - k < length (drop k (fst a))" using that by auto
    then show ?thesis using assms(2) by (metis nth_mem)
  qed
  then have "e1_refresh_bearers sid flows marks k a m = e1_refresh_bearers sid flows marks (length (fst a)) a m"
    using assms(1) by (intro refresh_quiet) auto
  then show ?thesis by (subst (asm) (2) e1_refresh_bearers.simps) simp
qed

lemma remove_drb_mid:
  assumes "drb_arr_ok (pre @ d # post, sp)"
  shows "nr_rrc_remove_drb_by_id (pre @ d # post, sp) (drb_id d) =
    (if erase_overflows SIZEOF_drb_t (pre @ d # post, sp) then Inl Out_of_bounds else Inr (True, (pre @ post, sp)))"
proof -
  have l: "bearers_ok (pre @ d # post)" using assms by (simp add: drb_arr_ok_def)
  then have "drb_id d \<notin> drb_id ` set pre" by (simp add: bearers_ok_def)
  then have "\<forall>e\<in>set pre. drb_id e \<noteq> drb_id d" by (metis imageI)
  then have find: "find_index (\<lambda>e. drb_id e = drb_id d) (pre @ d # post) = Some (length pre)"
    "find (\<lambda>e. drb_id e = drb_id d) (pre @ d # post) = Some d"
    by (induction pre) auto
  have less: "length pre < length (pre @ d # post)" by simp
  have "arr_erase SIZEOF_drb_t (pre @ d # post, sp) (length pre) =
      (if erase_overflows SIZEOF_drb_t (pre @ d # post, sp) then Inl Out_of_bounds else Inr (pre @ post, sp))"
    using drb_erase(1) [OF assms less] arr_erase_any [OF less, of SIZEOF_drb_t sp] by (auto split: if_splits)
  then show ?thesis
    using l find by (simp add: nr_rrc_remove_drb_by_id_def get_drb_def assertr_def bearers_ok_def)
qed

lemma refresh_one_unused:
  assumes a: "drb_arr_ok (pre @ d # post, sp)"
    and d: "drb_pdusession d = sid" "\<forall>f\<in>set flows. qf_drb_id f \<noteq> drb_id d"
    and q: "\<forall>e\<in>set (pre @ post). quiet sid flows marks e" and m: "em_remove m = []"
  shows "e1_refresh_bearers sid flows marks 0 (pre @ d # post, sp) m =
    (if post = [] \<or> erase_overflows SIZEOF_drb_t (pre @ d # post, sp) then Inl Out_of_bounds
     else Inr ((pre @ post, sp), m\<lparr>em_remove := [drb_id (hd post)]\<rparr>))"
proof -
  let ?k = "length pre"
  have "quiet sid flows marks ((pre @ d # post) ! i)" if "i < ?k" for i
    using that q by (simp add: nth_append)
  then have "e1_refresh_bearers sid flows marks 0 (pre @ d # post, sp) m =
      e1_refresh_bearers sid flows marks ?k (pre @ d # post, sp) m"
    by (intro refresh_quiet) auto
  also have "\<dots> = (if erase_overflows SIZEOF_drb_t (pre @ d # post, sp) then Inl Out_of_bounds
      else e1_refresh_bearers sid flows marks (Suc ?k) (pre @ post, sp)
        (m\<lparr>em_remove := [if post = [] then 0 else drb_id (hd post)]\<rparr>))"
    using d m by (subst e1_refresh_bearers.simps)
      (auto simp: Let_def remove_drb_mid [OF a] assertr_def E1AP_MAX_NUM_DRBS_def nth_append hd_conv_nth)
  finally have step: "e1_refresh_bearers sid flows marks 0 (pre @ d # post, sp) m =
      (if erase_overflows SIZEOF_drb_t (pre @ d # post, sp) then Inl Out_of_bounds
       else e1_refresh_bearers sid flows marks (Suc ?k) (pre @ post, sp)
         (m\<lparr>em_remove := [if post = [] then 0 else drb_id (hd post)]\<rparr>))" .
  show ?thesis
  proof (cases post)
    case Nil
    then show ?thesis unfolding step by (subst e1_refresh_bearers.simps) simp
  next
    case (Cons e post')
    then show ?thesis unfolding step using q by (subst refresh_quiet_end) auto
  qed
qed

section \<open>Removal of a bearer\<close>

lemma find_index_snoc:
  "\<forall>y\<in>set l. \<not> P y \<Longrightarrow> P x \<Longrightarrow> find_index P (l @ [x]) = Some (length l)"
  by (induction l) auto

lemma first_default_ok:
  "\<forall>f\<in>set flows. profile_ok (qf_qos f) \<Longrightarrow> \<exists>i. first_default_drb flows = Inr i"
  by (induction flows) (auto simp: default_flow_ok)

text \<open>The flags after one bearer has been marked.\<close>

lemma mark_drb_ok:
  assumes "0 < i" "i \<le> MAX_DRBS_PER_UE"
  shows "\<exists>marks. mark_drb (replicate (nat MAX_DRBS_PER_UE + 1) False) i = Inr marks \<and>
    (\<forall>j. 0 < j \<and> j \<le> MAX_DRBS_PER_UE \<and> j \<noteq> i \<longrightarrow> marked_drb marks j = Inr False)"
  using assms by (auto simp: mark_drb_def marked_drb_def MAX_DRBS_PER_UE_def nth_list_update)

lemma release_one:
  assumes "find_qos flows (uint qfi) = Some k" "uint qfi \<le> 63" "mark_drb marks (qf_drb_id (flows ! k)) = Inr marks'"
  shows "if erase_overflows SIZEOF_nr_rrc_qos_t (flows, sp)
    then nr_rrc_apply_qos_release [qfi] (flows, sp) marks = Inl Out_of_bounds
    else \<exists>sp'. nr_rrc_apply_qos_release [qfi] (flows, sp) marks = Inr ((take k flows @ drop (Suc k) flows, sp'), marks')"
proof -
  have "k < length flows" using find_index_SomeD [OF assms(1) [unfolded find_qos_def]] by simp
  from arr_erase_any [OF this, of SIZEOF_nr_rrc_qos_t sp] show ?thesis
    using assms by (auto simp: rm_qos_def split: if_splits)
qed

lemma send_e1_new_entry:
  assumes "\<forall>m\<in>set e1. em_session m \<noteq> sid" "em_session m = sid"
  shows "nr_rrc_send_e1_after_qos_update sid flows marks l (e1 @ [m]) =
    bindr (e1_refresh_bearers sid flows marks 0 l m) (\<lambda>(l, m). Inr (l, e1 @ [m]))"
  using find_index_snoc [of e1 "\<lambda>m. em_session m = sid" m] assms
  by (simp add: nr_rrc_send_e1_after_qos_update_def find_or_add_pdu_session_mod_def nth_append
    list_update_append split_def)

lemma update_release_only:
  assumes x: "mi_add_modify x = []" "mi_release x = [qfi]" "uint qfi \<le> 63"
    and s: "p_qos s = Some flows" "find_qos flows (uint qfi) = Some k" "\<forall>f\<in>set flows. profile_ok (qf_qos f)"
    and m: "mark_drb (replicate (nat MAX_DRBS_PER_UE + 1) False) (qf_drb_id (flows ! k)) = Inr marks"
    and e1: "int (length e1) < NR_MAX_NB_PDU_SESSIONS" "\<forall>m\<in>set e1. em_session m \<noteq> mi_session x"
  shows "if erase_overflows SIZEOF_nr_rrc_qos_t (flows, p_qos_space s)
    then nr_rrc_update_pdusession x s a e1 = Inl Out_of_bounds
    else \<exists>s'. nr_rrc_update_pdusession x s a e1 =
      bindr (e1_refresh_bearers (mi_session x) (take k flows @ drop (Suc k) flows) marks 0 a
          (new_session_mod (mi_session x)))
        (\<lambda>(a, m). Inr (s', a, e1 @ [m])) \<and>
    p_qos s' = Some (take k flows @ drop (Suc k) flows)"
proof -
  let ?flows = "take k flows @ drop (Suc k) flows"
  obtain i where i: "first_default_drb ?flows = Inr i"
    using s(3) first_default_ok [of ?flows] by (auto dest: in_set_takeD in_set_dropD)
  note defs = nr_rrc_update_pdusession_def Let_def assertr_def assert_some_def MAX_QOS_FLOWS_def
    new_session_mod_def bindr_assoc split_def
  show ?thesis
  proof (cases "erase_overflows SIZEOF_nr_rrc_qos_t (flows, p_qos_space s)")
    case True
    then show ?thesis
      using x s(1) e1 release_one [OF s(2) x(3) m, of "p_qos_space s"]
      by (simp add: defs del: nr_rrc_apply_qos_release.simps)
  next
    case False
    then obtain sp' where "nr_rrc_apply_qos_release [qfi] (flows, p_qos_space s)
        (replicate (nat MAX_DRBS_PER_UE + 1) False) = Inr ((?flows, sp'), marks)"
      using release_one [OF s(2) x(3) m, of "p_qos_space s"] by auto
    then show ?thesis
      using False x s(1) e1 i send_e1_new_entry [OF e1(2), of "new_session_mod (mi_session x)"]
      by (auto simp: defs simp del: nr_rrc_apply_qos_release.simps)
  qed
qed

text \<open>
  C39: Removal of a bearer without flows. A request for one session releases the only flow of a
  bearer of the session, the other bearers of the session are still used by its other flows. The
  loop over the bearers erases the bearer at its iterator and goes on with that iterator. When the
  bearer is the last one of the UE, the loop runs past the end of the array. Otherwise (unless one of
  the two erasures, of the flow or of the bearer, writes behind the block of an array it shrinks) the
  bearer is gone from the UE, but the E1 request that goes to the user plane names the bearer behind
  it in the list, one that is in use or of another session, as the one to remove.
\<close>

theorem unused_bearer_removal:
  assumes x: "mi_add_modify x = []" "mi_release x = [qfi]" "uint qfi \<le> 63"
    and s: "p_qos s = Some flows" "find_qos flows (uint qfi) = Some k" "\<forall>f\<in>set flows. profile_ok (qf_qos f)"
    and d: "qf_drb_id (flows ! k) = drb_id d" "drb_pdusession d = mi_session x" "drb_arr_ok (pre @ d # post, sp)"
    and only: "\<forall>f\<in>set (take k flows @ drop (Suc k) flows). qf_drb_id f \<noteq> drb_id d"
    and used: "\<forall>e\<in>set (pre @ post). drb_pdusession e = mi_session x \<longrightarrow>
      (\<exists>f\<in>set (take k flows @ drop (Suc k) flows). qf_drb_id f = drb_id e)"
    and e1: "int (length e1) < NR_MAX_NB_PDU_SESSIONS" "\<forall>m\<in>set e1. em_session m \<noteq> mi_session x"
  shows "if post = [] \<or> erase_overflows SIZEOF_nr_rrc_qos_t (flows, p_qos_space s) \<or>
        erase_overflows SIZEOF_drb_t (pre @ d # post, sp)
    then nr_rrc_update_pdusession x s (pre @ d # post, sp) e1 = Inl Out_of_bounds
    else drb_id (hd post) \<noteq> drb_id d \<and>
      (\<exists>s'. nr_rrc_update_pdusession x s (pre @ d # post, sp) e1 =
         Inr (s', (pre @ post, sp), e1 @ [(new_session_mod (mi_session x))\<lparr>em_remove := [drb_id (hd post)]\<rparr>]) \<and>
       p_qos s' = Some (take k flows @ drop (Suc k) flows))"
proof -
  let ?flows = "take k flows @ drop (Suc k) flows"
  have ids: "0 < drb_id d" "drb_id d \<le> MAX_DRBS_PER_UE" "drb_id d \<notin> drb_id ` set (pre @ post)"
    "\<forall>e\<in>set (pre @ post). 0 < drb_id e \<and> drb_id e \<le> MAX_DRBS_PER_UE"
    using d(3) by (auto simp: drb_arr_ok_def bearers_ok_def)
  obtain marks where m: "mark_drb (replicate (nat MAX_DRBS_PER_UE + 1) False) (drb_id d) = Inr marks"
    "\<forall>j. 0 < j \<and> j \<le> MAX_DRBS_PER_UE \<and> j \<noteq> drb_id d \<longrightarrow> marked_drb marks j = Inr False"
    using mark_drb_ok [OF ids(1,2)] by blast
  have "quiet (mi_session x) ?flows marks e" if "e \<in> set (pre @ post)" for e
  proof -
    have "drb_id e \<noteq> drb_id d" using that ids(3) by (metis imageI)
    then show ?thesis using that used ids(4) m(2) by (simp add: quiet_def)
  qed
  then have loop: "e1_refresh_bearers (mi_session x) ?flows marks 0 (pre @ d # post, sp) (new_session_mod (mi_session x)) =
      (if post = [] \<or> erase_overflows SIZEOF_drb_t (pre @ d # post, sp) then Inl Out_of_bounds
       else Inr ((pre @ post, sp), (new_session_mod (mi_session x))\<lparr>em_remove := [drb_id (hd post)]\<rparr>))"
    using refresh_one_unused [OF d(3,2) only] by (simp add: new_session_mod_def)
  have "drb_id (hd post) \<noteq> drb_id d" if "post \<noteq> []"
    using that ids(3) hd_in_set [OF that] by (metis Un_iff imageI set_append)
  then show ?thesis
    using update_release_only [OF x s _ e1, of marks "(pre @ d # post, sp)"] m(1) d(1) unfolding loop
    by (auto split: if_splits)
qed

definition sample_flow :: "byte \<Rightarrow> u16 \<Rightarrow> int \<Rightarrow> nr_rrc_qos" where
  "sample_flow qfi v i = \<lparr>qf_drb_id = i, qf_qos = sample_profile qfi v, qf_ngap_pending = False\<rparr>"

definition sample_drb :: "int \<Rightarrow> int \<Rightarrow> drb" where
  "sample_drb i sid = \<lparr>drb_id = i, drb_pdusession = sid, du_tunnel_config = no_tunnel\<rparr>"

definition sample_session :: "nr_rrc_qos list \<Rightarrow> rrc_pdu_session" where
  "sample_session flows =
     \<lparr>pdusession_id = 10, p_nas_pdu = [], p_status = PDU_SESSION_STATUS_ESTABLISHED, p_xid = 0,
      p_qos = Some flows, p_qos_space = init_space SIZEOF_nr_rrc_qos_t, p_default_drb = 0\<rparr>"

theorem unused_bearer_removal_witness:
  "nr_rrc_update_pdusession \<lparr>mi_session = 10, mi_nas_pdu = [], mi_add_modify = [], mi_release = [2]\<rparr>
     (sample_session [sample_flow 1 9 1, sample_flow 2 8 2]) ([sample_drb 1 10, sample_drb 2 10], init_space SIZEOF_drb_t) [] =
   Inl Out_of_bounds \<and>
   (\<exists>s'. nr_rrc_update_pdusession \<lparr>mi_session = 10, mi_nas_pdu = [], mi_add_modify = [], mi_release = [1]\<rparr>
     (sample_session [sample_flow 1 9 1, sample_flow 2 8 2]) ([sample_drb 1 10, sample_drb 2 10], init_space SIZEOF_drb_t) [] =
   Inr (s', ([sample_drb 2 10], init_space SIZEOF_drb_t), [(new_session_mod 10)\<lparr>em_remove := [2]\<rparr>]))"
proof -
  let ?flows = "[sample_flow 1 9 1, sample_flow 2 8 2]"
  note defs = sample_session_def sample_flow_def sample_drb_def sample_profile_def find_qos_def bearers_ok_def
    MAX_DRBS_PER_UE_def NR_MAX_NB_PDU_SESSIONS_def erase_overflows_def space_shrink_def MIN_SIZE_def
  have ok: "\<forall>f\<in>set ?flows. profile_ok (qf_qos f)"
    by (simp add: profile_ok_def sample_flow_def sample_profile_def standardized_def is_5qi_standardized_def
      assertr_def MAX_FIVEQI_def MAX_STANDARDIZED_FIVEQI_def)
  have arr: "drb_arr_ok ([sample_drb 1 10, sample_drb 2 10], init_space SIZEOF_drb_t)"
    using space_ok_few [of "Suc (Suc 0)" SIZEOF_drb_t]
    by (simp add: drb_arr_ok_def bearers_ok_def sample_drb_def MAX_DRBS_PER_UE_def init_space_def MIN_SIZE_def)
  show ?thesis
    using
      unused_bearer_removal [of "\<lparr>mi_session = 10, mi_nas_pdu = [], mi_add_modify = [], mi_release = [2]\<rparr>" 2
        "sample_session ?flows" ?flows 1 "sample_drb 2 10" "[sample_drb 1 10]" "[]" "init_space SIZEOF_drb_t" "[]"]
      unused_bearer_removal [of "\<lparr>mi_session = 10, mi_nas_pdu = [], mi_add_modify = [], mi_release = [1]\<rparr>" 1
        "sample_session ?flows" ?flows 0 "sample_drb 1 10" "[]" "[sample_drb 2 10]" "init_space SIZEOF_drb_t" "[]"] ok arr
    by (auto simp: defs)
qed

section \<open>Sessions the UE does not have\<close>

lemma no_flows_no_modify:
  assumes "rrc_gNB_get_ue_context rrc i = Some ue" "s \<in> set (pduSessions ue)" "p_qos s = None"
  shows "rrc_gNB_process_NGAP_PDUSESSION_MODIFY_REQ i (amf_ue_ngap_id ue) xs rrc = Inl Assert_failed"
  using assms
  by (auto simp: rrc_gNB_process_NGAP_PDUSESSION_MODIFY_REQ_def clear_ue_ngap_modify_qos_pending_def assertr_def)

lemma no_flows_no_release:
  assumes "s \<in> set (pduSessions ue)" "p_qos s = None"
  shows "rrc_remove_ue ue rrc = Inl Assert_failed"
  using assms by (auto simp: rrc_remove_ue_def rrc_delete_ue_data_def assertr_def)

text \<open>The session that a request for an unknown one leaves behind.\<close>

definition failed_session :: "int \<Rightarrow> rrc_pdu_session" where
  "failed_session sid = (new_session sid [] None)\<lparr>p_status := PDU_SESSION_STATUS_FAILED\<rparr>"

lemma unknown_session_added:
  assumes "mi_session x \<notin> pdusession_id ` set (pduSessions ue)"
    "int (length (pduSessions ue)) < NR_MAX_NB_PDU_SESSIONS"
  shows "if push_fits SIZEOF_rrc_pdu_session_param_t (session_arr ue)
    then \<exists>sp. modify_requested xid [x] (ue, e1, b) =
      Inr (put_session_arr (pduSessions ue @ [failed_session (mi_session x)], sp) ue, e1, b)
    else modify_requested xid [x] (ue, e1, b) = Inl Out_of_bounds"
proof -
  let ?s = "new_session (mi_session x) [] None"
  have none: "find_pduSession (pduSessions ue) (mi_session x) = None"
    using assms(1) by (force simp: find_pduSession_def find_None_iff)
  have "find_pduSession (pduSessions ue @ [?s]) (mi_session x) = Some ?s"
    using assms(1) by (intro find_new_session) (simp_all add: new_session_def)
  then have add: "add_pduSession (session_arr ue) (mi_session x) [] None =
      (if push_fits SIZEOF_rrc_pdu_session_param_t (session_arr ue)
       then Inr (Some ?s, (pduSessions ue @ [?s],
         space_expand SIZEOF_rrc_pdu_session_param_t (length (pduSessions ue)) (sessions_space ue)))
       else Inl Out_of_bounds)"
    using assms(2) none by (simp add: add_pduSession_def arr_push_any assertr_def)
  have "put_session (failed_session (mi_session x)) (pduSessions ue @ [?s]) =
      pduSessions ue @ [failed_session (mi_session x)]"
    using assms(1) by (intro put_session_last) (auto simp: failed_session_def new_session_def)
  then show ?thesis using none add by (auto simp: failed_session_def)
qed

lemma resp_nothing_modified:
  assumes "pduSessions ue \<noteq> []" "xid < NR_RRC_TRANSACTION_IDENTIFIER_NUMBER"
    "\<forall>s\<in>set (pduSessions ue). p_status s \<noteq> PDU_SESSION_STATUS_TOMODIFY \<and>
      (p_status s = PDU_SESSION_STATUS_FAILED \<longrightarrow> p_xid s = -1)"
  shows "rrc_gNB_send_NGAP_PDUSESSION_MODIFY_RESP xid rrc ue =
    Inr (send (Ngap_pdusession_modify_resp (rrc_ue_id ue) [] []) rrc, ue)"
proof -
  have none: "\<forall>s\<in>set (pduSessions ue). \<not> modified (of_nat xid) s" using assms(3) by (auto simp: modified_def)
  then have "map (modify_status (of_nat xid)) (pduSessions ue) = pduSessions ue"
    "filter (modified (of_nat xid)) (pduSessions ue) = []"
    by (auto simp: modify_status_def filter_empty_conv intro: map_idI)
  then have "modify_sessions (of_nat xid) 0 (session_arr ue) (drb_arr ue) [] [] =
      Inr (session_arr ue, drb_arr ue, [], [])"
    using modify_sessions_eq [of "pduSessions ue" "of_nat xid" "[]"] none xid_not_new [OF assms(2)] assms(3) by auto
  then show ?thesis
    using assms(1) by (simp add: rrc_gNB_send_NGAP_PDUSESSION_MODIFY_RESP_def put_session_arr_def put_drb_arr_def)
qed

text \<open>A request for one session, once the pending flows have been cleared.\<close>

lemma modify_req_one:
  assumes "rrc_gNB_get_ue_context rrc i = Some ue" "clear_ue_ngap_modify_qos_pending ue = Inr ue1"
  defines "xid \<equiv> fst (rrc_gNB_get_next_transaction_identifier rrc)"
    and "rrc1 \<equiv> snd (rrc_gNB_get_next_transaction_identifier rrc)"
  shows "case modify_requested (of_nat xid) [x] (ue1, [], True) of
      Inl f \<Rightarrow> rrc_gNB_process_NGAP_PDUSESSION_MODIFY_REQ i (amf_ue_ngap_id ue) [x] rrc = Inl f
    | Inr (ue2, e1, all_failed) \<Rightarrow> all_failed \<longrightarrow>
        rrc_gNB_process_NGAP_PDUSESSION_MODIFY_REQ i (amf_ue_ngap_id ue) [x] rrc =
          bindr (rrc_gNB_send_NGAP_PDUSESSION_MODIFY_RESP xid rrc1 ue2) (\<lambda>(rrc, ue). Inr (put_ue ue rrc))"
  using assms(1,2)
  by (simp add: rrc_gNB_process_NGAP_PDUSESSION_MODIFY_REQ_def split_def Let_def assertr_def
    NR_MAX_NB_PDU_SESSIONS_def xid_def rrc1_def del: modify_requested.simps split: sum.split)

text \<open>What the failed session does to a UE.\<close>

lemma failed_session_stays:
  assumes "rrc_gNB_get_ue_context rrc i = Some ue" "failed_session sid \<in> set (pduSessions ue)"
  shows "rrc_gNB_process_NGAP_PDUSESSION_MODIFY_REQ i (amf_ue_ngap_id ue) xs rrc = Inl Assert_failed"
    "rrc_remove_ue ue rrc' = Inl Assert_failed"
  using no_flows_no_modify [OF assms] no_flows_no_release [OF assms(2)] by (simp_all add: failed_session_def new_session_def)

text \<open>
  C40: A request for an unknown session. The UE has no session with the identity in the request;
  its sessions are in order and none is being modified. The request is answered, with neither a
  modified nor a failed session, and the session stays in the list of the UE as a failed one whose
  array of flows has not been initialised. Every later modify request of the AMF for this UE fails
  an assertion, whatever it asks for, and so does the end of the release of the UE. (When an erasure
  has left the array of sessions with a block too small for a further session, the new one is
  already written behind it.)
\<close>

theorem unknown_session_aborts:
  assumes ue: "rrc_gNB_get_ue_context rrc i = Some ue"
    and ss: "sessions_ok (pduSessions ue)" "int (length (pduSessions ue)) < NR_MAX_NB_PDU_SESSIONS"
      "\<forall>s\<in>set (pduSessions ue). p_status s = PDU_SESSION_STATUS_ESTABLISHED"
    and x: "find_pduSession (pduSessions ue) (mi_session x) = None"
  shows "if push_fits SIZEOF_rrc_pdu_session_param_t (session_arr ue)
    then \<exists>rrc' ue' s. rrc_gNB_process_NGAP_PDUSESSION_MODIFY_REQ i (amf_ue_ngap_id ue) [x] rrc = Inr rrc' \<and>
      sent rrc' = sent rrc @ [Ngap_pdusession_modify_resp i [] []] \<and>
      rrc_gNB_get_ue_context rrc' i = Some ue' \<and>
      s \<in> set (pduSessions ue') \<and> pdusession_id s = mi_session x \<and> p_status s = PDU_SESSION_STATUS_FAILED \<and>
      (\<forall>xs. rrc_gNB_process_NGAP_PDUSESSION_MODIFY_REQ i (amf_ue_ngap_id ue') xs rrc' = Inl Assert_failed) \<and>
      (\<forall>rrc''. rrc_remove_ue ue' rrc'' = Inl Assert_failed)
    else rrc_gNB_process_NGAP_PDUSESSION_MODIFY_REQ i (amf_ue_ngap_id ue) [x] rrc = Inl Out_of_bounds"
proof -
  let ?ss = "map (\<lambda>s. s\<lparr>p_qos := map_option clear_pending (p_qos s)\<rparr>) (pduSessions ue)"
  let ?xid = "fst (rrc_gNB_get_next_transaction_identifier rrc)"
    and ?rrc = "snd (rrc_gNB_get_next_transaction_identifier rrc)"
  let ?ue = "ue\<lparr>pduSessions := ?ss\<rparr>"
  have i: "rrc_ue_id ue = i" using ue by (auto simp: rrc_gNB_get_ue_context_def find_Some_iff)
  have clear: "clear_ue_ngap_modify_qos_pending ue = Inr ?ue"
    using ss(1) by (force simp: clear_ue_ngap_modify_qos_pending_def assertr_def sessions_ok_def)
  have fits: "push_fits SIZEOF_rrc_pdu_session_param_t (session_arr ?ue) \<longleftrightarrow>
      push_fits SIZEOF_rrc_pdu_session_param_t (session_arr ue)" by (simp add: push_fits_def)
  have new: "mi_session x \<notin> pdusession_id ` set (pduSessions ?ue)"
    using x by (auto simp: find_pduSession_def find_None_iff)
  have "int (length (pduSessions ?ue)) < NR_MAX_NB_PDU_SESSIONS" using ss(2) by simp
  note add = unknown_session_added [OF new this, of "of_nat ?xid" "[]" True]
  note req = modify_req_one [OF ue clear, of x]
  show ?thesis
  proof (cases "push_fits SIZEOF_rrc_pdu_session_param_t (session_arr ue)")
    case False
    then show ?thesis using add req fits by (simp del: modify_requested.simps)
  next
    case True
    then obtain sp where sp: "modify_requested (of_nat ?xid) [x] (?ue, [], True) =
        Inr (put_session_arr (?ss @ [failed_session (mi_session x)], sp) ?ue, [], True)"
      using add fits by (auto simp del: modify_requested.simps)
    let ?ue' = "put_session_arr (?ss @ [failed_session (mi_session x)], sp) ?ue"
    let ?rrc' = "put_ue ?ue' (send (Ngap_pdusession_modify_resp i [] []) ?rrc)"
    have "?xid < NR_RRC_TRANSACTION_IDENTIFIER_NUMBER"
      by (simp add: rrc_gNB_get_next_transaction_identifier_def Let_def NR_RRC_TRANSACTION_IDENTIFIER_NUMBER_def)
    then have "rrc_gNB_send_NGAP_PDUSESSION_MODIFY_RESP ?xid ?rrc ?ue' =
        Inr (send (Ngap_pdusession_modify_resp i [] []) ?rrc, ?ue')"
      using resp_nothing_modified [of ?ue' ?xid ?rrc] ss(3) i
      by (auto simp: failed_session_def new_session_def put_session_arr_def)
    then have "rrc_gNB_process_NGAP_PDUSESSION_MODIFY_REQ i (amf_ue_ngap_id ue) [x] rrc = Inr ?rrc'"
      using req sp by (simp del: modify_requested.simps)
    moreover have put: "rrc_gNB_get_ue_context ?rrc' i = Some ?ue'"
      using ue i unfolding get_ue_put by (simp add: rrc_gNB_get_next_transaction_identifier_def
        rrc_gNB_get_ue_context_def send_def Let_def put_session_arr_def)
    moreover have stays: "failed_session (mi_session x) \<in> set (pduSessions ?ue')" by (simp add: put_session_arr_def)
    moreover have "sent ?rrc' = sent rrc @ [Ngap_pdusession_modify_resp i [] []]"
      by (simp add: put_ue_def send_def rrc_gNB_get_next_transaction_identifier_def Let_def)
    moreover have "pdusession_id (failed_session (mi_session x)) = mi_session x"
      "p_status (failed_session (mi_session x)) = PDU_SESSION_STATUS_FAILED"
      by (simp_all add: failed_session_def new_session_def)
    ultimately show ?thesis
      using True failed_session_stays [OF put stays] unfolding if_P [OF True]
      by (intro exI [of _ ?rrc'] exI [of _ ?ue'] exI [of _ "failed_session (mi_session x)"] conjI allI)
  qed
qed

theorem unknown_session_aborts_witness:
  "\<exists>rrc' ue'. rrc_gNB_process_NGAP_PDUSESSION_MODIFY_REQ 1 7
      [\<lparr>mi_session = 11, mi_nas_pdu = [], mi_add_modify = [], mi_release = []\<rparr>] sample_rrc = Inr rrc' \<and>
    rrc_gNB_get_ue_context rrc' 1 = Some ue' \<and> rrc_remove_ue ue' rrc' = Inl Assert_failed"
proof -
  have "rrc_gNB_get_ue_context sample_rrc 1 = Some sample_ue" "amf_ue_ngap_id sample_ue = 7"
    by (simp_all add: rrc_gNB_get_ue_context_def sample_rrc_def sample_ue_def)
  moreover have "sessions_ok (pduSessions sample_ue)"
    "int (length (pduSessions sample_ue)) < NR_MAX_NB_PDU_SESSIONS"
    "\<forall>s\<in>set (pduSessions sample_ue). p_status s = PDU_SESSION_STATUS_ESTABLISHED"
    "find_pduSession (pduSessions sample_ue) 11 = None"
    by (simp_all add: sample_ue_def sessions_ok_def NR_MAX_NB_PDU_SESSIONS_def find_pduSession_def MAX_QOS_FLOWS_def)
  moreover have "push_fits SIZEOF_rrc_pdu_session_param_t (session_arr sample_ue)"
    by (simp add: sample_ue_def push_fits_def space_expand_def init_space_def MIN_SIZE_def
      SIZEOF_rrc_pdu_session_param_t_def)
  ultimately show ?thesis
    using unknown_session_aborts [of sample_rrc 1 sample_ue
      "\<lparr>mi_session = 11, mi_nas_pdu = [], mi_add_modify = [], mi_release = []\<rparr>"] by auto
qed

section \<open>Modification and isolation\<close>

text \<open>
  A modified flow keeps its bearer, whatever its new identifier asks for. Two flows that share a
  bearer can so become delay critical both, and the assertion on the number of delay critical flows
  of a bearer fails when a further flow looks for a bearer of the session.
\<close>

lemma modified_flows_break_isolation:
  "nr_rrc_apply_qos_add_modify 10 [sample_profile 1 82, sample_profile 2 82, sample_profile 3 1]
     (([sample_drb 1 10], init_space SIZEOF_drb_t),
      ([sample_flow 1 1 1, sample_flow 2 2 1], init_space SIZEOF_nr_rrc_qos_t), new_session_mod 10, replicate 33 False) =
   Inl Assert_failed"
  by code_simp

end
