(* ===== verification/Spec2Isabelle.thy ===== *)
theory Spec2Isabelle
  imports Nr_Rlc_Table Nr_Rlc_Um_Link Nr_Rlc_Am_Ack Nr_Pdcp_Table Nr_Sdap_Map Nr_Sdap_Link Nr_Rrc_Ho_N2 Nr_Rrc_Conn_Props
    Nr_Rrc_Modify_Props
begin

text \<open>
  Verification development for the 5G user plane and for the mobility of this OpenAirInterface repository:
  the service data adaptation protocol (SDAP, \<open>openair2/SDAP/nr_sdap\<close>), the packet data convergence
  protocol (PDCP, \<open>openair2/LAYER2/nr_pdcp\<close>) with the security algorithms it uses (\<open>openair3/SECU\<close>), the
  radio link control layer (RLC, \<open>openair2/LAYER2/nr_rlc\<close>) and its timing helper; and the part of the
  radio resource control of the gNB (RRC, \<open>openair2/RRC/NR\<close>) that keeps UE contexts, cells and bearers and
  hands a UE over, with the array and the allocator it is built on (\<open>common/utils\<close>).

  \<^bold>\<open>The program.\<close> At the gNB and at the UE a packet passes SDAP, PDCP, RLC and the medium access layer
  (MAC), and the same layers upwards on the other side. SDAP keeps one entity per PDU session, maps the
  QoS flow of a packet to a data radio bearer and marks it with a one byte header. PDCP keeps one entity
  per bearer: it numbers the packets with a 32 bit COUNT, protects them with a cipher and an
  authentication code, and on reception rebuilds the COUNT, checks and opens the packet, removes
  duplicates and restores the order, with a timer for missing packets; at a handover the COUNT values move
  to the target cell. An RLC entity takes service data units (SDUs) from PDCP with \<open>recv_sdu\<close>; the MAC
  scheduler asks for the buffer status (\<open>buffer_status\<close>) and then, with \<open>generate_pdu\<close>, for a protocol data
  unit (PDU) that fits a transport block; PDUs of the peer arrive with \<open>recv_pdu\<close>, and complete SDUs go up
  through the callback \<open>deliver_sdu\<close>. \<open>set_time\<close> drives the timers once per millisecond. There are three
  kinds of RLC entities: transparent (TM), unacknowledged (UM, segmentation and in-window reassembly) and
  acknowledged mode (AM, with status reports, retransmission and polling).

  In the control plane the central unit (CU) keeps a context for each UE and a table that associates it
  with one of the distributed units (DUs); cells belong to DUs. A measurement report (event A3), an operator
  command or the AMF triggers a handover. Between two DUs of the CU (F1) the CU asks the target DU for a
  context, sends the reconfiguration to the UE through the source DU, moves the association when the
  source answers, and releases the source when the UE completes on the target; when the UE comes back to
  the source instead and reestablishes, all of this is undone. Between two CUs (N2) each one has its half
  of the handover context, and the messages go through the AMF.

  \<^bold>\<open>How the code is modelled.\<close> A C struct is a record, \<open>int\<close> is \<open>int\<close>, unsigned fixed-width integers and
  bytes are words, a buffer with its size is a list of bytes. A function that can abort, fail an
  assertion, dereference a null pointer, use freed memory, leave a buffer or loop for ever returns a value
  of \<open>'a res = fault + 'a\<close>, where each kind of fault is a constructor of \<open>fault\<close> (\<open>Nr_Prelude\<close>). Linked
  lists are lists; the \<open>end\<close> pointer that the RLC code keeps beside a list is an address, and
  \<open>end_ok\<close> is the invariant that it is the address of the last element. The RLC SDUs, which segments
  share under a reference count, are in an explicit store \<open>rlc_heap\<close>; \<open>heap_leak\<close> relates counts and
  segments. Calls of callbacks are recorded in the state (\<open>c_upcalls\<close>, \<open>pe_upcalls\<close>) or are part of the
  result (\<open>sdap_out\<close>). The clock is an argument. Global tables (the UEs of RLC and PDCP, the entities of SDAP) are
  arguments; each interface function runs under one lock in the code and is one step here.
  Loops are structural recursions or have a termination proof; the loops of the code that can run for
  ever (over sequence numbers modulo the modulus) take fuel, which is the number of sequence numbers
  or of slots, so that running out of it means that the loop has come back to a state it was in
  before, and is the fault \<open>Endless_loop\<close>. The loops over a growing array have its number of elements, the
  scan of a word of the identity bitmap its 32 bits. In RRC, pointers to cells, which several owners share,
  go through the store \<open>cell_store\<close>; the arrays of bearers, sessions and flows are lists with the capacity
  and the size of their block, the other arrays, whose elements are small or never erased, lists; the
  red-black trees are ordered lists; the messages to F1AP, NGAP, E1AP
  and PDCP are recorded in \<open>sent\<close>; a callback of the handover context is a constructor that names the
  function. The loop of \<open>generate_status\<close> has the size of the buffer as
  fuel, because every turn but the last one writes at least two bytes.

  \<^bold>\<open>Parameters.\<close> AES in counter mode and AES-CMAC belong to OpenSSL and are fields of the record \<open>crypto\<close>;
  \<open>openssl_ok\<close> states what is documented of them (counter mode keeps the length and is its own inverse,
  the code has sixteen bytes). The F1 identifiers of UEs that RLC reads are an argument. The encoders and decoders of RRC messages, which work
  on structures generated from ASN.1, are fields of the records \<open>rrc_asn1\<close> and \<open>rrc_asn1_conn\<close>; that they
  give a message is the hypothesis \<open>encodes\<close>, \<open>meas_encodes\<close> or \<open>setup_encodes\<close>. Local arrays that the code does not initialise are arguments too, and the
  theorems hold for all values of them.

  \<^bold>\<open>Theories.\<close>
  \<^item> \<open>Nr_Prelude\<close>: faults, C remainder, byte copies, list insertion. \<open>Nr_Table\<close>: the locale
    \<open>entity_table\<close>, the contract of a table of entities seen as a map. \<open>Nr_Asn1\<close> (\<open>asn1_utils.c\<close>): coded values.
  \<^item> \<open>Nr_Rlc_Pdu\<close> (\<open>nr_rlc_pdu.c\<close>): bit-wise encoder and decoder of headers and the list of received
    PDUs; encoding and decoding are inverse, the decoder stays inside of its buffer.
  \<^item> \<open>Nr_Rlc_Sdu\<close> (\<open>nr_rlc_sdu.c\<close>): SDUs, segments, the store and its reference counts.
  \<^item> \<open>Nr_Time_Stat\<close> (\<open>common/utils/time_stat.c\<close>): the sliding average over a growing ring buffer, which
    refines a queue of samples.
  \<^item> \<open>Nr_Rlc_Common\<close> (\<open>nr_rlc_entity.h\<close>): statistics, buffer status, callbacks.
  \<^item> \<open>Nr_Rlc_Tm\<close> (\<open>nr_rlc_entity_tm.c\<close>): refines a bounded queue.
  \<^item> \<open>Nr_Rlc_Reassembly\<close>: the completeness test and the reassembly shared by UM and AM.
  \<^item> \<open>Nr_Rlc_Order\<close>: the locale \<open>sn_order\<close>, the contract of the comparison of sequence numbers modulo a
    window base, interpreted by UM and by both sides of AM.
  \<^item> \<open>Nr_Rlc_Um\<close> (\<open>nr_rlc_entity_um.c\<close>): model; \<open>Nr_Rlc_Um_Rx\<close>: receiver; \<open>Nr_Rlc_Um_Tx\<close>: transmitter;
    \<open>Nr_Rlc_Um_Link\<close>: sender and receiver over a link that loses nothing, as a step relation.
  \<^item> \<open>Nr_Rlc_Rx_Manager\<close> (\<open>nr_rlc_rx_manager.c\<close>): the circular store of received PDUs and the locale
    \<open>rx_store\<close> of its laws.
  \<^item> \<open>Nr_Rlc_Am\<close>, \<open>Nr_Rlc_Am_Status\<close>, \<open>Nr_Rlc_Am_Tx\<close>, \<open>Nr_Rlc_Am_Control\<close> (\<open>nr_rlc_entity_am.c\<close>): model
    of the AM entity: data reception, status reports, transmission and timers, control PDUs.
  \<^item> \<open>Nr_Rlc_Am_Rx\<close>: receiver invariant; \<open>Nr_Rlc_Am_Arq\<close>: transmitter invariant (reference counts over
    three lists, order, window, disjoint segments, exact buffer status); \<open>Nr_Rlc_Am_Gen\<close>: the two
    generators of data PDUs; \<open>Nr_Rlc_Am_Life\<close>: reception of SDUs, discard, timers, deletion;
    \<open>Nr_Rlc_Am_Report\<close>: status reports and the whole \<open>generate_pdu\<close>; \<open>Nr_Rlc_Am_Ack\<close>:
    processing of the status reports of the peer.
  \<^item> \<open>Nr_Rlc_Ue\<close>, \<open>Nr_Rlc_Api\<close> (\<open>nr_rlc_ue_manager.c\<close>, \<open>nr_rlc_oai_api.c\<close>): the table of UEs, logical channels, the
    interface to MAC, PDCP and RRC; \<open>Nr_Rlc_Table\<close>: the table as a map (interpretation \<open>rlc_table\<close>), transport
    blocks (locale \<open>mac_source\<close>, interpreted on all kinds of entities), new bearers, removal of UEs.
  \<^item> \<open>Snow3g_Tables\<close>, \<open>Snow3g\<close> (\<open>openair3/SECU/snow3g.c\<close>): the stream cipher; \<open>Snow3g_Register\<close>: its doubled
    register with a moving pointer refines the register of the specification; \<open>Snow3g_Field\<close>: the
    table-driven multiplication is the one of the field, the authentication code the polynomial hash.
  \<^item> \<open>Nr_Secu\<close> (\<open>openair3/SECU\<close>, \<open>nr_pdcp_security_*.c\<close>, \<open>nr_pdcp_integrity_*.c\<close>): the algorithms as PDCP
    calls them, with the locales \<open>stream_cipher\<close> and \<open>auth_code\<close>, interpreted as \<open>nea1\<close> and \<open>nia1\<close>.
  \<^item> \<open>Nr_Pdcp\<close> (\<open>nr_pdcp_sdu.c\<close>, \<open>nr_pdcp_entity.c\<close>): model of the entity; \<open>Nr_Pdcp_Sec\<close>: security settings and
    the life of the contexts; \<open>Nr_Pdcp_Rx\<close>: COUNT and reordering buffer; \<open>Nr_Pdcp_Link\<close>: what the sender
    protects the receiver opens; \<open>Nr_Pdcp_Net\<close>: two entities over a network that loses, duplicates and
    reorders within the reception window; \<open>Nr_Pdcp_Recv\<close>: the receiver on arbitrary input; \<open>Nr_Pdcp_Count\<close>: the window of COUNT values,
    suspension and re-establishment.
  \<^item> \<open>Nr_Pdcp_Ue\<close> (\<open>nr_pdcp_ue_manager.c\<close>, \<open>nr_pdcp_oai_api.c\<close>, \<open>nr_pdcp_timer_thread.c\<close>): model of the
    layer around the entities; \<open>Nr_Pdcp_Table\<close>: its table as a map (interpretation \<open>pdcp_table\<close>), the
    transfer of COUNT values at a handover, the bearers that are forgotten.
  \<^item> \<open>Nr_Sdap\<close> (\<open>nr_sdap_entity.c\<close>, \<open>nr_sdap.c\<close>): model; \<open>Nr_Sdap_Map\<close>: the list of entities as a map
    (interpretation \<open>sdap_table\<close>) and the mapping rules; \<open>Nr_Sdap_Link\<close>: sender and receiver of a flow.
  \<^item> \<open>Seq_Arr\<close> (\<open>common/utils/ds/seq_arr.c\<close>, \<open>alg/find.c\<close>): the growing array, byte by byte, refines a list;
    the locale \<open>seq_container\<close> of erasure by position, interpreted on the array and on lists.
    \<open>Seq_Arr_Space\<close>: the same array as a list of elements with its capacity and block size, for the
    records of RRC; it refines the array of bytes, the writes behind a block that is too small included.
    \<open>Uid_Alloc\<close> (\<open>collection/linear_alloc.h\<close>): the bitmap of identities refines a set (locale \<open>id_pool\<close>).
  \<^item> \<open>Nr_Rrc_State\<close> (\<open>nr_rrc_defs.h\<close>, \<open>rrc_gNB_mobility.h\<close>, \<open>f1ap_ids.c\<close>, \<open>rrc_gNB_UE_context.c\<close>): the state of
    the CU, associations, lookup of UE contexts.
  \<^item> \<open>Nr_Rrc_Cell\<close> (\<open>rrc_cell_management.c\<close>): cells, DUs, serving cells and their invariant, the choice of the
    target DU. \<open>Nr_Rrc_Bearer\<close> (\<open>rrc_gNB_radio_bearers.c\<close>, the answers of \<open>rrc_gNB_NGAP.c\<close>): the arrays of bearers
    and sessions. \<open>Nr_Rrc_F1_Request\<close> (\<open>rrc_gNB.c\<close>): the bearers with their flows and the measurement
    configuration in a request for a UE context, with the assertions on them and when they hold.
  \<^item> \<open>Nr_Rrc_Ho\<close> (\<open>rrc_gNB_mobility.c\<close>): the functions of a handover; \<open>Nr_Rrc_Ho_Life\<close> (\<open>rrc_gNB.c\<close>,
    \<open>rrc_gNB_du.c\<close>): the handlers that drive it, from the measurement report to the loss of a DU.
    \<open>Nr_Rrc_Ho_F1\<close>: what each step of a handover between DUs does; \<open>Nr_Rrc_Ho_Props\<close>: success, rollback and
    three ways in which it goes wrong; \<open>Nr_Rrc_Ho_N2\<close>: the two sides of a handover between CUs.
  \<^item> \<open>Nr_Rrc_Conn\<close> (\<open>rrc_gNB.c\<close>, \<open>rrc_gNB_UE_context.c\<close>): creation and removal of contexts, setup, reject,
    reestablishment, release; \<open>Nr_Rrc_Conn_Props\<close>: contexts, allocator and associations agree in all
    reachable states (step relation \<open>conn_step\<close>), a connection leaves nothing behind, where a
    reestablishment works.
  \<^item> \<open>Nr_Rrc_Qos\<close> (\<open>rrc_gNB_radio_bearers.c\<close>): the QoS flows of sessions, the choice of their bearers, new
    sessions; \<open>Nr_Rrc_Qos_Props\<close>: how flows share bearers. \<open>Nr_Rrc_Modify\<close> (\<open>rrc_gNB_NGAP.c\<close>): the modification
    of sessions by the AMF and the request to the user plane; \<open>Nr_Rrc_Modify_Props\<close>: what goes wrong when
    a bearer loses its flows, a session is unknown or a flow of a shared bearer is modified.
  \<^item> This theory: SDAP over the PDCP network.

  \<^bold>\<open>Not modelled.\<close> Locks, the queues between the threads of PDCP, the E1 handlers of PDCP
  (\<open>cucp_cuup_handler.c\<close> and the files beside it), the threads that read the IP interface, log messages and
  traces. Of RRC: non-standalone mode, the measurement configuration of a new UE, UE capabilities, derivation of keys and
  the security mode procedure, the setup of DUs and of user plane units, the requests of the AMF for
  new and released sessions, positioning, the
  contents of F1 and E1 messages beyond the identities, cells, tunnels, flows and containers recorded in \<open>rrc_msg\<close>,
  the delayed NG actions. The other parts of the repository, the MAC scheduler, the physical layer, the LTE
  stack, the protocols over structures generated from ASN.1, the radio drivers and the executables, are
  outside of the core chosen here.
\<close>

section \<open>SDAP over PDCP\<close>

text \<open>
  C1: the user plane from end to end. Packets of configured QoS flows with SDAP headers are handed by the
  SDAP entity of one side to the bearer, the PDCP entities carry them over a network that loses and
  duplicates PDUs and reorders them within a window (it hands over only PDUs whose COUNT is within half of
  the sequence number space of the next COUNT to deliver; PDCP could not tell the others apart), and the
  SDAP entity of the other side takes what its PDCP entity delivers.
  It then hands, without a fault and without a change of its rules, a subsequence of the packets in their
  order, byte for byte, to the IP interface (downlink) or with the identifier of their flow to GTP-U
  (uplink); as long as the reordering timer has not expired these are the first \<open>rx_deliv\<close> packets. At any
  time the sending side accepts a further packet of such a flow.
\<close>

theorem user_plane_delivery:
  assumes "pdcp_start C D n0" "(pdcp_step C D)\<^sup>*\<^sup>* n0 n"
    "sdap_sent tx drb packets (nt_sdus n)" "\<forall>x \<in> set packets. packet_ok dl tx rx drb x"
  shows "sdap_receive rx drb (\<not> dl) (map ps_buffer (pe_upcalls (nt_rx n))) =
      Inr (rx, map (packet_out dl) (nths packets (unat ` ps_count ` set (pe_upcalls (nt_rx n))))) \<and>
    (\<not> nt_expired n \<longrightarrow>
      nths packets (unat ` ps_count ` set (pe_upcalls (nt_rx n))) = take (unat (pe_rx_deliv (nt_rx n))) packets) \<and>
    (\<forall>q rqi p. packet_ok dl tx rx drb (q, rqi, p) \<longrightarrow>
      (\<exists>pdu r. nr_sdap_tx_entity tx p q rqi = Inr (Some (To_pdcp drb pdu)) \<and>
        nr_pdcp_entity_process_sdu C (nt_tx n) pdu (nr_max_pdcp_pdu_size (int (length pdu))) = Inr r))"
proof -
  define got where "got = nths packets (unat ` ps_count ` set (pe_upcalls (nt_rx n)))"
  have inv: "pdcp_net_inv C D n" by (rule pdcp_net_inv_steps [OF assms(2) pdcp_net_inv_start [OF assms(1)]])
  have "map ps_buffer (pe_upcalls (nt_rx n)) = nths (nt_sdus n) (unat ` ps_count ` set (pe_upcalls (nt_rx n)))"
    by (rule delivered_nths) (use inv in \<open>simp_all add: pdcp_net_inv_def pdcp_order_inv_def\<close>)
  then have d: "map ps_buffer (pe_upcalls (nt_rx n)) = map (sdap_pdu dl) got"
    by (simp only: sdap_sent_pdus [OF assms(3,4)] nths_map got_def)
  have "\<forall>x \<in> set got. packet_ok dl tx rx drb x" unfolding got_def using assms(4) set_nths_subset by fast
  note r = sdap_receive_packets [OF this, of drb]
  have t: "got = take (unat (pe_rx_deliv (nt_rx n))) packets" if "\<not> nt_expired n"
    using inv that by (simp add: pdcp_net_inv_def unat_interval got_def)
  have "\<exists>pdu r. nr_sdap_tx_entity tx p q rqi = Inr (Some (To_pdcp drb pdu)) \<and>
      nr_pdcp_entity_process_sdu C (nt_tx n) pdu (nr_max_pdcp_pdu_size (int (length pdu))) = Inr r"
    if "packet_ok dl tx rx drb (q, rqi, p)" for q rqi p
  proof -
    have "sdu_fits (nt_tx n) (sdap_pdu dl (q, rqi, p))" using that by (simp add: sdu_fits_def)
    from net_inv_can_send [OF inv this] sdap_tx_packet [OF that] show ?thesis by blast
  qed
  with r t show ?thesis unfolding d got_def [symmetric] by blast
qed

text \<open>
  The witness: both sides are configured from the same RRC structure with two flows on bearer 4, two
  packets are sent downlink and the second one arrives first.
\<close>

definition example_config :: NR_SDAP_Config_t where
  "example_config = \<lparr>nc_pdu_Session = 1, nc_HeaderDL_present = True, nc_HeaderUL_present = True, nc_defaultDRB = True,
     nc_FlowsToAdd = Some [5, 9], nc_FlowsToRelease = None\<rparr>"

definition example_flows :: "bool \<Rightarrow> nr_sdap_entity_t" where
  "example_flows gnb =
     hd (case bindr (nr_sdap_get_config gnb example_config 4) (nr_sdap_addmod_entity [] gnb 7) of
           Inr (l, out) \<Rightarrow> l | Inl _ \<Rightarrow> [])"

definition example_packets :: "packet list" where
  "example_packets = [(9, False, [1, 2, 3]), (5, True, [4])]"

definition "example_up1 = net_send (sdap_pdu True (5, True, [4])) (net_send (sdap_pdu True (9, False, [1, 2, 3])) (example_link True))"
definition "example_up2 = net_arrive 0 (net_arrive 1 example_up1)"

lemma example_up_run: "(pdcp_step example_crypto example_crypto)\<^sup>*\<^sup>* (example_link True) example_up2"
proof -
  let ?a = "sdap_pdu True (9, False, [1, 2, 3])" and ?b = "sdap_pdu True (5, True, [4])"
  have "(if pe_has_sdap_tx (nt_tx (example_link True)) then 1 else 0) < length ?a \<and> length ?a < 100 \<and>
      length (nt_sdus (example_link True)) < 100" by code_simp
  note 1 = net_send_run [OF this]
  have "(if pe_has_sdap_tx (nt_tx (net_send ?a (example_link True))) then 1 else 0) < length ?b \<and> length ?b < 100 \<and>
      length (nt_sdus (net_send ?a (example_link True))) < 100" by code_simp
  note 2 = net_send_run [OF this, folded example_up1_def]
  have "1 < length (nt_pdus example_up1) \<and> in_rx_window (nt_rx example_up1) 1" by code_simp
  note 3 = net_arrive_run [OF this]
  have "0 < length (nt_pdus (net_arrive 1 example_up1)) \<and> in_rx_window (nt_rx (net_arrive 1 example_up1)) 0" by code_simp
  note 4 = net_arrive_run [OF this, folded example_up2_def]
  from 1 2 3 4 show ?thesis by (meson rtranclp_trans)
qed

theorem user_plane_delivery_witness:
  "sdap_receive (example_flows False) 4 False (map ps_buffer (pe_upcalls (nt_rx example_up2))) =
     Inr (example_flows False, [To_tun [1, 2, 3], To_tun [4]])"
proof -
  have "nt_sdus example_up2 = map (sdap_pdu True) example_packets" by code_simp
  moreover have "list_all (packet_ok True (example_flows True) (example_flows False) 4) example_packets" by code_simp
  then have p: "\<forall>x \<in> set example_packets. packet_ok True (example_flows True) (example_flows False) 4 x" by (simp add: list_all_iff)
  ultimately have s: "sdap_sent (example_flows True) 4 example_packets (nt_sdus example_up2)"
    using sdap_tx_packet by (force simp: sdap_sent_def list_all2_conv_all_nth example_packets_def nth_Cons')
  have "nt_expired example_up2 = False" "take (unat (pe_rx_deliv (nt_rx example_up2))) example_packets = example_packets"
    "map (packet_out True) example_packets = [To_tun [1, 2, 3], To_tun [4]]" by code_simp+
  with user_plane_delivery [OF example_link_start example_up_run s p] show ?thesis by simp
qed
end
